(* ===== verification/Wisp_Prelude.thy ===== *)
theory Wisp_Prelude
  imports Main "HOL-Library.Multiset" "HOL-Library.AList"
begin

text \<open>
  Shared vocabulary of the development: the result type that stands for a JavaScript
  function that may throw, the insertion-ordered \<open>Map\<close> of JavaScript as an association
  list, grouping into buckets, and \<open>Array.prototype.sort\<close> with a comparator. The named
  collections are:
  \<^item> \<open>result_simps\<close>: how a throwing computation succeeds or fails;
  \<^item> \<open>reader_wf\<close>: what a field reader guarantees when it returns;
  \<^item> \<open>reader_rt\<close>: readers applied to what the wire carries.
\<close>

named_theorems result_simps \<open>rules for the result type\<close>
named_theorems reader_wf \<open>what a reader guarantees on success\<close>
named_theorems reader_rt \<open>readers on encoded values\<close>

section \<open>Computations that may throw\<close>

text \<open>\<open>Inl msg\<close> is \<open>throw new Error(msg)\<close>, \<open>Inr x\<close> a normal return.\<close>

type_synonym 'a result = "string + 'a"

definition rbind :: "'a result \<Rightarrow> ('a \<Rightarrow> 'b result) \<Rightarrow> 'b result" where
  "rbind m f = (case m of Inl e \<Rightarrow> Inl e | Inr x \<Rightarrow> f x)"

text \<open>\<open>Array.prototype.map\<close> with a callback that may throw and receives the index.\<close>

fun rmap_from :: "nat \<Rightarrow> (nat \<Rightarrow> 'a \<Rightarrow> 'b result) \<Rightarrow> 'a list \<Rightarrow> 'b list result" where
  "rmap_from i f [] = Inr []"
| "rmap_from i f (x # xs) =
     rbind (f i x) (\<lambda>y. rbind (rmap_from (Suc i) f xs) (\<lambda>ys. Inr (y # ys)))"

abbreviation rmap :: "(nat \<Rightarrow> 'a \<Rightarrow> 'b result) \<Rightarrow> 'a list \<Rightarrow> 'b list result" where
  "rmap \<equiv> rmap_from 0"

lemma rbind_simps [simp, result_simps]:
  "rbind (Inl e) f = Inl e"
  "rbind (Inr x) f = f x"
  by (simp_all add: rbind_def)

lemma rbind_Inr_iff [result_simps]:
  "rbind m f = Inr y \<longleftrightarrow> (\<exists>x. m = Inr x \<and> f x = Inr y)"
  by (cases m) auto

lemma rbind_Inl_iff [result_simps]:
  "rbind m f = Inl e \<longleftrightarrow> m = Inl e \<or> (\<exists>x. m = Inr x \<and> f x = Inl e)"
  by (cases m) auto

lemma rbind_cong [fundef_cong]:
  "m = m' \<Longrightarrow> (\<And>x. m' = Inr x \<Longrightarrow> f x = g x) \<Longrightarrow> rbind m f = rbind m' g"
  by (cases m') auto

lemma rmap_from_cong [fundef_cong]:
  "xs = ys \<Longrightarrow> i = j \<Longrightarrow> (\<And>k x. x \<in> set ys \<Longrightarrow> f k x = g k x) \<Longrightarrow>
   rmap_from i f xs = rmap_from j g ys"
proof (induction xs arbitrary: i j ys)
  case Nil
  then show ?case by auto
next
  case (Cons x xs)
  have "rmap_from (Suc i) f xs = rmap_from (Suc i) g xs"
    by (rule Cons.IH) (use Cons.prems in auto)
  with Cons.prems show ?case by auto
qed

lemma rmap_from_list_all:
  assumes "rmap_from i f xs = Inr ys" and "\<And>k x y. x \<in> set xs \<Longrightarrow> f k x = Inr y \<Longrightarrow> P y"
  shows "list_all P ys"
  using assms
proof (induction xs arbitrary: i ys)
  case Nil
  then show ?case by simp
next
  case (Cons x xs)
  from Cons.prems(1) obtain z zs where zs: "ys = z # zs" "f i x = Inr z"
    "rmap_from (Suc i) f xs = Inr zs"
    by (auto simp: result_simps)
  have "list_all P zs"
    by (rule Cons.IH[OF zs(3)]) (rule Cons.prems(2), auto)
  moreover have "P z" by (rule Cons.prems(2)[OF _ zs(2)]) simp
  ultimately show ?case by (simp add: zs(1))
qed

lemma rmap_from_map:
  assumes "\<And>k x. x \<in> set xs \<Longrightarrow> f k (g x) = Inr x"
  shows "rmap_from i f (map g xs) = Inr xs"
  using assms by (induction xs arbitrary: i) auto

lemma rmap_from_length: "rmap_from i f xs = Inr ys \<Longrightarrow> length ys = length xs"
  by (induction xs arbitrary: i ys) (auto simp: result_simps)

section \<open>JavaScript's insertion-ordered Map\<close>

text \<open>
  A \<open>Map\<close> iterates in insertion order and \<open>set\<close> on an existing key keeps the key's
  position. That is the association list of \<open>HOL-Library.AList\<close>: \<open>get\<close> is \<^const>\<open>map_of\<close>,
  \<open>set\<close> is \<^const>\<open>AList.update\<close>, \<open>delete\<close> is \<^const>\<open>AList.delete\<close>, \<open>has\<close> asks the
  domain, \<open>values\<close> and \<open>entries\<close> read the list.
\<close>

type_synonym ('k, 'v) jmap = "('k \<times> 'v) list"

definition jmap_wf :: "('k, 'v) jmap \<Rightarrow> bool" where
  "jmap_wf m \<longleftrightarrow> distinct (map fst m)"

text \<open>What the code relies on from a \<open>Map\<close>, and what follows from it.\<close>

locale insertion_map =
  fixes get :: "'m \<Rightarrow> 'k \<Rightarrow> 'v option"
    and set_entry :: "'k \<Rightarrow> 'v \<Rightarrow> 'm \<Rightarrow> 'm"
    and del_entry :: "'k \<Rightarrow> 'm \<Rightarrow> 'm"
    and keys_of :: "'m \<Rightarrow> 'k list"
    and wf_map :: "'m \<Rightarrow> bool"
  assumes get_set: "get (set_entry k v m) = (get m)(k \<mapsto> v)"
    and get_del: "get (del_entry k m) = (get m)(k := None)"
    and keys_get: "set (keys_of m) = dom (get m)"
    and keys_set: "keys_of (set_entry k v m) = (if k \<in> set (keys_of m) then keys_of m else keys_of m @ [k])"
    and keys_distinct: "wf_map m \<Longrightarrow> distinct (keys_of m)"
    and wf_set: "wf_map m \<Longrightarrow> wf_map (set_entry k v m)"
    and wf_del: "wf_map m \<Longrightarrow> wf_map (del_entry k m)"
begin

lemma get_set_same: "get (set_entry k v m) k = Some v"
  by (simp add: get_set)

lemma get_set_other: "j \<noteq> k \<Longrightarrow> get (set_entry k v m) j = get m j"
  by (simp add: get_set)

lemma get_del_same: "get (del_entry k m) k = None"
  by (simp add: get_del)

lemma del_keys: "set (keys_of (del_entry k m)) = set (keys_of m) - {k}"
  by (auto simp: keys_get get_del)

text \<open>A run of \<open>set\<close> calls: the last write to a key wins.\<close>

lemma get_fold_set:
  "get (fold (\<lambda>(k, v). set_entry k v) kvs m) j =
     (case map_of (rev kvs) j of Some v \<Rightarrow> Some v | None \<Rightarrow> get m j)"
  by (induction kvs arbitrary: m) (auto simp: get_set map_add_def split: option.splits)

end

lemma keys_update: "map fst (AList.update k v m) = (if k \<in> fst ` set m then map fst m else map fst m @ [k])"
  by (induction m) auto

interpretation jmap: insertion_map map_of AList.update AList.delete "map fst" jmap_wf
proof
  show "map_of (AList.update k v m) = (map_of m)(k \<mapsto> v)" for k :: 'a and v :: 'b and m
    by (simp add: update_conv')
  show "map_of (AList.delete k m) = (map_of m)(k := None)" for k :: 'a and m :: "('a \<times> 'b) list"
    by (simp add: delete_conv')
  show "set (map fst m) = dom (map_of m)" for m :: "('a \<times> 'b) list"
    by (simp add: dom_map_of_conv_image_fst)
  show "map fst (AList.update k v m) = (if k \<in> set (map fst m) then map fst m else map fst m @ [k])"
    for k :: 'a and v :: 'b and m
    by (simp add: keys_update)
  show "distinct (map fst m)" if "jmap_wf m" for m :: "('a \<times> 'b) list"
    using that by (simp add: jmap_wf_def)
  show "jmap_wf (AList.update k v m)" if "jmap_wf m" for k :: 'a and v :: 'b and m
    using that by (simp add: jmap_wf_def distinct_update)
  show "jmap_wf (AList.delete k m)" if "jmap_wf m" for k :: 'a and m :: "('a \<times> 'b) list"
    using that by (simp add: jmap_wf_def distinct_delete)
qed

lemma jmap_wf_Nil [simp]: "jmap_wf []"
  by (simp add: jmap_wf_def)

lemma jmap_get_mem: "map_of m k = Some v \<Longrightarrow> (k, v) \<in> set m"
  by (rule map_of_SomeD)

section \<open>Grouping into buckets\<close>

text \<open>
  The idiom \<open>const bucket = map.get(key); if (bucket) bucket.push(x); else map.set(key, [x])\<close>.
\<close>

definition bucket_push :: "'k \<Rightarrow> 'a \<Rightarrow> ('k, 'a list) jmap \<Rightarrow> ('k, 'a list) jmap" where
  "bucket_push k x m =
     (case map_of m k of Some b \<Rightarrow> AList.update k (b @ [x]) m | None \<Rightarrow> AList.update k [x] m)"

definition group_by :: "('a \<Rightarrow> 'k) \<Rightarrow> 'a list \<Rightarrow> ('k, 'a list) jmap" where
  "group_by key xs = fold (\<lambda>x m. bucket_push (key x) x m) xs []"

lemma map_of_bucket_push:
  "map_of (bucket_push k x m) = (map_of m)(k \<mapsto> (case map_of m k of Some b \<Rightarrow> b @ [x] | None \<Rightarrow> [x]))"
  by (auto simp: bucket_push_def jmap.get_set split: option.splits)

lemma jmap_wf_bucket_push: "jmap_wf m \<Longrightarrow> jmap_wf (bucket_push k x m)"
  by (auto simp: bucket_push_def jmap.wf_set split: option.splits)

lemma map_of_group_fold:
  "map_of (fold (\<lambda>x m. bucket_push (key x) x m) xs m) k =
     (if k \<in> key ` set xs \<or> map_of m k \<noteq> None
      then Some ((case map_of m k of Some b \<Rightarrow> b | None \<Rightarrow> []) @ filter (\<lambda>x. key x = k) xs) else None)"
  by (induction xs arbitrary: m) (auto simp: map_of_bucket_push split: option.splits if_splits)

lemma map_of_group_by:
  "map_of (group_by key xs) k = (if k \<in> key ` set xs then Some (filter (\<lambda>x. key x = k) xs) else None)"
  by (simp add: group_by_def map_of_group_fold)

lemma jmap_wf_group_by: "jmap_wf (group_by key xs)"
proof -
  have "jmap_wf m \<Longrightarrow> jmap_wf (fold (\<lambda>x m. bucket_push (key x) x m) xs m)" for m
    by (induction xs arbitrary: m) (auto simp: jmap_wf_bucket_push)
  then show ?thesis by (simp add: group_by_def)
qed

lemma group_by_entry:
  assumes "(k, b) \<in> set (group_by key xs)"
  shows "b = filter (\<lambda>x. key x = k) xs" and "k \<in> key ` set xs" and "b \<noteq> []"
proof -
  have "map_of (group_by key xs) k = Some b"
    using assms jmap_wf_group_by[of key xs] by (simp add: jmap_wf_def)
  then show "b = filter (\<lambda>x. key x = k) xs" and "k \<in> key ` set xs"
    by (auto simp: map_of_group_by split: if_splits)
  then show "b \<noteq> []" by (auto simp: filter_empty_conv)
qed

lemma group_by_keys: "fst ` set (group_by key xs) = key ` set xs"
proof -
  have "fst ` set (group_by key xs) = dom (map_of (group_by key xs))"
    by (simp add: dom_map_of_conv_image_fst)
  also have "\<dots> = key ` set xs"
    by (auto simp: map_of_group_by dom_def split: if_splits)
  finally show ?thesis .
qed

text \<open>No item is lost and none is duplicated by grouping.\<close>

lemma concat_update_mset:
  "map_of m k = Some b \<Longrightarrow> distinct (map fst m) \<Longrightarrow>
   mset (concat (map snd (AList.update k (b @ [x]) m))) = add_mset x (mset (concat (map snd m)))"
  by (induction m) (auto simp: image_iff split: if_splits)

lemma mset_group_fold:
  assumes "jmap_wf m"
  shows "mset (concat (map snd (fold (\<lambda>x m. bucket_push (key x) x m) xs m))) =
         mset (concat (map snd m)) + mset xs"
  using assms
proof (induction xs arbitrary: m)
  case Nil
  then show ?case by simp
next
  case (Cons x xs)
  have fresh: "map_of m k = None \<Longrightarrow> AList.update k [x] m = m @ [(k, [x])]" for k
    by (induction m) (auto split: if_splits)
  have "mset (concat (map snd (bucket_push (key x) x m))) = add_mset x (mset (concat (map snd m)))"
    using Cons.prems
    by (cases "map_of m (key x)") (auto simp: bucket_push_def fresh concat_update_mset jmap_wf_def)
  with Cons.IH[OF jmap_wf_bucket_push[OF Cons.prems]] show ?case by simp
qed

lemma mset_group_by: "mset (concat (map snd (group_by key xs))) = mset xs"
  using mset_group_fold[of "[]" key xs] by (simp add: group_by_def)

section \<open>Records collected per key\<close>

text \<open>
  The idiom \<open>let d = map.get(key); if (!d) { d = fresh(key); map.set(key, d); }\<close> followed by
  assignments to \<open>d\<close>.
\<close>

definition entry_or :: "('k \<Rightarrow> 'v) \<Rightarrow> ('k, 'v) jmap \<Rightarrow> 'k \<Rightarrow> 'v" where
  "entry_or fresh m k = (case map_of m k of Some d \<Rightarrow> d | None \<Rightarrow> fresh k)"

definition with_entry :: "('k \<Rightarrow> 'v) \<Rightarrow> 'k \<Rightarrow> ('v \<Rightarrow> 'v) \<Rightarrow> ('k, 'v) jmap \<Rightarrow> ('k, 'v) jmap" where
  "with_entry fresh k f m = AList.update k (f (entry_or fresh m k)) m"

lemma entry_or_Nil [simp]: "entry_or fresh [] k = fresh k"
  by (simp add: entry_or_def)

lemma entry_or_with:
  "entry_or fresh (with_entry fresh k f m) a = (if a = k then f (entry_or fresh m k) else entry_or fresh m a)"
  by (simp add: entry_or_def with_entry_def jmap.get_set)

lemma entry_or_fold:
  "entry_or fresh (fold (\<lambda>x. with_entry fresh (key x) (f x)) xs m) a =
     fold f (filter (\<lambda>x. key x = a) xs) (entry_or fresh m a)"
  by (induction xs arbitrary: m) (auto simp: entry_or_with)

lemma keys_with_entry: "fst ` set (with_entry fresh k f m) = insert k (fst ` set m)"
proof -
  have "fst ` set (with_entry fresh k f m) = set (map fst (with_entry fresh k f m))" by simp
  also have "\<dots> = insert k (fst ` set m)"
    unfolding with_entry_def keys_update by auto
  finally show ?thesis .
qed

lemma keys_with_fold:
  "fst ` set (fold (\<lambda>x. with_entry fresh (key x) (f x)) xs m) = fst ` set m \<union> key ` set xs"
  by (induction xs arbitrary: m) (auto simp: keys_with_entry)

lemma wf_with_fold: "jmap_wf m \<Longrightarrow> jmap_wf (fold (\<lambda>x. with_entry fresh (key x) (f x)) xs m)"
  by (induction xs arbitrary: m) (auto simp: with_entry_def jmap.wf_set)

lemma entry_or_mem: "jmap_wf m \<Longrightarrow> (k, d) \<in> set m \<Longrightarrow> d = entry_or fresh m k"
  by (simp add: entry_or_def jmap_wf_def)

section \<open>Array.prototype.sort\<close>

text \<open>
  \<open>sort\<close> is stable. The comparator's sign decides; a \<open>NaN\<close> result counts as 0. For a
  comparator that is a total preorder the stable result is unique and insertion sort
  computes it; for any other comparator the order is up to the engine, and the theorems on
  order below all assume the preorder.
\<close>

type_synonym 'a comparator = "'a \<Rightarrow> 'a \<Rightarrow> int"

fun js_insert :: "'a comparator \<Rightarrow> 'a \<Rightarrow> 'a list \<Rightarrow> 'a list" where
  "js_insert cmp x [] = [x]"
| "js_insert cmp x (y # ys) = (if cmp x y \<le> 0 then x # y # ys else y # js_insert cmp x ys)"

definition js_sort :: "'a comparator \<Rightarrow> 'a list \<Rightarrow> 'a list" where
  "js_sort cmp xs = foldr (js_insert cmp) xs []"

lemma js_sort_simps [simp]:
  "js_sort cmp [] = []"
  "js_sort cmp (x # xs) = js_insert cmp x (js_sort cmp xs)"
  by (simp_all add: js_sort_def)

lemma mset_js_insert: "mset (js_insert cmp x ys) = add_mset x (mset ys)"
  by (induction ys) auto

lemma mset_js_sort [simp]: "mset (js_sort cmp xs) = mset xs"
  by (induction xs) (auto simp: mset_js_insert)

lemma set_js_insert [simp]: "set (js_insert cmp x ys) = insert x (set ys)"
  by (induction ys) auto

lemma set_js_sort [simp]: "set (js_sort cmp xs) = set xs"
  by (induction xs) auto

lemma length_js_sort [simp]: "length (js_sort cmp xs) = length xs"
  by (metis mset_js_sort size_mset)

lemma js_sort_Nil_iff [simp]: "js_sort cmp xs = [] \<longleftrightarrow> xs = []"
  by (metis length_0_conv length_js_sort)

lemma distinct_map_js_sort: "distinct (map f (js_sort cmp xs)) \<longleftrightarrow> distinct (map f xs)"
  by (rule mset_eq_imp_distinct_iff) simp

text \<open>The contract of a comparator on the values the code sorts, and what \<open>sort\<close> then gives.\<close>

locale js_order =
  fixes cmp :: "'a comparator"
    and A :: "'a set"
  assumes cmp_total: "x \<in> A \<Longrightarrow> y \<in> A \<Longrightarrow> 0 < cmp x y \<Longrightarrow> cmp y x < 0"
    and cmp_trans: "x \<in> A \<Longrightarrow> y \<in> A \<Longrightarrow> z \<in> A \<Longrightarrow> cmp x y \<le> 0 \<Longrightarrow> cmp y z \<le> 0 \<Longrightarrow> cmp x z \<le> 0"
begin

abbreviation in_order :: "'a list \<Rightarrow> bool" where
  "in_order \<equiv> sorted_wrt (\<lambda>x y. cmp x y \<le> 0)"

lemma js_insert_sorted:
  assumes "x \<in> A" "set ys \<subseteq> A" "in_order ys"
  shows "in_order (js_insert cmp x ys)"
  using assms
proof (induction ys)
  case Nil
  then show ?case by simp
next
  case (Cons y ys)
  show ?case
  proof (cases "cmp x y \<le> 0")
    case True
    with Cons.prems show ?thesis by (auto intro: cmp_trans[of x y])
  next
    case False
    with Cons.prems have "cmp y x \<le> 0" using cmp_total[of x y] by auto
    with False Cons show ?thesis by auto
  qed
qed

lemma js_sort_sorted: "set xs \<subseteq> A \<Longrightarrow> in_order (js_sort cmp xs)"
  by (induction xs) (simp_all add: js_insert_sorted)

text \<open>Stability: the items a comparator cannot tell apart from \<open>z\<close> keep their order.\<close>

abbreviation equiv :: "'a \<Rightarrow> 'a \<Rightarrow> bool" where
  "equiv x y \<equiv> cmp x y \<le> 0 \<and> cmp y x \<le> 0"

lemma js_insert_stable:
  assumes "x \<in> A" "set ys \<subseteq> A" "z \<in> A" "in_order ys"
  shows "filter (equiv z) (js_insert cmp x ys) = filter (equiv z) (x # ys)"
  using assms
proof (induction ys)
  case Nil
  then show ?case by simp
next
  case (Cons y ys)
  show ?case
  proof (cases "cmp x y \<le> 0")
    case False
    with Cons.prems have lt: "cmp y x < 0" using cmp_total[of x y] by auto
    have "\<not> (equiv z x \<and> equiv z y)"
      using False Cons.prems cmp_trans[of x z y] by auto
    with False Cons show ?thesis by auto
  qed simp
qed

lemma js_sort_stable:
  "set xs \<subseteq> A \<Longrightarrow> z \<in> A \<Longrightarrow> filter (equiv z) (js_sort cmp xs) = filter (equiv z) xs"
  by (induction xs) (auto simp: js_insert_stable js_sort_sorted)

lemma js_sort_hd_least:
  assumes "set xs \<subseteq> A" "x \<in> set xs"
  shows "cmp (hd (js_sort cmp xs)) x \<le> 0"
proof -
  from assms have ne: "js_sort cmp xs \<noteq> []" by auto
  then obtain y ys where y: "js_sort cmp xs = y # ys" by (cases "js_sort cmp xs") auto
  have ord: "in_order (y # ys)" using js_sort_sorted[OF assms(1)] y by simp
  have mem: "set (y # ys) = set xs" using set_js_sort[of cmp xs] y by simp
  have "y \<in> A" using mem assms(1) by auto
  then have "cmp y y \<le> 0" using cmp_total[of y y] by force
  then show ?thesis using ord mem assms(2) y by auto
qed

end

lemma js_order_key: "js_order (\<lambda>a b. f a - f b) A"
  by unfold_locales auto

lemma js_order_key_desc: "js_order (\<lambda>a b. f b - f a) A"
  by unfold_locales auto

text \<open>
  Rows grouped by a key, each group and then the groups sorted, are the rows again; the
  liveness board and the burn meter are both built this way.
\<close>

lemma mset_concat: "mset (concat (map f xs)) = sum_mset (image_mset (mset \<circ> f) (mset xs))"
  by (induction xs) simp_all

lemma mset_grouped:
  assumes "\<And>p xs. rows (mk (p, xs)) = js_sort cmp xs"
  shows "mset (concat (map rows (js_sort cmp' (map mk (group_by key ys))))) = mset ys"
proof -
  have "mset (concat (map rows (js_sort cmp' (map mk (group_by key ys))))) =
      sum_mset (image_mset (mset \<circ> snd) (mset (group_by key ys)))"
    by (auto simp: mset_concat image_mset.compositionality comp_def assms
        intro!: arg_cong[where f = sum_mset] image_mset_cong)
  also have "\<dots> = mset (concat (map snd (group_by key ys)))" by (simp add: mset_concat)
  finally show ?thesis by (simp add: mset_group_by)
qed

lemma distinct_grouped:
  assumes "\<And>p xs. name (mk (p, xs)) = p"
  shows "distinct (map name (js_sort cmp' (map mk (group_by key ys))))"
proof -
  have "map name (map mk (group_by key ys)) = map fst (group_by key ys)" by (auto simp: assms)
  then show ?thesis using jmap_wf_group_by[of key ys] by (simp only: distinct_map_js_sort jmap_wf_def)
qed

text \<open>A string is split in one way at the last occurrence of a separator.\<close>

lemma split_last_unique:
  "d \<notin> set u \<Longrightarrow> d \<notin> set v \<Longrightarrow> x @ d # u = y @ d # v \<Longrightarrow> x = y \<and> u = v"
proof -
  assume uv: "d \<notin> set u" "d \<notin> set v" and eq: "x @ d # u = y @ d # v"
  have "takeWhile (\<lambda>c. c \<noteq> d) (rev (x @ d # u)) = rev u" "takeWhile (\<lambda>c. c \<noteq> d) (rev (y @ d # v)) = rev v"
    using uv by (simp_all add: takeWhile_append)
  with eq have "u = v" by simp
  with eq show ?thesis by simp
qed

end
