(* ===== verification/Js_Runtime.thy ===== *)
theory Js_Runtime
  imports Complex_Main Wisp_Prelude
begin

text \<open>
  The part of JavaScript's standard library the frontend uses: string methods, character
  classes of its regular expressions, decimal rendering of integers, the values
  \<open>JSON.parse\<close> returns, and \<open>new Date(s).getTime()\<close>.

  A string is a list of UTF-16 code units, and the model covers the units below 256
  (Latin-1), one \<open>char\<close> each, so \<open>length\<close> and \<open>slice\<close> count what the code
  counts. The two literals of the sources that lie outside this range, the em dash and the
  ellipsis, are represented by one reserved unit each.
\<close>

section \<open>Characters\<close>

definition is_digit :: "char \<Rightarrow> bool" where
  "is_digit c \<longleftrightarrow> of_char c \<ge> (48::nat) \<and> of_char c \<le> (57::nat)"

definition is_lower :: "char \<Rightarrow> bool" where
  "is_lower c \<longleftrightarrow> of_char c \<ge> (97::nat) \<and> of_char c \<le> (122::nat)"

definition is_upper :: "char \<Rightarrow> bool" where
  "is_upper c \<longleftrightarrow> of_char c \<ge> (65::nat) \<and> of_char c \<le> (90::nat)"

text \<open>\<open>[0-9a-f]\<close> under the \<open>i\<close> flag.\<close>

definition is_hex :: "char \<Rightarrow> bool" where
  "is_hex c \<longleftrightarrow> is_digit c \<or> (of_char c \<ge> (97::nat) \<and> of_char c \<le> (102::nat))
     \<or> (of_char c \<ge> (65::nat) \<and> of_char c \<le> (70::nat))"

text \<open>\<open>\s\<close>, which is also what \<open>trim\<close> removes.\<close>

definition is_space :: "char \<Rightarrow> bool" where
  "is_space c \<longleftrightarrow> of_char c \<in> {9, 10, 11, 12, 13, 32, 160 :: nat}"

definition digit_val :: "char \<Rightarrow> nat" where
  "digit_val c = of_char c - 48"

definition digit_char :: "nat \<Rightarrow> char" where
  "digit_char d = char_of (48 + d)"

definition lower_char :: "char \<Rightarrow> char" where
  "lower_char c = (let n = of_char c :: nat in
     if is_upper c \<or> (192 \<le> n \<and> n \<le> 222 \<and> n \<noteq> 215) then char_of (n + 32) else c)"

section \<open>Strings\<close>

definition starts_with :: "string \<Rightarrow> string \<Rightarrow> bool" where
  "starts_with s p \<longleftrightarrow> take (length p) s = p"

definition ends_with :: "string \<Rightarrow> string \<Rightarrow> bool" where
  "ends_with s p \<longleftrightarrow> drop (length s - length p) s = p"

fun includes_str :: "string \<Rightarrow> string \<Rightarrow> bool" where
  "includes_str [] p = (p = [])"
| "includes_str (c # s) p = (starts_with (c # s) p \<or> includes_str s p)"

text \<open>\<open>s.slice(a, b)\<close> for \<open>0 \<le> a \<le> b\<close>.\<close>

definition slice :: "string \<Rightarrow> nat \<Rightarrow> nat \<Rightarrow> string" where
  "slice s a b = take (b - a) (drop a s)"

definition trim_start :: "string \<Rightarrow> string" where
  "trim_start s = dropWhile is_space s"

definition trim :: "string \<Rightarrow> string" where
  "trim s = rev (dropWhile is_space (rev (dropWhile is_space s)))"

definition to_lower :: "string \<Rightarrow> string" where
  "to_lower s = map lower_char s"

text \<open>\<open>s.split(c)\<close> for a one-character separator: always at least one piece.\<close>

fun split_on :: "char \<Rightarrow> string \<Rightarrow> string list" where
  "split_on d [] = [[]]"
| "split_on d (c # s) =
     (if c = d then [] # split_on d s
      else (case split_on d s of [] \<Rightarrow> [[c]] | w # ws \<Rightarrow> (c # w) # ws))"

fun join_with :: "string \<Rightarrow> string list \<Rightarrow> string" where
  "join_with d [] = []"
| "join_with d [w] = w"
| "join_with d (w # ws) = w @ d @ join_with d ws"

text \<open>\<open>s.replace(/\s+/g, " ")\<close>: every run of white space becomes one blank.\<close>

fun collapse_ws :: "string \<Rightarrow> string" where
  "collapse_ws [] = []"
| "collapse_ws (c # s) =
     (if is_space c
      then (case s of [] \<Rightarrow> '' '' | d # _ \<Rightarrow> if is_space d then collapse_ws s else CHR '' '' # collapse_ws s)
      else c # collapse_ws s)"

definition em_dash :: string where
  "em_dash = [char_of (151::nat)]"

definition ellipsis_char :: string where
  "ellipsis_char = [char_of (133::nat)]"

definition nul_char :: string where
  "nul_char = [char_of (0::nat)]"

section \<open>Decimal rendering\<close>

fun show_nat :: "nat \<Rightarrow> string" where
  "show_nat n = (if n < 10 then [digit_char n] else show_nat (n div 10) @ [digit_char (n mod 10)])"

declare show_nat.simps [simp del]

definition show_int :: "int \<Rightarrow> string" where
  "show_int i = (if i < 0 then CHR ''-'' # show_nat (nat (- i)) else show_nat (nat i))"

definition read_nat :: "string \<Rightarrow> nat" where
  "read_nat s = foldl (\<lambda>n c. 10 * n + digit_val c) 0 s"

section \<open>JSON values\<close>

text \<open>
  A decoded number is a finite double, as the rational it denotes, or an infinity (a
  literal such as \<open>1e999\<close> overflows). Objects list their own properties in enumeration
  order. A missing property reads as \<open>undefined\<close>: field reads give \<open>json option\<close>.
\<close>

datatype jsnum = Fin rat | PosInf | NegInf

datatype json =
    JNull
  | JBool bool
  | JNum jsnum
  | JStr string
  | JArr "json list"
  | JObj "(string \<times> json) list"

type_synonym json_object = "(string \<times> json) list"

definition num_is_finite :: "jsnum \<Rightarrow> bool" where
  "num_is_finite n \<longleftrightarrow> (case n of Fin _ \<Rightarrow> True | _ \<Rightarrow> False)"

text \<open>\<open>Number.MAX_SAFE_INTEGER\<close> is \<open>2^53 - 1\<close>.\<close>

definition max_safe_integer :: int where
  "max_safe_integer = 9007199254740991"

text \<open>The integer a number denotes when \<open>Number.isSafeInteger\<close> holds of it.\<close>

definition safe_integer :: "jsnum \<Rightarrow> int option" where
  "safe_integer n = (case n of
     Fin r \<Rightarrow> if of_int \<lfloor>r\<rfloor> = r \<and> \<bar>\<lfloor>r\<rfloor>\<bar> \<le> max_safe_integer then Some \<lfloor>r\<rfloor> else None
   | _ \<Rightarrow> None)"

abbreviation jint :: "int \<Rightarrow> json" where
  "jint i \<equiv> JNum (Fin (of_int i))"

section \<open>Timestamps\<close>

text \<open>A string matches a shape when each character is in the class at its position.\<close>

definition matches_shape :: "(char \<Rightarrow> bool) list \<Rightarrow> string \<Rightarrow> bool" where
  "matches_shape ps s \<longleftrightarrow> list_all2 (\<lambda>p c. p c) ps s"

definition lit :: "char \<Rightarrow> char \<Rightarrow> bool" where
  "lit a c \<longleftrightarrow> c = a"

definition date_time_shape :: "(char \<Rightarrow> bool) list" where
  "date_time_shape =
     [is_digit, is_digit, is_digit, is_digit, lit (CHR ''-''), is_digit, is_digit, lit (CHR ''-''),
      is_digit, is_digit, lit (CHR ''T''), is_digit, is_digit, lit (CHR '':''), is_digit, is_digit,
      lit (CHR '':''), is_digit, is_digit]"

definition sign_class :: "char \<Rightarrow> bool" where
  "sign_class c \<longleftrightarrow> c = CHR ''+'' \<or> c = CHR ''-''"

definition offset_shape :: "(char \<Rightarrow> bool) list" where
  "offset_shape = [sign_class, is_digit, is_digit, lit (CHR '':''), is_digit, is_digit]"

text \<open>The zone designator \<open>Z|[+-]\d{2}:\d{2}\<close> up to the end of the string.\<close>

definition matches_zone :: "string \<Rightarrow> bool" where
  "matches_zone s \<longleftrightarrow> s = ''Z'' \<or> matches_shape offset_shape s"

text \<open>
  \<open>^\d{4}-\d{2}-\d{2}T\d{2}:\d{2}:\d{2}(?:\.\d+)?(?:Z|[+-]\d{2}:\d{2})$\<close>. The fraction
  takes every digit: no zone begins with one.
\<close>

definition matches_rfc3339 :: "string \<Rightarrow> bool" where
  "matches_rfc3339 s \<longleftrightarrow>
     matches_shape date_time_shape (take 19 s) \<and>
     (let r = drop 19 s in
      case r of
        [] \<Rightarrow> False
      | c # r' \<Rightarrow>
          (if c = CHR ''.''
           then takeWhile is_digit r' \<noteq> [] \<and> matches_zone (dropWhile is_digit r')
           else matches_zone r))"

text \<open>Days from 1970-01-01 in the proleptic Gregorian calendar.\<close>

definition days_from_civil :: "int \<Rightarrow> int \<Rightarrow> int \<Rightarrow> int" where
  "days_from_civil year month day =
     (let y = (if month \<le> 2 then year - 1 else year);
          era = y div 400;
          yoe = y - era * 400;
          mp = (if month > 2 then month - 3 else month + 9);
          doy = (153 * mp + 2) div 5 + day - 1;
          doe = yoe * 365 + yoe div 4 - yoe div 100 + doy
      in era * 146097 + doe - 719468)"

text \<open>Milliseconds of the fraction: its first three digits, padded with zeros.\<close>

definition fraction_ms :: "string \<Rightarrow> int" where
  "fraction_ms s = (case drop 19 s of
     c # r \<Rightarrow> if c = CHR ''.'' then int (read_nat (take 3 (takeWhile is_digit r @ ''00''))) else 0
   | [] \<Rightarrow> 0)"

definition zone_offset_minutes :: "string \<Rightarrow> int" where
  "zone_offset_minutes s =
     (if ends_with s ''Z'' then 0
      else let z = drop (length s - 6) s;
               m = int (read_nat (slice z 1 3)) * 60 + int (read_nat (slice z 4 6))
           in if hd z = CHR ''-'' then - m else m)"

text \<open>
  \<open>new Date(s).getTime()\<close>; \<^const>\<open>None\<close> is \<open>NaN\<close>. Only strings that passed
  \<open>readRfc3339\<close> reach this call in the code. A second of 60 is an invalid date for
  JavaScript, whatever the calendar says.
\<close>

definition get_time :: "string \<Rightarrow> int option" where
  "get_time s =
     (if \<not> matches_rfc3339 s then None
      else
        let year = int (read_nat (slice s 0 4)); month = int (read_nat (slice s 5 7));
            day = int (read_nat (slice s 8 10)); hour = int (read_nat (slice s 11 13));
            minute = int (read_nat (slice s 14 16)); second = int (read_nat (slice s 17 19))
        in if month < 1 \<or> month > 12 \<or> day < 1 \<or> day > 31 \<or> hour > 23 \<or> minute > 59 \<or> second > 59
           then None
           else Some ((((days_from_civil year month day * 24 + hour) * 60 + minute
                        - zone_offset_minutes s) * 60 + second) * 1000 + fraction_ms s))"

text \<open>\<open>(a, b) => new Date(f(a)).getTime() - new Date(f(b)).getTime()\<close>.\<close>

definition cmp_time :: "('a \<Rightarrow> string) \<Rightarrow> 'a comparator" where
  "cmp_time f a b = (case (get_time (f a), get_time (f b)) of (Some x, Some y) \<Rightarrow> x - y | _ \<Rightarrow> 0)"

definition has_time :: "string \<Rightarrow> bool" where
  "has_time s \<longleftrightarrow> get_time s \<noteq> None"

section \<open>Lemmas on strings and numbers\<close>

lemma split_on_not_Nil [simp]: "split_on d s \<noteq> []"
  by (induction s) (auto split: list.splits)

lemma split_on_no_sep: "w \<in> set (split_on d s) \<Longrightarrow> d \<notin> set w"
proof (induction s arbitrary: w)
  case (Cons c s)
  obtain w0 ws where w0: "split_on d s = w0 # ws"
    by (cases "split_on d s") auto
  from Cons.IH have "\<And>w. w \<in> set (w0 # ws) \<Longrightarrow> d \<notin> set w" by (simp add: w0)
  with Cons.prems show ?case by (auto simp: w0 split: if_splits)
qed simp

lemma join_split_on: "join_with [d] (split_on d s) = s"
proof (induction s)
  case (Cons c s)
  obtain w ws where w: "split_on d s = w # ws" by (cases "split_on d s") auto
  from Cons show ?case by (cases ws) (auto simp: w)
qed simp

lemma set_split_on: "w \<in> set (split_on d s) \<Longrightarrow> set w \<subseteq> set s"
proof (induction s arbitrary: w)
  case (Cons c s)
  obtain w0 ws where w0: "split_on d s = w0 # ws" by (cases "split_on d s") auto
  from Cons.IH have "\<forall>w \<in> set (w0 # ws). set w \<subseteq> set s" by (simp add: w0)
  with Cons.prems show ?case by (auto simp: w0 split: if_splits)
qed simp

lemma safe_integer_of_int [simp]:
  "safe_integer (Fin (of_int i)) = (if \<bar>i\<bar> \<le> max_safe_integer then Some i else None)"
  by (simp add: safe_integer_def)

lemma safe_integer_Some: "safe_integer n = Some i \<Longrightarrow> n = Fin (of_int i) \<and> \<bar>i\<bar> \<le> max_safe_integer"
  by (auto simp: safe_integer_def split: jsnum.splits if_splits)

lemma digit_val_char: "d < 10 \<Longrightarrow> digit_val (digit_char d) = d"
  by (simp add: digit_val_def digit_char_def)

lemma is_digit_digit_char: "d < 10 \<Longrightarrow> is_digit (digit_char d)"
  by (simp add: is_digit_def digit_char_def)

lemma show_nat_digits: "list_all is_digit (show_nat n)"
  by (induction n rule: show_nat.induct) (subst show_nat.simps, auto simp: is_digit_digit_char)

lemma show_nat_not_Nil [simp]: "show_nat n \<noteq> []"
  by (subst show_nat.simps) simp

lemma read_show_nat: "read_nat (show_nat n) = n"
proof (induction n rule: show_nat.induct)
  case (1 n)
  then show ?case
    by (subst show_nat.simps) (auto simp: digit_val_char read_nat_def)
qed

lemma show_nat_inj: "show_nat m = show_nat n \<Longrightarrow> m = n"
  by (metis read_show_nat)

lemma length_show_nat_le: "n < 10 ^ k \<Longrightarrow> 0 < k \<Longrightarrow> length (show_nat n) \<le> k"
proof (induction k arbitrary: n)
  case (Suc k)
  show ?case
  proof (cases "n < 10")
    case True
    then show ?thesis by (subst show_nat.simps) simp
  next
    case False
    then have "0 < k" using Suc.prems by (cases k) auto
    moreover have "n div 10 < 10 ^ k" using Suc.prems by auto
    ultimately have "length (show_nat (n div 10)) \<le> k" by (rule Suc.IH[rotated])
    with False show ?thesis by (subst show_nat.simps) simp
  qed
qed simp

lemma cmp_time_le:
  "has_time (f a) \<Longrightarrow> has_time (f b) \<Longrightarrow>
   cmp_time f a b \<le> 0 \<longleftrightarrow> the (get_time (f a)) \<le> the (get_time (f b))"
  by (auto simp: has_time_def cmp_time_def)

lemma js_order_cmp_time: "js_order (cmp_time f) {x. has_time (f x)}"
  by unfold_locales (auto simp: cmp_time_def has_time_def split: option.splits)

lemma js_order_cmp_time_desc: "js_order (\<lambda>a b. cmp_time f b a) {x. has_time (f x)}"
  by unfold_locales (auto simp: cmp_time_def has_time_def split: option.splits)

end
