(* ===== verification/Protocol_Types.thy ===== *)
theory Protocol_Types
  imports Js_Runtime
begin

text \<open>
  The data of \<open>types/protocol.ts\<close>: the closed enumerations as datatypes with one
  constructor per literal, the interfaces as records (an optional property is an
  \<open>option\<close>), and the two discriminated unions \<open>ServerMessage\<close> and \<open>ClientMessage\<close>
  with one constructor per \<open>type\<close> tag. Field names carry the interface's initials,
  since the interfaces share property names.
\<close>

section \<open>Enumerations\<close>

datatype agent_type = AT_codex | AT_claude_code | AT_red | AT_local_llm

type_synonym agent_type_label = string

definition knownAgentType :: "agent_type_label \<Rightarrow> agent_type option" where
  "knownAgentType label =
     (if label = ''codex'' then Some AT_codex
      else if label = ''claude_code'' then Some AT_claude_code
      else if label = ''red'' then Some AT_red
      else if label = ''local_llm'' then Some AT_local_llm
      else None)"

datatype (plugins only: code size) hook_event_type =
    PreToolUse | PostToolUse | PostToolUseFailure | PermissionRequest | Elicitation
  | ElicitationResult | InstructionsLoaded | UserPromptSubmit | Stop | SubagentStop
  | SubagentStart | StopFailure | ConfigChange | TeammateIdle | TaskCompleted
  | WorktreeCreate | WorktreeRemove | PreCompact | PostCompact | SessionStart
  | SessionEnd | Notification | Unknown

datatype decision = D_approve | D_deny | D_ask

datatype audit_decision_kind = K_auto_approved | K_deferred | K_denied

datatype terminal_status = TS_running | TS_exited | TS_killed | TS_orphaned

datatype terminal_direction = TD_input | TD_output | TD_resize

datatype disk_alert_kind = DK_archive_size | DK_low_disk_space

datatype config_alert_kind = CK_policy_widened | CK_untrusted_config

section \<open>Interfaces\<close>

record permission_rule =
  pr_tool_name :: string
  pr_rule_content :: string

record permission_suggestion =
  ps_behavior :: string
  ps_suggestion_type :: string
  ps_destination :: string
  ps_mode :: "string option"
  ps_rules :: "permission_rule list"

record decision_request =
  dr_id :: string
  dr_agent_id :: string
  dr_agent_type :: agent_type
  dr_project :: string
  dr_tool_name :: string
  dr_tool_input :: json
  dr_timestamp :: string
  dr_hook_event_name :: hook_event_type
  dr_tool_use_id :: "string option"
  dr_permission_suggestions :: "permission_suggestion list option"
  dr_event_data :: "json option"
  dr_terminal_session_id :: "string option"

record history_entry =
  he_id :: string
  he_agent_id :: string
  he_agent_type :: agent_type_label
  he_project :: string
  he_tool_name :: string
  he_tool_input :: json
  he_decision :: decision
  he_requested_at :: string
  he_resolved_at :: string
  he_tool_result :: "json option"
  he_tool_use_id :: "string option"
  he_hook_event_name :: "string option"
  he_terminal_session_id :: "string option"
  he_decided_by :: "string option"
  he_config_hash :: "string option"

record audit_decision =
  ad_kind :: audit_decision_kind
  ad_decided_by :: "string option"
  ad_project :: string
  ad_agent_id :: string
  ad_terminal_session_id :: "string option"
  ad_tool_name :: string
  ad_ts :: string
  ad_tool_use_id :: "string option"
  ad_resolved :: "bool option"
  ad_tool_input :: "json option"

record agent_info =
  ai_agent_id :: string
  ai_agent_type :: agent_type
  ai_project :: string
  ai_connected_at :: string
  ai_last_seen :: string

record managed_agent =
  ma_agent_id :: string
  ma_agent_type :: agent_type
  ma_pid :: int
  ma_project :: string
  ma_model :: "string option"
  ma_name :: "string option"
  ma_started_at :: string
  ma_reasoning :: "string option"
  ma_max_turns :: "int option"
  ma_permission_mode :: "string option"

record session_summary =
  ss_agent_id :: string
  ss_agent_type :: agent_type_label
  ss_project :: string
  ss_first_seen :: string
  ss_last_seen :: string
  ss_total_calls :: int
  ss_approved :: int
  ss_denied :: int
  ss_is_live :: bool
  ss_pending_count :: int

record terminal_session_meta =
  tm_id :: string
  tm_label :: "string option"
  tm_command :: string
  tm_args :: "string list"
  tm_cwd :: string
  tm_cols :: int
  tm_rows :: int
  tm_started_at :: string
  tm_ended_at :: "string option"
  tm_exit_code :: "int option"
  tm_status :: terminal_status
  tm_group_name :: "string option"
  tm_sort_order :: int
  tm_created_by :: "string option"
  tm_replay_acl :: "string list option"
  tm_pinned :: bool

record project_summary =
  pj_project :: string
  pj_first_seen :: string
  pj_last_seen :: string
  pj_total_calls :: int
  pj_approved :: int
  pj_denied :: int
  pj_agent_count :: int
  pj_pending_count :: int
  pj_has_live_agents :: bool

record worktree_change =
  wc_path :: string
  wc_status :: string
  wc_orig_path :: "string option"
  wc_attributed_to :: "string option"
  wc_attributed_tool :: "string option"

record worktree_status =
  wt_project :: string
  wt_is_git_repo :: bool
  wt_branch :: "string option"
  wt_detached :: bool
  wt_head :: "string option"
  wt_upstream :: "string option"
  wt_ahead :: "int option"
  wt_behind :: "int option"
  wt_changes :: "worktree_change list"
  wt_changes_truncated :: bool
  wt_diffstat :: "string option"
  wt_probed_at :: string
  wt_error :: "string option"

record artifact_touch =
  at_agent_id :: string
  at_project :: string
  at_tool_name :: string
  at_tool_input :: "json option"
  at_ts :: string

record project_hook_status =
  hs_project :: string
  hs_mode :: string
  hs_claude_installed :: bool
  hs_codex_installed :: bool
  hs_missing_events :: "string list"
  hs_all_installed :: bool
  hs_all_enabled :: bool

section \<open>Server to client\<close>

datatype (plugins only: code size) server_message =
    Sm_welcome int
  | Sm_decision_response string decision "string option" "json option" "string option"
      "permission_suggestion option"
  | Sm_queue_snapshot "decision_request list"
  | Sm_new_decision decision_request
  | Sm_decision_resolved string decision
  | Sm_audit_snapshot "audit_decision list"
  | Sm_audit_decision audit_decision
  | Sm_deferred_resolved string string string string "string option"
  | Sm_agent_connected agent_info
  | Sm_agent_disconnected string
  | Sm_agent_spawned managed_agent
  | Sm_agent_exited string "int option"
  | Sm_agent_spawn_queued decision_request "string option"
  | Sm_command_error string "string option"
  | Sm_agent_list "managed_agent list"
  | Sm_agents_snapshot "agent_info list"
  | Sm_history_response "history_entry list" "string option"
  | Sm_sessions_response "session_summary list"
  | Sm_projects_response "project_summary list"
  | Sm_worktrees_response "worktree_status list"
  | Sm_burn_response "artifact_touch list"
  | Sm_project_hook_status project_hook_status
  | Sm_install_hooks_result string "project_hook_status option" "string option"
  | Sm_reimport_complete int
  | Sm_error string
  | Sm_web_login_failure string int string
  | Sm_web_login_success string string string string
  | Sm_web_device_registered string string string
  | Sm_web_device_revoked string string
  | Sm_term_created terminal_session_meta
  | Sm_term_list_response "terminal_session_meta list"
  | Sm_term_chunk string int int terminal_direction string
  | Sm_term_catchup string int int int string
  | Sm_term_ended string "int option" terminal_status
  | Sm_term_replay_chunk string int int terminal_direction string
  | Sm_term_replay_done string int
  | Sm_term_error "string option" string
  | Sm_web_reauth_required string string string string
  | Sm_mark_device_fresh_ack string
  | Sm_disk_alert disk_alert_kind bool string string
  | Sm_config_alert config_alert_kind bool string string

section \<open>Client to server\<close>

record approve_opts =
  ao_message :: "string option"
  ao_updated_input :: "json option"
  ao_always_allow :: "bool option"
  ao_additional_context :: "string option"

record spawn_agent_request =
  sr_agent_type :: "agent_type option"
  sr_project :: string
  sr_prompt :: string
  sr_model :: "string option"
  sr_reasoning :: "string option"
  sr_max_turns :: "int option"

record term_create_opts =
  tc_label :: "string option"
  tc_command :: "string option"
  tc_args :: "string list option"
  tc_cwd :: "string option"
  tc_cols :: int
  tc_rows :: int
  tc_env :: "(string \<times> string) list option"

datatype (plugins only: code size) client_message =
    Cm_approve string approve_opts
  | Cm_deny string "string option"
  | Cm_approve_all "json option" "bool option"
  | Cm_deny_all "json option"
  | Cm_query_history "string option" "int option" "string option"
  | Cm_query_sessions
  | Cm_query_projects
  | Cm_query_worktrees
  | Cm_query_burn
  | Cm_install_hooks string
  | Cm_query_project_hook_status string
  | Cm_reimport_events
  | Cm_list_agents
  | Cm_spawn_agent spawn_agent_request
  | Cm_search_history "string option" "string option" "string option" "int option" "string option"
  | Cm_term_create term_create_opts
  | Cm_term_attach string
  | Cm_term_detach string
  | Cm_term_input string string
  | Cm_term_resize string int int
  | Cm_term_close string
  | Cm_term_list
  | Cm_term_replay string "int option" "rat option"
  | Cm_term_set_group string "string option"
  | Cm_term_reorder string int
  | Cm_term_set_pinned string bool

text \<open>\<open>OutboundCommand\<close>: a client message with the envelope's optional correlation id.\<close>

record outbound_command =
  oc_message :: client_message
  oc_correlation_id :: "string option"

end
