(* ===== verification/Protocol_Readers.thy ===== *)
theory Protocol_Readers
  imports Protocol_Types
begin

text \<open>
  The field readers at the bottom of \<open>types/protocol.ts\<close>. An \<open>unknown\<close> value is a
  \<^typ>\<open>json option\<close> (\<^const>\<open>None\<close> is \<open>undefined\<close>), a reader is a \<open>ValueParser\<close>: the value
  and the path that names it in the error message, to a result.
\<close>

type_synonym 'a value_parser = "json option \<Rightarrow> string \<Rightarrow> 'a result"

definition invalid :: "string \<Rightarrow> string \<Rightarrow> 'a result" where
  "invalid path expected = Inl (path @ '': expected '' @ expected)"

definition isUnknownRecord :: "json option \<Rightarrow> bool" where
  "isUnknownRecord value \<longleftrightarrow> (case value of Some (JObj _) \<Rightarrow> True | _ \<Rightarrow> False)"

definition readObject :: "json_object value_parser" where
  "readObject value path = (case value of Some (JObj kvs) \<Rightarrow> Inr kvs | _ \<Rightarrow> invalid path ''object'')"

definition readString :: "string value_parser" where
  "readString value path = (case value of Some (JStr s) \<Rightarrow> Inr s | _ \<Rightarrow> invalid path ''string'')"

definition readBoolean :: "bool value_parser" where
  "readBoolean value path = (case value of Some (JBool b) \<Rightarrow> Inr b | _ \<Rightarrow> invalid path ''boolean'')"

fun readJson :: "json \<Rightarrow> string \<Rightarrow> json result" where
  "readJson JNull path = Inr JNull"
| "readJson (JStr s) path = Inr (JStr s)"
| "readJson (JBool b) path = Inr (JBool b)"
| "readJson (JNum n) path =
     (if \<not> num_is_finite n then invalid path ''finite JSON number'' else Inr (JNum n))"
| "readJson (JArr xs) path =
     rbind (rmap (\<lambda>i item. readJson item (path @ ''['' @ show_nat i @ '']'')) xs) (\<lambda>ys. Inr (JArr ys))"
| "readJson (JObj kvs) path =
     rbind (rmap (\<lambda>i kv. rbind (readJson (snd kv) (path @ ''.'' @ fst kv)) (\<lambda>y. Inr (fst kv, y))) kvs)
       (\<lambda>ys. Inr (JObj ys))"

definition readJsonValue :: "json value_parser" where
  "readJsonValue value path =
     (case value of Some v \<Rightarrow> readJson v path | None \<Rightarrow> invalid path ''JSON value'')"

definition readAgentType :: "agent_type value_parser" where
  "readAgentType value path =
     (case value of
        Some (JStr s) \<Rightarrow>
          (if s = ''codex'' then Inr AT_codex
           else if s = ''claude_code'' then Inr AT_claude_code
           else if s = ''red'' then Inr AT_red
           else if s = ''local_llm'' then Inr AT_local_llm
           else invalid path ''known AgentType value'')
      | _ \<Rightarrow> invalid path ''known AgentType value'')"

definition readAgentTypeLabel :: "agent_type_label value_parser" where
  "readAgentTypeLabel value path = readString value path"

text \<open>The literals of \<open>HookEventType\<close> with their constructors, in the order of the switch.\<close>

definition hook_event_names :: "(string \<times> hook_event_type) list" where
  "hook_event_names =
     [(''PreToolUse'', PreToolUse), (''PostToolUse'', PostToolUse),
      (''PostToolUseFailure'', PostToolUseFailure), (''PermissionRequest'', PermissionRequest),
      (''Elicitation'', Elicitation), (''ElicitationResult'', ElicitationResult),
      (''InstructionsLoaded'', InstructionsLoaded), (''UserPromptSubmit'', UserPromptSubmit),
      (''Stop'', Stop), (''SubagentStop'', SubagentStop), (''SubagentStart'', SubagentStart),
      (''StopFailure'', StopFailure), (''ConfigChange'', ConfigChange), (''TeammateIdle'', TeammateIdle),
      (''TaskCompleted'', TaskCompleted), (''WorktreeCreate'', WorktreeCreate),
      (''WorktreeRemove'', WorktreeRemove), (''PreCompact'', PreCompact), (''PostCompact'', PostCompact),
      (''SessionStart'', SessionStart), (''SessionEnd'', SessionEnd), (''Notification'', Notification),
      (''Unknown'', Unknown)]"

definition readHookEventType :: "hook_event_type value_parser" where
  "readHookEventType value path =
     (case value of
        Some (JStr s) \<Rightarrow>
          (case map_of hook_event_names s of
             Some e \<Rightarrow> Inr e
           | None \<Rightarrow> invalid path ''known HookEventType value'')
      | _ \<Rightarrow> invalid path ''known HookEventType value'')"

definition uuid_shape :: "(char \<Rightarrow> bool) list" where
  "uuid_shape =
     replicate 8 is_hex @ [lit (CHR ''-'')] @ replicate 4 is_hex @ [lit (CHR ''-'')] @
     replicate 4 is_hex @ [lit (CHR ''-'')] @ replicate 4 is_hex @ [lit (CHR ''-'')] @
     replicate 12 is_hex"

definition readUuid :: "string value_parser" where
  "readUuid value path =
     rbind (readString value path) (\<lambda>uuid.
       if \<not> matches_shape uuid_shape uuid then invalid path ''hyphenated UUID'' else Inr uuid)"

definition daysInMonth :: "int \<Rightarrow> int \<Rightarrow> int" where
  "daysInMonth year month =
     (if month = 2 then
        (if year mod 4 = 0 \<and> (year mod 100 \<noteq> 0 \<or> year mod 400 = 0) then 29 else 28)
      else if month = 4 \<or> month = 6 \<or> month = 9 \<or> month = 11 then 30
      else 31)"

definition readRfc3339 :: "string value_parser" where
  "readRfc3339 value path =
     rbind (readString value path) (\<lambda>timestamp.
       if \<not> matches_rfc3339 timestamp then invalid path ''RFC 3339 timestamp''
       else
         let year = int (read_nat (slice timestamp 0 4));
             month = int (read_nat (slice timestamp 5 7));
             day = int (read_nat (slice timestamp 8 10));
             hour = int (read_nat (slice timestamp 11 13));
             minute = int (read_nat (slice timestamp 14 16));
             second = int (read_nat (slice timestamp 17 19));
             offset = (if ends_with timestamp ''Z'' then None
                       else Some (drop (length timestamp - 6) timestamp));
             offsetHour = (case offset of Some z \<Rightarrow> int (read_nat (slice z 1 3)) | None \<Rightarrow> 0);
             offsetMinute = (case offset of Some z \<Rightarrow> int (read_nat (slice z 4 6)) | None \<Rightarrow> 0)
         in if month < 1 \<or> month > 12 \<or> day < 1 \<or> day > daysInMonth year month \<or> hour > 23 \<or>
               minute > 59 \<or> second > 60 \<or> offsetHour > 23 \<or> offsetMinute > 59
            then invalid path ''RFC 3339 timestamp''
            else Inr timestamp)"

definition readBoundedInteger :: "json option \<Rightarrow> string \<Rightarrow> int \<Rightarrow> int \<Rightarrow> string \<Rightarrow> int result" where
  "readBoundedInteger value path minimum maximum rustType =
     (case value of
        Some (JNum n) \<Rightarrow>
          (case safe_integer n of
             Some i \<Rightarrow> if i < minimum \<or> i > maximum then invalid path (rustType @ '' integer'') else Inr i
           | None \<Rightarrow> invalid path (rustType @ '' integer''))
      | _ \<Rightarrow> invalid path (rustType @ '' integer''))"

definition readU16 :: "int value_parser" where
  "readU16 value path = readBoundedInteger value path 0 65535 ''u16''"

definition readU32 :: "int value_parser" where
  "readU32 value path = readBoundedInteger value path 0 4294967295 ''u32''"

definition readI32 :: "int value_parser" where
  "readI32 value path = readBoundedInteger value path (-2147483648) 2147483647 ''i32''"

definition readU64Safe :: "int value_parser" where
  "readU64Safe value path = readBoundedInteger value path 0 max_safe_integer ''u64 (JavaScript-safe)''"

definition readI64Safe :: "int value_parser" where
  "readI64Safe value path =
     readBoundedInteger value path (- max_safe_integer) max_safe_integer ''i64 (JavaScript-safe)''"

definition readDecision :: "decision value_parser" where
  "readDecision value path =
     (if value = Some (JStr ''approve'') then Inr D_approve
      else if value = Some (JStr ''deny'') then Inr D_deny
      else if value = Some (JStr ''ask'') then Inr D_ask
      else invalid path ''\"approve\", \"deny\", or \"ask\"'')"

definition readAuditDecisionKind :: "audit_decision_kind value_parser" where
  "readAuditDecisionKind value path =
     (if value = Some (JStr ''auto_approved'') then Inr K_auto_approved
      else if value = Some (JStr ''deferred'') then Inr K_deferred
      else if value = Some (JStr ''denied'') then Inr K_denied
      else invalid path ''\"auto_approved\", \"deferred\", or \"denied\"'')"

definition readTerminalStatus :: "terminal_status value_parser" where
  "readTerminalStatus value path =
     (if value = Some (JStr ''running'') then Inr TS_running
      else if value = Some (JStr ''exited'') then Inr TS_exited
      else if value = Some (JStr ''killed'') then Inr TS_killed
      else if value = Some (JStr ''orphaned'') then Inr TS_orphaned
      else invalid path ''\"running\", \"exited\", \"killed\", or \"orphaned\"'')"

definition readTerminalDirection :: "terminal_direction value_parser" where
  "readTerminalDirection value path =
     (if value = Some (JStr ''input'') then Inr TD_input
      else if value = Some (JStr ''output'') then Inr TD_output
      else if value = Some (JStr ''resize'') then Inr TD_resize
      else invalid path ''\"input\", \"output\", or \"resize\"'')"

definition readDiskAlertKind :: "disk_alert_kind value_parser" where
  "readDiskAlertKind value path =
     (if value = Some (JStr ''archive_size'') then Inr DK_archive_size
      else if value = Some (JStr ''low_disk_space'') then Inr DK_low_disk_space
      else invalid path ''\"archive_size\" or \"low_disk_space\"'')"

definition readConfigAlertKind :: "config_alert_kind value_parser" where
  "readConfigAlertKind value path =
     (if value = Some (JStr ''policy_widened'') then Inr CK_policy_widened
      else if value = Some (JStr ''untrusted_config'') then Inr CK_untrusted_config
      else invalid path ''\"policy_widened\" or \"untrusted_config\"'')"

definition arrayOf :: "'a value_parser \<Rightarrow> 'a list value_parser" where
  "arrayOf parseItem value path =
     (case value of
        Some (JArr xs) \<Rightarrow> rmap (\<lambda>i item. parseItem (Some item) (path @ ''['' @ show_nat i @ '']'')) xs
      | _ \<Rightarrow> invalid path ''array'')"

definition readField :: "json_object \<Rightarrow> string \<Rightarrow> 'a value_parser \<Rightarrow> string \<Rightarrow> 'a result" where
  "readField object key parseValue path = parseValue (map_of object key) (path @ ''.'' @ key)"

definition readOptionalField :: "json_object \<Rightarrow> string \<Rightarrow> 'a value_parser \<Rightarrow> string \<Rightarrow> 'a option result" where
  "readOptionalField object key parseValue path =
     (case map_of object key of
        None \<Rightarrow> Inr None
      | Some JNull \<Rightarrow> Inr None
      | Some value \<Rightarrow> rbind (parseValue (Some value) (path @ ''.'' @ key)) (\<lambda>x. Inr (Some x)))"

definition readOptionalJsonField :: "json_object \<Rightarrow> string \<Rightarrow> string \<Rightarrow> json option result" where
  "readOptionalJsonField object key path =
     (case map_of object key of
        None \<Rightarrow> Inr None
      | Some value \<Rightarrow> rbind (readJsonValue (Some value) (path @ ''.'' @ key)) (\<lambda>x. Inr (Some x)))"

section \<open>What the readers guarantee\<close>

text \<open>The shape predicates of well-formed messages.\<close>

definition is_uuid :: "string \<Rightarrow> bool" where
  "is_uuid s \<longleftrightarrow> matches_shape uuid_shape s"

text \<open>
  The calendar reading of RFC 3339, stated over the fields and independently of the reader:
  a date that exists, a time of day (a leap second included) and an offset below a day.
\<close>

definition is_leap_year :: "int \<Rightarrow> bool" where
  "is_leap_year y \<longleftrightarrow> (4 dvd y \<and> \<not> 100 dvd y) \<or> 400 dvd y"

definition month_length :: "int \<Rightarrow> int \<Rightarrow> int" where
  "month_length y m =
     (if m \<in> {1, 3, 5, 7, 8, 10, 12} then 31
      else if m \<in> {4, 6, 9, 11} then 30
      else if is_leap_year y then 29 else 28)"

definition is_rfc3339 :: "string \<Rightarrow> bool" where
  "is_rfc3339 s \<longleftrightarrow> matches_rfc3339 s \<and>
     (let month = int (read_nat (slice s 5 7)); day = int (read_nat (slice s 8 10)) in
      month \<in> {1..12} \<and> day \<in> {1..month_length (int (read_nat (slice s 0 4))) month}) \<and>
     read_nat (slice s 11 13) < 24 \<and> read_nat (slice s 14 16) < 60 \<and> read_nat (slice s 17 19) \<le> 60 \<and>
     (\<not> ends_with s ''Z'' \<longrightarrow>
        (let z = drop (length s - 6) s in read_nat (slice z 1 3) < 24 \<and> read_nat (slice z 4 6) < 60))"

fun finite_json :: "json \<Rightarrow> bool" where
  "finite_json (JNum n) = num_is_finite n"
| "finite_json (JArr xs) = (\<forall>x \<in> set xs. finite_json x)"
| "finite_json (JObj kvs) = (\<forall>kv \<in> set kvs. finite_json (snd kv))"
| "finite_json _ = True"

abbreviation in_u16 :: "int \<Rightarrow> bool" where "in_u16 i \<equiv> 0 \<le> i \<and> i < 2 ^ 16"
abbreviation in_u32 :: "int \<Rightarrow> bool" where "in_u32 i \<equiv> 0 \<le> i \<and> i < 2 ^ 32"
abbreviation in_i32 :: "int \<Rightarrow> bool" where "in_i32 i \<equiv> - (2 ^ 31) \<le> i \<and> i < 2 ^ 31"
abbreviation in_u53 :: "int \<Rightarrow> bool" where "in_u53 i \<equiv> 0 \<le> i \<and> i < 2 ^ 53"
abbreviation in_i53 :: "int \<Rightarrow> bool" where "in_i53 i \<equiv> - (2 ^ 53) < i \<and> i < 2 ^ 53"

section \<open>The contract of a reader\<close>

text \<open>
  A reader is sound for a predicate (whatever it returns satisfies the predicate) and
  faithful to an encoding (it returns a well-formed value from that value's encoding).
  Reading a field, an optional field or an array of such values keeps the contract; the
  client lemmas are proved once here and carried to every reader by interpretation.
\<close>

lemma readOptionalField_Some:
  "map_of obj k = Some v \<Longrightarrow> v \<noteq> JNull \<Longrightarrow>
   readOptionalField obj k rd p = rbind (rd (Some v) (p @ ''.'' @ k)) (\<lambda>x. Inr (Some x))"
  by (cases v) (auto simp: readOptionalField_def)

locale value_reader =
  fixes rd :: "'a value_parser"
    and wf :: "'a \<Rightarrow> bool"
    and enc :: "'a \<Rightarrow> json"
  assumes sound: "rd v p = Inr x \<Longrightarrow> wf x"
    and faithful: "wf x \<Longrightarrow> rd (Some (enc x)) p = Inr x"
begin

lemma field_sound [reader_wf]: "readField obj k rd p = Inr x \<Longrightarrow> wf x"
  by (auto simp: readField_def intro: sound)

lemma opt_sound [reader_wf]: "readOptionalField obj k rd p = Inr x \<Longrightarrow> pred_option wf x"
  by (auto simp: readOptionalField_def result_simps dest: sound split: option.splits json.splits)

lemma field_rt [reader_rt]: "map_of obj k = Some (enc x) \<Longrightarrow> wf x \<Longrightarrow> readField obj k rd p = Inr x"
  by (simp add: readField_def faithful)

lemma array_sound: "arrayOf rd v p = Inr xs \<Longrightarrow> list_all wf xs"
  by (auto simp: arrayOf_def invalid_def intro: sound elim!: rmap_from_list_all split: option.splits json.splits)

lemma array_faithful: "list_all wf xs \<Longrightarrow> arrayOf rd (Some (JArr (map enc xs))) p = Inr xs"
  unfolding arrayOf_def
  by (simp, rule rmap_from_map) (simp add: faithful list_all_iff)

end

text \<open>Where no encoding is \<open>null\<close>, a missing property stands for an absent value.\<close>

locale wire_reader = value_reader +
  assumes enc_not_null: "enc x \<noteq> JNull"
begin

lemma opt_rt [reader_rt]:
  "map_of obj k = map_option enc x \<Longrightarrow> pred_option wf x \<Longrightarrow> readOptionalField obj k rd p = Inr x"
  by (cases x) (simp_all add: readOptionalField_Some faithful enc_not_null, simp add: readOptionalField_def)

lemma opt_present [reader_rt]:
  "map_of obj k = Some (enc x) \<Longrightarrow> wf x \<Longrightarrow> readOptionalField obj k rd p = Inr (Some x)"
  using opt_rt[of obj k "Some x" p] by simp

end

context value_reader begin

lemma arrayOf_reader: "wire_reader (arrayOf rd) (list_all wf) (\<lambda>xs. JArr (map enc xs))"
  by unfold_locales (auto intro: array_sound array_faithful)

end

text \<open>
  A reader of a record whose fields may be flattened into a tagged object: the extra
  \<open>type\<close> property does not disturb it.
\<close>

locale flat_reader =
  fixes rd :: "'a value_parser"
    and wf :: "'a \<Rightarrow> bool"
    and fields :: "'a \<Rightarrow> json_object"
  assumes flat_sound: "rd v p = Inr x \<Longrightarrow> wf x"
    and flat_faithful: "wf x \<Longrightarrow> fst ` set pre \<subseteq> {''type''} \<Longrightarrow> rd (Some (JObj (pre @ fields x))) p = Inr x"
begin

sublocale wire_reader rd wf "\<lambda>x. JObj (fields x)"
  by unfold_locales (auto intro: flat_sound flat_faithful[of _ "[]", simplified])

lemma tagged_rt [reader_rt]: "wf x \<Longrightarrow> rd (Some (JObj ((''type'', t) # fields x))) p = Inr x"
  using flat_faithful[of x "[(''type'', t)]" p] by simp

end

section \<open>The basic readers meet it\<close>

lemma readString_Inr [simp]: "readString v p = Inr s \<longleftrightarrow> v = Some (JStr s)"
  by (auto simp: readString_def invalid_def split: option.splits json.splits)

lemma readBoolean_Inr [simp]: "readBoolean v p = Inr b \<longleftrightarrow> v = Some (JBool b)"
  by (auto simp: readBoolean_def invalid_def split: option.splits json.splits)

lemma readObject_Inr [simp]: "readObject v p = Inr kvs \<longleftrightarrow> v = Some (JObj kvs)"
  by (auto simp: readObject_def invalid_def split: option.splits json.splits)

lemma readObject_JObj [simp]: "readObject (Some (JObj kvs)) p = Inr kvs"
  by simp

interpretation str: wire_reader readString "\<lambda>_. True" JStr
  by unfold_locales auto

interpretation boolean: wire_reader readBoolean "\<lambda>_. True" JBool
  by unfold_locales auto

interpretation label: wire_reader readAgentTypeLabel "\<lambda>_. True" JStr
  by unfold_locales (auto simp: readAgentTypeLabel_def)

interpretation strs: wire_reader "arrayOf readString" "\<lambda>_. True" "\<lambda>xs. JArr (map JStr xs)"
  using str.arrayOf_reader by (simp add: list.pred_True)

lemma readUuid_Inr: "readUuid v p = Inr s \<longleftrightarrow> v = Some (JStr s) \<and> is_uuid s"
  by (auto simp: readUuid_def result_simps is_uuid_def invalid_def split: if_splits)

interpretation uuid: wire_reader readUuid is_uuid JStr
  by unfold_locales (auto simp: readUuid_Inr)

lemma leap_year_rule:
  "y mod 4 = 0 \<and> (y mod 100 \<noteq> 0 \<or> y mod 400 = 0) \<longleftrightarrow> is_leap_year y" for y :: int
proof -
  have "400 dvd y \<Longrightarrow> 4 dvd y" by (rule dvd_trans[of 4 400]) simp_all
  then show ?thesis by (auto simp: is_leap_year_def mod_eq_0_iff_dvd)
qed

lemma daysInMonth_month_length:
  assumes "1 \<le> m" "m \<le> 12"
  shows "daysInMonth y m = month_length y m"
proof -
  from assms have "m = 1 \<or> m = 2 \<or> m = 3 \<or> m = 4 \<or> m = 5 \<or> m = 6 \<or> m = 7 \<or> m = 8 \<or> m = 9 \<or>
    m = 10 \<or> m = 11 \<or> m = 12" by arith
  then show ?thesis
    by (elim disjE) (auto simp: daysInMonth_def month_length_def leap_year_rule[symmetric])
qed

lemma calendar_check:
  fixes h mi se oh om :: nat
  shows "(m < 1 \<or> m > 12 \<or> d < 1 \<or> d > daysInMonth y m \<or> int h > 23 \<or> int mi > 59 \<or> int se > 60 \<or>
      int oh > 23 \<or> int om > 59) \<longleftrightarrow>
    \<not> (m \<in> {1..12} \<and> d \<in> {1..month_length y m} \<and> h < 24 \<and> mi < 60 \<and> se \<le> 60 \<and> oh < 24 \<and> om < 60)"
  by (cases "1 \<le> m \<and> m \<le> 12") (auto simp: daysInMonth_month_length)

lemma readRfc3339_JStr:
  "readRfc3339 (Some (JStr s)) p = (if is_rfc3339 s then Inr s else invalid p ''RFC 3339 timestamp'')"
  using calendar_check[of "int (read_nat (slice s 5 7))" "int (read_nat (slice s 8 10))"
      "int (read_nat (slice s 0 4))" "read_nat (slice s 11 13)" "read_nat (slice s 14 16)"
      "read_nat (slice s 17 19)" 0 0]
    calendar_check[of "int (read_nat (slice s 5 7))" "int (read_nat (slice s 8 10))"
      "int (read_nat (slice s 0 4))" "read_nat (slice s 11 13)" "read_nat (slice s 14 16)"
      "read_nat (slice s 17 19)" "read_nat (slice (drop (length s - 6) s) 1 3)"
      "read_nat (slice (drop (length s - 6) s) 4 6)"]
  by (cases "ends_with s ''Z''") (auto simp: readRfc3339_def is_rfc3339_def readString_def Let_def)

lemma readRfc3339_Inr: "readRfc3339 v p = Inr s \<longleftrightarrow> v = Some (JStr s) \<and> is_rfc3339 s"
proof (cases "\<exists>t. v = Some (JStr t)")
  case True
  then show ?thesis by (auto simp: readRfc3339_JStr invalid_def split: if_splits)
next
  case False
  then have "readString v p = Inl (p @ '': expected string'')"
    by (auto simp: readString_def invalid_def split: option.splits json.splits)
  with False show ?thesis by (simp add: readRfc3339_def)
qed

interpretation rfc3339: wire_reader readRfc3339 is_rfc3339 JStr
  by unfold_locales (auto simp: readRfc3339_Inr)

lemma readBoundedInteger_Inr:
  "readBoundedInteger v p lo hi t = Inr i \<longleftrightarrow>
     (\<exists>n. v = Some (JNum n) \<and> safe_integer n = Some i) \<and> lo \<le> i \<and> i \<le> hi"
  by (auto simp: readBoundedInteger_def invalid_def split: option.splits json.splits if_splits)

interpretation u16: wire_reader readU16 in_u16 jint
  by unfold_locales (auto simp: readU16_def readBoundedInteger_Inr max_safe_integer_def)

interpretation u32: wire_reader readU32 in_u32 jint
  by unfold_locales (auto simp: readU32_def readBoundedInteger_Inr max_safe_integer_def)

interpretation i32: wire_reader readI32 in_i32 jint
  by unfold_locales (auto simp: readI32_def readBoundedInteger_Inr max_safe_integer_def)

interpretation u53: wire_reader readU64Safe in_u53 jint
  by unfold_locales (auto simp: readU64Safe_def readBoundedInteger_Inr max_safe_integer_def)

interpretation i53: wire_reader readI64Safe in_i53 jint
  by unfold_locales (auto simp: readI64Safe_def readBoundedInteger_Inr max_safe_integer_def)

section \<open>JSON payloads\<close>

text \<open>\<open>readJsonValue\<close> is the identity on finite JSON and refuses every other value.\<close>

lemma rmap_id:
  "(\<And>i x. x \<in> set xs \<Longrightarrow> f i x = Inr x) \<Longrightarrow> rmap_from n f xs = Inr xs"
  using rmap_from_map[of xs f "\<lambda>x. x" n] by simp

lemma rmap_fail: "x \<in> set xs \<Longrightarrow> (\<And>i. \<exists>e. f i x = Inl e) \<Longrightarrow> \<exists>e. rmap_from n f xs = Inl e"
proof (induction xs arbitrary: n)
  case (Cons y ys)
  show ?case
  proof (cases "f n y")
    case (Inr z)
    with Cons.prems have "x \<in> set ys" by (metis Inl_Inr_False set_ConsD)
    with Cons Inr show ?thesis by (auto simp: result_simps)
  qed auto
qed simp

lemma readJson_finite: "finite_json v \<Longrightarrow> readJson v p = Inr v"
  by (induction v p rule: readJson.induct) (auto simp: rmap_id)

lemma readJson_infinite: "\<not> finite_json v \<Longrightarrow> \<exists>e. readJson v p = Inl e"
proof (induction v p rule: readJson.induct)
  case (5 xs p)
  then obtain x where "x \<in> set xs" "\<not> finite_json x" by auto
  with 5 have "\<exists>e. rmap (\<lambda>i item. readJson item (p @ ''['' @ show_nat i @ '']'')) xs = Inl e"
    by (intro rmap_fail) auto
  then show ?case by auto
next
  case (6 kvs p)
  then obtain kv where kv: "kv \<in> set kvs" "\<not> finite_json (snd kv)" by auto
  have "\<exists>e. rmap (\<lambda>i kv. rbind (readJson (snd kv) (p @ ''.'' @ fst kv)) (\<lambda>y. Inr (fst kv, y))) kvs = Inl e"
  proof (rule rmap_fail[OF kv(1)])
    fix i
    have "\<exists>e. readJson (snd kv) (p @ ''.'' @ fst kv) = Inl e" using 6(1) kv by blast
    then show "\<exists>e. rbind (readJson (snd kv) (p @ ''.'' @ fst kv)) (\<lambda>y. Inr (fst kv, y)) = Inl e"
      by auto
  qed
  then show ?case by auto
qed (auto simp: invalid_def)

lemma readJson_Inr: "readJson v p = Inr w \<longleftrightarrow> w = v \<and> finite_json v"
  using readJson_finite readJson_infinite by (metis Inl_Inr_False Inr_inject)

lemma readJsonValue_Inr: "readJsonValue v p = Inr w \<longleftrightarrow> v = Some w \<and> finite_json w"
  by (auto simp: readJsonValue_def readJson_Inr invalid_def split: option.splits)

interpretation jsonv: value_reader readJsonValue finite_json "\<lambda>x. x"
  by unfold_locales (auto simp: readJsonValue_Inr)

lemma optional_json_sound [reader_wf]:
  "readOptionalJsonField obj k p = Inr x \<Longrightarrow> pred_option finite_json x"
  by (cases x; cases "map_of obj k") (auto simp: readOptionalJsonField_def result_simps readJsonValue_Inr)

lemma optional_json_rt [reader_rt]:
  "pred_option finite_json (map_of obj k) \<Longrightarrow> readOptionalJsonField obj k p = Inr (map_of obj k)"
  by (cases "map_of obj k") (auto simp: readOptionalJsonField_def readJsonValue_def readJson_finite)

text \<open>A JSON payload read as an optional field is never \<open>null\<close>.\<close>

definition payload_ok :: "json \<Rightarrow> bool" where
  "payload_ok j \<longleftrightarrow> finite_json j \<and> j \<noteq> JNull"

lemma optional_payload_sound [reader_wf]:
  "readOptionalField obj k readJsonValue p = Inr x \<Longrightarrow> pred_option payload_ok x"
proof (cases "map_of obj k = None \<or> map_of obj k = Some JNull")
  case False
  then obtain v where v: "map_of obj k = Some v" "v \<noteq> JNull" by auto
  assume "readOptionalField obj k readJsonValue p = Inr x"
  with v show ?thesis
    by (cases x) (auto simp: readOptionalField_Some result_simps readJsonValue_Inr payload_ok_def)
qed (auto simp: readOptionalField_def)

lemma optional_payload_rt [reader_rt]:
  "pred_option payload_ok (map_of obj k) \<Longrightarrow>
   readOptionalField obj k readJsonValue p = Inr (map_of obj k)"
  by (cases "map_of obj k") (auto simp: readOptionalField_Some readJsonValue_def readJson_finite payload_ok_def,
      simp add: readOptionalField_def)

section \<open>Enumerations on the wire\<close>

definition agent_type_tag :: "agent_type \<Rightarrow> string" where
  "agent_type_tag t = (case t of AT_codex \<Rightarrow> ''codex'' | AT_claude_code \<Rightarrow> ''claude_code''
     | AT_red \<Rightarrow> ''red'' | AT_local_llm \<Rightarrow> ''local_llm'')"

definition hook_event_tag :: "hook_event_type \<Rightarrow> string" where
  "hook_event_tag e = (case map_of (map (\<lambda>(s, t). (t, s)) hook_event_names) e of Some s \<Rightarrow> s | None \<Rightarrow> [])"

definition decision_tag :: "decision \<Rightarrow> string" where
  "decision_tag d = (case d of D_approve \<Rightarrow> ''approve'' | D_deny \<Rightarrow> ''deny'' | D_ask \<Rightarrow> ''ask'')"

definition audit_kind_tag :: "audit_decision_kind \<Rightarrow> string" where
  "audit_kind_tag k = (case k of K_auto_approved \<Rightarrow> ''auto_approved'' | K_deferred \<Rightarrow> ''deferred''
     | K_denied \<Rightarrow> ''denied'')"

definition terminal_status_tag :: "terminal_status \<Rightarrow> string" where
  "terminal_status_tag s = (case s of TS_running \<Rightarrow> ''running'' | TS_exited \<Rightarrow> ''exited''
     | TS_killed \<Rightarrow> ''killed'' | TS_orphaned \<Rightarrow> ''orphaned'')"

definition terminal_direction_tag :: "terminal_direction \<Rightarrow> string" where
  "terminal_direction_tag d = (case d of TD_input \<Rightarrow> ''input'' | TD_output \<Rightarrow> ''output'' | TD_resize \<Rightarrow> ''resize'')"

definition disk_alert_tag :: "disk_alert_kind \<Rightarrow> string" where
  "disk_alert_tag k = (case k of DK_archive_size \<Rightarrow> ''archive_size'' | DK_low_disk_space \<Rightarrow> ''low_disk_space'')"

definition config_alert_tag :: "config_alert_kind \<Rightarrow> string" where
  "config_alert_tag k = (case k of CK_policy_widened \<Rightarrow> ''policy_widened''
     | CK_untrusted_config \<Rightarrow> ''untrusted_config'')"

interpretation agent_type: wire_reader readAgentType "\<lambda>_. True" "\<lambda>t. JStr (agent_type_tag t)"
proof
  show "readAgentType (Some (JStr (agent_type_tag t))) p = Inr t" for t p
    by (cases t) (simp_all add: readAgentType_def agent_type_tag_def)
qed auto

interpretation hook_event: wire_reader readHookEventType "\<lambda>_. True" "\<lambda>e. JStr (hook_event_tag e)"
proof
  show "readHookEventType (Some (JStr (hook_event_tag e))) p = Inr e" for e p
    by (cases e) (simp_all add: readHookEventType_def hook_event_tag_def hook_event_names_def)
qed auto

interpretation decision: wire_reader readDecision "\<lambda>_. True" "\<lambda>d. JStr (decision_tag d)"
proof
  show "readDecision (Some (JStr (decision_tag d))) p = Inr d" for d p
    by (cases d) (simp_all add: readDecision_def decision_tag_def)
qed auto

interpretation audit_kind: wire_reader readAuditDecisionKind "\<lambda>_. True" "\<lambda>k. JStr (audit_kind_tag k)"
proof
  show "readAuditDecisionKind (Some (JStr (audit_kind_tag k))) p = Inr k" for k p
    by (cases k) (simp_all add: readAuditDecisionKind_def audit_kind_tag_def)
qed auto

interpretation terminal_status: wire_reader readTerminalStatus "\<lambda>_. True" "\<lambda>s. JStr (terminal_status_tag s)"
proof
  show "readTerminalStatus (Some (JStr (terminal_status_tag s))) p = Inr s" for s p
    by (cases s) (simp_all add: readTerminalStatus_def terminal_status_tag_def)
qed auto

interpretation terminal_direction: wire_reader readTerminalDirection "\<lambda>_. True" "\<lambda>d. JStr (terminal_direction_tag d)"
proof
  show "readTerminalDirection (Some (JStr (terminal_direction_tag d))) p = Inr d" for d p
    by (cases d) (simp_all add: readTerminalDirection_def terminal_direction_tag_def)
qed auto

interpretation disk_kind: wire_reader readDiskAlertKind "\<lambda>_. True" "\<lambda>k. JStr (disk_alert_tag k)"
proof
  show "readDiskAlertKind (Some (JStr (disk_alert_tag k))) p = Inr k" for k p
    by (cases k) (simp_all add: readDiskAlertKind_def disk_alert_tag_def)
qed auto

interpretation config_kind: wire_reader readConfigAlertKind "\<lambda>_. True" "\<lambda>k. JStr (config_alert_tag k)"
proof
  show "readConfigAlertKind (Some (JStr (config_alert_tag k))) p = Inr k" for k p
    by (cases k) (simp_all add: readConfigAlertKind_def config_alert_tag_def)
qed auto

end
