(* ===== verification/Protocol_Parse.thy ===== *)
theory Protocol_Parse
  imports Protocol_Readers
begin

text \<open>
  The boundary adapter \<open>parseServerMessage\<close> of \<open>types/protocol.ts\<close> and the record
  parsers it calls. Each case of its switch is a definition of its own; the switch is the
  table \<open>message_cases\<close>. Fields are read in the order of the object literals, so the
  first unreadable field decides the error.
\<close>

section \<open>Record parsers\<close>

definition parsePermissionRule :: "permission_rule value_parser" where
  "parsePermissionRule value path =
     rbind (readObject value path) (\<lambda>obj.
     rbind (readField obj ''toolName'' readString path) (\<lambda>tool_name.
     rbind (readField obj ''ruleContent'' readString path) (\<lambda>rule_content.
     Inr \<lparr>pr_tool_name = tool_name,
       pr_rule_content = rule_content\<rparr>)))"

definition parsePermissionSuggestion :: "permission_suggestion value_parser" where
  "parsePermissionSuggestion value path =
     rbind (readObject value path) (\<lambda>obj.
     rbind (readField obj ''behavior'' readString path) (\<lambda>behavior.
     rbind (readField obj ''type'' readString path) (\<lambda>suggestion_type.
     rbind (readField obj ''destination'' readString path) (\<lambda>destination.
     rbind (readOptionalField obj ''mode'' readString path) (\<lambda>mode.
     rbind (readOptionalField obj ''rules'' (arrayOf parsePermissionRule) path) (\<lambda>rules.
     Inr \<lparr>ps_behavior = behavior,
       ps_suggestion_type = suggestion_type,
       ps_destination = destination,
       ps_mode = mode,
       ps_rules = (case rules of Some xs \<Rightarrow> xs | None \<Rightarrow> [])\<rparr>))))))"

definition parseDecisionRequest :: "decision_request value_parser" where
  "parseDecisionRequest value path =
     rbind (readObject value path) (\<lambda>obj.
     rbind (readField obj ''id'' readUuid path) (\<lambda>id.
     rbind (readField obj ''agent_id'' readString path) (\<lambda>agent_id.
     rbind (readField obj ''agent_type'' readAgentType path) (\<lambda>agent_type.
     rbind (readField obj ''project'' readString path) (\<lambda>project.
     rbind (readField obj ''tool_name'' readString path) (\<lambda>tool_name.
     rbind (readField obj ''tool_input'' readJsonValue path) (\<lambda>tool_input.
     rbind (readField obj ''timestamp'' readRfc3339 path) (\<lambda>timestamp.
     rbind (readField obj ''hook_event_name'' readHookEventType path) (\<lambda>hook_event_name.
     rbind (readOptionalField obj ''tool_use_id'' readString path) (\<lambda>tool_use_id.
     rbind (readOptionalField obj ''permission_suggestions'' (arrayOf parsePermissionSuggestion) path) (\<lambda>permission_suggestions.
     rbind (readOptionalJsonField obj ''event_data'' path) (\<lambda>event_data.
     rbind (readOptionalField obj ''terminal_session_id'' readUuid path) (\<lambda>terminal_session_id.
     Inr \<lparr>dr_id = id,
       dr_agent_id = agent_id,
       dr_agent_type = agent_type,
       dr_project = project,
       dr_tool_name = tool_name,
       dr_tool_input = tool_input,
       dr_timestamp = timestamp,
       dr_hook_event_name = hook_event_name,
       dr_tool_use_id = tool_use_id,
       dr_permission_suggestions = permission_suggestions,
       dr_event_data = event_data,
       dr_terminal_session_id = terminal_session_id\<rparr>)))))))))))))"

definition parseHistoryEntry :: "history_entry value_parser" where
  "parseHistoryEntry value path =
     rbind (readObject value path) (\<lambda>obj.
     rbind (readField obj ''id'' readUuid path) (\<lambda>id.
     rbind (readField obj ''agent_id'' readString path) (\<lambda>agent_id.
     rbind (readField obj ''agent_type'' readAgentTypeLabel path) (\<lambda>agent_type.
     rbind (readField obj ''project'' readString path) (\<lambda>project.
     rbind (readField obj ''tool_name'' readString path) (\<lambda>tool_name.
     rbind (readField obj ''tool_input'' readJsonValue path) (\<lambda>tool_input.
     rbind (readField obj ''decision'' readDecision path) (\<lambda>decision.
     rbind (readField obj ''requested_at'' readRfc3339 path) (\<lambda>requested_at.
     rbind (readField obj ''resolved_at'' readRfc3339 path) (\<lambda>resolved_at.
     rbind (readOptionalJsonField obj ''tool_result'' path) (\<lambda>tool_result.
     rbind (readOptionalField obj ''tool_use_id'' readString path) (\<lambda>tool_use_id.
     rbind (readOptionalField obj ''hook_event_name'' readString path) (\<lambda>hook_event_name.
     rbind (readOptionalField obj ''terminal_session_id'' readUuid path) (\<lambda>terminal_session_id.
     rbind (readOptionalField obj ''decided_by'' readString path) (\<lambda>decided_by.
     rbind (readOptionalField obj ''config_hash'' readString path) (\<lambda>config_hash.
     Inr \<lparr>he_id = id,
       he_agent_id = agent_id,
       he_agent_type = agent_type,
       he_project = project,
       he_tool_name = tool_name,
       he_tool_input = tool_input,
       he_decision = decision,
       he_requested_at = requested_at,
       he_resolved_at = resolved_at,
       he_tool_result = tool_result,
       he_tool_use_id = tool_use_id,
       he_hook_event_name = hook_event_name,
       he_terminal_session_id = terminal_session_id,
       he_decided_by = decided_by,
       he_config_hash = config_hash\<rparr>))))))))))))))))"

definition parseAuditDecision :: "audit_decision value_parser" where
  "parseAuditDecision value path =
     rbind (readObject value path) (\<lambda>obj.
     rbind (readField obj ''kind'' readAuditDecisionKind path) (\<lambda>kind.
     rbind (readOptionalField obj ''decided_by'' readString path) (\<lambda>decided_by.
     rbind (readField obj ''project'' readString path) (\<lambda>project.
     rbind (readField obj ''agent_id'' readString path) (\<lambda>agent_id.
     rbind (readOptionalField obj ''terminal_session_id'' readUuid path) (\<lambda>terminal_session_id.
     rbind (readField obj ''tool_name'' readString path) (\<lambda>tool_name.
     rbind (readField obj ''ts'' readRfc3339 path) (\<lambda>ts.
     rbind (readOptionalField obj ''tool_use_id'' readString path) (\<lambda>tool_use_id.
     rbind (readOptionalField obj ''resolved'' readBoolean path) (\<lambda>resolved.
     rbind (readOptionalJsonField obj ''tool_input'' path) (\<lambda>tool_input.
     Inr \<lparr>ad_kind = kind,
       ad_decided_by = decided_by,
       ad_project = project,
       ad_agent_id = agent_id,
       ad_terminal_session_id = terminal_session_id,
       ad_tool_name = tool_name,
       ad_ts = ts,
       ad_tool_use_id = tool_use_id,
       ad_resolved = resolved,
       ad_tool_input = tool_input\<rparr>)))))))))))"

definition parseAgentInfo :: "agent_info value_parser" where
  "parseAgentInfo value path =
     rbind (readObject value path) (\<lambda>obj.
     rbind (readField obj ''agent_id'' readString path) (\<lambda>agent_id.
     rbind (readField obj ''agent_type'' readAgentType path) (\<lambda>agent_type.
     rbind (readField obj ''project'' readString path) (\<lambda>project.
     rbind (readField obj ''connected_at'' readRfc3339 path) (\<lambda>connected_at.
     rbind (readField obj ''last_seen'' readRfc3339 path) (\<lambda>last_seen.
     Inr \<lparr>ai_agent_id = agent_id,
       ai_agent_type = agent_type,
       ai_project = project,
       ai_connected_at = connected_at,
       ai_last_seen = last_seen\<rparr>))))))"

definition parseManagedAgent :: "managed_agent value_parser" where
  "parseManagedAgent value path =
     rbind (readObject value path) (\<lambda>obj.
     rbind (readField obj ''agent_id'' readString path) (\<lambda>agent_id.
     rbind (readField obj ''agent_type'' readAgentType path) (\<lambda>agent_type.
     rbind (readField obj ''pid'' readU32 path) (\<lambda>pid.
     rbind (readField obj ''project'' readString path) (\<lambda>project.
     rbind (readOptionalField obj ''model'' readString path) (\<lambda>model.
     rbind (readOptionalField obj ''name'' readString path) (\<lambda>name.
     rbind (readField obj ''started_at'' readRfc3339 path) (\<lambda>started_at.
     rbind (readOptionalField obj ''reasoning'' readString path) (\<lambda>reasoning.
     rbind (readOptionalField obj ''max_turns'' readU32 path) (\<lambda>max_turns.
     rbind (readOptionalField obj ''permission_mode'' readString path) (\<lambda>permission_mode.
     Inr \<lparr>ma_agent_id = agent_id,
       ma_agent_type = agent_type,
       ma_pid = pid,
       ma_project = project,
       ma_model = model,
       ma_name = name,
       ma_started_at = started_at,
       ma_reasoning = reasoning,
       ma_max_turns = max_turns,
       ma_permission_mode = permission_mode\<rparr>)))))))))))"

definition parseSessionSummary :: "session_summary value_parser" where
  "parseSessionSummary value path =
     rbind (readObject value path) (\<lambda>obj.
     rbind (readField obj ''agent_id'' readString path) (\<lambda>agent_id.
     rbind (readField obj ''agent_type'' readAgentTypeLabel path) (\<lambda>agent_type.
     rbind (readField obj ''project'' readString path) (\<lambda>project.
     rbind (readField obj ''first_seen'' readRfc3339 path) (\<lambda>first_seen.
     rbind (readField obj ''last_seen'' readRfc3339 path) (\<lambda>last_seen.
     rbind (readField obj ''total_calls'' readU32 path) (\<lambda>total_calls.
     rbind (readField obj ''approved'' readU32 path) (\<lambda>approved.
     rbind (readField obj ''denied'' readU32 path) (\<lambda>denied.
     rbind (readField obj ''is_live'' readBoolean path) (\<lambda>is_live.
     rbind (readField obj ''pending_count'' readU32 path) (\<lambda>pending_count.
     Inr \<lparr>ss_agent_id = agent_id,
       ss_agent_type = agent_type,
       ss_project = project,
       ss_first_seen = first_seen,
       ss_last_seen = last_seen,
       ss_total_calls = total_calls,
       ss_approved = approved,
       ss_denied = denied,
       ss_is_live = is_live,
       ss_pending_count = pending_count\<rparr>)))))))))))"

definition parseProjectSummary :: "project_summary value_parser" where
  "parseProjectSummary value path =
     rbind (readObject value path) (\<lambda>obj.
     rbind (readField obj ''project'' readString path) (\<lambda>project.
     rbind (readField obj ''first_seen'' readRfc3339 path) (\<lambda>first_seen.
     rbind (readField obj ''last_seen'' readRfc3339 path) (\<lambda>last_seen.
     rbind (readField obj ''total_calls'' readU32 path) (\<lambda>total_calls.
     rbind (readField obj ''approved'' readU32 path) (\<lambda>approved.
     rbind (readField obj ''denied'' readU32 path) (\<lambda>denied.
     rbind (readField obj ''agent_count'' readU32 path) (\<lambda>agent_count.
     rbind (readField obj ''pending_count'' readU32 path) (\<lambda>pending_count.
     rbind (readField obj ''has_live_agents'' readBoolean path) (\<lambda>has_live_agents.
     Inr \<lparr>pj_project = project,
       pj_first_seen = first_seen,
       pj_last_seen = last_seen,
       pj_total_calls = total_calls,
       pj_approved = approved,
       pj_denied = denied,
       pj_agent_count = agent_count,
       pj_pending_count = pending_count,
       pj_has_live_agents = has_live_agents\<rparr>))))))))))"

definition parseWorktreeChange :: "worktree_change value_parser" where
  "parseWorktreeChange value path =
     rbind (readObject value path) (\<lambda>obj.
     rbind (readField obj ''path'' readString path) (\<lambda>path'.
     rbind (readField obj ''status'' readString path) (\<lambda>status.
     rbind (readOptionalField obj ''orig_path'' readString path) (\<lambda>orig_path.
     rbind (readOptionalField obj ''attributed_to'' readString path) (\<lambda>attributed_to.
     rbind (readOptionalField obj ''attributed_tool'' readString path) (\<lambda>attributed_tool.
     Inr \<lparr>wc_path = path',
       wc_status = status,
       wc_orig_path = orig_path,
       wc_attributed_to = attributed_to,
       wc_attributed_tool = attributed_tool\<rparr>))))))"

definition parseWorktreeStatus :: "worktree_status value_parser" where
  "parseWorktreeStatus value path =
     rbind (readObject value path) (\<lambda>obj.
     rbind (readField obj ''project'' readString path) (\<lambda>project.
     rbind (readField obj ''is_git_repo'' readBoolean path) (\<lambda>is_git_repo.
     rbind (readOptionalField obj ''branch'' readString path) (\<lambda>branch.
     rbind (readOptionalField obj ''detached'' readBoolean path) (\<lambda>detached.
     rbind (readOptionalField obj ''head'' readString path) (\<lambda>head.
     rbind (readOptionalField obj ''upstream'' readString path) (\<lambda>upstream.
     rbind (readOptionalField obj ''ahead'' readU32 path) (\<lambda>ahead.
     rbind (readOptionalField obj ''behind'' readU32 path) (\<lambda>behind.
     rbind (readOptionalField obj ''changes'' (arrayOf parseWorktreeChange) path) (\<lambda>changes.
     rbind (readOptionalField obj ''changes_truncated'' readBoolean path) (\<lambda>changes_truncated.
     rbind (readOptionalField obj ''diffstat'' readString path) (\<lambda>diffstat.
     rbind (readField obj ''probed_at'' readRfc3339 path) (\<lambda>probed_at.
     rbind (readOptionalField obj ''error'' readString path) (\<lambda>error.
     Inr \<lparr>wt_project = project,
       wt_is_git_repo = is_git_repo,
       wt_branch = branch,
       wt_detached = (case detached of Some b \<Rightarrow> b | None \<Rightarrow> False),
       wt_head = head,
       wt_upstream = upstream,
       wt_ahead = ahead,
       wt_behind = behind,
       wt_changes = (case changes of Some xs \<Rightarrow> xs | None \<Rightarrow> []),
       wt_changes_truncated = (case changes_truncated of Some b \<Rightarrow> b | None \<Rightarrow> False),
       wt_diffstat = diffstat,
       wt_probed_at = probed_at,
       wt_error = error\<rparr>))))))))))))))"

definition parseArtifactTouch :: "artifact_touch value_parser" where
  "parseArtifactTouch value path =
     rbind (readObject value path) (\<lambda>obj.
     rbind (readField obj ''agent_id'' readString path) (\<lambda>agent_id.
     rbind (readField obj ''project'' readString path) (\<lambda>project.
     rbind (readField obj ''tool_name'' readString path) (\<lambda>tool_name.
     rbind (readOptionalField obj ''tool_input'' readJsonValue path) (\<lambda>tool_input.
     rbind (readField obj ''ts'' readRfc3339 path) (\<lambda>ts.
     Inr \<lparr>at_agent_id = agent_id,
       at_project = project,
       at_tool_name = tool_name,
       at_tool_input = tool_input,
       at_ts = ts\<rparr>))))))"

definition parseProjectHookStatus :: "project_hook_status value_parser" where
  "parseProjectHookStatus value path =
     rbind (readObject value path) (\<lambda>obj.
     rbind (readField obj ''project'' readString path) (\<lambda>project.
     rbind (readField obj ''mode'' readString path) (\<lambda>mode.
     rbind (readField obj ''claude_installed'' readBoolean path) (\<lambda>claude_installed.
     rbind (readField obj ''codex_installed'' readBoolean path) (\<lambda>codex_installed.
     rbind (readField obj ''missing_events'' (arrayOf readString) path) (\<lambda>missing_events.
     rbind (readField obj ''all_installed'' readBoolean path) (\<lambda>all_installed.
     rbind (readField obj ''all_enabled'' readBoolean path) (\<lambda>all_enabled.
     Inr \<lparr>hs_project = project,
       hs_mode = mode,
       hs_claude_installed = claude_installed,
       hs_codex_installed = codex_installed,
       hs_missing_events = missing_events,
       hs_all_installed = all_installed,
       hs_all_enabled = all_enabled\<rparr>))))))))"

definition parseTerminalSessionMeta :: "terminal_session_meta value_parser" where
  "parseTerminalSessionMeta value path =
     rbind (readObject value path) (\<lambda>obj.
     rbind (readField obj ''id'' readUuid path) (\<lambda>id.
     rbind (readOptionalField obj ''label'' readString path) (\<lambda>label.
     rbind (readField obj ''command'' readString path) (\<lambda>command.
     rbind (readOptionalField obj ''args'' (arrayOf readString) path) (\<lambda>args.
     rbind (readField obj ''cwd'' readString path) (\<lambda>cwd.
     rbind (readField obj ''cols'' readU16 path) (\<lambda>cols.
     rbind (readField obj ''rows'' readU16 path) (\<lambda>rows.
     rbind (readField obj ''started_at'' readRfc3339 path) (\<lambda>started_at.
     rbind (readOptionalField obj ''ended_at'' readRfc3339 path) (\<lambda>ended_at.
     rbind (readOptionalField obj ''exit_code'' readI32 path) (\<lambda>exit_code.
     rbind (readField obj ''status'' readTerminalStatus path) (\<lambda>status.
     rbind (readOptionalField obj ''group_name'' readString path) (\<lambda>group_name.
     rbind (readField obj ''sort_order'' readI64Safe path) (\<lambda>sort_order.
     rbind (readOptionalField obj ''created_by'' readString path) (\<lambda>created_by.
     rbind (readOptionalField obj ''replay_acl'' (arrayOf readString) path) (\<lambda>replay_acl.
     rbind (readOptionalField obj ''pinned'' readBoolean path) (\<lambda>pinned.
     Inr \<lparr>tm_id = id,
       tm_label = label,
       tm_command = command,
       tm_args = (case args of Some xs \<Rightarrow> xs | None \<Rightarrow> []),
       tm_cwd = cwd,
       tm_cols = cols,
       tm_rows = rows,
       tm_started_at = started_at,
       tm_ended_at = ended_at,
       tm_exit_code = exit_code,
       tm_status = status,
       tm_group_name = group_name,
       tm_sort_order = sort_order,
       tm_created_by = created_by,
       tm_replay_acl = replay_acl,
       tm_pinned = (case pinned of Some b \<Rightarrow> b | None \<Rightarrow> False)\<rparr>)))))))))))))))))"

section \<open>The cases of the switch\<close>

definition case_welcome :: "json_object \<Rightarrow> server_message result" where
  "case_welcome message =
     rbind (readField message ''version'' readU32 ''message'') (\<lambda>version.
     Inr (Sm_welcome version))"

definition case_decision_response :: "json_object \<Rightarrow> server_message result" where
  "case_decision_response message =
     rbind (readField message ''id'' readUuid ''message'') (\<lambda>id.
     rbind (readField message ''decision'' readDecision ''message'') (\<lambda>decision.
     rbind (readOptionalField message ''message'' readString ''message'') (\<lambda>msg.
     rbind (readOptionalJsonField message ''updated_input'' ''message'') (\<lambda>updated_input.
     rbind (readOptionalField message ''additional_context'' readString ''message'') (\<lambda>additional_context.
     rbind (readOptionalField message ''selected_permission'' parsePermissionSuggestion ''message'') (\<lambda>selected_permission.
     Inr (Sm_decision_response id decision msg updated_input additional_context selected_permission)))))))"

definition case_queue_snapshot :: "json_object \<Rightarrow> server_message result" where
  "case_queue_snapshot message =
     rbind (readField message ''items'' (arrayOf parseDecisionRequest) ''message'') (\<lambda>items.
     Inr (Sm_queue_snapshot items))"

definition case_new_decision :: "json_object \<Rightarrow> server_message result" where
  "case_new_decision message =
     rbind (parseDecisionRequest (Some (JObj message)) ''message'') (\<lambda>x. Inr (Sm_new_decision x))"

definition case_decision_resolved :: "json_object \<Rightarrow> server_message result" where
  "case_decision_resolved message =
     rbind (readField message ''id'' readUuid ''message'') (\<lambda>id.
     rbind (readField message ''decision'' readDecision ''message'') (\<lambda>decision.
     Inr (Sm_decision_resolved id decision)))"

definition case_audit_snapshot :: "json_object \<Rightarrow> server_message result" where
  "case_audit_snapshot message =
     rbind (readField message ''items'' (arrayOf parseAuditDecision) ''message'') (\<lambda>items.
     Inr (Sm_audit_snapshot items))"

definition case_audit_decision :: "json_object \<Rightarrow> server_message result" where
  "case_audit_decision message =
     rbind (parseAuditDecision (Some (JObj message)) ''message'') (\<lambda>x. Inr (Sm_audit_decision x))"

definition case_deferred_resolved :: "json_object \<Rightarrow> server_message result" where
  "case_deferred_resolved message =
     rbind (readField message ''tool_use_id'' readString ''message'') (\<lambda>tool_use_id.
     rbind (readField message ''agent_id'' readString ''message'') (\<lambda>agent_id.
     rbind (readField message ''tool_name'' readString ''message'') (\<lambda>tool_name.
     rbind (readField message ''ts'' readRfc3339 ''message'') (\<lambda>ts.
     rbind (readOptionalField message ''answer_summary'' readString ''message'') (\<lambda>answer_summary.
     Inr (Sm_deferred_resolved tool_use_id agent_id tool_name ts answer_summary))))))"

definition case_agent_connected :: "json_object \<Rightarrow> server_message result" where
  "case_agent_connected message =
     rbind (parseAgentInfo (Some (JObj message)) ''message'') (\<lambda>x. Inr (Sm_agent_connected x))"

definition case_agent_disconnected :: "json_object \<Rightarrow> server_message result" where
  "case_agent_disconnected message =
     rbind (readField message ''agent_id'' readString ''message'') (\<lambda>agent_id.
     Inr (Sm_agent_disconnected agent_id))"

definition case_agent_spawned :: "json_object \<Rightarrow> server_message result" where
  "case_agent_spawned message =
     rbind (parseManagedAgent (Some (JObj message)) ''message'') (\<lambda>x. Inr (Sm_agent_spawned x))"

definition case_agent_exited :: "json_object \<Rightarrow> server_message result" where
  "case_agent_exited message =
     rbind (readField message ''agent_id'' readString ''message'') (\<lambda>agent_id.
     rbind (readOptionalField message ''exit_code'' readI32 ''message'') (\<lambda>exit_code.
     Inr (Sm_agent_exited agent_id exit_code)))"

definition case_agent_spawn_queued :: "json_object \<Rightarrow> server_message result" where
  "case_agent_spawn_queued message =
     rbind (readField message ''decision'' parseDecisionRequest ''message'') (\<lambda>decision.
     rbind (readOptionalField message ''correlation_id'' readString ''message'') (\<lambda>correlation_id.
     Inr (Sm_agent_spawn_queued decision correlation_id)))"

definition case_command_error :: "json_object \<Rightarrow> server_message result" where
  "case_command_error message =
     rbind (readField message ''message'' readString ''message'') (\<lambda>msg.
     rbind (readOptionalField message ''correlation_id'' readString ''message'') (\<lambda>correlation_id.
     Inr (Sm_command_error msg correlation_id)))"

definition case_agent_list :: "json_object \<Rightarrow> server_message result" where
  "case_agent_list message =
     rbind (readField message ''agents'' (arrayOf parseManagedAgent) ''message'') (\<lambda>agents.
     Inr (Sm_agent_list agents))"

definition case_agents_snapshot :: "json_object \<Rightarrow> server_message result" where
  "case_agents_snapshot message =
     rbind (readField message ''agents'' (arrayOf parseAgentInfo) ''message'') (\<lambda>agents.
     Inr (Sm_agents_snapshot agents))"

definition case_history_response :: "json_object \<Rightarrow> server_message result" where
  "case_history_response message =
     rbind (readField message ''entries'' (arrayOf parseHistoryEntry) ''message'') (\<lambda>entries.
     rbind (readOptionalField message ''request_id'' readString ''message'') (\<lambda>request_id.
     Inr (Sm_history_response entries request_id)))"

definition case_sessions_response :: "json_object \<Rightarrow> server_message result" where
  "case_sessions_response message =
     rbind (readField message ''sessions'' (arrayOf parseSessionSummary) ''message'') (\<lambda>sessions.
     Inr (Sm_sessions_response sessions))"

definition case_projects_response :: "json_object \<Rightarrow> server_message result" where
  "case_projects_response message =
     rbind (readField message ''projects'' (arrayOf parseProjectSummary) ''message'') (\<lambda>projects.
     Inr (Sm_projects_response projects))"

definition case_worktrees_response :: "json_object \<Rightarrow> server_message result" where
  "case_worktrees_response message =
     rbind (readField message ''worktrees'' (arrayOf parseWorktreeStatus) ''message'') (\<lambda>worktrees.
     Inr (Sm_worktrees_response worktrees))"

definition case_burn_response :: "json_object \<Rightarrow> server_message result" where
  "case_burn_response message =
     rbind (readField message ''touches'' (arrayOf parseArtifactTouch) ''message'') (\<lambda>touches.
     Inr (Sm_burn_response touches))"

definition case_project_hook_status :: "json_object \<Rightarrow> server_message result" where
  "case_project_hook_status message =
     rbind (parseProjectHookStatus (Some (JObj message)) ''message'') (\<lambda>x. Inr (Sm_project_hook_status x))"

definition case_install_hooks_result :: "json_object \<Rightarrow> server_message result" where
  "case_install_hooks_result message =
     rbind (readField message ''project'' readString ''message'') (\<lambda>project.
     rbind (readOptionalField message ''status'' parseProjectHookStatus ''message'') (\<lambda>status.
     rbind (readOptionalField message ''error'' readString ''message'') (\<lambda>error.
     Inr (Sm_install_hooks_result project status error))))"

definition case_reimport_complete :: "json_object \<Rightarrow> server_message result" where
  "case_reimport_complete message =
     rbind (readField message ''count'' readU64Safe ''message'') (\<lambda>count.
     Inr (Sm_reimport_complete count))"

definition case_error :: "json_object \<Rightarrow> server_message result" where
  "case_error message =
     rbind (readField message ''message'' readString ''message'') (\<lambda>msg.
     Inr (Sm_error msg))"

definition case_web_login_failure :: "json_object \<Rightarrow> server_message result" where
  "case_web_login_failure message =
     rbind (readField message ''ip'' readString ''message'') (\<lambda>ip.
     rbind (readField message ''attempt_count'' readU32 ''message'') (\<lambda>attempt_count.
     rbind (readField message ''at'' readRfc3339 ''message'') (\<lambda>at_time.
     Inr (Sm_web_login_failure ip attempt_count at_time))))"

definition case_web_login_success :: "json_object \<Rightarrow> server_message result" where
  "case_web_login_success message =
     rbind (readField message ''device_id'' readString ''message'') (\<lambda>device_id.
     rbind (readField message ''device_name'' readString ''message'') (\<lambda>device_name.
     rbind (readField message ''ip'' readString ''message'') (\<lambda>ip.
     rbind (readField message ''at'' readRfc3339 ''message'') (\<lambda>at_time.
     Inr (Sm_web_login_success device_id device_name ip at_time)))))"

definition case_web_device_registered :: "json_object \<Rightarrow> server_message result" where
  "case_web_device_registered message =
     rbind (readField message ''device_id'' readString ''message'') (\<lambda>device_id.
     rbind (readField message ''device_name'' readString ''message'') (\<lambda>device_name.
     rbind (readField message ''at'' readRfc3339 ''message'') (\<lambda>at_time.
     Inr (Sm_web_device_registered device_id device_name at_time))))"

definition case_web_device_revoked :: "json_object \<Rightarrow> server_message result" where
  "case_web_device_revoked message =
     rbind (readField message ''device_id'' readString ''message'') (\<lambda>device_id.
     rbind (readField message ''at'' readRfc3339 ''message'') (\<lambda>at_time.
     Inr (Sm_web_device_revoked device_id at_time)))"

definition case_term_created :: "json_object \<Rightarrow> server_message result" where
  "case_term_created message =
     rbind (parseTerminalSessionMeta (Some (JObj message)) ''message'') (\<lambda>x. Inr (Sm_term_created x))"

definition case_term_list_response :: "json_object \<Rightarrow> server_message result" where
  "case_term_list_response message =
     rbind (readField message ''sessions'' (arrayOf parseTerminalSessionMeta) ''message'') (\<lambda>sessions.
     Inr (Sm_term_list_response sessions))"

definition case_term_chunk :: "json_object \<Rightarrow> server_message result" where
  "case_term_chunk message =
     rbind (readField message ''id'' readUuid ''message'') (\<lambda>id.
     rbind (readField message ''seq'' readU64Safe ''message'') (\<lambda>seq.
     rbind (readField message ''ts_us'' readI64Safe ''message'') (\<lambda>ts_us.
     rbind (readField message ''direction'' readTerminalDirection ''message'') (\<lambda>direction.
     rbind (readField message ''data'' readString ''message'') (\<lambda>data.
     Inr (Sm_term_chunk id seq ts_us direction data))))))"

definition case_term_catchup :: "json_object \<Rightarrow> server_message result" where
  "case_term_catchup message =
     rbind (readField message ''id'' readUuid ''message'') (\<lambda>id.
     rbind (readField message ''cols'' readU16 ''message'') (\<lambda>cols.
     rbind (readField message ''rows'' readU16 ''message'') (\<lambda>rows.
     rbind (readField message ''next_seq'' readU64Safe ''message'') (\<lambda>next_seq.
     rbind (readField message ''screen'' readString ''message'') (\<lambda>screen.
     Inr (Sm_term_catchup id cols rows next_seq screen))))))"

definition case_term_ended :: "json_object \<Rightarrow> server_message result" where
  "case_term_ended message =
     rbind (readField message ''id'' readUuid ''message'') (\<lambda>id.
     rbind (readOptionalField message ''exit_code'' readI32 ''message'') (\<lambda>exit_code.
     rbind (readField message ''status'' readTerminalStatus ''message'') (\<lambda>status.
     Inr (Sm_term_ended id exit_code status))))"

definition case_term_replay_chunk :: "json_object \<Rightarrow> server_message result" where
  "case_term_replay_chunk message =
     rbind (readField message ''id'' readUuid ''message'') (\<lambda>id.
     rbind (readField message ''seq'' readU64Safe ''message'') (\<lambda>seq.
     rbind (readField message ''ts_us'' readI64Safe ''message'') (\<lambda>ts_us.
     rbind (readField message ''direction'' readTerminalDirection ''message'') (\<lambda>direction.
     rbind (readField message ''data'' readString ''message'') (\<lambda>data.
     Inr (Sm_term_replay_chunk id seq ts_us direction data))))))"

definition case_term_replay_done :: "json_object \<Rightarrow> server_message result" where
  "case_term_replay_done message =
     rbind (readField message ''id'' readUuid ''message'') (\<lambda>id.
     rbind (readField message ''total_events'' readU64Safe ''message'') (\<lambda>total_events.
     Inr (Sm_term_replay_done id total_events)))"

definition case_term_error :: "json_object \<Rightarrow> server_message result" where
  "case_term_error message =
     rbind (readOptionalField message ''id'' readUuid ''message'') (\<lambda>id.
     rbind (readField message ''message'' readString ''message'') (\<lambda>msg.
     Inr (Sm_term_error id msg)))"

definition case_web_reauth_required :: "json_object \<Rightarrow> server_message result" where
  "case_web_reauth_required message =
     rbind (readField message ''device_id'' readString ''message'') (\<lambda>device_id.
     rbind (readField message ''request_id'' readString ''message'') (\<lambda>request_id.
     rbind (readField message ''tool_name'' readString ''message'') (\<lambda>tool_name.
     rbind (readField message ''at'' readRfc3339 ''message'') (\<lambda>at_time.
     Inr (Sm_web_reauth_required device_id request_id tool_name at_time)))))"

definition case_mark_device_fresh_ack :: "json_object \<Rightarrow> server_message result" where
  "case_mark_device_fresh_ack message =
     rbind (readField message ''device_id'' readString ''message'') (\<lambda>device_id.
     Inr (Sm_mark_device_fresh_ack device_id))"

definition case_disk_alert :: "json_object \<Rightarrow> server_message result" where
  "case_disk_alert message =
     rbind (readField message ''kind'' readDiskAlertKind ''message'') (\<lambda>kind.
     rbind (readField message ''active'' readBoolean ''message'') (\<lambda>active.
     rbind (readField message ''message'' readString ''message'') (\<lambda>msg.
     rbind (readField message ''at'' readRfc3339 ''message'') (\<lambda>at_time.
     Inr (Sm_disk_alert kind active msg at_time)))))"

definition case_config_alert :: "json_object \<Rightarrow> server_message result" where
  "case_config_alert message =
     rbind (readField message ''kind'' readConfigAlertKind ''message'') (\<lambda>kind.
     rbind (readField message ''active'' readBoolean ''message'') (\<lambda>active.
     rbind (readField message ''message'' readString ''message'') (\<lambda>msg.
     rbind (readField message ''at'' readRfc3339 ''message'') (\<lambda>at_time.
     Inr (Sm_config_alert kind active msg at_time)))))"

definition message_cases :: "(string \<times> (json_object \<Rightarrow> server_message result)) list" where
  "message_cases =
     [(''welcome'', case_welcome),
      (''decision_response'', case_decision_response),
      (''queue_snapshot'', case_queue_snapshot),
      (''new_decision'', case_new_decision),
      (''decision_resolved'', case_decision_resolved),
      (''audit_snapshot'', case_audit_snapshot),
      (''audit_decision'', case_audit_decision),
      (''deferred_resolved'', case_deferred_resolved),
      (''agent_connected'', case_agent_connected),
      (''agent_disconnected'', case_agent_disconnected),
      (''agent_spawned'', case_agent_spawned),
      (''agent_exited'', case_agent_exited),
      (''agent_spawn_queued'', case_agent_spawn_queued),
      (''command_error'', case_command_error),
      (''agent_list'', case_agent_list),
      (''agents_snapshot'', case_agents_snapshot),
      (''history_response'', case_history_response),
      (''sessions_response'', case_sessions_response),
      (''projects_response'', case_projects_response),
      (''worktrees_response'', case_worktrees_response),
      (''burn_response'', case_burn_response),
      (''project_hook_status'', case_project_hook_status),
      (''install_hooks_result'', case_install_hooks_result),
      (''reimport_complete'', case_reimport_complete),
      (''error'', case_error),
      (''web_login_failure'', case_web_login_failure),
      (''web_login_success'', case_web_login_success),
      (''web_device_registered'', case_web_device_registered),
      (''web_device_revoked'', case_web_device_revoked),
      (''term_created'', case_term_created),
      (''term_list_response'', case_term_list_response),
      (''term_chunk'', case_term_chunk),
      (''term_catchup'', case_term_catchup),
      (''term_ended'', case_term_ended),
      (''term_replay_chunk'', case_term_replay_chunk),
      (''term_replay_done'', case_term_replay_done),
      (''term_error'', case_term_error),
      (''web_reauth_required'', case_web_reauth_required),
      (''mark_device_fresh_ack'', case_mark_device_fresh_ack),
      (''disk_alert'', case_disk_alert),
      (''config_alert'', case_config_alert)]"

text \<open>
  \<open>decoded\<close> is what \<open>JSON.parse(data)\<close> returns, \<^const>\<open>None\<close> where it throws.
\<close>

definition parseServerMessage :: "json option \<Rightarrow> server_message result" where
  "parseServerMessage decoded =
     (case decoded of
        None \<Rightarrow> Inl ''server message is not valid JSON''
      | Some value \<Rightarrow>
          rbind (readObject (Some value) ''message'') (\<lambda>message.
          rbind (readField message ''type'' readString ''message'') (\<lambda>type.
          case map_of message_cases type of
            Some parse_case \<Rightarrow> parse_case message
          | None \<Rightarrow> invalid ''message.type'' (''known server message type, received '' @ type))))"

end
