(* ===== verification/Protocol_Laws.thy ===== *)
theory Protocol_Laws
  imports Protocol_Parse
begin

text \<open>
  What the boundary guarantees. The well-formedness predicates say which messages the
  application code can ever see; the \<open>fields_\<dots>\<close> functions and \<open>wire_message\<close> are
  the wire shape the daemon serialises (tuple variants flattened into the tagged object,
  absent optional fields left out). Every record parser is an interpretation of the reader
  contract for its predicate and its wire shape.
\<close>

section \<open>Wire shape and well-formedness of the records\<close>

definition opt :: "string \<Rightarrow> ('a \<Rightarrow> json) \<Rightarrow> 'a option \<Rightarrow> json_object" where
  "opt k e x = (case x of None \<Rightarrow> [] | Some y \<Rightarrow> [(k, e y)])"

definition fields_permission_rule :: "permission_rule \<Rightarrow> json_object" where
  "fields_permission_rule r =
     (''toolName'', JStr (pr_tool_name r)) # 
     (''ruleContent'', JStr (pr_rule_content r)) # []"

definition wf_permission_rule :: "permission_rule \<Rightarrow> bool" where
  "wf_permission_rule r \<longleftrightarrow> True"

definition fields_permission_suggestion :: "permission_suggestion \<Rightarrow> json_object" where
  "fields_permission_suggestion r =
     (''behavior'', JStr (ps_behavior r)) # 
     (''type'', JStr (ps_suggestion_type r)) # 
     (''destination'', JStr (ps_destination r)) # 
     opt ''mode'' JStr (ps_mode r) @ 
     (''rules'', (\<lambda>xs. JArr (map (\<lambda>x. JObj (fields_permission_rule x)) xs)) (ps_rules r)) # []"

definition wf_permission_suggestion :: "permission_suggestion \<Rightarrow> bool" where
  "wf_permission_suggestion r \<longleftrightarrow> list_all wf_permission_rule (ps_rules r)"

definition fields_decision_request :: "decision_request \<Rightarrow> json_object" where
  "fields_decision_request r =
     (''id'', JStr (dr_id r)) # 
     (''agent_id'', JStr (dr_agent_id r)) # 
     (''agent_type'', (\<lambda>t. JStr (agent_type_tag t)) (dr_agent_type r)) # 
     (''project'', JStr (dr_project r)) # 
     (''tool_name'', JStr (dr_tool_name r)) # 
     (''tool_input'', (\<lambda>x. x) (dr_tool_input r)) # 
     (''timestamp'', JStr (dr_timestamp r)) # 
     (''hook_event_name'', (\<lambda>e. JStr (hook_event_tag e)) (dr_hook_event_name r)) # 
     opt ''tool_use_id'' JStr (dr_tool_use_id r) @ 
     opt ''permission_suggestions'' (\<lambda>xs. JArr (map (\<lambda>x. JObj (fields_permission_suggestion x)) xs)) (dr_permission_suggestions r) @ 
     opt ''event_data'' (\<lambda>x. x) (dr_event_data r) @ 
     opt ''terminal_session_id'' JStr (dr_terminal_session_id r) @ []"

definition wf_decision_request :: "decision_request \<Rightarrow> bool" where
  "wf_decision_request r \<longleftrightarrow> is_uuid (dr_id r) \<and>
     finite_json (dr_tool_input r) \<and>
     is_rfc3339 (dr_timestamp r) \<and>
     pred_option (list_all wf_permission_suggestion) (dr_permission_suggestions r) \<and>
     pred_option finite_json (dr_event_data r) \<and>
     pred_option is_uuid (dr_terminal_session_id r)"

definition fields_history_entry :: "history_entry \<Rightarrow> json_object" where
  "fields_history_entry r =
     (''id'', JStr (he_id r)) # 
     (''agent_id'', JStr (he_agent_id r)) # 
     (''agent_type'', JStr (he_agent_type r)) # 
     (''project'', JStr (he_project r)) # 
     (''tool_name'', JStr (he_tool_name r)) # 
     (''tool_input'', (\<lambda>x. x) (he_tool_input r)) # 
     (''decision'', (\<lambda>d. JStr (decision_tag d)) (he_decision r)) # 
     (''requested_at'', JStr (he_requested_at r)) # 
     (''resolved_at'', JStr (he_resolved_at r)) # 
     opt ''tool_result'' (\<lambda>x. x) (he_tool_result r) @ 
     opt ''tool_use_id'' JStr (he_tool_use_id r) @ 
     opt ''hook_event_name'' JStr (he_hook_event_name r) @ 
     opt ''terminal_session_id'' JStr (he_terminal_session_id r) @ 
     opt ''decided_by'' JStr (he_decided_by r) @ 
     opt ''config_hash'' JStr (he_config_hash r) @ []"

definition wf_history_entry :: "history_entry \<Rightarrow> bool" where
  "wf_history_entry r \<longleftrightarrow> is_uuid (he_id r) \<and>
     finite_json (he_tool_input r) \<and>
     is_rfc3339 (he_requested_at r) \<and>
     is_rfc3339 (he_resolved_at r) \<and>
     pred_option finite_json (he_tool_result r) \<and>
     pred_option is_uuid (he_terminal_session_id r)"

definition fields_audit_decision :: "audit_decision \<Rightarrow> json_object" where
  "fields_audit_decision r =
     (''kind'', (\<lambda>k. JStr (audit_kind_tag k)) (ad_kind r)) # 
     opt ''decided_by'' JStr (ad_decided_by r) @ 
     (''project'', JStr (ad_project r)) # 
     (''agent_id'', JStr (ad_agent_id r)) # 
     opt ''terminal_session_id'' JStr (ad_terminal_session_id r) @ 
     (''tool_name'', JStr (ad_tool_name r)) # 
     (''ts'', JStr (ad_ts r)) # 
     opt ''tool_use_id'' JStr (ad_tool_use_id r) @ 
     opt ''resolved'' JBool (ad_resolved r) @ 
     opt ''tool_input'' (\<lambda>x. x) (ad_tool_input r) @ []"

definition wf_audit_decision :: "audit_decision \<Rightarrow> bool" where
  "wf_audit_decision r \<longleftrightarrow> pred_option is_uuid (ad_terminal_session_id r) \<and>
     is_rfc3339 (ad_ts r) \<and>
     pred_option finite_json (ad_tool_input r)"

definition fields_agent_info :: "agent_info \<Rightarrow> json_object" where
  "fields_agent_info r =
     (''agent_id'', JStr (ai_agent_id r)) # 
     (''agent_type'', (\<lambda>t. JStr (agent_type_tag t)) (ai_agent_type r)) # 
     (''project'', JStr (ai_project r)) # 
     (''connected_at'', JStr (ai_connected_at r)) # 
     (''last_seen'', JStr (ai_last_seen r)) # []"

definition wf_agent_info :: "agent_info \<Rightarrow> bool" where
  "wf_agent_info r \<longleftrightarrow> is_rfc3339 (ai_connected_at r) \<and>
     is_rfc3339 (ai_last_seen r)"

definition fields_managed_agent :: "managed_agent \<Rightarrow> json_object" where
  "fields_managed_agent r =
     (''agent_id'', JStr (ma_agent_id r)) # 
     (''agent_type'', (\<lambda>t. JStr (agent_type_tag t)) (ma_agent_type r)) # 
     (''pid'', jint (ma_pid r)) # 
     (''project'', JStr (ma_project r)) # 
     opt ''model'' JStr (ma_model r) @ 
     opt ''name'' JStr (ma_name r) @ 
     (''started_at'', JStr (ma_started_at r)) # 
     opt ''reasoning'' JStr (ma_reasoning r) @ 
     opt ''max_turns'' jint (ma_max_turns r) @ 
     opt ''permission_mode'' JStr (ma_permission_mode r) @ []"

definition wf_managed_agent :: "managed_agent \<Rightarrow> bool" where
  "wf_managed_agent r \<longleftrightarrow> in_u32 (ma_pid r) \<and>
     is_rfc3339 (ma_started_at r) \<and>
     pred_option (in_u32) (ma_max_turns r)"

definition fields_session_summary :: "session_summary \<Rightarrow> json_object" where
  "fields_session_summary r =
     (''agent_id'', JStr (ss_agent_id r)) # 
     (''agent_type'', JStr (ss_agent_type r)) # 
     (''project'', JStr (ss_project r)) # 
     (''first_seen'', JStr (ss_first_seen r)) # 
     (''last_seen'', JStr (ss_last_seen r)) # 
     (''total_calls'', jint (ss_total_calls r)) # 
     (''approved'', jint (ss_approved r)) # 
     (''denied'', jint (ss_denied r)) # 
     (''is_live'', JBool (ss_is_live r)) # 
     (''pending_count'', jint (ss_pending_count r)) # []"

definition wf_session_summary :: "session_summary \<Rightarrow> bool" where
  "wf_session_summary r \<longleftrightarrow> is_rfc3339 (ss_first_seen r) \<and>
     is_rfc3339 (ss_last_seen r) \<and>
     in_u32 (ss_total_calls r) \<and>
     in_u32 (ss_approved r) \<and>
     in_u32 (ss_denied r) \<and>
     in_u32 (ss_pending_count r)"

definition fields_project_summary :: "project_summary \<Rightarrow> json_object" where
  "fields_project_summary r =
     (''project'', JStr (pj_project r)) # 
     (''first_seen'', JStr (pj_first_seen r)) # 
     (''last_seen'', JStr (pj_last_seen r)) # 
     (''total_calls'', jint (pj_total_calls r)) # 
     (''approved'', jint (pj_approved r)) # 
     (''denied'', jint (pj_denied r)) # 
     (''agent_count'', jint (pj_agent_count r)) # 
     (''pending_count'', jint (pj_pending_count r)) # 
     (''has_live_agents'', JBool (pj_has_live_agents r)) # []"

definition wf_project_summary :: "project_summary \<Rightarrow> bool" where
  "wf_project_summary r \<longleftrightarrow> is_rfc3339 (pj_first_seen r) \<and>
     is_rfc3339 (pj_last_seen r) \<and>
     in_u32 (pj_total_calls r) \<and>
     in_u32 (pj_approved r) \<and>
     in_u32 (pj_denied r) \<and>
     in_u32 (pj_agent_count r) \<and>
     in_u32 (pj_pending_count r)"

definition fields_worktree_change :: "worktree_change \<Rightarrow> json_object" where
  "fields_worktree_change r =
     (''path'', JStr (wc_path r)) # 
     (''status'', JStr (wc_status r)) # 
     opt ''orig_path'' JStr (wc_orig_path r) @ 
     opt ''attributed_to'' JStr (wc_attributed_to r) @ 
     opt ''attributed_tool'' JStr (wc_attributed_tool r) @ []"

definition wf_worktree_change :: "worktree_change \<Rightarrow> bool" where
  "wf_worktree_change r \<longleftrightarrow> True"

definition fields_worktree_status :: "worktree_status \<Rightarrow> json_object" where
  "fields_worktree_status r =
     (''project'', JStr (wt_project r)) # 
     (''is_git_repo'', JBool (wt_is_git_repo r)) # 
     opt ''branch'' JStr (wt_branch r) @ 
     (''detached'', JBool (wt_detached r)) # 
     opt ''head'' JStr (wt_head r) @ 
     opt ''upstream'' JStr (wt_upstream r) @ 
     opt ''ahead'' jint (wt_ahead r) @ 
     opt ''behind'' jint (wt_behind r) @ 
     (''changes'', (\<lambda>xs. JArr (map (\<lambda>x. JObj (fields_worktree_change x)) xs)) (wt_changes r)) # 
     (''changes_truncated'', JBool (wt_changes_truncated r)) # 
     opt ''diffstat'' JStr (wt_diffstat r) @ 
     (''probed_at'', JStr (wt_probed_at r)) # 
     opt ''error'' JStr (wt_error r) @ []"

definition wf_worktree_status :: "worktree_status \<Rightarrow> bool" where
  "wf_worktree_status r \<longleftrightarrow> pred_option (in_u32) (wt_ahead r) \<and>
     pred_option (in_u32) (wt_behind r) \<and>
     list_all wf_worktree_change (wt_changes r) \<and>
     is_rfc3339 (wt_probed_at r)"

definition fields_artifact_touch :: "artifact_touch \<Rightarrow> json_object" where
  "fields_artifact_touch r =
     (''agent_id'', JStr (at_agent_id r)) # 
     (''project'', JStr (at_project r)) # 
     (''tool_name'', JStr (at_tool_name r)) # 
     opt ''tool_input'' (\<lambda>x. x) (at_tool_input r) @ 
     (''ts'', JStr (at_ts r)) # []"

definition wf_artifact_touch :: "artifact_touch \<Rightarrow> bool" where
  "wf_artifact_touch r \<longleftrightarrow> pred_option payload_ok (at_tool_input r) \<and>
     is_rfc3339 (at_ts r)"

definition fields_project_hook_status :: "project_hook_status \<Rightarrow> json_object" where
  "fields_project_hook_status r =
     (''project'', JStr (hs_project r)) # 
     (''mode'', JStr (hs_mode r)) # 
     (''claude_installed'', JBool (hs_claude_installed r)) # 
     (''codex_installed'', JBool (hs_codex_installed r)) # 
     (''missing_events'', (\<lambda>xs. JArr (map JStr xs)) (hs_missing_events r)) # 
     (''all_installed'', JBool (hs_all_installed r)) # 
     (''all_enabled'', JBool (hs_all_enabled r)) # []"

definition wf_project_hook_status :: "project_hook_status \<Rightarrow> bool" where
  "wf_project_hook_status r \<longleftrightarrow> True"

definition fields_terminal_session_meta :: "terminal_session_meta \<Rightarrow> json_object" where
  "fields_terminal_session_meta r =
     (''id'', JStr (tm_id r)) # 
     opt ''label'' JStr (tm_label r) @ 
     (''command'', JStr (tm_command r)) # 
     (''args'', (\<lambda>xs. JArr (map JStr xs)) (tm_args r)) # 
     (''cwd'', JStr (tm_cwd r)) # 
     (''cols'', jint (tm_cols r)) # 
     (''rows'', jint (tm_rows r)) # 
     (''started_at'', JStr (tm_started_at r)) # 
     opt ''ended_at'' JStr (tm_ended_at r) @ 
     opt ''exit_code'' jint (tm_exit_code r) @ 
     (''status'', (\<lambda>s. JStr (terminal_status_tag s)) (tm_status r)) # 
     opt ''group_name'' JStr (tm_group_name r) @ 
     (''sort_order'', jint (tm_sort_order r)) # 
     opt ''created_by'' JStr (tm_created_by r) @ 
     opt ''replay_acl'' (\<lambda>xs. JArr (map JStr xs)) (tm_replay_acl r) @ 
     (''pinned'', JBool (tm_pinned r)) # []"

definition wf_terminal_session_meta :: "terminal_session_meta \<Rightarrow> bool" where
  "wf_terminal_session_meta r \<longleftrightarrow> is_uuid (tm_id r) \<and>
     in_u16 (tm_cols r) \<and>
     in_u16 (tm_rows r) \<and>
     is_rfc3339 (tm_started_at r) \<and>
     pred_option is_rfc3339 (tm_ended_at r) \<and>
     pred_option (in_i32) (tm_exit_code r) \<and>
     in_i53 (tm_sort_order r)"

section \<open>Wire shape and well-formedness of the messages\<close>

fun wire_message :: "server_message \<Rightarrow> json" where
  "wire_message (Sm_welcome x0) =
     JObj ((''type'', JStr ''welcome'') # (''version'', jint x0) # [])"
| "wire_message (Sm_decision_response x0 x1 x2 x3 x4 x5) =
     JObj ((''type'', JStr ''decision_response'') # (''id'', JStr x0) # (''decision'', (\<lambda>d. JStr (decision_tag d)) x1) # opt ''message'' JStr x2 @ opt ''updated_input'' (\<lambda>x. x) x3 @ opt ''additional_context'' JStr x4 @ opt ''selected_permission'' (\<lambda>x. JObj (fields_permission_suggestion x)) x5 @ [])"
| "wire_message (Sm_queue_snapshot x0) =
     JObj ((''type'', JStr ''queue_snapshot'') # (''items'', (\<lambda>xs. JArr (map (\<lambda>x. JObj (fields_decision_request x)) xs)) x0) # [])"
| "wire_message (Sm_new_decision r) = JObj ((''type'', JStr ''new_decision'') # fields_decision_request r)"
| "wire_message (Sm_decision_resolved x0 x1) =
     JObj ((''type'', JStr ''decision_resolved'') # (''id'', JStr x0) # (''decision'', (\<lambda>d. JStr (decision_tag d)) x1) # [])"
| "wire_message (Sm_audit_snapshot x0) =
     JObj ((''type'', JStr ''audit_snapshot'') # (''items'', (\<lambda>xs. JArr (map (\<lambda>x. JObj (fields_audit_decision x)) xs)) x0) # [])"
| "wire_message (Sm_audit_decision r) = JObj ((''type'', JStr ''audit_decision'') # fields_audit_decision r)"
| "wire_message (Sm_deferred_resolved x0 x1 x2 x3 x4) =
     JObj ((''type'', JStr ''deferred_resolved'') # (''tool_use_id'', JStr x0) # (''agent_id'', JStr x1) # (''tool_name'', JStr x2) # (''ts'', JStr x3) # opt ''answer_summary'' JStr x4 @ [])"
| "wire_message (Sm_agent_connected r) = JObj ((''type'', JStr ''agent_connected'') # fields_agent_info r)"
| "wire_message (Sm_agent_disconnected x0) =
     JObj ((''type'', JStr ''agent_disconnected'') # (''agent_id'', JStr x0) # [])"
| "wire_message (Sm_agent_spawned r) = JObj ((''type'', JStr ''agent_spawned'') # fields_managed_agent r)"
| "wire_message (Sm_agent_exited x0 x1) =
     JObj ((''type'', JStr ''agent_exited'') # (''agent_id'', JStr x0) # opt ''exit_code'' jint x1 @ [])"
| "wire_message (Sm_agent_spawn_queued x0 x1) =
     JObj ((''type'', JStr ''agent_spawn_queued'') # (''decision'', (\<lambda>x. JObj (fields_decision_request x)) x0) # opt ''correlation_id'' JStr x1 @ [])"
| "wire_message (Sm_command_error x0 x1) =
     JObj ((''type'', JStr ''command_error'') # (''message'', JStr x0) # opt ''correlation_id'' JStr x1 @ [])"
| "wire_message (Sm_agent_list x0) =
     JObj ((''type'', JStr ''agent_list'') # (''agents'', (\<lambda>xs. JArr (map (\<lambda>x. JObj (fields_managed_agent x)) xs)) x0) # [])"
| "wire_message (Sm_agents_snapshot x0) =
     JObj ((''type'', JStr ''agents_snapshot'') # (''agents'', (\<lambda>xs. JArr (map (\<lambda>x. JObj (fields_agent_info x)) xs)) x0) # [])"
| "wire_message (Sm_history_response x0 x1) =
     JObj ((''type'', JStr ''history_response'') # (''entries'', (\<lambda>xs. JArr (map (\<lambda>x. JObj (fields_history_entry x)) xs)) x0) # opt ''request_id'' JStr x1 @ [])"
| "wire_message (Sm_sessions_response x0) =
     JObj ((''type'', JStr ''sessions_response'') # (''sessions'', (\<lambda>xs. JArr (map (\<lambda>x. JObj (fields_session_summary x)) xs)) x0) # [])"
| "wire_message (Sm_projects_response x0) =
     JObj ((''type'', JStr ''projects_response'') # (''projects'', (\<lambda>xs. JArr (map (\<lambda>x. JObj (fields_project_summary x)) xs)) x0) # [])"
| "wire_message (Sm_worktrees_response x0) =
     JObj ((''type'', JStr ''worktrees_response'') # (''worktrees'', (\<lambda>xs. JArr (map (\<lambda>x. JObj (fields_worktree_status x)) xs)) x0) # [])"
| "wire_message (Sm_burn_response x0) =
     JObj ((''type'', JStr ''burn_response'') # (''touches'', (\<lambda>xs. JArr (map (\<lambda>x. JObj (fields_artifact_touch x)) xs)) x0) # [])"
| "wire_message (Sm_project_hook_status r) = JObj ((''type'', JStr ''project_hook_status'') # fields_project_hook_status r)"
| "wire_message (Sm_install_hooks_result x0 x1 x2) =
     JObj ((''type'', JStr ''install_hooks_result'') # (''project'', JStr x0) # opt ''status'' (\<lambda>x. JObj (fields_project_hook_status x)) x1 @ opt ''error'' JStr x2 @ [])"
| "wire_message (Sm_reimport_complete x0) =
     JObj ((''type'', JStr ''reimport_complete'') # (''count'', jint x0) # [])"
| "wire_message (Sm_error x0) =
     JObj ((''type'', JStr ''error'') # (''message'', JStr x0) # [])"
| "wire_message (Sm_web_login_failure x0 x1 x2) =
     JObj ((''type'', JStr ''web_login_failure'') # (''ip'', JStr x0) # (''attempt_count'', jint x1) # (''at'', JStr x2) # [])"
| "wire_message (Sm_web_login_success x0 x1 x2 x3) =
     JObj ((''type'', JStr ''web_login_success'') # (''device_id'', JStr x0) # (''device_name'', JStr x1) # (''ip'', JStr x2) # (''at'', JStr x3) # [])"
| "wire_message (Sm_web_device_registered x0 x1 x2) =
     JObj ((''type'', JStr ''web_device_registered'') # (''device_id'', JStr x0) # (''device_name'', JStr x1) # (''at'', JStr x2) # [])"
| "wire_message (Sm_web_device_revoked x0 x1) =
     JObj ((''type'', JStr ''web_device_revoked'') # (''device_id'', JStr x0) # (''at'', JStr x1) # [])"
| "wire_message (Sm_term_created r) = JObj ((''type'', JStr ''term_created'') # fields_terminal_session_meta r)"
| "wire_message (Sm_term_list_response x0) =
     JObj ((''type'', JStr ''term_list_response'') # (''sessions'', (\<lambda>xs. JArr (map (\<lambda>x. JObj (fields_terminal_session_meta x)) xs)) x0) # [])"
| "wire_message (Sm_term_chunk x0 x1 x2 x3 x4) =
     JObj ((''type'', JStr ''term_chunk'') # (''id'', JStr x0) # (''seq'', jint x1) # (''ts_us'', jint x2) # (''direction'', (\<lambda>d. JStr (terminal_direction_tag d)) x3) # (''data'', JStr x4) # [])"
| "wire_message (Sm_term_catchup x0 x1 x2 x3 x4) =
     JObj ((''type'', JStr ''term_catchup'') # (''id'', JStr x0) # (''cols'', jint x1) # (''rows'', jint x2) # (''next_seq'', jint x3) # (''screen'', JStr x4) # [])"
| "wire_message (Sm_term_ended x0 x1 x2) =
     JObj ((''type'', JStr ''term_ended'') # (''id'', JStr x0) # opt ''exit_code'' jint x1 @ (''status'', (\<lambda>s. JStr (terminal_status_tag s)) x2) # [])"
| "wire_message (Sm_term_replay_chunk x0 x1 x2 x3 x4) =
     JObj ((''type'', JStr ''term_replay_chunk'') # (''id'', JStr x0) # (''seq'', jint x1) # (''ts_us'', jint x2) # (''direction'', (\<lambda>d. JStr (terminal_direction_tag d)) x3) # (''data'', JStr x4) # [])"
| "wire_message (Sm_term_replay_done x0 x1) =
     JObj ((''type'', JStr ''term_replay_done'') # (''id'', JStr x0) # (''total_events'', jint x1) # [])"
| "wire_message (Sm_term_error x0 x1) =
     JObj ((''type'', JStr ''term_error'') # opt ''id'' JStr x0 @ (''message'', JStr x1) # [])"
| "wire_message (Sm_web_reauth_required x0 x1 x2 x3) =
     JObj ((''type'', JStr ''web_reauth_required'') # (''device_id'', JStr x0) # (''request_id'', JStr x1) # (''tool_name'', JStr x2) # (''at'', JStr x3) # [])"
| "wire_message (Sm_mark_device_fresh_ack x0) =
     JObj ((''type'', JStr ''mark_device_fresh_ack'') # (''device_id'', JStr x0) # [])"
| "wire_message (Sm_disk_alert x0 x1 x2 x3) =
     JObj ((''type'', JStr ''disk_alert'') # (''kind'', (\<lambda>k. JStr (disk_alert_tag k)) x0) # (''active'', JBool x1) # (''message'', JStr x2) # (''at'', JStr x3) # [])"
| "wire_message (Sm_config_alert x0 x1 x2 x3) =
     JObj ((''type'', JStr ''config_alert'') # (''kind'', (\<lambda>k. JStr (config_alert_tag k)) x0) # (''active'', JBool x1) # (''message'', JStr x2) # (''at'', JStr x3) # [])"

fun wf_message :: "server_message \<Rightarrow> bool" where
  "wf_message (Sm_welcome x0) = (in_u32 x0)"
| "wf_message (Sm_decision_response x0 x1 x2 x3 x4 x5) = (is_uuid x0 \<and> pred_option finite_json x3 \<and> pred_option wf_permission_suggestion x5)"
| "wf_message (Sm_queue_snapshot x0) = (list_all wf_decision_request x0)"
| "wf_message (Sm_new_decision r) = wf_decision_request r"
| "wf_message (Sm_decision_resolved x0 x1) = (is_uuid x0)"
| "wf_message (Sm_audit_snapshot x0) = (list_all wf_audit_decision x0)"
| "wf_message (Sm_audit_decision r) = wf_audit_decision r"
| "wf_message (Sm_deferred_resolved x0 x1 x2 x3 x4) = (is_rfc3339 x3)"
| "wf_message (Sm_agent_connected r) = wf_agent_info r"
| "wf_message (Sm_agent_disconnected x0) = (True)"
| "wf_message (Sm_agent_spawned r) = wf_managed_agent r"
| "wf_message (Sm_agent_exited x0 x1) = (pred_option (in_i32) x1)"
| "wf_message (Sm_agent_spawn_queued x0 x1) = (wf_decision_request x0)"
| "wf_message (Sm_command_error x0 x1) = (True)"
| "wf_message (Sm_agent_list x0) = (list_all wf_managed_agent x0)"
| "wf_message (Sm_agents_snapshot x0) = (list_all wf_agent_info x0)"
| "wf_message (Sm_history_response x0 x1) = (list_all wf_history_entry x0)"
| "wf_message (Sm_sessions_response x0) = (list_all wf_session_summary x0)"
| "wf_message (Sm_projects_response x0) = (list_all wf_project_summary x0)"
| "wf_message (Sm_worktrees_response x0) = (list_all wf_worktree_status x0)"
| "wf_message (Sm_burn_response x0) = (list_all wf_artifact_touch x0)"
| "wf_message (Sm_project_hook_status r) = wf_project_hook_status r"
| "wf_message (Sm_install_hooks_result x0 x1 x2) = (pred_option wf_project_hook_status x1)"
| "wf_message (Sm_reimport_complete x0) = (in_u53 x0)"
| "wf_message (Sm_error x0) = (True)"
| "wf_message (Sm_web_login_failure x0 x1 x2) = (in_u32 x1 \<and> is_rfc3339 x2)"
| "wf_message (Sm_web_login_success x0 x1 x2 x3) = (is_rfc3339 x3)"
| "wf_message (Sm_web_device_registered x0 x1 x2) = (is_rfc3339 x2)"
| "wf_message (Sm_web_device_revoked x0 x1) = (is_rfc3339 x1)"
| "wf_message (Sm_term_created r) = wf_terminal_session_meta r"
| "wf_message (Sm_term_list_response x0) = (list_all wf_terminal_session_meta x0)"
| "wf_message (Sm_term_chunk x0 x1 x2 x3 x4) = (is_uuid x0 \<and> in_u53 x1 \<and> in_i53 x2)"
| "wf_message (Sm_term_catchup x0 x1 x2 x3 x4) = (is_uuid x0 \<and> in_u16 x1 \<and> in_u16 x2 \<and> in_u53 x3)"
| "wf_message (Sm_term_ended x0 x1 x2) = (is_uuid x0 \<and> pred_option (in_i32) x1)"
| "wf_message (Sm_term_replay_chunk x0 x1 x2 x3 x4) = (is_uuid x0 \<and> in_u53 x1 \<and> in_i53 x2)"
| "wf_message (Sm_term_replay_done x0 x1) = (is_uuid x0 \<and> in_u53 x1)"
| "wf_message (Sm_term_error x0 x1) = (pred_option is_uuid x0)"
| "wf_message (Sm_web_reauth_required x0 x1 x2 x3) = (is_rfc3339 x3)"
| "wf_message (Sm_mark_device_fresh_ack x0) = (True)"
| "wf_message (Sm_disk_alert x0 x1 x2 x3) = (is_rfc3339 x3)"
| "wf_message (Sm_config_alert x0 x1 x2 x3) = (is_rfc3339 x3)"

section \<open>Reading what was written\<close>

declare map_of_append [simp del]

lemma map_of_opt_same [simp]: "map_of r k = None \<Longrightarrow> map_of (opt k e x @ r) k = map_option e x"
  by (cases x) (auto simp: opt_def)

lemma map_of_opt_other [simp]: "k' \<noteq> k \<Longrightarrow> map_of (opt k e x @ r) k' = map_of r k'"
  by (cases x) (auto simp: opt_def)

lemma map_of_opt_end [simp]: "map_of (opt k e x) k' = (if k' = k then map_option e x else None)"
  by (cases x) (auto simp: opt_def)

lemma map_option_ident [simp]: "map_option (\<lambda>x. x) y = y"
  by (cases y) auto

lemma default_list_wf [intro!]:
  "pred_option (list_all P) x \<Longrightarrow> list_all P (case x of None \<Rightarrow> [] | Some xs \<Rightarrow> xs)"
  by (cases x) auto

lemma pred_option_True [simp]: "pred_option (\<lambda>_. True) x"
  by (cases x) auto

lemma map_of_pre [simp]:
  "fst ` set pre \<subseteq> {''type''} \<Longrightarrow> k \<noteq> ''type'' \<Longrightarrow> map_of (pre @ r) k = map_of r k"
  by (induction pre) auto


interpretation permission_rule: flat_reader parsePermissionRule wf_permission_rule fields_permission_rule
proof
  show "wf_permission_rule x" if "parsePermissionRule v p = Inr x" for v p x
    using that by (auto simp: parsePermissionRule_def wf_permission_rule_def rbind_Inr_iff dest!: reader_wf)
  show "parsePermissionRule (Some (JObj (pre @ fields_permission_rule x))) p = Inr x"
    if "wf_permission_rule x" "fst ` set pre \<subseteq> {''type''}" for x pre p
    using that by (simp add: parsePermissionRule_def wf_permission_rule_def fields_permission_rule_def reader_rt)
qed

interpretation permission_rules: wire_reader "arrayOf parsePermissionRule" "list_all wf_permission_rule" "\<lambda>xs. JArr (map (\<lambda>x. JObj (fields_permission_rule x)) xs)"
  by (rule permission_rule.arrayOf_reader)

interpretation permission_suggestion: wire_reader parsePermissionSuggestion wf_permission_suggestion "\<lambda>x. JObj (fields_permission_suggestion x)"
proof
  show "wf_permission_suggestion x" if "parsePermissionSuggestion v p = Inr x" for v p x
    using that by (auto simp: parsePermissionSuggestion_def wf_permission_suggestion_def rbind_Inr_iff dest!: reader_wf)
  show "parsePermissionSuggestion (Some (JObj (fields_permission_suggestion x))) p = Inr x" if "wf_permission_suggestion x" for x p
    using that by (simp add: parsePermissionSuggestion_def wf_permission_suggestion_def fields_permission_suggestion_def reader_rt)
qed auto

interpretation permission_suggestions: wire_reader "arrayOf parsePermissionSuggestion" "list_all wf_permission_suggestion" "\<lambda>xs. JArr (map (\<lambda>x. JObj (fields_permission_suggestion x)) xs)"
  by (rule permission_suggestion.arrayOf_reader)

interpretation decision_request: flat_reader parseDecisionRequest wf_decision_request fields_decision_request
proof
  show "wf_decision_request x" if "parseDecisionRequest v p = Inr x" for v p x
    using that by (auto simp: parseDecisionRequest_def wf_decision_request_def rbind_Inr_iff dest!: reader_wf)
  show "parseDecisionRequest (Some (JObj (pre @ fields_decision_request x))) p = Inr x"
    if "wf_decision_request x" "fst ` set pre \<subseteq> {''type''}" for x pre p
    using that by (simp add: parseDecisionRequest_def wf_decision_request_def fields_decision_request_def reader_rt)
qed

interpretation decision_requests: wire_reader "arrayOf parseDecisionRequest" "list_all wf_decision_request" "\<lambda>xs. JArr (map (\<lambda>x. JObj (fields_decision_request x)) xs)"
  by (rule decision_request.arrayOf_reader)

interpretation history_entry: flat_reader parseHistoryEntry wf_history_entry fields_history_entry
proof
  show "wf_history_entry x" if "parseHistoryEntry v p = Inr x" for v p x
    using that by (auto simp: parseHistoryEntry_def wf_history_entry_def rbind_Inr_iff dest!: reader_wf)
  show "parseHistoryEntry (Some (JObj (pre @ fields_history_entry x))) p = Inr x"
    if "wf_history_entry x" "fst ` set pre \<subseteq> {''type''}" for x pre p
    using that by (simp add: parseHistoryEntry_def wf_history_entry_def fields_history_entry_def reader_rt)
qed

interpretation history_entrys: wire_reader "arrayOf parseHistoryEntry" "list_all wf_history_entry" "\<lambda>xs. JArr (map (\<lambda>x. JObj (fields_history_entry x)) xs)"
  by (rule history_entry.arrayOf_reader)

interpretation audit_decision: flat_reader parseAuditDecision wf_audit_decision fields_audit_decision
proof
  show "wf_audit_decision x" if "parseAuditDecision v p = Inr x" for v p x
    using that by (auto simp: parseAuditDecision_def wf_audit_decision_def rbind_Inr_iff dest!: reader_wf)
  show "parseAuditDecision (Some (JObj (pre @ fields_audit_decision x))) p = Inr x"
    if "wf_audit_decision x" "fst ` set pre \<subseteq> {''type''}" for x pre p
    using that by (simp add: parseAuditDecision_def wf_audit_decision_def fields_audit_decision_def reader_rt)
qed

interpretation audit_decisions: wire_reader "arrayOf parseAuditDecision" "list_all wf_audit_decision" "\<lambda>xs. JArr (map (\<lambda>x. JObj (fields_audit_decision x)) xs)"
  by (rule audit_decision.arrayOf_reader)

interpretation agent_info: flat_reader parseAgentInfo wf_agent_info fields_agent_info
proof
  show "wf_agent_info x" if "parseAgentInfo v p = Inr x" for v p x
    using that by (auto simp: parseAgentInfo_def wf_agent_info_def rbind_Inr_iff dest!: reader_wf)
  show "parseAgentInfo (Some (JObj (pre @ fields_agent_info x))) p = Inr x"
    if "wf_agent_info x" "fst ` set pre \<subseteq> {''type''}" for x pre p
    using that by (simp add: parseAgentInfo_def wf_agent_info_def fields_agent_info_def reader_rt)
qed

interpretation agent_infos: wire_reader "arrayOf parseAgentInfo" "list_all wf_agent_info" "\<lambda>xs. JArr (map (\<lambda>x. JObj (fields_agent_info x)) xs)"
  by (rule agent_info.arrayOf_reader)

interpretation managed_agent: flat_reader parseManagedAgent wf_managed_agent fields_managed_agent
proof
  show "wf_managed_agent x" if "parseManagedAgent v p = Inr x" for v p x
    using that by (auto simp: parseManagedAgent_def wf_managed_agent_def rbind_Inr_iff dest!: reader_wf)
  show "parseManagedAgent (Some (JObj (pre @ fields_managed_agent x))) p = Inr x"
    if "wf_managed_agent x" "fst ` set pre \<subseteq> {''type''}" for x pre p
    using that by (simp add: parseManagedAgent_def wf_managed_agent_def fields_managed_agent_def reader_rt)
qed

interpretation managed_agents: wire_reader "arrayOf parseManagedAgent" "list_all wf_managed_agent" "\<lambda>xs. JArr (map (\<lambda>x. JObj (fields_managed_agent x)) xs)"
  by (rule managed_agent.arrayOf_reader)

interpretation session_summary: flat_reader parseSessionSummary wf_session_summary fields_session_summary
proof
  show "wf_session_summary x" if "parseSessionSummary v p = Inr x" for v p x
    using that by (auto simp: parseSessionSummary_def wf_session_summary_def rbind_Inr_iff dest!: reader_wf)
  show "parseSessionSummary (Some (JObj (pre @ fields_session_summary x))) p = Inr x"
    if "wf_session_summary x" "fst ` set pre \<subseteq> {''type''}" for x pre p
    using that by (simp add: parseSessionSummary_def wf_session_summary_def fields_session_summary_def reader_rt)
qed

interpretation session_summarys: wire_reader "arrayOf parseSessionSummary" "list_all wf_session_summary" "\<lambda>xs. JArr (map (\<lambda>x. JObj (fields_session_summary x)) xs)"
  by (rule session_summary.arrayOf_reader)

interpretation project_summary: flat_reader parseProjectSummary wf_project_summary fields_project_summary
proof
  show "wf_project_summary x" if "parseProjectSummary v p = Inr x" for v p x
    using that by (auto simp: parseProjectSummary_def wf_project_summary_def rbind_Inr_iff dest!: reader_wf)
  show "parseProjectSummary (Some (JObj (pre @ fields_project_summary x))) p = Inr x"
    if "wf_project_summary x" "fst ` set pre \<subseteq> {''type''}" for x pre p
    using that by (simp add: parseProjectSummary_def wf_project_summary_def fields_project_summary_def reader_rt)
qed

interpretation project_summarys: wire_reader "arrayOf parseProjectSummary" "list_all wf_project_summary" "\<lambda>xs. JArr (map (\<lambda>x. JObj (fields_project_summary x)) xs)"
  by (rule project_summary.arrayOf_reader)

interpretation worktree_change: flat_reader parseWorktreeChange wf_worktree_change fields_worktree_change
proof
  show "wf_worktree_change x" if "parseWorktreeChange v p = Inr x" for v p x
    using that by (auto simp: parseWorktreeChange_def wf_worktree_change_def rbind_Inr_iff dest!: reader_wf)
  show "parseWorktreeChange (Some (JObj (pre @ fields_worktree_change x))) p = Inr x"
    if "wf_worktree_change x" "fst ` set pre \<subseteq> {''type''}" for x pre p
    using that by (simp add: parseWorktreeChange_def wf_worktree_change_def fields_worktree_change_def reader_rt)
qed

interpretation worktree_changes: wire_reader "arrayOf parseWorktreeChange" "list_all wf_worktree_change" "\<lambda>xs. JArr (map (\<lambda>x. JObj (fields_worktree_change x)) xs)"
  by (rule worktree_change.arrayOf_reader)

interpretation worktree_status: flat_reader parseWorktreeStatus wf_worktree_status fields_worktree_status
proof
  show "wf_worktree_status x" if "parseWorktreeStatus v p = Inr x" for v p x
    using that by (auto simp: parseWorktreeStatus_def wf_worktree_status_def rbind_Inr_iff dest!: reader_wf)
  show "parseWorktreeStatus (Some (JObj (pre @ fields_worktree_status x))) p = Inr x"
    if "wf_worktree_status x" "fst ` set pre \<subseteq> {''type''}" for x pre p
    using that by (simp add: parseWorktreeStatus_def wf_worktree_status_def fields_worktree_status_def reader_rt)
qed

interpretation worktree_statuss: wire_reader "arrayOf parseWorktreeStatus" "list_all wf_worktree_status" "\<lambda>xs. JArr (map (\<lambda>x. JObj (fields_worktree_status x)) xs)"
  by (rule worktree_status.arrayOf_reader)

interpretation artifact_touch: flat_reader parseArtifactTouch wf_artifact_touch fields_artifact_touch
proof
  show "wf_artifact_touch x" if "parseArtifactTouch v p = Inr x" for v p x
    using that by (auto simp: parseArtifactTouch_def wf_artifact_touch_def rbind_Inr_iff dest!: reader_wf)
  show "parseArtifactTouch (Some (JObj (pre @ fields_artifact_touch x))) p = Inr x"
    if "wf_artifact_touch x" "fst ` set pre \<subseteq> {''type''}" for x pre p
    using that by (simp add: parseArtifactTouch_def wf_artifact_touch_def fields_artifact_touch_def reader_rt)
qed

interpretation artifact_touchs: wire_reader "arrayOf parseArtifactTouch" "list_all wf_artifact_touch" "\<lambda>xs. JArr (map (\<lambda>x. JObj (fields_artifact_touch x)) xs)"
  by (rule artifact_touch.arrayOf_reader)

interpretation project_hook_status: flat_reader parseProjectHookStatus wf_project_hook_status fields_project_hook_status
proof
  show "wf_project_hook_status x" if "parseProjectHookStatus v p = Inr x" for v p x
    using that by (auto simp: parseProjectHookStatus_def wf_project_hook_status_def rbind_Inr_iff dest!: reader_wf)
  show "parseProjectHookStatus (Some (JObj (pre @ fields_project_hook_status x))) p = Inr x"
    if "wf_project_hook_status x" "fst ` set pre \<subseteq> {''type''}" for x pre p
    using that by (simp add: parseProjectHookStatus_def wf_project_hook_status_def fields_project_hook_status_def reader_rt)
qed

interpretation project_hook_statuss: wire_reader "arrayOf parseProjectHookStatus" "list_all wf_project_hook_status" "\<lambda>xs. JArr (map (\<lambda>x. JObj (fields_project_hook_status x)) xs)"
  by (rule project_hook_status.arrayOf_reader)

interpretation terminal_session_meta: flat_reader parseTerminalSessionMeta wf_terminal_session_meta fields_terminal_session_meta
proof
  show "wf_terminal_session_meta x" if "parseTerminalSessionMeta v p = Inr x" for v p x
    using that by (auto simp: parseTerminalSessionMeta_def wf_terminal_session_meta_def rbind_Inr_iff dest!: reader_wf)
  show "parseTerminalSessionMeta (Some (JObj (pre @ fields_terminal_session_meta x))) p = Inr x"
    if "wf_terminal_session_meta x" "fst ` set pre \<subseteq> {''type''}" for x pre p
    using that by (simp add: parseTerminalSessionMeta_def wf_terminal_session_meta_def fields_terminal_session_meta_def reader_rt)
qed

interpretation terminal_session_metas: wire_reader "arrayOf parseTerminalSessionMeta" "list_all wf_terminal_session_meta" "\<lambda>xs. JArr (map (\<lambda>x. JObj (fields_terminal_session_meta x)) xs)"
  by (rule terminal_session_meta.arrayOf_reader)

end
