(* ===== verification/Protocol_Messages.thy ===== *)
theory Protocol_Messages
  imports Protocol_Laws
begin

text \<open>
  The laws of \<open>parseServerMessage\<close> as a whole: what it returns is well-formed, it reads
  back every well-formed message from its wire shape, properties it does not know are
  ignored, and what it refuses. One lemma per case of the switch carries each law.
\<close>

named_theorems case_sound \<open>a case returns a well-formed message\<close>
named_theorems case_faithful \<open>a case reads its message back\<close>
named_theorems case_extends \<open>a case ignores unknown properties\<close>

text \<open>The property names the top level of a server message is read for.\<close>

definition known_keys :: "string list" where
  "known_keys =
     [''type'', ''id'', ''agent_id'', ''agent_type'', ''project'', ''tool_name'', ''tool_input'',
      ''timestamp'', ''hook_event_name'', ''tool_use_id'', ''permission_suggestions'',
      ''event_data'', ''terminal_session_id'', ''kind'', ''decided_by'', ''ts'', ''resolved'',
      ''connected_at'', ''last_seen'', ''pid'', ''model'', ''name'', ''started_at'',
      ''reasoning'', ''max_turns'', ''permission_mode'', ''mode'', ''claude_installed'',
      ''codex_installed'', ''missing_events'', ''all_installed'', ''all_enabled'', ''label'',
      ''command'', ''args'', ''cwd'', ''cols'', ''rows'', ''ended_at'', ''exit_code'',
      ''status'', ''group_name'', ''sort_order'', ''created_by'', ''replay_acl'', ''pinned'',
      ''version'', ''decision'', ''message'', ''updated_input'', ''additional_context'',
      ''selected_permission'', ''items'', ''answer_summary'', ''correlation_id'', ''agents'',
      ''entries'', ''request_id'', ''sessions'', ''projects'', ''worktrees'', ''touches'',
      ''error'', ''count'', ''ip'', ''attempt_count'', ''at'', ''device_id'', ''device_name'',
      ''seq'', ''ts_us'', ''direction'', ''data'', ''next_seq'', ''screen'', ''total_events'',
      ''active'']"

definition fresh_keys :: "json_object \<Rightarrow> bool" where
  "fresh_keys extra \<longleftrightarrow> (\<forall>k \<in> set known_keys. k \<notin> fst ` set extra)"

section \<open>The cases\<close>

lemma dispatch:
  "map_of obj ''type'' = Some (JStr t) \<Longrightarrow> map_of message_cases t = Some f \<Longrightarrow>
   parseServerMessage (Some (JObj obj)) = f obj"
  by (simp add: parseServerMessage_def readField_def readString_def)

lemma map_of_fresh:
  assumes "fresh_keys extra" "k \<in> set known_keys"
  shows "map_of (kvs @ extra) k = map_of kvs k"
proof -
  have "map_of extra k = None"
    using assms unfolding fresh_keys_def map_of_eq_None_iff by blast
  then show ?thesis by (simp add: map_of_append map_add_def split: option.splits)
qed

lemma field_fresh:
  assumes "fresh_keys extra" "k \<in> set known_keys"
  shows "readField (kvs @ extra) k rd p = readField kvs k rd p"
    and "readOptionalField (kvs @ extra) k rd p = readOptionalField kvs k rd p"
    and "readOptionalJsonField (kvs @ extra) k p = readOptionalJsonField kvs k p"
  by (simp_all add: readField_def readOptionalField_def readOptionalJsonField_def map_of_fresh[OF assms])

lemma parseDecisionRequest_extends [case_extends]:
  "fresh_keys extra \<Longrightarrow> parseDecisionRequest (Some (JObj (kvs @ extra))) p = parseDecisionRequest (Some (JObj kvs)) p"
  by (simp add: parseDecisionRequest_def field_fresh known_keys_def)

lemma parseAuditDecision_extends [case_extends]:
  "fresh_keys extra \<Longrightarrow> parseAuditDecision (Some (JObj (kvs @ extra))) p = parseAuditDecision (Some (JObj kvs)) p"
  by (simp add: parseAuditDecision_def field_fresh known_keys_def)

lemma parseAgentInfo_extends [case_extends]:
  "fresh_keys extra \<Longrightarrow> parseAgentInfo (Some (JObj (kvs @ extra))) p = parseAgentInfo (Some (JObj kvs)) p"
  by (simp add: parseAgentInfo_def field_fresh known_keys_def)

lemma parseManagedAgent_extends [case_extends]:
  "fresh_keys extra \<Longrightarrow> parseManagedAgent (Some (JObj (kvs @ extra))) p = parseManagedAgent (Some (JObj kvs)) p"
  by (simp add: parseManagedAgent_def field_fresh known_keys_def)

lemma parseProjectHookStatus_extends [case_extends]:
  "fresh_keys extra \<Longrightarrow> parseProjectHookStatus (Some (JObj (kvs @ extra))) p = parseProjectHookStatus (Some (JObj kvs)) p"
  by (simp add: parseProjectHookStatus_def field_fresh known_keys_def)

lemma parseTerminalSessionMeta_extends [case_extends]:
  "fresh_keys extra \<Longrightarrow> parseTerminalSessionMeta (Some (JObj (kvs @ extra))) p = parseTerminalSessionMeta (Some (JObj kvs)) p"
  by (simp add: parseTerminalSessionMeta_def field_fresh known_keys_def)

lemma case_welcome_sound [case_sound]: "case_welcome obj = Inr m \<Longrightarrow> wf_message m"
  by (auto simp: case_welcome_def rbind_Inr_iff dest!: reader_wf)

lemma case_welcome_faithful [case_faithful]:
  "wf_message (Sm_welcome x0) \<Longrightarrow>
   parseServerMessage (Some (wire_message (Sm_welcome x0))) = Inr (Sm_welcome x0)"
  by (simp add: dispatch message_cases_def case_welcome_def reader_rt)

lemma case_welcome_extends [case_extends]:
  "fresh_keys extra \<Longrightarrow> case_welcome (kvs @ extra) = case_welcome kvs"
  by (simp add: case_welcome_def field_fresh known_keys_def)

lemma case_decision_response_sound [case_sound]: "case_decision_response obj = Inr m \<Longrightarrow> wf_message m"
  by (auto simp: case_decision_response_def rbind_Inr_iff dest!: reader_wf)

lemma case_decision_response_faithful [case_faithful]:
  "wf_message (Sm_decision_response x0 x1 x2 x3 x4 x5) \<Longrightarrow>
   parseServerMessage (Some (wire_message (Sm_decision_response x0 x1 x2 x3 x4 x5))) = Inr (Sm_decision_response x0 x1 x2 x3 x4 x5)"
  by (simp add: dispatch message_cases_def case_decision_response_def reader_rt)

lemma case_decision_response_extends [case_extends]:
  "fresh_keys extra \<Longrightarrow> case_decision_response (kvs @ extra) = case_decision_response kvs"
  by (simp add: case_decision_response_def field_fresh known_keys_def)

lemma case_queue_snapshot_sound [case_sound]: "case_queue_snapshot obj = Inr m \<Longrightarrow> wf_message m"
  by (auto simp: case_queue_snapshot_def rbind_Inr_iff dest!: reader_wf)

lemma case_queue_snapshot_faithful [case_faithful]:
  "wf_message (Sm_queue_snapshot x0) \<Longrightarrow>
   parseServerMessage (Some (wire_message (Sm_queue_snapshot x0))) = Inr (Sm_queue_snapshot x0)"
  by (simp add: dispatch message_cases_def case_queue_snapshot_def reader_rt)

lemma case_queue_snapshot_extends [case_extends]:
  "fresh_keys extra \<Longrightarrow> case_queue_snapshot (kvs @ extra) = case_queue_snapshot kvs"
  by (simp add: case_queue_snapshot_def field_fresh known_keys_def)

lemma case_new_decision_sound [case_sound]: "case_new_decision obj = Inr m \<Longrightarrow> wf_message m"
  by (auto simp: case_new_decision_def rbind_Inr_iff dest!: reader_wf decision_request.flat_sound)

lemma case_new_decision_faithful [case_faithful]:
  "wf_message (Sm_new_decision r) \<Longrightarrow>
   parseServerMessage (Some (wire_message (Sm_new_decision r))) = Inr (Sm_new_decision r)"
  by (simp add: dispatch message_cases_def case_new_decision_def reader_rt)

lemma case_new_decision_extends [case_extends]:
  "fresh_keys extra \<Longrightarrow> case_new_decision (kvs @ extra) = case_new_decision kvs"
  by (simp add: case_new_decision_def case_extends)

lemma case_decision_resolved_sound [case_sound]: "case_decision_resolved obj = Inr m \<Longrightarrow> wf_message m"
  by (auto simp: case_decision_resolved_def rbind_Inr_iff dest!: reader_wf)

lemma case_decision_resolved_faithful [case_faithful]:
  "wf_message (Sm_decision_resolved x0 x1) \<Longrightarrow>
   parseServerMessage (Some (wire_message (Sm_decision_resolved x0 x1))) = Inr (Sm_decision_resolved x0 x1)"
  by (simp add: dispatch message_cases_def case_decision_resolved_def reader_rt)

lemma case_decision_resolved_extends [case_extends]:
  "fresh_keys extra \<Longrightarrow> case_decision_resolved (kvs @ extra) = case_decision_resolved kvs"
  by (simp add: case_decision_resolved_def field_fresh known_keys_def)

lemma case_audit_snapshot_sound [case_sound]: "case_audit_snapshot obj = Inr m \<Longrightarrow> wf_message m"
  by (auto simp: case_audit_snapshot_def rbind_Inr_iff dest!: reader_wf)

lemma case_audit_snapshot_faithful [case_faithful]:
  "wf_message (Sm_audit_snapshot x0) \<Longrightarrow>
   parseServerMessage (Some (wire_message (Sm_audit_snapshot x0))) = Inr (Sm_audit_snapshot x0)"
  by (simp add: dispatch message_cases_def case_audit_snapshot_def reader_rt)

lemma case_audit_snapshot_extends [case_extends]:
  "fresh_keys extra \<Longrightarrow> case_audit_snapshot (kvs @ extra) = case_audit_snapshot kvs"
  by (simp add: case_audit_snapshot_def field_fresh known_keys_def)

lemma case_audit_decision_sound [case_sound]: "case_audit_decision obj = Inr m \<Longrightarrow> wf_message m"
  by (auto simp: case_audit_decision_def rbind_Inr_iff dest!: reader_wf audit_decision.flat_sound)

lemma case_audit_decision_faithful [case_faithful]:
  "wf_message (Sm_audit_decision r) \<Longrightarrow>
   parseServerMessage (Some (wire_message (Sm_audit_decision r))) = Inr (Sm_audit_decision r)"
  by (simp add: dispatch message_cases_def case_audit_decision_def reader_rt)

lemma case_audit_decision_extends [case_extends]:
  "fresh_keys extra \<Longrightarrow> case_audit_decision (kvs @ extra) = case_audit_decision kvs"
  by (simp add: case_audit_decision_def case_extends)

lemma case_deferred_resolved_sound [case_sound]: "case_deferred_resolved obj = Inr m \<Longrightarrow> wf_message m"
  by (auto simp: case_deferred_resolved_def rbind_Inr_iff dest!: reader_wf)

lemma case_deferred_resolved_faithful [case_faithful]:
  "wf_message (Sm_deferred_resolved x0 x1 x2 x3 x4) \<Longrightarrow>
   parseServerMessage (Some (wire_message (Sm_deferred_resolved x0 x1 x2 x3 x4))) = Inr (Sm_deferred_resolved x0 x1 x2 x3 x4)"
  by (simp add: dispatch message_cases_def case_deferred_resolved_def reader_rt)

lemma case_deferred_resolved_extends [case_extends]:
  "fresh_keys extra \<Longrightarrow> case_deferred_resolved (kvs @ extra) = case_deferred_resolved kvs"
  by (simp add: case_deferred_resolved_def field_fresh known_keys_def)

lemma case_agent_connected_sound [case_sound]: "case_agent_connected obj = Inr m \<Longrightarrow> wf_message m"
  by (auto simp: case_agent_connected_def rbind_Inr_iff dest!: reader_wf agent_info.flat_sound)

lemma case_agent_connected_faithful [case_faithful]:
  "wf_message (Sm_agent_connected r) \<Longrightarrow>
   parseServerMessage (Some (wire_message (Sm_agent_connected r))) = Inr (Sm_agent_connected r)"
  by (simp add: dispatch message_cases_def case_agent_connected_def reader_rt)

lemma case_agent_connected_extends [case_extends]:
  "fresh_keys extra \<Longrightarrow> case_agent_connected (kvs @ extra) = case_agent_connected kvs"
  by (simp add: case_agent_connected_def case_extends)

lemma case_agent_disconnected_sound [case_sound]: "case_agent_disconnected obj = Inr m \<Longrightarrow> wf_message m"
  by (auto simp: case_agent_disconnected_def rbind_Inr_iff dest!: reader_wf)

lemma case_agent_disconnected_faithful [case_faithful]:
  "wf_message (Sm_agent_disconnected x0) \<Longrightarrow>
   parseServerMessage (Some (wire_message (Sm_agent_disconnected x0))) = Inr (Sm_agent_disconnected x0)"
  by (simp add: dispatch message_cases_def case_agent_disconnected_def reader_rt)

lemma case_agent_disconnected_extends [case_extends]:
  "fresh_keys extra \<Longrightarrow> case_agent_disconnected (kvs @ extra) = case_agent_disconnected kvs"
  by (simp add: case_agent_disconnected_def field_fresh known_keys_def)

lemma case_agent_spawned_sound [case_sound]: "case_agent_spawned obj = Inr m \<Longrightarrow> wf_message m"
  by (auto simp: case_agent_spawned_def rbind_Inr_iff dest!: reader_wf managed_agent.flat_sound)

lemma case_agent_spawned_faithful [case_faithful]:
  "wf_message (Sm_agent_spawned r) \<Longrightarrow>
   parseServerMessage (Some (wire_message (Sm_agent_spawned r))) = Inr (Sm_agent_spawned r)"
  by (simp add: dispatch message_cases_def case_agent_spawned_def reader_rt)

lemma case_agent_spawned_extends [case_extends]:
  "fresh_keys extra \<Longrightarrow> case_agent_spawned (kvs @ extra) = case_agent_spawned kvs"
  by (simp add: case_agent_spawned_def case_extends)

lemma case_agent_exited_sound [case_sound]: "case_agent_exited obj = Inr m \<Longrightarrow> wf_message m"
  by (auto simp: case_agent_exited_def rbind_Inr_iff dest!: reader_wf)

lemma case_agent_exited_faithful [case_faithful]:
  "wf_message (Sm_agent_exited x0 x1) \<Longrightarrow>
   parseServerMessage (Some (wire_message (Sm_agent_exited x0 x1))) = Inr (Sm_agent_exited x0 x1)"
  by (simp add: dispatch message_cases_def case_agent_exited_def reader_rt)

lemma case_agent_exited_extends [case_extends]:
  "fresh_keys extra \<Longrightarrow> case_agent_exited (kvs @ extra) = case_agent_exited kvs"
  by (simp add: case_agent_exited_def field_fresh known_keys_def)

lemma case_agent_spawn_queued_sound [case_sound]: "case_agent_spawn_queued obj = Inr m \<Longrightarrow> wf_message m"
  by (auto simp: case_agent_spawn_queued_def rbind_Inr_iff dest!: reader_wf)

lemma case_agent_spawn_queued_faithful [case_faithful]:
  "wf_message (Sm_agent_spawn_queued x0 x1) \<Longrightarrow>
   parseServerMessage (Some (wire_message (Sm_agent_spawn_queued x0 x1))) = Inr (Sm_agent_spawn_queued x0 x1)"
  by (simp add: dispatch message_cases_def case_agent_spawn_queued_def reader_rt)

lemma case_agent_spawn_queued_extends [case_extends]:
  "fresh_keys extra \<Longrightarrow> case_agent_spawn_queued (kvs @ extra) = case_agent_spawn_queued kvs"
  by (simp add: case_agent_spawn_queued_def field_fresh known_keys_def)

lemma case_command_error_sound [case_sound]: "case_command_error obj = Inr m \<Longrightarrow> wf_message m"
  by (auto simp: case_command_error_def rbind_Inr_iff dest!: reader_wf)

lemma case_command_error_faithful [case_faithful]:
  "wf_message (Sm_command_error x0 x1) \<Longrightarrow>
   parseServerMessage (Some (wire_message (Sm_command_error x0 x1))) = Inr (Sm_command_error x0 x1)"
  by (simp add: dispatch message_cases_def case_command_error_def reader_rt)

lemma case_command_error_extends [case_extends]:
  "fresh_keys extra \<Longrightarrow> case_command_error (kvs @ extra) = case_command_error kvs"
  by (simp add: case_command_error_def field_fresh known_keys_def)

lemma case_agent_list_sound [case_sound]: "case_agent_list obj = Inr m \<Longrightarrow> wf_message m"
  by (auto simp: case_agent_list_def rbind_Inr_iff dest!: reader_wf)

lemma case_agent_list_faithful [case_faithful]:
  "wf_message (Sm_agent_list x0) \<Longrightarrow>
   parseServerMessage (Some (wire_message (Sm_agent_list x0))) = Inr (Sm_agent_list x0)"
  by (simp add: dispatch message_cases_def case_agent_list_def reader_rt)

lemma case_agent_list_extends [case_extends]:
  "fresh_keys extra \<Longrightarrow> case_agent_list (kvs @ extra) = case_agent_list kvs"
  by (simp add: case_agent_list_def field_fresh known_keys_def)

lemma case_agents_snapshot_sound [case_sound]: "case_agents_snapshot obj = Inr m \<Longrightarrow> wf_message m"
  by (auto simp: case_agents_snapshot_def rbind_Inr_iff dest!: reader_wf)

lemma case_agents_snapshot_faithful [case_faithful]:
  "wf_message (Sm_agents_snapshot x0) \<Longrightarrow>
   parseServerMessage (Some (wire_message (Sm_agents_snapshot x0))) = Inr (Sm_agents_snapshot x0)"
  by (simp add: dispatch message_cases_def case_agents_snapshot_def reader_rt)

lemma case_agents_snapshot_extends [case_extends]:
  "fresh_keys extra \<Longrightarrow> case_agents_snapshot (kvs @ extra) = case_agents_snapshot kvs"
  by (simp add: case_agents_snapshot_def field_fresh known_keys_def)

lemma case_history_response_sound [case_sound]: "case_history_response obj = Inr m \<Longrightarrow> wf_message m"
  by (auto simp: case_history_response_def rbind_Inr_iff dest!: reader_wf)

lemma case_history_response_faithful [case_faithful]:
  "wf_message (Sm_history_response x0 x1) \<Longrightarrow>
   parseServerMessage (Some (wire_message (Sm_history_response x0 x1))) = Inr (Sm_history_response x0 x1)"
  by (simp add: dispatch message_cases_def case_history_response_def reader_rt)

lemma case_history_response_extends [case_extends]:
  "fresh_keys extra \<Longrightarrow> case_history_response (kvs @ extra) = case_history_response kvs"
  by (simp add: case_history_response_def field_fresh known_keys_def)

lemma case_sessions_response_sound [case_sound]: "case_sessions_response obj = Inr m \<Longrightarrow> wf_message m"
  by (auto simp: case_sessions_response_def rbind_Inr_iff dest!: reader_wf)

lemma case_sessions_response_faithful [case_faithful]:
  "wf_message (Sm_sessions_response x0) \<Longrightarrow>
   parseServerMessage (Some (wire_message (Sm_sessions_response x0))) = Inr (Sm_sessions_response x0)"
  by (simp add: dispatch message_cases_def case_sessions_response_def reader_rt)

lemma case_sessions_response_extends [case_extends]:
  "fresh_keys extra \<Longrightarrow> case_sessions_response (kvs @ extra) = case_sessions_response kvs"
  by (simp add: case_sessions_response_def field_fresh known_keys_def)

lemma case_projects_response_sound [case_sound]: "case_projects_response obj = Inr m \<Longrightarrow> wf_message m"
  by (auto simp: case_projects_response_def rbind_Inr_iff dest!: reader_wf)

lemma case_projects_response_faithful [case_faithful]:
  "wf_message (Sm_projects_response x0) \<Longrightarrow>
   parseServerMessage (Some (wire_message (Sm_projects_response x0))) = Inr (Sm_projects_response x0)"
  by (simp add: dispatch message_cases_def case_projects_response_def reader_rt)

lemma case_projects_response_extends [case_extends]:
  "fresh_keys extra \<Longrightarrow> case_projects_response (kvs @ extra) = case_projects_response kvs"
  by (simp add: case_projects_response_def field_fresh known_keys_def)

lemma case_worktrees_response_sound [case_sound]: "case_worktrees_response obj = Inr m \<Longrightarrow> wf_message m"
  by (auto simp: case_worktrees_response_def rbind_Inr_iff dest!: reader_wf)

lemma case_worktrees_response_faithful [case_faithful]:
  "wf_message (Sm_worktrees_response x0) \<Longrightarrow>
   parseServerMessage (Some (wire_message (Sm_worktrees_response x0))) = Inr (Sm_worktrees_response x0)"
  by (simp add: dispatch message_cases_def case_worktrees_response_def reader_rt)

lemma case_worktrees_response_extends [case_extends]:
  "fresh_keys extra \<Longrightarrow> case_worktrees_response (kvs @ extra) = case_worktrees_response kvs"
  by (simp add: case_worktrees_response_def field_fresh known_keys_def)

lemma case_burn_response_sound [case_sound]: "case_burn_response obj = Inr m \<Longrightarrow> wf_message m"
  by (auto simp: case_burn_response_def rbind_Inr_iff dest!: reader_wf)

lemma case_burn_response_faithful [case_faithful]:
  "wf_message (Sm_burn_response x0) \<Longrightarrow>
   parseServerMessage (Some (wire_message (Sm_burn_response x0))) = Inr (Sm_burn_response x0)"
  by (simp add: dispatch message_cases_def case_burn_response_def reader_rt)

lemma case_burn_response_extends [case_extends]:
  "fresh_keys extra \<Longrightarrow> case_burn_response (kvs @ extra) = case_burn_response kvs"
  by (simp add: case_burn_response_def field_fresh known_keys_def)

lemma case_project_hook_status_sound [case_sound]: "case_project_hook_status obj = Inr m \<Longrightarrow> wf_message m"
  by (auto simp: case_project_hook_status_def rbind_Inr_iff dest!: reader_wf project_hook_status.flat_sound)

lemma case_project_hook_status_faithful [case_faithful]:
  "wf_message (Sm_project_hook_status r) \<Longrightarrow>
   parseServerMessage (Some (wire_message (Sm_project_hook_status r))) = Inr (Sm_project_hook_status r)"
  by (simp add: dispatch message_cases_def case_project_hook_status_def reader_rt)

lemma case_project_hook_status_extends [case_extends]:
  "fresh_keys extra \<Longrightarrow> case_project_hook_status (kvs @ extra) = case_project_hook_status kvs"
  by (simp add: case_project_hook_status_def case_extends)

lemma case_install_hooks_result_sound [case_sound]: "case_install_hooks_result obj = Inr m \<Longrightarrow> wf_message m"
  by (auto simp: case_install_hooks_result_def rbind_Inr_iff dest!: reader_wf)

lemma case_install_hooks_result_faithful [case_faithful]:
  "wf_message (Sm_install_hooks_result x0 x1 x2) \<Longrightarrow>
   parseServerMessage (Some (wire_message (Sm_install_hooks_result x0 x1 x2))) = Inr (Sm_install_hooks_result x0 x1 x2)"
  by (simp add: dispatch message_cases_def case_install_hooks_result_def reader_rt)

lemma case_install_hooks_result_extends [case_extends]:
  "fresh_keys extra \<Longrightarrow> case_install_hooks_result (kvs @ extra) = case_install_hooks_result kvs"
  by (simp add: case_install_hooks_result_def field_fresh known_keys_def)

lemma case_reimport_complete_sound [case_sound]: "case_reimport_complete obj = Inr m \<Longrightarrow> wf_message m"
  by (auto simp: case_reimport_complete_def rbind_Inr_iff dest!: reader_wf)

lemma case_reimport_complete_faithful [case_faithful]:
  "wf_message (Sm_reimport_complete x0) \<Longrightarrow>
   parseServerMessage (Some (wire_message (Sm_reimport_complete x0))) = Inr (Sm_reimport_complete x0)"
  by (simp add: dispatch message_cases_def case_reimport_complete_def reader_rt)

lemma case_reimport_complete_extends [case_extends]:
  "fresh_keys extra \<Longrightarrow> case_reimport_complete (kvs @ extra) = case_reimport_complete kvs"
  by (simp add: case_reimport_complete_def field_fresh known_keys_def)

lemma case_error_sound [case_sound]: "case_error obj = Inr m \<Longrightarrow> wf_message m"
  by (auto simp: case_error_def rbind_Inr_iff dest!: reader_wf)

lemma case_error_faithful [case_faithful]:
  "wf_message (Sm_error x0) \<Longrightarrow>
   parseServerMessage (Some (wire_message (Sm_error x0))) = Inr (Sm_error x0)"
  by (simp add: dispatch message_cases_def case_error_def reader_rt)

lemma case_error_extends [case_extends]:
  "fresh_keys extra \<Longrightarrow> case_error (kvs @ extra) = case_error kvs"
  by (simp add: case_error_def field_fresh known_keys_def)

lemma case_web_login_failure_sound [case_sound]: "case_web_login_failure obj = Inr m \<Longrightarrow> wf_message m"
  by (auto simp: case_web_login_failure_def rbind_Inr_iff dest!: reader_wf)

lemma case_web_login_failure_faithful [case_faithful]:
  "wf_message (Sm_web_login_failure x0 x1 x2) \<Longrightarrow>
   parseServerMessage (Some (wire_message (Sm_web_login_failure x0 x1 x2))) = Inr (Sm_web_login_failure x0 x1 x2)"
  by (simp add: dispatch message_cases_def case_web_login_failure_def reader_rt)

lemma case_web_login_failure_extends [case_extends]:
  "fresh_keys extra \<Longrightarrow> case_web_login_failure (kvs @ extra) = case_web_login_failure kvs"
  by (simp add: case_web_login_failure_def field_fresh known_keys_def)

lemma case_web_login_success_sound [case_sound]: "case_web_login_success obj = Inr m \<Longrightarrow> wf_message m"
  by (auto simp: case_web_login_success_def rbind_Inr_iff dest!: reader_wf)

lemma case_web_login_success_faithful [case_faithful]:
  "wf_message (Sm_web_login_success x0 x1 x2 x3) \<Longrightarrow>
   parseServerMessage (Some (wire_message (Sm_web_login_success x0 x1 x2 x3))) = Inr (Sm_web_login_success x0 x1 x2 x3)"
  by (simp add: dispatch message_cases_def case_web_login_success_def reader_rt)

lemma case_web_login_success_extends [case_extends]:
  "fresh_keys extra \<Longrightarrow> case_web_login_success (kvs @ extra) = case_web_login_success kvs"
  by (simp add: case_web_login_success_def field_fresh known_keys_def)

lemma case_web_device_registered_sound [case_sound]: "case_web_device_registered obj = Inr m \<Longrightarrow> wf_message m"
  by (auto simp: case_web_device_registered_def rbind_Inr_iff dest!: reader_wf)

lemma case_web_device_registered_faithful [case_faithful]:
  "wf_message (Sm_web_device_registered x0 x1 x2) \<Longrightarrow>
   parseServerMessage (Some (wire_message (Sm_web_device_registered x0 x1 x2))) = Inr (Sm_web_device_registered x0 x1 x2)"
  by (simp add: dispatch message_cases_def case_web_device_registered_def reader_rt)

lemma case_web_device_registered_extends [case_extends]:
  "fresh_keys extra \<Longrightarrow> case_web_device_registered (kvs @ extra) = case_web_device_registered kvs"
  by (simp add: case_web_device_registered_def field_fresh known_keys_def)

lemma case_web_device_revoked_sound [case_sound]: "case_web_device_revoked obj = Inr m \<Longrightarrow> wf_message m"
  by (auto simp: case_web_device_revoked_def rbind_Inr_iff dest!: reader_wf)

lemma case_web_device_revoked_faithful [case_faithful]:
  "wf_message (Sm_web_device_revoked x0 x1) \<Longrightarrow>
   parseServerMessage (Some (wire_message (Sm_web_device_revoked x0 x1))) = Inr (Sm_web_device_revoked x0 x1)"
  by (simp add: dispatch message_cases_def case_web_device_revoked_def reader_rt)

lemma case_web_device_revoked_extends [case_extends]:
  "fresh_keys extra \<Longrightarrow> case_web_device_revoked (kvs @ extra) = case_web_device_revoked kvs"
  by (simp add: case_web_device_revoked_def field_fresh known_keys_def)

lemma case_term_created_sound [case_sound]: "case_term_created obj = Inr m \<Longrightarrow> wf_message m"
  by (auto simp: case_term_created_def rbind_Inr_iff dest!: reader_wf terminal_session_meta.flat_sound)

lemma case_term_created_faithful [case_faithful]:
  "wf_message (Sm_term_created r) \<Longrightarrow>
   parseServerMessage (Some (wire_message (Sm_term_created r))) = Inr (Sm_term_created r)"
  by (simp add: dispatch message_cases_def case_term_created_def reader_rt)

lemma case_term_created_extends [case_extends]:
  "fresh_keys extra \<Longrightarrow> case_term_created (kvs @ extra) = case_term_created kvs"
  by (simp add: case_term_created_def case_extends)

lemma case_term_list_response_sound [case_sound]: "case_term_list_response obj = Inr m \<Longrightarrow> wf_message m"
  by (auto simp: case_term_list_response_def rbind_Inr_iff dest!: reader_wf)

lemma case_term_list_response_faithful [case_faithful]:
  "wf_message (Sm_term_list_response x0) \<Longrightarrow>
   parseServerMessage (Some (wire_message (Sm_term_list_response x0))) = Inr (Sm_term_list_response x0)"
  by (simp add: dispatch message_cases_def case_term_list_response_def reader_rt)

lemma case_term_list_response_extends [case_extends]:
  "fresh_keys extra \<Longrightarrow> case_term_list_response (kvs @ extra) = case_term_list_response kvs"
  by (simp add: case_term_list_response_def field_fresh known_keys_def)

lemma case_term_chunk_sound [case_sound]: "case_term_chunk obj = Inr m \<Longrightarrow> wf_message m"
  by (auto simp: case_term_chunk_def rbind_Inr_iff dest!: reader_wf)

lemma case_term_chunk_faithful [case_faithful]:
  "wf_message (Sm_term_chunk x0 x1 x2 x3 x4) \<Longrightarrow>
   parseServerMessage (Some (wire_message (Sm_term_chunk x0 x1 x2 x3 x4))) = Inr (Sm_term_chunk x0 x1 x2 x3 x4)"
  by (simp add: dispatch message_cases_def case_term_chunk_def reader_rt)

lemma case_term_chunk_extends [case_extends]:
  "fresh_keys extra \<Longrightarrow> case_term_chunk (kvs @ extra) = case_term_chunk kvs"
  by (simp add: case_term_chunk_def field_fresh known_keys_def)

lemma case_term_catchup_sound [case_sound]: "case_term_catchup obj = Inr m \<Longrightarrow> wf_message m"
  by (auto simp: case_term_catchup_def rbind_Inr_iff dest!: reader_wf)

lemma case_term_catchup_faithful [case_faithful]:
  "wf_message (Sm_term_catchup x0 x1 x2 x3 x4) \<Longrightarrow>
   parseServerMessage (Some (wire_message (Sm_term_catchup x0 x1 x2 x3 x4))) = Inr (Sm_term_catchup x0 x1 x2 x3 x4)"
  by (simp add: dispatch message_cases_def case_term_catchup_def reader_rt)

lemma case_term_catchup_extends [case_extends]:
  "fresh_keys extra \<Longrightarrow> case_term_catchup (kvs @ extra) = case_term_catchup kvs"
  by (simp add: case_term_catchup_def field_fresh known_keys_def)

lemma case_term_ended_sound [case_sound]: "case_term_ended obj = Inr m \<Longrightarrow> wf_message m"
  by (auto simp: case_term_ended_def rbind_Inr_iff dest!: reader_wf)

lemma case_term_ended_faithful [case_faithful]:
  "wf_message (Sm_term_ended x0 x1 x2) \<Longrightarrow>
   parseServerMessage (Some (wire_message (Sm_term_ended x0 x1 x2))) = Inr (Sm_term_ended x0 x1 x2)"
  by (simp add: dispatch message_cases_def case_term_ended_def reader_rt)

lemma case_term_ended_extends [case_extends]:
  "fresh_keys extra \<Longrightarrow> case_term_ended (kvs @ extra) = case_term_ended kvs"
  by (simp add: case_term_ended_def field_fresh known_keys_def)

lemma case_term_replay_chunk_sound [case_sound]: "case_term_replay_chunk obj = Inr m \<Longrightarrow> wf_message m"
  by (auto simp: case_term_replay_chunk_def rbind_Inr_iff dest!: reader_wf)

lemma case_term_replay_chunk_faithful [case_faithful]:
  "wf_message (Sm_term_replay_chunk x0 x1 x2 x3 x4) \<Longrightarrow>
   parseServerMessage (Some (wire_message (Sm_term_replay_chunk x0 x1 x2 x3 x4))) = Inr (Sm_term_replay_chunk x0 x1 x2 x3 x4)"
  by (simp add: dispatch message_cases_def case_term_replay_chunk_def reader_rt)

lemma case_term_replay_chunk_extends [case_extends]:
  "fresh_keys extra \<Longrightarrow> case_term_replay_chunk (kvs @ extra) = case_term_replay_chunk kvs"
  by (simp add: case_term_replay_chunk_def field_fresh known_keys_def)

lemma case_term_replay_done_sound [case_sound]: "case_term_replay_done obj = Inr m \<Longrightarrow> wf_message m"
  by (auto simp: case_term_replay_done_def rbind_Inr_iff dest!: reader_wf)

lemma case_term_replay_done_faithful [case_faithful]:
  "wf_message (Sm_term_replay_done x0 x1) \<Longrightarrow>
   parseServerMessage (Some (wire_message (Sm_term_replay_done x0 x1))) = Inr (Sm_term_replay_done x0 x1)"
  by (simp add: dispatch message_cases_def case_term_replay_done_def reader_rt)

lemma case_term_replay_done_extends [case_extends]:
  "fresh_keys extra \<Longrightarrow> case_term_replay_done (kvs @ extra) = case_term_replay_done kvs"
  by (simp add: case_term_replay_done_def field_fresh known_keys_def)

lemma case_term_error_sound [case_sound]: "case_term_error obj = Inr m \<Longrightarrow> wf_message m"
  by (auto simp: case_term_error_def rbind_Inr_iff dest!: reader_wf)

lemma case_term_error_faithful [case_faithful]:
  "wf_message (Sm_term_error x0 x1) \<Longrightarrow>
   parseServerMessage (Some (wire_message (Sm_term_error x0 x1))) = Inr (Sm_term_error x0 x1)"
  by (simp add: dispatch message_cases_def case_term_error_def reader_rt)

lemma case_term_error_extends [case_extends]:
  "fresh_keys extra \<Longrightarrow> case_term_error (kvs @ extra) = case_term_error kvs"
  by (simp add: case_term_error_def field_fresh known_keys_def)

lemma case_web_reauth_required_sound [case_sound]: "case_web_reauth_required obj = Inr m \<Longrightarrow> wf_message m"
  by (auto simp: case_web_reauth_required_def rbind_Inr_iff dest!: reader_wf)

lemma case_web_reauth_required_faithful [case_faithful]:
  "wf_message (Sm_web_reauth_required x0 x1 x2 x3) \<Longrightarrow>
   parseServerMessage (Some (wire_message (Sm_web_reauth_required x0 x1 x2 x3))) = Inr (Sm_web_reauth_required x0 x1 x2 x3)"
  by (simp add: dispatch message_cases_def case_web_reauth_required_def reader_rt)

lemma case_web_reauth_required_extends [case_extends]:
  "fresh_keys extra \<Longrightarrow> case_web_reauth_required (kvs @ extra) = case_web_reauth_required kvs"
  by (simp add: case_web_reauth_required_def field_fresh known_keys_def)

lemma case_mark_device_fresh_ack_sound [case_sound]: "case_mark_device_fresh_ack obj = Inr m \<Longrightarrow> wf_message m"
  by (auto simp: case_mark_device_fresh_ack_def rbind_Inr_iff dest!: reader_wf)

lemma case_mark_device_fresh_ack_faithful [case_faithful]:
  "wf_message (Sm_mark_device_fresh_ack x0) \<Longrightarrow>
   parseServerMessage (Some (wire_message (Sm_mark_device_fresh_ack x0))) = Inr (Sm_mark_device_fresh_ack x0)"
  by (simp add: dispatch message_cases_def case_mark_device_fresh_ack_def reader_rt)

lemma case_mark_device_fresh_ack_extends [case_extends]:
  "fresh_keys extra \<Longrightarrow> case_mark_device_fresh_ack (kvs @ extra) = case_mark_device_fresh_ack kvs"
  by (simp add: case_mark_device_fresh_ack_def field_fresh known_keys_def)

lemma case_disk_alert_sound [case_sound]: "case_disk_alert obj = Inr m \<Longrightarrow> wf_message m"
  by (auto simp: case_disk_alert_def rbind_Inr_iff dest!: reader_wf)

lemma case_disk_alert_faithful [case_faithful]:
  "wf_message (Sm_disk_alert x0 x1 x2 x3) \<Longrightarrow>
   parseServerMessage (Some (wire_message (Sm_disk_alert x0 x1 x2 x3))) = Inr (Sm_disk_alert x0 x1 x2 x3)"
  by (simp add: dispatch message_cases_def case_disk_alert_def reader_rt)

lemma case_disk_alert_extends [case_extends]:
  "fresh_keys extra \<Longrightarrow> case_disk_alert (kvs @ extra) = case_disk_alert kvs"
  by (simp add: case_disk_alert_def field_fresh known_keys_def)

lemma case_config_alert_sound [case_sound]: "case_config_alert obj = Inr m \<Longrightarrow> wf_message m"
  by (auto simp: case_config_alert_def rbind_Inr_iff dest!: reader_wf)

lemma case_config_alert_faithful [case_faithful]:
  "wf_message (Sm_config_alert x0 x1 x2 x3) \<Longrightarrow>
   parseServerMessage (Some (wire_message (Sm_config_alert x0 x1 x2 x3))) = Inr (Sm_config_alert x0 x1 x2 x3)"
  by (simp add: dispatch message_cases_def case_config_alert_def reader_rt)

lemma case_config_alert_extends [case_extends]:
  "fresh_keys extra \<Longrightarrow> case_config_alert (kvs @ extra) = case_config_alert kvs"
  by (simp add: case_config_alert_def field_fresh known_keys_def)

section \<open>The switch\<close>

lemma message_cases_sound: "(t, f) \<in> set message_cases \<Longrightarrow> f obj = Inr m \<Longrightarrow> wf_message m"
  by (auto simp: message_cases_def dest: case_sound)

lemma message_cases_extends:
  "(t, f) \<in> set message_cases \<Longrightarrow> fresh_keys extra \<Longrightarrow> f (kvs @ extra) = f kvs"
  by (auto simp: message_cases_def case_extends)

lemma parseServerMessage_InrD:
  assumes "parseServerMessage d = Inr m"
  shows "\<exists>obj t f. d = Some (JObj obj) \<and> map_of obj ''type'' = Some (JStr t) \<and>
        map_of message_cases t = Some f \<and> f obj = Inr m"
  using assms
  by (cases d)
    (auto simp: parseServerMessage_def rbind_Inr_iff readField_def invalid_def split: option.splits)

end
