(* ===== verification/Protocol_Boundary.thy ===== *)
theory Protocol_Boundary
  imports Protocol_Messages
begin

text \<open>
  The properties of the trust boundary \<open>types/protocol.ts\<close>: soundness and completeness of
  \<open>parseServerMessage\<close> with respect to the wire shapes, forward compatibility, the errors,
  and the exact domains of the scalar readers.
\<close>

section \<open>Properties of the trust boundary\<close>

text \<open>
  C8: Every message the parser lets through is well-formed: identifiers are hyphenated
  UUIDs, timestamps are RFC 3339 dates that exist in the calendar, integers are within the
  Rust type they mirror and JSON payloads contain no infinity, in every nested record.
\<close>

theorem parse_sound: "parseServerMessage d = Inr m \<Longrightarrow> wf_message m"
  by (metis parseServerMessage_InrD message_cases_sound map_of_SomeD)

theorem parse_sound_witness:
  "parseServerMessage (Some (JObj [(''type'', JStr ''welcome''), (''version'', jint 3)])) = Inr (Sm_welcome 3)
   \<and> wf_message (Sm_welcome 3)"
proof -
  have "parseServerMessage (Some (JObj [(''type'', JStr ''welcome''), (''version'', jint 3)])) = Inr (Sm_welcome 3)"
    by (simp add: dispatch message_cases_def case_welcome_def reader_rt)
  then show ?thesis using parse_sound by blast
qed

text \<open>
  C9: Round trip: every well-formed message is read back exactly from its wire shape, for
  each of the 41 message types, tuple variants flattened and absent options left out.
\<close>

theorem parse_wire_roundtrip: "wf_message m \<Longrightarrow> parseServerMessage (Some (wire_message m)) = Inr m"
  by (cases m) (simp_all only: case_faithful)

theorem parse_wire_roundtrip_witness:
  "wf_message (Sm_decision_resolved ''0a1b2c3d-0000-4000-8000-00000000abCD'' D_deny) \<and>
   parseServerMessage (Some (wire_message (Sm_decision_resolved ''0a1b2c3d-0000-4000-8000-00000000abCD'' D_deny))) =
     Inr (Sm_decision_resolved ''0a1b2c3d-0000-4000-8000-00000000abCD'' D_deny)"
proof -
  have "wf_message (Sm_decision_resolved ''0a1b2c3d-0000-4000-8000-00000000abCD'' D_deny)"
    by code_simp
  then show ?thesis using parse_wire_roundtrip by blast
qed

text \<open>
  Additive fields: top-level properties the client does not know change nothing, neither
  the message read nor the error raised, so an older client accepts a newer daemon's frames.
\<close>

theorem parse_ignores_unknown:
  assumes "fresh_keys extra"
  shows "parseServerMessage (Some (JObj (kvs @ extra))) = parseServerMessage (Some (JObj kvs))"
proof -
  have tag: "readField (kvs @ extra) ''type'' readString p = readField kvs ''type'' readString p" for p
    by (rule field_fresh[OF assms]) (simp add: known_keys_def)
  have arm: "f (kvs @ extra) = f kvs" if "map_of message_cases t = Some f" for t f
    using message_cases_extends[OF map_of_SomeD[OF that] assms] .
  show ?thesis
    unfolding parseServerMessage_def
    by (cases "readField kvs ''type'' readString ''message''")
      (auto simp: tag arm split: option.splits)
qed

theorem parse_ignores_unknown_witness:
  "fresh_keys [(''trace_id'', JStr ''t'')] \<and>
   parseServerMessage (Some (JObj ([(''type'', JStr ''error''), (''message'', JStr ''x'')] @ [(''trace_id'', JStr ''t'')]))) =
     Inr (Sm_error ''x'')"
proof -
  have fresh: "fresh_keys [(''trace_id'', JStr ''t'')]" by code_simp
  have "parseServerMessage (Some (JObj [(''type'', JStr ''error''), (''message'', JStr ''x'')])) = Inr (Sm_error ''x'')"
    by (simp add: dispatch message_cases_def case_error_def reader_rt)
  with fresh parse_ignores_unknown[OF fresh, of "[(''type'', JStr ''error''), (''message'', JStr ''x'')]"]
  show ?thesis by (simp only:)
qed

text \<open>
  What is refused at the top level, with the exact error: text that is not JSON, a value
  that is not an object, a missing or non-string tag, and a tag outside the protocol.
\<close>

theorem parse_refuses:
  "parseServerMessage None = Inl ''server message is not valid JSON'' \<and>
   ((\<forall>obj. v \<noteq> JObj obj) \<longrightarrow> parseServerMessage (Some v) = Inl ''message: expected object'') \<and>
   ((\<forall>t. map_of obj ''type'' \<noteq> Some (JStr t)) \<longrightarrow>
     parseServerMessage (Some (JObj obj)) = Inl ''message.type: expected string'') \<and>
   (map_of obj ''type'' = Some (JStr t) \<and> map_of message_cases t = None \<longrightarrow>
     parseServerMessage (Some (JObj obj)) =
       Inl (''message.type: expected known server message type, received '' @ t))"
  by (auto simp: parseServerMessage_def readObject_def readField_def readString_def invalid_def
      split: json.splits option.splits)

theorem parse_refuses_witness:
  "parseServerMessage (Some (JObj [(''type'', JStr ''nope'')])) =
     Inl (''message.type: expected known server message type, received nope'')
   \<and> parseServerMessage (Some JNull) = Inl ''message: expected object''
   \<and> parseServerMessage (Some (JObj [])) = Inl ''message.type: expected string''"
  using parse_refuses[of JNull "[(''type'', JStr ''nope'')]" "''nope''"] parse_refuses[of JNull "[]"]
  by (simp add: message_cases_def)

text \<open>
  C12: The timestamp reader accepts exactly the RFC 3339 strings whose date exists in the
  Gregorian calendar, whose time of day is in range (a leap second included) and whose
  offset is below a day; it returns them unchanged and names the path otherwise.
\<close>

theorem rfc3339_exact:
  "readRfc3339 (Some (JStr s)) p = (if is_rfc3339 s then Inr s else Inl (p @ '': expected RFC 3339 timestamp''))"
  by (simp add: readRfc3339_JStr invalid_def)

text \<open>
  An accepted timestamp denotes an instant for \<open>Date\<close> exactly when its second is not
  60: the reader admits a leap second, which JavaScript's \<open>Date\<close> turns into \<open>NaN\<close>.
\<close>

theorem accepted_timestamp_has_time:
  assumes "readRfc3339 v p = Inr s"
  shows "has_time s \<longleftrightarrow> read_nat (slice s 17 19) \<noteq> 60"
proof -
  have "is_rfc3339 s" using assms by (simp add: readRfc3339_Inr)
  moreover have "month_length (int (read_nat (slice s 0 4))) (int (read_nat (slice s 5 7))) \<le> 31"
    by (simp add: month_length_def)
  ultimately show ?thesis
    by (auto simp: has_time_def get_time_def is_rfc3339_def Let_def)
qed

theorem accepted_timestamp_has_time_witness:
  "readRfc3339 (Some (JStr ''2016-12-31T23:59:60Z'')) ''p'' = Inr ''2016-12-31T23:59:60Z''
   \<and> \<not> has_time ''2016-12-31T23:59:60Z''"
proof -
  have r: "readRfc3339 (Some (JStr ''2016-12-31T23:59:60Z'')) ''p'' = Inr ''2016-12-31T23:59:60Z''"
    by code_simp
  have "read_nat (slice ''2016-12-31T23:59:60Z'' 17 19) = 60" by code_simp
  with r accepted_timestamp_has_time[OF r] show ?thesis by simp
qed

text \<open>
  The integer readers accept exactly the integers of the Rust type they mirror that
  survive \<open>JSON.parse\<close>: no fraction, no infinity, no value beyond the safe range.
\<close>

theorem integer_readers_exact:
  "(readU16 v p = Inr i \<longleftrightarrow> v = Some (jint i) \<and> in_u16 i) \<and>
   (readU32 v p = Inr i \<longleftrightarrow> v = Some (jint i) \<and> in_u32 i) \<and>
   (readI32 v p = Inr i \<longleftrightarrow> v = Some (jint i) \<and> in_i32 i) \<and>
   (readU64Safe v p = Inr i \<longleftrightarrow> v = Some (jint i) \<and> in_u53 i) \<and>
   (readI64Safe v p = Inr i \<longleftrightarrow> v = Some (jint i) \<and> in_i53 i)"
  by (auto simp: readU16_def readU32_def readI32_def readU64Safe_def readI64Safe_def
      readBoundedInteger_Inr max_safe_integer_def dest: safe_integer_Some)

text \<open>
  A JSON payload passes the boundary unchanged when every number in it is finite, and is
  refused otherwise; no property of an object is lost, whatever its name.
\<close>

theorem json_payload_exact:
  "(readJsonValue v p = Inr w \<longleftrightarrow> v = Some w \<and> finite_json w) \<and>
   (\<not> finite_json w \<longrightarrow> (\<exists>e. readJsonValue (Some w) p = Inl e))"
proof (intro conjI impI)
  show "readJsonValue v p = Inr w \<longleftrightarrow> v = Some w \<and> finite_json w"
    by (rule readJsonValue_Inr)
  show "\<exists>e. readJsonValue (Some w) p = Inl e" if "\<not> finite_json w"
    using that by (simp add: readJsonValue_def readJson_infinite)
qed

theorem json_payload_exact_witness:
  "\<not> finite_json (JArr [JNum PosInf]) \<and> (\<exists>e. readJsonValue (Some (JArr [JNum PosInf])) ''p'' = Inl e)
   \<and> readJsonValue (Some (JObj [(''__proto__'', JNull)])) ''p'' = Inr (JObj [(''__proto__'', JNull)])"
proof -
  have inf: "\<not> finite_json (JArr [JNum PosInf])" by code_simp
  show ?thesis
    using inf json_payload_exact[of None "''p''" "JArr [JNum PosInf]"]
      json_payload_exact[of "Some (JObj [(''__proto__'', JNull)])" "''p''" "JObj [(''__proto__'', JNull)]"]
    by simp
qed

definition sample_entry :: history_entry where
  "sample_entry = \<lparr>he_id = ''0a1b2c3d-0000-4000-8000-00000000abcd'', he_agent_id = ''cc-1'',
     he_agent_type = ''codex'', he_project = ''/p'', he_tool_name = ''Bash'', he_tool_input = JNull,
     he_decision = D_deny, he_requested_at = ''2026-07-14T10:00:00Z'', he_resolved_at = ''2026-07-14T10:00:01Z'',
     he_tool_result = None, he_tool_use_id = None, he_hook_event_name = None, he_terminal_session_id = None,
     he_decided_by = None, he_config_hash = None\<rparr>"

text \<open>
  An audit row never fails the parse because of its agent type: a label outside the
  closed set is kept as it is, while the live-agent shapes refuse it.
\<close>

theorem unknown_agent_label:
  assumes "wf_history_entry e" and "knownAgentType label = None"
  shows "parseHistoryEntry (Some (JObj (fields_history_entry (e\<lparr>he_agent_type := label\<rparr>)))) p =
      Inr (e\<lparr>he_agent_type := label\<rparr>) \<and>
    readAgentType (Some (JStr label)) p = Inl (p @ '': expected known AgentType value'')"
proof
  have "wf_history_entry (e\<lparr>he_agent_type := label\<rparr>)"
    using assms(1) by (simp add: wf_history_entry_def)
  then show "parseHistoryEntry (Some (JObj (fields_history_entry (e\<lparr>he_agent_type := label\<rparr>)))) p =
      Inr (e\<lparr>he_agent_type := label\<rparr>)"
    by (rule history_entry.faithful)
  show "readAgentType (Some (JStr label)) p = Inl (p @ '': expected known AgentType value'')"
    using assms(2) by (simp add: readAgentType_def knownAgentType_def invalid_def split: if_splits)
qed

theorem unknown_agent_label_witness:
  "wf_history_entry sample_entry \<and> knownAgentType ''unrecognized:x'' = None \<and>
   parseHistoryEntry (Some (JObj (fields_history_entry (sample_entry\<lparr>he_agent_type := ''unrecognized:x''\<rparr>)))) ''m'' =
      Inr (sample_entry\<lparr>he_agent_type := ''unrecognized:x''\<rparr>)"
proof -
  have "is_uuid (he_id sample_entry)" "is_rfc3339 (he_requested_at sample_entry)"
    "is_rfc3339 (he_resolved_at sample_entry)" by code_simp+
  then have wf: "wf_history_entry sample_entry"
    by (simp add: wf_history_entry_def) (simp add: sample_entry_def)
  have unknown: "knownAgentType ''unrecognized:x'' = None" by code_simp
  show ?thesis using wf unknown unknown_agent_label[OF wf unknown] by blast
qed

end
