(* ===== verification/Wisphive_State.thy ===== *)
theory Wisphive_State
  imports Protocol_Types
begin

text \<open>
  The React state of \<open>hooks/useWisphive.ts\<close> and the pure part of its updaters: the error
  rows, the audit feed, the alert banners, the tracked spawn, and the state transition of
  every server message. The refs, the socket and the commands are in the theories
  \<open>Wisphive_Hook\<close> and \<open>Wisphive_Connection\<close>.
\<close>

section \<open>State\<close>

datatype error_source = Src_daemon | Src_terminal | Src_client

record ui_error =
  ue_id :: int
  ue_source :: error_source
  ue_message :: string
  ue_at :: string
  ue_count :: int

datatype spawn_status =
    Spawn_pending string
  | Spawn_queued string string
  | Spawn_refused string string

record disk_alert =
  da_kind :: disk_alert_kind
  da_message :: string
  da_at :: string

record config_alert =
  ca_kind :: config_alert_kind
  ca_message :: string
  ca_at :: string

record pending_reauth =
  pa_request_id :: string
  pa_tool_name :: string

record wisphive_state =
  connected :: bool
  queue :: "decision_request list"
  agents :: "agent_info list"
  managedAgents :: "managed_agent list"
  history :: "history_entry list"
  agentTimeline :: "history_entry list"
  sessionTimeline :: "history_entry list"
  sessions :: "session_summary list"
  projects :: "project_summary list"
  worktrees :: "worktree_status list"
  burnTouches :: "artifact_touch list"
  hookStatus :: "(string, project_hook_status) jmap"
  hookErrors :: "(string, string) jmap"
  auditDecisions :: "audit_decision list"
  endedAgentIds :: "string list"
  terminals :: "terminal_session_meta list"
  pendingReauth :: "pending_reauth option"
  diskAlerts :: "disk_alert list"
  configAlerts :: "config_alert list"
  errors :: "ui_error list"
  spawn :: "spawn_status option"

definition initial_state :: wisphive_state where
  "initial_state = \<lparr>connected = False, queue = [], agents = [], managedAgents = [], history = [],
     agentTimeline = [], sessionTimeline = [], sessions = [], projects = [], worktrees = [],
     burnTouches = [], hookStatus = [], hookErrors = [], auditDecisions = [], endedAgentIds = [],
     terminals = [], pendingReauth = None, diskAlerts = [], configAlerts = [], errors = [],
     spawn = None\<rparr>"

fun correlationId :: "spawn_status \<Rightarrow> string" where
  "correlationId (Spawn_pending c) = c"
| "correlationId (Spawn_queued c d) = c"
| "correlationId (Spawn_refused c m) = c"

section \<open>Error rows\<close>

definition MAX_ERRORS :: nat where
  "MAX_ERRORS = 20"

definition appendError :: "ui_error list \<Rightarrow> error_source \<Rightarrow> string \<Rightarrow> string \<Rightarrow> ui_error list" where
  "appendError es source message at' =
     (if es \<noteq> [] \<and> ue_source (last es) = source \<and> ue_message (last es) = message
      then butlast es @ [(last es)\<lparr>ue_count := ue_count (last es) + 1, ue_at := at'\<rparr>]
      else
        let next = es @ [\<lparr>ue_id = (if es = [] then 1 else ue_id (last es) + 1), ue_source = source,
                          ue_message = message, ue_at = at', ue_count = 1\<rparr>]
        in if length next > MAX_ERRORS then drop (length next - MAX_ERRORS) next else next)"

section \<open>The audit feed\<close>

definition audit_kind_name :: "audit_decision_kind \<Rightarrow> string" where
  "audit_kind_name k = (case k of K_auto_approved \<Rightarrow> ''auto_approved'' | K_deferred \<Rightarrow> ''deferred''
     | K_denied \<Rightarrow> ''denied'')"

definition or_empty :: "string option \<Rightarrow> string" where
  "or_empty s = (case s of Some x \<Rightarrow> x | None \<Rightarrow> [])"

definition audit_fields :: "audit_decision \<Rightarrow> string list" where
  "audit_fields a = [audit_kind_name (ad_kind a), ad_ts a, ad_project a, ad_agent_id a,
     or_empty (ad_terminal_session_id a), ad_tool_name a, or_empty (ad_decided_by a),
     or_empty (ad_tool_use_id a)]"

definition auditKey :: "audit_decision \<Rightarrow> string" where
  "auditKey a = join_with nul_char (audit_fields a)"

text \<open>The filter closure with its \<open>seen\<close> set: the first item of each key stays.\<close>

fun first_by :: "('a \<Rightarrow> 'k) \<Rightarrow> 'k list \<Rightarrow> 'a list \<Rightarrow> 'a list" where
  "first_by key seen [] = []"
| "first_by key seen (x # xs) =
     (if key x \<in> set seen then first_by key seen xs else x # first_by key (key x # seen) xs)"

definition mergeAuditDecisions :: "audit_decision list \<Rightarrow> audit_decision list \<Rightarrow> audit_decision list" where
  "mergeAuditDecisions primary secondary =
     js_sort (\<lambda>a b. cmp_time ad_ts b a) (first_by auditKey [] (primary @ secondary))"

section \<open>The state transition of a server message\<close>

definition CHANNEL_HISTORY :: string where "CHANNEL_HISTORY = ''history''"
definition CHANNEL_AGENT :: string where "CHANNEL_AGENT = ''agent''"
definition CHANNEL_SESSION :: string where "CHANNEL_SESSION = ''session''"

definition route_history :: "history_entry list \<Rightarrow> string option \<Rightarrow> wisphive_state \<Rightarrow> wisphive_state" where
  "route_history entries request_id prev =
     (let channel = (case request_id of Some r \<Rightarrow> r | None \<Rightarrow> CHANNEL_HISTORY) in
      if starts_with channel CHANNEL_AGENT then prev\<lparr>agentTimeline := entries\<rparr>
      else if starts_with channel CHANNEL_SESSION then prev\<lparr>sessionTimeline := entries\<rparr>
      else prev\<lparr>history := entries\<rparr>)"

definition install_result ::
    "string \<Rightarrow> project_hook_status option \<Rightarrow> string option \<Rightarrow> wisphive_state \<Rightarrow> wisphive_state" where
  "install_result project status err prev =
     (case status of
        Some st \<Rightarrow> prev\<lparr>hookStatus := AList.update project st (hookStatus prev),
                         hookErrors := AList.delete project (hookErrors prev)\<rparr>
      | None \<Rightarrow> prev\<lparr>hookErrors := AList.update project
                  (case err of Some e \<Rightarrow> e | None \<Rightarrow> ''Install failed.'') (hookErrors prev)\<rparr>)"

definition push_error :: "error_source \<Rightarrow> string \<Rightarrow> string \<Rightarrow> wisphive_state \<Rightarrow> wisphive_state" where
  "push_error source message at' prev = prev\<lparr>errors := appendError (errors prev) source message at'\<rparr>"

definition command_error :: "string \<Rightarrow> string option \<Rightarrow> string \<Rightarrow> wisphive_state \<Rightarrow> wisphive_state" where
  "command_error message correlation_id receivedAt prev =
     (case spawn prev of
        Some (Spawn_pending c) \<Rightarrow>
          if correlation_id = Some c then prev\<lparr>spawn := Some (Spawn_refused c message)\<rparr>
          else push_error Src_daemon message receivedAt prev
      | Some (Spawn_queued c d) \<Rightarrow>
          if correlation_id = Some c then prev\<lparr>spawn := Some (Spawn_refused c message)\<rparr>
          else push_error Src_daemon message receivedAt prev
      | _ \<Rightarrow> push_error Src_daemon message receivedAt prev)"

definition spawn_queued :: "decision_request \<Rightarrow> string option \<Rightarrow> wisphive_state \<Rightarrow> wisphive_state" where
  "spawn_queued decision correlation_id prev =
     (case spawn prev of
        Some (Spawn_pending c) \<Rightarrow>
          if correlation_id = Some c then prev\<lparr>spawn := Some (Spawn_queued c (dr_id decision))\<rparr> else prev
      | _ \<Rightarrow> prev)"

definition end_terminal ::
    "string \<Rightarrow> int option \<Rightarrow> terminal_status \<Rightarrow> terminal_session_meta \<Rightarrow> terminal_session_meta" where
  "end_terminal tid exit_code status t =
     (if tm_id t = tid then t\<lparr>tm_status := status, tm_exit_code := exit_code\<rparr> else t)"

fun reduce :: "string \<Rightarrow> server_message \<Rightarrow> wisphive_state \<Rightarrow> wisphive_state" where
  "reduce now (Sm_welcome v) prev = prev\<lparr>connected := True\<rparr>"
| "reduce now (Sm_queue_snapshot items) prev = prev\<lparr>queue := items\<rparr>"
| "reduce now (Sm_new_decision req) prev = prev\<lparr>queue := queue prev @ [req]\<rparr>"
| "reduce now (Sm_decision_resolved rid d) prev = prev\<lparr>queue := filter (\<lambda>r. dr_id r \<noteq> rid) (queue prev)\<rparr>"
| "reduce now (Sm_audit_snapshot items) prev = prev\<lparr>auditDecisions := mergeAuditDecisions [] items\<rparr>"
| "reduce now (Sm_audit_decision a) prev =
     prev\<lparr>auditDecisions := mergeAuditDecisions [a] (auditDecisions prev)\<rparr>"
| "reduce now (Sm_deferred_resolved use_id agent tool ts answer) prev =
     prev\<lparr>auditDecisions := filter (\<lambda>a. \<not> (ad_kind a = K_deferred \<and> ad_tool_use_id a = Some use_id))
        (auditDecisions prev)\<rparr>"
| "reduce now (Sm_agents_snapshot ags) prev =
     prev\<lparr>agents := ags, endedAgentIds := filter (\<lambda>i. i \<notin> ai_agent_id ` set ags) (endedAgentIds prev)\<rparr>"
| "reduce now (Sm_agent_connected info) prev =
     prev\<lparr>agents := agents prev @ [info],
          endedAgentIds := filter (\<lambda>i. i \<noteq> ai_agent_id info) (endedAgentIds prev)\<rparr>"
| "reduce now (Sm_agent_disconnected aid) prev =
     prev\<lparr>agents := filter (\<lambda>a. ai_agent_id a \<noteq> aid) (agents prev),
          endedAgentIds := (if aid \<in> set (endedAgentIds prev) then endedAgentIds prev
                            else endedAgentIds prev @ [aid])\<rparr>"
| "reduce now (Sm_agent_spawned ag) prev =
     prev\<lparr>managedAgents := filter (\<lambda>a. ma_agent_id a \<noteq> ma_agent_id ag) (managedAgents prev) @ [ag]\<rparr>"
| "reduce now (Sm_agent_exited aid code) prev =
     prev\<lparr>managedAgents := filter (\<lambda>a. ma_agent_id a \<noteq> aid) (managedAgents prev)\<rparr>"
| "reduce now (Sm_agent_list ags) prev = prev\<lparr>managedAgents := ags\<rparr>"
| "reduce now (Sm_history_response entries rid) prev = route_history entries rid prev"
| "reduce now (Sm_sessions_response ss) prev = prev\<lparr>sessions := ss\<rparr>"
| "reduce now (Sm_projects_response ps) prev = prev\<lparr>projects := ps\<rparr>"
| "reduce now (Sm_worktrees_response ws) prev = prev\<lparr>worktrees := ws\<rparr>"
| "reduce now (Sm_burn_response ts) prev = prev\<lparr>burnTouches := ts\<rparr>"
| "reduce now (Sm_project_hook_status st) prev =
     prev\<lparr>hookStatus := AList.update (hs_project st) st (hookStatus prev)\<rparr>"
| "reduce now (Sm_install_hooks_result project status err) prev = install_result project status err prev"
| "reduce now (Sm_reimport_complete n) prev = prev"
| "reduce now (Sm_error message) prev = push_error Src_daemon message now prev"
| "reduce now (Sm_command_error message corr) prev = command_error message corr now prev"
| "reduce now (Sm_agent_spawn_queued d corr) prev = spawn_queued d corr prev"
| "reduce now (Sm_term_created meta) prev =
     prev\<lparr>terminals := meta # filter (\<lambda>t. tm_id t \<noteq> tm_id meta) (terminals prev)\<rparr>"
| "reduce now (Sm_term_list_response ss) prev = prev\<lparr>terminals := ss\<rparr>"
| "reduce now (Sm_term_ended tid code status) prev =
     prev\<lparr>terminals := map (end_terminal tid code status) (terminals prev)\<rparr>"
| "reduce now (Sm_term_replay_done tid n) prev = prev"
| "reduce now (Sm_term_error tid message) prev = push_error Src_terminal message now prev"
| "reduce now (Sm_web_reauth_required dev rid tool at') prev =
     prev\<lparr>pendingReauth := Some \<lparr>pa_request_id = rid, pa_tool_name = tool\<rparr>\<rparr>"
| "reduce now (Sm_disk_alert kind active message at') prev =
     (let others = filter (\<lambda>a. da_kind a \<noteq> kind) (diskAlerts prev) in
      if \<not> active then prev\<lparr>diskAlerts := others\<rparr>
      else prev\<lparr>diskAlerts := others @ [\<lparr>da_kind = kind, da_message = message, da_at = at'\<rparr>]\<rparr>)"
| "reduce now (Sm_config_alert kind active message at') prev =
     (let others = filter (\<lambda>a. ca_kind a \<noteq> kind) (configAlerts prev) in
      if \<not> active then prev\<lparr>configAlerts := others\<rparr>
      else prev\<lparr>configAlerts := others @ [\<lparr>ca_kind = kind, ca_message = message, ca_at = at'\<rparr>]\<rparr>)"
| "reduce now _ prev = prev"

section \<open>Error rows are bounded and their ids increase\<close>

definition errors_inv :: "ui_error list \<Rightarrow> bool" where
  "errors_inv es \<longleftrightarrow> length es \<le> MAX_ERRORS \<and> sorted_wrt (<) (map ue_id es) \<and>
     (\<forall>e \<in> set es. 1 \<le> ue_id e \<and> 1 \<le> ue_count e)"

lemma errors_inv_Nil [simp]: "errors_inv []"
  by (simp add: errors_inv_def)

lemma errors_inv_filter: "errors_inv es \<Longrightarrow> errors_inv (filter P es)"
  by (auto simp: errors_inv_def sorted_wrt_map sorted_wrt_filter intro: order_trans[OF length_filter_le])

lemma errors_inv_drop:
  "sorted_wrt (<) (map ue_id es) \<Longrightarrow> \<forall>e \<in> set es. 1 \<le> ue_id e \<and> 1 \<le> ue_count e \<Longrightarrow>
   length es - n \<le> MAX_ERRORS \<Longrightarrow> errors_inv (drop n es)"
  by (auto simp: errors_inv_def drop_map[symmetric] sorted_wrt_drop dest: in_set_dropD)

lemma errors_inv_appendError:
  assumes "errors_inv es"
  shows "errors_inv (appendError es source message at')"
proof (cases "es \<noteq> [] \<and> ue_source (last es) = source \<and> ue_message (last es) = message")
  case True
  obtain fs f where es: "es = fs @ [f]" using True by (metis append_butlast_last_id)
  show ?thesis using assms True by (auto simp: appendError_def es errors_inv_def sorted_wrt_append)
next
  case False
  let ?new = "\<lparr>ue_id = (if es = [] then 1 else ue_id (last es) + 1), ue_source = source,
    ue_message = message, ue_at = at', ue_count = 1\<rparr>"
  have last: "ue_id e \<le> ue_id (last es)" if "e \<in> set es" for e
    using that assms by (cases es rule: rev_cases) (auto simp: errors_inv_def sorted_wrt_append)
  have sorted: "sorted_wrt (<) (map ue_id (es @ [?new]))"
    using assms last by (auto simp: errors_inv_def sorted_wrt_append less_le_trans)
  have rows: "\<forall>e \<in> set (es @ [?new]). 1 \<le> ue_id e \<and> 1 \<le> ue_count e"
    using assms by (auto simp: errors_inv_def dest: bspec[of _ _ "last es"])
  have "appendError es source message at' = drop (Suc (length es) - MAX_ERRORS) (es @ [?new])"
    using False by (auto simp: appendError_def Let_def)
  moreover have "errors_inv (drop (Suc (length es) - MAX_ERRORS) (es @ [?new]))"
    by (rule errors_inv_drop[OF sorted rows]) simp
  ultimately show ?thesis by (simp only:)
qed

text \<open>The row of the newest error is always the last one, so it is never the one evicted.\<close>

lemma appendError_last:
  "appendError es source message at' \<noteq> [] \<and> ue_source (last (appendError es source message at')) = source \<and>
   ue_message (last (appendError es source message at')) = message \<and>
   ue_at (last (appendError es source message at')) = at'"
  by (auto simp: appendError_def Let_def MAX_ERRORS_def)

section \<open>The audit feed: one row per key, newest first\<close>

lemma set_first_by: "set (first_by key seen xs) \<subseteq> set xs"
proof (induction xs arbitrary: seen)
  case (Cons x xs)
  from Cons[of seen] Cons[of "key x # seen"] show ?case by auto
qed simp

lemma first_by_keys: "key ` set (first_by key seen xs) = key ` set xs - set seen"
  by (induction xs arbitrary: seen) auto

lemma distinct_first_by: "distinct (map key (first_by key seen xs))"
proof (induction xs arbitrary: seen)
  case (Cons x xs)
  have "key x \<notin> key ` set (first_by key (key x # seen) xs)" by (simp add: first_by_keys)
  with Cons show ?case by simp
qed simp

text \<open>What stays for a key is the earliest item that has it.\<close>

lemma first_by_find:
  "find (\<lambda>x. key x = k) (first_by key seen xs) = (if k \<in> set seen then None else find (\<lambda>x. key x = k) xs)"
proof (induction xs arbitrary: seen)
  case (Cons x xs)
  then show ?case by auto
qed simp

lemma distinct_auditKey_merge: "distinct (map auditKey (mergeAuditDecisions primary secondary))"
  by (simp add: mergeAuditDecisions_def distinct_map_js_sort distinct_first_by)

lemma keys_merge:
  "auditKey ` set (mergeAuditDecisions primary secondary) = auditKey ` (set primary \<union> set secondary)"
  by (simp add: mergeAuditDecisions_def first_by_keys)

lemma set_merge: "set (mergeAuditDecisions primary secondary) \<subseteq> set primary \<union> set secondary"
  using set_first_by[of auditKey "[]" "primary @ secondary"] by (simp add: mergeAuditDecisions_def)

interpretation newest_first: js_order "\<lambda>a b. cmp_time ad_ts b a" "{a. has_time (ad_ts a)}"
  by (rule js_order_cmp_time_desc)

lemma merge_newest_first:
  assumes "\<forall>a \<in> set primary \<union> set secondary. has_time (ad_ts a)"
  shows "newest_first.in_order (mergeAuditDecisions primary secondary)"
  unfolding mergeAuditDecisions_def
  using assms set_first_by[of auditKey "[]" "primary @ secondary"]
  by (intro newest_first.js_sort_sorted) auto

text \<open>The key separates rows: with no NUL in the fields, equal keys mean equal fields.\<close>

lemma join_with_Cons: "ws \<noteq> [] \<Longrightarrow> join_with d (w # ws) = w @ d @ join_with d ws"
  by (cases ws) auto

lemma split_unique:
  "d \<notin> set u \<Longrightarrow> d \<notin> set v \<Longrightarrow> u @ d # r = v @ d # q \<Longrightarrow> u = v \<and> r = q"
  by (induction u arbitrary: v) (auto simp: append_eq_Cons_conv Cons_eq_append_conv)

lemma join_with_inj:
  assumes "length us = length vs" "\<forall>w \<in> set us \<union> set vs. d \<notin> set w"
    and "join_with [d] us = join_with [d] vs"
  shows "us = vs"
  using assms
proof (induction us vs rule: list_induct2)
  case (Cons u us v vs)
  show ?case
  proof (cases "us = []")
    case False
    then have "vs \<noteq> []" using Cons.hyps by auto
    with False Cons.prems have "u @ d # join_with [d] us = v @ d # join_with [d] vs"
      by (simp add: join_with_Cons)
    then have "u = v \<and> join_with [d] us = join_with [d] vs"
      using Cons.prems by (intro split_unique) auto
    with Cons show ?thesis by auto
  qed (use Cons in auto)
qed simp

section \<open>The invariant of the state\<close>

definition state_inv :: "wisphive_state \<Rightarrow> bool" where
  "state_inv s \<longleftrightarrow> errors_inv (errors s) \<and>
     distinct (map da_kind (diskAlerts s)) \<and> distinct (map ca_kind (configAlerts s)) \<and>
     distinct (endedAgentIds s) \<and> (\<forall>a \<in> set (agents s). ai_agent_id a \<notin> set (endedAgentIds s)) \<and>
     distinct (map auditKey (auditDecisions s)) \<and>
     jmap_wf (hookStatus s) \<and> jmap_wf (hookErrors s)"

lemma state_inv_initial: "state_inv initial_state"
  by (simp add: state_inv_def initial_state_def)

lemma state_inv_push_error: "state_inv s \<Longrightarrow> state_inv (push_error src msg t s)"
  by (simp add: state_inv_def push_error_def errors_inv_appendError)

lemma distinct_map_filter_snoc:
  "distinct (map f xs) \<Longrightarrow> f y = k \<Longrightarrow> distinct (map f (filter (\<lambda>x. f x \<noteq> k) xs @ [y]))"
  by (auto simp: distinct_map inj_on_def)

lemma state_inv_reduce: "state_inv s \<Longrightarrow> state_inv (reduce now m s)"
proof (cases m)
  case (Sm_disk_alert k a msg t)
  assume "state_inv s"
  with Sm_disk_alert show ?thesis
    using distinct_map_filter_snoc[of da_kind "diskAlerts s" "\<lparr>da_kind = k, da_message = msg, da_at = t\<rparr>" k]
    by (auto simp: state_inv_def Let_def distinct_map_filter)
next
  case (Sm_config_alert k a msg t)
  assume "state_inv s"
  with Sm_config_alert show ?thesis
    using distinct_map_filter_snoc[of ca_kind "configAlerts s" "\<lparr>ca_kind = k, ca_message = msg, ca_at = t\<rparr>" k]
    by (auto simp: state_inv_def Let_def distinct_map_filter)
next
  case (Sm_command_error msg c)
  assume "state_inv s"
  with Sm_command_error show ?thesis
    by (auto simp: command_error_def state_inv_push_error split: option.split spawn_status.split)
      (simp_all add: state_inv_def)
qed (auto simp: state_inv_def route_history_def install_result_def spawn_queued_def push_error_def
    errors_inv_appendError distinct_auditKey_merge distinct_map_filter jmap.wf_set jmap.wf_del Let_def
    split: option.split spawn_status.split)

section \<open>The tracked spawn\<close>

text \<open>How a tracked spawn may move on a server message: acknowledged while pending, or refused.\<close>

inductive spawn_moves :: "spawn_status option \<Rightarrow> spawn_status option \<Rightarrow> bool" where
  stay: "spawn_moves s s"
| ack: "spawn_moves (Some (Spawn_pending c)) (Some (Spawn_queued c d))"
| refuse_pending: "spawn_moves (Some (Spawn_pending c)) (Some (Spawn_refused c m))"
| refuse_queued: "spawn_moves (Some (Spawn_queued c d)) (Some (Spawn_refused c m))"

lemma push_error_other [simp]: "spawn (push_error src msg t s) = spawn s"
  by (simp add: push_error_def)

lemma reduce_spawn_moves: "spawn_moves (spawn s) (spawn (reduce now m s))"
  by (cases m) (auto simp: route_history_def install_result_def spawn_queued_def command_error_def Let_def
      intro: spawn_moves.intros split: option.split spawn_status.split)

end
