(* ===== verification/Base64.thy ===== *)
theory Base64
  imports Js_Runtime "HOL-Library.Word"
begin

text \<open>
  The base64 helpers at the end of \<open>hooks/useWisphive.ts\<close>. Each uses the engine's
  \<open>Uint8Array\<close> method when there is one and \<open>atob\<close> or \<open>btoa\<close> otherwise; both library
  algorithms are written out here (\<open>atob\<close>: the forgiving decoder of the Infra standard,
  \<open>fromBase64\<close>: the streaming decoder of ECMAScript in its default loose mode), so that
  the two branches can be compared. A thrown error is \<open>None\<close>.
\<close>

type_synonym bytes = "8 word list"

section \<open>Encoding\<close>

definition b64_char :: "nat \<Rightarrow> char" where
  "b64_char v =
     (if v < 26 then char_of (v + 65) else if v < 52 then char_of (v + 71)
      else if v < 62 then char_of (v - 4) else if v = 62 then CHR ''+'' else CHR ''/'')"

definition b64_val :: "char \<Rightarrow> nat option" where
  "b64_val c =
     (if is_upper c then Some (of_char c - 65) else if is_lower c then Some (of_char c - 71)
      else if is_digit c then Some (of_char c + 4)
      else if c = CHR ''+'' then Some 62 else if c = CHR ''/'' then Some 63 else None)"

fun b64_encode :: "nat list \<Rightarrow> string" where
  "b64_encode [] = []"
| "b64_encode [a] = [b64_char (a div 4), b64_char (a mod 4 * 16), CHR ''='', CHR ''='']"
| "b64_encode [a, b] =
     [b64_char (a div 4), b64_char (a mod 4 * 16 + b div 16), b64_char (b mod 16 * 4), CHR ''='']"
| "b64_encode (a # b # c # r) =
     b64_char (a div 4) # b64_char (a mod 4 * 16 + b div 16) # b64_char (b mod 16 * 4 + c div 64)
       # b64_char (c mod 64) # b64_encode r"

definition btoa :: "string \<Rightarrow> string" where
  "btoa s = b64_encode (map of_char s)"

definition toBase64 :: "bytes \<Rightarrow> string" where
  "toBase64 bs = b64_encode (map unat bs)"

definition from_char_code :: "8 word \<Rightarrow> char" where
  "from_char_code w = char_of (unat w)"

definition char_code_at :: "char \<Rightarrow> 8 word" where
  "char_code_at c = of_nat (of_char c)"

definition encodeBase64 :: "bool \<Rightarrow> bytes \<Rightarrow> string" where
  "encodeBase64 native bs = (if native then toBase64 bs else btoa (map from_char_code bs))"

section \<open>Decoding\<close>

text \<open>Groups of four sextets give three bytes; a last group of two or three gives one or two.\<close>

fun b64_bytes :: "nat list \<Rightarrow> nat list" where
  "b64_bytes (a # b # c # d # r) =
     (a * 4 + b div 16) # (b mod 16 * 16 + c div 4) # (c mod 4 * 64 + d) # b64_bytes r"
| "b64_bytes [a, b, c] = [a * 4 + b div 16, b mod 16 * 16 + c div 4]"
| "b64_bytes [a, b] = [a * 4 + b div 16]"
| "b64_bytes _ = []"

definition is_b64_space :: "char \<Rightarrow> bool" where
  "is_b64_space c \<longleftrightarrow> of_char c \<in> {9::nat, 10, 12, 13, 32}"

definition strip_padding :: "string \<Rightarrow> string" where
  "strip_padding s =
     (if length s mod 4 \<noteq> 0 \<or> s = [] \<or> last s \<noteq> CHR ''='' then s
      else if butlast s \<noteq> [] \<and> last (butlast s) = CHR ''='' then butlast (butlast s) else butlast s)"

definition forgiving_decode :: "string \<Rightarrow> nat list option" where
  "forgiving_decode s =
     (let t = strip_padding s in
      if length t mod 4 = 1 \<or> (\<exists>c \<in> set t. b64_val c = None) then None
      else Some (b64_bytes (map (the \<circ> b64_val) t)))"

definition atob :: "string \<Rightarrow> string option" where
  "atob s = map_option (map char_of) (forgiving_decode (filter (\<lambda>c. \<not> is_b64_space c) s))"

fun from_b64 :: "nat list \<Rightarrow> string \<Rightarrow> nat list option" where
  "from_b64 chunk [] = (if length chunk = 1 then None else Some (b64_bytes chunk))"
| "from_b64 chunk (c # s) =
     (if is_b64_space c then from_b64 chunk s
      else if c = CHR ''='' then
        (if length chunk < 2 then None
         else let s' = dropWhile is_b64_space s in
           if length chunk = 2
           then (case s' of [] \<Rightarrow> None
                 | d # s'' \<Rightarrow> if d = CHR ''='' \<and> dropWhile is_b64_space s'' = [] then Some (b64_bytes chunk) else None)
           else if s' = [] then Some (b64_bytes chunk) else None)
      else (case b64_val c of None \<Rightarrow> None
            | Some v \<Rightarrow> if length chunk = 3 then map_option ((@) (b64_bytes (chunk @ [v]))) (from_b64 [] s)
                        else from_b64 (chunk @ [v]) s))"

definition fromBase64 :: "string \<Rightarrow> bytes option" where
  "fromBase64 s = map_option (map of_nat) (from_b64 [] s)"

definition decodeBase64 :: "bool \<Rightarrow> string \<Rightarrow> bytes option" where
  "decodeBase64 native s = (if native then fromBase64 s else map_option (map char_code_at) (atob s))"

section \<open>UTF-8\<close>

text \<open>\<open>new TextEncoder().encode\<close> on code units below 256, the characters of this model.\<close>

definition utf8_char :: "char \<Rightarrow> bytes" where
  "utf8_char c = (let n = of_char c :: nat in
     if n < 128 then [of_nat n] else [of_nat (192 + n div 64), of_nat (128 + n mod 64)])"

definition text_encode :: "string \<Rightarrow> bytes" where
  "text_encode s = concat (map utf8_char s)"

section \<open>Lemmas\<close>

lemma b64_val_not_pad: "b64_val c = Some v \<Longrightarrow> c \<noteq> CHR ''='' \<and> \<not> is_b64_space c"
  by (auto simp: b64_val_def is_upper_def is_lower_def is_digit_def is_b64_space_def split: if_splits)

lemma b64_val_char:
  assumes "v < 64"
  shows "b64_val (b64_char v) = Some v"
proof -
  consider "v < 26" | "26 \<le> v" "v < 52" | "52 \<le> v" "v < 62" | "v = 62" | "v = 63"
    using assms by linarith
  then show ?thesis
    by cases (auto simp: b64_char_def b64_val_def is_upper_def is_lower_def is_digit_def)
qed

lemma b64_val_char_simps [simp]:
  "v < 64 \<Longrightarrow> b64_val (b64_char v) = Some v"
  "v < 64 \<Longrightarrow> \<not> is_b64_space (b64_char v)"
  "v < 64 \<Longrightarrow> b64_char v \<noteq> CHR ''=''"
  by (simp_all add: b64_val_char b64_val_not_pad[OF b64_val_char])

lemma b64_val_bound: "b64_val c = Some v \<Longrightarrow> v < 64"
  by (auto simp: b64_val_def is_upper_def is_lower_def is_digit_def split: if_splits)

lemma pad_not_space [simp]: "\<not> is_b64_space (CHR ''='')"
  by (simp add: is_b64_space_def)

lemma from_b64_encode:
  "list_all (\<lambda>n. n < 256) ns \<Longrightarrow> from_b64 [] (b64_encode ns) = Some ns"
proof (induction ns rule: b64_encode.induct)
  case (4 a b c r)
  then have bound: "a < 256" "b < 256" "c < 256" by auto
  then have "a div 4 < 64" "a mod 4 * 16 + b div 16 < 64" "b mod 16 * 4 + c div 64 < 64" "c mod 64 < 64"
    by (auto intro: mod_less_divisor)
  moreover have "(a mod 4 * 16 + b div 16) div 16 = a mod 4" "(a mod 4 * 16 + b div 16) mod 16 = b div 16"
     "(b mod 16 * 4 + c div 64) div 4 = b mod 16" "(b mod 16 * 4 + c div 64) mod 4 = c div 64"
    using bound by auto
  ultimately show ?case using 4 by simp
next
  case (3 a b)
  then have bound: "a < 256" "b < 256" by auto
  then have "a div 4 < 64" "a mod 4 * 16 + b div 16 < 64" "b mod 16 * 4 < 64" by auto
  moreover have "(a mod 4 * 16 + b div 16) div 16 = a mod 4" "(a mod 4 * 16 + b div 16) mod 16 = b div 16"
    using bound by auto
  ultimately show ?case by simp
next
  case (2 a)
  then have "a div 4 < 64" "a mod 4 * 16 < 64" by auto
  then show ?case by simp
qed simp

lemma b64_encode_clean: "list_all (\<lambda>n. n < 256) ns \<Longrightarrow> \<forall>c \<in> set (b64_encode ns). \<not> is_b64_space c"
proof (induction ns rule: b64_encode.induct)
  case (4 a b c r)
  then have "a div 4 < 64" "a mod 4 * 16 + b div 16 < 64" "b mod 16 * 4 + c div 64 < 64" "c mod 64 < 64"
    by auto
  with 4 show ?case by simp
next
  case (3 a b)
  then have "a div 4 < 64" "a mod 4 * 16 + b div 16 < 64" "b mod 16 * 4 < 64" by auto
  then show ?case by simp
next
  case (2 a)
  then have "a div 4 < 64" "a mod 4 * 16 < 64" by auto
  then show ?case by simp
qed simp

text \<open>White space may be removed up front.\<close>

lemma dropWhile_filter_Nil: "dropWhile P s = [] \<longleftrightarrow> filter (\<lambda>c. \<not> P c) s = []"
  by (induction s) auto

lemma dropWhile_filter_Cons:
  "dropWhile P s = d # r \<Longrightarrow> filter (\<lambda>c. \<not> P c) s = d # filter (\<lambda>c. \<not> P c) r \<and> \<not> P d"
  by (induction s) (auto split: if_splits)

lemma dropWhile_clean: "\<forall>c \<in> set s. \<not> P c \<Longrightarrow> dropWhile P s = s"
  by (cases s) auto

lemma from_b64_pad:
  assumes "2 \<le> length chunk"
  shows "from_b64 chunk (CHR ''='' # s) = (let t = filter (\<lambda>c. \<not> is_b64_space c) s in
    if length chunk = 2 \<and> t = ''='' \<or> length chunk \<noteq> 2 \<and> t = [] then Some (b64_bytes chunk) else None)"
proof (cases "dropWhile is_b64_space s")
  case Nil
  then have "filter (\<lambda>c. \<not> is_b64_space c) s = []" by (simp add: dropWhile_filter_Nil)
  with Nil assms show ?thesis by (simp del: dropWhile_eq_Nil_conv)
next
  case (Cons d r)
  then have f: "filter (\<lambda>c. \<not> is_b64_space c) s = d # filter (\<lambda>c. \<not> is_b64_space c) r"
    using dropWhile_filter_Cons by fast
  show ?thesis
    unfolding from_b64.simps Let_def Cons f list.case dropWhile_filter_Nil
    using assms by auto
qed

lemma from_b64_filter: "from_b64 chunk s = from_b64 chunk (filter (\<lambda>c. \<not> is_b64_space c) s)"
proof (induction chunk s rule: from_b64.induct)
  case (2 chunk c s)
  let ?f = "filter (\<lambda>c. \<not> is_b64_space c)"
  consider "is_b64_space c" | "c = CHR ''=''" "length chunk < 2" | "c = CHR ''=''" "2 \<le> length chunk"
    | "\<not> is_b64_space c" "c \<noteq> CHR ''=''" by linarith
  then show ?case
  proof cases
    case 3
    then show ?thesis by (simp add: from_b64_pad del: from_b64.simps)
  next
    case 4
    with 2 show ?thesis by (auto split: option.split)
  qed (use 2 in simp_all)
qed simp

text \<open>One group of four letters at a time, both decoders agree.\<close>

lemma length_group: "length (a # b # c # d # r) mod 4 = length r mod 4"
  by simp

lemma strip_padding_group:
  assumes "d \<noteq> CHR ''='' \<or> r \<noteq> []"
  shows "strip_padding (a # b # c # d # r) = a # b # c # d # strip_padding r"
proof -
  have "butlast r \<noteq> []" if "r \<noteq> []" "length r mod 4 = 0"
    using that by (cases r; cases "tl r") auto
  then show ?thesis
    using assms unfolding strip_padding_def length_group by auto
qed

lemma forgiving_group:
  assumes "b64_val a = Some i" "b64_val b = Some j" "b64_val c = Some k" "b64_val d = Some l"
  shows "forgiving_decode (a # b # c # d # r) = map_option ((@) (b64_bytes [i, j, k, l])) (forgiving_decode r)"
proof -
  have "d \<noteq> CHR ''=''" using b64_val_not_pad[OF assms(4)] by simp
  then have strip: "strip_padding (a # b # c # d # r) = a # b # c # d # strip_padding r"
    by (simp add: strip_padding_group)
  show ?thesis
    unfolding forgiving_decode_def Let_def strip length_group using assms by simp
qed

lemma forgiving_bad_group:
  assumes "r \<noteq> []" "b64_val a = None \<or> b64_val b = None \<or> b64_val c = None \<or> b64_val d = None"
  shows "forgiving_decode (a # b # c # d # r) = None"
  using assms by (auto simp: forgiving_decode_def Let_def strip_padding_group)

lemma b64_cases:
  obtains "s = []" | a where "s = [a]" | a b where "s = [a, b]" | a b c where "s = [a, b, c]"
    | a b c d r where "s = a # b # c # d # r"
  by (metis list.exhaust)

lemma b64_val_pad [simp]: "b64_val (CHR ''='') = None"
  by (simp add: b64_val_def is_upper_def is_lower_def is_digit_def)

lemma from_b64_bad_group:
  assumes "r \<noteq> []" "\<forall>x \<in> set (a # b # c # d # r). \<not> is_b64_space x"
    and "b64_val a = None \<or> b64_val b = None \<or> b64_val c = None \<or> b64_val d = None"
  shows "from_b64 [] (a # b # c # d # r) = None"
proof -
  have "dropWhile is_b64_space r = r" by (rule dropWhile_clean) (use assms in simp)
  with assms show ?thesis by (auto simp: Let_def split: option.splits)
qed

lemma from_b64_group:
  assumes "b64_val a = Some i" "b64_val b = Some j" "b64_val c = Some k" "b64_val d = Some l"
  shows "from_b64 [] (a # b # c # d # r) = map_option ((@) (b64_bytes [i, j, k, l])) (from_b64 [] r)"
  using assms assms[THEN b64_val_not_pad] by simp

lemma decoders_agree_short:
  assumes "length s \<le> 4" "\<forall>x \<in> set s. \<not> is_b64_space x"
  shows "from_b64 [] s = forgiving_decode s"
proof -
  consider "s = []" | a where "s = [a]" | a b where "s = [a, b]" | a b c where "s = [a, b, c]"
    | a b c d where "s = [a, b, c, d]"
    using assms(1) by (cases s rule: b64_cases) auto
  then show ?thesis
    using assms(2) by cases (auto simp: forgiving_decode_def strip_padding_def split: option.splits)
qed

lemma decoders_agree: "\<forall>x \<in> set s. \<not> is_b64_space x \<Longrightarrow> from_b64 [] s = forgiving_decode s"
proof (induction "length s" arbitrary: s rule: less_induct)
  case less
  show ?case
  proof (cases "length s \<le> 4")
    case False
    then obtain a b c d r where s: "s = a # b # c # d # r" "r \<noteq> []"
      by (cases s rule: b64_cases) auto
    show ?thesis
    proof (cases "b64_val a = None \<or> b64_val b = None \<or> b64_val c = None \<or> b64_val d = None")
      case True
      with less.prems s show ?thesis
        by (simp only: forgiving_bad_group from_b64_bad_group simp_thms)
    next
      case good: False
      have "from_b64 [] r = forgiving_decode r" by (rule less.hyps) (use s less.prems in auto)
      with good show ?thesis by (auto simp only: s(1) from_b64_group forgiving_group not_None_eq de_Morgan_disj)
    qed
  qed (use less.prems decoders_agree_short in blast)
qed

lemma of_nat_byte: "(of_nat (n mod 256) :: 8 word) = of_nat n"
  by transfer (simp add: take_bit_eq_mod zmod_int)

lemma unat_byte: "unat (w :: 8 word) < 256"
  using unsigned_less[of w] by simp

lemma branches_agree: "decodeBase64 True s = decodeBase64 False s"
proof -
  have "from_b64 [] s = forgiving_decode (filter (\<lambda>c. \<not> is_b64_space c) s)"
    by (subst from_b64_filter) (rule decoders_agree, simp)
  then show ?thesis
    by (simp add: decodeBase64_def fromBase64_def atob_def option.map_comp comp_def char_code_at_def of_nat_byte)
qed

lemma encoded_bytes: "decodeBase64 True (encodeBase64 native bs) = Some bs"
proof -
  have enc: "encodeBase64 native bs = b64_encode (map unat bs)"
    by (auto simp: encodeBase64_def toBase64_def btoa_def from_char_code_def comp_def unat_byte)
  have "list_all (\<lambda>n. n < 256) (map unat bs)"
    by (simp add: list_all_iff unat_byte)
  then show ?thesis
    by (simp add: enc decodeBase64_def fromBase64_def from_b64_encode comp_def)
qed

section \<open>Properties\<close>

text \<open>
  The two branches of \<open>decodeBase64\<close> agree on every input, malformed ones included: with
  or without \<open>Uint8Array.fromBase64\<close> the same text gives the same bytes or is refused.
\<close>

theorem decode_branches_agree: "decodeBase64 native s = decodeBase64 native' s"
  by (cases native; cases native') (simp_all add: branches_agree)

text \<open>
  Bytes survive \<open>encodeBase64\<close> followed by \<open>decodeBase64\<close>, whichever of the two engines'
  implementations encodes and whichever decodes.
\<close>

theorem base64_roundtrip: "decodeBase64 native' (encodeBase64 native bs) = Some bs"
  by (cases native') (simp_all add: encoded_bytes branches_agree[symmetric])

end
