(* ===== verification/Wisphive_Hook.thy ===== *)
theory Wisphive_Hook
  imports Wisphive_State Protocol_Parse Base64
begin

text \<open>
  The hook \<open>useWisphive\<close> around its state: the refs, the queue of functional updates given
  to \<open>setState\<close> and not yet run, the socket the commands go to, and every command. React
  decides when the queued updates run (\<open>render\<close>), may run each of them twice (StrictMode)
  and runs the effects after the commit, so these are separate operations that the step
  relation of \<open>Wisphive_Connection\<close> interleaves with the events. What leaves the hook (frames
  sent, terminal output, notifications, dials) is appended to a log.
\<close>

section \<open>The hook's record\<close>

record approve_stash =
  as_toolName :: string
  as_opts :: "approve_opts option"

datatype term_channel = Ch_chunk | Ch_catchup | Ch_replay_chunk

text \<open>A registration object: its identity, the handler (by number) and the replay flag.\<close>

record registration =
  rg_object :: nat
  rg_handler :: nat
  rg_replayMode :: bool

datatype ready_state = CONNECTING | OPEN | CLOSING | CLOSED

record socket =
  sk_url :: string
  sk_ready :: ready_state
  sk_onclose :: bool

datatype effect =
    Sent nat outbound_command
  | Output nat string term_channel bytes
  | Notified string string

text \<open>The functional updates the hook gives to \<open>setState\<close>.\<close>

datatype updater =
    U_message string server_message
  | U_disconnected
  | U_error error_source string string
  | U_dismissReauth
  | U_retryPendingApprove
  | U_spawn bool string
  | U_clearSpawn
  | U_dismissError int

record hook =
  h_state :: wisphive_state
  h_updates :: "updater list"
  h_queueRef :: "decision_request list"
  h_approveStash :: "(string, approve_stash) jmap"
  h_pendingReauths :: "(string, pending_reauth) jmap"
  h_installStash :: "string set"
  h_handlers :: "(string, registration) jmap"
  h_nextObject :: nat
  h_title :: string
  h_sockets :: "socket list"
  h_wsRef :: "nat option"
  h_wsEverOpened :: bool
  h_timers :: "nat set"
  h_reconnectTimer :: "nat option"
  h_nextTimer :: nat
  h_probes :: "nat set"
  h_authProbe :: "nat option"
  h_nextProbe :: nat
  h_token :: "string option"
  h_wsBase :: string
  h_log :: "effect list"

text \<open>What the browser tells the message handler.\<close>

record browser =
  br_hidden :: bool
  br_notifications :: bool
  br_nativeBase64 :: bool

definition initial_hook :: "string \<Rightarrow> string option \<Rightarrow> hook" where
  "initial_hook base token = \<lparr>h_state = initial_state, h_updates = [], h_queueRef = [], h_approveStash = [],
     h_pendingReauths = [], h_installStash = {}, h_handlers = [], h_nextObject = 0, h_title = ''Wisphive'',
     h_sockets = [], h_wsRef = None, h_wsEverOpened = False, h_timers = {}, h_reconnectTimer = None,
     h_nextTimer = 0, h_probes = {}, h_authProbe = None, h_nextProbe = 0, h_token = token,
     h_wsBase = base, h_log = []\<rparr>"

definition setState :: "updater \<Rightarrow> hook \<Rightarrow> hook" where
  "setState u h = h\<lparr>h_updates := h_updates h @ [u]\<rparr>"

definition emit :: "effect \<Rightarrow> hook \<Rightarrow> hook" where
  "emit e h = h\<lparr>h_log := h_log h @ [e]\<rparr>"

text \<open>\<open>wsRef.current\<close> when its \<open>readyState\<close> is OPEN.\<close>

definition open_socket :: "hook \<Rightarrow> nat option" where
  "open_socket h = (case h_wsRef h of None \<Rightarrow> None
     | Some i \<Rightarrow> if i < length (h_sockets h) \<and> sk_ready (h_sockets h ! i) = OPEN then Some i else None)"

section \<open>Sending\<close>

fun client_type :: "client_message \<Rightarrow> string" where
  "client_type (Cm_approve i ao) = ''approve''"
| "client_type (Cm_deny i m) = ''deny''"
| "client_type (Cm_approve_all f c) = ''approve_all''"
| "client_type (Cm_deny_all f) = ''deny_all''"
| "client_type (Cm_query_history a l r) = ''query_history''"
| "client_type Cm_query_sessions = ''query_sessions''"
| "client_type Cm_query_projects = ''query_projects''"
| "client_type Cm_query_worktrees = ''query_worktrees''"
| "client_type Cm_query_burn = ''query_burn''"
| "client_type (Cm_install_hooks p) = ''install_hooks''"
| "client_type (Cm_query_project_hook_status p) = ''query_project_hook_status''"
| "client_type Cm_reimport_events = ''reimport_events''"
| "client_type Cm_list_agents = ''list_agents''"
| "client_type (Cm_spawn_agent r) = ''spawn_agent''"
| "client_type (Cm_search_history q t a l r) = ''search_history''"
| "client_type (Cm_term_create tc) = ''term_create''"
| "client_type (Cm_term_attach i) = ''term_attach''"
| "client_type (Cm_term_detach i) = ''term_detach''"
| "client_type (Cm_term_input i d) = ''term_input''"
| "client_type (Cm_term_resize i c r) = ''term_resize''"
| "client_type (Cm_term_close i) = ''term_close''"
| "client_type Cm_term_list = ''term_list''"
| "client_type (Cm_term_replay i f s) = ''term_replay''"
| "client_type (Cm_term_set_group i g) = ''term_set_group''"
| "client_type (Cm_term_reorder i s) = ''term_reorder''"
| "client_type (Cm_term_set_pinned i p) = ''term_set_pinned''"

definition plain :: "client_message \<Rightarrow> outbound_command" where
  "plain m = \<lparr>oc_message = m, oc_correlation_id = None\<rparr>"

definition not_sent :: "client_message \<Rightarrow> string" where
  "not_sent m = ''Not connected to the daemon '' @ em_dash @ '' \"'' @ client_type m @ ''\" was not sent.''"

definition send :: "string \<Rightarrow> outbound_command \<Rightarrow> bool \<Rightarrow> hook \<Rightarrow> hook \<times> bool" where
  "send now msg quiet h =
     (case open_socket h of
        Some i \<Rightarrow> (emit (Sent i msg) h, True)
      | None \<Rightarrow> (if quiet then h else setState (U_error Src_client (not_sent (oc_message msg)) now) h, False))"

abbreviation send_plain :: "string \<Rightarrow> client_message \<Rightarrow> hook \<Rightarrow> hook" where
  "send_plain now m h \<equiv> fst (send now (plain m) False h)"

definition no_opts :: approve_opts where
  "no_opts = \<lparr>ao_message = None, ao_updated_input = None, ao_always_allow = None, ao_additional_context = None\<rparr>"

text \<open>\<open>{ type: "approve", id, ...opts }\<close>.\<close>

definition approve_message :: "string \<Rightarrow> approve_opts option \<Rightarrow> client_message" where
  "approve_message rid opts = Cm_approve rid (case opts of Some ao \<Rightarrow> ao | None \<Rightarrow> no_opts)"

definition approve :: "string \<Rightarrow> string \<Rightarrow> approve_opts option \<Rightarrow> hook \<Rightarrow> hook" where
  "approve now rid opts h =
     (let toolName = (case find (\<lambda>r. dr_id r = rid) (h_queueRef h) of Some r \<Rightarrow> dr_tool_name r | None \<Rightarrow> []) in
      send_plain now (approve_message rid opts)
        (h\<lparr>h_approveStash := AList.update rid \<lparr>as_toolName = toolName, as_opts = opts\<rparr> (h_approveStash h)\<rparr>))"

definition deny :: "string \<Rightarrow> string \<Rightarrow> string option \<Rightarrow> hook \<Rightarrow> hook" where
  "deny now rid message h = send_plain now (Cm_deny rid message) h"

definition queryHistory :: "string \<Rightarrow> string option \<Rightarrow> hook \<Rightarrow> hook" where
  "queryHistory now agentId h = send_plain now (Cm_query_history agentId (Some 200) (Some CHANNEL_HISTORY)) h"

definition queryAgentTimeline :: "string \<Rightarrow> string \<Rightarrow> hook \<Rightarrow> hook" where
  "queryAgentTimeline now agentId h =
     send_plain now (Cm_query_history (Some agentId) (Some 200) (Some CHANNEL_AGENT)) h"

definition querySessionTimeline :: "string \<Rightarrow> string \<Rightarrow> hook \<Rightarrow> hook" where
  "querySessionTimeline now agentId h =
     send_plain now (Cm_query_history (Some agentId) (Some 200) (Some CHANNEL_SESSION)) h"

definition querySessions :: "string \<Rightarrow> hook \<Rightarrow> hook" where
  "querySessions now h = send_plain now Cm_query_sessions h"

definition queryProjects :: "string \<Rightarrow> hook \<Rightarrow> hook" where
  "queryProjects now h = send_plain now Cm_query_projects h"

definition queryManagedAgents :: "string \<Rightarrow> hook \<Rightarrow> hook" where
  "queryManagedAgents now h = fst (send now (plain Cm_list_agents) True h)"

definition queryWorktrees :: "string \<Rightarrow> hook \<Rightarrow> hook" where
  "queryWorktrees now h = send_plain now Cm_query_worktrees h"

definition queryBurn :: "string \<Rightarrow> hook \<Rightarrow> hook" where
  "queryBurn now h = send_plain now Cm_query_burn h"

definition installHooks :: "string \<Rightarrow> string \<Rightarrow> hook \<Rightarrow> hook" where
  "installHooks now project h =
     send_plain now (Cm_install_hooks project) (h\<lparr>h_installStash := insert project (h_installStash h)\<rparr>)"

definition queryProjectHookStatus :: "string \<Rightarrow> string \<Rightarrow> hook \<Rightarrow> hook" where
  "queryProjectHookStatus now project h = send_plain now (Cm_query_project_hook_status project) h"

definition searchHistory :: "string \<Rightarrow> string \<Rightarrow> string option \<Rightarrow> hook \<Rightarrow> hook" where
  "searchHistory now query requestId h =
     send_plain now (Cm_search_history (Some query) None None (Some 200)
       (Some (case requestId of Some r \<Rightarrow> r | None \<Rightarrow> CHANNEL_HISTORY))) h"

text \<open>\<open>crypto.randomUUID()\<close> when the browser has it, else the clock and a random number.\<close>

definition newSpawnCorrelationId :: "string option \<Rightarrow> int \<Rightarrow> int \<Rightarrow> string" where
  "newSpawnCorrelationId randomUUID dateNow random =
     ''spawn-'' @ (case randomUUID of Some u \<Rightarrow> u | None \<Rightarrow> show_int dateNow @ ''-'' @ show_int random)"

definition spawnAgent :: "string \<Rightarrow> string \<Rightarrow> spawn_agent_request \<Rightarrow> hook \<Rightarrow> hook" where
  "spawnAgent now corr req h =
     (let (h', sent) = send now \<lparr>oc_message = Cm_spawn_agent req, oc_correlation_id = Some corr\<rparr> True h
      in setState (U_spawn sent corr) h')"

definition clearSpawnStatus :: "hook \<Rightarrow> hook" where
  "clearSpawnStatus h = setState U_clearSpawn h"

definition dismissError :: "int \<Rightarrow> hook \<Rightarrow> hook" where
  "dismissError i h = setState (U_dismissError i) h"

definition dismissReauth :: "hook \<Rightarrow> hook" where
  "dismissReauth h = setState U_dismissReauth h"

definition retryPendingApprove :: "hook \<Rightarrow> hook" where
  "retryPendingApprove h = setState U_retryPendingApprove h"

definition termList :: "string \<Rightarrow> hook \<Rightarrow> hook" where
  "termList now h = send_plain now Cm_term_list h"

definition termCreate :: "string \<Rightarrow> term_create_opts \<Rightarrow> hook \<Rightarrow> hook" where
  "termCreate now tco h = send_plain now (Cm_term_create tco) h"

definition termAttach :: "string \<Rightarrow> string \<Rightarrow> hook \<Rightarrow> hook" where
  "termAttach now i h = send_plain now (Cm_term_attach i) h"

definition termDetach :: "string \<Rightarrow> string \<Rightarrow> hook \<Rightarrow> hook" where
  "termDetach now i h = send_plain now (Cm_term_detach i) h"

definition termInput :: "bool \<Rightarrow> string \<Rightarrow> string \<Rightarrow> string \<Rightarrow> hook \<Rightarrow> hook" where
  "termInput native now i text h = send_plain now (Cm_term_input i (encodeBase64 native (text_encode text))) h"

definition termResize :: "string \<Rightarrow> string \<Rightarrow> int \<Rightarrow> int \<Rightarrow> hook \<Rightarrow> hook" where
  "termResize now i cols rows h = send_plain now (Cm_term_resize i cols rows) h"

definition termClose :: "string \<Rightarrow> string \<Rightarrow> hook \<Rightarrow> hook" where
  "termClose now i h = send_plain now (Cm_term_close i) h"

definition termReplay :: "string \<Rightarrow> string \<Rightarrow> int option \<Rightarrow> hook \<Rightarrow> hook" where
  "termReplay now i fromSeq h = send_plain now (Cm_term_replay i fromSeq None) h"

definition termSetGroup :: "string \<Rightarrow> string \<Rightarrow> string option \<Rightarrow> hook \<Rightarrow> hook" where
  "termSetGroup now i grp h = send_plain now (Cm_term_set_group i grp) h"

definition termReorder :: "string \<Rightarrow> string \<Rightarrow> int \<Rightarrow> hook \<Rightarrow> hook" where
  "termReorder now i sortOrder h = send_plain now (Cm_term_reorder i sortOrder) h"

definition termSetPinned :: "string \<Rightarrow> string \<Rightarrow> bool \<Rightarrow> hook \<Rightarrow> hook" where
  "termSetPinned now i pinned h = send_plain now (Cm_term_set_pinned i pinned) h"

section \<open>Terminal handlers\<close>

definition registerTerminalHandler :: "string \<Rightarrow> nat \<Rightarrow> bool option \<Rightarrow> hook \<Rightarrow> hook" where
  "registerTerminalHandler tid handler replayMode h =
     h\<lparr>h_handlers := AList.update tid \<lparr>rg_object = h_nextObject h, rg_handler = handler,
          rg_replayMode = (replayMode = Some True)\<rparr> (h_handlers h),
       h_nextObject := Suc (h_nextObject h)\<rparr>"

text \<open>The cleanup function returned for the registration with identity \<open>obj\<close>.\<close>

definition unregisterTerminalHandler :: "string \<Rightarrow> nat \<Rightarrow> hook \<Rightarrow> hook" where
  "unregisterTerminalHandler tid obj h =
     (case map_of (h_handlers h) tid of
        Some r \<Rightarrow> if rg_object r = obj then h\<lparr>h_handlers := AList.delete tid (h_handlers h)\<rparr> else h
      | None \<Rightarrow> h)"

definition deliver :: "browser \<Rightarrow> string \<Rightarrow> term_channel \<Rightarrow> string \<Rightarrow> bool \<Rightarrow> hook \<Rightarrow> hook" where
  "deliver br tid channel text replay h =
     (case map_of (h_handlers h) tid of
        None \<Rightarrow> h
      | Some r \<Rightarrow>
          if rg_replayMode r \<noteq> replay then h
          else (case decodeBase64 (br_nativeBase64 br) text of
                  None \<Rightarrow> h
                | Some bs \<Rightarrow> emit (Output (rg_handler r) tid channel bs) h))"

section \<open>Server messages\<close>

definition note_gate :: "server_message \<Rightarrow> hook \<Rightarrow> hook" where
  "note_gate m h = (case m of
       Sm_web_reauth_required dev rid tool at' \<Rightarrow>
         h\<lparr>h_pendingReauths := AList.update rid \<lparr>pa_request_id = rid, pa_tool_name = tool\<rparr> (h_pendingReauths h)\<rparr>
     | _ \<Rightarrow> h)"

definition notify_decision :: "browser \<Rightarrow> server_message \<Rightarrow> hook \<Rightarrow> hook" where
  "notify_decision br m h = (case m of
       Sm_new_decision req \<Rightarrow>
         if br_hidden br \<and> br_notifications br
         then emit (Notified (''Wisphive: '' @ dr_tool_name req)
                (Js_Runtime.slice (dr_agent_id req) 0 20 @ '' needs a decision'')) h
         else h
     | _ \<Rightarrow> h)"

definition drop_stash :: "server_message \<Rightarrow> hook \<Rightarrow> hook" where
  "drop_stash m h = (case m of
       Sm_decision_resolved rid d \<Rightarrow> h\<lparr>h_approveStash := AList.delete rid (h_approveStash h)\<rparr>
     | _ \<Rightarrow> h)"

definition receive :: "browser \<Rightarrow> string \<Rightarrow> server_message \<Rightarrow> hook \<Rightarrow> hook" where
  "receive br now m h0 =
     (let h = note_gate m h0 in
      case m of
        Sm_term_chunk tid sq us dir text \<Rightarrow> if dir = TD_output then deliver br tid Ch_chunk text False h else h
      | Sm_term_catchup tid cols rows nxt screen \<Rightarrow> deliver br tid Ch_catchup screen False h
      | Sm_term_replay_chunk tid sq us dir text \<Rightarrow>
          if dir = TD_output then deliver br tid Ch_replay_chunk text True h else h
      | _ \<Rightarrow> setState (U_message now m) (drop_stash m (notify_decision br m h)))"

definition handleMessage :: "browser \<Rightarrow> string \<Rightarrow> json option \<Rightarrow> hook \<Rightarrow> hook" where
  "handleMessage br now d h = (case parseServerMessage d of Inl e \<Rightarrow> h | Inr m \<Rightarrow> receive br now m h)"

section \<open>Running the queued updates\<close>

definition gated :: "hook \<Rightarrow> pending_reauth list" where
  "gated h = (case map snd (h_pendingReauths h) of
       [] \<Rightarrow> (case pendingReauth (h_state h) of Some p \<Rightarrow> [p] | None \<Rightarrow> [])
     | ps \<Rightarrow> ps)"

definition forget :: "pending_reauth \<Rightarrow> hook \<Rightarrow> hook" where
  "forget p h = h\<lparr>h_approveStash := AList.delete (pa_request_id p) (h_approveStash h),
     h_installStash := h_installStash h - {pa_request_id p}\<rparr>"

text \<open>One turn of the loop of \<open>retryPendingApprove\<close>; \<open>que\<close> is \<open>prev.queue\<close>.\<close>

definition replay :: "string \<Rightarrow> decision_request list \<Rightarrow> pending_reauth \<Rightarrow> hook \<Rightarrow> hook" where
  "replay now que p h =
     (let rid = pa_request_id p in
      if pa_tool_name p = ''InstallHooks''
      then (if rid \<in> h_installStash h
            then send_plain now (Cm_install_hooks rid) (h\<lparr>h_installStash := h_installStash h - {rid}\<rparr>)
            else h)
      else
        (let h' = h\<lparr>h_approveStash := AList.delete rid (h_approveStash h)\<rparr> in
         case map_of (h_approveStash h) rid of
           Some s \<Rightarrow> if as_toolName s = pa_tool_name p \<and> (\<exists>r \<in> set que. dr_id r = rid)
                     then send_plain now (approve_message rid (as_opts s)) h' else h'
         | None \<Rightarrow> h'))"

definition update_state :: "(wisphive_state \<Rightarrow> wisphive_state) \<Rightarrow> hook \<Rightarrow> hook" where
  "update_state f h = h\<lparr>h_state := f (h_state h)\<rparr>"

definition drop_install :: "server_message \<Rightarrow> hook \<Rightarrow> hook" where
  "drop_install m h = (case m of
       Sm_install_hooks_result project status err \<Rightarrow> h\<lparr>h_installStash := h_installStash h - {project}\<rparr>
     | _ \<Rightarrow> h)"

fun run_update :: "string \<Rightarrow> updater \<Rightarrow> hook \<Rightarrow> hook" where
  "run_update now (U_message at' m) h = update_state (reduce at' m) (drop_install m h)"
| "run_update now U_disconnected h = update_state (\<lambda>s. s\<lparr>connected := False\<rparr>) h"
| "run_update now (U_error src message at') h = update_state (push_error src message at') h"
| "run_update now U_dismissReauth h =
     update_state (\<lambda>s. s\<lparr>pendingReauth := None\<rparr>) (fold forget (gated h) (h\<lparr>h_pendingReauths := []\<rparr>))"
| "run_update now U_retryPendingApprove h =
     update_state (\<lambda>s. s\<lparr>pendingReauth := None\<rparr>)
       (fold (replay now (queue (h_state h))) (gated h) (h\<lparr>h_pendingReauths := []\<rparr>))"
| "run_update now (U_spawn sent corr) h =
     update_state (\<lambda>s. s\<lparr>spawn := Some (if sent then Spawn_pending corr
        else Spawn_refused corr (''Not connected to the daemon '' @ em_dash @ '' the spawn request was not sent.''))\<rparr>) h"
| "run_update now U_clearSpawn h = update_state (\<lambda>s. if spawn s \<noteq> None then s\<lparr>spawn := None\<rparr> else s) h"
| "run_update now (U_dismissError i) h =
     update_state (\<lambda>s. s\<lparr>errors := filter (\<lambda>e. ue_id e \<noteq> i) (errors s)\<rparr>) h"

text \<open>StrictMode calls an updater twice on the same previous state and keeps the second result.\<close>

definition run_update_mode :: "bool \<Rightarrow> string \<Rightarrow> updater \<Rightarrow> hook \<Rightarrow> hook" where
  "run_update_mode strict now u h =
     (if strict then run_update now u ((run_update now u h)\<lparr>h_state := h_state h\<rparr>) else run_update now u h)"

definition render :: "bool \<Rightarrow> string \<Rightarrow> hook \<Rightarrow> hook" where
  "render strict now h = fold (run_update_mode strict now) (h_updates h) (h\<lparr>h_updates := []\<rparr>)"

text \<open>The two effects that follow the committed queue.\<close>

definition document_title :: "decision_request list \<Rightarrow> string" where
  "document_title que = (if que \<noteq> [] then ''('' @ show_nat (length que) @ '') Wisphive'' else ''Wisphive'')"

definition run_effects :: "hook \<Rightarrow> hook" where
  "run_effects h = h\<lparr>h_title := document_title (queue (h_state h)), h_queueRef := queue (h_state h)\<rparr>"

end
