(* ===== verification/Wisphive_Connection.thy ===== *)
theory Wisphive_Connection
  imports Wisphive_Hook
begin

text \<open>
  The connection life cycle of \<open>useWisphive\<close> and the hook as a transition system: dialling,
  the socket's callbacks, the reconnect timer, the probe of \<open>/api/me\<close> after an abnormal
  close, the reaction to a token change (\<open>api.ts\<close>), the teardown, and one event per entry
  point of the hook. Timers and probes carry numbers; a timer that was overwritten in the
  ref without being cleared stays armed, as it does in the browser.
\<close>

section \<open>The token slot\<close>

definition getWebToken :: "hook \<Rightarrow> string option" where
  "getWebToken h = h_token h"

definition has_token :: "hook \<Rightarrow> bool" where
  "has_token h \<longleftrightarrow> (case getWebToken h of Some t \<Rightarrow> t \<noteq> [] | None \<Rightarrow> False)"

section \<open>Dialling\<close>

definition hex_digit :: "nat \<Rightarrow> char" where
  "hex_digit n = (if n < 10 then char_of (48 + n) else char_of (55 + n))"

definition uri_unreserved :: "char \<Rightarrow> bool" where
  "uri_unreserved c \<longleftrightarrow> is_upper c \<or> is_lower c \<or> is_digit c \<or> c \<in> set ''-_.!~*''
     \<or> of_char c \<in> {39::nat, 40, 41}"

definition percent_byte :: "8 word \<Rightarrow> string" where
  "percent_byte b = [CHR ''%'', hex_digit (unat b div 16), hex_digit (unat b mod 16)]"

definition encodeURIComponent :: "string \<Rightarrow> string" where
  "encodeURIComponent s =
     concat (map (\<lambda>c. if uri_unreserved c then [c] else concat (map percent_byte (utf8_char c))) s)"

text \<open>\<open>WS_BASE\<close> from the environment's override and the page's location.\<close>

definition ws_base :: "string option \<Rightarrow> string \<Rightarrow> string \<Rightarrow> string" where
  "ws_base wsUrl protocol host =
     (let page = (if protocol = ''https:'' then ''wss:'' else ''ws:'') @ ''//'' @ host @ ''/ws'' in
      case wsUrl of Some u \<Rightarrow> if u \<noteq> [] then u else page | None \<Rightarrow> page)"

definition ws_url :: "string \<Rightarrow> string \<Rightarrow> string" where
  "ws_url base tok =
     base @ (if CHR ''?'' \<in> set base then ''&'' else ''?'') @ ''token='' @ encodeURIComponent tok"

definition connect :: "hook \<Rightarrow> hook" where
  "connect h =
     (if open_socket h \<noteq> None then h
      else case getWebToken h of
        None \<Rightarrow> setState U_disconnected h
      | Some tok \<Rightarrow>
          if tok = [] then setState U_disconnected h
          else h\<lparr>h_wsEverOpened := False,
                 h_sockets := h_sockets h @ [\<lparr>sk_url = ws_url (h_wsBase h) tok, sk_ready = CONNECTING, sk_onclose = True\<rparr>],
                 h_wsRef := Some (length (h_sockets h))\<rparr>)"

definition set_ready :: "nat \<Rightarrow> ready_state \<Rightarrow> hook \<Rightarrow> hook" where
  "set_ready i r h = h\<lparr>h_sockets := (h_sockets h)[i := (h_sockets h ! i)\<lparr>sk_ready := r\<rparr>]\<rparr>"

section \<open>Tearing down\<close>

definition clear_timer :: "hook \<Rightarrow> hook" where
  "clear_timer h = (case h_reconnectTimer h of Some t \<Rightarrow> h\<lparr>h_timers := h_timers h - {t}\<rparr> | None \<Rightarrow> h)"

definition abort_probe :: "hook \<Rightarrow> hook" where
  "abort_probe h = (case h_authProbe h of
     Some p \<Rightarrow> h\<lparr>h_probes := h_probes h - {p}, h_authProbe := None\<rparr> | None \<Rightarrow> h\<lparr>h_authProbe := None\<rparr>)"

text \<open>\<open>onclose = null; close()\<close> on \<open>wsRef.current\<close>, when there is one.\<close>

definition close_socket :: "socket \<Rightarrow> socket" where
  "close_socket s = s\<lparr>sk_onclose := False, sk_ready := (if sk_ready s = CLOSED then CLOSED else CLOSING)\<rparr>"

definition drop_socket :: "hook \<Rightarrow> hook" where
  "drop_socket h = (case h_wsRef h of
     Some i \<Rightarrow> h\<lparr>h_sockets := (h_sockets h)[i := close_socket (h_sockets h ! i)]\<rparr> | None \<Rightarrow> h)"

definition unmount :: "hook \<Rightarrow> hook" where
  "unmount h = drop_socket (abort_probe (clear_timer h))"

text \<open>The listener given to \<open>subscribeAuthChange\<close>.\<close>

definition auth_changed :: "hook \<Rightarrow> hook" where
  "auth_changed h =
     (if has_token h \<and> open_socket h = None then connect (clear_timer h)
      else if \<not> has_token h then (drop_socket (abort_probe (clear_timer h)))\<lparr>h_wsRef := None\<rparr>
      else h)"

definition setWebToken :: "string \<Rightarrow> hook \<Rightarrow> hook" where
  "setWebToken tok h = auth_changed (h\<lparr>h_token := Some tok\<rparr>)"

definition clearWebToken :: "hook \<Rightarrow> hook" where
  "clearWebToken h = auth_changed (h\<lparr>h_token := None\<rparr>)"

section \<open>Socket callbacks, timer and probe\<close>

definition onopen :: "nat \<Rightarrow> hook \<Rightarrow> hook" where
  "onopen i h = (set_ready i OPEN h)\<lparr>h_wsEverOpened := True\<rparr>"

definition start_probe :: "hook \<Rightarrow> hook" where
  "start_probe h = (let h' = abort_probe h in
     h'\<lparr>h_probes := insert (h_nextProbe h') (h_probes h'), h_authProbe := Some (h_nextProbe h'),
        h_nextProbe := Suc (h_nextProbe h')\<rparr>)"

definition arm_timer :: "hook \<Rightarrow> hook" where
  "arm_timer h = h\<lparr>h_timers := insert (h_nextTimer h) (h_timers h), h_reconnectTimer := Some (h_nextTimer h),
     h_nextTimer := Suc (h_nextTimer h)\<rparr>"

definition auth_close_codes :: "nat set" where
  "auth_close_codes = {1008, 4401, 4403}"

definition onclose :: "nat \<Rightarrow> nat \<Rightarrow> hook \<Rightarrow> hook" where
  "onclose i code h0 =
     (let h1 = set_ready i CLOSED h0 in
      if \<not> sk_onclose (h_sockets h0 ! i) then h1
      else let h2 = setState U_disconnected h1 in
        if code \<in> auth_close_codes then clearWebToken h2
        else arm_timer (if code = 1006 \<and> \<not> h_wsEverOpened h2 \<and> has_token h2 then start_probe h2 else h2))"

text \<open>The timer's callback is \<open>connect\<close>.\<close>

definition fire_timer :: "nat \<Rightarrow> hook \<Rightarrow> hook" where
  "fire_timer t h = connect (h\<lparr>h_timers := h_timers h - {t}\<rparr>)"

text \<open>
  The probe settles: \<open>apiFetch\<close> clears the token on 401 and 403 (a token was sent, the probe
  is started only with one); then the ref is released if it still holds this probe. \<open>None\<close>
  is a network error.
\<close>

definition settle_probe :: "nat \<Rightarrow> nat option \<Rightarrow> hook \<Rightarrow> hook" where
  "settle_probe p status h0 =
     (let h1 = h0\<lparr>h_probes := h_probes h0 - {p}\<rparr>;
          h2 = (if status = Some 401 \<or> status = Some 403 then clearWebToken h1 else h1)
      in if h_authProbe h2 = Some p then h2\<lparr>h_authProbe := None\<rparr> else h2)"

section \<open>Events and steps\<close>

datatype user_command =
    Do_deny string "string option" | Do_queryHistory "string option" | Do_queryAgentTimeline string
  | Do_querySessionTimeline string | Do_querySessions | Do_queryProjects | Do_queryManagedAgents
  | Do_queryWorktrees | Do_queryBurn | Do_queryProjectHookStatus string
  | Do_searchHistory string "string option" | Do_termList | Do_termCreate term_create_opts
  | Do_termAttach string | Do_termDetach string | Do_termInput bool string string
  | Do_termResize string int int | Do_termClose string | Do_termReplay string "int option"
  | Do_termSetGroup string "string option" | Do_termReorder string int | Do_termSetPinned string bool

fun run_command :: "string \<Rightarrow> user_command \<Rightarrow> hook \<Rightarrow> hook" where
  "run_command now (Do_deny i m) h = deny now i m h"
| "run_command now (Do_queryHistory a) h = queryHistory now a h"
| "run_command now (Do_queryAgentTimeline a) h = queryAgentTimeline now a h"
| "run_command now (Do_querySessionTimeline a) h = querySessionTimeline now a h"
| "run_command now Do_querySessions h = querySessions now h"
| "run_command now Do_queryProjects h = queryProjects now h"
| "run_command now Do_queryManagedAgents h = queryManagedAgents now h"
| "run_command now Do_queryWorktrees h = queryWorktrees now h"
| "run_command now Do_queryBurn h = queryBurn now h"
| "run_command now (Do_queryProjectHookStatus p) h = queryProjectHookStatus now p h"
| "run_command now (Do_searchHistory q r) h = searchHistory now q r h"
| "run_command now Do_termList h = termList now h"
| "run_command now (Do_termCreate tco) h = termCreate now tco h"
| "run_command now (Do_termAttach i) h = termAttach now i h"
| "run_command now (Do_termDetach i) h = termDetach now i h"
| "run_command now (Do_termInput n i d) h = termInput n now i d h"
| "run_command now (Do_termResize i c r) h = termResize now i c r h"
| "run_command now (Do_termClose i) h = termClose now i h"
| "run_command now (Do_termReplay i f) h = termReplay now i f h"
| "run_command now (Do_termSetGroup i g) h = termSetGroup now i g h"
| "run_command now (Do_termReorder i s) h = termReorder now i s h"
| "run_command now (Do_termSetPinned i p) h = termSetPinned now i p h"

datatype event =
    Ev_mount
  | Ev_message browser "json option"
  | Ev_render bool
  | Ev_effects
  | Ev_command user_command
  | Ev_approve string "approve_opts option"
  | Ev_installHooks string
  | Ev_spawnAgent string spawn_agent_request
  | Ev_clearSpawnStatus
  | Ev_dismissError int
  | Ev_dismissReauth
  | Ev_retryPendingApprove
  | Ev_register string nat "bool option"
  | Ev_unregister string nat
  | Ev_open nat
  | Ev_close nat nat
  | Ev_timer nat
  | Ev_probe nat "nat option"
  | Ev_setWebToken string
  | Ev_clearWebToken

fun step :: "string \<Rightarrow> event \<Rightarrow> hook \<Rightarrow> hook" where
  "step now Ev_mount h = connect h"
| "step now (Ev_message br d) h = handleMessage br now d h"
| "step now (Ev_render strict) h = render strict now h"
| "step now Ev_effects h = run_effects h"
| "step now (Ev_command c) h = run_command now c h"
| "step now (Ev_approve i opts) h = approve now i opts h"
| "step now (Ev_installHooks p) h = installHooks now p h"
| "step now (Ev_spawnAgent corr req) h = spawnAgent now corr req h"
| "step now Ev_clearSpawnStatus h = clearSpawnStatus h"
| "step now (Ev_dismissError i) h = dismissError i h"
| "step now Ev_dismissReauth h = dismissReauth h"
| "step now Ev_retryPendingApprove h = retryPendingApprove h"
| "step now (Ev_register tid f rm) h = registerTerminalHandler tid f rm h"
| "step now (Ev_unregister tid obj) h = unregisterTerminalHandler tid obj h"
| "step now (Ev_open i) h = onopen i h"
| "step now (Ev_close i code) h = onclose i code h"
| "step now (Ev_timer t) h = fire_timer t h"
| "step now (Ev_probe p status) h = settle_probe p status h"
| "step now (Ev_setWebToken tok) h = setWebToken tok h"
| "step now Ev_clearWebToken h = clearWebToken h"

text \<open>When the browser can deliver an event.\<close>

fun enabled :: "event \<Rightarrow> hook \<Rightarrow> bool" where
  "enabled (Ev_open i) h = (i < length (h_sockets h) \<and> sk_ready (h_sockets h ! i) = CONNECTING)"
| "enabled (Ev_close i code) h = (i < length (h_sockets h) \<and> sk_ready (h_sockets h ! i) \<noteq> CLOSED)"
| "enabled (Ev_timer t) h = (t \<in> h_timers h)"
| "enabled (Ev_probe p status) h = (p \<in> h_probes h)"
| "enabled _ h = True"

text \<open>Runs of the hook, with the events that led there, newest first.\<close>

inductive reaches :: "string \<Rightarrow> string option \<Rightarrow> event list \<Rightarrow> hook \<Rightarrow> bool" for base tok where
  start: "reaches base tok [] (initial_hook base tok)"
| event: "reaches base tok evs h \<Longrightarrow> enabled e h \<Longrightarrow> reaches base tok (e # evs) (step now e h)"

inductive_cases reaches_ConsE: "reaches base tok (e # evs) h"

end
