(* ===== verification/Wisphive_Safety.thy ===== *)
theory Wisphive_Safety
  imports Wisphive_Connection
begin

text \<open>
  What every run of the hook keeps, whatever the order of messages, clicks, renders and
  socket events and with or without StrictMode: the invariant of the state and the refs,
  and the accounting of approvals (nothing is approved that the user did not approve, with
  the options given, and no click counts more than once directly and once as a replay).
  Both are instances of one contract, a relation between the hook before and after that is
  reflexive and transitive.
\<close>

section \<open>Relations kept by every operation\<close>

locale step_law =
  fixes R :: "hook \<Rightarrow> hook \<Rightarrow> bool"
  assumes refl: "R h h"
    and trans: "R h h' \<Longrightarrow> R h' h'' \<Longrightarrow> R h h''"
begin

lemma fold_law: "(\<And>x h. R h (f x h)) \<Longrightarrow> R h (fold f xs h)"
  by (induction xs arbitrary: h) (auto intro: refl trans)

lemma render_law:
  assumes "\<And>u h. R h (run_update_mode strict now u h)" and "\<And>h. R h (h\<lparr>h_updates := []\<rparr>)"
  shows "R h (render strict now h)"
  unfolding render_def by (rule trans[OF assms(2)], rule fold_law, rule assms(1))

end

section \<open>Which fields an operation leaves alone\<close>

lemma send_frame [simp]:
  "h_state (fst (send now m q h)) = h_state h"
  "h_queueRef (fst (send now m q h)) = h_queueRef h"
  "h_approveStash (fst (send now m q h)) = h_approveStash h"
  "h_pendingReauths (fst (send now m q h)) = h_pendingReauths h"
  "h_installStash (fst (send now m q h)) = h_installStash h"
  "h_handlers (fst (send now m q h)) = h_handlers h"
  "h_nextObject (fst (send now m q h)) = h_nextObject h"
  "h_sockets (fst (send now m q h)) = h_sockets h"
  "h_wsRef (fst (send now m q h)) = h_wsRef h"
  by (simp_all add: send_def emit_def setState_def split: option.split)

lemma send_log:
  "h_log (fst (send now m q h)) = h_log h @ (case open_socket h of Some i \<Rightarrow> [Sent i m] | None \<Rightarrow> [])"
  by (simp add: send_def emit_def setState_def split: option.split)

lemma setState_frame [simp]:
  "h_state (setState u h) = h_state h" "h_approveStash (setState u h) = h_approveStash h"
  "h_pendingReauths (setState u h) = h_pendingReauths h" "h_installStash (setState u h) = h_installStash h"
  "h_handlers (setState u h) = h_handlers h" "h_nextObject (setState u h) = h_nextObject h"
  "h_sockets (setState u h) = h_sockets h" "h_wsRef (setState u h) = h_wsRef h"
  "h_log (setState u h) = h_log h" "h_token (setState u h) = h_token h"
  by (simp_all add: setState_def)

lemma emit_frame [simp]:
  "h_state (emit e h) = h_state h" "h_approveStash (emit e h) = h_approveStash h"
  "h_pendingReauths (emit e h) = h_pendingReauths h" "h_handlers (emit e h) = h_handlers h"
  "h_nextObject (emit e h) = h_nextObject h" "h_sockets (emit e h) = h_sockets h"
  "h_wsRef (emit e h) = h_wsRef h" "h_log (emit e h) = h_log h @ [e]"
  by (simp_all add: emit_def)

lemma update_state_frame [simp]:
  "h_state (update_state f h) = f (h_state h)" "h_approveStash (update_state f h) = h_approveStash h"
  "h_pendingReauths (update_state f h) = h_pendingReauths h" "h_installStash (update_state f h) = h_installStash h"
  "h_handlers (update_state f h) = h_handlers h"
  "h_nextObject (update_state f h) = h_nextObject h" "h_sockets (update_state f h) = h_sockets h"
  "h_wsRef (update_state f h) = h_wsRef h" "h_log (update_state f h) = h_log h"
  by (simp_all add: update_state_def)

section \<open>Approvals\<close>

definition approves :: "string \<Rightarrow> effect \<Rightarrow> bool" where
  "approves rid e = (case e of Sent i c \<Rightarrow> (case oc_message c of Cm_approve r ao \<Rightarrow> r = rid | _ \<Rightarrow> False) | _ \<Rightarrow> False)"

text \<open>
  The contract of every operation but \<open>approve\<close>: no stash entry appears or changes, and an
  approval is sent only by consuming the entry of its request, with the entry's options.
\<close>

definition consumes_by :: "effect list \<Rightarrow> hook \<Rightarrow> hook \<Rightarrow> bool" where
  "consumes_by es h h' \<longleftrightarrow> h_log h' = h_log h @ es \<and>
     (\<forall>rid. map_of (h_approveStash h') rid = map_of (h_approveStash h) rid \<or> map_of (h_approveStash h') rid = None) \<and>
     (\<forall>rid. length (filter (approves rid) es) \<le>
        (if map_of (h_approveStash h) rid \<noteq> None \<and> map_of (h_approveStash h') rid = None then 1 else 0)) \<and>
     (\<forall>i c rid ao. Sent i c \<in> set es \<and> oc_message c = Cm_approve rid ao \<longrightarrow>
        (\<exists>s. map_of (h_approveStash h) rid = Some s \<and> Cm_approve rid ao = approve_message rid (as_opts s)))"

definition consumes :: "hook \<Rightarrow> hook \<Rightarrow> bool" where
  "consumes h h' \<longleftrightarrow> (\<exists>es. consumes_by es h h')"

lemma consumesI:
  assumes "\<And>rid. map_of (h_approveStash h') rid = map_of (h_approveStash h) rid \<or> map_of (h_approveStash h') rid = None"
    and "h_log h' = h_log h @ es"
    and "\<And>rid. filter (approves rid) es = []"
  shows "consumes h h'"
proof -
  have "\<not> (Sent i c \<in> set es \<and> oc_message c = Cm_approve rid ao)" for i c rid ao
  proof
    assume "Sent i c \<in> set es \<and> oc_message c = Cm_approve rid ao"
    then have "Sent i c \<in> set (filter (approves rid) es)" by (simp add: approves_def)
    with assms(3) show False by simp
  qed
  with assms show ?thesis by (auto simp: consumes_def consumes_by_def intro!: exI[of _ es])
qed

lemma consumes_same:
  "h_approveStash h' = h_approveStash h \<Longrightarrow> h_log h' = h_log h \<Longrightarrow> consumes h h'"
  by (rule consumesI[of _ _ "[]"]) auto

lemma consumes_refl: "consumes h h"
  by (rule consumes_same) simp_all

lemma consumes_by_trans:
  assumes a: "consumes_by es h h'" and b: "consumes_by fs h' h''"
  shows "consumes_by (es @ fs) h h''"
  unfolding consumes_by_def
proof (intro conjI allI impI)
  note d = consumes_by_def
  show "h_log h'' = h_log h @ es @ fs" using a b by (simp add: d)
  fix rid
  have sub: "map_of (h_approveStash h') rid = map_of (h_approveStash h) rid \<or> map_of (h_approveStash h') rid = None"
    "map_of (h_approveStash h'') rid = map_of (h_approveStash h') rid \<or> map_of (h_approveStash h'') rid = None"
    using a b by (simp_all add: d)
  then show "map_of (h_approveStash h'') rid = map_of (h_approveStash h) rid \<or> map_of (h_approveStash h'') rid = None"
    by metis
  have "length (filter (approves rid) es) \<le>
        (if map_of (h_approveStash h) rid \<noteq> None \<and> map_of (h_approveStash h') rid = None then 1 else 0)"
    "length (filter (approves rid) fs) \<le>
        (if map_of (h_approveStash h') rid \<noteq> None \<and> map_of (h_approveStash h'') rid = None then 1 else 0)"
    using a b by (simp_all add: d)
  with sub show "length (filter (approves rid) (es @ fs)) \<le>
        (if map_of (h_approveStash h) rid \<noteq> None \<and> map_of (h_approveStash h'') rid = None then 1 else 0)"
    by (auto split: if_splits)
  fix i c ao
  assume "Sent i c \<in> set (es @ fs) \<and> oc_message c = Cm_approve rid ao"
  then have "\<exists>s. (map_of (h_approveStash h) rid = Some s \<or> map_of (h_approveStash h') rid = Some s)
      \<and> Cm_approve rid ao = approve_message rid (as_opts s)"
    using a b unfolding d set_append by blast
  with sub(1) show "\<exists>s. map_of (h_approveStash h) rid = Some s \<and> Cm_approve rid ao = approve_message rid (as_opts s)"
    by (metis option.distinct(1))
qed

lemma consumes_trans: "consumes h h' \<Longrightarrow> consumes h' h'' \<Longrightarrow> consumes h h''"
  unfolding consumes_def by (blast intro: consumes_by_trans)

interpretation approval: step_law consumes
  by unfold_locales (rule consumes_refl, rule consumes_trans)

lemma consumes_send:
  assumes "\<And>r ao. oc_message m \<noteq> Cm_approve r ao"
  shows "consumes h (fst (send now m q h))"
  by (rule consumesI) (auto simp: send_log approves_def assms split: option.split client_message.split)

lemma consumes_delete:
  "h_approveStash h' = AList.delete rid (h_approveStash h) \<Longrightarrow> h_log h' = h_log h \<Longrightarrow> consumes h h'"
  by (rule consumesI[of _ _ "[]"]) (auto simp: jmap.get_del)

lemma consumes_replay: "consumes h (replay now que p h)"
proof (cases "pa_tool_name p = ''InstallHooks''")
  case True
  let ?h = "h\<lparr>h_installStash := h_installStash h - {pa_request_id p}\<rparr>"
  have "consumes h ?h" by (rule consumes_same) simp_all
  moreover have "consumes ?h (send_plain now (Cm_install_hooks (pa_request_id p)) ?h)"
    by (rule consumes_send) (simp add: plain_def)
  ultimately show ?thesis using True consumes_trans consumes_refl
    unfolding replay_def Let_def by presburger
next
  case False
  let ?rid = "pa_request_id p"
  let ?h = "h\<lparr>h_approveStash := AList.delete ?rid (h_approveStash h)\<rparr>"
  have drop: "consumes h ?h" by (rule consumes_delete) simp_all
  show ?thesis
  proof (cases "map_of (h_approveStash h) ?rid")
    case None
    with False drop show ?thesis by (simp add: replay_def)
  next
    case (Some s)
    have "consumes h (send_plain now (approve_message ?rid (as_opts s)) ?h)"
      unfolding consumes_def consumes_by_def using Some
      by (intro exI[of _ "case open_socket ?h of Some i \<Rightarrow> [Sent i (plain (approve_message ?rid (as_opts s)))] | None \<Rightarrow> []"] conjI)
        (auto simp: send_log jmap.get_del approves_def plain_def approve_message_def split: option.split)
    with False Some drop show ?thesis by (simp add: replay_def Let_def)
  qed
qed

lemma consumes_forget: "consumes h (forget p h)"
  by (rule consumes_delete) (simp_all add: forget_def)

lemma consumes_update_state: "consumes h (update_state f h)"
  by (rule consumes_same) simp_all

lemma consumes_run_update: "consumes h (run_update now u h)"
proof (cases u)
  case (U_message t m)
  have "consumes h (drop_install m h)"
    by (rule consumes_same) (simp_all add: drop_install_def split: server_message.split)
  with U_message show ?thesis by (auto intro: consumes_trans consumes_update_state)
next
  case U_dismissReauth
  have "consumes h (fold forget (gated h) (h\<lparr>h_pendingReauths := []\<rparr>))"
    by (rule consumes_trans[OF consumes_same approval.fold_law]) (simp_all add: consumes_forget)
  with U_dismissReauth show ?thesis by (auto intro: consumes_trans consumes_update_state)
next
  case U_retryPendingApprove
  have "consumes h (fold (replay now (queue (h_state h))) (gated h) (h\<lparr>h_pendingReauths := []\<rparr>))"
    by (rule consumes_trans[OF consumes_same approval.fold_law]) (simp_all add: consumes_replay)
  with U_retryPendingApprove show ?thesis by (auto intro: consumes_trans consumes_update_state)
qed (simp_all add: consumes_update_state)

lemma consumes_render: "consumes h (render strict now h)"
proof (rule approval.render_law)
  show "consumes h (run_update_mode strict now u h)" for u h
  proof -
    have "consumes (run_update now u h) ((run_update now u h)\<lparr>h_state := h_state h\<rparr>)"
      by (rule consumes_same) simp_all
    then have "consumes h (run_update now u ((run_update now u h)\<lparr>h_state := h_state h\<rparr>))"
      by (rule consumes_trans[OF consumes_trans[OF consumes_run_update] consumes_run_update])
    then show ?thesis unfolding run_update_mode_def by (simp add: consumes_run_update)
  qed
  show "consumes h (h\<lparr>h_updates := []\<rparr>)" for h by (rule consumes_same) simp_all
qed

text \<open>The operations that touch neither the log nor the stash.\<close>

lemma consumes_receive: "consumes h (receive br now m h)"
proof -
  have gate: "consumes h (note_gate m h)" for m h
    by (rule consumes_same) (simp_all add: note_gate_def split: server_message.split)
  have out: "consumes h (emit (Output f tid ch bs) h)" for f tid ch bs h
    by (rule consumesI) (auto simp: approves_def)
  have del: "consumes h (deliver br tid ch d rm h)" for tid ch d rm h
    unfolding deliver_def by (auto intro: out consumes_refl split: option.split)
  have pop: "consumes h (emit (Notified a b) h)" for a b h
    by (rule consumesI) (auto simp: approves_def)
  have note_it: "consumes h (notify_decision br m h)" for m h
    unfolding notify_decision_def by (auto intro: pop consumes_refl split: server_message.split)
  have drop: "consumes h (drop_stash m h)" for m h
    unfolding drop_stash_def by (auto intro: consumes_refl consumes_delete split: server_message.split)
  have other: "consumes h (setState u (drop_stash m (notify_decision br m (note_gate m h))))" for u m h
    by (rule consumes_trans[OF consumes_trans[OF consumes_trans[OF gate note_it] drop] consumes_same]) simp_all
  show ?thesis
    unfolding receive_def Let_def
    by (cases m) (auto intro: consumes_trans[OF gate] other del consumes_refl)
qed

lemma connection_frame [simp]:
  "h_log (connect h) = h_log h" "h_approveStash (connect h) = h_approveStash h"
  "h_log (clear_timer h) = h_log h" "h_approveStash (clear_timer h) = h_approveStash h"
  "h_log (abort_probe h) = h_log h" "h_approveStash (abort_probe h) = h_approveStash h"
  "h_log (drop_socket h) = h_log h" "h_approveStash (drop_socket h) = h_approveStash h"
  "h_log (set_ready i r h) = h_log h" "h_approveStash (set_ready i r h) = h_approveStash h"
  "h_log (start_probe h) = h_log h" "h_approveStash (start_probe h) = h_approveStash h"
  "h_log (arm_timer h) = h_log h" "h_approveStash (arm_timer h) = h_approveStash h"
  by (simp_all add: connect_def clear_timer_def abort_probe_def drop_socket_def set_ready_def
      start_probe_def arm_timer_def Let_def split: option.split)

lemma auth_frame [simp]:
  "h_log (auth_changed h) = h_log h" "h_approveStash (auth_changed h) = h_approveStash h"
  "h_log (clearWebToken h) = h_log h" "h_approveStash (clearWebToken h) = h_approveStash h"
  by (simp_all add: auth_changed_def clearWebToken_def)

lemmas command_defs = deny_def queryHistory_def queryAgentTimeline_def querySessionTimeline_def
  querySessions_def queryProjects_def queryManagedAgents_def queryWorktrees_def queryBurn_def
  queryProjectHookStatus_def searchHistory_def termList_def termCreate_def termAttach_def
  termDetach_def termInput_def termResize_def termClose_def termReplay_def termSetGroup_def
  termReorder_def termSetPinned_def

text \<open>Every plain command is one \<open>send\<close> of a message that is not an approval.\<close>

lemma run_command_send:
  "\<exists>m q. run_command now c h = fst (send now (plain m) q h) \<and> (\<forall>r ao. m \<noteq> Cm_approve r ao)"
  by (cases c) (simp_all only: run_command.simps command_defs, blast+)

lemma consumes_step:
  assumes "\<And>i opts. e \<noteq> Ev_approve i opts"
  shows "consumes h (step now e h)"
proof (cases e)
  case (Ev_message br d)
  then show ?thesis by (auto simp: handleMessage_def consumes_receive consumes_refl split: sum.split)
next
  case (Ev_command c)
  obtain m q where "run_command now c h = fst (send now (plain m) q h)" "\<And>r ao. m \<noteq> Cm_approve r ao"
    using run_command_send by blast
  with Ev_command show ?thesis by (simp add: consumes_send plain_def)
next
  case (Ev_installHooks project)
  have "consumes h (h\<lparr>h_installStash := insert project (h_installStash h)\<rparr>)"
    by (rule consumes_same) simp_all
  then have "consumes h (installHooks now project h)"
    unfolding installHooks_def by (rule consumes_trans[OF _ consumes_send]) (simp add: plain_def)
  with Ev_installHooks show ?thesis by simp
next
  case (Ev_spawnAgent corr req)
  have "consumes h (fst (send now \<lparr>oc_message = Cm_spawn_agent req, oc_correlation_id = Some corr\<rparr> True h))"
    by (rule consumes_send) simp
  then have "consumes h (setState u (fst (send now \<lparr>oc_message = Cm_spawn_agent req, oc_correlation_id = Some corr\<rparr> True h)))" for u
    by (rule consumes_trans) (rule consumes_same; simp)
  with Ev_spawnAgent show ?thesis by (simp add: spawnAgent_def split_beta)
next
  case (Ev_render strict)
  then show ?thesis by (simp add: consumes_render)
qed (use assms in \<open>auto intro!: consumes_same simp: run_effects_def clearSpawnStatus_def dismissError_def
    dismissReauth_def retryPendingApprove_def registerTerminalHandler_def unregisterTerminalHandler_def
    onopen_def onclose_def fire_timer_def settle_probe_def setWebToken_def Let_def split: option.split\<close>)

section \<open>The invariant of the hook\<close>

lemma set_jmap_update: "set (AList.update k v m) \<subseteq> insert (k, v) (set m)"
  by (induction m) auto

lemma set_jmap_delete: "set (AList.delete k m) \<subseteq> set m"
  by (auto simp: AList.delete_eq)

definition hook_inv :: "hook \<Rightarrow> bool" where
  "hook_inv h \<longleftrightarrow> state_inv (h_state h) \<and> jmap_wf (h_approveStash h) \<and>
     jmap_wf (h_pendingReauths h) \<and> (\<forall>(k, p) \<in> set (h_pendingReauths h). pa_request_id p = k) \<and>
     jmap_wf (h_handlers h) \<and> (\<forall>r \<in> snd ` set (h_handlers h). rg_object r < h_nextObject h) \<and>
     (\<forall>i. h_wsRef h = Some i \<longrightarrow> i < length (h_sockets h))"

lemma hook_inv_frame:
  assumes "hook_inv h" "state_inv (h_state h')" "jmap_wf (h_approveStash h')"
    and "h_pendingReauths h' = h_pendingReauths h \<or> h_pendingReauths h' = []"
    and "h_handlers h' = h_handlers h" "h_nextObject h' = h_nextObject h"
    and "h_sockets h' = h_sockets h" "h_wsRef h' = h_wsRef h"
  shows "hook_inv h'"
  using assms by (auto simp: hook_inv_def split: option.splits)

lemma hook_inv_initial: "hook_inv (initial_hook base tok)"
  by (simp add: hook_inv_def initial_hook_def state_inv_initial)

lemma hook_inv_send: "hook_inv h \<Longrightarrow> hook_inv (fst (send now m q h))"
  by (rule hook_inv_frame) (auto simp: hook_inv_def)

lemma hook_inv_setState: "hook_inv h \<Longrightarrow> hook_inv (setState u h)"
  by (rule hook_inv_frame) (auto simp: hook_inv_def)

lemma hook_inv_emit: "hook_inv h \<Longrightarrow> hook_inv (emit e h)"
  by (rule hook_inv_frame) (auto simp: hook_inv_def)

lemma hook_inv_stash: "hook_inv h \<Longrightarrow> hook_inv (h\<lparr>h_approveStash := AList.delete k (h_approveStash h)\<rparr>)"
  by (rule hook_inv_frame) (auto simp: hook_inv_def jmap.wf_del)

lemma hook_inv_install: "hook_inv h \<Longrightarrow> hook_inv (h\<lparr>h_installStash := X\<rparr>)"
  by (rule hook_inv_frame) (auto simp: hook_inv_def)

lemma hook_inv_pending: "hook_inv h \<Longrightarrow> hook_inv (h\<lparr>h_pendingReauths := []\<rparr>)"
  by (rule hook_inv_frame) (auto simp: hook_inv_def)

lemma hook_inv_update_state:
  "hook_inv h \<Longrightarrow> (\<And>s. state_inv s \<Longrightarrow> state_inv (f s)) \<Longrightarrow> hook_inv (update_state f h)"
  by (rule hook_inv_frame) (auto simp: hook_inv_def)

lemmas hook_inv_intros = hook_inv_send hook_inv_setState hook_inv_emit hook_inv_stash
  hook_inv_install hook_inv_pending

definition keeps :: "hook \<Rightarrow> hook \<Rightarrow> bool" where
  "keeps h h' \<longleftrightarrow> (hook_inv h \<longrightarrow> hook_inv h')"

interpretation upkeep: step_law keeps
  by unfold_locales (simp_all add: keeps_def)

lemma keeps_replay: "keeps h (replay now que p h)"
  unfolding keeps_def replay_def Let_def
  by (auto intro!: hook_inv_intros split: option.split)

lemma keeps_forget: "keeps h (forget p h)"
  unfolding keeps_def
proof
  assume inv: "hook_inv h"
  show "hook_inv (forget p h)"
    by (rule hook_inv_frame[OF inv]) (use inv in \<open>auto simp: forget_def hook_inv_def jmap.wf_del\<close>)
qed

lemma keeps_run_update: "keeps h (run_update now u h)"
proof -
  have reauth: "state_inv s \<Longrightarrow> state_inv (s\<lparr>pendingReauth := None\<rparr>)" for s by (simp add: state_inv_def)
  have gone: "keeps h (h\<lparr>h_pendingReauths := []\<rparr>)" by (simp add: keeps_def hook_inv_pending)
  have dismiss: "keeps h (fold forget (gated h) (h\<lparr>h_pendingReauths := []\<rparr>))"
    by (rule upkeep.trans[OF gone], rule upkeep.fold_law, rule keeps_forget)
  have retry: "keeps h (fold (replay now (queue (h_state h))) (gated h) (h\<lparr>h_pendingReauths := []\<rparr>))"
    by (rule upkeep.trans[OF gone], rule upkeep.fold_law, rule keeps_replay)
  show ?thesis
    unfolding keeps_def
  proof
    assume inv: "hook_inv h"
    then have after: "hook_inv (fold forget (gated h) (h\<lparr>h_pendingReauths := []\<rparr>))"
      "hook_inv (fold (replay now (queue (h_state h))) (gated h) (h\<lparr>h_pendingReauths := []\<rparr>))"
      using dismiss retry by (simp_all add: keeps_def)
    have "hook_inv (drop_install m h)" for m
      using inv by (auto simp: drop_install_def hook_inv_install split: server_message.split)
    with inv after show "hook_inv (run_update now u h)"
      by (cases u)
        (auto intro!: hook_inv_update_state state_inv_reduce state_inv_push_error reauth,
          auto simp: state_inv_def errors_inv_filter)
  qed
qed

lemma keeps_render: "keeps h (render strict now h)"
proof (rule upkeep.render_law)
  show "keeps h (run_update_mode strict now u h)" for u h
  proof -
    have "keeps (run_update now u h) ((run_update now u h)\<lparr>h_state := h_state h\<rparr>)" if "hook_inv h"
      using that unfolding keeps_def by (auto simp: hook_inv_def split: option.splits)
    then show ?thesis
      using keeps_run_update[of h now u] keeps_run_update[of "(run_update now u h)\<lparr>h_state := h_state h\<rparr>" now u]
      by (auto simp: run_update_mode_def keeps_def)
  qed
  show "keeps h (h\<lparr>h_updates := []\<rparr>)" for h by (simp add: keeps_def hook_inv_def)
qed

lemma hook_inv_receive:
  assumes "hook_inv h"
  shows "hook_inv (receive br now m h)"
proof -
  have gate: "hook_inv (note_gate m h)" if "hook_inv h" for m h
  proof -
    have "(\<forall>(k, p) \<in> set (AList.update rid \<lparr>pa_request_id = rid, pa_tool_name = tool\<rparr> (h_pendingReauths h)).
        pa_request_id p = k)" for rid tool
      using that set_jmap_update[of rid _ "h_pendingReauths h"] by (fastforce simp: hook_inv_def jmap_wf_def)
    then show ?thesis
      using that by (auto simp: note_gate_def hook_inv_def jmap.wf_set split: server_message.split)
  qed
  have del: "hook_inv (deliver br tid ch d rm h)" if "hook_inv h" for tid ch d rm h
    using that by (auto simp: deliver_def hook_inv_emit split: option.split)
  have note_it: "hook_inv (notify_decision br m h)" if "hook_inv h" for m h
    using that by (auto simp: notify_decision_def hook_inv_emit split: server_message.split)
  have drop: "hook_inv (drop_stash m h)" if "hook_inv h" for m h
    using that by (auto simp: drop_stash_def hook_inv_stash split: server_message.split)
  show ?thesis
    using assms unfolding receive_def Let_def
    by (auto intro!: gate del note_it drop hook_inv_setState split: server_message.split)
qed

text \<open>The connection operations change neither the state nor the refs of the requests.\<close>

definition wiring :: "hook \<Rightarrow> hook \<Rightarrow> bool" where
  "wiring h h' \<longleftrightarrow> h_state h' = h_state h \<and> h_approveStash h' = h_approveStash h \<and>
     h_pendingReauths h' = h_pendingReauths h \<and> h_handlers h' = h_handlers h \<and>
     h_nextObject h' = h_nextObject h \<and> length (h_sockets h) \<le> length (h_sockets h') \<and>
     ((\<forall>i. h_wsRef h = Some i \<longrightarrow> i < length (h_sockets h)) \<longrightarrow>
      (\<forall>i. h_wsRef h' = Some i \<longrightarrow> i < length (h_sockets h')))"

interpretation wires: step_law wiring
  by unfold_locales (auto simp: wiring_def)

lemma wiring_keeps: "wiring h h' \<Longrightarrow> keeps h h'"
  by (auto simp: wiring_def keeps_def hook_inv_def)

lemma wiring_basic:
  "wiring h (connect h)" "wiring h (clear_timer h)" "wiring h (abort_probe h)" "wiring h (drop_socket h)"
  "wiring h (set_ready i r h)" "wiring h (start_probe h)" "wiring h (arm_timer h)" "wiring h (setState u h)"
  "wiring h (h\<lparr>h_wsRef := None\<rparr>)" "wiring h (h\<lparr>h_token := tok\<rparr>)" "wiring h (h\<lparr>h_timers := ts\<rparr>)"
  "wiring h (h\<lparr>h_probes := ps\<rparr>)" "wiring h (h\<lparr>h_authProbe := ap\<rparr>)" "wiring h (h\<lparr>h_wsEverOpened := b\<rparr>)"
  by (auto simp: wiring_def connect_def clear_timer_def abort_probe_def drop_socket_def set_ready_def
      start_probe_def arm_timer_def setState_def Let_def split: option.split)

lemma wiring_teardown: "wiring h (drop_socket (abort_probe (clear_timer h)))"
  by (rule wires.trans[OF wires.trans[OF wiring_basic(2,3)] wiring_basic(4)])

lemma wiring_auth: "wiring h (auth_changed h)"
proof -
  have "wiring h (connect (clear_timer h))" by (rule wires.trans[OF wiring_basic(2,1)])
  moreover have "wiring h ((drop_socket (abort_probe (clear_timer h)))\<lparr>h_wsRef := None\<rparr>)"
    by (rule wires.trans[OF wiring_teardown wiring_basic(9)])
  ultimately show ?thesis by (simp add: auth_changed_def wires.refl)
qed

lemma wiring_token: "wiring h (setWebToken tok h)" "wiring h (clearWebToken h)"
  unfolding setWebToken_def clearWebToken_def by (rule wires.trans[OF wiring_basic(10) wiring_auth])+

lemma wiring_onclose: "wiring h (onclose i code h)"
proof -
  let ?h = "setState U_disconnected (set_ready i CLOSED h)"
  have closed: "wiring h ?h" by (rule wires.trans[OF wiring_basic(5,8)])
  then have probed: "wiring h (start_probe ?h)" by (rule wires.trans[OF _ wiring_basic(6)])
  show ?thesis
    unfolding onclose_def Let_def
    using closed probed
    by (auto intro: wires.trans[OF _ wiring_token(2)] wires.trans[OF _ wiring_basic(7)] wiring_basic(5))
qed

lemma wiring_settle: "wiring h (settle_probe p status h)"
proof -
  let ?h = "h\<lparr>h_probes := h_probes h - {p}\<rparr>"
  have a: "wiring h ?h" by (rule wiring_basic(12))
  then have b: "wiring h (clearWebToken ?h)" by (rule wires.trans[OF _ wiring_token(2)])
  show ?thesis
    unfolding settle_probe_def Let_def using a b wires.trans[OF a wiring_basic(13)] wires.trans[OF b wiring_basic(13)]
    by simp
qed

lemma keeps_step: "keeps h (step now e h)"
proof (cases e)
  case (Ev_message br d)
  then show ?thesis by (auto simp: keeps_def handleMessage_def hook_inv_receive split: sum.split)
next
  case (Ev_command c)
  obtain m q where "run_command now c h = fst (send now (plain m) q h)"
    using run_command_send by blast
  with Ev_command show ?thesis by (simp add: keeps_def hook_inv_send)
next
  case (Ev_approve i opts)
  have "hook_inv (h\<lparr>h_approveStash := AList.update i s (h_approveStash h)\<rparr>)" if "hook_inv h" for s
    by (rule hook_inv_frame[OF that]) (use that in \<open>auto simp: hook_inv_def jmap.wf_set\<close>)
  with Ev_approve show ?thesis by (auto simp: keeps_def approve_def Let_def hook_inv_send)
next
  case (Ev_register tid f rm)
  let ?v = "\<lparr>rg_object = h_nextObject h, rg_handler = f, rg_replayMode = (rm = Some True)\<rparr>"
  have "\<forall>r \<in> snd ` set (AList.update tid ?v (h_handlers h)). rg_object r < Suc (h_nextObject h)" if "hook_inv h"
    using that set_jmap_update[of tid ?v "h_handlers h"] by (fastforce simp: hook_inv_def jmap_wf_def)
  with Ev_register show ?thesis
    by (auto simp: keeps_def registerTerminalHandler_def hook_inv_def jmap.wf_set)
next
  case (Ev_unregister tid obj)
  then show ?thesis
    using set_jmap_delete[of tid "h_handlers h"]
    by (auto simp: keeps_def unregisterTerminalHandler_def hook_inv_def jmap.wf_del split: option.split)
next
  case (Ev_spawnAgent corr req)
  then show ?thesis by (simp add: keeps_def spawnAgent_def split_beta hook_inv_setState hook_inv_send)
next
  case (Ev_timer t)
  then show ?thesis
    by (simp add: fire_timer_def wiring_keeps[OF wires.trans[OF wiring_basic(11,1)]])
next
  case (Ev_open i)
  then show ?thesis by (simp add: onopen_def wiring_keeps[OF wires.trans[OF wiring_basic(5,14)]])
qed (simp_all add: keeps_render wiring_keeps wiring_basic wiring_token wiring_onclose wiring_settle,
    auto simp: keeps_def run_effects_def hook_inv_def installHooks_def clearSpawnStatus_def dismissError_def
      dismissReauth_def retryPendingApprove_def)

lemma reaches_inv: "reaches base tok evs h \<Longrightarrow> hook_inv h"
  by (induction rule: reaches.induct) (use keeps_step in \<open>auto simp: hook_inv_initial keeps_def\<close>)

end
