(* ===== verification/Wisphive_Properties.thy ===== *)
theory Wisphive_Properties
  imports Wisphive_Safety
begin

text \<open>
  The properties of the hook \<open>useWisphive\<close>: invariants of every run, the accounting of
  approvals and replays, the surfacing of errors, the audit feed, terminal routing and the
  connection life cycle.
\<close>

section \<open>Runs\<close>

definition clicks :: "string \<Rightarrow> event list \<Rightarrow> nat" where
  "clicks rid evs = length (filter (\<lambda>e. case e of Ev_approve i opts \<Rightarrow> i = rid | _ \<Rightarrow> False) evs)"

text \<open>A concrete run used by the witnesses: mount, open, approve.\<close>

definition demo_events :: "event list" where
  "demo_events = [Ev_mount, Ev_open 0, Ev_approve ''r1'' None]"

definition demo_hook :: hook where
  "demo_hook = fold (step ''t'') demo_events (initial_hook ''ws://h/ws'' (Some ''k''))"

lemma demo_reaches: "reaches ''ws://h/ws'' (Some ''k'') (rev demo_events) demo_hook"
proof -
  let ?h0 = "initial_hook ''ws://h/ws'' (Some ''k'')"
  have "reaches ''ws://h/ws'' (Some ''k'') [Ev_mount] (step ''t'' Ev_mount ?h0)"
    by (intro reaches.intros) simp
  then have "reaches ''ws://h/ws'' (Some ''k'') [Ev_open 0, Ev_mount] (step ''t'' (Ev_open 0) (step ''t'' Ev_mount ?h0))"
    by (rule reaches.event) (simp add: connect_def open_socket_def getWebToken_def initial_hook_def)
  then have "reaches ''ws://h/ws'' (Some ''k'') [Ev_approve ''r1'' None, Ev_open 0, Ev_mount]
      (step ''t'' (Ev_approve ''r1'' None) (step ''t'' (Ev_open 0) (step ''t'' Ev_mount ?h0)))"
    by (rule reaches.event) simp
  then show ?thesis by (simp add: demo_events_def demo_hook_def)
qed

lemma demo_log: "h_log demo_hook = [Sent 0 (plain (Cm_approve ''r1'' no_opts))]"
  by (simp add: demo_hook_def demo_events_def connect_def open_socket_def getWebToken_def initial_hook_def
      onopen_def set_ready_def approve_def send_def emit_def approve_message_def)

text \<open>
  C1: In every run the hook keeps its invariant: at most 20 error rows with increasing ids
  and positive counts, at most one alert per kind, no agent both live and ended, one audit
  row per key, and refs that stay consistent with each other.
\<close>

theorem run_invariant: "reaches base tok evs h \<Longrightarrow> hook_inv h"
  by (rule reaches_inv)

theorem run_invariant_witness: "reaches ''ws://h/ws'' (Some ''k'') (rev demo_events) demo_hook \<and> hook_inv demo_hook"
  using demo_reaches run_invariant[OF demo_reaches] by blast

text \<open>Approvals in the log plus the entry in the stash never exceed two per click.\<close>

lemma approval_credit:
  assumes "reaches base tok evs h"
  shows "length (filter (approves rid) (h_log h)) + (if map_of (h_approveStash h) rid = None then 0 else 1)
    \<le> 2 * clicks rid evs"
  using assms
proof (induction rule: reaches.induct)
  case start
  then show ?case by (simp add: initial_hook_def)
next
  case (event evs h e now)
  show ?case
  proof (cases "\<exists>i opts. e = Ev_approve i opts")
    case True
    then obtain i opts where e: "e = Ev_approve i opts" by blast
    have "length (filter (approves rid) (h_log (step now e h))) \<le>
        length (filter (approves rid) (h_log h)) + (if i = rid then 1 else 0)"
      by (auto simp: e approve_def Let_def send_log approves_def plain_def approve_message_def split: option.split)
    moreover have "map_of (h_approveStash (step now e h)) rid = map_of (h_approveStash h) rid" if "i \<noteq> rid"
      using that by (simp add: e approve_def Let_def jmap.get_set_other)
    ultimately show ?thesis
      using event.IH by (auto simp: e clicks_def split: if_splits)
  next
    case False
    then have "consumes h (step now e h)" by (intro consumes_step) auto
    then obtain es where es: "consumes_by es h (step now e h)" by (auto simp: consumes_def)
    have "clicks rid (e # evs) = clicks rid evs"
      using False by (auto simp: clicks_def split: event.split)
    moreover have "length (filter (approves rid) es) \<le>
        (if map_of (h_approveStash h) rid \<noteq> None \<and> map_of (h_approveStash (step now e h)) rid = None then 1 else 0)"
      "h_log (step now e h) = h_log h @ es"
      "map_of (h_approveStash (step now e h)) rid = map_of (h_approveStash h) rid \<or>
       map_of (h_approveStash (step now e h)) rid = None"
      using es by (simp_all add: consumes_by_def)
    ultimately show ?thesis using event.IH by (auto split: if_splits)
  qed
qed

text \<open>
  C3: However messages, renders (doubled by StrictMode or not), reauthentications and clicks
  interleave, a request is approved on the wire at most twice per click on it: once directly
  and once as the replay after a reauthentication. With no click it is never approved.
\<close>

theorem approvals_bounded:
  assumes "reaches base tok evs h"
  shows "length (filter (approves rid) (h_log h)) \<le> 2 * clicks rid evs"
  using approval_credit[OF assms, of rid] by linarith

theorem approvals_bounded_witness:
  "reaches ''ws://h/ws'' (Some ''k'') (rev demo_events) demo_hook \<and>
   length (filter (approves ''r1'') (h_log demo_hook)) = 1 \<and> clicks ''r1'' (rev demo_events) = 1 \<and>
   length (filter (approves ''r2'') (h_log demo_hook)) \<le> 2 * clicks ''r2'' (rev demo_events)"
  using demo_reaches approvals_bounded[OF demo_reaches, of "''r2''"]
  by (simp add: demo_log approves_def plain_def clicks_def demo_events_def)

text \<open>What is in the stash or was sent as an approval comes from a click, options included.\<close>

lemma approval_origin:
  assumes "reaches base tok evs h"
  shows "(\<forall>rid s. map_of (h_approveStash h) rid = Some s \<longrightarrow> Ev_approve rid (as_opts s) \<in> set evs) \<and>
    (\<forall>i c rid ao. Sent i c \<in> set (h_log h) \<and> oc_message c = Cm_approve rid ao \<longrightarrow>
       (\<exists>opts. Ev_approve rid opts \<in> set evs \<and> Cm_approve rid ao = approve_message rid opts))"
  using assms
proof (induction rule: reaches.induct)
  case start
  then show ?case by (simp add: initial_hook_def)
next
  case (event evs h e now)
  show ?case
  proof (cases "\<exists>i opts. e = Ev_approve i opts")
    case True
    then obtain i opts where e: "e = Ev_approve i opts" by blast
    have stash: "r = i \<and> as_opts s = opts \<or> map_of (h_approveStash h) r = Some s"
      if "map_of (h_approveStash (step now e h)) r = Some s" for r s
      using that by (auto simp: e approve_def Let_def jmap.get_set split: if_splits)
    have sent: "Sent j c \<in> set (h_log h) \<or> oc_message c = approve_message i opts"
      if "Sent j c \<in> set (h_log (step now e h))" for j c
      using that by (auto simp: e approve_def Let_def send_log plain_def split: option.splits)
    have own: "approve_message i opts = Cm_approve r ao \<Longrightarrow> r = i" for r ao
      by (simp add: approve_message_def)
    show ?thesis
    proof (intro conjI allI impI)
      fix r s assume "map_of (h_approveStash (step now e h)) r = Some s"
      from stash[OF this] event.IH show "Ev_approve r (as_opts s) \<in> set (e # evs)" by (auto simp: e)
    next
      fix j c r ao assume a: "Sent j c \<in> set (h_log (step now e h)) \<and> oc_message c = Cm_approve r ao"
      then have "Sent j c \<in> set (h_log h) \<or> r = i \<and> Cm_approve r ao = approve_message i opts"
        using sent own by metis
      with a event.IH show "\<exists>opts. Ev_approve r opts \<in> set (e # evs) \<and> Cm_approve r ao = approve_message r opts"
        by (metis e list.set_intros)
    qed
  next
    case False
    then have "consumes h (step now e h)" by (intro consumes_step) auto
    then obtain es where es: "consumes_by es h (step now e h)" by (auto simp: consumes_def)
    have stash: "map_of (h_approveStash (step now e h)) rid = Some s \<Longrightarrow> map_of (h_approveStash h) rid = Some s" for rid s
      using es unfolding consumes_by_def by (metis option.distinct(1))
    have sent: "Sent i c \<in> set (h_log h) \<or> (\<exists>s. map_of (h_approveStash h) rid = Some s \<and>
        Cm_approve rid ao = approve_message rid (as_opts s))"
      if "Sent i c \<in> set (h_log (step now e h))" "oc_message c = Cm_approve rid ao" for i c rid ao
      using es that unfolding consumes_by_def by fastforce
    show ?thesis
    proof (intro conjI allI impI)
      fix r s assume "map_of (h_approveStash (step now e h)) r = Some s"
      from stash[OF this] event.IH show "Ev_approve r (as_opts s) \<in> set (e # evs)" by simp
    next
      fix j c r ao assume a: "Sent j c \<in> set (h_log (step now e h)) \<and> oc_message c = Cm_approve r ao"
      with sent event.IH have "\<exists>opts. Ev_approve r opts \<in> set evs \<and> Cm_approve r ao = approve_message r opts"
        by blast
      then show "\<exists>opts. Ev_approve r opts \<in> set (e # evs) \<and> Cm_approve r ao = approve_message r opts" by auto
    qed
  qed
qed

text \<open>
  C2: Every approval on the wire is one the user clicked, for that very request and with the
  options of that click (edited input, always-allow, context): a replay cannot approve a
  different request or carry different options.
\<close>

theorem approvals_justified:
  assumes "reaches base tok evs h" and "Sent i c \<in> set (h_log h)" and "oc_message c = Cm_approve rid ao"
  shows "\<exists>opts. Ev_approve rid opts \<in> set evs \<and> Cm_approve rid ao = approve_message rid opts"
  using approval_origin[OF assms(1)] assms(2,3) by blast

theorem approvals_justified_witness:
  "reaches ''ws://h/ws'' (Some ''k'') (rev demo_events) demo_hook \<and>
   Sent 0 (plain (Cm_approve ''r1'' no_opts)) \<in> set (h_log demo_hook) \<and>
   (\<exists>opts. Ev_approve ''r1'' opts \<in> set (rev demo_events) \<and> Cm_approve ''r1'' no_opts = approve_message ''r1'' opts)"
  using demo_reaches approvals_justified[OF demo_reaches, of 0 "plain (Cm_approve ''r1'' no_opts)" "''r1''" no_opts]
  by (simp add: demo_log plain_def)

section \<open>Replaying after a reauthentication\<close>

text \<open>What the loop sends for one gated request, given the stashes and the queue at its start.\<close>

definition replay_of :: "decision_request list \<Rightarrow> hook \<Rightarrow> pending_reauth \<Rightarrow> client_message option" where
  "replay_of que h p =
     (if pa_tool_name p = ''InstallHooks''
      then if pa_request_id p \<in> h_installStash h then Some (Cm_install_hooks (pa_request_id p)) else None
      else case map_of (h_approveStash h) (pa_request_id p) of
        Some s \<Rightarrow> if as_toolName s = pa_tool_name p \<and> (\<exists>r \<in> set que. dr_id r = pa_request_id p)
                  then Some (approve_message (pa_request_id p) (as_opts s)) else None
      | None \<Rightarrow> None)"

lemma open_socket_cong:
  "h_wsRef h' = h_wsRef h \<Longrightarrow> h_sockets h' = h_sockets h \<Longrightarrow> open_socket h' = open_socket h"
  by (simp add: open_socket_def split: option.split)

lemma replay_frame [simp]:
  "h_wsRef (replay now que p h) = h_wsRef h" "h_sockets (replay now que p h) = h_sockets h"
  "h_state (replay now que p h) = h_state h" "h_pendingReauths (replay now que p h) = h_pendingReauths h"
  by (simp_all add: replay_def Let_def split: option.split)

lemma open_socket_replay [simp]: "open_socket (replay now que p h) = open_socket h"
  by (rule open_socket_cong) simp_all

lemma replay_log:
  "open_socket h = Some i \<Longrightarrow> h_log (replay now que p h) =
     h_log h @ (case replay_of que h p of Some m \<Rightarrow> [Sent i (plain m)] | None \<Rightarrow> [])"
  by (auto simp: replay_def replay_of_def Let_def send_log open_socket_def split: option.splits)

lemma replay_of_other:
  "pa_request_id p \<noteq> pa_request_id q \<Longrightarrow> replay_of que (replay now que p h) q = replay_of que h q"
  by (auto simp: replay_of_def replay_def Let_def jmap.get_del split: option.splits)

lemma replay_of_others:
  "pa_request_id p \<notin> pa_request_id ` set ps \<Longrightarrow>
   List.map_filter (replay_of que (replay now que p h)) ps = List.map_filter (replay_of que h) ps"
  by (induction ps) (auto simp: map_filter_simps replay_of_other split: option.split)

lemma fold_replay_log:
  assumes "distinct (map pa_request_id ps)" "open_socket h = Some i"
  shows "h_log (fold (replay now que) ps h) =
    h_log h @ map (\<lambda>m. Sent i (plain m)) (List.map_filter (replay_of que h) ps)"
  using assms
  by (induction ps arbitrary: h)
    (auto simp: map_filter_simps replay_log replay_of_others split: option.split)

lemma fold_replay_frame [simp]:
  "h_pendingReauths (fold (replay now que) ps h) = h_pendingReauths h"
  "h_state (fold (replay now que) ps h) = h_state h"
  by (induction ps arbitrary: h) simp_all

lemma gated_distinct: "hook_inv h \<Longrightarrow> distinct (map pa_request_id (gated h))"
proof -
  assume inv: "hook_inv h"
  then have "map pa_request_id (map snd (h_pendingReauths h)) = map fst (h_pendingReauths h)"
    by (auto simp: hook_inv_def)
  moreover have "distinct (map fst (h_pendingReauths h))" using inv by (simp add: hook_inv_def jmap_wf_def)
  ultimately have "distinct (map pa_request_id (map snd (h_pendingReauths h)))" by (simp only:)
  then show ?thesis by (auto simp: gated_def split: list.split option.split)
qed

text \<open>
  C6: A successful reauthentication replays, in the order of the gates and once each, exactly
  the gated commands that are still justified: an install that is still stashed, or an
  approve whose stashed tool is the gated one and whose request is still queued. Everything
  else that was gated is dropped, and the modal closes.
\<close>

theorem retry_replays_exactly:
  assumes "hook_inv h" and "open_socket h = Some i"
  shows "h_log (run_update now U_retryPendingApprove h) =
      h_log h @ map (\<lambda>m. Sent i (plain m)) (List.map_filter (replay_of (queue (h_state h)) h) (gated h)) \<and>
    h_pendingReauths (run_update now U_retryPendingApprove h) = [] \<and>
    pendingReauth (h_state (run_update now U_retryPendingApprove h)) = None"
proof -
  let ?h = "h\<lparr>h_pendingReauths := []\<rparr>"
  have same: "replay_of que ?h = replay_of que h" for que by (simp add: replay_of_def fun_eq_iff)
  have "open_socket ?h = Some i" using assms(2) open_socket_cong[of ?h h] by simp
  from fold_replay_log[OF gated_distinct[OF assms(1)] this] same show ?thesis by simp
qed

text \<open>A hook with an open socket and one gated approve, as after the daemon's refusal.\<close>

definition sample_request :: decision_request where
  "sample_request = \<lparr>dr_id = ''r1'', dr_agent_id = ''a'', dr_agent_type = AT_codex, dr_project = ''/p'',
     dr_tool_name = ''Bash'', dr_tool_input = JNull, dr_timestamp = ''t'', dr_hook_event_name = PreToolUse,
     dr_tool_use_id = None, dr_permission_suggestions = None, dr_event_data = None, dr_terminal_session_id = None\<rparr>"

definition gated_hook :: hook where
  "gated_hook = (initial_hook [] None)\<lparr>
     h_state := initial_state\<lparr>queue := [sample_request]\<rparr>,
     h_sockets := [\<lparr>sk_url = [], sk_ready = OPEN, sk_onclose = True\<rparr>], h_wsRef := Some 0,
     h_approveStash := [(''r1'', \<lparr>as_toolName = ''Bash'', as_opts = None\<rparr>)],
     h_pendingReauths := [(''r1'', \<lparr>pa_request_id = ''r1'', pa_tool_name = ''Bash''\<rparr>)]\<rparr>"

lemma gated_hook_inv: "hook_inv gated_hook" "open_socket gated_hook = Some 0"
  by (simp_all add: gated_hook_def hook_inv_def initial_hook_def state_inv_def initial_state_def jmap_wf_def open_socket_def)

theorem retry_replays_exactly_witness:
  "hook_inv gated_hook \<and> open_socket gated_hook = Some 0 \<and>
   h_log (run_update ''t'' U_retryPendingApprove gated_hook) = [Sent 0 (plain (Cm_approve ''r1'' no_opts))]"
  using gated_hook_inv retry_replays_exactly[OF gated_hook_inv, of "''t''"]
  by (simp add: gated_hook_def initial_hook_def gated_def replay_of_def map_filter_simps sample_request_def
      approve_message_def)

section \<open>StrictMode\<close>

text \<open>A gated request is spent once its stash entry is gone; replaying it again does nothing.\<close>

definition spent :: "pending_reauth \<Rightarrow> hook \<Rightarrow> bool" where
  "spent p h \<longleftrightarrow> (if pa_tool_name p = ''InstallHooks'' then pa_request_id p \<notin> h_installStash h
     else pa_request_id p \<notin> fst ` set (h_approveStash h))"

lemma replay_spent: "spent p h \<Longrightarrow> replay now que p h = h"
proof -
  assume sp: "spent p h"
  show ?thesis
  proof (cases "pa_tool_name p = ''InstallHooks''")
    case False
    with sp have "pa_request_id p \<notin> fst ` set (h_approveStash h)" by (simp add: spent_def)
    then have "map_of (h_approveStash h) (pa_request_id p) = None"
      "AList.delete (pa_request_id p) (h_approveStash h) = h_approveStash h"
      by (simp_all add: map_of_eq_None_iff)
    with False show ?thesis by (simp add: replay_def)
  qed (use sp in \<open>simp add: replay_def spent_def\<close>)
qed

lemma spent_replay_self: "spent p (replay now que p h)"
  by (auto simp: spent_def replay_def Let_def delete_notin_dom split: option.split)

lemma spent_replay_other: "spent p h \<Longrightarrow> spent p (replay now que q h)"
  using dom_delete_subset[of "pa_request_id q" "h_approveStash h"]
  by (auto simp: spent_def replay_def Let_def split: option.split if_splits)

lemma spent_fold: "p \<in> set ps \<or> spent p h \<Longrightarrow> spent p (fold (replay now que) ps h)"
proof (induction ps arbitrary: h)
  case (Cons q ps)
  then have "p \<in> set ps \<or> spent p (replay now que q h)"
    using spent_replay_self spent_replay_other by auto
  from Cons.IH[OF this] show ?case by simp
qed simp

text \<open>
  StrictMode's second call of the retry updater changes nothing: when the modal shows one
  of the accumulated gates (or none is accumulated), running the updater twice on the same
  state gives the same hook as running it once, so no approval is sent twice.
\<close>

theorem retry_strict_idempotent:
  assumes "h_pendingReauths h = [] \<or> (\<forall>p. pendingReauth (h_state h) = Some p \<longrightarrow> p \<in> snd ` set (h_pendingReauths h))"
  shows "run_update_mode True now U_retryPendingApprove h = run_update_mode False now U_retryPendingApprove h"
proof -
  let ?q = "queue (h_state h)"
  let ?k = "fold (replay now ?q) (gated h) (h\<lparr>h_pendingReauths := []\<rparr>)"
  have st: "h_state ?k = h_state h" and pend: "h_pendingReauths ?k = []" by simp_all
  have again: "fold (replay now ?q) (gated ?k) ?k = ?k"
  proof (cases "pendingReauth (h_state h)")
    case None
    then show ?thesis by (simp add: gated_def)
  next
    case (Some p)
    then have "gated ?k = [p]" by (simp add: gated_def)
    moreover have "p \<in> set (gated h)"
      using assms Some by (cases "h_pendingReauths h") (auto simp: gated_def)
    ultimately show ?thesis by (simp add: replay_spent spent_fold)
  qed
  have reset: "?k\<lparr>h_pendingReauths := []\<rparr> = ?k" using pend by simp
  have undo: "(update_state f ?k)\<lparr>h_state := h_state h\<rparr> = ?k" for f
    using st by (simp add: update_state_def)
  show ?thesis
    by (simp add: run_update_mode_def undo reset again st)
qed

theorem retry_strict_idempotent_witness:
  "pendingReauth (h_state gated_hook) = None \<and>
   run_update_mode True ''t'' U_retryPendingApprove gated_hook = run_update_mode False ''t'' U_retryPendingApprove gated_hook"
proof -
  have none: "pendingReauth (h_state gated_hook) = None"
    by (simp add: gated_hook_def initial_hook_def initial_state_def)
  then show ?thesis using retry_strict_idempotent[of gated_hook "''t''"] by simp
qed

section \<open>Dismissing the modal\<close>

lemma forget_frame [simp]:
  "h_state (forget p h) = h_state h" "h_pendingReauths (forget p h) = h_pendingReauths h"
  "h_log (forget p h) = h_log h"
  by (simp_all add: forget_def)

lemma fold_forget_frame [simp]:
  "h_state (fold forget ps h) = h_state h" "h_pendingReauths (fold forget ps h) = h_pendingReauths h"
  "h_log (fold forget ps h) = h_log h"
  by (induction ps arbitrary: h) simp_all

lemma fold_forget:
  "map_of (h_approveStash (fold forget ps h)) k =
     (if k \<in> pa_request_id ` set ps then None else map_of (h_approveStash h) k) \<and>
   h_installStash (fold forget ps h) = h_installStash h - pa_request_id ` set ps"
  by (induction ps arbitrary: h) (auto simp: forget_def jmap.get_del)

text \<open>
  C7: Cancelling the sudo modal abandons every request gated under it: nothing is sent, the
  stash entries of exactly those requests are gone (all others are kept), so no later
  reauthentication can replay them, and the modal closes.
\<close>

theorem dismiss_abandons:
  "h_log (run_update now U_dismissReauth h) = h_log h \<and>
   h_pendingReauths (run_update now U_dismissReauth h) = [] \<and>
   pendingReauth (h_state (run_update now U_dismissReauth h)) = None \<and>
   map_of (h_approveStash (run_update now U_dismissReauth h)) k =
     (if k \<in> pa_request_id ` set (gated h) then None else map_of (h_approveStash h) k) \<and>
   h_installStash (run_update now U_dismissReauth h) = h_installStash h - pa_request_id ` set (gated h) \<and>
   gated (run_update now U_dismissReauth h) = []"
  by (simp add: fold_forget gated_def)

section \<open>Errors are surfaced\<close>

definition shows_error :: "error_source \<Rightarrow> string \<Rightarrow> string \<Rightarrow> wisphive_state \<Rightarrow> bool" where
  "shows_error src msg t s \<longleftrightarrow> errors s \<noteq> [] \<and> ue_source (last (errors s)) = src \<and>
     ue_message (last (errors s)) = msg \<and> ue_at (last (errors s)) = t"

lemma push_error_shows: "shows_error src msg t (push_error src msg t s)"
  by (simp add: shows_error_def push_error_def appendError_last)

text \<open>
  No daemon error is dropped: an \<open>error\<close> or \<open>term_error\<close> frame is the newest row of the
  banner, and a \<open>command_error\<close> is either that or the refusal shown by the spawn it answers.
\<close>

theorem errors_surface:
  "shows_error Src_daemon msg now (reduce now (Sm_error msg) s) \<and>
   shows_error Src_terminal msg now (reduce now (Sm_term_error tid msg) s) \<and>
   (shows_error Src_daemon msg now (reduce now (Sm_command_error msg corr) s) \<or>
    (\<exists>c. corr = Some c \<and> spawn (reduce now (Sm_command_error msg corr) s) = Some (Spawn_refused c msg)))"
  by (auto simp: push_error_shows command_error_def split: option.split spawn_status.split)

text \<open>
  \<open>send\<close> reports what happened: it returns true exactly when the command went out on the
  open socket, and otherwise the next render shows the client error for that command unless
  the caller asked for quiet.
\<close>

theorem send_reports:
  "(case open_socket h of
      Some i \<Rightarrow> send now m quiet h = (emit (Sent i m) h, True)
    | None \<Rightarrow> \<not> snd (send now m quiet h) \<and> h_log (fst (send now m quiet h)) = h_log h \<and>
        (\<not> quiet \<longrightarrow> shows_error Src_client (not_sent (oc_message m)) now
           (h_state (render strict now' (fst (send now m quiet h))))))"
proof (cases "open_socket h")
  case None
  have "shows_error Src_client (not_sent (oc_message m)) now (h_state (render strict now' (setState u h)))"
    if "u = U_error Src_client (not_sent (oc_message m)) now" for u
    using that by (simp add: render_def setState_def run_update_mode_def push_error_shows)
  with None show ?thesis by (simp add: send_def)
qed (simp add: send_def)

theorem send_reports_witness:
  "shows_error Src_client (not_sent Cm_query_burn) ''t''
     (h_state (render False ''t'' (fst (send ''t'' (plain Cm_query_burn) False (initial_hook [] None)))))"
proof -
  have "open_socket (initial_hook [] None) = None" by (simp add: open_socket_def initial_hook_def)
  then show ?thesis
    using send_reports[where h = "initial_hook [] None" and m = "plain Cm_query_burn" and quiet = False
        and strict = False and now = "''t''" and now' = "''t''"]
    by (simp add: plain_def)
qed

section \<open>The spawn modal\<close>

text \<open>
  The tracked spawn follows its life cycle: whatever message arrives, it stays as it is,
  or moves from pending to queued, or from pending or queued to refused, always under the
  same correlation id; a refusal is final and an unrelated reply moves nothing.
\<close>

theorem spawn_lifecycle:
  "spawn_moves (spawn s) (spawn (reduce now m s)) \<and>
   (spawn (reduce now m s) \<noteq> spawn s \<longrightarrow>
     (\<exists>c. map_option correlationId (spawn s) = Some c \<and>
       ((\<exists>msg. m = Sm_command_error msg (Some c)) \<or> (\<exists>d. m = Sm_agent_spawn_queued d (Some c)))))"
proof
  show "spawn_moves (spawn s) (spawn (reduce now m s))" by (rule reduce_spawn_moves)
  show "spawn (reduce now m s) \<noteq> spawn s \<longrightarrow>
     (\<exists>c. map_option correlationId (spawn s) = Some c \<and>
       ((\<exists>msg. m = Sm_command_error msg (Some c)) \<or> (\<exists>d. m = Sm_agent_spawn_queued d (Some c))))"
    by (cases m) (auto simp: route_history_def install_result_def spawn_queued_def command_error_def Let_def
        split: option.split spawn_status.split)
qed

theorem spawn_lifecycle_witness:
  "spawn (reduce ''t'' (Sm_command_error ''no'' (Some ''c'')) (initial_state\<lparr>spawn := Some (Spawn_pending ''c'')\<rparr>))
     = Some (Spawn_refused ''c'' ''no'') \<and>
   (\<exists>c. map_option correlationId (Some (Spawn_pending ''c'')) = Some c \<and>
     (\<exists>msg. Sm_command_error ''no'' (Some ''c'') = Sm_command_error msg (Some c)))"
  using spawn_lifecycle[of "initial_state\<lparr>spawn := Some (Spawn_pending ''c'')\<rparr>" "''t''" "Sm_command_error ''no'' (Some ''c'')"]
  by (simp add: command_error_def)

section \<open>The audit feed\<close>

definition receive_all :: "(string \<times> server_message) list \<Rightarrow> wisphive_state \<Rightarrow> wisphive_state" where
  "receive_all ms s = fold (\<lambda>(now, m). reduce now m) ms s"

definition timed :: "server_message \<Rightarrow> bool" where
  "timed m = (case m of Sm_audit_snapshot items \<Rightarrow> \<forall>a \<in> set items. has_time (ad_ts a)
     | Sm_audit_decision a \<Rightarrow> has_time (ad_ts a) | _ \<Rightarrow> True)"

definition feed_ok :: "wisphive_state \<Rightarrow> bool" where
  "feed_ok s \<longleftrightarrow> distinct (map auditKey (auditDecisions s)) \<and>
     (\<forall>a \<in> set (auditDecisions s). has_time (ad_ts a)) \<and> newest_first.in_order (auditDecisions s)"

lemma feed_ok_merge:
  assumes "\<forall>a \<in> set primary \<union> set secondary. has_time (ad_ts a)"
  shows "feed_ok (s\<lparr>auditDecisions := mergeAuditDecisions primary secondary\<rparr>)"
  using assms merge_newest_first[OF assms] set_merge[of primary secondary]
  by (auto simp: feed_ok_def distinct_auditKey_merge)

lemma feed_ok_reduce: "feed_ok s \<Longrightarrow> timed m \<Longrightarrow> feed_ok (reduce now m s)"
proof (cases m)
  case (Sm_audit_decision a)
  assume "feed_ok s" "timed m"
  then have "\<forall>b \<in> set [a] \<union> set (auditDecisions s). has_time (ad_ts b)"
    using Sm_audit_decision by (simp add: feed_ok_def timed_def)
  from feed_ok_merge[OF this] Sm_audit_decision show ?thesis by simp
next
  case (Sm_audit_snapshot items)
  assume "timed m"
  then have "\<forall>b \<in> set [] \<union> set items. has_time (ad_ts b)"
    using Sm_audit_snapshot by (simp add: timed_def)
  from feed_ok_merge[OF this] Sm_audit_snapshot show ?thesis by simp
next
  case (Sm_deferred_resolved u a t ts ans)
  assume "feed_ok s"
  then show ?thesis using Sm_deferred_resolved
    by (auto simp: feed_ok_def distinct_map_filter sorted_wrt_filter)
next
  case (Sm_command_error msg c)
  assume "feed_ok s"
  with Sm_command_error show ?thesis
    by (auto simp: command_error_def push_error_def feed_ok_def split: option.split spawn_status.split)
qed (auto simp: feed_ok_def route_history_def install_result_def spawn_queued_def push_error_def Let_def
      split: option.split spawn_status.split)

text \<open>
  The audit feed: whatever messages arrive in whatever order, it has one row per audit
  key and lists the newest first, as long as the timestamps denote instants.
\<close>

theorem audit_feed_newest_first:
  assumes "\<forall>(now, m) \<in> set ms. timed m"
  shows "distinct (map auditKey (auditDecisions (receive_all ms initial_state))) \<and>
    sorted_wrt (\<lambda>a b. the (get_time (ad_ts b)) \<le> the (get_time (ad_ts a))) (auditDecisions (receive_all ms initial_state))"
proof -
  have "feed_ok s \<Longrightarrow> feed_ok (receive_all ms s)" for s
    using assms unfolding receive_all_def by (induction ms arbitrary: s) (auto simp: feed_ok_reduce)
  moreover have "feed_ok initial_state" by (simp add: feed_ok_def initial_state_def)
  ultimately have ok: "feed_ok (receive_all ms initial_state)" by blast
  have "the (get_time (ad_ts b)) \<le> the (get_time (ad_ts a))"
    if "has_time (ad_ts a)" "has_time (ad_ts b)" "cmp_time ad_ts b a \<le> 0" for a b
    using that by (simp add: cmp_time_le)
  with ok show ?thesis
    by (auto simp: feed_ok_def intro: sorted_wrt_mono_rel[rotated])
qed

definition sample_audit :: "string \<Rightarrow> audit_decision" where
  "sample_audit ts = \<lparr>ad_kind = K_deferred, ad_decided_by = None, ad_project = ''/p'', ad_agent_id = ''a'',
     ad_terminal_session_id = None, ad_tool_name = ''Ask'', ad_ts = ts, ad_tool_use_id = Some ''u'',
     ad_resolved = None, ad_tool_input = None\<rparr>"

theorem audit_feed_newest_first_witness:
  "timed (Sm_audit_decision (sample_audit ''2026-07-14T10:00:00Z'')) \<and>
   distinct (map auditKey (auditDecisions
     (receive_all [(''t'', Sm_audit_decision (sample_audit ''2026-07-14T10:00:00Z''))] initial_state)))"
proof -
  have "has_time ''2026-07-14T10:00:00Z''" by code_simp
  then have t: "\<forall>(now, m) \<in> set [(''t'', Sm_audit_decision (sample_audit ''2026-07-14T10:00:00Z''))]. timed m"
    by (simp add: timed_def sample_audit_def)
  with audit_feed_newest_first[OF t] show ?thesis by simp
qed

lemma mem_iff_find: "distinct (map f xs) \<Longrightarrow> a \<in> set xs \<longleftrightarrow> find (\<lambda>x. f x = f a) xs = Some a"
  by (induction xs) auto

text \<open>
  Merging audit rows loses no key and prefers the newer frame: every key of the input has
  exactly one row, and for a key on both sides that row is the one of the first list.
\<close>

theorem merge_audit_exact:
  "distinct (map auditKey (mergeAuditDecisions primary secondary)) \<and>
   auditKey ` set (mergeAuditDecisions primary secondary) = auditKey ` (set primary \<union> set secondary) \<and>
   (a \<in> set (mergeAuditDecisions primary secondary) \<longleftrightarrow>
      find (\<lambda>x. auditKey x = auditKey a) (primary @ secondary) = Some a)"
proof -
  let ?f = "first_by auditKey [] (primary @ secondary)"
  have "a \<in> set ?f \<longleftrightarrow> find (\<lambda>x. auditKey x = auditKey a) ?f = Some a"
    using distinct_first_by[of auditKey "[]" "primary @ secondary"] by (rule mem_iff_find)
  also have "\<dots> \<longleftrightarrow> find (\<lambda>x. auditKey x = auditKey a) (primary @ secondary) = Some a"
    by (simp add: first_by_find)
  finally have "a \<in> set (mergeAuditDecisions primary secondary) \<longleftrightarrow>
      find (\<lambda>x. auditKey x = auditKey a) (primary @ secondary) = Some a"
    by (simp add: mergeAuditDecisions_def)
  with distinct_auditKey_merge keys_merge show ?thesis by blast
qed

text \<open>
  Two audit rows have the same key exactly when they agree on all eight key fields, an
  absent option counting as empty, provided no field contains NUL; so rows that differ only
  in their tool-use id are never merged.
\<close>

theorem audit_key_exact:
  assumes "\<forall>w \<in> set (audit_fields a) \<union> set (audit_fields b). char_of (0::nat) \<notin> set w"
  shows "auditKey a = auditKey b \<longleftrightarrow> audit_fields a = audit_fields b"
  using join_with_inj[OF _ assms] by (auto simp: auditKey_def nul_char_def audit_fields_def)

theorem audit_key_exact_witness:
  "auditKey (sample_audit ''x'') = auditKey (sample_audit ''y'') \<longleftrightarrow> False"
proof -
  have "\<forall>w \<in> set (audit_fields (sample_audit ''x'')) \<union> set (audit_fields (sample_audit ''y'')). char_of (0::nat) \<notin> set w"
    by code_simp
  from audit_key_exact[OF this] show ?thesis
    by (simp add: audit_fields_def sample_audit_def)
qed

end
