(* ===== verification/Wisphive_Lifecycle.thy ===== *)
theory Wisphive_Lifecycle
  imports Wisphive_Properties
begin

text \<open>
  The properties of the hook's imperative side: which terminal handler gets which bytes,
  the cleanup of registrations, and what happens to the connection on logout, on a refused
  token, and on any other close.
\<close>

section \<open>Terminal output\<close>

lemma decode_encode: "decodeBase64 n (encodeBase64 n' bs) = Some bs"
proof -
  have "decodeBase64 True (encodeBase64 n' bs) = Some bs" by (rule encoded_bytes)
  then show ?thesis by (cases n) (simp_all add: branches_agree)
qed

lemma deliver_encoded:
  "deliver br tid ch (encodeBase64 n bs) rm h =
     (case map_of (h_handlers h) tid of
        Some r \<Rightarrow> if rg_replayMode r = rm then emit (Output (rg_handler r) tid ch bs) h else h
      | None \<Rightarrow> h)"
  by (simp add: deliver_def decode_encode split: option.split)

text \<open>
  C35: PTY bytes reach exactly the handler registered for their session, unchanged: live
  chunks and catch-up screens only a live registration, replay chunks only a replaying one,
  echoed input and resize events nobody; no state update is queued for them.
\<close>

theorem terminal_routing:
  "receive br now (Sm_term_chunk tid sq us dir (encodeBase64 n bs)) h =
     (case map_of (h_handlers h) tid of
        Some r \<Rightarrow> if dir = TD_output \<and> \<not> rg_replayMode r then emit (Output (rg_handler r) tid Ch_chunk bs) h else h
      | None \<Rightarrow> h) \<and>
   receive br now (Sm_term_catchup tid cols rows nxt (encodeBase64 n bs)) h =
     (case map_of (h_handlers h) tid of
        Some r \<Rightarrow> if \<not> rg_replayMode r then emit (Output (rg_handler r) tid Ch_catchup bs) h else h
      | None \<Rightarrow> h) \<and>
   receive br now (Sm_term_replay_chunk tid sq us dir (encodeBase64 n bs)) h =
     (case map_of (h_handlers h) tid of
        Some r \<Rightarrow> if dir = TD_output \<and> rg_replayMode r then emit (Output (rg_handler r) tid Ch_replay_chunk bs) h else h
      | None \<Rightarrow> h)"
  by (auto simp: receive_def note_gate_def deliver_encoded split: option.split)

text \<open>
  A registration replaces the previous one of its session, and the cleanup of an older
  registration, whenever it runs, leaves the newer one in place; only its own cleanup
  removes it.
\<close>

theorem stale_cleanup_harmless:
  assumes "old < h_nextObject h"
  shows "unregisterTerminalHandler tid old (registerTerminalHandler tid f rm h) = registerTerminalHandler tid f rm h \<and>
    map_of (h_handlers (unregisterTerminalHandler tid (h_nextObject h) (registerTerminalHandler tid f rm h))) tid = None"
  using assms by (simp add: registerTerminalHandler_def unregisterTerminalHandler_def jmap.get_set jmap.get_del)

theorem stale_cleanup_harmless_witness:
  "unregisterTerminalHandler ''s'' 0 (registerTerminalHandler ''s'' 2 (Some True) (registerTerminalHandler ''s'' 1 None (initial_hook [] None)))
   = registerTerminalHandler ''s'' 2 (Some True) (registerTerminalHandler ''s'' 1 None (initial_hook [] None))"
proof -
  have "0 < h_nextObject (registerTerminalHandler ''s'' 1 None (initial_hook [] None))"
    by (simp add: registerTerminalHandler_def)
  from stale_cleanup_harmless[OF this] show ?thesis by blast
qed

section \<open>Losing the token\<close>

lemma teardown_fields:
  "h_token (drop_socket (abort_probe (clear_timer h))) = h_token h"
  "h_timers (drop_socket (abort_probe (clear_timer h))) =
     h_timers h - set_option (h_reconnectTimer h)"
  "h_probes (drop_socket (abort_probe (clear_timer h))) = h_probes h - set_option (h_authProbe h)"
  "h_authProbe (drop_socket (abort_probe (clear_timer h))) = None"
  "h_sockets (drop_socket (abort_probe (clear_timer h))) =
     (case h_wsRef h of Some i \<Rightarrow> (h_sockets h)[i := close_socket (h_sockets h ! i)] | None \<Rightarrow> h_sockets h)"
  by (simp_all add: drop_socket_def abort_probe_def clear_timer_def split: option.split)

lemma clearWebToken_unfold:
  "clearWebToken h = (drop_socket (abort_probe (clear_timer (h\<lparr>h_token := None\<rparr>))))\<lparr>h_wsRef := None\<rparr>"
  by (simp add: clearWebToken_def auth_changed_def has_token_def getWebToken_def)

text \<open>
  Logging out, or a refused token, tears the connection down for good: the token and the
  socket ref are gone, the socket is closing with its close handler detached, so its later
  close schedules nothing, the pending reconnect timer and probe are cancelled, and
  \<open>connect\<close> does not dial until a token appears.
\<close>

theorem logout_tears_down:
  assumes "hook_inv h" and "h_wsRef h = Some i"
  shows "h_token (clearWebToken h) = None \<and> h_wsRef (clearWebToken h) = None \<and>
    sk_ready (h_sockets (clearWebToken h) ! i) \<in> {CLOSING, CLOSED} \<and>
    onclose i code (clearWebToken h) = set_ready i CLOSED (clearWebToken h) \<and>
    h_timers (clearWebToken h) = h_timers h - set_option (h_reconnectTimer h) \<and>
    h_probes (clearWebToken h) = h_probes h - set_option (h_authProbe h) \<and>
    h_sockets (connect (clearWebToken h)) = h_sockets (clearWebToken h)"
proof -
  have i: "i < length (h_sockets h)" using assms by (simp add: hook_inv_def)
  have sk: "h_sockets (clearWebToken h) = (h_sockets h)[i := close_socket (h_sockets h ! i)]"
    using assms(2) by (simp add: clearWebToken_unfold teardown_fields)
  have "open_socket (clearWebToken h) = None"
    by (simp add: clearWebToken_unfold open_socket_def)
  moreover have "getWebToken (clearWebToken h) = None"
    by (simp add: clearWebToken_unfold getWebToken_def teardown_fields)
  ultimately have "h_sockets (connect (clearWebToken h)) = h_sockets (clearWebToken h)"
    by (simp add: connect_def)
  with i show ?thesis
    by (simp add: sk onclose_def close_socket_def) (simp add: clearWebToken_unfold teardown_fields)
qed

theorem logout_tears_down_witness:
  "hook_inv gated_hook \<and> h_wsRef gated_hook = Some 0 \<and> h_wsRef (clearWebToken gated_hook) = None"
proof -
  have ref: "h_wsRef gated_hook = Some 0" by (simp add: gated_hook_def)
  show ?thesis using gated_hook_inv(1) ref logout_tears_down[OF gated_hook_inv(1) ref] by blast
qed

text \<open>
  A close with one of the auth codes (1008, 4401, 4403) clears the token and arms no
  timer, so the client re-gates to Login and does not hammer the endpoint.
\<close>

theorem auth_close_regates:
  assumes "sk_onclose (h_sockets h ! i)" and "code \<in> auth_close_codes"
  shows "h_token (onclose i code h) = None \<and> h_timers (onclose i code h) \<subseteq> h_timers h"
  using assms by (auto simp: onclose_def clearWebToken_unfold teardown_fields setState_def set_ready_def)

theorem auth_close_regates_witness:
  "sk_onclose (h_sockets gated_hook ! 0) \<and> 4401 \<in> auth_close_codes \<and> h_token (onclose 0 4401 gated_hook) = None"
proof -
  have a: "sk_onclose (h_sockets gated_hook ! 0)" by (simp add: gated_hook_def)
  have b: "(4401::nat) \<in> auth_close_codes" by (simp add: auth_close_codes_def)
  show ?thesis using a b auth_close_regates[OF a b] by blast
qed

section \<open>Reconnecting\<close>

lemma onclose_closed:
  "sk_onclose (h_sockets h ! i) \<Longrightarrow> code \<notin> auth_close_codes \<Longrightarrow>
   onclose i code h = arm_timer (if code = 1006 \<and> \<not> h_wsEverOpened h \<and> has_token h
     then start_probe (setState U_disconnected (set_ready i CLOSED h)) else setState U_disconnected (set_ready i CLOSED h))"
  by (auto simp: onclose_def set_ready_def setState_def has_token_def getWebToken_def Let_def split: option.split)

lemma closed_fields:
  "h_sockets (start_probe h) = h_sockets h" "h_wsRef (start_probe h) = h_wsRef h" "h_token (start_probe h) = h_token h"
  "h_wsBase (start_probe h) = h_wsBase h" "h_timers (start_probe h) = h_timers h" "h_nextTimer (start_probe h) = h_nextTimer h"
  "h_wsRef (set_ready i r h) = h_wsRef h" "h_token (set_ready i r h) = h_token h" "h_wsBase (set_ready i r h) = h_wsBase h"
  "h_timers (set_ready i r h) = h_timers h" "h_nextTimer (set_ready i r h) = h_nextTimer h"
  "h_sockets (set_ready i r h) = (h_sockets h)[i := (h_sockets h ! i)\<lparr>sk_ready := r\<rparr>]"
  "h_wsBase (setState u h) = h_wsBase h" "h_timers (setState u h) = h_timers h" "h_nextTimer (setState u h) = h_nextTimer h"
  by (simp_all add: start_probe_def abort_probe_def set_ready_def setState_def Let_def split: option.split)

lemma settle_rejected: "h_token (settle_probe p (Some 401) h) = None"
  by (simp add: settle_probe_def clearWebToken_unfold teardown_fields Let_def)

text \<open>
  After any other close of an attached socket the hook reconnects: a timer is armed, and
  when it fires with a token in place a new socket is dialled with that token and becomes
  the current one; with a socket that never opened, an abnormal close also starts the probe
  that clears the token if the server rejects it.
\<close>

theorem close_reconnects:
  assumes "i < length (h_sockets h)" "h_wsRef h = Some i" "sk_onclose (h_sockets h ! i)" "code \<notin> auth_close_codes"
    and "h_token h = Some tok" "tok \<noteq> []"
  shows "h_nextTimer h \<in> h_timers (onclose i code h) \<and>
    h_sockets (fire_timer (h_nextTimer h) (onclose i code h)) =
      h_sockets (onclose i code h) @ [\<lparr>sk_url = ws_url (h_wsBase h) tok, sk_ready = CONNECTING, sk_onclose = True\<rparr>] \<and>
    h_wsRef (fire_timer (h_nextTimer h) (onclose i code h)) = Some (length (h_sockets h)) \<and>
    (code = 1006 \<and> \<not> h_wsEverOpened h \<longrightarrow> h_nextProbe h \<in> h_probes (onclose i code h) \<and>
       h_token (settle_probe (h_nextProbe h) (Some 401) (onclose i code h)) = None)"
proof -
  have "h_nextTimer h \<in> h_timers (onclose i code h)"
    using assms by (simp add: onclose_closed arm_timer_def closed_fields)
  moreover have "h_sockets (fire_timer (h_nextTimer h) (onclose i code h)) =
      h_sockets (onclose i code h) @ [\<lparr>sk_url = ws_url (h_wsBase h) tok, sk_ready = CONNECTING, sk_onclose = True\<rparr>] \<and>
    h_wsRef (fire_timer (h_nextTimer h) (onclose i code h)) = Some (length (h_sockets h))"
    using assms
    by (auto simp: onclose_closed fire_timer_def connect_def open_socket_def getWebToken_def arm_timer_def
        closed_fields)
  moreover have "h_nextProbe h \<in> h_probes (onclose i code h)" if "code = 1006 \<and> \<not> h_wsEverOpened h"
    using assms that by (simp add: onclose_closed arm_timer_def start_probe_def abort_probe_def Let_def
        set_ready_def has_token_def getWebToken_def setState_def split: option.split)
  ultimately show ?thesis by (auto simp: settle_rejected)
qed

theorem close_reconnects_witness:
  "h_wsRef (fire_timer 0 (onclose 0 1001 (gated_hook\<lparr>h_token := Some ''k''\<rparr>))) = Some 1"
  using close_reconnects[of 0 "gated_hook\<lparr>h_token := Some ''k''\<rparr>" 1001 "''k''"]
  by (simp add: gated_hook_def initial_hook_def auth_close_codes_def)

text \<open>
  \<open>connect\<close> returns early only for an open socket. A token notification that arrives while the
  first dial is still connecting therefore dials a second time; both sockets open, and every
  broadcast is then handled twice.
\<close>

theorem second_dial:
  "map sk_ready (h_sockets (fold (step now) [Ev_mount, Ev_setWebToken ''k'', Ev_open 0, Ev_open 1]
     (initial_hook base (Some ''k'')))) = [OPEN, OPEN]"
  by (simp add: connect_def open_socket_def getWebToken_def initial_hook_def setWebToken_def auth_changed_def
      has_token_def clear_timer_def onopen_def set_ready_def)

end
