(* ===== verification/Tool_Input.thy ===== *)
theory Tool_Input
  imports Protocol_Readers
begin

text \<open>
  \<open>components/toolInput.ts\<close>: untrusted tool input is validated once and normalised. A field
  read gives \<open>json option\<close> (\<open>None\<close> is \<open>undefined\<close>), a nullable string is an option.
\<close>

section \<open>Data\<close>

record common_tool_input =
  ct_filePath :: "string option"
  ct_content :: "string option"
  ct_pattern :: "string option"
  ct_path :: "string option"
  ct_fileType :: "string option"
  ct_glob :: "string option"
  ct_outputMode :: "string option"
  ct_prompt :: "string option"
  ct_source :: "string option"
  ct_lastAssistantMessage :: "string option"

record bash_input =
  bi_command :: "string option"
  bi_description :: "string option"

record edit_input =
  ei_oldString :: "string option"
  ei_newString :: "string option"

record ask_option =
  qo_label :: string
  qo_description :: "string option"

record ask_question =
  aq_header :: "string option"
  aq_question :: string
  aq_options :: "ask_option list"

datatype tool_kind =
    Tk_bash bash_input
  | Tk_edit edit_input
  | Tk_ask "ask_question list option"
  | Tk_other

record parsed_tool_input =
  pt_raw :: "json option"
  pt_value :: json_object
  pt_fields :: common_tool_input
  pt_kind :: tool_kind

section \<open>Validation\<close>

definition isRecord :: "json option \<Rightarrow> bool" where
  "isRecord v = (case v of Some (JObj kvs) \<Rightarrow> True | _ \<Rightarrow> False)"

definition stringField :: "json option \<Rightarrow> string option" where
  "stringField v = (case v of Some (JStr s) \<Rightarrow> Some s | _ \<Rightarrow> None)"

definition is_string :: "json option \<Rightarrow> bool" where
  "is_string v = (case v of Some (JStr s) \<Rightarrow> True | _ \<Rightarrow> False)"

definition isQuestionOption :: "json \<Rightarrow> bool" where
  "isQuestionOption v = (case v of
       JObj kvs \<Rightarrow> is_string (map_of kvs ''label'') \<and>
         (map_of kvs ''description'' = None \<or> is_string (map_of kvs ''description''))
     | _ \<Rightarrow> False)"

definition isQuestion :: "json \<Rightarrow> bool" where
  "isQuestion v = (case v of
       JObj kvs \<Rightarrow> is_string (map_of kvs ''question'') \<and>
         (map_of kvs ''header'' = None \<or> is_string (map_of kvs ''header'')) \<and>
         (case map_of kvs ''options'' of None \<Rightarrow> True
          | Some (JArr os) \<Rightarrow> list_all isQuestionOption os | Some _ \<Rightarrow> False)
     | _ \<Rightarrow> False)"

text \<open>The fields of a value that passed the guards above.\<close>

definition props :: "json \<Rightarrow> json_object" where
  "props v = (case v of JObj kvs \<Rightarrow> kvs | _ \<Rightarrow> [])"

definition string_of :: "json option \<Rightarrow> string" where
  "string_of v = (case v of Some (JStr s) \<Rightarrow> s | _ \<Rightarrow> [])"

definition to_option :: "json \<Rightarrow> ask_option" where
  "to_option v = \<lparr>qo_label = string_of (map_of (props v) ''label''),
     qo_description = stringField (map_of (props v) ''description'')\<rparr>"

definition to_question :: "json \<Rightarrow> ask_question" where
  "to_question v = \<lparr>aq_header = stringField (map_of (props v) ''header''),
     aq_question = string_of (map_of (props v) ''question''),
     aq_options = (case map_of (props v) ''options'' of Some (JArr os) \<Rightarrow> map to_option os | _ \<Rightarrow> [])\<rparr>"

definition parseQuestions :: "json option \<Rightarrow> ask_question list option" where
  "parseQuestions v = (case v of
       Some (JArr vs) \<Rightarrow> if vs = [] \<or> \<not> list_all isQuestion vs then None else Some (map to_question vs)
     | _ \<Rightarrow> None)"

definition normal_name :: "string \<Rightarrow> string" where
  "normal_name toolName = filter is_lower (to_lower toolName)"

definition parseToolInput :: "string \<Rightarrow> json option \<Rightarrow> parsed_tool_input" where
  "parseToolInput toolName raw =
     (let kvs = (case raw of Some (JObj kvs) \<Rightarrow> kvs | _ \<Rightarrow> []);
          str = (\<lambda>k. stringField (map_of kvs k));
          fields = \<lparr>ct_filePath = str ''file_path'', ct_content = str ''content'', ct_pattern = str ''pattern'',
            ct_path = str ''path'', ct_fileType = str ''type'', ct_glob = str ''glob'',
            ct_outputMode = str ''output_mode'', ct_prompt = str ''prompt'', ct_source = str ''source'',
            ct_lastAssistantMessage = str ''last_assistant_message''\<rparr>;
          name = normal_name toolName
      in \<lparr>pt_raw = raw, pt_value = kvs, pt_fields = fields,
          pt_kind =
            (if name = ''bash'' then Tk_bash \<lparr>bi_command = str ''command'', bi_description = str ''description''\<rparr>
             else if name = ''edit'' \<or> name = ''multiedit''
             then Tk_edit \<lparr>ei_oldString = str ''old_string'', ei_newString = str ''new_string''\<rparr>
             else if name = ''askuserquestion'' then Tk_ask (parseQuestions (map_of kvs ''questions''))
             else Tk_other)\<rparr>)"

section \<open>The wire shape of a question\<close>

definition opt_field :: "string \<Rightarrow> string option \<Rightarrow> json_object" where
  "opt_field k v = (case v of Some s \<Rightarrow> [(k, JStr s)] | None \<Rightarrow> [])"

definition option_json :: "ask_option \<Rightarrow> json" where
  "option_json ao = JObj ((''label'', JStr (qo_label ao)) # opt_field ''description'' (qo_description ao))"

definition question_json :: "ask_question \<Rightarrow> json" where
  "question_json q = JObj ([(''question'', JStr (aq_question q)), (''options'', JArr (map option_json (aq_options q)))]
     @ opt_field ''header'' (aq_header q))"

lemma option_json_back: "isQuestionOption (option_json ao) \<and> to_option (option_json ao) = ao"
  by (cases "qo_description ao")
    (simp_all add: option_json_def isQuestionOption_def to_option_def props_def is_string_def string_of_def
      stringField_def opt_field_def)

lemma question_json_back: "isQuestion (question_json q) \<and> to_question (question_json q) = q"
proof -
  have "map (to_option \<circ> option_json) os = os" for os
    by (induction os) (simp_all add: option_json_back)
  moreover have "list_all isQuestionOption (map option_json os)" for os
    by (induction os) (simp_all add: option_json_back)
  ultimately show ?thesis
    by (cases "aq_header q")
      (simp_all add: question_json_def isQuestion_def to_question_def props_def is_string_def string_of_def
        stringField_def opt_field_def)
qed

lemma parse_question_list: "qs \<noteq> [] \<Longrightarrow> parseQuestions (Some (JArr (map question_json qs))) = Some qs"
proof -
  have "list_all isQuestion (map question_json qs)" "map (to_question \<circ> question_json) qs = qs"
    by (induction qs) (simp_all add: question_json_back)
  then show "qs \<noteq> [] \<Longrightarrow> ?thesis" by (simp add: parseQuestions_def)
qed

lemma parse_questions_bad: "\<not> isQuestion bad \<Longrightarrow> parseQuestions (Some (JArr (vs @ bad # ws))) = None"
  by (simp add: parseQuestions_def)

section \<open>Properties\<close>

text \<open>
  Questions survive validation: the payload of any non-empty list of questions, under any
  spelling of the tool's name (case, separators), is read back exactly, and one ill-formed
  question makes the whole payload unreadable instead of showing a part of it.
\<close>

theorem questions_all_or_nothing:
  assumes "normal_name toolName = ''askuserquestion''" and "qs \<noteq> []"
  shows "pt_kind (parseToolInput toolName (Some (JObj ((''questions'', JArr (map question_json qs)) # rest)))) = Tk_ask (Some qs) \<and>
    (\<forall>bad vs ws. \<not> isQuestion bad \<longrightarrow>
      pt_kind (parseToolInput toolName (Some (JObj ((''questions'', JArr (vs @ bad # ws)) # rest)))) = Tk_ask None)"
  using assms by (auto simp: parseToolInput_def Let_def parse_question_list parse_questions_bad)

theorem questions_all_or_nothing_witness:
  "normal_name ''Ask_User_Question'' = ''askuserquestion'' \<and> \<not> isQuestion JNull \<and>
   pt_kind (parseToolInput ''Ask_User_Question'' (Some (JObj [(''questions'', JArr [JNull])]))) = Tk_ask None"
proof -
  have a: "normal_name ''Ask_User_Question'' = ''askuserquestion''" by code_simp
  have b: "\<not> isQuestion JNull" by (simp add: isQuestion_def)
  have "pt_kind (parseToolInput ''Ask_User_Question'' (Some (JObj ((''questions'', JArr ([] @ JNull # [])) # [])))) = Tk_ask None"
    using b questions_all_or_nothing[OF a, of "[\<lparr>aq_header = None, aq_question = ''q'', aq_options = []\<rparr>]" "[]"] by blast
  with a b show ?thesis by simp
qed

end
