(* ===== verification/Queue_Utils.thy ===== *)
theory Queue_Utils
  imports Tool_Input
begin

text \<open>
  \<open>components/queueUtils.ts\<close>: the labels, summaries and orderings shared by the inbox, the
  keyboard navigation and the liveness board. \<open>JSON.stringify(v, null, 2)\<close> is written out;
  only the rendering of a number is a parameter, since JavaScript prints the shortest
  decimal that reads back as the same double.
\<close>

section \<open>JSON.stringify with indentation\<close>

definition hex_lower :: "nat \<Rightarrow> char" where
  "hex_lower n = (if n < 10 then char_of (48 + n) else char_of (87 + n))"

definition newline :: char where
  "newline = char_of (10::nat)"

definition json_escape :: "char \<Rightarrow> string" where
  "json_escape c = (let n = of_char c :: nat in
     if n = 34 then [char_of (92::nat), c] else if n = 92 then [c, c]
     else if n = 8 then [char_of (92::nat), CHR ''b''] else if n = 12 then [char_of (92::nat), CHR ''f'']
     else if n = 10 then [char_of (92::nat), CHR ''n''] else if n = 13 then [char_of (92::nat), CHR ''r'']
     else if n = 9 then [char_of (92::nat), CHR ''t'']
     else if n < 32 then char_of (92::nat) # ''u00'' @ [hex_lower (n div 16), hex_lower (n mod 16)]
     else [c])"

definition json_quote :: "string \<Rightarrow> string" where
  "json_quote s = CHR 0x22 # concat (map json_escape s) @ [CHR 0x22]"

fun stringify :: "(rat \<Rightarrow> string) \<Rightarrow> nat \<Rightarrow> json \<Rightarrow> string" where
  "stringify num ind JNull = ''null''"
| "stringify num ind (JBool b) = (if b then ''true'' else ''false'')"
| "stringify num ind (JNum n) = (case n of Fin q \<Rightarrow> num q | _ \<Rightarrow> ''null'')"
| "stringify num ind (JStr s) = json_quote s"
| "stringify num ind (JArr vs) =
     (if vs = [] then ''[]''
      else ''['' @ newline # join_with ('','' @ [newline])
             (map (\<lambda>v. replicate (ind + 2) (CHR '' '') @ stringify num (ind + 2) v) vs)
           @ newline # replicate ind (CHR '' '') @ '']'')"
| "stringify num ind (JObj kvs) =
     (if kvs = [] then ''{}''
      else ''{'' @ newline # join_with ('','' @ [newline])
             (map (\<lambda>(k, v). replicate (ind + 2) (CHR '' '') @ json_quote k @ '': '' @ stringify num (ind + 2) v) kvs)
           @ newline # replicate ind (CHR '' '') @ ''}'')"

section \<open>Labels\<close>

definition timeAgo :: "string \<Rightarrow> int \<Rightarrow> string" where
  "timeAgo timestamp nowMs =
     (case get_time timestamp of
        None \<Rightarrow> ''NaNh''
      | Some t \<Rightarrow>
          (let seconds = (nowMs - t) div 1000 in
           if seconds < 60 then show_int seconds @ ''s''
           else if seconds < 3600 then show_int (seconds div 60) @ ''m''
           else show_int (seconds div 3600) @ ''h''))"

definition eventPrefix :: "string \<Rightarrow> string" where
  "eventPrefix eventName =
     (if eventName = ''PermissionRequest'' then ''P''
      else if eventName = ''Elicitation'' then ''E''
      else if eventName = ''Stop'' \<or> eventName = ''SubagentStop'' then ''S''
      else if eventName = ''UserPromptSubmit'' then ''U''
      else if eventName = ''ConfigChange'' then ''C''
      else if eventName = ''TeammateIdle'' then ''T''
      else if eventName = ''TaskCompleted'' then ''D''
      else [])"

definition clip :: "string \<Rightarrow> string" where
  "clip s = (if length s > 80 then slice s 0 77 @ ''...'' else s)"

text \<open>A value is truthy: a non-empty string.\<close>

definition truthy :: "string option \<Rightarrow> bool" where
  "truthy s = (case s of Some t \<Rightarrow> t \<noteq> [] | None \<Rightarrow> False)"

definition inputSummary :: "decision_request \<Rightarrow> string option" where
  "inputSummary item =
     (let parsed = parseToolInput (dr_tool_name item) (Some (dr_tool_input item));
          fields = pt_fields parsed;
          eventData = (case dr_event_data item of Some (JObj kvs) \<Rightarrow> kvs | _ \<Rightarrow> []);
          later = (case map_of eventData ''last_assistant_message'' of
              Some (JStr msg) \<Rightarrow> Some (clip msg)
            | _ \<Rightarrow> (case map_of eventData ''plan_content'' of
                Some (JStr p) \<Rightarrow> Some ''Plan ready for review'' | _ \<Rightarrow> None));
          common =
            (if truthy (ct_filePath fields) then ct_filePath fields
             else if truthy (ct_pattern fields) then Some (''/'' @ the (ct_pattern fields) @ ''/'')
             else case pt_kind parsed of
               Tk_ask (Some qs) \<Rightarrow> if qs \<noteq> [] \<and> aq_question (hd qs) \<noteq> [] then Some (clip (aq_question (hd qs))) else later
             | _ \<Rightarrow> later)
      in case pt_kind parsed of
           Tk_bash b \<Rightarrow> if truthy (bi_command b) then Some (clip (the (bi_command b))) else common
         | _ \<Rightarrow> common)"

section \<open>Deferred prompts\<close>

datatype deferred_prompt =
    Dp_questions "ask_question list"
  | Dp_plan string
  | Dp_raw string
  | Dp_none

definition parseDeferredPrompt :: "(rat \<Rightarrow> string) \<Rightarrow> json option \<Rightarrow> deferred_prompt" where
  "parseDeferredPrompt num input =
     (case input of
        Some (JObj kvs) \<Rightarrow>
          (case pt_kind (parseToolInput ''AskUserQuestion'' input) of
             Tk_ask (Some qs) \<Rightarrow> Dp_questions qs
           | _ \<Rightarrow>
             (case map_of kvs ''plan'' of
                Some (JStr p) \<Rightarrow> if trim p \<noteq> [] then Dp_plan p
                  else if kvs = [] then Dp_none else Dp_raw (stringify num 0 (JObj kvs))
              | _ \<Rightarrow> if kvs = [] then Dp_none else Dp_raw (stringify num 0 (JObj kvs))))
      | _ \<Rightarrow> Dp_none)"

definition deferredPromptSummary :: "(rat \<Rightarrow> string) \<Rightarrow> json option \<Rightarrow> string option" where
  "deferredPromptSummary num input =
     (case parseDeferredPrompt num input of
        Dp_questions qs \<Rightarrow>
          (case qs of [] \<Rightarrow> None
           | q # _ \<Rightarrow> if aq_question q \<noteq> [] then Some (clip (aq_question q))
                      else (case aq_options q of [] \<Rightarrow> None
                            | opt # _ \<Rightarrow> if qo_label opt \<noteq> [] then Some (clip (qo_label opt)) else None))
      | Dp_plan p \<Rightarrow> (let line = hd (split_on newline (trim p)) in
          Some (clip (if line \<noteq> [] then line else ''Plan ready for review'')))
      | Dp_raw t \<Rightarrow> Some (clip (trim (collapse_ws t)))
      | Dp_none \<Rightarrow> None)"

definition shortProject :: "string \<Rightarrow> string" where
  "shortProject project = (let l = last (split_on (CHR ''/'') project) in if l \<noteq> [] then l else project)"

definition deferredKey :: "audit_decision \<Rightarrow> string" where
  "deferredKey d = ad_ts d @ ''|'' @ ad_agent_id d @ ''|'' @ ad_tool_name d @ ''|'' @
     (case ad_terminal_session_id d of Some t \<Rightarrow> t | None \<Rightarrow> [])"

definition orderByAge :: "decision_request list \<Rightarrow> decision_request list" where
  "orderByAge items = js_sort (cmp_time dr_timestamp) items"

section \<open>Lemmas\<close>

interpretation oldest_first: js_order "cmp_time dr_timestamp" "{r. has_time (dr_timestamp r)}"
  by (rule js_order_cmp_time)

lemma clip_length: "length (clip s) \<le> 80"
  by (simp add: clip_def slice_def)

lemma clip_short: "length s \<le> 80 \<Longrightarrow> clip s = s"
  by (simp add: clip_def)

lemma last_split_on: "d \<notin> set b \<Longrightarrow> last (split_on d (a @ d # b)) = b"
proof (induction a)
  case Nil
  have "split_on d b = [b]" if "d \<notin> set b" for b using that by (induction b) auto
  with Nil show ?case by simp
next
  case (Cons c a)
  obtain w ws where "split_on d (a @ d # b) = w # ws" by (cases "split_on d (a @ d # b)") auto
  moreover have "ws \<noteq> []" if "split_on d (a @ d # b) = w # ws" for w ws a
    using that by (induction a arbitrary: w ws) (auto split: list.splits if_splits)
  ultimately show ?case using Cons by auto
qed

lemma shortProject_base: "CHR ''/'' \<notin> set b \<Longrightarrow> b \<noteq> [] \<Longrightarrow> shortProject (dir @ CHR ''/'' # b) = b"
  by (simp add: shortProject_def last_split_on Let_def)

section \<open>Properties\<close>

text \<open>
  The inbox order is a permutation of the queue, oldest first, and requests of the same
  instant keep their arrival order, so the keyboard acts on the row the eye sees.
\<close>

theorem orderByAge_correct:
  assumes "\<forall>r \<in> set items. has_time (dr_timestamp r)"
  shows "mset (orderByAge items) = mset items \<and>
    sorted_wrt (\<lambda>a b. the (get_time (dr_timestamp a)) \<le> the (get_time (dr_timestamp b))) (orderByAge items) \<and>
    filter (\<lambda>r. get_time (dr_timestamp r) = Some t) (orderByAge items) =
      filter (\<lambda>r. get_time (dr_timestamp r) = Some t) items"
proof -
  have A: "set items \<subseteq> {r. has_time (dr_timestamp r)}" using assms by auto
  have le: "the (get_time (dr_timestamp a)) \<le> the (get_time (dr_timestamp b))"
    if "a \<in> set items" "b \<in> set items" "cmp_time dr_timestamp a b \<le> 0" for a b
    using that assms by (simp add: cmp_time_le)
  have ord: "oldest_first.in_order (orderByAge items)"
    unfolding orderByAge_def by (rule oldest_first.js_sort_sorted[OF A])
  have sorted: "sorted_wrt (\<lambda>a b. the (get_time (dr_timestamp a)) \<le> the (get_time (dr_timestamp b))) (orderByAge items)"
    by (rule sorted_wrt_mono_rel[OF _ ord]) (rule le, simp_all add: orderByAge_def)
  have stable: "filter (\<lambda>r. get_time (dr_timestamp r) = Some t) (orderByAge items) =
      filter (\<lambda>r. get_time (dr_timestamp r) = Some t) items"
  proof (cases "\<exists>z \<in> set items. get_time (dr_timestamp z) = Some t")
    case True
    then obtain z where z: "z \<in> set items" "get_time (dr_timestamp z) = Some t" by blast
    have same: "oldest_first.equiv z r \<longleftrightarrow> get_time (dr_timestamp r) = Some t" if "r \<in> set items" for r
      using that assms z cmp_time_le[of dr_timestamp z r] cmp_time_le[of dr_timestamp r z]
      by (auto simp: has_time_def)
    have "filter (oldest_first.equiv z) (orderByAge items) = filter (oldest_first.equiv z) items"
      unfolding orderByAge_def by (rule oldest_first.js_sort_stable[OF A]) (use A z in auto)
    moreover have "filter (oldest_first.equiv z) (orderByAge items) =
        filter (\<lambda>r. get_time (dr_timestamp r) = Some t) (orderByAge items)"
      by (rule filter_cong) (auto simp: orderByAge_def same)
    moreover have "filter (oldest_first.equiv z) items = filter (\<lambda>r. get_time (dr_timestamp r) = Some t) items"
      by (rule filter_cong) (auto simp: same)
    ultimately show ?thesis by simp
  next
    case False
    then show ?thesis by (simp add: filter_empty_conv orderByAge_def)
  qed
  from sorted stable show ?thesis by (simp add: orderByAge_def)
qed

definition request_at :: "string \<Rightarrow> decision_request" where
  "request_at ts = \<lparr>dr_id = ts, dr_agent_id = ''a'', dr_agent_type = AT_codex, dr_project = ''/p'',
     dr_tool_name = ''Bash'', dr_tool_input = JNull, dr_timestamp = ts, dr_hook_event_name = PreToolUse,
     dr_tool_use_id = None, dr_permission_suggestions = None, dr_event_data = None, dr_terminal_session_id = None\<rparr>"

theorem orderByAge_correct_witness:
  "mset (orderByAge [request_at ''2026-07-14T10:00:01Z'', request_at ''2026-07-14T10:00:00Z'']) =
     mset [request_at ''2026-07-14T10:00:01Z'', request_at ''2026-07-14T10:00:00Z'']"
proof -
  have "has_time ''2026-07-14T10:00:01Z''" "has_time ''2026-07-14T10:00:00Z''" by code_simp+
  then have "\<forall>r \<in> set [request_at ''2026-07-14T10:00:01Z'', request_at ''2026-07-14T10:00:00Z'']. has_time (dr_timestamp r)"
    by (simp add: request_at_def)
  from orderByAge_correct[OF this] show ?thesis by blast
qed

text \<open>
  A deferred prompt's one-line summary never exceeds 80 characters, and a question that
  fits is shown literally.
\<close>

theorem deferred_summary_bounded:
  "(deferredPromptSummary num input = Some s \<longrightarrow> length s \<le> 80) \<and>
   (parseDeferredPrompt num input = Dp_questions (q # qs) \<and> aq_question q \<noteq> [] \<and> length (aq_question q) \<le> 80 \<longrightarrow>
      deferredPromptSummary num input = Some (aq_question q))"
  by (auto simp: deferredPromptSummary_def Let_def clip_length clip_short
      split: deferred_prompt.splits list.splits if_splits)

theorem deferred_summary_bounded_witness:
  "deferredPromptSummary (\<lambda>q. []) (Some (JObj [(''plan'', JStr ''Ship it'')])) = Some ''Ship it'' \<and> length ''Ship it'' \<le> 80"
proof -
  have "deferredPromptSummary (\<lambda>q. []) (Some (JObj [(''plan'', JStr ''Ship it'')])) = Some ''Ship it''"
    by code_simp
  with deferred_summary_bounded[of "\<lambda>q. []" "Some (JObj [(''plan'', JStr ''Ship it'')])" "''Ship it''"]
  show ?thesis by blast
qed

end
