(* ===== verification/Liveness.thy ===== *)
theory Liveness
  imports Queue_Utils
begin

text \<open>
  \<open>components/liveness.ts\<close>: the liveness board derived from the sessions, the live registry,
  the audit stream and the queue. Millisecond values that can be \<open>NaN\<close> or \<open>Infinity\<close> are
  kept as such, because the comparison that picks the oldest blocker depends on it; the
  read of a missing array element throws, so the derivation returns a result.
\<close>

section \<open>Data\<close>

definition STALL_THRESHOLD_MS :: int where "STALL_THRESHOLD_MS = 600000"

definition BOARD_WINDOW_MS :: int where "BOARD_WINDOW_MS = 60 * 60 * 1000"

definition TERMINAL_EVENT_TOOLS :: "string set" where
  "TERMINAL_EVENT_TOOLS = {''Stop'', ''SessionEnd''}"

datatype lane_state = Working | Waiting | Stalled | Done

record wave_progress =
  wv_spawned :: int
  wv_done :: int

datatype inbox_target =
    Target_decision string string
  | Target_deferred string string

text \<open>A number that may be \<open>NaN\<close> or \<open>Infinity\<close>, with JavaScript's \<open><=\<close>.\<close>

datatype ms = Ms int | Ms_Infinity | Ms_NaN

fun ms_le :: "ms \<Rightarrow> ms \<Rightarrow> bool" where
  "ms_le (Ms a) (Ms b) = (a \<le> b)"
| "ms_le (Ms a) Ms_Infinity = True"
| "ms_le Ms_Infinity Ms_Infinity = True"
| "ms_le _ _ = False"

definition date_ms :: "string \<Rightarrow> ms" where
  "date_ms ts = (case get_time ts of Some t \<Rightarrow> Ms t | None \<Rightarrow> Ms_NaN)"

record lane =
  ln_agentId :: string
  ln_agentType :: agent_type
  ln_project :: string
  ln_state :: lane_state
  ln_lastActivityMs :: int
  ln_lastToolName :: "string option"
  ln_silentForMs :: int
  ln_pendingCount :: int
  ln_isLive :: bool
  ln_waitingSinceMs :: "ms option"
  ln_inboxTarget :: "inbox_target option"
  ln_wave :: "wave_progress option"
  ln_subagentsActive :: int

record project_lanes =
  pl_project :: string
  pl_lanes :: "lane list"

record board_totals =
  bt_working :: int
  bt_waiting :: int
  bt_stalled :: int
  bt_done :: int

record board_model =
  bm_projects :: "project_lanes list"
  bm_totals :: board_totals

record board_inputs =
  bi_sessions :: "session_summary list"
  bi_agents :: "agent_info list"
  bi_queue :: "decision_request list"
  bi_auditDecisions :: "audit_decision list"
  bi_endedAgentIds :: "string list"
  bi_nowMs :: int

fun STATE_RANK :: "lane_state \<Rightarrow> int" where
  "STATE_RANK Stalled = 0"
| "STATE_RANK Waiting = 1"
| "STATE_RANK Working = 2"
| "STATE_RANK Done = 3"

text \<open>The states are ordered by loudness.\<close>

instantiation lane_state :: linorder
begin

definition less_eq_lane_state :: "lane_state \<Rightarrow> lane_state \<Rightarrow> bool" where
  "less_eq_lane_state a b \<longleftrightarrow> STATE_RANK a \<le> STATE_RANK b"

definition less_lane_state :: "lane_state \<Rightarrow> lane_state \<Rightarrow> bool" where
  "less_lane_state a b \<longleftrightarrow> STATE_RANK a < STATE_RANK b"

instance
proof
  show "x = y" if "x \<le> y" "y \<le> x" for x y :: lane_state
    using that by (cases x; cases y) (simp_all add: less_eq_lane_state_def)
qed (auto simp: less_eq_lane_state_def less_lane_state_def)

end

record draft =
  df_agentId :: string
  df_project :: "string option"
  df_agentType :: "agent_type option"
  df_lastActivityMs :: int
  df_lastToolName :: "string option"
  df_pending :: "decision_request list"
  df_deferredWaiting :: "audit_decision list"
  df_taskSpawns :: int
  df_subagentStops :: int
  df_isLive :: bool
  df_sessionPendingCount :: int

section \<open>Collecting the drafts\<close>

definition new_draft :: "string \<Rightarrow> draft" where
  "new_draft agentId = \<lparr>df_agentId = agentId, df_project = None, df_agentType = None, df_lastActivityMs = 0,
     df_lastToolName = None, df_pending = [], df_deferredWaiting = [], df_taskSpawns = 0,
     df_subagentStops = 0, df_isLive = False, df_sessionPendingCount = 0\<rparr>"

definition draftFor :: "(string, draft) jmap \<Rightarrow> string \<Rightarrow> draft" where
  "draftFor m agentId = entry_or new_draft m agentId"

text \<open>\<open>const draft = draftFor(drafts, id)\<close> followed by assignments to it.\<close>

definition with_draft :: "string \<Rightarrow> (draft \<Rightarrow> draft) \<Rightarrow> (string, draft) jmap \<Rightarrow> (string, draft) jmap" where
  "with_draft agentId f m = AList.update agentId (f (draftFor m agentId)) m"

lemma with_draft_entry: "with_draft = with_entry new_draft"
  by (intro ext) (simp add: with_draft_def draftFor_def with_entry_def)

definition noteActivity :: "string \<Rightarrow> string option \<Rightarrow> draft \<Rightarrow> draft" where
  "noteActivity ts toolName d =
     (case get_time ts of
        None \<Rightarrow> d
      | Some t \<Rightarrow>
          if t \<ge> df_lastActivityMs d
          then d\<lparr>df_lastActivityMs := t,
                 df_lastToolName := (case toolName of Some n \<Rightarrow> Some n | None \<Rightarrow> df_lastToolName d)\<rparr>
          else d)"

definition or_else :: "'a option \<Rightarrow> 'a option \<Rightarrow> 'a option" where
  "or_else a b = (case a of Some x \<Rightarrow> Some x | None \<Rightarrow> b)"

definition note_session :: "session_summary \<Rightarrow> draft \<Rightarrow> draft" where
  "note_session s d0 =
     (let d1 = d0\<lparr>df_project := or_else (df_project d0) (Some (ss_project s)),
                  df_agentType := or_else (df_agentType d0) (knownAgentType (ss_agent_type s))\<rparr>;
          d2 = noteActivity (ss_last_seen s) None d1
      in d2\<lparr>df_isLive := df_isLive d2 \<or> ss_is_live s,
            df_sessionPendingCount := max (df_sessionPendingCount d2) (ss_pending_count s)\<rparr>)"

definition note_agent :: "agent_info \<Rightarrow> draft \<Rightarrow> draft" where
  "note_agent a d0 =
     (let d1 = d0\<lparr>df_project := (if ai_project a \<noteq> [] then Some (ai_project a) else df_project d0),
                  df_agentType := Some (ai_agent_type a)\<rparr>
      in (noteActivity (ai_last_seen a) None d1)\<lparr>df_isLive := True\<rparr>)"

definition note_audit :: "audit_decision \<Rightarrow> draft \<Rightarrow> draft" where
  "note_audit a d0 =
     (let d1 = noteActivity (ad_ts a) (Some (ad_tool_name a))
                 (d0\<lparr>df_project := or_else (df_project d0) (Some (ad_project a))\<rparr>)
      in d1\<lparr>df_taskSpawns := df_taskSpawns d1 + (if ad_tool_name a = ''Task'' then 1 else 0),
            df_subagentStops := df_subagentStops d1 + (if ad_tool_name a = ''SubagentStop'' then 1 else 0),
            df_deferredWaiting := df_deferredWaiting d1 @
              (if ad_kind a = K_deferred \<and> ad_resolved a \<noteq> Some True then [a] else [])\<rparr>)"

definition note_item :: "decision_request \<Rightarrow> draft \<Rightarrow> draft" where
  "note_item r d0 =
     (let d1 = noteActivity (dr_timestamp r) (Some (dr_tool_name r))
                 (d0\<lparr>df_project := or_else (df_project d0) (Some (dr_project r)),
                     df_agentType := or_else (df_agentType d0) (Some (dr_agent_type r))\<rparr>)
      in d1\<lparr>df_pending := df_pending d1 @ [r]\<rparr>)"

definition collect_drafts :: "board_inputs \<Rightarrow> (string, draft) jmap" where
  "collect_drafts inp =
     fold (\<lambda>r. with_draft (dr_agent_id r) (note_item r)) (bi_queue inp)
      (fold (\<lambda>a. with_draft (ad_agent_id a) (note_audit a)) (bi_auditDecisions inp)
        (fold (\<lambda>a. with_draft (ai_agent_id a) (note_agent a)) (bi_agents inp)
          (fold (\<lambda>s. with_draft (ss_agent_id s) (note_session s)) (bi_sessions inp) [])))"

definition agentTypeFromId :: "string \<Rightarrow> agent_type" where
  "agentTypeFromId agentId =
     (if starts_with agentId ''codex-'' then AT_codex
      else if starts_with agentId ''red-'' then AT_red
      else if starts_with agentId ''local-'' then AT_local_llm
      else AT_claude_code)"

section \<open>From drafts to lanes\<close>

text \<open>State, waiting time and inbox link of a lane with its sorted blockers.\<close>

definition classify ::
    "decision_request list \<Rightarrow> audit_decision list \<Rightarrow> string option \<Rightarrow> int \<Rightarrow>
     (lane_state \<times> ms option \<times> inbox_target option) result" where
  "classify pending deferredRows lastTool silentForMs =
     (if pending \<noteq> [] \<or> deferredRows \<noteq> [] then
        (let oldestPendingMs = (case pending of p # _ \<Rightarrow> date_ms (dr_timestamp p) | [] \<Rightarrow> Ms_Infinity);
             oldestDeferredMs = (case deferredRows of d # _ \<Rightarrow> date_ms (ad_ts d) | [] \<Rightarrow> Ms_Infinity)
         in if ms_le oldestPendingMs oldestDeferredMs
            then (case pending of
                    p # _ \<Rightarrow> Inr (Waiting, Some oldestPendingMs, Some (Target_decision (dr_id p) (dr_tool_name p)))
                  | [] \<Rightarrow> Inl ''TypeError'')
            else (case deferredRows of
                    d # _ \<Rightarrow> Inr (Waiting, Some oldestDeferredMs, Some (Target_deferred (deferredKey d) (ad_tool_name d)))
                  | [] \<Rightarrow> Inl ''TypeError''))
      else if lastTool \<in> Some ` TERMINAL_EVENT_TOOLS then Inr (Done, None, None)
      else if silentForMs > STALL_THRESHOLD_MS then Inr (Stalled, None, None)
      else Inr (Working, None, None))"

definition lane_of :: "string list \<Rightarrow> int \<Rightarrow> draft \<Rightarrow> lane option result" where
  "lane_of ended nowMs d =
     (if df_lastActivityMs d = 0 then Inr None
      else
        let isEnded = (df_agentId d \<in> set ended);
            silentForMs = max 0 (nowMs - df_lastActivityMs d);
            pending = js_sort (cmp_time dr_timestamp) (df_pending d);
            deferredRows = (if isEnded then [] else js_sort (cmp_time ad_ts) (df_deferredWaiting d))
        in rbind (classify pending deferredRows (df_lastToolName d) silentForMs)
             (\<lambda>(state, since, target).
                if state \<noteq> Waiting \<and> silentForMs > BOARD_WINDOW_MS then Inr None
                else Inr (Some \<lparr>
                  ln_agentId = df_agentId d,
                  ln_agentType = (case df_agentType d of Some t \<Rightarrow> t | None \<Rightarrow> agentTypeFromId (df_agentId d)),
                  ln_project = (case df_project d of Some p \<Rightarrow> p | None \<Rightarrow> []),
                  ln_state = state,
                  ln_lastActivityMs = df_lastActivityMs d,
                  ln_lastToolName = df_lastToolName d,
                  ln_silentForMs = silentForMs,
                  ln_pendingCount = max (df_sessionPendingCount d) (int (length pending)),
                  ln_isLive = (df_isLive d \<and> \<not> isEnded),
                  ln_waitingSinceMs = since,
                  ln_inboxTarget = target,
                  ln_wave = (if df_taskSpawns d > 0
                    then Some \<lparr>wv_spawned = df_taskSpawns d, wv_done = min (df_subagentStops d) (df_taskSpawns d)\<rparr>
                    else None),
                  ln_subagentsActive = max 0 (df_taskSpawns d - df_subagentStops d)\<rparr>)))"

fun lanes_of :: "string list \<Rightarrow> int \<Rightarrow> draft list \<Rightarrow> lane list result" where
  "lanes_of ended nowMs [] = Inr []"
| "lanes_of ended nowMs (d # ds) =
     rbind (lane_of ended nowMs d) (\<lambda>l.
     rbind (lanes_of ended nowMs ds) (\<lambda>ls. Inr (case l of Some x \<Rightarrow> x # ls | None \<Rightarrow> ls)))"

definition cmp_lane :: "lane comparator" where
  "cmp_lane a b =
     (let d = STATE_RANK (ln_state a) - STATE_RANK (ln_state b)
      in if d \<noteq> 0 then d else ln_lastActivityMs b - ln_lastActivityMs a)"

definition cmp_project :: "project_lanes comparator" where
  "cmp_project a b = cmp_lane (hd (pl_lanes a)) (hd (pl_lanes b))"

definition group_lanes :: "lane list \<Rightarrow> project_lanes list" where
  "group_lanes lanes =
     js_sort cmp_project
       (map (\<lambda>(project, ls). \<lparr>pl_project = project, pl_lanes = js_sort cmp_lane ls\<rparr>) (group_by ln_project lanes))"

definition add_total :: "lane \<Rightarrow> board_totals \<Rightarrow> board_totals" where
  "add_total l t = (case ln_state l of
       Working \<Rightarrow> t\<lparr>bt_working := bt_working t + 1\<rparr>
     | Waiting \<Rightarrow> t\<lparr>bt_waiting := bt_waiting t + 1\<rparr>
     | Stalled \<Rightarrow> t\<lparr>bt_stalled := bt_stalled t + 1\<rparr>
     | Done \<Rightarrow> t\<lparr>bt_done := bt_done t + 1\<rparr>)"

definition deriveBoard :: "board_inputs \<Rightarrow> board_model result" where
  "deriveBoard inp =
     rbind (lanes_of (bi_endedAgentIds inp) (bi_nowMs inp) (map snd (collect_drafts inp))) (\<lambda>lanes.
       Inr \<lparr>bm_projects = group_lanes lanes,
            bm_totals = fold add_total lanes \<lparr>bt_working = 0, bt_waiting = 0, bt_stalled = 0, bt_done = 0\<rparr>\<rparr>)"

definition fmtDuration :: "int \<Rightarrow> string" where
  "fmtDuration t =
     (let seconds = max 0 (t div 1000) in
      if seconds < 60 then show_int seconds @ ''s''
      else let minutes = seconds div 60 in
        if minutes < 60 then show_int minutes @ ''m''
        else show_int (minutes div 60) @ ''h '' @ show_int (minutes mod 60) @ ''m'')"

end
