(* ===== verification/Liveness_Board.thy ===== *)
theory Liveness_Board
  imports Liveness
begin

text \<open>
  What the liveness board shows, stated over its inputs: the events of one agent, its latest
  activity, its blockers, and from them the state, the inbox link, the visibility and the
  order of its lane. The lemmas connect the incremental collection of drafts with these.
\<close>

section \<open>The events of an agent\<close>

definition requests_of :: "board_inputs \<Rightarrow> string \<Rightarrow> decision_request list" where
  "requests_of inp a = filter (\<lambda>r. dr_agent_id r = a) (bi_queue inp)"

definition audits_of :: "board_inputs \<Rightarrow> string \<Rightarrow> audit_decision list" where
  "audits_of inp a = filter (\<lambda>x. ad_agent_id x = a) (bi_auditDecisions inp)"

definition unanswered :: "audit_decision \<Rightarrow> bool" where
  "unanswered x \<longleftrightarrow> ad_kind x = K_deferred \<and> ad_resolved x \<noteq> Some True"

definition deferrals_of :: "board_inputs \<Rightarrow> string \<Rightarrow> audit_decision list" where
  "deferrals_of inp a =
     (if a \<in> set (bi_endedAgentIds inp) then [] else filter unanswered (audits_of inp a))"

definition event_times :: "board_inputs \<Rightarrow> string \<Rightarrow> string list" where
  "event_times inp a =
     map ss_last_seen (filter (\<lambda>s. ss_agent_id s = a) (bi_sessions inp)) @
     map ai_last_seen (filter (\<lambda>x. ai_agent_id x = a) (bi_agents inp)) @
     map ad_ts (audits_of inp a) @ map dr_timestamp (requests_of inp a)"

fun latest :: "int \<Rightarrow> string list \<Rightarrow> int" where
  "latest t [] = t"
| "latest t (ts # rest) = latest (case get_time ts of Some x \<Rightarrow> max t x | None \<Rightarrow> t) rest"

definition board_lanes :: "board_model \<Rightarrow> lane list" where
  "board_lanes b = concat (map pl_lanes (bm_projects b))"

definition timed_inputs :: "board_inputs \<Rightarrow> bool" where
  "timed_inputs inp \<longleftrightarrow> (\<forall>r \<in> set (bi_queue inp). has_time (dr_timestamp r)) \<and>
     (\<forall>x \<in> set (bi_auditDecisions inp). has_time (ad_ts x))"

section \<open>The drafts\<close>

lemma wf_collect: "jmap_wf (collect_drafts inp)"
  by (simp add: collect_drafts_def with_draft_entry wf_with_fold)

definition draft_of :: "board_inputs \<Rightarrow> string \<Rightarrow> draft" where
  "draft_of inp a = draftFor (collect_drafts inp) a"

lemma draft_of_fold:
  "draft_of inp a = fold note_item (requests_of inp a) (fold note_audit (audits_of inp a)
     (fold note_agent (filter (\<lambda>x. ai_agent_id x = a) (bi_agents inp))
       (fold note_session (filter (\<lambda>s. ss_agent_id s = a) (bi_sessions inp)) (new_draft a))))"
  by (simp add: draft_of_def collect_drafts_def draftFor_def with_draft_entry entry_or_fold requests_of_def audits_of_def)

lemma collect_entry: "(a, d) \<in> set (collect_drafts inp) \<Longrightarrow> d = draft_of inp a"
  using wf_collect[of inp] by (simp add: draft_of_def draftFor_def entry_or_mem)

lemma collect_keys:
  "fst ` set (collect_drafts inp) = ss_agent_id ` set (bi_sessions inp) \<union> ai_agent_id ` set (bi_agents inp)
     \<union> ad_agent_id ` set (bi_auditDecisions inp) \<union> dr_agent_id ` set (bi_queue inp)"
  by (simp add: collect_drafts_def with_draft_entry keys_with_fold)

lemma note_fields [simp]:
  "df_agentId (noteActivity ts n d) = df_agentId d" "df_pending (noteActivity ts n d) = df_pending d"
  "df_deferredWaiting (noteActivity ts n d) = df_deferredWaiting d"
  "df_lastActivityMs (noteActivity ts n d) = (case get_time ts of Some t \<Rightarrow> max (df_lastActivityMs d) t | None \<Rightarrow> df_lastActivityMs d)"
  by (auto simp: noteActivity_def split: option.split)

lemma fold_item:
  "df_agentId (fold note_item xs d) = df_agentId d \<and> df_pending (fold note_item xs d) = df_pending d @ xs \<and>
   df_deferredWaiting (fold note_item xs d) = df_deferredWaiting d \<and>
   df_lastActivityMs (fold note_item xs d) = latest (df_lastActivityMs d) (map dr_timestamp xs)"
  by (induction xs arbitrary: d) (simp_all add: note_item_def Let_def split: option.split)

lemma fold_audit:
  "df_agentId (fold note_audit xs d) = df_agentId d \<and> df_pending (fold note_audit xs d) = df_pending d \<and>
   df_deferredWaiting (fold note_audit xs d) = df_deferredWaiting d @ filter unanswered xs \<and>
   df_lastActivityMs (fold note_audit xs d) = latest (df_lastActivityMs d) (map ad_ts xs)"
  by (induction xs arbitrary: d) (simp_all add: note_audit_def Let_def unanswered_def split: option.split)

lemma fold_agent:
  "df_agentId (fold note_agent xs d) = df_agentId d \<and> df_pending (fold note_agent xs d) = df_pending d \<and>
   df_deferredWaiting (fold note_agent xs d) = df_deferredWaiting d \<and>
   df_lastActivityMs (fold note_agent xs d) = latest (df_lastActivityMs d) (map ai_last_seen xs)"
  by (induction xs arbitrary: d) (simp_all add: note_agent_def Let_def split: option.split)

lemma fold_session:
  "df_agentId (fold note_session xs d) = df_agentId d \<and> df_pending (fold note_session xs d) = df_pending d \<and>
   df_deferredWaiting (fold note_session xs d) = df_deferredWaiting d \<and>
   df_lastActivityMs (fold note_session xs d) = latest (df_lastActivityMs d) (map ss_last_seen xs)"
  by (induction xs arbitrary: d) (simp_all add: note_session_def Let_def split: option.split)

lemmas fold_notes = fold_item fold_audit fold_agent fold_session

lemma latest_append: "latest t (xs @ ys) = latest (latest t xs) ys"
  by (induction xs arbitrary: t) simp_all

lemma latest_ge: "t \<le> latest t xs"
proof (induction xs arbitrary: t)
  case (Cons x xs)
  show ?case using Cons[of "case get_time x of Some y \<Rightarrow> max t y | None \<Rightarrow> t"] by (auto split: option.splits)
qed simp

lemma latest_mem: "x \<in> set xs \<Longrightarrow> get_time x = Some y \<Longrightarrow> y \<le> latest t xs"
proof (induction xs arbitrary: t)
  case (Cons z xs)
  then show ?case using latest_ge[of "max t y" xs] by auto
qed simp

text \<open>The draft of an agent holds exactly its requests, its open deferrals and its latest activity.\<close>

lemma draft_of_fields:
  "df_agentId (draft_of inp a) = a"
  "df_pending (draft_of inp a) = requests_of inp a"
  "df_deferredWaiting (draft_of inp a) = filter unanswered (audits_of inp a)"
  "df_lastActivityMs (draft_of inp a) = latest 0 (event_times inp a)"
  by (simp_all add: draft_of_fold fold_notes new_draft_def event_times_def latest_append)

section \<open>Classification\<close>

definition expected_state :: "board_inputs \<Rightarrow> string \<Rightarrow> string option \<Rightarrow> lane_state" where
  "expected_state inp a lastTool =
     (if requests_of inp a \<noteq> [] \<or> deferrals_of inp a \<noteq> [] then Waiting
      else if lastTool \<in> {Some ''Stop'', Some ''SessionEnd''} then Done
      else if bi_nowMs inp - latest 0 (event_times inp a) > 600000 then Stalled
      else Working)"

lemma classify_total:
  assumes "\<forall>p \<in> set ps. has_time (dr_timestamp p)" "\<forall>d \<in> set ds. has_time (ad_ts d)"
  shows "\<exists>s w t. classify ps ds tool silent = Inr (s, w, t)"
  using assms
  by (auto simp: classify_def Let_def date_ms_def has_time_def split: list.split option.split)

lemma classify_state:
  "classify ps ds tool silent = Inr (s, w, t) \<Longrightarrow>
   s = (if ps \<noteq> [] \<or> ds \<noteq> [] then Waiting else if tool \<in> {Some ''Stop'', Some ''SessionEnd''} then Done
        else if silent > 600000 then Stalled else Working)"
  by (auto simp: classify_def Let_def TERMINAL_EVENT_TOOLS_def STALL_THRESHOLD_MS_def
      split: if_splits list.splits)

lemma lanes_of_total:
  "(\<And>d. d \<in> set ds \<Longrightarrow> \<exists>l. lane_of ended now d = Inr l) \<Longrightarrow> \<exists>ls. lanes_of ended now ds = Inr ls"
proof (induction ds)
  case (Cons d ds)
  then obtain l ls where "lane_of ended now d = Inr l" "lanes_of ended now ds = Inr ls" by fastforce
  then show ?case by simp
qed simp

lemma lanes_of_set:
  "lanes_of ended now ds = Inr ls \<Longrightarrow> set ls = {l. \<exists>d \<in> set ds. lane_of ended now d = Inr (Some l)}"
proof (induction ds arbitrary: ls)
  case (Cons d ds)
  then obtain l ls' where l: "lane_of ended now d = Inr l" "lanes_of ended now ds = Inr ls'"
    "ls = (case l of Some x \<Rightarrow> x # ls' | None \<Rightarrow> ls')"
    by (auto simp: result_simps)
  from Cons.IH[OF l(2)] l show ?case by (auto split: option.splits)
qed simp

section \<open>Grouping, order and totals\<close>

interpretation lane_order: js_order cmp_lane UNIV
  by unfold_locales (auto simp: cmp_lane_def Let_def split: if_splits)

interpretation project_order: js_order cmp_project UNIV
  by unfold_locales (auto simp: cmp_project_def cmp_lane_def Let_def split: if_splits)

lemma board_lanes_mset:
  "mset (concat (map pl_lanes (group_lanes lanes))) = mset lanes"
  unfolding group_lanes_def by (rule mset_grouped) simp_all

lemma deriveBoard_Inr:
  assumes "deriveBoard inp = Inr b"
  obtains lanes where "lanes_of (bi_endedAgentIds inp) (bi_nowMs inp) (map snd (collect_drafts inp)) = Inr lanes"
    "mset (board_lanes b) = mset lanes" "bm_projects b = group_lanes lanes"
    "bm_totals b = fold add_total lanes \<lparr>bt_working = 0, bt_waiting = 0, bt_stalled = 0, bt_done = 0\<rparr>"
  using assms by (auto simp: deriveBoard_def result_simps board_lanes_def board_lanes_mset)

lemma board_lane_iff:
  assumes "deriveBoard inp = Inr b"
  shows "l \<in> set (board_lanes b) \<longleftrightarrow>
    (\<exists>a \<in> fst ` set (collect_drafts inp). lane_of (bi_endedAgentIds inp) (bi_nowMs inp) (draft_of inp a) = Inr (Some l))"
proof -
  from assms obtain lanes where
    l: "lanes_of (bi_endedAgentIds inp) (bi_nowMs inp) (map snd (collect_drafts inp)) = Inr lanes"
    and m: "mset (board_lanes b) = mset lanes" by (rule deriveBoard_Inr)
  have "set (board_lanes b) = {l. \<exists>d \<in> set (map snd (collect_drafts inp)).
      lane_of (bi_endedAgentIds inp) (bi_nowMs inp) d = Inr (Some l)}"
    using mset_eq_setD[OF m] lanes_of_set[OF l] by simp
  moreover have "snd x = draft_of inp (fst x)" if "x \<in> set (collect_drafts inp)" for x
    using that collect_entry[of "fst x" "snd x"] by simp
  then have "set (map snd (collect_drafts inp)) = draft_of inp ` fst ` set (collect_drafts inp)"
    by (simp add: image_image)
  ultimately show ?thesis by (simp only: mem_Collect_eq bex_simps)
qed

lemma totals_count:
  "fold add_total lanes t = t\<lparr>
     bt_working := bt_working t + int (count (image_mset ln_state (mset lanes)) Working),
     bt_waiting := bt_waiting t + int (count (image_mset ln_state (mset lanes)) Waiting),
     bt_stalled := bt_stalled t + int (count (image_mset ln_state (mset lanes)) Stalled),
     bt_done := bt_done t + int (count (image_mset ln_state (mset lanes)) Done)\<rparr>"
  by (induction lanes arbitrary: t) (simp_all add: add_total_def split: lane_state.split)

section \<open>Properties\<close>

lemma sorted_blockers_timed:
  assumes "timed_inputs inp"
  shows "\<forall>p \<in> set (js_sort c (requests_of inp a)). has_time (dr_timestamp p)"
    and "\<forall>d \<in> set (js_sort c' (filter unanswered (audits_of inp a))). has_time (ad_ts d)"
  using assms by (auto simp: timed_inputs_def requests_of_def audits_of_def)

lemma lane_of_total:
  assumes "timed_inputs inp"
  shows "\<exists>l. lane_of ended now (draft_of inp a) = Inr l"
proof -
  let ?ps = "js_sort (cmp_time dr_timestamp) (requests_of inp a)"
  let ?ds = "if a \<in> set ended then [] else js_sort (cmp_time ad_ts) (filter unanswered (audits_of inp a))"
  have "\<forall>d \<in> set ?ds. has_time (ad_ts d)" using sorted_blockers_timed(2)[OF assms, of "cmp_time ad_ts" a] by simp
  then obtain s w t where "classify ?ps ?ds (df_lastToolName (draft_of inp a))
      (max 0 (now - latest 0 (event_times inp a))) = Inr (s, w, t)"
    using classify_total[OF sorted_blockers_timed(1)[OF assms]] by blast
  then show ?thesis by (cases "a \<in> set ended") (simp_all add: lane_of_def draft_of_fields Let_def)
qed

lemma timed_board: "timed_inputs inp \<Longrightarrow> \<exists>b. deriveBoard inp = Inr b"
proof -
  assume t: "timed_inputs inp"
  have "\<exists>l. lane_of ended now d = Inr l" if "d \<in> set (map snd (collect_drafts inp))" for d ended now
    using that lane_of_total[OF t] collect_entry by (metis (no_types, lifting) imageE list.set_map prod.collapse)
  then have "\<exists>ls. lanes_of (bi_endedAgentIds inp) (bi_nowMs inp) (map snd (collect_drafts inp)) = Inr ls"
    by (intro lanes_of_total) blast
  then show ?thesis by (auto simp: deriveBoard_def)
qed

interpretation oldest_deferral: js_order "cmp_time ad_ts" "{d. has_time (ad_ts d)}"
  by (rule js_order_cmp_time)

lemma head_time:
  assumes "js_sort (cmp_time f) xs = y # ys" "\<forall>x \<in> set xs. has_time (f x)"
  shows "y \<in> set xs" "get_time (f y) = Some (the (get_time (f y)))"
    and "x \<in> set xs \<Longrightarrow> the (get_time (f y)) \<le> the (get_time (f x))"
proof -
  show y: "y \<in> set xs" by (metis assms(1) list.set_intros(1) set_js_sort)
  then show "get_time (f y) = Some (the (get_time (f y)))" using assms(2) by (auto simp: has_time_def)
  show "the (get_time (f y)) \<le> the (get_time (f x))" if "x \<in> set xs" for x
    using that y assms js_order.js_sort_hd_least[OF js_order_cmp_time, of xs f x]
    by (auto simp: cmp_time_le)
qed

lemma oldest_blocker:
  assumes ps: "\<forall>r \<in> set rs. has_time (dr_timestamp r)" and ds: "\<forall>d \<in> set es. has_time (ad_ts d)"
    and c: "classify (js_sort (cmp_time dr_timestamp) rs) (js_sort (cmp_time ad_ts) es) tool silent = Inr (Waiting, w, tgt)"
  shows "\<exists>t. w = Some (Ms t) \<and> (\<forall>r \<in> set rs. t \<le> the (get_time (dr_timestamp r))) \<and>
    (\<forall>d \<in> set es. t \<le> the (get_time (ad_ts d))) \<and>
    ((\<exists>r \<in> set rs. get_time (dr_timestamp r) = Some t \<and> tgt = Some (Target_decision (dr_id r) (dr_tool_name r))) \<or>
     (\<exists>d \<in> set es. get_time (ad_ts d) = Some t \<and> tgt = Some (Target_deferred (deferredKey d) (ad_tool_name d))))"
proof (cases "js_sort (cmp_time dr_timestamp) rs")
  case Nil
  then have "rs = []" by simp
  show ?thesis
  proof (cases "js_sort (cmp_time ad_ts) es")
    case Nil
    with \<open>rs = []\<close> c show ?thesis by (auto simp: classify_def split: if_splits)
  next
    case (Cons d ds')
    note h = head_time[OF Cons ds]
    have "w = Some (Ms (the (get_time (ad_ts d))))" "tgt = Some (Target_deferred (deferredKey d) (ad_tool_name d))"
      using c Cons \<open>rs = []\<close> h(2) by (auto simp: classify_def Let_def date_ms_def split: option.splits)
    with h \<open>rs = []\<close> show ?thesis by auto
  qed
next
  case (Cons p ps')
  note hp = head_time[OF Cons ps]
  show ?thesis
  proof (cases "js_sort (cmp_time ad_ts) es")
    case Nil
    then have "es = []" by simp
    have "w = Some (Ms (the (get_time (dr_timestamp p))))" "tgt = Some (Target_decision (dr_id p) (dr_tool_name p))"
      using c Cons Nil hp(2) by (auto simp: classify_def Let_def date_ms_def split: option.splits)
    with hp \<open>es = []\<close> show ?thesis by auto
  next
    case d: (Cons d ds')
    note hd = head_time[OF d ds]
    show ?thesis
    proof (cases "the (get_time (dr_timestamp p)) \<le> the (get_time (ad_ts d))")
      case True
      then have "w = Some (Ms (the (get_time (dr_timestamp p))))" "tgt = Some (Target_decision (dr_id p) (dr_tool_name p))"
        using c Cons d hp(2) hd(2) by (auto simp: classify_def Let_def date_ms_def split: option.splits)
      with True hp hd show ?thesis by force
    next
      case False
      then have "w = Some (Ms (the (get_time (ad_ts d))))" "tgt = Some (Target_deferred (deferredKey d) (ad_tool_name d))"
        using c Cons d hp(2) hd(2) by (auto simp: classify_def Let_def date_ms_def split: option.splits)
      with False hp hd show ?thesis by force
    qed
  qed
qed

text \<open>
  The board is derived without an error whenever the timestamps of the queue and of the
  audit stream denote instants.
\<close>

theorem board_total:
  assumes "timed_inputs inp"
  shows "\<exists>b. deriveBoard inp = Inr b"
  using assms by (rule timed_board)

definition one_request :: "string \<Rightarrow> board_inputs" where
  "one_request ts = \<lparr>bi_sessions = [], bi_agents = [], bi_queue = [request_at ts], bi_auditDecisions = [],
     bi_endedAgentIds = [], bi_nowMs = 0\<rparr>"

theorem board_total_witness:
  "timed_inputs (one_request ''2026-07-14T10:00:00Z'') \<and> (\<exists>b. deriveBoard (one_request ''2026-07-14T10:00:00Z'') = Inr b)"
proof -
  have "has_time ''2026-07-14T10:00:00Z''" by code_simp
  then have t: "timed_inputs (one_request ''2026-07-14T10:00:00Z'')"
    by (simp add: timed_inputs_def one_request_def request_at_def)
  with board_total[OF t] show ?thesis by blast
qed

lemma lane_ofE:
  assumes "lane_of ended now (draft_of inp a) = Inr (Some l)"
  obtains s w t where "classify (js_sort (cmp_time dr_timestamp) (requests_of inp a))
      (if a \<in> set ended then [] else js_sort (cmp_time ad_ts) (filter unanswered (audits_of inp a)))
      (df_lastToolName (draft_of inp a)) (max 0 (now - latest 0 (event_times inp a))) = Inr (s, w, t)"
    "ln_agentId l = a" "ln_state l = s" "ln_waitingSinceMs l = w" "ln_inboxTarget l = t"
    "ln_lastActivityMs l = latest 0 (event_times inp a)" "ln_lastToolName l = df_lastToolName (draft_of inp a)"
    "ln_silentForMs l = max 0 (now - latest 0 (event_times inp a))"
    "s = Waiting \<or> \<not> BOARD_WINDOW_MS < ln_silentForMs l" "latest 0 (event_times inp a) \<noteq> 0"
  using assms
  by (auto simp: lane_of_def draft_of_fields Let_def result_simps split: if_splits)

lemma board_lane_state:
  assumes "deriveBoard inp = Inr b" and "l \<in> set (board_lanes b)"
  shows "ln_state l = expected_state inp (ln_agentId l) (ln_lastToolName l) \<and>
    ln_silentForMs l = max 0 (bi_nowMs inp - latest 0 (event_times inp (ln_agentId l))) \<and>
    (ln_state l = Waiting \<or> ln_silentForMs l \<le> 3600000)"
proof -
  from assms obtain a where "lane_of (bi_endedAgentIds inp) (bi_nowMs inp) (draft_of inp a) = Inr (Some l)"
    by (auto simp: board_lane_iff)
  then show ?thesis
  proof (rule lane_ofE)
    fix s w t
    assume c: "classify (js_sort (cmp_time dr_timestamp) (requests_of inp a))
      (if a \<in> set (bi_endedAgentIds inp) then [] else js_sort (cmp_time ad_ts) (filter unanswered (audits_of inp a)))
      (df_lastToolName (draft_of inp a)) (max 0 (bi_nowMs inp - latest 0 (event_times inp a))) = Inr (s, w, t)"
      and "ln_agentId l = a" "ln_state l = s" "ln_lastToolName l = df_lastToolName (draft_of inp a)"
        "ln_silentForMs l = max 0 (bi_nowMs inp - latest 0 (event_times inp a))"
        "s = Waiting \<or> \<not> BOARD_WINDOW_MS < ln_silentForMs l"
    with classify_state[OF c] show ?thesis
      by (auto simp: expected_state_def deferrals_of_def BOARD_WINDOW_MS_def max_def split: if_splits)
  qed
qed


text \<open>A board with one fresh request, computed: one waiting lane.\<close>

lemma one_request_draft:
  "draft_of (one_request ts) ''a'' = note_item (request_at ts) (new_draft ''a'')"
  by (simp add: draft_of_fold one_request_def requests_of_def audits_of_def request_at_def)

lemma one_request_drafts: "collect_drafts (one_request ts) = [(''a'', note_item (request_at ts) (new_draft ''a''))]"
  by (simp add: collect_drafts_def one_request_def with_draft_def draftFor_def entry_or_def request_at_def)

lemma one_request_lane:
  assumes "deriveBoard (one_request ''2026-07-14T10:00:00Z'') = Inr b"
  obtains l where "l \<in> set (board_lanes b)" "ln_agentId l = ''a''" "ln_state l = Waiting"
proof -
  have t: "get_time ''2026-07-14T10:00:00Z'' = Some 1784023200000" by code_simp
  have "\<exists>l. lane_of [] 0 (note_item (request_at ''2026-07-14T10:00:00Z'') (new_draft ''a'')) = Inr (Some l) \<and>
      ln_agentId l = ''a'' \<and> ln_state l = Waiting"
    by (simp add: lane_of_def note_item_def noteActivity_def new_draft_def request_at_def t classify_def date_ms_def)
  then show ?thesis
    using that assms one_request_draft[of "''2026-07-14T10:00:00Z''"] one_request_drafts[of "''2026-07-14T10:00:00Z''"]
    by (auto simp: board_lane_iff one_request_def)
qed


text \<open>
  A queued request is never hidden: whatever its age, its agent has a lane on the board
  and that lane is waiting, provided the request's timestamp lies after the epoch.
\<close>

theorem waiting_always_visible:
  assumes "timed_inputs inp" and "deriveBoard inp = Inr b" and "r \<in> set (bi_queue inp)"
    and "get_time (dr_timestamp r) = Some t" and "0 < t"
  shows "\<exists>l \<in> set (board_lanes b). ln_agentId l = dr_agent_id r \<and> ln_state l = Waiting"
proof -
  let ?a = "dr_agent_id r"
  have key: "?a \<in> fst ` set (collect_drafts inp)" using assms(3) by (auto simp: collect_keys)
  have mem: "r \<in> set (requests_of inp ?a)" using assms(3) by (simp add: requests_of_def)
  then have "dr_timestamp r \<in> set (event_times inp ?a)" by (simp add: event_times_def)
  from latest_mem[OF this assms(4), of 0] assms(5) have active: "latest 0 (event_times inp ?a) \<noteq> 0" by simp
  obtain lo where lo: "lane_of (bi_endedAgentIds inp) (bi_nowMs inp) (draft_of inp ?a) = Inr lo"
    using lane_of_total[OF assms(1)] by blast
  have "\<exists>l. lo = Some l \<and> ln_agentId l = ?a \<and> ln_state l = Waiting"
    using lo active mem classify_state
    by (fastforce simp: lane_of_def draft_of_fields Let_def result_simps dest: classify_state split: if_splits)
  with lo key show ?thesis using board_lane_iff[OF assms(2)] by blast
qed

theorem waiting_always_visible_witness:
  "\<exists>b. deriveBoard (one_request ''2026-07-14T10:00:00Z'') = Inr b \<and>
     (\<exists>l \<in> set (board_lanes b). ln_agentId l = ''a'' \<and> ln_state l = Waiting)"
proof -
  have t: "get_time ''2026-07-14T10:00:00Z'' = Some 1784023200000" by code_simp
  then have ti: "timed_inputs (one_request ''2026-07-14T10:00:00Z'')"
    by (simp add: timed_inputs_def one_request_def request_at_def has_time_def)
  then obtain b where b: "deriveBoard (one_request ''2026-07-14T10:00:00Z'') = Inr b"
    using timed_board by blast
  have "request_at ''2026-07-14T10:00:00Z'' \<in> set (bi_queue (one_request ''2026-07-14T10:00:00Z''))"
    by (simp add: one_request_def)
  from waiting_always_visible[OF ti b this] t b show ?thesis by (auto simp: request_at_def)
qed

text \<open>
  A waiting lane links to its oldest blocker: the waiting time is the earliest instant
  among the queued requests and open deferrals of the agent, and the inbox target is a
  blocker of that instant.
\<close>

theorem inbox_target_oldest:
  assumes "timed_inputs inp" and "deriveBoard inp = Inr b" and "l \<in> set (board_lanes b)" and "ln_state l = Waiting"
  shows "\<exists>t. ln_waitingSinceMs l = Some (Ms t) \<and>
    (\<forall>r \<in> set (requests_of inp (ln_agentId l)). t \<le> the (get_time (dr_timestamp r))) \<and>
    (\<forall>d \<in> set (deferrals_of inp (ln_agentId l)). t \<le> the (get_time (ad_ts d))) \<and>
    ((\<exists>r \<in> set (requests_of inp (ln_agentId l)). get_time (dr_timestamp r) = Some t \<and>
        ln_inboxTarget l = Some (Target_decision (dr_id r) (dr_tool_name r))) \<or>
     (\<exists>d \<in> set (deferrals_of inp (ln_agentId l)). get_time (ad_ts d) = Some t \<and>
        ln_inboxTarget l = Some (Target_deferred (deferredKey d) (ad_tool_name d))))"
proof -
  from assms(2,3) obtain a where "lane_of (bi_endedAgentIds inp) (bi_nowMs inp) (draft_of inp a) = Inr (Some l)"
    by (auto simp: board_lane_iff)
  then obtain s w tgt where c0: "classify (js_sort (cmp_time dr_timestamp) (requests_of inp a))
      (if a \<in> set (bi_endedAgentIds inp) then [] else js_sort (cmp_time ad_ts) (filter unanswered (audits_of inp a)))
      (df_lastToolName (draft_of inp a)) (max 0 (bi_nowMs inp - latest 0 (event_times inp a))) = Inr (s, w, tgt)"
    and l: "ln_agentId l = a" "ln_state l = s" "ln_waitingSinceMs l = w" "ln_inboxTarget l = tgt"
    by (rule lane_ofE)
  have "js_sort (cmp_time ad_ts) (deferrals_of inp a) =
      (if a \<in> set (bi_endedAgentIds inp) then [] else js_sort (cmp_time ad_ts) (filter unanswered (audits_of inp a)))"
    by (simp add: deferrals_of_def)
  with c0 l assms(4) have c: "classify (js_sort (cmp_time dr_timestamp) (requests_of inp a))
      (js_sort (cmp_time ad_ts) (deferrals_of inp a)) (df_lastToolName (draft_of inp a))
      (max 0 (bi_nowMs inp - latest 0 (event_times inp a))) = Inr (Waiting, w, tgt)" by simp
  have "\<forall>r \<in> set (requests_of inp a). has_time (dr_timestamp r)" "\<forall>d \<in> set (deferrals_of inp a). has_time (ad_ts d)"
    using assms(1) by (auto simp: timed_inputs_def requests_of_def deferrals_of_def audits_of_def)
  from oldest_blocker[OF this c] show ?thesis by (simp add: l)
qed

theorem inbox_target_oldest_witness:
  "\<exists>b l t. deriveBoard (one_request ''2026-07-14T10:00:00Z'') = Inr b \<and> l \<in> set (board_lanes b) \<and>
     ln_state l = Waiting \<and> ln_waitingSinceMs l = Some (Ms t)"
proof -
  have "has_time ''2026-07-14T10:00:00Z''" by code_simp
  then have ti: "timed_inputs (one_request ''2026-07-14T10:00:00Z'')"
    by (simp add: timed_inputs_def one_request_def request_at_def)
  then obtain b where b: "deriveBoard (one_request ''2026-07-14T10:00:00Z'') = Inr b"
    using timed_board by blast
  then obtain l where l: "l \<in> set (board_lanes b)" "ln_state l = Waiting" by (rule one_request_lane)
  with b inbox_target_oldest[OF ti b l] show ?thesis by blast
qed

definition louder :: "lane \<Rightarrow> lane \<Rightarrow> bool" where
  "louder x y \<longleftrightarrow> ln_state x < ln_state y \<or> ln_state x = ln_state y \<and> ln_lastActivityMs y \<le> ln_lastActivityMs x"

lemma cmp_lane_louder: "cmp_lane x y \<le> 0 \<longleftrightarrow> louder x y"
  by (cases "ln_state x"; cases "ln_state y") (simp_all add: cmp_lane_def louder_def less_lane_state_def)

lemma group_lanes_project:
  assumes "pl \<in> set (group_lanes lanes)"
  shows "pl_lanes pl \<noteq> [] \<and> sorted_wrt louder (pl_lanes pl) \<and> (\<forall>l \<in> set (pl_lanes pl). ln_project l = pl_project pl)"
proof -
  obtain p ls where pl: "pl = \<lparr>pl_project = p, pl_lanes = js_sort cmp_lane ls\<rparr>" "(p, ls) \<in> set (group_by ln_project lanes)"
    using assms by (auto simp: group_lanes_def)
  have "sorted_wrt (\<lambda>x y. cmp_lane x y \<le> 0) (js_sort cmp_lane ls)" by (rule lane_order.js_sort_sorted) simp
  with group_by_entry[OF pl(2)] show ?thesis by (auto simp: pl cmp_lane_louder)
qed

lemma group_lanes_distinct: "distinct (map pl_project (group_lanes lanes))"
  unfolding group_lanes_def by (rule distinct_grouped) simp

text \<open>
  The board lists each project once with its own lanes only, the loudest first (stalled,
  waiting, working, done) and the most recently active first among equals, projects ranked
  by their loudest lane; and the totals count the lanes shown in each state.
\<close>

theorem board_order_and_totals:
  assumes "deriveBoard inp = Inr b"
  shows "distinct (map pl_project (bm_projects b)) \<and>
    (\<forall>pl \<in> set (bm_projects b). pl_lanes pl \<noteq> [] \<and> sorted_wrt louder (pl_lanes pl) \<and>
       (\<forall>l \<in> set (pl_lanes pl). ln_project l = pl_project pl)) \<and>
    sorted_wrt (\<lambda>p q. louder (hd (pl_lanes p)) (hd (pl_lanes q))) (bm_projects b) \<and>
    bm_totals b = \<lparr>bt_working = int (length (filter (\<lambda>l. ln_state l = Working) (board_lanes b))),
      bt_waiting = int (length (filter (\<lambda>l. ln_state l = Waiting) (board_lanes b))),
      bt_stalled = int (length (filter (\<lambda>l. ln_state l = Stalled) (board_lanes b))),
      bt_done = int (length (filter (\<lambda>l. ln_state l = Done) (board_lanes b)))\<rparr>"
proof -
  from assms obtain lanes where m: "mset (board_lanes b) = mset lanes" and g: "bm_projects b = group_lanes lanes"
    and t: "bm_totals b = fold add_total lanes \<lparr>bt_working = 0, bt_waiting = 0, bt_stalled = 0, bt_done = 0\<rparr>"
    by (rule deriveBoard_Inr)
  have "count (image_mset ln_state (mset lanes)) s = length (filter (\<lambda>l. ln_state l = s) (board_lanes b))" for s
  proof -
    have "count (image_mset ln_state (mset xs)) s = length (filter (\<lambda>l. ln_state l = s) xs)" for xs
      by (induction xs) auto
    then show ?thesis by (simp flip: m)
  qed
  then have totals: "bm_totals b = \<lparr>bt_working = int (length (filter (\<lambda>l. ln_state l = Working) (board_lanes b))),
      bt_waiting = int (length (filter (\<lambda>l. ln_state l = Waiting) (board_lanes b))),
      bt_stalled = int (length (filter (\<lambda>l. ln_state l = Stalled) (board_lanes b))),
      bt_done = int (length (filter (\<lambda>l. ln_state l = Done) (board_lanes b)))\<rparr>"
    by (simp add: t totals_count)
  have "sorted_wrt (\<lambda>p q. cmp_project p q \<le> 0) (group_lanes lanes)"
    unfolding group_lanes_def by (rule project_order.js_sort_sorted) simp
  then have "sorted_wrt (\<lambda>p q. louder (hd (pl_lanes p)) (hd (pl_lanes q))) (group_lanes lanes)"
    by (simp add: cmp_project_def cmp_lane_louder)
  with totals group_lanes_project group_lanes_distinct show ?thesis by (simp add: g)
qed

theorem board_order_and_totals_witness:
  "\<exists>b. deriveBoard (one_request ''2026-07-14T10:00:00Z'') = Inr b \<and> distinct (map pl_project (bm_projects b)) \<and>
     bt_waiting (bm_totals b) = int (length (filter (\<lambda>l. ln_state l = Waiting) (board_lanes b)))"
proof -
  have "has_time ''2026-07-14T10:00:00Z''" by code_simp
  then obtain b where b: "deriveBoard (one_request ''2026-07-14T10:00:00Z'') = Inr b"
    using timed_board[of "one_request ''2026-07-14T10:00:00Z''"]
    by (auto simp: timed_inputs_def one_request_def request_at_def)
  with board_order_and_totals[OF b] show ?thesis by simp
qed

text \<open>
  A leap-second timestamp, which the trust boundary accepts, makes the derivation throw: the
  comparison with \<open>NaN\<close> is false, so the deferral branch reads the first element of an
  empty array. Here the agent has a live registry entry and one such request.
\<close>

definition leap_inputs :: board_inputs where
  "leap_inputs = \<lparr>bi_sessions = [],
     bi_agents = [\<lparr>ai_agent_id = ''a'', ai_agent_type = AT_codex, ai_project = ''/p'',
       ai_connected_at = ''2016-12-31T23:59:00Z'', ai_last_seen = ''2016-12-31T23:59:00Z''\<rparr>],
     bi_queue = [request_at ''2016-12-31T23:59:60Z''], bi_auditDecisions = [], bi_endedAgentIds = [], bi_nowMs = 0\<rparr>"

theorem leap_second_breaks_board:
  "readRfc3339 (Some (JStr ''2016-12-31T23:59:60Z'')) p = Inr ''2016-12-31T23:59:60Z'' \<and>
   deriveBoard leap_inputs = Inl ''TypeError''"
proof
  have "is_rfc3339 ''2016-12-31T23:59:60Z''" by code_simp
  then show "readRfc3339 (Some (JStr ''2016-12-31T23:59:60Z'')) p = Inr ''2016-12-31T23:59:60Z''"
    by (simp add: readRfc3339_JStr)
  have t: "get_time ''2016-12-31T23:59:60Z'' = None" "get_time ''2016-12-31T23:59:00Z'' = Some 1483228740000"
    by code_simp+
  show "deriveBoard leap_inputs = Inl ''TypeError''"
    by (simp add: deriveBoard_def leap_inputs_def collect_drafts_def with_draft_def draftFor_def entry_or_def request_at_def
        note_agent_def note_item_def noteActivity_def new_draft_def or_else_def t lane_of_def classify_def date_ms_def
        Let_def)
qed

end
