(* ===== verification/Burn_Meter.thy ===== *)
theory Burn_Meter
  imports Protocol_Types
begin

text \<open>
  \<open>components/burnMeter.ts\<close>: which approved calls are artifacts, and the burn meter derived
  from the audit stream, the decision-log touches and the session aggregates. The regular
  expressions are written as the functions they denote, backtracking included.
\<close>

section \<open>Constants and data\<close>

definition BURN_WINDOW_MS :: int where "BURN_WINDOW_MS = 60 * 60 * 1000"

definition DEAD_RUN_MIN_TOOL_CALLS :: int where "DEAD_RUN_MIN_TOOL_CALLS = 10"

definition DEAD_RUN_MIN_ACTIVE_MS :: int where "DEAD_RUN_MIN_ACTIVE_MS = 10 * 60 * 1000"

datatype artifact_kind = Art_file | Art_commit

record artifact =
  ar_kind :: artifact_kind
  ar_label :: string
  ar_toolName :: string
  ar_count :: int
  ar_lastTsMs :: int

record burn_session =
  bs_agentId :: string
  bs_agentType :: agent_type
  bs_project :: string
  bs_toolCalls :: int
  bs_activeSpanMs :: int
  bs_lastMs :: int
  bs_artifacts :: "artifact list"
  bs_artifactCalls :: int
  bs_deadRun :: bool

record project_burn =
  pb_project :: string
  pb_sessions :: "burn_session list"

record burn_totals =
  bu_sessions :: int
  bu_deadRuns :: int
  bu_artifactCalls :: int

record burn_model =
  bo_projects :: "project_burn list"
  bo_totals :: burn_totals

record burn_inputs =
  bn_sessions :: "session_summary list"
  bn_auditDecisions :: "audit_decision list"
  bn_touches :: "artifact_touch list"
  bn_nowMs :: int

definition FILE_ARTIFACT_TOOLS :: "string list" where
  "FILE_ARTIFACT_TOOLS = [''Edit'', ''Write'', ''MultiEdit'', ''NotebookEdit'']"

definition GIT_VALUE_OPTIONS :: "string list" where
  "GIT_VALUE_OPTIONS = [''-C'', ''-c'', ''--git-dir'', ''--work-tree'', ''--namespace'']"

section \<open>Classifying a call\<close>

definition readStringProp :: "json option \<Rightarrow> string \<Rightarrow> string option" where
  "readStringProp v key = (case v of
       Some (JObj kvs) \<Rightarrow> (case map_of kvs key of Some (JStr s) \<Rightarrow> if s \<noteq> [] then Some s else None | _ \<Rightarrow> None)
     | _ \<Rightarrow> None)"

text \<open>\<open>split(/&&|\|\||;|\|/)\<close>.\<close>

fun push_char :: "char \<Rightarrow> string list \<Rightarrow> string list" where
  "push_char c [] = [[c]]"
| "push_char c (w # ws) = (c # w) # ws"

fun split_segments :: "string \<Rightarrow> string list" where
  "split_segments [] = [[]]"
| "split_segments (c # s) =
     (if (c = CHR ''&'' \<and> s \<noteq> [] \<and> hd s = CHR ''&'') \<or> (c = CHR ''|'' \<and> s \<noteq> [] \<and> hd s = CHR ''|'')
      then [] # split_segments (tl s)
      else if c = CHR '';'' \<or> c = CHR ''|'' then [] # split_segments s
      else push_char c (split_segments s))"

text \<open>\<open>split(/\s+/)\<close>.\<close>

definition split_ws :: "string \<Rightarrow> string list" where
  "split_ws s = split_on (CHR '' '') (collapse_ws s)"

text \<open>
  \<open>/(?:^|\s)(?:-m|--message)[\s=]+(?:"([^"]*)"|'([^']*)'|(\S+))/\<close>: the value alternatives, the
  separator run tried from its longest to its shortest, the flag, and the search for the
  leftmost match.
\<close>

definition is_sep :: "char \<Rightarrow> bool" where
  "is_sep c \<longleftrightarrow> is_space c \<or> c = CHR ''=''"

definition single_quote :: char where "single_quote = char_of (39::nat)"
definition double_quote :: char where "double_quote = char_of (34::nat)"

definition match_value :: "string \<Rightarrow> string option" where
  "match_value s = (case s of
       [] \<Rightarrow> None
     | c # r \<Rightarrow>
         if c = double_quote \<and> double_quote \<in> set r then Some (takeWhile (\<lambda>d. d \<noteq> double_quote) r)
         else if c = single_quote \<and> single_quote \<in> set r then Some (takeWhile (\<lambda>d. d \<noteq> single_quote) r)
         else if is_space c then None else Some (takeWhile (\<lambda>d. \<not> is_space d) s))"

fun try_runs :: "nat \<Rightarrow> string \<Rightarrow> string option" where
  "try_runs 0 s = None"
| "try_runs (Suc j) s = (case match_value (drop (Suc j) s) of Some v \<Rightarrow> Some v | None \<Rightarrow> try_runs j s)"

definition match_sep :: "string \<Rightarrow> string option" where
  "match_sep s = try_runs (length (takeWhile is_sep s)) s"

definition match_flag :: "string \<Rightarrow> string option" where
  "match_flag s =
     (if starts_with s ''-m'' then match_sep (drop 2 s)
      else if starts_with s ''--message'' then match_sep (drop 9 s) else None)"

fun find_flag :: "bool \<Rightarrow> string \<Rightarrow> string option" where
  "find_flag start [] = None"
| "find_flag start (c # r) =
     (case (if start then match_flag (c # r) else None) of
        Some v \<Rightarrow> Some v
      | None \<Rightarrow> (case (if is_space c then match_flag r else None) of
          Some v \<Rightarrow> Some v
        | None \<Rightarrow> find_flag False r))"

definition commit_subject :: "string \<Rightarrow> string" where
  "commit_subject segment =
     (let subject = (case find_flag True segment of Some m \<Rightarrow> trim (hd (split_on (char_of (10::nat)) m)) | None \<Rightarrow> [])
      in if subject \<noteq> [] then subject else ''git commit'')"

text \<open>The loop over the tokens after \<open>git\<close>: true when the subcommand is \<open>commit\<close>.\<close>

fun scan_tokens :: "string list \<Rightarrow> bool" where
  "scan_tokens [] = False"
| "scan_tokens (t # ts) =
     (if starts_with t ''-'' then (if t \<in> set GIT_VALUE_OPTIONS then scan_tokens (tl ts) else scan_tokens ts)
      else t = ''commit'')"

definition gitCommitSubject :: "string \<Rightarrow> string option" where
  "gitCommitSubject segment =
     (case split_ws (trim segment) of
        [] \<Rightarrow> None
      | t # ts \<Rightarrow> if t \<noteq> ''git'' then None
                  else if scan_tokens ts then Some (commit_subject segment) else None)"

fun first_commit :: "string list \<Rightarrow> (artifact_kind \<times> string) option" where
  "first_commit [] = None"
| "first_commit (seg # segs) =
     (case gitCommitSubject seg of Some subject \<Rightarrow> Some (Art_commit, subject) | None \<Rightarrow> first_commit segs)"

definition classifyArtifact :: "string \<Rightarrow> json option \<Rightarrow> (artifact_kind \<times> string) option" where
  "classifyArtifact toolName toolInput =
     (if toolName \<in> set FILE_ARTIFACT_TOOLS then
        Some (Art_file, case readStringProp toolInput ''file_path'' of
            Some p \<Rightarrow> p
          | None \<Rightarrow> (case readStringProp toolInput ''notebook_path'' of Some p \<Rightarrow> p | None \<Rightarrow> ''(path unknown)''))
      else if toolName = ''Bash'' then
        (case readStringProp toolInput ''command'' of
           None \<Rightarrow> None
         | Some command \<Rightarrow> first_commit (split_segments command))
      else None)"

section \<open>Collecting the drafts\<close>

definition burn_agentTypeFromId :: "string \<Rightarrow> agent_type" where
  "burn_agentTypeFromId agentId =
     (if starts_with agentId ''codex-'' then AT_codex
      else if starts_with agentId ''red-'' then AT_red
      else if starts_with agentId ''local-'' then AT_local_llm
      else AT_claude_code)"

text \<open>\<open>firstMs\<close> is \<open>None\<close> for the initial \<open>Infinity\<close>.\<close>

record burn_draft =
  bd_agentId :: string
  bd_project :: "string option"
  bd_agentType :: "agent_type option"
  bd_toolCalls :: int
  bd_firstMs :: "int option"
  bd_lastMs :: int
  bd_counted :: "string set"
  bd_artifacts :: "(string, artifact) jmap"
  bd_artifactCalls :: int

definition new_burn_draft :: "string \<Rightarrow> burn_draft" where
  "new_burn_draft agentId = \<lparr>bd_agentId = agentId, bd_project = None, bd_agentType = None, bd_toolCalls = 0,
     bd_firstMs = None, bd_lastMs = 0, bd_counted = {}, bd_artifacts = [], bd_artifactCalls = 0\<rparr>"

definition burn_draftFor :: "(string, burn_draft) jmap \<Rightarrow> string \<Rightarrow> burn_draft" where
  "burn_draftFor m agentId = entry_or new_burn_draft m agentId"

definition with_burn_draft ::
    "string \<Rightarrow> (burn_draft \<Rightarrow> burn_draft) \<Rightarrow> (string, burn_draft) jmap \<Rightarrow> (string, burn_draft) jmap" where
  "with_burn_draft agentId f m = AList.update agentId (f (burn_draftFor m agentId)) m"

definition noteSpan :: "int \<Rightarrow> burn_draft \<Rightarrow> burn_draft" where
  "noteSpan t d = d\<lparr>bd_firstMs := (case bd_firstMs d of Some f \<Rightarrow> Some (if t < f then t else f) | None \<Rightarrow> Some t),
     bd_lastMs := (if t > bd_lastMs d then t else bd_lastMs d)\<rparr>"

text \<open>The timestamp of an event inside the window, or \<open>None\<close> when the loop skips it.\<close>

definition in_window :: "int \<Rightarrow> string \<Rightarrow> int option" where
  "in_window nowMs ts = (case get_time ts of
       None \<Rightarrow> None
     | Some t \<Rightarrow> if t < nowMs - BURN_WINDOW_MS \<or> t > nowMs then None else Some t)"

definition call_key :: "string \<Rightarrow> string \<Rightarrow> int \<Rightarrow> string" where
  "call_key agentId toolName t = agentId @ nul_char @ toolName @ nul_char @ show_int t"

definition count_call :: "string \<Rightarrow> burn_draft \<Rightarrow> burn_draft" where
  "count_call key d =
     (if key \<in> bd_counted d then d
      else d\<lparr>bd_counted := insert key (bd_counted d), bd_toolCalls := bd_toolCalls d + 1\<rparr>)"

definition set_project :: "string \<Rightarrow> burn_draft \<Rightarrow> burn_draft" where
  "set_project p d = d\<lparr>bd_project := (case bd_project d of Some q \<Rightarrow> Some q | None \<Rightarrow> Some p)\<rparr>"

definition burn_audit :: "int \<Rightarrow> audit_decision \<Rightarrow> burn_draft \<Rightarrow> burn_draft" where
  "burn_audit t a d0 =
     (let d = noteSpan t (set_project (ad_project a) d0) in
      if ad_kind a = K_auto_approved then count_call (call_key (ad_agent_id a) (ad_tool_name a) t) d else d)"

definition kind_name :: "artifact_kind \<Rightarrow> string" where
  "kind_name k = (case k of Art_file \<Rightarrow> ''file'' | Art_commit \<Rightarrow> ''commit'')"

definition artifact_key :: "artifact_kind \<times> string \<Rightarrow> string" where
  "artifact_key sig = kind_name (fst sig) @ nul_char @ snd sig"

definition add_artifact :: "int \<Rightarrow> string \<Rightarrow> artifact_kind \<times> string \<Rightarrow> burn_draft \<Rightarrow> burn_draft" where
  "add_artifact t toolName sig d =
     (let art = (case map_of (bd_artifacts d) (artifact_key sig) of
          Some e \<Rightarrow>
            (if t > ar_lastTsMs e then e\<lparr>ar_count := ar_count e + 1, ar_lastTsMs := t, ar_toolName := toolName\<rparr>
             else e\<lparr>ar_count := ar_count e + 1\<rparr>)
        | None \<Rightarrow> \<lparr>ar_kind = fst sig, ar_label = snd sig, ar_toolName = toolName, ar_count = 1, ar_lastTsMs = t\<rparr>)
      in d\<lparr>bd_artifactCalls := bd_artifactCalls d + 1,
           bd_artifacts := AList.update (artifact_key sig) art (bd_artifacts d)\<rparr>)"

definition burn_touch :: "int \<Rightarrow> artifact_touch \<Rightarrow> burn_draft \<Rightarrow> burn_draft" where
  "burn_touch t x d0 =
     (let d = count_call (call_key (at_agent_id x) (at_tool_name x) t) (noteSpan t (set_project (at_project x) d0)) in
      case classifyArtifact (at_tool_name x) (at_tool_input x) of
        Some sig \<Rightarrow> add_artifact t (at_tool_name x) sig d
      | None \<Rightarrow> d)"

definition step_audit :: "int \<Rightarrow> audit_decision \<Rightarrow> (string, burn_draft) jmap \<Rightarrow> (string, burn_draft) jmap" where
  "step_audit nowMs a m = (case in_window nowMs (ad_ts a) of
     None \<Rightarrow> m | Some t \<Rightarrow> with_burn_draft (ad_agent_id a) (burn_audit t a) m)"

definition step_touch :: "int \<Rightarrow> artifact_touch \<Rightarrow> (string, burn_draft) jmap \<Rightarrow> (string, burn_draft) jmap" where
  "step_touch nowMs x m = (case in_window nowMs (at_ts x) of
     None \<Rightarrow> m | Some t \<Rightarrow> with_burn_draft (at_agent_id x) (burn_touch t x) m)"

definition step_session :: "session_summary \<Rightarrow> (string, burn_draft) jmap \<Rightarrow> (string, burn_draft) jmap" where
  "step_session s m = (case map_of m (ss_agent_id s) of
       None \<Rightarrow> m
     | Some d \<Rightarrow> AList.update (ss_agent_id s)
         (set_project (ss_project s)
           (d\<lparr>bd_agentType := (case bd_agentType d of Some t \<Rightarrow> Some t | None \<Rightarrow> knownAgentType (ss_agent_type s))\<rparr>)) m)"

definition burn_drafts :: "burn_inputs \<Rightarrow> (string, burn_draft) jmap" where
  "burn_drafts inp = fold step_session (bn_sessions inp)
     (fold (step_touch (bn_nowMs inp)) (bn_touches inp)
       (fold (step_audit (bn_nowMs inp)) (bn_auditDecisions inp) []))"

section \<open>The model\<close>

definition burn_session_of :: "burn_draft \<Rightarrow> burn_session" where
  "burn_session_of d =
     (let activeSpanMs = (case bd_firstMs d of Some f \<Rightarrow> max 0 (bd_lastMs d - f) | None \<Rightarrow> 0);
          artifacts = js_sort (\<lambda>a b. ar_lastTsMs b - ar_lastTsMs a) (map snd (bd_artifacts d))
      in \<lparr>bs_agentId = bd_agentId d,
          bs_agentType = (case bd_agentType d of Some t \<Rightarrow> t | None \<Rightarrow> burn_agentTypeFromId (bd_agentId d)),
          bs_project = (case bd_project d of Some p \<Rightarrow> p | None \<Rightarrow> []),
          bs_toolCalls = bd_toolCalls d, bs_activeSpanMs = activeSpanMs, bs_lastMs = bd_lastMs d,
          bs_artifacts = artifacts, bs_artifactCalls = bd_artifactCalls d,
          bs_deadRun = (bd_toolCalls d \<ge> DEAD_RUN_MIN_TOOL_CALLS \<and> activeSpanMs \<ge> DEAD_RUN_MIN_ACTIVE_MS
            \<and> artifacts = [])\<rparr>)"

definition burn_sessions :: "burn_inputs \<Rightarrow> burn_session list" where
  "burn_sessions inp = map burn_session_of (filter (\<lambda>d. bd_lastMs d \<noteq> 0) (map snd (burn_drafts inp)))"

definition burn_rank :: "burn_session \<Rightarrow> int" where
  "burn_rank s = (if bs_deadRun s then 0 else 1)"

definition cmp_burn :: "burn_session comparator" where
  "cmp_burn a b = (let d = burn_rank a - burn_rank b in if d \<noteq> 0 then d else bs_lastMs b - bs_lastMs a)"

definition cmp_project_burn :: "project_burn comparator" where
  "cmp_project_burn a b = cmp_burn (hd (pb_sessions a)) (hd (pb_sessions b))"

definition add_burn_total :: "burn_session \<Rightarrow> burn_totals \<Rightarrow> burn_totals" where
  "add_burn_total s t = t\<lparr>bu_sessions := bu_sessions t + 1,
     bu_deadRuns := bu_deadRuns t + (if bs_deadRun s then 1 else 0),
     bu_artifactCalls := bu_artifactCalls t + bs_artifactCalls s\<rparr>"

definition deriveBurn :: "burn_inputs \<Rightarrow> burn_model" where
  "deriveBurn inp =
     (let ss = burn_sessions inp in
      \<lparr>bo_projects = js_sort cmp_project_burn
         (map (\<lambda>(p, xs). \<lparr>pb_project = p, pb_sessions = js_sort cmp_burn xs\<rparr>) (group_by bs_project ss)),
       bo_totals = fold add_burn_total ss \<lparr>bu_sessions = 0, bu_deadRuns = 0, bu_artifactCalls = 0\<rparr>\<rparr>)"

end
