(* ===== verification/Burn_Ledger.thy ===== *)
theory Burn_Ledger
  imports Burn_Meter
begin

text \<open>
  The burn meter's promises, stated over its inputs: what counts as a commit, that each
  approved call is spent once although it may arrive on two streams, that the artifact
  ledger adds up, and when a run is called dead.
\<close>

section \<open>Git invocations\<close>

text \<open>Options that may stand between \<open>git\<close> and its subcommand.\<close>

inductive git_options :: "string list \<Rightarrow> bool" where
  none: "git_options []"
| flag: "starts_with t ''-'' \<Longrightarrow> t \<notin> set GIT_VALUE_OPTIONS \<Longrightarrow> git_options ts \<Longrightarrow> git_options (t # ts)"
| valued: "t \<in> set GIT_VALUE_OPTIONS \<Longrightarrow> git_options ts \<Longrightarrow> git_options (t # v # ts)"

lemma value_option_dash: "t \<in> set GIT_VALUE_OPTIONS \<Longrightarrow> starts_with t ''-''"
  by (auto simp: GIT_VALUE_OPTIONS_def starts_with_def)

lemma scan_tokens_sound: "scan_tokens ts \<Longrightarrow> \<exists>os rest. git_options os \<and> ts = os @ ''commit'' # rest"
proof (induction ts rule: scan_tokens.induct)
  case (2 t ts)
  consider "starts_with t ''-''" "t \<in> set GIT_VALUE_OPTIONS" | "starts_with t ''-''" "t \<notin> set GIT_VALUE_OPTIONS"
    | "\<not> starts_with t ''-''" by blast
  then show ?case
  proof cases
    case 1
    with "2.prems" have scan: "scan_tokens (tl ts)" by simp
    then obtain v ts' where ts: "ts = v # ts'" by (cases ts) auto
    from "2.IH"(1)[OF 1 scan] obtain os rest where "git_options os" "tl ts = os @ ''commit'' # rest" by blast
    with 1 ts git_options.valued[of t os v] show ?thesis by (intro exI[of _ "t # v # os"] exI[of _ rest]) simp
  next
    case 2
    with "2.prems" "2.IH"(2) obtain os rest where "git_options os" "ts = os @ ''commit'' # rest" by auto
    with 2 git_options.flag[of t os] show ?thesis by (intro exI[of _ "t # os"] exI[of _ rest]) simp
  next
    case 3
    with "2.prems" git_options.none show ?thesis by (intro exI[of _ "[]"] exI[of _ ts]) simp
  qed
qed simp

lemma scan_tokens_complete: "git_options os \<Longrightarrow> scan_tokens (os @ ''commit'' # rest)"
proof (induction rule: git_options.induct)
  case none
  then show ?case by (simp add: starts_with_def)
next
  case (valued t ts v)
  then show ?case using value_option_dash by simp
qed simp

lemma gitCommitSubject_iff:
  "(\<exists>s. gitCommitSubject seg = Some s) \<longleftrightarrow>
   (\<exists>os rest. git_options os \<and> split_ws (trim seg) = ''git'' # os @ ''commit'' # rest)"
  using scan_tokens_sound scan_tokens_complete
  by (cases "split_ws (trim seg)") (auto simp: gitCommitSubject_def)

lemma first_commit_iff:
  "(\<exists>l. first_commit segs = Some (Art_commit, l)) \<longleftrightarrow> (\<exists>seg \<in> set segs. \<exists>s. gitCommitSubject seg = Some s)"
  by (induction segs) (auto split: option.split)

text \<open>
  A Bash call is a commit artifact exactly when one of its shell segments is a \<open>git\<close>
  invocation whose subcommand, after any global options and their values, is \<open>commit\<close>; a
  command that only mentions the word is none.
\<close>

theorem commit_artifact_exact:
  "(\<exists>l. classifyArtifact ''Bash'' inp = Some (Art_commit, l)) \<longleftrightarrow>
   (\<exists>command seg os rest. readStringProp inp ''command'' = Some command \<and> seg \<in> set (split_segments command) \<and>
      git_options os \<and> split_ws (trim seg) = ''git'' # os @ ''commit'' # rest)"
proof -
  have "(\<exists>l. classifyArtifact ''Bash'' inp = Some (Art_commit, l)) \<longleftrightarrow>
      (\<exists>command. readStringProp inp ''command'' = Some command \<and> (\<exists>l. first_commit (split_segments command) = Some (Art_commit, l)))"
    by (auto simp: classifyArtifact_def FILE_ARTIFACT_TOOLS_def split: option.splits)
  then show ?thesis by (auto simp: first_commit_iff gitCommitSubject_iff)
qed

section \<open>The events of an agent in the window\<close>

definition windowed :: "int \<Rightarrow> ('a \<Rightarrow> string) \<Rightarrow> 'a list \<Rightarrow> (int \<times> 'a) list" where
  "windowed now ts xs = List.map_filter (\<lambda>x. map_option (\<lambda>t. (t, x)) (in_window now (ts x))) xs"

definition audits_in :: "burn_inputs \<Rightarrow> string \<Rightarrow> (int \<times> audit_decision) list" where
  "audits_in inp a = filter (\<lambda>e. ad_agent_id (snd e) = a) (windowed (bn_nowMs inp) ad_ts (bn_auditDecisions inp))"

definition touches_in :: "burn_inputs \<Rightarrow> string \<Rightarrow> (int \<times> artifact_touch) list" where
  "touches_in inp a = filter (\<lambda>e. at_agent_id (snd e) = a) (windowed (bn_nowMs inp) at_ts (bn_touches inp))"

text \<open>The distinct approved calls: tool and instant, from either stream.\<close>

definition approved_calls :: "burn_inputs \<Rightarrow> string \<Rightarrow> (string \<times> int) set" where
  "approved_calls inp a =
     (\<lambda>(t, x). (ad_tool_name x, t)) ` {e \<in> set (audits_in inp a). ad_kind (snd e) = K_auto_approved} \<union>
     (\<lambda>(t, x). (at_tool_name x, t)) ` set (touches_in inp a)"

definition is_artifact :: "artifact_touch \<Rightarrow> bool" where
  "is_artifact x \<longleftrightarrow> classifyArtifact (at_tool_name x) (at_tool_input x) \<noteq> None"

definition event_span :: "burn_inputs \<Rightarrow> string \<Rightarrow> int list" where
  "event_span inp a = map fst (audits_in inp a) @ map fst (touches_in inp a)"

section \<open>The draft of an agent\<close>

lemma fold_step_audit:
  "fold (step_audit now) xs m = fold (\<lambda>e. with_entry new_burn_draft (ad_agent_id (snd e)) ((\<lambda>(t, x). burn_audit t x) e))
     (windowed now ad_ts xs) m"
  by (induction xs arbitrary: m)
    (auto simp: windowed_def map_filter_simps step_audit_def with_burn_draft_def burn_draftFor_def with_entry_def
      split: option.split)

lemma fold_step_touch:
  "fold (step_touch now) xs m = fold (\<lambda>e. with_entry new_burn_draft (at_agent_id (snd e)) ((\<lambda>(t, x). burn_touch t x) e))
     (windowed now at_ts xs) m"
  by (induction xs arbitrary: m)
    (auto simp: windowed_def map_filter_simps step_touch_def with_burn_draft_def burn_draftFor_def with_entry_def
      split: option.split)

definition burn_core :: "burn_inputs \<Rightarrow> string \<Rightarrow> burn_draft" where
  "burn_core inp a = fold (\<lambda>(t, x). burn_touch t x) (touches_in inp a)
     (fold (\<lambda>(t, x). burn_audit t x) (audits_in inp a) (new_burn_draft a))"

definition same_core :: "burn_draft \<Rightarrow> burn_draft \<Rightarrow> bool" where
  "same_core d e \<longleftrightarrow> bd_agentId d = bd_agentId e \<and> bd_toolCalls d = bd_toolCalls e \<and> bd_firstMs d = bd_firstMs e \<and>
     bd_lastMs d = bd_lastMs e \<and> bd_artifacts d = bd_artifacts e \<and> bd_artifactCalls d = bd_artifactCalls e"

lemma fold_step_session:
  "map_of (fold step_session ss m) k = Some d \<Longrightarrow> \<exists>e. map_of m k = Some e \<and> same_core d e"
proof (induction ss arbitrary: m)
  case Nil
  then show ?case by (simp add: same_core_def)
next
  case (Cons s ss)
  then obtain e where e: "map_of (step_session s m) k = Some e" "same_core d e" by auto
  then have "\<exists>e0. map_of m k = Some e0 \<and> same_core e e0"
    by (auto simp: step_session_def jmap.get_set set_project_def same_core_def split: option.splits if_splits)
  with e(2) show ?case by (auto simp: same_core_def)
qed

lemma jmap_wf_sessions: "jmap_wf m \<Longrightarrow> jmap_wf (fold step_session ss m)"
  by (induction ss arbitrary: m) (auto simp: step_session_def jmap.wf_set split: option.split)

lemma burn_drafts_core:
  assumes "(a, d) \<in> set (burn_drafts inp)"
  shows "same_core d (burn_core inp a)"
proof -
  let ?m = "fold (step_touch (bn_nowMs inp)) (bn_touches inp) (fold (step_audit (bn_nowMs inp)) (bn_auditDecisions inp) [])"
  have wf: "jmap_wf ?m" by (simp add: fold_step_touch fold_step_audit wf_with_fold)
  then have "map_of (burn_drafts inp) a = Some d"
    using assms jmap_wf_sessions[of ?m] by (simp add: burn_drafts_def jmap_wf_def)
  then obtain e where e: "map_of ?m a = Some e" "same_core d e"
    using fold_step_session[of "bn_sessions inp" ?m a d] by (auto simp: burn_drafts_def)
  have "entry_or new_burn_draft ?m a = burn_core inp a"
    by (simp add: burn_core_def fold_step_touch fold_step_audit entry_or_fold touches_in_def audits_in_def)
  with e show ?thesis by (simp add: entry_or_def)
qed

section \<open>The ledger of a draft\<close>

text \<open>Calls are counted once per key, and the span covers the instants seen so far.\<close>

definition ledger :: "string set \<Rightarrow> int list \<Rightarrow> burn_draft \<Rightarrow> bool" where
  "ledger keys ts d \<longleftrightarrow> finite keys \<and> bd_counted d = keys \<and> bd_toolCalls d = int (card keys) \<and>
     bd_firstMs d = (if ts = [] then None else Some (Min (set ts))) \<and> bd_lastMs d = Max (insert 0 (set ts))"

lemma Min_snoc: "Min (set (ts @ [t])) = (if ts = [] then t else min t (Min (set ts)))" for t :: int
  by (cases "ts = []") auto

lemma Max_snoc: "Max (insert 0 (set (ts @ [t]))) = max t (Max (insert 0 (set ts)))" for t :: int
  by (simp add: insert_commute[of 0 t])

lemma noteSpan_span:
  "bd_firstMs (noteSpan t d) = Some (case bd_firstMs d of Some f \<Rightarrow> min t f | None \<Rightarrow> t)"
  "bd_lastMs (noteSpan t d) = max t (bd_lastMs d)"
  by (auto simp: noteSpan_def min_def max_def split: option.split)

lemma noteSpan_frame [simp]:
  "bd_counted (noteSpan t d) = bd_counted d" "bd_toolCalls (noteSpan t d) = bd_toolCalls d"
  "bd_counted (set_project p d) = bd_counted d" "bd_toolCalls (set_project p d) = bd_toolCalls d"
  "bd_firstMs (set_project p d) = bd_firstMs d" "bd_lastMs (set_project p d) = bd_lastMs d"
  by (simp_all add: noteSpan_def set_project_def)

lemma ledger_span: "ledger keys ts d \<Longrightarrow> ledger keys (ts @ [t]) (noteSpan t (set_project p d))"
  unfolding ledger_def Min_snoc Max_snoc noteSpan_span by (cases "ts = []") simp_all

lemma ledger_count: "ledger keys ts d \<Longrightarrow> ledger (insert k keys) ts (count_call k d)"
  by (auto simp: ledger_def count_call_def insert_absorb)

lemma ledger_audits:
  assumes "ledger keys ts d"
  shows "ledger (keys \<union> (\<lambda>(t, x). call_key (ad_agent_id x) (ad_tool_name x) t) ` {e \<in> set es. ad_kind (snd e) = K_auto_approved})
    (ts @ map fst es) (fold (\<lambda>(t, x). burn_audit t x) es d)"
  using assms
proof (induction es arbitrary: keys ts d rule: rev_induct)
  case (snoc e es)
  obtain t x where e: "e = (t, x)" by (cases e)
  note before = ledger_span[OF snoc.IH[OF snoc.prems], of t "ad_project x"]
  show ?case
  proof (cases "ad_kind x = K_auto_approved")
    case True
    have "{e' \<in> set (es @ [e]). ad_kind (snd e') = K_auto_approved} =
        insert e {e' \<in> set es. ad_kind (snd e') = K_auto_approved}" using True e by auto
    with ledger_count[OF before, of "call_key (ad_agent_id x) (ad_tool_name x) t"] True e show ?thesis
      by (simp add: burn_audit_def)
  next
    case False
    have "{e' \<in> set (es @ [e]). ad_kind (snd e') = K_auto_approved} =
        {e' \<in> set es. ad_kind (snd e') = K_auto_approved}" using False e by auto
    with before False e show ?thesis by (simp add: burn_audit_def)
  qed
qed simp

lemma ledger_add_artifact: "ledger keys ts (add_artifact t tool sg d) = ledger keys ts d"
  by (simp add: ledger_def add_artifact_def Let_def)

lemma ledger_touches:
  assumes "ledger keys ts d"
  shows "ledger (keys \<union> (\<lambda>(t, x). call_key (at_agent_id x) (at_tool_name x) t) ` set es)
    (ts @ map fst es) (fold (\<lambda>(t, x). burn_touch t x) es d)"
  using assms
proof (induction es arbitrary: keys ts d rule: rev_induct)
  case (snoc e es)
  obtain t x where e: "e = (t, x)" by (cases e)
  from ledger_count[OF ledger_span[OF snoc.IH[OF snoc.prems], of t "at_project x"], of "call_key (at_agent_id x) (at_tool_name x) t"]
  show ?case by (simp add: e burn_touch_def Let_def ledger_add_artifact split: option.split)
qed simp

text \<open>The artifact map: counts add up to the number of artifact calls.\<close>

definition counts :: "(string, artifact) jmap \<Rightarrow> int" where
  "counts m = sum_list (map (ar_count \<circ> snd) m)"

definition tally :: "int \<Rightarrow> burn_draft \<Rightarrow> bool" where
  "tally n d \<longleftrightarrow> jmap_wf (bd_artifacts d) \<and> bd_artifactCalls d = n \<and> counts (bd_artifacts d) = n \<and>
     (bd_artifacts d = [] \<longleftrightarrow> n = 0) \<and> 0 \<le> n"

lemma counts_update:
  "jmap_wf m \<Longrightarrow> counts (AList.update k v m) =
     counts m + ar_count v - (case map_of m k of Some e \<Rightarrow> ar_count e | None \<Rightarrow> 0)"
  by (induction m) (auto simp: counts_def jmap_wf_def split: option.split)

lemma update_not_Nil: "AList.update k v m \<noteq> []"
  by (cases m) auto

lemma tally_add: "tally n d \<Longrightarrow> tally (n + 1) (add_artifact t tool sg d)"
  by (auto simp: tally_def add_artifact_def Let_def counts_update jmap.wf_set update_not_Nil split: option.split)

lemma tally_frame:
  "tally n (noteSpan t d) = tally n d" "tally n (set_project p d) = tally n d" "tally n (count_call k d) = tally n d"
  by (simp_all add: tally_def noteSpan_def set_project_def count_call_def)

lemma tally_audits: "tally n d \<Longrightarrow> tally n (fold (\<lambda>(t, x). burn_audit t x) es d)"
  by (induction es arbitrary: d) (auto simp: burn_audit_def Let_def tally_frame)

lemma tally_touches:
  "tally n d \<Longrightarrow> tally (n + int (length (filter (is_artifact \<circ> snd) es))) (fold (\<lambda>(t, x). burn_touch t x) es d)"
proof (induction es arbitrary: n d)
  case (Cons e es)
  obtain t x where e: "e = (t, x)" by (cases e)
  have "tally (n + (if is_artifact x then 1 else 0)) (burn_touch t x d)"
    using Cons.prems tally_add
    by (auto simp: burn_touch_def Let_def is_artifact_def tally_frame split: option.split)
  from Cons.IH[OF this] show ?case by (cases "is_artifact x") (simp_all add: e ac_simps)
qed simp

lemma burn_core_ledger:
  "ledger ((\<lambda>(t, x). call_key (ad_agent_id x) (ad_tool_name x) t) ` {e \<in> set (audits_in inp a). ad_kind (snd e) = K_auto_approved}
     \<union> (\<lambda>(t, x). call_key (at_agent_id x) (at_tool_name x) t) ` set (touches_in inp a))
   (event_span inp a) (burn_core inp a)"
proof -
  have "ledger {} [] (new_burn_draft a)" by (simp add: ledger_def new_burn_draft_def)
  from ledger_touches[OF ledger_audits[OF this]] show ?thesis by (simp add: burn_core_def event_span_def)
qed

lemma burn_core_tally: "tally (int (length (filter (is_artifact \<circ> snd) (touches_in inp a)))) (burn_core inp a)"
proof -
  have "tally 0 (new_burn_draft a)" by (simp add: tally_def new_burn_draft_def counts_def)
  from tally_touches[OF tally_audits[OF this]] show ?thesis by (simp add: burn_core_def)
qed

text \<open>A key determines its tool and instant, so keys and calls are counted alike.\<close>

lemma show_int_no_nul: "char_of (0::nat) \<notin> set (show_int i)"
proof -
  have "char_of (0::nat) \<notin> set (show_nat n)" for n
    using show_nat_digits[of n] by (auto simp: list_all_iff is_digit_def)
  moreover have "char_of (0::nat) \<noteq> CHR ''-''" by code_simp
  ultimately show ?thesis by (simp add: show_int_def)
qed

lemma show_int_inj: "show_int i = show_int j \<Longrightarrow> i = j"
proof -
  assume eq: "show_int i = show_int j"
  have minus: "show_nat n \<noteq> CHR ''-'' # r" for n r
    using show_nat_digits[of n] by (auto simp: is_digit_def)
  show ?thesis
    using eq minus minus[symmetric] show_nat_inj[of "nat (- i)" "nat (- j)"] show_nat_inj[of "nat i" "nat j"]
    by (auto simp: show_int_def split: if_splits)
qed

lemma call_key_inj: "call_key a tool t = call_key a tool' t' \<Longrightarrow> tool = tool' \<and> t = t'"
  using split_last_unique[OF show_int_no_nul show_int_no_nul, of tool t tool' t'] show_int_inj
  by (auto simp: call_key_def nul_char_def)

lemma card_call_keys:
  "card ((\<lambda>(t, x). call_key (ad_agent_id x) (ad_tool_name x) t) ` {e \<in> set (audits_in inp a). ad_kind (snd e) = K_auto_approved}
     \<union> (\<lambda>(t, x). call_key (at_agent_id x) (at_tool_name x) t) ` set (touches_in inp a)) = card (approved_calls inp a)"
proof -
  let ?f = "\<lambda>(tool, t). call_key a tool t"
  have "inj_on ?f (approved_calls inp a)" using call_key_inj by (auto simp: inj_on_def)
  then have "card (?f ` approved_calls inp a) = card (approved_calls inp a)" by (rule card_image)
  moreover have "?f ` approved_calls inp a =
      (\<lambda>(t, x). call_key (ad_agent_id x) (ad_tool_name x) t) ` {e \<in> set (audits_in inp a). ad_kind (snd e) = K_auto_approved}
      \<union> (\<lambda>(t, x). call_key (at_agent_id x) (at_tool_name x) t) ` set (touches_in inp a)"
    unfolding approved_calls_def image_Un image_image
    by (intro arg_cong2[where f = "(\<union>)"] image_cong) (auto simp: audits_in_def touches_in_def)
  ultimately show ?thesis by simp
qed

section \<open>The rows of the meter\<close>

lemma event_span_nonneg:
  "BURN_WINDOW_MS \<le> bn_nowMs inp \<Longrightarrow> \<forall>t \<in> set (event_span inp a). 0 \<le> t"
  by (auto simp: event_span_def audits_in_def touches_in_def windowed_def List.map_filter_def in_window_def
      split: option.splits if_splits)

lemma span_apart:
  fixes n :: int
  assumes "ts \<noteq> []"
  shows "n \<le> Max (set ts) - Min (set ts) \<longleftrightarrow> (\<exists>t \<in> set ts. \<exists>u \<in> set ts. n \<le> u - t)"
proof -
  have mem: "Max (set ts) \<in> set ts" "Min (set ts) \<in> set ts" using assms by simp_all
  have bound: "Min (set ts) \<le> t" "t \<le> Max (set ts)" if "t \<in> set ts" for t using that by simp_all
  show ?thesis
  proof
    assume "\<exists>t \<in> set ts. \<exists>u \<in> set ts. n \<le> u - t"
    then obtain t u where tu: "t \<in> set ts" "u \<in> set ts" "n \<le> u - t" by blast
    show "n \<le> Max (set ts) - Min (set ts)" using bound(1)[OF tu(1)] bound(2)[OF tu(2)] tu(3) by linarith
  qed (use mem in blast)
qed

definition burn_rows :: "burn_model \<Rightarrow> burn_session list" where
  "burn_rows b = concat (map pb_sessions (bo_projects b))"

lemma burn_rows_mset: "mset (burn_rows (deriveBurn inp)) = mset (burn_sessions inp)"
  unfolding burn_rows_def deriveBurn_def Let_def burn_model.simps by (rule mset_grouped) simp_all

lemma burn_rows_set: "set (burn_rows (deriveBurn inp)) = set (burn_sessions inp)"
  using burn_rows_mset by (rule mset_eq_setD)

lemma burn_core_agent: "bd_agentId (burn_core inp a) = a"
proof -
  have touch: "bd_agentId (fold (\<lambda>(t, x). burn_touch t x) es e) = bd_agentId e" for es e
    by (induction es arbitrary: e)
      (auto simp: burn_touch_def Let_def add_artifact_def count_call_def noteSpan_def set_project_def split: option.split)
  have "bd_agentId (fold (\<lambda>(t, x). burn_audit t x) es e) = bd_agentId e" for es e
    by (induction es arbitrary: e) (auto simp: burn_audit_def Let_def count_call_def noteSpan_def set_project_def)
  with touch show ?thesis by (simp add: burn_core_def new_burn_draft_def)
qed

lemma burn_row_core:
  assumes "s \<in> set (burn_rows (deriveBurn inp))"
  obtains d where "s = burn_session_of d" "same_core d (burn_core inp (bs_agentId s))"
proof -
  from assms obtain a d where d: "(a, d) \<in> set (burn_drafts inp)" "s = burn_session_of d"
    by (auto simp: burn_rows_set burn_sessions_def)
  have core: "same_core d (burn_core inp a)" using d(1) by (rule burn_drafts_core)
  with d(2) have "bs_agentId s = a" by (simp add: burn_session_of_def Let_def same_core_def burn_core_agent)
  with core d(2) that show thesis by simp
qed

text \<open>Which agents have a row.\<close>

lemma keys_sessions: "map fst (fold step_session ss m) = map fst m"
proof (induction ss arbitrary: m)
  case (Cons s ss)
  have "map fst (step_session s m) = map fst m"
    by (cases "map_of m (ss_agent_id s)") (force simp: step_session_def update_keys dest: map_of_SomeD)+
  with Cons show ?case by simp
qed simp

lemma burn_drafts_keys:
  "distinct (map fst (burn_drafts inp)) \<and> fst ` set (burn_drafts inp) = {a. event_span inp a \<noteq> []}"
proof -
  let ?m = "fold (step_touch (bn_nowMs inp)) (bn_touches inp) (fold (step_audit (bn_nowMs inp)) (bn_auditDecisions inp) [])"
  have keys: "map fst (burn_drafts inp) = map fst ?m" by (simp add: burn_drafts_def keys_sessions)
  have "jmap_wf ?m" by (simp add: fold_step_touch fold_step_audit wf_with_fold)
  then have "distinct (map fst (burn_drafts inp))" by (simp add: keys jmap_wf_def)
  moreover have "fst ` set ?m = {a. event_span inp a \<noteq> []}"
    by (auto simp: fold_step_touch fold_step_audit keys_with_fold event_span_def audits_in_def touches_in_def
        filter_empty_conv)
  then have "set (map fst (burn_drafts inp)) = {a. event_span inp a \<noteq> []}" by (simp add: keys)
  ultimately show ?thesis by simp
qed

lemma burn_drafts_agent: "(a, d) \<in> set (burn_drafts inp) \<Longrightarrow> bd_agentId d = a \<and> (bd_lastMs d \<noteq> 0 \<longleftrightarrow> (\<exists>t \<in> set (event_span inp a). 0 < t))"
proof -
  assume "(a, d) \<in> set (burn_drafts inp)"
  then have core: "same_core d (burn_core inp a)" by (rule burn_drafts_core)
  have last: "bd_lastMs d = Max (insert 0 (set (event_span inp a)))"
    using core burn_core_ledger[of inp a] by (simp add: same_core_def ledger_def)
  have "Max (insert 0 (set ts)) \<noteq> 0 \<longleftrightarrow> (\<exists>t \<in> set ts. 0 < t)" for ts :: "int list"
  proof -
    have "0 \<le> Max (insert 0 (set ts))" by simp
    moreover have "0 < Max (insert 0 (set ts)) \<longleftrightarrow> (\<exists>t \<in> set ts. 0 < t)"
      using Max_gr_iff[of "insert 0 (set ts)" 0] by simp
    ultimately show ?thesis by linarith
  qed
  then have "bd_lastMs d \<noteq> 0 \<longleftrightarrow> (\<exists>t \<in> set (event_span inp a). 0 < t)" unfolding last .
  with core show ?thesis by (simp add: same_core_def burn_core_agent)
qed

lemma burn_rows_agents:
  "distinct (map bs_agentId (burn_rows (deriveBurn inp))) \<and>
   bs_agentId ` set (burn_rows (deriveBurn inp)) = {a. \<exists>t \<in> set (event_span inp a). 0 < t}"
proof -
  let ?kept = "filter (\<lambda>e. bd_lastMs (snd e) \<noteq> 0) (burn_drafts inp)"
  have ids: "map bs_agentId (burn_sessions inp) = map fst ?kept"
    by (auto simp: burn_sessions_def burn_session_of_def Let_def filter_map comp_def dest: burn_drafts_agent)
  have "distinct (map fst ?kept)" using burn_drafts_keys by (simp add: distinct_map_filter)
  moreover have "set (map fst ?kept) = {a. \<exists>t \<in> set (event_span inp a). 0 < t}"
  proof (intro set_eqI iffI)
    fix a assume "a \<in> {a. \<exists>t \<in> set (event_span inp a). 0 < t}"
    then have t: "\<exists>t \<in> set (event_span inp a). 0 < t" and "event_span inp a \<noteq> []" by auto
    then have "a \<in> fst ` set (burn_drafts inp)" using burn_drafts_keys by simp
    then obtain d where "(a, d) \<in> set (burn_drafts inp)" by auto
    with t show "a \<in> set (map fst ?kept)" using burn_drafts_agent by force
  qed (auto dest: burn_drafts_agent)
  moreover have "mset (map bs_agentId (burn_rows (deriveBurn inp))) = mset (map bs_agentId (burn_sessions inp))"
    by (simp add: burn_rows_mset)
  then have "distinct (map bs_agentId (burn_rows (deriveBurn inp))) = distinct (map bs_agentId (burn_sessions inp))"
    by (rule mset_eq_imp_distinct_iff)
  ultimately show ?thesis by (metis burn_rows_set ids set_map)
qed

lemma artifacts_counted: "sum_list (map ar_count (js_sort cmp (map snd m))) = counts m"
proof -
  have "mset (map ar_count (js_sort cmp (map snd m))) = mset (map (ar_count \<circ> snd) m)"
    by (simp add: image_mset.compositionality)
  then have "sum_mset (mset (map ar_count (js_sort cmp (map snd m)))) = sum_mset (mset (map (ar_count \<circ> snd) m))"
    by (rule arg_cong)
  then show ?thesis by (simp only: sum_mset_sum_list counts_def)
qed


text \<open>Eleven approved reads, one minute apart, by one agent.\<close>

definition reads_at :: "string \<Rightarrow> audit_decision" where
  "reads_at minute = \<lparr>ad_kind = K_auto_approved, ad_decided_by = None, ad_project = ''/p'', ad_agent_id = ''codex-1'',
     ad_terminal_session_id = None, ad_tool_name = ''Read'', ad_ts = ''2026-07-14T10:'' @ minute @ '':00Z'',
     ad_tool_use_id = None, ad_resolved = None, ad_tool_input = None\<rparr>"

definition idle_inputs :: burn_inputs where
  "idle_inputs = \<lparr>bn_sessions = [],
     bn_auditDecisions = map reads_at [''00'', ''01'', ''02'', ''03'', ''04'', ''05'', ''06'', ''07'', ''08'', ''09'', ''10''],
     bn_touches = [], bn_nowMs = 1784023800000\<rparr>"

lemma idle_times:
  "in_window 1784023800000 ''2026-07-14T10:00:00Z'' = Some 1784023200000"
  "in_window 1784023800000 ''2026-07-14T10:01:00Z'' = Some 1784023260000"
  "in_window 1784023800000 ''2026-07-14T10:02:00Z'' = Some 1784023320000"
  "in_window 1784023800000 ''2026-07-14T10:03:00Z'' = Some 1784023380000"
  "in_window 1784023800000 ''2026-07-14T10:04:00Z'' = Some 1784023440000"
  "in_window 1784023800000 ''2026-07-14T10:05:00Z'' = Some 1784023500000"
  "in_window 1784023800000 ''2026-07-14T10:06:00Z'' = Some 1784023560000"
  "in_window 1784023800000 ''2026-07-14T10:07:00Z'' = Some 1784023620000"
  "in_window 1784023800000 ''2026-07-14T10:08:00Z'' = Some 1784023680000"
  "in_window 1784023800000 ''2026-07-14T10:09:00Z'' = Some 1784023740000"
  "in_window 1784023800000 ''2026-07-14T10:10:00Z'' = Some 1784023800000"
  by code_simp+

lemma idle_audits:
  "audits_in idle_inputs ''codex-1'' = [(1784023200000, reads_at ''00''), (1784023260000, reads_at ''01''),
     (1784023320000, reads_at ''02''), (1784023380000, reads_at ''03''), (1784023440000, reads_at ''04''),
     (1784023500000, reads_at ''05''), (1784023560000, reads_at ''06''), (1784023620000, reads_at ''07''),
     (1784023680000, reads_at ''08''), (1784023740000, reads_at ''09''), (1784023800000, reads_at ''10'')]"
  by (simp add: audits_in_def idle_inputs_def windowed_def map_filter_simps reads_at_def idle_times)

lemma idle_touches: "touches_in idle_inputs a = []"
  by (simp add: touches_in_def idle_inputs_def windowed_def map_filter_simps)

lemma idle_calls: "card (approved_calls idle_inputs ''codex-1'') = 11"
proof -
  let ?ts = "map fst (audits_in idle_inputs ''codex-1'')"
  have kind: "list_all (\<lambda>e. ad_kind (snd e) = K_auto_approved \<and> ad_tool_name (snd e) = ''Read'') (audits_in idle_inputs ''codex-1'')"
    by (simp add: idle_audits reads_at_def)
  have "approved_calls idle_inputs ''codex-1'' = Pair ''Read'' ` set ?ts"
    using kind by (force simp: approved_calls_def idle_touches list_all_iff)
  moreover have "card (set ?ts) = 11"
    by (subst distinct_card) (simp_all add: idle_audits)
  ultimately show ?thesis by (simp add: card_image inj_on_def del: set_map)
qed

lemma idle_row: "\<exists>s \<in> set (burn_rows (deriveBurn idle_inputs)). bs_agentId s = ''codex-1''"
proof -
  have "1784023200000 \<in> set (event_span idle_inputs ''codex-1'')" by (simp add: event_span_def idle_audits)
  then have "''codex-1'' \<in> {a. \<exists>t \<in> set (event_span idle_inputs a). 0 < t}" by force
  then have "''codex-1'' \<in> bs_agentId ` set (burn_rows (deriveBurn idle_inputs))"
    using burn_rows_agents[of idle_inputs] by simp
  then show ?thesis by force
qed


text \<open>
  A row is flagged as a dead run exactly when the agent made at least ten distinct
  approved calls, two of its events in the window are at least ten minutes apart, and none
  of its calls produced an artifact.
\<close>

theorem dead_run_exact:
  assumes "s \<in> set (burn_rows (deriveBurn inp))" "BURN_WINDOW_MS \<le> bn_nowMs inp"
  shows "bs_deadRun s \<longleftrightarrow> 10 \<le> card (approved_calls inp (bs_agentId s)) \<and>
    (\<exists>t \<in> set (event_span inp (bs_agentId s)). \<exists>u \<in> set (event_span inp (bs_agentId s)). 10 * 60 * 1000 \<le> u - t) \<and>
    (\<forall>e \<in> set (touches_in inp (bs_agentId s)). \<not> is_artifact (snd e))"
proof -
  let ?ts = "event_span inp (bs_agentId s)"
  obtain d where d: "s = burn_session_of d" "same_core d (burn_core inp (bs_agentId s))"
    using assms(1) by (rule burn_row_core)
  note tally = burn_core_tally[of inp "bs_agentId s", unfolded tally_def]
  note spent = burn_core_ledger[of inp "bs_agentId s", unfolded ledger_def card_call_keys]
  have nonneg: "\<forall>t \<in> set ?ts. 0 \<le> t" using assms(2) by (rule event_span_nonneg)
  have span: "(DEAD_RUN_MIN_ACTIVE_MS \<le> (case bd_firstMs d of Some f \<Rightarrow> max 0 (bd_lastMs d - f) | None \<Rightarrow> 0)) \<longleftrightarrow>
      (\<exists>t \<in> set ?ts. \<exists>u \<in> set ?ts. 10 * 60 * 1000 \<le> u - t)"
  proof (cases "?ts = []")
    case True
    with spent d(2) show ?thesis by (simp add: same_core_def DEAD_RUN_MIN_ACTIVE_MS_def)
  next
    case False
    with spent d(2) nonneg have "bd_firstMs d = Some (Min (set ?ts))" "bd_lastMs d = Max (set ?ts)"
      by (auto simp: same_core_def max_def)
    with False show ?thesis by (simp add: DEAD_RUN_MIN_ACTIVE_MS_def span_apart)
  qed
  have "bd_artifacts d = [] \<longleftrightarrow> (\<forall>e \<in> set (touches_in inp (bs_agentId s)). \<not> is_artifact (snd e))"
    using tally d(2) by (auto simp: same_core_def filter_empty_conv)
  moreover have "bs_deadRun s \<longleftrightarrow> DEAD_RUN_MIN_TOOL_CALLS \<le> bd_toolCalls d \<and>
      DEAD_RUN_MIN_ACTIVE_MS \<le> (case bd_firstMs d of Some f \<Rightarrow> max 0 (bd_lastMs d - f) | None \<Rightarrow> 0) \<and> bd_artifacts d = []"
    by (simp add: d(1) burn_session_of_def Let_def)
  moreover have "DEAD_RUN_MIN_TOOL_CALLS \<le> bd_toolCalls d \<longleftrightarrow> 10 \<le> card (approved_calls inp (bs_agentId s))"
    using spent d(2) by (simp add: same_core_def DEAD_RUN_MIN_TOOL_CALLS_def)
  ultimately show ?thesis by (simp only: span)
qed

theorem dead_run_exact_witness:
  "BURN_WINDOW_MS \<le> bn_nowMs idle_inputs \<and> (\<exists>s \<in> set (burn_rows (deriveBurn idle_inputs)). bs_deadRun s)"
proof -
  obtain s where s: "s \<in> set (burn_rows (deriveBurn idle_inputs))" "bs_agentId s = ''codex-1''" using idle_row by blast
  have window: "BURN_WINDOW_MS \<le> bn_nowMs idle_inputs" by (simp add: BURN_WINDOW_MS_def idle_inputs_def)
  have "bs_deadRun s"
    unfolding dead_run_exact[OF s(1) window] by (simp add: s(2) idle_calls idle_touches event_span_def idle_audits)
  with s window show ?thesis by blast
qed

section \<open>Order and totals\<close>

definition burn_louder :: "burn_session \<Rightarrow> burn_session \<Rightarrow> bool" where
  "burn_louder x y \<longleftrightarrow> (bs_deadRun x \<and> \<not> bs_deadRun y) \<or> (bs_deadRun x = bs_deadRun y \<and> bs_lastMs y \<le> bs_lastMs x)"

lemma cmp_burn_louder: "cmp_burn x y \<le> 0 \<longleftrightarrow> burn_louder x y"
  by (auto simp: cmp_burn_def burn_rank_def burn_louder_def Let_def)

interpretation burn_order: js_order cmp_burn UNIV
  by unfold_locales (auto simp: cmp_burn_def burn_rank_def Let_def split: if_splits)

interpretation project_burn_order: js_order cmp_project_burn UNIV
  by unfold_locales (auto simp: cmp_project_burn_def cmp_burn_def burn_rank_def Let_def split: if_splits)

lemma burn_totals_fold:
  "fold add_burn_total ss t = \<lparr>bu_sessions = bu_sessions t + int (length ss),
     bu_deadRuns = bu_deadRuns t + int (length (filter bs_deadRun ss)),
     bu_artifactCalls = bu_artifactCalls t + sum_list (map bs_artifactCalls ss)\<rparr>"
  by (induction ss arbitrary: t) (simp_all add: add_burn_total_def)

lemma burn_rows_totals:
  "bo_totals (deriveBurn inp) = \<lparr>bu_sessions = int (length (burn_rows (deriveBurn inp))),
     bu_deadRuns = int (length (filter bs_deadRun (burn_rows (deriveBurn inp)))),
     bu_artifactCalls = sum_list (map bs_artifactCalls (burn_rows (deriveBurn inp)))\<rparr>"
proof -
  note m = burn_rows_mset[of inp]
  have "length (burn_rows (deriveBurn inp)) = length (burn_sessions inp)" using m by (rule mset_eq_length)
  moreover have "size (filter_mset bs_deadRun (mset (burn_rows (deriveBurn inp)))) = size (filter_mset bs_deadRun (mset (burn_sessions inp)))"
    by (simp only: m)
  then have "length (filter bs_deadRun (burn_rows (deriveBurn inp))) = length (filter bs_deadRun (burn_sessions inp))"
    by (simp only: mset_filter[symmetric] size_mset)
  moreover have "sum_mset (image_mset bs_artifactCalls (mset (burn_rows (deriveBurn inp)))) = sum_mset (image_mset bs_artifactCalls (mset (burn_sessions inp)))"
    by (simp only: m)
  then have "sum_list (map bs_artifactCalls (burn_rows (deriveBurn inp))) = sum_list (map bs_artifactCalls (burn_sessions inp))"
    by (simp only: mset_map[symmetric] sum_mset_sum_list)
  ultimately show ?thesis by (simp add: deriveBurn_def Let_def burn_totals_fold)
qed

text \<open>
  The meter has one row for each agent with an event in the window (after the epoch) and no
  other; rows are grouped under distinct projects, dead runs first and the most recent first among equals,
  projects ranked by their first row; and the totals add up the rows shown.
\<close>

theorem burn_order_and_totals:
  "distinct (map bs_agentId (burn_rows (deriveBurn inp))) \<and>
   bs_agentId ` set (burn_rows (deriveBurn inp)) = {a. \<exists>t \<in> set (event_span inp a). 0 < t} \<and>
   distinct (map pb_project (bo_projects (deriveBurn inp))) \<and>
   list_all (\<lambda>p. pb_sessions p \<noteq> [] \<and> sorted_wrt burn_louder (pb_sessions p) \<and>
     list_all (\<lambda>s. bs_project s = pb_project p) (pb_sessions p)) (bo_projects (deriveBurn inp)) \<and>
   sorted_wrt (\<lambda>p q. burn_louder (hd (pb_sessions p)) (hd (pb_sessions q))) (bo_projects (deriveBurn inp)) \<and>
   bo_totals (deriveBurn inp) = \<lparr>bu_sessions = int (length (burn_rows (deriveBurn inp))),
     bu_deadRuns = int (length (filter bs_deadRun (burn_rows (deriveBurn inp)))),
     bu_artifactCalls = sum_list (map bs_artifactCalls (burn_rows (deriveBurn inp)))\<rparr>"
proof -
  have projects: "bo_projects (deriveBurn inp) = js_sort cmp_project_burn
      (map (\<lambda>(p, xs). \<lparr>pb_project = p, pb_sessions = js_sort cmp_burn xs\<rparr>) (group_by bs_project (burn_sessions inp)))"
    by (simp add: deriveBurn_def Let_def)
  have "distinct (map pb_project (bo_projects (deriveBurn inp)))"
    unfolding projects by (rule distinct_grouped) simp
  moreover have "sorted_wrt (\<lambda>p q. cmp_project_burn p q \<le> 0) (bo_projects (deriveBurn inp))"
    unfolding projects by (rule project_burn_order.js_sort_sorted) simp
  then have "sorted_wrt (\<lambda>p q. burn_louder (hd (pb_sessions p)) (hd (pb_sessions q))) (bo_projects (deriveBurn inp))"
    by (simp add: cmp_project_burn_def cmp_burn_louder)
  moreover have "sorted_wrt burn_louder (js_sort cmp_burn xs)" for xs
    using burn_order.js_sort_sorted[of xs] by (simp add: cmp_burn_louder)
  then have "list_all (\<lambda>p. pb_sessions p \<noteq> [] \<and> sorted_wrt burn_louder (pb_sessions p) \<and>
      list_all (\<lambda>s. bs_project s = pb_project p) (pb_sessions p)) (bo_projects (deriveBurn inp))"
    unfolding projects by (auto simp: list_all_iff dest: group_by_entry)
  ultimately show ?thesis using burn_rows_agents burn_rows_totals by simp
qed

end
