(* ===== verification/Commit_Message.thy ===== *)
theory Commit_Message
  imports Protocol_Types
begin

text \<open>
  \<open>components/commitMessage.ts\<close>: the deterministic commit message of the worktree strip. The
  regular expressions are written as the string functions they denote.
\<close>

section \<open>Data and the header's grammar\<close>

datatype commit_type = Feat | Fix | Docs | Style | Refactor | Perf | Test | Build | Ci | Chore

fun type_name :: "commit_type \<Rightarrow> string" where
  "type_name Feat = ''feat''" | "type_name Fix = ''fix''" | "type_name Docs = ''docs''"
| "type_name Style = ''style''" | "type_name Refactor = ''refactor''" | "type_name Perf = ''perf''"
| "type_name Test = ''test''" | "type_name Build = ''build''" | "type_name Ci = ''ci''"
| "type_name Chore = ''chore''"

definition COMMIT_TYPES :: "commit_type list" where
  "COMMIT_TYPES = [Feat, Fix, Docs, Style, Refactor, Perf, Test, Build, Ci, Chore]"

definition MAX_HEADER_LENGTH :: nat where "MAX_HEADER_LENGTH = 72"

definition line_feed :: char where "line_feed = char_of (10::nat)"

definition is_line_end :: "char \<Rightarrow> bool" where
  "is_line_end c \<longleftrightarrow> of_char c \<in> {10::nat, 13}"

text \<open>\<open>(\([^()\r\n]+\))?!?: \S.*$\<close>, the part of the pattern after the type.\<close>

definition skip_scope :: "string \<Rightarrow> string" where
  "skip_scope s = (case s of
       c # r \<Rightarrow>
         if c = CHR ''('' then
           (let inner = takeWhile (\<lambda>d. d \<noteq> CHR ''('' \<and> d \<noteq> CHR '')'' \<and> \<not> is_line_end d) r;
                after = dropWhile (\<lambda>d. d \<noteq> CHR ''('' \<and> d \<noteq> CHR '')'' \<and> \<not> is_line_end d) r
            in if inner \<noteq> [] \<and> after \<noteq> [] \<and> hd after = CHR '')'' then tl after else s)
         else s
     | [] \<Rightarrow> s)"

definition skip_bang :: "string \<Rightarrow> string" where
  "skip_bang s = (case s of c # r \<Rightarrow> if c = CHR ''!'' then r else s | [] \<Rightarrow> s)"

definition matches_description :: "string \<Rightarrow> bool" where
  "matches_description s = (case s of
       a # b # c # r \<Rightarrow> a = CHR '':'' \<and> b = CHR '' '' \<and> \<not> is_space c \<and> list_all (\<lambda>d. \<not> is_line_end d) r
     | _ \<Rightarrow> False)"

definition matches_header :: "string \<Rightarrow> bool" where
  "matches_header h = list_ex (\<lambda>t. starts_with h (type_name t) \<and>
     matches_description (skip_bang (skip_scope (drop (length (type_name t)) h)))) COMMIT_TYPES"

definition isConventionalCommitHeader :: "string \<Rightarrow> bool" where
  "isConventionalCommitHeader header \<longleftrightarrow> matches_header header \<and> length header \<le> MAX_HEADER_LENGTH"

record generated_commit =
  gc_header :: string
  gc_body :: string
  gc_message :: string
  gc_type :: commit_type
  gc_scope :: "string option"

section \<open>Paths\<close>

definition segments :: "string \<Rightarrow> string list" where
  "segments path = split_on (CHR ''/'') path"

text \<open>\<open>(^|\/)x\/\<close>: a segment other than the last.\<close>

definition in_dir :: "string list \<Rightarrow> string \<Rightarrow> bool" where
  "in_dir names path \<longleftrightarrow> list_ex (\<lambda>s. s \<in> set names) (butlast (segments path))"

text \<open>\<open>pre\.[^./]+$\<close>.\<close>

definition ends_with_ext :: "string \<Rightarrow> string \<Rightarrow> bool" where
  "ends_with_ext pre path =
     (let ext = takeWhile (\<lambda>c. c \<noteq> CHR ''.'' \<and> c \<noteq> CHR ''/'') (rev path);
          front = dropWhile (\<lambda>c. c \<noteq> CHR ''.'' \<and> c \<noteq> CHR ''/'') (rev path)
      in ext \<noteq> [] \<and> front \<noteq> [] \<and> hd front = CHR ''.'' \<and> ends_with (rev (tl front)) pre)"

definition TEST_FILE_RE :: "string \<Rightarrow> bool" where
  "TEST_FILE_RE path \<longleftrightarrow> ends_with_ext ''.test'' path \<or> ends_with_ext ''.spec'' path
     \<or> ends_with_ext ''_test'' path \<or> last (segments path) = ''tests.rs''"

definition isTestPath :: "string \<Rightarrow> bool" where
  "isTestPath path \<longleftrightarrow> in_dir [''test'', ''tests'', ''__tests__''] path \<or> TEST_FILE_RE path"

definition isDocsPath :: "string \<Rightarrow> bool" where
  "isDocsPath path \<longleftrightarrow> in_dir [''doc'', ''docs''] path \<or>
     list_ex (\<lambda>e. ends_with (to_lower path) e) [''.md'', ''.mdx'', ''.rst'', ''.adoc'', ''.txt'']"

definition isAdded :: "worktree_change \<Rightarrow> bool" where
  "isAdded c \<longleftrightarrow> wc_status c = ''??'' \<or> CHR ''A'' \<in> set (wc_status c)"

definition isDeleted :: "worktree_change \<Rightarrow> bool" where
  "isDeleted c \<longleftrightarrow> CHR ''D'' \<in> set (wc_status c)"

section \<open>Type, scope and summary\<close>

definition deriveType :: "worktree_change list \<Rightarrow> commit_type" where
  "deriveType changes =
     (if changes = [] then Chore
      else if list_all (\<lambda>c. isTestPath (wc_path c)) changes then Test
      else if list_all (\<lambda>c. isDocsPath (wc_path c)) changes then Docs
      else if list_ex (\<lambda>c. isAdded c \<and> \<not> isTestPath (wc_path c) \<and> \<not> isDocsPath (wc_path c)) changes then Feat
      else if list_all isDeleted changes then Chore
      else Refactor)"

definition scopeSegment :: "string \<Rightarrow> string option" where
  "scopeSegment path =
     (let segs = segments path in
      if length segs < 2 then None
      else if (segs ! 0 = ''crates'' \<or> segs ! 0 = ''packages'') \<and> length segs \<ge> 3 then Some (segs ! 1)
      else Some (segs ! 0))"

definition scope_char :: "char \<Rightarrow> bool" where
  "scope_char c \<longleftrightarrow> is_upper c \<or> is_lower c \<or> is_digit c \<or> c \<in> {CHR ''_'', CHR ''.'', CHR ''-''}"

text \<open>\<open>replace(/[^A-Za-z0-9_.-]+/g, "-")\<close>.\<close>

fun dash_runs :: "string \<Rightarrow> string" where
  "dash_runs [] = []"
| "dash_runs (c # s) =
     (if scope_char c then c # dash_runs s
      else (case s of [] \<Rightarrow> ''-'' | d # _ \<Rightarrow> if scope_char d then CHR ''-'' # dash_runs s else dash_runs s))"

definition sanitizeScope :: "string \<Rightarrow> string" where
  "sanitizeScope scope =
     rev (dropWhile (\<lambda>c. c = CHR ''-'') (rev (dropWhile (\<lambda>c. c = CHR ''-'') (dash_runs scope))))"

definition count_segment :: "worktree_change \<Rightarrow> (string, nat) jmap \<Rightarrow> (string, nat) jmap" where
  "count_segment c counts = (case scopeSegment (wc_path c) of
       None \<Rightarrow> counts
     | Some seg \<Rightarrow> AList.update seg ((case map_of counts seg of Some n \<Rightarrow> n | None \<Rightarrow> 0) + 1) counts)"

fun pick_scope :: "nat \<Rightarrow> (string, nat) jmap \<Rightarrow> string option" where
  "pick_scope n [] = None"
| "pick_scope n ((seg, cnt) # rest) =
     (if cnt * 2 > n \<and> 0 < length (sanitizeScope seg) \<and> length (sanitizeScope seg) \<le> 24
      then Some (sanitizeScope seg) else pick_scope n rest)"

definition deriveScope :: "worktree_change list \<Rightarrow> string option" where
  "deriveScope changes = pick_scope (length changes) (fold count_segment changes [])"

fun VERB_BY_TYPE :: "commit_type \<Rightarrow> string" where
  "VERB_BY_TYPE Feat = ''add''" | "VERB_BY_TYPE Fix = ''fix''" | "VERB_BY_TYPE Docs = ''update''"
| "VERB_BY_TYPE Style = ''restyle''" | "VERB_BY_TYPE Refactor = ''update''" | "VERB_BY_TYPE Perf = ''tune''"
| "VERB_BY_TYPE Test = ''update''" | "VERB_BY_TYPE Build = ''update''" | "VERB_BY_TYPE Ci = ''update''"
| "VERB_BY_TYPE Chore = ''remove''"

definition basename :: "string \<Rightarrow> string" where
  "basename path = (let l = last (segments path) in if l \<noteq> [] then l else path)"

definition push_name :: "worktree_change \<Rightarrow> string list \<Rightarrow> string list" where
  "push_name c names = (if basename (wc_path c) \<in> set names then names else names @ [basename (wc_path c)])"

definition flatten :: "string \<Rightarrow> string" where
  "flatten candidate = trim (collapse_ws candidate)"

fun pick_summary :: "int \<Rightarrow> string \<Rightarrow> string list \<Rightarrow> string" where
  "pick_summary budget fallback [] = fallback"
| "pick_summary budget fallback (candidate # rest) =
     (if flatten candidate \<noteq> [] \<and> int (length (flatten candidate)) \<le> budget then flatten candidate
      else pick_summary budget fallback rest)"

definition file_count :: "nat \<Rightarrow> string" where
  "file_count n = show_nat n @ '' '' @ (if n = 1 then ''file'' else ''files'')"

definition deriveSummary :: "commit_type \<Rightarrow> string option \<Rightarrow> worktree_change list \<Rightarrow> string" where
  "deriveSummary type scope changes =
     (let verb = VERB_BY_TYPE type;
          prefixLen = length (type_name type) + (case scope of Some s \<Rightarrow> length s + 2 | None \<Rightarrow> 0) + 2;
          budget = int MAX_HEADER_LENGTH - int prefixLen;
          names = fold push_name changes [];
          candidates = [verb @ '' '' @ join_with '', '' names] @
            (if length names > 1 then [verb @ '' '' @ hd names @ '' and '' @ show_nat (length names - 1) @ '' more''] else []) @
            [verb @ '' '' @ file_count (length changes)]
      in pick_summary budget (verb @ '' '' @ show_nat (length changes) @ '' files'') candidates)"

section \<open>The body\<close>

definition truthy_str :: "string option \<Rightarrow> string option" where
  "truthy_str s = (case s of Some t \<Rightarrow> if t = [] then None else Some t | None \<Rightarrow> None)"

definition changeLine :: "worktree_change \<Rightarrow> string" where
  "changeLine c =
     (let rename = (case truthy_str (wc_orig_path c) of Some p \<Rightarrow> '' (from '' @ p @ '')'' | None \<Rightarrow> []);
          who = (case truthy_str (wc_attributed_to c) of
              Some a \<Rightarrow> ''agent '' @ a @ (case truthy_str (wc_attributed_tool c) of Some t \<Rightarrow> '' via '' @ t | None \<Rightarrow> [])
            | None \<Rightarrow> ''human/unknown'')
      in ''- '' @ wc_status c @ '' '' @ wc_path c @ rename @ '' '' @ em_dash @ '' '' @ who)"

definition count_agent :: "worktree_change \<Rightarrow> (string, nat) jmap \<times> nat \<Rightarrow> (string, nat) jmap \<times> nat" where
  "count_agent c acc = (case truthy_str (wc_attributed_to c) of
       Some a \<Rightarrow> (AList.update a ((case map_of (fst acc) a of Some n \<Rightarrow> n | None \<Rightarrow> 0) + 1) (fst acc), snd acc)
     | None \<Rightarrow> (fst acc, snd acc + 1))"

definition attributionSummary :: "worktree_change list \<Rightarrow> string" where
  "attributionSummary changes =
     (let (agents, human) = fold count_agent changes ([], 0);
          agentTotal = length changes - human;
          parts = (if agentTotal > 0 then [show_nat agentTotal @ '' agent-made ('' @ join_with '', '' (map fst agents) @ '')''] else [])
            @ (if human > 0 then [show_nat human @ '' human/unknown''] else [])
      in ''Attribution: '' @ join_with '', '' parts @ ''.'')"

definition body_lines :: "worktree_status \<Rightarrow> string list" where
  "body_lines wt = [''Changes:''] @ map changeLine (wt_changes wt) @
     (if wt_changes_truncated wt then [''- '' @ ellipsis_char @ '' more changes not shown (tree exceeds the probe cap)''] else []) @
     [[], attributionSummary (wt_changes wt)]"

definition generateCommitMessage :: "worktree_status \<Rightarrow> generated_commit option" where
  "generateCommitMessage wt =
     (if \<not> wt_is_git_repo wt \<or> wt_changes wt = [] then None
      else
        let type = deriveType (wt_changes wt);
            scope = deriveScope (wt_changes wt);
            summary = deriveSummary type scope (wt_changes wt);
            header = type_name type @ (case scope of Some s \<Rightarrow> ''('' @ s @ '')'' | None \<Rightarrow> []) @ '': '' @ summary;
            body = join_with [line_feed] (body_lines wt)
        in Some \<lparr>gc_header = header, gc_body = body, gc_message = header @ [line_feed, line_feed] @ body,
                 gc_type = type, gc_scope = scope\<rparr>)"

section \<open>The summary is one line within the budget\<close>

lemma collapse_ws_space: "c \<in> set (collapse_ws s) \<Longrightarrow> is_space c \<Longrightarrow> c = CHR '' ''"
proof (induction s)
  case (Cons a s)
  have "c = CHR '' '' \<or> c = a \<and> \<not> is_space a \<or> c \<in> set (collapse_ws s)"
    using Cons.prems(1) unfolding collapse_ws.simps(2)[of a s]
    by (auto split: list.splits if_splits simp del: collapse_ws.simps)
  with Cons show ?case by blast
qed simp

lemma is_line_end_space: "is_line_end c \<Longrightarrow> is_space c \<and> c \<noteq> CHR '' ''"
  by (auto simp: is_line_end_def is_space_def)

lemma set_trim: "set (trim s) \<subseteq> set s"
  unfolding trim_def by (auto dest!: set_dropWhileD)

lemma hd_trim: "trim s \<noteq> [] \<Longrightarrow> \<not> is_space (hd (trim s))"
proof -
  let ?d = "dropWhile is_space s"
  assume ne: "trim s \<noteq> []"
  have "\<exists>t. ?d = trim s @ t"
    unfolding trim_def
    by (metis rev_append rev_rev_ident takeWhile_dropWhile_id)
  then obtain t where t: "?d = trim s @ t" by blast
  with ne have "?d \<noteq> []" by auto
  then have "\<not> is_space (hd ?d)" by (rule hd_dropWhile)
  with t ne show ?thesis by simp
qed

definition one_line :: "string \<Rightarrow> bool" where
  "one_line s \<longleftrightarrow> s \<noteq> [] \<and> \<not> is_space (hd s) \<and> list_all (\<lambda>c. \<not> is_line_end c) s"

lemma one_line_flatten: "flatten c \<noteq> [] \<Longrightarrow> one_line (flatten c)"
  using hd_trim set_trim[of "collapse_ws c"] collapse_ws_space[of _ c] is_line_end_space
  by (auto simp: one_line_def flatten_def list_all_iff)

lemma pick_summary_one_line:
  "(\<exists>c \<in> set cs. flatten c \<noteq> [] \<and> int (length (flatten c)) \<le> b) \<Longrightarrow>
   one_line (pick_summary b fb cs) \<and> int (length (pick_summary b fb cs)) \<le> b"
  by (induction cs) (auto simp: one_line_flatten)

lemma no_space_id: "list_all (\<lambda>c. \<not> is_space c) s \<Longrightarrow> collapse_ws s = s"
  by (induction s) auto

lemma collapse_ws_append: "t \<noteq> [] \<Longrightarrow> \<not> is_space (hd t) \<Longrightarrow>
    list_all (\<lambda>c. \<not> is_space c) s \<Longrightarrow> collapse_ws (s @ CHR '' '' # t) = s @ CHR '' '' # collapse_ws t"
  by (induction s) (auto simp: is_space_def neq_Nil_conv)

lemma trim_id:
  assumes "s \<noteq> []" "\<not> is_space (hd s)" "\<not> is_space (last s)"
  shows "trim s = s"
proof -
  have "dropWhile is_space s = s" using assms by (cases s) auto
  moreover have "dropWhile is_space (rev s) = rev s" using assms by (cases s rule: rev_cases) auto
  ultimately show ?thesis by (simp add: trim_def)
qed

lemma verb_letters: "VERB_BY_TYPE t \<noteq> []" "list_all (\<lambda>c. \<not> is_space c) (VERB_BY_TYPE t)" "length (VERB_BY_TYPE t) \<le> 7"
  by (cases t; simp add: is_space_def)+

lemma show_nat_no_space: "list_all (\<lambda>c. \<not> is_space c) (show_nat n)"
  using show_nat_digits[of n] by (auto simp: list_all_iff is_digit_def is_space_def)

lemma flatten_count: "flatten (VERB_BY_TYPE t @ '' '' @ file_count n) = VERB_BY_TYPE t @ '' '' @ file_count n"
proof -
  have hd: "\<not> is_space (hd (show_nat n))"
    using show_nat_no_space[of n] show_nat_not_Nil[of n] by (cases "show_nat n") auto
  have w: "collapse_ws (show_nat n @ CHR '' '' # w) = show_nat n @ CHR '' '' # w" if "w \<in> {''file'', ''files''}" for w
  proof -
    have "w \<noteq> []" "list_all (\<lambda>c. \<not> is_space c) w" using that by (auto simp: is_space_def)
    moreover from this have "\<not> is_space (hd w)" by (cases w) auto
    ultimately show ?thesis using show_nat_no_space[of n] by (simp add: collapse_ws_append no_space_id)
  qed
  have "collapse_ws (VERB_BY_TYPE t @ CHR '' '' # show_nat n @ u) = VERB_BY_TYPE t @ CHR '' '' # collapse_ws (show_nat n @ u)" for u
    using verb_letters[of t] hd by (intro collapse_ws_append) simp_all
  with w have "collapse_ws (VERB_BY_TYPE t @ '' '' @ file_count n) = VERB_BY_TYPE t @ '' '' @ file_count n"
    by (simp add: file_count_def)
  moreover have "\<not> is_space (hd (VERB_BY_TYPE t))" using verb_letters[of t] by (cases "VERB_BY_TYPE t") auto
  moreover have "\<not> is_space (last (VERB_BY_TYPE t @ '' '' @ file_count n))"
    by (simp add: file_count_def is_space_def)
  ultimately show ?thesis using verb_letters[of t] by (simp add: flatten_def trim_id)
qed

lemma file_count_length: "n < 2 ^ 32 \<Longrightarrow> length (file_count n) \<le> 16"
proof -
  assume "n < 2 ^ 32"
  then have "length (show_nat n) \<le> 10" by (intro length_show_nat_le) simp_all
  then show ?thesis by (auto simp: file_count_def)
qed

lemma scope_chars_dash: "list_all scope_char (dash_runs s)"
proof (induction s)
  case (Cons a s)
  have "scope_char (CHR ''-'')" by (simp add: scope_char_def)
  with Cons show ?case
    unfolding dash_runs.simps(2)[of a s] by (auto split: list.split simp del: dash_runs.simps)
qed simp

lemma scope_chars: "list_all scope_char (sanitizeScope s)"
proof -
  have "set (sanitizeScope s) \<subseteq> set (dash_runs s)"
    unfolding sanitizeScope_def by (auto dest!: set_dropWhileD)
  with scope_chars_dash[of s] show ?thesis by (auto simp: list_all_iff)
qed

lemma pick_scope_some:
  "pick_scope n cs = Some s \<Longrightarrow> s \<noteq> [] \<and> length s \<le> 24 \<and> list_all scope_char s \<and>
     (\<exists>seg cnt. (seg, cnt) \<in> set cs \<and> n < cnt * 2 \<and> s = sanitizeScope seg)"
  by (induction n cs rule: pick_scope.induct) (auto simp: scope_chars split: if_splits)

lemma type_name_length: "length (type_name t) \<le> 8"
  by (cases t) simp_all

lemma summary_fits:
  assumes "length changes < 2 ^ 32" and "\<And>s. scope = Some s \<Longrightarrow> length s \<le> 24"
  shows "one_line (deriveSummary type scope changes) \<and>
    length (type_name type) + (case scope of Some s \<Rightarrow> length s + 2 | None \<Rightarrow> 0) + 2 + length (deriveSummary type scope changes) \<le> 72"
proof -
  let ?p = "length (type_name type) + (case scope of Some s \<Rightarrow> length s + 2 | None \<Rightarrow> 0) + 2"
  let ?c = "VERB_BY_TYPE type @ '' '' @ file_count (length changes)"
  have "length ?c \<le> 24" using verb_letters(3)[of type] file_count_length[OF assms(1)] by simp
  moreover have "?p \<le> 36" using assms(2) type_name_length[of type] by (auto split: option.split)
  ultimately have fit: "flatten ?c \<noteq> [] \<and> int (length (flatten ?c)) \<le> 72 - int ?p"
    by (simp only: flatten_count) (simp add: file_count_def)
  define cs where "cs = [VERB_BY_TYPE type @ '' '' @ join_with '', '' (fold push_name changes [])] @
    (if length (fold push_name changes []) > 1 then [VERB_BY_TYPE type @ '' '' @ hd (fold push_name changes []) @ '' and ''
       @ show_nat (length (fold push_name changes []) - 1) @ '' more''] else []) @ [?c]"
  have "\<exists>c \<in> set cs. flatten c \<noteq> [] \<and> int (length (flatten c)) \<le> 72 - int ?p"
    using fit by (auto simp: cs_def)
  note pick = pick_summary_one_line[OF this]
  have "deriveSummary type scope changes =
      pick_summary (72 - int ?p) (VERB_BY_TYPE type @ '' '' @ show_nat (length changes) @ '' files'') cs"
    unfolding deriveSummary_def Let_def MAX_HEADER_LENGTH_def cs_def by simp
  then have "one_line (deriveSummary type scope changes) \<and>
      int (length (deriveSummary type scope changes)) \<le> 72 - int ?p"
    using pick by (simp only:)
  then show ?thesis by linarith
qed

section \<open>The header matches the grammar\<close>

lemma skip_scope_scope:
  assumes "s \<noteq> []" "list_all scope_char s"
  shows "skip_scope (''('' @ s @ '')'' @ r) = r"
proof -
  have "\<forall>c \<in> set s. c \<noteq> CHR ''('' \<and> c \<noteq> CHR '')'' \<and> \<not> is_line_end c"
    using assms(2) by (auto simp: list_all_iff scope_char_def is_upper_def is_lower_def is_digit_def is_line_end_def)
  then have "takeWhile (\<lambda>d. d \<noteq> CHR ''('' \<and> d \<noteq> CHR '')'' \<and> \<not> is_line_end d) (s @ CHR '')'' # r) = s"
    "dropWhile (\<lambda>d. d \<noteq> CHR ''('' \<and> d \<noteq> CHR '')'' \<and> \<not> is_line_end d) (s @ CHR '')'' # r) = CHR '')'' # r"
    by (simp_all add: takeWhile_append dropWhile_append)
  with assms(1) show ?thesis by (simp add: skip_scope_def)
qed

lemma skip_colon: "skip_scope ('': '' @ r) = '': '' @ r" "skip_bang ('': '' @ r) = '': '' @ r"
  by (simp_all add: skip_scope_def skip_bang_def)

lemma matches_description_one_line: "one_line s \<Longrightarrow> matches_description ('': '' @ s)"
  by (cases s) (simp_all add: one_line_def matches_description_def)

lemma all_types: "t \<in> set COMMIT_TYPES"
  by (cases t) (simp_all add: COMMIT_TYPES_def)

lemma matches_headerI:
  "matches_description (skip_bang (skip_scope r)) \<Longrightarrow> matches_header (type_name t @ r)"
  unfolding matches_header_def list_ex_iff
  by (rule bexI[OF _ all_types[of t]]) (simp add: starts_with_def)

lemma header_matches:
  assumes "one_line summary" and "\<And>s. scope = Some s \<Longrightarrow> s \<noteq> [] \<and> list_all scope_char s"
  shows "matches_header (type_name t @ (case scope of Some s \<Rightarrow> ''('' @ s @ '')'' | None \<Rightarrow> []) @ '': '' @ summary)"
proof (rule matches_headerI, cases scope)
  case None
  with assms(1) show "matches_description (skip_bang (skip_scope
      ((case scope of Some s \<Rightarrow> ''('' @ s @ '')'' | None \<Rightarrow> []) @ '': '' @ summary)))"
    using skip_colon[of summary] matches_description_one_line by simp
next
  case (Some s)
  with assms(2) have "skip_scope (''('' @ s @ '')'' @ '': '' @ summary) = '': '' @ summary"
    by (intro skip_scope_scope) auto
  with Some assms(1) show "matches_description (skip_bang (skip_scope
      ((case scope of Some s \<Rightarrow> ''('' @ s @ '')'' | None \<Rightarrow> []) @ '': '' @ summary)))"
    using skip_colon(2)[of summary] matches_description_one_line by simp
qed

lemma split_on_join:
  "ws \<noteq> [] \<Longrightarrow> \<forall>w \<in> set ws. d \<notin> set w \<Longrightarrow> split_on d (join_with [d] ws) = ws"
proof (induction ws)
  case (Cons w ws)
  have free: "split_on d w = [w]" if "d \<notin> set w" for w using that by (induction w) auto
  have app: "split_on d (w @ d # r) = w # split_on d r" if "d \<notin> set w" for w r
    using that by (induction w) auto
  show ?case
  proof (cases ws)
    case Nil
    with Cons.prems free show ?thesis by simp
  next
    case (Cons v vs)
    then have "join_with [d] (w # ws) = w @ d # join_with [d] ws" by simp
    with Cons Cons.IH Cons.prems app show ?thesis by auto
  qed
qed simp

section \<open>Properties\<close>

text \<open>
  The generated header is a Conventional Commits header of at most 72 characters, whatever
  the paths contain, for any number of changes a JavaScript array can hold.
\<close>

theorem header_conventional:
  assumes "generateCommitMessage wt = Some g" and "length (wt_changes wt) < 2 ^ 32"
  shows "isConventionalCommitHeader (gc_header g)"
proof -
  let ?scope = "deriveScope (wt_changes wt)"
  let ?type = "deriveType (wt_changes wt)"
  have scope: "s \<noteq> [] \<and> length s \<le> 24 \<and> list_all scope_char s" if "?scope = Some s" for s
    using that pick_scope_some unfolding deriveScope_def by blast
  have fits: "one_line (deriveSummary ?type ?scope (wt_changes wt)) \<and>
      length (type_name ?type) + (case ?scope of Some s \<Rightarrow> length s + 2 | None \<Rightarrow> 0) + 2
        + length (deriveSummary ?type ?scope (wt_changes wt)) \<le> 72"
    using scope by (intro summary_fits[OF assms(2)]) blast
  have h: "gc_header g = type_name ?type @ (case ?scope of Some s \<Rightarrow> ''('' @ s @ '')'' | None \<Rightarrow> [])
      @ '': '' @ deriveSummary ?type ?scope (wt_changes wt)"
    using assms(1) by (auto simp: generateCommitMessage_def Let_def split: if_splits)
  have "matches_header (gc_header g)"
    unfolding h using fits scope by (intro header_matches) blast+
  moreover have "length (gc_header g) \<le> 72"
    unfolding h using fits by (auto split: option.splits)
  ultimately show ?thesis by (simp add: isConventionalCommitHeader_def MAX_HEADER_LENGTH_def)
qed

definition sample_tree :: worktree_status where
  "sample_tree = \<lparr>wt_project = ''/p'', wt_is_git_repo = True, wt_branch = None, wt_detached = False,
     wt_head = None, wt_upstream = None, wt_ahead = None, wt_behind = None,
     wt_changes = [\<lparr>wc_path = ''src/a.ts'', wc_status = ''.M'', wc_orig_path = None,
       wc_attributed_to = Some ''cc-1'', wc_attributed_tool = Some ''Edit''\<rparr>],
     wt_changes_truncated = False, wt_diffstat = None, wt_probed_at = ''t'', wt_error = None\<rparr>"

theorem header_conventional_witness:
  "\<exists>g. generateCommitMessage sample_tree = Some g \<and> length (wt_changes sample_tree) < 2 ^ 32 \<and>
     isConventionalCommitHeader (gc_header g)"
proof -
  obtain g where g: "generateCommitMessage sample_tree = Some g"
    by (simp add: generateCommitMessage_def sample_tree_def Let_def)
  have n: "length (wt_changes sample_tree) < 2 ^ 32" by (simp add: sample_tree_def)
  from g n header_conventional[OF g n] show ?thesis by blast
qed

text \<open>
  A message is generated exactly for a repository with changes; its first line is the
  header, and when no path or agent name contains a line feed the body has one line per
  change, in order, with the full path and its attribution, and nothing is truncated.
\<close>

theorem message_complete:
  "(generateCommitMessage wt = None \<longleftrightarrow> \<not> wt_is_git_repo wt \<or> wt_changes wt = []) \<and>
   (generateCommitMessage wt = Some g \<longrightarrow>
      gc_message g = gc_header g @ [line_feed, line_feed] @ gc_body g \<and>
      ((\<forall>l \<in> set (body_lines wt). line_feed \<notin> set l) \<longrightarrow>
        take (length (wt_changes wt)) (tl (split_on line_feed (gc_body g))) = map changeLine (wt_changes wt)))"
proof (intro conjI impI)
  show "generateCommitMessage wt = None \<longleftrightarrow> \<not> wt_is_git_repo wt \<or> wt_changes wt = []"
    by (simp add: generateCommitMessage_def Let_def)
  assume g: "generateCommitMessage wt = Some g"
  then show "gc_message g = gc_header g @ [line_feed, line_feed] @ gc_body g"
    by (auto simp: generateCommitMessage_def Let_def split: if_splits)
  assume "\<forall>l \<in> set (body_lines wt). line_feed \<notin> set l"
  then have "split_on line_feed (join_with [line_feed] (body_lines wt)) = body_lines wt"
    by (intro split_on_join) (simp_all add: body_lines_def)
  moreover have "gc_body g = join_with [line_feed] (body_lines wt)"
    using g by (auto simp: generateCommitMessage_def Let_def split: if_splits)
  ultimately show "take (length (wt_changes wt)) (tl (split_on line_feed (gc_body g))) = map changeLine (wt_changes wt)"
    by (simp add: body_lines_def)
qed

theorem message_complete_witness:
  "generateCommitMessage sample_tree \<noteq> None \<and> (\<forall>l \<in> set (body_lines sample_tree). line_feed \<notin> set l) \<and>
   (\<exists>g. generateCommitMessage sample_tree = Some g \<and>
     take 1 (tl (split_on line_feed (gc_body g))) = map changeLine (wt_changes sample_tree))"
proof -
  have lf: "\<forall>l \<in> set (body_lines sample_tree). line_feed \<notin> set l" by code_simp
  have some: "generateCommitMessage sample_tree \<noteq> None"
    by (simp add: generateCommitMessage_def sample_tree_def Let_def)
  then obtain g where g: "generateCommitMessage sample_tree = Some g" by auto
  have one: "length (wt_changes sample_tree) = 1" by (simp add: sample_tree_def)
  from message_complete[of sample_tree g] g lf some one show ?thesis by auto
qed

end
