(* ===== verification/Web_Api.thy ===== *)
theory Web_Api
  imports Js_Runtime
begin

text \<open>
  \<open>env.ts\<close> and the storage and response side of \<open>api.ts\<close>: the build-time URLs, the token
  slot in \<open>localStorage\<close> with the failures the code guards against, and what \<open>fetch\<close> and a
  \<open>Response\<close> give to the callers. The listeners of a token change and \<open>apiFetch\<close> act on the
  whole page and are in \<open>Web_Session\<close>. The end of the theory has \<open>Number(s)\<close>, which the
  throttle handling applies to a header, and \<open>parseInt\<close>.
\<close>

section \<open>Environment\<close>

definition optionalUrl :: "string \<Rightarrow> string option \<Rightarrow> string option result" where
  "optionalUrl name value = (case value of
       Some v \<Rightarrow> if trim v = [] then Inl (name @ '' must not be empty; omit it to use the default origin.'') else Inr value
     | None \<Rightarrow> Inr value)"

record environment =
  en_apiUrl :: "string option"
  en_wsUrl :: "string option"

definition read_environment :: "string option \<Rightarrow> string option \<Rightarrow> environment result" where
  "read_environment apiUrl wsUrl =
     rbind (optionalUrl ''VITE_API_URL'' apiUrl) (\<lambda>a.
     rbind (optionalUrl ''VITE_WS_URL'' wsUrl) (\<lambda>w. Inr \<lparr>en_apiUrl = a, en_wsUrl = w\<rparr>))"

definition API_BASE :: "environment \<Rightarrow> string" where
  "API_BASE env = (case en_apiUrl env of Some u \<Rightarrow> u | None \<Rightarrow> [])"

section \<open>The token slot\<close>

text \<open>Each access of \<open>localStorage\<close> may throw: private browsing, storage disabled or full.\<close>

record storage =
  sg_token :: "string option"
  sg_getThrows :: bool
  sg_setThrows :: bool
  sg_removeThrows :: bool

definition read_token :: "storage \<Rightarrow> string option" where
  "read_token s = (if sg_getThrows s then None else sg_token s)"

definition write_token :: "string \<Rightarrow> storage \<Rightarrow> storage" where
  "write_token raw s = (if sg_setThrows s then s else s\<lparr>sg_token := Some raw\<rparr>)"

definition remove_token :: "storage \<Rightarrow> storage" where
  "remove_token s = (if sg_removeThrows s then s else s\<lparr>sg_token := None\<rparr>)"

definition storage_works :: "storage \<Rightarrow> bool" where
  "storage_works s \<longleftrightarrow> \<not> sg_getThrows s \<and> \<not> sg_setThrows s \<and> \<not> sg_removeThrows s"

lemma storage_works_simps [simp]:
  "storage_works s \<Longrightarrow> read_token s = sg_token s"
  "storage_works s \<Longrightarrow> write_token raw s = s\<lparr>sg_token := Some raw\<rparr>"
  "storage_works s \<Longrightarrow> remove_token s = s\<lparr>sg_token := None\<rparr>"
  "storage_works (s\<lparr>sg_token := t\<rparr>) = storage_works s"
  by (simp_all add: storage_works_def read_token_def write_token_def remove_token_def)

section \<open>JavaScript values\<close>

text \<open>A value read from a parsed body: \<open>None\<close> is \<open>undefined\<close>.\<close>

type_synonym js = "json option"

fun js_truthy :: "js \<Rightarrow> bool" where
  "js_truthy None = False"
| "js_truthy (Some JNull) = False"
| "js_truthy (Some (JBool b)) = b"
| "js_truthy (Some (JNum n)) = (n \<noteq> Fin 0)"
| "js_truthy (Some (JStr s)) = (s \<noteq> [])"
| "js_truthy (Some (JArr vs)) = True"
| "js_truthy (Some (JObj kvs)) = True"

text \<open>\<open>String(v)\<close>, given how a finite number prints.\<close>

fun js_string :: "(rat \<Rightarrow> string) \<Rightarrow> json \<Rightarrow> string" where
  "js_string num JNull = ''null''"
| "js_string num (JBool b) = (if b then ''true'' else ''false'')"
| "js_string num (JNum n) = (case n of Fin q \<Rightarrow> num q | PosInf \<Rightarrow> ''Infinity'' | NegInf \<Rightarrow> ''-Infinity'')"
| "js_string num (JStr s) = s"
| "js_string num (JArr vs) = join_with '','' (map (\<lambda>v. case v of JNull \<Rightarrow> [] | _ \<Rightarrow> js_string num v) vs)"
| "js_string num (JObj kvs) = ''[object Object]''"

definition js_to_string :: "(rat \<Rightarrow> string) \<Rightarrow> js \<Rightarrow> string" where
  "js_to_string num v = (case v of None \<Rightarrow> ''undefined'' | Some j \<Rightarrow> js_string num j)"

text \<open>\<open>body.key\<close>: reading a property of \<open>null\<close> throws, of a primitive gives \<open>undefined\<close>.\<close>

definition js_prop :: "json \<Rightarrow> string \<Rightarrow> js result" where
  "js_prop v key = (case v of
       JNull \<Rightarrow> Inl (''Cannot read properties of null (reading '' @ [char_of (39::nat)] @ key @ [char_of (39::nat)] @ '')'')
     | JObj kvs \<Rightarrow> Inr (map_of kvs key)
     | _ \<Rightarrow> Inr None)"

section \<open>Responses\<close>

text \<open>
  \<open>rs_text\<close> is \<open>None\<close> when reading the body fails, \<open>rs_json\<close> when the body is not JSON (or
  cannot be read); a promise of \<open>fetch\<close> rejects with an error's name and message.
\<close>

record response =
  rs_status :: nat
  rs_contentType :: "string option"
  rs_retryAfter :: "string option"
  rs_text :: "string option"
  rs_json :: "json option"

datatype outcome = Responded response | Rejected string string

definition rs_ok :: "response \<Rightarrow> bool" where
  "rs_ok r \<longleftrightarrow> 200 \<le> rs_status r \<and> rs_status r \<le> 299"

definition isAbortError :: "string \<Rightarrow> bool" where
  "isAbortError name \<longleftrightarrow> name = ''AbortError''"

definition unreachable :: "string \<Rightarrow> string" where
  "unreachable message = ''Could not reach daemon: '' @ message"

section \<open>Number\<close>

text \<open>The error of \<open>JSON.parse\<close>, whose text the browsers word differently.\<close>

definition bad_json :: string where
  "bad_json = ''not valid JSON''"

definition js_round :: "rat \<Rightarrow> jsnum" where
  "js_round q =
     (if q \<ge> 2 ^ 1024 - 2 ^ 970 then PosInf
      else if q \<le> - (2 ^ 1024 - 2 ^ 970) then NegInf
      else if \<bar>q\<bar> * 2 ^ 1075 \<le> 1 then Fin 0 else Fin q)"

definition scale10 :: "rat \<Rightarrow> int \<Rightarrow> rat" where
  "scale10 q e = (if e \<ge> 0 then q * 10 ^ nat e else q / 10 ^ nat (- e))"

definition digits :: "string \<Rightarrow> nat option" where
  "digits s = (if s \<noteq> [] \<and> list_all is_digit s then Some (read_nat s) else None)"

definition exponent :: "string \<Rightarrow> int option" where
  "exponent s = (case s of
       [] \<Rightarrow> Some 0
     | _ # r \<Rightarrow> (case r of
           [] \<Rightarrow> None
         | d # r' \<Rightarrow> if d = CHR ''-'' then map_option (\<lambda>n. - int n) (digits r')
                     else if d = CHR ''+'' then map_option int (digits r') else map_option int (digits r)))"

definition decimal :: "string \<Rightarrow> rat option" where
  "decimal s =
     (let m = takeWhile (\<lambda>c. c \<noteq> CHR ''e'' \<and> c \<noteq> CHR ''E'') s;
          i = takeWhile (\<lambda>c. c \<noteq> CHR ''.'') m;
          f = drop (Suc (length i)) m
      in case (digits (i @ f), exponent (drop (length m) s)) of
           (Some n, Some e) \<Rightarrow> Some (scale10 (of_nat n) (e - int (length f)))
         | _ \<Rightarrow> None)"

definition radix_digit :: "char \<Rightarrow> nat" where
  "radix_digit c = (if is_digit c then digit_val c else of_char (lower_char c) - 87)"

definition radix_literal :: "nat \<Rightarrow> string \<Rightarrow> jsnum option" where
  "radix_literal b s =
     (if s \<noteq> [] \<and> list_all (\<lambda>c. is_hex c \<and> radix_digit c < b) s
      then Some (js_round (of_nat (foldl (\<lambda>n c. b * n + radix_digit c) 0 s))) else None)"

text \<open>\<open>Number(s)\<close> for a string; \<open>None\<close> is \<open>NaN\<close>.\<close>

definition js_number :: "string \<Rightarrow> jsnum option" where
  "js_number s =
     (let t = trim s; p = to_lower (take 2 t); r = drop 2 t;
          body = (if t \<noteq> [] \<and> (hd t = CHR ''-'' \<or> hd t = CHR ''+'') then tl t else t);
          neg = (t \<noteq> [] \<and> hd t = CHR ''-'')
      in if t = [] then Some (Fin 0)
         else if p = ''0x'' then radix_literal 16 r
         else if p = ''0o'' then radix_literal 8 r
         else if p = ''0b'' then radix_literal 2 r
         else if body = ''Infinity'' then Some (if neg then NegInf else PosInf)
         else map_option (\<lambda>q. js_round (if neg then - q else q)) (decimal body))"

text \<open>
  The wait of a throttled form: \<open>Number(header)\<close>, where an absent header is \<open>null\<close> and reads
  as 0; finite and positive values are capped at an hour, anything else means 30 seconds.
\<close>

definition retry_after :: "string option \<Rightarrow> rat" where
  "retry_after header =
     (case (case header of Some h \<Rightarrow> js_number h | None \<Rightarrow> Some (Fin 0)) of
        Some (Fin q) \<Rightarrow> if q > 0 then min q 3600 else 30
      | _ \<Rightarrow> 30)"

lemma retry_after_bounds: "0 < retry_after header \<and> retry_after header \<le> 3600"
  by (auto simp: retry_after_def split: option.split jsnum.split)

text \<open>\<open>parseInt(s, 10)\<close>: the leading digits after white space and a sign; \<open>None\<close> is NaN, which JSON prints as null.\<close>

definition parseInt10 :: "string \<Rightarrow> int option" where
  "parseInt10 s =
     (let t = dropWhile is_space s;
          neg = (t \<noteq> [] \<and> hd t = CHR ''-'');
          u = (if neg \<or> (t \<noteq> [] \<and> hd t = CHR ''+'') then tl t else t);
          ds = takeWhile is_digit u
      in if ds = [] then None else Some (if neg then - int (read_nat ds) else int (read_nat ds)))"

end
