(* ===== verification/Auth_Profile.thy ===== *)
theory Auth_Profile
  imports Web_Api
begin

text \<open>
  \<open>hooks/useAuthProfile.ts\<close>: the page-wide probe of \<open>/api/auth/profile\<close>. The module's
  variables are one record; a probe is a number, which also names its promise and its abort
  controller. Probes settle in any order and at any time, aborted ones included.
\<close>

section \<open>Snapshots\<close>

text \<open>\<open>sn_profile\<close> is \<open>Some JNull\<close> for \<open>null\<close> and \<open>None\<close> for a field missing in the body.\<close>

record snapshot =
  sn_profile :: js
  sn_canEnroll :: bool
  sn_passkeyRequired :: bool
  sn_allowEphemeral :: bool
  sn_loaded :: bool

definition FAIL_CLOSED_SNAPSHOT :: snapshot where
  "FAIL_CLOSED_SNAPSHOT = \<lparr>sn_profile = Some JNull, sn_canEnroll = False, sn_passkeyRequired = False,
     sn_allowEphemeral = False, sn_loaded = True\<rparr>"

definition UNLOADED_SNAPSHOT :: snapshot where
  "UNLOADED_SNAPSHOT = FAIL_CLOSED_SNAPSHOT\<lparr>sn_loaded := False\<rparr>"

definition profile_body :: "json \<Rightarrow> snapshot result" where
  "profile_body body =
     rbind (js_prop body ''profile'') (\<lambda>p.
     rbind (js_prop body ''can_enroll_passkey_on_this_origin'') (\<lambda>c.
     rbind (js_prop body ''passkey_required'') (\<lambda>r.
     rbind (js_prop body ''allow_ephemeral_listener'') (\<lambda>e.
       Inr \<lparr>sn_profile = p, sn_canEnroll = js_truthy c, sn_passkeyRequired = js_truthy r,
            sn_allowEphemeral = js_truthy e, sn_loaded = True\<rparr>))))"

definition fetchProfile :: "outcome \<Rightarrow> snapshot" where
  "fetchProfile out = (case out of
       Rejected name message \<Rightarrow> FAIL_CLOSED_SNAPSHOT
     | Responded r \<Rightarrow>
         if \<not> rs_ok r then FAIL_CLOSED_SNAPSHOT
         else (case rs_json r of
             None \<Rightarrow> FAIL_CLOSED_SNAPSHOT
           | Some body \<Rightarrow> (case profile_body body of Inl e \<Rightarrow> FAIL_CLOSED_SNAPSHOT | Inr s \<Rightarrow> s)))"

section \<open>The module's state\<close>

record profile_store =
  ps_cached :: "snapshot option"
  ps_inflight :: "nat option"
  ps_controller :: "nat option"
  ps_subscribers :: "nat list"
  ps_ticks :: "nat \<Rightarrow> nat"
  ps_aborted :: "nat set"
  ps_pending :: "nat set"
  ps_next :: nat

definition initial_profile :: profile_store where
  "initial_profile = \<lparr>ps_cached = None, ps_inflight = None, ps_controller = None, ps_subscribers = [],
     ps_ticks = (\<lambda>_. 0), ps_aborted = {}, ps_pending = {}, ps_next = 0\<rparr>"

text \<open>What a caller of \<open>waitForAuthProfile\<close> gets: the cached snapshot or a promise.\<close>

datatype wait = Ready snapshot | Await nat

definition successful :: "snapshot option \<Rightarrow> bool" where
  "successful c = (case c of Some s \<Rightarrow> sn_profile s \<noteq> Some JNull | None \<Rightarrow> False)"

definition notifySubscribers :: "profile_store \<Rightarrow> profile_store" where
  "notifySubscribers ps = ps\<lparr>ps_ticks := (\<lambda>cb. if cb \<in> set (ps_subscribers ps) then Suc (ps_ticks ps cb) else ps_ticks ps cb)\<rparr>"

definition waitForAuthProfile :: "profile_store \<Rightarrow> wait \<times> profile_store" where
  "waitForAuthProfile ps =
     (if successful (ps_cached ps) then (Ready (the (ps_cached ps)), ps)
      else case ps_inflight ps of
          Some p \<Rightarrow> (Await p, ps)
        | None \<Rightarrow> (Await (ps_next ps), ps\<lparr>ps_controller := Some (ps_next ps), ps_inflight := Some (ps_next ps),
              ps_pending := insert (ps_next ps) (ps_pending ps), ps_next := Suc (ps_next ps)\<rparr>))"

text \<open>The \<open>then\<close> callback of probe \<open>p\<close>; the promise resolves to \<open>fetchProfile out\<close>.\<close>

definition settle_profile :: "nat \<Rightarrow> outcome \<Rightarrow> profile_store \<Rightarrow> profile_store" where
  "settle_profile p out ps0 =
     (let ps = ps0\<lparr>ps_pending := ps_pending ps0 - {p}\<rparr> in
      if p \<in> ps_aborted ps then ps
      else notifySubscribers (ps\<lparr>ps_cached := Some (fetchProfile out), ps_inflight := None,
             ps_controller := (if ps_controller ps = Some p then None else ps_controller ps)\<rparr>))"

definition subscribe_profile :: "nat \<Rightarrow> profile_store \<Rightarrow> profile_store" where
  "subscribe_profile cb ps =
     snd (waitForAuthProfile (ps\<lparr>ps_subscribers := List.insert cb (ps_subscribers ps)\<rparr>))"

definition unsubscribe_profile :: "nat \<Rightarrow> profile_store \<Rightarrow> profile_store" where
  "unsubscribe_profile cb ps0 =
     (let ps = ps0\<lparr>ps_subscribers := removeAll cb (ps_subscribers ps0)\<rparr> in
      case ps_controller ps of
        Some c \<Rightarrow> if ps_subscribers ps = []
                  then ps\<lparr>ps_aborted := insert c (ps_aborted ps), ps_controller := None, ps_inflight := None\<rparr> else ps
      | None \<Rightarrow> ps)"

definition rendered_profile :: "profile_store \<Rightarrow> snapshot" where
  "rendered_profile ps = (case ps_cached ps of Some s \<Rightarrow> s | None \<Rightarrow> UNLOADED_SNAPSHOT)"

definition resetAuthProfileForTesting :: "profile_store \<Rightarrow> profile_store" where
  "resetAuthProfileForTesting ps =
     ps\<lparr>ps_aborted := ps_aborted ps \<union> set_option (ps_controller ps), ps_cached := None, ps_inflight := None,
       ps_controller := None, ps_subscribers := []\<rparr>"

section \<open>Runs\<close>

datatype profile_event = Pe_wait | Pe_settle nat outcome | Pe_subscribe nat | Pe_unsubscribe nat

fun profile_step :: "profile_event \<Rightarrow> profile_store \<Rightarrow> profile_store" where
  "profile_step Pe_wait ps = snd (waitForAuthProfile ps)"
| "profile_step (Pe_settle p out) ps = settle_profile p out ps"
| "profile_step (Pe_subscribe cb) ps = subscribe_profile cb ps"
| "profile_step (Pe_unsubscribe cb) ps = unsubscribe_profile cb ps"

fun profile_enabled :: "profile_event \<Rightarrow> profile_store \<Rightarrow> bool" where
  "profile_enabled (Pe_settle p out) ps = (p \<in> ps_pending ps)"
| "profile_enabled _ ps = True"

inductive profile_runs :: "profile_store \<Rightarrow> profile_store \<Rightarrow> bool" where
  refl: "profile_runs ps ps"
| step: "profile_runs ps qs \<Longrightarrow> profile_enabled e qs \<Longrightarrow> profile_runs ps (profile_step e qs)"

section \<open>One probe at a time\<close>

text \<open>The probes that were started and neither settled nor aborted.\<close>

definition live_probes :: "profile_store \<Rightarrow> nat set" where
  "live_probes ps = ps_pending ps - ps_aborted ps"

definition profile_inv :: "profile_store \<Rightarrow> bool" where
  "profile_inv ps \<longleftrightarrow> live_probes ps = set_option (ps_inflight ps) \<and> ps_controller ps = ps_inflight ps \<and>
     (\<forall>p \<in> ps_pending ps \<union> ps_aborted ps. p < ps_next ps) \<and>
     (successful (ps_cached ps) \<longrightarrow> ps_inflight ps = None) \<and>
     (case ps_cached ps of Some s \<Rightarrow> sn_loaded s | None \<Rightarrow> True)"

lemma fetchProfile_loaded [simp]: "sn_loaded (fetchProfile out)"
  by (auto simp: fetchProfile_def FAIL_CLOSED_SNAPSHOT_def profile_body_def result_simps
      split: outcome.split option.split sum.split)

lemma profile_inv_wait: "profile_inv ps \<Longrightarrow> profile_inv (snd (waitForAuthProfile ps))"
  by (auto simp: profile_inv_def waitForAuthProfile_def live_probes_def successful_def
      intro: less_SucI split: option.splits if_splits)

lemma profile_inv_settle:
  assumes "profile_inv ps" "p \<in> ps_pending ps"
  shows "profile_inv (settle_profile p out ps)"
proof (cases "p \<in> ps_aborted ps")
  case True
  with assms show ?thesis by (auto simp: profile_inv_def settle_profile_def live_probes_def Let_def)
next
  case False
  with assms(2) have "p \<in> live_probes ps" by (simp add: live_probes_def)
  with assms(1) have "ps_inflight ps = Some p" by (cases "ps_inflight ps") (auto simp: profile_inv_def)
  with assms False show ?thesis
    by (auto simp: profile_inv_def settle_profile_def live_probes_def Let_def notifySubscribers_def)
qed

lemma profile_inv_subscribers [simp]: "profile_inv (ps\<lparr>ps_subscribers := xs\<rparr>) = profile_inv ps"
  by (simp add: profile_inv_def live_probes_def)

lemma profile_inv_unsubscribe: "profile_inv ps \<Longrightarrow> profile_inv (unsubscribe_profile cb ps)"
  by (auto simp: profile_inv_def unsubscribe_profile_def live_probes_def Let_def split: option.splits if_splits)

lemma profile_inv_step: "profile_inv ps \<Longrightarrow> profile_enabled e ps \<Longrightarrow> profile_inv (profile_step e ps)"
  by (cases e) (simp_all add: profile_inv_wait profile_inv_settle subscribe_profile_def profile_inv_unsubscribe)

lemma profile_runs_inv: "profile_runs ps qs \<Longrightarrow> profile_inv ps \<Longrightarrow> profile_inv qs"
  by (induction rule: profile_runs.induct) (auto intro: profile_inv_step)

lemma profile_inv_initial: "profile_inv initial_profile"
  by (simp add: profile_inv_def initial_profile_def live_probes_def successful_def)

text \<open>
  However components mount and unmount, callers wait and probes settle, at most one live
  probe of the profile is in flight: a caller that waits shares it, gets the cached success,
  or starts the only one; and what a caller is given once it resolves is always a loaded
  snapshot.
\<close>

theorem profile_single_flight:
  assumes "profile_runs initial_profile ps"
  shows "card (live_probes ps) \<le> 1 \<and>
    (case fst (waitForAuthProfile ps) of
       Ready s \<Rightarrow> sn_loaded s \<and> snd (waitForAuthProfile ps) = ps
     | Await p \<Rightarrow> live_probes (snd (waitForAuthProfile ps)) = {p} \<and> sn_loaded (fetchProfile out))"
proof -
  have inv: "profile_inv ps" using profile_runs_inv[OF assms profile_inv_initial] .
  have after: "profile_inv (snd (waitForAuthProfile ps))" using inv by (rule profile_inv_wait)
  have "card (live_probes ps) \<le> 1" using inv by (cases "ps_inflight ps") (simp_all add: profile_inv_def)
  moreover have "sn_loaded s \<and> snd (waitForAuthProfile ps) = ps" if "fst (waitForAuthProfile ps) = Ready s" for s
    using that inv by (auto simp: waitForAuthProfile_def profile_inv_def successful_def split: option.splits if_splits)
  moreover have "live_probes (snd (waitForAuthProfile ps)) = {p}" if "fst (waitForAuthProfile ps) = Await p" for p
    using that after by (auto simp: waitForAuthProfile_def profile_inv_def split: option.splits if_splits)
  ultimately show ?thesis by (simp split: wait.split)
qed

text \<open>A mount, an unmount that aborts its probe, and a new mount.\<close>

definition remounted :: profile_store where
  "remounted = profile_step (Pe_subscribe 1) (profile_step (Pe_unsubscribe 0) (profile_step (Pe_subscribe 0) initial_profile))"

lemma remounted_runs: "profile_runs initial_profile remounted"
  unfolding remounted_def by (intro profile_runs.intros) simp_all

theorem profile_single_flight_witness:
  "profile_runs initial_profile remounted \<and> ps_pending remounted = {0, 1} \<and> card (live_probes remounted) \<le> 1"
  using profile_single_flight[OF remounted_runs] remounted_runs
  by (auto simp: remounted_def subscribe_profile_def unsubscribe_profile_def waitForAuthProfile_def initial_profile_def
      successful_def Let_def)

text \<open>
  A successful answer is kept for the page's lifetime: whatever happens afterwards, the
  hook renders the same snapshot and no further probe is started. A failure is not: once
  the failed probe is over, the next caller that waits starts a fresh one, while the hook
  renders the closed snapshot.
\<close>

theorem profile_success_is_final:
  assumes "profile_runs initial_profile ps" and "profile_runs ps qs"
  shows "(successful (ps_cached ps) \<longrightarrow> rendered_profile qs = rendered_profile ps \<and> ps_next qs = ps_next ps) \<and>
    (ps_cached ps = Some FAIL_CLOSED_SNAPSHOT \<and> ps_inflight ps = None \<longrightarrow>
       fst (waitForAuthProfile ps) = Await (ps_next ps) \<and> \<not> sn_canEnroll (rendered_profile ps))"
proof -
  have inv: "profile_inv ps" using profile_runs_inv[OF assms(1) profile_inv_initial] .
  have "ps_cached qs = ps_cached ps \<and> ps_next qs = ps_next ps" if "successful (ps_cached ps)"
    using assms(2) inv that
  proof (induction rule: profile_runs.induct)
    case (step ps qs e)
    then have "profile_inv qs" and same: "ps_cached qs = ps_cached ps" "ps_next qs = ps_next ps" and ok: "successful (ps_cached qs)"
      using profile_runs_inv by auto
    then have none: "live_probes qs = {}" "ps_inflight qs = None" "ps_controller qs = None" by (auto simp: profile_inv_def)
    from step.hyps(2) same ok none show ?case
      by (cases e)
        (auto simp: waitForAuthProfile_def settle_profile_def subscribe_profile_def unsubscribe_profile_def live_probes_def Let_def)
  qed simp
  then show ?thesis
    by (auto simp: rendered_profile_def waitForAuthProfile_def successful_def FAIL_CLOSED_SNAPSHOT_def)
qed

definition lan_reply :: response where
  "lan_reply = \<lparr>rs_status = 200, rs_contentType = None, rs_retryAfter = None, rs_text = None,
     rs_json = Some (JObj [(''profile'', JStr ''local-lan''), (''can_enroll_passkey_on_this_origin'', JBool True)])\<rparr>"

definition probed :: profile_store where
  "probed = profile_step (Pe_settle 0 (Responded lan_reply)) (profile_step Pe_wait initial_profile)"

theorem profile_success_is_final_witness:
  "successful (ps_cached probed) \<and> rendered_profile (profile_step (Pe_unsubscribe 7) probed) = rendered_profile probed"
proof -
  have "profile_runs initial_profile (profile_step Pe_wait initial_profile)"
    by (intro profile_runs.intros) simp_all
  moreover have "profile_enabled (Pe_settle 0 (Responded lan_reply)) (profile_step Pe_wait initial_profile)"
    by (simp add: waitForAuthProfile_def initial_profile_def successful_def)
  ultimately have run: "profile_runs initial_profile probed" unfolding probed_def by (rule profile_runs.step)
  have "profile_runs probed (profile_step (Pe_unsubscribe 7) probed)" by (intro profile_runs.intros) simp_all
  moreover have "successful (ps_cached probed)"
    by (simp add: probed_def settle_profile_def waitForAuthProfile_def initial_profile_def successful_def Let_def
        notifySubscribers_def fetchProfile_def lan_reply_def rs_ok_def profile_body_def js_prop_def)
  ultimately show ?thesis using profile_success_is_final[OF run] by blast
qed

end
