(* ===== verification/Web_Session.thy ===== *)
theory Web_Session
  imports Wisphive_Connection Auth_Profile
begin

text \<open>
  \<open>hooks/useAuth.ts\<close> and the listener side of \<open>api.ts\<close>, on the page as a whole: the token
  slot, the set of auth listeners, the login state of \<open>useAuth\<close>, the profile probe it waits
  for and the connection hook of the authenticated shell, which is mounted only in phase
  \<open>authed\<close>. An asynchronous function is split at its \<open>await\<close>s: the call issues a request, and
  the settled request runs the rest. State setters take effect in order, as React applies
  them; what is rendered in between is any state of the run.
\<close>

section \<open>Data\<close>

datatype auth_phase = Loading | Setup | Unauthed | Authed_pending_enroll | Authed

datatype auth_error_kind = Err_invalid | Err_conflict | Err_throttled | Err_network | Err_server

record auth_error =
  ae_kind :: auth_error_kind
  ae_message :: string
  ae_retryAfter :: "rat option"

datatype api_call =
    Call_status
  | Call_login string "string option"
  | Call_setPassword string "string option"
  | Call_logout

record fetch_call =
  fc_url :: string
  fc_post :: bool
  fc_bearer :: "string option"
  fc_credentials :: "(string \<times> string option) option"

text \<open>
  \<open>au_inflight\<close> has the requests awaiting an answer with the bearer they carried, \<open>au_waits\<close>
  the calls of \<open>setPassword\<close> that await the profile, \<open>au_returned\<close> what the promises resolved
  to, and \<open>au_effectToken\<close> the token the mount effect last ran for.
\<close>

record auth =
  au_token :: js
  au_phase :: auth_phase
  au_error :: "auth_error option"
  au_requests :: "nat set"
  au_aborted :: "nat set"
  au_inflight :: "(nat, api_call \<times> string option) jmap"
  au_waits :: "(nat \<times> wait) list"
  au_returned :: "(nat \<times> bool) list"
  au_next :: nat
  au_effectToken :: "js option"

datatype listener = L_useAuth | L_useWisphive

record world =
  wd_env :: environment
  wd_wsBase :: string
  wd_storage :: storage
  wd_listeners :: "listener list"
  wd_auth :: auth
  wd_profile :: profile_store
  wd_probeBearer :: "nat \<Rightarrow> string option"
  wd_hook :: hook
  wd_fetches :: "fetch_call list"

abbreviation upd_auth :: "(auth \<Rightarrow> auth) \<Rightarrow> world \<Rightarrow> world" where
  "upd_auth f w \<equiv> w\<lparr>wd_auth := f (wd_auth w)\<rparr>"

section \<open>The token and its listeners\<close>

definition page_getWebToken :: "world \<Rightarrow> string option" where
  "page_getWebToken w = read_token (wd_storage w)"

definition bearer :: "world \<Rightarrow> string option" where
  "bearer w = (case page_getWebToken w of Some t \<Rightarrow> if t \<noteq> [] then Some t else None | None \<Rightarrow> None)"

definition js_token :: "string option \<Rightarrow> js" where
  "js_token t = Some (case t of Some s \<Rightarrow> JStr s | None \<Rightarrow> JNull)"

text \<open>The listener of \<open>useAuth\<close>.\<close>

definition auth_listener :: "world \<Rightarrow> world" where
  "auth_listener w = upd_auth (\<lambda>a.
     if bearer w = None
     then a\<lparr>au_token := js_token (page_getWebToken w), au_phase := (if au_phase a = Setup then Setup else Unauthed)\<rparr>
     else a\<lparr>au_token := js_token (page_getWebToken w), au_phase := Authed, au_error := None\<rparr>) w"

text \<open>The listener of \<open>useWisphive\<close>, which reads the token from the slot.\<close>

definition hook_listener :: "world \<Rightarrow> world" where
  "hook_listener w = w\<lparr>wd_hook := auth_changed ((wd_hook w)\<lparr>h_token := page_getWebToken w\<rparr>)\<rparr>"

fun run_listener :: "listener \<Rightarrow> world \<Rightarrow> world" where
  "run_listener L_useAuth w = auth_listener w"
| "run_listener L_useWisphive w = hook_listener w"

definition subscribeAuthChange :: "listener \<Rightarrow> world \<Rightarrow> world" where
  "subscribeAuthChange l w = w\<lparr>wd_listeners := (if l \<in> set (wd_listeners w) then wd_listeners w else wd_listeners w @ [l])\<rparr>"

definition unsubscribeAuthChange :: "listener \<Rightarrow> world \<Rightarrow> world" where
  "unsubscribeAuthChange l w = w\<lparr>wd_listeners := removeAll l (wd_listeners w)\<rparr>"

definition notifyAuthChange :: "world \<Rightarrow> world" where
  "notifyAuthChange w = fold run_listener (wd_listeners w) w"

definition page_setWebToken :: "string \<Rightarrow> world \<Rightarrow> world" where
  "page_setWebToken raw w = notifyAuthChange (w\<lparr>wd_storage := write_token raw (wd_storage w)\<rparr>)"

definition page_clearWebToken :: "world \<Rightarrow> world" where
  "page_clearWebToken w = notifyAuthChange (w\<lparr>wd_storage := remove_token (wd_storage w)\<rparr>)"

section \<open>apiFetch\<close>

definition apiFetch :: "string \<Rightarrow> bool \<Rightarrow> (string \<times> string option) option \<Rightarrow> world \<Rightarrow> world" where
  "apiFetch path post credentials w = w\<lparr>wd_fetches := wd_fetches w @
     [\<lparr>fc_url = API_BASE (wd_env w) @ path, fc_post = post, fc_bearer = bearer w, fc_credentials = credentials\<rparr>]\<rparr>"

text \<open>After \<open>fetch\<close> has settled; \<open>sent\<close> is the bearer the request carried.\<close>

definition apiFetch_settled :: "string option \<Rightarrow> outcome \<Rightarrow> world \<Rightarrow> world" where
  "apiFetch_settled sent out w = (case out of
       Responded r \<Rightarrow> if (rs_status r = 401 \<or> rs_status r = 403) \<and> sent \<noteq> None then page_clearWebToken w else w
     | Rejected name message \<Rightarrow> w)"

section \<open>useAuth\<close>

definition initial_auth :: "string option \<Rightarrow> auth" where
  "initial_auth t = \<lparr>au_token = js_token t, au_phase = (if js_truthy (js_token t) then Authed else Loading), au_error = None,
     au_requests = {}, au_aborted = {}, au_inflight = [], au_waits = [], au_returned = [], au_next = 0,
     au_effectToken = None\<rparr>"

text \<open>The device name is trimmed and an empty one is left out.\<close>

definition device :: "string option \<Rightarrow> string option" where
  "device name = (case name of Some n \<Rightarrow> if trim n = [] then None else Some (trim n) | None \<Rightarrow> None)"

fun call_path :: "api_call \<Rightarrow> string" where
  "call_path Call_status = ''/api/auth/status''"
| "call_path (Call_login p d) = ''/api/auth/login''"
| "call_path (Call_setPassword p d) = ''/api/auth/set-password''"
| "call_path Call_logout = ''/api/auth/logout''"

fun call_credentials :: "api_call \<Rightarrow> (string \<times> string option) option" where
  "call_credentials (Call_login p d) = Some (p, device d)"
| "call_credentials (Call_setPassword p d) = Some (p, device d)"
| "call_credentials _ = None"

definition fetchWithAbort :: "api_call \<Rightarrow> world \<Rightarrow> world" where
  "fetchWithAbort c w = upd_auth (\<lambda>a. a\<lparr>au_requests := insert (au_next a) (au_requests a),
       au_inflight := (au_next a, c, bearer w) # au_inflight a, au_next := Suc (au_next a)\<rparr>)
     (apiFetch (call_path c) (c \<noteq> Call_status) (call_credentials c) w)"

definition probeStatus :: "world \<Rightarrow> world" where
  "probeStatus w = fetchWithAbort Call_status w"

definition login :: "string \<Rightarrow> string option \<Rightarrow> world \<Rightarrow> world" where
  "login password deviceName w = fetchWithAbort (Call_login password deviceName) (upd_auth (\<lambda>a. a\<lparr>au_error := None\<rparr>) w)"

definition setPassword :: "string \<Rightarrow> string option \<Rightarrow> world \<Rightarrow> world" where
  "setPassword password deviceName w =
     fetchWithAbort (Call_setPassword password deviceName) (upd_auth (\<lambda>a. a\<lparr>au_error := None\<rparr>) w)"

definition logout :: "world \<Rightarrow> world" where
  "logout w = fetchWithAbort Call_logout w"

definition completeEnrollGate :: "world \<Rightarrow> world" where
  "completeEnrollGate w = upd_auth (\<lambda>a. a\<lparr>au_phase := (if au_phase a = Authed_pending_enroll then Authed else au_phase a)\<rparr>) w"

definition clearError :: "world \<Rightarrow> world" where
  "clearError w = upd_auth (\<lambda>a. a\<lparr>au_error := None\<rparr>) w"

definition setPhase :: "auth_phase \<Rightarrow> world \<Rightarrow> world" where
  "setPhase p w = upd_auth (\<lambda>a. a\<lparr>au_phase := p\<rparr>) w"

definition returns :: "nat \<Rightarrow> bool \<Rightarrow> world \<Rightarrow> world" where
  "returns i b w = upd_auth (\<lambda>a. a\<lparr>au_returned := (i, b) # au_returned a\<rparr>) w"

definition fails :: "nat \<Rightarrow> auth_error_kind \<Rightarrow> string \<Rightarrow> rat option \<Rightarrow> world \<Rightarrow> world" where
  "fails i kind message retry w =
     returns i False (upd_auth (\<lambda>a. a\<lparr>au_error := Some \<lparr>ae_kind = kind, ae_message = message, ae_retryAfter = retry\<rparr>\<rparr>) w)"

text \<open>The \<open>catch\<close> clause of \<open>login\<close> and \<open>setPassword\<close>.\<close>

definition caught :: "nat \<Rightarrow> string \<Rightarrow> string \<Rightarrow> world \<Rightarrow> world" where
  "caught i name message w =
     (if isAbortError name then returns i False w else fails i Err_network (unreachable message) None w)"

definition status_done :: "outcome \<Rightarrow> world \<Rightarrow> world" where
  "status_done out w = (case out of
       Rejected name message \<Rightarrow> if isAbortError name then w else setPhase Unauthed w
     | Responded r \<Rightarrow>
         if \<not> rs_ok r then setPhase Unauthed w
         else (case rs_json r of
             None \<Rightarrow> setPhase Unauthed w
           | Some body \<Rightarrow> (case js_prop body ''setup_required'' of
                 Inl e \<Rightarrow> setPhase Unauthed w
               | Inr v \<Rightarrow> setPhase (if js_truthy v then Setup else Unauthed) w)))"

text \<open>\<open>body.token\<close> of a 200 answer; reading it may throw.\<close>

definition token_of :: "response \<Rightarrow> js result" where
  "token_of r = (case rs_json r of None \<Rightarrow> Inl bad_json | Some body \<Rightarrow> js_prop body ''token'')"

definition login_done :: "(rat \<Rightarrow> string) \<Rightarrow> nat \<Rightarrow> outcome \<Rightarrow> world \<Rightarrow> world" where
  "login_done num i out w = (case out of
       Rejected name message \<Rightarrow> caught i name message w
     | Responded r \<Rightarrow>
         if rs_status r = 200 then
           (case token_of r of
              Inl e \<Rightarrow> caught i ''TypeError'' e w
            | Inr tok \<Rightarrow> returns i True (upd_auth (\<lambda>a. a\<lparr>au_token := tok, au_phase := Authed, au_error := None\<rparr>)
                (page_setWebToken (js_to_string num tok) w)))
         else if rs_status r = 401 then fails i Err_invalid ''Invalid password.'' None w
         else if rs_status r = 429 then fails i Err_throttled ''Too many attempts.'' (Some (retry_after (rs_retryAfter r))) w
         else fails i Err_server (''Login failed ('' @ show_nat (rs_status r) @ '').'') None w)"

text \<open>\<open>waitForAuthProfile()\<close>: a fresh probe is a request of its own.\<close>

definition wait_profile :: "world \<Rightarrow> wait \<times> world" where
  "wait_profile w =
     (let (r, ps) = waitForAuthProfile (wd_profile w) in
      if ps_next ps = ps_next (wd_profile w) then (r, w)
      else (r, (apiFetch ''/api/auth/profile'' False None w)\<lparr>wd_profile := ps,
                 wd_probeBearer := (wd_probeBearer w)(ps_next (wd_profile w) := bearer w)\<rparr>))"

definition setPassword_done :: "(rat \<Rightarrow> string) \<Rightarrow> nat \<Rightarrow> outcome \<Rightarrow> world \<Rightarrow> world" where
  "setPassword_done num i out w = (case out of
       Rejected name message \<Rightarrow> caught i name message w
     | Responded r \<Rightarrow>
         if rs_status r = 200 then
           (case token_of r of
              Inl e \<Rightarrow> caught i ''TypeError'' e w
            | Inr tok \<Rightarrow>
                (let (wt, w') = wait_profile (upd_auth (\<lambda>a. a\<lparr>au_token := tok\<rparr>) (page_setWebToken (js_to_string num tok) w))
                 in upd_auth (\<lambda>a. a\<lparr>au_waits := au_waits a @ [(i, wt)]\<rparr>) w'))
         else if rs_status r = 400 then
           (case rs_text r of
              None \<Rightarrow> caught i ''TypeError'' ''body could not be read'' w
            | Some text \<Rightarrow> fails i Err_invalid (if text \<noteq> [] then text else ''Password does not meet requirements.'') None w)
         else if rs_status r = 409 then
           fails i Err_conflict (''Password is already set '' @ em_dash @ '' sign in instead.'') None (setPhase Unauthed w)
         else if rs_status r = 429 then fails i Err_throttled ''Too many attempts.'' (Some (retry_after (rs_retryAfter r))) w
         else fails i Err_server (''Set password failed ('' @ show_nat (rs_status r) @ '').'') None w)"

text \<open>The rest of \<open>setPassword\<close>, once the profile it waited for is there.\<close>

definition setPassword_resumed :: "nat \<Rightarrow> snapshot \<Rightarrow> world \<Rightarrow> world" where
  "setPassword_resumed i s w =
     returns i True (setPhase (if sn_canEnroll s then Authed_pending_enroll else Authed)
       (upd_auth (\<lambda>a. a\<lparr>au_waits := removeAll (i, Ready s) (au_waits a)\<rparr>) w))"

definition logout_done :: "outcome \<Rightarrow> world \<Rightarrow> world" where
  "logout_done out w = page_clearWebToken w"

fun call_done :: "(rat \<Rightarrow> string) \<Rightarrow> nat \<Rightarrow> api_call \<Rightarrow> outcome \<Rightarrow> world \<Rightarrow> world" where
  "call_done num i Call_status out w = status_done out w"
| "call_done num i (Call_login p d) out w = login_done num i out w"
| "call_done num i (Call_setPassword p d) out w = setPassword_done num i out w"
| "call_done num i Call_logout out w = logout_done out w"

definition settle :: "(rat \<Rightarrow> string) \<Rightarrow> nat \<Rightarrow> outcome \<Rightarrow> world \<Rightarrow> world" where
  "settle num i out w = (case map_of (au_inflight (wd_auth w)) i of
       None \<Rightarrow> w
     | Some (c, sent) \<Rightarrow> call_done num i c out (upd_auth (\<lambda>a. a\<lparr>au_requests := au_requests a - {i},
           au_inflight := AList.delete i (au_inflight a)\<rparr>) (apiFetch_settled sent out w)))"

text \<open>The effect that probes the status whenever the token changed and is absent.\<close>

definition token_effect :: "world \<Rightarrow> world" where
  "token_effect w =
     (if au_effectToken (wd_auth w) = Some (au_token (wd_auth w)) then w
      else let w' = upd_auth (\<lambda>a. a\<lparr>au_effectToken := Some (au_token a)\<rparr>) w
           in if js_truthy (au_token (wd_auth w)) then w' else probeStatus w')"

definition unmount_auth :: "world \<Rightarrow> world" where
  "unmount_auth w = upd_auth (\<lambda>a. a\<lparr>au_aborted := au_aborted a \<union> au_requests a, au_requests := {}\<rparr>)
     (unsubscribeAuthChange L_useAuth w)"

section \<open>The profile probe on the page\<close>

definition resolve :: "nat \<Rightarrow> snapshot \<Rightarrow> nat \<times> wait \<Rightarrow> nat \<times> wait" where
  "resolve p s e = (if snd e = Await p then (fst e, Ready s) else e)"

definition page_settle_profile :: "nat \<Rightarrow> outcome \<Rightarrow> world \<Rightarrow> world" where
  "page_settle_profile p out w =
     upd_auth (\<lambda>a. a\<lparr>au_waits := map (resolve p (fetchProfile out)) (au_waits a)\<rparr>)
       ((apiFetch_settled (wd_probeBearer w p) out w)\<lparr>wd_profile := settle_profile p out (wd_profile w)\<rparr>)"

definition page_subscribe_profile :: "nat \<Rightarrow> world \<Rightarrow> world" where
  "page_subscribe_profile cb w =
     snd (wait_profile (w\<lparr>wd_profile := (wd_profile w)\<lparr>ps_subscribers := List.insert cb (ps_subscribers (wd_profile w))\<rparr>\<rparr>))"

definition page_unsubscribe_profile :: "nat \<Rightarrow> world \<Rightarrow> world" where
  "page_unsubscribe_profile cb w = w\<lparr>wd_profile := unsubscribe_profile cb (wd_profile w)\<rparr>"

section \<open>The authenticated shell\<close>

text \<open>Mounting the shell runs the hook's effects: dial, then subscribe.\<close>

definition mount_shell :: "world \<Rightarrow> world" where
  "mount_shell w = subscribeAuthChange L_useWisphive (w\<lparr>wd_hook := connect (initial_hook (wd_wsBase w) (page_getWebToken w))\<rparr>)"

definition unmount_shell :: "world \<Rightarrow> world" where
  "unmount_shell w = unsubscribeAuthChange L_useWisphive (w\<lparr>wd_hook := unmount (wd_hook w)\<rparr>)"

definition page_onclose :: "nat \<Rightarrow> nat \<Rightarrow> world \<Rightarrow> world" where
  "page_onclose i code w =
     (if sk_onclose (h_sockets (wd_hook w) ! i) \<and> code \<in> auth_close_codes
      then page_clearWebToken (w\<lparr>wd_hook := setState U_disconnected (set_ready i CLOSED (wd_hook w))\<rparr>)
      else w\<lparr>wd_hook := onclose i code (wd_hook w)\<rparr>)"

definition release_probe :: "nat \<Rightarrow> hook \<Rightarrow> hook" where
  "release_probe p h = (if h_authProbe h = Some p then h\<lparr>h_authProbe := None\<rparr> else h)"

definition page_settle_probe :: "nat \<Rightarrow> nat option \<Rightarrow> world \<Rightarrow> world" where
  "page_settle_probe p status w0 =
     (let w1 = w0\<lparr>wd_hook := (wd_hook w0)\<lparr>h_probes := h_probes (wd_hook w0) - {p}\<rparr>\<rparr>;
          w2 = (if status = Some 401 \<or> status = Some 403 then page_clearWebToken w1 else w1)
      in w2\<lparr>wd_hook := release_probe p (wd_hook w2)\<rparr>)"

text \<open>The events of the hook that do not touch the token.\<close>

fun inner_event :: "event \<Rightarrow> bool" where
  "inner_event Ev_mount = False"
| "inner_event (Ev_close i code) = False"
| "inner_event (Ev_probe p status) = False"
| "inner_event (Ev_setWebToken t) = False"
| "inner_event Ev_clearWebToken = False"
| "inner_event _ = True"

section \<open>Events and runs\<close>

text \<open>
  \<open>We_fetch\<close> is a request of any other call site (the passkey hook, the re-authentication
  dialog, the configuration view) being answered: to the page it is what \<open>apiFetch\<close> does then.
\<close>

datatype page_event =
    We_hook string event
  | We_close nat nat
  | We_probe nat "nat option"
  | We_login string "string option"
  | We_setPassword string "string option"
  | We_logout
  | We_refreshStatus
  | We_completeEnrollGate
  | We_clearError
  | We_effect
  | We_settle nat outcome
  | We_resume nat snapshot
  | We_profile_settle nat outcome
  | We_profile_subscribe nat
  | We_profile_unsubscribe nat
  | We_passkey_login string
  | We_fetch "string option" outcome
  | We_mount_shell
  | We_unmount_shell

fun page_step :: "(rat \<Rightarrow> string) \<Rightarrow> page_event \<Rightarrow> world \<Rightarrow> world" where
  "page_step num (We_hook now e) w = w\<lparr>wd_hook := step now e (wd_hook w)\<rparr>"
| "page_step num (We_close i code) w = page_onclose i code w"
| "page_step num (We_probe p status) w = page_settle_probe p status w"
| "page_step num (We_login p d) w = login p d w"
| "page_step num (We_setPassword p d) w = setPassword p d w"
| "page_step num We_logout w = logout w"
| "page_step num We_refreshStatus w = probeStatus w"
| "page_step num We_completeEnrollGate w = completeEnrollGate w"
| "page_step num We_clearError w = clearError w"
| "page_step num We_effect w = token_effect w"
| "page_step num (We_settle i out) w = settle num i out w"
| "page_step num (We_resume i s) w = setPassword_resumed i s w"
| "page_step num (We_profile_settle p out) w = page_settle_profile p out w"
| "page_step num (We_profile_subscribe cb) w = page_subscribe_profile cb w"
| "page_step num (We_profile_unsubscribe cb) w = page_unsubscribe_profile cb w"
| "page_step num (We_passkey_login t) w = page_setWebToken t w"
| "page_step num (We_fetch sent out) w = apiFetch_settled sent out w"
| "page_step num We_mount_shell w = mount_shell w"
| "page_step num We_unmount_shell w = unmount_shell w"

definition shell_mounted :: "world \<Rightarrow> bool" where
  "shell_mounted w \<longleftrightarrow> L_useWisphive \<in> set (wd_listeners w)"

fun page_enabled :: "page_event \<Rightarrow> world \<Rightarrow> bool" where
  "page_enabled (We_hook now e) w = (shell_mounted w \<and> inner_event e \<and> enabled e (wd_hook w))"
| "page_enabled (We_close i code) w = (shell_mounted w \<and> enabled (Ev_close i code) (wd_hook w))"
| "page_enabled (We_probe p status) w = (shell_mounted w \<and> enabled (Ev_probe p status) (wd_hook w))"
| "page_enabled (We_settle i out) w = (i \<in> fst ` set (au_inflight (wd_auth w)) \<and>
     (i \<in> au_aborted (wd_auth w) \<longrightarrow> (case out of Rejected name m \<Rightarrow> isAbortError name | _ \<Rightarrow> False)))"
| "page_enabled (We_resume i s) w = ((i, Ready s) \<in> set (au_waits (wd_auth w)))"
| "page_enabled (We_profile_settle p out) w = (p \<in> ps_pending (wd_profile w))"
| "page_enabled (We_passkey_login t) w = (t \<noteq> [])"
| "page_enabled We_mount_shell w = (\<not> shell_mounted w \<and> au_phase (wd_auth w) = Authed)"
| "page_enabled We_unmount_shell w = shell_mounted w"
| "page_enabled _ w = True"

definition initial_world :: "environment \<Rightarrow> string \<Rightarrow> storage \<Rightarrow> world" where
  "initial_world env base sg = \<lparr>wd_env = env, wd_wsBase = base, wd_storage = sg, wd_listeners = [L_useAuth],
     wd_auth = initial_auth (read_token sg), wd_profile = initial_profile, wd_probeBearer = (\<lambda>_. None),
     wd_hook = initial_hook base None, wd_fetches = []\<rparr>"

inductive page_reaches :: "(rat \<Rightarrow> string) \<Rightarrow> environment \<Rightarrow> string \<Rightarrow> storage \<Rightarrow> page_event list \<Rightarrow> world \<Rightarrow> bool"
  for num env base sg where
  start: "page_reaches num env base sg [] (initial_world env base sg)"
| event: "page_reaches num env base sg evs w \<Longrightarrow> page_enabled e w \<Longrightarrow> page_reaches num env base sg (e # evs) (page_step num e w)"

end
