(* ===== verification/Web_Safety.thy ===== *)
theory Web_Safety
  imports Web_Session Wisphive_Properties
begin

text \<open>
  The page as a refinement of the connection hook: whatever logins, logouts, refused tokens
  and probes happen around it, the hook of the mounted shell only ever takes steps of its
  own transition system, so what was proved of its runs holds on the page.
\<close>

section \<open>The hook's own events leave the token and the socket alone\<close>

definition same_token :: "hook \<Rightarrow> hook \<Rightarrow> bool" where
  "same_token h h' \<longleftrightarrow> h_token h' = h_token h \<and> h_wsRef h' = h_wsRef h \<and> h_sockets h' = h_sockets h"

interpretation tokens: step_law same_token
  by unfold_locales (simp_all add: same_token_def)

lemma send_token [simp]: "h_token (fst (send now m q h)) = h_token h"
  by (simp add: send_def emit_def setState_def split: option.split)

lemma connection_token [simp]:
  "h_token (connect h) = h_token h" "h_token (clear_timer h) = h_token h" "h_token (abort_probe h) = h_token h"
  "h_token (drop_socket h) = h_token h" "h_token (set_ready i r h) = h_token h"
  "h_token (start_probe h) = h_token h" "h_token (arm_timer h) = h_token h" "h_token (auth_changed h) = h_token h"
  "h_token (update_state f h) = h_token h" "h_token (emit e h) = h_token h"
  by (simp_all add: connect_def clear_timer_def abort_probe_def drop_socket_def set_ready_def start_probe_def
      arm_timer_def auth_changed_def update_state_def emit_def Let_def split: option.split)

lemma same_token_replay: "same_token h (replay now que p h)"
  by (simp add: same_token_def replay_def Let_def split: option.split)

lemma same_token_update: "same_token h (run_update now u h)"
proof (cases u)
  case U_retryPendingApprove
  have "same_token g (fold (replay now que) ps g)" for g que ps by (rule tokens.fold_law) (rule same_token_replay)
  with U_retryPendingApprove show ?thesis by (simp add: same_token_def)
next
  case U_dismissReauth
  have "same_token g (fold forget ps g)" for g ps by (rule tokens.fold_law) (simp add: same_token_def forget_def)
  with U_dismissReauth show ?thesis by (simp add: same_token_def)
qed (simp_all add: same_token_def drop_install_def split: server_message.split)

lemma same_token_render: "same_token h (render strict now h)"
proof (rule tokens.render_law)
  show "same_token h (run_update_mode strict now u h)" for u h
    using same_token_update[of h] same_token_update[of "(run_update now u h)\<lparr>h_state := h_state h\<rparr>"]
    by (simp add: same_token_def run_update_mode_def)
qed (simp add: same_token_def)

lemma same_token_receive: "same_token h (receive br now m h)"
proof -
  have "same_token h (note_gate m h)" for m h by (simp add: same_token_def note_gate_def split: server_message.split)
  moreover have "same_token h (notify_decision br m h)" for m h
    by (simp add: same_token_def notify_decision_def split: server_message.split)
  moreover have "same_token h (drop_stash m h)" for m h by (simp add: same_token_def drop_stash_def split: server_message.split)
  moreover have "same_token h (deliver br tid ch d rm h)" for tid ch d rm h
    by (simp add: same_token_def deliver_def split: option.split)
  ultimately show ?thesis by (simp add: same_token_def receive_def Let_def split: server_message.split)
qed

text \<open>Only the timer and the socket's own callbacks touch the connection.\<close>

fun wire_event :: "event \<Rightarrow> bool" where
  "wire_event (Ev_open i) = True"
| "wire_event (Ev_timer t) = True"
| "wire_event _ = False"

lemma inner_event_wire: "inner_event e \<Longrightarrow> \<not> wire_event e \<Longrightarrow> same_token h (step now e h)"
proof (cases e)
  case (Ev_command c)
  obtain m q where "run_command now c h = fst (send now (plain m) q h)" using run_command_send by blast
  with Ev_command show ?thesis by (simp add: same_token_def)
next
  case (Ev_render strict)
  then show ?thesis using same_token_render[of h] by simp
next
  case (Ev_message br d)
  then show ?thesis using same_token_receive by (simp add: handleMessage_def same_token_def split: sum.split)
qed (simp_all add: same_token_def approve_def installHooks_def spawnAgent_def run_effects_def clearSpawnStatus_def dismissError_def
    dismissReauth_def retryPendingApprove_def registerTerminalHandler_def unregisterTerminalHandler_def
    Let_def split_beta split: option.split)

lemma inner_event_token: "inner_event e \<Longrightarrow> h_token (step now e h) = h_token h"
  using inner_event_wire[of e h now] by (cases e) (auto simp: same_token_def onopen_def fire_timer_def)

text \<open>Without a token nothing dials.\<close>

definition offline :: "hook \<Rightarrow> bool" where
  "offline h \<longleftrightarrow> h_token h = None \<and> h_wsRef h = None"

lemma offline_connect: "offline h \<Longrightarrow> offline (connect h) \<and> h_sockets (connect h) = h_sockets h"
  by (simp add: offline_def connect_def getWebToken_def)

lemma offline_changed:
  "h_token h = None \<Longrightarrow> offline (auth_changed h) \<and> length (h_sockets (auth_changed h)) = length (h_sockets h)"
  by (simp add: offline_def auth_changed_def has_token_def getWebToken_def drop_socket_def abort_probe_def clear_timer_def
      split: option.split)

lemma offline_inner:
  assumes "offline h" "inner_event e"
  shows "offline (step now e h) \<and> length (h_sockets (step now e h)) = length (h_sockets h)"
proof (cases "wire_event e")
  case True
  have "offline (h\<lparr>h_timers := ts\<rparr>)" for ts using assms(1) by (simp add: offline_def)
  from this[THEN offline_connect] True assms(1) show ?thesis
    by (cases e) (auto simp: fire_timer_def onopen_def set_ready_def offline_def)
next
  case False
  with inner_event_wire[OF assms(2), of h now] assms(1) show ?thesis by (simp add: same_token_def offline_def)
qed

lemma offline_close:
  assumes "offline h" shows "offline (onclose i code h) \<and> length (h_sockets (onclose i code h)) = length (h_sockets h)"
proof -
  have "h_token h = None" using assms by (simp add: offline_def)
  then show ?thesis
    using offline_changed[of "(setState U_disconnected (set_ready i CLOSED h))\<lparr>h_token := None\<rparr>"] assms
    by (auto simp: onclose_def Let_def clearWebToken_def arm_timer_def set_ready_def offline_def has_token_def getWebToken_def)
qed

section \<open>What the shell sees of a page step\<close>

text \<open>The fields the simulation speaks of; operations of \<open>useAuth\<close> alone leave them.\<close>

definition shell_view :: "world \<Rightarrow> hook \<times> storage \<times> listener list \<times> string" where
  "shell_view w = (wd_hook w, wd_storage w, wd_listeners w, wd_wsBase w)"

lemma shell_view_fields:
  "shell_view w = shell_view w' \<Longrightarrow> wd_hook w = wd_hook w' \<and> wd_storage w = wd_storage w' \<and>
     wd_listeners w = wd_listeners w' \<and> wd_wsBase w = wd_wsBase w'"
  by (simp add: shell_view_def)

lemma shell_view_upd [simp]:
  "shell_view (w\<lparr>wd_auth := a\<rparr>) = shell_view w"
  "shell_view (w\<lparr>wd_profile := ps\<rparr>) = shell_view w"
  "shell_view (w\<lparr>wd_probeBearer := b\<rparr>) = shell_view w"
  "shell_view (w\<lparr>wd_fetches := f\<rparr>) = shell_view w"
  by (simp_all add: shell_view_def)

lemma shell_view_auth [simp]:
  "shell_view (auth_listener w) = shell_view w" "shell_view (apiFetch path post cr w) = shell_view w"
  "shell_view (fetchWithAbort c w) = shell_view w" "shell_view (setPhase p w) = shell_view w"
  "shell_view (returns i b w) = shell_view w" "shell_view (fails i k m r w) = shell_view w"
  "shell_view (caught i n m w) = shell_view w" "shell_view (status_done out w) = shell_view w"
  "shell_view (snd (wait_profile w)) = shell_view w" "shell_view (setPassword_resumed i s w) = shell_view w"
  by (simp_all add: auth_listener_def apiFetch_def fetchWithAbort_def setPhase_def returns_def fails_def caught_def
      status_done_def wait_profile_def setPassword_resumed_def split_beta Let_def
      split: outcome.split option.split sum.split)

text \<open>Running the listeners: the shell sees one change of the token, if it is subscribed.\<close>

lemma run_listeners_view:
  "distinct ls \<Longrightarrow> shell_view (fold run_listener ls w) =
     (if L_useWisphive \<in> set ls then auth_changed ((wd_hook w)\<lparr>h_token := page_getWebToken w\<rparr>) else wd_hook w,
      wd_storage w, wd_listeners w, wd_wsBase w)"
proof (induction ls arbitrary: w)
  case (Cons l ls)
  show ?case
  proof (cases l)
    case L_useAuth
    from shell_view_fields[OF shell_view_auth(1)[of w]] Cons L_useAuth show ?thesis by (simp add: page_getWebToken_def)
  next
    case L_useWisphive
    with Cons show ?thesis by (simp add: hook_listener_def)
  qed
qed (simp add: shell_view_def)

text \<open>The events of the mounted shell's hook among those of the page, the last one first.\<close>

fun hook_part :: "page_event list \<Rightarrow> event list" where
  "hook_part [] = []"
| "hook_part (We_hook now e # es) = e # hook_part es"
| "hook_part (_ # es) = hook_part es"

lemma hook_part_mem: "e \<in> set (hook_part evs) \<longleftrightarrow> (\<exists>now. We_hook now e \<in> set evs)"
  by (induction evs rule: hook_part.induct) auto

text \<open>
  The hook of the mounted shell has taken a run of its own whose inner events are the page's
  own events for it since the shell was mounted, in their order.
\<close>

definition page_inv :: "string \<Rightarrow> page_event list \<Rightarrow> world \<Rightarrow> bool" where
  "page_inv base evs w \<longleftrightarrow> storage_works (wd_storage w) \<and> distinct (wd_listeners w) \<and> wd_wsBase w = base \<and>
     (shell_mounted w \<longrightarrow> h_token (wd_hook w) = sg_token (wd_storage w) \<and>
        (\<exists>tok hevs rest. reaches base tok hevs (wd_hook w) \<and> hook_part evs = filter inner_event hevs @ rest))"

lemma page_inv_view: "shell_view w = shell_view w' \<Longrightarrow> page_inv base evs w = page_inv base evs w'"
  using shell_view_fields[of w w'] by (simp add: page_inv_def shell_mounted_def)

lemma reaches_step:
  assumes "\<exists>tok hevs rest. reaches base tok hevs h \<and> hook_part evs = filter inner_event hevs @ rest" "enabled e h"
  shows "\<exists>tok hevs rest. reaches base tok hevs (step now e h) \<and>
    hook_part (if inner_event e then We_hook now e # evs else evs) = filter inner_event hevs @ rest"
proof -
  from assms obtain tok hevs rest where run: "reaches base tok hevs h" "hook_part evs = filter inner_event hevs @ rest" by blast
  have "reaches base tok (e # hevs) (step now e h)" using run(1) assms(2) by (rule reaches.event)
  moreover have "hook_part (if inner_event e then We_hook now e # evs else evs) = filter inner_event (e # hevs) @ rest"
    using run(2) by simp
  ultimately show ?thesis by blast
qed

lemma shell_view_set:
  assumes "distinct (wd_listeners w)" "storage_works (wd_storage w)"
  shows "shell_view (page_setWebToken t w) =
    (if shell_mounted w then setWebToken t (wd_hook w) else wd_hook w,
     (wd_storage w)\<lparr>sg_token := Some t\<rparr>, wd_listeners w, wd_wsBase w)"
  using assms
  by (simp add: page_setWebToken_def notifyAuthChange_def run_listeners_view shell_mounted_def page_getWebToken_def setWebToken_def)

lemma shell_view_clear:
  assumes "distinct (wd_listeners w)" "storage_works (wd_storage w)"
  shows "shell_view (page_clearWebToken w) =
    (if shell_mounted w then clearWebToken (wd_hook w) else wd_hook w,
     (wd_storage w)\<lparr>sg_token := None\<rparr>, wd_listeners w, wd_wsBase w)"
  using assms
  by (simp add: page_clearWebToken_def notifyAuthChange_def run_listeners_view shell_mounted_def page_getWebToken_def clearWebToken_def)

lemma token_after [simp]: "h_token (setWebToken t h) = Some t" "h_token (clearWebToken h) = None"
  by (simp_all add: setWebToken_def clearWebToken_def)

lemma page_inv_set: assumes "page_inv base evs w" shows "page_inv base evs (page_setWebToken t w)"
proof -
  have "shell_view (page_setWebToken t w) = (if shell_mounted w then step [] (Ev_setWebToken t) (wd_hook w) else wd_hook w,
     (wd_storage w)\<lparr>sg_token := Some t\<rparr>, wd_listeners w, wd_wsBase w)"
    using assms shell_view_set by (simp add: page_inv_def)
  then have f: "wd_hook (page_setWebToken t w) = (if shell_mounted w then step [] (Ev_setWebToken t) (wd_hook w) else wd_hook w)"
    "wd_storage (page_setWebToken t w) = (wd_storage w)\<lparr>sg_token := Some t\<rparr>"
    "wd_listeners (page_setWebToken t w) = wd_listeners w" "wd_wsBase (page_setWebToken t w) = wd_wsBase w"
    by (simp_all add: shell_view_def)
  with assms reaches_step[of base "wd_hook w" evs "Ev_setWebToken t" "[]"] show ?thesis
    by (auto simp: page_inv_def shell_mounted_def)
qed

lemma page_inv_clear: assumes "page_inv base evs w" shows "page_inv base evs (page_clearWebToken w)"
proof -
  have "shell_view (page_clearWebToken w) = (if shell_mounted w then step [] Ev_clearWebToken (wd_hook w) else wd_hook w,
     (wd_storage w)\<lparr>sg_token := None\<rparr>, wd_listeners w, wd_wsBase w)"
    using assms shell_view_clear by (simp add: page_inv_def)
  then have f: "wd_hook (page_clearWebToken w) = (if shell_mounted w then step [] Ev_clearWebToken (wd_hook w) else wd_hook w)"
    "wd_storage (page_clearWebToken w) = (wd_storage w)\<lparr>sg_token := None\<rparr>"
    "wd_listeners (page_clearWebToken w) = wd_listeners w" "wd_wsBase (page_clearWebToken w) = wd_wsBase w"
    by (simp_all add: shell_view_def)
  with assms reaches_step[of base "wd_hook w" evs Ev_clearWebToken "[]"] show ?thesis
    by (auto simp: page_inv_def shell_mounted_def)
qed

lemma page_inv_apiFetch: "page_inv base evs w \<Longrightarrow> page_inv base evs (apiFetch_settled sent out w)"
  by (simp add: apiFetch_settled_def page_inv_clear split: outcome.split)

lemma page_inv_done: "page_inv base evs w \<Longrightarrow> page_inv base evs (call_done num i c out w)"
proof -
  assume w: "page_inv base evs w"
  have login: "page_inv base evs (login_done num i out w)"
    using w page_inv_set[OF w]
    by (auto simp: login_done_def page_inv_view[OF shell_view_auth(5)] page_inv_view[OF shell_view_auth(6)]
        page_inv_view[OF shell_view_auth(7)] page_inv_view[OF shell_view_upd(1)] split: outcome.split sum.split)
  have waited: "page_inv base evs (upd_auth f (snd (wait_profile (upd_auth g v))))" if "page_inv base evs v" for f g v
    using that by (simp add: page_inv_view[OF shell_view_auth(9)] page_inv_view[OF shell_view_upd(1)])
  have "page_inv base evs (setPassword_done num i out w)"
    using w waited[OF page_inv_set[OF w]]
    by (auto simp: setPassword_done_def split_beta page_inv_view[OF shell_view_auth(4)] page_inv_view[OF shell_view_auth(6)]
        page_inv_view[OF shell_view_auth(7)] split: outcome.split sum.split option.split)
  with w login show ?thesis
    by (cases c) (simp_all add: page_inv_view[OF shell_view_auth(8)] logout_done_def page_inv_clear)
qed

lemma page_inv_hook_event:
  assumes "page_inv base evs w" "shell_mounted w" "inner_event e" "enabled e (wd_hook w)"
  shows "page_inv base (We_hook now e # evs) (w\<lparr>wd_hook := step now e (wd_hook w)\<rparr>)"
  using assms reaches_step[of base "wd_hook w" evs e now] by (auto simp: page_inv_def shell_mounted_def inner_event_token)

text \<open>A close and a settled probe on the page are the hook's own, plus what \<open>useAuth\<close> does.\<close>

lemma page_onclose_hook:
  assumes "page_inv base evs w" "shell_mounted w"
  shows "wd_hook (page_onclose i code w) = onclose i code (wd_hook w) \<and>
    wd_storage (page_onclose i code w) = (wd_storage w)\<lparr>sg_token := h_token (onclose i code (wd_hook w))\<rparr> \<and>
    wd_listeners (page_onclose i code w) = wd_listeners w \<and> wd_wsBase (page_onclose i code w) = wd_wsBase w"
proof -
  let ?w = "w\<lparr>wd_hook := setState U_disconnected (set_ready i CLOSED (wd_hook w))\<rparr>"
  have tok: "h_token (wd_hook w) = sg_token (wd_storage w)" using assms by (simp add: page_inv_def)
  have view: "shell_view (page_clearWebToken ?w) = (clearWebToken (wd_hook ?w), (wd_storage w)\<lparr>sg_token := None\<rparr>, wd_listeners w, wd_wsBase w)"
    using shell_view_clear[of ?w] assms by (simp add: page_inv_def shell_mounted_def)
  have other: "h_token (onclose i code h) = h_token h" if "\<not> (sk_onclose (h_sockets h ! i) \<and> code \<in> auth_close_codes)" for h
    using that by (auto simp: onclose_def Let_def)
  show ?thesis
  proof (cases "sk_onclose (h_sockets (wd_hook w) ! i) \<and> code \<in> auth_close_codes")
    case True
    with view show ?thesis by (simp add: page_onclose_def onclose_def Let_def shell_view_def)
  next
    case False
    with other[OF False] tok show ?thesis by (auto simp: page_onclose_def)
  qed
qed

lemma page_settle_probe_hook:
  assumes "page_inv base evs w" "shell_mounted w"
  shows "wd_hook (page_settle_probe p st w) = settle_probe p st (wd_hook w) \<and>
    wd_storage (page_settle_probe p st w) = (wd_storage w)\<lparr>sg_token := h_token (settle_probe p st (wd_hook w))\<rparr> \<and>
    wd_listeners (page_settle_probe p st w) = wd_listeners w \<and> wd_wsBase (page_settle_probe p st w) = wd_wsBase w"
proof -
  let ?w = "w\<lparr>wd_hook := (wd_hook w)\<lparr>h_probes := h_probes (wd_hook w) - {p}\<rparr>\<rparr>"
  have tok: "h_token (wd_hook w) = sg_token (wd_storage w)" using assms by (simp add: page_inv_def)
  have view: "shell_view (page_clearWebToken ?w) = (clearWebToken (wd_hook ?w), (wd_storage w)\<lparr>sg_token := None\<rparr>, wd_listeners w, wd_wsBase w)"
    using shell_view_clear[of ?w] assms by (simp add: page_inv_def shell_mounted_def)
  show ?thesis
  proof (cases "st = Some 401 \<or> st = Some 403")
    case True
    with view show ?thesis by (simp add: page_settle_probe_def settle_probe_def release_probe_def Let_def shell_view_def)
  next
    case False
    with tok show ?thesis by (simp add: page_settle_probe_def settle_probe_def release_probe_def Let_def)
  qed
qed

lemma page_inv_shell_step:
  assumes "page_inv base evs w" "shell_mounted w" "enabled e (wd_hook w)" "\<not> inner_event e"
    and "wd_hook w' = step now e (wd_hook w) \<and> wd_storage w' = (wd_storage w)\<lparr>sg_token := h_token (step now e (wd_hook w))\<rparr> \<and>
      wd_listeners w' = wd_listeners w \<and> wd_wsBase w' = wd_wsBase w"
  shows "page_inv base evs w'"
  using assms reaches_step[of base "wd_hook w" evs e now] by (auto simp: page_inv_def shell_mounted_def)

lemma page_inv_mount:
  assumes "page_inv base evs w" "\<not> shell_mounted w"
  shows "page_inv base evs (mount_shell w)"
proof -
  let ?tok = "sg_token (wd_storage w)"
  have "reaches base ?tok [Ev_mount] (step [] Ev_mount (initial_hook base ?tok))"
    by (rule reaches.event[OF reaches.start]) simp
  moreover have "h_token (initial_hook base ?tok) = ?tok" by (simp add: initial_hook_def)
  moreover have "hook_part evs = filter inner_event [Ev_mount] @ hook_part evs" by simp
  ultimately have "\<exists>tok hevs rest. reaches base tok hevs (connect (initial_hook base ?tok)) \<and> hook_part evs = filter inner_event hevs @ rest"
    "h_token (initial_hook base ?tok) = ?tok" by (metis step.simps(1))+
  then show ?thesis
    using assms by (auto simp: page_inv_def mount_shell_def subscribeAuthChange_def shell_mounted_def page_getWebToken_def)
qed

lemma page_inv_quiet:
  assumes "page_inv base evs w" "page_enabled e w" "hook_part [e] = []"
  shows "page_inv base evs (page_step num e w)"
proof (cases e)
  case (We_hook now ev)
  with assms(3) show ?thesis by simp
next
  case (We_close i code)
  with assms have "shell_mounted w" "enabled (Ev_close i code) (wd_hook w)" by simp_all
  with page_onclose_hook[OF assms(1), of i code] We_close show ?thesis
    by (auto intro: page_inv_shell_step[OF assms(1), of "Ev_close i code" _ "[]"])
next
  case (We_probe p st)
  with assms have "shell_mounted w" "enabled (Ev_probe p st) (wd_hook w)" by simp_all
  with page_settle_probe_hook[OF assms(1), of p st] We_probe show ?thesis
    by (auto intro: page_inv_shell_step[OF assms(1), of "Ev_probe p st" _ "[]"])
next
  case (We_settle i out)
  have "page_inv base evs (settle num i out w)"
    using assms(1) by (auto simp: settle_def page_inv_apiFetch page_inv_view[OF shell_view_upd(1)]
      split: option.split intro!: page_inv_done)
  with We_settle show ?thesis by simp
next
  case (We_profile_settle p out)
  with page_inv_apiFetch[OF assms(1)] show ?thesis
    by (simp add: page_settle_profile_def page_inv_view[OF shell_view_upd(1)] page_inv_view[OF shell_view_upd(2)])
next
  case (We_fetch sent out)
  with page_inv_apiFetch[OF assms(1)] show ?thesis by simp
next
  case We_unmount_shell
  with assms show ?thesis by (auto simp: unmount_shell_def unsubscribeAuthChange_def page_inv_def shell_mounted_def distinct_removeAll)
next
  case We_mount_shell
  with assms show ?thesis by (simp add: page_inv_mount)
next
  case (We_passkey_login t)
  with page_inv_set[OF assms(1)] show ?thesis by simp
qed (use assms(1) in \<open>simp_all add: login_def setPassword_def logout_def probeStatus_def completeEnrollGate_def clearError_def
    token_effect_def page_subscribe_profile_def page_unsubscribe_profile_def Let_def page_inv_view[OF shell_view_auth(3)]
    page_inv_view[OF shell_view_auth(9)] page_inv_view[OF shell_view_auth(10)] page_inv_view[OF shell_view_upd(1)]
    page_inv_view[OF shell_view_upd(2)]\<close>)

lemma page_inv_step:
  assumes "page_inv base evs w" "page_enabled e w"
  shows "page_inv base (e # evs) (page_step num e w)"
proof (cases "hook_part [e] = []")
  case True
  then have "hook_part (e # evs) = hook_part evs" by (cases e) simp_all
  with page_inv_quiet[OF assms True] show ?thesis by (simp add: page_inv_def)
next
  case False
  then obtain now ev where "e = We_hook now ev" by (cases e) simp_all
  with assms page_inv_hook_event show ?thesis by simp
qed

lemma page_reaches_inv:
  assumes "page_reaches num env base sg evs w" "storage_works sg"
  shows "page_inv base evs w"
  using assms
proof (induction rule: page_reaches.induct)
  case start
  then show ?case by (simp add: page_inv_def initial_world_def shell_mounted_def)
qed (auto intro: page_inv_step)

end
