(* ===== verification/Web_Properties.thy ===== *)
theory Web_Properties
  imports Web_Safety
begin

text \<open>
  The promises of the login flow (\<open>useAuth\<close> with \<open>api.ts\<close>): who is let in, what ends a
  session, and exactly which answers make the phase that gates the shell disagree with the
  stored token.
\<close>

section \<open>What the listeners do to the login state\<close>

lemma run_listeners_auth:
  "distinct ls \<Longrightarrow> wd_auth (fold run_listener ls w) = (if L_useAuth \<in> set ls then wd_auth (auth_listener w) else wd_auth w)"
proof (induction ls arbitrary: w)
  case (Cons l ls)
  show ?case
  proof (cases l)
    case L_useAuth
    with Cons show ?thesis by simp
  next
    case L_useWisphive
    have "wd_auth (auth_listener (hook_listener w)) = wd_auth (auth_listener w)"
      by (simp add: auth_listener_def hook_listener_def bearer_def page_getWebToken_def)
    with Cons L_useWisphive show ?thesis by (simp add: hook_listener_def)
  qed
qed simp

text \<open>The page with a working store and \<open>useAuth\<close> mounted.\<close>

definition auth_mounted :: "world \<Rightarrow> bool" where
  "auth_mounted w \<longleftrightarrow> storage_works (wd_storage w) \<and> distinct (wd_listeners w) \<and> L_useAuth \<in> set (wd_listeners w)"

lemma auth_mounted_view: "shell_view w = shell_view w' \<Longrightarrow> auth_mounted w = auth_mounted w'"
  using shell_view_fields[of w w'] by (simp add: auth_mounted_def)

lemma bearer_view: "shell_view w = shell_view w' \<Longrightarrow> bearer w = bearer w'"
  using shell_view_fields[of w w'] by (simp add: bearer_def page_getWebToken_def)

lemma page_set_auth:
  assumes "auth_mounted w" "t \<noteq> []"
  shows "wd_auth (page_setWebToken t w) = (wd_auth w)\<lparr>au_token := Some (JStr t), au_phase := Authed, au_error := None\<rparr>"
    and "page_getWebToken (page_setWebToken t w) = Some t" and "auth_mounted (page_setWebToken t w)"
  using assms shell_view_set[of w t]
  by (simp_all add: auth_mounted_def page_setWebToken_def notifyAuthChange_def run_listeners_auth auth_listener_def
      bearer_def page_getWebToken_def js_token_def shell_view_def)

lemma page_clear_auth:
  assumes "auth_mounted w"
  shows "wd_auth (page_clearWebToken w) = (wd_auth w)\<lparr>au_token := Some JNull,
      au_phase := (if au_phase (wd_auth w) = Setup then Setup else Unauthed)\<rparr>"
    and "page_getWebToken (page_clearWebToken w) = None" and "auth_mounted (page_clearWebToken w)"
  using assms shell_view_clear[of w]
  by (simp_all add: auth_mounted_def page_clearWebToken_def notifyAuthChange_def run_listeners_auth auth_listener_def
      bearer_def page_getWebToken_def js_token_def shell_view_def)

lemma bearer_iff: "auth_mounted w \<Longrightarrow> bearer w = (if sg_token (wd_storage w) = Some [] then None else sg_token (wd_storage w))"
  by (simp add: auth_mounted_def bearer_def page_getWebToken_def split: option.split)

definition locked_out :: "world \<Rightarrow> bool" where
  "locked_out w \<longleftrightarrow> page_getWebToken w = None \<and> au_phase (wd_auth w) \<in> {Setup, Unauthed}"

lemma locked_out_clear: "auth_mounted w \<Longrightarrow> locked_out (page_clearWebToken w)"
  by (simp add: locked_out_def page_clear_auth)

lemma locked_out_frame:
  assumes "shell_view w' = shell_view w" "au_phase (wd_auth w') = au_phase (wd_auth w)"
  shows "locked_out w' = locked_out w"
  using assms shell_view_fields[OF assms(1)] by (simp add: locked_out_def page_getWebToken_def)

lemma locked_out_auth [simp]:
  "locked_out (returns i b w) = locked_out w" "locked_out (fails i k m r w) = locked_out w"
  "locked_out (caught i n m w) = locked_out w"
  by (simp_all add: locked_out_def page_getWebToken_def returns_def fails_def caught_def)

lemma locked_out_phase: "locked_out w \<Longrightarrow> p \<in> {Setup, Unauthed} \<Longrightarrow> locked_out (setPhase p w)"
  by (simp add: locked_out_def setPhase_def page_getWebToken_def)

lemma locked_out_status: "locked_out w \<Longrightarrow> locked_out (status_done out w)"
  by (auto simp: status_done_def locked_out_phase split: outcome.split option.split sum.split)

lemma locked_out_upd: "locked_out w \<Longrightarrow> (\<And>a. au_phase (f a) = au_phase a) \<Longrightarrow> locked_out (upd_auth f w)"
  by (simp add: locked_out_def page_getWebToken_def)

section \<open>What ends a session\<close>

lemma cleared_shell:
  assumes "auth_mounted w"
  shows "shell_mounted w \<longrightarrow> h_wsRef (wd_hook (page_clearWebToken w)) = None \<and> h_token (wd_hook (page_clearWebToken w)) = None"
proof -
  have "h_wsRef (clearWebToken h) = None \<and> h_token (clearWebToken h) = None" for h
    by (simp add: clearWebToken_def auth_changed_def has_token_def getWebToken_def drop_socket_def abort_probe_def
        clear_timer_def split: option.split)
  then show ?thesis using shell_view_clear[of w] assms by (auto simp: auth_mounted_def shell_view_def)
qed

lemma auth_mounted_hook [simp]: "auth_mounted (w\<lparr>wd_hook := h\<rparr>) = auth_mounted w"
  by (simp add: auth_mounted_def)

lemma auth_mounted_set: "auth_mounted w \<Longrightarrow> auth_mounted (page_setWebToken t w)"
  using shell_view_set[of w t] by (simp add: auth_mounted_def shell_view_def)

lemma auth_mounted_fetch: "auth_mounted w \<Longrightarrow> auth_mounted (apiFetch_settled sent out w)"
  by (simp add: apiFetch_settled_def page_clear_auth(3) split: outcome.split)

lemma auth_mounted_done:
  assumes "auth_mounted w"
  shows "auth_mounted (call_done num i c out w)"
proof -
  note set = auth_mounted_set[OF assms]
  have waited: "auth_mounted (upd_auth f (snd (wait_profile (upd_auth g v))))" if "auth_mounted v" for f g v
    using that by (simp add: auth_mounted_view[OF shell_view_auth(9)] auth_mounted_view[OF shell_view_upd(1)])
  show ?thesis
    using assms set waited[OF set]
    by (cases c) (auto simp: login_done_def setPassword_done_def logout_done_def split_beta page_clear_auth(3)
      auth_mounted_view[OF shell_view_auth(4)] auth_mounted_view[OF shell_view_auth(5)]
      auth_mounted_view[OF shell_view_auth(6)] auth_mounted_view[OF shell_view_auth(7)]
      auth_mounted_view[OF shell_view_auth(8)] auth_mounted_view[OF shell_view_upd(1)]
      split: outcome.split sum.split option.split)
qed

lemma auth_mounted_step:
  assumes "auth_mounted w" "page_enabled e w"
  shows "auth_mounted (page_step num e w)"
proof (cases e)
  case (We_settle i out)
  with assms show ?thesis
    by (auto simp: settle_def auth_mounted_fetch auth_mounted_view[OF shell_view_upd(1)] split: option.split intro!: auth_mounted_done)
next
  case We_mount_shell
  with assms show ?thesis by (auto simp: mount_shell_def subscribeAuthChange_def auth_mounted_def)
next
  case We_unmount_shell
  with assms show ?thesis by (auto simp: unmount_shell_def unsubscribeAuthChange_def auth_mounted_def distinct_removeAll)
qed (use assms in \<open>simp_all add: page_onclose_def page_settle_probe_def page_settle_profile_def completeEnrollGate_def
    auth_mounted_set page_clear_auth(3) auth_mounted_fetch login_def setPassword_def logout_def probeStatus_def clearError_def
    token_effect_def page_subscribe_profile_def page_unsubscribe_profile_def Let_def
    auth_mounted_view[OF shell_view_auth(3)] auth_mounted_view[OF shell_view_auth(9)] auth_mounted_view[OF shell_view_auth(10)]
    auth_mounted_view[OF shell_view_upd(1)] auth_mounted_view[OF shell_view_upd(2)]\<close>)

lemma auth_mounted_reaches: "page_reaches num env base sg evs w \<Longrightarrow> storage_works sg \<Longrightarrow> auth_mounted w"
proof (induction rule: page_reaches.induct)
  case start
  then show ?case by (simp add: auth_mounted_def initial_world_def)
qed (simp add: auth_mounted_step)

text \<open>An answer that refuses the token, and the events that end a session.\<close>

fun refused :: "outcome \<Rightarrow> bool" where
  "refused (Responded r) \<longleftrightarrow> rs_status r = 401 \<or> rs_status r = 403"
| "refused (Rejected name message) \<longleftrightarrow> False"

fun ends_session :: "page_event \<Rightarrow> world \<Rightarrow> bool" where
  "ends_session (We_settle i out) w = (case map_of (au_inflight (wd_auth w)) i of
       Some (c, sent) \<Rightarrow> c = Call_logout \<or> (sent \<noteq> None \<and> refused out) | None \<Rightarrow> False)"
| "ends_session (We_profile_settle p out) w \<longleftrightarrow> wd_probeBearer w p \<noteq> None \<and> refused out"
| "ends_session (We_fetch sent out) w \<longleftrightarrow> sent \<noteq> None \<and> refused out"
| "ends_session (We_probe p status) w \<longleftrightarrow> status = Some 401 \<or> status = Some 403"
| "ends_session (We_close i code) w \<longleftrightarrow> sk_onclose (h_sockets (wd_hook w) ! i) \<and> code \<in> auth_close_codes"
| "ends_session _ w = False"

text \<open>The events that store a token.\<close>

fun signs_in :: "page_event \<Rightarrow> world \<Rightarrow> bool" where
  "signs_in (We_passkey_login t) w = True"
| "signs_in (We_settle i (Responded r)) w = (rs_status r = 200 \<and> (case map_of (au_inflight (wd_auth w)) i of
       Some (Call_login p d, sent) \<Rightarrow> True | Some (Call_setPassword p d, sent) \<Rightarrow> True | _ \<Rightarrow> False))"
| "signs_in _ w = False"

fun stays_out :: "(rat \<Rightarrow> string) \<Rightarrow> page_event list \<Rightarrow> world \<Rightarrow> bool" where
  "stays_out num [] w = True"
| "stays_out num (e # es) w = (page_enabled e w \<and> \<not> signs_in e w \<and> stays_out num es (page_step num e w))"

text \<open>No token, no socket, and at most the \<open>n\<close> sockets that were dialled before.\<close>

definition signed_out :: "nat \<Rightarrow> world \<Rightarrow> bool" where
  "signed_out n w \<longleftrightarrow> auth_mounted w \<and> sg_token (wd_storage w) = None \<and> (shell_mounted w \<longrightarrow> offline (wd_hook w)) \<and>
     length (h_sockets (wd_hook w)) \<le> n"

lemma signed_out_view: "shell_view w = shell_view w' \<Longrightarrow> signed_out n w = signed_out n w'"
  using shell_view_fields[of w w'] auth_mounted_view[of w w'] by (simp add: signed_out_def shell_mounted_def)

lemma signed_out_clear:
  assumes "auth_mounted w" "length (h_sockets (wd_hook w)) \<le> n"
  shows "signed_out n (page_clearWebToken w)"
proof -
  have "shell_view (page_clearWebToken w) = (if shell_mounted w then clearWebToken (wd_hook w) else wd_hook w,
     (wd_storage w)\<lparr>sg_token := None\<rparr>, wd_listeners w, wd_wsBase w)"
    using assms(1) shell_view_clear by (simp add: auth_mounted_def)
  with offline_changed[of "(wd_hook w)\<lparr>h_token := None\<rparr>"] page_clear_auth(3)[OF assms(1)] assms(2) show ?thesis
    by (auto simp: signed_out_def shell_view_def shell_mounted_def clearWebToken_def)
qed

lemma signed_out_fetch: "signed_out n w \<Longrightarrow> signed_out n (apiFetch_settled sent out w)"
  by (auto simp: apiFetch_settled_def signed_out_def[of n w] intro!: signed_out_clear split: outcome.split)

lemma signed_out_settle:
  assumes "signed_out n w" "\<not> signs_in (We_settle i out) w"
  shows "signed_out n (settle num i out w)"
proof (cases "map_of (au_inflight (wd_auth w)) i")
  case (Some cs)
  obtain c sent where cs: "cs = (c, sent)" by (cases cs)
  let ?v = "upd_auth (\<lambda>a. a\<lparr>au_requests := au_requests a - {i}, au_inflight := AList.delete i (au_inflight a)\<rparr>) (apiFetch_settled sent out w)"
  have v: "signed_out n ?v" using signed_out_fetch[OF assms(1)] by (simp add: signed_out_view[OF shell_view_upd(1)])
  then have clear: "signed_out n (page_clearWebToken ?v)" by (intro signed_out_clear) (simp_all add: signed_out_def)
  from assms(2) Some cs have "shell_view (call_done num i c out ?v) = shell_view ?v \<or> call_done num i c out ?v = page_clearWebToken ?v"
    by (cases c; cases out) (auto simp: login_done_def setPassword_done_def logout_done_def split: option.split)
  with v clear signed_out_view[of "call_done num i c out ?v" ?v n] show ?thesis by (auto simp: settle_def Some cs)
qed (use assms(1) in \<open>simp add: settle_def\<close>)

lemma signed_out_step:
  assumes "signed_out n w" "page_enabled e w" "\<not> signs_in e w"
  shows "signed_out n (page_step num e w)"
proof (cases e)
  case (We_hook now ev)
  with assms offline_inner[of "wd_hook w" ev now] show ?thesis by (simp add: signed_out_def shell_mounted_def)
next
  case (We_close i code)
  with assms offline_close[of "wd_hook w" i code] show ?thesis
    by (auto simp: signed_out_def[of n w] page_onclose_def set_ready_def signed_out_def[of n "w\<lparr>wd_hook := h\<rparr>" for h] shell_mounted_def
        intro!: signed_out_clear)
next
  case (We_probe p st)
  let ?w = "w\<lparr>wd_hook := (wd_hook w)\<lparr>h_probes := h_probes (wd_hook w) - {p}\<rparr>\<rparr>"
  have w: "signed_out n ?w" using assms(1) by (simp add: signed_out_def shell_mounted_def offline_def)
  then have "signed_out n (page_clearWebToken ?w)" by (intro signed_out_clear) (simp_all add: signed_out_def)
  with w have "signed_out n (if st = Some 401 \<or> st = Some 403 then page_clearWebToken ?w else ?w)" by simp
  with We_probe show ?thesis
    by (simp add: page_settle_probe_def Let_def release_probe_def signed_out_def shell_mounted_def offline_def)
next
  case (We_settle i out)
  with assms signed_out_settle show ?thesis by simp
next
  case (We_profile_settle p out)
  with signed_out_fetch[OF assms(1)] show ?thesis
    by (simp add: page_settle_profile_def signed_out_view[OF shell_view_upd(1)] signed_out_view[OF shell_view_upd(2)])
next
  case We_mount_shell
  with assms auth_mounted_step[OF _ assms(2), of num] offline_connect[of "initial_hook (wd_wsBase w) None"] show ?thesis
    by (simp add: signed_out_def mount_shell_def subscribeAuthChange_def page_getWebToken_def auth_mounted_def offline_def initial_hook_def)
next
  case We_unmount_shell
  with assms auth_mounted_step[OF _ assms(2), of num] show ?thesis
    by (simp add: signed_out_def unmount_shell_def unsubscribeAuthChange_def shell_mounted_def unmount_def drop_socket_def
        abort_probe_def clear_timer_def split: option.split)
next
  case (We_fetch sent out)
  with signed_out_fetch[OF assms(1)] show ?thesis by simp
qed (use assms in \<open>simp_all add: login_def setPassword_def logout_def probeStatus_def completeEnrollGate_def clearError_def
    token_effect_def page_subscribe_profile_def page_unsubscribe_profile_def Let_def signed_out_view[OF shell_view_auth(3)]
    signed_out_view[OF shell_view_auth(9)] signed_out_view[OF shell_view_auth(10)] signed_out_view[OF shell_view_upd(1)]
    signed_out_view[OF shell_view_upd(2)]\<close>)

lemma signed_out_run: "signed_out n w \<Longrightarrow> stays_out num es w \<Longrightarrow> signed_out n (fold (page_step num) es w)"
  by (induction es arbitrary: w) (auto simp: signed_out_step)

lemma settle_ends:
  assumes "auth_mounted w" "ends_session (We_settle i out) w"
  shows "locked_out (settle num i out w) \<and> signed_out (length (h_sockets (wd_hook (settle num i out w)))) (settle num i out w)"
proof -
  from assms(2) obtain c sent where cs: "map_of (au_inflight (wd_auth w)) i = Some (c, sent)"
    and ends: "c = Call_logout \<or> (sent \<noteq> None \<and> refused out)" by (auto split: option.splits)
  define v where "v = upd_auth (\<lambda>a. a\<lparr>au_requests := au_requests a - {i},
           au_inflight := AList.delete i (au_inflight a)\<rparr>) (apiFetch_settled sent out w)"
  have settle: "settle num i out w = call_done num i c out v" using cs by (simp add: settle_def v_def)
  have mounted: "auth_mounted v" using auth_mounted_fetch[OF assms(1)] by (simp add: v_def auth_mounted_view[OF shell_view_upd(1)])
  show ?thesis
  proof (cases "c = Call_logout")
    case True
    then have "settle num i out w = page_clearWebToken v" using settle by (simp add: logout_done_def)
    with locked_out_clear[OF mounted] signed_out_clear[OF mounted] show ?thesis
      by (auto simp: signed_out_def)
  next
    case False
    with ends obtain r where r: "out = Responded r" "rs_status r = 401 \<or> rs_status r = 403" "sent \<noteq> None" by (cases out) auto
    then have cleared: "apiFetch_settled sent out w = page_clearWebToken w" by (auto simp: apiFetch_settled_def)
    have lock: "locked_out v" unfolding v_def cleared by (rule locked_out_upd[OF locked_out_clear[OF assms(1)]]) simp
    have out: "signed_out (length (h_sockets (wd_hook v))) v"
      using signed_out_clear[OF assms(1) order.refl] by (simp add: v_def cleared signed_out_view[OF shell_view_upd(1)]) (simp add: signed_out_def)
    have same: "shell_view (call_done num i c out v) = shell_view v"
      using r False by (cases c) (auto simp: login_done_def setPassword_done_def)
    have "locked_out (call_done num i c out v)"
      using r False lock by (cases c) (auto simp: login_done_def setPassword_done_def locked_out_status)
    with out show ?thesis using shell_view_fields[OF same] by (simp add: settle signed_out_view[OF same])
  qed
qed

lemma fetch_ends:
  assumes "auth_mounted w" "sent \<noteq> None" "refused out"
  shows "apiFetch_settled sent out w = page_clearWebToken w"
  using assms by (cases out) (auto simp: apiFetch_settled_def)

lemma session_over:
  assumes "auth_mounted w" "page_enabled e w" "ends_session e w"
  shows "locked_out (page_step num e w) \<and> signed_out (length (h_sockets (wd_hook (page_step num e w)))) (page_step num e w)"
proof -
  have clear: "locked_out (page_clearWebToken v) \<and> signed_out (length (h_sockets (wd_hook (page_clearWebToken v)))) (page_clearWebToken v)"
    if "auth_mounted v" for v
    using locked_out_clear[OF that] signed_out_clear[OF that order.refl] by (simp add: signed_out_def)
  show ?thesis
  proof (cases e)
    case (We_settle i out)
    with settle_ends assms show ?thesis by simp
  next
    case (We_close i code)
    with assms clear show ?thesis by (simp add: page_onclose_def)
  next
    case (We_probe p st)
    let ?w = "page_clearWebToken (w\<lparr>wd_hook := (wd_hook w)\<lparr>h_probes := h_probes (wd_hook w) - {p}\<rparr>\<rparr>)"
    have "page_step num e w = ?w\<lparr>wd_hook := release_probe p (wd_hook ?w)\<rparr>"
      using assms(3) We_probe by (auto simp: page_settle_probe_def Let_def)
    with clear[of "w\<lparr>wd_hook := (wd_hook w)\<lparr>h_probes := h_probes (wd_hook w) - {p}\<rparr>\<rparr>"] assms(1) show ?thesis
      by (simp add: signed_out_def locked_out_def release_probe_def shell_mounted_def offline_def page_getWebToken_def)
  next
    case (We_profile_settle p out)
    let ?w = "page_clearWebToken w"
    have "page_step num e w = upd_auth (\<lambda>a. a\<lparr>au_waits := map (resolve p (fetchProfile out)) (au_waits a)\<rparr>)
        (?w\<lparr>wd_profile := settle_profile p out (wd_profile w)\<rparr>)"
      using assms We_profile_settle fetch_ends[OF assms(1)] by (simp add: page_settle_profile_def)
    with clear[OF assms(1)] show ?thesis
      by (simp add: signed_out_view[OF shell_view_upd(1)] signed_out_view[OF shell_view_upd(2)] locked_out_def page_getWebToken_def)
  next
    case (We_fetch sent out)
    with assms fetch_ends[OF assms(1)] clear[OF assms(1)] show ?thesis by simp
  qed (use assms(3) in simp_all)
qed

text \<open>
  C13: With a working store, a session ends for good. On every reachable page these end it: a
  logout that settles, whatever the server answered and even when it is unreachable; a 401 or
  403 to any request that carried the token, be it of \<open>useAuth\<close>, the profile probe, the
  socket's probe or any other caller of \<open>apiFetch\<close>; and a socket closed with an
  authentication code. Then no token is stored, the page asks for a password, and the hook of
  a mounted shell holds no socket. It stays so until a login, a first password or a passkey
  stores a token: whatever else happens before that, timers, late answers and remounts
  included, no token is stored and no further socket is opened.
\<close>

theorem session_ends:
  fixes num e w
  assumes "page_reaches num env base sg evs w" and "storage_works sg" and "page_enabled e w" and "ends_session e w"
  defines "w' \<equiv> page_step num e w"
  shows "locked_out w' \<and> (shell_mounted w' \<longrightarrow> h_wsRef (wd_hook w') = None) \<and>
    (\<forall>es. stays_out num es w' \<longrightarrow> page_getWebToken (fold (page_step num) es w') = None \<and>
       (shell_mounted (fold (page_step num) es w') \<longrightarrow> h_wsRef (wd_hook (fold (page_step num) es w')) = None) \<and>
       length (h_sockets (wd_hook (fold (page_step num) es w'))) \<le> length (h_sockets (wd_hook w')))"
proof -
  note over = session_over[OF auth_mounted_reaches[OF assms(1,2)] assms(3,4), of num, folded w'_def]
  with signed_out_run[of "length (h_sockets (wd_hook w'))" w' num] show ?thesis
    by (auto simp: signed_out_def offline_def page_getWebToken_def auth_mounted_def)
qed

section \<open>Who is let in\<close>

text \<open>The 200 answer of the login endpoints as the server sends it.\<close>

definition grants :: "response \<Rightarrow> string \<Rightarrow> bool" where
  "grants r t \<longleftrightarrow> rs_status r = 200 \<and> token_of r = Inr (Some (JStr t)) \<and> t \<noteq> []"

fun login_verdict :: "outcome \<Rightarrow> auth_error_kind option" where
  "login_verdict (Rejected name message) = (if isAbortError name then None else Some Err_network)"
| "login_verdict (Responded r) = Some (if rs_status r = 401 then Err_invalid
     else if rs_status r = 429 then Err_throttled else Err_server)"

lemma apiFetch_settled_auth:
  assumes "auth_mounted w"
  shows "page_getWebToken (apiFetch_settled sent out w) \<in> {page_getWebToken w, None}"
    and "au_phase (wd_auth (apiFetch_settled sent out w)) = au_phase (wd_auth w) \<or> locked_out (apiFetch_settled sent out w)"
    and "au_error (wd_auth (apiFetch_settled sent out w)) = au_error (wd_auth w)"
    and "au_returned (wd_auth (apiFetch_settled sent out w)) = au_returned (wd_auth w)"
    and "auth_mounted (apiFetch_settled sent out w)"
  using assms by (auto simp: apiFetch_settled_def page_clear_auth locked_out_clear split: outcome.split)

lemma login_parts:
  assumes "auth_mounted w" and "map_of (au_inflight (wd_auth w)) i = Some (Call_login p d, sent)"
    and "au_error (wd_auth w) = None"
  shows "case out of
      Responded r \<Rightarrow> grants r t \<longrightarrow> page_getWebToken (settle num i out w) = Some t \<and>
        au_phase (wd_auth (settle num i out w)) = Authed \<and> au_error (wd_auth (settle num i out w)) = None \<and>
        hd (au_returned (wd_auth (settle num i out w))) = (i, True)
    | Rejected name message \<Rightarrow> True"
    and "(case out of Responded r \<Rightarrow> rs_status r \<noteq> 200 | Rejected name message \<Rightarrow> True) \<Longrightarrow>
      hd (au_returned (wd_auth (settle num i out w))) = (i, False) \<and>
      page_getWebToken (settle num i out w) \<in> {page_getWebToken w, None} \<and>
      (au_phase (wd_auth (settle num i out w)) = au_phase (wd_auth w) \<or> locked_out (settle num i out w)) \<and>
      map_option ae_kind (au_error (wd_auth (settle num i out w))) = login_verdict out \<and>
      (\<forall>e q. au_error (wd_auth (settle num i out w)) = Some e \<and> ae_retryAfter e = Some q \<longrightarrow> 0 < q \<and> q \<le> 3600)"
proof -
  define v where "v = upd_auth (\<lambda>a. a\<lparr>au_requests := au_requests a - {i},
           au_inflight := AList.delete i (au_inflight a)\<rparr>) (apiFetch_settled sent out w)"
  have settle: "settle num i out w = login_done num i out v" using assms(2) by (simp add: settle_def v_def)
  note after = apiFetch_settled_auth[OF assms(1), of sent out]
  have mounted: "auth_mounted v" using after(5) by (simp add: v_def auth_mounted_view[OF shell_view_upd(1)])
  have tok: "page_getWebToken v \<in> {page_getWebToken w, None}" using after(1) by (simp add: v_def page_getWebToken_def)
  have phase: "au_phase (wd_auth v) = au_phase (wd_auth w) \<or> locked_out v"
    using after(2) by (auto simp: v_def locked_out_def page_getWebToken_def)
  have err: "au_error (wd_auth v) = None" using after(3) assms(3) by (simp add: v_def)
  show "case out of
      Responded r \<Rightarrow> grants r t \<longrightarrow> page_getWebToken (settle num i out w) = Some t \<and>
        au_phase (wd_auth (settle num i out w)) = Authed \<and> au_error (wd_auth (settle num i out w)) = None \<and>
        hd (au_returned (wd_auth (settle num i out w))) = (i, True)
    | Rejected name message \<Rightarrow> True"
    using page_set_auth(2)[OF mounted, of t] unfolding settle
    by (auto simp: grants_def login_done_def js_to_string_def returns_def page_getWebToken_def split: outcome.split)
  have frame: "page_getWebToken (fails i k m r v) = page_getWebToken v" "page_getWebToken (returns i b v) = page_getWebToken v"
    "au_phase (wd_auth (fails i k m r v)) = au_phase (wd_auth v)" "au_phase (wd_auth (returns i b v)) = au_phase (wd_auth v)"
    "hd (au_returned (wd_auth (fails i k m r v))) = (i, False)" "hd (au_returned (wd_auth (returns i b v))) = (i, b)"
    "au_error (wd_auth (fails i k m r v)) = Some \<lparr>ae_kind = k, ae_message = m, ae_retryAfter = r\<rparr>"
    "au_error (wd_auth (returns i b v)) = None" for k m r b
    using err by (simp_all add: fails_def returns_def page_getWebToken_def)
  assume "case out of Responded r \<Rightarrow> rs_status r \<noteq> 200 | Rejected name message \<Rightarrow> True"
  then show "hd (au_returned (wd_auth (settle num i out w))) = (i, False) \<and>
      page_getWebToken (settle num i out w) \<in> {page_getWebToken w, None} \<and>
      (au_phase (wd_auth (settle num i out w)) = au_phase (wd_auth w) \<or> locked_out (settle num i out w)) \<and>
      map_option ae_kind (au_error (wd_auth (settle num i out w))) = login_verdict out \<and>
      (\<forall>e q. au_error (wd_auth (settle num i out w)) = Some e \<and> ae_retryAfter e = Some q \<longrightarrow> 0 < q \<and> q \<le> 3600)"
    using tok phase retry_after_bounds unfolding settle
    by (cases out) (auto simp: login_done_def caught_def frame)
qed

text \<open>
  Only a 200 answer lets anyone in: it stores the token it carries, opens the shell and
  clears the error. Any other outcome makes \<open>login\<close> return false, never stores a token,
  leaves the phase (or locks the page when a token it carried was refused) and reports the
  one error that fits: a wrong password, a throttle with a wait between 0 and 3600 seconds,
  a server error or an unreachable daemon; an aborted call reports nothing.
\<close>

theorem login_exact:
  assumes "auth_mounted w" and "map_of (au_inflight (wd_auth w)) i = Some (Call_login p d, sent)"
    and "au_error (wd_auth w) = None"
  shows "(case out of
      Responded r \<Rightarrow> grants r t \<longrightarrow> page_getWebToken (settle num i out w) = Some t \<and>
        au_phase (wd_auth (settle num i out w)) = Authed \<and> au_error (wd_auth (settle num i out w)) = None \<and>
        hd (au_returned (wd_auth (settle num i out w))) = (i, True)
    | Rejected name message \<Rightarrow> True) \<and>
    ((case out of Responded r \<Rightarrow> rs_status r \<noteq> 200 | Rejected name message \<Rightarrow> True) \<longrightarrow>
      hd (au_returned (wd_auth (settle num i out w))) = (i, False) \<and>
      page_getWebToken (settle num i out w) \<in> {page_getWebToken w, None} \<and>
      (au_phase (wd_auth (settle num i out w)) = au_phase (wd_auth w) \<or> locked_out (settle num i out w)) \<and>
      map_option ae_kind (au_error (wd_auth (settle num i out w))) = login_verdict out \<and>
      (\<forall>e q. au_error (wd_auth (settle num i out w)) = Some e \<and> ae_retryAfter e = Some q \<longrightarrow> 0 < q \<and> q \<le> 3600))"
  using login_parts(1)[OF assms, where out = out and num = num and t = t] login_parts(2)[OF assms, where out = out and num = num]
  by blast

section \<open>The gate and the token\<close>

text \<open>The shell is offered, or about to be, exactly when a token is stored.\<close>

definition gate_ok :: "world \<Rightarrow> bool" where
  "gate_ok w \<longleftrightarrow> (au_phase (wd_auth w) \<in> {Authed, Authed_pending_enroll} \<longleftrightarrow> bearer w \<noteq> None)"

text \<open>
  The answers that break a truthful gate: a status probe that settles while a token is stored
  (unless it was aborted, or refused with a token it carried), a 409 to \<open>setPassword\<close> while one is,
  a login whose 200 carries an empty token, and a profile that arrives for \<open>setPassword\<close> after
  the token has gone.
\<close>

fun race :: "(rat \<Rightarrow> string) \<Rightarrow> page_event \<Rightarrow> world \<Rightarrow> bool" where
  "race num (We_settle i out) w = (case map_of (au_inflight (wd_auth w)) i of
       Some (Call_status, sent) \<Rightarrow> bearer w \<noteq> None \<and>
         (case out of Rejected name message \<Rightarrow> \<not> isAbortError name | Responded r \<Rightarrow> sent = None \<or> \<not> refused out)
     | Some (Call_login p d, sent) \<Rightarrow> (case out of
           Responded r \<Rightarrow> rs_status r = 200 \<and> (case token_of r of Inr tok \<Rightarrow> js_to_string num tok = [] | Inl e \<Rightarrow> False)
         | Rejected name message \<Rightarrow> False)
     | Some (Call_setPassword p d, sent) \<Rightarrow> (case out of
           Responded r \<Rightarrow> rs_status r = 409 \<and> bearer w \<noteq> None | Rejected name message \<Rightarrow> False)
     | _ \<Rightarrow> False)"
| "race num (We_resume i s) w \<longleftrightarrow> bearer w = None"
| "race num _ w = False"

lemma gate_frame:
  assumes "shell_view w' = shell_view w" "au_phase (wd_auth w') = au_phase (wd_auth w)"
  shows "gate_ok w' = gate_ok w"
  using assms by (simp add: gate_ok_def bearer_view[OF assms(1)])

lemma gate_clear: "auth_mounted w \<Longrightarrow> gate_ok (page_clearWebToken w)"
  using page_clear_auth[of w] by (simp add: gate_ok_def bearer_def)

lemma bearer_set: "auth_mounted w \<Longrightarrow> bearer (page_setWebToken t w) = (if t = [] then None else Some t)"
  using shell_view_set[of w t] by (simp add: auth_mounted_def bearer_def page_getWebToken_def shell_view_def)

lemma gate_set: "auth_mounted w \<Longrightarrow> gate_ok (page_setWebToken t w)"
proof (cases "t = []")
  case True
  assume w: "auth_mounted w"
  then have "bearer (w\<lparr>wd_storage := write_token [] (wd_storage w)\<rparr>) = None"
    by (simp add: auth_mounted_def bearer_def page_getWebToken_def)
  with w True bearer_set[OF w, of t] show ?thesis
    by (simp add: gate_ok_def) (simp add: auth_mounted_def page_setWebToken_def notifyAuthChange_def run_listeners_auth auth_listener_def)
qed (use page_set_auth[of w t] in \<open>simp add: gate_ok_def bearer_def\<close>)

lemma gate_apiFetch: "auth_mounted w \<Longrightarrow> gate_ok w \<Longrightarrow> gate_ok (apiFetch_settled sent out w)"
  by (auto simp: apiFetch_settled_def gate_clear split: outcome.split)

lemma bearer_settled: "auth_mounted w \<Longrightarrow> bearer w = None \<Longrightarrow> bearer (apiFetch_settled sent out w) = None"
  using page_clear_auth(2)[of w] by (auto simp: apiFetch_settled_def bearer_def split: outcome.split)

lemma gate_auth [simp]:
  "gate_ok (returns i b w) = gate_ok w" "gate_ok (fails i k m r w) = gate_ok w" "gate_ok (caught i n m w) = gate_ok w"
  "gate_ok (apiFetch path post cr w) = gate_ok w" "gate_ok (fetchWithAbort c w) = gate_ok w"
  "gate_ok (snd (wait_profile w)) = gate_ok w"
  by (rule gate_frame; simp add: returns_def fails_def caught_def apiFetch_def fetchWithAbort_def wait_profile_def split_beta Let_def)+

lemma gate_locked: "bearer w = None \<Longrightarrow> p \<notin> {Authed, Authed_pending_enroll} \<Longrightarrow> gate_ok (setPhase p w)"
  by (simp add: gate_ok_def setPhase_def bearer_def page_getWebToken_def)

lemma gate_upd: "au_phase a = au_phase (wd_auth w) \<Longrightarrow> gate_ok (w\<lparr>wd_auth := a\<rparr>) = gate_ok w"
  by (rule gate_frame) simp_all

lemma gate_profile [simp]: "gate_ok (w\<lparr>wd_profile := ps\<rparr>) = gate_ok w"
  by (rule gate_frame) simp_all

lemma bearer_frame [simp]: "bearer (setPhase p w) = bearer w" "bearer (w\<lparr>wd_auth := a\<rparr>) = bearer w"
  by (simp_all add: setPhase_def bearer_def page_getWebToken_def)

lemma gate_status:
  "gate_ok w \<Longrightarrow> gate_ok (status_done out w) \<longleftrightarrow>
     bearer w = None \<or> (case out of Rejected name message \<Rightarrow> isAbortError name | Responded r \<Rightarrow> False)"
  by (auto simp: status_done_def gate_ok_def setPhase_def bearer_def page_getWebToken_def split: outcome.split option.split sum.split)

lemma gate_login:
  assumes "auth_mounted w" "gate_ok w"
  shows "gate_ok (login_done num i out w) \<longleftrightarrow> \<not> (case out of
      Responded r \<Rightarrow> rs_status r = 200 \<and> (case token_of r of Inr tok \<Rightarrow> js_to_string num tok = [] | Inl e \<Rightarrow> False)
    | Rejected name message \<Rightarrow> False)"
proof -
  have "gate_ok (upd_auth (\<lambda>a. a\<lparr>au_token := tok, au_phase := Authed, au_error := None\<rparr>) (page_setWebToken t w)) \<longleftrightarrow> t \<noteq> []" for tok t
    by (simp add: gate_ok_def bearer_set[OF assms(1)])
  with assms(2) show ?thesis by (auto simp: login_done_def split: outcome.split sum.split)
qed

lemma gate_setPassword:
  assumes "auth_mounted w" "gate_ok w"
  shows "gate_ok (setPassword_done num i out w) \<longleftrightarrow> \<not> (case out of
      Responded r \<Rightarrow> rs_status r = 409 \<and> bearer w \<noteq> None | Rejected name message \<Rightarrow> False)"
proof -
  have "gate_ok (upd_auth (\<lambda>a. a\<lparr>au_waits := f a\<rparr>) (snd (wait_profile (upd_auth (\<lambda>a. a\<lparr>au_token := tok\<rparr>) (page_setWebToken t w)))))" for f tok t
    using gate_set[OF assms(1)] by (simp add: gate_upd)
  moreover have "gate_ok (setPhase Unauthed w) \<longleftrightarrow> bearer w = None"
    by (simp add: gate_ok_def setPhase_def bearer_def page_getWebToken_def)
  ultimately show ?thesis using assms(2) by (auto simp: setPassword_done_def split_beta split: outcome.split sum.split option.split)
qed

text \<open>An event of the hook alone: neither the slot nor the login state changes.\<close>

lemma gate_hook [simp]: "gate_ok (w\<lparr>wd_hook := h\<rparr>) = gate_ok w"
  by (simp add: gate_ok_def bearer_def page_getWebToken_def)

lemma gate_settle:
  assumes "auth_mounted w" "gate_ok w"
  shows "gate_ok (settle num i out w) \<longleftrightarrow> \<not> race num (We_settle i out) w"
proof (cases "map_of (au_inflight (wd_auth w)) i")
  case None
  with assms show ?thesis by (simp add: settle_def)
next
  case (Some cs)
  obtain c sent where cs: "cs = (c, sent)" by (cases cs)
  define v where "v = upd_auth (\<lambda>a. a\<lparr>au_requests := au_requests a - {i},
           au_inflight := AList.delete i (au_inflight a)\<rparr>) (apiFetch_settled sent out w)"
  have settle: "settle num i out w = call_done num i c out v" using Some cs by (simp add: settle_def v_def)
  have mounted: "auth_mounted v" using auth_mounted_fetch[OF assms(1)] by (simp add: v_def auth_mounted_view[OF shell_view_upd(1)])
  have gate: "gate_ok v" using gate_apiFetch[OF assms(1,2)] by (simp add: v_def gate_upd)
  have tok: "bearer v = (if sent \<noteq> None \<and> refused out then None else bearer w)"
    using page_clear_auth(2)[OF assms(1)]
    by (auto simp: v_def apiFetch_settled_def bearer_def[of "page_clearWebToken w"] split: outcome.split)
  note calls = gate_status[OF gate] gate_login[OF mounted gate] gate_setPassword[OF mounted gate]
  show ?thesis
    unfolding settle by (cases c; cases out) (auto simp: calls tok Some cs logout_done_def gate_clear[OF mounted])
qed

lemma gate_kept:
  assumes "auth_mounted w" "gate_ok w" "page_enabled e w"
  shows "gate_ok (page_step num e w) \<longleftrightarrow> \<not> race num e w"
proof (cases e)
  case (We_settle i out)
  with gate_settle[OF assms(1,2)] show ?thesis by simp
next
  case (We_close i code)
  with assms show ?thesis by (auto simp: page_onclose_def gate_clear)
next
  case (We_probe p st)
  with assms show ?thesis by (auto simp: page_settle_probe_def Let_def gate_clear)
next
  case (We_profile_settle p out)
  with gate_apiFetch[OF assms(1,2)] show ?thesis by (simp add: page_settle_profile_def gate_upd)
next
  case (We_resume i s)
  then show ?thesis by (simp add: setPassword_resumed_def) (simp add: gate_ok_def setPhase_def bearer_def page_getWebToken_def)
next
  case (We_fetch sent out)
  with gate_apiFetch[OF assms(1,2)] show ?thesis by simp
next
  case (We_passkey_login t)
  with assms show ?thesis by (simp add: gate_set)
next
  case We_mount_shell
  with assms(2) show ?thesis by (simp add: mount_shell_def subscribeAuthChange_def gate_ok_def bearer_def page_getWebToken_def)
next
  case We_unmount_shell
  with assms(2) show ?thesis by (simp add: unmount_shell_def unsubscribeAuthChange_def gate_ok_def bearer_def page_getWebToken_def)
next
  case We_completeEnrollGate
  with assms(2) show ?thesis by (auto simp: completeEnrollGate_def gate_ok_def)
qed (use assms(2) in \<open>simp_all add: login_def setPassword_def logout_def probeStatus_def clearError_def
    token_effect_def page_subscribe_profile_def page_unsubscribe_profile_def Let_def gate_upd\<close>)

section \<open>Runs\<close>

fun runs_ok :: "(rat \<Rightarrow> string) \<Rightarrow> page_event list \<Rightarrow> world \<Rightarrow> bool" where
  "runs_ok num [] w = True"
| "runs_ok num (e # es) w = (page_enabled e w \<and> runs_ok num es (page_step num e w))"

lemma runs_reach:
  "page_reaches num env base sg evs w \<Longrightarrow> runs_ok num es w \<Longrightarrow>
   page_reaches num env base sg (rev es @ evs) (fold (page_step num) es w)"
proof (induction es arbitrary: w evs)
  case (Cons e es)
  then have "page_reaches num env base sg (e # evs) (page_step num e w)" by (auto intro: page_reaches.event)
  from Cons.IH[OF this] Cons.prems show ?case by simp
qed simp

text \<open>The page after the first \<open>k\<close> events of a run.\<close>

abbreviation page_after :: "(rat \<Rightarrow> string) \<Rightarrow> page_event list \<Rightarrow> world \<Rightarrow> nat \<Rightarrow> world" where
  "page_after num es w k \<equiv> fold (page_step num) (take k es) w"

lemma gate_along:
  assumes "auth_mounted w" "gate_ok w" "runs_ok num es w"
  shows "(\<forall>k\<le>length es. gate_ok (page_after num es w k)) \<longleftrightarrow> (\<forall>k<length es. \<not> race num (es ! k) (page_after num es w k))"
  using assms
proof (induction es arbitrary: w)
  case (Cons e es)
  have now: "gate_ok (page_step num e w) \<longleftrightarrow> \<not> race num e w" using Cons.prems by (simp add: gate_kept)
  have le: "(\<forall>k\<le>length (e # es). gate_ok (page_after num (e # es) w k)) \<longleftrightarrow> (\<forall>k\<le>length es. gate_ok (page_after num es (page_step num e w) k))"
    using Cons.prems(2) by (auto simp: take_Cons' Nat.le_diff_conv split: if_splits)
  have less: "(\<forall>k<length (e # es). \<not> race num ((e # es) ! k) (page_after num (e # es) w k)) \<longleftrightarrow>
      \<not> race num e w \<and> (\<forall>k<length es. \<not> race num (es ! k) (page_after num es (page_step num e w) k))"
    by (simp add: All_less_Suc2)
  show ?case
  proof (cases "race num e w")
    case True
    with now have "\<not> (\<forall>k\<le>length es. gate_ok (page_after num es (page_step num e w) k))" by (metis fold_simps(1) le0 take0)
    with True show ?thesis unfolding le less by simp
  next
    case False
    with Cons.IH[of "page_step num e w"] Cons.prems now auth_mounted_step[OF Cons.prems(1), of e num] show ?thesis
      unfolding le less by simp
  qed
qed simp

text \<open>
  C14: With a working store, exactly four kinds of answer break the gate. The page starts
  truthful: the shell, or the enrolment step before it, is offered exactly while a non-empty
  token is stored. It is truthful at every moment of a run, through logins, logouts, refused
  tokens, passkeys and remounts, if and only if none of these settles in it: a status probe
  while a token is stored (unless it was aborted, or is a 401 or 403 to a request that carried
  a token), a 409 to \<open>setPassword\<close> while a token is stored, a login's 200 with an empty token,
  and the profile \<open>setPassword\<close> waits for after the token has gone.
\<close>

theorem gate_breaks_exactly:
  fixes num es
  assumes "storage_works sg" and "runs_ok num es (initial_world env base sg)"
  defines "w \<equiv> page_after num es (initial_world env base sg)"
  shows "(\<forall>k\<le>length es. au_phase (wd_auth (w k)) \<in> {Authed, Authed_pending_enroll} \<longleftrightarrow> (\<exists>t. page_getWebToken (w k) = Some t \<and> t \<noteq> [])) \<longleftrightarrow>
    (\<forall>k<length es. \<not> race num (es ! k) (w k))"
proof -
  have gate: "gate_ok v \<longleftrightarrow> (au_phase (wd_auth v) \<in> {Authed, Authed_pending_enroll} \<longleftrightarrow> (\<exists>t. page_getWebToken v = Some t \<and> t \<noteq> []))" for v
    by (auto simp: gate_ok_def bearer_def split: option.splits if_splits)
  have "gate_ok (initial_world env base sg)"
    by (auto simp: gate_ok_def initial_world_def initial_auth_def bearer_def page_getWebToken_def js_token_def split: option.split)
  from gate_along[OF auth_mounted_reaches[OF page_reaches.start assms(1)] this assms(2)] show ?thesis
    by (simp add: w_def gate)
qed

section \<open>Concrete runs\<close>

definition empty_store :: storage where
  "empty_store = \<lparr>sg_token = None, sg_getThrows = False, sg_setThrows = False, sg_removeThrows = False\<rparr>"

definition json_reply :: "(string \<times> json) list \<Rightarrow> response" where
  "json_reply kvs = \<lparr>rs_status = 200, rs_contentType = None, rs_retryAfter = None, rs_text = None, rs_json = Some (JObj kvs)\<rparr>"

lemma page_starts: "page_reaches num env base empty_store [] (initial_world env base empty_store)"
  by (rule page_reaches.start)

lemmas page_defs = initial_world_def initial_auth_def initial_profile_def token_effect_def probeStatus_def fetchWithAbort_def
  apiFetch_def apiFetch_settled_def page_setWebToken_def page_clearWebToken_def notifyAuthChange_def auth_listener_def
  hook_listener_def page_getWebToken_def bearer_def js_token_def empty_store_def read_token_def write_token_def remove_token_def
  settle_def status_done_def login_def login_done_def setPassword_def setPassword_done_def logout_def logout_done_def token_of_def
  js_prop_def js_to_string_def json_reply_def rs_ok_def returns_def setPhase_def wait_profile_def waitForAuthProfile_def
  successful_def page_settle_profile_def resolve_def setPassword_resumed_def settle_profile_def notifySubscribers_def
  fetchProfile_def profile_body_def shell_mounted_def mount_shell_def subscribeAuthChange_def Let_def

text \<open>Runs in which answers arrive in another order than the code expects.\<close>

definition late_probe :: "page_event list" where
  "late_probe = [We_effect, We_passkey_login ''k'', We_settle 0 (Responded (json_reply [(''setup_required'', JBool False)]))]"

definition first_run :: "page_event list" where
  "first_run = [We_setPassword ''pw'' None, We_settle 0 (Responded (json_reply [(''token'', JStr ''k'')]))]"

definition lan_profile :: "(string \<times> json) list" where
  "lan_profile = [(''profile'', JStr ''local-lan''), (''can_enroll_passkey_on_this_origin'', JBool True)]"

definition stale_enroll :: "page_event list" where
  "stale_enroll = first_run @ [We_logout, We_settle 1 (Rejected ''TypeError'' ''offline''),
     We_profile_settle 0 (Responded (json_reply lan_profile)), We_resume 0 (fetchProfile (Responded (json_reply lan_profile)))]"

text \<open>
  Such runs exist. A status probe that settles after a login locks the page although a token is
  stored; and a session that ends while \<open>setPassword\<close> awaits the profile is followed by the
  enrolment step without a token. Also, until the profile is there the phase is \<open>authed\<close>, so the
  shell appears before the enrolment step and the login surface does not stay mounted.
\<close>

lemma gate_races:
  "(\<exists>evs w. page_reaches num env base empty_store evs w \<and> page_getWebToken w = Some ''k'' \<and> au_phase (wd_auth w) = Unauthed) \<and>
   (\<exists>evs w. page_reaches num env base empty_store evs w \<and> page_getWebToken w = None \<and> au_phase (wd_auth w) = Authed_pending_enroll) \<and>
   (\<exists>evs w. page_reaches num env base empty_store evs w \<and> au_waits (wd_auth w) \<noteq> [] \<and> au_phase (wd_auth w) = Authed)"
proof (intro conjI)
  let ?w = "initial_world env base empty_store"
  have "runs_ok num late_probe ?w \<and> page_getWebToken (fold (page_step num) late_probe ?w) = Some ''k'' \<and>
      au_phase (wd_auth (fold (page_step num) late_probe ?w)) = Unauthed"
    by (simp add: late_probe_def page_defs)
  with runs_reach[OF page_starts] show "\<exists>evs w. page_reaches num env base empty_store evs w \<and> page_getWebToken w = Some ''k'' \<and>
      au_phase (wd_auth w) = Unauthed" by blast
  have "runs_ok num stale_enroll ?w \<and> page_getWebToken (fold (page_step num) stale_enroll ?w) = None \<and>
      au_phase (wd_auth (fold (page_step num) stale_enroll ?w)) = Authed_pending_enroll"
    by (simp add: stale_enroll_def first_run_def lan_profile_def page_defs)
  with runs_reach[OF page_starts] show "\<exists>evs w. page_reaches num env base empty_store evs w \<and> page_getWebToken w = None \<and>
      au_phase (wd_auth w) = Authed_pending_enroll" by blast
  have "runs_ok num first_run ?w \<and> au_waits (wd_auth (fold (page_step num) first_run ?w)) \<noteq> [] \<and>
      au_phase (wd_auth (fold (page_step num) first_run ?w)) = Authed"
    by (simp add: first_run_def page_defs)
  with runs_reach[OF page_starts] show "\<exists>evs w. page_reaches num env base empty_store evs w \<and> au_waits (wd_auth w) \<noteq> [] \<and>
      au_phase (wd_auth w) = Authed" by blast
qed

section \<open>The page as a whole\<close>

text \<open>
  C5: On the page, with a working store, the connection hook refines its own transition system:
  however logins, logouts, passkeys, refused tokens, status and profile probes and remounts
  interleave, the hook of the mounted shell is in a state one of its own runs reaches, with the
  token that is stored, and the clicks, messages and other events of that run are exactly
  the page's own events for the hook since some moment, in their order. So its invariant
  holds, and every approval it sent answers a click on approve among the page's events, with
  the options of that click.
\<close>

theorem page_refines_hook:
  assumes "page_reaches num env base sg evs w" and "storage_works sg" and "shell_mounted w"
  shows "h_token (wd_hook w) = page_getWebToken w \<and>
    (\<exists>tok hevs rest. reaches base tok hevs (wd_hook w) \<and> hook_part evs = filter inner_event hevs @ rest) \<and> hook_inv (wd_hook w) \<and>
    (\<forall>i c rid ao. Sent i c \<in> set (h_log (wd_hook w)) \<and> oc_message c = Cm_approve rid ao \<longrightarrow>
       (\<exists>now opts. We_hook now (Ev_approve rid opts) \<in> set evs \<and> Cm_approve rid ao = approve_message rid opts))"
proof -
  have "page_inv base evs w" using page_reaches_inv[OF assms(1,2)] .
  then obtain tok hevs rest where run: "reaches base tok hevs (wd_hook w)" and part: "hook_part evs = filter inner_event hevs @ rest"
    and tok: "h_token (wd_hook w) = page_getWebToken w"
    using assms(3) by (auto simp: page_inv_def page_getWebToken_def)
  have "\<exists>now. We_hook now (Ev_approve rid opts) \<in> set evs" if "Ev_approve rid opts \<in> set hevs" for rid opts
  proof -
    have "Ev_approve rid opts \<in> set (hook_part evs)" unfolding part using that by simp
    then show ?thesis by (simp add: hook_part_mem)
  qed
  with tok run part reaches_inv[OF run] approval_origin[OF run] show ?thesis by blast
qed

text \<open>A page that holds a token, has its shell mounted and has asked the server to log out.\<close>

definition no_num :: "rat \<Rightarrow> string" where "no_num q = []"

definition plain_env :: environment where "plain_env = \<lparr>en_apiUrl = None, en_wsUrl = None\<rparr>"

definition leaving :: "page_event list" where
  "leaving = [We_passkey_login ''k'', We_mount_shell, We_logout]"

definition leaving_page :: world where
  "leaving_page = fold (page_step no_num) leaving (initial_world plain_env ''ws://h/ws'' empty_store)"

lemma leaving_reaches: "page_reaches no_num plain_env ''ws://h/ws'' empty_store (rev leaving) leaving_page"
proof -
  have "runs_ok no_num leaving (initial_world plain_env ''ws://h/ws'' empty_store)"
    by (simp add: leaving_def page_defs)
  from runs_reach[OF page_starts this] show ?thesis by (simp add: leaving_page_def)
qed

lemma leaving_facts:
  "shell_mounted leaving_page" "auth_mounted leaving_page" "map_of (au_inflight (wd_auth leaving_page)) 0 = Some (Call_logout, Some ''k'')"
  by (simp_all add: leaving_page_def leaving_def auth_mounted_def page_defs storage_works_def)

theorem page_refines_hook_witness:
  "shell_mounted leaving_page \<and> h_token (wd_hook leaving_page) = page_getWebToken leaving_page \<and> hook_inv (wd_hook leaving_page)"
proof -
  have "storage_works empty_store" by (simp add: storage_works_def empty_store_def)
  from page_refines_hook[OF leaving_reaches this leaving_facts(1)] leaving_facts(1) show ?thesis by blast
qed

theorem session_ends_witness:
  "locked_out (page_step no_num (We_settle 0 (Rejected ''TypeError'' ''offline'')) leaving_page) \<and>
   page_getWebToken (fold (page_step no_num) [We_effect, We_settle 1 (Rejected ''TypeError'' ''offline'')]
     (page_step no_num (We_settle 0 (Rejected ''TypeError'' ''offline'')) leaving_page)) = None"
proof -
  let ?e = "We_settle 0 (Rejected ''TypeError'' ''offline'')"
  have "storage_works empty_store" by (simp add: storage_works_def empty_store_def)
  moreover have "page_enabled ?e leaving_page" "ends_session ?e leaving_page"
    using leaving_facts(3) by (simp_all add: leaving_page_def leaving_def page_defs)
  moreover have "stays_out no_num [We_effect, We_settle 1 (Rejected ''TypeError'' ''offline'')] (page_step no_num ?e leaving_page)"
    by (simp add: leaving_page_def leaving_def page_defs)
  ultimately show ?thesis using session_ends[OF leaving_reaches, of ?e] by blast
qed

definition entering_page :: world where
  "entering_page = page_step no_num (We_login ''pw'' None) (initial_world plain_env ''ws://h/ws'' empty_store)"

lemma entering_facts:
  "auth_mounted entering_page" "map_of (au_inflight (wd_auth entering_page)) 0 = Some (Call_login ''pw'' None, None)"
  "au_error (wd_auth entering_page) = None"
  by (simp_all add: entering_page_def auth_mounted_def page_defs storage_works_def)

theorem login_exact_witness:
  "page_getWebToken (settle no_num 0 (Responded (json_reply [(''token'', JStr ''k'')])) entering_page) = Some ''k'' \<and>
   hd (au_returned (wd_auth (settle no_num 0 (Rejected ''TypeError'' ''offline'') entering_page))) = (0, False)"
proof -
  have "grants (json_reply [(''token'', JStr ''k'')]) ''k''" by (simp add: grants_def json_reply_def token_of_def js_prop_def)
  with login_exact[OF entering_facts, where out = "Responded (json_reply [(''token'', JStr ''k'')])" and t = "''k''" and num = no_num]
    login_exact[OF entering_facts, where out = "Rejected ''TypeError'' ''offline''" and t = "[]" and num = no_num]
  show ?thesis by simp
qed

theorem gate_breaks_exactly_witness:
  "au_phase (wd_auth (fold (page_step no_num) first_run (initial_world plain_env ''ws://h/ws'' empty_store))) \<in> {Authed, Authed_pending_enroll} \<and>
   \<not> (\<forall>k<3. \<not> race no_num (late_probe ! k) (page_after no_num late_probe (initial_world plain_env ''ws://h/ws'' empty_store) k))"
proof -
  let ?w = "initial_world plain_env ''ws://h/ws'' empty_store"
  have works: "storage_works empty_store" by (simp add: storage_works_def empty_store_def)
  have good: "runs_ok no_num first_run ?w" "\<forall>k<length first_run. \<not> race no_num (first_run ! k) (page_after no_num first_run ?w k)"
    "page_getWebToken (fold (page_step no_num) first_run ?w) = Some ''k''"
    by (simp_all add: first_run_def page_defs All_less_Suc2 numeral_2_eq_2)
  have bad: "runs_ok no_num late_probe ?w" "page_getWebToken (fold (page_step no_num) late_probe ?w) = Some ''k''"
    "au_phase (wd_auth (fold (page_step no_num) late_probe ?w)) = Unauthed"
    by (simp_all add: late_probe_def page_defs)
  have "length late_probe = 3" by (simp add: late_probe_def)
  moreover from gate_breaks_exactly[OF works good(1)] good(2,3)
  have "au_phase (wd_auth (fold (page_step no_num) first_run ?w)) \<in> {Authed, Authed_pending_enroll}"
    by (metis (no_types, lifting) list.distinct(1) list.inject order.refl take_all)
  moreover from gate_breaks_exactly[OF works bad(1)] bad(2,3)
  have "\<not> (\<forall>k<length late_probe. \<not> race no_num (late_probe ! k) (page_after no_num late_probe ?w k))"
    by (metis auth_phase.distinct list.distinct(1) empty_iff insert_iff order.refl take_all)
  ultimately show ?thesis by simp
qed

end
