(* ===== verification/Passkey.thy ===== *)
theory Passkey
  imports Base64 Web_Api
begin

text \<open>
  \<open>hooks/usePasskey.ts\<close>: base64url, the two error classifications and the register and
  login ceremonies. The daemon's answers and the browser's credential prompt are arguments;
  a ceremony returns its result with the list of what it did, in order. A promise that is
  rejected because nothing catches an exception is a result of its own.
\<close>

section \<open>base64url\<close>

definition url_char :: "char \<Rightarrow> char" where
  "url_char c = (if c = CHR ''+'' then CHR ''-'' else if c = CHR ''/'' then CHR ''_'' else c)"

definition unurl_char :: "char \<Rightarrow> char" where
  "unurl_char c = (if c = CHR ''-'' then CHR ''+'' else if c = CHR ''_'' then CHR ''/'' else c)"

text \<open>\<open>replace(/=+$/, "")\<close>.\<close>

definition drop_pads :: "string \<Rightarrow> string" where
  "drop_pads s = rev (dropWhile (\<lambda>c. c = CHR ''='') (rev s))"

text \<open>The engine's methods with the URL alphabet: unpadded output, and \<open>+\<close>, \<open>/\<close> refused.\<close>

definition toBase64url :: "bytes \<Rightarrow> string" where
  "toBase64url bs = map url_char (takeWhile (\<lambda>c. c \<noteq> CHR ''='') (toBase64 bs))"

definition fromBase64url :: "string \<Rightarrow> bytes option" where
  "fromBase64url s = (if CHR ''+'' \<in> set s \<or> CHR ''/'' \<in> set s then None else fromBase64 (map unurl_char s))"

definition base64UrlEncode :: "bool \<Rightarrow> bytes \<Rightarrow> string" where
  "base64UrlEncode native bs =
     (if native then toBase64url bs else drop_pads (map url_char (btoa (map from_char_code bs))))"

definition base64UrlDecode :: "bool \<Rightarrow> string \<Rightarrow> bytes option" where
  "base64UrlDecode native s =
     (if native then fromBase64url s
      else let padded = map unurl_char s;
               pad = (if length padded mod 4 = 0 then [] else replicate (4 - length padded mod 4) (CHR ''=''))
           in map_option (map char_code_at) (atob (padded @ pad)))"

section \<open>Errors\<close>

datatype passkey_error_kind =
    Pk_unsupported | Pk_cancelled | Pk_origin_unavailable | Pk_sudo_required
  | Pk_uv_failed | Pk_server_rejected | Pk_network | Pk_unknown

text \<open>A message is a string, unless the server's JSON put another value there.\<close>

record passkey_error =
  pk_kind :: passkey_error_kind
  pk_message :: json

definition pk_error :: "passkey_error_kind \<Rightarrow> string \<Rightarrow> passkey_error" where
  "pk_error k m = \<lparr>pk_kind = k, pk_message = JStr m\<rparr>"

text \<open>
  What the prompt threw: an error, or any object with a \<open>name\<close>, with its name, its message
  and how it prints; or something else.
\<close>

datatype thrown = Th_error "string option" "string option" string | Th_other

definition unsupported_browser :: passkey_error where
  "unsupported_browser = pk_error Pk_unsupported ''This browser does not support passkeys.''"

definition classifyDomError :: "thrown \<Rightarrow> passkey_error" where
  "classifyDomError e = (case e of
       Th_other \<Rightarrow> pk_error Pk_unknown ''Unknown passkey error.''
     | Th_error name msg printed \<Rightarrow>
         (let message = (case msg of Some m \<Rightarrow> m | None \<Rightarrow> printed) in
          if name = Some ''NotAllowedError'' then pk_error Pk_cancelled ''Passkey prompt was cancelled or timed out.''
          else if name = Some ''NotSupportedError'' then unsupported_browser
          else if name = Some ''ConstraintError'' then pk_error Pk_uv_failed ''User verification failed on the authenticator.''
          else if name \<in> Some ` {''SecurityError'', ''InvalidStateError'', ''AbortError'', ''UnknownError''}
          then pk_error Pk_unknown (the name @ '': '' @ message)
          else pk_error Pk_unknown (if message \<noteq> [] then message else ''Unknown passkey error.'')))"

text \<open>\<open>a ?? b\<close>.\<close>

definition nullish_or :: "js \<Rightarrow> json \<Rightarrow> json" where
  "nullish_or v d = (case v of Some JNull \<Rightarrow> d | Some j \<Rightarrow> j | None \<Rightarrow> d)"

definition rejected_text :: "response \<Rightarrow> passkey_error" where
  "rejected_text res =
     (let text = (case rs_text res of Some t \<Rightarrow> t | None \<Rightarrow> []) in
      pk_error Pk_server_rejected
        (if text \<noteq> [] then text else ''Server rejected request ('' @ show_nat (rs_status res) @ '').''))"

definition classifyHttpError :: "response \<Rightarrow> passkey_error" where
  "classifyHttpError res =
     (if (rs_status res = 400 \<or> rs_status res = 403) \<and>
         includes_str (case rs_contentType res of Some c \<Rightarrow> c | None \<Rightarrow> []) ''application/json''
      then (case (rs_text res, rs_json res) of
          (Some text, Some body) \<Rightarrow>
            (case (js_prop body ''error'', js_prop body ''message'') of
               (Inr err, Inr msg) \<Rightarrow>
                 if rs_status res = 400 \<and> err = Some (JStr ''passkey_unavailable_on_this_origin'')
                 then \<lparr>pk_kind = Pk_origin_unavailable,
                       pk_message = nullish_or msg (JStr ''Passkey enrollment is not available on this origin.'')\<rparr>
                 else if rs_status res = 403 \<and> err = Some (JStr ''sudo_required_for_passkey_register'')
                 then \<lparr>pk_kind = Pk_sudo_required,
                       pk_message = nullish_or msg (JStr ''Passkey enrollment requires re-authentication (pending itr#313).'')\<rparr>
                 else \<lparr>pk_kind = Pk_server_rejected, pk_message = nullish_or msg (nullish_or err (JStr text))\<rparr>
             | _ \<Rightarrow> rejected_text res)
        | _ \<Rightarrow> rejected_text res)
      else rejected_text res)"

section \<open>The server's options for the browser\<close>

record descriptor =
  ds_id :: bytes
  ds_type :: js
  ds_transports :: js

text \<open>The binary fields converted; \<open>op_rest\<close> is everything else of \<open>publicKey\<close>, passed through.\<close>

record prompt_options =
  op_rest :: "(string \<times> json) list"
  op_challenge :: bytes
  op_user :: "((string \<times> json) list \<times> bytes) option"
  op_credentials :: "descriptor list option"

text \<open>\<open>v.key\<close>; \<open>None\<close> is the exception thrown on \<open>undefined\<close> and \<open>null\<close>.\<close>

definition prop_of :: "js \<Rightarrow> string \<Rightarrow> js option" where
  "prop_of v key = (case v of None \<Rightarrow> None | Some JNull \<Rightarrow> None | Some (JObj kvs) \<Rightarrow> Some (map_of kvs key) | _ \<Rightarrow> Some None)"

definition decode_field :: "bool \<Rightarrow> js \<Rightarrow> bytes option" where
  "decode_field native v = (case v of Some (JStr s) \<Rightarrow> base64UrlDecode native s | _ \<Rightarrow> None)"

definition fields_of :: "js \<Rightarrow> (string \<times> json) list" where
  "fields_of v = (case v of Some (JObj kvs) \<Rightarrow> kvs | _ \<Rightarrow> [])"

definition to_descriptor :: "bool \<Rightarrow> json \<Rightarrow> descriptor option" where
  "to_descriptor native c =
     (case (prop_of (Some c) ''id'', prop_of (Some c) ''type'', prop_of (Some c) ''transports'') of
        (Some i, Some t, Some tr) \<Rightarrow>
          map_option (\<lambda>bs. \<lparr>ds_id = bs, ds_type = t, ds_transports = (if js_truthy tr then tr else None)\<rparr>) (decode_field native i)
      | _ \<Rightarrow> None)"

fun map_all :: "('a \<Rightarrow> 'b option) \<Rightarrow> 'a list \<Rightarrow> 'b list option" where
  "map_all f [] = Some []"
| "map_all f (x # xs) = (case f x of None \<Rightarrow> None | Some y \<Rightarrow> map_option ((#) y) (map_all f xs))"

definition to_descriptors :: "bool \<Rightarrow> js \<Rightarrow> descriptor list option option" where
  "to_descriptors native v =
     (if \<not> js_truthy v then Some None
      else case v of Some (JArr vs) \<Rightarrow> map_option Some (map_all (to_descriptor native) vs) | _ \<Rightarrow> None)"

definition creation_options :: "bool \<Rightarrow> js \<Rightarrow> prompt_options option" where
  "creation_options native publicKey =
     (case (prop_of publicKey ''challenge'', prop_of publicKey ''user'', prop_of publicKey ''excludeCredentials'') of
        (Some ch, Some user, Some ex) \<Rightarrow>
          (case (decode_field native ch, prop_of user ''id'') of
             (Some challenge, Some uid) \<Rightarrow>
               (case (decode_field native uid, to_descriptors native ex) of
                  (Some i, Some creds) \<Rightarrow>
                    Some \<lparr>op_rest = fields_of publicKey, op_challenge = challenge, op_user = Some (fields_of user, i),
                          op_credentials = creds\<rparr>
                | _ \<Rightarrow> None)
           | _ \<Rightarrow> None)
      | _ \<Rightarrow> None)"

definition request_options :: "bool \<Rightarrow> js \<Rightarrow> prompt_options option" where
  "request_options native publicKey =
     (case (prop_of publicKey ''challenge'', prop_of publicKey ''allowCredentials'') of
        (Some ch, Some allow) \<Rightarrow>
          (case (decode_field native ch, to_descriptors native allow) of
             (Some challenge, Some creds) \<Rightarrow>
               Some \<lparr>op_rest = fields_of publicKey, op_challenge = challenge, op_user = None, op_credentials = creds\<rparr>
           | _ \<Rightarrow> None)
      | _ \<Rightarrow> None)"

section \<open>What the browser returns\<close>

record attestation =
  atn_id :: string
  atn_rawId :: bytes
  atn_type :: string
  atn_attestationObject :: bytes
  atn_clientDataJSON :: bytes
  atn_transports :: "string list option"
  atn_extensions :: json

record assertion =
  asn_id :: string
  asn_rawId :: bytes
  asn_type :: string
  asn_authenticatorData :: bytes
  asn_clientDataJSON :: bytes
  asn_signature :: bytes
  asn_userHandle :: "bytes option"
  asn_extensions :: json

datatype 'c prompt_result = Prompt_threw thrown | Prompt_null | Prompt_credential 'c

text \<open>An object literal; a property whose value is \<open>undefined\<close> is not serialised.\<close>

definition json_obj :: "(string \<times> js) list \<Rightarrow> json" where
  "json_obj kvs = JObj (List.map_filter (\<lambda>(k, v). map_option (Pair k) v) kvs)"

definition b64u :: "bool \<Rightarrow> bytes \<Rightarrow> js" where
  "b64u native bs = Some (JStr (base64UrlEncode native bs))"

definition enroll_body :: "bool \<Rightarrow> js \<Rightarrow> attestation \<Rightarrow> json" where
  "enroll_body native sessionId att =
     json_obj [(''session_id'', sessionId), (''credential'', Some (json_obj [
       (''id'', Some (JStr (atn_id att))), (''rawId'', b64u native (atn_rawId att)), (''type'', Some (JStr (atn_type att))),
       (''response'', Some (json_obj [
          (''attestationObject'', b64u native (atn_attestationObject att)),
          (''clientDataJSON'', b64u native (atn_clientDataJSON att)),
          (''transports'', case atn_transports att of
              Some ts \<Rightarrow> if ts \<noteq> [] then Some (JArr (map JStr ts)) else None | None \<Rightarrow> None)])),
       (''clientExtensionResults'', Some (atn_extensions att))]))]"

definition login_body :: "bool \<Rightarrow> js \<Rightarrow> assertion \<Rightarrow> json" where
  "login_body native sessionId asr =
     json_obj [(''session_id'', sessionId), (''credential'', Some (json_obj [
       (''id'', Some (JStr (asn_id asr))), (''rawId'', b64u native (asn_rawId asr)), (''type'', Some (JStr (asn_type asr))),
       (''response'', Some (json_obj [
          (''authenticatorData'', b64u native (asn_authenticatorData asr)),
          (''clientDataJSON'', b64u native (asn_clientDataJSON asr)),
          (''signature'', b64u native (asn_signature asr)),
          (''userHandle'', case asn_userHandle asr of Some u \<Rightarrow> b64u native u | None \<Rightarrow> None)])),
       (''clientExtensionResults'', Some (asn_extensions asr))]))]"

section \<open>The ceremonies\<close>

text \<open>The page's surroundings of one ceremony.\<close>

record 'c ceremony =
  ce_webauthn :: bool
  ce_native :: bool
  ce_start :: outcome
  ce_prompt :: "prompt_options \<Rightarrow> 'c prompt_result"
  ce_finish :: "json \<Rightarrow> outcome"

datatype deed = Posted string "json option" | Prompted prompt_options | Stored string

datatype 'r ceremony_result = Succeeded 'r | Failed passkey_error | Uncaught string

definition bad_options :: passkey_error where
  "bad_options = pk_error Pk_server_rejected ''Invalid response from server (could not parse passkey options).''"

text \<open>The shared part up to the authenticator's answer: \<open>ks\<close> gets the session id and it.\<close>

definition ceremony_prefix ::
    "string \<Rightarrow> (bool \<Rightarrow> js \<Rightarrow> prompt_options option) \<Rightarrow> 'c ceremony \<Rightarrow>
     (js \<Rightarrow> 'c \<Rightarrow> 'r ceremony_result \<times> deed list) \<Rightarrow> 'r ceremony_result \<times> deed list" where
  "ceremony_prefix path options ce ks =
     (if \<not> ce_webauthn ce then (Failed unsupported_browser, [])
      else
        (let start = [Posted path None] in
         case ce_start ce of
           Rejected name message \<Rightarrow> (Failed (pk_error Pk_network (unreachable message)), start)
         | Responded res \<Rightarrow>
             if \<not> rs_ok res then (Failed (classifyHttpError res), start)
             else (case rs_json res of
                 None \<Rightarrow> (Uncaught bad_json, start)
               | Some body \<Rightarrow> (case (js_prop body ''session_id'', js_prop body ''publicKey'') of
                   (Inr sessionId, Inr publicKey) \<Rightarrow>
                     (case options (ce_native ce) publicKey of
                        None \<Rightarrow> (Failed bad_options, start)
                      | Some opts \<Rightarrow> (case ce_prompt ce opts of
                          Prompt_threw e \<Rightarrow> (Failed (classifyDomError e), start @ [Prompted opts])
                        | Prompt_null \<Rightarrow> (Failed (pk_error Pk_cancelled ''Passkey prompt was cancelled.''), start @ [Prompted opts])
                        | Prompt_credential c \<Rightarrow>
                            (let (r, ds) = ks sessionId c in (r, start @ [Prompted opts] @ ds))))
                 | (Inl e, _) \<Rightarrow> (Uncaught e, start)
                 | (_, Inl e) \<Rightarrow> (Uncaught e, start)))))"

definition finish_request ::
    "string \<Rightarrow> json \<Rightarrow> 'c ceremony \<Rightarrow> (json \<Rightarrow> 'r ceremony_result \<times> deed list) \<Rightarrow> 'r ceremony_result \<times> deed list" where
  "finish_request path body ce k =
     (case ce_finish ce body of
        Rejected name message \<Rightarrow> (Failed (pk_error Pk_network (unreachable message)), [Posted path (Some body)])
      | Responded res \<Rightarrow>
          if \<not> rs_ok res then (Failed (classifyHttpError res), [Posted path (Some body)])
          else (case rs_json res of
              None \<Rightarrow> (Uncaught bad_json, [Posted path (Some body)])
            | Some answer \<Rightarrow> (let (r, ds) = k answer in (r, Posted path (Some body) # ds))))"

definition enrollImpl :: "attestation ceremony \<Rightarrow> js ceremony_result \<times> deed list" where
  "enrollImpl ce = ceremony_prefix ''/api/auth/passkey/register/start'' creation_options ce
     (\<lambda>sessionId att. finish_request ''/api/auth/passkey/register/finish'' (enroll_body (ce_native ce) sessionId att) ce
       (\<lambda>answer. case js_prop answer ''credential_id'' of Inl e \<Rightarrow> (Uncaught e, []) | Inr v \<Rightarrow> (Succeeded v, [])))"

record login_success =
  ls_token :: string
  ls_deviceId :: js
  ls_enrollingDeviceId :: js

definition missing_token :: passkey_error where
  "missing_token = pk_error Pk_server_rejected (''Login succeeded but token was missing '' @ em_dash @ '' please try again.'')"

definition finish_login :: "json \<Rightarrow> login_success ceremony_result \<times> deed list" where
  "finish_login answer =
     (case js_prop answer ''token'' of
        Inl e \<Rightarrow> (Uncaught e, [])
      | Inr (Some (JStr t)) \<Rightarrow>
          if t = [] then (Failed missing_token, [])
          else (let enr = map_of (fields_of (Some answer)) ''enrolling_device_id'' in
                (Succeeded \<lparr>ls_token = t, ls_deviceId = map_of (fields_of (Some answer)) ''device_id'',
                    ls_enrollingDeviceId = (if js_truthy enr then enr else None)\<rparr>, [Stored t]))
      | Inr _ \<Rightarrow> (Failed missing_token, []))"

definition loginWithPasskeyImpl :: "assertion ceremony \<Rightarrow> login_success ceremony_result \<times> deed list" where
  "loginWithPasskeyImpl ce = ceremony_prefix ''/api/auth/passkey/login/start'' request_options ce
     (\<lambda>sessionId asr. finish_request ''/api/auth/passkey/login/finish'' (login_body (ce_native ce) sessionId asr) ce finish_login)"

end
