(* ===== verification/Passkey_Properties.thy ===== *)
theory Passkey_Properties
  imports Passkey
begin

text \<open>
  The promises of the passkey flows: bytes survive base64url on every engine, the
  ceremonies do their steps in order and stop at the first failure, a token is stored only
  by a login that succeeded, and errors keep the discriminant the login view branches on.
\<close>

section \<open>base64url\<close>

definition is_url_letter :: "char \<Rightarrow> bool" where
  "is_url_letter c \<longleftrightarrow> is_upper c \<or> is_lower c \<or> is_digit c \<or> c = CHR ''-'' \<or> c = CHR ''_''"

lemma url_letter_val: "is_url_letter c \<Longrightarrow> \<exists>v. b64_val (unurl_char c) = Some v"
  by (auto simp: is_url_letter_def unurl_char_def b64_val_def)

lemma letters_decode:
  assumes "\<forall>c \<in> set t. b64_val c \<noteq> None"
  shows "forgiving_decode t = (if length t mod 4 = 1 then None else Some (b64_bytes (map (the \<circ> b64_val) t)))"
proof -
  have "last t \<noteq> CHR ''=''" if "t \<noteq> []" using assms last_in_set[OF that] by (metis b64_val_pad)
  then have "strip_padding t = t" by (auto simp: strip_padding_def)
  with assms show ?thesis by (auto simp: forgiving_decode_def)
qed

lemma padded_decode:
  assumes "\<forall>c \<in> set t. b64_val c \<noteq> None" "p \<in> {''='', ''==''}" "length (t @ p) mod 4 = 0"
  shows "forgiving_decode (t @ p) = forgiving_decode t"
proof -
  have "t \<noteq> []" using assms(2,3) by (auto dest: dvd_imp_le)
  then have "b64_val (last t) \<noteq> None" using assms(1) by simp
  then have "last t \<noteq> CHR ''=''" by auto
  with assms(2,3) have "strip_padding (t @ p) = t" by (auto simp: strip_padding_def butlast_append)
  moreover have "length t mod 4 \<noteq> 1"
  proof -
    have "length p = 1 \<or> length p = 2" using assms(2) by auto
    with assms(3) show ?thesis by (simp only: length_append) presburger
  qed
  ultimately show ?thesis using letters_decode[OF assms(1)] assms(1) by (auto simp: forgiving_decode_def)
qed

lemma over_padded:
  assumes "length t mod 4 = 1"
  shows "forgiving_decode (t @ ''==='') = None"
proof -
  have "length (t @ ''==='') mod 4 = 0" using assms by (simp only: length_append) (simp, presburger)
  then have "strip_padding (t @ ''==='') = t @ ''=''"
    unfolding strip_padding_def by (simp add: butlast_append)
  then show ?thesis by (simp add: forgiving_decode_def)
qed

text \<open>What the fallback appends does not change what letters decode to.\<close>

lemma fallback_padding:
  assumes "\<forall>c \<in> set t. b64_val c \<noteq> None"
  shows "forgiving_decode (t @ (if length t mod 4 = 0 then [] else replicate (4 - length t mod 4) (CHR ''=''))) = forgiving_decode t"
proof -
  have "length t mod 4 < 4" by simp
  then consider "length t mod 4 = 0" | "length t mod 4 = 1" | "length t mod 4 = 2" | "length t mod 4 = 3" by linarith
  then show ?thesis
  proof cases
    case 2
    have "replicate (4 - 1) (CHR ''='') = ''===''" by (simp add: numeral_3_eq_3)
    with 2 over_padded letters_decode[OF assms] show ?thesis by simp
  next
    case 3
    have pad: "replicate (4 - 2) (CHR ''='') = ''==''" by (simp add: numeral_2_eq_2)
    have "length (t @ ''=='') mod 4 = 0" using 3 by (simp only: length_append) (simp, presburger)
    with padded_decode[OF assms, of "''==''"] 3 pad show ?thesis by simp
  next
    case 4
    have "length (t @ ''='') mod 4 = 0" using 4 by (simp only: length_append) (simp, presburger)
    with padded_decode[OF assms, of "''=''"] 4 show ?thesis by simp
  qed simp
qed

lemma letters_no_space: "\<forall>c \<in> set t. b64_val c \<noteq> None \<Longrightarrow> \<forall>c \<in> set t. \<not> is_b64_space c"
  using b64_val_not_pad by blast

lemma decode_url_letters:
  assumes "\<forall>c \<in> set s. is_url_letter c"
  shows "base64UrlDecode native s = map_option (map of_nat) (forgiving_decode (map unurl_char s))"
proof -
  let ?t = "map unurl_char s"
  have letters: "\<forall>c \<in> set ?t. b64_val c \<noteq> None" using assms url_letter_val by fastforce
  note clean = letters_no_space[OF letters]
  have "CHR ''+'' \<notin> set s" "CHR ''/'' \<notin> set s" using assms by (auto simp: is_url_letter_def is_upper_def is_lower_def is_digit_def)
  then have native: "fromBase64url s = map_option (map of_nat) (forgiving_decode ?t)"
    using decoders_agree[OF clean] by (simp add: fromBase64url_def fromBase64_def)
  let ?pad = "if length ?t mod 4 = 0 then [] else replicate (4 - length ?t mod 4) (CHR ''='')"
  have "filter (\<lambda>c. \<not> is_b64_space c) (?t @ ?pad) = ?t @ ?pad" using clean by (intro filter_True) auto
  then have "atob (?t @ ?pad) = map_option (map char_of) (forgiving_decode ?t)"
    unfolding atob_def using fallback_padding[OF letters] by simp
  then have "map_option (map char_code_at) (atob (?t @ ?pad)) = map_option (map of_nat) (forgiving_decode ?t)"
    by (simp add: option.map_comp comp_def char_code_at_def of_nat_byte)
  with native show ?thesis unfolding base64UrlDecode_def Let_def by simp
qed

text \<open>The encoder's output: letters, then at most two pads.\<close>

lemma b64_encode_shape:
  "list_all (\<lambda>n. n < 256) ns \<Longrightarrow> \<exists>t p. b64_encode ns = t @ p \<and> p \<in> {[], ''='', ''==''} \<and> (\<forall>c \<in> set t. b64_val c \<noteq> None) \<and>
     length (b64_encode ns) mod 4 = 0"
proof (induction ns rule: b64_encode.induct)
  case (2 a)
  then have "a div 4 < 64" "a mod 4 * 16 < 64" by auto
  then show ?case by (intro exI[of _ "[b64_char (a div 4), b64_char (a mod 4 * 16)]"] exI[of _ "''==''"]) simp
next
  case (3 a b)
  then have "a div 4 < 64" "a mod 4 * 16 + b div 16 < 64" "b mod 16 * 4 < 64" by auto
  then show ?case
    by (intro exI[of _ "[b64_char (a div 4), b64_char (a mod 4 * 16 + b div 16), b64_char (b mod 16 * 4)]"] exI[of _ "''=''"]) simp
next
  case (4 a b c r)
  have "list_all (\<lambda>n. n < 256) r" using "4.prems" by simp
  from "4.IH"[OF this] obtain t p where tp: "b64_encode r = t @ p" "p \<in> {[], ''='', ''==''}" "\<forall>c \<in> set t. b64_val c \<noteq> None"
      "length (b64_encode r) mod 4 = 0" by (elim exE conjE) (rule that)
  have "a div 4 < 64" "a mod 4 * 16 + b div 16 < 64" "b mod 16 * 4 + c div 64 < 64" "c mod 64 < 64" using 4 by auto
  with tp show ?case
    by (intro exI[of _ "b64_char (a div 4) # b64_char (a mod 4 * 16 + b div 16) # b64_char (b mod 16 * 4 + c div 64)
       # b64_char (c mod 64) # t"] exI[of _ p]) simp
qed simp

lemma url_of_letter: "b64_val c \<noteq> None \<Longrightarrow> is_url_letter (url_char c) \<and> unurl_char (url_char c) = c"
  by (auto simp: b64_val_def url_char_def unurl_char_def is_url_letter_def is_upper_def is_lower_def is_digit_def split: if_splits)

lemma url_encoded:
  obtains t where "base64UrlEncode native bs = map url_char t" "\<forall>c \<in> set t. b64_val c \<noteq> None"
    "forgiving_decode t = Some (map unat bs)"
proof -
  let ?ns = "map unat bs"
  have ns: "list_all (\<lambda>n. n < 256) ?ns" by (simp add: list_all_iff unat_byte)
  obtain t p where tp: "b64_encode ?ns = t @ p" "p \<in> {[], ''='', ''==''}" "\<forall>c \<in> set t. b64_val c \<noteq> None"
      "length (b64_encode ?ns) mod 4 = 0" using b64_encode_shape[OF ns] by (elim exE conjE) (rule that)
  have nopad: "CHR ''='' \<notin> set t" using tp(3) by auto
  have btoa: "btoa (map from_char_code bs) = t @ p"
    using tp(1) by (simp add: btoa_def from_char_code_def comp_def unat_byte)
  have "takeWhile (\<lambda>c. c \<noteq> CHR ''='') (t @ p) = t @ takeWhile (\<lambda>c. c \<noteq> CHR ''='') p"
    by (rule takeWhile_append2) (use nopad in auto)
  also have "takeWhile (\<lambda>c. c \<noteq> CHR ''='') p = []" using tp(2) by auto
  finally have nat: "toBase64url bs = map url_char t" using tp(1) by (simp add: toBase64url_def toBase64_def del: takeWhile_append)
  have "CHR ''='' \<notin> set (map url_char t)" using tp(3) by (auto simp: url_char_def split: if_splits)
  then have "dropWhile (\<lambda>c. c = CHR ''='') (rev (map url_char t)) = rev (map url_char t)"
    by (intro dropWhile_clean) (metis set_rev)
  then have "drop_pads (map url_char (t @ p)) = map url_char t"
    using tp(2) by (auto simp: drop_pads_def url_char_def rev_map[symmetric])
  with nat btoa have enc: "base64UrlEncode native bs = map url_char t" by (simp add: base64UrlEncode_def)
  have "from_b64 [] (b64_encode ?ns) = Some ?ns" by (rule from_b64_encode[OF ns])
  moreover have "\<forall>c \<in> set (t @ p). \<not> is_b64_space c" using letters_no_space[OF tp(3)] tp(2) by auto
  ultimately have "forgiving_decode (t @ p) = Some ?ns" using decoders_agree[of "t @ p"] tp(1) by simp
  moreover have "forgiving_decode (t @ p) = forgiving_decode t"
    using padded_decode[OF tp(3), of p] tp(1,2,4) by auto
  ultimately show thesis using that enc tp(3) by simp
qed

lemma url_roundtrip: "base64UrlDecode native' (base64UrlEncode native bs) = Some bs"
proof -
  obtain t where t: "base64UrlEncode native bs = map url_char t" "\<forall>c \<in> set t. b64_val c \<noteq> None"
    "forgiving_decode t = Some (map unat bs)" by (rule url_encoded)
  have "\<forall>c \<in> set (map url_char t). is_url_letter c" and undo: "map unurl_char (map url_char t) = t"
    using t(2) url_of_letter by (auto intro: map_idI)
  from decode_url_letters[OF this(1), of native', unfolded undo] t(1,3) show ?thesis by (simp add: comp_def)
qed

text \<open>
  On text of the base64url alphabet the engine's decoder and the \<open>atob\<close> fallback agree,
  padding arithmetic included, and refuse the same lengths; and bytes survive the round trip
  whichever branch encodes and whichever decodes.
\<close>

theorem base64url_branches_agree:
  "(list_all is_url_letter s \<longrightarrow> base64UrlDecode native s = base64UrlDecode native' s) \<and>
   base64UrlDecode native' (base64UrlEncode native bs) = Some bs"
  using decode_url_letters[of s] url_roundtrip by (simp add: list_all_iff)

theorem base64url_branches_agree_witness:
  "base64UrlDecode True ''-_8'' = base64UrlDecode False ''-_8'' \<and> base64UrlDecode True (base64UrlEncode False [251, 255]) = Some [251, 255]"
  using base64url_branches_agree[of "''-_8''" True False "[]"] base64url_branches_agree[of "[]" False True "[251, 255]"]
  by (simp add: is_url_letter_def is_digit_def)

text \<open>Outside the alphabet they differ: the fallback also accepts the standard letters.\<close>

lemma base64url_fallback_lenient:
  "base64UrlDecode True ''+A'' = None" "base64UrlDecode False ''+A'' = Some [248]"
  by code_simp+

section \<open>The ceremonies\<close>

lemma prefix_reaches:
  assumes "ceremony_prefix path options ce ks = (r, ds)" "\<not> set ds \<subseteq> {Posted path None} \<union> range Prompted \<or> (\<exists>s. r = Succeeded s)"
  obtains res body sid c opts where "ce_start ce = Responded res" "rs_json res = Some body" "js_prop body ''session_id'' = Inr sid"
    "ce_prompt ce opts = Prompt_credential c" "r = fst (ks sid c)" "ds = [Posted path None, Prompted opts] @ snd (ks sid c)"
  using assms
  by (auto simp: ceremony_prefix_def Let_def split_beta
      split: if_splits outcome.splits option.splits sum.splits prompt_result.splits prod.splits)

lemma finish_posts: "\<exists>ds. snd (finish_request path body ce k) = Posted path (Some body) # ds"
  by (simp add: finish_request_def split_beta Let_def split: outcome.split option.split)

lemma finish_login_deeds: "snd (finish_login a) = [] \<or> (\<exists>t. snd (finish_login a) = [Stored t])"
  by (simp add: finish_login_def Let_def split: sum.split option.split json.split)

lemma finish_login_stores:
  "(Stored t \<in> set (snd (finish_login a)) \<longleftrightarrow> (\<exists>s. fst (finish_login a) = Succeeded s \<and> ls_token s = t)) \<and>
   (Stored t \<in> set (snd (finish_login a)) \<longrightarrow> t \<noteq> [] \<and> js_prop a ''token'' = Inr (Some (JStr t)))"
  by (auto simp: finish_login_def Let_def split: sum.splits option.splits json.splits if_splits)

text \<open>A login with any two paths: what a finish request, a stored token or a success tells of its course.\<close>

lemma login_finished:
  assumes "ceremony_prefix sp options ce (\<lambda>sid c. finish_request fp (login_body (ce_native ce) sid c) ce finish_login) = (r, ds)"
    and "sp \<noteq> fp" and "Posted fp b \<in> set ds \<or> Stored t \<in> set ds \<or> (\<exists>s. r = Succeeded s)"
  obtains res body sid c opts ds2 where "ce_start ce = Responded res" "rs_json res = Some body" "js_prop body ''session_id'' = Inr sid"
    "ce_prompt ce opts = Prompt_credential c"
    "finish_request fp (login_body (ce_native ce) sid c) ce finish_login = (r, Posted fp (Some (login_body (ce_native ce) sid c)) # ds2)"
    "ds = [Posted sp None, Prompted opts, Posted fp (Some (login_body (ce_native ce) sid c))] @ ds2"
proof -
  let ?ks = "\<lambda>sid c. finish_request fp (login_body (ce_native ce) sid c) ce finish_login"
  have "\<not> set ds \<subseteq> {Posted sp None} \<union> range Prompted \<or> (\<exists>s. r = Succeeded s)" using assms(2,3) by auto
  from prefix_reaches[OF assms(1) this] obtain res body sid c opts where
    pre: "ce_start ce = Responded res" "rs_json res = Some body" "js_prop body ''session_id'' = Inr sid" "ce_prompt ce opts = Prompt_credential c"
    and rest: "r = fst (?ks sid c)" "ds = [Posted sp None, Prompted opts] @ snd (?ks sid c)" by metis
  obtain ds2 where ds2: "snd (?ks sid c) = Posted fp (Some (login_body (ce_native ce) sid c)) # ds2"
    using finish_posts by blast
  show thesis by (rule that[OF pre, of ds2]) (simp_all add: prod_eq_iff rest ds2)
qed

lemma finish_request_cases:
  assumes "finish_request fp b ce finish_login = (r, Posted fp (Some b) # ds2)"
  obtains "ds2 = []" "\<nexists>s. r = Succeeded s"
  | res a where "ce_finish ce b = Responded res" "rs_ok res" "rs_json res = Some a" "r = fst (finish_login a)" "ds2 = snd (finish_login a)"
  using assms by (auto simp: finish_request_def split_beta Let_def split: outcome.splits option.splits if_splits)

lemma login_course:
  assumes "ceremony_prefix sp options ce (\<lambda>sid c. finish_request fp (login_body (ce_native ce) sid c) ce finish_login) = (r, ds)"
    and "sp \<noteq> fp"
  shows "Posted fp b \<in> set ds \<Longrightarrow> \<exists>res body sid opts c.
      ce_start ce = Responded res \<and> rs_json res = Some body \<and> js_prop body ''session_id'' = Inr sid \<and>
      ce_prompt ce opts = Prompt_credential c \<and> b = Some (login_body (ce_native ce) sid c) \<and>
      take 3 ds = [Posted sp None, Prompted opts, Posted fp b]" (is "?post \<Longrightarrow> ?origin")
    and "Stored t \<in> set ds \<longleftrightarrow> (\<exists>s. r = Succeeded s \<and> ls_token s = t)"
    and "Stored t \<in> set ds \<Longrightarrow> t \<noteq> [] \<and> (\<exists>opts body res a. ds = [Posted sp None, Prompted opts, Posted fp (Some body), Stored t] \<and>
      ce_finish ce body = Responded res \<and> rs_ok res \<and> rs_json res = Some a \<and> js_prop a ''token'' = Inr (Some (JStr t)))"
proof -
  have posts: "Posted fp b' \<in> set ds2 \<Longrightarrow> False" "Stored t' \<in> set ds2 \<longleftrightarrow> ds2 = [Stored t']"
    if "ds2 = [] \<or> (\<exists>a. ds2 = snd (finish_login a))" for ds2 t' b'
    using that finish_login_deeds by (metis deed.distinct(3) deed.inject(3) empty_iff empty_set set_ConsD list.set_intros(1))+
  show ?origin if post: ?post
  proof -
    from login_finished[OF assms disjI1[OF post]] obtain res body sid c opts ds2 where
      start: "ce_start ce = Responded res" "rs_json res = Some body" "js_prop body ''session_id'' = Inr sid" "ce_prompt ce opts = Prompt_credential c"
      and fin: "finish_request fp (login_body (ce_native ce) sid c) ce finish_login = (r, Posted fp (Some (login_body (ce_native ce) sid c)) # ds2)"
      and ds: "ds = [Posted sp None, Prompted opts, Posted fp (Some (login_body (ce_native ce) sid c))] @ ds2" by metis
    have "ds2 = [] \<or> (\<exists>a. ds2 = snd (finish_login a))" using fin by (rule finish_request_cases) auto
    with posts(1) post assms(2) have b: "b = Some (login_body (ce_native ce) sid c)" by (auto simp: ds)
    then have "take 3 ds = [Posted sp None, Prompted opts, Posted fp b]" by (simp add: ds)
    with start b show ?thesis by blast
  qed
  have tail: "(Stored t \<in> set ds \<longleftrightarrow> (\<exists>s. r = Succeeded s \<and> ls_token s = t)) \<and>
      (Stored t \<in> set ds \<longrightarrow> t \<noteq> [] \<and> (\<exists>opts body res a. ds = [Posted sp None, Prompted opts, Posted fp (Some body), Stored t] \<and>
      ce_finish ce body = Responded res \<and> rs_ok res \<and> rs_json res = Some a \<and> js_prop a ''token'' = Inr (Some (JStr t))))"
    if some: "Stored t \<in> set ds \<or> (\<exists>s. r = Succeeded s)"
  proof -
    from login_finished[OF assms disjI2[OF some]] obtain sid c opts ds2 where
      fin: "finish_request fp (login_body (ce_native ce) sid c) ce finish_login = (r, Posted fp (Some (login_body (ce_native ce) sid c)) # ds2)"
      and ds: "ds = [Posted sp None, Prompted opts, Posted fp (Some (login_body (ce_native ce) sid c))] @ ds2" by metis
    have mem: "Stored t \<in> set ds \<longleftrightarrow> Stored t \<in> set ds2" by (simp add: ds)
    from fin show ?thesis
    proof (rule finish_request_cases)
      assume "ds2 = []" "\<nexists>s. r = Succeeded s"
      with mem show ?thesis by simp
    next
      fix res a
      assume ok: "ce_finish ce (login_body (ce_native ce) sid c) = Responded res" "rs_ok res" "rs_json res = Some a"
        and last: "r = fst (finish_login a)" "ds2 = snd (finish_login a)"
      have "Stored t \<in> set ds2 \<longleftrightarrow> ds2 = [Stored t]" using posts(2) last(2) by blast
      with ok finish_login_stores[of t a] show ?thesis unfolding mem last by (auto simp: ds last(2))
    qed
  qed
  then show "Stored t \<in> set ds \<longleftrightarrow> (\<exists>s. r = Succeeded s \<and> ls_token s = t)" by blast
  show "Stored t \<in> set ds \<Longrightarrow> t \<noteq> [] \<and> (\<exists>opts body res a. ds = [Posted sp None, Prompted opts, Posted fp (Some body), Stored t] \<and>
      ce_finish ce body = Responded res \<and> rs_ok res \<and> rs_json res = Some a \<and> js_prop a ''token'' = Inr (Some (JStr t)))"
    using tail by blast
qed

text \<open>
  C27: A passkey login does nothing in a browser without passkeys. Otherwise it starts; a finish
  request is its third act, after exactly one start request and one prompt, and carries the
  authenticator's answer to that prompt with the session id of the answer to the start
  request. It stores a token exactly when it succeeds, and then that is its fourth and last act: the
  token is not empty, and it is the one in the 2xx answer to that finish request.
\<close>

theorem passkey_login_stores:
  assumes "loginWithPasskeyImpl ce = (r, ds)"
  shows "(ds = [] \<longleftrightarrow> \<not> ce_webauthn ce) \<and>
    (Posted ''/api/auth/passkey/login/finish'' b \<in> set ds \<longrightarrow> (\<exists>res body sid opts c.
       ce_start ce = Responded res \<and> rs_json res = Some body \<and> js_prop body ''session_id'' = Inr sid \<and>
       ce_prompt ce opts = Prompt_credential c \<and> b = Some (login_body (ce_native ce) sid c) \<and>
       take 3 ds = [Posted ''/api/auth/passkey/login/start'' None, Prompted opts, Posted ''/api/auth/passkey/login/finish'' b])) \<and>
    (Stored t \<in> set ds \<longleftrightarrow> (\<exists>s. r = Succeeded s \<and> ls_token s = t)) \<and>
    (Stored t \<in> set ds \<longrightarrow> t \<noteq> [] \<and> (\<exists>opts body res a.
       ds = [Posted ''/api/auth/passkey/login/start'' None, Prompted opts, Posted ''/api/auth/passkey/login/finish'' (Some body), Stored t] \<and>
       ce_finish ce body = Responded res \<and> rs_ok res \<and> rs_json res = Some a \<and> js_prop a ''token'' = Inr (Some (JStr t))))"
proof -
  have none: "ds = [] \<longleftrightarrow> \<not> ce_webauthn ce"
    using assms by (auto simp: loginWithPasskeyImpl_def ceremony_prefix_def Let_def split_beta
      split: outcome.splits option.splits sum.splits prompt_result.splits if_splits)
  note course = login_course[OF assms[unfolded loginWithPasskeyImpl_def]]
  show ?thesis using none course(1)[of b] course(2,3)[of t] by simp
qed

definition object_reply :: "outcome \<Rightarrow> bool" where
  "object_reply out = (case out of Responded r \<Rightarrow> rs_ok r \<longrightarrow> (\<exists>kvs. rs_json r = Some (JObj kvs)) | Rejected n m \<Rightarrow> True)"

lemma prefix_caught:
  assumes "object_reply (ce_start ce)" "\<And>sid c e. fst (ks sid c) \<noteq> Uncaught e"
  shows "fst (ceremony_prefix path options ce ks) \<noteq> Uncaught e"
  using assms by (auto simp: ceremony_prefix_def Let_def split_beta object_reply_def js_prop_def
      split: outcome.splits option.splits prompt_result.splits)

lemma finish_caught:
  assumes "object_reply (ce_finish ce body)" "\<And>kvs e. fst (k (JObj kvs)) \<noteq> Uncaught e"
  shows "fst (finish_request path body ce k) \<noteq> Uncaught e"
  using assms by (auto simp: finish_request_def Let_def split_beta object_reply_def split: outcome.splits option.splits)

text \<open>
  C28: A ceremony always reports through its result when the server's 2xx answers are JSON
  objects: every failure, from the network, the server, malformed options or the
  authenticator, becomes a classified error, and no exception escapes.
\<close>

theorem passkey_never_uncaught:
  assumes "object_reply (ce_start le)" "\<forall>body. object_reply (ce_finish le body)"
    and "object_reply (ce_start ee)" "\<forall>body. object_reply (ce_finish ee body)"
  shows "fst (loginWithPasskeyImpl le) \<noteq> Uncaught x \<and> fst (enrollImpl ee) \<noteq> Uncaught x"
proof
  show "fst (loginWithPasskeyImpl le) \<noteq> Uncaught x"
    unfolding loginWithPasskeyImpl_def
  proof (rule prefix_caught[OF assms(1)], rule finish_caught)
    show "fst (finish_login (JObj kvs)) \<noteq> Uncaught e" for kvs e
      by (simp add: finish_login_def js_prop_def Let_def split: option.split json.split)
  qed (use assms(2) in simp)
  show "fst (enrollImpl ee) \<noteq> Uncaught x"
    unfolding enrollImpl_def
    by (rule prefix_caught[OF assms(3)], rule finish_caught) (use assms(4) in \<open>simp_all add: js_prop_def\<close>)
qed

text \<open>A login ceremony in which everything works.\<close>

definition ok_reply :: "(string \<times> json) list \<Rightarrow> outcome" where
  "ok_reply kvs = Responded \<lparr>rs_status = 200, rs_contentType = None, rs_retryAfter = None, rs_text = None, rs_json = Some (JObj kvs)\<rparr>"

definition sample_assertion :: assertion where
  "sample_assertion = \<lparr>asn_id = ''c'', asn_rawId = [1], asn_type = ''public-key'', asn_authenticatorData = [2],
     asn_clientDataJSON = [3], asn_signature = [4], asn_userHandle = None, asn_extensions = JObj []\<rparr>"

definition sample_login :: "assertion ceremony" where
  "sample_login = \<lparr>ce_webauthn = True, ce_native = True,
     ce_start = ok_reply [(''session_id'', JStr ''s''), (''publicKey'', JObj [(''challenge'', JStr ''QUJD'')])],
     ce_prompt = (\<lambda>opts. Prompt_credential sample_assertion),
     ce_finish = (\<lambda>body. ok_reply [(''token'', JStr ''k'')])\<rparr>"

lemma sample_challenge: "base64UrlDecode True ''QUJD'' = Some [65, 66, 67]"
  by code_simp

lemma sample_login_stores: "Stored ''k'' \<in> set (snd (loginWithPasskeyImpl sample_login))"
  by (simp add: loginWithPasskeyImpl_def sample_login_def ceremony_prefix_def ok_reply_def rs_ok_def js_prop_def
      request_options_def prop_of_def decode_field_def sample_challenge to_descriptors_def finish_request_def finish_login_def
      Let_def split_beta)

theorem passkey_login_stores_witness:
  "Stored ''k'' \<in> set (snd (loginWithPasskeyImpl sample_login)) \<and>
   (\<exists>s. fst (loginWithPasskeyImpl sample_login) = Succeeded s \<and> ls_token s = ''k'')"
proof -
  obtain r ds where run: "loginWithPasskeyImpl sample_login = (r, ds)" by (cases "loginWithPasskeyImpl sample_login")
  with passkey_login_stores[OF run, of None "''k''"] sample_login_stores show ?thesis by simp
qed

definition sample_enroll :: "attestation ceremony" where
  "sample_enroll = \<lparr>ce_webauthn = True, ce_native = False, ce_start = Rejected ''TypeError'' ''offline'',
     ce_prompt = (\<lambda>opts. Prompt_null), ce_finish = (\<lambda>body. Rejected ''TypeError'' ''offline'')\<rparr>"

theorem passkey_never_uncaught_witness:
  "fst (loginWithPasskeyImpl sample_login) \<noteq> Uncaught [] \<and> fst (enrollImpl sample_enroll) \<noteq> Uncaught []"
  by (rule passkey_never_uncaught) (simp_all add: sample_login_def sample_enroll_def object_reply_def ok_reply_def)

text \<open>
  A 2xx answer that is not JSON escapes both ceremonies as an uncaught rejection: the start
  body is read outside any \<open>try\<close>.
\<close>

lemma non_json_start_escapes:
  "fst (loginWithPasskeyImpl (sample_login\<lparr>ce_start := Responded \<lparr>rs_status = 200, rs_contentType = None, rs_retryAfter = None,
     rs_text = Some ''<html>'', rs_json = None\<rparr>\<rparr>)) = Uncaught bad_json"
  by (simp add: loginWithPasskeyImpl_def sample_login_def ceremony_prefix_def rs_ok_def Let_def)

section \<open>On the wire\<close>

text \<open>The value at a path of nested objects.\<close>

fun at_path :: "string list \<Rightarrow> js \<Rightarrow> js" where
  "at_path [] v = v"
| "at_path (k # ks) v = at_path ks (map_of (fields_of v) k)"

definition carries :: "json \<Rightarrow> string list \<Rightarrow> bytes \<Rightarrow> bool" where
  "carries body path bs \<longleftrightarrow> (\<exists>s. at_path path (Some body) = Some (JStr s) \<and>
     base64UrlDecode True s = Some bs \<and> base64UrlDecode False s = Some bs)"

lemma carries_b64u: "at_path path (Some body) = b64u native bs \<Longrightarrow> carries body path bs"
  by (simp add: carries_def b64u_def url_roundtrip)

lemmas wire_defs = json_obj_def map_filter_simps fields_of_def b64u_def

text \<open>
  What the authenticator produced reaches the server intact: in the body of the finish
  request every binary field decodes, on any engine, to the bytes the browser returned, and
  the session id is the one the server sent; the optional fields are left out when absent.
\<close>

theorem passkey_wire_exact:
  "carries (enroll_body n sid att) [''credential'', ''rawId''] (atn_rawId att) \<and>
   carries (enroll_body n sid att) [''credential'', ''response'', ''attestationObject''] (atn_attestationObject att) \<and>
   carries (enroll_body n sid att) [''credential'', ''response'', ''clientDataJSON''] (atn_clientDataJSON att) \<and>
   carries (login_body n sid asr) [''credential'', ''rawId''] (asn_rawId asr) \<and>
   carries (login_body n sid asr) [''credential'', ''response'', ''authenticatorData''] (asn_authenticatorData asr) \<and>
   carries (login_body n sid asr) [''credential'', ''response'', ''clientDataJSON''] (asn_clientDataJSON asr) \<and>
   carries (login_body n sid asr) [''credential'', ''response'', ''signature''] (asn_signature asr) \<and>
   (case asn_userHandle asr of
      Some u \<Rightarrow> carries (login_body n sid asr) [''credential'', ''response'', ''userHandle''] u
    | None \<Rightarrow> at_path [''credential'', ''response'', ''userHandle''] (Some (login_body n sid asr)) = None) \<and>
   at_path [''session_id''] (Some (enroll_body n sid att)) = sid \<and> at_path [''session_id''] (Some (login_body n sid asr)) = sid"
  by (cases sid; cases "asn_userHandle asr"; intro conjI)
    (auto intro!: carries_b64u[of _ _ n] simp: enroll_body_def login_body_def wire_defs)

section \<open>Server errors\<close>

definition json_error :: "response \<Rightarrow> string \<Rightarrow> bool" where
  "json_error res code \<longleftrightarrow> includes_str (case rs_contentType res of Some c \<Rightarrow> c | None \<Rightarrow> []) ''application/json'' \<and>
     rs_text res \<noteq> None \<and> (\<exists>kvs. rs_json res = Some (JObj kvs) \<and> map_of kvs ''error'' = Some (JStr code))"

lemma sudo_code:
  assumes "rs_status res = 403" "json_error res ''sudo_required_for_passkey_register''"
  shows "pk_kind (classifyHttpError res) = Pk_sudo_required"
  using assms by (auto simp: classifyHttpError_def json_error_def js_prop_def)

text \<open>
  The login view can rely on the discriminants: a refusal is classified as an unavailable
  origin exactly for a 400, and as a missing re-authentication exactly for a 403, whose JSON
  body carries the matching code; everything else is \<open>server_rejected\<close>, and a body that is
  not JSON is shown as it is.
\<close>

theorem http_error_exact:
  "(pk_kind (classifyHttpError res) = Pk_origin_unavailable \<longleftrightarrow>
      rs_status res = 400 \<and> json_error res ''passkey_unavailable_on_this_origin'') \<and>
   (pk_kind (classifyHttpError res) = Pk_sudo_required \<longleftrightarrow>
      rs_status res = 403 \<and> json_error res ''sudo_required_for_passkey_register'') \<and>
   pk_kind (classifyHttpError res) \<in> {Pk_origin_unavailable, Pk_sudo_required, Pk_server_rejected} \<and>
   (rs_json res = None \<and> rs_text res = Some (c # s) \<longrightarrow> classifyHttpError res = pk_error Pk_server_rejected (c # s))"
proof -
  have plain: "pk_kind (rejected_text res) = Pk_server_rejected" by (simp add: rejected_text_def pk_error_def Let_def)
  have none: "js_prop v k = Inr (map_of (fields_of (Some v)) k)" if "v \<noteq> JNull" for v k
    using that by (cases v) (simp_all add: js_prop_def fields_of_def)
  have err: "json_error res code \<longleftrightarrow> includes_str (case rs_contentType res of Some c \<Rightarrow> c | None \<Rightarrow> []) ''application/json'' \<and>
      rs_text res \<noteq> None \<and> (\<exists>v. rs_json res = Some v \<and> v \<noteq> JNull \<and> map_of (fields_of (Some v)) ''error'' = Some (JStr code))" for code
  proof (cases "rs_json res")
    case (Some v)
    then show ?thesis by (cases v) (simp_all add: json_error_def fields_of_def)
  qed (simp add: json_error_def)
  show ?thesis
  proof (cases "rs_json res")
    case None
    then show ?thesis using plain
    proof (intro conjI)
      show "rs_json res = None \<and> rs_text res = Some (c # s) \<longrightarrow> classifyHttpError res = pk_error Pk_server_rejected (c # s)"
        by (simp add: classifyHttpError_def rejected_text_def)
    qed (simp_all add: classifyHttpError_def json_error_def plain split: option.split)
  next
    case (Some v)
    show ?thesis
    proof (cases "v = JNull")
      case True
      with Some show ?thesis by (auto simp: classifyHttpError_def err plain js_prop_def split: option.split)
    next
      case False
      with Some show ?thesis by (auto simp: classifyHttpError_def err plain none[OF False] split: option.split)
    qed
  qed
qed

theorem http_error_exact_witness:
  "classifyHttpError \<lparr>rs_status = 401, rs_contentType = None, rs_retryAfter = None, rs_text = Some ''counter regression detected'',
     rs_json = None\<rparr> = pk_error Pk_server_rejected ''counter regression detected''"
  using http_error_exact[of "\<lparr>rs_status = 401, rs_contentType = None, rs_retryAfter = None,
     rs_text = Some ''counter regression detected'', rs_json = None\<rparr>" "CHR ''c''" "''ounter regression detected''"]
  by simp

end
