(* ===== verification/Passkey_Hook.thy ===== *)
theory Passkey_Hook
  imports Passkey_Properties
begin

text \<open>
  \<open>usePasskey\<close> while its component lives: both ceremonies split at their awaits (the headers of an
  answer, its body, the prompt), the set of abort controllers that \<open>fetchWithAbort\<close> keeps, and their abortion when the component is removed. The
  split ceremonies are shown to be \<open>enrollImpl\<close> and \<open>loginWithPasskeyImpl\<close> when they run undisturbed.
\<close>

section \<open>The pool of requests\<close>

record pool =
  rq_requests :: "nat set"
  rq_aborted :: "nat set"
  rq_next :: nat

definition pool_issue :: "pool \<Rightarrow> pool" where
  "pool_issue p = p\<lparr>rq_requests := insert (rq_next p) (rq_requests p), rq_next := Suc (rq_next p)\<rparr>"

definition pool_settle :: "nat \<Rightarrow> pool \<Rightarrow> pool" where
  "pool_settle i p = p\<lparr>rq_requests := rq_requests p - {i}\<rparr>"

definition pool_teardown :: "pool \<Rightarrow> pool" where
  "pool_teardown p = p\<lparr>rq_aborted := rq_aborted p \<union> rq_requests p, rq_requests := {}\<rparr>"

section \<open>A ceremony in steps\<close>

text \<open>What enrolment and login differ in.\<close>

record ('c, 'r) ceremony_kind =
  ck_startPath :: string
  ck_options :: "bool \<Rightarrow> js \<Rightarrow> prompt_options option"
  ck_finishPath :: string
  ck_body :: "bool \<Rightarrow> js \<Rightarrow> 'c \<Rightarrow> json"
  ck_finish :: "json \<Rightarrow> 'r ceremony_result \<times> deed list"

definition enroll_kind :: "(attestation, js) ceremony_kind" where
  "enroll_kind = \<lparr>ck_startPath = ''/api/auth/passkey/register/start'', ck_options = creation_options,
     ck_finishPath = ''/api/auth/passkey/register/finish'', ck_body = enroll_body,
     ck_finish = (\<lambda>answer. case js_prop answer ''credential_id'' of Inl e \<Rightarrow> (Uncaught e, []) | Inr v \<Rightarrow> (Succeeded v, []))\<rparr>"

definition login_kind :: "(assertion, login_success) ceremony_kind" where
  "login_kind = \<lparr>ck_startPath = ''/api/auth/passkey/login/start'', ck_options = request_options,
     ck_finishPath = ''/api/auth/passkey/login/finish'', ck_body = login_body, ck_finish = finish_login\<rparr>"

text \<open>
  Waiting for the start request, for the body of its answer, for the authenticator, for the finish
  request, or for the body of its answer; or settled. A request is awaited in two steps: the promise
  of \<open>fetch\<close> settles with the head of the answer, and only then is the body read.
\<close>

datatype 'r ceremony_stage =
    Sg_start nat
  | Sg_start_body response
  | Sg_prompt js prompt_options
  | Sg_finish nat
  | Sg_finish_body response
  | Sg_done "'r ceremony_result"

record 'r ceremony_run =
  cr_stage :: "'r ceremony_stage"
  cr_deeds :: "deed list"

definition ceremony_end :: "'r ceremony_result \<Rightarrow> deed list \<Rightarrow> 'r ceremony_run \<Rightarrow> 'r ceremony_run" where
  "ceremony_end r ds run = run\<lparr>cr_stage := Sg_done r, cr_deeds := cr_deeds run @ ds\<rparr>"

definition ceremony_begin :: "('c, 'r) ceremony_kind \<Rightarrow> bool \<Rightarrow> pool \<Rightarrow> 'r ceremony_run \<times> pool" where
  "ceremony_begin ck webauthn p =
     (if \<not> webauthn then (\<lparr>cr_stage = Sg_done (Failed unsupported_browser), cr_deeds = []\<rparr>, p)
      else (\<lparr>cr_stage = Sg_start (rq_next p), cr_deeds = [Posted (ck_startPath ck) None]\<rparr>, pool_issue p))"

text \<open>The answer to the start request is there, and its body has been read.\<close>

definition ceremony_started :: "('c, 'r) ceremony_kind \<Rightarrow> bool \<Rightarrow> response \<Rightarrow> 'r ceremony_run \<Rightarrow> 'r ceremony_run" where
  "ceremony_started ck native res run =
     (if \<not> rs_ok res then ceremony_end (Failed (classifyHttpError res)) [] run
      else (case rs_json res of
          None \<Rightarrow> ceremony_end (Uncaught bad_json) [] run
        | Some body \<Rightarrow> (case (js_prop body ''session_id'', js_prop body ''publicKey'') of
            (Inr sessionId, Inr publicKey) \<Rightarrow>
              (case ck_options ck native publicKey of
                 None \<Rightarrow> ceremony_end (Failed bad_options) [] run
               | Some opts \<Rightarrow> run\<lparr>cr_stage := Sg_prompt sessionId opts, cr_deeds := cr_deeds run @ [Prompted opts]\<rparr>)
          | (Inl e, _) \<Rightarrow> ceremony_end (Uncaught e) [] run
          | (_, Inl e) \<Rightarrow> ceremony_end (Uncaught e) [] run)))"

definition ceremony_finished :: "('c, 'r) ceremony_kind \<Rightarrow> response \<Rightarrow> 'r ceremony_run \<Rightarrow> 'r ceremony_run" where
  "ceremony_finished ck res run =
     (if \<not> rs_ok res then ceremony_end (Failed (classifyHttpError res)) [] run
      else (case rs_json res of
          None \<Rightarrow> ceremony_end (Uncaught bad_json) [] run
        | Some answer \<Rightarrow> (let (r, ds) = ck_finish ck answer in ceremony_end r ds run)))"

text \<open>
  The promise of a request settles: the \<open>finally\<close> of \<open>fetchWithAbort\<close> takes its controller out of
  the pool, a rejection ends the ceremony, and of an answer the body is read next.
\<close>

definition ceremony_answered :: "outcome \<Rightarrow> 'r ceremony_run \<Rightarrow> pool \<Rightarrow> 'r ceremony_run \<times> pool" where
  "ceremony_answered out run p = (case cr_stage run of
       Sg_start i \<Rightarrow> ((case out of
           Rejected name message \<Rightarrow> ceremony_end (Failed (pk_error Pk_network (unreachable message))) [] run
         | Responded res \<Rightarrow> run\<lparr>cr_stage := Sg_start_body res\<rparr>), pool_settle i p)
     | Sg_finish i \<Rightarrow> ((case out of
           Rejected name message \<Rightarrow> ceremony_end (Failed (pk_error Pk_network (unreachable message))) [] run
         | Responded res \<Rightarrow> run\<lparr>cr_stage := Sg_finish_body res\<rparr>), pool_settle i p)
     | _ \<Rightarrow> (run, p))"

text \<open>The body has been read: the ceremony goes on.\<close>

definition ceremony_read :: "('c, 'r) ceremony_kind \<Rightarrow> bool \<Rightarrow> 'r ceremony_run \<Rightarrow> 'r ceremony_run" where
  "ceremony_read ck native run = (case cr_stage run of
       Sg_start_body res \<Rightarrow> ceremony_started ck native res run
     | Sg_finish_body res \<Rightarrow> ceremony_finished ck res run
     | _ \<Rightarrow> run)"

definition ceremony_prompted ::
    "('c, 'r) ceremony_kind \<Rightarrow> bool \<Rightarrow> 'c prompt_result \<Rightarrow> 'r ceremony_run \<Rightarrow> pool \<Rightarrow> 'r ceremony_run \<times> pool" where
  "ceremony_prompted ck native result run p = (case cr_stage run of
       Sg_prompt sessionId opts \<Rightarrow> (case result of
           Prompt_threw e \<Rightarrow> (ceremony_end (Failed (classifyDomError e)) [] run, p)
         | Prompt_null \<Rightarrow> (ceremony_end (Failed (pk_error Pk_cancelled ''Passkey prompt was cancelled.'')) [] run, p)
         | Prompt_credential c \<Rightarrow>
             (run\<lparr>cr_stage := Sg_finish (rq_next p), cr_deeds := cr_deeds run @
                [Posted (ck_finishPath ck) (Some (ck_body ck native sessionId c))]\<rparr>, pool_issue p))
     | _ \<Rightarrow> (run, p))"

text \<open>One ceremony with nothing in between.\<close>

definition ceremony_alone :: "('c, 'r) ceremony_kind \<Rightarrow> 'c ceremony \<Rightarrow> pool \<Rightarrow> 'r ceremony_run \<times> pool" where
  "ceremony_alone ck ce p0 =
     (let native = ce_native ce;
          (r1, p1) = ceremony_begin ck (ce_webauthn ce) p0;
          (ra, p2) = ceremony_answered (ce_start ce) r1 p1;
          r2 = ceremony_read ck native ra in
      case cr_stage r2 of
        Sg_prompt sessionId opts \<Rightarrow>
          (let (r3, p3) = ceremony_prompted ck native (ce_prompt ce opts) r2 p2 in
           case ce_prompt ce opts of
             Prompt_credential c \<Rightarrow>
               (let (r4, p4) = ceremony_answered (ce_finish ce (ck_body ck native sessionId c)) r3 p3
                in (ceremony_read ck native r4, p4))
           | _ \<Rightarrow> (r3, p3))
      | _ \<Rightarrow> (r2, p2))"

section \<open>The mounted hook\<close>

datatype passkey_run = Enrolling "js ceremony_run" | Logging_in "login_success ceremony_run"

record passkey_hook =
  ph_pool :: pool
  ph_runs :: "passkey_run list"
  ph_mounted :: bool

definition mount_passkey :: passkey_hook where
  "mount_passkey = \<lparr>ph_pool = \<lparr>rq_requests = {}, rq_aborted = {}, rq_next = 0\<rparr>, ph_runs = [], ph_mounted = True\<rparr>"

text \<open>Enrolment and login are called, the daemon answers the call with a number, the body of the answer
  has been read, the authenticator answers the call, and the component is removed.\<close>

datatype passkey_event =
    Pk_enroll bool
  | Pk_login bool
  | Pk_answer nat outcome
  | Pk_body nat bool
  | Pk_created nat bool "attestation prompt_result"
  | Pk_got nat bool "assertion prompt_result"
  | Pk_unmount

definition add_run :: "passkey_run \<Rightarrow> pool \<Rightarrow> passkey_hook \<Rightarrow> passkey_hook" where
  "add_run run p h = h\<lparr>ph_runs := ph_runs h @ [run], ph_pool := p\<rparr>"

definition set_run :: "nat \<Rightarrow> passkey_run \<Rightarrow> pool \<Rightarrow> passkey_hook \<Rightarrow> passkey_hook" where
  "set_run k run p h = h\<lparr>ph_runs := (ph_runs h)[k := run], ph_pool := p\<rparr>"

fun passkey_step :: "passkey_event \<Rightarrow> passkey_hook \<Rightarrow> passkey_hook" where
  "passkey_step (Pk_enroll webauthn) h =
     (let (r, p) = ceremony_begin enroll_kind webauthn (ph_pool h) in add_run (Enrolling r) p h)"
| "passkey_step (Pk_login webauthn) h =
     (let (r, p) = ceremony_begin login_kind webauthn (ph_pool h) in add_run (Logging_in r) p h)"
| "passkey_step (Pk_answer k out) h = (case ph_runs h ! k of
       Enrolling run \<Rightarrow> (let (r, p) = ceremony_answered out run (ph_pool h) in set_run k (Enrolling r) p h)
     | Logging_in run \<Rightarrow> (let (r, p) = ceremony_answered out run (ph_pool h) in set_run k (Logging_in r) p h))"
| "passkey_step (Pk_body k native) h = (case ph_runs h ! k of
       Enrolling run \<Rightarrow> set_run k (Enrolling (ceremony_read enroll_kind native run)) (ph_pool h) h
     | Logging_in run \<Rightarrow> set_run k (Logging_in (ceremony_read login_kind native run)) (ph_pool h) h)"
| "passkey_step (Pk_created k native result) h = (case ph_runs h ! k of
       Enrolling run \<Rightarrow> (let (r, p) = ceremony_prompted enroll_kind native result run (ph_pool h) in set_run k (Enrolling r) p h)
     | Logging_in run \<Rightarrow> h)"
| "passkey_step (Pk_got k native result) h = (case ph_runs h ! k of
       Enrolling run \<Rightarrow> h
     | Logging_in run \<Rightarrow> (let (r, p) = ceremony_prompted login_kind native result run (ph_pool h) in set_run k (Logging_in r) p h))"
| "passkey_step Pk_unmount h = h\<lparr>ph_pool := pool_teardown (ph_pool h), ph_mounted := False\<rparr>"

text \<open>The request a call waits for, its effects so far, and whether it ended with an error.\<close>

definition awaits :: "'r ceremony_run \<Rightarrow> nat set" where
  "awaits run = (case cr_stage run of Sg_start i \<Rightarrow> {i} | Sg_finish i \<Rightarrow> {i} | _ \<Rightarrow> {})"

definition gave_up :: "'r ceremony_run \<Rightarrow> bool" where
  "gave_up run = (case cr_stage run of Sg_done (Failed e) \<Rightarrow> True | _ \<Rightarrow> False)"

fun run_awaits :: "passkey_run \<Rightarrow> nat set" where
  "run_awaits (Enrolling r) = awaits r"
| "run_awaits (Logging_in r) = awaits r"

fun run_deeds :: "passkey_run \<Rightarrow> deed list" where
  "run_deeds (Enrolling r) = cr_deeds r"
| "run_deeds (Logging_in r) = cr_deeds r"

fun run_gave_up :: "passkey_run \<Rightarrow> bool" where
  "run_gave_up (Enrolling r) = gave_up r"
| "run_gave_up (Logging_in r) = gave_up r"

text \<open>
  The buttons that start a ceremony are gone with the component; an aborted request rejects. A body
  is read to its end whatever happens: its controller has left the pool.
\<close>

fun passkey_enabled :: "passkey_event \<Rightarrow> passkey_hook \<Rightarrow> bool" where
  "passkey_enabled (Pk_enroll webauthn) h = ph_mounted h"
| "passkey_enabled (Pk_login webauthn) h = ph_mounted h"
| "passkey_enabled (Pk_answer k out) h = (k < length (ph_runs h) \<and>
     (run_awaits (ph_runs h ! k) \<inter> rq_aborted (ph_pool h) = {} \<or> (case out of Rejected n m \<Rightarrow> True | Responded r \<Rightarrow> False)))"
| "passkey_enabled (Pk_body k native) h = (k < length (ph_runs h))"
| "passkey_enabled (Pk_created k native result) h = (k < length (ph_runs h))"
| "passkey_enabled (Pk_got k native result) h = (k < length (ph_runs h))"
| "passkey_enabled Pk_unmount h = ph_mounted h"

inductive passkey_reaches :: "passkey_hook \<Rightarrow> bool" where
  passkey_mount: "passkey_reaches mount_passkey"
| passkey_event: "passkey_reaches h \<Longrightarrow> passkey_enabled e h \<Longrightarrow> passkey_reaches (passkey_step e h)"

text \<open>A list of events that the hook goes through.\<close>

fun passkey_path :: "passkey_event list \<Rightarrow> passkey_hook \<Rightarrow> passkey_hook \<Rightarrow> bool" where
  "passkey_path [] h h' \<longleftrightarrow> h' = h"
| "passkey_path (e # es) h h' \<longleftrightarrow> passkey_enabled e h \<and> passkey_path es (passkey_step e h) h'"

section \<open>The pool\<close>

text \<open>What a call waits for is in the pool, or was aborted there.\<close>

definition pool_ok :: "nat \<Rightarrow> (nat \<Rightarrow> nat set) \<Rightarrow> pool \<Rightarrow> bool" where
  "pool_ok n A p \<longleftrightarrow>
     (\<forall>k. k < n \<longrightarrow> A k \<subseteq> rq_requests p \<union> rq_aborted p) \<and>
     rq_requests p \<union> rq_aborted p \<subseteq> {..<rq_next p} \<and>
     (\<forall>j k. j < n \<longrightarrow> k < n \<longrightarrow> j \<noteq> k \<longrightarrow> A j \<inter> A k = {})"

definition waits_at :: "passkey_run list \<Rightarrow> nat \<Rightarrow> nat set" where
  "waits_at runs k = run_awaits (runs ! k)"

definition pool_inv :: "passkey_hook \<Rightarrow> bool" where
  "pool_inv h \<longleftrightarrow> pool_ok (length (ph_runs h)) (waits_at (ph_runs h)) (ph_pool h)"

text \<open>What one piece of a ceremony does to the request it waits for and to the pool.\<close>

definition piece :: "nat set \<Rightarrow> pool \<Rightarrow> nat set \<Rightarrow> pool \<Rightarrow> bool" where
  "piece A p A' p' \<longleftrightarrow> (A' = {} \<or> A' = A) \<and> p' = p \<or> (\<exists>i. A = {i} \<and> A' = {} \<and> p' = pool_settle i p) \<or>
     A' = {rq_next p} \<and> p' = pool_issue p"

lemma pool_simps [simp]:
  "rq_next (pool_issue p) = Suc (rq_next p)" "rq_aborted (pool_issue p) = rq_aborted p"
  "rq_requests (pool_issue p) = insert (rq_next p) (rq_requests p)"
  "rq_next (pool_settle i p) = rq_next p" "rq_aborted (pool_settle i p) = rq_aborted p"
  "rq_requests (pool_settle i p) = rq_requests p - {i}"
  by (simp_all add: pool_issue_def pool_settle_def)

lemma pool_ok_cong: "(\<And>k. k < n \<Longrightarrow> A k = B k) \<Longrightarrow> pool_ok n A p = pool_ok n B p"
  by (auto simp: pool_ok_def)

lemma pool_ok_below: "pool_ok n A p \<Longrightarrow> k < n \<Longrightarrow> rq_next p \<notin> A k"
  unfolding pool_ok_def by blast

lemma pool_ok_idle: "pool_ok n A p \<Longrightarrow> pool_ok n (A(k := {})) p"
  by (simp add: pool_ok_def)

lemma pool_ok_settle:
  assumes "pool_ok n A p" and "A k = {i}" and "k < n"
  shows "pool_ok n (A(k := {})) (pool_settle i p)"
proof -
  have "A j \<subseteq> rq_requests p - {i} \<union> rq_aborted p" if "j < n" "j \<noteq> k" for j
  proof -
    have "A j \<inter> A k = {}" using assms that unfolding pool_ok_def by blast
    then show ?thesis using assms(1,2) that unfolding pool_ok_def by blast
  qed
  with assms(1) show ?thesis by (auto simp: pool_ok_def pool_settle_def)
qed

lemma pool_ok_issue:
  assumes "pool_ok n A p" and "k < n"
  shows "pool_ok n (A(k := {rq_next p})) (pool_issue p)"
proof -
  have below: "rq_next p \<notin> A j" if "j < n" for j using pool_ok_below[OF assms(1) that] .
  have "A j \<subseteq> insert (rq_next p) (rq_requests p) \<union> rq_aborted p" if "j < n" for j
    using assms(1) that unfolding pool_ok_def by blast
  moreover have "insert (rq_next p) (rq_requests p) \<union> rq_aborted p \<subseteq> {..<Suc (rq_next p)}"
    using assms(1) unfolding pool_ok_def by (auto simp: less_Suc_eq)
  moreover have "A i \<inter> A j = {}" if "i < n" "j < n" "i \<noteq> j" for i j
    using assms(1) that unfolding pool_ok_def by blast
  ultimately show ?thesis using below by (simp add: pool_ok_def pool_issue_def)
qed

lemma pool_ok_grow: "pool_ok n A p \<Longrightarrow> A n = {} \<Longrightarrow> pool_ok (Suc n) A p"
  by (auto simp: pool_ok_def less_Suc_eq)

lemma pool_ok_teardown: "pool_ok n A p \<Longrightarrow> pool_ok n A (pool_teardown p)"
  by (auto simp: pool_ok_def pool_teardown_def)

lemma pool_inv_piece:
  assumes "pool_inv h" and "k < length (ph_runs h)" and "piece (run_awaits (ph_runs h ! k)) (ph_pool h) (run_awaits run) p"
  shows "pool_inv (set_run k run p h)"
proof -
  note inv = assms(1)[unfolded pool_inv_def]
  have "pool_inv (set_run k run p h) \<longleftrightarrow> pool_ok (length (ph_runs h)) ((waits_at (ph_runs h))(k := run_awaits run)) p"
    unfolding pool_inv_def set_run_def using assms(2)
    by (auto simp: waits_at_def nth_list_update intro!: pool_ok_cong)
  moreover have "(waits_at (ph_runs h))(k := run_awaits (ph_runs h ! k)) = waits_at (ph_runs h)"
    by (simp add: waits_at_def fun_eq_iff)
  ultimately show ?thesis
    using assms(3) inv pool_ok_idle[OF inv, of k] pool_ok_issue[OF inv assms(2)] pool_ok_settle[OF inv _ assms(2)]
    by (auto simp: piece_def waits_at_def)
qed

lemma pool_inv_add:
  assumes "pool_inv h" and "piece {} (ph_pool h) (run_awaits run) p"
  shows "pool_inv (add_run run p h)"
proof -
  let ?n = "length (ph_runs h)" and ?A = "(waits_at (ph_runs h))(length (ph_runs h) := {})"
  have old: "pool_ok ?n ?A (ph_pool h)" using assms(1) by (simp add: pool_inv_def pool_ok_idle)
  then have grown: "pool_ok (Suc ?n) ?A (ph_pool h)" by (rule pool_ok_grow) simp
  from pool_ok_issue[OF grown, of ?n]
  have new: "pool_ok (Suc ?n) ((waits_at (ph_runs h))(?n := {rq_next (ph_pool h)})) (pool_issue (ph_pool h))" by simp
  have at: "pool_ok (Suc ?n) (waits_at (ph_runs h @ [run])) p =
      pool_ok (Suc ?n) ((waits_at (ph_runs h))(?n := run_awaits run)) p"
    by (rule pool_ok_cong) (auto simp: waits_at_def nth_append less_Suc_eq)
  show ?thesis
    using grown new assms(2) by (auto simp: pool_inv_def add_run_def at piece_def)
qed

section \<open>Pieces of a ceremony\<close>

lemma ceremony_end_simps [simp]:
  "cr_stage (ceremony_end r ds run) = Sg_done r" "cr_deeds (ceremony_end r ds run) = cr_deeds run @ ds"
  by (simp_all add: ceremony_end_def)

lemma started_awaits [simp]: "awaits (ceremony_started ck native res run) = {}"
  by (auto simp: ceremony_started_def awaits_def split: option.split sum.split)

lemma finished_awaits [simp]: "awaits (ceremony_finished ck res run) = {}"
  by (auto simp: ceremony_finished_def awaits_def split_beta split: option.split)

lemma begin_piece: "ceremony_begin ck webauthn p = (r, p') \<Longrightarrow> piece {} p (awaits r) p'"
  by (auto simp: ceremony_begin_def awaits_def piece_def split: if_splits)

lemma answered_piece: "ceremony_answered out run p = (r, p') \<Longrightarrow> piece (awaits run) p (awaits r) p'"
  by (cases "cr_stage run"; cases out) (auto simp: ceremony_answered_def piece_def awaits_def)

lemma read_awaits: "awaits (ceremony_read ck native run) = awaits run"
  by (cases "cr_stage run") (simp_all add: ceremony_read_def awaits_def[of run])

lemma read_piece: "piece (awaits run) p (awaits (ceremony_read ck native run)) p"
  by (simp add: piece_def read_awaits)

lemma prompted_piece: "ceremony_prompted ck native result run p = (r, p') \<Longrightarrow> piece (awaits run) p (awaits r) p'"
  by (cases "cr_stage run"; cases result) (auto simp: ceremony_prompted_def piece_def awaits_def)

lemma pool_inv_unmount: "pool_inv h \<Longrightarrow> pool_inv (passkey_step Pk_unmount h)"
  by (simp add: pool_inv_def pool_ok_teardown)

lemmas ceremony_pieces = begin_piece answered_piece read_piece prompted_piece

lemma pool_inv_step: "pool_inv h \<Longrightarrow> passkey_enabled e h \<Longrightarrow> pool_inv (passkey_step e h)"
  using pool_inv_unmount[of h]
  by (cases e) (auto intro!: pool_inv_piece pool_inv_add intro: ceremony_pieces split: passkey_run.split prod.split)

lemma pool_inv_reaches: "passkey_reaches h \<Longrightarrow> pool_inv h"
proof (induction rule: passkey_reaches.induct)
  case passkey_mount
  show ?case by (simp add: pool_inv_def pool_ok_def mount_passkey_def)
next
  case (passkey_event h e)
  then show ?case by (simp add: pool_inv_step)
qed

text \<open>The steps against the whole ceremony: up to the prompt, and from the finish request on.\<close>

lemma started_prefix:
  assumes "ce_webauthn ce" "cr_stage run = Sg_start i"
  shows "ceremony_prefix path (ck_options ck) ce ks =
    (case cr_stage (ceremony_read ck (ce_native ce) (fst (ceremony_answered (ce_start ce) run p))) of
       Sg_done r \<Rightarrow> (r, [Posted path None])
     | Sg_prompt sid opts \<Rightarrow>
         (case ce_prompt ce opts of
            Prompt_threw e \<Rightarrow> (Failed (classifyDomError e), [Posted path None, Prompted opts])
          | Prompt_null \<Rightarrow> (Failed (pk_error Pk_cancelled ''Passkey prompt was cancelled.''), [Posted path None, Prompted opts])
          | Prompt_credential c \<Rightarrow> (fst (ks sid c), [Posted path None, Prompted opts] @ snd (ks sid c)))
     | _ \<Rightarrow> (Uncaught [], []))"
  using assms by (simp add: ceremony_prefix_def ceremony_answered_def ceremony_read_def ceremony_started_def Let_def split_beta
      split: outcome.split option.split sum.split prompt_result.split)

lemma started_stages:
  assumes "cr_stage run = Sg_start i" "r2 = ceremony_read ck native (fst (ceremony_answered out run p))"
  obtains r where "cr_stage r2 = Sg_done r" "cr_deeds r2 = cr_deeds run"
  | sid opts where "cr_stage r2 = Sg_prompt sid opts" "cr_deeds r2 = cr_deeds run @ [Prompted opts]"
  using assms
  by (auto simp: ceremony_answered_def ceremony_read_def ceremony_started_def split: outcome.splits option.splits sum.splits if_splits)

lemma finished_request:
  obtains r ds where "finish_request path body ce (ck_finish ck) = (r, Posted path (Some body) # ds)"
    "\<And>run i p. cr_stage run = Sg_finish i \<Longrightarrow>
      cr_stage (ceremony_read ck native (fst (ceremony_answered (ce_finish ce body) run p))) = Sg_done r \<and>
      cr_deeds (ceremony_read ck native (fst (ceremony_answered (ce_finish ce body) run p))) = cr_deeds run @ ds"
proof
  let ?f = "finish_request path body ce (ck_finish ck)"
  show "?f = (fst ?f, Posted path (Some body) # tl (snd ?f))"
    by (simp add: finish_request_def split_beta split: outcome.split option.split)
  show "cr_stage (ceremony_read ck native (fst (ceremony_answered (ce_finish ce body) run p))) = Sg_done (fst ?f) \<and>
      cr_deeds (ceremony_read ck native (fst (ceremony_answered (ce_finish ce body) run p))) = cr_deeds run @ tl (snd ?f)"
    if "cr_stage run = Sg_finish i" for run i p
    using that by (simp add: ceremony_answered_def ceremony_read_def ceremony_finished_def finish_request_def split_beta
        split: outcome.split option.split)
qed

lemma answered_pool: "cr_stage run = Sg_start i \<or> cr_stage run = Sg_finish i \<Longrightarrow> snd (ceremony_answered out run p) = pool_settle i p"
  by (auto simp: ceremony_answered_def)

text \<open>
  An enrolment or a login that nothing interrupts, taken step by step with the same surroundings,
  ends with the result and the effects of the whole ceremony, and leaves no request in the pool.
\<close>

lemma alone_is_ceremony:
  fixes ck :: "('c, 'r) ceremony_kind"
  assumes "ceremony_alone ck ce p = (run, p')" and "rq_requests p \<subseteq> {..<rq_next p}"
    and whole: "whole = ceremony_prefix (ck_startPath ck) (ck_options ck) ce
      (\<lambda>sid c. finish_request (ck_finishPath ck) (ck_body ck (ce_native ce) sid c) ce (ck_finish ck))"
  shows "cr_stage run = Sg_done (fst whole) \<and> cr_deeds run = snd whole \<and>
    rq_requests p' = rq_requests p \<and> rq_aborted p' = rq_aborted p"
proof (cases "ce_webauthn ce")
  case False
  then show ?thesis using assms(1)
    by (auto simp: ceremony_alone_def ceremony_begin_def ceremony_answered_def ceremony_read_def whole ceremony_prefix_def)
next
  case True
  define r1 :: "'r ceremony_run" where "r1 = \<lparr>cr_stage = Sg_start (rq_next p), cr_deeds = [Posted (ck_startPath ck) None]\<rparr>"
  have r1: "cr_stage r1 = Sg_start (rq_next p)" "cr_deeds r1 = [Posted (ck_startPath ck) None]" by (simp_all add: r1_def)
  define r2 where "r2 = ceremony_read ck (ce_native ce) (fst (ceremony_answered (ce_start ce) r1 (pool_issue p)))"
  let ?p2 = "pool_settle (rq_next p) (pool_issue p)"
  have new: "rq_next p \<notin> rq_requests p" "Suc (rq_next p) \<notin> rq_requests p" using assms(2) by auto
  note pre = started_prefix[OF True r1(1), of "ck_startPath ck" ck _ "pool_issue p", folded r2_def]
  have start: "ceremony_begin ck (ce_webauthn ce) p = (r1, pool_issue p)" by (simp add: ceremony_begin_def r1_def True)
  have answered: "ceremony_answered (ce_start ce) r1 (pool_issue p) = (fst (ceremony_answered (ce_start ce) r1 (pool_issue p)), ?p2)"
    using answered_pool[of r1 "rq_next p"] r1(1) by (simp add: prod_eq_iff)
  have alone: "ceremony_alone ck ce p = (case cr_stage r2 of
        Sg_prompt sessionId opts \<Rightarrow>
          (let (r3, p3) = ceremony_prompted ck (ce_native ce) (ce_prompt ce opts) r2 ?p2 in
           case ce_prompt ce opts of
             Prompt_credential c \<Rightarrow>
               (let (r4, p4) = ceremony_answered (ce_finish ce (ck_body ck (ce_native ce) sessionId c)) r3 p3
                in (ceremony_read ck (ce_native ce) r4, p4))
           | _ \<Rightarrow> (r3, p3))
      | _ \<Rightarrow> (r2, ?p2))"
    unfolding ceremony_alone_def Let_def start prod.case by (subst answered, unfold r2_def prod.case, rule HOL.refl)
  from r1(1) r2_def show ?thesis
  proof (cases rule: started_stages)
    case (1 r)
    then show ?thesis using assms(1) new by (auto simp: alone whole pre r1)
  next
    case (2 sid opts)
    show ?thesis
    proof (cases "ce_prompt ce opts")
      case (Prompt_credential c)
      let ?body = "ck_body ck (ce_native ce) sid c"
      let ?r3 = "r2\<lparr>cr_stage := Sg_finish (rq_next ?p2), cr_deeds := cr_deeds r2 @ [Posted (ck_finishPath ck) (Some ?body)]\<rparr>"
      obtain r ds where fin: "finish_request (ck_finishPath ck) ?body ce (ck_finish ck) = (r, Posted (ck_finishPath ck) (Some ?body) # ds)"
        and ends: "\<And>run i p. cr_stage run = Sg_finish i \<Longrightarrow>
          cr_stage (ceremony_read ck (ce_native ce) (fst (ceremony_answered (ce_finish ce ?body) run p))) = Sg_done r \<and>
          cr_deeds (ceremony_read ck (ce_native ce) (fst (ceremony_answered (ce_finish ce ?body) run p))) = cr_deeds run @ ds"
        using finished_request[of "ck_finishPath ck" ?body ce ck "ce_native ce"] by blast
      note last = ends[of ?r3 "rq_next ?p2" "pool_issue ?p2"]
      have pool: "snd (ceremony_answered (ce_finish ce ?body) ?r3 (pool_issue ?p2)) = pool_settle (rq_next ?p2) (pool_issue ?p2)"
        by (rule answered_pool) simp
      have "run = ceremony_read ck (ce_native ce) (fst (ceremony_answered (ce_finish ce ?body) ?r3 (pool_issue ?p2)))"
        "p' = pool_settle (rq_next ?p2) (pool_issue ?p2)"
        using assms(1) pool unfolding alone 2(1) by (simp_all add: Prompt_credential ceremony_prompted_def 2(1) split_beta)
      with last new show ?thesis by (simp add: whole pre 2 Prompt_credential fin r1)
    qed (use assms(1) new 2 in \<open>auto simp: alone whole pre ceremony_prompted_def r1\<close>)
  qed
qed

section \<open>After teardown\<close>

text \<open>A call whose request was aborted: it still waits, or it gave up, and did nothing since.\<close>

definition silenced :: "nat \<Rightarrow> passkey_run \<Rightarrow> passkey_hook \<Rightarrow> bool" where
  "silenced k run h \<longleftrightarrow> k < length (ph_runs h) \<and> run_deeds (ph_runs h ! k) = run_deeds run \<and>
     (ph_runs h ! k = run \<and> run_awaits run \<inter> rq_aborted (ph_pool h) \<noteq> {} \<or> run_gave_up (ph_runs h ! k))"

lemma aborted_rejects:
  "ceremony_answered (Rejected n m) run p = (r, p') \<Longrightarrow> i \<in> awaits run \<Longrightarrow> gave_up r \<and> cr_deeds r = cr_deeds run"
  by (auto simp: awaits_def ceremony_answered_def gave_up_def split: ceremony_stage.splits)

lemma gave_up_stays:
  "gave_up run \<Longrightarrow> ceremony_answered out run p = (run, p)"
  "gave_up run \<Longrightarrow> ceremony_prompted ck native result run p = (run, p)"
  "awaits run \<noteq> {} \<Longrightarrow> ceremony_prompted ck native result run p = (run, p)"
  "gave_up run \<or> awaits run \<noteq> {} \<Longrightarrow> ceremony_read ck native run = run"
  by (auto simp: gave_up_def awaits_def ceremony_answered_def ceremony_prompted_def ceremony_read_def split: ceremony_stage.splits)

lemma piece_aborted: "piece A p A' p' \<Longrightarrow> rq_aborted p' = rq_aborted p"
  by (auto simp: piece_def)

lemma silenced_add:
  "silenced k run h \<Longrightarrow> piece {} (ph_pool h) A p \<Longrightarrow> silenced k run (add_run run' p h)"
  using piece_aborted by (auto simp: silenced_def add_run_def nth_append)

lemma silenced_set:
  "silenced k run h \<Longrightarrow> piece B (ph_pool h) A p \<Longrightarrow> j \<noteq> k \<Longrightarrow> silenced k run (set_run j run' p h)"
  using piece_aborted by (auto simp: silenced_def set_run_def)

lemma silenced_answered:
  assumes "silenced k run h" and "passkey_enabled (Pk_answer j out) h"
  shows "silenced k run (passkey_step (Pk_answer j out) h)"
proof (cases "j = k")
  case False
  with assms(1) show ?thesis
    by (auto intro!: silenced_set intro: answered_piece split: passkey_run.split prod.split)
next
  case True
  show ?thesis
  proof (cases "run_gave_up (ph_runs h ! k)")
    case given: True
    with assms(1) True show ?thesis
      by (cases "ph_runs h ! k") (auto simp: gave_up_stays silenced_def set_run_def)
  next
    case False
    with assms(1) have *: "ph_runs h ! k = run" "run_awaits run \<noteq> {}" "run_awaits run \<inter> rq_aborted (ph_pool h) \<noteq> {}" "k < length (ph_runs h)"
      by (auto simp: silenced_def)
    with assms(2) True obtain n m where out: "out = Rejected n m" by (cases out) auto
    from * show ?thesis unfolding True out
      by (cases run) (auto simp: silenced_def set_run_def dest: aborted_rejects split: prod.split)
  qed
qed

lemma prompted_idle:
  assumes "silenced k run h"
  shows "passkey_step (Pk_created k native result) h = h" "passkey_step (Pk_got k native result') h = h"
    "passkey_step (Pk_body k native) h = h"
proof -
  have "run_awaits (ph_runs h ! k) \<noteq> {} \<or> run_gave_up (ph_runs h ! k)" using assms by (auto simp: silenced_def)
  then show "passkey_step (Pk_created k native result) h = h" "passkey_step (Pk_got k native result') h = h"
    "passkey_step (Pk_body k native) h = h"
    using list_update_id[of "ph_runs h" k]
    by (cases "ph_runs h ! k"; elim disjE; simp add: gave_up_stays set_run_def)+
qed

lemma silenced_step:
  assumes "silenced k run h" and "passkey_enabled e h"
  shows "silenced k run (passkey_step e h)"
proof (cases e)
  case (Pk_answer j out)
  with assms silenced_answered show ?thesis by simp
next
  case (Pk_body j native)
  with assms(1) prompted_idle[OF assms(1)] show ?thesis
    by (cases "j = k") (auto intro!: silenced_set intro: read_piece split: passkey_run.split)
next
  case (Pk_created j native result)
  with assms(1) prompted_idle[OF assms(1)] show ?thesis
    by (cases "j = k") (auto intro!: silenced_set intro: prompted_piece split: passkey_run.split prod.split)
next
  case (Pk_got j native result)
  with assms(1) prompted_idle[OF assms(1)] show ?thesis
    by (cases "j = k") (auto intro!: silenced_set intro: prompted_piece split: passkey_run.split prod.split)
qed (use assms in \<open>auto intro!: silenced_add intro: begin_piece split: prod.split, auto simp: silenced_def pool_teardown_def\<close>)

lemma silenced_path: "passkey_path es h h' \<Longrightarrow> silenced k run h \<Longrightarrow> silenced k run h'"
  by (induction es arbitrary: h) (auto intro: silenced_step)

lemma teardown_aborts:
  assumes "pool_inv h" and "k < length (ph_runs h)" and "run_awaits (ph_runs h ! k) \<noteq> {}"
  shows "silenced k (ph_runs h ! k) (passkey_step Pk_unmount h)"
proof -
  have "run_awaits (ph_runs h ! k) \<subseteq> rq_aborted (pool_teardown (ph_pool h))"
    using assms(1,2) by (auto simp: pool_inv_def pool_ok_def waits_at_def pool_teardown_def)
  with assms(2,3) show ?thesis by (auto simp: silenced_def)
qed

section \<open>Properties\<close>

text \<open>C29: Removing the component silences the requests. Of a ceremony with a request that the daemon has
  not begun to answer when the component goes, nothing more comes, whatever happens afterwards: it
  sends nothing, prompts for nothing and stores no token; it waits, or ends with an error. Nothing is said of
  a ceremony whose answer has begun to arrive, or that waits for the authenticator.\<close>

theorem teardown_silences:
  assumes "passkey_reaches h" and "passkey_path (Pk_unmount # es) h h'"
    and "k < length (ph_runs h)" and "run_awaits (ph_runs h ! k) \<noteq> {}"
  shows "run_deeds (ph_runs h' ! k) = run_deeds (ph_runs h ! k) \<and>
    (ph_runs h' ! k = ph_runs h ! k \<or> run_gave_up (ph_runs h' ! k))"
proof -
  from assms(2) have path: "passkey_path es (passkey_step Pk_unmount h) h'" by simp
  from silenced_path[OF path teardown_aborts[OF pool_inv_reaches[OF assms(1)] assms(3,4)]]
  show ?thesis by (auto simp: silenced_def)
qed

definition waiting_hook :: passkey_hook where
  "waiting_hook = passkey_step (Pk_login True) mount_passkey"

lemma waiting_hook_reaches: "passkey_reaches waiting_hook"
  unfolding waiting_hook_def by (intro passkey_event passkey_mount) (simp add: mount_passkey_def)

lemma waiting_hook_runs:
  "ph_runs waiting_hook = [Logging_in \<lparr>cr_stage = Sg_start 0, cr_deeds = [Posted ''/api/auth/passkey/login/start'' None]\<rparr>]"
  "ph_mounted waiting_hook"
  by (simp_all add: waiting_hook_def ceremony_begin_def mount_passkey_def add_run_def login_kind_def)

theorem teardown_silences_witness:
  "run_deeds (ph_runs (passkey_step (Pk_answer 0 (Rejected ''AbortError'' [])) (passkey_step Pk_unmount waiting_hook)) ! 0) =
     [Posted ''/api/auth/passkey/login/start'' None]"
proof -
  let ?e = "Pk_answer 0 (Rejected ''AbortError'' [])"
  have path: "passkey_path (Pk_unmount # [?e]) waiting_hook (passkey_step ?e (passkey_step Pk_unmount waiting_hook))"
    by (simp add: waiting_hook_runs del: passkey_step.simps) (simp add: waiting_hook_runs)
  have "run_awaits (ph_runs waiting_hook ! 0) \<noteq> {}" by (simp add: waiting_hook_runs awaits_def)
  from teardown_silences[OF waiting_hook_reaches path _ this] show ?thesis by (simp add: waiting_hook_runs del: passkey_step.simps)
qed

text \<open>The prompt is not a request. A login that waits for the authenticator when the component goes
  is not stopped: when the user answers the prompt it sends its finish request, with a controller
  that nobody will abort, and a good answer to that stores the token.\<close>

theorem prompt_outlives_teardown:
  assumes "passkey_reaches h" and "k < length (ph_runs h)" and "ph_runs h ! k = Logging_in run" and "cr_stage run = Sg_prompt sid opts"
    and "ph_mounted h" and "rs_ok res" and "rs_json res = Some answer" and "js_prop answer ''token'' = Inr (Some (JStr t))" and "t \<noteq> []"
  shows "\<exists>h'. passkey_path [Pk_unmount, Pk_got k native (Prompt_credential asr), Pk_answer k (Responded res), Pk_body k native] h h' \<and>
    run_deeds (ph_runs h' ! k) = run_deeds (ph_runs h ! k) @
      [Posted ''/api/auth/passkey/login/finish'' (Some (login_body native sid asr)), Stored t]"
proof -
  have "rq_next (ph_pool h) \<notin> rq_aborted (pool_teardown (ph_pool h))"
    using pool_inv_reaches[OF assms(1)] by (auto simp: pool_inv_def pool_ok_def pool_teardown_def)
  moreover have "rq_next (pool_teardown (ph_pool h)) = rq_next (ph_pool h)" by (simp add: pool_teardown_def)
  ultimately show ?thesis using assms
    by (simp add: ceremony_prompted_def ceremony_answered_def ceremony_read_def set_run_def awaits_def ceremony_finished_def
        finish_login_def login_kind_def Let_def)
qed

text \<open>Nor is the reading of a body. When the head of the finish answer has arrived its controller is out
  of the pool: removing the component then aborts nothing, and the token is stored once the body is
  there.\<close>

theorem body_outlives_teardown:
  assumes "k < length (ph_runs h)" and "ph_runs h ! k = Logging_in run" and "cr_stage run = Sg_finish_body res" and "ph_mounted h"
    and "rs_ok res" and "rs_json res = Some answer" and "js_prop answer ''token'' = Inr (Some (JStr t))" and "t \<noteq> []"
  shows "\<exists>h'. passkey_path [Pk_unmount, Pk_body k native] h h' \<and> run_deeds (ph_runs h' ! k) = run_deeds (ph_runs h ! k) @ [Stored t]"
  using assms by (simp add: ceremony_read_def set_run_def ceremony_finished_def finish_login_def login_kind_def Let_def)

end
