(* ===== verification/Modal_Focus.thy ===== *)
theory Modal_Focus
  imports Wisp_Prelude
begin

text \<open>
  Where the keyboard focus is while a dialog of \<open>components/Modal.tsx\<close> is open: the effect that takes
  it and gives it back, its dependency on \<open>onClose\<close>, and the trap that keeps Tab inside.
\<close>

section \<open>The dialog\<close>

text \<open>
  A place for the focus: an element of the page behind (the body is one), the surface of the dialog,
  or one of its nodes, in document order. Of a node: whether the selector \<open>FOCUSABLE\<close> takes it,
  whether it has an \<open>offsetParent\<close>, and whether the browser stops there.
\<close>

datatype spot = Sp_page nat | Sp_dialog | Sp_node nat

record node =
  nd_selector :: bool
  nd_visible :: bool
  nd_tabbable :: bool

definition contains :: "spot \<Rightarrow> bool" where
  "contains s = (case s of Sp_page p \<Rightarrow> False | _ \<Rightarrow> True)"

text \<open>
  The focus, what had it before, and the identity of the \<open>onClose\<close> that the effect depends on.
\<close>

record modal_focus =
  mf_active :: spot
  mf_previouslyFocused :: spot
  mf_onClose :: nat

definition modal_effect :: "nat \<Rightarrow> spot \<Rightarrow> modal_focus" where
  "modal_effect oc active =
     \<lparr>mf_active = (if contains active then active else Sp_dialog), mf_previouslyFocused = active, mf_onClose = oc\<rparr>"

text \<open>\<open>focus\<close> does nothing on an element that is gone or takes no focus.\<close>

definition modal_cleanup :: "(spot \<Rightarrow> bool) \<Rightarrow> modal_focus \<Rightarrow> spot" where
  "modal_cleanup takes m = (if takes (mf_previouslyFocused m) then mf_previouslyFocused m else mf_active m)"

text \<open>React cleans up and runs the effect again when \<open>onClose\<close> is another function.\<close>

definition modal_render :: "(spot \<Rightarrow> bool) \<Rightarrow> nat \<Rightarrow> modal_focus \<Rightarrow> modal_focus" where
  "modal_render takes oc m = (if oc = mf_onClose m then m else modal_effect oc (modal_cleanup takes m))"

text \<open>On closing, the dialog is out of the document when the cleanup runs; the body has the focus.\<close>

definition modal_close :: "(spot \<Rightarrow> bool) \<Rightarrow> modal_focus \<Rightarrow> spot" where
  "modal_close takes m = modal_cleanup (\<lambda>s. \<not> contains s \<and> takes s) (m\<lparr>mf_active := Sp_page 0\<rparr>)"

section \<open>The trap\<close>

definition focusables :: "node list \<Rightarrow> spot \<Rightarrow> nat list" where
  "focusables nodes active =
     filter (\<lambda>i. nd_selector (nodes ! i) \<and> (nd_visible (nodes ! i) \<or> active = Sp_node i)) [0..<length nodes]"

text \<open>
  The browser's own step, to the next or the previous node that it stops at, or out of the dialog.
\<close>

definition next_tab :: "node list \<Rightarrow> nat \<Rightarrow> nat option" where
  "next_tab nodes i = List.find (\<lambda>j. nd_tabbable (nodes ! j)) [i..<length nodes]"

definition prev_tab :: "node list \<Rightarrow> nat \<Rightarrow> nat option" where
  "prev_tab nodes i = List.find (\<lambda>j. nd_tabbable (nodes ! j)) (rev [0..<i])"

definition browser_tab :: "nat \<Rightarrow> bool \<Rightarrow> node list \<Rightarrow> spot \<Rightarrow> spot" where
  "browser_tab beyond shift nodes active =
     (case (case active of
              Sp_page p \<Rightarrow> None
            | Sp_dialog \<Rightarrow> if shift then None else next_tab nodes 0
            | Sp_node i \<Rightarrow> if shift then prev_tab nodes i else next_tab nodes (Suc i)) of
        Some j \<Rightarrow> Sp_node j
      | None \<Rightarrow> Sp_page beyond)"

definition handleTab :: "nat \<Rightarrow> bool \<Rightarrow> node list \<Rightarrow> spot \<Rightarrow> spot" where
  "handleTab beyond shift nodes active =
     (let fs = focusables nodes active in
      if fs = [] then Sp_dialog
      else if shift
        then if active = Sp_node (hd fs) \<or> active = Sp_dialog then Sp_node (last fs) else browser_tab beyond shift nodes active
        else if active = Sp_node (last fs) then Sp_node (hd fs) else browser_tab beyond shift nodes active)"

text \<open>What can happen while the dialog is open; a click or a script may focus a node.\<close>

datatype modal_event = Mf_render nat | Mf_focus nat | Mf_tab bool "node list"

fun modal_step :: "(spot \<Rightarrow> bool) \<Rightarrow> nat \<Rightarrow> modal_event \<Rightarrow> modal_focus \<Rightarrow> modal_focus" where
  "modal_step takes beyond (Mf_render oc) m = modal_render takes oc m"
| "modal_step takes beyond (Mf_focus i) m = m\<lparr>mf_active := Sp_node i\<rparr>"
| "modal_step takes beyond (Mf_tab shift nodes) m = m\<lparr>mf_active := handleTab beyond shift nodes (mf_active m)\<rparr>"

section \<open>Lemmas\<close>

text \<open>Nodes on which the selector, the layout and the browser agree.\<close>

definition agreeing :: "node list \<Rightarrow> bool" where
  "agreeing nodes = list_all (\<lambda>n. nd_tabbable n = (nd_selector n \<and> nd_visible n)) nodes"

definition stops :: "node list \<Rightarrow> nat list" where
  "stops nodes = filter (\<lambda>i. nd_tabbable (nodes ! i)) [0..<length nodes]"

lemma find_filter: "List.find P xs = (case filter P xs of [] \<Rightarrow> None | x # _ \<Rightarrow> Some x)"
  by (induction xs) auto

lemma filter_upt_split:
  assumes "filter P [0..<n] = as @ k # bs"
  shows "filter P [0..<k] = as" "filter P [Suc k..<n] = bs" "k < n" "P k"
proof -
  have "k \<in> set (filter P [0..<n])" by (simp add: assms)
  then show k: "k < n" "P k" by auto
  have "[0..<n] = [0..<k] @ k # [Suc k..<n]"
    using k(1) by (metis append_Nil le_add_diff_inverse less_imp_le_nat upt_add_eq_append upt_conv_Cons zero_le)
  then have "filter P [0..<k] @ k # filter P [Suc k..<n] = as @ k # bs"
    using assms k(2) by simp
  moreover have "k \<notin> set (filter P [0..<k])" "k \<notin> set (filter P [Suc k..<n])" by auto
  ultimately show "filter P [0..<k] = as" "filter P [Suc k..<n] = bs"
    by (simp_all add: append_Cons_eq_iff)
qed

lemma focusables_stops:
  assumes "agreeing nodes" and "\<And>i. active = Sp_node i \<Longrightarrow> i < length nodes \<Longrightarrow> nd_selector (nodes ! i) \<Longrightarrow> nd_visible (nodes ! i)"
  shows "focusables nodes active = stops nodes"
  unfolding focusables_def stops_def using assms
  by (intro filter_cong) (auto simp: agreeing_def list_all_length)

lemma next_tab_stops: "stops nodes = as @ k # bs \<Longrightarrow> next_tab nodes (Suc k) = (case bs of [] \<Rightarrow> None | b # _ \<Rightarrow> Some b)"
  unfolding stops_def next_tab_def by (simp add: find_filter filter_upt_split(2))

lemma prev_tab_stops:
  assumes "stops nodes = as @ k # bs"
  shows "prev_tab nodes k = (if as = [] then None else Some (last as))"
proof -
  have "filter (\<lambda>j. nd_tabbable (nodes ! j)) (rev [0..<k]) = rev as"
    using filter_upt_split(1)[OF assms[unfolded stops_def]] by (simp add: rev_filter[symmetric])
  then show ?thesis by (cases as rule: rev_cases) (simp_all add: prev_tab_def find_filter)
qed

lemma next_tab_first: "next_tab nodes 0 = (case stops nodes of [] \<Rightarrow> None | b # _ \<Rightarrow> Some b)"
  by (simp add: next_tab_def stops_def find_filter)

lemma distinct_stops: "distinct (stops nodes)"
  by (simp add: stops_def)

lemma stops_tabbable: "stops nodes = as @ k # bs \<Longrightarrow> k < length nodes \<and> nd_tabbable (nodes ! k)"
  using filter_upt_split(3,4) unfolding stops_def by blast

lemma focusables_at_stop:
  assumes "agreeing nodes" and "stops nodes = as @ k # bs"
  shows "focusables nodes (Sp_node k) = as @ k # bs"
  using focusables_stops[OF assms(1), of "Sp_node k"] stops_tabbable[OF assms(2)] assms
  by (auto simp: agreeing_def list_all_length)

section \<open>Properties\<close>

text \<open>The trap is a cycle. While the dialog's nodes are what they seem, Tab moves from each stop to
  the next and from the last to the first, Shift+Tab the other way round, both enter the cycle
  from the dialog's surface, and a dialog without stops keeps the focus on its surface.\<close>

theorem tab_cycles:
  assumes "agreeing nodes"
  shows "(stops nodes = as @ k # bs \<longrightarrow>
      handleTab beyond False nodes (Sp_node k) = Sp_node (hd (bs @ as @ [k])) \<and>
      handleTab beyond True nodes (Sp_node k) = Sp_node (last (k # bs @ as))) \<and>
    (stops nodes \<noteq> [] \<longrightarrow> handleTab beyond False nodes Sp_dialog = Sp_node (hd (stops nodes)) \<and>
      handleTab beyond True nodes Sp_dialog = Sp_node (last (stops nodes))) \<and>
    (stops nodes = [] \<longrightarrow> handleTab beyond shift nodes Sp_dialog = Sp_dialog)"
proof (intro conjI impI)
  have surface: "focusables nodes Sp_dialog = stops nodes" by (rule focusables_stops[OF assms]) simp
  show "handleTab beyond False nodes Sp_dialog = Sp_node (hd (stops nodes))" if "stops nodes \<noteq> []"
    using that by (simp add: handleTab_def surface browser_tab_def next_tab_first split: list.split)
  show "handleTab beyond True nodes Sp_dialog = Sp_node (last (stops nodes))" if "stops nodes \<noteq> []"
    using that by (simp add: handleTab_def surface)
  show "handleTab beyond shift nodes Sp_dialog = Sp_dialog" if "stops nodes = []"
    using that by (simp add: handleTab_def surface)
next
  assume s: "stops nodes = as @ k # bs"
  note fs = focusables_at_stop[OF assms s]
  have notin: "k \<notin> set as" "k \<notin> set bs" using distinct_stops[of nodes] by (auto simp: s)
  show "handleTab beyond False nodes (Sp_node k) = Sp_node (hd (bs @ as @ [k]))"
    using notin by (cases bs) (auto simp: handleTab_def fs browser_tab_def next_tab_stops[OF s] hd_append)
  show "handleTab beyond True nodes (Sp_node k) = Sp_node (last (k # bs @ as))"
    using notin by (cases as) (auto simp: handleTab_def fs browser_tab_def prev_tab_stops[OF s])
qed

definition sample_nodes :: "node list" where
  "sample_nodes = map (\<lambda>b. \<lparr>nd_selector = b, nd_visible = True, nd_tabbable = b\<rparr>) [True, False, True]"

lemma sample_stops: "stops sample_nodes = [0, 2]" by code_simp

theorem tab_cycles_witness:
  "handleTab 1 False sample_nodes (Sp_node 2) = Sp_node 0 \<and> handleTab 1 True sample_nodes Sp_dialog = Sp_node 2"
proof -
  have "agreeing sample_nodes" by code_simp
  from tab_cycles[OF this, of "[0]" 2 "[]" 1] show ?thesis by (simp add: sample_stops)
qed

text \<open>Where the trap has a hole: from a node of the dialog that is no stop, as a button that was
  disabled while it had the focus, Tab leaves the dialog exactly when no stop follows the node, and
  Shift+Tab exactly when none precedes it.\<close>

theorem tab_escapes_iff:
  assumes "agreeing nodes" and "stops nodes \<noteq> []" and "i < length nodes" and "\<not> nd_selector (nodes ! i)"
  shows "(contains (handleTab beyond False nodes (Sp_node i)) \<longleftrightarrow> (\<exists>j \<in> set (stops nodes). i < j)) \<and>
    (contains (handleTab beyond True nodes (Sp_node i)) \<longleftrightarrow> (\<exists>j \<in> set (stops nodes). j < i))"
proof -
  have fs: "focusables nodes (Sp_node i) = stops nodes"
    using assms by (intro focusables_stops) auto
  have "i \<notin> set (stops nodes)" using assms by (auto simp: stops_def agreeing_def list_all_length)
  with assms(2) have "i \<noteq> last (stops nodes)" "i \<noteq> hd (stops nodes)" by (metis last_in_set, metis hd_in_set)
  then have "handleTab beyond shift nodes (Sp_node i) = browser_tab beyond shift nodes (Sp_node i)" for shift
    using assms(2) by (simp add: handleTab_def fs Let_def)
  moreover have "next_tab nodes (Suc i) = None \<longleftrightarrow> \<not> (\<exists>j \<in> set (stops nodes). i < j)"
    by (auto simp: next_tab_def stops_def find_None_iff Suc_le_eq)
  moreover have "prev_tab nodes i = None \<longleftrightarrow> \<not> (\<exists>j \<in> set (stops nodes). j < i)"
    using assms(3) by (auto simp: prev_tab_def stops_def find_None_iff intro: less_trans)
  ultimately show ?thesis by (auto simp: browser_tab_def contains_def split: option.split)
qed

lemma step_opener:
  assumes "e = Mf_render (mf_onClose m) \<or> (\<exists>i. e = Mf_focus i) \<or> (\<exists>s ns. e = Mf_tab s ns)"
  shows "mf_previouslyFocused (modal_step takes beyond e m) = mf_previouslyFocused m \<and>
    mf_onClose (modal_step takes beyond e m) = mf_onClose m"
  using assms by (auto simp: modal_render_def)

lemma run_opener:
  assumes "\<forall>c. Mf_render c \<in> set es \<longrightarrow> c = mf_onClose m"
  shows "mf_previouslyFocused (fold (modal_step takes beyond) es m) = mf_previouslyFocused m \<and>
    mf_onClose (fold (modal_step takes beyond) es m) = mf_onClose m"
  using assms
proof (induction es arbitrary: m)
  case (Cons e es)
  have "mf_previouslyFocused (modal_step takes beyond e m) = mf_previouslyFocused m \<and>
      mf_onClose (modal_step takes beyond e m) = mf_onClose m"
    using Cons.prems by (intro step_opener) (cases e; auto)
  with Cons show ?case by simp
qed simp

text \<open>With a stable \<open>onClose\<close> the dialog keeps its promises: a render moves no focus, and however the
  focus travelled inside, closing gives it back to the element that had it before, if that still
  takes it. With a new \<open>onClose\<close>, a render takes the focus from the field that has it, whatever
  that is, and puts it on the surface of the dialog, if the opener still takes focus.\<close>

theorem focus_kept_iff_stable:
  assumes "\<not> contains opener" and "takes opener"
    and "m = fold (modal_step takes beyond) es (modal_effect oc opener)" and "\<forall>c. Mf_render c \<in> set es \<longrightarrow> c = oc"
    and "mf_active m = Sp_node i"
  shows "modal_close takes m = opener \<and> mf_active (modal_render takes oc m) = Sp_node i \<and>
    (c \<noteq> oc \<longrightarrow> mf_active (modal_render takes c m) = Sp_dialog)"
proof -
  have "mf_previouslyFocused (modal_effect oc opener) = opener" "mf_onClose (modal_effect oc opener) = oc"
    by (simp_all add: modal_effect_def)
  with run_opener[of es "modal_effect oc opener" takes beyond] assms(3,4)
  have opener: "mf_previouslyFocused m = opener" and same: "mf_onClose m = oc" by metis+
  show ?thesis using assms(1,2,5)
    by (simp add: modal_close_def modal_cleanup_def modal_render_def modal_effect_def opener same)
qed

theorem focus_kept_iff_stable_witness:
  "mf_active (modal_render (\<lambda>s. True) 7 (fold (modal_step (\<lambda>s. True) 1) [Mf_focus 4, Mf_render 7] (modal_effect 7 (Sp_page 3)))) = Sp_node 4 \<and>
   mf_active (modal_render (\<lambda>s. True) 8 (fold (modal_step (\<lambda>s. True) 1) [Mf_focus 4, Mf_render 7] (modal_effect 7 (Sp_page 3)))) = Sp_dialog"
  using focus_kept_iff_stable[of "Sp_page 3" "\<lambda>s. True" _ 1 "[Mf_focus 4, Mf_render 7]" 7 4 8]
  by (simp add: contains_def modal_effect_def modal_render_def)

end
