(* ===== verification/Widgets.thy ===== *)
theory Widgets
  imports Wisp_Prelude
begin

text \<open>
  The small shared pieces: events that bubble through clickable rows (\<open>components/a11y.ts\<close>, the rows of
  \<open>Queue.tsx\<close> and \<open>TerminalQueueDock.tsx\<close>), the button of \<open>CopyButton.tsx\<close> with its timer, and the
  breakpoint flags of \<open>hooks/useViewport.ts\<close>.
\<close>

section \<open>Clickable rows\<close>

text \<open>
  The handlers of one event from its target upwards, each with what it does and whether it stops the
  event there.
\<close>

fun bubble :: "('a list \<times> bool) list \<Rightarrow> 'a list" where
  "bubble [] = []"
| "bubble ((actions, stopped) # handlers) = actions @ (if stopped then [] else bubble handlers)"

datatype row_action = Row_select string | Row_toggle string | Row_approve string | Row_deny string

text \<open>Where on a row: on the row itself, on one of its two buttons, or on the text inside.\<close>

datatype row_part = On_row | On_text | On_approve | On_deny

text \<open>The row of the queue; its buttons exist while it is selected.\<close>

definition queue_buttons :: "string option \<Rightarrow> string \<Rightarrow> bool" where
  "queue_buttons selectedId i = (selectedId = Some i)"

definition queue_click :: "string \<Rightarrow> row_part \<Rightarrow> row_action list" where
  "queue_click i part =
     (let row = ([Row_select i], False) in
      case part of
        On_row \<Rightarrow> bubble [row]
      | On_text \<Rightarrow> bubble [([], False), row]
      | On_approve \<Rightarrow> bubble [([Row_approve i], True), row]
      | On_deny \<Rightarrow> bubble [([Row_deny i], True), row])"

text \<open>The row of the dock: a head with \<open>activate\<close>, and buttons in it.\<close>

definition dock_click :: "string \<Rightarrow> row_part \<Rightarrow> row_action list" where
  "dock_click i part =
     (let head = ([Row_toggle i], False) in
      case part of
        On_row \<Rightarrow> bubble [head]
      | On_text \<Rightarrow> bubble [([], False), head]
      | On_approve \<Rightarrow> bubble [([Row_approve i], True), head]
      | On_deny \<Rightarrow> bubble [([Row_deny i], True), head])"

text \<open>\<open>activate\<close>: what its keydown handler does, and whether it prevents the default.\<close>

definition activate :: "'a \<Rightarrow> bool \<Rightarrow> string \<Rightarrow> 'a list \<times> bool" where
  "activate act on_itself key =
     (if \<not> on_itself then ([], False) else if key = ''Enter'' \<or> key = '' '' then ([act], True) else ([], False))"

text \<open>
  A key pressed on a part of a row that can have the focus: the keydown passes the row's head, and a
  button that has the focus is clicked by Enter and Space unless that was prevented.
\<close>

definition dock_key :: "string \<Rightarrow> row_part \<Rightarrow> string \<Rightarrow> row_action list" where
  "dock_key i part key =
     (let (acts, prevented) = activate (Row_toggle i) (part = On_row) key in
      acts @ (if part \<in> {On_approve, On_deny} \<and> (key = ''Enter'' \<or> key = '' '') \<and> \<not> prevented then dock_click i part else []))"

section \<open>The copy button\<close>

text \<open>What the clipboard did: the API resolved or rejected, the old command returned, or it threw.\<close>

datatype clipboard = Clip_write bool | Clip_command bool | Clip_threw

definition copy_succeeds :: "clipboard \<Rightarrow> bool" where
  "copy_succeeds c = (case c of Clip_write ok \<Rightarrow> ok | Clip_command r \<Rightarrow> True | Clip_threw \<Rightarrow> False)"

definition COPIED_MS :: int where "COPIED_MS = 1200"

record copy_button =
  cb_copied :: bool
  cb_timer :: "nat option"
  cb_pending :: "(nat \<times> int) list"
  cb_next :: nat

definition mount_copy :: copy_button where
  "mount_copy = \<lparr>cb_copied = False, cb_timer = None, cb_pending = [], cb_next = 0\<rparr>"

definition clear_copy_timer :: "copy_button \<Rightarrow> copy_button" where
  "clear_copy_timer b = (case cb_timer b of
       Some i \<Rightarrow> b\<lparr>cb_pending := filter (\<lambda>(j, due). j \<noteq> i) (cb_pending b)\<rparr> | None \<Rightarrow> b)"

text \<open>The part of \<open>onClick\<close> after the clipboard.\<close>

definition copy_settled :: "int \<Rightarrow> clipboard \<Rightarrow> copy_button \<Rightarrow> copy_button" where
  "copy_settled now c b =
     (if copy_succeeds c
      then let b1 = clear_copy_timer (b\<lparr>cb_copied := True\<rparr>) in
           b1\<lparr>cb_timer := Some (cb_next b1), cb_pending := (cb_next b1, now + COPIED_MS) # cb_pending b1,
              cb_next := Suc (cb_next b1)\<rparr>
      else b\<lparr>cb_copied := False\<rparr>)"

definition copy_fires :: "nat \<Rightarrow> copy_button \<Rightarrow> copy_button" where
  "copy_fires i b = b\<lparr>cb_copied := False, cb_pending := filter (\<lambda>(j, due). j \<noteq> i) (cb_pending b)\<rparr>"

definition copy_label :: "string \<Rightarrow> string \<Rightarrow> copy_button \<Rightarrow> string" where
  "copy_label label copiedLabel b = (if cb_copied b then copiedLabel else label)"

text \<open>
  The button, the time, and the time of the last success while no failure followed it. A timer fires
  when it is due.
\<close>

inductive copy_run :: "copy_button \<Rightarrow> int \<Rightarrow> int option \<Rightarrow> bool" where
  copy_mounted: "copy_run mount_copy now None"
| copy_waits: "copy_run b now s \<Longrightarrow> now \<le> now' \<Longrightarrow> copy_run b now' s"
| copy_done: "copy_run b now s \<Longrightarrow> copy_run (copy_settled now c b) now (if copy_succeeds c then Some now else None)"
| copy_timeout: "copy_run b now s \<Longrightarrow> (i, due) \<in> set (cb_pending b) \<Longrightarrow> due \<le> now \<Longrightarrow> copy_run (copy_fires i b) now s"

section \<open>The breakpoint\<close>

text \<open>What of \<open>matchMedia\<close> the browser has, whether the query matches, the listeners and the flags.\<close>

datatype media_api = Media_none | Media_modern | Media_legacy | Media_silent

record viewport =
  vp_api :: media_api
  vp_matches :: bool
  vp_listeners :: nat
  vp_flags :: "string \<times> string"

definition isMobileViewport :: "viewport \<Rightarrow> bool" where
  "isMobileViewport v = (vp_api v \<noteq> Media_none \<and> vp_matches v)"

definition syncRootFlags :: "bool \<Rightarrow> viewport \<Rightarrow> viewport" where
  "syncRootFlags mobile v = v\<lparr>vp_flags := (if mobile then ''1'' else ''0'', if mobile then ''mobile'' else ''desktop'')\<rparr>"

definition load_viewport :: "media_api \<Rightarrow> bool \<Rightarrow> viewport" where
  "load_viewport api matches =
     (let v = \<lparr>vp_api = api, vp_matches = matches, vp_listeners = 0, vp_flags = ([], [])\<rparr> in syncRootFlags (isMobileViewport v) v)"

definition subscribe :: "viewport \<Rightarrow> viewport" where
  "subscribe v = (if vp_api v \<in> {Media_modern, Media_legacy} then v\<lparr>vp_listeners := Suc (vp_listeners v)\<rparr> else v)"

definition unsubscribe :: "viewport \<Rightarrow> viewport" where
  "unsubscribe v = (if vp_api v \<in> {Media_modern, Media_legacy} then v\<lparr>vp_listeners := vp_listeners v - 1\<rparr> else v)"

text \<open>The window changes size; a listener hears of it when the answer of the query changes.\<close>

definition resize :: "bool \<Rightarrow> viewport \<Rightarrow> viewport" where
  "resize matches v =
     (let v1 = v\<lparr>vp_matches := matches\<rparr> in
      if matches \<noteq> vp_matches v \<and> vp_listeners v > 0 then syncRootFlags matches v1 else v1)"

datatype viewport_event = Vp_subscribe | Vp_unsubscribe | Vp_resize bool

fun viewport_step :: "viewport_event \<Rightarrow> viewport \<Rightarrow> viewport" where
  "viewport_step Vp_subscribe v = subscribe v"
| "viewport_step Vp_unsubscribe v = unsubscribe v"
| "viewport_step (Vp_resize matches) v = resize matches v"

text \<open>No change of the answer happens while nobody listens.\<close>

fun watched :: "viewport_event list \<Rightarrow> viewport \<Rightarrow> bool" where
  "watched [] v = True"
| "watched (e # es) v =
     ((case e of Vp_resize matches \<Rightarrow> matches = vp_matches v \<or> vp_listeners v > 0 | _ \<Rightarrow> True) \<and> watched es (viewport_step e v))"

definition flags_agree :: "viewport \<Rightarrow> bool" where
  "flags_agree v = (vp_flags v = (if isMobileViewport v then (''1'', ''mobile'') else (''0'', ''desktop'')))"

section \<open>Lemmas\<close>

text \<open>At most one timer is pending, the one in the ref; the label is up exactly while it runs.\<close>

definition copy_ok :: "copy_button \<Rightarrow> int \<Rightarrow> int option \<Rightarrow> bool" where
  "copy_ok b now s0 \<longleftrightarrow>
     (cb_pending b = [] \<or> (\<exists>i due. cb_pending b = [(i, due)] \<and> cb_timer b = Some i \<and> i < cb_next b)) \<and>
     (case s0 of None \<Rightarrow> \<not> cb_copied b
      | Some s \<Rightarrow> s \<le> now \<and> (if cb_copied b then map snd (cb_pending b) = [s + COPIED_MS] else cb_pending b = [] \<and> s + COPIED_MS \<le> now))"

lemma copy_ok_settled: "copy_ok b now s \<Longrightarrow> copy_ok (copy_settled now c b) now (if copy_succeeds c then Some now else None)"
  by (auto simp: copy_ok_def copy_settled_def clear_copy_timer_def Let_def split: option.splits)

lemma copy_ok_fires:
  "copy_ok b now s \<Longrightarrow> (i, due) \<in> set (cb_pending b) \<Longrightarrow> due \<le> now \<Longrightarrow> copy_ok (copy_fires i b) now s"
  by (auto simp: copy_ok_def copy_fires_def split: option.splits if_splits)

lemma copy_run_ok: "copy_run b now s \<Longrightarrow> copy_ok b now s"
proof (induction rule: copy_run.induct)
  case (copy_mounted now)
  show ?case by (simp add: copy_ok_def mount_copy_def)
next
  case (copy_waits b now s now')
  then show ?case by (auto simp: copy_ok_def split: option.splits if_splits)
next
  case (copy_done b now s c)
  then show ?case by (blast intro: copy_ok_settled)
next
  case (copy_timeout b now s i due)
  then show ?case by (blast intro: copy_ok_fires)
qed

lemma flags_agree_step:
  "flags_agree v \<Longrightarrow> (case e of Vp_resize matches \<Rightarrow> matches = vp_matches v \<or> vp_listeners v > 0 | _ \<Rightarrow> True) \<Longrightarrow>
   vp_api v \<noteq> Media_none \<or> vp_listeners v = 0 \<Longrightarrow> flags_agree (viewport_step e v)"
  by (cases e) (auto simp: flags_agree_def subscribe_def unsubscribe_def resize_def syncRootFlags_def isMobileViewport_def Let_def)

lemma listeners_step:
  "vp_api v \<noteq> Media_none \<or> vp_listeners v = 0 \<Longrightarrow> vp_api (viewport_step e v) \<noteq> Media_none \<or> vp_listeners (viewport_step e v) = 0"
  by (cases e) (auto simp: subscribe_def unsubscribe_def resize_def syncRootFlags_def Let_def)

lemma watched_agree:
  "flags_agree v \<Longrightarrow> vp_api v \<noteq> Media_none \<or> vp_listeners v = 0 \<Longrightarrow> watched es v \<Longrightarrow> flags_agree (fold viewport_step es v)"
proof (induction es arbitrary: v)
  case (Cons e es)
  then have "flags_agree (viewport_step e v)" by (intro flags_agree_step) auto
  with Cons listeners_step[of v e] show ?case by auto
qed simp

section \<open>Properties\<close>

text \<open>One gesture, one action. A click on any part of a row of the queue or of the dock, and Enter or
  Space on any part of a dock row that can have the focus, does exactly what that part is for: the
  buttons answer and nothing else happens, everything else selects or toggles the row.\<close>

theorem one_gesture_one_action:
  "queue_click i part = [case part of On_approve \<Rightarrow> Row_approve i | On_deny \<Rightarrow> Row_deny i | _ \<Rightarrow> Row_select i] \<and>
   dock_click i part = [case part of On_approve \<Rightarrow> Row_approve i | On_deny \<Rightarrow> Row_deny i | _ \<Rightarrow> Row_toggle i] \<and>
   (part \<noteq> On_text \<longrightarrow> key = ''Enter'' \<or> key = '' '' \<longrightarrow> dock_key i part key = dock_click i part)"
  by (cases part) (auto simp: queue_click_def dock_click_def dock_key_def activate_def)

text \<open>The label of a copy button is up exactly for the 1200 milliseconds after the last success: no
  timer of an earlier click takes it down early, and a failure takes it down at once. This holds
  at every moment at which no due timer is still waiting.\<close>

theorem copied_label_exact:
  assumes "copy_run b now s" and "\<forall>(i, due) \<in> set (cb_pending b). now < due"
  shows "cb_copied b \<longleftrightarrow> (\<exists>t. s = Some t \<and> now < t + 1200)"
  using copy_run_ok[OF assms(1)] assms(2)
  by (auto simp: copy_ok_def COPIED_MS_def split: option.splits if_splits)

theorem copied_label_exact_witness:
  "cb_copied (copy_settled 500 (Clip_write True) (copy_settled 0 (Clip_command False) mount_copy))"
proof -
  have "copy_run (copy_settled 500 (Clip_write True) (copy_settled 0 (Clip_command False) mount_copy)) 500
      (if copy_succeeds (Clip_write True) then Some 500 else None)"
    by (rule copy_done, rule copy_waits[where now = 0], rule copy_done, rule copy_mounted) simp
  from copied_label_exact[OF this] show ?thesis
    by (simp add: copy_succeeds_def copy_settled_def clear_copy_timer_def mount_copy_def COPIED_MS_def)
qed

text \<open>The flags on the root element tell the truth as long as somebody listens whenever the answer of
  the media query changes.\<close>

theorem root_flags_truthful:
  assumes "watched es (load_viewport api matches)"
  shows "flags_agree (fold viewport_step es (load_viewport api matches))"
  using assms
  by (intro watched_agree) (auto simp: load_viewport_def flags_agree_def syncRootFlags_def isMobileViewport_def Let_def)

theorem root_flags_truthful_witness:
  "flags_agree (fold viewport_step [Vp_subscribe, Vp_resize True] (load_viewport Media_modern False))"
  by (rule root_flags_truthful)
    (simp add: load_viewport_def subscribe_def syncRootFlags_def isMobileViewport_def Let_def)

text \<open>Nobody listens at the login form. When the window crosses the breakpoint there, the shell that
  mounts afterwards lays itself out for a phone while the root element still says desktop.\<close>

theorem flags_stale_after_login:
  "\<exists>v. v = fold viewport_step [Vp_resize True, Vp_subscribe] (load_viewport Media_modern False) \<and>
     isMobileViewport v \<and> vp_flags v = (''0'', ''desktop'') \<and> vp_listeners v = 1"
  by (simp add: load_viewport_def subscribe_def resize_def syncRootFlags_def isMobileViewport_def Let_def)

end
