(* ===== verification/Banners.thy ===== *)
theory Banners
  imports Wisphive_Safety
begin

text \<open>
  The three banners above the views: \<open>components/ErrorBanner.tsx\<close>, \<open>components/DiskAlertBanner.tsx\<close> and
  \<open>components/ConfigAlertBanner.tsx\<close>, as rows over the state of the connection hook.
\<close>

section \<open>Rows\<close>

fun SOURCE_LABEL :: "error_source \<Rightarrow> string" where
  "SOURCE_LABEL Src_daemon = ''Daemon error''"
| "SOURCE_LABEL Src_terminal = ''Terminal error''"
| "SOURCE_LABEL Src_client = ''Not delivered''"

text \<open>A row: its React key, the texts, the repetition mark, the label of its button.\<close>

record error_row =
  er_key :: int
  er_label :: string
  er_message :: string
  er_count :: "string option"
  er_dismissLabel :: string

definition error_row_of :: "ui_error \<Rightarrow> error_row" where
  "error_row_of e = \<lparr>er_key = ue_id e, er_label = SOURCE_LABEL (ue_source e), er_message = ue_message e,
     er_count = (if ue_count e > 1 then Some (CHR 0xD7 # show_int (ue_count e)) else None),
     er_dismissLabel = ''Dismiss '' @ to_lower (SOURCE_LABEL (ue_source e)) @ '': '' @ ue_message e\<rparr>"

text \<open>Without errors there is no banner.\<close>

definition ErrorBanner :: "ui_error list \<Rightarrow> error_row list option" where
  "ErrorBanner es = (if es = [] then None else Some (map error_row_of es))"

fun DISK_LABEL :: "disk_alert_kind \<Rightarrow> string" where
  "DISK_LABEL DK_archive_size = ''Audit archive large''"
| "DISK_LABEL DK_low_disk_space = ''Low disk space''"

definition DiskAlertBanner :: "disk_alert list \<Rightarrow> (disk_alert_kind \<times> string \<times> string) list option" where
  "DiskAlertBanner as = (if as = [] then None else Some (map (\<lambda>a. (da_kind a, DISK_LABEL (da_kind a), da_message a)) as))"

fun CONFIG_LABEL :: "config_alert_kind \<Rightarrow> string" where
  "CONFIG_LABEL CK_policy_widened = ''Approval policy widened''"
| "CONFIG_LABEL CK_untrusted_config = ''Config untrusted''"

definition config_live :: "config_alert list \<Rightarrow> string" where
  "config_live as = (if list_ex (\<lambda>a. ca_kind a = CK_untrusted_config) as then ''assertive'' else ''polite'')"

definition ConfigAlertBanner :: "config_alert list \<Rightarrow> (string \<times> (config_alert_kind \<times> string \<times> string) list) option" where
  "ConfigAlertBanner as =
     (if as = [] then None
      else Some (config_live as, map (\<lambda>a. (ca_kind a, CONFIG_LABEL (ca_kind a), ca_message a)) as))"

section \<open>Lemmas\<close>

lemma error_key [simp]: "er_key (error_row_of e) = ue_id e"
  by (simp add: error_row_of_def)

lemma error_keys: "er_key \<circ> error_row_of = ue_id"
  by (simp add: fun_eq_iff)

lemma remove_by_key:
  "distinct (map f xs) \<Longrightarrow> x \<in> set xs \<Longrightarrow> filter (\<lambda>y. f y \<noteq> f x) xs = remove1 x xs"
proof (induction xs)
  case (Cons a xs)
  show ?case
  proof (cases "x = a")
    case True
    then have "\<forall>y \<in> set xs. f y \<noteq> f x" using Cons.prems(1) by (simp, metis image_eqI)
    with True show ?thesis by simp
  next
    case False
    with Cons.prems have "f a \<noteq> f x" by (simp, metis image_eqI)
    with False Cons show ?thesis by simp
  qed
qed simp

lemma map_remove1_inj: "distinct (map f xs) \<Longrightarrow> x \<in> set xs \<Longrightarrow> map f (remove1 x xs) = remove1 (f x) (map f xs)"
  by (induction xs) (auto simp: image_iff)

lemma dismissed_errors: "errors (h_state (run_update now (U_dismissError i) h)) = filter (\<lambda>e. ue_id e \<noteq> i) (errors (h_state h))"
  by simp

lemma config_live_iff: "config_live as = ''assertive'' \<longleftrightarrow> CK_untrusted_config \<in> ca_kind ` set as"
  by (induction as) (auto simp: config_live_def)

section \<open>Properties\<close>

text \<open>The banners in every state of the hook. Each error has one row under its own key, at most
  \<open>MAX_ERRORS\<close> of them, with the repetition mark exactly on repeated ones; the button of a row takes
  away that row and no other. Each kind of alert has at most one row, and the configuration
  banner interrupts a screen reader exactly when a configuration is untrusted.\<close>

theorem banners_exact:
  assumes "reaches base tok evs h" and "ErrorBanner (errors (h_state h)) = Some rows" and "r \<in> set rows"
  shows "distinct (map er_key rows) \<and> length rows \<le> MAX_ERRORS \<and>
    ErrorBanner (errors (h_state (run_update now (U_dismissError (er_key r)) h))) =
      (if remove1 r rows = [] then None else Some (remove1 r rows)) \<and>
    distinct (map da_kind (diskAlerts (h_state h))) \<and> distinct (map ca_kind (configAlerts (h_state h))) \<and>
    (config_live (configAlerts (h_state h)) = ''assertive'' \<longleftrightarrow> CK_untrusted_config \<in> ca_kind ` set (configAlerts (h_state h)))"
proof -
  let ?es = "errors (h_state h)"
  have inv: "state_inv (h_state h)" using reaches_inv[OF assms(1)] by (simp add: hook_inv_def)
  then have ids: "distinct (map ue_id ?es)" and len: "length ?es \<le> MAX_ERRORS"
    by (auto simp: state_inv_def errors_inv_def strict_sorted_iff)
  from assms(2) have rows: "rows = map error_row_of ?es" by (auto simp: ErrorBanner_def split: if_splits)
  with assms(3) obtain e where e: "e \<in> set ?es" "r = error_row_of e" by auto
  have "distinct (map error_row_of ?es)" using ids by (metis distinct_map error_keys map_map)
  then have gone: "map error_row_of (filter (\<lambda>y. ue_id y \<noteq> ue_id e) ?es) = remove1 r rows"
    using remove_by_key[OF ids e(1)] map_remove1_inj[of error_row_of ?es e] e rows by simp
  show ?thesis
    using inv ids len gone e(2) by (auto simp: dismissed_errors ErrorBanner_def rows error_keys state_inv_def config_live_iff)
qed

end
