(* ===== verification/Board_View.thy ===== *)
theory Board_View
  imports Liveness_Board Burn_Meter
begin

text \<open>
  \<open>components/Board.tsx\<close> and \<open>components/Burn.tsx\<close>: the clock and the poll that both views keep while
  they are mounted, what a lane and a tile say, and how late the board can be.
\<close>

section \<open>The clock and the poll\<close>

definition DERIVE_TICK_MS :: int where "DERIVE_TICK_MS = 5000"

definition SESSIONS_POLL_MS :: int where "SESSIONS_POLL_MS = 20000"

definition POLL_MS :: int where "POLL_MS = 15000"

definition ARTIFACTS_COLLAPSED :: nat where "ARTIFACTS_COLLAPSED = 6"

text \<open>The state \<open>nowMs\<close>, when the two intervals fire next, and how often \<open>onLoad\<close> was called.\<close>

record timed_view =
  tv_nowMs :: int
  tv_tickDue :: int
  tv_pollDue :: int
  tv_loads :: nat

definition mount_view :: "int \<Rightarrow> int \<Rightarrow> int \<Rightarrow> timed_view" where
  "mount_view tick poll now = \<lparr>tv_nowMs = now, tv_tickDue = now + tick, tv_pollDue = now + poll, tv_loads = 1\<rparr>"

definition view_tick :: "int \<Rightarrow> int \<Rightarrow> timed_view \<Rightarrow> timed_view" where
  "view_tick tick now v = v\<lparr>tv_nowMs := now, tv_tickDue := now + tick\<rparr>"

definition view_poll :: "int \<Rightarrow> int \<Rightarrow> timed_view \<Rightarrow> timed_view" where
  "view_poll poll now v = v\<lparr>tv_loads := Suc (tv_loads v), tv_pollDue := now + poll\<rparr>"

text \<open>
  The view and the time since it was mounted at \<open>t0\<close>. An interval fires when it is due, and no
  later than \<open>slack\<close> after that. The shell passes stable callbacks, so the poll is not restarted.
\<close>

inductive view_run :: "int \<Rightarrow> int \<Rightarrow> int \<Rightarrow> int \<Rightarrow> timed_view \<Rightarrow> int \<Rightarrow> bool"
  for tick poll slack t0 :: int where
  view_mounted: "view_run tick poll slack t0 (mount_view tick poll t0) t0"
| view_waits: "view_run tick poll slack t0 v t \<Longrightarrow> t \<le> t' \<Longrightarrow> t' \<le> tv_tickDue v + slack \<Longrightarrow> t' \<le> tv_pollDue v + slack \<Longrightarrow>
    view_run tick poll slack t0 v t'"
| view_ticks: "view_run tick poll slack t0 v t \<Longrightarrow> tv_tickDue v \<le> t \<Longrightarrow> view_run tick poll slack t0 (view_tick tick t v) t"
| view_polls: "view_run tick poll slack t0 v t \<Longrightarrow> tv_pollDue v \<le> t \<Longrightarrow> view_run tick poll slack t0 (view_poll poll t v) t"

section \<open>What the views show\<close>

definition board_shown :: "board_inputs \<Rightarrow> timed_view \<Rightarrow> board_model result" where
  "board_shown inp v = deriveBoard (inp\<lparr>bi_nowMs := tv_nowMs v\<rparr>)"

definition burn_shown :: "burn_inputs \<Rightarrow> timed_view \<Rightarrow> burn_model" where
  "burn_shown inp v = deriveBurn (inp\<lparr>bn_nowMs := tv_nowMs v\<rparr>)"

fun STATE_LABEL :: "lane_state \<Rightarrow> string" where
  "STATE_LABEL Working = ''working''"
| "STATE_LABEL Waiting = ''waiting on you''"
| "STATE_LABEL Stalled = ''stalled''"
| "STATE_LABEL Done = ''turn ended''"

text \<open>The separator of the texts is the character U+00B7.\<close>

definition spaced_dot :: string where "spaced_dot = [CHR '' '', CHR 0xB7, CHR '' '']"

definition stateText :: "lane \<Rightarrow> string" where
  "stateText l = (if ln_state l = Stalled then ''stalled'' @ spaced_dot @ ''silent '' @ fmtDuration (ln_silentForMs l)
     else STATE_LABEL (ln_state l))"

record lane_row =
  lw_state :: string
  lw_task :: "string option"
  lw_age :: string
  lw_wave :: "string option"
  lw_pending :: "string option"
  lw_link :: "inbox_target option"

definition BoardLane :: "lane \<Rightarrow> lane_row" where
  "BoardLane l = \<lparr>
     lw_state = stateText l,
     lw_task = (case ln_lastToolName l of Some n \<Rightarrow> if n = [] then None else Some (''last: '' @ n) | None \<Rightarrow> None),
     lw_age = fmtDuration (ln_silentForMs l) @ '' ago'',
     lw_wave = map_option (\<lambda>w. ''subagents '' @ show_int (wv_done w) @ ''/'' @ show_int (wv_spawned w) @ '' done'' @
        (if ln_subagentsActive l > 0 then spaced_dot @ show_int (ln_subagentsActive l) @ '' active'' else [])) (ln_wave l),
     lw_pending = (if ln_pendingCount l > 0 then Some (show_int (ln_pendingCount l) @ '' pending'') else None),
     lw_link = ln_inboxTarget l\<rparr>"

text \<open>The tile of a session: the artifacts in view, the button below them, and the alert.\<close>

definition tile_overflow :: "burn_session \<Rightarrow> bool" where
  "tile_overflow s = (length (bs_artifacts s) > ARTIFACTS_COLLAPSED)"

definition tile_shown :: "bool \<Rightarrow> burn_session \<Rightarrow> artifact list" where
  "tile_shown expanded s = (if expanded then bs_artifacts s else take ARTIFACTS_COLLAPSED (bs_artifacts s))"

definition tile_button :: "bool \<Rightarrow> burn_session \<Rightarrow> string option" where
  "tile_button expanded s =
     (if bs_artifacts s \<noteq> [] \<and> tile_overflow s
      then Some (if expanded then ''Show fewer'' else ''Show all '' @ show_int (int (length (bs_artifacts s))) @ '' artifacts'')
      else None)"

definition tile_press :: "burn_session \<Rightarrow> bool \<Rightarrow> bool" where
  "tile_press s expanded = (if tile_button expanded s \<noteq> None then \<not> expanded else expanded)"

section \<open>A view that keeps itself fresh\<close>

locale refreshed_view =
  fixes tick poll :: int
  assumes tick_positive: "0 < tick" and poll_positive: "0 < poll"
begin

lemma tick_state:
  "view_run tick poll slack t0 v t \<Longrightarrow> tv_nowMs v \<le> t \<and> tv_tickDue v = tv_nowMs v + tick \<and> (0 \<le> slack \<longrightarrow> t \<le> tv_tickDue v + slack)"
  by (induction rule: view_run.induct) (use tick_positive in \<open>auto simp: mount_view_def view_tick_def view_poll_def\<close>)

lemma stale_bound: "view_run tick poll slack t0 v t \<Longrightarrow> 0 \<le> slack \<Longrightarrow> tv_nowMs v \<le> t \<and> t \<le> tv_nowMs v + tick + slack"
  using tick_state by fastforce

lemma poll_state:
  "view_run tick poll slack t0 v t \<Longrightarrow> 0 \<le> slack \<Longrightarrow> 1 \<le> tv_loads v \<and> tv_pollDue v \<le> t + poll \<and> t \<le> tv_pollDue v + slack \<and>
     t0 + poll * int (tv_loads v) \<le> tv_pollDue v \<and> tv_pollDue v + slack \<le> t0 + (poll + slack) * int (tv_loads v)"
  by (induction rule: view_run.induct)
    (use poll_positive in \<open>auto simp: mount_view_def view_tick_def view_poll_def algebra_simps\<close>)

lemma load_bounds:
  assumes "view_run tick poll slack t0 v t" and "0 \<le> slack"
  shows "poll * (int (tv_loads v) - 1) \<le> t - t0 \<and> t - t0 \<le> (poll + slack) * int (tv_loads v)"
  using poll_state[OF assms] by (auto simp: algebra_simps)

end

interpretation board: refreshed_view DERIVE_TICK_MS SESSIONS_POLL_MS
  by unfold_locales (simp_all add: DERIVE_TICK_MS_def SESSIONS_POLL_MS_def)

interpretation burn: refreshed_view DERIVE_TICK_MS POLL_MS
  by unfold_locales (simp_all add: DERIVE_TICK_MS_def POLL_MS_def)

lemma inputs_now [simp]:
  "event_times (inp\<lparr>bi_nowMs := now\<rparr>) = event_times inp" "requests_of (inp\<lparr>bi_nowMs := now\<rparr>) = requests_of inp"
  "deferrals_of (inp\<lparr>bi_nowMs := now\<rparr>) = deferrals_of inp"
  by (simp_all add: event_times_def audits_of_def requests_of_def deferrals_of_def fun_eq_iff)

lemma classify_target: "classify ps ds tool silent = Inr (s, w, t) \<Longrightarrow> t \<noteq> None \<longleftrightarrow> s = Waiting"
  by (auto simp: classify_def Let_def split: if_splits list.splits)

lemma lane_target:
  assumes "deriveBoard inp = Inr b" and "l \<in> set (board_lanes b)"
  shows "ln_inboxTarget l \<noteq> None \<longleftrightarrow> ln_state l = Waiting"
proof -
  from assms obtain a where "lane_of (bi_endedAgentIds inp) (bi_nowMs inp) (draft_of inp a) = Inr (Some l)"
    by (auto simp: board_lane_iff)
  then show ?thesis by (rule lane_ofE) (drule classify_target, simp)
qed

section \<open>Properties\<close>

text \<open>C37: A stall shows in time. With intervals at most \<open>slack\<close> late, a lane that the board calls stalled
  has been silent for more than 600 seconds, and one that it calls working for no more than 605
  seconds and the slack.\<close>

theorem stall_shown_in_time:
  assumes "view_run DERIVE_TICK_MS SESSIONS_POLL_MS slack t0 v t" and "0 \<le> slack"
    and "board_shown inp v = Inr b" and "l \<in> set (board_lanes b)"
  shows "(ln_state l = Stalled \<longrightarrow> t - latest 0 (event_times inp (ln_agentId l)) > 600000) \<and>
    (ln_state l = Working \<longrightarrow> t - latest 0 (event_times inp (ln_agentId l)) \<le> 605000 + slack)"
  using board.stale_bound[OF assms(1,2)] board_lane_state[OF assms(3)[unfolded board_shown_def] assms(4)]
  by (auto simp: expected_state_def DERIVE_TICK_MS_def split: if_splits)

text \<open>An agent that was last seen at ten, at ten past and forty seconds.\<close>

definition quiet_agent :: board_inputs where
  "quiet_agent = \<lparr>bi_sessions = [], bi_agents = [\<lparr>ai_agent_id = ''a'', ai_agent_type = AT_codex, ai_project = ''p'',
       ai_connected_at = ''2026-07-14T10:00:00Z'', ai_last_seen = ''2026-07-14T10:00:00Z''\<rparr>],
     bi_queue = [], bi_auditDecisions = [], bi_endedAgentIds = [], bi_nowMs = 1784023840000\<rparr>"

lemma quiet_time: "get_time ''2026-07-14T10:00:00Z'' = Some 1784023200000"
  by code_simp

lemma quiet_board: "\<exists>b l. deriveBoard quiet_agent = Inr b \<and> l \<in> set (board_lanes b) \<and> ln_agentId l = ''a'' \<and> ln_state l = Stalled"
proof -
  obtain b where b: "deriveBoard quiet_agent = Inr b"
    using timed_board[of quiet_agent] by (auto simp: timed_inputs_def quiet_agent_def)
  let ?d = "note_agent (hd (bi_agents quiet_agent)) (new_draft ''a'')"
  have drafts: "collect_drafts quiet_agent = [(''a'', ?d)]"
    by (simp add: collect_drafts_def quiet_agent_def with_draft_def draftFor_def entry_or_def)
  then have d: "draft_of quiet_agent ''a'' = ?d" using collect_entry[of "''a''" ?d quiet_agent] by simp
  have "\<exists>l. lane_of [] 1784023840000 ?d = Inr (Some l) \<and> ln_agentId l = ''a'' \<and> ln_state l = Stalled"
    by (simp add: quiet_agent_def lane_of_def note_agent_def noteActivity_def new_draft_def quiet_time classify_def
        STALL_THRESHOLD_MS_def BOARD_WINDOW_MS_def)
  then show ?thesis using b d drafts by (auto simp: board_lane_iff quiet_agent_def)
qed

theorem stall_shown_in_time_witness:
  "\<exists>b l. board_shown quiet_agent (mount_view DERIVE_TICK_MS SESSIONS_POLL_MS 1784023840000) = Inr b \<and> l \<in> set (board_lanes b) \<and>
     ln_state l = Stalled \<and> 1784023840000 - latest 0 (event_times quiet_agent (ln_agentId l)) > 600000"
proof -
  have now: "quiet_agent\<lparr>bi_nowMs := 1784023840000\<rparr> = quiet_agent" by (simp add: quiet_agent_def)
  obtain b l where l: "board_shown quiet_agent (mount_view DERIVE_TICK_MS SESSIONS_POLL_MS 1784023840000) = Inr b"
      "l \<in> set (board_lanes b)" "ln_state l = Stalled"
    using quiet_board by (auto simp: board_shown_def mount_view_def now)
  from stall_shown_in_time[OF view_mounted, of 0, OF _ l(1,2)] l show ?thesis by auto
qed

text \<open>The polls are bounded both ways. While the board is mounted it has asked for the sessions at least
  once in every twenty seconds and the slack, and never more often than every twenty seconds
  after the first time; the burn meter keeps the same bounds with fifteen.\<close>

theorem polls_bounded:
  assumes "0 \<le> slack"
  shows "(view_run DERIVE_TICK_MS SESSIONS_POLL_MS slack t0 v t \<longrightarrow>
      20000 * (int (tv_loads v) - 1) \<le> t - t0 \<and> t - t0 \<le> (20000 + slack) * int (tv_loads v)) \<and>
    (view_run DERIVE_TICK_MS POLL_MS slack t0 v t \<longrightarrow>
      15000 * (int (tv_loads v) - 1) \<le> t - t0 \<and> t - t0 \<le> (15000 + slack) * int (tv_loads v))"
  using board.load_bounds[OF _ assms, of t0 v t] burn.load_bounds[OF _ assms, of t0 v t]
  by (simp add: SESSIONS_POLL_MS_def POLL_MS_def)

theorem polls_bounded_witness:
  "tv_loads (view_poll POLL_MS 15000 (view_tick DERIVE_TICK_MS 15000 (mount_view DERIVE_TICK_MS POLL_MS 0))) = 2 \<and>
   15000 * (int (tv_loads (view_poll POLL_MS 15000 (view_tick DERIVE_TICK_MS 15000 (mount_view DERIVE_TICK_MS POLL_MS 0)))) - 1) \<le> 15000"
proof -
  let ?v = "mount_view DERIVE_TICK_MS POLL_MS 0" and ?run = "view_run DERIVE_TICK_MS POLL_MS 10000 0"
  have "?run ?v 15000"
    by (rule view_waits[OF view_mounted]) (simp_all add: mount_view_def DERIVE_TICK_MS_def POLL_MS_def)
  then have "?run (view_tick DERIVE_TICK_MS 15000 ?v) 15000"
    by (rule view_ticks) (simp add: mount_view_def DERIVE_TICK_MS_def)
  then have "?run (view_poll POLL_MS 15000 (view_tick DERIVE_TICK_MS 15000 ?v)) 15000"
    by (rule view_polls) (simp add: mount_view_def view_tick_def POLL_MS_def)
  with polls_bounded[of 10000] show ?thesis
    by (simp add: mount_view_def view_tick_def view_poll_def)
qed

text \<open>The board mirrors and does not steer. A lane's only control is its link into the Inbox, which is
  there exactly while the lane waits; a tile's only control opens the rest of its artifacts, which
  is there exactly when some are hidden, shows every one of them, and hides them again.\<close>

theorem mirrors_do_not_steer:
  assumes "board_shown inp v = Inr b" and "l \<in> set (board_lanes b)"
  shows "(lw_link (BoardLane l) \<noteq> None \<longleftrightarrow> ln_state l = Waiting) \<and>
    (tile_button False s \<noteq> None \<longleftrightarrow> tile_shown False s \<noteq> bs_artifacts s) \<and>
    tile_shown (tile_press s False) s = bs_artifacts s \<and>
    (tile_button False s \<noteq> None \<longrightarrow> \<not> tile_press s (tile_press s False)) \<and>
    (\<exists>rest. bs_artifacts s = tile_shown e s @ rest)"
proof -
  have "take ARTIFACTS_COLLAPSED (bs_artifacts s) = bs_artifacts s \<longleftrightarrow> \<not> tile_overflow s"
    by (simp add: tile_overflow_def take_all_iff not_less)
  moreover have "\<exists>rest. bs_artifacts s = tile_shown e s @ rest"
    by (auto simp: tile_shown_def) (metis append_take_drop_id)
  ultimately show ?thesis
    using lane_target[OF assms(1)[unfolded board_shown_def] assms(2)]
    by (auto simp: BoardLane_def tile_button_def tile_press_def tile_shown_def tile_overflow_def)
qed

end
