(* ===== verification/Throttle.thy ===== *)
theory Throttle
  imports Js_Runtime
begin

text \<open>
  The contract of a throttled form: while the server's wait lasts, each tick of its interval
  takes a second off the countdown, and the tick that would reach zero lifts the throttle.
  Both password forms of the client promise it; how long they stay closed is proved once.
\<close>

locale throttled_form =
  fixes tick :: "'s \<Rightarrow> 's" and count :: "'s \<Rightarrow> rat" and throttled :: "'s \<Rightarrow> bool"
  assumes tick_on: "throttled s \<Longrightarrow> 1 < count s \<Longrightarrow> throttled (tick s) \<and> count (tick s) = count s - 1"
    and tick_off: "throttled s \<Longrightarrow> count s \<le> 1 \<Longrightarrow> \<not> throttled (tick s) \<and> count (tick s) = 0"
begin

lemma counting:
  assumes "throttled s" and "of_nat n < count s"
  shows "throttled ((tick ^^ n) s) \<and> count ((tick ^^ n) s) = count s - of_nat n"
  using assms(2)
proof (induction n)
  case (Suc n)
  then have "throttled ((tick ^^ n) s)" "count ((tick ^^ n) s) = count s - of_nat n" by simp_all
  with tick_on[of "(tick ^^ n) s"] Suc.prems show ?case by simp
qed (simp add: assms(1))

lemma lifted:
  assumes "throttled s" and "count s \<le> of_nat (Suc n)" and "of_nat n < count s"
  shows "\<not> throttled ((tick ^^ Suc n) s) \<and> count ((tick ^^ Suc n) s) = 0"
  using counting[OF assms(1,3)] tick_off[of "(tick ^^ n) s"] assms(2) by simp

text \<open>The number of ticks a wait of \<open>count s\<close> seconds takes.\<close>

lemma lifted_after:
  assumes "throttled s" and "0 < count s"
  shows "\<not> throttled ((tick ^^ nat \<lceil>count s\<rceil>) s) \<and> count ((tick ^^ nat \<lceil>count s\<rceil>) s) = 0"
    and "n < nat \<lceil>count s\<rceil> \<Longrightarrow> throttled ((tick ^^ n) s) \<and> 0 < count ((tick ^^ n) s)"
proof -
  have pos: "0 < \<lceil>count s\<rceil>" using assms(2) by simp
  obtain m where m: "nat \<lceil>count s\<rceil> = Suc m" using pos by (cases "nat \<lceil>count s\<rceil>") auto
  have below: "of_nat k < count s" if "k < nat \<lceil>count s\<rceil>" for k
  proof -
    have "int k < \<lceil>count s\<rceil>" using that by linarith
    then have "of_int (int k) < count s" by (simp add: less_ceiling_iff)
    then show ?thesis by simp
  qed
  have "\<lceil>count s\<rceil> = int (Suc m)" using m pos by linarith
  then have "count s \<le> of_int (int (Suc m))" using ceiling_correct[of "count s"] by simp
  then have "count s \<le> of_nat (Suc m)" by (simp only: of_int_of_nat_eq)
  with lifted[OF assms(1) this below[of m]] m
  show "\<not> throttled ((tick ^^ nat \<lceil>count s\<rceil>) s) \<and> count ((tick ^^ nat \<lceil>count s\<rceil>) s) = 0" by simp
  show "n < nat \<lceil>count s\<rceil> \<Longrightarrow> throttled ((tick ^^ n) s) \<and> 0 < count ((tick ^^ n) s)"
    using counting[OF assms(1) below[of n]] below[of n] by simp
qed

end

end
