(* ===== verification/Sudo_Modal.thy ===== *)
theory Sudo_Modal
  imports Throttle Web_Properties
begin

text \<open>
  \<open>components/SudoModal.tsx\<close> on the page: the dialog that re-proves the password when the
  daemon gates an approval, with \<open>onSuccess\<close> and \<open>onCancel\<close> wired as \<open>App.tsx\<close> does, to
  \<open>retryPendingApprove\<close> and \<open>dismissReauth\<close> of the connection hook. An error carries the
  identity of its object, on which React's effect depends.
\<close>

section \<open>State\<close>

datatype sudo_error_kind = Sudo_invalid | Sudo_throttled | Sudo_network | Sudo_server

record sudo_error =
  se_kind :: sudo_error_kind
  se_message :: string
  se_retryAfter :: "rat option"

record sudo =
  sd_password :: string
  sd_submitting :: bool
  sd_error :: "(nat \<times> sudo_error) option"
  sd_countdown :: rat
  sd_interval :: "sudo_error option"
  sd_effectFor :: "nat option option"
  sd_requests :: "nat set"
  sd_aborted :: "nat set"
  sd_inflight :: "(nat, string option) jmap"
  sd_next :: nat

definition initial_sudo :: sudo where
  "initial_sudo = \<lparr>sd_password = [], sd_submitting = False, sd_error = None, sd_countdown = 0, sd_interval = None,
     sd_effectFor = None, sd_requests = {}, sd_aborted = {}, sd_inflight = [], sd_next = 0\<rparr>"

definition sudo_disabled :: "sudo \<Rightarrow> bool" where
  "sudo_disabled s \<longleftrightarrow> sd_submitting s \<or> sd_countdown s > 0"

text \<open>\<open>setError({...})\<close>: a new object.\<close>

definition sudo_fail :: "sudo_error_kind \<Rightarrow> string \<Rightarrow> rat option \<Rightarrow> sudo \<Rightarrow> sudo" where
  "sudo_fail kind message retry s =
     s\<lparr>sd_error := Some (sd_next s, \<lparr>se_kind = kind, se_message = message, se_retryAfter = retry\<rparr>), sd_next := Suc (sd_next s)\<rparr>"

definition type_sudo :: "string \<Rightarrow> sudo \<Rightarrow> sudo" where
  "type_sudo text s = s\<lparr>sd_password := text, sd_error := (case sd_error s of
       Some (i, e) \<Rightarrow> if se_kind e \<noteq> Sudo_throttled then None else sd_error s
     | None \<Rightarrow> None)\<rparr>"

section \<open>The countdown\<close>

text \<open>The effect on \<open>[error, isThrottled]\<close>; its cleanup clears the previous interval.\<close>

definition throttle_effect :: "sudo \<Rightarrow> sudo" where
  "throttle_effect s =
     (if sd_effectFor s = Some (map_option fst (sd_error s)) then s
      else let s' = s\<lparr>sd_effectFor := Some (map_option fst (sd_error s)), sd_interval := None\<rparr> in
        case sd_error s of
          Some (i, e) \<Rightarrow>
            (case se_retryAfter e of
               Some q \<Rightarrow> if se_kind e = Sudo_throttled \<and> q \<noteq> 0 then s'\<lparr>sd_countdown := q, sd_interval := Some e\<rparr>
                         else s'\<lparr>sd_countdown := 0\<rparr>
             | None \<Rightarrow> s'\<lparr>sd_countdown := 0\<rparr>)
        | None \<Rightarrow> s'\<lparr>sd_countdown := 0\<rparr>)"

definition sudo_tick :: "sudo \<Rightarrow> sudo" where
  "sudo_tick s = (case sd_interval s of
       None \<Rightarrow> s
     | Some e \<Rightarrow>
         if sd_countdown s \<le> 1
         then s\<lparr>sd_interval := None, sd_error := (if se_kind e = Sudo_throttled then None else sd_error s), sd_countdown := 0\<rparr>
         else s\<lparr>sd_countdown := sd_countdown s - 1\<rparr>)"

section \<open>Submitting\<close>

record dialog_page =
  dp_sudo :: sudo
  dp_world :: world

definition submit_sudo :: "dialog_page \<Rightarrow> dialog_page" where
  "submit_sudo d =
     (let s = dp_sudo d; w = dp_world d in
      if sudo_disabled s \<or> sd_password s = [] then d
      else \<lparr>dp_sudo = s\<lparr>sd_submitting := True, sd_error := None, sd_requests := insert (sd_next s) (sd_requests s),
                 sd_inflight := (sd_next s, bearer w) # sd_inflight s, sd_next := Suc (sd_next s)\<rparr>,
            dp_world = apiFetch ''/api/auth/reauth'' True (Some (sd_password s, None)) w\<rparr>)"

text \<open>What the settled request does to the dialog's own state.\<close>

definition sudo_verdict :: "outcome \<Rightarrow> sudo \<Rightarrow> sudo" where
  "sudo_verdict out s = (case out of
       Rejected name message \<Rightarrow>
         if isAbortError name then s
         else (sudo_fail Sudo_network (unreachable message) None s)\<lparr>sd_submitting := False\<rparr>
     | Responded r \<Rightarrow>
         (if rs_status r = 200 then s\<lparr>sd_password := []\<rparr>
          else if rs_status r = 401 then sudo_fail Sudo_invalid ''Invalid password.'' None s
          else if rs_status r = 429 then sudo_fail Sudo_throttled ''Too many attempts.'' (Some (retry_after (rs_retryAfter r))) s
          else if rs_status r = 503 then sudo_fail Sudo_server ''Daemon unreachable. Try again shortly.'' None s
          else sudo_fail Sudo_server (''Reauth failed ('' @ show_nat (rs_status r) @ '').'') None s)
         \<lparr>sd_submitting := False\<rparr>)"

text \<open>The whole continuation: \<open>apiFetch\<close>'s own part, the controller, the verdict and \<open>onSuccess\<close>.\<close>

definition settle_sudo :: "nat \<Rightarrow> outcome \<Rightarrow> dialog_page \<Rightarrow> dialog_page" where
  "settle_sudo i out d = (case map_of (sd_inflight (dp_sudo d)) i of
       None \<Rightarrow> d
     | Some sent \<Rightarrow>
         (let w = apiFetch_settled sent out (dp_world d);
              s = (dp_sudo d)\<lparr>sd_requests := sd_requests (dp_sudo d) - {i}, sd_inflight := AList.delete i (sd_inflight (dp_sudo d))\<rparr>
          in \<lparr>dp_sudo = sudo_verdict out s,
              dp_world = (case out of
                  Responded r \<Rightarrow> if rs_status r = 200 then w\<lparr>wd_hook := retryPendingApprove (wd_hook w)\<rparr> else w
                | Rejected name message \<Rightarrow> w)\<rparr>))"

definition cancel_sudo :: "dialog_page \<Rightarrow> dialog_page" where
  "cancel_sudo d = d\<lparr>dp_world := (dp_world d)\<lparr>wd_hook := dismissReauth (wd_hook (dp_world d))\<rparr>\<rparr>"

definition unmount_sudo :: "sudo \<Rightarrow> sudo" where
  "unmount_sudo s = s\<lparr>sd_aborted := sd_aborted s \<union> sd_requests s, sd_requests := {}, sd_interval := None\<rparr>"

section \<open>Runs of the open dialog\<close>

datatype dialog_event =
    De_type string | De_effect | De_tick | De_submit | De_settle nat outcome | De_cancel | De_page page_event

fun dialog_step :: "(rat \<Rightarrow> string) \<Rightarrow> dialog_event \<Rightarrow> dialog_page \<Rightarrow> dialog_page" where
  "dialog_step num (De_type text) d = d\<lparr>dp_sudo := type_sudo text (dp_sudo d)\<rparr>"
| "dialog_step num De_effect d = d\<lparr>dp_sudo := throttle_effect (dp_sudo d)\<rparr>"
| "dialog_step num De_tick d = d\<lparr>dp_sudo := sudo_tick (dp_sudo d)\<rparr>"
| "dialog_step num De_submit d = submit_sudo d"
| "dialog_step num (De_settle i out) d = settle_sudo i out d"
| "dialog_step num De_cancel d = cancel_sudo d"
| "dialog_step num (De_page e) d = d\<lparr>dp_world := page_step num e (dp_world d)\<rparr>"

text \<open>While the dialog is open nothing aborts its request; its input is closed when it is disabled.\<close>

fun dialog_enabled :: "dialog_event \<Rightarrow> dialog_page \<Rightarrow> bool" where
  "dialog_enabled (De_type text) d = (\<not> sudo_disabled (dp_sudo d))"
| "dialog_enabled (De_settle i out) d = (i \<in> fst ` set (sd_inflight (dp_sudo d)) \<and>
     (case out of Rejected name m \<Rightarrow> \<not> isAbortError name | Responded r \<Rightarrow> True))"
| "dialog_enabled (De_page e) d = page_enabled e (dp_world d)"
| "dialog_enabled _ d = True"

inductive dialog_reaches :: "(rat \<Rightarrow> string) \<Rightarrow> world \<Rightarrow> dialog_page \<Rightarrow> bool" for num w0 where
  opened: "dialog_reaches num w0 \<lparr>dp_sudo = initial_sudo, dp_world = w0\<rparr>"
| event: "dialog_reaches num w0 d \<Longrightarrow> dialog_enabled e d \<Longrightarrow> dialog_reaches num w0 (dialog_step num e d)"

text \<open>
  The dialog's invariant: object identities are fresh, and it is submitting exactly while
  its one request is unanswered.
\<close>

definition sudo_ok :: "sudo \<Rightarrow> bool" where
  "sudo_ok s \<longleftrightarrow> (\<forall>i e. sd_error s = Some (i, e) \<longrightarrow> i < sd_next s) \<and>
     (\<forall>i. sd_effectFor s = Some (Some i) \<longrightarrow> i < sd_next s) \<and>
     (if sd_submitting s then \<exists>i b. sd_inflight s = [(i, b)] \<and> i < sd_next s else sd_inflight s = [])"

lemma sudo_ok_verdict:
  assumes "sudo_ok s" "sd_inflight s = [(i, b)]" "case out of Rejected name m \<Rightarrow> \<not> isAbortError name | Responded r \<Rightarrow> True"
  shows "sudo_ok (sudo_verdict out (s\<lparr>sd_requests := R, sd_inflight := []\<rparr>))"
  using assms by (auto simp: sudo_ok_def sudo_verdict_def sudo_fail_def less_Suc_eq split: outcome.split if_splits)

lemma sudo_ok_settle:
  assumes "sudo_ok (dp_sudo d)" "dialog_enabled (De_settle i out) d"
  shows "sudo_ok (dp_sudo (settle_sudo i out d))"
proof -
  from assms obtain b where "sd_inflight (dp_sudo d) = [(i, b)]" by (auto simp: sudo_ok_def split: if_splits)
  with sudo_ok_verdict[OF assms(1) this] assms(2) show ?thesis by (simp add: settle_sudo_def Let_def)
qed

lemma sudo_ok_step:
  assumes "sudo_ok (dp_sudo d)" "dialog_enabled e d"
  shows "sudo_ok (dp_sudo (dialog_step num e d))"
proof (cases e)
  case (De_settle i out)
  with sudo_ok_settle[OF assms(1)] assms(2) show ?thesis by simp
next
  case (De_type input)
  with assms(1) show ?thesis by (auto simp: sudo_ok_def type_sudo_def split: option.splits)
next
  case De_effect
  with assms(1) show ?thesis by (auto simp: sudo_ok_def throttle_effect_def Let_def split: option.split)
next
  case De_tick
  with assms(1) show ?thesis by (auto simp: sudo_ok_def sudo_tick_def split: option.split)
next
  case De_submit
  with assms(1) show ?thesis by (auto simp: sudo_ok_def submit_sudo_def sudo_disabled_def Let_def less_Suc_eq)
qed (use assms(1) in \<open>simp_all add: cancel_sudo_def\<close>)

lemma dialog_ok: "dialog_reaches num w0 d \<Longrightarrow> sudo_ok (dp_sudo d)"
proof (induction rule: dialog_reaches.induct)
  case opened
  show ?case by (simp add: sudo_ok_def initial_sudo_def)
qed (simp add: sudo_ok_step)

section \<open>The throttle\<close>

text \<open>The interval of a throttle is running and the form shows that throttle.\<close>

definition sudo_throttled :: "sudo \<Rightarrow> bool" where
  "sudo_throttled s \<longleftrightarrow> (\<exists>i e. sd_error s = Some (i, e) \<and> sd_interval s = Some e \<and> se_kind e = Sudo_throttled)"

interpretation sudo_form: throttled_form sudo_tick sd_countdown sudo_throttled
  by unfold_locales (auto simp: sudo_tick_def sudo_throttled_def split: option.split)

lemma throttle_shown:
  assumes "sudo_ok s" "rs_status r = 429"
  shows "sudo_throttled (throttle_effect (sudo_verdict (Responded r) (s\<lparr>sd_requests := R, sd_inflight := F\<rparr>)))"
    and "sd_countdown (throttle_effect (sudo_verdict (Responded r) (s\<lparr>sd_requests := R, sd_inflight := F\<rparr>))) =
      retry_after (rs_retryAfter r)"
  using assms retry_after_bounds[of "rs_retryAfter r"]
  by (auto simp: sudo_ok_def sudo_verdict_def sudo_fail_def throttle_effect_def sudo_throttled_def)

lemma throttle_gone:
  assumes "sudo_throttled s" "\<not> sudo_throttled (sudo_tick s)"
  shows "sd_error (sudo_tick s) = None"
  using assms by (auto simp: sudo_tick_def sudo_throttled_def split: option.splits if_splits)

lemma idle_kept:
  "sd_submitting (sudo_tick s) = sd_submitting s" "sd_submitting (throttle_effect s) = sd_submitting s"
  by (simp_all add: sudo_tick_def throttle_effect_def Let_def split: option.split)

text \<open>
  C32: A throttled dialog recovers on time: after a 429 answer it stays closed for exactly
  the wait the server asked for, in whole seconds rounded up and never more than an hour of
  them, and then opens again with the throttle message gone.
\<close>

theorem sudo_throttle_lifts:
  assumes "dialog_reaches num w0 d" and "dialog_enabled (De_settle i (Responded r)) d" and "rs_status r = 429"
    and "s = throttle_effect (dp_sudo (settle_sudo i (Responded r) d))" and "t = nat \<lceil>retry_after (rs_retryAfter r)\<rceil>"
  shows "1 \<le> t \<and> t \<le> 3600 \<and> (\<forall>n < t. sudo_disabled ((sudo_tick ^^ n) s)) \<and>
    sd_error ((sudo_tick ^^ t) s) = None \<and> \<not> sudo_disabled ((sudo_tick ^^ t) s)"
proof -
  let ?q = "retry_after (rs_retryAfter r)"
  have ok: "sudo_ok (dp_sudo d)" using dialog_ok[OF assms(1)] .
  then obtain b where "sd_inflight (dp_sudo d) = [(i, b)]" using assms(2) by (auto simp: sudo_ok_def split: if_splits)
  then have s: "s = throttle_effect (sudo_verdict (Responded r)
      ((dp_sudo d)\<lparr>sd_requests := sd_requests (dp_sudo d) - {i}, sd_inflight := []\<rparr>))"
    using assms(4) by (simp add: settle_sudo_def Let_def)
  have on: "sudo_throttled s" "sd_countdown s = ?q" unfolding s using throttle_shown[OF ok assms(3)] by auto
  have q: "0 < ?q" "?q \<le> 3600" using retry_after_bounds by auto
  then have "0 < \<lceil>?q\<rceil>" "\<lceil>?q\<rceil> \<le> 3600" by (simp_all add: ceiling_le_iff)
  then have t: "1 \<le> t" "t \<le> 3600" unfolding assms(5) by linarith+
  have "\<not> sd_submitting (sudo_verdict (Responded r) v)" for v by (simp add: sudo_verdict_def)
  then have "\<not> sd_submitting s" by (simp add: s idle_kept)
  then have idle: "\<not> sd_submitting ((sudo_tick ^^ n) s)" for n by (induction n) (simp_all add: idle_kept)
  note lifted = sudo_form.lifted_after[OF on(1), unfolded on(2), OF q(1), folded assms(5)]
  obtain m where m: "t = Suc m" using t(1) by (cases t) auto
  have "sd_error ((sudo_tick ^^ t) s) = None"
    using throttle_gone[of "(sudo_tick ^^ m) s"] lifted(2)[of m] lifted(1) by (simp add: m)
  moreover have "\<forall>n < t. sudo_disabled ((sudo_tick ^^ n) s)" using lifted(2) by (simp add: sudo_disabled_def)
  ultimately show ?thesis using t lifted(1) idle[of t] by (simp add: sudo_disabled_def)
qed

section \<open>What an answer means\<close>

fun sudo_kind :: "outcome \<Rightarrow> sudo_error_kind option" where
  "sudo_kind (Rejected name message) = Some Sudo_network"
| "sudo_kind (Responded r) = (if rs_status r = 200 then None else if rs_status r = 401 then Some Sudo_invalid
     else if rs_status r = 429 then Some Sudo_throttled else Some Sudo_server)"

text \<open>
  C31: Only the daemon's 200 replays what was gated: the answer to the dialog's request
  retries the gated approvals exactly once then, and wipes the typed password; any other answer
  retries nothing (the hook is as after any request with that answer, which a 401 or 403 ends),
  keeps the typed password and sets the one error that fits. The answered request was the only one
  of the dialog that was unanswered, and after the answer none is: the dialog is not submitting
  any more.
\<close>

theorem sudo_replays_on_200_only:
  assumes "dialog_reaches num w0 d" and "dialog_enabled (De_settle i out) d" and "d' = settle_sudo i out d"
    and "map_of (sd_inflight (dp_sudo d)) i = Some sent"
  shows "wd_hook (dp_world d') = (if \<exists>r. out = Responded r \<and> rs_status r = 200
      then retryPendingApprove (wd_hook (dp_world d)) else wd_hook (apiFetch_settled sent out (dp_world d))) \<and>
    (sd_password (dp_sudo d') = (if \<exists>r. out = Responded r \<and> rs_status r = 200 then [] else sd_password (dp_sudo d))) \<and>
    map_option (se_kind \<circ> snd) (sd_error (dp_sudo d')) = (if \<exists>r. out = Responded r \<and> rs_status r = 200
      then map_option (se_kind \<circ> snd) (sd_error (dp_sudo d)) else sudo_kind out) \<and>
    \<not> sd_submitting (dp_sudo d') \<and> sd_inflight (dp_sudo d') = [] \<and> length (sd_inflight (dp_sudo d)) = 1"
proof -
  obtain b where one: "sd_inflight (dp_sudo d) = [(i, b)]"
    using dialog_ok[OF assms(1)] assms(2) by (auto simp: sudo_ok_def split: if_splits)
  have sent: "b = sent" using assms(4) one by simp
  let ?s = "(dp_sudo d)\<lparr>sd_requests := sd_requests (dp_sudo d) - {i}, sd_inflight := []\<rparr>"
  have modal: "dp_sudo d' = sudo_verdict out ?s" using one assms(3) by (simp add: settle_sudo_def Let_def)
  have page: "dp_world d' = (case out of
      Responded r \<Rightarrow> if rs_status r = 200 then (dp_world d)\<lparr>wd_hook := retryPendingApprove (wd_hook (dp_world d))\<rparr>
                     else apiFetch_settled sent out (dp_world d)
    | Rejected name message \<Rightarrow> apiFetch_settled sent out (dp_world d))"
    using one assms(3) sent by (simp add: settle_sudo_def Let_def apiFetch_settled_def split: outcome.split)
  show ?thesis
  proof (cases out)
    case (Responded r)
    then show ?thesis unfolding modal page one by (simp add: sudo_verdict_def sudo_fail_def)
  next
    case (Rejected name m)
    with assms(2) show ?thesis unfolding modal page one by (simp add: sudo_verdict_def sudo_fail_def)
  qed
qed

section \<open>A concrete dialog\<close>

definition signed_in :: world where
  "signed_in = page_step no_num (We_passkey_login ''k'') (initial_world plain_env ''ws://h/ws'' empty_store)"

definition asked :: dialog_page where
  "asked = submit_sudo \<lparr>dp_sudo = type_sudo ''pw'' initial_sudo, dp_world = signed_in\<rparr>"

lemma asked_reaches: "dialog_reaches no_num signed_in asked"
proof -
  let ?d = "dialog_step no_num (De_type ''pw'') \<lparr>dp_sudo = initial_sudo, dp_world = signed_in\<rparr>"
  have "dialog_reaches no_num signed_in ?d"
    by (rule dialog_reaches.event[OF dialog_reaches.opened]) (simp add: initial_sudo_def sudo_disabled_def)
  then have "dialog_reaches no_num signed_in (dialog_step no_num De_submit ?d)"
    by (rule dialog_reaches.event) simp
  then show ?thesis by (simp add: asked_def)
qed

lemma asked_inflight: "sd_inflight (dp_sudo asked) = [(0, Some ''k'')]"
  by (simp add: asked_def submit_sudo_def type_sudo_def initial_sudo_def sudo_disabled_def signed_in_def page_defs)

definition refusal :: "nat \<Rightarrow> response" where
  "refusal status = \<lparr>rs_status = status, rs_contentType = None, rs_retryAfter = None, rs_text = None, rs_json = None\<rparr>"

theorem sudo_throttle_lifts_witness:
  "\<not> sudo_disabled ((sudo_tick ^^ 30) (throttle_effect (dp_sudo (settle_sudo 0 (Responded (refusal 429)) asked)))) \<and>
   sudo_disabled ((sudo_tick ^^ 29) (throttle_effect (dp_sudo (settle_sudo 0 (Responded (refusal 429)) asked))))"
proof -
  have "dialog_enabled (De_settle 0 (Responded (refusal 429))) asked" by (simp add: asked_inflight)
  moreover have "30 = nat \<lceil>retry_after (rs_retryAfter (refusal 429))\<rceil>" by (simp add: refusal_def retry_after_def)
  ultimately show ?thesis
    using sudo_throttle_lifts[OF asked_reaches _ _ HOL.refl, of 0 "refusal 429" 30] by (simp add: refusal_def)
qed

theorem sudo_replays_on_200_only_witness:
  "wd_hook (dp_world (settle_sudo 0 (Responded (refusal 200)) asked)) = retryPendingApprove (wd_hook (dp_world asked)) \<and>
   map_option (se_kind \<circ> snd) (sd_error (dp_sudo (settle_sudo 0 (Responded (refusal 503)) asked))) = Some Sudo_server"
proof -
  have e: "dialog_enabled (De_settle 0 (Responded (refusal n))) asked" for n by (simp add: asked_inflight)
  have m: "map_of (sd_inflight (dp_sudo asked)) 0 = Some (Some ''k'')" by (simp add: asked_inflight)
  from sudo_replays_on_200_only[OF asked_reaches e HOL.refl m, of 200] sudo_replays_on_200_only[OF asked_reaches e HOL.refl m, of 503]
  show ?thesis by (simp add: refusal_def)
qed

end
