(* ===== verification/Login_Form.thy ===== *)
theory Login_Form
  imports Passkey_Properties Throttle Web_Properties
begin

text \<open>
  \<open>components/Login.tsx\<close> on the page: the sign-in and first-run form with its client-side
  checks, the throttle countdown, the selective wiping of the password fields and the two
  passkey surfaces. The props are read from the page, as \<open>App.tsx\<close> passes them. Effects are
  separate steps that compare their dependencies with those of their last run.
\<close>

section \<open>Texts\<close>

definition MIN_PASSWORD_LEN :: nat where "MIN_PASSWORD_LEN = 12"

definition quote_char :: string where "quote_char = [char_of (39::nat)]"

text \<open>
  The inline text of a passkey error. The message of a \<open>server_rejected\<close> is whatever the
  server put into its JSON, and \<open>trim\<close> of a value that is not a string throws.
\<close>

definition passkeyErrorText :: "passkey_error \<Rightarrow> json result" where
  "passkeyErrorText e = (case pk_kind e of
       Pk_unsupported \<Rightarrow> Inr (JStr ''This browser does not support passkeys. Use a password instead.'')
     | Pk_cancelled \<Rightarrow> Inr (JStr ''Passkey prompt was cancelled. Try again or use a password.'')
     | Pk_origin_unavailable \<Rightarrow> Inr (JStr (''Passkeys aren'' @ quote_char @ ''t available on this URL.''))
     | Pk_uv_failed \<Rightarrow> Inr (JStr ''User verification failed on the authenticator. Try again or use a password.'')
     | Pk_sudo_required \<Rightarrow> Inr (JStr
         ''Passkey enrollment under Enterprise requires re-entering your password. This is coming soon (tracked as itr#313).'')
     | Pk_server_rejected \<Rightarrow> (case pk_message e of
           JStr m \<Rightarrow> Inr (JStr (if trim m = ''throttled'' then ''Too many login attempts. Wait a moment and try again.'' else m))
         | _ \<Rightarrow> Inl ''error.message.trim is not a function'')
     | Pk_network \<Rightarrow> Inr (pk_message e)
     | Pk_unknown \<Rightarrow> Inr (if js_truthy (Some (pk_message e)) then pk_message e else JStr ''Unknown passkey error.''))"

definition defaultDeviceName :: "string \<Rightarrow> string" where
  "defaultDeviceName ua =
     (let browser = (if includes_str ua ''Firefox/'' then ''Firefox''
                     else if includes_str ua ''Edg/'' then ''Edge''
                     else if includes_str ua ''Chrome/'' then ''Chrome''
                     else if includes_str ua ''Safari/'' then ''Safari'' else ''Browser'');
          platform = (if includes_str ua ''iPhone'' \<or> includes_str ua ''iPad'' then ''iOS''
                      else if includes_str ua ''Android'' then ''Android''
                      else if includes_str ua ''Macintosh'' then ''Mac''
                      else if includes_str ua ''Windows'' then ''Windows''
                      else if includes_str ua ''Linux'' then ''Linux'' else ''Device'')
      in platform @ '' ('' @ browser @ '')'')"

section \<open>State\<close>

datatype passkey_busy = Busy_no | Busy_enrolling | Busy_logging_in

text \<open>
  \<open>lv_awaiting\<close> is the request whose promise \<open>handleSubmit\<close> awaits; the \<open>lv_seen\<close> fields are the
  dependencies the effects last ran with.
\<close>

record login_view =
  lv_password :: string
  lv_confirm :: string
  lv_deviceName :: string
  lv_submitting :: bool
  lv_countdown :: rat
  lv_localError :: "string option"
  lv_passkeyError :: "passkey_error option"
  lv_passkeyBusy :: passkey_busy
  lv_interval :: bool
  lv_awaiting :: "nat option"
  lv_seenError :: "auth_error option option"
  lv_seenPhase :: "auth_phase option"
  lv_seenThrottle :: "(bool \<times> rat option) option"

record login_page =
  lp_view :: login_view
  lp_world :: world

definition initial_login :: "string \<Rightarrow> login_view" where
  "initial_login ua = \<lparr>lv_password = [], lv_confirm = [], lv_deviceName = defaultDeviceName ua, lv_submitting = False,
     lv_countdown = 0, lv_localError = None, lv_passkeyError = None, lv_passkeyBusy = Busy_no, lv_interval = False,
     lv_awaiting = None, lv_seenError = None, lv_seenPhase = None, lv_seenThrottle = None\<rparr>"

abbreviation login_error :: "login_page \<Rightarrow> auth_error option" where
  "login_error lp \<equiv> au_error (wd_auth (lp_world lp))"

abbreviation login_phase :: "login_page \<Rightarrow> auth_phase" where
  "login_phase lp \<equiv> au_phase (wd_auth (lp_world lp))"

abbreviation upd_view :: "(login_view \<Rightarrow> login_view) \<Rightarrow> login_page \<Rightarrow> login_page" where
  "upd_view f lp \<equiv> lp\<lparr>lp_view := f (lp_view lp)\<rparr>"

abbreviation upd_world :: "(world \<Rightarrow> world) \<Rightarrow> login_page \<Rightarrow> login_page" where
  "upd_world f lp \<equiv> lp\<lparr>lp_world := f (lp_world lp)\<rparr>"

definition login_disabled :: "login_view \<Rightarrow> bool" where
  "login_disabled v \<longleftrightarrow> lv_submitting v \<or> lv_countdown v > 0 \<or> lv_passkeyBusy v \<noteq> Busy_no"

definition showPasskeyAffordances :: "login_page \<Rightarrow> bool" where
  "showPasskeyAffordances lp \<longleftrightarrow>
     sn_loaded (rendered_profile (wd_profile (lp_world lp))) \<and> sn_canEnroll (rendered_profile (wd_profile (lp_world lp)))"

section \<open>Effects\<close>

definition error_effects :: "login_page \<Rightarrow> login_page" where
  "error_effects lp =
     (if lv_seenError (lp_view lp) = Some (login_error lp) then lp
      else upd_view (\<lambda>v. case login_error lp of
          None \<Rightarrow> v\<lparr>lv_seenError := Some None\<rparr>
        | Some e \<Rightarrow>
            (let v' = v\<lparr>lv_seenError := Some (Some e), lv_localError := None\<rparr> in
             if ae_kind e = Err_invalid then v'\<lparr>lv_confirm := []\<rparr>
             else if ae_kind e = Err_conflict then v'\<lparr>lv_password := [], lv_confirm := []\<rparr>
             else v')) lp)"

definition phase_effects :: "login_page \<Rightarrow> login_page" where
  "phase_effects lp =
     (if lv_seenPhase (lp_view lp) = Some (login_phase lp) then lp
      else upd_view (\<lambda>v. v\<lparr>lv_seenPhase := Some (login_phase lp), lv_localError := None, lv_passkeyError := None\<rparr>) lp)"

definition throttle_of :: "auth_error option \<Rightarrow> bool \<times> rat option" where
  "throttle_of err = (case err of Some e \<Rightarrow> (ae_kind e = Err_throttled, ae_retryAfter e) | None \<Rightarrow> (False, None))"

text \<open>The countdown is seeded from zero or extended, never shortened.\<close>

definition login_throttle_effect :: "login_page \<Rightarrow> login_page" where
  "login_throttle_effect lp =
     (if lv_seenThrottle (lp_view lp) = Some (throttle_of (login_error lp)) then lp
      else upd_view (\<lambda>v.
        let v' = v\<lparr>lv_seenThrottle := Some (throttle_of (login_error lp)), lv_interval := False\<rparr> in
        case throttle_of (login_error lp) of
          (True, Some q) \<Rightarrow>
            if q = 0 then v'\<lparr>lv_countdown := 0\<rparr>
            else v'\<lparr>lv_countdown := (if lv_countdown v > 0 then max (lv_countdown v) q else q), lv_interval := True\<rparr>
        | _ \<Rightarrow> v'\<lparr>lv_countdown := 0\<rparr>) lp)"

definition login_tick :: "login_page \<Rightarrow> login_page" where
  "login_tick lp =
     (if \<not> lv_interval (lp_view lp) then lp
      else let next_count = lv_countdown (lp_view lp) - 1 in
        if next_count \<le> 0
        then upd_world clearError (upd_view (\<lambda>v. v\<lparr>lv_interval := False, lv_countdown := 0\<rparr>) lp)
        else upd_view (\<lambda>v. v\<lparr>lv_countdown := next_count\<rparr>) lp)"

section \<open>The password form\<close>

definition submit_login :: "login_page \<Rightarrow> login_page" where
  "submit_login lp =
     (let v = lp_view lp; w = lp_world lp in
      if login_disabled v \<or> lv_password v = [] then lp
      else if login_phase lp = Setup \<and> length (lv_password v) < MIN_PASSWORD_LEN
      then upd_view (\<lambda>v. v\<lparr>lv_localError := Some (''Password must be at least '' @ show_nat MIN_PASSWORD_LEN @ '' characters.'')\<rparr>) lp
      else if login_phase lp = Setup \<and> lv_password v \<noteq> lv_confirm v
      then upd_view (\<lambda>v. v\<lparr>lv_localError := Some ''Passwords do not match.''\<rparr>) lp
      else \<lparr>lp_view = v\<lparr>lv_localError := None, lv_submitting := True, lv_awaiting := Some (au_next (wd_auth w))\<rparr>,
            lp_world = (if login_phase lp = Setup then setPassword (lv_password v) (Some (lv_deviceName v)) w
                        else login (lv_password v) (Some (lv_deviceName v)) w)\<rparr>)"

definition submit_done :: "bool \<Rightarrow> login_view \<Rightarrow> login_view" where
  "submit_done ok v = (if ok then v\<lparr>lv_password := [], lv_confirm := []\<rparr> else v)\<lparr>lv_submitting := False, lv_awaiting := None\<rparr>"

definition type_login :: "string \<Rightarrow> login_page \<Rightarrow> login_page" where
  "type_login s lp = upd_world (\<lambda>w. if login_error lp \<noteq> None then clearError w else w)
     (upd_view (\<lambda>v. v\<lparr>lv_password := s, lv_localError := None\<rparr>) lp)"

definition type_confirm :: "string \<Rightarrow> login_page \<Rightarrow> login_page" where
  "type_confirm s lp = upd_view (\<lambda>v. v\<lparr>lv_confirm := s, lv_localError := None\<rparr>) lp"

definition type_device :: "string \<Rightarrow> login_page \<Rightarrow> login_page" where
  "type_device s lp = upd_view (\<lambda>v. v\<lparr>lv_deviceName := s\<rparr>) lp"

section \<open>The passkey surfaces\<close>

definition handleEnrollPasskey :: "login_page \<Rightarrow> login_page" where
  "handleEnrollPasskey lp = upd_view (\<lambda>v. v\<lparr>lv_passkeyError := None, lv_passkeyBusy := Busy_enrolling\<rparr>) lp"

definition enroll_done :: "js ceremony_result \<Rightarrow> login_page \<Rightarrow> login_page" where
  "enroll_done res lp = upd_view (\<lambda>v. v\<lparr>lv_passkeyBusy := Busy_no\<rparr>) (case res of
       Failed e \<Rightarrow> upd_view (\<lambda>v. v\<lparr>lv_passkeyError := Some e\<rparr>) lp
     | Succeeded c \<Rightarrow> upd_world completeEnrollGate lp
     | Uncaught e \<Rightarrow> lp)"

definition handleSkipEnroll :: "login_page \<Rightarrow> login_page" where
  "handleSkipEnroll lp = upd_world completeEnrollGate (upd_view (\<lambda>v. v\<lparr>lv_passkeyError := None\<rparr>) lp)"

definition handleLoginWithPasskey :: "login_page \<Rightarrow> login_page" where
  "handleLoginWithPasskey lp = upd_world (\<lambda>w. if login_error lp \<noteq> None then clearError w else w)
     (upd_view (\<lambda>v. v\<lparr>lv_passkeyError := None, lv_passkeyBusy := Busy_logging_in\<rparr>) lp)"

text \<open>The token of a success was stored by the ceremony.\<close>

definition passkey_login_done :: "login_success ceremony_result \<times> deed list \<Rightarrow> login_page \<Rightarrow> login_page" where
  "passkey_login_done run lp =
     upd_view (\<lambda>v. v\<lparr>lv_passkeyBusy := Busy_no,
         lv_passkeyError := (case fst run of Failed e \<Rightarrow> Some e | _ \<Rightarrow> lv_passkeyError v)\<rparr>)
       (upd_world (fold (\<lambda>d w. case d of Stored t \<Rightarrow> page_setWebToken t w | _ \<Rightarrow> w) (snd run)) lp)"

section \<open>What a submit sends\<close>

definition may_submit :: "login_page \<Rightarrow> bool" where
  "may_submit lp \<longleftrightarrow> \<not> login_disabled (lp_view lp) \<and> lv_password (lp_view lp) \<noteq> [] \<and>
     (if login_phase lp = Setup then 12 \<le> length (lv_password (lp_view lp)) \<and> lv_confirm (lp_view lp) = lv_password (lp_view lp) else True)"

lemma submit_closed: "login_disabled (lp_view lp) \<Longrightarrow> submit_login lp = lp"
  by (simp add: submit_login_def)

abbreviation with_local_error :: "string option \<Rightarrow> login_page \<Rightarrow> login_page" where
  "with_local_error x lp \<equiv> upd_view (\<lambda>v. v\<lparr>lv_localError := x\<rparr>) lp"

lemma submit_refused:
  assumes "\<not> may_submit lp"
  shows "lp_world (submit_login lp) = lp_world lp \<and> submit_login (submit_login lp) = submit_login lp"
proof (cases "login_disabled (lp_view lp) \<or> lv_password (lp_view lp) = []")
  case True
  then have "submit_login lp = lp" by (auto simp: submit_login_def)
  then show ?thesis by simp
next
  case False
  define x where "x = (if length (lv_password (lp_view lp)) < MIN_PASSWORD_LEN
    then ''Password must be at least '' @ show_nat MIN_PASSWORD_LEN @ '' characters.'' else ''Passwords do not match.'')"
  from False assms have first: "login_phase lp = Setup" by (auto simp: may_submit_def split: if_splits)
  with False assms have bad: "length (lv_password (lp_view lp)) < MIN_PASSWORD_LEN \<or> lv_password (lp_view lp) \<noteq> lv_confirm (lp_view lp)"
    by (auto simp: may_submit_def MIN_PASSWORD_LEN_def)
  have open_form: "\<not> login_disabled (v\<lparr>lv_localError := y\<rparr>) = (\<not> login_disabled v)" for v y by (simp add: login_disabled_def)
  have "submit_login (with_local_error y lp) = with_local_error (Some x) lp" for y
    using False first bad open_form
    by (cases "length (lv_password (lp_view lp)) < MIN_PASSWORD_LEN") (simp_all add: submit_login_def Let_def x_def)
  from this[of "lv_localError (lp_view lp)"] this[of "Some x"] show ?thesis by simp
qed

text \<open>
  The form sends a password only when it may: one request per submit, to the endpoint of
  the phase, with the typed password and the trimmed device name, and on a first run only
  with twelve characters or more that were confirmed. Otherwise nothing reaches the server.
  Submitting again before the answer, or during a throttle or a passkey prompt, does nothing.
\<close>

theorem login_form_guards:
  "wd_fetches (lp_world (submit_login lp)) = wd_fetches (lp_world lp) @
     (if may_submit lp
      then [\<lparr>fc_url = API_BASE (wd_env (lp_world lp)) @ (if login_phase lp = Setup then ''/api/auth/set-password'' else ''/api/auth/login''),
             fc_post = True, fc_bearer = bearer (lp_world lp),
             fc_credentials = Some (lv_password (lp_view lp), device (Some (lv_deviceName (lp_view lp))))\<rparr>]
      else []) \<and>
   (if may_submit lp then lv_submitting (lp_view (submit_login lp)) else lp_world (submit_login lp) = lp_world lp) \<and>
   submit_login (submit_login lp) = submit_login lp"
proof (cases "may_submit lp")
  case True
  then have go: "\<not> login_disabled (lp_view lp)" "lv_password (lp_view lp) \<noteq> []"
    "login_phase lp = Setup \<Longrightarrow> \<not> length (lv_password (lp_view lp)) < MIN_PASSWORD_LEN"
    "login_phase lp = Setup \<Longrightarrow> lv_confirm (lp_view lp) = lv_password (lp_view lp)"
    by (simp_all add: may_submit_def MIN_PASSWORD_LEN_def)
  have bearer: "bearer (upd_auth f w) = bearer w" for f w by (simp add: bearer_def page_getWebToken_def)
  from go have sent: "lp_view (submit_login lp) = (lp_view lp)\<lparr>lv_localError := None, lv_submitting := True,
        lv_awaiting := Some (au_next (wd_auth (lp_world lp)))\<rparr>"
    "lp_world (submit_login lp) = (if login_phase lp = Setup then setPassword (lv_password (lp_view lp)) (Some (lv_deviceName (lp_view lp))) (lp_world lp)
      else login (lv_password (lp_view lp)) (Some (lv_deviceName (lp_view lp))) (lp_world lp))"
    by (auto simp: submit_login_def Let_def)
  have "login_disabled (lp_view (submit_login lp))" unfolding sent(1) by (simp add: login_disabled_def)
  then have "submit_login (submit_login lp) = submit_login lp" by (rule submit_closed)
  with True sent show ?thesis
    by (simp add: setPassword_def login_def fetchWithAbort_def apiFetch_def bearer)
next
  case False
  with submit_refused[OF False] show ?thesis by auto
qed

section \<open>The throttle\<close>

definition login_throttled :: "login_page \<Rightarrow> bool" where
  "login_throttled lp \<longleftrightarrow> lv_interval (lp_view lp)"

interpretation login_form: throttled_form login_tick "lv_countdown \<circ> lp_view" login_throttled
  by unfold_locales (auto simp: login_tick_def login_throttled_def Let_def)

lemma login_lift_clears:
  assumes "login_throttled lp" "\<not> login_throttled (login_tick lp)"
  shows "login_error (login_tick lp) = None"
  using assms by (auto simp: login_tick_def login_throttled_def Let_def clearError_def split: if_splits)

lemma throttle_seeded:
  assumes "login_error lp = Some e" "ae_kind e = Err_throttled" "ae_retryAfter e = Some q" "0 < q"
    and "lv_seenThrottle (lp_view lp) \<noteq> Some (True, Some q)"
  shows "login_throttled (login_throttle_effect lp) \<and> lv_countdown (lp_view (login_throttle_effect lp)) =
      (if 0 < lv_countdown (lp_view lp) then max (lv_countdown (lp_view lp)) q else q)"
  using assms by (simp add: login_throttle_effect_def throttle_of_def login_throttled_def Let_def)

text \<open>
  A throttled sign-in recovers on time, and a further refusal never shortens the wait:
  when a throttle of \<open>q\<close> seconds is shown, the form stays closed for the longer of \<open>q\<close> and
  what was left of the previous wait, in whole seconds rounded up, and then opens again with
  the message gone.
\<close>

theorem login_throttle_lifts:
  assumes "login_error lp = Some e" and "ae_kind e = Err_throttled" and "ae_retryAfter e = Some q" and "0 < q"
    and "lv_seenThrottle (lp_view lp) \<noteq> Some (True, Some q)" and "0 \<le> lv_countdown (lp_view lp)"
    and "s = login_throttle_effect lp" and "t = nat \<lceil>max (lv_countdown (lp_view lp)) q\<rceil>"
  shows "(\<forall>n < t. login_disabled (lp_view ((login_tick ^^ n) s))) \<and>
    lv_countdown (lp_view ((login_tick ^^ t) s)) = 0 \<and> login_error ((login_tick ^^ t) s) = None"
proof -
  let ?c = "max (lv_countdown (lp_view lp)) q"
  have on: "login_throttled s" "(lv_countdown \<circ> lp_view) s = ?c"
    using throttle_seeded[OF assms(1-5)] assms(4,6,7) by auto
  have pos: "0 < ?c" using assms(4) by simp
  note lifted = login_form.lifted_after[OF on(1), unfolded on(2), OF pos, folded assms(8)]
  have "0 < \<lceil>?c\<rceil>" using pos by simp
  then have "0 < t" unfolding assms(8) by simp
  then obtain m where m: "t = Suc m" by (cases t) auto
  have "login_error ((login_tick ^^ t) s) = None"
    using login_lift_clears[of "(login_tick ^^ m) s"] lifted(2)[of m] lifted(1) by (simp add: m)
  with lifted show ?thesis by (simp add: login_disabled_def)
qed

section \<open>What the answers leave in the fields\<close>

lemma setPassword_error:
  assumes "map_of (au_inflight (wd_auth w)) i = Some (Call_setPassword p d, None)"
    and "rs_status r \<noteq> 200" and "rs_status r = 400 \<Longrightarrow> rs_text r \<noteq> None"
  shows "map_option ae_kind (au_error (wd_auth (settle num i (Responded r) w))) = Some (
      if rs_status r = 400 then Err_invalid else if rs_status r = 409 then Err_conflict
      else if rs_status r = 429 then Err_throttled else Err_server)"
    and "au_phase (wd_auth (settle num i (Responded r) w)) = (if rs_status r = 409 then Unauthed else au_phase (wd_auth w))"
  using assms by (auto simp: settle_def apiFetch_settled_def setPassword_done_def fails_def returns_def setPhase_def)

text \<open>
  A refused first-run password leaves in the fields what the user can still use: a weak
  one keeps the typed password and clears its confirmation, a host that already has a
  password switches to the sign-in form with both fields empty, and a throttle or a server
  error keeps both; the form is open again, until the countdown of a throttle starts.
\<close>

theorem setup_refusal_fields:
  assumes "map_of (au_inflight (wd_auth (lp_world lp))) i = Some (Call_setPassword p d, None)"
    and "rs_status r \<noteq> 200" and "rs_status r = 400 \<Longrightarrow> rs_text r \<noteq> None"
    and "lv_seenError (lp_view lp) = Some None" and "lv_passkeyBusy (lp_view lp) = Busy_no" and "lv_countdown (lp_view lp) = 0"
    and "lp' = error_effects (upd_view (submit_done False) (upd_world (settle num i (Responded r)) lp))"
  shows "lv_password (lp_view lp') = (if rs_status r = 409 then [] else lv_password (lp_view lp)) \<and>
    lv_confirm (lp_view lp') = (if rs_status r \<in> {400, 409} then [] else lv_confirm (lp_view lp)) \<and>
    login_phase lp' = (if rs_status r = 409 then Unauthed else login_phase lp) \<and>
    lv_localError (lp_view lp') = None \<and> \<not> login_disabled (lp_view lp')"
proof -
  let ?w = "settle num i (Responded r) (lp_world lp)"
  note kind = setPassword_error[OF assms(1-3), where num = num]
  from kind(1) obtain e where e: "au_error (wd_auth ?w) = Some e" by auto
  with kind(1) have k: "ae_kind e = (if rs_status r = 400 then Err_invalid else if rs_status r = 409 then Err_conflict
      else if rs_status r = 429 then Err_throttled else Err_server)" by simp
  have view: "lp_view lp' = (let v = submit_done False (lp_view lp);
        v' = v\<lparr>lv_seenError := Some (Some e), lv_localError := None\<rparr> in
      if ae_kind e = Err_invalid then v'\<lparr>lv_confirm := []\<rparr>
      else if ae_kind e = Err_conflict then v'\<lparr>lv_password := [], lv_confirm := []\<rparr> else v')"
    using assms(4,7) e by (simp add: error_effects_def submit_done_def Let_def)
  have phase: "login_phase lp' = au_phase (wd_auth ?w)"
    using assms(7) by (simp add: error_effects_def)
  show ?thesis unfolding view phase
    using k kind(2) assms(5,6) by (simp add: submit_done_def login_disabled_def Let_def)
qed

section \<open>A first run\<close>

definition first_form :: login_page where
  "first_form = \<lparr>lp_view = (initial_login [])\<lparr>lv_password := ''correct horse'', lv_confirm := ''correct horse'', lv_seenError := Some None\<rparr>,
     lp_world = setPhase Setup (initial_world plain_env ''ws://h/ws'' empty_store)\<rparr>"

definition first_sent :: login_page where
  "first_sent = submit_login first_form"

lemma first_sent_facts:
  "map_of (au_inflight (wd_auth (lp_world first_sent))) 0 = Some (Call_setPassword ''correct horse'' (Some ''Device (Browser)''), None)"
  "lv_seenError (lp_view first_sent) = Some None" "lv_passkeyBusy (lp_view first_sent) = Busy_no" "lv_countdown (lp_view first_sent) = 0"
  "lv_password (lp_view first_sent) = ''correct horse''"
  by (simp_all add: first_sent_def first_form_def submit_login_def initial_login_def defaultDeviceName_def login_disabled_def
      MIN_PASSWORD_LEN_def page_defs)

definition plain_refusal :: "nat \<Rightarrow> response" where
  "plain_refusal status = \<lparr>rs_status = status, rs_contentType = None, rs_retryAfter = None, rs_text = Some [], rs_json = None\<rparr>"

definition after_refusal :: "nat \<Rightarrow> login_page" where
  "after_refusal status = error_effects (upd_view (submit_done False) (upd_world (settle no_num 0 (Responded (plain_refusal status))) first_sent))"

theorem setup_refusal_fields_witness:
  "lv_password (lp_view (after_refusal 409)) = [] \<and> login_phase (after_refusal 409) = Unauthed \<and>
   lv_password (lp_view (after_refusal 400)) = ''correct horse'' \<and> lv_confirm (lp_view (after_refusal 400)) = []"
proof -
  have r: "rs_status (plain_refusal n) = n" "rs_text (plain_refusal n) \<noteq> None" for n by (simp_all add: plain_refusal_def)
  from setup_refusal_fields[OF first_sent_facts(1) _ _ first_sent_facts(2,3,4) after_refusal_def[of 409]]
    setup_refusal_fields[OF first_sent_facts(1) _ _ first_sent_facts(2,3,4) after_refusal_def[of 400]] r first_sent_facts(5)
  show ?thesis by simp
qed

definition throttled_form_page :: login_page where
  "throttled_form_page = \<lparr>lp_view = (initial_login [])\<lparr>lv_countdown := 2\<rparr>,
     lp_world = fails 0 Err_throttled ''Too many attempts.'' (Some 5) (initial_world plain_env ''ws://h/ws'' empty_store)\<rparr>"

theorem login_throttle_lifts_witness:
  "login_disabled (lp_view ((login_tick ^^ 4) (login_throttle_effect throttled_form_page))) \<and>
   login_error ((login_tick ^^ 5) (login_throttle_effect throttled_form_page)) = None"
proof -
  let ?e = "\<lparr>ae_kind = Err_throttled, ae_message = ''Too many attempts.'', ae_retryAfter = Some (5::rat)\<rparr>"
  have "login_error throttled_form_page = Some ?e" "lv_seenThrottle (lp_view throttled_form_page) \<noteq> Some (True, Some 5)"
    "0 \<le> lv_countdown (lp_view throttled_form_page)" "5 = nat \<lceil>max (lv_countdown (lp_view throttled_form_page)) (5::rat)\<rceil>"
    by (simp_all add: throttled_form_page_def fails_def returns_def initial_login_def)
  from login_throttle_lifts[OF this(1) _ _ _ this(2,3) HOL.refl this(4)] show ?thesis by simp
qed

end
