(* ===== verification/App_Shell.thy ===== *)
theory App_Shell
  imports Wisphive_Properties Liveness
begin

text \<open>
  The authenticated application shell (\<open>App.tsx\<close>, \<open>AuthedApp\<close>), the keyboard hook
  (\<open>hooks/useKeyboard.ts\<close>) and the dialog that closes on Escape (\<open>components/Modal.tsx\<close>). The
  shell keeps which view is open, which decision is selected and which dialogs show; its
  handlers call into the daemon connection hook. A gesture is a key press, a click, or an
  event of the hook itself; \<open>ap_events\<close> records the hook events the shell caused, newest
  first, so that a run of the shell is a run of the hook.
\<close>

section \<open>State\<close>

datatype view = V_inbox | V_board | V_queue | V_history | V_sessions | V_projects | V_worktrees
  | V_burn | V_agents | V_config | V_terminals

record shell =
  sh_selectedId :: "string option"
  sh_view :: view
  sh_focusTerminalId :: "string option"
  sh_focusDeferredKey :: "string option"
  sh_showSpawn :: bool
  sh_spawnDefaultProject :: "string option"
  sh_sessionAgent :: "string option"
  sh_agentDrilldown :: "string option"
  sh_showHelp :: bool

definition initial_shell :: shell where
  "initial_shell = \<lparr>sh_selectedId = None, sh_view = V_inbox, sh_focusTerminalId = None,
     sh_focusDeferredKey = None, sh_showSpawn = False, sh_spawnDefaultProject = None,
     sh_sessionAgent = None, sh_agentDrilldown = None, sh_showHelp = False\<rparr>"

record app =
  ap_shell :: shell
  ap_hook :: hook
  ap_events :: "event list"

abbreviation app_queue :: "app \<Rightarrow> decision_request list" where
  "app_queue a \<equiv> queue (h_state (ap_hook a))"

definition on_shell :: "(shell \<Rightarrow> shell) \<Rightarrow> app \<Rightarrow> app" where
  "on_shell f a = a\<lparr>ap_shell := f (ap_shell a)\<rparr>"

definition on_hook :: "string \<Rightarrow> event \<Rightarrow> app \<Rightarrow> app" where
  "on_hook now e a = a\<lparr>ap_hook := step now e (ap_hook a), ap_events := e # ap_events a\<rparr>"

abbreviation setSelectedId :: "string option \<Rightarrow> app \<Rightarrow> app" where
  "setSelectedId i \<equiv> on_shell (\<lambda>s. s\<lparr>sh_selectedId := i\<rparr>)"

abbreviation setView :: "view \<Rightarrow> app \<Rightarrow> app" where
  "setView v \<equiv> on_shell (\<lambda>s. s\<lparr>sh_view := v\<rparr>)"

abbreviation setShowSpawn :: "bool \<Rightarrow> app \<Rightarrow> app" where
  "setShowSpawn b \<equiv> on_shell (\<lambda>s. s\<lparr>sh_showSpawn := b\<rparr>)"

section \<open>Selection and navigation\<close>

definition selectedRequest :: "app \<Rightarrow> decision_request option" where
  "selectedRequest a = find (\<lambda>r. Some (dr_id r) = sh_selectedId (ap_shell a)) (app_queue a)"

definition openInboxTarget :: "inbox_target \<Rightarrow> app \<Rightarrow> app" where
  "openInboxTarget target a = setView V_inbox (case target of
     Target_decision requestId _ \<Rightarrow>
       on_shell (\<lambda>s. s\<lparr>sh_selectedId := Some requestId, sh_focusDeferredKey := None\<rparr>) a
   | Target_deferred key _ \<Rightarrow>
       on_shell (\<lambda>s. s\<lparr>sh_selectedId := None, sh_focusDeferredKey := Some key\<rparr>) a)"

definition loadBurn :: "string \<Rightarrow> app \<Rightarrow> app" where
  "loadBurn now a = on_hook now (Ev_command Do_querySessions) (on_hook now (Ev_command Do_queryBurn) a)"

definition navList :: "view \<Rightarrow> decision_request list \<Rightarrow> decision_request list" where
  "navList v q = (if v = V_inbox then orderByAge q else q)"

fun find_index :: "int \<Rightarrow> ('a \<Rightarrow> bool) \<Rightarrow> 'a list \<Rightarrow> int" where
  "find_index i p [] = -1"
| "find_index i p (x # xs) = (if p x then i else find_index (i + 1) p xs)"

definition navIndex :: "decision_request list \<Rightarrow> string option \<Rightarrow> int" where
  "navIndex nav sel = find_index 0 (\<lambda>r. Some (dr_id r) = sel) nav"

definition list_view :: "view \<Rightarrow> bool" where
  "list_view v \<longleftrightarrow> v = V_queue \<or> v = V_inbox"

text \<open>
  The handlers close over the values of the last render (\<open>seen\<close>, the shell and queue of the
  closure); their state updates apply to the current application.
\<close>

abbreviation seen_nav :: "app \<Rightarrow> decision_request list" where
  "seen_nav seen \<equiv> navList (sh_view (ap_shell seen)) (app_queue seen)"

definition handleNext :: "app \<Rightarrow> app \<Rightarrow> app" where
  "handleNext seen a =
     (let nav = seen_nav seen; len = int (length nav) in
      if list_view (sh_view (ap_shell seen)) \<and> len > 0
      then let next = min (navIndex nav (sh_selectedId (ap_shell seen)) + 1) (len - 1)
           in setSelectedId (Some (dr_id (nav ! nat (if next \<ge> 0 then next else 0)))) a
      else a)"

definition handlePrev :: "app \<Rightarrow> app \<Rightarrow> app" where
  "handlePrev seen a =
     (let nav = seen_nav seen in
      if list_view (sh_view (ap_shell seen)) \<and> length nav > 0
      then let prev = max (navIndex nav (sh_selectedId (ap_shell seen)) - 1) 0
           in setSelectedId (Some (dr_id (nav ! nat prev))) a
      else a)"

section \<open>Key actions\<close>

definition onApprove_key :: "string \<Rightarrow> app \<Rightarrow> app \<Rightarrow> app" where
  "onApprove_key now seen a = (case sh_selectedId (ap_shell seen) of
     Some i \<Rightarrow> (if i \<noteq> [] \<and> list_view (sh_view (ap_shell seen))
                then setSelectedId None (on_hook now (Ev_approve i None) a) else a)
   | None \<Rightarrow> a)"

definition onDeny_key :: "string \<Rightarrow> app \<Rightarrow> app \<Rightarrow> app" where
  "onDeny_key now seen a = (case sh_selectedId (ap_shell seen) of
     Some i \<Rightarrow> (if i \<noteq> [] \<and> list_view (sh_view (ap_shell seen))
                then setSelectedId None (on_hook now (Ev_command (Do_deny i None)) a) else a)
   | None \<Rightarrow> a)"

definition closeHelp :: "app \<Rightarrow> app" where
  "closeHelp = on_shell (\<lambda>s. s\<lparr>sh_showHelp := False\<rparr>)"

definition closeSpawn :: "string \<Rightarrow> app \<Rightarrow> app" where
  "closeSpawn now a = on_hook now Ev_clearSpawnStatus
     (on_shell (\<lambda>s. s\<lparr>sh_showSpawn := False, sh_spawnDefaultProject := None\<rparr>) a)"

definition onBack :: "string \<Rightarrow> app \<Rightarrow> app \<Rightarrow> app" where
  "onBack now seen a =
     (if sh_showHelp (ap_shell seen) then closeHelp a
      else if sh_showSpawn (ap_shell seen) then closeSpawn now a
      else if truthy (sh_selectedId (ap_shell seen)) then setSelectedId None a
      else if truthy (sh_agentDrilldown (ap_shell seen)) then on_shell (\<lambda>s. s\<lparr>sh_agentDrilldown := None\<rparr>) a
      else if truthy (sh_sessionAgent (ap_shell seen)) then on_shell (\<lambda>s. s\<lparr>sh_sessionAgent := None\<rparr>) a
      else a)"

definition onSelect_key :: "app \<Rightarrow> app \<Rightarrow> app" where
  "onSelect_key seen a =
     (let nav = seen_nav seen in
      if list_view (sh_view (ap_shell seen)) \<and> length nav > 0 \<and> \<not> truthy (sh_selectedId (ap_shell seen))
      then setSelectedId (Some (dr_id (nav ! 0))) a else a)"

text \<open>The \<open>switch\<close> on the key; keys are named as the browser names them.\<close>

definition key_action :: "string \<Rightarrow> string \<Rightarrow> app \<Rightarrow> app \<Rightarrow> app" where
  "key_action now key seen a =
     (if key = ''j'' \<or> key = ''ArrowDown'' then handleNext seen a
      else if key = ''k'' \<or> key = ''ArrowUp'' then handlePrev seen a
      else if key = ''Enter'' then onSelect_key seen a
      else if key = ''Escape'' then onBack now seen a
      else if key = ''y'' then onApprove_key now seen a
      else if key = ''n'' then onDeny_key now seen a
      else if key = ''1'' then setView V_queue a
      else if key = ''2'' then setView V_history a
      else if key = ''3'' then setView V_sessions a
      else if key = ''4'' then setView V_projects a
      else if key = ''5'' then setView V_agents a
      else if key = ''6'' then setView V_config a
      else if key = ''7'' then setView V_terminals a
      else if key = ''8'' then setView V_board a
      else if key = ''9'' then setView V_worktrees a
      else if key = ''0'' then setView V_burn a
      else if key = ''N'' then setShowSpawn True a
      else if key = ''?'' then on_shell (\<lambda>s. s\<lparr>sh_showHelp := \<not> sh_showHelp s\<rparr>) a
      else a)"

section \<open>A key press\<close>

text \<open>
  \<open>ke_tag\<close> is the element the key goes to, \<open>ke_viewModal\<close> whether a view shows a dialog of its
  own. Every dialog listens on the document in the capture phase and closes on Escape, so
  it runs before the keyboard hook's listener on the window. \<open>ke_flushed\<close> says whether React
  re-rendered between the two listeners (it does after a native key press, not after a
  synthetic one), with \<open>ke_strict\<close> the mode of that render.
\<close>

record key_event =
  ke_key :: string
  ke_tag :: string
  ke_viewModal :: bool
  ke_flushed :: bool
  ke_strict :: bool

definition typing :: "key_event \<Rightarrow> bool" where
  "typing e \<longleftrightarrow> ke_tag e = ''INPUT'' \<or> ke_tag e = ''TEXTAREA'' \<or> ke_tag e = ''SELECT''"

definition shell_modal :: "app \<Rightarrow> bool" where
  "shell_modal a \<longleftrightarrow> sh_showHelp (ap_shell a) \<or> sh_showSpawn (ap_shell a) \<or>
     pendingReauth (h_state (ap_hook a)) \<noteq> None"

definition close_modals :: "string \<Rightarrow> app \<Rightarrow> app" where
  "close_modals now a =
     (let a1 = (if sh_showHelp (ap_shell a) then closeHelp a else a);
          a2 = (if sh_showSpawn (ap_shell a) then closeSpawn now a1 else a1)
      in if pendingReauth (h_state (ap_hook a)) \<noteq> None then on_hook now Ev_dismissReauth a2 else a2)"

text \<open>The listener of \<open>useKeyboard\<close>, given the last render and whether a dialog is in the page.\<close>

definition keyboard_handler :: "string \<Rightarrow> key_event \<Rightarrow> app \<Rightarrow> bool \<Rightarrow> app \<Rightarrow> app" where
  "keyboard_handler now e seen overlay a =
     (if typing e then a
      else if overlay then (if ke_key e = ''Escape'' then onBack now seen a else a)
      else key_action now (ke_key e) seen a)"

definition key_press :: "string \<Rightarrow> key_event \<Rightarrow> app \<Rightarrow> app" where
  "key_press now e a =
     (if ke_key e = ''Escape'' \<and> (shell_modal a \<or> ke_viewModal e)
      then let a1 = close_modals now a in
           if ke_flushed e
           then let a2 = on_hook now (Ev_render (ke_strict e)) a1
                in keyboard_handler now e a2 (shell_modal a2) a2
           else keyboard_handler now e a True a1
      else keyboard_handler now e a (shell_modal a \<or> ke_viewModal e) a)"

section \<open>Gestures\<close>

datatype gesture =
    G_key key_event
  | G_nav view
  | G_openSpawn
  | G_select string
  | G_approve string "approve_opts option"
  | G_deny string "string option"
  | G_focusTerminal string
  | G_focusDeferredHandled
  | G_openInbox inbox_target
  | G_selectSession "string option"
  | G_selectAgent "string option"
  | G_sideApprove string "approve_opts option"
  | G_sideDeny string "string option"
  | G_spawnInProject string
  | G_drillDown string
  | G_jumpToQueue
  | G_focusHandled
  | G_closeHelp
  | G_closeSpawn
  | G_spawn string spawn_agent_request
  | G_sudoCancel
  | G_sudoSuccess
  | G_pollAgents
  | G_hook event

fun gesture_run :: "string \<Rightarrow> gesture \<Rightarrow> app \<Rightarrow> app" where
  "gesture_run now (G_key e) a = key_press now e a"
| "gesture_run now (G_nav v) a = setView v a"
| "gesture_run now G_openSpawn a = setShowSpawn True a"
| "gesture_run now (G_select i) a = setSelectedId (Some i) a"
| "gesture_run now (G_approve i opts) a = setSelectedId None (on_hook now (Ev_approve i opts) a)"
| "gesture_run now (G_deny i m) a = setSelectedId None (on_hook now (Ev_command (Do_deny i m)) a)"
| "gesture_run now (G_focusTerminal t) a = setView V_terminals (on_shell (\<lambda>s. s\<lparr>sh_focusTerminalId := Some t\<rparr>) a)"
| "gesture_run now G_focusDeferredHandled a = on_shell (\<lambda>s. s\<lparr>sh_focusDeferredKey := None\<rparr>) a"
| "gesture_run now (G_openInbox t) a = openInboxTarget t a"
| "gesture_run now (G_selectSession i) a = on_shell (\<lambda>s. s\<lparr>sh_sessionAgent := i\<rparr>) a"
| "gesture_run now (G_selectAgent i) a = on_shell (\<lambda>s. s\<lparr>sh_agentDrilldown := i\<rparr>) a"
| "gesture_run now (G_sideApprove i opts) a = on_hook now (Ev_approve i opts) a"
| "gesture_run now (G_sideDeny i m) a = on_hook now (Ev_command (Do_deny i m)) a"
| "gesture_run now (G_spawnInProject p) a = setShowSpawn True (on_shell (\<lambda>s. s\<lparr>sh_spawnDefaultProject := Some p\<rparr>) a)"
| "gesture_run now (G_drillDown p) a = setView V_history (on_hook now (Ev_command (Do_searchHistory p None)) a)"
| "gesture_run now G_jumpToQueue a = setView V_queue a"
| "gesture_run now G_focusHandled a = on_shell (\<lambda>s. s\<lparr>sh_focusTerminalId := None\<rparr>) a"
| "gesture_run now G_closeHelp a = closeHelp a"
| "gesture_run now G_closeSpawn a = closeSpawn now a"
| "gesture_run now (G_spawn corr req) a = on_hook now (Ev_spawnAgent corr req) a"
| "gesture_run now G_sudoCancel a = on_hook now Ev_dismissReauth a"
| "gesture_run now G_sudoSuccess a = on_hook now Ev_retryPendingApprove a"
| "gesture_run now G_pollAgents a = on_hook now (Ev_command Do_queryManagedAgents) a"
| "gesture_run now (G_hook e) a = on_hook now e a"

text \<open>Which gestures the rendered page offers.\<close>

fun gesture_enabled :: "gesture \<Rightarrow> app \<Rightarrow> bool" where
  "gesture_enabled (G_select i) a = (list_view (sh_view (ap_shell a)) \<and> i \<in> dr_id ` set (app_queue a))"
| "gesture_enabled (G_approve i opts) a = (list_view (sh_view (ap_shell a)) \<and> i \<in> dr_id ` set (app_queue a))"
| "gesture_enabled (G_deny i m) a = (list_view (sh_view (ap_shell a)) \<and> i \<in> dr_id ` set (app_queue a))"
| "gesture_enabled (G_focusTerminal t) a = (sh_view (ap_shell a) = V_inbox)"
| "gesture_enabled G_focusDeferredHandled a = (sh_view (ap_shell a) = V_inbox)"
| "gesture_enabled (G_openInbox t) a = (sh_view (ap_shell a) = V_board)"
| "gesture_enabled (G_selectSession i) a = (sh_view (ap_shell a) = V_sessions)"
| "gesture_enabled (G_selectAgent i) a = (sh_view (ap_shell a) = V_agents)"
| "gesture_enabled (G_sideApprove i opts) a =
     (sh_view (ap_shell a) \<in> {V_agents, V_terminals} \<and> i \<in> dr_id ` set (app_queue a))"
| "gesture_enabled (G_sideDeny i m) a =
     (sh_view (ap_shell a) \<in> {V_agents, V_terminals} \<and> i \<in> dr_id ` set (app_queue a))"
| "gesture_enabled (G_spawnInProject p) a = (sh_view (ap_shell a) = V_projects)"
| "gesture_enabled (G_drillDown p) a = (sh_view (ap_shell a) = V_projects)"
| "gesture_enabled G_jumpToQueue a = (sh_view (ap_shell a) = V_terminals)"
| "gesture_enabled G_focusHandled a = (sh_view (ap_shell a) = V_terminals)"
| "gesture_enabled G_closeHelp a = sh_showHelp (ap_shell a)"
| "gesture_enabled G_closeSpawn a = sh_showSpawn (ap_shell a)"
| "gesture_enabled (G_spawn corr req) a = sh_showSpawn (ap_shell a)"
| "gesture_enabled G_sudoCancel a = (pendingReauth (h_state (ap_hook a)) \<noteq> None)"
| "gesture_enabled G_sudoSuccess a = (pendingReauth (h_state (ap_hook a)) \<noteq> None)"
| "gesture_enabled G_pollAgents a = (sh_view (ap_shell a) = V_agents)"
| "gesture_enabled (G_hook e) a = (enabled e (ap_hook a) \<and> (case e of Ev_approve _ _ \<Rightarrow> False | _ \<Rightarrow> True))"
| "gesture_enabled _ a = True"

text \<open>
  The two effects of the shell: the projects are fetched when the spawn dialog opens, the
  managed agents when the Agents view opens (and then every five seconds while it is open,
  \<open>G_pollAgents\<close>).
\<close>

definition shell_effects :: "string \<Rightarrow> shell \<Rightarrow> app \<Rightarrow> app" where
  "shell_effects now old a =
     (let a1 = (if sh_showSpawn (ap_shell a) \<and> \<not> sh_showSpawn old
                then on_hook now (Ev_command Do_queryProjects) a else a)
      in if sh_view (ap_shell a) = V_agents \<and> sh_view old \<noteq> V_agents
         then on_hook now (Ev_command Do_queryManagedAgents) a1 else a1)"

definition app_step :: "string \<Rightarrow> gesture \<Rightarrow> app \<Rightarrow> app" where
  "app_step now g a = shell_effects now (ap_shell a) (gesture_run now g a)"

definition initial_app :: "string \<Rightarrow> string option \<Rightarrow> app" where
  "initial_app base tok = \<lparr>ap_shell = initial_shell, ap_hook = initial_hook base tok, ap_events = []\<rparr>"

text \<open>Runs, with every gesture and the shell it met, newest first.\<close>

inductive app_reaches :: "string \<Rightarrow> string option \<Rightarrow> (gesture \<times> app) list \<Rightarrow> app \<Rightarrow> bool" for base tok where
  app_start: "app_reaches base tok [] (initial_app base tok)"
| app_gesture: "app_reaches base tok gs a \<Longrightarrow> gesture_enabled g a \<Longrightarrow>
     app_reaches base tok ((g, a) # gs) (app_step now g a)"

end
