(* ===== verification/App_Properties.thy ===== *)
theory App_Properties
  imports App_Shell
begin

text \<open>
  What the shell and the keyboard guarantee: a run of the shell is a run of the daemon
  connection hook, every approval on the wire goes back to a gesture on that request, keys
  are inert while the user types, and the j/k keys walk the list as it is drawn.
\<close>

section \<open>A run of the shell is a run of the hook\<close>

lemma on_shell_simps [simp]:
  "ap_shell (on_shell f a) = f (ap_shell a)"
  "ap_hook (on_shell f a) = ap_hook a"
  "ap_events (on_shell f a) = ap_events a"
  by (simp_all add: on_shell_def)

lemma on_hook_simps [simp]:
  "ap_shell (on_hook now e a) = ap_shell a"
  "ap_hook (on_hook now e a) = step now e (ap_hook a)"
  "ap_events (on_hook now e a) = e # ap_events a"
  by (simp_all add: on_hook_def)

definition hook_run :: "string \<Rightarrow> string option \<Rightarrow> app \<Rightarrow> bool" where
  "hook_run base tok a \<longleftrightarrow> reaches base tok (ap_events a) (ap_hook a)"

lemma hook_run_shell [simp]: "hook_run base tok (on_shell f a) \<longleftrightarrow> hook_run base tok a"
  by (simp add: hook_run_def)

lemma hook_run_hook: "hook_run base tok a \<Longrightarrow> enabled e (ap_hook a) \<Longrightarrow> hook_run base tok (on_hook now e a)"
  by (simp add: hook_run_def reaches.event)

lemma hook_run_closes:
  "hook_run base tok a \<Longrightarrow> hook_run base tok (closeHelp a)"
  "hook_run base tok a \<Longrightarrow> hook_run base tok (closeSpawn now a)"
  by (simp_all add: closeHelp_def closeSpawn_def hook_run_hook)

lemma hook_run_close_modals: "hook_run base tok a \<Longrightarrow> hook_run base tok (close_modals now a)"
  by (auto simp: close_modals_def Let_def hook_run_closes intro: hook_run_hook)

lemma hook_run_onBack: "hook_run base tok a \<Longrightarrow> hook_run base tok (onBack now seen a)"
  by (simp add: onBack_def hook_run_closes)

lemma hook_run_key_action: "hook_run base tok a \<Longrightarrow> hook_run base tok (key_action now key seen a)"
  unfolding key_action_def handleNext_def handlePrev_def onSelect_key_def Let_def
  by (simp add: hook_run_onBack onApprove_key_def onDeny_key_def hook_run_hook split: option.split)

lemma hook_run_key_press: "hook_run base tok a \<Longrightarrow> hook_run base tok (key_press now e a)"
  by (auto simp: key_press_def keyboard_handler_def Let_def
      intro!: hook_run_onBack hook_run_key_action hook_run_hook hook_run_close_modals)

lemma hook_run_gesture:
  assumes "hook_run base tok a" "gesture_enabled g a"
  shows "hook_run base tok (gesture_run now g a)"
  using assms
  by (cases g) (auto simp: hook_run_hook hook_run_closes hook_run_key_press openInboxTarget_def
      split: inbox_target.split)

lemma hook_run_step:
  assumes "hook_run base tok a" "gesture_enabled g a"
  shows "hook_run base tok (app_step now g a)"
  using hook_run_gesture[OF assms, of now]
  by (auto simp: app_step_def shell_effects_def Let_def intro!: hook_run_hook)

lemma app_reaches_hook_run: "app_reaches base tok gs a \<Longrightarrow> hook_run base tok a"
proof (induction rule: app_reaches.induct)
  case app_start
  show ?case by (simp add: hook_run_def initial_app_def reaches.start)
qed (rule hook_run_step)

section \<open>Which gestures approve\<close>

text \<open>The request a gesture approves on the application it meets, and with which options.\<close>

fun gesture_approves :: "gesture \<times> app \<Rightarrow> (string \<times> approve_opts option) option" where
  "gesture_approves (G_approve i opts, a) = Some (i, opts)"
| "gesture_approves (G_sideApprove i opts, a) = Some (i, opts)"
| "gesture_approves (G_key e, a) =
     (if ke_key e = ''y'' \<and> \<not> typing e \<and> \<not> shell_modal a \<and> \<not> ke_viewModal e \<and> list_view (sh_view (ap_shell a))
      then (case sh_selectedId (ap_shell a) of Some i \<Rightarrow> if i \<noteq> [] then Some (i, None) else None | None \<Rightarrow> None)
      else None)"
| "gesture_approves _ = None"

lemma close_events:
  "Ev_approve i opts \<in> set (ap_events (closeHelp a)) \<longleftrightarrow> Ev_approve i opts \<in> set (ap_events a)"
  "Ev_approve i opts \<in> set (ap_events (closeSpawn now a)) \<longleftrightarrow> Ev_approve i opts \<in> set (ap_events a)"
  "Ev_approve i opts \<in> set (ap_events (close_modals now a)) \<longleftrightarrow> Ev_approve i opts \<in> set (ap_events a)"
  "Ev_approve i opts \<in> set (ap_events (onBack now seen a)) \<longleftrightarrow> Ev_approve i opts \<in> set (ap_events a)"
  by (simp_all add: closeHelp_def closeSpawn_def close_modals_def onBack_def Let_def)

lemma key_action_events:
  assumes "Ev_approve i opts \<in> set (ap_events (key_action now key seen a))"
  shows "Ev_approve i opts \<in> set (ap_events a) \<or>
    key = ''y'' \<and> sh_selectedId (ap_shell seen) = Some i \<and> i \<noteq> [] \<and> list_view (sh_view (ap_shell seen)) \<and> opts = None"
  using assms
  unfolding key_action_def handleNext_def handlePrev_def onSelect_key_def Let_def
  by (auto simp: close_events onApprove_key_def onDeny_key_def split: if_splits option.splits)

lemma key_press_events:
  assumes "Ev_approve i opts \<in> set (ap_events (key_press now e a))"
  shows "Ev_approve i opts \<in> set (ap_events a) \<or> gesture_approves (G_key e, a) = Some (i, opts)"
proof (cases "ke_key e = ''Escape'' \<and> (shell_modal a \<or> ke_viewModal e)")
  case True
  then show ?thesis
    using assms
    by (auto simp: key_press_def keyboard_handler_def Let_def close_events
        split: if_splits dest!: key_action_events)
next
  case False
  then show ?thesis
    using assms
    by (auto simp: key_press_def keyboard_handler_def close_events split: if_splits dest!: key_action_events)
qed

lemma gesture_events:
  assumes "Ev_approve i opts \<in> set (ap_events (gesture_run now g a))" "gesture_enabled g a"
  shows "Ev_approve i opts \<in> set (ap_events a) \<or> gesture_approves (g, a) = Some (i, opts)"
  using assms
  by (cases g) (auto simp: close_events openInboxTarget_def dest: key_press_events
      split: inbox_target.splits event.splits)

lemma run_approvals:
  "app_reaches base tok gs a \<Longrightarrow> Ev_approve i opts \<in> set (ap_events a) \<Longrightarrow>
   \<exists>ga \<in> set gs. gesture_approves ga = Some (i, opts)"
proof (induction rule: app_reaches.induct)
  case app_start
  then show ?case by (simp add: initial_app_def)
next
  case (app_gesture gs a g now)
  then have "Ev_approve i opts \<in> set (ap_events (gesture_run now g a))"
    by (auto simp: app_step_def shell_effects_def Let_def split: if_splits)
  from gesture_events[OF this app_gesture.hyps(2)] app_gesture.IH show ?case by auto
qed

text \<open>C4: Every approval the page puts on the wire goes back to a gesture of the user on that
  very request: the Approve button of a row, of the detail view, of the Agents view or of
  the terminal dock, or the key \<open>y\<close> pressed outside every input and dialog in the inbox or
  the queue while that request was the selected one. The message carries the options of
  that gesture; \<open>y\<close> adds none.\<close>

theorem approvals_from_gestures:
  assumes "app_reaches base tok gs a" and "Sent i c \<in> set (h_log (ap_hook a))"
    and "oc_message c = Cm_approve rid ao"
  shows "\<exists>ga opts. ga \<in> set gs \<and> gesture_approves ga = Some (rid, opts) \<and>
           Cm_approve rid ao = approve_message rid opts"
proof -
  have "reaches base tok (ap_events a) (ap_hook a)"
    using app_reaches_hook_run[OF assms(1)] by (simp add: hook_run_def)
  from approval_origin[OF this] assms(2,3) obtain opts where
    "Ev_approve rid opts \<in> set (ap_events a)" "Cm_approve rid ao = approve_message rid opts"
    by blast
  with run_approvals[OF assms(1)] show ?thesis by blast
qed

text \<open>A run: the connection opens, a request arrives and is drawn, \<open>j\<close> selects it, \<open>y\<close> approves it.\<close>

definition press :: "string \<Rightarrow> key_event" where
  "press k = \<lparr>ke_key = k, ke_tag = ''BODY'', ke_viewModal = False, ke_flushed = True, ke_strict = False\<rparr>"

section \<open>Keys while typing and in dialogs\<close>

text \<open>A key pressed while an input, a text area or a select has the focus, or while any
  dialog is open, does nothing, Escape apart. Escape in an input closes the open dialogs and
  nothing else: it keeps the view and the selection.\<close>

theorem keys_inert_when_typing:
  "(ke_key e \<noteq> ''Escape'' \<and> (typing e \<or> shell_modal a \<or> ke_viewModal e) \<longrightarrow> key_press now e a = a) \<and>
   (ke_key e = ''Escape'' \<and> typing e \<longrightarrow>
      sh_selectedId (ap_shell (key_press now e a)) = sh_selectedId (ap_shell a) \<and>
      sh_view (ap_shell (key_press now e a)) = sh_view (ap_shell a) \<and>
      \<not> sh_showHelp (ap_shell (key_press now e a)) \<and> \<not> sh_showSpawn (ap_shell (key_press now e a)))"
proof (intro conjI impI)
  assume "ke_key e \<noteq> ''Escape'' \<and> (typing e \<or> shell_modal a \<or> ke_viewModal e)"
  then show "key_press now e a = a" by (auto simp: key_press_def keyboard_handler_def)
next
  assume esc: "ke_key e = ''Escape'' \<and> typing e"
  have closed: "ap_shell (close_modals now a) =
      (ap_shell a)\<lparr>sh_showHelp := False, sh_showSpawn := False,
        sh_spawnDefaultProject := (if sh_showSpawn (ap_shell a) then None else sh_spawnDefaultProject (ap_shell a))\<rparr>"
    by (auto simp: close_modals_def closeHelp_def closeSpawn_def Let_def intro!: shell.equality)
  show "sh_selectedId (ap_shell (key_press now e a)) = sh_selectedId (ap_shell a)"
    "sh_view (ap_shell (key_press now e a)) = sh_view (ap_shell a)"
    "\<not> sh_showHelp (ap_shell (key_press now e a))" "\<not> sh_showSpawn (ap_shell (key_press now e a))"
    using esc by (auto simp: key_press_def keyboard_handler_def Let_def closed shell_modal_def)
qed

definition idle_app :: app where
  "idle_app = initial_app ''ws://h/ws'' (Some ''k'')"

theorem keys_inert_when_typing_witness:
  "key_press ''t'' (press ''y''\<lparr>ke_tag := ''INPUT''\<rparr>) idle_app = idle_app"
  using keys_inert_when_typing[of "press ''y''\<lparr>ke_tag := ''INPUT''\<rparr>" idle_app "''t''"]
  by (simp add: press_def typing_def)

section \<open>Walking the list\<close>

lemma find_index_nth:
  "i < length xs \<Longrightarrow> p (xs ! i) \<Longrightarrow> (\<And>j. j < i \<Longrightarrow> \<not> p (xs ! j)) \<Longrightarrow> find_index k p xs = k + int i"
proof (induction xs arbitrary: i k)
  case (Cons x xs)
  show ?case
  proof (cases i)
    case 0
    with Cons.prems show ?thesis by simp
  next
    case (Suc n)
    have "\<not> p x" using Cons.prems(3)[of 0] Suc by simp
    moreover have "find_index (k + 1) p xs = k + 1 + int n"
    proof (rule Cons.IH)
      fix j assume "j < n"
      then show "\<not> p (xs ! j)" using Cons.prems(3)[of "Suc j"] Suc by simp
    qed (use Cons.prems Suc in auto)
    ultimately show ?thesis by (simp add: Suc)
  qed
qed simp

lemma navIndex_nth:
  assumes "distinct (map dr_id nav)" "i < length nav"
  shows "navIndex nav (Some (dr_id (nav ! i))) = int i"
proof -
  have "dr_id (nav ! j) \<noteq> dr_id (nav ! i)" if "j < i" for j
    using assms that by (auto simp: distinct_conv_nth)
  then show ?thesis
    using find_index_nth[of i nav "\<lambda>r. dr_id r = dr_id (nav ! i)" 0] assms by (simp add: navIndex_def)
qed

lemma navIndex_None: "navIndex nav None = -1"
proof -
  have "find_index k (\<lambda>_. False) nav = -1" for k by (induction nav arbitrary: k) auto
  then show ?thesis by (simp add: navIndex_def)
qed

text \<open>An application in which the keys walk a list: no dialog, an inbox or a queue.\<close>

definition browsing :: "app \<Rightarrow> bool" where
  "browsing a \<longleftrightarrow> list_view (sh_view (ap_shell a)) \<and> \<not> shell_modal a \<and> app_queue a \<noteq> []"

lemma browsing_select [simp]: "browsing (setSelectedId i a) \<longleftrightarrow> browsing a"
  by (simp add: browsing_def shell_modal_def)

lemma length_navList [simp]: "length (navList v q) = length q"
  by (simp add: navList_def orderByAge_def)

lemma navList_Nil [simp]: "navList v q = [] \<longleftrightarrow> q = []"
  by (simp add: navList_def orderByAge_def)

lemma press_walk:
  assumes "browsing a"
  shows "key_press now (press ''j'') a = handleNext a a" "key_press now (press ''k'') a = handlePrev a a"
  using assms by (simp_all add: key_press_def keyboard_handler_def key_action_def press_def typing_def browsing_def)

lemma handleNext_at:
  assumes "browsing a" "distinct (map dr_id (seen_nav a))" "i < length (app_queue a)"
    "sh_selectedId (ap_shell a) = Some (dr_id (seen_nav a ! i))"
  shows "handleNext a a = setSelectedId (Some (dr_id (seen_nav a ! min (i + 1) (length (app_queue a) - 1)))) a"
proof -
  have "nat (min (int i + 1) (int (length (app_queue a)) - 1)) = min (i + 1) (length (app_queue a) - 1)"
    using assms(3) by auto
  moreover have "min (int i + 1) (int (length (app_queue a)) - 1) \<ge> 0" using assms(3) by auto
  ultimately show ?thesis
    using assms by (simp add: handleNext_def Let_def browsing_def navIndex_nth)
qed

lemma handleNext_none:
  assumes "browsing a" "sh_selectedId (ap_shell a) = None"
  shows "handleNext a a = setSelectedId (Some (dr_id (seen_nav a ! 0))) a"
  using assms by (simp add: handleNext_def Let_def browsing_def navIndex_None min_def)

lemma handlePrev_at:
  assumes "browsing a" "distinct (map dr_id (seen_nav a))" "i < length (app_queue a)"
    "sh_selectedId (ap_shell a) = Some (dr_id (seen_nav a ! i))"
  shows "handlePrev a a = setSelectedId (Some (dr_id (seen_nav a ! (i - 1)))) a"
proof -
  have "nat (max (int i - 1) 0) = i - 1" by auto
  then show ?thesis
    using assms by (simp add: handlePrev_def Let_def browsing_def navIndex_nth)
qed

lemma set_select_twice [simp]: "setSelectedId i (setSelectedId j a) = setSelectedId i a"
  by (simp add: on_shell_def)

text \<open>The \<open>j\<close> and \<open>k\<close> keys walk the list as the view draws it, oldest first in the inbox and
  in arrival order in the queue. From no selection, \<open>n\<close> presses of \<open>j\<close> select the
  \<open>n\<close>-th row and then stay on the last; \<open>m\<close> presses of \<open>k\<close> from there go up \<open>m\<close> rows and then stay
  on the first. Nothing but the selection changes.\<close>

theorem keys_walk_the_list:
  assumes "browsing a" and "distinct (map dr_id (app_queue a))" and "sh_selectedId (ap_shell a) = None"
    and "0 < n"
  shows "((key_press now (press ''k'') ^^ m) ((key_press now (press ''j'') ^^ n) a)) =
    setSelectedId (Some (dr_id (seen_nav a ! (min n (length (app_queue a)) - 1 - m)))) a"
proof -
  let ?nav = "seen_nav a"
  let ?at = "\<lambda>i. setSelectedId (Some (dr_id (?nav ! i))) a"
  have dist: "distinct (map dr_id ?nav)"
    using assms(2) by (simp add: navList_def orderByAge_def distinct_map_js_sort)
  have len: "0 < length (app_queue a)" using assms(1) by (simp add: browsing_def)
  have lt: "min j (length (app_queue a)) - 1 < length (app_queue a)" for j
    using len by (cases "app_queue a") auto
  have down: "key_press now (press ''j'') (?at i) = ?at (min (i + 1) (length (app_queue a) - 1))"
    if "i < length (app_queue a)" for i
    using handleNext_at[of "?at i" i] assms(1) that dist by (simp add: press_walk)
  have up: "key_press now (press ''k'') (?at i) = ?at (i - 1)" if "i < length (app_queue a)" for i
    using handlePrev_at[of "?at i" i] assms(1) that dist by (simp add: press_walk)
  have first: "key_press now (press ''j'') a = ?at 0"
    using handleNext_none[OF assms(1,3)] by (simp add: press_walk[OF assms(1)])
  have "(key_press now (press ''j'') ^^ Suc k) a = ?at (min (Suc k) (length (app_queue a)) - 1)" for k
  proof (induction k)
    case 0
    show ?case using first len by simp
  next
    case (Suc k)
    have "(key_press now (press ''j'') ^^ Suc (Suc k)) a =
        key_press now (press ''j'') ((key_press now (press ''j'') ^^ Suc k) a)" by simp
    also have "\<dots> = ?at (min (min (Suc k) (length (app_queue a)) - 1 + 1) (length (app_queue a) - 1))"
      unfolding Suc.IH by (rule down) (rule lt)
    also have "min (min (Suc k) (length (app_queue a)) - 1 + 1) (length (app_queue a) - 1) =
        min (Suc (Suc k)) (length (app_queue a)) - 1" using len by auto
    finally show ?case .
  qed
  from this[of "n - 1"] assms(4) have walked:
    "(key_press now (press ''j'') ^^ n) a = ?at (min n (length (app_queue a)) - 1)" by simp
  have "(key_press now (press ''k'') ^^ m) (?at i) = ?at (i - m)" if "i < length (app_queue a)" for i
  proof (induction m)
    case (Suc m)
    have "(key_press now (press ''k'') ^^ Suc m) (?at i) =
        key_press now (press ''k'') ((key_press now (press ''k'') ^^ m) (?at i))" by simp
    also have "\<dots> = ?at (i - m - 1)" unfolding Suc.IH by (rule up) (use that in simp)
    finally show ?case by simp
  qed simp
  from this[OF lt] show ?thesis unfolding walked .
qed

text \<open>Two requests that arrived in the wrong order, in the inbox.\<close>

definition inbox_app :: app where
  "inbox_app = idle_app\<lparr>ap_hook := (initial_hook ''ws://h/ws'' (Some ''k''))\<lparr>h_state := initial_state\<lparr>queue :=
     [request_at ''2026-07-14T10:00:01Z'', request_at ''2026-07-14T10:00:00Z'']\<rparr>\<rparr>\<rparr>"

lemma inbox_app_facts:
  "browsing inbox_app" "distinct (map dr_id (app_queue inbox_app))" "sh_selectedId (ap_shell inbox_app) = None"
  "app_queue inbox_app = [request_at ''2026-07-14T10:00:01Z'', request_at ''2026-07-14T10:00:00Z'']"
  by (simp_all add: browsing_def inbox_app_def idle_app_def initial_app_def initial_shell_def initial_hook_def
      list_view_def shell_modal_def initial_state_def request_at_def)

theorem keys_walk_the_list_witness:
  "(key_press ''t'' (press ''k'') ^^ 0) ((key_press ''t'' (press ''j'') ^^ 1) inbox_app) =
     setSelectedId (Some ''2026-07-14T10:00:00Z'') inbox_app"
proof -
  have "cmp_time dr_timestamp (request_at ''2026-07-14T10:00:01Z'') (request_at ''2026-07-14T10:00:00Z'') = 1000"
    by code_simp
  moreover have "sh_view (ap_shell inbox_app) = V_inbox"
    by (simp add: inbox_app_def idle_app_def initial_app_def initial_shell_def)
  ultimately have "dr_id (seen_nav inbox_app ! 0) = ''2026-07-14T10:00:00Z''"
    by (simp add: navList_def orderByAge_def inbox_app_facts(4)) (simp add: request_at_def)
  then show ?thesis
    using keys_walk_the_list[OF inbox_app_facts(1-3), where n = 1 and m = 0 and now = "''t''"] inbox_app_facts(4)
    by simp
qed

section \<open>Approving with y\<close>

text \<open>C33: The key \<open>y\<close> approves the selected request once. With \<open>i\<close> selected in the inbox or the
  queue and no dialog open, it sends exactly the approval of \<open>i\<close> to the hook and clears the
  selection, and a second \<open>y\<close> does nothing. Nothing asks whether \<open>i\<close> is still in the queue: a
  selection that another client resolved in the meantime is approved all the same, although
  the page highlights no row.\<close>

theorem y_approves_selection_once:
  assumes "list_view (sh_view (ap_shell a))" and "\<not> shell_modal a"
    and "sh_selectedId (ap_shell a) = Some i" and "i \<noteq> []"
    and "a' = key_press now (press ''y'') a"
  shows "ap_events a' = Ev_approve i None # ap_events a \<and> sh_selectedId (ap_shell a') = None \<and>
    (pendingReauth (h_state (ap_hook a')) = None \<longrightarrow> key_press now' (press ''y'') a' = a') \<and>
    (selectedRequest a = None \<longleftrightarrow> i \<notin> dr_id ` set (app_queue a))"
proof -
  have a': "a' = setSelectedId None (on_hook now (Ev_approve i None) a)"
    using assms by (simp add: key_press_def keyboard_handler_def key_action_def press_def typing_def
        onApprove_key_def)
  have "key_press now' (press ''y'') a' = a'"
    using assms(1) by (simp add: a' key_press_def keyboard_handler_def key_action_def press_def typing_def
        onApprove_key_def)
  moreover have "selectedRequest a = None \<longleftrightarrow> i \<notin> dr_id ` set (app_queue a)"
    using assms(3) by (auto simp: selectedRequest_def find_None_iff)
  ultimately show ?thesis by (simp add: a')
qed

text \<open>A stale selection: the queue is empty and \<open>r9\<close> is still selected.\<close>

definition stale_app :: app where
  "stale_app = setSelectedId (Some ''r9'') idle_app"

theorem y_approves_selection_once_witness:
  "ap_events (key_press ''t'' (press ''y'') stale_app) = [Ev_approve ''r9'' None] \<and> selectedRequest stale_app = None"
proof -
  have q: "app_queue stale_app = []" "ap_events stale_app = []"
    "list_view (sh_view (ap_shell stale_app))" "\<not> shell_modal stale_app"
    "sh_selectedId (ap_shell stale_app) = Some ''r9''"
    by (simp_all add: stale_app_def idle_app_def initial_app_def initial_shell_def initial_hook_def
        initial_state_def list_view_def shell_modal_def)
  show ?thesis
    using y_approves_selection_once[OF q(3,4,5) _ HOL.refl, of "''t''"] q(1,2) by simp
qed

section \<open>Escape\<close>

text \<open>Escape pressed in a dialog, outside its inputs, closes every open dialog of the shell
  and then still counts as Back: once the page has been re-rendered between the two
  listeners, it also clears the selection, or else leaves the drill-down, behind the
  dialog.\<close>

theorem escape_in_dialog_also_goes_back:
  assumes "shell_modal a \<or> ke_viewModal e" and "ke_key e = ''Escape''" and "ke_flushed e" and "\<not> typing e"
    and "a' = key_press now e a"
  shows "\<not> sh_showHelp (ap_shell a') \<and> \<not> sh_showSpawn (ap_shell a') \<and>
    sh_selectedId (ap_shell a') = (if truthy (sh_selectedId (ap_shell a)) then None else sh_selectedId (ap_shell a)) \<and>
    sh_agentDrilldown (ap_shell a') =
      (if \<not> truthy (sh_selectedId (ap_shell a)) \<and> truthy (sh_agentDrilldown (ap_shell a)) then None
       else sh_agentDrilldown (ap_shell a))"
proof -
  define a2 where "a2 = on_hook now (Ev_render (ke_strict e)) (close_modals now a)"
  have shell2: "\<not> sh_showHelp (ap_shell a2)" "\<not> sh_showSpawn (ap_shell a2)"
    "sh_selectedId (ap_shell a2) = sh_selectedId (ap_shell a)"
    "sh_agentDrilldown (ap_shell a2) = sh_agentDrilldown (ap_shell a)"
    by (simp_all add: a2_def close_modals_def closeHelp_def closeSpawn_def Let_def)
  have "a' = onBack now a2 a2"
    using assms by (simp add: key_press_def keyboard_handler_def key_action_def a2_def[symmetric] Let_def)
  then show ?thesis using shell2 by (simp add: onBack_def)
qed

theorem escape_in_dialog_also_goes_back_witness:
  "sh_selectedId (ap_shell (key_press ''t'' (press ''Escape'')
      (on_shell (\<lambda>s. s\<lparr>sh_showHelp := True\<rparr>) stale_app))) = None \<and>
   sh_selectedId (ap_shell (on_shell (\<lambda>s. s\<lparr>sh_showHelp := True\<rparr>) stale_app)) = Some ''r9''"
  using escape_in_dialog_also_goes_back[of "on_shell (\<lambda>s. s\<lparr>sh_showHelp := True\<rparr>) stale_app" "press ''Escape''", OF _ _ _ _ HOL.refl, of "''t''"]
  by (simp add: shell_modal_def press_def typing_def stale_app_def truthy_def)

section \<open>A run for the first theorem\<close>

text \<open>Connect, open the board, follow its link to \<open>r1\<close>, press \<open>y\<close>.\<close>

definition demo_link :: gesture where
  "demo_link = G_openInbox (Target_decision ''r1'' ''Bash'')"

definition demo_start :: app where
  "demo_start = \<lparr>ap_shell = initial_shell, ap_hook = step ''t'' (Ev_open 0) (step ''t'' Ev_mount (initial_hook ''ws://h/ws'' (Some ''k''))),
     ap_events = [Ev_open 0, Ev_mount]\<rparr>"

definition demo_board :: app where
  "demo_board = setView V_board demo_start"

definition demo_selected :: app where
  "demo_selected = on_shell (\<lambda>s. s\<lparr>sh_selectedId := Some ''r1'', sh_view := V_inbox\<rparr>) demo_start"

definition demo_end :: app where
  "demo_end = setSelectedId None (on_hook ''t'' (Ev_approve ''r1'' None) demo_selected)"

lemma app_stepI:
  assumes "gesture_run now g a = b" "sh_showSpawn (ap_shell b) = sh_showSpawn (ap_shell a)" "sh_view (ap_shell b) \<noteq> V_agents"
  shows "app_step now g a = b"
  using assms by (simp add: app_step_def shell_effects_def)

lemma demo_steps:
  "app_step ''t'' (G_hook (Ev_open 0)) (app_step ''t'' (G_hook Ev_mount) idle_app) = demo_start"
  "app_step ''t'' (G_nav V_board) demo_start = demo_board"
  "app_step ''t'' demo_link demo_board = demo_selected"
proof -
  have "app_step ''t'' (G_hook Ev_mount) idle_app = on_hook ''t'' Ev_mount idle_app"
    by (rule app_stepI) (simp_all add: idle_app_def initial_app_def initial_shell_def)
  moreover have "app_step ''t'' (G_hook (Ev_open 0)) (on_hook ''t'' Ev_mount idle_app) = demo_start"
    by (rule app_stepI) (simp_all add: idle_app_def initial_app_def initial_shell_def on_hook_def demo_start_def)
  ultimately show "app_step ''t'' (G_hook (Ev_open 0)) (app_step ''t'' (G_hook Ev_mount) idle_app) = demo_start"
    by simp
  show "app_step ''t'' (G_nav V_board) demo_start = demo_board"
    by (rule app_stepI) (simp_all add: demo_board_def)
  show "app_step ''t'' demo_link demo_board = demo_selected"
    by (rule app_stepI)
      (simp_all add: demo_board_def demo_link_def demo_selected_def openInboxTarget_def on_shell_def demo_start_def initial_shell_def)
qed

lemma demo_y: "app_step ''t'' (G_key (press ''y'')) demo_selected = demo_end"
proof (rule app_stepI)
  have "pendingReauth (h_state (ap_hook demo_selected)) = None"
    by (simp add: demo_selected_def demo_start_def connect_def getWebToken_def initial_hook_def onopen_def
        set_ready_def initial_state_def open_socket_def setState_def)
  then show "gesture_run ''t'' (G_key (press ''y'')) demo_selected = demo_end"
    by (simp add: demo_end_def key_press_def keyboard_handler_def key_action_def press_def typing_def
        onApprove_key_def shell_modal_def)
      (simp add: demo_selected_def demo_start_def initial_shell_def list_view_def)
qed (simp_all add: demo_end_def demo_selected_def)

definition demo_trace :: "(gesture \<times> app) list" where
  "demo_trace = [(G_key (press ''y''), demo_selected), (demo_link, demo_board), (G_nav V_board, demo_start),
     (G_hook (Ev_open 0), app_step ''t'' (G_hook Ev_mount) idle_app), (G_hook Ev_mount, idle_app)]"

lemma demo_app_reaches: "app_reaches ''ws://h/ws'' (Some ''k'') demo_trace demo_end"
proof -
  let ?R = "app_reaches ''ws://h/ws'' (Some ''k'')"
  have "?R [] idle_app" unfolding idle_app_def by (rule app_start)
  then have "?R [(G_hook Ev_mount, idle_app)] (app_step ''t'' (G_hook Ev_mount) idle_app)"
    by (rule app_gesture) simp
  then have "?R ((G_hook (Ev_open 0), app_step ''t'' (G_hook Ev_mount) idle_app) # [(G_hook Ev_mount, idle_app)])
      (app_step ''t'' (G_hook (Ev_open 0)) (app_step ''t'' (G_hook Ev_mount) idle_app))"
    by (rule app_gesture) (simp add: app_step_def shell_effects_def idle_app_def initial_app_def initial_shell_def
        connect_def open_socket_def getWebToken_def initial_hook_def)
  then have "?R (drop 3 demo_trace) demo_start" unfolding demo_steps(1) by (simp add: demo_trace_def)
  then have "?R ((G_nav V_board, demo_start) # drop 3 demo_trace) demo_board"
    unfolding demo_steps(2)[symmetric] by (rule app_gesture) simp
  then have "?R ((demo_link, demo_board) # (G_nav V_board, demo_start) # drop 3 demo_trace) demo_selected"
    unfolding demo_steps(3)[symmetric] by (rule app_gesture) (simp add: demo_link_def demo_board_def)
  then have "?R ((G_key (press ''y''), demo_selected) # (demo_link, demo_board) # (G_nav V_board, demo_start) # drop 3 demo_trace) demo_end"
    unfolding demo_y[symmetric] by (rule app_gesture) simp
  then show ?thesis by (simp add: demo_trace_def)
qed

lemma demo_end_log: "h_log (ap_hook demo_end) = [Sent 0 (plain (Cm_approve ''r1'' no_opts))]"
  using demo_log by (simp add: demo_end_def demo_selected_def demo_start_def demo_hook_def demo_events_def)

theorem approvals_from_gestures_witness:
  "Sent 0 (plain (Cm_approve ''r1'' no_opts)) \<in> set (h_log (ap_hook demo_end)) \<and>
   (\<exists>ga opts. ga \<in> set demo_trace \<and> gesture_approves ga = Some (''r1'', opts) \<and>
      Cm_approve ''r1'' no_opts = approve_message ''r1'' opts)"
  using approvals_from_gestures[OF demo_app_reaches, of 0 "plain (Cm_approve ''r1'' no_opts)" "''r1''" no_opts]
  by (simp add: demo_end_log plain_def)

end
