(* ===== verification/Inbox_View.thy ===== *)
theory Inbox_View
  imports Liveness_Board App_Shell
begin

text \<open>
  The inbox (\<open>components/Inbox.tsx\<close>) and the feed of decisions taken without the user
  (\<open>components/AutoAnswerFeed.tsx\<close>): which deferred prompts are listed, in which order and
  groups, what the header counts, and how a link from the liveness board expands a row.
\<close>

section \<open>The inbox\<close>

definition HOUR_MS :: int where
  "HOUR_MS = 60 * 60 * 1000"

text \<open>The component's own state; \<open>ib_now\<close> ticks every second.\<close>

record inbox =
  ib_now :: int
  ib_showFeed :: bool
  ib_expandedDeferred :: "string option"
  ib_adoptedFocusKey :: "string option"

definition initial_inbox :: "int \<Rightarrow> inbox" where
  "initial_inbox now = \<lparr>ib_now = now, ib_showFeed = False, ib_expandedDeferred = None, ib_adoptedFocusKey = None\<rparr>"

text \<open>The adoption of a focus target during render.\<close>

definition adopt_focus :: "string option \<Rightarrow> inbox \<Rightarrow> inbox" where
  "adopt_focus focusDeferredKey ib =
     (if truthy focusDeferredKey \<and> focusDeferredKey \<noteq> ib_adoptedFocusKey ib
      then ib\<lparr>ib_adoptedFocusKey := focusDeferredKey, ib_expandedDeferred := focusDeferredKey\<rparr>
      else ib)"

definition toggle_deferred :: "string \<Rightarrow> inbox \<Rightarrow> inbox" where
  "toggle_deferred dkey ib =
     ib\<lparr>ib_expandedDeferred := (if ib_expandedDeferred ib = Some dkey then None else Some dkey)\<rparr>"

definition coarseNow :: "int \<Rightarrow> int" where
  "coarseNow now = now div 15000 * 15000"

text \<open>\<open>coarseNow - new Date(ts).getTime() <= HOUR_MS\<close>, false for an invalid date.\<close>

definition within_hour :: "int \<Rightarrow> string \<Rightarrow> bool" where
  "within_hour coarse ts = (case get_time ts of Some t \<Rightarrow> coarse - t \<le> HOUR_MS | None \<Rightarrow> False)"

definition recentAutoCount :: "audit_decision list \<Rightarrow> int \<Rightarrow> nat" where
  "recentAutoCount audits coarse =
     length (filter (\<lambda>a. ad_kind a = K_auto_approved \<and> within_hour coarse (ad_ts a)) audits)"

definition deferred_rows :: "audit_decision list \<Rightarrow> string list \<Rightarrow> int \<Rightarrow> audit_decision list" where
  "deferred_rows audits ended coarse =
     js_sort (\<lambda>a b. cmp_time ad_ts b a)
       (filter (\<lambda>a. ad_kind a = K_deferred \<and> ad_resolved a \<noteq> Some True \<and>
                     ad_agent_id a \<notin> set ended \<and> within_hour coarse (ad_ts a)) audits)"

definition sessionLabelFor :: "string option \<Rightarrow> string \<Rightarrow> string" where
  "sessionLabelFor terminalSessionId agentId = (case terminalSessionId of
     Some t \<Rightarrow> (if t \<noteq> [] then ''term '' @ Js_Runtime.slice t 0 8 else ''session '' @ Js_Runtime.slice agentId 0 8)
   | None \<Rightarrow> ''session '' @ Js_Runtime.slice agentId 0 8)"

definition middle_dot :: string where
  "middle_dot = [char_of (183::nat)]"

definition groupKey :: "string \<Rightarrow> string \<Rightarrow> string" where
  "groupKey project sessionLabel = shortProject project @ '' '' @ middle_dot @ '' '' @ sessionLabel"

definition row_group :: "audit_decision \<Rightarrow> string" where
  "row_group d = groupKey (ad_project d) (sessionLabelFor (ad_terminal_session_id d) (ad_agent_id d))"

definition groupDeferred :: "audit_decision list \<Rightarrow> (string \<times> audit_decision list) list" where
  "groupDeferred items = group_by row_group items"

definition group_hue :: "string \<Rightarrow> nat" where
  "group_hue key = foldl (\<lambda>hash c. (hash * 31 + of_char c) mod 360) 0 key"

definition groupColor :: "string \<Rightarrow> string" where
  "groupColor key = ''hsl('' @ show_nat (group_hue key) @ '', 60%, 60%)''"

definition nothingWaiting :: "decision_request list \<Rightarrow> audit_decision list \<Rightarrow> bool" where
  "nothingWaiting ordered deferred \<longleftrightarrow> ordered = [] \<and> deferred = []"

text \<open>The status line of the header.\<close>

definition inbox_count :: "decision_request list \<Rightarrow> audit_decision list \<Rightarrow> nat \<Rightarrow> string" where
  "inbox_count items deferred auto =
     show_nat (length items) @ '' waiting'' @
     (if deferred \<noteq> [] then '' '' @ middle_dot @ '' '' @ show_nat (length deferred) @ '' in your terminal'' else []) @
     '' '' @ middle_dot @ '' '' @ show_nat auto @ '' auto-answered in last hour''"

text \<open>Where a deferred row sends the user: its terminal, or a pointer by project.\<close>

datatype answer_route = Focus_terminal string | Answer_in_project string

definition deferred_route :: "audit_decision \<Rightarrow> answer_route" where
  "deferred_route d = (case ad_terminal_session_id d of
     Some t \<Rightarrow> (if t \<noteq> [] then Focus_terminal t else Answer_in_project (shortProject (ad_project d)))
   | None \<Rightarrow> Answer_in_project (shortProject (ad_project d)))"

section \<open>The feed\<close>

fun KIND_LABEL :: "audit_decision_kind \<Rightarrow> string" where
  "KIND_LABEL K_auto_approved = ''auto-approved''"
| "KIND_LABEL K_deferred = ''deferred''"
| "KIND_LABEL K_denied = ''denied''"

definition auditRowKey :: "audit_decision \<Rightarrow> string" where
  "auditRowKey d = join_with ''|'' [audit_kind_name (ad_kind d), ad_ts d, ad_agent_id d, ad_tool_name d]"

text \<open>One row: the React key, the label, the age, and the route line.\<close>

definition feed_row :: "int \<Rightarrow> nat \<Rightarrow> audit_decision \<Rightarrow> string \<times> string list" where
  "feed_row now index d =
     (auditRowKey d @ ''-'' @ show_nat index,
      [KIND_LABEL (ad_kind d), ad_tool_name d, timeAgo (ad_ts d) now, shortProject (ad_project d),
       sessionLabelFor (ad_terminal_session_id d) (ad_agent_id d)] @
      (case ad_decided_by d of Some r \<Rightarrow> if r \<noteq> [] then [r] else [] | None \<Rightarrow> []))"

definition auto_feed :: "audit_decision list \<Rightarrow> int \<Rightarrow> (string \<times> string list) list" where
  "auto_feed decisions now = map (\<lambda>(i, d). feed_row now i d) (enumerate 0 decisions)"

section \<open>Lemmas\<close>

text \<open>The comparator of the deferred rows, newest first, on the rows that pass the filter.\<close>

lemma coarse_bounds: "coarseNow now \<le> now" "now < coarseNow now + 15000"
  by (simp_all add: coarseNow_def)

lemma within_hour_timed: "within_hour coarse ts \<Longrightarrow> has_time ts"
  by (auto simp: within_hour_def has_time_def split: option.splits)

lemma deferred_rows_set:
  "set (deferred_rows audits ended coarse) =
     {a \<in> set audits. unanswered a \<and> ad_agent_id a \<notin> set ended \<and> within_hour coarse (ad_ts a)}"
  by (auto simp: deferred_rows_def unanswered_def)

lemma deferred_rows_sorted:
  "sorted_wrt (\<lambda>a b. the (get_time (ad_ts b)) \<le> the (get_time (ad_ts a))) (deferred_rows audits ended coarse)"
proof -
  let ?rows = "filter (\<lambda>a. ad_kind a = K_deferred \<and> ad_resolved a \<noteq> Some True \<and>
                     ad_agent_id a \<notin> set ended \<and> within_hour coarse (ad_ts a)) audits"
  have timed: "set ?rows \<subseteq> {a. has_time (ad_ts a)}" using within_hour_timed by auto
  have "newest_first.in_order (deferred_rows audits ended coarse)"
    unfolding deferred_rows_def by (rule newest_first.js_sort_sorted[OF timed])
  then show ?thesis
  proof (rule sorted_wrt_mono_rel[rotated])
    fix a b assume "a \<in> set (deferred_rows audits ended coarse)" "b \<in> set (deferred_rows audits ended coarse)"
      and le: "cmp_time ad_ts b a \<le> 0"
    then have "has_time (ad_ts a)" "has_time (ad_ts b)"
      by (auto simp: deferred_rows_set intro: within_hour_timed)
    with le show "the (get_time (ad_ts b)) \<le> the (get_time (ad_ts a))" by (simp add: cmp_time_le)
  qed
qed

lemma group_hue_bound: "group_hue key < 360"
proof (cases key rule: rev_cases)
  case Nil
  then show ?thesis by (simp add: group_hue_def)
next
  case (snoc ks k)
  then show ?thesis by (simp add: group_hue_def)
qed

section \<open>Properties\<close>

text \<open>The inbox lists exactly the deferred prompts that still wait: unresolved, of a session
  that has not ended, and within the hour of the coarse clock; newest first. The groups it
  draws hold each of them once, under the row's own group key, with no empty group and no
  key twice. A row is listed at least until it is an hour old and at most 15 seconds
  longer.\<close>

theorem inbox_deferred_exact:
  fixes audits ended now
  defines "rows \<equiv> deferred_rows audits ended (coarseNow now)"
  shows "mset rows = mset (filter (\<lambda>a. unanswered a \<and> ad_agent_id a \<notin> set ended \<and> within_hour (coarseNow now) (ad_ts a)) audits) \<and>
    sorted_wrt (\<lambda>a b. the (get_time (ad_ts b)) \<le> the (get_time (ad_ts a))) rows \<and>
    mset (concat (map snd (groupDeferred rows))) = mset rows \<and>
    distinct (map fst (groupDeferred rows)) \<and>
    ((k, b) \<in> set (groupDeferred rows) \<longrightarrow> b \<noteq> [] \<and> b = filter (\<lambda>d. row_group d = k) rows) \<and>
    (unanswered d \<and> d \<in> set audits \<and> ad_agent_id d \<notin> set ended \<and> get_time (ad_ts d) = Some t \<longrightarrow>
       (now - t \<le> HOUR_MS \<longrightarrow> d \<in> set rows) \<and> (d \<in> set rows \<longrightarrow> now - t < HOUR_MS + 15000))"
proof (intro conjI impI)
  show "mset rows = mset (filter (\<lambda>a. unanswered a \<and> ad_agent_id a \<notin> set ended \<and> within_hour (coarseNow now) (ad_ts a)) audits)"
    by (simp add: rows_def deferred_rows_def unanswered_def conj_assoc)
  show "sorted_wrt (\<lambda>a b. the (get_time (ad_ts b)) \<le> the (get_time (ad_ts a))) rows"
    unfolding rows_def by (rule deferred_rows_sorted)
  show "mset (concat (map snd (groupDeferred rows))) = mset rows"
    by (simp add: groupDeferred_def mset_group_by)
  show "distinct (map fst (groupDeferred rows))"
    using jmap_wf_group_by[of row_group rows] by (simp add: groupDeferred_def jmap_wf_def)
  show "b \<noteq> []" "b = filter (\<lambda>d. row_group d = k) rows" if "(k, b) \<in> set (groupDeferred rows)"
    using group_by_entry[of k b row_group rows] that by (auto simp: groupDeferred_def)
  assume d: "unanswered d \<and> d \<in> set audits \<and> ad_agent_id d \<notin> set ended \<and> get_time (ad_ts d) = Some t"
  show "d \<in> set rows" if "now - t \<le> HOUR_MS"
    using d that coarse_bounds(1)[of now] by (simp add: rows_def deferred_rows_set within_hour_def)
  show "now - t < HOUR_MS + 15000" if "d \<in> set rows"
    using d that coarse_bounds(2)[of now] by (simp add: rows_def deferred_rows_set within_hour_def)
qed

text \<open>A waiting lane of the board that links to a deferred prompt links to a prompt the
  inbox lists exactly when that prompt is within the inbox's hour. The board itself keeps a
  waiting lane however old its prompt is, so for an older one the link opens an inbox that
  does not show the row.\<close>

theorem board_link_lands_iff_recent:
  assumes "timed_inputs inp" and "deriveBoard inp = Inr b" and "l \<in> set (board_lanes b)"
    and "ln_inboxTarget l = Some (Target_deferred key tool)"
  shows "\<exists>d t. d \<in> set (bi_auditDecisions inp) \<and> deferredKey d = key \<and> get_time (ad_ts d) = Some t \<and>
    (d \<in> set (deferred_rows (bi_auditDecisions inp) (bi_endedAgentIds inp) (coarseNow now)) \<longleftrightarrow>
       coarseNow now - t \<le> HOUR_MS)"
proof -
  have w: "ln_state l = Waiting"
  proof -
    from assms(2,3) obtain a where "lane_of (bi_endedAgentIds inp) (bi_nowMs inp) (draft_of inp a) = Inr (Some l)"
      by (auto simp: board_lane_iff)
    then show ?thesis
    proof (rule lane_ofE)
      fix s w t assume "classify (js_sort (cmp_time dr_timestamp) (requests_of inp a))
        (if a \<in> set (bi_endedAgentIds inp) then [] else js_sort (cmp_time ad_ts) (filter unanswered (audits_of inp a)))
        (df_lastToolName (draft_of inp a)) (max 0 (bi_nowMs inp - latest 0 (event_times inp a))) = Inr (s, w, t)"
        "ln_state l = s" "ln_inboxTarget l = t"
      with assms(4) show ?thesis
        by (auto simp: classify_def Let_def split: if_splits list.splits)
    qed
  qed
  from inbox_target_oldest[OF assms(1-3) w] assms(4) obtain t d where
    d: "d \<in> set (deferrals_of inp (ln_agentId l))" "get_time (ad_ts d) = Some t" "deferredKey d = key"
    by auto
  then have "d \<in> set (bi_auditDecisions inp)" "unanswered d" "ad_agent_id d \<notin> set (bi_endedAgentIds inp)"
    by (auto simp: deferrals_of_def audits_of_def split: if_splits)
  with d show ?thesis by (auto simp: deferred_rows_set within_hour_def)
qed

text \<open>A prompt deferred at 08:00 and never answered, seen two hours later.\<close>

definition old_prompt :: audit_decision where
  "old_prompt = \<lparr>ad_kind = K_deferred, ad_decided_by = None, ad_project = ''/p'', ad_agent_id = ''a'',
     ad_terminal_session_id = None, ad_tool_name = ''AskUserQuestion'', ad_ts = ''2026-07-14T08:00:00Z'',
     ad_tool_use_id = None, ad_resolved = None, ad_tool_input = None\<rparr>"

definition old_board :: board_inputs where
  "old_board = \<lparr>bi_sessions = [], bi_agents = [], bi_queue = [], bi_auditDecisions = [old_prompt],
     bi_endedAgentIds = [], bi_nowMs = 1784023200000\<rparr>"

lemma old_prompt_time: "get_time ''2026-07-14T08:00:00Z'' = Some 1784016000000"
  by code_simp

lemma old_board_lane:
  assumes "deriveBoard old_board = Inr b"
  obtains l where "l \<in> set (board_lanes b)"
    "ln_inboxTarget l = Some (Target_deferred (deferredKey old_prompt) ''AskUserQuestion'')"
proof -
  have dr: "collect_drafts old_board = [(''a'', note_audit old_prompt (new_draft ''a''))]"
    by (simp add: collect_drafts_def old_board_def with_draft_def draftFor_def entry_or_def old_prompt_def)
  have d: "draft_of old_board ''a'' = note_audit old_prompt (new_draft ''a'')"
    by (simp add: draft_of_fold old_board_def requests_of_def audits_of_def old_prompt_def)
  have "\<exists>l. lane_of [] 1784023200000 (note_audit old_prompt (new_draft ''a'')) = Inr (Some l) \<and>
      ln_inboxTarget l = Some (Target_deferred (deferredKey old_prompt) ''AskUserQuestion'')"
    by (simp add: lane_of_def note_audit_def noteActivity_def new_draft_def old_prompt_def old_prompt_time
        classify_def date_ms_def)
  then show ?thesis
    using that assms dr d by (auto simp: board_lane_iff old_board_def)
qed

theorem board_link_lands_iff_recent_witness:
  "\<exists>b l d t. deriveBoard old_board = Inr b \<and> l \<in> set (board_lanes b) \<and>
     ln_inboxTarget l = Some (Target_deferred (deferredKey d) ''AskUserQuestion'') \<and>
     d \<in> set (bi_auditDecisions old_board) \<and> get_time (ad_ts d) = Some t \<and>
     (d \<in> set (deferred_rows (bi_auditDecisions old_board) (bi_endedAgentIds old_board) (coarseNow 1784023200000)) \<longleftrightarrow>
       coarseNow 1784023200000 - t \<le> HOUR_MS)"
proof -
  have ti: "timed_inputs old_board"
    by (simp add: timed_inputs_def old_board_def old_prompt_def has_time_def old_prompt_time)
  then obtain b where b: "deriveBoard old_board = Inr b" using timed_board by blast
  then obtain l where l: "l \<in> set (board_lanes b)"
    "ln_inboxTarget l = Some (Target_deferred (deferredKey old_prompt) ''AskUserQuestion'')"
    by (rule old_board_lane)
  from b l board_link_lands_iff_recent[OF ti b l, of 1784023200000] show ?thesis by metis
qed

theorem inbox_deferred_exact_witness:
  "old_prompt \<in> set (deferred_rows [old_prompt] [] (coarseNow 1784019600000)) \<and>
   groupDeferred (deferred_rows [old_prompt] [] (coarseNow 1784019600000)) = [(row_group old_prompt, [old_prompt])]"
proof -
  have "unanswered old_prompt" "ad_ts old_prompt = ''2026-07-14T08:00:00Z''"
    by (simp_all add: unanswered_def old_prompt_def)
  then have mem: "old_prompt \<in> set (deferred_rows [old_prompt] [] (coarseNow 1784019600000))"
    using inbox_deferred_exact[of "[old_prompt]" "[]" 1784019600000, where d = old_prompt and t = 1784016000000]
    by (simp add: old_prompt_time HOUR_MS_def)
  then have "deferred_rows [old_prompt] [] (coarseNow 1784019600000) = [old_prompt]"
    by (auto simp: deferred_rows_def split: if_splits)
  with mem show ?thesis by (simp add: groupDeferred_def group_by_def bucket_push_def)
qed

text \<open>
  From the board's link to the row: following it puts the prompt's key into the shell, the
  inbox that is mounted then adopts it at its first render, and the row is expanded; a click
  on an expanded row closes it again.
\<close>

theorem board_link_expands_row:
  "sh_focusDeferredKey (ap_shell (openInboxTarget (Target_deferred key tool) a)) = Some key \<and>
   sh_view (ap_shell (openInboxTarget (Target_deferred key tool) a)) = V_inbox \<and>
   (key \<noteq> [] \<longrightarrow> ib_expandedDeferred (adopt_focus (Some key) (initial_inbox now)) = Some key \<and>
      ib_expandedDeferred (toggle_deferred key (adopt_focus (Some key) (initial_inbox now))) = None)"
  by (simp add: openInboxTarget_def on_shell_def adopt_focus_def initial_inbox_def truthy_def toggle_deferred_def)

text \<open>The colour of a group is a function of its key with a hue below 360.\<close>

theorem group_color_hue: "\<exists>h < 360. groupColor key = ''hsl('' @ show_nat h @ '', 60%, 60%)''"
  using group_hue_bound[of key] by (auto simp: groupColor_def)

end
