(* ===== verification/Auto_Approve.thy ===== *)
theory Auto_Approve
  imports Web_Api
begin

text \<open>
  The auto-approve policy the configuration page edits: the tiers and levels of
  \<open>wisphive_protocol\<close> (\<open>types.rs\<close>), the rule the agent hook applies to one tool call
  (\<open>wisphive_hook/src/main.rs\<close>, \<open>auto_approved_by\<close>), and the merge patch with which the web
  server writes \<open>config.json\<close> (\<open>wisphive_web/src/lib.rs\<close>). A configuration is the JSON value
  of the file; \<open>None\<close> is a file the hook does not read.
\<close>

section \<open>Levels and tiers\<close>

datatype auto_approve_level = Lv_Off | Lv_Read | Lv_Write | Lv_Execute | Lv_All

fun level_rank :: "auto_approve_level \<Rightarrow> nat" where
  "level_rank Lv_Off = 0"
| "level_rank Lv_Read = 1"
| "level_rank Lv_Write = 2"
| "level_rank Lv_Execute = 3"
| "level_rank Lv_All = 4"

text \<open>The derived \<open>Ord\<close> of the enum: the order of its variants.\<close>

instantiation auto_approve_level :: linorder
begin

definition less_eq_auto_approve_level :: "auto_approve_level \<Rightarrow> auto_approve_level \<Rightarrow> bool" where
  "less_eq_auto_approve_level a b \<longleftrightarrow> level_rank a \<le> level_rank b"

definition less_auto_approve_level :: "auto_approve_level \<Rightarrow> auto_approve_level \<Rightarrow> bool" where
  "less_auto_approve_level a b \<longleftrightarrow> level_rank a < level_rank b"

instance
proof
  fix a b :: auto_approve_level
  show "a \<le> b \<Longrightarrow> b \<le> a \<Longrightarrow> a = b"
    by (cases a; cases b) (auto simp: less_eq_auto_approve_level_def)
qed (auto simp: less_eq_auto_approve_level_def less_auto_approve_level_def)

end

fun tier_tools :: "auto_approve_level \<Rightarrow> string list" where
  "tier_tools Lv_Off = []"
| "tier_tools Lv_Read =
     [''Read'', ''Glob'', ''Grep'', ''LS'', ''LSP'', ''NotebookRead'', ''WebSearch'', ''WebFetch'',
      ''Agent'', ''Skill'', ''ToolSearch'', ''EnterWorktree'', ''ExitWorktree'',
      ''TaskCreate'', ''TaskUpdate'', ''TaskGet'', ''TaskList'', ''TaskOutput'', ''TaskStop'',
      ''TodoRead'', ''CronList'']"
| "tier_tools Lv_Write = [''Edit'', ''Write'', ''NotebookEdit'', ''CronCreate'', ''CronDelete'']"
| "tier_tools Lv_Execute = [''Bash'']"
| "tier_tools Lv_All = []"

text \<open>The loop over the tiers in ascending order, which breaks above the level.\<close>

fun tiers_include :: "auto_approve_level \<Rightarrow> string \<Rightarrow> auto_approve_level list \<Rightarrow> bool" where
  "tiers_include self tool [] = False"
| "tiers_include self tool (l # ls) =
     (if self < l then False
      else if tool \<in> set (tier_tools l) then True
      else tiers_include self tool ls)"

definition level_includes :: "auto_approve_level \<Rightarrow> string \<Rightarrow> bool" where
  "level_includes self tool =
     (if self = Lv_All then True
      else tiers_include self tool [Lv_Off, Lv_Read, Lv_Write, Lv_Execute])"

fun level_name :: "auto_approve_level \<Rightarrow> string" where
  "level_name Lv_Off = ''off''"
| "level_name Lv_Read = ''read''"
| "level_name Lv_Write = ''write''"
| "level_name Lv_Execute = ''execute''"
| "level_name Lv_All = ''all''"

definition level_from_str :: "string \<Rightarrow> auto_approve_level option" where
  "level_from_str s = (let k = to_lower s in
     if k = ''off'' \<or> k = ''0'' then Some Lv_Off
     else if k = ''read'' \<or> k = ''1'' then Some Lv_Read
     else if k = ''write'' \<or> k = ''2'' then Some Lv_Write
     else if k = ''execute'' \<or> k = ''exec'' \<or> k = ''3'' then Some Lv_Execute
     else if k = ''all'' \<or> k = ''4'' then Some Lv_All
     else None)"

definition DEFAULT_ALWAYS_ASK :: "string list" where
  "DEFAULT_ALWAYS_ASK = [''AskUserQuestion'', ''EnterPlanMode'', ''ExitPlanMode'', ''Elicitation'']"

text \<open>The body of \<open>GET /api/tool-tiers\<close>.\<close>

definition tool_tiers :: json where
  "tool_tiers = JObj
     [(''read'', JArr (map JStr (tier_tools Lv_Read))),
      (''write'', JArr (map JStr (tier_tools Lv_Write))),
      (''execute'', JArr (map JStr (tier_tools Lv_Execute))),
      (''always_ask'', JArr (map JStr DEFAULT_ALWAYS_ASK))]"

section \<open>What the agent hook enforces\<close>

text \<open>\<open>serde_json\<close>: \<open>get\<close>, \<open>as_array\<close>, \<open>as_str\<close>.\<close>

definition json_get :: "string \<Rightarrow> json \<Rightarrow> json option" where
  "json_get key v = (case v of JObj kvs \<Rightarrow> map_of kvs key | _ \<Rightarrow> None)"

definition as_array :: "json option \<Rightarrow> json list option" where
  "as_array v = (case v of Some (JArr xs) \<Rightarrow> Some xs | _ \<Rightarrow> None)"

definition as_str :: "json option \<Rightarrow> string option" where
  "as_str v = (case v of Some (JStr s) \<Rightarrow> Some s | _ \<Rightarrow> None)"

definition lists_tool :: "string \<Rightarrow> json \<Rightarrow> string \<Rightarrow> bool" where
  "lists_tool key config tool = (case as_array (json_get key config) of
     Some arr \<Rightarrow> list_ex (\<lambda>v. as_str (Some v) = Some tool) arr
   | None \<Rightarrow> False)"

definition legacy_auto_approved :: "string \<Rightarrow> json option \<Rightarrow> string option" where
  "legacy_auto_approved tool legacy =
     (case Option.bind legacy (\<lambda>c. as_array (json_get ''auto_approve'' c)) of
        Some arr \<Rightarrow> (if list_ex (\<lambda>v. as_str (Some v) = Some tool) arr then Some ''legacy_list'' else None)
      | None \<Rightarrow> (if tool \<in> set (tier_tools Lv_Read) then Some ''default:read_tier'' else None))"

definition check_base_approved :: "json \<Rightarrow> string \<Rightarrow> json option \<Rightarrow> string option" where
  "check_base_approved config tool legacy =
     (if lists_tool ''auto_approve_add'' config tool then Some ''auto_approve_add''
      else case Option.bind (as_str (json_get ''auto_approve_level'' config)) level_from_str of
        Some lv \<Rightarrow> (if level_includes lv tool then Some (''level:'' @ level_name lv) else None)
      | None \<Rightarrow> legacy_auto_approved tool legacy)"

definition base_rule :: "json option \<Rightarrow> json option \<Rightarrow> string \<Rightarrow> string option" where
  "base_rule config legacy tool = (case config of
     Some c \<Rightarrow> (if lists_tool ''auto_approve_remove'' c tool then None
                else check_base_approved c tool legacy)
   | None \<Rightarrow> legacy_auto_approved tool legacy)"

text \<open>A pattern list of a tool rule matches when one of its strings occurs in the input.\<close>

definition pattern_hit :: "string \<Rightarrow> json \<Rightarrow> string \<Rightarrow> bool" where
  "pattern_hit key rule input_lower = (case as_array (json_get key rule) of
     Some ps \<Rightarrow> list_ex (\<lambda>p. case as_str (Some p) of
                   Some pat \<Rightarrow> includes_str input_lower (to_lower pat) | None \<Rightarrow> False) ps
   | None \<Rightarrow> False)"

text \<open>\<open>tool_input_text\<close> extracts the searched text from the call: an argument here.\<close>

definition auto_approved_by :: "json option \<Rightarrow> json option \<Rightarrow> string \<Rightarrow> string \<Rightarrow> string option" where
  "auto_approved_by config legacy tool input_text =
     (let base = base_rule config legacy tool in
      case Option.bind config (\<lambda>c. case json_get ''tool_rules'' c of
             Some (JObj rules) \<Rightarrow> map_of rules tool | _ \<Rightarrow> None) of
        None \<Rightarrow> base
      | Some rule \<Rightarrow>
          let input_lower = to_lower input_text in
          if base \<noteq> None
          then (if pattern_hit ''deny_patterns'' rule input_lower then None else base)
          else (if pattern_hit ''allow_patterns'' rule input_lower
                then Some (''tool_rules:'' @ tool @ '':allow_pattern'') else base))"

section \<open>The merge patch of PUT /api/config\<close>

text \<open>
  The entries of the patch are applied in order to a copy of the target's map. The order of
  the keys in the file is not observed by any reader.
\<close>

fun json_merge_patch :: "json \<Rightarrow> json \<Rightarrow> json"
  and merge_entries :: "json_object \<Rightarrow> json_object \<Rightarrow> json_object" where
  "json_merge_patch target (JObj patch) =
     JObj (merge_entries (case target of JObj obj \<Rightarrow> obj | _ \<Rightarrow> []) patch)"
| "json_merge_patch target other = other"
| "merge_entries obj [] = obj"
| "merge_entries obj ((key, value) # patch) =
     merge_entries
       (if value = JNull then AList.delete key obj
        else AList.delete key obj @
               [(key, json_merge_patch (case map_of obj key of Some v \<Rightarrow> v | None \<Rightarrow> JNull) value)])
       patch"

text \<open>
  Every key the server knows, with the message of the first refusal (in the order of the
  entries; no caller reads the text); \<open>None\<close> accepts. A number
  counts as an unsigned integer when it is one below \<open>2\<^sup>6\<^sup>4\<close>, which is how \<open>JSON.stringify\<close> prints
  it. A tool rule is read with serde's derived reader, which takes an object whose two pattern
  fields are optional, or an array of up to two pattern lists.
\<close>

definition string_list :: "json \<Rightarrow> bool" where
  "string_list v = (case as_array (Some v) of
     Some items \<Rightarrow> list_all (\<lambda>i. as_str (Some i) \<noteq> None) items | None \<Rightarrow> False)"

definition tool_rule_ok :: "json \<Rightarrow> bool" where
  "tool_rule_ok rule = (case rule of
     JObj fs \<Rightarrow> list_all (\<lambda>k. case map_of fs k of Some v \<Rightarrow> string_list v | None \<Rightarrow> True)
                  [''deny_patterns'', ''allow_patterns'']
   | JArr vs \<Rightarrow> length vs \<le> 2 \<and> list_all string_list vs
   | _ \<Rightarrow> False)"

definition as_u64 :: "json \<Rightarrow> bool" where
  "as_u64 v = (case v of
     JNum (Fin r) \<Rightarrow> of_int \<lfloor>r\<rfloor> = r \<and> 0 \<le> \<lfloor>r\<rfloor> \<and> \<lfloor>r\<rfloor> < 2 ^ 64
   | _ \<Rightarrow> False)"

definition boolean_keys :: "string list" where
  "boolean_keys = [''notifications'', ''auto_approve_stop'', ''auto_approve_user_prompt'',
     ''auto_approve_config_change'', ''auto_approve_lifecycle'', ''auto_approve_dangerous'']"

definition numeric_keys :: "string list" where
  "numeric_keys = [''hook_timeout_secs'', ''agent_timeout_secs'', ''retention_max_rows'',
     ''retention_max_age_days'', ''log_retention_days'', ''retention_vacuum_max_mb'',
     ''archive_alert_max_mb'', ''disk_alert_free_mb'', ''audit_snapshot_limit'']"

definition tool_list_keys :: "string list" where
  "tool_list_keys = [''auto_approve_add'', ''auto_approve_remove'', ''auto_approve'', ''always_ask'',
     ''always_ask_remove'']"

definition validate_entry :: "string \<Rightarrow> json \<Rightarrow> string option" where
  "validate_entry key value =
     (if value = JNull then None
      else if key \<in> set boolean_keys
      then (case value of JBool _ \<Rightarrow> None | _ \<Rightarrow> Some ''boolean config value must be true or false'')
      else if key \<in> set numeric_keys
      then (if as_u64 value then None else Some ''numeric config value must be an unsigned integer'')
      else if key = ''auto_approve_level''
      then (case as_str (Some value) of
              None \<Rightarrow> Some ''auto_approve_level must be a string''
            | Some l \<Rightarrow> (if level_from_str l = None then Some ''auto_approve_level is invalid'' else None))
      else if key \<in> set tool_list_keys
      then (case as_array (Some value) of
              None \<Rightarrow> Some ''tool-name lists must be arrays''
            | Some items \<Rightarrow> (if string_list (JArr items) then None
                             else Some ''tool-name lists must contain only strings''))
      else if key = ''tool_rules''
      then (case value of
              JObj rules \<Rightarrow> (if list_ex (\<lambda>(_, r). r \<noteq> JNull \<and> \<not> tool_rule_ok r) rules
                             then Some ''tool_rules schema is invalid'' else None)
            | _ \<Rightarrow> Some ''tool_rules schema is invalid'')
      else Some ''unknown config field'')"

fun first_refusal :: "json_object \<Rightarrow> string option" where
  "first_refusal [] = None"
| "first_refusal ((key, value) # obj) = (case validate_entry key value of
     Some reason \<Rightarrow> Some reason
   | None \<Rightarrow> first_refusal obj)"

definition validate_config_json :: "json \<Rightarrow> string option" where
  "validate_config_json v = (case v of
     JObj obj \<Rightarrow> first_refusal obj
   | _ \<Rightarrow> Some ''config must be a JSON object'')"

text \<open>
  The file after a \<open>PUT\<close>, and whether it answered 200. A file that is not a JSON object
  refuses the update; a file that does not exist counts as empty.
\<close>

definition put_config :: "json \<Rightarrow> json \<Rightarrow> bool \<times> json" where
  "put_config body file =
     (if validate_config_json body \<noteq> None then (False, file)
      else case file of
        JObj obj \<Rightarrow> (True, json_merge_patch (JObj obj) body)
      | _ \<Rightarrow> (False, file))"

section \<open>Lemmas\<close>

declare tier_tools.simps [simp del]

lemma level_from_name [simp]: "level_from_str (level_name l) = Some l"
proof (cases l)
  case Lv_Off
  show ?thesis unfolding Lv_Off by code_simp
next
  case Lv_Read
  show ?thesis unfolding Lv_Read by code_simp
next
  case Lv_Write
  show ?thesis unfolding Lv_Write by code_simp
next
  case Lv_Execute
  show ?thesis unfolding Lv_Execute by code_simp
next
  case Lv_All
  show ?thesis unfolding Lv_All by code_simp
qed

lemma level_le_cases:
  "t \<le> Lv_Off \<longleftrightarrow> t = Lv_Off"
  "t \<le> Lv_Read \<longleftrightarrow> t \<in> {Lv_Off, Lv_Read}"
  "t \<le> Lv_Write \<longleftrightarrow> t \<in> {Lv_Off, Lv_Read, Lv_Write}"
  "t \<le> Lv_Execute \<longleftrightarrow> t \<in> {Lv_Off, Lv_Read, Lv_Write, Lv_Execute}"
  by (cases t; simp add: less_eq_auto_approve_level_def)+

lemma level_includes_iff:
  "level_includes l tool \<longleftrightarrow> l = Lv_All \<or> (\<exists>t. t \<le> l \<and> tool \<in> set (tier_tools t))"
  by (cases l) (auto simp: level_includes_def less_auto_approve_level_def level_le_cases)

text \<open>A higher level approves at least what a lower one does.\<close>

lemma level_includes_mono: "l \<le> m \<Longrightarrow> level_includes l tool \<Longrightarrow> level_includes m tool"
proof (cases "l = Lv_All")
  case True
  moreover assume "l \<le> m"
  ultimately have "m = Lv_All" by (cases m) (auto simp: less_eq_auto_approve_level_def)
  then show ?thesis by (simp add: level_includes_def)
next
  case False
  moreover assume "l \<le> m" "level_includes l tool"
  ultimately show ?thesis by (auto simp: level_includes_iff)
qed

end
