(* ===== verification/Config_View.thy ===== *)
theory Config_View
  imports Auto_Approve
begin

text \<open>
  The auto-approve configuration page (\<open>components/Config.tsx\<close>): how it loads the file and
  the tiers, what it shows for a tool, what a click changes, and the merge patch it sends.
  The bodies are used unchecked, so the page's state holds JSON values and a call on a value
  of the wrong type throws. The theorems relate what the page shows to what the agent hook
  enforces (theory \<open>Auto_Approve\<close>) along any sequence of clicks, and say when the two differ.
\<close>

section \<open>The page's state and operations\<close>

definition LEVELS :: "string list" where
  "LEVELS = [''off'', ''read'', ''write'', ''execute'', ''all'']"

datatype status_source = S_override | S_level

record tool_status =
  st_auto :: bool
  st_source :: status_source

record config_state =
  cf_level :: json
  cf_add :: json
  cf_remove :: json
  cf_levelTools :: "(string \<times> js) list"
  cf_loading :: bool

definition initial_config :: config_state where
  "initial_config =
     \<lparr>cf_level = JStr ''read'', cf_add = JArr [], cf_remove = JArr [],
      cf_levelTools = [(''read'', Some (JArr [])), (''write'', Some (JArr [])), (''execute'', Some (JArr []))],
      cf_loading = True\<rparr>"

definition type_error :: string where
  "type_error = ''TypeError''"

text \<open>\<open>v.includes(t)\<close>: membership in an array, substring of a string.\<close>

definition js_includes :: "js \<Rightarrow> string \<Rightarrow> bool result" where
  "js_includes v t = (case v of
     Some (JArr xs) \<Rightarrow> Inr (JStr t \<in> set xs)
   | Some (JStr s) \<Rightarrow> Inr (includes_str s t)
   | _ \<Rightarrow> Inl type_error)"

text \<open>\<open>[...v]\<close>.\<close>

definition js_spread :: "json \<Rightarrow> json list result" where
  "js_spread v = (case v of
     JArr xs \<Rightarrow> Inr xs
   | JStr s \<Rightarrow> Inr (map (\<lambda>c. JStr [c]) s)
   | _ \<Rightarrow> Inl type_error)"

fun index_from :: "int \<Rightarrow> json \<Rightarrow> string list \<Rightarrow> int" where
  "index_from i v [] = -1"
| "index_from i v (x # xs) = (if v = JStr x then i else index_from (i + 1) v xs)"

definition level_index :: "json \<Rightarrow> int" where
  "level_index v = index_from 0 v LEVELS"

text \<open>The loop over \<open>Object.entries(levelTools)\<close>; \<open>&&\<close> skips the second test.\<close>

fun level_scan :: "int \<Rightarrow> string \<Rightarrow> (string \<times> js) list \<Rightarrow> bool result" where
  "level_scan currentIdx tool [] = Inr False"
| "level_scan currentIdx tool ((lvl, tools) # es) =
     (if level_index (JStr lvl) \<le> currentIdx
      then rbind (js_includes tools tool)
             (\<lambda>found. if found then Inr True else level_scan currentIdx tool es)
      else level_scan currentIdx tool es)"

definition getToolStatus ::
  "string \<Rightarrow> json \<Rightarrow> json \<Rightarrow> json \<Rightarrow> (string \<times> js) list \<Rightarrow> tool_status result" where
  "getToolStatus tool level add remove levelTools =
     rbind (js_includes (Some remove) tool) (\<lambda>isRemoved.
     rbind (js_includes (Some add) tool) (\<lambda>isAdded.
       if isAdded then Inr \<lparr>st_auto = True, st_source = S_override\<rparr>
       else if isRemoved then Inr \<lparr>st_auto = False, st_source = S_override\<rparr>
       else if level = JStr ''all'' then Inr \<lparr>st_auto = True, st_source = S_level\<rparr>
       else rbind (level_scan (level_index level) tool levelTools) (\<lambda>found.
              Inr \<lparr>st_auto = found, st_source = S_level\<rparr>)))"

abbreviation status_of :: "string \<Rightarrow> config_state \<Rightarrow> tool_status result" where
  "status_of tool s \<equiv> getToolStatus tool (cf_level s) (cf_add s) (cf_remove s) (cf_levelTools s)"

text \<open>\<open>v || d\<close>.\<close>

definition js_or :: "js \<Rightarrow> json \<Rightarrow> json" where
  "js_or v d = (case v of Some x \<Rightarrow> (if js_truthy v then x else d) | None \<Rightarrow> d)"

text \<open>
  The body of the \<open>try\<close> block once both bodies are parsed: a \<open>null\<close> body throws at its first
  property read, after which the statements that follow do not run.
\<close>

definition store_config :: "json \<Rightarrow> config_state \<Rightarrow> config_state result" where
  "store_config data s =
     rbind (js_prop data ''auto_approve_level'') (\<lambda>lv.
     rbind (js_prop data ''auto_approve_add'') (\<lambda>ad.
     rbind (js_prop data ''auto_approve_remove'') (\<lambda>rm.
       Inr (s\<lparr>cf_level := js_or lv (JStr ''read''), cf_add := js_or ad (JArr []),
               cf_remove := js_or rm (JArr [])\<rparr>))))"

definition store_tiers :: "json \<Rightarrow> config_state \<Rightarrow> config_state result" where
  "store_tiers tiers s =
     rbind (js_prop tiers ''read'') (\<lambda>r.
     rbind (js_prop tiers ''write'') (\<lambda>w.
     rbind (js_prop tiers ''execute'') (\<lambda>x.
       Inr (s\<lparr>cf_levelTools := [(''read'', r), (''write'', w), (''execute'', x)]\<rparr>))))"

text \<open>\<open>Promise.all\<close> of the two fetches, then both \<open>json()\<close> calls: \<open>None\<close> is the \<open>catch\<close>.\<close>

fun both_bodies :: "outcome \<Rightarrow> outcome \<Rightarrow> (json \<times> json) option" where
  "both_bodies (Responded a) (Responded b) =
     (case (rs_json a, rs_json b) of (Some x, Some y) \<Rightarrow> Some (x, y) | _ \<Rightarrow> None)"
| "both_bodies _ _ = None"

definition loadConfig :: "bool \<Rightarrow> outcome \<Rightarrow> outcome \<Rightarrow> config_state \<Rightarrow> config_state" where
  "loadConfig aborted cfg tiers s =
     (if aborted then s
      else
        (case both_bodies cfg tiers of
           None \<Rightarrow> s
         | Some (data, ts) \<Rightarrow>
             (case store_config data s of
                Inl _ \<Rightarrow> s
              | Inr s1 \<Rightarrow> (case store_tiers ts s1 of Inl _ \<Rightarrow> s1 | Inr s2 \<Rightarrow> s2)))\<lparr>cf_loading := False\<rparr>)"

text \<open>
  \<open>v.length > 0\<close>: the length of an array or a string; of an object, its property
  \<open>length\<close> converted to a number.
\<close>

definition num_positive :: "jsnum option \<Rightarrow> bool" where
  "num_positive n = (case n of Some (Fin q) \<Rightarrow> 0 < q | Some PosInf \<Rightarrow> True | _ \<Rightarrow> False)"

definition length_positive :: "(rat \<Rightarrow> string) \<Rightarrow> json \<Rightarrow> bool" where
  "length_positive num v = (case v of
     JArr xs \<Rightarrow> xs \<noteq> []
   | JStr s \<Rightarrow> s \<noteq> []
   | JObj kvs \<Rightarrow> (case map_of kvs ''length'' of
         None \<Rightarrow> False
       | Some JNull \<Rightarrow> False
       | Some (JBool b) \<Rightarrow> b
       | Some (JNum n) \<Rightarrow> num_positive (Some n)
       | Some w \<Rightarrow> num_positive (js_number (js_string num w)))
   | _ \<Rightarrow> False)"

text \<open>
  The body of the \<open>PUT\<close>. Its outcome is ignored: a failure is logged, a refusal is not even
  looked at.
\<close>

definition saveConfig :: "(rat \<Rightarrow> string) \<Rightarrow> json \<Rightarrow> json \<Rightarrow> json \<Rightarrow> json" where
  "saveConfig num newLevel newAdd newRemove = JObj
     [(''auto_approve_level'', newLevel),
      (''auto_approve_add'', if length_positive num newAdd then newAdd else JNull),
      (''auto_approve_remove'', if length_positive num newRemove then newRemove else JNull)]"

text \<open>The lists after a click on a tool.\<close>

definition toggle_lists ::
  "tool_status \<Rightarrow> string \<Rightarrow> json list \<Rightarrow> json list \<Rightarrow> json list \<times> json list" where
  "toggle_lists status tool add remove =
     (if st_auto status
      then (if st_source status = S_override then (filter (\<lambda>t. t \<noteq> JStr tool) add, remove)
            else (add, remove @ [JStr tool]))
      else (if st_source status = S_override then (add, filter (\<lambda>t. t \<noteq> JStr tool) remove)
            else (add @ [JStr tool], remove)))"

text \<open>A click: the new state and the body sent, or an exception that leaves the page as it was.\<close>

definition toggleTool :: "(rat \<Rightarrow> string) \<Rightarrow> string \<Rightarrow> config_state \<Rightarrow> (config_state \<times> json) result" where
  "toggleTool num tool s =
     rbind (status_of tool s) (\<lambda>status.
     rbind (js_spread (cf_add s)) (\<lambda>add.
     rbind (js_spread (cf_remove s)) (\<lambda>remove.
       let (newAdd, newRemove) = toggle_lists status tool add remove in
       Inr (s\<lparr>cf_add := JArr newAdd, cf_remove := JArr newRemove\<rparr>,
            saveConfig num (cf_level s) (JArr newAdd) (JArr newRemove)))))"

definition changeLevel :: "(rat \<Rightarrow> string) \<Rightarrow> string \<Rightarrow> config_state \<Rightarrow> config_state \<times> json" where
  "changeLevel num newLevel s =
     (s\<lparr>cf_level := JStr newLevel\<rparr>, saveConfig num (JStr newLevel) (cf_add s) (cf_remove s))"

text \<open>The rows and buttons of the page as events; every \<open>PUT\<close> reaches the server in order.\<close>

datatype config_click = Toggle string | Level auto_approve_level

fun click :: "(rat \<Rightarrow> string) \<Rightarrow> config_click \<Rightarrow> config_state \<times> json \<Rightarrow> config_state \<times> json" where
  "click num (Toggle tool) (s, file) =
     (case toggleTool num tool s of
        Inl _ \<Rightarrow> (s, file)
      | Inr (s', body) \<Rightarrow> (s', snd (put_config body file)))"
| "click num (Level l) (s, file) =
     (let (s', body) = changeLevel num (level_name l) s in (s', snd (put_config body file)))"

definition click_run :: "(rat \<Rightarrow> string) \<Rightarrow> config_click list \<Rightarrow> config_state \<times> json \<Rightarrow> config_state \<times> json" where
  "click_run num cs = fold (click num) cs"

section \<open>When the page mirrors the file\<close>

text \<open>The tool names a list of the file holds: absent, \<open>null\<close> or an array of strings.\<close>

definition names_json :: "string list \<Rightarrow> json option" where
  "names_json ts = (if ts = [] then None else Some (JArr (map JStr ts)))"

definition file_holds :: "auto_approve_level \<Rightarrow> string list \<Rightarrow> string list \<Rightarrow> json_object \<Rightarrow> bool" where
  "file_holds l add remove obj \<longleftrightarrow>
     map_of obj ''auto_approve_level'' = Some (JStr (level_name l)) \<and>
     map_of obj ''auto_approve_add'' \<in> {names_json add, Some (JArr (map JStr add))} \<and>
     map_of obj ''auto_approve_remove'' \<in> {names_json remove, Some (JArr (map JStr remove))}"

definition page_shows :: "auto_approve_level \<Rightarrow> string list \<Rightarrow> string list \<Rightarrow> config_state \<Rightarrow> bool" where
  "page_shows l add remove s \<longleftrightarrow>
     cf_level s = JStr (level_name l) \<and> cf_add s = JArr (map JStr add) \<and>
     cf_remove s = JArr (map JStr remove) \<and>
     cf_levelTools s =
       [(''read'', Some (JArr (map JStr (tier_tools Lv_Read)))),
        (''write'', Some (JArr (map JStr (tier_tools Lv_Write)))),
        (''execute'', Some (JArr (map JStr (tier_tools Lv_Execute))))]"

text \<open>The page and the file agree, and no tool is both added and removed.\<close>

definition in_sync :: "config_state \<times> json \<Rightarrow> bool" where
  "in_sync sf = (\<exists>l add remove obj.
     snd sf = JObj obj \<and> file_holds l add remove obj \<and> page_shows l add remove (fst sf) \<and>
     set add \<inter> set remove = {})"

lemma includes_names [simp]: "js_includes (Some (JArr (map JStr ts))) t = Inr (t \<in> set ts)"
  by (auto simp: js_includes_def)

lemma level_index_name [simp]: "level_index (JStr (level_name l)) = int (level_rank l)"
  by (cases l) (simp_all add: level_index_def LEVELS_def)

lemma level_index_tiers [simp]:
  "level_index (JStr ''read'') = 1" "level_index (JStr ''write'') = 2" "level_index (JStr ''execute'') = 3"
  by (simp_all add: level_index_def LEVELS_def)

lemma level_name_all [simp]: "level_name l = ''all'' \<longleftrightarrow> l = Lv_All"
  by (cases l) simp_all

text \<open>On a loaded page the level decides as the hook's own loop does.\<close>

lemma level_scan_tiers:
  assumes "l \<noteq> Lv_All"
  shows "level_scan (int (level_rank l)) tool
     [(''read'', Some (JArr (map JStr (tier_tools Lv_Read)))),
      (''write'', Some (JArr (map JStr (tier_tools Lv_Write)))),
      (''execute'', Some (JArr (map JStr (tier_tools Lv_Execute))))] = Inr (level_includes l tool)"
  using assms tier_tools.simps(1)
  by (cases l) (auto simp: level_includes_def less_auto_approve_level_def)

lemma status_page:
  assumes "page_shows l add remove s"
  shows "status_of tool s = Inr
     (if tool \<in> set add then \<lparr>st_auto = True, st_source = S_override\<rparr>
      else if tool \<in> set remove then \<lparr>st_auto = False, st_source = S_override\<rparr>
      else \<lparr>st_auto = level_includes l tool, st_source = S_level\<rparr>)"
  using assms level_scan_tiers[of l tool]
  by (cases "l = Lv_All") (auto simp: page_shows_def getToolStatus_def level_includes_def)

lemma lists_tool_names:
  assumes "map_of obj key \<in> {names_json ts, Some (JArr (map JStr ts))}"
  shows "lists_tool key (JObj obj) tool \<longleftrightarrow> tool \<in> set ts"
  using assms
  by (auto simp: lists_tool_def json_get_def as_array_def as_str_def names_json_def list_ex_iff
      split: if_splits)

lemma base_rule_file:
  assumes "file_holds l add remove obj"
  shows "base_rule (Some (JObj obj)) legacy tool \<noteq> None \<longleftrightarrow>
     tool \<notin> set remove \<and> (tool \<in> set add \<or> level_includes l tool)"
  using assms lists_tool_names[of obj "''auto_approve_add''" add tool]
    lists_tool_names[of obj "''auto_approve_remove''" remove tool]
  by (auto simp: file_holds_def base_rule_def check_base_approved_def json_get_def as_str_def)

lemma js_or_names:
  assumes "v \<in> {names_json ts, Some (JArr (map JStr ts))}"
  shows "js_or v (JArr []) = JArr (map JStr ts)"
  using assms by (auto simp: js_or_def names_json_def)

section \<open>A load\<close>

text \<open>An answer with this body and status.\<close>

definition answer :: "nat \<Rightarrow> json \<Rightarrow> outcome" where
  "answer status body = Responded \<lparr>rs_status = status, rs_contentType = Some ''application/json'',
     rs_retryAfter = None, rs_text = None, rs_json = Some body\<rparr>"

lemma rs_json_answer [simp]: "both_bodies (answer m a) (answer n b) = Some (a, b)"
  by (simp add: answer_def)

lemma js_prop_JObj [simp]: "js_prop (JObj kvs) key = Inr (map_of kvs key)"
  by (simp add: js_prop_def)

lemma js_or_level [simp]: "js_or (Some (JStr (level_name l))) d = JStr (level_name l)"
  by (cases l) (simp_all add: js_or_def)

lemma load_shows:
  assumes "file_holds l add remove obj"
  shows "page_shows l add remove (loadConfig False (answer m (JObj obj)) (answer n tool_tiers) s)"
  using assms
  by (auto simp: loadConfig_def store_config_def store_tiers_def tool_tiers_def page_shows_def
      file_holds_def js_or_names)

section \<open>A click\<close>

text \<open>The lists after a click, as names.\<close>

definition toggled :: "auto_approve_level \<Rightarrow> string \<Rightarrow> string list \<times> string list \<Rightarrow> string list \<times> string list" where
  "toggled l tool ar = (case ar of (add, remove) \<Rightarrow>
     if tool \<in> set add then (filter (\<lambda>t. t \<noteq> tool) add, remove)
     else if tool \<in> set remove then (add, filter (\<lambda>t. t \<noteq> tool) remove)
     else if level_includes l tool then (add, remove @ [tool])
     else (add @ [tool], remove))"

lemma filter_names: "filter (\<lambda>t. t \<noteq> JStr tool) (map JStr ts) = map JStr (filter (\<lambda>t. t \<noteq> tool) ts)"
  by (induction ts) auto

lemma toggle_page:
  assumes "page_shows l add remove s"
  shows "toggleTool num tool s =
     (let (add', remove') = toggled l tool (add, remove) in
      Inr (s\<lparr>cf_add := JArr (map JStr add'), cf_remove := JArr (map JStr remove')\<rparr>,
           saveConfig num (JStr (level_name l)) (JArr (map JStr add')) (JArr (map JStr remove'))))"
proof -
  have sp: "js_spread (cf_add s) = Inr (map JStr add)" "js_spread (cf_remove s) = Inr (map JStr remove)"
    "cf_level s = JStr (level_name l)"
    using assms by (simp_all add: page_shows_def js_spread_def)
  show ?thesis
    unfolding toggleTool_def status_page[OF assms]
    unfolding sp
    by (simp add: toggled_def toggle_lists_def filter_names)
qed

lemma toggled_disjoint:
  "toggled l tool (add, remove) = (add', remove') \<Longrightarrow> set add \<inter> set remove = {} \<Longrightarrow>
   set add' \<inter> set remove' = {}"
  by (auto simp: toggled_def split: if_splits)

section \<open>The patch on the server\<close>

lemma page_key_class [simp]:
  "''auto_approve_level'' \<notin> set boolean_keys" "''auto_approve_level'' \<notin> set numeric_keys"
  "''auto_approve_add'' \<notin> set boolean_keys" "''auto_approve_add'' \<notin> set numeric_keys"
  "''auto_approve_add'' \<in> set tool_list_keys"
  "''auto_approve_remove'' \<notin> set boolean_keys" "''auto_approve_remove'' \<notin> set numeric_keys"
  "''auto_approve_remove'' \<in> set tool_list_keys"
  by code_simp+

lemma string_list_names [simp]: "string_list (JArr (map JStr names))"
  by (simp add: string_list_def as_array_def as_str_def list_all_iff)

lemma validate_page_entry:
  "validate_entry ''auto_approve_level'' (JStr (level_name l)) = None"
  "validate_entry ''auto_approve_add'' (if c then JArr (map JStr names) else JNull) = None"
  "validate_entry ''auto_approve_remove'' (if c then JArr (map JStr names) else JNull) = None"
  by (simp_all add: validate_entry_def as_str_def as_array_def)

lemma validate_save:
  "validate_config_json (saveConfig num (JStr (level_name l)) (JArr (map JStr add)) (JArr (map JStr remove))) = None"
  by (simp add: validate_config_json_def saveConfig_def validate_page_entry)

lemma map_of_replace: "map_of (AList.delete k obj @ [(k, v)]) = (map_of obj)(k \<mapsto> v)"
  by (rule ext) (simp add: jmap.get_del map_add_def split: option.split)

lemma put_save:
  assumes body: "body = saveConfig num (JStr (level_name l)) (JArr (map JStr add)) (JArr (map JStr remove))"
  obtains obj' where "put_config body (JObj obj) = (True, JObj obj')"
    "map_of obj' = (map_of obj)(''auto_approve_level'' \<mapsto> JStr (level_name l),
       ''auto_approve_add'' := names_json add, ''auto_approve_remove'' := names_json remove)"
proof -
  define obj' where "obj' = merge_entries obj
     [(''auto_approve_level'', JStr (level_name l)),
      (''auto_approve_add'', if add \<noteq> [] then JArr (map JStr add) else JNull),
      (''auto_approve_remove'', if remove \<noteq> [] then JArr (map JStr remove) else JNull)]"
  have "put_config body (JObj obj) = (True, JObj obj')"
    using validate_save[of num l add remove]
    by (simp add: put_config_def body obj'_def saveConfig_def length_positive_def)
  moreover have "map_of obj' = (map_of obj)(''auto_approve_level'' \<mapsto> JStr (level_name l),
       ''auto_approve_add'' := names_json add, ''auto_approve_remove'' := names_json remove)"
    by (simp add: obj'_def names_json_def map_of_replace jmap.get_del del: map_of_append)
  ultimately show thesis by (rule that)
qed

lemma file_holds_put:
  assumes "map_of obj' = (map_of obj)(''auto_approve_level'' \<mapsto> JStr (level_name l),
       ''auto_approve_add'' := names_json add, ''auto_approve_remove'' := names_json remove)"
  shows "file_holds l add remove obj'"
  by (simp add: file_holds_def assms)

text \<open>The keys the page writes; every other key of the file survives a click.\<close>

definition page_keys :: "string set" where
  "page_keys = {''auto_approve_level'', ''auto_approve_add'', ''auto_approve_remove''}"

lemma put_save_effect:
  assumes "set add \<inter> set remove = {}" "page_shows l add remove s"
  shows "put_config (saveConfig num (JStr (level_name l)) (JArr (map JStr add)) (JArr (map JStr remove)))
           (JObj obj) = (True, file') \<Longrightarrow>
         in_sync (s, file') \<and> (\<forall>k. k \<notin> page_keys \<longrightarrow> json_get k file' = map_of obj k)"
  and "fst (put_config (saveConfig num (JStr (level_name l)) (JArr (map JStr add)) (JArr (map JStr remove)))
           (JObj obj))"
proof -
  let ?body = "saveConfig num (JStr (level_name l)) (JArr (map JStr add)) (JArr (map JStr remove))"
  obtain obj' where put: "put_config ?body (JObj obj) = (True, JObj obj')"
    and m: "map_of obj' = (map_of obj)(''auto_approve_level'' \<mapsto> JStr (level_name l),
       ''auto_approve_add'' := names_json add, ''auto_approve_remove'' := names_json remove)"
    using put_save[OF HOL.refl] by metis
  have "in_sync (s, JObj obj')"
    using file_holds_put[OF m] assms by (auto simp: in_sync_def)
  moreover have "k \<notin> page_keys \<Longrightarrow> json_get k (JObj obj') = map_of obj k" for k
    by (simp add: json_get_def m page_keys_def)
  ultimately show "put_config ?body (JObj obj) = (True, file') \<Longrightarrow>
      in_sync (s, file') \<and> (\<forall>k. k \<notin> page_keys \<longrightarrow> json_get k file' = map_of obj k)"
    and "fst (put_config ?body (JObj obj))"
    using put by auto
qed

lemma click_sync:
  assumes "in_sync (s, file)"
  shows "in_sync (click num c (s, file)) \<and>
    (\<forall>k. k \<notin> page_keys \<longrightarrow> json_get k (snd (click num c (s, file))) = json_get k file)"
proof -
  from assms obtain l add remove obj where sync: "file = JObj obj" "file_holds l add remove obj"
    "page_shows l add remove s" "set add \<inter> set remove = {}"
    by (auto simp: in_sync_def)
  have "\<exists>m add' remove' s'. click num c (s, file) =
      (s', snd (put_config (saveConfig num (JStr (level_name m)) (JArr (map JStr add'))
        (JArr (map JStr remove'))) (JObj obj))) \<and> page_shows m add' remove' s' \<and> set add' \<inter> set remove' = {}"
  proof (cases c)
    case (Toggle tool)
    obtain add' remove' where t: "toggled l tool (add, remove) = (add', remove')" by fastforce
    from sync(3) have "page_shows l add' remove'
        (s\<lparr>cf_add := JArr (map JStr add'), cf_remove := JArr (map JStr remove')\<rparr>)"
      by (simp add: page_shows_def)
    with toggled_disjoint[OF t sync(4)] show ?thesis
      by (auto simp: Toggle toggle_page[OF sync(3)] t sync(1))
  next
    case (Level m)
    have "page_shows m add remove (s\<lparr>cf_level := JStr (level_name m)\<rparr>)"
      "cf_add s = JArr (map JStr add)" "cf_remove s = JArr (map JStr remove)"
      using sync(3) by (simp_all add: page_shows_def)
    with sync show ?thesis by (auto simp: Level changeLevel_def)
  qed
  then obtain m add' remove' s' file' where c: "click num c (s, file) = (s', file')"
    and put: "put_config (saveConfig num (JStr (level_name m)) (JArr (map JStr add'))
        (JArr (map JStr remove'))) (JObj obj) = (True, file')"
    and ok: "set add' \<inter> set remove' = {}" "page_shows m add' remove' s'"
    using put_save_effect(2) by (metis prod.collapse)
  have "json_get k file = map_of obj k" for k by (simp add: sync(1) json_get_def)
  with put_save_effect(1)[OF ok put] show ?thesis by (simp add: c)
qed

lemma clicks_sync:
  "in_sync sf \<Longrightarrow> in_sync (click_run num cs sf) \<and>
     (\<forall>k. k \<notin> page_keys \<longrightarrow> json_get k (snd (click_run num cs sf)) = json_get k (snd sf))"
proof (induction cs arbitrary: sf)
  case (Cons c cs)
  obtain s f where sf: "sf = (s, f)" by fastforce
  have cl: "click_run num (c # cs) sf = click_run num cs (click num c sf)" by (simp add: click_run_def)
  from click_sync[of s f num c] Cons.prems have step: "in_sync (click num c sf)"
    "\<And>k. k \<notin> page_keys \<Longrightarrow> json_get k (snd (click num c sf)) = json_get k (snd sf)"
    by (simp_all add: sf)
  from Cons.IH[OF step(1)] show ?case unfolding cl by (simp add: step(2))
qed (simp add: click_run_def)

lemma sync_agrees:
  assumes "in_sync (s, file)"
  shows "\<exists>src. status_of tool s =
     Inr \<lparr>st_auto = (base_rule (Some file) legacy tool \<noteq> None), st_source = src\<rparr>"
proof -
  from assms obtain l add remove obj where sync: "file = JObj obj" "file_holds l add remove obj"
    "page_shows l add remove s" "set add \<inter> set remove = {}"
    by (auto simp: in_sync_def)
  show ?thesis
    unfolding status_page[OF sync(3)] sync(1) base_rule_file[OF sync(2)] using sync(4) by auto
qed


section \<open>Properties\<close>

text \<open>C10: What the configuration page shows is what the agent hook enforces. Load the page
  from a \<open>config.json\<close> that names a level and in which no tool is both added and removed,
  click tools and levels in any order, and let every save reach the server in order: then
  for every tool the page shows AUTO exactly when the hook's level, additions and removals
  approve it, and no key of the file other than the three of the page has changed.\<close>

theorem config_page_mirrors_hook:
  assumes "file_holds l add remove obj" and "set add \<inter> set remove = {}"
    and "click_run num cs (loadConfig False (answer 200 (JObj obj)) (answer 200 tool_tiers) s0, JObj obj) = (s, file)"
  shows "(\<exists>src. status_of tool s =
            Inr \<lparr>st_auto = (base_rule (Some file) legacy tool \<noteq> None), st_source = src\<rparr>) \<and>
         (k \<notin> page_keys \<longrightarrow> json_get k file = map_of obj k)"
proof -
  let ?s = "loadConfig False (answer 200 (JObj obj)) (answer 200 tool_tiers) s0"
  have "page_shows l add remove ?s" by (rule load_shows[OF assms(1)])
  then have "in_sync (?s, JObj obj)" using assms(1,2) by (auto simp: in_sync_def)
  from clicks_sync[OF this, of num cs] have "in_sync (s, file)"
    "k \<notin> page_keys \<Longrightarrow> json_get k file = json_get k (JObj obj)"
    by (simp_all add: assms(3))
  then show ?thesis using sync_agrees by (simp add: json_get_def)
qed

text \<open>A file at level \<open>read\<close> with one addition, an unrelated key, and four clicks.\<close>

definition sample_config :: json_object where
  "sample_config = [(''auto_approve_level'', JStr ''read''), (''auto_approve_add'', JArr [JStr ''Bash'']),
     (''notifications'', JBool True)]"

lemma sample_config_holds: "file_holds Lv_Read [''Bash''] [] sample_config"
  by (simp add: file_holds_def sample_config_def names_json_def)

definition sample_clicks :: "config_state \<times> json" where
  "sample_clicks = click_run (\<lambda>_. []) [Toggle ''Edit'', Toggle ''Read'', Level Lv_Execute, Toggle ''Bash'']
     (loadConfig False (answer 200 (JObj sample_config)) (answer 200 tool_tiers) initial_config,
      JObj sample_config)"

theorem config_page_mirrors_hook_witness:
  "(\<exists>src. status_of ''Edit'' (fst sample_clicks) =
      Inr \<lparr>st_auto = (base_rule (Some (snd sample_clicks)) None ''Edit'' \<noteq> None), st_source = src\<rparr>) \<and>
   json_get ''notifications'' (snd sample_clicks) = Some (JBool True)"
proof -
  have "sample_clicks = (fst sample_clicks, snd sample_clicks)" by simp
  note run = this[unfolded sample_clicks_def]
  show ?thesis
    using config_page_mirrors_hook[OF sample_config_holds _ run, of "''Edit''" None "''notifications''"]
    by (simp add: page_keys_def sample_clicks_def[symmetric]) (simp add: sample_config_def)
qed

text \<open>
  The level as either side reads it. The page knows the five names and nothing else: a missing
  or falsy value counts as \<open>read\<close>, any other as if nothing were approved. The hook also takes
  upper case, digits and \<open>exec\<close>, and without a level it can read it asks the legacy file.
\<close>

definition shown_level :: "js \<Rightarrow> auto_approve_level" where
  "shown_level v = (let x = js_or v (JStr ''read'') in
     if x = JStr ''read'' then Lv_Read else if x = JStr ''write'' then Lv_Write
     else if x = JStr ''execute'' then Lv_Execute else if x = JStr ''all'' then Lv_All else Lv_Off)"

definition level_approves :: "js \<Rightarrow> json option \<Rightarrow> string \<Rightarrow> bool" where
  "level_approves v legacy tool = (case Option.bind (as_str v) level_from_str of
     Some l \<Rightarrow> level_includes l tool
   | None \<Rightarrow> (case Option.bind legacy (\<lambda>c. as_array (json_get ''auto_approve'' c)) of
         Some names \<Rightarrow> JStr tool \<in> set names
       | None \<Rightarrow> tool \<in> set (tier_tools Lv_Read)))"

definition lists_hold :: "string list \<Rightarrow> string list \<Rightarrow> json_object \<Rightarrow> bool" where
  "lists_hold add remove obj \<longleftrightarrow>
     map_of obj ''auto_approve_add'' \<in> {names_json add, Some (JArr (map JStr add))} \<and>
     map_of obj ''auto_approve_remove'' \<in> {names_json remove, Some (JArr (map JStr remove))}"

lemma level_index_unknown: "v \<notin> JStr ` set LEVELS \<Longrightarrow> level_index v = -1"
  by (simp add: level_index_def LEVELS_def)

lemma shown_status:
  assumes "lists_hold add remove obj"
  shows "status_of tool (loadConfig False (answer m (JObj obj)) (answer n tool_tiers) s) = Inr
     (if tool \<in> set add then \<lparr>st_auto = True, st_source = S_override\<rparr>
      else if tool \<in> set remove then \<lparr>st_auto = False, st_source = S_override\<rparr>
      else \<lparr>st_auto = level_includes (shown_level (map_of obj ''auto_approve_level'')) tool, st_source = S_level\<rparr>)"
proof -
  let ?v = "js_or (map_of obj ''auto_approve_level'') (JStr ''read'')"
  let ?tiers = "[(''read'', Some (JArr (map JStr (tier_tools Lv_Read)))), (''write'', Some (JArr (map JStr (tier_tools Lv_Write)))),
      (''execute'', Some (JArr (map JStr (tier_tools Lv_Execute))))]"
  have scan: "level_scan (level_index ?v) tool ?tiers = Inr (level_includes (shown_level (map_of obj ''auto_approve_level'')) tool)"
    if "?v \<noteq> JStr ''all''"
  proof (cases "?v \<in> JStr ` set LEVELS")
    case True
    with that have "?v = JStr (level_name (shown_level (map_of obj ''auto_approve_level'')))"
      "shown_level (map_of obj ''auto_approve_level'') \<noteq> Lv_All"
      by (auto simp: shown_level_def LEVELS_def Let_def)
    then show ?thesis using level_scan_tiers by simp
  next
    case False
    then have "shown_level (map_of obj ''auto_approve_level'') = Lv_Off"
      by (auto simp: shown_level_def LEVELS_def Let_def)
    then show ?thesis
      by (simp add: level_index_unknown[OF False] level_includes_def less_auto_approve_level_def tier_tools.simps(1))
  qed
  have all: "?v = JStr ''all'' \<Longrightarrow> level_includes (shown_level (map_of obj ''auto_approve_level'')) tool"
    by (simp add: shown_level_def level_includes_def)
  have "loadConfig False (answer m (JObj obj)) (answer n tool_tiers) s =
      s\<lparr>cf_level := ?v, cf_add := JArr (map JStr add), cf_remove := JArr (map JStr remove), cf_levelTools := ?tiers, cf_loading := False\<rparr>"
    using assms by (simp add: loadConfig_def store_config_def store_tiers_def tool_tiers_def lists_hold_def js_or_names)
  then show ?thesis using scan all by (auto simp: getToolStatus_def simp del: level_scan.simps tier_tools.simps)
qed

lemma enforced_level:
  assumes "lists_hold add remove obj"
  shows "base_rule (Some (JObj obj)) legacy tool \<noteq> None \<longleftrightarrow>
     tool \<notin> set remove \<and> (tool \<in> set add \<or> level_approves (map_of obj ''auto_approve_level'') legacy tool)"
proof -
  have names: "list_ex (\<lambda>v. as_str (Some v) = Some tool) arr \<longleftrightarrow> JStr tool \<in> set arr" for arr
  proof -
    have "as_str (Some v) = Some tool \<longleftrightarrow> v = JStr tool" for v by (cases v) (simp_all add: as_str_def)
    then show ?thesis by (auto simp: list_ex_iff)
  qed
  show ?thesis
    using assms lists_tool_names[of obj "''auto_approve_add''" add tool] lists_tool_names[of obj "''auto_approve_remove''" remove tool]
    by (auto simp: lists_hold_def base_rule_def check_base_approved_def level_approves_def legacy_auto_approved_def names json_get_def
        split: option.splits)
qed


text \<open>A file that adds and removes \<open>Bash\<close> and spells its level \<open>exec\<close>.\<close>

definition spelled_config :: json_object where
  "spelled_config = [(''auto_approve_level'', JStr ''exec''), (''auto_approve_add'', JArr [JStr ''Bash'']),
     (''auto_approve_remove'', JArr [JStr ''Bash''])]"

lemma spelled_config_lists: "lists_hold [''Bash''] [''Bash''] spelled_config"
  by (simp add: lists_hold_def spelled_config_def)


text \<open>
  Two such files: with the level spelled \<open>exec\<close> the page shows every tool as queued that the
  hook approves; and without a level, next to a legacy file with an empty list, the page
  shows the read tier as approved although the hook queues it.
\<close>

lemma other_spellings_disagree:
  "status_of ''Bash'' (loadConfig False (answer 200 (JObj [(''auto_approve_level'', JStr ''exec'')])) (answer 200 tool_tiers) initial_config) =
     Inr \<lparr>st_auto = False, st_source = S_level\<rparr>"
  "base_rule (Some (JObj [(''auto_approve_level'', JStr ''exec'')])) None ''Bash'' = Some ''level:execute''"
  "status_of ''Read'' (loadConfig False (answer 200 (JObj [])) (answer 200 tool_tiers) initial_config) =
     Inr \<lparr>st_auto = True, st_source = S_level\<rparr>"
  "base_rule (Some (JObj [])) (Some (JObj [(''auto_approve'', JArr [])])) ''Read'' = None"
  by code_simp+

text \<open>What a click on a tool does to the page: the other tools keep their status, and the
  tool itself flips unless it carries an override that repeats what the level says anyway.
  In that case the click only drops the override: an added tool whose level includes it is
  still approved after the click that was to queue it.\<close>

theorem toggle_exact:
  assumes "page_shows l add remove s" and "toggleTool num tool s = Inr (s', body)"
    and "status_of t s = Inr st" and "status_of t s' = Inr st'"
  shows "(t \<noteq> tool \<longrightarrow> st' = st) \<and>
     (t = tool \<longrightarrow> st_auto st' = st_auto st \<longleftrightarrow>
       (tool \<in> set add \<and> tool \<notin> set remove \<and> level_includes l tool \<or>
        tool \<notin> set add \<and> tool \<in> set remove \<and> \<not> level_includes l tool))"
proof -
  obtain add' remove' where t: "toggled l tool (add, remove) = (add', remove')" by fastforce
  from assms(2) have "s' = s\<lparr>cf_add := JArr (map JStr add'), cf_remove := JArr (map JStr remove')\<rparr>"
    by (simp add: toggle_page[OF assms(1)] t)
  with assms(1) have shows': "page_shows l add' remove' s'" by (simp add: page_shows_def)
  note st = assms(3)[unfolded status_page[OF assms(1)]] assms(4)[unfolded status_page[OF shows']]
  show ?thesis
    using st t by (auto simp: toggled_def split: if_splits)
qed

text \<open>The first click on an added tool at level \<open>execute\<close> does not queue it, the second does.\<close>

definition redundant_page :: config_state where
  "redundant_page = loadConfig False (answer 200 (JObj
     [(''auto_approve_level'', JStr ''execute''), (''auto_approve_add'', JArr [JStr ''Bash''])]))
     (answer 200 tool_tiers) initial_config"

lemma redundant_page_shows: "page_shows Lv_Execute [''Bash''] [] redundant_page"
  unfolding redundant_page_def by (rule load_shows) (simp add: file_holds_def names_json_def)

lemma redundant_click:
  "toggleTool (\<lambda>_. []) ''Bash'' redundant_page = Inr (redundant_page\<lparr>cf_add := JArr []\<rparr>,
     saveConfig (\<lambda>_. []) (JStr ''execute'') (JArr []) (JArr []))"
proof -
  have "redundant_page\<lparr>cf_add := JArr [], cf_remove := JArr []\<rparr> = redundant_page\<lparr>cf_add := JArr []\<rparr>"
    using redundant_page_shows by (simp add: page_shows_def)
  then show ?thesis by (simp add: toggle_page[OF redundant_page_shows] toggled_def)
qed

theorem toggle_exact_witness:
  "status_of ''Bash'' redundant_page = Inr \<lparr>st_auto = True, st_source = S_override\<rparr> \<and>
   status_of ''Bash'' (redundant_page\<lparr>cf_add := JArr []\<rparr>) = Inr \<lparr>st_auto = True, st_source = S_level\<rparr>"
proof -
  have after: "page_shows Lv_Execute [] [] (redundant_page\<lparr>cf_add := JArr []\<rparr>)"
    using redundant_page_shows by (simp add: page_shows_def)
  have inc: "level_includes Lv_Execute ''Bash''" by code_simp
  note s = status_page[OF redundant_page_shows, of "''Bash''"] status_page[OF after, of "''Bash''"]
  show ?thesis
    using toggle_exact[OF redundant_page_shows redundant_click, of "''Bash''"] s inc by simp
qed

text \<open>A load that fails, or that is answered with an error body, leaves the page on its
  defaults, and the next click on a level saves them: the level is overwritten and every
  addition and removal of the file is deleted.\<close>

theorem failed_load_wipes_overrides:
  assumes "cfg = Rejected name msg \<or> cfg = answer 500 (JObj [(''error'', e)])"
    and "changeLevel num (level_name l) (loadConfig False cfg (answer 200 tool_tiers) initial_config) = (s, body)"
    and "put_config body (JObj obj) = (accepted, file)"
  shows "accepted \<and> json_get ''auto_approve_level'' file = Some (JStr (level_name l)) \<and>
    json_get ''auto_approve_add'' file = None \<and> json_get ''auto_approve_remove'' file = None"
proof -
  let ?s = "loadConfig False cfg (answer 200 tool_tiers) initial_config"
  have "cf_add ?s = JArr (map JStr [])" "cf_remove ?s = JArr (map JStr [])"
    using assms(1)
    by (auto simp: loadConfig_def answer_def initial_config_def store_config_def js_or_def
        store_tiers_def tool_tiers_def)
  with assms(2) have body: "body = saveConfig num (JStr (level_name l)) (JArr (map JStr [])) (JArr (map JStr []))"
    by (simp add: changeLevel_def)
  obtain obj' where put: "put_config body (JObj obj) = (True, JObj obj')"
    and m: "map_of obj' = (map_of obj)(''auto_approve_level'' \<mapsto> JStr (level_name l),
       ''auto_approve_add'' := names_json [], ''auto_approve_remove'' := names_json [])"
    using put_save[OF body] by metis
  from put assms(3) have fa: "accepted" "file = JObj obj'" by simp_all
  show ?thesis by (simp add: fa json_get_def m names_json_def)
qed

theorem failed_load_wipes_overrides_witness:
  "json_get ''auto_approve_add'' (snd (put_config
      (snd (changeLevel (\<lambda>_. []) (level_name Lv_Write)
         (loadConfig False (Rejected ''TypeError'' ''Failed to fetch'') (answer 200 tool_tiers) initial_config)))
      (JObj sample_config))) = None \<and> map_of sample_config ''auto_approve_add'' = Some (JArr [JStr ''Bash''])"
  using failed_load_wipes_overrides[OF disjI1[OF HOL.refl] prod.collapse[symmetric] prod.collapse[symmetric],
    where num = "\<lambda>_. []" and l = Lv_Write and name = "''TypeError''" and msg = "''Failed to fetch''"
      and obj = sample_config]
  by (simp add: sample_config_def del: level_name.simps)

end
