(* ===== verification/Terminals_View.thy ===== *)
theory Terminals_View
  imports App_Shell
begin

text \<open>
  The terminals view (\<open>components/Terminals.tsx\<close>) and the dock of pending decisions above a
  terminal (\<open>components/TerminalQueueDock.tsx\<close>): sections and groups of the sidebar, selection
  with its one live attachment, the deep link from the inbox, groups, and reordering by
  drag and drop. The view's calls on the daemon connection are collected in \<open>tv_out\<close>, oldest
  first, as commands of the hook.
\<close>

section \<open>Lists the view derives\<close>

definition SORT_GAP :: int where "SORT_GAP = 1000000"
definition UNGROUPED_KEY :: string where "UNGROUPED_KEY = ''__ungrouped__''"
definition FOCUS_WAIT_MS :: int where "FOCUS_WAIT_MS = 2000"

definition pendingByTerminal :: "decision_request list \<Rightarrow> (string, nat) jmap" where
  "pendingByTerminal que = fold (\<lambda>r m. case dr_terminal_session_id r of
       Some t \<Rightarrow> (if t \<noteq> [] then AList.update t (case map_of m t of Some n \<Rightarrow> n + 1 | None \<Rightarrow> 1) m else m)
     | None \<Rightarrow> m) que []"

definition terminalPending :: "terminal_session_meta option \<Rightarrow> decision_request list \<Rightarrow> decision_request list" where
  "terminalPending selected que = (case selected of
     Some t \<Rightarrow> filter (\<lambda>r. dr_terminal_session_id r = Some (tm_id t)) que | None \<Rightarrow> [])"

definition otherPendingCount :: "terminal_session_meta option \<Rightarrow> decision_request list \<Rightarrow> nat" where
  "otherPendingCount selected que = length que - length (terminalPending selected que)"

record sections =
  se_active :: "terminal_session_meta list"
  se_orphaned :: "terminal_session_meta list"
  se_archived :: "terminal_session_meta list"

definition place :: "terminal_session_meta \<Rightarrow> sections \<Rightarrow> sections" where
  "place t s =
     (if tm_status t = TS_running then s\<lparr>se_active := se_active s @ [t]\<rparr>
      else if tm_status t = TS_orphaned then s\<lparr>se_orphaned := se_orphaned s @ [t]\<rparr>
      else s\<lparr>se_archived := se_archived s @ [t]\<rparr>)"

definition partition_sections :: "terminal_session_meta list \<Rightarrow> sections" where
  "partition_sections ts = fold place ts \<lparr>se_active = [], se_orphaned = [], se_archived = []\<rparr>"

text \<open>\<open>localeCompare\<close> depends on the browser's locale: a parameter.\<close>

type_synonym collation = "string \<Rightarrow> string \<Rightarrow> int"

definition cmp_session :: "collation \<Rightarrow> terminal_session_meta comparator" where
  "cmp_session lc a b =
     (let d = tm_sort_order a - tm_sort_order b
      in if d \<noteq> 0 then d else lc (tm_started_at b) (tm_started_at a))"

definition cmp_group :: "collation \<Rightarrow> (string \<times> 'a) comparator" where
  "cmp_group lc a b =
     (if fst a = UNGROUPED_KEY then -1 else if fst b = UNGROUPED_KEY then 1 else lc (fst a) (fst b))"

definition group_of :: "terminal_session_meta \<Rightarrow> string" where
  "group_of t = (case tm_group_name t of Some g \<Rightarrow> g | None \<Rightarrow> UNGROUPED_KEY)"

definition seed_groups :: "string list \<Rightarrow> (string, terminal_session_meta list) jmap" where
  "seed_groups pendingGroups = fold (\<lambda>g. AList.update g []) pendingGroups [(UNGROUPED_KEY, [])]"

definition fill_groups ::
  "terminal_session_meta list \<Rightarrow> (string, terminal_session_meta list) jmap \<Rightarrow> (string, terminal_session_meta list) jmap" where
  "fill_groups active m = fold (\<lambda>t. bucket_push (group_of t) t) active m"

definition activeGroups ::
  "collation \<Rightarrow> terminal_session_meta list \<Rightarrow> string list \<Rightarrow> (string \<times> terminal_session_meta list) list" where
  "activeGroups lc active pendingGroups =
     (let groups = map (\<lambda>(k, ts). (k, js_sort (cmp_session lc) ts)) (fill_groups active (seed_groups pendingGroups))
      in js_sort (cmp_group lc)
           (filter (\<lambda>(k, v). length v > 0 \<or> k \<noteq> UNGROUPED_KEY \<or> length groups = 1) groups))"

section \<open>State\<close>

record drag_payload =
  dg_id :: string
  dg_fromGroup :: "string option"

record terminals_view =
  tv_selectedId :: "string option"
  tv_replayMode :: bool
  tv_focusNotice :: "string option"
  tv_focusWait :: "(string \<times> int) option"
  tv_focusTimer :: "(string \<times> int) option"
  tv_focusSessionId :: "string option"
  tv_showProjectPicker :: bool
  tv_orphanedOpen :: bool
  tv_archivedOpen :: bool
  tv_pendingGroups :: "string list"
  tv_renamingGroup :: "string option"
  tv_renameDraft :: string
  tv_drag :: "drag_payload option"
  tv_dropHint :: "(string \<times> nat) option"
  tv_live :: "string option"
  tv_out :: "event list"

definition readBool :: "bool \<Rightarrow> string option \<Rightarrow> bool \<Rightarrow> bool" where
  "readBool works stored fallback =
     (if \<not> works then fallback else case stored of None \<Rightarrow> fallback | Some v \<Rightarrow> v = ''1'')"

definition writeBool :: "bool \<Rightarrow> bool \<Rightarrow> string option \<Rightarrow> string option" where
  "writeBool works value stored = (if works then Some (if value then ''1'' else ''0'') else stored)"

definition tell :: "user_command \<Rightarrow> terminals_view \<Rightarrow> terminals_view" where
  "tell c v = v\<lparr>tv_out := tv_out v @ [Ev_command c]\<rparr>"

text \<open>Mounting refreshes the terminals and the projects.\<close>

definition mount_terminals :: "bool \<Rightarrow> bool \<Rightarrow> string option \<Rightarrow> terminals_view" where
  "mount_terminals orphaned archived focus =
     tell Do_queryProjects (tell Do_termList
       \<lparr>tv_selectedId = None, tv_replayMode = False, tv_focusNotice = None, tv_focusWait = None,
        tv_focusTimer = None, tv_focusSessionId = focus, tv_showProjectPicker = False,
        tv_orphanedOpen = orphaned, tv_archivedOpen = archived, tv_pendingGroups = [],
        tv_renamingGroup = None, tv_renameDraft = [], tv_drag = None, tv_dropHint = None,
        tv_live = None, tv_out = []\<rparr>)"

definition selected_session :: "terminal_session_meta list \<Rightarrow> terminals_view \<Rightarrow> terminal_session_meta option" where
  "selected_session ts v = find (\<lambda>t. Some (tm_id t) = tv_selectedId v) ts"

section \<open>Creating\<close>

definition create_opts :: "string option \<Rightarrow> string option \<Rightarrow> term_create_opts" where
  "create_opts label cwd = \<lparr>tc_label = label, tc_command = None, tc_args = None, tc_cwd = cwd,
     tc_cols = 120, tc_rows = 32, tc_env = None\<rparr>"

text \<open>\<open>prompt()\<close> gives \<open>None\<close> when the user cancels it; the session is created all the same.\<close>

definition handleCreate :: "string option \<Rightarrow> terminals_view \<Rightarrow> terminals_view" where
  "handleCreate answer v =
     tell (Do_termCreate (create_opts (case answer of Some l \<Rightarrow> if l \<noteq> [] then Some l else None | None \<Rightarrow> None) None)) v"

definition project_name :: "string \<Rightarrow> string" where
  "project_name p = (case rev (filter (\<lambda>w. w \<noteq> []) (split_on (CHR ''/'') p)) of w # _ \<Rightarrow> w | [] \<Rightarrow> p)"

definition handleCreateInProject :: "project_summary \<Rightarrow> terminals_view \<Rightarrow> terminals_view" where
  "handleCreateInProject p v =
     (tell (Do_termCreate (create_opts (Some (project_name (pj_project p))) (Some (pj_project p)))) v)\<lparr>tv_showProjectPicker := False\<rparr>"

section \<open>Selecting\<close>

text \<open>A ref holding the empty string counts as empty.\<close>

definition detachLiveSelection :: "terminals_view \<Rightarrow> terminals_view" where
  "detachLiveSelection v = (case tv_live v of
     Some i \<Rightarrow> (if i \<noteq> [] then tell (Do_termDetach i) (v\<lparr>tv_live := None\<rparr>) else v)
   | None \<Rightarrow> v)"

definition handleSelect :: "string \<Rightarrow> bool \<Rightarrow> terminals_view \<Rightarrow> terminals_view" where
  "handleSelect i rp v0 =
     (let v = (detachLiveSelection v0)\<lparr>tv_selectedId := Some i, tv_replayMode := rp\<rparr>
      in if rp then tell (Do_termReplay i None) v
         else tell (Do_termAttach i) (v\<lparr>tv_live := Some i\<rparr>))"

definition handleBack :: "terminals_view \<Rightarrow> terminals_view" where
  "handleBack v = (detachLiveSelection v)\<lparr>tv_selectedId := None, tv_replayMode := False\<rparr>"

definition unmount_terminals :: "terminals_view \<Rightarrow> terminals_view" where
  "unmount_terminals v = (case tv_live v of
     Some i \<Rightarrow> (if i \<noteq> [] then tell (Do_termDetach i) (v\<lparr>tv_live := None\<rparr>) else v\<lparr>tv_live := None\<rparr>)
   | None \<Rightarrow> v)\<lparr>tv_focusTimer := None\<rparr>"

section \<open>The deep link\<close>

definition giveUp :: "string \<Rightarrow> terminals_view \<Rightarrow> terminals_view" where
  "giveUp i v = v\<lparr>tv_focusWait := None, tv_focusTimer := None, tv_focusSessionId := None,
     tv_focusNotice := Some (''Couldn'' @ [char_of (39::nat)] @ ''t focus terminal '' @ Js_Runtime.slice i 0 8 @ ellipsis_char @ '' '' @ em_dash @
       '' the session is no longer available. It may have ended, or it isn'' @ [char_of (39::nat)] @ ''t an embedded wisphive terminal.'')\<rparr>"

text \<open>
  The effect on \<open>[focusSessionId, terminals]\<close>; its cleanup has cleared the previous timer. The
  acknowledgement \<open>onFocusHandled\<close> clears the shell's target, which is \<open>tv_focusSessionId\<close>
  here.
\<close>

definition focus_effect :: "int \<Rightarrow> terminal_session_meta list \<Rightarrow> terminals_view \<Rightarrow> terminals_view" where
  "focus_effect now ts v0 =
     (let v = v0\<lparr>tv_focusTimer := None\<rparr> in
      if \<not> truthy (tv_focusSessionId v) then v\<lparr>tv_focusWait := None\<rparr>
      else let i = the (tv_focusSessionId v) in
        case find (\<lambda>t. tm_id t = i) ts of
          Some t \<Rightarrow> (handleSelect (tm_id t) False
                      (v\<lparr>tv_focusWait := None, tv_focusNotice := None\<rparr>))\<lparr>tv_focusSessionId := None\<rparr>
        | None \<Rightarrow>
            let deadline = (case tv_focusWait v of
                              Some (j, d) \<Rightarrow> (if j = i then d else now + FOCUS_WAIT_MS)
                            | None \<Rightarrow> now + FOCUS_WAIT_MS);
                w = v\<lparr>tv_focusWait := Some (i, deadline)\<rparr>
            in if deadline - now \<le> 0 then giveUp i w else w\<lparr>tv_focusTimer := Some (i, deadline)\<rparr>)"

definition focus_timeout :: "terminals_view \<Rightarrow> terminals_view" where
  "focus_timeout v = (case tv_focusTimer v of Some (i, _) \<Rightarrow> giveUp i v | None \<Rightarrow> v)"

section \<open>Groups\<close>

definition handleNewGroup :: "string option \<Rightarrow> terminal_session_meta list \<Rightarrow> terminals_view \<Rightarrow> terminals_view" where
  "handleNewGroup answer active v = (case answer of
     None \<Rightarrow> v
   | Some name \<Rightarrow>
       let trimmed = trim name in
       if name = [] \<or> trimmed = [] then v
       else if trimmed \<notin> set (tv_pendingGroups v) \<and> \<not> list_ex (\<lambda>t. tm_group_name t = Some trimmed) active
       then v\<lparr>tv_pendingGroups := tv_pendingGroups v @ [trimmed]\<rparr>
       else v)"

definition startRenameGroup :: "string \<Rightarrow> terminals_view \<Rightarrow> terminals_view" where
  "startRenameGroup g v =
     (if g = UNGROUPED_KEY then v else v\<lparr>tv_renamingGroup := Some g, tv_renameDraft := g\<rparr>)"

definition tell_groups :: "string option \<Rightarrow> terminal_session_meta list \<Rightarrow> terminals_view \<Rightarrow> terminals_view" where
  "tell_groups target members v = fold (\<lambda>t. tell (Do_termSetGroup (tm_id t) target)) members v"

definition commitRename :: "terminal_session_meta list \<Rightarrow> terminals_view \<Rightarrow> terminals_view" where
  "commitRename active v =
     (if \<not> truthy (tv_renamingGroup v) then v
      else
        let old = the (tv_renamingGroup v); next = trim (tv_renameDraft v);
            target = (if next = [] then None else Some next);
            v1 = tell_groups target (filter (\<lambda>t. tm_group_name t = Some old) active) v
        in v1\<lparr>tv_pendingGroups := concat (map (\<lambda>g. if g \<noteq> old then [g] else (case target of Some x \<Rightarrow> [x] | None \<Rightarrow> []))
                                          (tv_pendingGroups v1)),
              tv_renamingGroup := None, tv_renameDraft := []\<rparr>)"

definition ungroupAll :: "string \<Rightarrow> terminal_session_meta list \<Rightarrow> terminals_view \<Rightarrow> terminals_view" where
  "ungroupAll g active v =
     (if g = UNGROUPED_KEY then v
      else (tell_groups None (filter (\<lambda>t. tm_group_name t = Some g) active) v)
             \<lparr>tv_pendingGroups := filter (\<lambda>h. h \<noteq> g) (tv_pendingGroups v)\<rparr>)"

section \<open>Reordering\<close>

text \<open>
  A sum of two numbers whose size is at most \<open>2^53 + 10^6\<close>, as a double: exact up to
  \<open>2^53\<close>, above it an odd sum is rounded to the even neighbour with an even half.
\<close>

definition js_plus :: "int \<Rightarrow> int \<Rightarrow> int" where
  "js_plus a b = (let s = a + b in
     if \<bar>s\<bar> \<le> 2 ^ 53 \<or> even s then s else if even ((s - 1) div 2) then s - 1 else s + 1)"

definition computeSortOrder :: "terminal_session_meta list \<Rightarrow> string \<Rightarrow> nat \<Rightarrow> int" where
  "computeSortOrder bucket draggedId dropIndex =
     (let filtered = filter (\<lambda>t. tm_id t \<noteq> draggedId) bucket;
          clamped = min dropIndex (length filtered);
          before = (if clamped > 0 then Some (tm_sort_order (filtered ! (clamped - 1))) else None);
          after = (if clamped < length filtered then Some (tm_sort_order (filtered ! clamped)) else None)
      in case (before, after) of
           (None, None) \<Rightarrow> 0
         | (None, Some a) \<Rightarrow> js_plus a (- SORT_GAP)
         | (Some b, None) \<Rightarrow> js_plus b SORT_GAP
         | (Some b, Some a) \<Rightarrow> js_plus b a div 2)"

definition handleDragStart :: "terminal_session_meta \<Rightarrow> terminals_view \<Rightarrow> terminals_view" where
  "handleDragStart t v = v\<lparr>tv_drag := Some \<lparr>dg_id = tm_id t, dg_fromGroup = tm_group_name t\<rparr>\<rparr>"

definition handleDragEnd :: "terminals_view \<Rightarrow> terminals_view" where
  "handleDragEnd v = v\<lparr>tv_drag := None, tv_dropHint := None\<rparr>"

definition handleDragOverItem :: "string \<Rightarrow> nat \<Rightarrow> terminals_view \<Rightarrow> terminals_view" where
  "handleDragOverItem g index v = (if tv_drag v = None then v else v\<lparr>tv_dropHint := Some (g, index)\<rparr>)"

definition handleDragOverGroupEnd :: "string \<Rightarrow> nat \<Rightarrow> terminals_view \<Rightarrow> terminals_view" where
  "handleDragOverGroupEnd g bucketLen v = (if tv_drag v = None then v else v\<lparr>tv_dropHint := Some (g, bucketLen)\<rparr>)"

text \<open>
  A \<open>dragover\<close> event on an item runs the item's handler and then, as it bubbles and no
  handler stops it, the handler of the group that contains the item.
\<close>

definition dragover_item :: "string \<Rightarrow> terminal_session_meta list \<Rightarrow> nat \<Rightarrow> terminals_view \<Rightarrow> terminals_view" where
  "dragover_item g bucket idx v = handleDragOverGroupEnd g (length bucket) (handleDragOverItem g idx v)"

definition handleDrop ::
  "(string \<times> terminal_session_meta list) list \<Rightarrow> string \<Rightarrow> terminals_view \<Rightarrow> terminals_view" where
  "handleDrop groups g v = (case tv_drag v of
     None \<Rightarrow> v
   | Some d \<Rightarrow>
       let destGroup = (if g = UNGROUPED_KEY then None else Some g);
           bucket = (case map_of groups g of Some b \<Rightarrow> b | None \<Rightarrow> []);
           index = (case tv_dropHint v of Some (h, i) \<Rightarrow> if h = g then i else length bucket | None \<Rightarrow> length bucket);
           newOrder = computeSortOrder bucket (dg_id d) index;
           v1 = (if destGroup \<noteq> dg_fromGroup d then tell (Do_termSetGroup (dg_id d) destGroup) v else v);
           v2 = tell (Do_termReorder (dg_id d) newOrder) v1
       in v2\<lparr>tv_pendingGroups := (if truthy destGroup then filter (\<lambda>h. Some h \<noteq> destGroup) (tv_pendingGroups v2)
                                  else tv_pendingGroups v2),
             tv_drag := None, tv_dropHint := None\<rparr>)"

section \<open>The dock\<close>

definition dock_expanded :: "decision_request list \<Rightarrow> string option \<Rightarrow> string option" where
  "dock_expanded pending requested =
     (if list_ex (\<lambda>r. Some (dr_id r) = requested) pending then requested else None)"

definition dock_toggle :: "decision_request list \<Rightarrow> string \<Rightarrow> string option \<Rightarrow> string option" where
  "dock_toggle pending row requested = (if dock_expanded pending requested = Some row then None else Some row)"

definition dock_hidden :: "decision_request list \<Rightarrow> nat \<Rightarrow> bool" where
  "dock_hidden pending other \<longleftrightarrow> pending = [] \<and> other = 0"

end
