(* ===== verification/Terminals_Order.thy ===== *)
theory Terminals_Order
  imports Terminals_Properties
begin

text \<open>
  The deep link's deadline, the counts, sections and groups of the terminals view, and where
  a dragged session lands.
\<close>

section \<open>The deep link\<close>

definition focus_runs :: "(int \<times> terminal_session_meta list) list \<Rightarrow> terminals_view \<Rightarrow> terminals_view" where
  "focus_runs runs v = fold (\<lambda>(now, ts). focus_effect now ts) runs v"

text \<open>What has become of the link to \<open>i\<close>: still waiting with its timer armed, or settled.\<close>

definition focus_waits :: "string \<Rightarrow> int \<Rightarrow> terminals_view \<Rightarrow> bool" where
  "focus_waits i deadline v \<longleftrightarrow> tv_focusSessionId v = Some i \<and> tv_focusWait v = Some (i, deadline) \<and>
     tv_focusTimer v = Some (i, deadline)"

definition focus_settled :: "string \<Rightarrow> terminals_view \<Rightarrow> bool" where
  "focus_settled i v \<longleftrightarrow> tv_focusSessionId v = None \<and>
     (tv_selectedId v = Some i \<and> tv_live v = Some i \<and> \<not> tv_replayMode v \<or> tv_focusNotice v \<noteq> None)"

lemma focus_step_settled: "focus_settled i v \<Longrightarrow> focus_settled i (focus_effect now ts v)"
  by (auto simp: focus_settled_def focus_effect_def truthy_def)

lemma focus_step_waits:
  assumes "i \<noteq> []" "focus_waits i dl v"
  shows "focus_settled i (focus_effect now ts v) \<or> focus_waits i dl (focus_effect now ts v) \<and> now < dl \<and> i \<notin> tm_id ` set ts"
proof (cases "find (\<lambda>t. tm_id t = i) ts")
  case None
  then have "i \<notin> tm_id ` set ts" by (auto simp: find_None_iff)
  with None assms show ?thesis
    by (auto simp: focus_waits_def focus_settled_def focus_effect_def truthy_def giveUp_def Let_def)
next
  case (Some t)
  then have "tm_id t = i" by (auto simp: find_Some_iff)
  with Some assms show ?thesis
    by (auto simp: focus_waits_def focus_settled_def focus_effect_def truthy_def Let_def handleSelect_def tell_def)
qed

lemma focus_first:
  assumes "i \<noteq> []" "tv_focusSessionId v = Some i" "tv_focusWait v = None"
  shows "focus_settled i (focus_effect now ts v) \<or> focus_waits i (now + FOCUS_WAIT_MS) (focus_effect now ts v) \<and> i \<notin> tm_id ` set ts"
proof (cases "find (\<lambda>t. tm_id t = i) ts")
  case None
  then have "i \<notin> tm_id ` set ts" by (auto simp: find_None_iff)
  with None assms show ?thesis
    by (auto simp: focus_waits_def focus_settled_def focus_effect_def truthy_def giveUp_def Let_def FOCUS_WAIT_MS_def)
next
  case (Some t)
  then have "tm_id t = i" by (auto simp: find_Some_iff)
  with Some assms show ?thesis
    by (auto simp: focus_settled_def focus_effect_def truthy_def Let_def handleSelect_def tell_def)
qed

lemma focus_runs_waits:
  assumes "i \<noteq> []" "focus_settled i v \<or> focus_waits i dl v"
  shows "focus_settled i (focus_runs runs v) \<or>
    focus_waits i dl (focus_runs runs v) \<and> list_all (\<lambda>(now, ts). now < dl \<and> i \<notin> tm_id ` set ts) runs"
  using assms(2)
proof (induction runs arbitrary: v)
  case Nil
  then show ?case by (auto simp: focus_runs_def)
next
  case (Cons r runs)
  obtain now ts where r: "r = (now, ts)" by fastforce
  have "focus_settled i (focus_effect now ts v) \<or> focus_waits i dl (focus_effect now ts v) \<and> now < dl \<and> i \<notin> tm_id ` set ts"
    using Cons.prems focus_step_settled focus_step_waits[OF assms(1)] by blast
  moreover have "focus_runs (r # runs) v = focus_runs runs (focus_effect now ts v)" by (simp add: focus_runs_def r)
  moreover have "focus_settled i (focus_runs runs w)" if "focus_settled i w" for w
    using that unfolding focus_runs_def
    by (induction runs arbitrary: w) (auto simp: focus_step_settled split: prod.split)
  ultimately show ?case using Cons.IH[of "focus_effect now ts v"] by (auto simp: r)
qed

text \<open>C36: A deep link from the inbox settles. Starting from the first run of the effect at time
  \<open>t0\<close>, through any further runs, either the link has been answered (the session is selected
  and attached live, or a notice says it is gone, and the request is acknowledged), or the
  session is in none of the lists seen, no run came as late as two seconds after \<open>t0\<close>, and a
  timer is armed for that instant; when it fires the link is given up with a notice. Runs
  in between do not push the deadline back.\<close>

theorem focus_link_settles:
  assumes "i \<noteq> []" and "tv_focusSessionId v = Some i" and "tv_focusWait v = None"
    and "v' = focus_runs ((t0, ts0) # runs) v"
  shows "focus_settled i v' \<or>
    tv_focusTimer v' = Some (i, t0 + 2000) \<and> focus_settled i (focus_timeout v') \<and>
    list_all (\<lambda>(now, ts). i \<notin> tm_id ` set ts) ((t0, ts0) # runs) \<and> list_all (\<lambda>(now, ts). now < t0 + 2000) runs"
proof -
  let ?w = "focus_effect t0 ts0 v"
  have v': "v' = focus_runs runs ?w" by (simp add: assms(4) focus_runs_def)
  have first: "focus_settled i ?w \<or> focus_waits i (t0 + 2000) ?w \<and> i \<notin> tm_id ` set ts0"
    using focus_first[OF assms(1-3), of t0 ts0] by (simp add: FOCUS_WAIT_MS_def)
  then have "focus_settled i ?w \<or> focus_waits i (t0 + 2000) ?w" by blast
  from focus_runs_waits[OF assms(1) this, of runs] show ?thesis
  proof
    assume "focus_waits i (t0 + 2000) (focus_runs runs ?w) \<and>
      list_all (\<lambda>(now, ts). now < t0 + 2000 \<and> i \<notin> tm_id ` set ts) runs"
    then show ?thesis
    proof (cases "focus_settled i ?w")
      case True
      then have "focus_settled i (focus_runs runs ?w)"
        unfolding focus_runs_def by (induction runs arbitrary: v rule: rev_induct) (auto simp: focus_step_settled split: prod.split)
      then show ?thesis by (simp add: v')
    next
      case False
      with first have "i \<notin> tm_id ` set ts0" by blast
      moreover assume w: "focus_waits i (t0 + 2000) (focus_runs runs ?w) \<and>
        list_all (\<lambda>(now, ts). now < t0 + 2000 \<and> i \<notin> tm_id ` set ts) runs"
      moreover have "focus_settled i (focus_timeout v')"
        using w by (auto simp: v' focus_waits_def focus_timeout_def focus_settled_def giveUp_def)
      ultimately show ?thesis by (auto simp: v' focus_waits_def list_all_iff)
    qed
  qed (simp add: v')
qed

text \<open>Two runs without the session, then the list with it.\<close>

definition sample_terminal :: "string \<Rightarrow> int \<Rightarrow> terminal_session_meta" where
  "sample_terminal i order = \<lparr>tm_id = i, tm_label = None, tm_command = ''bash'', tm_args = [], tm_cwd = ''/'',
     tm_cols = 120, tm_rows = 32, tm_started_at = ''2026-07-14T10:00:00Z'', tm_ended_at = None,
     tm_exit_code = None, tm_status = TS_running, tm_group_name = None, tm_sort_order = order,
     tm_created_by = None, tm_replay_acl = None, tm_pinned = False\<rparr>"

theorem focus_link_settles_witness:
  "focus_settled ''t1'' (focus_timeout (focus_runs [(0, []), (1500, [])] (mount_terminals True False (Some ''t1''))))"
proof -
  let ?v = "mount_terminals True False (Some ''t1'')"
  have "tv_focusSessionId ?v = Some ''t1''" "tv_focusWait ?v = None" by (simp_all add: mount_terminals_def tell_def)
  moreover have "tv_focusSessionId (focus_runs [(0, []), (1500, [])] ?v) = Some ''t1''"
    by (simp add: focus_runs_def focus_effect_def mount_terminals_def tell_def truthy_def FOCUS_WAIT_MS_def Let_def)
  ultimately show ?thesis
    using focus_link_settles[OF _ _ _ HOL.refl, of "''t1''" ?v 0 "[]" "[(1500, [])]"] by (simp add: focus_settled_def)
qed

section \<open>Counts, sections and groups\<close>

lemma pending_fold:
  "map_of (fold (\<lambda>r m. case dr_terminal_session_id r of
       Some t \<Rightarrow> (if t \<noteq> [] then AList.update t (case map_of m t of Some n \<Rightarrow> n + 1 | None \<Rightarrow> 1) m else m)
     | None \<Rightarrow> m) que m) t =
   (let n = length (filter (\<lambda>r. dr_terminal_session_id r = Some t) que) in
    if t = [] \<or> n = 0 then map_of m t else Some ((case map_of m t of Some k \<Rightarrow> k | None \<Rightarrow> 0) + n))"
  by (induction que arbitrary: m)
    (auto simp: Let_def jmap.get_set split: option.splits if_splits)

lemma pending_count:
  "t \<noteq> [] \<Longrightarrow> (case map_of (pendingByTerminal que) t of Some n \<Rightarrow> n | None \<Rightarrow> 0) =
     length (filter (\<lambda>r. dr_terminal_session_id r = Some t) que)"
  unfolding pendingByTerminal_def pending_fold by (simp add: Let_def)

lemma partition_fold:
  "fold place ts s = \<lparr>se_active = se_active s @ filter (\<lambda>t. tm_status t = TS_running) ts,
     se_orphaned = se_orphaned s @ filter (\<lambda>t. tm_status t = TS_orphaned) ts,
     se_archived = se_archived s @ filter (\<lambda>t. tm_status t \<in> {TS_exited, TS_killed}) ts\<rparr>"
proof (induction ts arbitrary: s)
  case (Cons t ts)
  then show ?case by (cases "tm_status t") (simp_all add: place_def)
qed simp

lemma partition_exact:
  "partition_sections ts = \<lparr>se_active = filter (\<lambda>t. tm_status t = TS_running) ts,
     se_orphaned = filter (\<lambda>t. tm_status t = TS_orphaned) ts,
     se_archived = filter (\<lambda>t. tm_status t \<in> {TS_exited, TS_killed}) ts\<rparr>"
  by (simp add: partition_sections_def partition_fold)

text \<open>The comparators are preorders whenever the collation is.\<close>

lemma js_order_session:
  assumes "js_order lc UNIV"
  shows "js_order (cmp_session lc) UNIV"
proof -
  have total: "0 < lc a b \<Longrightarrow> lc b a < 0" for a b using js_order.cmp_total[OF assms] by simp
  have trans: "lc a b \<le> 0 \<Longrightarrow> lc b c \<le> 0 \<Longrightarrow> lc a c \<le> 0" for a b c
    using js_order.cmp_trans[OF assms, of a b c] by simp
  show ?thesis
  proof
    fix x y assume "0 < cmp_session lc x y"
    then show "cmp_session lc y x < 0" by (auto simp: cmp_session_def Let_def total split: if_splits)
  next
    fix x y z assume "cmp_session lc x y \<le> 0" "cmp_session lc y z \<le> 0"
    then show "cmp_session lc x z \<le> 0"
      by (auto simp: cmp_session_def Let_def split: if_splits intro: trans)
  qed
qed

lemma wf_seed: "jmap_wf (seed_groups pg)"
proof -
  have "jmap_wf m \<Longrightarrow> jmap_wf (fold (\<lambda>g. AList.update g []) pg m)" for m :: "(string, terminal_session_meta list) jmap"
    by (induction pg arbitrary: m) (auto simp: jmap.wf_set)
  then show ?thesis by (simp add: seed_groups_def jmap_wf_def)
qed

lemma seed_entries: "map_of (seed_groups pg) k = (if k \<in> insert UNGROUPED_KEY (set pg) then Some [] else None)"
proof -
  have "map_of (fold (\<lambda>g. AList.update g []) pg m) k = (if k \<in> set pg then Some [] else map_of m k)"
    for m :: "(string, terminal_session_meta list) jmap"
    by (induction pg arbitrary: m) (auto simp: jmap.get_set)
  then show ?thesis by (simp add: seed_groups_def)
qed

lemma fill_entries:
  "map_of (fill_groups active (seed_groups pg)) k =
     (if k \<in> group_of ` set active \<or> k \<in> insert UNGROUPED_KEY (set pg)
      then Some (filter (\<lambda>t. group_of t = k) active) else None)"
  unfolding fill_groups_def map_of_group_fold by (auto simp: seed_entries)

lemma wf_fill: "jmap_wf (fill_groups active (seed_groups pg))"
proof -
  have "jmap_wf m \<Longrightarrow> jmap_wf (fold (\<lambda>t. bucket_push (group_of t) t) active m)" for m
    by (induction active arbitrary: m) (auto simp: jmap_wf_bucket_push)
  then show ?thesis by (simp add: fill_groups_def wf_seed)
qed

lemma fill_mset: "mset (concat (map snd (fill_groups active (seed_groups pg)))) = mset active"
proof -
  have "v = []" if "(k, v) \<in> set (seed_groups pg)" for k v
    using that wf_seed[of pg] seed_entries[of pg k] by (auto simp: jmap_wf_def split: if_splits)
  then have "concat (map snd (seed_groups pg)) = []" by auto
  then show ?thesis using mset_group_fold[OF wf_seed, of group_of active pg] by (simp add: fill_groups_def)
qed

lemma mset_concat_cong: "mset xs = mset ys \<Longrightarrow> mset (concat (map f xs)) = mset (concat (map f ys))"
  by (metis mset_concat mset_map sum_mset_sum_list)

lemma activeGroups_entries:
  "set (activeGroups lc active pg) = {(k, b). (k \<in> group_of ` set active \<or> k \<in> set pg \<or> k = UNGROUPED_KEY) \<and>
     b = js_sort (cmp_session lc) (filter (\<lambda>t. group_of t = k) active) \<and>
     (b \<noteq> [] \<or> k \<noteq> UNGROUPED_KEY \<or> length (fill_groups active (seed_groups pg)) = 1)}"
proof -
  have mem: "x \<in> set (fill_groups active (seed_groups pg)) \<longleftrightarrow>
      (fst x \<in> group_of ` set active \<or> fst x \<in> set pg \<or> fst x = UNGROUPED_KEY) \<and>
      snd x = filter (\<lambda>t. group_of t = fst x) active" for x
  proof -
    have "x \<in> set (fill_groups active (seed_groups pg)) \<longleftrightarrow> map_of (fill_groups active (seed_groups pg)) (fst x) = Some (snd x)"
      using wf_fill[of active pg] by (simp add: jmap_wf_def)
    then show ?thesis unfolding fill_entries by auto
  qed
  have img: "(k, b) \<in> (\<lambda>(k, ts). (k, js_sort (cmp_session lc) ts)) ` set (fill_groups active (seed_groups pg)) \<longleftrightarrow>
      (k \<in> group_of ` set active \<or> k \<in> set pg \<or> k = UNGROUPED_KEY) \<and>
      b = js_sort (cmp_session lc) (filter (\<lambda>t. group_of t = k) active)" for k b
  proof -
    have "(k, b) \<in> (\<lambda>(k, ts). (k, js_sort (cmp_session lc) ts)) ` set (fill_groups active (seed_groups pg)) \<longleftrightarrow>
        (\<exists>v. (k, v) \<in> set (fill_groups active (seed_groups pg)) \<and> b = js_sort (cmp_session lc) v)" by force
    then show ?thesis by (simp add: mem)
  qed
  show ?thesis
    unfolding activeGroups_def Let_def set_js_sort set_filter set_map length_map
    by (rule set_eqI, rename_tac x, case_tac x) (simp only: mem_Collect_eq img prod.case length_greater_0_conv conj_assoc)
qed

lemma activeGroups_mset: "mset (concat (map snd (activeGroups lc active pg))) = mset active"
proof -
  let ?fill = "fill_groups active (seed_groups pg)"
  let ?groups = "map (\<lambda>(k, ts). (k, js_sort (cmp_session lc) ts)) ?fill"
  let ?kept = "filter (\<lambda>(k, v). length v > 0 \<or> k \<noteq> UNGROUPED_KEY \<or> length ?groups = 1) ?groups"
  have drop: "concat (map snd (filter (\<lambda>(k, v). length v > 0 \<or> P k) gs)) = concat (map snd gs)"
    for P and gs :: "(string \<times> terminal_session_meta list) list"
    by (induction gs) auto
  have "mset (concat (map snd (activeGroups lc active pg))) = mset (concat (map snd ?kept))"
    by (rule mset_concat_cong) (simp add: activeGroups_def Let_def)
  also have "concat (map snd ?kept) = concat (map snd ?groups)" by (rule drop)
  also have "mset (concat (map snd ?groups)) = mset (concat (map snd ?fill))"
    by (induction ?fill) (auto simp: mset_concat comp_def case_prod_unfold)
  finally show ?thesis by (simp add: fill_mset)
qed

lemma activeGroups_keys: "distinct (map fst (activeGroups lc active pg))"
proof -
  have "distinct (map fst (fill_groups active (seed_groups pg)))"
    using wf_fill[of active pg] by (simp add: jmap_wf_def)
  moreover have "map fst (map (\<lambda>(k, ts). (k, js_sort (cmp_session lc) ts)) m) = map fst m"
    for m :: "(string \<times> terminal_session_meta list) list" by (simp add: comp_def case_prod_unfold)
  ultimately show ?thesis
    unfolding activeGroups_def Let_def distinct_map_js_sort by (intro distinct_map_filter) (simp only:)
qed

text \<open>The sidebar loses no session and shows none twice. Every session is in exactly one of the
  active, orphaned and archived sections; the groups hold each active session once, under
  the name of its group, in ascending sort order; no group is listed twice, and a group the
  user has just created is listed while it is still empty. The badge of a session counts
  the pending decisions that name it, and the dock's two counts add up to the queue.\<close>

theorem sidebar_exact:
  assumes "js_order lc UNIV"
  shows "mset (se_active (partition_sections ts) @ se_orphaned (partition_sections ts) @ se_archived (partition_sections ts)) = mset ts \<and>
    mset (concat (map snd (activeGroups lc active pg))) = mset active \<and>
    distinct (map fst (activeGroups lc active pg)) \<and>
    ((g, b) \<in> set (activeGroups lc active pg) \<longrightarrow>
       sorted (map tm_sort_order b) \<and> (t \<in> set b \<longrightarrow> group_of t = g)) \<and>
    (h \<in> set pg \<and> h \<noteq> UNGROUPED_KEY \<longrightarrow> h \<in> fst ` set (activeGroups lc active pg)) \<and>
    (i \<noteq> [] \<longrightarrow> (case map_of (pendingByTerminal que) i of Some n \<Rightarrow> n | None \<Rightarrow> 0) =
       length (filter (\<lambda>r. dr_terminal_session_id r = Some i) que)) \<and>
    length (terminalPending sel que) + otherPendingCount sel que = length que"
proof (intro conjI impI)
  have "mset ts = filter_mset (\<lambda>t. tm_status t = TS_running) (mset ts) +
      filter_mset (\<lambda>t. tm_status t = TS_orphaned) (mset ts) + filter_mset (\<lambda>t. tm_status t \<in> {TS_exited, TS_killed}) (mset ts)"
  proof (induction ts)
    case (Cons t ts)
    then show ?case by (cases "tm_status t") (auto simp: union_assoc)
  qed simp
  then show "mset (se_active (partition_sections ts) @ se_orphaned (partition_sections ts) @ se_archived (partition_sections ts)) = mset ts"
    by (simp add: partition_exact union_assoc)
  show "mset (concat (map snd (activeGroups lc active pg))) = mset active" by (rule activeGroups_mset)
  show "distinct (map fst (activeGroups lc active pg))" by (rule activeGroups_keys)
  {
    assume "(g, b) \<in> set (activeGroups lc active pg)"
    then have b: "b = js_sort (cmp_session lc) (filter (\<lambda>t. group_of t = g) active)"
      by (auto simp: activeGroups_entries)
    have "sorted_wrt (\<lambda>x y. cmp_session lc x y \<le> 0) b"
      unfolding b by (rule js_order.js_sort_sorted[OF js_order_session[OF assms]]) simp
    then show "sorted (map tm_sort_order b)"
      unfolding sorted_map by (rule sorted_wrt_mono_rel[rotated]) (auto simp: cmp_session_def Let_def split: if_splits)
    show "group_of t = g" if "t \<in> set b" using that by (simp add: b)
  }
  show "h \<in> fst ` set (activeGroups lc active pg)" if "h \<in> set pg \<and> h \<noteq> UNGROUPED_KEY"
    using that by (force simp: activeGroups_entries)
  show "(case map_of (pendingByTerminal que) i of Some n \<Rightarrow> n | None \<Rightarrow> 0) =
       length (filter (\<lambda>r. dr_terminal_session_id r = Some i) que)" if "i \<noteq> []"
    using that by (rule pending_count)
  have "length (terminalPending sel que) \<le> length que"
    by (auto simp: terminalPending_def split: option.split)
  then show "length (terminalPending sel que) + otherPendingCount sel que = length que"
    by (simp add: otherPendingCount_def)
qed

theorem sidebar_exact_witness:
  "js_order (\<lambda>a b. 0) UNIV \<and>
   mset (concat (map snd (activeGroups (\<lambda>a b. 0) [sample_terminal ''t1'' 5, sample_terminal ''t2'' 3] [''build'']))) =
     mset [sample_terminal ''t1'' 5, sample_terminal ''t2'' 3]"
proof -
  have "js_order (\<lambda>a b. 0) UNIV" by unfold_locales simp_all
  with sidebar_exact[OF this, where active = "[sample_terminal ''t1'' 5, sample_terminal ''t2'' 3]" and pg = "[''build'']"]
  show ?thesis by blast
qed

section \<open>Reordering\<close>

abbreviation orders :: "terminal_session_meta list \<Rightarrow> int list" where
  "orders ts \<equiv> map tm_sort_order ts"

lemma js_plus_exact: "\<bar>a + b\<bar> \<le> 2 ^ 53 \<Longrightarrow> js_plus a b = a + b"
  by (simp add: js_plus_def)

text \<open>The other sessions of the bucket and the place among them a drop index means.\<close>

definition others :: "terminal_session_meta list \<Rightarrow> string \<Rightarrow> terminal_session_meta list" where
  "others bucket i = filter (\<lambda>t. tm_id t \<noteq> i) bucket"

definition drop_place :: "terminal_session_meta list \<Rightarrow> string \<Rightarrow> nat \<Rightarrow> nat" where
  "drop_place bucket i idx = min idx (length (others bucket i))"

lemma computeSortOrder_at:
  assumes "drop_place bucket i idx = c"
  shows "computeSortOrder bucket i idx =
    (let o_at = (\<lambda>k. tm_sort_order (others bucket i ! k)) in
     if 0 < c then if c < length (others bucket i) then js_plus (o_at (c - 1)) (o_at c) div 2
                   else js_plus (o_at (c - 1)) SORT_GAP
     else if c < length (others bucket i) then js_plus (o_at c) (- SORT_GAP) else 0)"
  unfolding computeSortOrder_def others_def[symmetric] Let_def assms[unfolded drop_place_def] by simp

lemma midpoint: "2 \<le> b - a \<Longrightarrow> a < (a + b) div 2 \<and> (a + b) div 2 < (b :: int)"
  by auto

lemma order_bounds:
  assumes "list_all (\<lambda>t. \<bar>tm_sort_order t\<bar> \<le> 2 ^ 52) (others bucket i)"
    and "sorted_wrt (<) (orders (others bucket i))"
    and "drop_place bucket i idx = c" and "n = computeSortOrder bucket i idx"
    and "0 < c \<Longrightarrow> c < length (others bucket i) \<Longrightarrow>
         tm_sort_order (others bucket i ! c) - tm_sort_order (others bucket i ! (c - 1)) \<ge> 2"
  shows "0 < c \<Longrightarrow> tm_sort_order (others bucket i ! (c - 1)) < n"
    and "c < length (others bucket i) \<Longrightarrow> n < tm_sort_order (others bucket i ! c)"
proof -
  let ?o = "\<lambda>k. tm_sort_order (others bucket i ! k)"
  have c: "c \<le> length (others bucket i)" using assms(3) by (auto simp: drop_place_def)
  have small: "\<bar>?o k\<bar> \<le> 2 ^ 52" if "k < length (others bucket i)" for k
    using assms(1) that by (simp add: list_all_length)
  have n: "n = (if 0 < c then if c < length (others bucket i) then js_plus (?o (c - 1)) (?o c) div 2
                     else js_plus (?o (c - 1)) SORT_GAP
                else if c < length (others bucket i) then js_plus (?o c) (- SORT_GAP) else 0)"
    unfolding assms(4) computeSortOrder_at[OF assms(3)] Let_def ..
  have mid: "js_plus (?o (c - 1)) (?o c) = ?o (c - 1) + ?o c" if "0 < c" "c < length (others bucket i)"
  proof (rule js_plus_exact)
    have "c - 1 < length (others bucket i)" using that by simp
    from small[OF this] small[OF that(2)] show "\<bar>?o (c - 1) + ?o c\<bar> \<le> 2 ^ 53" by simp
  qed
  have up: "js_plus (?o (c - 1)) SORT_GAP = ?o (c - 1) + SORT_GAP" if "0 < c"
  proof (rule js_plus_exact)
    have "c - 1 < length (others bucket i)" using that c by linarith
    from small[OF this] show "\<bar>?o (c - 1) + SORT_GAP\<bar> \<le> 2 ^ 53" by (simp add: SORT_GAP_def)
  qed
  have down: "js_plus (?o c) (- SORT_GAP) = ?o c - SORT_GAP" if "c < length (others bucket i)"
    using small[of c] that by (subst js_plus_exact) (auto simp: SORT_GAP_def)
  show "?o (c - 1) < n" if "0 < c"
    using n mid up that midpoint[OF assms(5)] by (cases "c < length (others bucket i)") (auto simp: SORT_GAP_def)
  show "n < ?o c" if "c < length (others bucket i)"
    using n mid down that midpoint[OF assms(5)] by (cases "0 < c") (auto simp: SORT_GAP_def)
qed

lemma sorted_insert_at:
  assumes "sorted_wrt (<) (orders xs)" "c \<le> length xs"
    and "0 < c \<Longrightarrow> tm_sort_order (xs ! (c - 1)) < tm_sort_order t"
    and "c < length xs \<Longrightarrow> tm_sort_order t < tm_sort_order (xs ! c)"
  shows "sorted_wrt (<) (orders (take c xs @ t # drop c xs))"
proof -
  have "tm_sort_order (xs ! k) < tm_sort_order t" if "k < c" for k
  proof -
    have "tm_sort_order (xs ! k) \<le> tm_sort_order (xs ! (c - 1))"
    proof (cases "k = c - 1")
      case False
      with that assms(2) have "k < c - 1" "c - 1 < length xs" by linarith+
      with sorted_wrt_nth_less[OF assms(1), of k "c - 1"] show ?thesis by simp
    qed simp
    with assms(3) that show ?thesis by linarith
  qed
  then have lo: "x \<in> set (take c xs) \<Longrightarrow> tm_sort_order x < tm_sort_order t" for x
    by (auto simp: in_set_conv_nth)
  have "tm_sort_order t < tm_sort_order (xs ! k)" if "c \<le> k" "k < length xs" for k
  proof -
    have "tm_sort_order (xs ! c) \<le> tm_sort_order (xs ! k)"
      using assms(1) that sorted_wrt_nth_less[of "(<)" "orders xs" c k] by (cases "k = c") auto
    with assms(4) that show ?thesis by linarith
  qed
  then have hi: "x \<in> set (drop c xs) \<Longrightarrow> tm_sort_order t < tm_sort_order x" for x
    by (auto simp: in_set_conv_nth)
  have parts: "sorted_wrt (<) (orders (take c xs))" "sorted_wrt (<) (orders (drop c xs))"
    "\<And>x y. x \<in> set (take c xs) \<Longrightarrow> y \<in> set (drop c xs) \<Longrightarrow> tm_sort_order x < tm_sort_order y"
    using assms(1) sorted_wrt_append[of "(<)" "orders (take c xs)" "orders (drop c xs)"]
    by (auto simp flip: map_append)
  with lo hi show ?thesis by (auto simp: sorted_wrt_append intro: less_trans)
qed

lemma js_sort_unique:
  assumes "js_order lc UNIV" "mset ts = mset xs" "sorted_wrt (<) (orders xs)"
  shows "js_sort (cmp_session lc) ts = xs"
proof -
  let ?s = "js_sort (cmp_session lc) ts"
  have "sorted_wrt (\<lambda>x y. cmp_session lc x y \<le> 0) ?s"
    by (rule js_order.js_sort_sorted[OF js_order_session[OF assms(1)]]) simp
  then have "sorted (orders ?s)"
    unfolding sorted_map by (rule sorted_wrt_mono_rel[rotated]) (auto simp: cmp_session_def Let_def split: if_splits)
  moreover have "sorted (orders xs)" using assms(3) by (rule strict_sorted_imp_sorted)
  moreover have m: "mset ?s = mset xs" using assms(2) by simp
  ultimately have "orders ?s = orders xs" by (metis mset_map properties_for_sort)
  moreover have "inj_on tm_sort_order (set xs)"
    using assms(3) by (auto simp: strict_sorted_iff distinct_map)
  moreover have "set ?s = set xs" using m by (rule mset_eq_setD)
  ultimately show ?thesis by (metis map_inj_on Un_absorb)
qed

text \<open>A reordered session lands where the drop index says. When the other sessions of the
  group have distinct sort orders and the two neighbours of the drop position leave room
  for a number between them, the new sort order puts the session, after the daemon has
  stored it and in whatever order the list then arrives, at exactly that position and keeps
  the order of the others. Without room, the new order equals the one of the session
  before.\<close>

theorem reorder_lands:
  assumes "js_order lc UNIV" and "sorted_wrt (<) (orders (others bucket i))"
    and "list_all (\<lambda>t. \<bar>tm_sort_order t\<bar> \<le> 2 ^ 52) (others bucket i)"
    and "drop_place bucket i idx = c"
    and "t' = t\<lparr>tm_sort_order := computeSortOrder bucket i idx\<rparr>"
    and "mset ts = add_mset t' (mset (others bucket i))"
  shows "if 0 < c \<and> c < length (others bucket i) \<and>
           tm_sort_order (others bucket i ! c) - tm_sort_order (others bucket i ! (c - 1)) = 1
         then tm_sort_order t' = tm_sort_order (others bucket i ! (c - 1))
         else js_sort (cmp_session lc) ts = take c (others bucket i) @ t' # drop c (others bucket i)"
proof (cases "0 < c \<and> c < length (others bucket i) \<and>
           tm_sort_order (others bucket i ! c) - tm_sort_order (others bucket i ! (c - 1)) = 1")
  case True
  let ?b = "tm_sort_order (others bucket i ! (c - 1))" and ?a = "tm_sort_order (others bucket i ! c)"
  have "c \<le> length (others bucket i)" using True by simp
  have "\<bar>?b\<bar> \<le> 2 ^ 52" "\<bar>?a\<bar> \<le> 2 ^ 52"
    using assms(3) True by (auto simp: list_all_length)
  then have "js_plus ?b ?a = ?b + ?a" by (intro js_plus_exact) auto
  moreover have "?b + ?a = 2 * ?b + 1" using True by simp
  moreover have "computeSortOrder bucket i idx = js_plus ?b ?a div 2"
    using True by (simp add: computeSortOrder_at[OF assms(4)])
  ultimately show ?thesis using True by (simp add: assms(5))
next
  case False
  have c: "c \<le> length (others bucket i)" using assms(4) by (auto simp: drop_place_def)
  have room: "tm_sort_order (others bucket i ! c) - tm_sort_order (others bucket i ! (c - 1)) \<ge> 2"
    if "0 < c" "c < length (others bucket i)"
    using False that assms(2) sorted_wrt_nth_less[of "(<)" "orders (others bucket i)" "c - 1" c] by auto
  note bounds = order_bounds[OF assms(3,2,4) HOL.refl room]
  have "sorted_wrt (<) (orders (take c (others bucket i) @ t' # drop c (others bucket i)))"
    using bounds by (intro sorted_insert_at[OF assms(2) c]) (simp_all add: assms(5))
  moreover have "mset ts = mset (take c (others bucket i) @ t' # drop c (others bucket i))"
    unfolding assms(6) by (metis append_take_drop_id mset_append mset.simps(2) union_mset_add_mset_right)
  ultimately show ?thesis using False js_sort_unique[OF assms(1)] by auto
qed

text \<open>Three sessions; the first is dragged to index 1, between the other two.\<close>

definition sample_bucket :: "terminal_session_meta list" where
  "sample_bucket = [sample_terminal ''a'' 0, sample_terminal ''b'' 10, sample_terminal ''c'' 20]"

theorem reorder_lands_witness:
  "computeSortOrder sample_bucket ''a'' 1 = 15 \<and>
   js_sort (cmp_session (\<lambda>a b. 0)) [sample_terminal ''a'' 15, sample_terminal ''b'' 10, sample_terminal ''c'' 20] =
     [sample_terminal ''b'' 10, sample_terminal ''a'' 15, sample_terminal ''c'' 20]"
proof -
  have lc: "js_order (\<lambda>a b. 0) UNIV" by unfold_locales simp_all
  have o: "others sample_bucket ''a'' = [sample_terminal ''b'' 10, sample_terminal ''c'' 20]"
    by (simp add: others_def sample_bucket_def sample_terminal_def)
  have p: "drop_place sample_bucket ''a'' 1 = 1" by (simp add: drop_place_def o)
  have n: "computeSortOrder sample_bucket ''a'' 1 = 15"
    unfolding computeSortOrder_at[OF p] o by (simp add: sample_terminal_def js_plus_def)
  have t: "sample_terminal ''a'' 15 = (sample_terminal ''a'' 0)\<lparr>tm_sort_order := computeSortOrder sample_bucket ''a'' 1\<rparr>"
    unfolding n by (simp add: sample_terminal_def)
  have order: "tm_sort_order (sample_terminal x k) = k" for x k by (simp add: sample_terminal_def)
  show ?thesis
    using reorder_lands[OF lc _ _ p t, of "[sample_terminal ''a'' 15, sample_terminal ''b'' 10, sample_terminal ''c'' 20]", unfolded o] n
    by (simp add: order del: js_sort_simps)
qed

text \<open>Where inside a group the user drops a session makes no difference. A drag over an item
  records the item's index, but the same event bubbles to the group, which overwrites it
  with the end of the group: whichever item the session was dropped on, it is sent the sort order
  of the last place.\<close>

theorem drop_position_ignored:
  assumes "tv_drag v = Some d" and "map_of groups g = Some bucket"
  shows "\<exists>pre. tv_out (handleDrop groups g (dragover_item g bucket idx v)) =
      pre @ [Ev_command (Do_termReorder (dg_id d) (computeSortOrder bucket (dg_id d) (length bucket)))] \<and>
    handleDrop groups g (dragover_item g bucket idx v) = handleDrop groups g (dragover_item g bucket jdx v) \<and>
    drop_place bucket (dg_id d) (length bucket) = length (others bucket (dg_id d))"
  using assms
  by (auto simp: dragover_item_def handleDragOverItem_def handleDragOverGroupEnd_def handleDrop_def Let_def
      tell_def drop_place_def others_def min_def dest: order_antisym[OF length_filter_le])

text \<open>The session \<open>a\<close> dropped on \<open>b\<close> is sent behind \<open>c\<close>.\<close>

definition dragging :: terminals_view where
  "dragging = handleDragStart (sample_terminal ''a'' 0) (mount_terminals True False None)"

theorem drop_position_ignored_witness:
  "last (tv_out (handleDrop [(UNGROUPED_KEY, sample_bucket)] UNGROUPED_KEY (dragover_item UNGROUPED_KEY sample_bucket 1 dragging))) =
     Ev_command (Do_termReorder ''a'' 1000020)"
proof -
  have d: "tv_drag dragging = Some \<lparr>dg_id = ''a'', dg_fromGroup = None\<rparr>"
    by (simp add: dragging_def handleDragStart_def sample_terminal_def)
  have o: "others sample_bucket ''a'' = [sample_terminal ''b'' 10, sample_terminal ''c'' 20]"
    by (simp add: others_def sample_bucket_def sample_terminal_def)
  have p: "drop_place sample_bucket ''a'' (length sample_bucket) = 2"
    unfolding drop_place_def o by (simp add: sample_bucket_def)
  have "computeSortOrder sample_bucket ''a'' (length sample_bucket) = 1000020"
    unfolding computeSortOrder_at[OF p] o by (simp add: js_plus_def SORT_GAP_def sample_terminal_def)
  with drop_position_ignored[OF d, of "[(UNGROUPED_KEY, sample_bucket)]" UNGROUPED_KEY sample_bucket 1 1]
  show ?thesis by auto
qed

end
