(* ===== verification/Terminal_Pane.thy ===== *)
theory Terminal_Pane
  imports Wisphive_Connection
begin

text \<open>
  The pane of one terminal, \<open>components/TerminalView.tsx\<close>: what reaches the emulator, what is
  forwarded to the daemon, and the touch gesture that scrolls the history. The emulator
  (xterm) is third-party code: its calls are recorded, and the line it ends at when asked to
  scroll is an argument.
\<close>

section \<open>Output, input and size\<close>

datatype xterm_call = Xt_reset | Xt_write "nat list"

record pane =
  pn_session :: string
  pn_replay :: bool
  pn_calls :: "xterm_call list"
  pn_commands :: "user_command list"

definition pane_tell :: "user_command \<Rightarrow> pane \<Rightarrow> pane" where
  "pane_tell c p = p\<lparr>pn_commands := pn_commands p @ [c]\<rparr>"

text \<open>The handler given to \<open>registerHandler\<close>.\<close>

definition pane_output :: "term_channel \<Rightarrow> nat list \<Rightarrow> pane \<Rightarrow> pane" where
  "pane_output direction bytes p =
     p\<lparr>pn_calls := pn_calls p @ (if direction = Ch_catchup then [Xt_reset] else []) @ [Xt_write bytes]\<rparr>"

text \<open>
  \<open>syncFit\<close> and the resize observer: \<open>fit\<close> is the fitted size, \<open>None\<close> when the add-on throws.
\<close>

definition pane_fit :: "(int \<times> int) option \<Rightarrow> pane \<Rightarrow> pane" where
  "pane_fit fit p = (case fit of
       Some (cols, rows) \<Rightarrow> if pn_replay p then p else pane_tell (Do_termResize (pn_session p) cols rows) p
     | None \<Rightarrow> p)"

definition pane_data :: "bool \<Rightarrow> string \<Rightarrow> pane \<Rightarrow> pane" where
  "pane_data native data p = (if pn_replay p then p else pane_tell (Do_termInput native (pn_session p) data) p)"

datatype pane_event = Pe_output term_channel "nat list" | Pe_fit "(int \<times> int) option" | Pe_data bool string

fun pane_step :: "pane_event \<Rightarrow> pane \<Rightarrow> pane" where
  "pane_step (Pe_output dir bytes) p = pane_output dir bytes p"
| "pane_step (Pe_fit fit) p = pane_fit fit p"
| "pane_step (Pe_data native data) p = pane_data native data p"

definition mount_pane :: "string \<Rightarrow> bool \<Rightarrow> (int \<times> int) option \<Rightarrow> pane" where
  "mount_pane i replayMode fit =
     pane_fit fit \<lparr>pn_session = i, pn_replay = replayMode, pn_calls = [], pn_commands = []\<rparr>"

text \<open>What the emulator has been given since it was last reset.\<close>

fun on_screen :: "xterm_call list \<Rightarrow> nat list \<Rightarrow> nat list" where
  "on_screen [] acc = acc"
| "on_screen (Xt_reset # cs) acc = on_screen cs []"
| "on_screen (Xt_write bytes # cs) acc = on_screen cs (acc @ bytes)"

section \<open>Touch scrolling\<close>

definition SCROLL_LOCK_PX :: rat where "SCROLL_LOCK_PX = 6"

record touch_state =
  to_activeTouchId :: "int option"
  to_startY :: rat
  to_anchorTop :: int
  to_scrolling :: bool
  to_appliedOffset :: int
  to_viewportY :: int

type_synonym touches = "(int \<times> rat) list"

definition math_round :: "rat \<Rightarrow> int" where
  "math_round x = \<lfloor>x + 1 / 2\<rfloor>"

definition onTouchStart :: "touches \<Rightarrow> touch_state \<Rightarrow> touch_state" where
  "onTouchStart ts s = (case ts of
       [(i, y)] \<Rightarrow> s\<lparr>to_activeTouchId := Some i, to_startY := y, to_anchorTop := to_viewportY s,
                     to_scrolling := False, to_appliedOffset := 0\<rparr>
     | _ \<Rightarrow> s)"

definition offset_rows :: "rat \<Rightarrow> rat \<Rightarrow> rat \<Rightarrow> int" where
  "offset_rows height rows dy = math_round (- dy / (height / rows))"

text \<open>
  \<open>scroll\<close> is where the emulator's viewport is after \<open>scrollToLine\<close>; the second component says
  whether the event was kept from the browser.
\<close>

definition onTouchMove :: "(int \<Rightarrow> int) \<Rightarrow> rat \<Rightarrow> rat \<Rightarrow> touches \<Rightarrow> touch_state \<Rightarrow> touch_state \<times> bool" where
  "onTouchMove scroll height rows ts s = (case to_activeTouchId s of
       None \<Rightarrow> (s, False)
     | Some i \<Rightarrow> (case map_of ts i of
         None \<Rightarrow> (s, False)
       | Some y \<Rightarrow>
           (if height = 0 then (s, False)
            else
              let dy = y - to_startY s in
              if \<not> to_scrolling s \<and> \<bar>dy\<bar> < SCROLL_LOCK_PX then (s, False)
              else
                let off = offset_rows height rows dy in
                if off = to_appliedOffset s then (s, False)
                else (s\<lparr>to_scrolling := True, to_appliedOffset := off,
                        to_viewportY := scroll (to_anchorTop s + off)\<rparr>, True))))"

definition onTouchEnd :: "touches \<Rightarrow> touch_state \<Rightarrow> touch_state" where
  "onTouchEnd ts s = (case to_activeTouchId s of
       None \<Rightarrow> s
     | Some i \<Rightarrow> (if i \<in> fst ` set ts then s
                  else s\<lparr>to_activeTouchId := None, to_scrolling := False, to_appliedOffset := 0\<rparr>))"

text \<open>The moves of one gesture, with whether each was intercepted.\<close>

fun touch_moves :: "(int \<Rightarrow> int) \<Rightarrow> rat \<Rightarrow> rat \<Rightarrow> touches list \<Rightarrow> touch_state \<Rightarrow> touch_state \<times> bool list" where
  "touch_moves scroll height rows [] s = (s, [])"
| "touch_moves scroll height rows (ts # tss) s =
     (let (s1, b) = onTouchMove scroll height rows ts s; (s2, bs) = touch_moves scroll height rows tss s1
      in (s2, b # bs))"

section \<open>Lemmas\<close>

lemma on_screen_append: "on_screen (cs @ ds) acc = on_screen ds (on_screen cs acc)"
  by (induction cs acc rule: on_screen.induct) simp_all

lemma pane_fit_frame [simp]:
  "pn_session (pane_fit fit p) = pn_session p" "pn_replay (pane_fit fit p) = pn_replay p"
  "pn_calls (pane_fit fit p) = pn_calls p" "pn_replay p \<Longrightarrow> pane_fit fit p = p"
  by (auto simp: pane_fit_def pane_tell_def split: option.split)

lemma pane_step_frame:
  "pn_replay (pane_step e p) = pn_replay p" "pn_session (pane_step e p) = pn_session p"
  "pn_replay p \<Longrightarrow> pn_commands (pane_step e p) = pn_commands p"
  by (cases e; simp add: pane_output_def pane_data_def pane_tell_def)+

lemma pane_run_frame:
  "pn_replay (fold pane_step es p) = pn_replay p" "pn_session (fold pane_step es p) = pn_session p"
  "pn_replay p \<Longrightarrow> pn_commands (fold pane_step es p) = pn_commands p"
  by (induction es arbitrary: p) (simp_all add: pane_step_frame)

fun outputs :: "pane_event list \<Rightarrow> (term_channel \<times> nat list) list" where
  "outputs [] = []"
| "outputs (Pe_output dir bytes # es) = (dir, bytes) # outputs es"
| "outputs (_ # es) = outputs es"

fun typed :: "pane_event list \<Rightarrow> string list" where
  "typed [] = []"
| "typed (Pe_data native data # es) = data # typed es"
| "typed (_ # es) = typed es"

definition keys_sent :: "string \<Rightarrow> user_command list \<Rightarrow> string list" where
  "keys_sent i cs = concat (map (\<lambda>c. case c of Do_termInput n j d \<Rightarrow> if j = i then [d] else [] | _ \<Rightarrow> []) cs)"

lemma mount_pane_frame [simp]:
  "pn_session (mount_pane i r fit) = i" "pn_replay (mount_pane i r fit) = r" "pn_calls (mount_pane i r fit) = []"
  "keys_sent j (pn_commands (mount_pane i r fit)) = []" "r \<Longrightarrow> pn_commands (mount_pane i r fit) = []"
  by (auto simp: mount_pane_def pane_fit_def pane_tell_def keys_sent_def split: option.split)

lemma keys_sent_run:
  assumes "\<not> pn_replay p"
  shows "keys_sent (pn_session p) (pn_commands (fold pane_step es p)) =
    keys_sent (pn_session p) (pn_commands p) @ typed es"
proof (induction es rule: rev_induct)
  case (snoc e es)
  have ty: "typed (xs @ [x]) = typed xs @ typed [x]" for xs x by (induction xs rule: typed.induct) simp_all
  from snoc assms show ?case
    by (cases e) (auto simp: pane_output_def pane_data_def pane_fit_def pane_tell_def keys_sent_def pane_run_frame ty[of es]
        split: option.split)
qed simp

text \<open>The bytes from the newest catch-up on; all of them, after \<open>acc\<close>, when there is none.\<close>

definition since_catchup :: "(term_channel \<times> nat list) list \<Rightarrow> nat list \<Rightarrow> nat list" where
  "since_catchup os acc =
     (let tail = rev (takeWhile (\<lambda>(d, _). d \<noteq> Ch_catchup) (rev os));
          rest = rev (dropWhile (\<lambda>(d, _). d \<noteq> Ch_catchup) (rev os))
      in (if rest = [] then acc else snd (last rest)) @ concat (map snd tail))"

lemma outputs_append [simp]: "outputs (xs @ ys) = outputs xs @ outputs ys"
  by (induction xs rule: outputs.induct) simp_all

lemma since_catchup_snoc:
  "since_catchup (os @ [(d, b)]) acc = (if d = Ch_catchup then b else since_catchup os acc @ b)"
  by (simp add: since_catchup_def Let_def)

lemma pane_screen:
  "on_screen (pn_calls (fold pane_step es p)) acc = since_catchup (outputs es) (on_screen (pn_calls p) acc)"
proof (induction es rule: rev_induct)
  case Nil
  show ?case by (simp add: since_catchup_def)
next
  case (snoc e es)
  then show ?case
    by (cases e) (simp_all add: pane_output_def pane_data_def pane_tell_def since_catchup_snoc on_screen_append)
qed

text \<open>What one gesture keeps: the anchor, and a viewport that is the scroll of the applied offset.\<close>

definition tracking :: "(int \<Rightarrow> int) \<Rightarrow> touch_state \<Rightarrow> touch_state \<Rightarrow> bool" where
  "tracking scroll s0 s \<longleftrightarrow> to_activeTouchId s = to_activeTouchId s0 \<and> to_startY s = to_startY s0 \<and>
     to_anchorTop s = to_anchorTop s0 \<and>
     (if to_scrolling s then to_viewportY s = scroll (to_anchorTop s0 + to_appliedOffset s)
      else to_viewportY s = to_viewportY s0 \<and> to_appliedOffset s = 0)"

lemma tracking_move:
  assumes "tracking scroll s0 s" and "to_activeTouchId s0 = Some i" and "map_of ts i = Some y" and "height \<noteq> 0"
    and "onTouchMove scroll height rows ts s = (s', b)"
  shows "tracking scroll s0 s'"
    and "to_scrolling s' \<longleftrightarrow> to_scrolling s \<or>
      (SCROLL_LOCK_PX \<le> \<bar>y - to_startY s0\<bar> \<and> offset_rows height rows (y - to_startY s0) \<noteq> 0)"
    and "to_scrolling s' \<Longrightarrow> to_appliedOffset s' = offset_rows height rows (y - to_startY s0)"
    and "b \<Longrightarrow> to_scrolling s'"
  using assms by (auto simp: tracking_def onTouchMove_def Let_def split: if_splits)

lemma touch_moves_snoc:
  "touch_moves scroll height rows (tss @ [ts]) s =
     (let (s1, bs) = touch_moves scroll height rows tss s; (s2, b) = onTouchMove scroll height rows ts s1
      in (s2, bs @ [b]))"
  by (induction tss arbitrary: s) (simp_all add: Let_def split: prod.splits)

definition begun :: "rat \<Rightarrow> rat \<Rightarrow> rat \<Rightarrow> rat \<Rightarrow> bool" where
  "begun height rows y0 y \<longleftrightarrow> SCROLL_LOCK_PX \<le> \<bar>y - y0\<bar> \<and> offset_rows height rows (y - y0) \<noteq> 0"

lemma tracking_moves:
  assumes "to_activeTouchId s0 = Some i" and "height \<noteq> 0" and "\<not> to_scrolling s0" and "to_appliedOffset s0 = 0"
    and "map (\<lambda>ts. map_of ts i) tss = map Some ys" and "touch_moves scroll height rows tss s0 = (s', bs)"
  shows "tracking scroll s0 s' \<and> (to_scrolling s' \<longleftrightarrow> list_ex (begun height rows (to_startY s0)) ys) \<and>
    (to_scrolling s' \<longrightarrow> to_appliedOffset s' = offset_rows height rows (last ys - to_startY s0)) \<and>
    (list_ex id bs \<longrightarrow> to_scrolling s')"
  using assms(5,6)
proof (induction tss arbitrary: ys s' bs rule: rev_induct)
  case Nil
  then show ?case using assms(3,4) by (simp add: tracking_def)
next
  case (snoc ts tss)
  from snoc.prems(1) obtain y ys1 where ys: "ys = ys1 @ [y]" "map_of ts i = Some y"
    "map (\<lambda>ts. map_of ts i) tss = map Some ys1"
    by (cases ys rule: rev_cases) auto
  obtain s1 bs1 b where run: "touch_moves scroll height rows tss s0 = (s1, bs1)"
    "onTouchMove scroll height rows ts s1 = (s', b)" "bs = bs1 @ [b]"
    using snoc.prems(2) by (auto simp: touch_moves_snoc Let_def split: prod.splits)
  note ih = snoc.IH[OF ys(3) run(1)]
  have "tracking scroll s0 s1" using ih by blast
  note m = tracking_move[OF this assms(1) ys(2) assms(2) run(2)]
  show ?case using ih m by (auto simp: ys(1) run(3) begun_def)
qed

section \<open>Properties\<close>

text \<open>A replay pane is read-only and shows the recording. A pane in replay mode never
  forwards a key or a size to the daemon, whatever happens on the page; a live pane forwards
  every key, in order. And in both, what the emulator has been given since its last reset is
  the newest catch-up screen followed by every chunk after it: a catch-up replaces what was on
  the screen, and nothing is lost or doubled around it.\<close>

theorem pane_forwards_exactly:
  assumes "p = fold pane_step es (mount_pane i replayMode fit)"
  shows "(replayMode \<longrightarrow> pn_commands p = []) \<and>
    (\<not> replayMode \<longrightarrow> keys_sent i (pn_commands p) = typed es) \<and>
    on_screen (pn_calls p) [] = since_catchup (outputs es) []"
  using keys_sent_run[of "mount_pane i replayMode fit" es]
  by (auto simp: assms pane_run_frame pane_screen)

theorem pane_forwards_exactly_witness:
  "pn_commands (fold pane_step [Pe_output Ch_chunk [1], Pe_data True ''x'', Pe_output Ch_catchup [2], Pe_output Ch_chunk [3]]
     (mount_pane ''t'' True (Some (80, 24)))) = [] \<and>
   on_screen (pn_calls (fold pane_step [Pe_output Ch_chunk [1], Pe_data True ''x'', Pe_output Ch_catchup [2],
     Pe_output Ch_chunk [3]] (mount_pane ''t'' True (Some (80, 24))))) [] = [2, 3]"
proof -
  let ?es = "[Pe_output Ch_chunk [1], Pe_data True ''x'', Pe_output Ch_catchup [2], Pe_output Ch_chunk [3]]"
  from pane_forwards_exactly[OF HOL.refl, of True ?es "''t''" "Some (80, 24)"]
  have "pn_commands (fold pane_step ?es (mount_pane ''t'' True (Some (80, 24)))) = []"
    "on_screen (pn_calls (fold pane_step ?es (mount_pane ''t'' True (Some (80, 24))))) [] = since_catchup (outputs ?es) []"
    by blast+
  then show ?thesis by (simp add: since_catchup_def)
qed

text \<open>A touch scroll follows the finger. Put one finger on the pane and move it anywhere,
  any number of times, other fingers joining or not: as long as no move is at least six pixels
  and half a row from the start, no event is kept from the browser (a tap stays a tap) and
  the viewport does not move; from the first such move on, the viewport is at the line the
  emulator goes to for the line where the gesture began plus the finger's present travel in
  rows. So it depends on where the finger is, not on how it got there: hitting the end of the
  history on the way loses nothing, and bringing the finger back brings the line back.\<close>

theorem touch_follows_finger:
  assumes "begin_state = onTouchStart [(i, origin)] s" and "height \<noteq> 0"
    and "map (\<lambda>ts. map_of ts i) tss = map Some ys"
    and "touch_moves scroll height rows tss begin_state = (s', bs)"
  shows "to_viewportY s' =
      (if list_ex (begun height rows origin) ys
       then scroll (to_viewportY s + offset_rows height rows (last ys - origin))
       else to_viewportY s) \<and>
    (\<not> list_ex (begun height rows origin) ys \<longrightarrow> \<not> list_ex id bs)"
proof -
  have begin_state: "to_activeTouchId begin_state = Some i" "\<not> to_scrolling begin_state" "to_appliedOffset begin_state = 0" "to_startY begin_state = origin"
    "to_anchorTop begin_state = to_viewportY s" "to_viewportY begin_state = to_viewportY s"
    by (simp_all add: assms(1) onTouchStart_def)
  from tracking_moves[OF begin_state(1) assms(2) begin_state(2,3) assms(3,4)] show ?thesis
    by (auto simp: tracking_def begin_state)
qed

text \<open>Three rows up past the top of the history, and back to where the finger began.\<close>

definition resting :: touch_state where
  "resting = \<lparr>to_activeTouchId = None, to_startY = 0, to_anchorTop = 0, to_scrolling = False,
     to_appliedOffset = 0, to_viewportY = 2\<rparr>"

theorem touch_follows_finger_witness:
  "to_viewportY (fst (touch_moves (max 0) 240 24 [[(7, 30)]] (onTouchStart [(7, 0)] resting))) = 0 \<and>
   to_viewportY (fst (touch_moves (max 0) 240 24 [[(7, 30)], [(7, 0)]] (onTouchStart [(7, 0)] resting))) = 2"
proof -
  have off: "offset_rows 240 24 30 = -3" "offset_rows 240 24 0 = 0"
    by (simp_all add: offset_rows_def math_round_def floor_eq_iff)
  have b: "begun 240 24 0 30" by (simp add: begun_def SCROLL_LOCK_PX_def off)
  have v: "to_viewportY resting = 2" by (simp add: resting_def)
  have "to_viewportY (fst (touch_moves (max 0) 240 24 [[(7, 30)]] (onTouchStart [(7, 0)] resting))) = max 0 (2 + - 3)"
    using touch_follows_finger[OF HOL.refl, where i = 7 and origin = 0 and s = resting and height = 240 and rows = 24
        and tss = "[[(7, 30)]]" and ys = "[30]" and scroll = "max 0"]
    by (auto simp: b off v prod_eq_iff)
  moreover have "to_viewportY (fst (touch_moves (max 0) 240 24 [[(7, 30)], [(7, 0)]] (onTouchStart [(7, 0)] resting))) =
      max 0 (2 + 0)"
    using touch_follows_finger[OF HOL.refl, where i = 7 and origin = 0 and s = resting and height = 240 and rows = 24
        and tss = "[[(7, 30)], [(7, 0)]]" and ys = "[30, 0]" and scroll = "max 0"]
    by (auto simp: b off v prod_eq_iff)
  ultimately show ?thesis by simp
qed

end
