(* ===== verification/Markdown.thy ===== *)
theory Markdown
  imports Queue_Utils
begin

text \<open>
  The Markdown view of untrusted agent text (\<open>components/MarkdownText.tsx\<close>): the test whether
  a text is worth rendering, the tokens of a line, the blocks of a text, and which links may
  become clickable. The regular expressions are written out as matchers on a suffix of the
  text; each of them can match a given position in one way only. The URL parser of the
  browser is a parameter: \<open>url_protocol href\<close> is the \<open>protocol\<close> of \<open>new URL(href, origin)\<close>, or
  \<open>None\<close> when it throws.
\<close>

section \<open>Matchers\<close>

definition cr_char :: char where
  "cr_char = char_of (13::nat)"

definition no_line_end :: "string \<Rightarrow> bool" where
  "no_line_end s \<longleftrightarrow> newline \<notin> set s \<and> cr_char \<notin> set s"

text \<open>\<open>\[([^\]]+)\]\(([^)]+)\)\<close>: the two groups and the rest.\<close>

definition match_link :: "string \<Rightarrow> (string \<times> string \<times> string) option" where
  "match_link s = (case s of
     c # r \<Rightarrow>
       (if c \<noteq> CHR ''['' then None
        else let txt = takeWhile (\<lambda>x. x \<noteq> CHR '']'') r; r1 = dropWhile (\<lambda>x. x \<noteq> CHR '']'') r
             in if txt = [] \<or> \<not> starts_with r1 ''](''  then None
                else let href = takeWhile (\<lambda>x. x \<noteq> CHR '')'') (drop 2 r1);
                         r2 = dropWhile (\<lambda>x. x \<noteq> CHR '')'') (drop 2 r1)
                     in if href = [] \<or> r2 = [] then None else Some (txt, href, tl r2))
   | [] \<Rightarrow> None)"

text \<open>A run without the delimiter and without a line feed, then the delimiter again.\<close>

definition match_span :: "string \<Rightarrow> string \<Rightarrow> (string \<times> string) option" where
  "match_span delim s =
     (if \<not> starts_with s delim then None
      else let r = drop (length delim) s;
               body = takeWhile (\<lambda>x. x \<noteq> hd delim \<and> x \<noteq> newline) r;
               r1 = dropWhile (\<lambda>x. x \<noteq> hd delim \<and> x \<noteq> newline) r
           in if body = [] \<or> \<not> starts_with r1 delim then None else Some (body, drop (length delim) r1))"

definition match_code :: "string \<Rightarrow> (string \<times> string) option" where
  "match_code = match_span ''`''"

definition match_bold :: "string \<Rightarrow> (string \<times> string) option" where
  "match_bold = match_span ''**''"

section \<open>Is it Markdown?\<close>

fun any_suffix :: "(string \<Rightarrow> bool) \<Rightarrow> string \<Rightarrow> bool" where
  "any_suffix p [] = p []"
| "any_suffix p (c # s) = (p (c # s) \<or> any_suffix p s)"

text \<open>The positions where \<open>^\<close> matches under the \<open>m\<close> flag.\<close>

fun any_line :: "(string \<Rightarrow> bool) \<Rightarrow> bool \<Rightarrow> string \<Rightarrow> bool" where
  "any_line p at_start [] = (at_start \<and> p [])"
| "any_line p at_start (c # s) =
     (at_start \<and> p (c # s) \<or> any_line p (c = newline \<or> c = cr_char) s)"

text \<open>\<open>\s+\S\<close>.\<close>

definition space_then_word :: "string \<Rightarrow> bool" where
  "space_then_word s \<longleftrightarrow> takeWhile is_space s \<noteq> [] \<and> dropWhile is_space s \<noteq> []"

definition is_hash :: "char \<Rightarrow> bool" where
  "is_hash c \<longleftrightarrow> c = CHR ''#''"

definition md_header :: "string \<Rightarrow> bool" where
  "md_header s \<longleftrightarrow> length (takeWhile is_hash s) \<in> {1..6} \<and> space_then_word (dropWhile is_hash s)"

definition is_bullet_char :: "char \<Rightarrow> bool" where
  "is_bullet_char c \<longleftrightarrow> c = CHR ''-'' \<or> c = CHR ''*''"

definition md_bullet :: "string \<Rightarrow> bool" where
  "md_bullet s = (case dropWhile is_space s of c # r \<Rightarrow> is_bullet_char c \<and> space_then_word r | [] \<Rightarrow> False)"

definition md_numbered :: "string \<Rightarrow> bool" where
  "md_numbered s = (let r = dropWhile is_space s in
     takeWhile is_digit r \<noteq> [] \<and>
     (case dropWhile is_digit r of c # r' \<Rightarrow> c = CHR ''.'' \<and> space_then_word r' | [] \<Rightarrow> False))"

definition rtrim :: "string \<Rightarrow> string" where
  "rtrim s = rev (dropWhile is_space (rev s))"

text \<open>\<open>^\s*\|.+\|\s*$\<close> under the \<open>m\<close> flag.\<close>

definition md_table_row :: "string \<Rightarrow> bool" where
  "md_table_row s = (let r = rtrim (takeWhile (\<lambda>c. c \<noteq> newline \<and> c \<noteq> cr_char) (dropWhile is_space s)) in
     length r \<ge> 3 \<and> hd r = CHR ''|'' \<and> last r = CHR ''|'')"

definition looksLikeMarkdown :: "string \<Rightarrow> bool" where
  "looksLikeMarkdown s \<longleftrightarrow> s \<noteq> [] \<and>
     (any_line md_header True s \<or> any_line md_bullet True s \<or> any_line md_numbered True s \<or>
      any_suffix (\<lambda>r. match_bold r \<noteq> None) s \<or> any_suffix (\<lambda>r. match_code r \<noteq> None) s \<or>
      any_line (\<lambda>r. starts_with r ''```'') True s \<or> any_line md_table_row True s \<or>
      any_suffix (\<lambda>r. match_link r \<noteq> None) s)"

section \<open>Links\<close>

definition hasUnsafeHrefChar :: "string \<Rightarrow> bool" where
  "hasUnsafeHrefChar href \<longleftrightarrow> list_ex (\<lambda>c. of_char c \<le> (32::nat) \<or> of_char c = (127::nat)) href"

definition safeHref :: "(string \<Rightarrow> string option) \<Rightarrow> string \<Rightarrow> string option" where
  "safeHref url_protocol rawHref =
     (let href = trim rawHref in
      if href = [] \<or> hasUnsafeHrefChar href then None
      else case url_protocol href of
        Some p \<Rightarrow> (if p = ''http:'' \<or> p = ''https:'' \<or> p = ''mailto:'' then Some href else None)
      | None \<Rightarrow> None)"

section \<open>Inline rendering\<close>

datatype token = Tk_text string | Tk_link string string | Tk_code string | Tk_bold string

text \<open>One match of the token expression at this position: the alternatives in order.\<close>

definition match_token :: "string \<Rightarrow> (token \<times> string) option" where
  "match_token s = (case match_link s of
     Some (txt, href, r) \<Rightarrow> Some (Tk_link txt href, r)
   | None \<Rightarrow> (case match_code s of
       Some (c, r) \<Rightarrow> Some (Tk_code c, r)
     | None \<Rightarrow> (case match_bold s of Some (b, r) \<Rightarrow> Some (Tk_bold b, r) | None \<Rightarrow> None)))"

fun tk_source :: "token \<Rightarrow> string" where
  "tk_source (Tk_text s) = s"
| "tk_source (Tk_link txt href) = ''['' @ txt @ '']('' @ href @ '')''"
| "tk_source (Tk_code c) = ''`'' @ c @ ''`''"
| "tk_source (Tk_bold b) = ''**'' @ b @ ''**''"

lemma starts_with_drop: "starts_with s p \<Longrightarrow> s = p @ drop (length p) s"
  unfolding starts_with_def by (metis append_take_drop_id)

lemma match_link_source: "match_link s = Some (txt, href, r) \<Longrightarrow> s = tk_source (Tk_link txt href) @ r \<and> txt \<noteq> [] \<and> href \<noteq> []"
proof -
  assume m: "match_link s = Some (txt, href, r)"
  then obtain s' where s: "s = CHR ''['' # s'"
    by (auto simp: match_link_def split: list.splits if_splits)
  let ?r1 = "dropWhile (\<lambda>x. x \<noteq> CHR '']'') s'" and ?r2 = "dropWhile (\<lambda>x. x \<noteq> CHR '')'') (drop 2 (dropWhile (\<lambda>x. x \<noteq> CHR '']'') s'))"
  from m s have t: "txt = takeWhile (\<lambda>x. x \<noteq> CHR '']'') s'" "txt \<noteq> []" "starts_with ?r1 ''](''"
    "href = takeWhile (\<lambda>x. x \<noteq> CHR '')'') (drop 2 ?r1)" "href \<noteq> []" "?r2 \<noteq> []" "r = tl ?r2"
    by (auto simp: match_link_def Let_def split: if_splits)
  have "s' = txt @ ?r1" by (simp add: t(1))
  moreover have "?r1 = ''](''  @ drop 2 ?r1" using starts_with_drop[OF t(3)] by (simp add: numeral_2_eq_2)
  moreover have "drop 2 ?r1 = href @ ?r2" by (simp add: t(4))
  moreover have "?r2 = CHR '')'' # r"
    using t(6,7) hd_dropWhile[OF t(6)] by (cases ?r2) auto
  ultimately show ?thesis using t(2,5) s by simp
qed

lemma match_span_source:
  assumes "match_span delim s = Some (body, r)"
  shows "s = delim @ body @ delim @ r \<and> body \<noteq> []"
proof -
  let ?s = "drop (length delim) s" and ?p = "\<lambda>x. x \<noteq> hd delim \<and> x \<noteq> newline"
  from assms have t: "starts_with s delim" "body = takeWhile ?p ?s" "body \<noteq> []"
    "starts_with (dropWhile ?p ?s) delim" "r = drop (length delim) (dropWhile ?p ?s)"
    by (auto simp: match_span_def Let_def split: if_splits)
  have "s = delim @ ?s" by (rule starts_with_drop[OF t(1)])
  moreover have "?s = body @ dropWhile ?p ?s" by (simp add: t(2))
  moreover have "dropWhile ?p ?s = delim @ r" using starts_with_drop[OF t(4)] by (simp add: t(5))
  ultimately show ?thesis using t(3) by metis
qed

lemma match_token_source: "match_token s = Some (t, r) \<Longrightarrow> s = tk_source t @ r \<and> tk_source t \<noteq> []"
  by (auto simp: match_token_def match_code_def match_bold_def split: option.splits
      dest!: match_link_source match_span_source)

text \<open>
  \<open>text.matchAll(tokenRe)\<close> with the plain text between the matches; \<open>acc\<close> is the plain text
  since the last match.
\<close>

function tokens :: "string \<Rightarrow> string \<Rightarrow> token list" where
  "tokens acc s = (case s of
     [] \<Rightarrow> (if acc = [] then [] else [Tk_text acc])
   | c # s' \<Rightarrow> (case match_token s of
       Some (t, r) \<Rightarrow> (if acc = [] then [] else [Tk_text acc]) @ t # tokens [] r
     | None \<Rightarrow> tokens (acc @ [c]) s'))"
  by pat_completeness auto
termination
proof (relation "measure (\<lambda>(acc, s). length s)")
  fix acc s and c :: char and s' t r x2
  assume "s = c # s'" "match_token s = Some x2" "(t, r) = x2"
  then have "s = tk_source t @ r" "tk_source t \<noteq> []" using match_token_source by auto
  then have "length s = length (tk_source t) + length r" "0 < length (tk_source t)" by simp_all
  then show "(([], r), acc, s) \<in> measure (\<lambda>(acc, s). length s)" by simp
qed auto

declare tokens.simps [simp del]

datatype inline = In_text string | In_link string string | In_code string | In_bold string

definition render_token :: "(string \<Rightarrow> string option) \<Rightarrow> token \<Rightarrow> inline" where
  "render_token url t = (case t of
     Tk_text s \<Rightarrow> In_text s
   | Tk_link txt raw \<Rightarrow> (case safeHref url raw of Some href \<Rightarrow> In_link txt href | None \<Rightarrow> In_text (tk_source t))
   | Tk_code c \<Rightarrow> In_code c
   | Tk_bold b \<Rightarrow> In_bold b)"

definition renderInline :: "(string \<Rightarrow> string option) \<Rightarrow> string \<Rightarrow> inline list" where
  "renderInline url s = map (render_token url) (tokens [] s)"

section \<open>Blocks\<close>

definition strip_bar_left :: "string \<Rightarrow> string" where
  "strip_bar_left s = (case s of c # r \<Rightarrow> if c = CHR ''|'' then r else s | [] \<Rightarrow> [])"

definition splitTableRow :: "string \<Rightarrow> string list" where
  "splitTableRow row = map trim (split_on (CHR ''|'') (rev (strip_bar_left (rev (strip_bar_left (trim row))))))"

text \<open>\<open>^:?-{2,}:?$\<close>.\<close>

definition separator_cell :: "string \<Rightarrow> bool" where
  "separator_cell c = (let c1 = (if c \<noteq> [] \<and> hd c = CHR '':'' then tl c else c);
                           c2 = (if c1 \<noteq> [] \<and> last c1 = CHR '':'' then butlast c1 else c1)
                       in length c2 \<ge> 2 \<and> list_all (\<lambda>x. x = CHR ''-'') c2)"

definition isSeparatorRow :: "string list \<Rightarrow> bool" where
  "isSeparatorRow cells \<longleftrightarrow> list_all separator_cell cells"

text \<open>\<open>^\|.*\|\s*$\<close> on one line; a dot does not match a carriage return.\<close>

definition table_line :: "string \<Rightarrow> bool" where
  "table_line s = (let r = rtrim s in
     length r \<ge> 2 \<and> hd r = CHR ''|'' \<and> last r = CHR ''|'' \<and> no_line_end (butlast (tl r)))"

text \<open>\<open>\s+(.+)$\<close>: the spaces take all they can and leave at least one character.\<close>

definition space_then_body :: "string \<Rightarrow> string option" where
  "space_then_body s =
     (let ws = takeWhile is_space s; body = dropWhile is_space s in
      if ws = [] then None
      else if body \<noteq> [] then (if no_line_end body then Some body else None)
      else if length ws \<ge> 2 \<and> no_line_end [last ws] then Some [last ws] else None)"

definition match_heading :: "string \<Rightarrow> (nat \<times> string) option" where
  "match_heading s =
     (let n = length (takeWhile is_hash s) in
      if 1 \<le> n \<and> n \<le> 3
      then (case space_then_body (dropWhile is_hash s) of Some b \<Rightarrow> Some (n, b) | None \<Rightarrow> None) else None)"

definition match_bullet :: "string \<Rightarrow> string option" where
  "match_bullet s = (case dropWhile is_space s of
     c # r \<Rightarrow> (if is_bullet_char c then space_then_body r else None) | [] \<Rightarrow> None)"

definition match_numbered :: "string \<Rightarrow> (string \<times> string) option" where
  "match_numbered s = (let r = dropWhile is_space s; ds = takeWhile is_digit r in
     if ds = [] then None
     else case dropWhile is_digit r of
       c # r' \<Rightarrow> (if c = CHR ''.'' then (case space_then_body r' of Some b \<Rightarrow> Some (ds, b) | None \<Rightarrow> None) else None)
     | [] \<Rightarrow> None)"

datatype block =
    Bl_blank
  | Bl_table "inline list list" "inline list list list"
  | Bl_heading nat "inline list"
  | Bl_bullet "inline list"
  | Bl_numbered string "inline list"
  | Bl_line "inline list" bool
  | Bl_code string

definition table_block :: "(string \<Rightarrow> string option) \<Rightarrow> string list list \<Rightarrow> block" where
  "table_block url rows = Bl_table (map (renderInline url) (hd rows))
     (map (map (renderInline url)) (filter (\<lambda>r. \<not> isSeparatorRow r) (drop 2 rows)))"

definition line_block :: "(string \<Rightarrow> string option) \<Rightarrow> bool \<Rightarrow> string \<Rightarrow> block" where
  "line_block url br line = (case match_heading line of
     Some (n, b) \<Rightarrow> Bl_heading n (renderInline url b)
   | None \<Rightarrow> (case match_bullet line of
       Some b \<Rightarrow> Bl_bullet (renderInline url b)
     | None \<Rightarrow> (case match_numbered line of
         Some (d, b) \<Rightarrow> Bl_numbered d (renderInline url b)
       | None \<Rightarrow> Bl_line (renderInline url line) br)))"

function text_blocks :: "(string \<Rightarrow> string option) \<Rightarrow> string list \<Rightarrow> block list" where
  "text_blocks url [] = []"
| "text_blocks url (line # rest) =
     (if trim line = [] then Bl_blank # text_blocks url rest
      else let tableLines = takeWhile table_line (line # rest); rows = map splitTableRow tableLines in
        if length tableLines \<ge> 2 \<and> isSeparatorRow (rows ! 1)
        then table_block url rows # text_blocks url (drop (length tableLines) (line # rest))
        else line_block url (rest \<noteq> []) line # text_blocks url rest)"
  by pat_completeness auto
termination by (relation "measure (\<lambda>(url, lines). length lines)") (auto split: if_splits)

definition renderTextBlocks :: "(string \<Rightarrow> string option) \<Rightarrow> string \<Rightarrow> block list" where
  "renderTextBlocks url src = text_blocks url (split_on newline src)"

definition is_fence :: "string \<Rightarrow> bool" where
  "is_fence line \<longleftrightarrow> starts_with line ''```''"

definition flushText :: "(string \<Rightarrow> string option) \<Rightarrow> string list \<Rightarrow> block list" where
  "flushText url pendingText =
     (if pendingText = [] then [] else renderTextBlocks url (join_with [newline] pendingText))"

function markdown_lines :: "(string \<Rightarrow> string option) \<Rightarrow> string list \<Rightarrow> string list \<Rightarrow> block list" where
  "markdown_lines url pendingText [] = flushText url pendingText"
| "markdown_lines url pendingText (line # rest) =
     (if is_fence line
      then flushText url pendingText @
           Bl_code (join_with [newline] (takeWhile (\<lambda>l. \<not> is_fence l) rest)) #
           markdown_lines url [] (drop 1 (dropWhile (\<lambda>l. \<not> is_fence l) rest))
      else markdown_lines url (pendingText @ [line]) rest)"
  by pat_completeness auto
termination
proof (relation "measure (\<lambda>(url, p, lines). length lines)")
  fix url p line and rest :: "string list"
  have "length (dropWhile (\<lambda>l. \<not> is_fence l) rest) \<le> length rest" by (rule length_dropWhile_le)
  then show "((url, [], drop 1 (dropWhile (\<lambda>l. \<not> is_fence l) rest)), url, p, line # rest)
      \<in> measure (\<lambda>(url, p, lines). length lines)" by simp
qed auto

definition renderMarkdown :: "(string \<Rightarrow> string option) \<Rightarrow> string \<Rightarrow> block list" where
  "renderMarkdown url src = markdown_lines url [] (split_on newline src)"

text \<open>The component: raw text, or the rendered blocks while that tab is chosen.\<close>

datatype md_view = Md_rendered | Md_raw

definition initial_md_view :: "string \<Rightarrow> md_view" where
  "initial_md_view s = (if looksLikeMarkdown s then Md_rendered else Md_raw)"

definition markdown_text :: "(string \<Rightarrow> string option) \<Rightarrow> string \<Rightarrow> md_view \<Rightarrow> string + block list" where
  "markdown_text url s v =
     (if looksLikeMarkdown s \<and> v = Md_rendered then Inr (renderMarkdown url s) else Inl s)"

section \<open>Lemmas\<close>

text \<open>The links of a rendering.\<close>

fun link_hrefs :: "inline list \<Rightarrow> string list" where
  "link_hrefs [] = []"
| "link_hrefs (In_link txt href # ns) = href # link_hrefs ns"
| "link_hrefs (_ # ns) = link_hrefs ns"

fun block_inlines :: "block \<Rightarrow> inline list list" where
  "block_inlines Bl_blank = []"
| "block_inlines (Bl_table h rows) = h @ concat rows"
| "block_inlines (Bl_heading n i) = [i]"
| "block_inlines (Bl_bullet i) = [i]"
| "block_inlines (Bl_numbered d i) = [i]"
| "block_inlines (Bl_line i br) = [i]"
| "block_inlines (Bl_code c) = []"

definition all_hrefs :: "block list \<Rightarrow> string list" where
  "all_hrefs bs = concat (map link_hrefs (concat (map block_inlines bs)))"

lemma tokens_source: "concat (map tk_source (tokens acc s)) = acc @ s"
proof (induction acc s rule: tokens.induct)
  case (1 acc s)
  show ?case
  proof (cases s)
    case Nil
    then show ?thesis by (subst tokens.simps) simp
  next
    case (Cons c s')
    show ?thesis
    proof (cases "match_token s")
      case None
      with 1(1)[OF Cons None] show ?thesis by (subst tokens.simps) (simp add: Cons)
    next
      case (Some tr)
      obtain t r where tr: "tr = (t, r)" by fastforce
      have src: "s = tk_source t @ r" using Some tr match_token_source by simp
      have rest: "concat (map tk_source (tokens [] r)) = r" using 1(2)[OF Cons Some tr[symmetric]] by simp
      have "tokens acc s = (if acc = [] then [] else [Tk_text acc]) @ t # tokens [] r"
        by (subst tokens.simps) (simp add: Some[unfolded Cons] tr Cons)
      then have "concat (map tk_source (tokens acc s)) = acc @ tk_source t @ r" by (simp add: rest)
      with src show ?thesis by simp
    qed
  qed
qed

definition good_href :: "(string \<Rightarrow> string option) \<Rightarrow> string \<Rightarrow> bool" where
  "good_href url href \<longleftrightarrow> href \<noteq> [] \<and> (\<forall>c\<in>set href. 32 < (of_char c :: nat) \<and> of_char c \<noteq> (127::nat)) \<and>
     (url href = Some ''http:'' \<or> url href = Some ''https:'' \<or> url href = Some ''mailto:'')"

lemma safeHref_good: "safeHref url raw = Some href \<Longrightarrow> good_href url href"
  by (auto simp: safeHref_def good_href_def hasUnsafeHrefChar_def list_ex_iff not_le Let_def split: if_splits option.splits)

lemma link_hrefs_mem: "href \<in> set (link_hrefs ns) \<longleftrightarrow> (\<exists>txt. In_link txt href \<in> set ns)"
  by (induction ns rule: link_hrefs.induct) auto

lemma renderInline_good: "href \<in> set (link_hrefs (renderInline url s)) \<Longrightarrow> good_href url href"
  by (auto simp: link_hrefs_mem renderInline_def render_token_def dest: safeHref_good
      split: token.splits option.splits)

text \<open>Every inline sequence of a block is the rendering of some string.\<close>

definition rendered :: "(string \<Rightarrow> string option) \<Rightarrow> block list \<Rightarrow> bool" where
  "rendered url bs \<longleftrightarrow> (\<forall>b \<in> set bs. \<forall>i \<in> set (block_inlines b). i \<in> range (renderInline url))"

lemma rendered_simps [simp]:
  "rendered url []" "rendered url (xs @ ys) \<longleftrightarrow> rendered url xs \<and> rendered url ys"
  "rendered url (Bl_blank # ys) \<longleftrightarrow> rendered url ys" "rendered url (Bl_code c # ys) \<longleftrightarrow> rendered url ys"
  "rendered url (table_block url rows # ys) \<longleftrightarrow> rendered url ys"
  "rendered url (line_block url br l # ys) \<longleftrightarrow> rendered url ys"
  by (auto simp: rendered_def table_block_def line_block_def split: option.splits)

lemma text_blocks_rendered: "rendered url (text_blocks url lines)"
proof (induction lines rule: length_induct)
  case (1 lines)
  show ?case
  proof (cases lines)
    case (Cons line rest)
    let ?t = "takeWhile table_line (line # rest)"
    have "rendered url (text_blocks url rest)" using 1 Cons by simp
    moreover have "rendered url (text_blocks url (drop (length ?t) (line # rest)))" if "2 \<le> length ?t"
      using that by (intro 1[rule_format]) (simp add: Cons del: takeWhile.simps)
    ultimately show ?thesis
      unfolding Cons text_blocks.simps Let_def by (simp del: takeWhile.simps)
  qed simp
qed

lemma flushText_rendered: "rendered url (flushText url p)"
  by (simp add: flushText_def renderTextBlocks_def text_blocks_rendered)

lemma markdown_rendered: "rendered url (markdown_lines url p lines)"
  by (induction url p lines rule: markdown_lines.induct) (simp_all add: flushText_rendered)

lemma markdown_lines_text:
  "list_all (\<lambda>l. \<not> is_fence l) a \<Longrightarrow> markdown_lines url p (a @ ls) = markdown_lines url (p @ a) ls"
  by (induction a arbitrary: p) auto

section \<open>Properties\<close>

text \<open>C40: Untrusted text can only produce harmless links. Whatever the agent wrote, every link in
  the rendered Markdown has a non-empty target without any of the characters U+0000 to U+0020 (the ASCII controls and
  the space) and U+007F, whose protocol, as the browser itself parses it, is http, https or mailto; so no
  \<open>javascript:\<close> or \<open>data:\<close> address becomes clickable.\<close>

theorem markdown_links_safe:
  assumes "href \<in> set (all_hrefs (renderMarkdown url src))"
  shows "good_href url href"
proof -
  from assms obtain b i where "b \<in> set (renderMarkdown url src)" "i \<in> set (block_inlines b)"
    "href \<in> set (link_hrefs i)" by (auto simp: all_hrefs_def)
  moreover have "rendered url (renderMarkdown url src)"
    unfolding renderMarkdown_def by (rule markdown_rendered)
  ultimately obtain x where "i = renderInline url x" "href \<in> set (link_hrefs i)"
    unfolding rendered_def by blast
  then show ?thesis by (simp add: renderInline_good)
qed

text \<open>A parser that knows two schemes, and a text with a good and a bad link.\<close>

definition sample_protocol :: "string \<Rightarrow> string option" where
  "sample_protocol href = (if starts_with href ''https:'' then Some ''https:''
     else if starts_with href ''javascript:'' then Some ''javascript:'' else None)"

definition sample_markdown :: string where
  "sample_markdown = ''see [docs](https://x.io) or [this](javascript:run)''"

lemma sample_markdown_links: "all_hrefs (renderMarkdown sample_protocol sample_markdown) = [''https://x.io'']"
  by code_simp

theorem markdown_links_safe_witness:
  "''https://x.io'' \<in> set (all_hrefs (renderMarkdown sample_protocol sample_markdown)) \<and>
   good_href sample_protocol ''https://x.io''"
  using markdown_links_safe[of "''https://x.io''" sample_protocol sample_markdown] sample_markdown_links by simp

text \<open>The inline tokens lose nothing: put back together with their delimiters they are the
  line again, the text of code and bold tokens is shown as written, and a link whose target
  is refused is shown with its source.\<close>

theorem inline_tokens_lossless:
  "concat (map tk_source (tokens [] s)) = s \<and>
   (safeHref url raw = None \<longrightarrow> render_token url (Tk_link txt raw) = In_text (''['' @ txt @ '']('' @ raw @ '')''))"
  by (simp add: tokens_source render_token_def)

theorem inline_tokens_lossless_witness:
  "concat (map tk_source (tokens [] ''a `b` c'')) = ''a `b` c'' \<and>
   render_token sample_protocol (Tk_link ''x'' ''javascript:run'') = In_text ''[x](javascript:run)''"
proof -
  have "safeHref sample_protocol ''javascript:run'' = None" by code_simp
  with inline_tokens_lossless[of "''a `b` c''" sample_protocol "''javascript:run''" "''x''"] show ?thesis by simp
qed

text \<open>Fenced code is shown verbatim. The lines between a fence and the next one form one code
  block, joined by line feeds and otherwise untouched, whatever they contain; the text
  before and after is rendered on its own.\<close>

theorem fenced_code_verbatim:
  assumes "list_all (\<lambda>l. \<not> is_fence l) before" and "list_all (\<lambda>l. \<not> is_fence l) code"
    and "is_fence f1" and "is_fence f2"
  shows "markdown_lines url [] (before @ f1 # code @ f2 # after) =
    flushText url before @ Bl_code (join_with [newline] code) # markdown_lines url [] after"
proof -
  have tw: "takeWhile (\<lambda>l. \<not> is_fence l) (code @ f2 # after) = code"
    "dropWhile (\<lambda>l. \<not> is_fence l) (code @ f2 # after) = f2 # after"
    using assms(2,4) by (simp_all add: takeWhile_append2 dropWhile_append2 list_all_iff)
  show ?thesis
    using assms(3) by (simp add: markdown_lines_text[OF assms(1)] tw)
qed

theorem fenced_code_verbatim_witness:
  "markdown_lines sample_protocol [] [''hi'', ''```js'', ''a **b** | c'', ''```''] =
     flushText sample_protocol [''hi''] @ [Bl_code ''a **b** | c'']"
  using fenced_code_verbatim[of "[''hi'']" "[''a **b** | c'']" "''```js''" "''```''" sample_protocol "[]"]
  by (simp add: is_fence_def starts_with_def flushText_def)

text \<open>
  A row of a table's body whose cells are all dashes is not rendered: here the second of two
  body rows is lost.
\<close>

theorem dashed_row_dropped:
  "renderMarkdown (\<lambda>_. None) (join_with [newline] [''|a|b|'', ''|--|--|'', ''|1|2|'', ''|--|--|'']) =
   [Bl_table [[In_text ''a''], [In_text ''b'']] [[[In_text ''1''], [In_text ''2'']]]]"
  by code_simp

end
