(* ===== verification/Detail_View.thy ===== *)
theory Detail_View
  imports Markdown Web_Api
begin

text \<open>
  What the user sees of a request and can do with it: the shared renderer of tool calls and
  events (\<open>components/ToolContent.tsx\<close>) and the detail view of a pending decision
  (\<open>components/DetailView.tsx\<close>). A rendering is a list of sections in the order of the page; the
  text of every section is shown as inert text. \<open>num\<close> is how the browser prints a finite
  number.
\<close>

section \<open>Sections\<close>

datatype detail_section =
    Ds_markdown string string
  | Ds_code string string
  | Ds_field string string
  | Ds_path string
  | Ds_diff "string list" "string list"
  | Ds_text string

definition hasContent :: "js \<Rightarrow> bool" where
  "hasContent v = (case v of
     None \<Rightarrow> False | Some JNull \<Rightarrow> False | Some (JArr xs) \<Rightarrow> xs \<noteq> [] | Some (JObj kvs) \<Rightarrow> kvs \<noteq> [] | _ \<Rightarrow> True)"

definition formatJson :: "(rat \<Rightarrow> string) \<Rightarrow> js \<Rightarrow> string" where
  "formatJson num v = (case v of Some j \<Rightarrow> stringify num 0 j | None \<Rightarrow> [])"

definition DiffView :: "string \<Rightarrow> string \<Rightarrow> detail_section" where
  "DiffView oldStr newStr = Ds_diff (split_on newline oldStr) (split_on newline newStr)"

definition ToolResultSection :: "(rat \<Rightarrow> string) \<Rightarrow> js \<Rightarrow> detail_section list" where
  "ToolResultSection num result = (case result of
     None \<Rightarrow> [] | Some JNull \<Rightarrow> [] | Some j \<Rightarrow> [Ds_code ''Tool Result'' (stringify num 0 j)])"

definition field_if :: "string \<Rightarrow> string option \<Rightarrow> detail_section list" where
  "field_if label v = (if truthy v then [Ds_field label (the v)] else [])"

definition path_if :: "string option \<Rightarrow> detail_section list" where
  "path_if v = (if truthy v then [Ds_path (the v)] else [])"

text \<open>
  \<open>{v && <div>... {String(v)}</div>}\<close> on an unchecked value: a falsy value renders nothing,
  except that the number 0 is rendered as such.
\<close>

definition value_if :: "(rat \<Rightarrow> string) \<Rightarrow> string \<Rightarrow> js \<Rightarrow> detail_section list" where
  "value_if num label v =
     (if js_truthy v then [Ds_field label (js_to_string num v)]
      else if v = Some (JNum (Fin 0)) then [Ds_text ''0''] else [])"

definition or_string :: "string option \<Rightarrow> string \<Rightarrow> string" where
  "or_string v d = (if truthy v then the v else d)"

section \<open>Tool content\<close>

definition event_fields :: "js \<Rightarrow> json_object" where
  "event_fields eventData = (case eventData of Some (JObj kvs) \<Rightarrow> kvs | _ \<Rightarrow> [])"

definition stop_view :: "json_object \<Rightarrow> common_tool_input \<Rightarrow> detail_section list" where
  "stop_view ev flds =
     (let msg = (case stringField (map_of ev ''last_assistant_message'') of
                   Some m \<Rightarrow> Some m | None \<Rightarrow> ct_lastAssistantMessage flds)
      in [if truthy msg then Ds_markdown ''Stop Reason'' (the msg) else Ds_code ''Stop Reason'' ''(no message)''] @
         (case map_of ev ''stop_hook_active'' of
            Some (JBool b) \<Rightarrow> [Ds_field ''Stop hook active:'' (if b then ''true'' else ''false'')] | _ \<Rightarrow> []))"

definition prompt_view :: "json_object \<Rightarrow> common_tool_input \<Rightarrow> detail_section list" where
  "prompt_view ev flds =
     (let p = stringField (map_of ev ''prompt''); shown = (if truthy p then p else ct_prompt flds)
      in if truthy shown then [Ds_markdown ''Submitted Prompt'' (the shown)] else [])"

definition config_view :: "json_object \<Rightarrow> common_tool_input \<Rightarrow> detail_section list" where
  "config_view ev flds =
     (let f = (case stringField (map_of ev ''file_path'') of Some x \<Rightarrow> Some x | None \<Rightarrow> ct_filePath flds);
          s = (case stringField (map_of ev ''source'') of Some x \<Rightarrow> Some x | None \<Rightarrow> ct_source flds)
      in field_if ''File:'' f @ field_if ''Source:'' s)"

definition task_view :: "json_object \<Rightarrow> detail_section list" where
  "task_view ev =
     (let subject = stringField (map_of ev ''task_subject''); desc = stringField (map_of ev ''task_description'')
      in (if truthy subject then [Ds_text (the subject)] else []) @
         (if truthy desc then [Ds_markdown [] (the desc)] else []))"

definition bash_view :: "(rat \<Rightarrow> string) \<Rightarrow> parsed_tool_input \<Rightarrow> detail_section list" where
  "bash_view num parsed =
     (let (command, description) = (case pt_kind parsed of
            Tk_bash b \<Rightarrow> (bi_command b, bi_description b) | _ \<Rightarrow> (None, None))
      in field_if ''Description:'' description @
         [Ds_code ''Command'' (or_string command (formatJson num (pt_raw parsed)))])"

definition edit_view :: "(rat \<Rightarrow> string) \<Rightarrow> parsed_tool_input \<Rightarrow> detail_section list" where
  "edit_view num parsed =
     (let (oldS, newS) = (case pt_kind parsed of Tk_edit e \<Rightarrow> (ei_oldString e, ei_newString e) | _ \<Rightarrow> (None, None))
      in path_if (ct_filePath (pt_fields parsed)) @
         (if truthy oldS \<or> truthy newS then [DiffView (or_string oldS []) (or_string newS [])]
          else [Ds_code ''Tool Input'' (formatJson num (pt_raw parsed))]))"

definition write_view :: "(rat \<Rightarrow> string) \<Rightarrow> parsed_tool_input \<Rightarrow> detail_section list" where
  "write_view num parsed =
     path_if (ct_filePath (pt_fields parsed)) @
     [Ds_code ''Content (new file)'' (or_string (ct_content (pt_fields parsed)) (formatJson num (pt_raw parsed)))]"

definition read_view :: "(rat \<Rightarrow> string) \<Rightarrow> parsed_tool_input \<Rightarrow> detail_section list" where
  "read_view num parsed =
     path_if (ct_filePath (pt_fields parsed)) @
     value_if num ''Limit:'' (map_of (pt_value parsed) ''limit'') @
     value_if num ''Offset:'' (map_of (pt_value parsed) ''offset'')"

definition grep_view :: "common_tool_input \<Rightarrow> detail_section list" where
  "grep_view f = field_if ''Pattern:'' (ct_pattern f) @ field_if ''Path:'' (ct_path f) @
     field_if ''Type:'' (ct_fileType f) @ field_if ''Glob:'' (ct_glob f) @ field_if ''Output:'' (ct_outputMode f)"

definition glob_view :: "common_tool_input \<Rightarrow> detail_section list" where
  "glob_view f = field_if ''Pattern:'' (ct_pattern f) @ field_if ''Path:'' (ct_path f)"

definition generic_view :: "(rat \<Rightarrow> string) \<Rightarrow> parsed_tool_input \<Rightarrow> js \<Rightarrow> detail_section list" where
  "generic_view num parsed eventData =
     (if hasContent (pt_raw parsed) then [Ds_code ''Tool Input'' (formatJson num (pt_raw parsed))]
      else if js_truthy eventData then [Ds_code ''Event Data'' (formatJson num eventData)] else [])"

definition tool_body ::
  "(rat \<Rightarrow> string) \<Rightarrow> string \<Rightarrow> parsed_tool_input \<Rightarrow> string \<Rightarrow> js \<Rightarrow> detail_section list" where
  "tool_body num toolName parsed eventType eventData =
     (let name = to_lower toolName; ev = event_fields eventData; flds = pt_fields parsed in
      if eventType = ''Stop'' \<or> eventType = ''SubagentStop'' then stop_view ev flds
      else if eventType = ''UserPromptSubmit'' then prompt_view ev flds
      else if eventType = ''ConfigChange'' then config_view ev flds
      else if eventType = ''TeammateIdle''
      then [Ds_text (''Teammate '' @ or_string (stringField (map_of ev ''teammate_name'')) ''unknown'' @ '' is idle.'')]
      else if eventType = ''TaskCompleted'' then task_view ev
      else if name = ''bash'' then bash_view num parsed
      else if name = ''edit'' \<or> name = ''multiedit'' then edit_view num parsed
      else if name = ''write'' then write_view num parsed
      else if name = ''read'' then read_view num parsed
      else if name = ''grep'' then grep_view flds
      else if name = ''glob'' then glob_view flds
      else generic_view num parsed eventData)"

definition ToolContent ::
  "(rat \<Rightarrow> string) \<Rightarrow> string \<Rightarrow> js \<Rightarrow> string option \<Rightarrow> js \<Rightarrow> js \<Rightarrow> detail_section list" where
  "ToolContent num toolName toolInput hookEventName eventData toolResult =
     tool_body num toolName (parseToolInput toolName toolInput)
       (case hookEventName of Some e \<Rightarrow> e | None \<Rightarrow> []) eventData @
     ToolResultSection num toolResult"

section \<open>The detail view\<close>

definition plan_content :: "decision_request \<Rightarrow> string option" where
  "plan_content r = stringField (map_of (event_fields (dr_event_data r)) ''plan_content'')"

text \<open>A question as the view shows it; the labels are buttons.\<close>

datatype detail_part = Dp_plan_text string | Dp_question ask_question | Dp_no_question | Dp_sections "detail_section list"

definition detail_parts :: "(rat \<Rightarrow> string) \<Rightarrow> decision_request \<Rightarrow> detail_part list" where
  "detail_parts num r =
     (let parsed = parseToolInput (dr_tool_name r) (Some (dr_tool_input r)); plan = plan_content r in
      (if truthy plan then [Dp_plan_text (the plan)] else []) @
      (case pt_kind parsed of
         Tk_ask (Some qs) \<Rightarrow> map Dp_question qs
       | Tk_ask None \<Rightarrow> [Dp_no_question]
       | _ \<Rightarrow> (if truthy plan then []
              else [Dp_sections (ToolContent num (dr_tool_name r) (Some (dr_tool_input r))
                      (Some (hook_event_tag (dr_hook_event_name r))) (dr_event_data r) None)])))"

text \<open>\<open>Copy All\<close>; \<open>toISOString\<close> throws on an invalid date, \<open>iso_string\<close> prints the others.\<close>

definition buildFullText :: "(rat \<Rightarrow> string) \<Rightarrow> (int \<Rightarrow> string) \<Rightarrow> decision_request \<Rightarrow> string result" where
  "buildFullText num iso_string r = (case get_time (dr_timestamp r) of
     None \<Rightarrow> Inl ''RangeError''
   | Some t \<Rightarrow> Inr (join_with [newline]
       ([''Tool: '' @ dr_tool_name r, ''Event: '' @ hook_event_tag (dr_hook_event_name r),
         ''Agent: '' @ dr_agent_id r, ''Project: '' @ dr_project r, ''Time: '' @ iso_string t] @
        (if truthy (plan_content r) then [[], ''--- Plan ---'', the (plan_content r)] else []) @
        (if hasContent (Some (dr_tool_input r)) then [[], ''--- Tool Input ---'', formatJson num (Some (dr_tool_input r))] else []) @
        (if hasContent (dr_event_data r) then [[], ''--- Event Data ---'', formatJson num (dr_event_data r)] else []))))"

section \<open>Actions\<close>

datatype detail_button =
    Db_accept | Db_allow | Db_block | Db_blockMessage
  | Db_approve | Db_context | Db_deny | Db_denyMessage | Db_always | Db_option ask_option

datatype detail_modal = Dm_denyMsg | Dm_context | Dm_always

datatype detail_output = Out_approve string "approve_opts option" | Out_deny string "string option"

definition detail_buttons :: "decision_request \<Rightarrow> detail_button list" where
  "detail_buttons r =
     (case pt_kind (parseToolInput (dr_tool_name r) (Some (dr_tool_input r))) of
        Tk_ask (Some qs) \<Rightarrow> concat (map (\<lambda>q. map Db_option (aq_options q)) qs) | _ \<Rightarrow> []) @
     (if dr_hook_event_name r \<in> {Stop, SubagentStop} then [Db_accept]
      else if dr_hook_event_name r \<in> {UserPromptSubmit, ConfigChange} then [Db_allow, Db_block, Db_blockMessage]
      else [Db_approve, Db_context, Db_deny, Db_denyMessage, Db_always])"

fun detail_click :: "string \<Rightarrow> detail_button \<Rightarrow> detail_modal option \<Rightarrow> detail_modal option \<times> detail_output option" where
  "detail_click i Db_accept m = (m, Some (Out_approve i None))"
| "detail_click i Db_allow m = (m, Some (Out_approve i None))"
| "detail_click i Db_approve m = (m, Some (Out_approve i None))"
| "detail_click i (Db_option opt) m = (m, Some (Out_approve i None))"
| "detail_click i Db_block m = (m, Some (Out_deny i None))"
| "detail_click i Db_deny m = (m, Some (Out_deny i None))"
| "detail_click i Db_blockMessage m = (Some Dm_denyMsg, None)"
| "detail_click i Db_denyMessage m = (Some Dm_denyMsg, None)"
| "detail_click i Db_context m = (Some Dm_context, None)"
| "detail_click i Db_always m = (Some Dm_always, None)"

text \<open>
  Submitting the open dialog. A text dialog trims its text and does nothing when none is left;
  the confirmation has no text.
\<close>

definition modal_submit :: "string \<Rightarrow> string \<Rightarrow> detail_modal option \<Rightarrow> detail_modal option \<times> detail_output option" where
  "modal_submit i typed m = (let t = trim typed in case m of
     None \<Rightarrow> (None, None)
   | Some Dm_always \<Rightarrow> (None, Some (Out_approve i
       (Some \<lparr>ao_message = None, ao_updated_input = None, ao_always_allow = Some True, ao_additional_context = None\<rparr>)))
   | Some Dm_context \<Rightarrow> (if t = [] then (m, None) else (None, Some (Out_approve i
       (Some \<lparr>ao_message = None, ao_updated_input = None, ao_always_allow = None, ao_additional_context = Some t\<rparr>))))
   | Some Dm_denyMsg \<Rightarrow> (if t = [] then (m, None) else (None, Some (Out_deny i (Some t)))))"

section \<open>Lemmas\<close>

text \<open>The events whose view does not depend on the tool.\<close>

definition event_views :: "hook_event_type set" where
  "event_views = {Stop, SubagentStop, UserPromptSubmit, ConfigChange, TeammateIdle, TaskCompleted}"

lemma tool_body_tool:
  assumes "e \<notin> event_views"
  shows "tool_body num toolName parsed (hook_event_tag e) ev =
     (let name = to_lower toolName in
      if name = ''bash'' then bash_view num parsed
      else if name = ''edit'' \<or> name = ''multiedit'' then edit_view num parsed
      else if name = ''write'' then write_view num parsed
      else if name = ''read'' then read_view num parsed
      else if name = ''grep'' then grep_view (pt_fields parsed)
      else if name = ''glob'' then glob_view (pt_fields parsed)
      else generic_view num parsed ev)"
  using assms by (cases e) (simp_all add: tool_body_def event_views_def hook_event_tag_def hook_event_names_def Let_def)

lemma normal_name_id: "list_all is_lower (to_lower t) \<Longrightarrow> normal_name t = to_lower t"
  by (simp add: normal_name_def list_all_iff)

lemma bash_kind:
  assumes "to_lower t = ''bash''"
  shows "pt_kind (parseToolInput t (Some (JObj kvs))) =
    Tk_bash \<lparr>bi_command = stringField (map_of kvs ''command''), bi_description = stringField (map_of kvs ''description'')\<rparr>"
proof -
  have "normal_name t = ''bash''" using normal_name_id[of t] assms by (simp add: is_lower_def)
  then show ?thesis by (simp add: parseToolInput_def Let_def)
qed

lemma edit_kind:
  assumes "to_lower t = ''edit''"
  shows "pt_kind (parseToolInput t (Some (JObj kvs))) =
    Tk_edit \<lparr>ei_oldString = stringField (map_of kvs ''old_string''), ei_newString = stringField (map_of kvs ''new_string'')\<rparr>"
proof -
  have "normal_name t = ''edit''" using normal_name_id[of t] assms by (simp add: is_lower_def)
  then show ?thesis by (simp add: parseToolInput_def Let_def)
qed

lemma pt_simps [simp]:
  "pt_raw (parseToolInput t v) = v"
  "ct_filePath (pt_fields (parseToolInput t (Some (JObj kvs)))) = stringField (map_of kvs ''file_path'')"
  "ct_content (pt_fields (parseToolInput t (Some (JObj kvs)))) = stringField (map_of kvs ''content'')"
  by (simp_all add: parseToolInput_def Let_def)

section \<open>Properties\<close>

text \<open>The detail view shows what would run. For a request that is not one of the session
  events, a Bash call shows its command verbatim; an Edit shows the removed and the added
  text line by line, and the lines put together again are the old and the new string; a
  Write shows the file's path and its whole content; a tool without a view of its own shows
  its whole input. Nothing is clipped.\<close>

theorem detail_shows_payload:
  assumes "e \<notin> event_views"
  shows "(to_lower t = ''bash'' \<and> map_of kvs ''command'' = Some (JStr c) \<and> c \<noteq> [] \<longrightarrow>
      Ds_code ''Command'' c \<in> set (ToolContent num t (Some (JObj kvs)) (Some (hook_event_tag e)) ev result)) \<and>
    (to_lower t = ''edit'' \<and> map_of kvs ''old_string'' = Some (JStr a) \<and> map_of kvs ''new_string'' = Some (JStr b) \<and> a \<noteq> [] \<longrightarrow>
      (\<exists>old new. Ds_diff old new \<in> set (ToolContent num t (Some (JObj kvs)) (Some (hook_event_tag e)) ev result) \<and>
         join_with [newline] old = a \<and> join_with [newline] new = b)) \<and>
    (to_lower t = ''write'' \<and> map_of kvs ''file_path'' = Some (JStr f) \<and> f \<noteq> [] \<and>
       map_of kvs ''content'' = Some (JStr d) \<and> d \<noteq> [] \<longrightarrow>
      {Ds_path f, Ds_code ''Content (new file)'' d} \<subseteq> set (ToolContent num t (Some (JObj kvs)) (Some (hook_event_tag e)) ev result)) \<and>
    (to_lower t \<notin> {''bash'', ''edit'', ''multiedit'', ''write'', ''read'', ''grep'', ''glob''} \<and> kvs \<noteq> [] \<longrightarrow>
      Ds_code ''Tool Input'' (stringify num 0 (JObj kvs)) \<in> set (ToolContent num t (Some (JObj kvs)) (Some (hook_event_tag e)) ev result))"
proof (intro conjI impI)
  assume a: "to_lower t = ''bash'' \<and> map_of kvs ''command'' = Some (JStr c) \<and> c \<noteq> []"
  then have "Ds_code ''Command'' c \<in> set (bash_view num (parseToolInput t (Some (JObj kvs))))"
    by (simp add: bash_view_def bash_kind stringField_def or_string_def truthy_def)
  with a show "Ds_code ''Command'' c \<in> set (ToolContent num t (Some (JObj kvs)) (Some (hook_event_tag e)) ev result)"
    by (simp add: ToolContent_def tool_body_tool[OF assms])
next
  assume h: "to_lower t = ''edit'' \<and> map_of kvs ''old_string'' = Some (JStr a) \<and> map_of kvs ''new_string'' = Some (JStr b) \<and> a \<noteq> []"
  then have "DiffView a b \<in> set (edit_view num (parseToolInput t (Some (JObj kvs))))"
    by (simp add: edit_view_def edit_kind stringField_def or_string_def truthy_def)
  with h have "Ds_diff (split_on newline a) (split_on newline b) \<in>
      set (ToolContent num t (Some (JObj kvs)) (Some (hook_event_tag e)) ev result)"
    by (simp add: ToolContent_def tool_body_tool[OF assms] DiffView_def)
  then show "\<exists>old new. Ds_diff old new \<in> set (ToolContent num t (Some (JObj kvs)) (Some (hook_event_tag e)) ev result) \<and>
         join_with [newline] old = a \<and> join_with [newline] new = b"
    using join_split_on by blast
next
  assume h: "to_lower t = ''write'' \<and> map_of kvs ''file_path'' = Some (JStr f) \<and> f \<noteq> [] \<and>
       map_of kvs ''content'' = Some (JStr d) \<and> d \<noteq> []"
  then have "{Ds_path f, Ds_code ''Content (new file)'' d} \<subseteq> set (write_view num (parseToolInput t (Some (JObj kvs))))"
    by (simp add: write_view_def path_if_def stringField_def or_string_def truthy_def)
  with h show "{Ds_path f, Ds_code ''Content (new file)'' d} \<subseteq>
      set (ToolContent num t (Some (JObj kvs)) (Some (hook_event_tag e)) ev result)"
    by (simp add: ToolContent_def tool_body_tool[OF assms])
next
  assume h: "to_lower t \<notin> {''bash'', ''edit'', ''multiedit'', ''write'', ''read'', ''grep'', ''glob''} \<and> kvs \<noteq> []"
  then show "Ds_code ''Tool Input'' (stringify num 0 (JObj kvs)) \<in>
      set (ToolContent num t (Some (JObj kvs)) (Some (hook_event_tag e)) ev result)"
    by (simp add: ToolContent_def tool_body_tool[OF assms] generic_view_def hasContent_def formatJson_def)
qed

theorem detail_shows_payload_witness:
  "Ds_code ''Command'' ''rm x'' \<in> set (ToolContent (\<lambda>_. []) ''Bash'' (Some (JObj [(''command'', JStr ''rm x'')]))
     (Some (hook_event_tag PreToolUse)) None None)"
proof -
  have "to_lower ''Bash'' = ''bash''" by code_simp
  then show ?thesis
    using detail_shows_payload[of PreToolUse "''Bash''" "[(''command'', JStr ''rm x'')]" "''rm x''" "\<lambda>_. []" None None]
    by (simp add: event_views_def)
qed

text \<open>The view of a Bash call depends on the command and the description alone: two calls
  that differ in any other parameter (a timeout, running in the background, leaving the
  sandbox) look the same to the user who is asked to approve them.\<close>

theorem bash_view_hides_parameters:
  assumes "e \<notin> event_views" and "to_lower t = ''bash''"
    and "map_of kvs ''command'' = Some (JStr c)" and "c \<noteq> []"
    and "map_of kvs' ''command'' = map_of kvs ''command''" and "map_of kvs' ''description'' = map_of kvs ''description''"
  shows "ToolContent num t (Some (JObj kvs')) (Some (hook_event_tag e)) ev result =
    ToolContent num t (Some (JObj kvs)) (Some (hook_event_tag e)) ev result"
  using assms
  by (simp add: ToolContent_def tool_body_tool bash_view_def bash_kind or_string_def stringField_def truthy_def)

theorem bash_view_hides_parameters_witness:
  "ToolContent (\<lambda>_. []) ''Bash'' (Some (JObj [(''command'', JStr ''ls''), (''dangerouslyDisableSandbox'', JBool True)]))
     (Some (hook_event_tag PreToolUse)) None None =
   ToolContent (\<lambda>_. []) ''Bash'' (Some (JObj [(''command'', JStr ''ls'')])) (Some (hook_event_tag PreToolUse)) None None"
proof -
  have "to_lower ''Bash'' = ''bash''" by code_simp
  then show ?thesis
    by (intro bash_view_hides_parameters[where c = "''ls''"]) (simp_all add: event_views_def)
qed

text \<open>What the buttons do. A request offers a way to approve it; unless it is a stop event it
  offers a way to deny it; always-allow is sent only from the confirmation dialog, a
  denial's message and an approval's context only from a dialog with text in it, trimmed; and
  every output names the request at hand. The options of a question all send the same plain
  approval, so the choice is not transmitted.\<close>

theorem detail_actions_exact:
  "(\<exists>b \<in> set (detail_buttons r). snd (detail_click i b m) = Some (Out_approve i None)) \<and>
   ((\<exists>b \<in> set (detail_buttons r). snd (detail_click i b m) = Some (Out_deny i None)) \<longleftrightarrow>
      dr_hook_event_name r \<notin> {Stop, SubagentStop}) \<and>
   (snd (detail_click i b m) = Some out \<longrightarrow> out = Out_approve i None \<or> out = Out_deny i None) \<and>
   (snd (modal_submit i typed m) = Some (Out_approve j (Some opts)) \<longrightarrow> j = i \<and>
      (m = Some Dm_always \<and> ao_always_allow opts = Some True \<and> ao_additional_context opts = None \<or>
       m = Some Dm_context \<and> ao_always_allow opts = None \<and> ao_additional_context opts = Some (trim typed) \<and> trim typed \<noteq> [])) \<and>
   (snd (modal_submit i typed m) = Some (Out_deny j (Some msg)) \<longrightarrow>
      j = i \<and> m = Some Dm_denyMsg \<and> msg = trim typed \<and> msg \<noteq> []) \<and>
   detail_click i (Db_option x) m = detail_click i (Db_option y) m"
proof (intro conjI impI)
  show "\<exists>b \<in> set (detail_buttons r). snd (detail_click i b m) = Some (Out_approve i None)"
    by (auto simp: detail_buttons_def)
  show "(\<exists>b \<in> set (detail_buttons r). snd (detail_click i b m) = Some (Out_deny i None)) \<longleftrightarrow>
      dr_hook_event_name r \<notin> {Stop, SubagentStop}"
    by (auto simp: detail_buttons_def split: tool_kind.splits option.splits if_splits)
  show "out = Out_approve i None \<or> out = Out_deny i None" if "snd (detail_click i b m) = Some out"
    using that by (cases b) auto
  show "j = i" "m = Some Dm_always \<and> ao_always_allow opts = Some True \<and> ao_additional_context opts = None \<or>
       m = Some Dm_context \<and> ao_always_allow opts = None \<and> ao_additional_context opts = Some (trim typed) \<and> trim typed \<noteq> []"
    if "snd (modal_submit i typed m) = Some (Out_approve j (Some opts))"
    using that by (auto simp: modal_submit_def Let_def split: option.splits detail_modal.splits if_splits)
  show "j = i" "m = Some Dm_denyMsg" "msg = trim typed" "msg \<noteq> []"
    if "snd (modal_submit i typed m) = Some (Out_deny j (Some msg))"
    using that by (auto simp: modal_submit_def Let_def split: option.splits detail_modal.splits if_splits)
  show "detail_click i (Db_option x) m = detail_click i (Db_option y) m" by simp
qed

theorem detail_actions_exact_witness:
  "snd (modal_submit ''r1'' '' no '' (Some Dm_denyMsg)) = Some (Out_deny ''r1'' (Some ''no'')) \<and> trim '' no '' = ''no''"
proof -
  have t: "trim '' no '' = ''no''" by code_simp
  have "snd (modal_submit ''r1'' '' no '' (Some Dm_denyMsg)) = Some (Out_deny ''r1'' (Some ''no''))"
    by (simp add: modal_submit_def t)
  with t show ?thesis
    using detail_actions_exact[where i = "''r1''" and typed = "'' no ''" and m = "Some Dm_denyMsg" and j = "''r1''" and msg = "''no''"]
    by simp
qed

end
