(* ===== verification/Content_Keys.thy ===== *)
theory Content_Keys
  imports Queue_Utils
begin

text \<open>
  The React keys of questions and options, \<open>withContentKeys\<close> of \<open>components/DetailView.tsx\<close>: a
  row is identified by its content, with a count that tells exact duplicates apart. Keys are
  the strings the code builds with \<open>JSON.stringify\<close>.
\<close>

section \<open>Keys\<close>

text \<open>\<open>JSON.stringify\<close> without indentation, on the arrays of strings and nulls it is given here.\<close>

definition json_array :: "string list \<Rightarrow> string" where
  "json_array vs = ''['' @ join_with '','' vs @ '']''"

definition json_nullable :: "string option \<Rightarrow> string" where
  "json_nullable v = (case v of Some s \<Rightarrow> json_quote s | None \<Rightarrow> ''null'')"

definition optionContent :: "ask_option \<Rightarrow> string" where
  "optionContent o' = json_array [json_quote (qo_label o'), json_nullable (qo_description o')]"

text \<open>The default \<open>sort\<close> compares strings by their code units.\<close>

fun string_le :: "string \<Rightarrow> string \<Rightarrow> bool" where
  "string_le [] t = True"
| "string_le (c # s) [] = False"
| "string_le (c # s) (d # t) =
     ((of_char c :: nat) < of_char d \<or> c = d \<and> string_le s t)"

definition cmp_string :: "string comparator" where
  "cmp_string a b = (if a = b then 0 else if string_le a b then -1 else 1)"

definition questionContent :: "ask_question \<Rightarrow> string" where
  "questionContent q = json_array [json_nullable (aq_header q), json_quote (aq_question q),
     json_array (map json_quote (js_sort cmp_string (map optionContent (aq_options q))))]"

definition content_key :: "string \<Rightarrow> nat \<Rightarrow> string" where
  "content_key identity occurrence = json_array [json_quote identity, show_nat occurrence]"

fun keyed :: "('a \<Rightarrow> string) \<Rightarrow> (string, nat) jmap \<Rightarrow> 'a list \<Rightarrow> ('a \<times> string) list" where
  "keyed content occurrences [] = []"
| "keyed content occurrences (item # items) =
     (let identity = content item;
          occurrence = (case map_of occurrences identity of Some n \<Rightarrow> n | None \<Rightarrow> 0)
      in (item, content_key identity occurrence) #
         keyed content (AList.update identity (occurrence + 1) occurrences) items)"

definition withContentKeys :: "('a \<Rightarrow> string) \<Rightarrow> 'a list \<Rightarrow> ('a \<times> string) list" where
  "withContentKeys content items = keyed content [] items"

section \<open>Injectivity\<close>

lemma hex_lower_inj: "hex_lower m = hex_lower n \<Longrightarrow> m < 16 \<Longrightarrow> n < 16 \<Longrightarrow> m = n"
proof -
  assume "hex_lower m = hex_lower n" "m < 16" "n < 16"
  then have "(of_char (hex_lower m) :: nat) = of_char (hex_lower n)" by simp
  with \<open>m < 16\<close> \<open>n < 16\<close> show ?thesis by (auto simp: hex_lower_def split: if_splits)
qed

definition backslash :: char where "backslash = char_of (92::nat)"

text \<open>An escape starts with a backslash and its second character tells which one it is.\<close>

lemma json_escape_cases:
  obtains (plain) "json_escape c = [c]" "c \<noteq> backslash" "c \<noteq> CHR 0x22"
  | (named) e where "json_escape c = [backslash, e]" "e \<noteq> CHR ''u''"
      "c = (if e = CHR ''b'' then char_of (8::nat) else if e = CHR ''f'' then char_of (12::nat)
        else if e = CHR ''n'' then char_of (10::nat) else if e = CHR ''r'' then char_of (13::nat)
        else if e = CHR ''t'' then char_of (9::nat) else e)"
  | (hex) "json_escape c = backslash # ''u00'' @ [hex_lower (of_char c div 16), hex_lower (of_char c mod 16)]"
      "(of_char c :: nat) < 32"
proof -
  have ch: "c = char_of (of_char c :: nat)" by simp
  have lit: "char_of (34::nat) = CHR 0x22" "char_of (92::nat) = CHR 0x5C" by code_simp+
  consider "(of_char c :: nat) = 34" | "(of_char c :: nat) = 92" | "(of_char c :: nat) = 8" | "(of_char c :: nat) = 12"
    | "(of_char c :: nat) = 10" | "(of_char c :: nat) = 13" | "(of_char c :: nat) = 9"
    | "(of_char c :: nat) < 32" "(of_char c :: nat) \<notin> {34, 92, 8, 12, 10, 13, 9}"
    | "\<not> (of_char c :: nat) < 32" "(of_char c :: nat) \<notin> {34, 92}"
    by blast
  then show thesis
  proof cases
    case 1 then show thesis using named[of c] ch by (auto simp: json_escape_def backslash_def lit)
  next
    case 2 then show thesis using named[of c] ch by (auto simp: json_escape_def backslash_def lit)
  next
    case 3 then show thesis using named[of "CHR ''b''"] ch by (auto simp: json_escape_def backslash_def)
  next
    case 4 then show thesis using named[of "CHR ''f''"] ch by (auto simp: json_escape_def backslash_def)
  next
    case 5 then show thesis using named[of "CHR ''n''"] ch by (auto simp: json_escape_def backslash_def)
  next
    case 6 then show thesis using named[of "CHR ''r''"] ch by (auto simp: json_escape_def backslash_def)
  next
    case 7 then show thesis using named[of "CHR ''t''"] ch by (auto simp: json_escape_def backslash_def)
  next
    case 8 then show thesis using hex by (auto simp: json_escape_def backslash_def Let_def)
  next
    case 9
    then have "c \<noteq> backslash" "c \<noteq> CHR 0x22" by (auto simp: backslash_def)
    with 9 show thesis using plain by (simp add: json_escape_def Let_def)
  qed
qed

lemma json_escape_prefix:
  assumes "json_escape c @ r = json_escape d @ t"
  shows "c = d \<and> r = t"
proof (cases c rule: json_escape_cases)
  case plain
  with assms show ?thesis by (cases d rule: json_escape_cases) auto
next
  case (named e)
  with assms show ?thesis by (cases d rule: json_escape_cases) auto
next
  case hex
  then show ?thesis
  proof (cases d rule: json_escape_cases)
    case hex2: hex
    have "hex_lower (of_char c div 16) = hex_lower (of_char d div 16)" "hex_lower (of_char c mod 16) = hex_lower (of_char d mod 16)"
      "r = t"
      using assms hex(1) hex2(1) by auto
    moreover from hex(2) hex2(2) have "of_char c div 16 < (16::nat)" "of_char d div 16 < (16::nat)" by linarith+
    ultimately have "(of_char c :: nat) div 16 = of_char d div 16" "(of_char c :: nat) mod 16 = of_char d mod 16"
      using hex_lower_inj by (metis, meson hex_lower_inj mod_less_divisor zero_less_numeral)
    then have "(of_char c :: nat) = of_char d" by (metis div_mult_mod_eq)
    with \<open>r = t\<close> show ?thesis by simp
  qed (use assms in auto)
qed

lemma escapes_inj: "concat (map json_escape s) = concat (map json_escape t) \<Longrightarrow> s = t"
proof (induction s arbitrary: t)
  case Nil
  have "json_escape c \<noteq> []" for c by (cases c rule: json_escape_cases) auto
  with Nil show ?case by (cases t) auto
next
  case (Cons c s)
  have "json_escape c \<noteq> []" by (cases c rule: json_escape_cases) auto
  with Cons.prems obtain d t' where t: "t = d # t'" by (cases t) auto
  from json_escape_prefix[of c _ d] Cons.prems t have "c = d" "concat (map json_escape s) = concat (map json_escape t')"
    by auto
  with Cons.IH t show ?case by auto
qed

lemma json_quote_inj: "json_quote s = json_quote t \<Longrightarrow> s = t"
  by (auto simp: json_quote_def intro: escapes_inj)

lemma content_key_inj: "content_key a m = content_key b n \<Longrightarrow> a = b \<and> m = n"
proof -
  assume "content_key a m = content_key b n"
  then have "json_quote a @ CHR '','' # show_nat m @ '']'' = json_quote b @ CHR '','' # show_nat n @ '']''"
    by (simp add: content_key_def json_array_def)
  moreover have "CHR '','' \<notin> set (show_nat k @ '']'')" for k
    using show_nat_digits[of k] by (auto simp: list_all_iff is_digit_def)
  ultimately have "json_quote a = json_quote b" "show_nat m @ '']'' = show_nat n @ '']''"
    using split_last_unique by metis+
  then show ?thesis using json_quote_inj show_nat_inj by simp
qed

section \<open>Occurrences\<close>

definition seen :: "(string, nat) jmap \<Rightarrow> string \<Rightarrow> nat" where
  "seen occ d = (case map_of occ d of Some n \<Rightarrow> n | None \<Rightarrow> 0)"

fun key_parts :: "('a \<Rightarrow> string) \<Rightarrow> (string, nat) jmap \<Rightarrow> 'a list \<Rightarrow> (string \<times> nat) list" where
  "key_parts content occ [] = []"
| "key_parts content occ (x # xs) =
     (content x, seen occ (content x)) #
     key_parts content (AList.update (content x) (seen occ (content x) + 1) occ) xs"

lemma seen_update: "seen (AList.update d n occ) = (seen occ)(d := n)"
  by (rule ext) (simp add: seen_def update_conv')

lemma keyed_parts: "keyed content occ xs = zip xs (map (\<lambda>(d, n). content_key d n) (key_parts content occ xs))"
  by (induction xs arbitrary: occ) (simp_all add: seen_def Let_def)

lemma length_key_parts [simp]: "length (key_parts content occ xs) = length xs"
  by (induction xs arbitrary: occ) simp_all

lemma fst_key_parts: "map fst (key_parts content occ xs) = map content xs"
  by (induction xs arbitrary: occ) simp_all

lemma set_key_parts:
  "set (key_parts content occ xs) = {(d, n). seen occ d \<le> n \<and> n < seen occ d + count_list (map content xs) d}"
  by (induction xs arbitrary: occ) (auto simp: seen_update split: if_splits)

lemma distinct_key_parts: "distinct (key_parts content occ xs)"
  by (induction xs arbitrary: occ) (auto simp: set_key_parts seen_update)

lemma snd_withContentKeys:
  "map snd (withContentKeys content xs) = map (\<lambda>(d, n). content_key d n) (key_parts content [] xs)"
  by (simp add: withContentKeys_def keyed_parts)

lemma distinct_content_keys: "distinct (map snd (withContentKeys content xs))"
  unfolding snd_withContentKeys
  by (auto simp: distinct_map distinct_key_parts inj_on_def dest: content_key_inj)

lemma in_withContentKeys:
  assumes "(x, k) \<in> set (withContentKeys content xs)"
  obtains n where "k = content_key (content x) n" "n < count_list (map content xs) (content x)"
proof -
  from assms obtain i where i: "i < length xs" "xs ! i = x" "k = (\<lambda>(d, n). content_key d n) (key_parts content [] xs ! i)"
    by (auto simp: withContentKeys_def keyed_parts set_zip)
  then have "fst (key_parts content [] xs ! i) = content x"
    using fst_key_parts[of content "[]" xs] by (metis length_key_parts nth_map)
  moreover have "key_parts content [] xs ! i \<in> set (key_parts content [] xs)" using i(1) by simp
  ultimately show thesis
    using i(3) that[of "snd (key_parts content [] xs ! i)"]
    by (auto simp: set_key_parts seen_def split: prod.splits)
qed

section \<open>Properties\<close>

text \<open>The keys of a list of questions or options identify their rows by content. No two
  rows of a list share a key; reordering a list, or replacing rows by rows of the same content,
  leaves the set of its keys unchanged; and a row whose content occurs once has the same
  key wherever it stands, so its component follows it. Only among exact duplicates does the
  position decide.\<close>

theorem content_keys_stable:
  assumes "mset (map content xs) = mset (map content ys)"
  shows "distinct (map snd (withContentKeys content xs)) \<and>
    map fst (withContentKeys content xs) = xs \<and>
    set (map snd (withContentKeys content xs)) = set (map snd (withContentKeys content ys)) \<and>
    (\<forall>x y k l. (x, k) \<in> set (withContentKeys content xs) \<and> (y, l) \<in> set (withContentKeys content ys) \<and>
       content x = content y \<and> count (mset (map content xs)) (content x) = 1 \<longrightarrow> k = l)"
proof (intro conjI allI impI)
  have count: "count_list (map content xs) d = count_list (map content ys) d" for d
    using assms by (metis count_mset)
  show "distinct (map snd (withContentKeys content xs))" by (rule distinct_content_keys)
  show "map fst (withContentKeys content xs) = xs" by (simp add: withContentKeys_def keyed_parts)
  show "set (map snd (withContentKeys content xs)) = set (map snd (withContentKeys content ys))"
    by (simp only: snd_withContentKeys set_map set_key_parts count)
  fix x y k l
  assume a: "(x, k) \<in> set (withContentKeys content xs) \<and> (y, l) \<in> set (withContentKeys content ys) \<and>
    content x = content y \<and> count (mset (map content xs)) (content x) = 1"
  then have "count_list (map content xs) (content x) = 1" by (metis count_mset)
  with a show "k = l" by (metis count in_withContentKeys less_one)
qed

definition yes_option :: ask_option where "yes_option = \<lparr>qo_label = ''Yes'', qo_description = None\<rparr>"
definition no_option :: ask_option where "no_option = \<lparr>qo_label = ''No'', qo_description = Some ''Stop''\<rparr>"

theorem content_keys_stable_witness:
  "distinct (map snd (withContentKeys optionContent [yes_option, no_option, yes_option])) \<and>
   set (map snd (withContentKeys optionContent [yes_option, no_option, yes_option])) =
   set (map snd (withContentKeys optionContent [no_option, yes_option, yes_option]))"
  using content_keys_stable[of optionContent "[yes_option, no_option, yes_option]" "[no_option, yes_option, yes_option]"]
  by (auto simp: add_mset_commute)

end
