(* ===== verification/Spawn_Modal.thy ===== *)
theory Spawn_Modal
  imports Wisphive_Properties Web_Api
begin

text \<open>
  The spawn dialog, \<open>components/SpawnModal.tsx\<close>: its fields, the submit with its guards, and the
  bounded wait for the answer. The dialog shows \<open>state.spawn\<close> of the connection hook, so a run
  of the open dialog interleaves its own events with any state updater the hook renders; the
  rest of the hook (its socket) and the clock are arguments of the events that meet them.
\<close>

section \<open>The form\<close>

definition PENDING_TIMEOUT_MS :: int where "PENDING_TIMEOUT_MS = 10000"

record spawn_form =
  sf_agentType :: agent_type
  sf_project :: string
  sf_prompt :: string
  sf_model :: string
  sf_reasoning :: string
  sf_maxTurns :: string
  sf_timedOutFor :: "string option"
  sf_timer :: "(string \<times> int) option"

definition initial_form :: "string option \<Rightarrow> spawn_form" where
  "initial_form defaultProject = \<lparr>sf_agentType = AT_claude_code,
     sf_project = (case defaultProject of Some p \<Rightarrow> p | None \<Rightarrow> []), sf_prompt = [], sf_model = [],
     sf_reasoning = [], sf_maxTurns = [], sf_timedOutFor = None, sf_timer = None\<rparr>"

section \<open>What the dialog derives from the status\<close>

definition timedOut :: "spawn_form \<Rightarrow> spawn_status option \<Rightarrow> bool" where
  "timedOut f st = (case st of Some (Spawn_pending c) \<Rightarrow> sf_timedOutFor f = Some c | _ \<Rightarrow> False)"

definition spawn_pending :: "spawn_form \<Rightarrow> spawn_status option \<Rightarrow> bool" where
  "spawn_pending f st = (case st of Some (Spawn_pending c) \<Rightarrow> \<not> timedOut f st | _ \<Rightarrow> False)"

definition spawn_is_queued :: "spawn_status option \<Rightarrow> bool" where
  "spawn_is_queued st = (case st of Some (Spawn_queued c i) \<Rightarrow> True | _ \<Rightarrow> False)"

definition nonempty :: "string \<Rightarrow> string option" where
  "nonempty s = (if s = [] then None else Some s)"

definition handleSubmit :: "spawn_form \<Rightarrow> spawn_status option \<Rightarrow> spawn_agent_request option" where
  "handleSubmit f st =
     (if trim (sf_project f) = [] \<or> trim (sf_prompt f) = [] \<or> spawn_pending f st \<or> spawn_is_queued st then None
      else Some \<lparr>sr_agent_type = Some (sf_agentType f), sr_project = trim (sf_project f),
             sr_prompt = trim (sf_prompt f), sr_model = nonempty (trim (sf_model f)),
             sr_reasoning = nonempty (trim (sf_reasoning f)),
             sr_max_turns = (if sf_maxTurns f \<noteq> [] then parseInt10 (sf_maxTurns f) else None)\<rparr>)"

definition spawn_button_disabled :: "spawn_form \<Rightarrow> spawn_status option \<Rightarrow> bool" where
  "spawn_button_disabled f st = (trim (sf_project f) = [] \<or> trim (sf_prompt f) = [] \<or> spawn_pending f st)"

text \<open>The effect's dependencies \<open>[phase, correlationId]\<close>, and the effect with its cleanup.\<close>

fun phase_key :: "spawn_status option \<Rightarrow> (string \<times> string) option" where
  "phase_key None = None"
| "phase_key (Some (Spawn_pending c)) = Some (''pending'', c)"
| "phase_key (Some (Spawn_queued c i)) = Some (''queued'', c)"
| "phase_key (Some (Spawn_refused c m)) = Some (''refused'', c)"

definition timer_effect :: "int \<Rightarrow> spawn_status option \<Rightarrow> spawn_status option \<Rightarrow> spawn_form \<Rightarrow> spawn_form" where
  "timer_effect t old new f =
     (if phase_key new = phase_key old then f
      else f\<lparr>sf_timer := (case new of
               Some (Spawn_pending c) \<Rightarrow> Some (c, t + PENDING_TIMEOUT_MS) | _ \<Rightarrow> None)\<rparr>)"

definition timer_fires :: "spawn_form \<Rightarrow> spawn_form" where
  "timer_fires f = (case sf_timer f of
       Some (c, due) \<Rightarrow> f\<lparr>sf_timedOutFor := Some c, sf_timer := None\<rparr>
     | None \<Rightarrow> f)"

section \<open>Runs of the open dialog\<close>

record spawn_dialog =
  sg_form :: spawn_form
  sg_state :: wisphive_state

datatype spawn_event =
    Sp_agentType agent_type
  | Sp_project string
  | Sp_prompt string
  | Sp_model string
  | Sp_reasoning string
  | Sp_maxTurns string
  | Sp_submit string hook
  | Sp_update updater hook
  | Sp_timeout

definition commit_state :: "int \<Rightarrow> wisphive_state \<Rightarrow> spawn_dialog \<Rightarrow> spawn_dialog" where
  "commit_state t s d = d\<lparr>sg_state := s, sg_form := timer_effect t (spawn (sg_state d)) (spawn s) (sg_form d)\<rparr>"

text \<open>
  A click is handled when everything queued before it is rendered, and its own update is
  rendered before the next one.
\<close>

definition submit_state :: "string \<Rightarrow> string \<Rightarrow> spawn_agent_request \<Rightarrow> hook \<Rightarrow> wisphive_state \<Rightarrow> wisphive_state" where
  "submit_state now corr req h s = h_state (render False now (spawnAgent now corr req (h\<lparr>h_state := s, h_updates := []\<rparr>)))"

fun sp_step :: "string \<Rightarrow> int \<Rightarrow> spawn_event \<Rightarrow> spawn_dialog \<Rightarrow> spawn_dialog" where
  "sp_step now t (Sp_agentType a) d = d\<lparr>sg_form := (sg_form d)\<lparr>sf_agentType := a\<rparr>\<rparr>"
| "sp_step now t (Sp_project x) d = d\<lparr>sg_form := (sg_form d)\<lparr>sf_project := x\<rparr>\<rparr>"
| "sp_step now t (Sp_prompt x) d = d\<lparr>sg_form := (sg_form d)\<lparr>sf_prompt := x\<rparr>\<rparr>"
| "sp_step now t (Sp_model x) d = d\<lparr>sg_form := (sg_form d)\<lparr>sf_model := x\<rparr>\<rparr>"
| "sp_step now t (Sp_reasoning x) d = d\<lparr>sg_form := (sg_form d)\<lparr>sf_reasoning := x\<rparr>\<rparr>"
| "sp_step now t (Sp_maxTurns x) d = d\<lparr>sg_form := (sg_form d)\<lparr>sf_maxTurns := x\<rparr>\<rparr>"
| "sp_step now t (Sp_submit corr h) d = (case handleSubmit (sg_form d) (spawn (sg_state d)) of
       None \<Rightarrow> d
     | Some req \<Rightarrow> commit_state t (submit_state now corr req h (sg_state d)) d)"
| "sp_step now t (Sp_update u h) d = commit_state t (h_state (run_update now u (h\<lparr>h_state := sg_state d\<rparr>))) d"
| "sp_step now t Sp_timeout d = d\<lparr>sg_form := timer_fires (sg_form d)\<rparr>"

text \<open>
  The submits so far, newest first. A correlation id is new, other updates of the hook neither
  start nor clear a spawn while the dialog is open, and the timer fires no earlier than due.
\<close>

fun sp_enabled :: "(string \<times> int) list \<Rightarrow> int \<Rightarrow> spawn_event \<Rightarrow> spawn_dialog \<Rightarrow> bool" where
  "sp_enabled subs t (Sp_submit corr h) d = (corr \<notin> fst ` set subs)"
| "sp_enabled subs t (Sp_update u h) d = (case u of U_spawn b c \<Rightarrow> False | U_clearSpawn \<Rightarrow> False | _ \<Rightarrow> True)"
| "sp_enabled subs t Sp_timeout d = (case sf_timer (sg_form d) of Some (c, due) \<Rightarrow> due \<le> t | None \<Rightarrow> False)"
| "sp_enabled subs t _ d = True"

fun sp_submits :: "int \<Rightarrow> spawn_event \<Rightarrow> spawn_dialog \<Rightarrow> (string \<times> int) list \<Rightarrow> (string \<times> int) list" where
  "sp_submits t (Sp_submit corr h) d subs =
     (if handleSubmit (sg_form d) (spawn (sg_state d)) = None then subs else (corr, t) # subs)"
| "sp_submits t _ d subs = subs"

inductive spawn_reaches :: "(string \<times> int) list \<Rightarrow> int \<Rightarrow> spawn_dialog \<Rightarrow> bool" where
  spawn_open: "spawn s = None \<Longrightarrow> spawn_reaches [] t \<lparr>sg_form = initial_form p, sg_state = s\<rparr>"
| spawn_wait: "spawn_reaches subs t d \<Longrightarrow> t \<le> t' \<Longrightarrow> spawn_reaches subs t' d"
| spawn_event: "spawn_reaches subs t d \<Longrightarrow> sp_enabled subs t e d \<Longrightarrow>
     spawn_reaches (sp_submits t e d subs) t (sp_step now t e d)"

section \<open>Lemmas\<close>

lemma drop_install_state [simp]: "h_state (drop_install m h) = h_state h"
  by (simp add: drop_install_def split: server_message.split)

lemma run_update_spawn:
  assumes "case u of U_spawn b c \<Rightarrow> False | U_clearSpawn \<Rightarrow> False | _ \<Rightarrow> True"
  shows "spawn_moves (spawn (h_state h)) (spawn (h_state (run_update now u h)))"
proof (cases u)
  case (U_message at' m)
  then show ?thesis using reduce_spawn_moves by simp
qed (use assms in \<open>simp_all add: spawn_moves.stay\<close>)

lemma submit_spawn:
  "\<exists>st. spawn (submit_state now corr req h s) = Some st \<and> correlationId st = corr \<and>
     (st = Spawn_pending corr \<or> (\<exists>m. st = Spawn_refused corr m))"
  by (simp add: submit_state_def spawnAgent_def send_def setState_def emit_def render_def run_update_mode_def
      update_state_def split: option.split)

text \<open>The wait of the newest submit, by its phase.\<close>

definition wait_ok :: "(string \<times> int) list \<Rightarrow> int \<Rightarrow> string option \<Rightarrow> (string \<times> int) option \<Rightarrow> spawn_status option \<Rightarrow> bool" where
  "wait_ok subs t out tim st =
     ((case out of Some c \<Rightarrow> c \<in> fst ` set subs | None \<Rightarrow> True) \<and>
      (case st of
         None \<Rightarrow> subs = [] \<and> tim = None
       | Some st' \<Rightarrow> subs \<noteq> [] \<and> fst (hd subs) = correlationId st' \<and> snd (hd subs) \<le> t \<and>
           (case st' of
              Spawn_pending c \<Rightarrow>
                (if out = Some c then snd (hd subs) + PENDING_TIMEOUT_MS \<le> t \<and> tim = None
                 else tim = Some (c, snd (hd subs) + PENDING_TIMEOUT_MS))
            | _ \<Rightarrow> tim = None)))"

definition wait_inv :: "(string \<times> int) list \<Rightarrow> int \<Rightarrow> spawn_dialog \<Rightarrow> bool" where
  "wait_inv subs t d = wait_ok subs t (sf_timedOutFor (sg_form d)) (sf_timer (sg_form d)) (spawn (sg_state d))"

lemmas wait_defs = wait_inv_def wait_ok_def

lemma wait_inv_update:
  assumes "wait_inv subs t d" and "spawn_moves (spawn (sg_state d)) (spawn s)"
  shows "wait_inv subs t (commit_state t s d)"
  using assms(2,1)
  by (cases rule: spawn_moves.cases) (auto simp: wait_defs commit_state_def timer_effect_def
      split: option.splits spawn_status.splits)

lemma wait_inv_submit:
  assumes inv: "wait_inv subs t d" and fresh: "corr \<notin> fst ` set subs"
  shows "wait_inv ((corr, t) # subs) t (commit_state t (submit_state now corr req h (sg_state d)) d)"
proof -
  obtain st where st: "spawn (submit_state now corr req h (sg_state d)) = Some st" "correlationId st = corr"
    "st = Spawn_pending corr \<or> (\<exists>m. st = Spawn_refused corr m)"
    using submit_spawn by blast
  have key: "phase_key (Some st) \<noteq> phase_key (spawn (sg_state d))"
  proof (cases "spawn (sg_state d)")
    case None
    then show ?thesis using st(3) by auto
  next
    case (Some old)
    with inv have "subs \<noteq> []" "correlationId old = fst (hd subs)" by (auto simp: wait_defs)
    then have "correlationId old \<in> fst ` set subs" by simp
    with fresh have "correlationId old \<noteq> corr" by metis
    with st(3) show ?thesis unfolding Some by (cases old) auto
  qed
  have old: "case sf_timedOutFor (sg_form d) of Some c \<Rightarrow> c \<in> fst ` set subs | None \<Rightarrow> True"
    using inv by (simp add: wait_defs)
  with fresh have new: "sf_timedOutFor (sg_form d) \<noteq> Some corr" by auto
  from st(3) show ?thesis
  proof (elim disjE exE)
    assume "st = Spawn_pending corr"
    with st(1) key old new show ?thesis
      by (auto simp: wait_defs commit_state_def timer_effect_def split: option.splits)
  next
    fix m assume "st = Spawn_refused corr m"
    with st(1) key old show ?thesis
      by (auto simp: wait_defs commit_state_def timer_effect_def split: option.splits)
  qed
qed

lemma wait_inv_timeout:
  assumes "wait_inv subs t d" and "sp_enabled subs t Sp_timeout d"
  shows "wait_inv subs t (sp_step now t Sp_timeout d)"
  using assms by (auto simp: wait_defs timer_fires_def split: option.splits spawn_status.splits if_splits
      dest: hd_in_set)

lemma wait_inv_reaches: "spawn_reaches subs t d \<Longrightarrow> wait_inv subs t d"
proof (induction rule: spawn_reaches.induct)
  case (spawn_open s t p)
  then show ?case by (simp add: wait_defs initial_form_def)
next
  case (spawn_wait subs t d t')
  then show ?case by (auto simp: wait_defs split: option.splits spawn_status.splits)
next
  case (spawn_event subs t d e now)
  show ?case
  proof (cases e)
    case (Sp_submit corr h)
    with spawn_event show ?thesis by (auto intro: wait_inv_submit split: option.split)
  next
    case (Sp_update u h)
    from spawn_event.hyps(2) Sp_update run_update_spawn[of u "h\<lparr>h_state := sg_state d\<rparr>" now]
    have "spawn_moves (spawn (sg_state d)) (spawn (h_state (run_update now u (h\<lparr>h_state := sg_state d\<rparr>))))" by simp
    from wait_inv_update[OF spawn_event.IH this] show ?thesis by (simp add: Sp_update)
  next
    case Sp_timeout
    with wait_inv_timeout[OF spawn_event.IH] spawn_event.hyps(2) show ?thesis by simp
  qed (use spawn_event.IH in \<open>simp_all add: wait_inv_def\<close>)
qed

section \<open>Properties\<close>

text \<open>At most one spawn is in flight. Whatever the user edits, whenever they click and
  whatever the hook renders, a submit goes out only if it is the first of the open dialog, or
  the last one was refused, or ten seconds have passed since it without an answer; once a spawn
  is queued for approval, the dialog sends no other. A submit carries the trimmed project and
  prompt, neither empty. And the wait ends: while the newest submit is unanswered, either
  its timer is armed for ten seconds after it, and when that fires the button is enabled
  again, or it has fired already.\<close>

theorem spawn_one_in_flight:
  assumes "spawn_reaches subs t d" and "f = sg_form d" and "st = spawn (sg_state d)"
  shows "(\<forall>req. handleSubmit f st = Some req \<longrightarrow>
      sr_project req = trim (sf_project f) \<and> sr_prompt req = trim (sf_prompt f) \<and>
      sr_project req \<noteq> [] \<and> sr_prompt req \<noteq> [] \<and>
      (st = None \<and> subs = [] \<or>
       (\<exists>m. st = Some (Spawn_refused (fst (hd subs)) m)) \<or>
       st = Some (Spawn_pending (fst (hd subs))) \<and> snd (hd subs) + 10000 \<le> t)) \<and>
    (\<forall>c. st = Some (Spawn_pending c) \<longrightarrow>
      (if timedOut f st then snd (hd subs) + 10000 \<le> t
       else sf_timer f = Some (c, snd (hd subs) + 10000) \<and>
         spawn_button_disabled (timer_fires f) st = (trim (sf_project f) = [] \<or> trim (sf_prompt f) = [])))"
proof (intro conjI allI impI)
  have inv: "wait_inv subs t d" by (rule wait_inv_reaches) (rule assms(1))
  fix req assume h: "handleSubmit f st = Some req"
  then show "sr_project req = trim (sf_project f)" "sr_prompt req = trim (sf_prompt f)"
    "sr_project req \<noteq> []" "sr_prompt req \<noteq> []"
    by (auto simp: handleSubmit_def split: if_splits)
  from h have "\<not> spawn_pending f st" "\<not> spawn_is_queued st" by (auto simp: handleSubmit_def split: if_splits)
  then show "st = None \<and> subs = [] \<or> (\<exists>m. st = Some (Spawn_refused (fst (hd subs)) m)) \<or>
       st = Some (Spawn_pending (fst (hd subs))) \<and> snd (hd subs) + 10000 \<le> t"
    using inv unfolding assms(2,3)
    by (auto simp: wait_defs spawn_pending_def spawn_is_queued_def timedOut_def PENDING_TIMEOUT_MS_def
        split: option.splits spawn_status.splits)
next
  have inv: "wait_inv subs t d" by (rule wait_inv_reaches) (rule assms(1))
  fix c assume c: "st = Some (Spawn_pending c)"
  then show "if timedOut f st then snd (hd subs) + 10000 \<le> t
       else sf_timer f = Some (c, snd (hd subs) + 10000) \<and>
         spawn_button_disabled (timer_fires f) st = (trim (sf_project f) = [] \<or> trim (sf_prompt f) = [])"
    using inv unfolding assms(2,3)
    by (auto simp: wait_defs timedOut_def spawn_button_disabled_def spawn_pending_def timer_fires_def
        PENDING_TIMEOUT_MS_def)
qed

text \<open>A submit on an open socket that is never answered: at ten seconds the wait is over.\<close>

definition open_hook :: hook where
  "open_hook = (initial_hook [] None)\<lparr>
     h_sockets := [\<lparr>sk_url = [], sk_ready = OPEN, sk_onclose = True\<rparr>], h_wsRef := Some 0\<rparr>"

definition asked_dialog :: spawn_dialog where
  "asked_dialog = sp_step [] 0 (Sp_submit ''c'' open_hook) (sp_step [] 0 (Sp_prompt ''fix it'')
     \<lparr>sg_form = initial_form (Some ''/p''), sg_state = initial_state\<rparr>)"

definition overdue_dialog :: spawn_dialog where
  "overdue_dialog = sp_step [] 10000 Sp_timeout asked_dialog"

theorem spawn_one_in_flight_witness:
  "spawn_pending (sg_form asked_dialog) (spawn (sg_state asked_dialog)) \<and>
   sf_timer (sg_form asked_dialog) = Some (''c'', 10000) \<and>
   handleSubmit (sg_form overdue_dialog) (spawn (sg_state overdue_dialog)) \<noteq> None"
proof -
  let ?d0 = "\<lparr>sg_form = initial_form (Some ''/p''), sg_state = initial_state\<rparr>"
  let ?d1 = "sp_step [] 0 (Sp_prompt ''fix it'') ?d0"
  have t: "trim ''fix it'' = ''fix it''" "trim ''/p'' = ''/p''" by code_simp+
  have sub: "handleSubmit (sg_form ?d1) (spawn (sg_state ?d1)) \<noteq> None"
    by (simp add: handleSubmit_def initial_form_def initial_state_def t spawn_pending_def spawn_is_queued_def)
  have "spawn_reaches [] 0 ?d0" by (rule spawn_open) (simp add: initial_state_def)
  from spawn_event[OF this, of "Sp_prompt ''fix it''" "[]"] have "spawn_reaches [] 0 ?d1" by simp
  from spawn_event[OF this, of "Sp_submit ''c'' open_hook" "[]"] 
  have "spawn_reaches (sp_submits 0 (Sp_submit ''c'' open_hook) ?d1 []) 0 asked_dialog"
    unfolding asked_dialog_def by simp
  with sub have r: "spawn_reaches [(''c'', 0)] 0 asked_dialog" by (simp only: sp_submits.simps(1) if_False)
  obtain req where req: "handleSubmit (sg_form ?d1) (spawn (sg_state ?d1)) = Some req" using sub by blast
  have st: "spawn (sg_state asked_dialog) = Some (Spawn_pending ''c'')"
    by (simp only: asked_dialog_def sp_step.simps(7) req option.case commit_state_def)
      (simp add: submit_state_def spawnAgent_def send_def setState_def emit_def render_def run_update_mode_def
        update_state_def open_socket_def open_hook_def)
  have form: "sf_timedOutFor (sg_form asked_dialog) = None" "sf_project (sg_form asked_dialog) = ''/p''"
    "sf_prompt (sg_form asked_dialog) = ''fix it''"
    by (simp_all only: asked_dialog_def sp_step.simps(7) req option.case commit_state_def)
      (simp_all add: timer_effect_def initial_form_def)
  from spawn_one_in_flight[OF r HOL.refl HOL.refl] st form
  have timer: "sf_timer (sg_form asked_dialog) = Some (''c'', 10000)" by (simp add: timedOut_def)
  then have "handleSubmit (sg_form overdue_dialog) (spawn (sg_state overdue_dialog)) \<noteq> None"
    by (simp add: overdue_dialog_def timer_fires_def handleSubmit_def form st t spawn_pending_def spawn_is_queued_def timedOut_def)
  with timer show ?thesis by (simp add: st spawn_pending_def timedOut_def form)
qed

text \<open>An exponent is not read: the field accepts \<open>1e3\<close>, and the request asks for one turn.\<close>

lemma parseInt_exponent: "parseInt10 ''1e3'' = Some 1" by code_simp

end
