(* ===== verification/Project_History.thy ===== *)
theory Project_History
  imports App_Shell
begin

text \<open>
  The Projects, History and Sessions views (\<open>components/Projects.tsx\<close>, \<open>History.tsx\<close>,
  \<open>HistoryEntryItem.tsx\<close>, \<open>Sessions.tsx\<close>): the gate badge and the confirmed installation of
  hooks, the queries the History view issues, and what a drill-down from a project shows.
  A view's commands to the connection hook are collected in the order it issues them.
\<close>

section \<open>Projects\<close>

datatype gate_state = Gs_gated | Gs_needs_repair | Gs_not_gated | Gs_unknown

definition deriveGateState :: "project_hook_status option \<Rightarrow> gate_state" where
  "deriveGateState status = (case status of
       None \<Rightarrow> Gs_unknown
     | Some s \<Rightarrow>
         (if hs_all_installed s \<and> hs_mode s = ''active'' then Gs_gated
          else if hs_claude_installed s \<or> hs_codex_installed s \<or> hs_all_installed s then Gs_needs_repair
          else Gs_not_gated))"

fun BADGE_LABEL :: "gate_state \<Rightarrow> string" where
  "BADGE_LABEL Gs_gated = ''Gated''"
| "BADGE_LABEL Gs_needs_repair = ''Needs repair''"
| "BADGE_LABEL Gs_not_gated = ''Not gated''"
| "BADGE_LABEL Gs_unknown = ''Checking'' @ ellipsis_char"

definition duration :: "string \<Rightarrow> string \<Rightarrow> string" where
  "duration first_seen last_seen = (case (get_time first_seen, get_time last_seen) of
       (Some start, Some end') \<Rightarrow>
         let seconds = (end' - start) div 1000 in
         if seconds < 60 then show_int seconds @ ''s''
         else if seconds < 3600 then show_int (seconds div 60) @ ''m''
         else show_int (seconds div 3600) @ ''h '' @ show_int (seconds mod 3600 div 60) @ ''m''
     | _ \<Rightarrow> em_dash)"

record projects_view =
  pv_gatePath :: string
  pv_pendingInstall :: "string option"
  pv_installed :: "string list"

definition initial_projects :: projects_view where
  "initial_projects = \<lparr>pv_gatePath = [], pv_pendingInstall = None, pv_installed = []\<rparr>"

text \<open>The effect over the list: the status of every listed project is asked for.\<close>

definition query_statuses :: "project_summary list \<Rightarrow> user_command list" where
  "query_statuses ps = map (\<lambda>p. Do_queryProjectHookStatus (pj_project p)) ps"

definition submitGatePath :: "projects_view \<Rightarrow> projects_view" where
  "submitGatePath v =
     (let trimmed = trim (pv_gatePath v) in if trimmed \<noteq> [] then v\<lparr>pv_pendingInstall := Some trimmed\<rparr> else v)"

definition confirmInstall :: "projects_view \<Rightarrow> projects_view" where
  "confirmInstall v = (case pv_pendingInstall v of
       Some p \<Rightarrow>
         (if p \<noteq> [] then v\<lparr>pv_installed := pv_installed v @ [p],
                        pv_gatePath := (if p = trim (pv_gatePath v) then [] else pv_gatePath v),
                        pv_pendingInstall := None\<rparr>
          else v\<lparr>pv_pendingInstall := None\<rparr>)
     | None \<Rightarrow> v)"

text \<open>The dialog is on the page while a non-empty path is pending; a project's button only when its gate state offers it.\<close>

definition install_dialog :: "projects_view \<Rightarrow> bool" where
  "install_dialog v = (case pv_pendingInstall v of Some p \<Rightarrow> p \<noteq> [] | None \<Rightarrow> False)"

definition gate_button :: "project_hook_status option \<Rightarrow> bool" where
  "gate_button status = (deriveGateState status \<in> {Gs_not_gated, Gs_needs_repair})"

datatype gate_gesture =
    Gp_type string
  | Gp_submit
  | Gp_button string "project_hook_status option"
  | Gp_confirm
  | Gp_close

fun gate_step :: "gate_gesture \<Rightarrow> projects_view \<Rightarrow> projects_view" where
  "gate_step (Gp_type s) v = v\<lparr>pv_gatePath := s\<rparr>"
| "gate_step Gp_submit v = submitGatePath v"
| "gate_step (Gp_button p status) v = (if gate_button status then v\<lparr>pv_pendingInstall := Some p\<rparr> else v)"
| "gate_step Gp_confirm v = (if install_dialog v then confirmInstall v else v)"
| "gate_step Gp_close v = v\<lparr>pv_pendingInstall := None\<rparr>"

definition gate_run :: "gate_gesture list \<Rightarrow> projects_view" where
  "gate_run gs = fold gate_step gs initial_projects"

section \<open>History\<close>

record history_view =
  hv_search :: string
  hv_agentFilter :: "string option"
  hv_expandedId :: "string option"
  hv_commands :: "user_command list"

definition onLoad :: "string option \<Rightarrow> history_view \<Rightarrow> history_view" where
  "onLoad agent v = v\<lparr>hv_commands := hv_commands v @ [Do_queryHistory agent]\<rparr>"

text \<open>The effect with dependency \<open>agentFilter\<close>: on mount and on every change.\<close>

definition filter_effect :: "string option \<Rightarrow> history_view \<Rightarrow> history_view" where
  "filter_effect old v = (if hv_agentFilter v = old then v else onLoad (hv_agentFilter v) v)"

definition mount_history :: history_view where
  "mount_history = onLoad None \<lparr>hv_search = [], hv_agentFilter = None, hv_expandedId = None, hv_commands = []\<rparr>"

definition handleSearch :: "history_view \<Rightarrow> history_view" where
  "handleSearch v =
     (if trim (hv_search v) \<noteq> []
      then v\<lparr>hv_commands := hv_commands v @ [Do_searchHistory (trim (hv_search v)) None]\<rparr>
      else onLoad (hv_agentFilter v) v)"

definition clearFilters :: "history_view \<Rightarrow> history_view" where
  "clearFilters v = filter_effect (hv_agentFilter v) (onLoad None (v\<lparr>hv_agentFilter := None, hv_search := []\<rparr>))"

datatype history_gesture =
    Hg_type string
  | Hg_search
  | Hg_refresh
  | Hg_clear
  | Hg_agent string
  | Hg_toggle string

fun history_step :: "history_gesture \<Rightarrow> history_view \<Rightarrow> history_view" where
  "history_step (Hg_type s) v = v\<lparr>hv_search := s\<rparr>"
| "history_step Hg_search v = handleSearch v"
| "history_step Hg_refresh v = onLoad (hv_agentFilter v) v"
| "history_step Hg_clear v =
     (if hv_agentFilter v \<noteq> None \<or> hv_search v \<noteq> [] then clearFilters v else v)"
| "history_step (Hg_agent a) v = filter_effect (hv_agentFilter v) (v\<lparr>hv_agentFilter := Some a\<rparr>)"
| "history_step (Hg_toggle i) v =
     v\<lparr>hv_expandedId := (if hv_expandedId v = Some i then None else Some i)\<rparr>"

definition history_run :: "history_gesture list \<Rightarrow> history_view" where
  "history_run gs = fold history_step gs mount_history"

text \<open>The badge of a row: the class and the text.\<close>

fun decisionBadge :: "decision \<Rightarrow> string \<times> string" where
  "decisionBadge D_approve = (''badge-approve'', ''APPROVE'')"
| "decisionBadge D_deny = (''badge-deny'', ''DENY'')"
| "decisionBadge D_ask = (''badge-defer'', ''ASK'')"

section \<open>Sessions\<close>

text \<open>The expanded entry is remembered with the session it was opened in.\<close>

record sessions_view =
  sv_agentId :: "string option"
  sv_entryId :: "string option"

definition expandedId :: "string option \<Rightarrow> sessions_view \<Rightarrow> string option" where
  "expandedId selectedAgent v = (if sv_agentId v = selectedAgent then sv_entryId v else None)"

definition toggle_entry :: "string option \<Rightarrow> string \<Rightarrow> sessions_view \<Rightarrow> sessions_view" where
  "toggle_entry selectedAgent i v =
     \<lparr>sv_agentId = selectedAgent, sv_entryId = (if expandedId selectedAgent v = Some i then None else Some i)\<rparr>"

section \<open>Lemmas\<close>

text \<open>An entry opened in one session is never open in another, and toggling twice closes it.\<close>

lemma expanded_entry:
  "expandedId b (toggle_entry a i v) = (if a = b then if expandedId a v = Some i then None else Some i else None)"
  by (simp add: expandedId_def toggle_entry_def)

text \<open>A gesture that puts \<open>p\<close> up for confirmation.\<close>

fun proposes :: "string \<Rightarrow> gate_gesture list \<Rightarrow> gate_gesture \<Rightarrow> bool" where
  "proposes p before (Gp_button q status) = (p = q \<and> gate_button status)"
| "proposes p before Gp_submit = (p = trim (pv_gatePath (gate_run before)))"
| "proposes p before _ = False"

fun decides :: "gate_gesture \<Rightarrow> bool" where
  "decides Gp_confirm = True" | "decides Gp_close = True" | "decides _ = False"

definition proposed :: "string \<Rightarrow> gate_gesture list \<Rightarrow> bool" where
  "proposed p gs \<longleftrightarrow> (\<exists>before g after. gs = before @ g # after \<and> proposes p before g \<and>
     list_all (\<lambda>x. \<not> decides x) after)"

lemma gate_run_snoc: "gate_run (gs @ [g]) = gate_step g (gate_run gs)"
  by (simp add: gate_run_def)

lemma proposed_now: "proposes p gs g \<Longrightarrow> proposed p (gs @ [g])"
  unfolding proposed_def by (metis append.assoc append_Cons append_Nil list.pred_inject(1))

lemma proposed_later: "proposed p gs \<Longrightarrow> \<not> decides g \<Longrightarrow> proposed p (gs @ [g])"
  unfolding proposed_def
  by (metis append.assoc append_Cons list_all_append list.pred_inject)

lemma pending_proposed: "pv_pendingInstall (gate_run gs) = Some p \<Longrightarrow> p \<noteq> [] \<Longrightarrow> proposed p gs"
proof (induction gs rule: rev_induct)
  case Nil
  then show ?case by (simp add: gate_run_def initial_projects_def)
next
  case (snoc g gs)
  then show ?case
    by (cases g) (auto simp: gate_run_snoc submitGatePath_def confirmInstall_def install_dialog_def Let_def
        intro: proposed_now proposed_later split: if_splits option.splits)
qed

lemma history_run_snoc: "history_run (gs @ [g]) = history_step g (history_run gs)"
  by (simp add: history_run_def)

section \<open>Properties\<close>

text \<open>The page asks the daemon to write hooks into a project only after a confirmation
  of exactly that path. In every sequence of gestures, each installation is the effect of a
  confirm, the dialog on the page names its path at that moment, and an earlier gesture put
  that path up (the path field, trimmed and not blank, or the button of a project that is not
  gated or needs repair) with no confirm or cancel in between. A confirm installs one path
  and closes the dialog, so a second one does nothing.\<close>

theorem installs_are_confirmed:
  "(\<forall>g p. pv_installed (gate_run (gs @ [g])) = pv_installed (gate_run gs) @ [p] \<longrightarrow>
      g = Gp_confirm \<and> p \<noteq> [] \<and> pv_pendingInstall (gate_run gs) = Some p \<and> proposed p gs) \<and>
   (\<forall>g. pv_installed (gate_run (gs @ [g])) = pv_installed (gate_run gs) \<or>
      (\<exists>p. pv_installed (gate_run (gs @ [g])) = pv_installed (gate_run gs) @ [p])) \<and>
   pv_installed (gate_run (gs @ [Gp_confirm, Gp_confirm])) = pv_installed (gate_run (gs @ [Gp_confirm]))"
proof (intro conjI allI impI)
  fix g p assume "pv_installed (gate_run (gs @ [g])) = pv_installed (gate_run gs) @ [p]"
  then show g: "g = Gp_confirm" and p: "p \<noteq> []" and pend: "pv_pendingInstall (gate_run gs) = Some p"
    by (cases g; force simp: gate_run_snoc submitGatePath_def confirmInstall_def install_dialog_def Let_def
        split: if_splits option.splits)+
  from pend p show "proposed p gs" by (rule pending_proposed)
next
  fix g show "pv_installed (gate_run (gs @ [g])) = pv_installed (gate_run gs) \<or>
      (\<exists>p. pv_installed (gate_run (gs @ [g])) = pv_installed (gate_run gs) @ [p])"
    by (cases g) (auto simp: gate_run_snoc submitGatePath_def confirmInstall_def Let_def split: option.splits)
next
  have "gs @ [Gp_confirm, Gp_confirm] = (gs @ [Gp_confirm]) @ [Gp_confirm]" by simp
  then show "pv_installed (gate_run (gs @ [Gp_confirm, Gp_confirm])) = pv_installed (gate_run (gs @ [Gp_confirm]))"
    by (simp only: gate_run_snoc) (auto simp: confirmInstall_def install_dialog_def split: option.splits)
qed

theorem installs_are_confirmed_witness:
  "pv_installed (gate_run [Gp_type '' /p '', Gp_submit, Gp_confirm]) = [''/p''] \<and>
   proposed ''/p'' [Gp_type '' /p '', Gp_submit]"
proof -
  have t: "trim '' /p '' = ''/p''" by code_simp
  have "pv_installed (gate_run [Gp_type '' /p '', Gp_submit]) = []"
    "pv_installed (gate_run ([Gp_type '' /p '', Gp_submit] @ [Gp_confirm])) = [] @ [''/p'']"
    by (simp_all add: gate_run_def initial_projects_def submitGatePath_def confirmInstall_def install_dialog_def t)
  then show ?thesis using installs_are_confirmed[of "[Gp_type '' /p '', Gp_submit]"] by auto
qed

text \<open>Which rows the History view asks for. From mount on, and after any gestures, the
  last command it has issued is the query for the agent whose filter tag is shown (or for all,
  when none is), or a search that the user submitted. But a search never carries the agent:
  with the tag of any agent on the page, a submitted text is searched over all agents, and the
  tag stays.\<close>

theorem history_query_matches_tag:
  "hv_commands (history_run gs) \<noteq> [] \<and>
   (last (hv_commands (history_run gs)) = Do_queryHistory (hv_agentFilter (history_run gs)) \<or>
    (\<exists>before s after. gs = before @ Hg_search # after \<and> s = trim (hv_search (history_run before)) \<and> s \<noteq> [] \<and>
       last (hv_commands (history_run gs)) = Do_searchHistory s None)) \<and>
   (\<forall>a s. trim s \<noteq> [] \<longrightarrow>
     (let v = history_run (gs @ [Hg_agent a, Hg_type s, Hg_search])
      in hv_agentFilter v = Some a \<and> last (hv_commands v) = Do_searchHistory (trim s) None))"
proof (intro conjI allI impI)
  show "hv_commands (history_run gs) \<noteq> []"
  proof (induction gs rule: rev_induct)
    case (snoc g gs)
    then show ?case
      by (cases g) (auto simp: history_run_snoc onLoad_def handleSearch_def clearFilters_def filter_effect_def)
  qed (simp add: history_run_def mount_history_def onLoad_def)
  show "last (hv_commands (history_run gs)) = Do_queryHistory (hv_agentFilter (history_run gs)) \<or>
    (\<exists>before s after. gs = before @ Hg_search # after \<and> s = trim (hv_search (history_run before)) \<and> s \<noteq> [] \<and>
       last (hv_commands (history_run gs)) = Do_searchHistory s None)"
    (is "?query gs \<or> ?search gs")
  proof (induction gs rule: rev_induct)
    case Nil
    then show ?case by (simp add: history_run_def mount_history_def onLoad_def)
  next
    case (snoc g gs)
    show ?case
    proof (cases "hv_commands (history_run (gs @ [g])) = hv_commands (history_run gs)")
      case True
      then have "hv_agentFilter (history_run (gs @ [g])) = hv_agentFilter (history_run gs)"
        by (cases g) (auto simp: history_run_snoc onLoad_def handleSearch_def clearFilters_def filter_effect_def
            split: if_splits)
      with snoc.IH True show ?thesis by (metis append.assoc append_Cons)
    next
      case False
      show ?thesis
      proof (cases "g = Hg_search \<and> trim (hv_search (history_run gs)) \<noteq> []")
        case True
        then have "?search (gs @ [g])" by (auto simp: history_run_snoc handleSearch_def)
        then show ?thesis ..
      next
        case other: False
        with False have "?query (gs @ [g])"
          by (cases g) (auto simp: history_run_snoc onLoad_def handleSearch_def clearFilters_def filter_effect_def
              split: if_splits)
        then show ?thesis ..
      qed
    qed
  qed
  fix a s assume "trim s \<noteq> []"
  then show "let v = history_run (gs @ [Hg_agent a, Hg_type s, Hg_search])
      in hv_agentFilter v = Some a \<and> last (hv_commands v) = Do_searchHistory (trim s) None"
    by (simp add: history_run_def handleSearch_def filter_effect_def onLoad_def)
qed

theorem history_query_matches_tag_witness:
  "hv_agentFilter (history_run [Hg_agent ''a'', Hg_type ''rm'', Hg_search]) = Some ''a'' \<and>
   last (hv_commands (history_run [Hg_agent ''a'', Hg_type ''rm'', Hg_search])) = Do_searchHistory ''rm'' None"
proof -
  have "trim ''rm'' = ''rm''" by code_simp
  with history_query_matches_tag[of "[]"] show ?thesis by (auto simp: Let_def)
qed

text \<open>A drill-down from a project does not show the project. The click sends the search
  for the project, and the History view it opens sends its own query for everything when it
  mounts; both ask for their answer on the same channel, so the rows shown are those of
  whichever answer is rendered last: when the answers come in the order of the requests, the
  project's rows are replaced by everybody's.\<close>

theorem drill_down_overwritten:
  assumes "open_socket (ap_hook a) = Some i" and "sh_view (ap_shell a) = V_projects"
    and "a1 = app_step now (G_drillDown p) a"
    and "h = fold (run_command now) (hv_commands mount_history) (ap_hook a1)"
  shows "sh_view (ap_shell a1) = V_history \<and>
    h_log h = h_log (ap_hook a) @
      [Sent i (plain (Cm_search_history (Some p) None None (Some 200) (Some CHANNEL_HISTORY))),
       Sent i (plain (Cm_query_history None (Some 200) (Some CHANNEL_HISTORY)))] \<and>
    (\<forall>s ofProject ofAll. history (fold (\<lambda>entries. reduce now (Sm_history_response entries (Some CHANNEL_HISTORY)))
        [ofProject, ofAll] s) = ofAll)"
proof (intro conjI allI)
  have a1: "a1 = setView V_history (on_hook now (Ev_command (Do_searchHistory p None)) a)"
    using assms(2) by (simp add: assms(3) app_step_def shell_effects_def on_shell_def on_hook_def Let_def)
  then show "sh_view (ap_shell a1) = V_history" by (simp add: on_shell_def)
  have sock: "open_socket (fst (send now m q k)) = open_socket k" for m q k
    by (cases "h_wsRef k") (simp_all add: open_socket_def)
  have "h = queryHistory now None (searchHistory now p None (ap_hook a))"
    by (simp add: assms(4) a1 mount_history_def onLoad_def on_shell_def on_hook_def)
  then show "h_log h = h_log (ap_hook a) @
      [Sent i (plain (Cm_search_history (Some p) None None (Some 200) (Some CHANNEL_HISTORY))),
       Sent i (plain (Cm_query_history None (Some 200) (Some CHANNEL_HISTORY)))]"
    using assms(1) sock by (simp add: queryHistory_def searchHistory_def send_log)
  have chan: "\<not> starts_with CHANNEL_HISTORY CHANNEL_AGENT" "\<not> starts_with CHANNEL_HISTORY CHANNEL_SESSION"
    by code_simp+
  fix s ofProject ofAll
  show "history (fold (\<lambda>entries. reduce now (Sm_history_response entries (Some CHANNEL_HISTORY)))
        [ofProject, ofAll] s) = ofAll"
    using chan by (simp add: route_history_def)
qed

definition projects_app :: app where
  "projects_app = (initial_app [] None)\<lparr>ap_shell := initial_shell\<lparr>sh_view := V_projects\<rparr>,
     ap_hook := (initial_hook [] None)\<lparr>
       h_sockets := [\<lparr>sk_url = [], sk_ready = OPEN, sk_onclose = True\<rparr>], h_wsRef := Some 0\<rparr>\<rparr>"

definition project_row :: history_entry where
  "project_row = \<lparr>he_id = ''1'', he_agent_id = ''a'', he_agent_type = ''codex'', he_project = ''/p'',
     he_tool_name = ''Bash'', he_tool_input = JNull, he_decision = D_approve,
     he_requested_at = ''2024-01-01T00:00:00Z'', he_resolved_at = ''2024-01-01T00:00:01Z'', he_tool_result = None,
     he_tool_use_id = None, he_hook_event_name = None, he_terminal_session_id = None, he_decided_by = None,
     he_config_hash = None\<rparr>"

theorem drill_down_overwritten_witness:
  "sh_view (ap_shell (app_step [] (G_drillDown ''/p'') projects_app)) = V_history \<and>
   history (fold (\<lambda>entries. reduce [] (Sm_history_response entries (Some CHANNEL_HISTORY)))
     [[project_row], []] initial_state) = []"
proof -
  have "open_socket (ap_hook projects_app) = Some 0" "sh_view (ap_shell projects_app) = V_projects"
    by (simp_all add: projects_app_def open_socket_def)
  from drill_down_overwritten[OF this HOL.refl HOL.refl, of "[]" "''/p''"] show ?thesis by blast
qed

end
