(* ===== verification/Side_Views.thy ===== *)
theory Side_Views
  imports Project_History Commit_Message
begin

text \<open>
  The Agents and Worktrees views (\<open>components/Agents.tsx\<close>, \<open>Worktrees.tsx\<close>): which decisions an
  agent's card and its drill-down show, and the order, labels and commit message of the
  working-tree strip.
\<close>

section \<open>Agents\<close>

text \<open>The view's own \<open>timeAgo\<close>; a timestamp that is no instant prints as NaN.\<close>

definition agents_timeAgo :: "string \<Rightarrow> int \<Rightarrow> string" where
  "agents_timeAgo ts now = (case get_time ts of
       None \<Rightarrow> ''NaNh NaNm ago''
     | Some t \<Rightarrow>
         let seconds = (now - t) div 1000 in
         if seconds < 60 then show_int seconds @ ''s ago''
         else if seconds < 3600 then show_int (seconds div 60) @ ''m ago''
         else show_int (seconds div 3600) @ ''h '' @ show_int (seconds mod 3600 div 60) @ ''m ago'')"

text \<open>The view's own \<open>inputSummary\<close>, on one line of 60 characters for a command.\<close>

definition agents_inputSummary :: "string \<Rightarrow> json option \<Rightarrow> string" where
  "agents_inputSummary toolName input =
     (let parsed = parseToolInput toolName input;
          fs = pt_fields parsed;
          rest = (if truthy (ct_filePath fs) then the (ct_filePath fs)
                  else if truthy (ct_pattern fs) then ''/'' @ the (ct_pattern fs) @ ''/''
                  else case pt_kind parsed of
                         Tk_ask (Some qs) \<Rightarrow> (case qs of q # _ \<Rightarrow> aq_question q | [] \<Rightarrow> [])
                       | _ \<Rightarrow> [])
      in case pt_kind parsed of
           Tk_bash b \<Rightarrow>
             (if truthy (bi_command b)
              then let cmd = the (bi_command b) in if length cmd > 60 then take 57 cmd @ ''...'' else cmd
              else rest)
         | _ \<Rightarrow> rest)"

definition agentPending :: "string \<Rightarrow> decision_request list \<Rightarrow> decision_request list" where
  "agentPending agentId que = filter (\<lambda>r. dr_agent_id r = agentId) que"

record agent_card =
  ac_agentId :: string
  ac_pending :: nat
  ac_waiting :: "(string \<times> string) option"

text \<open>A card: the count, and the tool and summary of the newest pending decision.\<close>

definition agent_card_of :: "decision_request list \<Rightarrow> agent_info \<Rightarrow> agent_card" where
  "agent_card_of que a =
     (let pending = agentPending (ai_agent_id a) que in
      \<lparr>ac_agentId = ai_agent_id a, ac_pending = length pending,
       ac_waiting = (if pending = [] then None
         else let r = last pending in Some (dr_tool_name r, agents_inputSummary (dr_tool_name r) (Some (dr_tool_input r))))\<rparr>)"

definition agent_cards :: "agent_info list \<Rightarrow> decision_request list \<Rightarrow> agent_card list" where
  "agent_cards as que = map (agent_card_of que) as"

section \<open>Worktrees\<close>

definition dirty_tree :: "worktree_status \<Rightarrow> bool" where
  "dirty_tree w \<longleftrightarrow> wt_is_git_repo w \<and> wt_changes w \<noteq> []"

definition clean_tree :: "worktree_status \<Rightarrow> bool" where
  "clean_tree w \<longleftrightarrow> wt_is_git_repo w \<and> wt_changes w = []"

definition ordered_trees :: "worktree_status list \<Rightarrow> worktree_status list" where
  "ordered_trees ws = filter dirty_tree ws @ filter clean_tree ws @ filter (\<lambda>w. \<not> wt_is_git_repo w) ws"

definition tree_counts :: "worktree_status list \<Rightarrow> nat \<times> nat \<times> nat" where
  "tree_counts ws = (length (filter dirty_tree ws), length (filter clean_tree ws),
     length (filter (\<lambda>w. \<not> wt_is_git_repo w) ws))"

definition branchLabel :: "worktree_status \<Rightarrow> string" where
  "branchLabel w =
     (if \<not> wt_is_git_repo w then ''not a git repository''
      else if wt_detached w
      then ''detached @ '' @ (if truthy (wt_head w) then take 12 (the (wt_head w)) else ''?'')
      else if truthy (wt_branch w) \<and> \<not> truthy (wt_head w) then the (wt_branch w) @ '' (no commits yet)''
      else case wt_branch w of Some b \<Rightarrow> b | None \<Rightarrow> ''unknown branch'')"

definition attributedCount :: "worktree_status \<Rightarrow> nat" where
  "attributedCount w = length (filter (\<lambda>c. truthy (wc_attributed_to c)) (wt_changes w))"

definition ahead_behind :: "worktree_status \<Rightarrow> (int \<times> int) option" where
  "ahead_behind w =
     (if truthy (wt_upstream w) \<and> (wt_ahead w \<noteq> None \<or> wt_behind w \<noteq> None)
      then Some (case wt_ahead w of Some n \<Rightarrow> n | None \<Rightarrow> 0, case wt_behind w of Some n \<Rightarrow> n | None \<Rightarrow> 0)
      else None)"

text \<open>The suggested message is on the card only beneath a list of changes.\<close>

definition suggested_message :: "worktree_status \<Rightarrow> generated_commit option" where
  "suggested_message w = (if wt_changes w \<noteq> [] then generateCommitMessage w else None)"

section \<open>Lemmas\<close>

lemma pending_sum:
  "distinct ids \<Longrightarrow> sum_list (map (\<lambda>i. length (agentPending i que)) ids) =
     length (filter (\<lambda>r. dr_agent_id r \<in> set ids) que)"
proof (induction ids)
  case (Cons i ids)
  have "length (filter (\<lambda>r. dr_agent_id r \<in> set (i # ids)) que) =
      length (agentPending i que) + length (filter (\<lambda>r. dr_agent_id r \<in> set ids) que)"
    using Cons.prems by (induction que) (auto simp: agentPending_def)
  with Cons show ?case by simp
qed simp

lemma filter_distinct_one: "distinct xs \<Longrightarrow> x \<in> set xs \<Longrightarrow> length (filter ((=) x) xs) = 1"
  by (induction xs) (auto simp: filter_empty_conv)

section \<open>Properties\<close>

text \<open>The agent cards account for the queue. With distinct agents, the pending counts
  add up to the queued decisions of connected agents: each is counted on its agent's card and on
  no other. A card shows no wait exactly when nothing of its agent is queued, and otherwise the
  newest of its decisions. Decisions of agents that are not connected are on no card.\<close>

theorem agent_cards_account_for_queue:
  assumes "distinct (map ai_agent_id as)"
  shows "sum_list (map ac_pending (agent_cards as que)) =
      length (filter (\<lambda>r. dr_agent_id r \<in> ai_agent_id ` set as) que) \<and>
    (\<forall>r. r \<in> set que \<and> dr_agent_id r \<in> ai_agent_id ` set as \<longrightarrow>
       length (filter (\<lambda>c. r \<in> set (agentPending (ac_agentId c) que)) (agent_cards as que)) = 1) \<and>
    (\<forall>c. c \<in> set (agent_cards as que) \<longrightarrow> (ac_waiting c = None \<longleftrightarrow> (\<forall>r. r \<in> set que \<longrightarrow> dr_agent_id r \<noteq> ac_agentId c)))"
proof (intro conjI allI impI)
  have "sum_list (map ac_pending (agent_cards as que)) = sum_list (map (\<lambda>i. length (agentPending i que)) (map ai_agent_id as))"
    by (simp add: agent_cards_def agent_card_of_def Let_def comp_def)
  also have "\<dots> = length (filter (\<lambda>r. dr_agent_id r \<in> ai_agent_id ` set as) que)"
    using pending_sum[OF assms] by simp
  finally show "sum_list (map ac_pending (agent_cards as que)) =
      length (filter (\<lambda>r. dr_agent_id r \<in> ai_agent_id ` set as) que)" .
next
  fix r assume r: "r \<in> set que \<and> dr_agent_id r \<in> ai_agent_id ` set as"
  have "length (filter (\<lambda>c. r \<in> set (agentPending (ac_agentId c) que)) (agent_cards as que)) =
      length (filter ((=) (dr_agent_id r)) (map ai_agent_id as))"
    using r by (simp add: agent_cards_def agent_card_of_def agentPending_def filter_map comp_def Let_def)
  also have "\<dots> = 1" using filter_distinct_one[OF assms, of "dr_agent_id r"] r by simp
  finally show "length (filter (\<lambda>c. r \<in> set (agentPending (ac_agentId c) que)) (agent_cards as que)) = 1" .
next
  fix c assume "c \<in> set (agent_cards as que)"
  then show "ac_waiting c = None \<longleftrightarrow> (\<forall>r. r \<in> set que \<longrightarrow> dr_agent_id r \<noteq> ac_agentId c)"
    by (auto simp: agent_cards_def agent_card_of_def agentPending_def Let_def filter_empty_conv split: if_splits)
qed

definition worker :: "string \<Rightarrow> agent_info" where
  "worker i = \<lparr>ai_agent_id = i, ai_agent_type = AT_codex, ai_project = ''/p'',
     ai_connected_at = ''2024-01-01T00:00:00Z'', ai_last_seen = ''2024-01-01T00:00:00Z''\<rparr>"

theorem agent_cards_account_for_queue_witness:
  "sum_list (map ac_pending (agent_cards [worker ''a'', worker ''b''] [])) = 0 \<and>
   ac_waiting (agent_card_of [] (worker ''a'')) = None"
proof -
  have d: "distinct (map ai_agent_id [worker ''a'', worker ''b''])" by (simp add: worker_def)
  have c: "agent_card_of [] (worker ''a'') \<in> set (agent_cards [worker ''a'', worker ''b''] [])"
    by (simp add: agent_cards_def)
  from agent_cards_account_for_queue[OF d, of "[]"] c show ?thesis by auto
qed

text \<open>The strip shows every tree once: those with changes first, then the clean ones, then what
  is not a repository, each group in the daemon's order, and the three counts of the header add
  up. A commit message is offered exactly for the trees of the first group.\<close>

theorem worktree_strip_exact:
  "mset (ordered_trees ws) = mset ws \<and>
   (case tree_counts ws of (d, c, n) \<Rightarrow> d + c + n = length ws \<and>
      list_all dirty_tree (take d (ordered_trees ws)) \<and>
      list_all clean_tree (take c (drop d (ordered_trees ws))) \<and>
      list_all (\<lambda>w. \<not> wt_is_git_repo w) (drop (d + c) (ordered_trees ws))) \<and>
   (suggested_message w \<noteq> None \<longleftrightarrow> dirty_tree w)"
proof (intro conjI)
  show "mset (ordered_trees ws) = mset ws"
    by (induction ws) (auto simp: ordered_trees_def dirty_tree_def clean_tree_def)
  have "length (filter dirty_tree ws) + length (filter clean_tree ws) + length (filter (\<lambda>w. \<not> wt_is_git_repo w) ws) = length ws"
    by (induction ws) (auto simp: dirty_tree_def clean_tree_def)
  then show "case tree_counts ws of (d, c, n) \<Rightarrow> d + c + n = length ws \<and>
      list_all dirty_tree (take d (ordered_trees ws)) \<and>
      list_all clean_tree (take c (drop d (ordered_trees ws))) \<and>
      list_all (\<lambda>w. \<not> wt_is_git_repo w) (drop (d + c) (ordered_trees ws))"
    by (simp add: tree_counts_def ordered_trees_def list_all_iff)
  show "suggested_message w \<noteq> None \<longleftrightarrow> dirty_tree w"
    by (auto simp: suggested_message_def generateCommitMessage_def dirty_tree_def Let_def)
qed

end
