(* ===== verification/Live_Events.thy ===== *)
theory Live_Events
  imports Web_Api
begin

text \<open>
  The messages of the design skill's live mode: \<open>live/event-validation.mjs\<close> with the vocabulary of
  \<open>live/vocabulary.mjs\<close>, and the JavaScript operations on parsed values that the live scripts share.
  Paths are relative to \<open>.github/skills/impeccable/scripts\<close>.
\<close>

section \<open>Values\<close>

text \<open>\<open>v.key\<close> on a value that is neither \<open>undefined\<close> nor \<open>null\<close>; \<open>v?.key\<close> on any value.\<close>

definition fld :: "js \<Rightarrow> string \<Rightarrow> js" where
  "fld v key = (case v of Some (JObj kvs) \<Rightarrow> map_of kvs key | _ \<Rightarrow> None)"

definition js_is_string :: "js \<Rightarrow> bool" where
  "js_is_string v = (case v of Some (JStr s) \<Rightarrow> True | _ \<Rightarrow> False)"

definition is_array :: "js \<Rightarrow> bool" where
  "is_array v = (case v of Some (JArr vs) \<Rightarrow> True | _ \<Rightarrow> False)"

text \<open>\<open>typeof v === 'object'\<close>, which \<open>null\<close> and arrays satisfy.\<close>

definition type_object :: "js \<Rightarrow> bool" where
  "type_object v = (case v of Some JNull \<Rightarrow> True | Some (JArr vs) \<Rightarrow> True | Some (JObj kvs) \<Rightarrow> True | _ \<Rightarrow> False)"

definition array_items :: "js \<Rightarrow> json list" where
  "array_items v = (case v of Some (JArr vs) \<Rightarrow> vs | _ \<Rightarrow> [])"

text \<open>\<open>Number.isInteger\<close>, with the integer.\<close>

definition integer_of :: "js \<Rightarrow> int option" where
  "integer_of v = (case v of Some (JNum (Fin r)) \<Rightarrow> if of_int \<lfloor>r\<rfloor> = r then Some \<lfloor>r\<rfloor> else None | _ \<Rightarrow> None)"

definition is_finite_number :: "js \<Rightarrow> bool" where
  "is_finite_number v = (case v of Some (JNum (Fin r)) \<Rightarrow> True | _ \<Rightarrow> False)"

text \<open>A string that is not blank, \<open>typeof v === 'string' && v.trim()\<close>.\<close>

definition has_text :: "js \<Rightarrow> bool" where
  "has_text v = (case v of Some (JStr s) \<Rightarrow> trim s \<noteq> [] | _ \<Rightarrow> False)"

section \<open>Vocabulary and patterns\<close>

definition VISUAL_ACTIONS :: "string list" where
  "VISUAL_ACTIONS = [''impeccable'', ''bolder'', ''quieter'', ''distill'', ''polish'', ''typeset'', ''colorize'', ''layout'',
     ''adapt'', ''animate'', ''delight'', ''overdrive'']"

definition is_lower_hex :: "char \<Rightarrow> bool" where
  "is_lower_hex c = (is_digit c \<or> (of_char c \<ge> (97::nat) \<and> of_char c \<le> (102::nat)))"

definition isValidId :: "js \<Rightarrow> bool" where
  "isValidId v = (case v of Some (JStr s) \<Rightarrow> length s = 8 \<and> list_all is_lower_hex s | _ \<Rightarrow> False)"

definition isValidVariantId :: "js \<Rightarrow> bool" where
  "isValidVariantId v = (case v of Some (JStr s) \<Rightarrow> 1 \<le> length s \<and> length s \<le> 3 \<and> list_all is_digit s | _ \<Rightarrow> False)"

text \<open>The characters are \<open>< { } `\<close>.\<close>

definition FORBIDDEN_MANUAL_EDIT_TEXT_CHARS :: "char list" where
  "FORBIDDEN_MANUAL_EDIT_TEXT_CHARS = [CHR ''<'', CHR ''{'', CHR ''}'', CHR 0x60]"

definition validateManualEditText :: "js \<Rightarrow> char list option" where
  "validateManualEditText newText = (case newText of
       Some (JStr s) \<Rightarrow> (let hits = filter (\<lambda>c. c \<in> set s) FORBIDDEN_MANUAL_EDIT_TEXT_CHARS in if hits \<noteq> [] then Some hits else None)
     | _ \<Rightarrow> None)"

section \<open>Validators\<close>

text \<open>A validator returns the complaint, or \<open>null\<close>, which is \<open>None\<close>.\<close>

type_synonym complaint = "string option"

definition validateAnnotationFields :: "js \<Rightarrow> complaint" where
  "validateAnnotationFields msg =
     (if fld msg ''screenshotPath'' \<noteq> None \<and> \<not> js_is_string (fld msg ''screenshotPath'') then Some ''generate: screenshotPath must be string''
      else if fld msg ''comments'' \<noteq> None \<and> \<not> is_array (fld msg ''comments'') then Some ''generate: comments must be array''
      else if fld msg ''strokes'' \<noteq> None \<and> \<not> is_array (fld msg ''strokes'') then Some ''generate: strokes must be array''
      else None)"

definition canCreateInsert :: "js \<Rightarrow> js \<Rightarrow> js \<Rightarrow> bool" where
  "canCreateInsert prompt comments strokes =
     (has_text prompt \<or> array_items comments \<noteq> [] \<or>
      list_ex (\<lambda>s. length (array_items (fld (Some s) ''points'')) \<ge> 2) (array_items strokes))"

definition validateInsertGenerate :: "js \<Rightarrow> complaint" where
  "validateInsertGenerate msg =
     (let ins = fld msg ''insert''; anchor = fld ins ''anchor''; ph = fld msg ''placeholder'' in
      if \<not> js_truthy ins \<or> \<not> type_object ins then Some ''generate: insert mode requires insert object''
      else if fld ins ''position'' \<notin> {Some (JStr ''before''), Some (JStr ''after'')} then Some ''generate: insert.position must be before or after''
      else if \<not> js_truthy anchor \<or> \<not> type_object anchor then Some ''generate: insert.anchor required''
      else if \<not> js_truthy (fld anchor ''tagName'') \<and> \<not> js_truthy (fld anchor ''outerHTML'') \<and> array_items (fld anchor ''classes'') = []
        then Some ''generate: insert.anchor needs tagName, classes, or outerHTML''
      else if \<not> js_truthy ph \<or> \<not> type_object ph then Some ''generate: insert mode requires placeholder dimensions''
      else if \<not> is_finite_number (fld ph ''width'') \<or> \<not> is_finite_number (fld ph ''height'')
        then Some ''generate: placeholder width and height must be numbers''
      else if \<not> canCreateInsert (fld msg ''freeformPrompt'') (fld msg ''comments'') (fld msg ''strokes'')
        then Some ''generate: insert requires freeformPrompt or annotations''
      else validateAnnotationFields msg)"

definition validateReplaceGenerate :: "js \<Rightarrow> complaint" where
  "validateReplaceGenerate msg =
     (if \<not> list_ex (\<lambda>a. fld msg ''action'' = Some (JStr a)) VISUAL_ACTIONS then Some ''generate: invalid action''
      else if \<not> js_truthy (fld msg ''element'') \<or> \<not> js_truthy (fld (fld msg ''element'') ''outerHTML'') then Some ''generate: missing element context''
      else validateAnnotationFields msg)"

text \<open>One operation of a manual edit; reading a field of \<open>null\<close> throws.\<close>

definition validate_op :: "string \<Rightarrow> json \<Rightarrow> complaint result" where
  "validate_op label op =
     (let ref = fld (Some op) ''ref''; newText = fld (Some op) ''newText''; deleted = (fld (Some op) ''deleted'' = Some (JBool True)) in
      if op = JNull then Inl ''TypeError''
      else if \<not> js_is_string ref then Inr (Some (label @ '': op.ref required''))
      else if \<not> js_is_string (fld (Some op) ''tag'') then Inr (Some (label @ '': op.tag required''))
      else if \<not> js_is_string (fld (Some op) ''originalText'') then Inr (Some (label @ '': op.originalText required''))
      else if \<not> deleted \<and> \<not> js_is_string newText then Inr (Some (label @ '': text op requires newText''))
      else if js_is_string newText \<and> \<not> deleted \<and> \<not> has_text newText then Inr (Some (label @ '': newText cannot be empty''))
      else (case validateManualEditText newText of
          Some hits \<Rightarrow> Inr (Some (label @ '': newText cannot contain '' @ join_with '' '' (map (\<lambda>c. [c]) hits) @
             '' (plain text only; ask the AI to insert markup)''))
        | None \<Rightarrow> Inr None))"

fun validate_ops :: "string \<Rightarrow> json list \<Rightarrow> complaint result" where
  "validate_ops label [] = Inr None"
| "validate_ops label (op # ops) = (case validate_op label op of Inr None \<Rightarrow> validate_ops label ops | r \<Rightarrow> r)"

definition validateManualEditEvent :: "js \<Rightarrow> string \<Rightarrow> complaint result" where
  "validateManualEditEvent msg label =
     (let ops = fld msg ''ops'' in
      if \<not> isValidId (fld msg ''id'') then Inr (Some (label @ '': missing or malformed id''))
      else if \<not> js_truthy (fld msg ''pageUrl'') \<or> \<not> js_is_string (fld msg ''pageUrl'') then Inr (Some (label @ '': missing pageUrl''))
      else if \<not> js_truthy (fld msg ''element'') \<or> \<not> type_object (fld msg ''element'') then Inr (Some (label @ '': missing element''))
      else if array_items ops = [] then Inr (Some (label @ '': ops must be non-empty array''))
      else if length (array_items ops) > 100 then Inr (Some (label @ '': too many ops (max 100)''))
      else validate_ops label (array_items ops))"

text \<open>\<open>paramValues\<close> is absent or an object that is no array.\<close>

definition params_ok :: "js \<Rightarrow> bool" where
  "params_ok v = (case v of None \<Rightarrow> True | Some (JObj kvs) \<Rightarrow> True | _ \<Rightarrow> False)"

definition in_range :: "int \<Rightarrow> int \<Rightarrow> js \<Rightarrow> bool" where
  "in_range lo hi v = (case integer_of v of Some i \<Rightarrow> lo \<le> i \<and> i \<le> hi | None \<Rightarrow> False)"

definition validate_generate :: "js \<Rightarrow> complaint" where
  "validate_generate msg =
     (if \<not> isValidId (fld msg ''id'') then Some ''generate: missing or malformed id''
      else if \<not> in_range 1 8 (fld msg ''count'') then Some ''generate: count must be 1-8''
      else if fld msg ''mode'' = Some (JStr ''insert'') then validateInsertGenerate msg else validateReplaceGenerate msg)"

definition validate_accept :: "js \<Rightarrow> complaint" where
  "validate_accept msg =
     (if \<not> isValidId (fld msg ''id'') then Some ''accept: missing or malformed id''
      else if \<not> isValidVariantId (fld msg ''variantId'') then Some ''accept: missing or malformed variantId''
      else if \<not> params_ok (fld msg ''paramValues'') then Some ''accept: paramValues must be an object'' else None)"

definition validate_checkpoint :: "js \<Rightarrow> complaint" where
  "validate_checkpoint msg =
     (if \<not> isValidId (fld msg ''id'') then Some ''checkpoint: missing or malformed id''
      else if (case integer_of (fld msg ''revision'') of Some i \<Rightarrow> i < 0 | None \<Rightarrow> True)
        then Some ''checkpoint: revision must be a non-negative integer''
      else if \<not> params_ok (fld msg ''paramValues'') then Some ''checkpoint: paramValues must be an object'' else None)"

definition validate_steer :: "js \<Rightarrow> complaint" where
  "validate_steer msg =
     (if \<not> isValidId (fld msg ''id'') then Some ''steer: missing or malformed id''
      else if \<not> has_text (fld msg ''message'') then Some ''steer: message required''
      else if (case fld msg ''message'' of Some (JStr s) \<Rightarrow> length s > 4000 | _ \<Rightarrow> False) then Some ''steer: message too long''
      else if fld msg ''pageUrl'' \<noteq> None \<and> \<not> js_is_string (fld msg ''pageUrl'') then Some ''steer: pageUrl must be string'' else None)"

definition validateEvent :: "(rat \<Rightarrow> string) \<Rightarrow> js \<Rightarrow> complaint result" where
  "validateEvent num msg =
     (if \<not> js_truthy msg \<or> \<not> type_object msg \<or> \<not> js_truthy (fld msg ''type'') then Inr (Some ''Missing or invalid message'')
      else let t = fld msg ''type'' in
        if t = Some (JStr ''generate'') then Inr (validate_generate msg)
        else if t = Some (JStr ''accept'') then Inr (validate_accept msg)
        else if t = Some (JStr ''discard'') then Inr (if isValidId (fld msg ''id'') then None else Some ''discard: missing or malformed id'')
        else if t = Some (JStr ''checkpoint'') then Inr (validate_checkpoint msg)
        else if t = Some (JStr ''exit'') then Inr None
        else if t = Some (JStr ''prefetch'') then
          Inr (if \<not> js_truthy (fld msg ''pageUrl'') \<or> \<not> js_is_string (fld msg ''pageUrl'') then Some ''prefetch: missing pageUrl'' else None)
        else if t = Some (JStr ''manual_edits'') then validateManualEditEvent msg ''manual_edits''
        else if t = Some (JStr ''steer'') then Inr (validate_steer msg)
        else Inr (Some (''Unknown event type: '' @ js_to_string num t)))"

section \<open>What an accepted message guarantees\<close>

definition session_types :: "string list" where
  "session_types = [''generate'', ''accept'', ''discard'', ''checkpoint'', ''manual_edits'', ''steer'']"

lemma accepted_type:
  assumes "validateEvent num msg = Inr None"
  obtains t where "fld msg ''type'' = Some (JStr t)" "t \<in> set session_types \<or> t = ''exit'' \<or> t = ''prefetch''"
  using assms by (auto simp: validateEvent_def Let_def session_types_def split: if_splits)

lemma accepted_id:
  assumes "validateEvent num msg = Inr None" and "fld msg ''type'' = Some (JStr t)" and "t \<in> set session_types"
  shows "isValidId (fld msg ''id'')"
  using assms
  by (auto simp: validateEvent_def Let_def session_types_def validate_generate_def validate_accept_def validate_checkpoint_def
      validate_steer_def validateManualEditEvent_def split: if_splits)

lemma validate_ops_accepted: "validate_ops label ops = Inr None \<Longrightarrow> op \<in> set ops \<Longrightarrow> validate_op label op = Inr None"
  by (induction ops) (auto split: sum.splits option.splits)

lemma clean_text:
  assumes "validate_op label op = Inr None" and "fld (Some op) ''newText'' = Some (JStr s)"
  shows "set s \<inter> {CHR ''<'', CHR ''{'', CHR ''}'', CHR 0x60} = {}"
    "fld (Some op) ''deleted'' \<noteq> Some (JBool True) \<Longrightarrow> trim s \<noteq> []"
proof -
  from assms have hits: "validateManualEditText (Some (JStr s)) = None"
    by (auto simp: validate_op_def Let_def split: if_splits option.splits)
  then show "set s \<inter> {CHR ''<'', CHR ''{'', CHR ''}'', CHR 0x60} = {}"
    by (auto simp: validateManualEditText_def Let_def FORBIDDEN_MANUAL_EDIT_TEXT_CHARS_def split: if_splits)
  show "fld (Some op) ''deleted'' \<noteq> Some (JBool True) \<Longrightarrow> trim s \<noteq> []"
    using assms by (auto simp: validate_op_def Let_def js_is_string_def has_text_def split: if_splits option.splits)
qed

end
