(* ===== verification/Live_Store.thy ===== *)
theory Live_Store
  imports Live_Events
begin

text \<open>
  The journal of a live session and its snapshot: \<open>live/session-store.mjs\<close>. A session is a file of
  JSON lines; its snapshot is the fold of \<open>applyEvent\<close> over them, kept in a cache that every append
  extends. \<open>JSON.parse\<close> and \<open>JSON.stringify\<close> on whole lines are the arguments \<open>parse\<close> (\<open>None\<close> when it
  throws) and \<open>render\<close>; how a number prints is \<open>num\<close>. Failures of the file system are not modelled.
\<close>

section \<open>JavaScript on parsed values\<close>

text \<open>\<open>a ?? b\<close>: \<open>a\<close> unless that is \<open>undefined\<close> or \<open>null\<close>.\<close>

definition nullish :: "js \<Rightarrow> 'a \<Rightarrow> (json \<Rightarrow> 'a) \<Rightarrow> 'a" where
  "nullish a b f = (case a of None \<Rightarrow> b | Some JNull \<Rightarrow> b | Some v \<Rightarrow> f v)"

abbreviation or_keep :: "js \<Rightarrow> json \<Rightarrow> json" where
  "or_keep a b \<equiv> nullish a b (\<lambda>v. v)"

text \<open>The own properties of \<open>{...v}\<close>.\<close>

definition spread :: "js \<Rightarrow> json_object" where
  "spread v = (case v of
       Some (JObj kvs) \<Rightarrow> kvs
     | Some (JArr vs) \<Rightarrow> zip (map show_nat [0..<length vs]) vs
     | Some (JStr s) \<Rightarrow> zip (map show_nat [0..<length s]) (map (\<lambda>c. JStr [c]) s)
     | _ \<Rightarrow> [])"

text \<open>\<open>Number(v)\<close>; \<open>None\<close> is \<open>NaN\<close>.\<close>

definition js_to_number :: "(rat \<Rightarrow> string) \<Rightarrow> json \<Rightarrow> jsnum option" where
  "js_to_number num v = (case v of
       JNull \<Rightarrow> Some (Fin 0)
     | JBool b \<Rightarrow> Some (Fin (if b then 1 else 0))
     | JNum n \<Rightarrow> Some n
     | _ \<Rightarrow> js_number (js_string num v))"

fun num_le :: "jsnum \<Rightarrow> jsnum \<Rightarrow> bool" where
  "num_le NegInf b = True"
| "num_le a PosInf = True"
| "num_le (Fin a) (Fin b) = (a \<le> b)"
| "num_le a b = False"

fun str_le :: "string \<Rightarrow> string \<Rightarrow> bool" where
  "str_le [] t = True"
| "str_le (c # s) [] = False"
| "str_le (c # s) (d # t) = ((of_char c :: nat) < of_char d \<or> c = d \<and> str_le s t)"

text \<open>\<open>a >= b\<close>: two strings, after arrays and objects became strings, compare by their units.\<close>

definition to_primitive :: "(rat \<Rightarrow> string) \<Rightarrow> json \<Rightarrow> json" where
  "to_primitive num v = (case v of JArr vs \<Rightarrow> JStr (js_string num v) | JObj kvs \<Rightarrow> JStr (js_string num v) | _ \<Rightarrow> v)"

definition js_ge :: "(rat \<Rightarrow> string) \<Rightarrow> json \<Rightarrow> json \<Rightarrow> bool" where
  "js_ge num a b = (case (to_primitive num a, to_primitive num b) of
       (JStr s, JStr t) \<Rightarrow> str_le t s
     | (x, y) \<Rightarrow> (case (js_to_number num x, js_to_number num y) of (Some m, Some n) \<Rightarrow> num_le n m | _ \<Rightarrow> False))"

text \<open>\<open>a === b\<close> for values of two different JSON texts: no two arrays or objects are the same.\<close>

definition strict_eq :: "js \<Rightarrow> js \<Rightarrow> bool" where
  "strict_eq a b = (a = b \<and> (case a of Some (JArr vs) \<Rightarrow> False | Some (JObj kvs) \<Rightarrow> False | _ \<Rightarrow> True))"

section \<open>Snapshots\<close>

datatype diagnostic =
    D_parse nat string
  | D_carbonize json
  | D_after_terminal json json
  | D_stale js
  | D_agent_error json
  | D_unknown js

text \<open>
  Every field that an event writes unchecked is a JSON value; \<open>visibleVariant\<close> may also be \<open>NaN\<close>
  (\<open>None\<close>) and \<open>message\<close> absent. The three fields that no event changes are left out.
\<close>

record session_snapshot =
  sn_id :: string
  sn_phase :: json
  sn_pageUrl :: json
  sn_sourceFile :: json
  sn_previewFile :: json
  sn_previewMode :: json
  sn_expectedVariants :: json
  sn_arrivedVariants :: json
  sn_visibleVariant :: "json option"
  sn_paramValues :: json_object
  sn_pendingEventSeq :: json
  sn_pendingEvent :: json
  sn_checkpointRevision :: json
  sn_activeOwner :: json
  sn_annotationArtifacts :: "(string \<times> json) list"
  sn_diagnostics :: "diagnostic list"
  sn_message :: js
  sn_updatedAt :: json

definition baseSnapshot :: "string \<Rightarrow> session_snapshot" where
  "baseSnapshot i = \<lparr>sn_id = i, sn_phase = JStr ''new'', sn_pageUrl = JNull, sn_sourceFile = JNull, sn_previewFile = JNull,
     sn_previewMode = JNull, sn_expectedVariants = jint 0, sn_arrivedVariants = jint 0, sn_visibleVariant = Some JNull,
     sn_paramValues = [], sn_pendingEventSeq = JNull, sn_pendingEvent = JNull, sn_checkpointRevision = jint 0,
     sn_activeOwner = JNull, sn_annotationArtifacts = [], sn_diagnostics = [], sn_message = None, sn_updatedAt = JNull\<rparr>"

definition is_terminal :: "json \<Rightarrow> bool" where
  "is_terminal phase = (phase = JStr ''completed'' \<or> phase = JStr ''discarded'')"

definition toPendingEvent :: "js \<Rightarrow> json" where
  "toPendingEvent event = JObj (AList.delete ''token'' (spread event))"

definition upsertArtifact :: "string \<Rightarrow> json \<Rightarrow> (string \<times> json) list \<Rightarrow> (string \<times> json) list" where
  "upsertArtifact t p artifacts =
     (if list_ex (\<lambda>(t', p'). strict_eq (Some p') (Some p) \<and> t' = t) artifacts then artifacts else artifacts @ [(t, p)])"

definition diagnose :: "diagnostic \<Rightarrow> session_snapshot \<Rightarrow> session_snapshot" where
  "diagnose d s = s\<lparr>sn_diagnostics := sn_diagnostics s @ [d]\<rparr>"

text \<open>The assignments that several cases share.\<close>

definition set_pending :: "js \<Rightarrow> js \<Rightarrow> session_snapshot \<Rightarrow> session_snapshot" where
  "set_pending seq event s =
     s\<lparr>sn_pendingEventSeq := or_keep seq (sn_pendingEventSeq s), sn_pendingEvent := toPendingEvent event\<rparr>"

definition clear_pending :: "session_snapshot \<Rightarrow> session_snapshot" where
  "clear_pending s = s\<lparr>sn_pendingEventSeq := JNull, sn_pendingEvent := JNull\<rparr>"

definition set_files :: "js \<Rightarrow> js \<Rightarrow> session_snapshot \<Rightarrow> session_snapshot" where
  "set_files source event s =
     s\<lparr>sn_sourceFile := or_keep source (sn_sourceFile s),
       sn_previewFile := or_keep (fld event ''previewFile'') (sn_previewFile s),
       sn_previewMode := or_keep (fld event ''previewMode'') (sn_previewMode s)\<rparr>"

definition source_or_file :: "js \<Rightarrow> js" where
  "source_or_file event = nullish (fld event ''sourceFile'') (fld event ''file'') Some"

definition set_params :: "js \<Rightarrow> session_snapshot \<Rightarrow> session_snapshot" where
  "set_params v s = (if js_truthy v then s\<lparr>sn_paramValues := spread v\<rparr> else s)"

definition set_page :: "js \<Rightarrow> session_snapshot \<Rightarrow> session_snapshot" where
  "set_page event s = s\<lparr>sn_pageUrl := or_keep (fld event ''pageUrl'') (sn_pageUrl s)\<rparr>"

definition first_truthy :: "json \<Rightarrow> json \<Rightarrow> json" where
  "first_truthy a b = (if js_truthy (Some a) then a else b)"

definition apply_generate :: "js \<Rightarrow> js \<Rightarrow> session_snapshot \<Rightarrow> session_snapshot" where
  "apply_generate seq event s =
     (let s1 = set_pending seq event ((set_page event s)\<lparr>sn_phase := JStr ''generate_requested'',
            sn_expectedVariants := or_keep (fld event ''count'') (sn_expectedVariants s)\<rparr>) in
      case fld event ''screenshotPath'' of
        Some p \<Rightarrow> if js_truthy (Some p) then s1\<lparr>sn_annotationArtifacts := upsertArtifact ''screenshot'' p (sn_annotationArtifacts s1)\<rparr> else s1
      | None \<Rightarrow> s1)"

definition apply_ready :: "js \<Rightarrow> session_snapshot \<Rightarrow> session_snapshot" where
  "apply_ready event s =
     (let carbonize = (fld event ''carbonize'' = Some (JBool True));
          s1 = set_files (source_or_file event) event (s\<lparr>sn_phase := JStr (if carbonize then ''carbonize_required'' else ''variants_ready'')\<rparr>);
          s2 = clear_pending (s1\<lparr>sn_arrivedVariants := or_keep (fld event ''arrivedVariants'')
                 (first_truthy (sn_expectedVariants s1) (first_truthy (sn_arrivedVariants s1) (jint 0)))\<rparr>)
      in if carbonize then diagnose (D_carbonize (if js_truthy (fld event ''file'') then the (fld event ''file'') else JNull)) s2 else s2)"

definition apply_checkpoint :: "(rat \<Rightarrow> string) \<Rightarrow> js \<Rightarrow> session_snapshot \<Rightarrow> session_snapshot" where
  "apply_checkpoint num event s =
     (if is_terminal (sn_phase s)
      then diagnose (D_after_terminal (or_keep (fld event ''phase'') JNull) (or_keep (fld event ''revision'') JNull)) s
      else if js_ge num (or_keep (fld event ''revision'') (jint 0)) (or_keep (Some (sn_checkpointRevision s)) (jint 0))
      then set_params (fld event ''paramValues'')
             (set_files (fld event ''sourceFile'') event
               (s\<lparr>sn_phase := or_keep (fld event ''phase'') (sn_phase s),
                  sn_checkpointRevision := or_keep (fld event ''revision'') (sn_checkpointRevision s),
                  sn_activeOwner := or_keep (fld event ''owner'') (sn_activeOwner s),
                  sn_arrivedVariants := or_keep (fld event ''arrivedVariants'') (sn_arrivedVariants s),
                  sn_visibleVariant := nullish (fld event ''visibleVariant'') (sn_visibleVariant s) Some\<rparr>))
      else diagnose (D_stale (fld event ''revision'')) s)"

definition apply_accept :: "(rat \<Rightarrow> string) \<Rightarrow> js \<Rightarrow> js \<Rightarrow> session_snapshot \<Rightarrow> session_snapshot" where
  "apply_accept num seq event s =
     set_pending seq event (set_params (fld event ''paramValues'')
       (s\<lparr>sn_phase := JStr ''accept_requested'',
          sn_visibleVariant := (case nullish (fld event ''variantId'') (sn_visibleVariant s) Some of
              None \<Rightarrow> None | Some v \<Rightarrow> map_option JNum (js_to_number num v))\<rparr>))"

definition apply_request :: "string \<Rightarrow> js \<Rightarrow> js \<Rightarrow> session_snapshot \<Rightarrow> session_snapshot" where
  "apply_request phase seq event s = set_pending seq event ((set_page event s)\<lparr>sn_phase := JStr phase\<rparr>)"

definition apply_steer_done :: "js \<Rightarrow> session_snapshot \<Rightarrow> session_snapshot" where
  "apply_steer_done event s =
     clear_pending ((set_files (source_or_file event) event (s\<lparr>sn_phase := JStr ''steer_done''\<rparr>))\<lparr>
       sn_message := nullish (fld event ''message'') (sn_message s) Some\<rparr>)"

definition apply_complete :: "js \<Rightarrow> session_snapshot \<Rightarrow> session_snapshot" where
  "apply_complete event s = clear_pending (set_files (source_or_file event) event (s\<lparr>sn_phase := JStr ''completed''\<rparr>))"

definition apply_agent_error :: "js \<Rightarrow> session_snapshot \<Rightarrow> session_snapshot" where
  "apply_agent_error event s =
     diagnose (D_agent_error (if js_truthy (fld event ''message'') then the (fld event ''message'') else JStr ''unknown agent error''))
       (clear_pending (s\<lparr>sn_phase := JStr ''agent_error''\<rparr>))"

definition apply_by_type :: "(rat \<Rightarrow> string) \<Rightarrow> js \<Rightarrow> js \<Rightarrow> session_snapshot \<Rightarrow> session_snapshot" where
  "apply_by_type num seq event s =
     (let t = fld event ''type''; is = (\<lambda>x. t = Some (JStr x)) in
      if is ''generate'' then apply_generate seq event s
      else if is ''variants_ready'' \<or> is ''agent_done'' then apply_ready event s
      else if is ''checkpoint'' then apply_checkpoint num event s
      else if is ''accept'' \<or> is ''accept_intent'' then apply_accept num seq event s
      else if is ''manual_edit_apply'' then apply_request ''manual_edit_apply_requested'' seq event s
      else if is ''steer'' then apply_request ''steer_requested'' seq event s
      else if is ''steer_done'' then apply_steer_done event s
      else if is ''discard'' then set_pending seq event (s\<lparr>sn_phase := JStr ''discard_requested''\<rparr>)
      else if is ''discarded'' then clear_pending (s\<lparr>sn_phase := JStr ''discarded''\<rparr>)
      else if is ''complete'' then apply_complete event s
      else if is ''agent_error'' then apply_agent_error event s
      else diagnose (D_unknown t) s)"

text \<open>\<open>now\<close> is the clock, for an entry without a time; the diagnostics are inherited when there are none.\<close>

definition applyEvent :: "(rat \<Rightarrow> string) \<Rightarrow> string \<Rightarrow> json \<Rightarrow> diagnostic list \<Rightarrow> session_snapshot \<Rightarrow> session_snapshot" where
  "applyEvent num now entry inherited s =
     (let event = (if js_truthy (fld (Some entry) ''event'') then fld (Some entry) ''event'' else Some entry);
          ts = fld (Some entry) ''ts'';
          s1 = s\<lparr>sn_updatedAt := (if js_truthy ts then the ts else JStr now)\<rparr>;
          s2 = (if inherited \<noteq> [] \<and> sn_diagnostics s1 = [] then s1\<lparr>sn_diagnostics := inherited\<rparr> else s1)
      in apply_by_type num (fld (Some entry) ''seq'') event s2)"

section \<open>The journal\<close>

definition line_feed :: char where "line_feed = CHR 0x0A"

record rebuilt =
  rb_snapshot :: session_snapshot
  rb_diagnostics :: "diagnostic list"
  rb_nextSeq :: int

text \<open>One line, with its number: blank lines are skipped, bad ones noted.\<close>

definition rebuild_line :: "(rat \<Rightarrow> string) \<Rightarrow> (string \<Rightarrow> json option) \<Rightarrow> string \<Rightarrow> nat \<times> string \<Rightarrow> rebuilt \<Rightarrow> rebuilt" where
  "rebuild_line num parse now = (\<lambda>(i, line) r.
     if trim line = [] then r
     else (case parse line of
         None \<Rightarrow> r\<lparr>rb_diagnostics := rb_diagnostics r @ [D_parse i bad_json]\<rparr>
       | Some entry \<Rightarrow>
           if \<not> js_truthy (Some entry) \<or> \<not> type_object (Some entry)
           then r\<lparr>rb_diagnostics := rb_diagnostics r @ [D_parse i ''entry is not object'']\<rparr>
           else r\<lparr>rb_nextSeq := (case integer_of (fld (Some entry) ''seq'') of Some q \<Rightarrow> max (rb_nextSeq r) (q + 1) | None \<Rightarrow> rb_nextSeq r),
                  rb_snapshot := applyEvent num now entry [] (rb_snapshot r)\<rparr>))"

definition rebuild_lines :: "(rat \<Rightarrow> string) \<Rightarrow> (string \<Rightarrow> json option) \<Rightarrow> string \<Rightarrow> string \<Rightarrow> string list \<Rightarrow> rebuilt" where
  "rebuild_lines num parse now i lines =
     fold (rebuild_line num parse now) (zip [1..<Suc (length lines)] lines)
       \<lparr>rb_snapshot = baseSnapshot i, rb_diagnostics = [], rb_nextSeq = 1\<rparr>"

definition rebuildSnapshotFromJournal :: "(rat \<Rightarrow> string) \<Rightarrow> (string \<Rightarrow> json option) \<Rightarrow> string \<Rightarrow> string option \<Rightarrow> string \<Rightarrow> rebuilt" where
  "rebuildSnapshotFromJournal num parse now content i = (case content of
       None \<Rightarrow> \<lparr>rb_snapshot = baseSnapshot i, rb_diagnostics = [], rb_nextSeq = 1\<rparr>
     | Some text \<Rightarrow>
         (let r = rebuild_lines num parse now i (split_on line_feed text) in
          r\<lparr>rb_snapshot := (rb_snapshot r)\<lparr>sn_diagnostics := sn_diagnostics (rb_snapshot r) @ rb_diagnostics r\<rparr>\<rparr>))"

section \<open>The store\<close>

text \<open>The journals in both directories by session, the snapshot files, and the cache.\<close>

record live_store =
  st_journal :: "string \<Rightarrow> string option"
  st_legacy :: "string \<Rightarrow> string option"
  st_snapshots :: "string \<Rightarrow> session_snapshot option"
  st_cache :: "string \<Rightarrow> rebuilt option"

definition is_session_char :: "char \<Rightarrow> bool" where
  "is_session_char c = (is_digit c \<or> is_lower c \<or> is_upper c \<or> c = CHR ''_'' \<or> c = CHR ''-'')"

definition safeSessionId :: "string \<Rightarrow> string result" where
  "safeSessionId i =
     (if 1 \<le> length i \<and> length i \<le> 128 \<and> list_all is_session_char i then Inr i else Inl (''invalid session id: '' @ i))"

definition normalizeEvent :: "js \<Rightarrow> js \<Rightarrow> (string \<times> string \<times> json) result" where
  "normalizeEvent event fallbackId =
     (if \<not> js_truthy event \<or> \<not> type_object event then Inl ''event object required''
      else let i = (if js_truthy (fld event ''id'') then fld event ''id'' else fallbackId) in
        case i of
          Some (JStr s) \<Rightarrow>
            if s = [] then Inl ''event id required''
            else (case fld event ''type'' of
                Some (JStr t) \<Rightarrow> if t = [] then Inl ''event type required''
                  else Inr (s, t, JObj (AList.update ''id'' (JStr s) (spread event)))
              | _ \<Rightarrow> Inl ''event type required'')
        | _ \<Rightarrow> Inl ''event id required'')"

definition readable_journal :: "live_store \<Rightarrow> string \<Rightarrow> string option" where
  "readable_journal st i = (case st_journal st i of Some t \<Rightarrow> Some t | None \<Rightarrow> st_legacy st i)"

definition loadCachedOrRebuild ::
    "(rat \<Rightarrow> string) \<Rightarrow> (string \<Rightarrow> json option) \<Rightarrow> string \<Rightarrow> string \<Rightarrow> live_store \<Rightarrow> rebuilt" where
  "loadCachedOrRebuild num parse now i st = (case st_cache st i of
       Some r \<Rightarrow> r | None \<Rightarrow> rebuildSnapshotFromJournal num parse now (readable_journal st i) i)"

definition journal_entry :: "int \<Rightarrow> string \<Rightarrow> string \<Rightarrow> string \<Rightarrow> json \<Rightarrow> json" where
  "journal_entry seq i t now event =
     JObj [(''seq'', jint seq), (''id'', JStr i), (''type'', JStr t), (''ts'', JStr now), (''event'', event)]"

text \<open>A journal of the old place is copied before the first append.\<close>

definition adopt_legacy :: "string \<Rightarrow> live_store \<Rightarrow> live_store" where
  "adopt_legacy i st =
     (if st_journal st i = None \<and> st_legacy st i \<noteq> None then st\<lparr>st_journal := (st_journal st)(i := st_legacy st i)\<rparr> else st)"

definition appendEvent ::
    "(rat \<Rightarrow> string) \<Rightarrow> (string \<Rightarrow> json option) \<Rightarrow> (json \<Rightarrow> string) \<Rightarrow> string \<Rightarrow> js \<Rightarrow> js \<Rightarrow> live_store \<Rightarrow> (session_snapshot \<times> live_store) result" where
  "appendEvent num parse render now sessionId event st =
     rbind (normalizeEvent event sessionId) (\<lambda>(i, t, ev).
       rbind (safeSessionId i) (\<lambda>_.
         let st1 = adopt_legacy i st;
             prior = loadCachedOrRebuild num parse now i st1;
             entry = journal_entry (rb_nextSeq prior) i t now ev;
             old = (case st_journal st1 i of Some c \<Rightarrow> c | None \<Rightarrow> []);
             nxt = applyEvent num now entry (rb_diagnostics prior) (rb_snapshot prior)
         in Inr (nxt, st1\<lparr>st_journal := (st_journal st1)(i \<mapsto> old @ render entry @ [line_feed]),
                           st_cache := (st_cache st1)(i \<mapsto> \<lparr>rb_snapshot = nxt, rb_diagnostics = sn_diagnostics nxt, rb_nextSeq = rb_nextSeq prior + 1\<rparr>),
                           st_snapshots := (st_snapshots st1)(i \<mapsto> nxt)\<rparr>)))"

text \<open>\<open>null\<close>, for a finished session that was not asked for, is \<open>None\<close>.\<close>

definition getSnapshot ::
    "(rat \<Rightarrow> string) \<Rightarrow> (string \<Rightarrow> json option) \<Rightarrow> string \<Rightarrow> string \<Rightarrow> bool \<Rightarrow> live_store \<Rightarrow> (session_snapshot option \<times> live_store) result" where
  "getSnapshot num parse now i includeCompleted st =
     (if i = [] then Inl ''session id required''
      else rbind (safeSessionId i) (\<lambda>_.
        let r = rebuildSnapshotFromJournal num parse now (readable_journal st i) i;
            st' = st\<lparr>st_cache := (st_cache st)(i \<mapsto> r), st_snapshots := (st_snapshots st)(i \<mapsto> rb_snapshot r)\<rparr>
        in Inr (if \<not> includeCompleted \<and> is_terminal (sn_phase (rb_snapshot r)) then None else Some (rb_snapshot r), st')))"

text \<open>The sessions with a journal, in order; a file name that is no session id makes \<open>getSnapshot\<close> throw.\<close>

fun snapshots_of ::
    "(rat \<Rightarrow> string) \<Rightarrow> (string \<Rightarrow> json option) \<Rightarrow> string \<Rightarrow> string list \<Rightarrow> live_store \<Rightarrow> (session_snapshot list \<times> live_store) result" where
  "snapshots_of num parse now [] st = Inr ([], st)"
| "snapshots_of num parse now (i # is) st =
     rbind (getSnapshot num parse now i False st) (\<lambda>(s, st1).
       rbind (snapshots_of num parse now is st1) (\<lambda>(ss, st2). Inr ((case s of Some x \<Rightarrow> x # ss | None \<Rightarrow> ss), st2)))"

definition cmp_text :: "string comparator" where
  "cmp_text a b = (if str_le a b then if a = b then 0 else - 1 else 1)"

definition listActiveSessions ::
    "(rat \<Rightarrow> string) \<Rightarrow> (string \<Rightarrow> json option) \<Rightarrow> string \<Rightarrow> string list \<Rightarrow> live_store \<Rightarrow> (session_snapshot list \<times> live_store) result" where
  "listActiveSessions num parse now files st = snapshots_of num parse now (js_sort cmp_text (remdups files)) st"

section \<open>Lemmas\<close>

lemma split_on_append: "split_on d (xs @ d # ys) = split_on d xs @ split_on d ys"
proof (induction xs)
  case (Cons x xs)
  obtain w ws where "split_on d xs = w # ws" by (cases "split_on d xs") auto
  with Cons show ?case by auto
qed simp

lemma split_on_single: "d \<notin> set s \<Longrightarrow> split_on d s = [s]"
  by (induction s) auto

text \<open>Events add diagnostics and do not look at the ones that are there.\<close>

definition frames :: "(session_snapshot \<Rightarrow> session_snapshot) \<Rightarrow> bool" where
  "frames f \<longleftrightarrow> (\<forall>s D. f (s\<lparr>sn_diagnostics := D\<rparr>) =
     (f (s\<lparr>sn_diagnostics := []\<rparr>))\<lparr>sn_diagnostics := D @ sn_diagnostics (f (s\<lparr>sn_diagnostics := []\<rparr>))\<rparr>)"

lemma frames_if: "frames f \<Longrightarrow> frames g \<Longrightarrow> frames (\<lambda>s. if b then f s else g s)"
  by (cases b) simp_all

lemmas apply_defs = set_pending_def clear_pending_def set_files_def set_params_def set_page_def diagnose_def

lemma frames_pieces:
  "frames (apply_generate seq ev)" "frames (apply_ready ev)" "frames (apply_checkpoint num ev)" "frames (apply_accept num seq ev)"
  "frames (apply_request p seq ev)" "frames (apply_steer_done ev)" "frames (apply_complete ev)" "frames (apply_agent_error ev)"
  "frames (\<lambda>s. set_pending seq ev (s\<lparr>sn_phase := ph\<rparr>))" "frames (\<lambda>s. clear_pending (s\<lparr>sn_phase := ph\<rparr>))" "frames (diagnose d)"
  unfolding frames_def
  subgoal by (simp add: apply_generate_def apply_defs Let_def split: option.split)
  subgoal by (simp add: apply_ready_def apply_defs Let_def)
  subgoal by (simp add: apply_checkpoint_def apply_defs)
  subgoal by (simp add: apply_accept_def apply_defs)
  subgoal by (simp add: apply_request_def apply_defs)
  subgoal by (simp add: apply_steer_done_def apply_defs)
  subgoal by (simp add: apply_complete_def apply_defs)
  subgoal by (simp add: apply_agent_error_def apply_defs)
  by (simp_all add: apply_defs)

lemma frames_by_type: "frames (apply_by_type num seq ev)"
  unfolding apply_by_type_def[abs_def] Let_def by (intro frames_if frames_pieces)

text \<open>A snapshot without its diagnostics, and what an entry does to both parts.\<close>

definition bare :: "session_snapshot \<Rightarrow> session_snapshot" where
  "bare s = s\<lparr>sn_diagnostics := []\<rparr>"

definition has_time_stamp :: "json \<Rightarrow> bool" where
  "has_time_stamp entry = js_truthy (fld (Some entry) ''ts'')"

definition entry_effect :: "(rat \<Rightarrow> string) \<Rightarrow> json \<Rightarrow> session_snapshot \<Rightarrow> session_snapshot" where
  "entry_effect num entry s = applyEvent num [] entry [] (bare s)"

lemma bare_simps [simp]: "bare (bare s) = bare s" "sn_diagnostics (bare s) = []" "bare (s\<lparr>sn_diagnostics := D\<rparr>) = bare s"
    "sn_phase (bare s) = sn_phase s" "sn_pendingEvent (bare s) = sn_pendingEvent s"
  by (simp_all add: bare_def)

lemma bare_eqI: "bare s = bare t \<Longrightarrow> sn_diagnostics s = sn_diagnostics t \<Longrightarrow> s = t"
  by (cases s; cases t) (simp add: bare_def)

lemma applyEvent_effect:
  assumes "has_time_stamp entry" and "inherited = [] \<or> sn_diagnostics s \<noteq> []"
  shows "bare (applyEvent num now entry inherited s) = bare (entry_effect num entry s)"
    "sn_diagnostics (applyEvent num now entry inherited s) = sn_diagnostics s @ sn_diagnostics (entry_effect num entry s)"
proof -
  let ?seq = "fld (Some entry) ''seq''"
  let ?ev = "if js_truthy (fld (Some entry) ''event'') then fld (Some entry) ''event'' else Some entry"
  let ?s = "s\<lparr>sn_updatedAt := the (fld (Some entry) ''ts'')\<rparr>"
  have all: "applyEvent num now entry inherited s = apply_by_type num ?seq ?ev (?s\<lparr>sn_diagnostics := sn_diagnostics s\<rparr>)"
    using assms by (auto simp: applyEvent_def has_time_stamp_def Let_def)
  have "(bare s)\<lparr>sn_updatedAt := the (fld (Some entry) ''ts'')\<rparr> = ?s\<lparr>sn_diagnostics := []\<rparr>"
    by (simp add: bare_def)
  then have eff: "entry_effect num entry s = apply_by_type num ?seq ?ev (?s\<lparr>sn_diagnostics := []\<rparr>)"
    using assms(1) by (simp add: entry_effect_def applyEvent_def has_time_stamp_def Let_def)
  show "bare (applyEvent num now entry inherited s) = bare (entry_effect num entry s)"
    "sn_diagnostics (applyEvent num now entry inherited s) = sn_diagnostics s @ sn_diagnostics (entry_effect num entry s)"
    using frames_by_type[of num ?seq ?ev, unfolded frames_def, rule_format, of "sn_diagnostics s" ?s]
    by (simp_all add: all eff)
qed

lemma entry_effect_bare: "bare s = bare t \<Longrightarrow> entry_effect num entry s = entry_effect num entry t"
  by (simp add: entry_effect_def)

section \<open>Journals\<close>

text \<open>A journal ends with a line feed, and its entries carry their time.\<close>

definition terminated :: "string \<Rightarrow> bool" where
  "terminated text \<longleftrightarrow> text = [] \<or> last text = line_feed"

definition timed_line :: "(string \<Rightarrow> json option) \<Rightarrow> string \<Rightarrow> bool" where
  "timed_line parse line = (trim line = [] \<or> (case parse line of Some e \<Rightarrow> type_object (Some e) \<longrightarrow> js_truthy (Some e) \<longrightarrow> has_time_stamp e | None \<Rightarrow> True))"

definition good_journal :: "(string \<Rightarrow> json option) \<Rightarrow> string \<Rightarrow> bool" where
  "good_journal parse text \<longleftrightarrow> terminated text \<and> list_all (timed_line parse) (split_on line_feed text)"

definition prints :: "(string \<Rightarrow> json option) \<Rightarrow> (json \<Rightarrow> string) \<Rightarrow> json \<Rightarrow> bool" where
  "prints parse render v \<longleftrightarrow> parse (render v) = Some v \<and> line_feed \<notin> set (render v) \<and> trim (render v) \<noteq> []"

lemma rebuild_lines_snoc:
  "rebuild_lines num parse now i (ls @ [l]) = rebuild_line num parse now (Suc (length ls), l) (rebuild_lines num parse now i ls)"
  unfolding rebuild_lines_def
  using upt_Suc_append[of "Suc 0" "Suc (length ls)"] by (simp del: upt_Suc)

lemma trim_Nil [simp]: "trim [] = []"
  by (simp add: trim_def)

lemma rebuild_lines_blank: "rebuild_lines num parse now i (ls @ [[]]) = rebuild_lines num parse now i ls"
  by (simp add: rebuild_lines_snoc rebuild_line_def)

lemma terminated_split:
  assumes "terminated text"
  obtains ls where "split_on line_feed text = ls @ [[]]"
    "\<And>line. line_feed \<notin> set line \<Longrightarrow> split_on line_feed (text @ line @ [line_feed]) = ls @ [line, []]"
proof (cases "text" rule: rev_cases)
  case Nil
  then show ?thesis using that[of "[]"] by (simp add: split_on_append split_on_single)
next
  case (snoc t c)
  with assms have "text = t @ line_feed # []" by (simp add: terminated_def)
  then show ?thesis using that[of "split_on line_feed t"] by (simp add: split_on_append split_on_single)
qed

lemma rebuild_line_now:
  "timed_line parse l \<Longrightarrow> rebuild_line num parse now (i, l) r = rebuild_line num parse now' (i, l) r"
  by (auto simp: rebuild_line_def timed_line_def has_time_stamp_def applyEvent_def Let_def split: option.split)

lemma rebuild_lines_now:
  "list_all (timed_line parse) ls \<Longrightarrow> rebuild_lines num parse now i ls = rebuild_lines num parse now' i ls"
proof (induction ls rule: rev_induct)
  case (snoc l ls)
  then show ?case using rebuild_line_now[of parse l] by (simp add: rebuild_lines_snoc)
qed (simp add: rebuild_lines_def)

lemma rebuild_now:
  "good_journal parse text \<Longrightarrow> rebuildSnapshotFromJournal num parse now (Some text) i = rebuildSnapshotFromJournal num parse now' (Some text) i"
  using rebuild_lines_now[of parse "split_on line_feed text" num now i now']
  by (simp add: good_journal_def rebuildSnapshotFromJournal_def)

text \<open>Two accounts of a session agree up to the order of the diagnostics.\<close>

definition agree :: "rebuilt \<Rightarrow> rebuilt \<Rightarrow> bool" where
  "agree r r' \<longleftrightarrow> rb_nextSeq r = rb_nextSeq r' \<and> bare (rb_snapshot r) = bare (rb_snapshot r') \<and>
     mset (sn_diagnostics (rb_snapshot r)) = mset (sn_diagnostics (rb_snapshot r'))"

definition noted :: "rebuilt \<Rightarrow> bool" where
  "noted r \<longleftrightarrow> rb_diagnostics r = [] \<or> sn_diagnostics (rb_snapshot r) \<noteq> []"

lemma agree_refl [simp]: "agree r r"
  by (simp add: agree_def)

lemma noted_rebuild: "noted (rebuildSnapshotFromJournal num parse now text i)"
  by (auto simp: noted_def rebuildSnapshotFromJournal_def Let_def split: option.split)

text \<open>An append and then a rebuild.\<close>

lemma rebuild_append:
  assumes "good_journal parse text" and "prints parse render entry" and "has_time_stamp entry" and "fld (Some entry) ''seq'' = Some (jint q)"
    and "agree prior (rebuildSnapshotFromJournal num parse now (Some text) i)" and "noted prior" and "rb_nextSeq prior = q"
    and "type_object (Some entry)" "js_truthy (Some entry)"
  defines "nxt \<equiv> applyEvent num now entry (rb_diagnostics prior) (rb_snapshot prior)"
  shows "agree \<lparr>rb_snapshot = nxt, rb_diagnostics = sn_diagnostics nxt, rb_nextSeq = q + 1\<rparr>
      (rebuildSnapshotFromJournal num parse now (Some (text @ render entry @ [line_feed])) i)"
    "good_journal parse (text @ render entry @ [line_feed])"
proof -
  from assms(1) obtain ls where old: "split_on line_feed text = ls @ [[]]"
    and new: "split_on line_feed (text @ render entry @ [line_feed]) = ls @ [render entry, []]"
    using terminated_split[of "text"] assms(2) by (auto simp: good_journal_def prints_def)
  let ?R = "rebuild_lines num parse now i ls" and ?e = "entry_effect num entry (rb_snapshot prior)"
  have R: "rebuild_lines num parse now i (split_on line_feed text) = ?R" by (simp add: old rebuild_lines_blank)
  have seq: "rb_nextSeq ?R = q" and bare: "bare (rb_snapshot ?R) = bare (rb_snapshot prior)"
    and diags: "mset (sn_diagnostics (rb_snapshot prior)) = mset (sn_diagnostics (rb_snapshot ?R)) + mset (rb_diagnostics ?R)"
    using assms(5,7) by (auto simp: agree_def rebuildSnapshotFromJournal_def R Let_def)
  have step: "rebuild_lines num parse now i (ls @ [render entry, []]) =
      ?R\<lparr>rb_nextSeq := q + 1, rb_snapshot := applyEvent num now entry [] (rb_snapshot ?R)\<rparr>"
    using assms(2,4,8,9) rebuild_lines_blank[of num parse now i "ls @ [render entry]"] seq
    by (simp add: rebuild_lines_snoc rebuild_line_def prints_def integer_of_def)
  note nexts = applyEvent_effect[OF assms(3), of "rb_diagnostics prior" "rb_snapshot prior" num now, folded nxt_def]
  note ours = applyEvent_effect[OF assms(3), of "[]" "rb_snapshot ?R" num now, unfolded entry_effect_bare[OF bare]]
  have "noted prior \<Longrightarrow> rb_diagnostics prior = [] \<or> sn_diagnostics (rb_snapshot prior) \<noteq> []" by (simp add: noted_def)
  with nexts ours assms(6) show "agree \<lparr>rb_snapshot = nxt, rb_diagnostics = sn_diagnostics nxt, rb_nextSeq = q + 1\<rparr>
      (rebuildSnapshotFromJournal num parse now (Some (text @ render entry @ [line_feed])) i)"
    by (simp add: agree_def rebuildSnapshotFromJournal_def new step Let_def diags)
  show "good_journal parse (text @ render entry @ [line_feed])"
    using assms(1-3) new by (simp add: good_journal_def terminated_def old timed_line_def prints_def)
qed

section \<open>Runs of the store\<close>

text \<open>
  A server opens the store with an empty cache over the journals of earlier ones and then appends and
  reads; the snapshot files, which nothing reads back, may be anything. The entry an append writes is one that \<open>JSON.stringify\<close> and \<open>JSON.parse\<close> carry over, on one line.
\<close>

definition written_entry :: "(rat \<Rightarrow> string) \<Rightarrow> (string \<Rightarrow> json option) \<Rightarrow> string \<Rightarrow> string \<Rightarrow> string \<Rightarrow> json \<Rightarrow> live_store \<Rightarrow> json" where
  "written_entry num parse now i t ev st = journal_entry (rb_nextSeq (loadCachedOrRebuild num parse now i (adopt_legacy i st))) i t now ev"

inductive store_run :: "(rat \<Rightarrow> string) \<Rightarrow> (string \<Rightarrow> json option) \<Rightarrow> (json \<Rightarrow> string) \<Rightarrow> live_store \<Rightarrow> bool" for num parse render where
  opened: "st_cache st = Map.empty \<Longrightarrow> (\<And>i t. readable_journal st i = Some t \<Longrightarrow> good_journal parse t) \<Longrightarrow> store_run num parse render st"
| appended: "store_run num parse render st \<Longrightarrow> now \<noteq> [] \<Longrightarrow> normalizeEvent event sessionId = Inr (i, t, ev) \<Longrightarrow>
    prints parse render (written_entry num parse now i t ev st) \<Longrightarrow>
    appendEvent num parse render now sessionId event st = Inr (s, st') \<Longrightarrow> store_run num parse render st'"
| read: "store_run num parse render st \<Longrightarrow> getSnapshot num parse now i inc st = Inr (so, st') \<Longrightarrow> store_run num parse render st'"
| peeked: "store_run num parse render st \<Longrightarrow> store_run num parse render (st\<lparr>st_snapshots := files\<rparr>)"

text \<open>Every journal is good, and every cached account is the one that its journal gives.\<close>

definition coherent :: "(rat \<Rightarrow> string) \<Rightarrow> (string \<Rightarrow> json option) \<Rightarrow> live_store \<Rightarrow> bool" where
  "coherent num parse st \<longleftrightarrow>
     (\<forall>i t. readable_journal st i = Some t \<longrightarrow> good_journal parse t) \<and>
     (\<forall>i r now. st_cache st i = Some r \<longrightarrow> noted r \<and> agree r (rebuildSnapshotFromJournal num parse now (readable_journal st i) i))"

lemma rebuild_none: "rebuildSnapshotFromJournal num parse now None i = rebuildSnapshotFromJournal num parse now (Some []) i"
  by (simp add: rebuildSnapshotFromJournal_def rebuild_lines_def rebuild_line_def Let_def baseSnapshot_def)

lemma rebuild_clock:
  "(\<And>t. text = Some t \<Longrightarrow> good_journal parse t) \<Longrightarrow>
   rebuildSnapshotFromJournal num parse now text i = rebuildSnapshotFromJournal num parse now' text i"
  by (cases "text") (simp add: rebuildSnapshotFromJournal_def, simp add: rebuild_now)

lemma adopt_legacy_simps [simp]:
  "readable_journal (adopt_legacy i st) = readable_journal st" "st_cache (adopt_legacy i st) = st_cache st"
  by (auto simp: adopt_legacy_def readable_journal_def fun_eq_iff split: option.splits)

lemma adopt_journal: "st_journal (adopt_legacy i st) i = readable_journal st i"
  by (auto simp: adopt_legacy_def readable_journal_def split: option.splits)

lemma entry_facts:
  "now \<noteq> [] \<Longrightarrow> has_time_stamp (journal_entry q i t now ev)" "fld (Some (journal_entry q i t now ev)) ''seq'' = Some (jint q)"
  "type_object (Some (journal_entry q i t now ev))" "js_truthy (Some (journal_entry q i t now ev))"
  by (auto simp: journal_entry_def has_time_stamp_def fld_def type_object_def)

lemma safe_result [simp]: "safeSessionId i = Inr j \<longleftrightarrow> i = j \<and> 1 \<le> length i \<and> length i \<le> 128 \<and> list_all is_session_char i"
  by (auto simp: safeSessionId_def)

lemma appendEvent_cases:
  assumes "appendEvent num parse render now sessionId event st = Inr (s, st')" and "normalizeEvent event sessionId = Inr (i, t, ev)"
  defines "prior \<equiv> loadCachedOrRebuild num parse now i (adopt_legacy i st)" and "entry \<equiv> written_entry num parse now i t ev st"
  shows "safeSessionId i = Inr i" "s = applyEvent num now entry (rb_diagnostics prior) (rb_snapshot prior)"
    "readable_journal st' = (readable_journal st)(i \<mapsto> (case readable_journal st i of Some c \<Rightarrow> c | None \<Rightarrow> []) @ render entry @ [line_feed])"
    "st_cache st' = (st_cache st)(i \<mapsto> \<lparr>rb_snapshot = s, rb_diagnostics = sn_diagnostics s, rb_nextSeq = rb_nextSeq prior + 1\<rparr>)"
    "st_snapshots st' = (st_snapshots (adopt_legacy i st))(i \<mapsto> s)"
proof -
  from assms(1,2) have "safeSessionId i = Inr i" 
    and s: "s = applyEvent num now entry (rb_diagnostics prior) (rb_snapshot prior)"
    and st': "st' = (adopt_legacy i st)\<lparr>st_journal := (st_journal (adopt_legacy i st))(i \<mapsto> (case readable_journal st i of Some c \<Rightarrow> c | None \<Rightarrow> []) @ render entry @ [line_feed]),
        st_cache := (st_cache st)(i \<mapsto> \<lparr>rb_snapshot = s, rb_diagnostics = sn_diagnostics s, rb_nextSeq = rb_nextSeq prior + 1\<rparr>),
        st_snapshots := (st_snapshots (adopt_legacy i st))(i \<mapsto> s)\<rparr>"
    by (auto simp: appendEvent_def rbind_def Let_def adopt_journal entry_def prior_def written_entry_def split: sum.splits)
  then show "safeSessionId i = Inr i" "s = applyEvent num now entry (rb_diagnostics prior) (rb_snapshot prior)"
    "st_cache st' = (st_cache st)(i \<mapsto> \<lparr>rb_snapshot = s, rb_diagnostics = sn_diagnostics s, rb_nextSeq = rb_nextSeq prior + 1\<rparr>)"
    "st_snapshots st' = (st_snapshots (adopt_legacy i st))(i \<mapsto> s)"
    by simp_all
  have "st_journal (adopt_legacy i st) j = None \<Longrightarrow> j \<noteq> i \<Longrightarrow> st_journal st j = None" for j
    by (auto simp: adopt_legacy_def split: if_splits)
  moreover have "j \<noteq> i \<Longrightarrow> st_journal (adopt_legacy i st) j = st_journal st j" "st_legacy (adopt_legacy i st) = st_legacy st" for j
    by (simp_all add: adopt_legacy_def)
  ultimately show "readable_journal st' = (readable_journal st)(i \<mapsto> (case readable_journal st i of Some c \<Rightarrow> c | None \<Rightarrow> []) @ render entry @ [line_feed])"
    by (auto simp: st' readable_journal_def fun_eq_iff split: option.splits)
qed

lemma coherent_append:
  assumes "coherent num parse st" and "now \<noteq> []" and "normalizeEvent event sessionId = Inr (i, t, ev)"
    and "prints parse render (written_entry num parse now i t ev st)"
    and "appendEvent num parse render now sessionId event st = Inr (s, st')"
  shows "coherent num parse st'"
proof -
  define old where "old = (case readable_journal st i of Some c \<Rightarrow> c | None \<Rightarrow> [])"
  define prior where "prior = loadCachedOrRebuild num parse now i (adopt_legacy i st)"
  let ?entry = "written_entry num parse now i t ev st"
  have good: "good_journal parse old"
    using assms(1) by (auto simp: coherent_def old_def good_journal_def terminated_def timed_line_def split: option.split)
  have rebuild_old: "rebuildSnapshotFromJournal num parse now' (readable_journal st i) i = rebuildSnapshotFromJournal num parse now' (Some old) i" for now'
    by (simp add: old_def rebuild_none split: option.split)
  have "agree prior (rebuildSnapshotFromJournal num parse now (Some old) i)" "noted prior"
    using assms(1) noted_rebuild rebuild_old[of now, symmetric]
    by (auto simp: coherent_def prior_def loadCachedOrRebuild_def split: option.split)
  note ap = rebuild_append[OF good assms(4) _ _ this(1,2), unfolded written_entry_def, OF entry_facts(1)[OF assms(2)] entry_facts(2) _ entry_facts(3,4),
      folded prior_def, OF refl]
  note ac = appendEvent_cases[OF assms(5,3), folded prior_def old_def]
  show ?thesis
    unfolding coherent_def
  proof (intro conjI allI impI)
    fix j c assume "readable_journal st' j = Some c"
    then show "good_journal parse c"
      using assms(1) ap(2) by (auto simp: ac(3) coherent_def written_entry_def prior_def split: if_splits)
  next
    fix j r now' assume r: "st_cache st' j = Some r"
    have "rebuildSnapshotFromJournal num parse now' (readable_journal st' i) i = rebuildSnapshotFromJournal num parse now (readable_journal st' i) i"
      using ap(2) by (intro rebuild_clock) (auto simp: ac(3) written_entry_def prior_def)
    then show "agree r (rebuildSnapshotFromJournal num parse now' (readable_journal st' j) j)"
      using r assms(1) ap(1) by (auto simp: ac(2-4) coherent_def written_entry_def prior_def split: if_splits)
    show "noted r" using r assms(1) by (auto simp: ac(4) coherent_def noted_def split: if_splits)
  qed
qed

lemma getSnapshot_cases:
  assumes "getSnapshot num parse now i inc st = Inr (so, st')"
  defines "r \<equiv> rebuildSnapshotFromJournal num parse now (readable_journal st i) i"
  shows "readable_journal st' = readable_journal st" "st_cache st' = (st_cache st)(i \<mapsto> r)" "st_snapshots st' = (st_snapshots st)(i \<mapsto> rb_snapshot r)"
    "so = (if \<not> inc \<and> is_terminal (sn_phase (rb_snapshot r)) then None else Some (rb_snapshot r))"
proof -
  from assms have st': "st' = st\<lparr>st_cache := (st_cache st)(i \<mapsto> r), st_snapshots := (st_snapshots st)(i \<mapsto> rb_snapshot r)\<rparr>"
    and "so = (if \<not> inc \<and> is_terminal (sn_phase (rb_snapshot r)) then None else Some (rb_snapshot r))"
    by (auto simp: getSnapshot_def rbind_def Let_def r_def split: if_splits sum.splits)
  then show "readable_journal st' = readable_journal st" "st_cache st' = (st_cache st)(i \<mapsto> r)" "st_snapshots st' = (st_snapshots st)(i \<mapsto> rb_snapshot r)"
    "so = (if \<not> inc \<and> is_terminal (sn_phase (rb_snapshot r)) then None else Some (rb_snapshot r))"
    by (simp_all add: readable_journal_def fun_eq_iff split: option.split)
qed

lemma coherent_read:
  assumes "coherent num parse st" and "getSnapshot num parse now i inc st = Inr (so, st')"
  shows "coherent num parse st'"
proof -
  have "rebuildSnapshotFromJournal num parse now (readable_journal st i) i = rebuildSnapshotFromJournal num parse now' (readable_journal st i) i" for now'
    using assms(1) by (intro rebuild_clock) (auto simp: coherent_def)
  then have "agree (rebuildSnapshotFromJournal num parse now (readable_journal st i) i) (rebuildSnapshotFromJournal num parse now' (readable_journal st i) i)" for now'
    using agree_refl by metis
  with assms(1) show ?thesis
    by (auto simp: coherent_def getSnapshot_cases[OF assms(2)] noted_rebuild)
qed

lemma store_run_coherent: "store_run num parse render st \<Longrightarrow> coherent num parse st"
proof (induction rule: store_run.induct)
  case (opened st)
  then show ?case by (simp add: coherent_def)
next
  case (appended st now event sessionId i t ev s st')
  then show ?case by (blast intro: coherent_append)
next
  case (read st now i inc so st')
  then show ?case by (blast intro: coherent_read)
next
  case (peeked st files)
  have "readable_journal (st\<lparr>st_snapshots := files\<rparr>) = readable_journal st" by (simp add: readable_journal_def fun_eq_iff split: option.split)
  with peeked show ?case by (simp add: coherent_def)
qed

section \<open>Sequence numbers, pending requests and torn tails\<close>

text \<open>The integer sequence numbers of the entries of a journal.\<close>

definition line_seq :: "(string \<Rightarrow> json option) \<Rightarrow> string \<Rightarrow> int option" where
  "line_seq parse line = (if trim line = [] then None else Option.bind (parse line)
     (\<lambda>e. if js_truthy (Some e) \<and> type_object (Some e) then integer_of (fld (Some e) ''seq'') else None))"

definition journal_seqs :: "(string \<Rightarrow> json option) \<Rightarrow> string \<Rightarrow> int set" where
  "journal_seqs parse t = {q. Some q \<in> line_seq parse ` set (split_on line_feed t)}"

lemma rebuild_line_nextSeq:
  "rb_nextSeq (rebuild_line num parse now (k, l) r) = (case line_seq parse l of Some q \<Rightarrow> max (rb_nextSeq r) (q + 1) | None \<Rightarrow> rb_nextSeq r)"
  by (auto simp: rebuild_line_def line_seq_def split: option.split)

lemma rebuild_lines_nextSeq: "Some q \<in> line_seq parse ` set ls \<Longrightarrow> q < rb_nextSeq (rebuild_lines num parse now i ls)"
proof (induction ls rule: rev_induct)
  case (snoc l ls)
  then show ?case by (auto simp: rebuild_lines_snoc rebuild_line_nextSeq split: option.split)
qed simp

lemma rebuild_nextSeq: "q \<in> journal_seqs parse t \<Longrightarrow> q < rb_nextSeq (rebuildSnapshotFromJournal num parse now (Some t) i)"
  using rebuild_lines_nextSeq[of q parse "split_on line_feed t"] by (simp add: journal_seqs_def rebuildSnapshotFromJournal_def Let_def)

text \<open>What the snapshot keeps of a request has no token.\<close>

definition tokenless :: "session_snapshot \<Rightarrow> bool" where
  "tokenless s \<longleftrightarrow> (case sn_pendingEvent s of JNull \<Rightarrow> True | JObj kvs \<Rightarrow> map_of kvs ''token'' = None | _ \<Rightarrow> False)"

lemma tokenless_pending: "tokenless (set_pending seq event s)" "tokenless (clear_pending s)"
  by (simp_all add: tokenless_def set_pending_def clear_pending_def toPendingEvent_def delete_conv')

lemma tokenless_cong: "sn_pendingEvent s = sn_pendingEvent s' \<Longrightarrow> tokenless s = tokenless s'"
  by (simp add: tokenless_def)

lemma pending_frames [simp]:
  "sn_pendingEvent (set_params v s) = sn_pendingEvent s" "sn_pendingEvent (set_files src event s) = sn_pendingEvent s"
  "sn_pendingEvent (diagnose d s) = sn_pendingEvent s" "sn_pendingEvent (apply_checkpoint num event s) = sn_pendingEvent s"
  by (simp_all add: apply_defs apply_checkpoint_def)

lemma tokenless_by_type: "tokenless s \<Longrightarrow> tokenless (apply_by_type num seq event s)"
proof -
  have [simp]: "tokenless (diagnose d s) = tokenless s" "tokenless (apply_checkpoint num event s) = tokenless s" for d s
    by (rule tokenless_cong, simp)+
  have [simp]: "tokenless (s\<lparr>sn_annotationArtifacts := a\<rparr>) = tokenless s" for a s by (rule tokenless_cong) simp
  assume "tokenless s"
  then show ?thesis
    by (simp add: apply_by_type_def Let_def tokenless_pending apply_generate_def apply_ready_def apply_accept_def apply_request_def
        apply_steer_done_def apply_complete_def apply_agent_error_def split: option.split)
qed

lemma tokenless_applyEvent: "tokenless s \<Longrightarrow> tokenless (applyEvent num now entry inherited s)"
proof -
  have "tokenless (s\<lparr>sn_updatedAt := u\<rparr>) = tokenless s" "tokenless (s\<lparr>sn_updatedAt := u, sn_diagnostics := d\<rparr>) = tokenless s" for u d
    by (rule tokenless_cong, simp)+
  then show "tokenless s \<Longrightarrow> ?thesis" by (simp add: applyEvent_def Let_def tokenless_by_type)
qed

lemma tokenless_rebuild: "tokenless (rb_snapshot (rebuildSnapshotFromJournal num parse now content i))"
proof -
  have base: "tokenless (baseSnapshot i)" by (simp add: baseSnapshot_def tokenless_def)
  have "tokenless (rb_snapshot (rebuild_lines num parse now i ls))" for ls
  proof (induction ls rule: rev_induct)
    case (snoc l ls)
    then show ?case by (simp add: rebuild_lines_snoc rebuild_line_def tokenless_applyEvent split: option.split)
  qed (simp add: rebuild_lines_def base)
  then show ?thesis
    using base by (cases content) (simp_all add: rebuildSnapshotFromJournal_def Let_def tokenless_def)
qed

text \<open>
  A journal whose last line was cut off: the next entry is joined to it, and the pair is one line that
  does not parse. The append reports the new phase, and a server started later knows nothing of it.
\<close>

lemma torn_tail:
  assumes "split_on line_feed c = ls @ [torn]" "line_feed \<notin> set torn" "line_feed \<notin> set line"
    and "parse (torn @ line) = None" "parse torn = None" "trim (torn @ line) \<noteq> []" "trim torn \<noteq> []"
  shows "rebuildSnapshotFromJournal num parse now (Some (c @ line @ [line_feed])) i = rebuildSnapshotFromJournal num parse now (Some c) i"
proof -
  have "split_on line_feed (c @ line @ [line_feed]) = ls @ [torn @ line, []]"
  proof -
    have "split_on d (xs @ ys) = butlast (split_on d xs) @ [last (split_on d xs) @ ys]" if "d \<notin> set ys" for d :: char and xs ys
      using that
    proof (induction xs)
      case (Cons x xs)
      obtain w ws where "split_on d xs = w # ws" by (cases "split_on d xs") auto
      with Cons show ?case by (cases ws) auto
    qed (simp add: split_on_single)
    from this[OF assms(3), of c] assms(1) show ?thesis
      using split_on_append[of line_feed "c @ line" "[]"] by simp
  qed
  moreover have "rebuild_lines num parse now i (ls @ [torn @ line, []]) = rebuild_lines num parse now i (ls @ [torn])"
    using assms(4-) rebuild_lines_blank[of num parse now i "ls @ [torn @ line]"]
    by (simp add: rebuild_lines_snoc rebuild_line_def)
  ultimately show ?thesis using assms(1) by (simp add: rebuildSnapshotFromJournal_def)
qed

section \<open>The contract of the store\<close>

text \<open>
  C17: the journal carries every session over a restart. In a run of the store an accepted append
  answers the snapshot \<open>s\<close>; a server that opens the same files later, with no cache and at any time,
  reads the same session from the journal: every field is equal, with the same diagnostics up to their
  order. The entry was numbered above all numbers of the journal, its session id is a plain file name,
  and the snapshot names the pending request without its token.
\<close>

theorem restart_keeps_sessions:
  assumes "store_run num parse render st" and "now \<noteq> []" and "normalizeEvent event sessionId = Inr (i, t, ev)"
    and "prints parse render (written_entry num parse now i t ev st)"
    and "appendEvent num parse render now sessionId event st = Inr (s, st')"
  shows "(\<exists>s' st''. getSnapshot num parse later i True (st'\<lparr>st_cache := Map.empty\<rparr>) = Inr (Some s', st'') \<and>
      bare s' = bare s \<and> mset (sn_diagnostics s') = mset (sn_diagnostics s) \<and> tokenless s') \<and>
    (\<forall>c q. readable_journal st i = Some c \<longrightarrow> q \<in> journal_seqs parse c \<longrightarrow>
      (\<exists>new. integer_of (fld (Some (written_entry num parse now i t ev st)) ''seq'') = Some new \<and> q < new)) \<and>
    CHR ''/'' \<notin> set i \<and> CHR ''.'' \<notin> set i \<and> i \<noteq> []"
proof (intro conjI)
  note run = store_run.appended[OF assms]
  note ac = appendEvent_cases[OF assms(5,3)]
  let ?r = "rebuildSnapshotFromJournal num parse later (readable_journal st' i) i"
  have ag: "agree \<lparr>rb_snapshot = s, rb_diagnostics = sn_diagnostics s,
      rb_nextSeq = rb_nextSeq (loadCachedOrRebuild num parse now i (adopt_legacy i st)) + 1\<rparr> ?r"
    using store_run_coherent[OF run] unfolding coherent_def by (metis ac(4) fun_upd_same)
  have "readable_journal (st'\<lparr>st_cache := Map.empty\<rparr>) = readable_journal st'" by (simp add: readable_journal_def fun_eq_iff split: option.split)
  then have "\<exists>st''. getSnapshot num parse later i True (st'\<lparr>st_cache := Map.empty\<rparr>) = Inr (Some (rb_snapshot ?r), st'')"
    using ac(1) by (auto simp: getSnapshot_def rbind_def Let_def safeSessionId_def)
  with ag tokenless_rebuild[of num parse later "readable_journal st' i" i]
  show "\<exists>s' st''. getSnapshot num parse later i True (st'\<lparr>st_cache := Map.empty\<rparr>) = Inr (Some s', st'') \<and>
      bare s' = bare s \<and> mset (sn_diagnostics s') = mset (sn_diagnostics s) \<and> tokenless s'"
    by (auto simp: agree_def)
  show "CHR ''/'' \<notin> set i" "CHR ''.'' \<notin> set i" "i \<noteq> []"
    using ac(1) by (auto simp: list_all_iff is_session_char_def is_digit_def is_lower_def is_upper_def)
  show "\<forall>c q. readable_journal st i = Some c \<longrightarrow> q \<in> journal_seqs parse c \<longrightarrow>
      (\<exists>new. integer_of (fld (Some (written_entry num parse now i t ev st)) ''seq'') = Some new \<and> q < new)"
  proof (intro allI impI)
    fix c q assume c: "readable_journal st i = Some c" and q: "q \<in> journal_seqs parse c"
    have "rb_nextSeq (loadCachedOrRebuild num parse now i (adopt_legacy i st)) = rb_nextSeq (rebuildSnapshotFromJournal num parse now (Some c) i)"
      using store_run_coherent[OF assms(1)]
      by (auto simp: loadCachedOrRebuild_def c[symmetric] coherent_def agree_def split: option.split)
    then show "\<exists>new. integer_of (fld (Some (written_entry num parse now i t ev st)) ''seq'') = Some new \<and> q < new"
      using rebuild_nextSeq[OF q, of num now i] by (simp add: written_entry_def entry_facts(2) integer_of_def)
  qed
qed

text \<open>A store without files, and a request of session \<open>ab\<close>.\<close>

definition sample_event :: js where
  "sample_event = Some (JObj [(''token'', JStr ''k''), (''id'', JStr ''ab''), (''type'', JStr ''discard'')])"

definition sample_store :: live_store where
  "sample_store = \<lparr>st_journal = Map.empty, st_legacy = Map.empty, st_snapshots = Map.empty, st_cache = Map.empty\<rparr>"

definition sample_line :: json where
  "sample_line = journal_entry 1 ''ab'' ''discard'' ''noon'' (JObj [(''token'', JStr ''k''), (''id'', JStr ''ab''), (''type'', JStr ''discard'')])"

definition sample_parse :: "string \<Rightarrow> json option" where
  "sample_parse l = (if l = ''e'' then Some sample_line else None)"

lemma sample_append:
  shows "store_run (\<lambda>_. []) sample_parse (\<lambda>_. ''e'') sample_store"
    "normalizeEvent sample_event None = Inr (''ab'', ''discard'', JObj [(''token'', JStr ''k''), (''id'', JStr ''ab''), (''type'', JStr ''discard'')])"
    "written_entry (\<lambda>_. []) sample_parse ''noon'' ''ab'' ''discard'' (JObj [(''token'', JStr ''k''), (''id'', JStr ''ab''), (''type'', JStr ''discard'')]) sample_store = sample_line"
    "prints sample_parse (\<lambda>_. ''e'') sample_line"
  subgoal by (rule store_run.opened) (auto simp: sample_store_def readable_journal_def)
  subgoal by (simp add: normalizeEvent_def sample_event_def fld_def type_object_def spread_def)
  subgoal by (simp add: written_entry_def sample_line_def loadCachedOrRebuild_def adopt_legacy_def sample_store_def readable_journal_def
        rebuildSnapshotFromJournal_def)
  by (simp add: prints_def sample_parse_def line_feed_def) code_simp

lemma sample_append_accepted:
  "\<exists>s st'. appendEvent (\<lambda>_. []) sample_parse (\<lambda>_. ''e'') ''noon'' None sample_event sample_store = Inr (s, st')"
  unfolding appendEvent_def
  by (simp add: sample_append(2) rbind_def Let_def safeSessionId_def is_session_char_def is_lower_def)

theorem restart_keeps_sessions_witness:
  "\<exists>s st' s' st''. appendEvent (\<lambda>_. []) sample_parse (\<lambda>_. ''e'') ''noon'' None sample_event sample_store = Inr (s, st') \<and>
     getSnapshot (\<lambda>_. []) sample_parse ''later'' ''ab'' True (st'\<lparr>st_cache := Map.empty\<rparr>) = Inr (Some s', st'') \<and>
     bare s' = bare s \<and> tokenless s'"
proof -
  from sample_append_accepted obtain s st' where
    "appendEvent (\<lambda>_. []) sample_parse (\<lambda>_. ''e'') ''noon'' None sample_event sample_store = Inr (s, st')" by blast
  with restart_keeps_sessions[OF sample_append(1) _ sample_append(2), of "''noon''", unfolded sample_append(3), OF _ sample_append(4) this, of "''later''"]
  show ?thesis by blast
qed

end
