(* ===== verification/Live_Queue.thy ===== *)
theory Live_Queue
  imports Live_Store "HOL-Library.Sublist"
begin

text \<open>
  The queue between the browser and the polling agent: \<open>live-server.mjs\<close>, from \<open>enqueueEvent\<close> to
  \<open>broadcastAgentPollingIfChanged\<close>, and the long poll \<open>handlePollGet\<close>. An event waits until an agent
  polls; an event with an id is leased to that agent and comes back when the lease runs out, until a
  reply acknowledges it; the applies of \<open>live/manual-apply.mjs\<close> also leave it by their timeout or a
  discard. A handler runs at one reading \<open>now\<close> of the clock; times are in milliseconds.
\<close>

section \<open>State\<close>

text \<open>\<open>None\<close> is \<open>NaN\<close>, which a request with an unreadable \<open>leaseMs\<close> leads to.\<close>

record queued =
  qe_event :: json
  qe_leaseUntil :: "int option"
  qe_seq :: int

text \<open>A parked request: its number stands for the identity of the object, the rest for its timer and its lease.\<close>

record parked =
  pk_id :: nat
  pk_leaseMs :: "int option"
  pk_due :: int

datatype poll_answer = A_event json | A_timeout | A_unauthorized

datatype queue_out = Answered nat poll_answer | Polling bool

record live_queue =
  pendingEvents :: "queued list"
  pendingPolls :: "parked list"
  nextEventSeq :: int
  lastAgentPollingBroadcast :: "bool option"
  leaseTimer :: "int option"
  lastPollAt :: int
  q_requests :: nat
  q_out :: "queue_out list"

definition empty_queue :: live_queue where
  "empty_queue = \<lparr>pendingEvents = [], pendingPolls = [], nextEventSeq = 1, lastAgentPollingBroadcast = None, leaseTimer = None,
     lastPollAt = 0, q_requests = 0, q_out = []\<rparr>"

definition POLL_LEASE_EXPIRY_TIMER_GRACE_MS :: int where "POLL_LEASE_EXPIRY_TIMER_GRACE_MS = 2"

definition DEFAULT_POLL_TIMEOUT :: int where "DEFAULT_POLL_TIMEOUT = 600000"

definition CHAT_POLL_FRESHNESS_MS :: int where "CHAT_POLL_FRESHNESS_MS = 60000"

text \<open>When a timer of \<open>setTimeout\<close> is due: a delay that is no number from 1 to \<open>2 ^ 31 - 1\<close> counts as 1.\<close>

definition node_due :: "int \<Rightarrow> int option \<Rightarrow> int" where
  "node_due now delay = now + (case delay of Some d \<Rightarrow> if 1 \<le> d \<and> d \<le> 2147483647 then d else 1 | None \<Rightarrow> 1)"

section \<open>Operations\<close>

definition leased :: "int \<Rightarrow> queued \<Rightarrow> bool" where
  "leased now e = (case qe_leaseUntil e of Some t \<Rightarrow> t \<noteq> 0 \<and> t > now | None \<Rightarrow> False)"

abbreviation qe_id :: "queued \<Rightarrow> js" where
  "qe_id e \<equiv> fld (Some (qe_event e)) ''id''"

abbreviation qe_type :: "queued \<Rightarrow> js" where
  "qe_type e \<equiv> fld (Some (qe_event e)) ''type''"

definition say :: "queue_out \<Rightarrow> live_queue \<Rightarrow> live_queue" where
  "say x q = q\<lparr>q_out := q_out q @ [x]\<rparr>"

definition agentPollingConnected :: "int \<Rightarrow> live_queue \<Rightarrow> bool" where
  "agentPollingConnected now q = (pendingPolls q \<noteq> [] \<or> list_ex (leased now) (pendingEvents q))"

definition broadcastAgentPollingIfChanged :: "int \<Rightarrow> live_queue \<Rightarrow> live_queue" where
  "broadcastAgentPollingIfChanged now q =
     (let connected = agentPollingConnected now q in
      if lastAgentPollingBroadcast q = Some connected then q
      else say (Polling connected) (q\<lparr>lastAgentPollingBroadcast := Some connected\<rparr>))"

definition nextLeaseUntil :: "int \<Rightarrow> live_queue \<Rightarrow> int option" where
  "nextLeaseUntil now q =
     (case sort (filter (\<lambda>t. t > now) (map (\<lambda>e. case qe_leaseUntil e of Some t \<Rightarrow> t | None \<Rightarrow> 0) (pendingEvents q))) of
        [] \<Rightarrow> None | t # ts \<Rightarrow> if t = 0 then None else Some t)"

definition scheduleLeaseFlush :: "int \<Rightarrow> live_queue \<Rightarrow> live_queue" where
  "scheduleLeaseFlush now q =
     q\<lparr>leaseTimer := map_option (\<lambda>t. node_due now (Some (max 0 (t - now + POLL_LEASE_EXPIRY_TIMER_GRACE_MS)))) (nextLeaseUntil now q)\<rparr>"

text \<open>The entry is its position in the queue.\<close>

fun first_index :: "('a \<Rightarrow> bool) \<Rightarrow> 'a list \<Rightarrow> nat option" where
  "first_index P [] = None"
| "first_index P (x # xs) = (if P x then Some 0 else map_option Suc (first_index P xs))"

definition findAvailablePendingEvent :: "int \<Rightarrow> live_queue \<Rightarrow> nat option" where
  "findAvailablePendingEvent now q = first_index (\<lambda>e. \<not> leased now e) (pendingEvents q)"

definition remove_at :: "nat \<Rightarrow> 'a list \<Rightarrow> 'a list" where
  "remove_at k xs = take k xs @ drop (Suc k) xs"

definition lease_for :: "int \<Rightarrow> int option \<Rightarrow> queued \<Rightarrow> queued" where
  "lease_for now leaseMs e = e\<lparr>qe_leaseUntil := map_option (\<lambda>ms. now + ms) leaseMs\<rparr>"

definition leaseEvent :: "int \<Rightarrow> nat \<Rightarrow> int option \<Rightarrow> live_queue \<Rightarrow> json \<times> live_queue" where
  "leaseEvent now k leaseMs q =
     (let e = pendingEvents q ! k in
      if \<not> js_truthy (qe_id e) then (qe_event e, q\<lparr>pendingEvents := remove_at k (pendingEvents q)\<rparr>)
      else (qe_event e, broadcastAgentPollingIfChanged now (scheduleLeaseFlush now
              (q\<lparr>pendingEvents := (pendingEvents q)[k := lease_for now leaseMs e]\<rparr>))))"

text \<open>\<open>resolve\<close> of a parked poll.\<close>

definition resolve_poll :: "int \<Rightarrow> nat \<Rightarrow> json \<Rightarrow> live_queue \<Rightarrow> live_queue" where
  "resolve_poll now p event q = say (Answered p (A_event event)) (q\<lparr>lastPollAt := now\<rparr>)"

text \<open>One round of the loop: the first poll gets the first free event.\<close>

definition serve_first :: "int \<Rightarrow> nat \<Rightarrow> live_queue \<Rightarrow> live_queue" where
  "serve_first now k q =
     (let p = hd (pendingPolls q); (event, q1) = leaseEvent now k (pk_leaseMs p) (q\<lparr>pendingPolls := tl (pendingPolls q)\<rparr>)
      in resolve_poll now (pk_id p) event q1)"

lemma pendingPolls_frames [simp]:
  "pendingPolls (broadcastAgentPollingIfChanged now q) = pendingPolls q" "pendingPolls (scheduleLeaseFlush now q) = pendingPolls q"
  "pendingPolls (say x q) = pendingPolls q" "pendingPolls (snd (leaseEvent now k ms q)) = pendingPolls q"
  by (simp_all add: broadcastAgentPollingIfChanged_def scheduleLeaseFlush_def say_def leaseEvent_def Let_def)

lemma pendingPolls_serve [simp]: "pendingPolls (serve_first now k q) = tl (pendingPolls q)"
  by (simp add: serve_first_def Let_def resolve_poll_def split_beta say_def)

function flush_loop :: "int \<Rightarrow> bool \<Rightarrow> live_queue \<Rightarrow> live_queue" where
  "flush_loop now changed q =
     (if pendingPolls q \<noteq> [] then
        (case findAvailablePendingEvent now q of
           None \<Rightarrow> broadcastAgentPollingIfChanged now (scheduleLeaseFlush now q)
         | Some k \<Rightarrow> flush_loop now True (serve_first now k q))
      else let q1 = scheduleLeaseFlush now q in if changed then broadcastAgentPollingIfChanged now q1 else q1)"
  by pat_completeness auto
termination
  by (relation "measure (\<lambda>(now, changed, q). length (pendingPolls q))") auto

declare flush_loop.simps [simp del]

definition flushPendingPolls :: "int \<Rightarrow> live_queue \<Rightarrow> live_queue" where
  "flushPendingPolls now q = flush_loop now False q"

definition already_queued :: "json \<Rightarrow> live_queue \<Rightarrow> bool" where
  "already_queued event q =
     (js_truthy (fld (Some event) ''id'') \<and>
      list_ex (\<lambda>e. strict_eq (qe_id e) (fld (Some event) ''id'') \<and> strict_eq (qe_type e) (fld (Some event) ''type'')) (pendingEvents q))"

definition pushed :: "json \<Rightarrow> live_queue \<Rightarrow> live_queue" where
  "pushed event q = q\<lparr>pendingEvents := pendingEvents q @ [\<lparr>qe_event = event, qe_leaseUntil = Some 0, qe_seq = nextEventSeq q\<rparr>],
     nextEventSeq := nextEventSeq q + 1\<rparr>"

definition enqueueEvent :: "int \<Rightarrow> json \<Rightarrow> live_queue \<Rightarrow> live_queue" where
  "enqueueEvent now event q =
     (if \<not> js_truthy (Some event) \<or> already_queued event q then q
      else flushPendingPolls now (pushed event q))"

definition acknowledgePendingEvent :: "int \<Rightarrow> js \<Rightarrow> live_queue \<Rightarrow> json option \<times> live_queue" where
  "acknowledgePendingEvent now i q =
     (if \<not> js_truthy i then (None, q)
      else case first_index (\<lambda>e. strict_eq (qe_id e) i) (pendingEvents q) of
          None \<Rightarrow> (None, q)
        | Some k \<Rightarrow> (Some (qe_event (pendingEvents q ! k)),
            broadcastAgentPollingIfChanged now (scheduleLeaseFlush now (q\<lparr>pendingEvents := remove_at k (pendingEvents q)\<rparr>))))"

definition findPendingEventById :: "js \<Rightarrow> live_queue \<Rightarrow> json option" where
  "findPendingEventById i q =
     (if \<not> js_truthy i then None
      else map_option (\<lambda>k. qe_event (pendingEvents q ! k)) (first_index (\<lambda>e. strict_eq (qe_id e) i) (pendingEvents q)))"

definition anonymous_exit :: "queued \<Rightarrow> bool" where
  "anonymous_exit e = (qe_type e = Some (JStr ''exit'') \<and> \<not> js_truthy (qe_id e))"

definition cancelQueuedAnonymousExitEvents :: "int \<Rightarrow> live_queue \<Rightarrow> live_queue" where
  "cancelQueuedAnonymousExitEvents now q =
     (if list_ex anonymous_exit (pendingEvents q)
      then broadcastAgentPollingIfChanged now (scheduleLeaseFlush now (q\<lparr>pendingEvents := filter (\<lambda>e. \<not> anonymous_exit e) (pendingEvents q)\<rparr>))
      else q)"

text \<open>The lease timer, when it is due.\<close>

definition lease_timer_fires :: "int \<Rightarrow> live_queue \<Rightarrow> live_queue" where
  "lease_timer_fires now q = broadcastAgentPollingIfChanged now (flushPendingPolls now (q\<lparr>leaseTimer := None\<rparr>))"

text \<open>A parameter of the query, with its default for an absent or empty one.\<close>

definition query_int :: "string option \<Rightarrow> int \<Rightarrow> int option" where
  "query_int v dflt = (case v of Some s \<Rightarrow> if s = [] then Some dflt else parseInt10 s | None \<Rightarrow> Some dflt)"

text \<open>The server's token, the token of the query, and the two numbers of the query.\<close>

definition handlePollGet :: "int \<Rightarrow> string \<Rightarrow> string option \<Rightarrow> string option \<Rightarrow> string option \<Rightarrow> live_queue \<Rightarrow> live_queue" where
  "handlePollGet now stateToken token timeoutParam leaseParam q0 =
     (let p = q_requests q0; q = q0\<lparr>q_requests := Suc p\<rparr> in
      if token \<noteq> Some stateToken then say (Answered p A_unauthorized) q
      else
        let q1 = q\<lparr>lastPollAt := now\<rparr>; timeout = query_int timeoutParam DEFAULT_POLL_TIMEOUT; leaseMs = query_int leaseParam 30000 in
        case findAvailablePendingEvent now q1 of
          Some k \<Rightarrow> (let (event, q2) = leaseEvent now k leaseMs q1 in say (Answered p (A_event event)) q2)
        | None \<Rightarrow> scheduleLeaseFlush now (broadcastAgentPollingIfChanged now
            (q1\<lparr>pendingPolls := pendingPolls q1 @ [\<lparr>pk_id = p, pk_leaseMs = leaseMs, pk_due = node_due now timeout\<rparr>]\<rparr>)))"

definition drop_poll :: "nat \<Rightarrow> live_queue \<Rightarrow> live_queue" where
  "drop_poll p q = q\<lparr>pendingPolls := filter (\<lambda>x. pk_id x \<noteq> p) (pendingPolls q)\<rparr>"

definition poll_timeout :: "int \<Rightarrow> nat \<Rightarrow> live_queue \<Rightarrow> live_queue" where
  "poll_timeout now p q = say (Answered p A_timeout) (broadcastAgentPollingIfChanged now (drop_poll p q))"

definition poll_closed :: "int \<Rightarrow> nat \<Rightarrow> live_queue \<Rightarrow> live_queue" where
  "poll_closed now p q = broadcastAgentPollingIfChanged now (drop_poll p q)"

definition chatAgentLikelyActive :: "int \<Rightarrow> live_queue \<Rightarrow> bool" where
  "chatAgentLikelyActive now q = (pendingPolls q \<noteq> [] \<or> (lastPollAt q \<noteq> 0 \<and> now - lastPollAt q < CHAT_POLL_FRESHNESS_MS))"

text \<open>
  What \<open>live/manual-apply.mjs\<close> does to the queue: the timer of an apply that was given up
  acknowledges its event and nothing more; a discard takes the events of its page out, and serves
  the polls when it took one or cancelled a promise.
\<close>

definition named_page :: "string option \<Rightarrow> bool" where
  "named_page p = (p \<noteq> None \<and> p \<noteq> Some [])"

definition page_asked :: "string option \<Rightarrow> js \<Rightarrow> bool" where
  "page_asked asked v \<longleftrightarrow> \<not> named_page asked \<or> v = map_option JStr asked"

definition cancels_event :: "string option \<Rightarrow> json \<Rightarrow> bool" where
  "cancels_event asked e \<longleftrightarrow> fld (Some e) ''type'' = Some (JStr ''manual_edit_apply'') \<and> page_asked asked (fld (Some e) ''pageUrl'')"

definition cancel_queued :: "int \<Rightarrow> string option \<Rightarrow> bool \<Rightarrow> live_queue \<Rightarrow> live_queue" where
  "cancel_queued now asked promises q =
     (let q1 = q\<lparr>pendingEvents := filter (\<lambda>e. \<not> cancels_event asked (qe_event e)) (pendingEvents q)\<rparr> in
      if promises \<or> list_ex (\<lambda>e. cancels_event asked (qe_event e)) (pendingEvents q) then flushPendingPolls now q1 else q1)"

section \<open>Runs\<close>

text \<open>
  What happens to the queue, with its time. A reply acknowledges its event and then flushes, the
  timeout of an apply only acknowledges; a discard cancels; another handler may flush on its own. A
  timer of the queue fires when it is due.
\<close>

datatype queue_op =
    Q_enqueue json
  | Q_get string "string option" "string option" "string option"
  | Q_timeout nat
  | Q_close nat
  | Q_lease_timer
  | Q_reply js
  | Q_flush
  | Q_connect
  | Q_apply_timeout js
  | Q_cancel "string option" bool

definition reply_queue :: "int \<Rightarrow> js \<Rightarrow> live_queue \<Rightarrow> live_queue" where
  "reply_queue now i q = flushPendingPolls now (snd (acknowledgePendingEvent now i q))"

fun queue_step :: "int \<times> queue_op \<Rightarrow> live_queue \<Rightarrow> live_queue" where
  "queue_step (now, Q_enqueue event) q = enqueueEvent now event q"
| "queue_step (now, Q_get stateToken token timeoutParam leaseParam) q = handlePollGet now stateToken token timeoutParam leaseParam q"
| "queue_step (now, Q_timeout p) q = (if list_ex (\<lambda>x. pk_id x = p \<and> pk_due x \<le> now) (pendingPolls q) then poll_timeout now p q else q)"
| "queue_step (now, Q_close p) q = poll_closed now p q"
| "queue_step (now, Q_lease_timer) q = (case leaseTimer q of Some d \<Rightarrow> if d \<le> now then lease_timer_fires now q else q | None \<Rightarrow> q)"
| "queue_step (now, Q_reply i) q = reply_queue now i q"
| "queue_step (now, Q_flush) q = flushPendingPolls now q"
| "queue_step (now, Q_connect) q = cancelQueuedAnonymousExitEvents now q"
| "queue_step (now, Q_apply_timeout i) q = snd (acknowledgePendingEvent now i q)"
| "queue_step (now, Q_cancel asked promises) q = cancel_queued now asked promises q"

definition queue_exec :: "(int \<times> queue_op) list \<Rightarrow> live_queue \<Rightarrow> live_queue" where
  "queue_exec ops q = fold queue_step ops q"

section \<open>Helpers\<close>

lemma first_index_Some: "first_index P xs = Some k \<Longrightarrow> k < length xs \<and> P (xs ! k) \<and> (\<forall>j<k. \<not> P (xs ! j))"
proof (induction xs arbitrary: k)
  case (Cons x xs)
  then show ?case by (cases k) (auto simp: nth_Cons less_Suc_eq_0_disj split: if_splits nat.splits)
qed simp

lemma first_index_None: "first_index P xs = None \<longleftrightarrow> (\<forall>x\<in>set xs. \<not> P x)"
  by (induction xs) auto

lemma remove_at_simps: "k < length xs \<Longrightarrow> remove_at k (map f xs) = map f (remove_at k xs)"
  by (simp add: remove_at_def take_map drop_map)

lemma remove_at_subseq: "subseq (remove_at k xs) xs"
proof -
  have "suffix (drop (Suc k) xs) (drop k xs)" by (metis drop_Suc suffix_tl tl_drop)
  then have "subseq (take k xs @ drop (Suc k) xs) (take k xs @ drop k xs)"
    by (intro list_emb_append_mono) (auto simp: suffix_imp_subseq)
  then show ?thesis by (simp add: remove_at_def)
qed

lemma remove_at_set: "k < length xs \<Longrightarrow> x \<in> set xs \<Longrightarrow> x \<in> set (remove_at k xs) \<or> x = xs ! k"
  by (metis Un_iff id_take_nth_drop remove_at_def set_ConsD set_append)

lemma sorted_wrt_subseq: "subseq xs ys \<Longrightarrow> sorted_wrt R ys \<Longrightarrow> sorted_wrt R xs"
  by (induction rule: list_emb.induct) (auto dest: list_emb_set)

lemma subseq_set: "subseq xs ys \<Longrightarrow> set xs \<subseteq> set ys"
  by (auto dest: list_emb_set)

text \<open>The change a leased entry undergoes is seen in its lease only.\<close>

lemma lease_for_simps [simp]:
  "qe_event (lease_for now ms e) = qe_event e" "qe_seq (lease_for now ms e) = qe_seq e"
  "qe_leaseUntil (lease_for now ms e) = map_option (\<lambda>m. now + m) ms"
  by (simp_all add: lease_for_def)

section \<open>Invariants of the queue\<close>

text \<open>
  The primitive changes that the operations are made of. \<open>J\<close> holds of the queue between handlers with
  \<open>None\<close>, and inside one with the poll that was taken and is not answered yet. An invariant that every
  change keeps is kept by every operation and so by every run.
\<close>

locale queue_invariant =
  fixes J :: "nat option \<Rightarrow> live_queue \<Rightarrow> bool"
  assumes timer: "J h q \<Longrightarrow> J h (q\<lparr>leaseTimer := tm\<rparr>)"
    and seen: "J h q \<Longrightarrow> J h (q\<lparr>lastPollAt := t\<rparr>)"
    and broadcast: "J h q \<Longrightarrow> J h (broadcastAgentPollingIfChanged now q)"
    and shrink: "J h q \<Longrightarrow> subseq es (pendingEvents q) \<Longrightarrow> J h (q\<lparr>pendingEvents := es\<rparr>)"
    and relet: "J h q \<Longrightarrow> k < length (pendingEvents q) \<Longrightarrow>
      J h (q\<lparr>pendingEvents := (pendingEvents q)[k := lease_for now ms (pendingEvents q ! k)]\<rparr>)"
    and push: "J None q \<Longrightarrow> \<not> already_queued ev q \<Longrightarrow> J None (pushed ev q)"
    and accept: "J None q \<Longrightarrow> J (Some (q_requests q)) (q\<lparr>q_requests := Suc (q_requests q)\<rparr>)"
    and take: "J None q \<Longrightarrow> pendingPolls q = pl # ps \<Longrightarrow> J (Some (pk_id pl)) (q\<lparr>pendingPolls := ps\<rparr>)"
    and hold: "J None q \<Longrightarrow> p \<in> pk_id ` set (pendingPolls q) \<Longrightarrow> J (Some p) (drop_poll p q)"
    and drop: "J None q \<Longrightarrow> J None (drop_poll p q)"
    and answer: "J (Some p) q \<Longrightarrow> J None (say (Answered p a) q)"
    and park: "J (Some p) q \<Longrightarrow> J None (q\<lparr>pendingPolls := pendingPolls q @ [\<lparr>pk_id = p, pk_leaseMs = ms, pk_due = d\<rparr>]\<rparr>)"
begin

lemma schedule: "J h q \<Longrightarrow> J h (scheduleLeaseFlush now q)"
  by (simp add: scheduleLeaseFlush_def timer)

lemma lease: "J h q \<Longrightarrow> k < length (pendingEvents q) \<Longrightarrow> J h (snd (leaseEvent now k ms q))"
  by (simp add: leaseEvent_def Let_def shrink remove_at_subseq broadcast schedule relet)

lemma serve:
  assumes "J None q" "pendingPolls q \<noteq> []" "findAvailablePendingEvent now q = Some k"
  shows "J None (serve_first now k q)"
proof -
  from assms(2) obtain x ps where ps: "pendingPolls q = x # ps" by (cases "pendingPolls q") auto
  from assms(3) have "k < length (pendingEvents q)" by (auto simp: findAvailablePendingEvent_def dest: first_index_Some)
  then show ?thesis
    using lease[OF take[OF assms(1) ps], of k now "pk_leaseMs x"]
    by (simp add: serve_first_def ps Let_def split_beta resolve_poll_def answer seen)
qed

lemma flush_loop: "J None q \<Longrightarrow> J None (flush_loop now changed q)"
proof (induction now changed q rule: flush_loop.induct)
  case (1 now changed q)
  then show ?case
    by (subst flush_loop.simps) (auto simp: Let_def broadcast schedule serve split: option.split)
qed

lemma flush: "J None q \<Longrightarrow> J None (flushPendingPolls now q)"
  by (simp add: flushPendingPolls_def flush_loop)

lemma get: "J None q \<Longrightarrow> J None (handlePollGet now stok tok tp lp q)"
proof -
  assume *: "J None q"
  note q = accept[OF *]
  show ?thesis
    using lease[OF seen[OF q]] answer[OF q] park[OF seen[OF q]]
    by (auto simp: handlePollGet_def Let_def split_beta findAvailablePendingEvent_def
        intro!: answer schedule broadcast dest: first_index_Some split: option.split)
qed

lemma acknowledge: "J h q \<Longrightarrow> J h (snd (acknowledgePendingEvent now i q))"
  by (auto simp: acknowledgePendingEvent_def broadcast schedule shrink remove_at_subseq split: option.split)

lemma cancel: "J None q \<Longrightarrow> J None (cancel_queued now asked promises q)"
  by (auto simp: cancel_queued_def Let_def intro!: flush shrink)

lemma step_keeps: "J None q \<Longrightarrow> J None (queue_step x q)"
proof (cases "(x, q)" rule: queue_step.cases)
  case (3 now p q')
  then show "J None q \<Longrightarrow> ?thesis"
    by (auto simp: poll_timeout_def list_ex_iff intro!: answer broadcast hold)
next
  case (5 now q')
  then show "J None q \<Longrightarrow> ?thesis"
    by (auto simp: lease_timer_fires_def broadcast flush timer split: option.split)
next
  case (6 now i q')
  then show "J None q \<Longrightarrow> ?thesis" by (simp add: reply_queue_def flush acknowledge)
qed (auto simp: enqueueEvent_def flush push get poll_closed_def drop broadcast cancelQueuedAnonymousExitEvents_def schedule shrink acknowledge cancel)

lemma exec: "J None q \<Longrightarrow> J None (queue_exec ops q)"
  by (induction ops arbitrary: q) (simp_all add: queue_exec_def step_keeps)

end

text \<open>The queue is in the order of arrival, and its numbers are used up.\<close>

definition arrival_order :: "nat option \<Rightarrow> live_queue \<Rightarrow> bool" where
  "arrival_order h q \<longleftrightarrow> sorted_wrt (<) (map qe_seq (pendingEvents q)) \<and> (\<forall>e\<in>set (pendingEvents q). qe_seq e < nextEventSeq q)"

text \<open>No two entries are the same request.\<close>

definition same_request :: "queued \<Rightarrow> queued \<Rightarrow> bool" where
  "same_request a b \<longleftrightarrow> js_truthy (qe_id b) \<and> strict_eq (qe_id a) (qe_id b) \<and> strict_eq (qe_type a) (qe_type b)"

definition no_repeats :: "nat option \<Rightarrow> live_queue \<Rightarrow> bool" where
  "no_repeats h q \<longleftrightarrow> sorted_wrt (\<lambda>a b. \<not> same_request a b) (pendingEvents q)"

text \<open>Every poll is parked once, held, or answered once.\<close>

definition answered :: "queue_out list \<Rightarrow> nat list" where
  "answered out = List.map_filter (\<lambda>x. case x of Answered p a \<Rightarrow> Some p | _ \<Rightarrow> None) out"

definition polls_of :: "nat option \<Rightarrow> live_queue \<Rightarrow> nat list" where
  "polls_of h q = (case h of Some p \<Rightarrow> [p] | None \<Rightarrow> []) @ map pk_id (pendingPolls q) @ answered (q_out q)"

definition answered_once :: "nat option \<Rightarrow> live_queue \<Rightarrow> bool" where
  "answered_once h q \<longleftrightarrow> distinct (polls_of h q) \<and> (\<forall>p\<in>set (polls_of h q). p < q_requests q)"

text \<open>The browsers hear of every change once: the broadcasts alternate, and the last one is remembered.\<close>

definition pollings :: "queue_out list \<Rightarrow> bool list" where
  "pollings out = List.map_filter (\<lambda>x. case x of Polling b \<Rightarrow> Some b | _ \<Rightarrow> None) out"

definition alternating :: "nat option \<Rightarrow> live_queue \<Rightarrow> bool" where
  "alternating h q \<longleftrightarrow> successively (\<noteq>) (pollings (q_out q)) \<and>
     lastAgentPollingBroadcast q = (if pollings (q_out q) = [] then None else Some (last (pollings (q_out q))))"

lemma map_filter_snoc: "List.map_filter f (xs @ [x]) = List.map_filter f xs @ (case f x of Some y \<Rightarrow> [y] | None \<Rightarrow> [])"
  by (simp add: List.map_filter_def split: option.split)

lemma out_simps [simp]:
  "answered (out @ [Answered p a]) = answered out @ [p]" "answered (out @ [Polling b]) = answered out"
  "pollings (out @ [Answered p a]) = pollings out" "pollings (out @ [Polling b]) = pollings out @ [b]" "answered [] = []" "pollings [] = []"
  by (simp_all add: answered_def pollings_def map_filter_snoc)

lemma map_update_lease [simp]:
  "map qe_seq (xs[k := lease_for now ms (xs ! k)]) = map qe_seq xs" "map qe_event (xs[k := lease_for now ms (xs ! k)]) = map qe_event xs"
  by (simp_all add: map_update) (metis list_update_id map_update)+

lemmas queue_primitives = broadcastAgentPollingIfChanged_def say_def drop_poll_def pushed_def Let_def

interpretation order: queue_invariant arrival_order
proof unfold_locales
  fix h q es assume "arrival_order h q" "subseq es (pendingEvents q)"
  then show "arrival_order h (q\<lparr>pendingEvents := es\<rparr>)"
    using sorted_wrt_subseq[OF subseq_map[of es "pendingEvents q" qe_seq]] subseq_set[of es "pendingEvents q"]
    by (auto simp: arrival_order_def)
next
  fix h q k now ms assume "arrival_order h q" "k < length (pendingEvents q)"
  then show "arrival_order h (q\<lparr>pendingEvents := (pendingEvents q)[k := lease_for now ms (pendingEvents q ! k)]\<rparr>)"
    by (auto simp: arrival_order_def set_update_distinct dest!: set_update_subset_insert[THEN subsetD])
qed (auto simp: arrival_order_def queue_primitives sorted_wrt_append)

interpretation requests: queue_invariant no_repeats
proof unfold_locales
  fix h q es assume "no_repeats h q" "subseq es (pendingEvents q)"
  then show "no_repeats h (q\<lparr>pendingEvents := es\<rparr>)"
    using sorted_wrt_subseq[of es "pendingEvents q"] by (simp add: no_repeats_def)
next
  fix h q k now ms assume "no_repeats h q" "k < length (pendingEvents q)"
  then have "sorted_wrt (\<lambda>a b. \<not> same_request (\<lparr>qe_event = a, qe_leaseUntil = None, qe_seq = 0\<rparr>) \<lparr>qe_event = b, qe_leaseUntil = None, qe_seq = 0\<rparr>)
      (map qe_event ((pendingEvents q)[k := lease_for now ms (pendingEvents q ! k)]))"
    unfolding map_update_lease by (simp add: no_repeats_def sorted_wrt_map same_request_def)
  then show "no_repeats h (q\<lparr>pendingEvents := (pendingEvents q)[k := lease_for now ms (pendingEvents q ! k)]\<rparr>)"
    by (simp only: sorted_wrt_map) (simp add: no_repeats_def same_request_def)
qed (auto simp: no_repeats_def queue_primitives sorted_wrt_append same_request_def already_queued_def list_ex_iff)

lemma map_drop: "map pk_id (filter (\<lambda>x. pk_id x \<noteq> p) xs) = filter (\<lambda>i. i \<noteq> p) (map pk_id xs)"
  by (induction xs) auto

interpretation answers: queue_invariant answered_once
  by unfold_locales
    (auto simp: answered_once_def polls_of_def queue_primitives map_drop less_Suc_eq split: option.splits)

interpretation broadcasts: queue_invariant alternating
  by unfold_locales (auto simp: alternating_def queue_primitives successively_append_iff split: if_splits)

lemma empty_queue_invariants: "arrival_order None empty_queue" "no_repeats None empty_queue" "answered_once None empty_queue" "alternating None empty_queue"
  by (simp_all add: empty_queue_def arrival_order_def no_repeats_def answered_once_def polls_of_def alternating_def)

section \<open>Leases\<close>

text \<open>
  What an operation at time \<open>now\<close> may do to the entries whose event satisfies \<open>P\<close>: it leaves the leased
  ones alone and loses none, and it hands out only events that were free.
\<close>

definition quiet :: "int \<Rightarrow> (json \<Rightarrow> bool) \<Rightarrow> live_queue \<Rightarrow> live_queue \<Rightarrow> bool" where
  "quiet now P q q' \<longleftrightarrow>
     (\<forall>e\<in>set (pendingEvents q). P (qe_event e) \<longrightarrow> (leased now e \<longrightarrow> e \<in> set (pendingEvents q')) \<and>
        (\<exists>e'\<in>set (pendingEvents q'). qe_event e' = qe_event e \<and> qe_seq e' = qe_seq e)) \<and>
     (\<forall>e'\<in>set (pendingEvents q'). \<not> leased now e' \<longrightarrow> (\<exists>e\<in>set (pendingEvents q). \<not> leased now e \<and> qe_event e = qe_event e')) \<and>
     (\<exists>new. q_out q' = q_out q @ new \<and> (\<forall>p ev. Answered p (A_event ev) \<in> set new \<longrightarrow>
        (\<exists>e\<in>set (pendingEvents q). \<not> leased now e \<and> qe_event e = ev)))"

lemma quietI:
  assumes "\<And>e. e \<in> set (pendingEvents q) \<Longrightarrow> P (qe_event e) \<Longrightarrow> leased now e \<Longrightarrow> e \<in> set (pendingEvents q')"
    and "\<And>e. e \<in> set (pendingEvents q) \<Longrightarrow> P (qe_event e) \<Longrightarrow> \<exists>e'\<in>set (pendingEvents q'). qe_event e' = qe_event e \<and> qe_seq e' = qe_seq e"
    and "\<And>e'. e' \<in> set (pendingEvents q') \<Longrightarrow> \<not> leased now e' \<Longrightarrow> \<exists>e\<in>set (pendingEvents q). \<not> leased now e \<and> qe_event e = qe_event e'"
    and "q_out q' = q_out q @ new"
    and "\<And>p ev. Answered p (A_event ev) \<in> set new \<Longrightarrow> \<exists>e\<in>set (pendingEvents q). \<not> leased now e \<and> qe_event e = ev"
  shows "quiet now P q q'"
  unfolding quiet_def using assms by blast

lemma quiet_trans: "quiet now P q q1 \<Longrightarrow> quiet now P q1 q2 \<Longrightarrow> quiet now P q q2"
proof -
  assume a: "quiet now P q q1" and b: "quiet now P q1 q2"
  from a obtain n1 where n1: "q_out q1 = q_out q @ n1" "\<And>p ev. Answered p (A_event ev) \<in> set n1 \<Longrightarrow> \<exists>e\<in>set (pendingEvents q). \<not> leased now e \<and> qe_event e = ev"
    unfolding quiet_def by blast
  from b obtain n2 where n2: "q_out q2 = q_out q1 @ n2" "\<And>p ev. Answered p (A_event ev) \<in> set n2 \<Longrightarrow> \<exists>e\<in>set (pendingEvents q1). \<not> leased now e \<and> qe_event e = ev"
    unfolding quiet_def by blast
  show ?thesis
  proof (rule quietI)
    show "q_out q2 = q_out q @ (n1 @ n2)" using n1(1) n2(1) by simp
  next
    fix p ev assume "Answered p (A_event ev) \<in> set (n1 @ n2)"
    then show "\<exists>e\<in>set (pendingEvents q). \<not> leased now e \<and> qe_event e = ev"
      using n1(2) n2(2) a unfolding quiet_def by (metis Un_iff set_append)
  next
    fix e assume "e \<in> set (pendingEvents q)" "P (qe_event e)"
    then show "\<exists>e'\<in>set (pendingEvents q2). qe_event e' = qe_event e \<and> qe_seq e' = qe_seq e"
      using a b unfolding quiet_def by metis
  qed (use a b in \<open>unfold quiet_def, metis+\<close>)
qed

text \<open>Changes outside the entries.\<close>

lemma quiet_frame:
  "pendingEvents q' = pendingEvents q \<Longrightarrow> q_out q' = q_out q @ new \<Longrightarrow> (\<And>p ev. Answered p (A_event ev) \<notin> set new) \<Longrightarrow> quiet now P q q'"
  by (rule quietI[where new = new]) auto

lemma event_frames [simp]:
  "pendingEvents (scheduleLeaseFlush now q) = pendingEvents q" "pendingEvents (broadcastAgentPollingIfChanged now q) = pendingEvents q"
  "pendingEvents (say x q) = pendingEvents q" "pendingEvents (drop_poll p q) = pendingEvents q"
  "q_out (scheduleLeaseFlush now q) = q_out q" "q_out (say x q) = q_out q @ [x]" "q_out (drop_poll p q) = q_out q"
  by (simp_all add: scheduleLeaseFlush_def queue_primitives)

lemma quiet_refl [simp]: "quiet now P q q"
  by (rule quiet_frame[where new = "[]"]) simp_all

lemma quiet_schedule: "quiet now P q q1 \<Longrightarrow> quiet now P q (scheduleLeaseFlush now' q1)"
  by (erule quiet_trans) (rule quiet_frame[where new = "[]"], simp_all)

lemma quiet_broadcast: "quiet now P q q1 \<Longrightarrow> quiet now P q (broadcastAgentPollingIfChanged now' q1)"
  by (erule quiet_trans)
    (rule quiet_frame[where new = "if lastAgentPollingBroadcast q1 = Some (agentPollingConnected now' q1) then [] else [Polling (agentPollingConnected now' q1)]"],
      auto simp: queue_primitives)

text \<open>Handing out a free event.\<close>

lemma quiet_lease:
  assumes "findAvailablePendingEvent now q = Some k" and P: "\<And>ev. P ev \<Longrightarrow> js_truthy (fld (Some ev) ''id'')"
  shows "quiet now P q (snd (leaseEvent now k ms q))"
proof -
  let ?es = "pendingEvents q" and ?e = "pendingEvents q ! k"
  from assms(1) have k: "k < length ?es" "\<not> leased now ?e" by (auto simp: findAvailablePendingEvent_def dest: first_index_Some)
  show ?thesis
  proof (cases "js_truthy (qe_id ?e)")
    case False
    have "quiet now P q (q\<lparr>pendingEvents := remove_at k ?es\<rparr>)"
    proof (rule quietI[where new = "[]"])
      fix e assume "e \<in> set ?es" "P (qe_event e)"
      then show "\<exists>e'\<in>set (pendingEvents (q\<lparr>pendingEvents := remove_at k ?es\<rparr>)). qe_event e' = qe_event e \<and> qe_seq e' = qe_seq e"
        using remove_at_set[OF k(1), of e] P False by auto
    qed (use remove_at_set[OF k(1)] k(2) subseq_set[OF remove_at_subseq[of k ?es]] in auto)
    with False show ?thesis by (simp add: leaseEvent_def Let_def)
  next
    case True
    have "quiet now P q (q\<lparr>pendingEvents := ?es[k := lease_for now ms ?e]\<rparr>)"
    proof (rule quietI[where new = "[]"])
      fix e assume e: "e \<in> set ?es"
      then obtain j where j: "j < length ?es" "?es ! j = e" by (auto simp: in_set_conv_nth)
      have "?es[k := lease_for now ms ?e] ! j \<in> set (?es[k := lease_for now ms ?e])" using j(1) by (metis length_list_update nth_mem)
      then show "\<exists>e'\<in>set (pendingEvents (q\<lparr>pendingEvents := ?es[k := lease_for now ms ?e]\<rparr>)). qe_event e' = qe_event e \<and> qe_seq e' = qe_seq e"
        using j k by (intro bexI[of _ "?es[k := lease_for now ms ?e] ! j"]) (auto simp: nth_list_update)
      show "leased now e \<Longrightarrow> e \<in> set (pendingEvents (q\<lparr>pendingEvents := ?es[k := lease_for now ms ?e]\<rparr>))"
        using j k \<open>?es[k := lease_for now ms ?e] ! j \<in> _\<close> by (auto simp: nth_list_update split: if_splits)
    next
      fix e' assume "e' \<in> set (pendingEvents (q\<lparr>pendingEvents := ?es[k := lease_for now ms ?e]\<rparr>))" "\<not> leased now e'"
      then show "\<exists>e\<in>set ?es. \<not> leased now e \<and> qe_event e = qe_event e'"
        using k by (auto dest!: set_update_subset_insert[THEN subsetD])
    qed simp_all
    with True show ?thesis by (simp add: leaseEvent_def Let_def quiet_schedule quiet_broadcast)
  qed
qed

lemma lease_out: "\<exists>bs. q_out (snd (leaseEvent now k ms q)) = q_out q @ map Polling bs" "fst (leaseEvent now k ms q) = qe_event (pendingEvents q ! k)"
proof -
  have "\<exists>bs. q_out (broadcastAgentPollingIfChanged now q) = q_out q @ map Polling bs" for q
    using exI[of _ "[]"] exI[of _ "[agentPollingConnected now q]"] by (auto simp: queue_primitives)
  from this[of "scheduleLeaseFlush now (q\<lparr>pendingEvents := (pendingEvents q)[k := lease_for now ms (pendingEvents q ! k)]\<rparr>)"]
  show "\<exists>bs. q_out (snd (leaseEvent now k ms q)) = q_out q @ map Polling bs" "fst (leaseEvent now k ms q) = qe_event (pendingEvents q ! k)"
    by (auto simp: leaseEvent_def Let_def scheduleLeaseFlush_def intro: exI[of _ "[]"])
qed

lemma quiet_hand:
  assumes "findAvailablePendingEvent now q = Some k" and "\<And>ev. P ev \<Longrightarrow> js_truthy (fld (Some ev) ''id'')"
    and q': "pendingEvents q' = pendingEvents (snd (leaseEvent now k ms q))"
    "q_out q' = q_out (snd (leaseEvent now k ms q)) @ [Answered p (A_event (qe_event (pendingEvents q ! k)))]"
  shows "quiet now P q q'"
proof -
  from assms(1) have k: "k < length (pendingEvents q)" "\<not> leased now (pendingEvents q ! k)" by (auto simp: findAvailablePendingEvent_def dest: first_index_Some)
  obtain bs where bs: "q_out (snd (leaseEvent now k ms q)) = q_out q @ map Polling bs" using lease_out by blast
  show ?thesis
    using quiet_lease[OF assms(1,2), where ms = ms] k
    by (intro quietI[where new = "map Polling bs @ [Answered p (A_event (qe_event (pendingEvents q ! k)))]"])
      (auto simp: quiet_def q' bs)
qed

lemma quiet_serve:
  assumes "findAvailablePendingEvent now q = Some k" and "\<And>ev. P ev \<Longrightarrow> js_truthy (fld (Some ev) ''id'')"
  shows "quiet now P q (serve_first now k q)"
proof (rule quiet_trans)
  show "quiet now P q (q\<lparr>pendingPolls := tl (pendingPolls q)\<rparr>)" by (rule quiet_frame[where new = "[]"]) simp_all
  show "quiet now P (q\<lparr>pendingPolls := tl (pendingPolls q)\<rparr>) (serve_first now k q)"
    using assms by (intro quiet_hand) (auto simp: findAvailablePendingEvent_def serve_first_def Let_def split_beta resolve_poll_def lease_out(2))
qed

lemma quiet_flush_loop: "(\<And>ev. P ev \<Longrightarrow> js_truthy (fld (Some ev) ''id'')) \<Longrightarrow> quiet now P q (flush_loop now changed q)"
proof (induction now changed q rule: flush_loop.induct)
  case (1 now changed q)
  then show ?case
    by (subst flush_loop.simps) (auto simp: Let_def intro!: quiet_broadcast quiet_schedule intro: quiet_trans[OF quiet_serve] split: option.split)
qed

lemma quiet_flush: "(\<And>ev. P ev \<Longrightarrow> js_truthy (fld (Some ev) ''id'')) \<Longrightarrow> quiet now P q (flushPendingPolls now q)"
  by (simp add: flushPendingPolls_def quiet_flush_loop)

text \<open>A poll that finds a free event gets the one that came first, and leases it or takes it away.\<close>

lemma quiet_get:
  assumes P: "\<And>ev. P ev \<Longrightarrow> js_truthy (fld (Some ev) ''id'')"
  shows "quiet now P q (handlePollGet now stok tok tp lp q)"
proof -
  let ?q = "q\<lparr>q_requests := Suc (q_requests q), lastPollAt := now\<rparr>"
  have q: "quiet now P q ?q" by (rule quiet_frame[where new = "[]"]) simp_all
  show ?thesis
  proof (cases "tok = Some stok")
    case False
    then show ?thesis by (intro quiet_frame[where new = "[Answered (q_requests q) A_unauthorized]"]) (simp_all add: handlePollGet_def Let_def)
  next
    case True
    show ?thesis
    proof (cases "findAvailablePendingEvent now ?q")
      case None
      have "quiet now P q (q\<lparr>q_requests := Suc (q_requests q), lastPollAt := now,
          pendingPolls := pendingPolls q @ [\<lparr>pk_id = q_requests q, pk_leaseMs = query_int lp 30000, pk_due = node_due now (query_int tp DEFAULT_POLL_TIMEOUT)\<rparr>]\<rparr>)"
        by (rule quiet_frame[where new = "[]"]) simp_all
      with None True show ?thesis by (simp add: handlePollGet_def Let_def quiet_schedule quiet_broadcast)
    next
      case (Some k)
      have "quiet now P ?q (handlePollGet now stok tok tp lp q)"
        using Some True by (intro quiet_hand[OF Some P]) (auto simp: handlePollGet_def Let_def split_beta lease_out(2))
      then show ?thesis by (rule quiet_trans[OF q])
    qed
  qed
qed

lemma quiet_ack:
  assumes "\<And>ev. P ev \<Longrightarrow> \<not> strict_eq (fld (Some ev) ''id'') i"
  shows "quiet now P q (snd (acknowledgePendingEvent now i q))"
proof (cases "first_index (\<lambda>e. strict_eq (qe_id e) i) (pendingEvents q)")
  case None
  then show ?thesis by (simp add: acknowledgePendingEvent_def)
next
  case (Some k)
  then have k: "k < length (pendingEvents q)" "strict_eq (qe_id (pendingEvents q ! k)) i" using first_index_Some[OF Some] by auto
  have "quiet now P q (q\<lparr>pendingEvents := remove_at k (pendingEvents q)\<rparr>)"
  proof (rule quietI[where new = "[]"])
    fix e assume "e \<in> set (pendingEvents q)" "P (qe_event e)"
    then have "e \<in> set (remove_at k (pendingEvents q))" using remove_at_set[OF k(1), of e] assms k(2) by auto
    then show "\<exists>e'\<in>set (pendingEvents (q\<lparr>pendingEvents := remove_at k (pendingEvents q)\<rparr>)). qe_event e' = qe_event e \<and> qe_seq e' = qe_seq e"
      "e \<in> set (pendingEvents (q\<lparr>pendingEvents := remove_at k (pendingEvents q)\<rparr>))" by auto
  qed (use subseq_set[OF remove_at_subseq[of k "pendingEvents q"]] in auto)
  then show ?thesis using Some by (simp add: acknowledgePendingEvent_def quiet_schedule quiet_broadcast)
qed

text \<open>What a step starts from, once an arriving event is in the queue.\<close>

definition arrived :: "queue_op \<Rightarrow> live_queue \<Rightarrow> live_queue" where
  "arrived op q = (case op of Q_enqueue ev \<Rightarrow> if \<not> js_truthy (Some ev) \<or> already_queued ev q then q else pushed ev q | _ \<Rightarrow> q)"

text \<open>The operations that take an event away: a reply or a timeout with its id, and a discard of its page.\<close>

fun takes_away :: "queue_op \<Rightarrow> json \<Rightarrow> bool" where
  "takes_away (Q_reply i) ev = strict_eq (fld (Some ev) ''id'') i"
| "takes_away (Q_apply_timeout i) ev = strict_eq (fld (Some ev) ''id'') i"
| "takes_away (Q_cancel asked promises) ev = cancels_event asked ev"
| "takes_away _ ev = False"

lemma quiet_cancel:
  assumes P: "\<And>ev. P ev \<Longrightarrow> js_truthy (fld (Some ev) ''id'')" and kept: "\<And>ev. P ev \<Longrightarrow> \<not> cancels_event asked ev"
  shows "quiet now P q (cancel_queued now asked promises q)"
proof -
  have "quiet now P q (q\<lparr>pendingEvents := filter (\<lambda>e. \<not> cancels_event asked (qe_event e)) (pendingEvents q)\<rparr>)"
    using kept by (intro quietI[where new = "[]"]) auto
  then show ?thesis by (auto simp: cancel_queued_def Let_def intro: quiet_trans[OF _ quiet_flush[OF P]])
qed

lemma quiet_step:
  assumes P: "\<And>ev. P ev \<Longrightarrow> js_truthy (fld (Some ev) ''id'')" and ack: "\<And>ev. P ev \<Longrightarrow> \<not> takes_away op ev"
  shows "quiet now P (arrived op q) (queue_step (now, op) q)"
proof (cases op)
  case (Q_timeout p)
  have "quiet now P q (drop_poll p q)" by (rule quiet_frame[where new = "[]"]) simp_all
  then have "quiet now P q (poll_timeout now p q)"
    unfolding poll_timeout_def
    by (rule quiet_trans[OF quiet_broadcast]) (rule quiet_frame[where new = "[Answered p A_timeout]"], simp_all)
  then show ?thesis by (simp add: Q_timeout arrived_def)
next
  case (Q_close p)
  have "quiet now P q (drop_poll p q)" by (rule quiet_frame[where new = "[]"]) simp_all
  then show ?thesis by (simp add: Q_close arrived_def poll_closed_def quiet_broadcast)
next
  case Q_lease_timer
  have "quiet now P q (q\<lparr>leaseTimer := None\<rparr>)" by (rule quiet_frame[where new = "[]"]) simp_all
  then have "quiet now P q (lease_timer_fires now q)"
    unfolding lease_timer_fires_def by (intro quiet_broadcast) (rule quiet_trans[OF _ quiet_flush[OF P]])
  then show ?thesis by (simp add: Q_lease_timer arrived_def split: option.split)
next
  case (Q_reply i)
  then show ?thesis using quiet_trans[OF quiet_ack quiet_flush[OF P], of P i] ack by (auto simp: arrived_def reply_queue_def)
next
  case (Q_apply_timeout i)
  then show ?thesis using quiet_ack[of P i] ack by (simp add: arrived_def)
next
  case (Q_cancel asked promises)
  then show ?thesis using quiet_cancel[where P = P and asked = asked, OF P] ack by (simp add: arrived_def)
next
  case Q_connect
  have "quiet now P q (q\<lparr>pendingEvents := filter (\<lambda>e. \<not> anonymous_exit e) (pendingEvents q)\<rparr>)"
    using P by (intro quietI[where new = "[]"]) (auto simp: anonymous_exit_def)
  then show ?thesis by (simp add: Q_connect arrived_def cancelQueuedAnonymousExitEvents_def quiet_schedule quiet_broadcast)
qed (auto simp: arrived_def enqueueEvent_def quiet_flush[OF P] quiet_get[OF P])

text \<open>A request: an entry with an id and a type.\<close>

definition request :: "string \<Rightarrow> string \<Rightarrow> json \<Rightarrow> bool" where
  "request i t ev \<longleftrightarrow> fld (Some ev) ''id'' = Some (JStr i) \<and> i \<noteq> [] \<and> fld (Some ev) ''type'' = Some (JStr t)"

lemma unique_request:
  assumes "no_repeats h q" "a \<in> set (pendingEvents q)" "b \<in> set (pendingEvents q)" "request i t (qe_event a)" "request i t (qe_event b)"
  shows "a = b"
proof -
  obtain j k where jk: "j < length (pendingEvents q)" "pendingEvents q ! j = a" "k < length (pendingEvents q)" "pendingEvents q ! k = b"
    using assms(2,3) by (auto simp: in_set_conv_nth)
  have "same_request a b" "same_request b a" using assms(4,5) by (simp_all add: request_def same_request_def strict_eq_def)
  then have "\<not> j < k" "\<not> k < j" using assms(1) jk sorted_wrt_nth_less[of "\<lambda>a b. \<not> same_request a b" "pendingEvents q"] by (auto simp: no_repeats_def)
  with jk show ?thesis by (cases j k rule: linorder_cases) auto
qed

lemma arrived_facts:
  "no_repeats None q \<Longrightarrow> no_repeats None (arrived op q)" "set (pendingEvents q) \<subseteq> set (pendingEvents (arrived op q))" "q_out (arrived op q) = q_out q"
  by (simp add: arrived_def requests.push split: queue_op.split) (auto simp: arrived_def pushed_def split: queue_op.split)

text \<open>What \<open>quiet\<close> needs to know of one event: that it is a request, and which.\<close>

definition this_request :: "json \<Rightarrow> json \<Rightarrow> bool" where
  "this_request ev ev' \<longleftrightarrow> ev' = ev \<and> js_truthy (fld (Some ev) ''id'')"

lemma request_step:
  assumes "no_repeats None q" "e \<in> set (pendingEvents q)" "request i t (qe_event e)" "\<not> takes_away op (qe_event e)"
  shows "\<exists>e'\<in>set (pendingEvents (queue_step (now, op) q)). qe_event e' = qe_event e \<and> qe_seq e' = qe_seq e"
    and "leased now e \<Longrightarrow> e \<in> set (pendingEvents (queue_step (now, op) q)) \<and>
      (\<exists>new. q_out (queue_step (now, op) q) = q_out q @ new \<and> (\<forall>p. Answered p (A_event (qe_event e)) \<notin> set new))"
proof -
  have own: "this_request (qe_event e) (qe_event e)" using assms(3) by (simp add: this_request_def request_def)
  have "quiet now (this_request (qe_event e)) (arrived op q) (queue_step (now, op) q)"
    using assms(4) by (intro quiet_step) (auto simp: this_request_def)
  moreover have e: "e \<in> set (pendingEvents (arrived op q))" using assms(2) arrived_facts(2) by blast
  ultimately show "\<exists>e'\<in>set (pendingEvents (queue_step (now, op) q)). qe_event e' = qe_event e \<and> qe_seq e' = qe_seq e"
    and "leased now e \<Longrightarrow> e \<in> set (pendingEvents (queue_step (now, op) q)) \<and>
      (\<exists>new. q_out (queue_step (now, op) q) = q_out q @ new \<and> (\<forall>p. Answered p (A_event (qe_event e)) \<notin> set new))"
    using assms(3) own unique_request[OF arrived_facts(1)[OF assms(1)] _ e _ assms(3)]
    unfolding quiet_def arrived_facts(3) by metis+
qed

lemma request_run:
  assumes "no_repeats None q" "e \<in> set (pendingEvents q)" "request i t (qe_event e)" "\<forall>x\<in>set ops. \<not> takes_away (snd x) (qe_event e)"
  shows "\<exists>e'\<in>set (pendingEvents (queue_exec ops q)). qe_event e' = qe_event e \<and> qe_seq e' = qe_seq e"
  using assms
proof (induction ops arbitrary: q e)
  case (Cons x ops)
  obtain now op where x: "x = (now, op)" by (cases x)
  from request_step(1)[of q e i t op now] Cons.prems x obtain e' where
    e': "e' \<in> set (pendingEvents (queue_step x q))" "qe_event e' = qe_event e" "qe_seq e' = qe_seq e" by auto
  with Cons.IH[OF requests.step_keeps[OF Cons.prems(1), of x] e'(1)] Cons.prems show ?case by (auto simp: queue_exec_def)
qed (auto simp: queue_exec_def)

lemma leased_run:
  assumes "no_repeats None q" "e \<in> set (pendingEvents q)" "request i t (qe_event e)"
    "\<forall>(now, op)\<in>set ops. \<not> takes_away op (qe_event e) \<and> leased now e"
  shows "e \<in> set (pendingEvents (queue_exec ops q)) \<and>
      (\<exists>new. q_out (queue_exec ops q) = q_out q @ new \<and> (\<forall>p. Answered p (A_event (qe_event e)) \<notin> set new))"
  using assms
proof (induction ops arbitrary: q)
  case (Cons x ops)
  obtain now op where x: "x = (now, op)" by (cases x)
  from request_step(2)[of q e i t op now] Cons.prems x obtain n1 where
    n1: "e \<in> set (pendingEvents (queue_step x q))" "q_out (queue_step x q) = q_out q @ n1" "\<forall>p. Answered p (A_event (qe_event e)) \<notin> set n1" by auto
  from Cons.IH[OF requests.step_keeps[OF Cons.prems(1), of x] n1(1)] Cons.prems obtain n2 where
    "e \<in> set (pendingEvents (queue_exec (x # ops) q))" "q_out (queue_exec (x # ops) q) = q_out (queue_step x q) @ n2"
    "\<forall>p. Answered p (A_event (qe_event e)) \<notin> set n2" by (auto simp: queue_exec_def)
  with n1 show ?case by (intro conjI exI[of _ "n1 @ n2"]) auto
qed (auto simp: queue_exec_def)

section \<open>Parked polls\<close>

text \<open>While polls wait, the timer is set for the first lease that ends, within the grace period.\<close>

definition covered :: "live_queue \<Rightarrow> bool" where
  "covered q \<longleftrightarrow> pendingPolls q = [] \<or>
     (\<forall>e\<in>set (pendingEvents q). \<exists>l d. qe_leaseUntil e = Some l \<and> leaseTimer q = Some d \<and> d \<le> l + POLL_LEASE_EXPIRY_TIMER_GRACE_MS)"

definition all_leased :: "int \<Rightarrow> live_queue \<Rightarrow> bool" where
  "all_leased now q \<longleftrightarrow> list_all (leased now) (pendingEvents q)"

text \<open>
  The operations that set the timer anew without serving the polls; and runs in which none of them
  happens between the end of a lease that polls wait for and the timer.
\<close>

fun resets_timer :: "queue_op \<Rightarrow> bool" where
  "resets_timer (Q_get stateToken token timeoutParam leaseParam) = True"
| "resets_timer Q_connect = True"
| "resets_timer (Q_apply_timeout i) = True"
| "resets_timer _ = False"

fun prompt :: "(int \<times> queue_op) list \<Rightarrow> live_queue \<Rightarrow> bool" where
  "prompt [] q \<longleftrightarrow> True"
| "prompt ((now, op) # ops) q \<longleftrightarrow> now \<ge> 0 \<and>
     (resets_timer op \<longrightarrow> pendingPolls q \<noteq> [] \<longrightarrow> all_leased now q) \<and>
     prompt ops (queue_step (now, op) q)"

lemma schedule_covers: "0 \<le> now \<Longrightarrow> all_leased now q \<Longrightarrow> covered (scheduleLeaseFlush now q)"
proof -
  assume now: "0 \<le> now" and all: "all_leased now q"
  define ts where "ts = map (\<lambda>e. case qe_leaseUntil e of Some t \<Rightarrow> t | None \<Rightarrow> 0) (pendingEvents q)"
  have ts: "filter (\<lambda>t. t > now) ts = ts" using all now by (auto simp: ts_def all_leased_def list_all_iff leased_def split: option.splits)
  have "\<exists>l d. qe_leaseUntil e = Some l \<and> leaseTimer (scheduleLeaseFlush now q) = Some d \<and> d \<le> l + 2" if e: "e \<in> set (pendingEvents q)" for e
  proof -
    from e all obtain l where l: "qe_leaseUntil e = Some l" "now < l" by (auto simp: all_leased_def list_all_iff leased_def split: option.splits)
    then have "l \<in> set ts" using e by (force simp: ts_def)
    then obtain m ms where m: "sort ts = m # ms" "m \<le> l" "m \<in> set ts"
      by (cases "sort ts") (metis emptyE set_sort set_empty, metis list.set_intros(1) set_sort set_ConsD sorted_simps(2) sorted_sort order_refl)
    have "now < m" using m(3) by (subst (asm) ts[symmetric]) simp
    then show ?thesis using l m now
      by (auto simp: scheduleLeaseFlush_def nextLeaseUntil_def ts_def[symmetric] ts node_due_def POLL_LEASE_EXPIRY_TIMER_GRACE_MS_def)
  qed
  then show ?thesis by (simp add: covered_def POLL_LEASE_EXPIRY_TIMER_GRACE_MS_def scheduleLeaseFlush_def)
qed

lemma covered_broadcast [simp]: "covered (broadcastAgentPollingIfChanged now q) = covered q" "covered (say x q) = covered q"
  by (simp_all add: covered_def queue_primitives)

lemma not_available: "findAvailablePendingEvent now q = None \<longleftrightarrow> all_leased now q"
  by (auto simp: findAvailablePendingEvent_def first_index_None all_leased_def list_all_iff)

lemma flush_loop_covers: "0 \<le> now \<Longrightarrow> covered (flush_loop now changed q)"
proof (induction now changed q rule: flush_loop.induct)
  case (1 now changed q)
  have "pendingPolls q = [] \<Longrightarrow> covered (scheduleLeaseFlush now q)" by (simp add: covered_def)
  then show ?case
    using 1 schedule_covers[OF 1(2), of q] by (subst flush_loop.simps) (auto simp: Let_def not_available[symmetric] split: option.split)
qed

lemma covered_frames:
  "covered q \<Longrightarrow> covered (drop_poll p q)" "pendingPolls q = [] \<Longrightarrow> covered q"
  by (auto simp: covered_def drop_poll_def)

lemma get_covers:
  assumes "covered q" "0 \<le> now" "pendingPolls q \<noteq> [] \<Longrightarrow> all_leased now q"
  shows "covered (handlePollGet now stok tok tp lp q)"
proof (cases "tok = Some stok")
  case False
  with assms(1) show ?thesis by (simp add: handlePollGet_def Let_def covered_def say_def)
next
  case True
  let ?q = "q\<lparr>q_requests := Suc (q_requests q), lastPollAt := now\<rparr>"
  have free: "findAvailablePendingEvent now ?q = findAvailablePendingEvent now q" by (simp add: findAvailablePendingEvent_def)
  show ?thesis
  proof (cases "findAvailablePendingEvent now q")
    case None
    then have all: "all_leased now q" by (simp add: not_available)
    let ?p = "\<lparr>pk_id = q_requests q, pk_leaseMs = query_int lp 30000, pk_due = node_due now (query_int tp DEFAULT_POLL_TIMEOUT)\<rparr>"
    have "all_leased now (broadcastAgentPollingIfChanged now (?q\<lparr>pendingPolls := pendingPolls q @ [?p]\<rparr>))"
      using all by (simp add: all_leased_def)
    with None True free show ?thesis by (simp add: handlePollGet_def Let_def schedule_covers assms(2))
  next
    case (Some k)
    then have "\<not> all_leased now q" using not_available[of now q] by simp
    with assms(3) have "pendingPolls q = []" by blast
    with Some True free show ?thesis
      by (intro covered_frames(2)) (simp add: handlePollGet_def Let_def split_beta)
  qed
qed

lemma fewer_covers:
  assumes "0 \<le> now" "pendingPolls q \<noteq> [] \<Longrightarrow> all_leased now q" "set es \<subseteq> set (pendingEvents q)"
  shows "covered (scheduleLeaseFlush now (q\<lparr>pendingEvents := es\<rparr>))"
proof (cases "pendingPolls q = []")
  case False
  with assms(2,3) have "all_leased now (q\<lparr>pendingEvents := es\<rparr>)" by (auto simp: all_leased_def list_all_iff)
  then show ?thesis by (rule schedule_covers[OF assms(1)])
qed (simp add: covered_def)

lemma ack_covers:
  assumes "covered q" "0 \<le> now" "pendingPolls q \<noteq> [] \<Longrightarrow> all_leased now q"
  shows "covered (snd (acknowledgePendingEvent now i q))"
  using assms fewer_covers[OF assms(2,3) subseq_set[OF remove_at_subseq]]
  by (simp add: acknowledgePendingEvent_def split: option.split)

lemma cancel_covers:
  assumes "covered q" "0 \<le> now"
  shows "covered (cancel_queued now asked promises q)"
proof (cases "list_ex (\<lambda>e. cancels_event asked (qe_event e)) (pendingEvents q)")
  case False
  then have "filter (\<lambda>e. \<not> cancels_event asked (qe_event e)) (pendingEvents q) = pendingEvents q"
    by (auto simp: list_ex_iff filter_id_conv)
  with assms show ?thesis by (simp add: cancel_queued_def flushPendingPolls_def flush_loop_covers)
qed (use assms in \<open>simp add: cancel_queued_def Let_def flushPendingPolls_def flush_loop_covers\<close>)

lemma step_covers:
  assumes "covered q" "0 \<le> now"
    and "resets_timer op \<Longrightarrow> pendingPolls q \<noteq> [] \<Longrightarrow> all_leased now q"
  shows "covered (queue_step (now, op) q)"
proof (cases op)
  case Q_connect
  with assms(1) fewer_covers[OF assms(2), of q "filter (\<lambda>e. \<not> anonymous_exit e) (pendingEvents q)"] assms(3) show ?thesis
    by (simp add: cancelQueuedAnonymousExitEvents_def)
next
  case (Q_get st tk t l)
  with assms show ?thesis by (simp add: get_covers)
next
  case (Q_apply_timeout i)
  with assms show ?thesis by (simp add: ack_covers)
qed (use assms(1,2) in \<open>auto simp: enqueueEvent_def flushPendingPolls_def flush_loop_covers poll_timeout_def poll_closed_def covered_frames
    lease_timer_fires_def reply_queue_def cancel_covers split: option.split\<close>)

lemma run_covers: "covered q \<Longrightarrow> prompt ops q \<Longrightarrow> covered (queue_exec ops q)"
proof (induction ops arbitrary: q)
  case (Cons x ops)
  obtain now op where x: "x = (now, op)" by (cases x)
  with Cons.prems have "covered (queue_step x q)" by (auto intro!: step_covers)
  with Cons x show ?case by (simp add: queue_exec_def)
qed (simp add: queue_exec_def)

section \<open>What the browsers know\<close>

text \<open>The last word to the browsers is right at the time \<open>now\<close>; before any, they assume no agent.\<close>

definition told :: "int \<Rightarrow> live_queue \<Rightarrow> bool" where
  "told now q \<longleftrightarrow> (lastAgentPollingBroadcast q = Some True \<longleftrightarrow> agentPollingConnected now q)"

lemma told_broadcast: "told now (broadcastAgentPollingIfChanged now q)"
  by (simp add: told_def queue_primitives agentPollingConnected_def)

lemma told_frames [simp]:
  "told now (scheduleLeaseFlush now' q) = told now q" "told now (say x q) = told now q" "told now (q\<lparr>lastPollAt := t\<rparr>) = told now q"
  "told now (q\<lparr>q_requests := n\<rparr>) = told now q" "told now (q\<lparr>leaseTimer := tm\<rparr>) = told now q"
  by (simp_all add: told_def scheduleLeaseFlush_def say_def agentPollingConnected_def)

lemma told_flush: "told now q \<or> pendingPolls q \<noteq> [] \<or> changed \<Longrightarrow> told now (flush_loop now changed q)"
proof (induction now changed q rule: flush_loop.induct)
  case (1 now changed q)
  then show ?case by (subst flush_loop.simps) (auto simp: Let_def told_broadcast split: option.split)
qed

lemma remove_at_ex: "k < length xs \<Longrightarrow> \<not> P (xs ! k) \<Longrightarrow> list_ex P (remove_at k xs) = list_ex P xs"
proof -
  assume k: "k < length xs" "\<not> P (xs ! k)"
  have "list_ex P (take k xs @ xs ! k # drop (Suc k) xs) = list_ex P (remove_at k xs)" using k(2) by (simp add: remove_at_def)
  then show ?thesis using id_take_nth_drop[OF k(1)] by simp
qed

lemma told_get: assumes "told now q" shows "told now (handlePollGet now stok tok tp lp q)"
proof -
  let ?q = "q\<lparr>q_requests := Suc (q_requests q), lastPollAt := now\<rparr>"
  have lease: "told now (snd (leaseEvent now k ms ?q))" if "findAvailablePendingEvent now ?q = Some k" for k ms
  proof (cases "js_truthy (qe_id (pendingEvents ?q ! k))")
    case False
    have "k < length (pendingEvents q)" "\<not> leased now (pendingEvents q ! k)"
      using that by (auto simp: findAvailablePendingEvent_def dest: first_index_Some)
    then show ?thesis using assms False by (simp add: leaseEvent_def Let_def told_def agentPollingConnected_def remove_at_ex)
  qed (simp add: leaseEvent_def Let_def told_broadcast)
  show ?thesis using assms lease by (auto simp: handlePollGet_def Let_def split_beta told_broadcast split: option.split)
qed

lemma told_ack: "told now q \<Longrightarrow> told now (snd (acknowledgePendingEvent now i q))"
  by (simp add: acknowledgePendingEvent_def told_broadcast split: option.split)

text \<open>A discard with no parked poll takes events away without a word.\<close>

definition unheard :: "queue_op \<Rightarrow> live_queue \<Rightarrow> bool" where
  "unheard op q = (case op of Q_cancel asked promises \<Rightarrow> pendingPolls q = [] | _ \<Rightarrow> False)"

lemma told_step:
  assumes "told now q" "\<not> unheard op q"
  shows "told now (queue_step (now, op) q)"
proof (cases op)
  case (Q_enqueue ev)
  have "told now (pushed ev q)" using assms(1) by (simp add: told_def pushed_def agentPollingConnected_def leased_def)
  then show ?thesis using assms(1) Q_enqueue by (simp add: enqueueEvent_def flushPendingPolls_def told_flush)
next
  case (Q_cancel asked promises)
  let ?q = "q\<lparr>pendingEvents := filter (\<lambda>e. \<not> cancels_event asked (qe_event e)) (pendingEvents q)\<rparr>"
  have "\<not> list_ex (\<lambda>e. cancels_event asked (qe_event e)) (pendingEvents q) \<Longrightarrow> ?q = q"
    by (simp add: list_ex_iff filter_id_conv)
  moreover have "told now (flush_loop now False ?q)" using assms(2) Q_cancel by (intro told_flush) (simp add: unheard_def)
  ultimately show ?thesis using assms(1) Q_cancel by (auto simp: cancel_queued_def Let_def flushPendingPolls_def)
qed (use assms(1) in \<open>auto simp: told_get told_ack told_broadcast told_flush poll_timeout_def poll_closed_def lease_timer_fires_def
    reply_queue_def flushPendingPolls_def cancelQueuedAnonymousExitEvents_def split: option.split\<close>)

section \<open>The contract of the queue\<close>

text \<open>
  C20: in every run of the queue, whatever events arrive, polls come, end and close, timers fire, replies
  come in, applies time out and edits are discarded: the entries are in the order of their arrival with
  distinct numbers; no request is queued twice; every poll is answered at most once, and a parked one
  not yet. The browsers are never told the same of the agent's presence twice in a row, and when what
  they were told last is right at the moment of the next step, it is right after that step,
  unless the step is a discard while no poll is parked; when the lease timer fires it is right in any case.
\<close>

theorem queue_run_invariant:
  fixes ops
  defines "q \<equiv> queue_exec ops empty_queue"
  shows "arrival_order None q \<and> no_repeats None q \<and> answered_once None q \<and> alternating None q \<and>
    (\<forall>now op. told now q \<and> \<not> unheard op q \<longrightarrow> told now (queue_step (now, op) q)) \<and>
    (\<forall>now d. leaseTimer q = Some d \<and> d \<le> now \<longrightarrow> told now (queue_step (now, Q_lease_timer) q))"
proof -
  have "told now (lease_timer_fires now q)" for now by (simp add: lease_timer_fires_def told_broadcast)
  then show ?thesis
    using order.exec requests.exec answers.exec broadcasts.exec empty_queue_invariants told_step unfolding q_def by simp
qed

text \<open>
  C18: a request stays in the queue, with its place, until a reply or the timeout of an apply names its
  id, or a discard of its page cancels it when it is an apply; and while its lease lasts it stays as it is and
  no poll is given it.
\<close>

theorem request_leased_exclusively:
  assumes "e \<in> set (pendingEvents (queue_exec before empty_queue))" and "request i t (qe_event e)"
    and "\<forall>x\<in>set later. \<not> takes_away (snd x) (qe_event e)"
  shows "(\<exists>e'\<in>set (pendingEvents (queue_exec (before @ later) empty_queue)). qe_event e' = qe_event e \<and> qe_seq e' = qe_seq e) \<and>
    ((\<forall>x\<in>set later. leased (fst x) e) \<longrightarrow> e \<in> set (pendingEvents (queue_exec (before @ later) empty_queue)) \<and>
      (\<forall>p. Answered p (A_event (qe_event e)) \<notin> set (drop (length (q_out (queue_exec before empty_queue))) (q_out (queue_exec (before @ later) empty_queue)))))"
proof (intro conjI)
  let ?q = "queue_exec before empty_queue"
  have q: "no_repeats None ?q" using requests.exec empty_queue_invariants by blast
  have split: "queue_exec (before @ later) empty_queue = queue_exec later ?q" by (simp add: queue_exec_def)
  show "\<exists>e'\<in>set (pendingEvents (queue_exec (before @ later) empty_queue)). qe_event e' = qe_event e \<and> qe_seq e' = qe_seq e"
    unfolding split using request_run[OF q assms] .
  show "(\<forall>x\<in>set later. leased (fst x) e) \<longrightarrow> e \<in> set (pendingEvents (queue_exec (before @ later) empty_queue)) \<and>
      (\<forall>p. Answered p (A_event (qe_event e)) \<notin> set (drop (length (q_out (queue_exec before empty_queue))) (q_out (queue_exec (before @ later) empty_queue))))"
    using leased_run[OF q assms(1,2), of later] assms(3) unfolding split by (auto simp: split_beta)
qed

definition sample_steer :: json where
  "sample_steer = JObj [(''id'', JStr ''ab''), (''type'', JStr ''steer'')]"

definition sample_ops :: "(int \<times> queue_op) list" where
  "sample_ops = [(10, Q_enqueue sample_steer), (20, Q_get ''k'' (Some ''k'') None None)]"

lemma sample_leased: "pendingEvents (queue_exec sample_ops empty_queue) = [\<lparr>qe_event = sample_steer, qe_leaseUntil = Some 30020, qe_seq = 1\<rparr>]"
  by code_simp

theorem request_leased_exclusively_witness:
  "\<lparr>qe_event = sample_steer, qe_leaseUntil = Some 30020, qe_seq = 1\<rparr> \<in> set (pendingEvents (queue_exec (sample_ops @ [(30000, Q_get ''k'' (Some ''k'') None None)]) empty_queue))"
  using request_leased_exclusively[of "\<lparr>qe_event = sample_steer, qe_leaseUntil = Some 30020, qe_seq = 1\<rparr>" sample_ops "''ab''" "''steer''" "[(30000, Q_get ''k'' (Some ''k'') None None)]"]
  by (simp add: sample_leased) (simp add: request_def sample_steer_def fld_def leased_def)

text \<open>A parked poll closes.\<close>

theorem queue_run_invariant_witness:
  "told 20 (queue_exec [(10, Q_get ''k'' (Some ''k'') None None)] empty_queue) \<and>
   told 20 (queue_step (20, Q_close 0) (queue_exec [(10, Q_get ''k'' (Some ''k'') None None)] empty_queue))"
proof -
  have "told 20 (queue_exec [(10, Q_get ''k'' (Some ''k'') None None)] empty_queue)" by code_simp
  moreover have "\<not> unheard (Q_close 0) (queue_exec [(10, Q_get ''k'' (Some ''k'') None None)] empty_queue)" by (simp add: unheard_def)
  ultimately show ?thesis using queue_run_invariant[of "[(10, Q_get ''k'' (Some ''k'') None None)]"] by blast
qed

text \<open>
  C19: no poll is forgotten. Take a run in which no poll or browser arrives and no apply times out in the
  moment between the end of a lease that polls wait for and the timer. After it, polls are parked only beside events
  that were leased, and the timer that serves them is due no later than two milliseconds, its grace period, after the end
  of each of these leases.
\<close>

theorem parked_polls_covered:
  assumes "prompt ops empty_queue"
  shows "covered (queue_exec ops empty_queue)"
  using assms by (intro run_covers) (simp_all add: covered_def empty_queue_def)

definition sample_parked :: "(int \<times> queue_op) list" where
  "sample_parked = [(10, Q_enqueue sample_steer), (20, Q_get ''k'' (Some ''k'') None (Some ''100'')), (30, Q_get ''k'' (Some ''k'') None None)]"

theorem parked_polls_covered_witness:
  "covered (queue_exec sample_parked empty_queue) \<and> leaseTimer (queue_exec sample_parked empty_queue) = Some 122 \<and>
   length (pendingPolls (queue_exec sample_parked empty_queue)) = 1"
proof -
  have "prompt sample_parked empty_queue" by code_simp
  moreover have "leaseTimer (queue_exec sample_parked empty_queue) = Some 122" by code_simp
  moreover have "length (pendingPolls (queue_exec sample_parked empty_queue)) = 1" by code_simp
  ultimately show ?thesis using parked_polls_covered[of sample_parked] by blast
qed

text \<open>
  In that moment a second poll takes one of two freed events and sets the timer anew, for the lease it
  got: the parked poll and the other free event wait for each other until then.
\<close>

definition overtaken :: "(int \<times> queue_op) list" where
  "overtaken = [(10, Q_enqueue sample_steer), (10, Q_enqueue (JObj [(''id'', JStr ''cd''), (''type'', JStr ''steer'')])),
     (20, Q_get ''k'' (Some ''k'') None (Some ''100'')), (20, Q_get ''k'' (Some ''k'') None (Some ''100'')), (30, Q_get ''k'' (Some ''k'') None None), (121, Q_get ''k'' (Some ''k'') None None)]"

lemma poll_overtaken:
  "map pk_id (pendingPolls (queue_exec overtaken empty_queue)) = [2]" "leaseTimer (queue_exec overtaken empty_queue) = Some 30123"
  "map (leased 121) (pendingEvents (queue_exec overtaken empty_queue)) = [True, False]"
  by code_simp+

text \<open>
  The timeout of an apply does the same in that moment: it acknowledges its event without serving the polls, and
  sets the timer anew. Here nothing is leased any more, so the timer is gone, and the poll waits beside a free
  event until something else happens.
\<close>

definition timed_out_apply :: json where
  "timed_out_apply = JObj [(''id'', JStr ''cd''), (''type'', JStr ''manual_edit_apply'')]"

definition stranded :: "(int \<times> queue_op) list" where
  "stranded = [(10, Q_enqueue sample_steer), (10, Q_enqueue timed_out_apply), (20, Q_get ''k'' (Some ''k'') None (Some ''100'')),
     (20, Q_get ''k'' (Some ''k'') None (Some ''100'')), (30, Q_get ''k'' (Some ''k'') None None), (121, Q_apply_timeout (Some (JStr ''cd'')))]"

lemma poll_stranded:
  "map pk_id (pendingPolls (queue_exec stranded empty_queue)) = [2]" "leaseTimer (queue_exec stranded empty_queue) = None"
  "map (\<lambda>e. (qe_event e, leased 121 e)) (pendingEvents (queue_exec stranded empty_queue)) = [(sample_steer, False)]"
  by code_simp+

text \<open>
  A discard that takes the only leased event away, while no poll is parked, leaves the browsers with the word that an agent is
  there: no broadcast follows, and no timer is left that would correct it.
\<close>

definition unheard_discard :: "(int \<times> queue_op) list" where
  "unheard_discard = [(10, Q_enqueue timed_out_apply), (20, Q_get ''k'' (Some ''k'') None None), (30, Q_cancel None True)]"

lemma discard_unheard:
  "lastAgentPollingBroadcast (queue_exec unheard_discard empty_queue) = Some True" "leaseTimer (queue_exec unheard_discard empty_queue) = None"
  "agentPollingConnected 30 (queue_exec unheard_discard empty_queue) = False"
  by code_simp+

text \<open>An unreadable \<open>leaseMs\<close> leases for no time: the next poll is given the same request.\<close>

lemma unreadable_lease:
  "map (\<lambda>x. case x of Answered p a \<Rightarrow> Some (p, a) | _ \<Rightarrow> None) (q_out (queue_exec [(10, Q_enqueue sample_steer), (20, Q_get ''k'' (Some ''k'') None (Some ''x'')), (21, Q_get ''k'' (Some ''k'') None None)] empty_queue))
    = [None, Some (0, A_event sample_steer), None, Some (1, A_event sample_steer)]"
  by code_simp

end
