(* ===== verification/Live_Edits.thy ===== *)
theory Live_Edits
  imports Live_Queue
begin

text \<open>
  The buffer of text edits that wait to be applied: \<open>live/manual-edits-buffer.mjs\<close>, with the script
  \<open>live-discard-manual-edits.mjs\<close> and \<open>live/completion.mjs\<close>. The file is read whole, changed and
  written whole; its entries are taken in the shape in which the module writes them, and an operation
  is the JSON object that the browser sent.
\<close>

section \<open>The file\<close>

record buffer_entry =
  be_id :: js
  be_pageUrl :: js
  be_element :: js
  be_ops :: "json list"
  be_stagedAt :: string

text \<open>What is at the path of the buffer: no file, one that cannot be read or parsed, one of another shape, or a buffer.\<close>

datatype buffer_file = No_file | Unreadable string | Other_shape | Buffer "buffer_entry list"

definition readBufferInternal :: "bool \<Rightarrow> buffer_file \<Rightarrow> buffer_entry list result" where
  "readBufferInternal strict file = (case file of
       Buffer es \<Rightarrow> Inr es
     | No_file \<Rightarrow> Inr []
     | Unreadable err \<Rightarrow> if strict then Inl (''manual_edit_buffer_unreadable: '' @ err) else Inr []
     | Other_shape \<Rightarrow> if strict then Inl ''manual_edit_buffer_unreadable: manual_edit_buffer_invalid_schema'' else Inr [])"

definition readBuffer :: "buffer_file \<Rightarrow> buffer_entry list" where
  "readBuffer file = (case readBufferInternal False file of Inr es \<Rightarrow> es | Inl err \<Rightarrow> [])"

section \<open>Staging\<close>

text \<open>\<open>{...obj, key: v}\<close>; an undefined value is as good as none, since the object is printed.\<close>

definition put :: "string \<Rightarrow> js \<Rightarrow> json_object \<Rightarrow> json_object" where
  "put key v kvs = (case v of Some x \<Rightarrow> AList.update key x kvs | None \<Rightarrow> AList.delete key kvs)"

definition or_false :: "js \<Rightarrow> js" where
  "or_false v = (if js_truthy v then v else Some (JBool False))"

definition merged_op :: "json \<Rightarrow> json \<Rightarrow> json" where
  "merged_op newOp old =
     JObj (put ''deleted'' (or_false (fld (Some newOp) ''deleted'')) (put ''newText'' (fld (Some newOp) ''newText'')
       (put ''originalText'' (fld (Some old) ''originalText'') (spread (Some newOp)))))"

abbreviation op_ref :: "json \<Rightarrow> js" where
  "op_ref op \<equiv> fld (Some op) ''ref''"

definition same_ref :: "json \<Rightarrow> json \<Rightarrow> bool" where
  "same_ref a b = strict_eq (op_ref a) (op_ref b)"

text \<open>The new operation replaces the one for its page and element, in the first entry that has one.\<close>

fun merge_existing :: "string \<Rightarrow> js \<Rightarrow> js \<Rightarrow> json \<Rightarrow> buffer_entry list \<Rightarrow> buffer_entry list option" where
  "merge_existing now pageUrl element newOp [] = None"
| "merge_existing now pageUrl element newOp (e # es) =
     (if \<not> strict_eq (be_pageUrl e) pageUrl then map_option (Cons e) (merge_existing now pageUrl element newOp es)
      else case first_index (\<lambda>op. same_ref op newOp) (be_ops e) of
          Some k \<Rightarrow> Some (e\<lparr>be_ops := (be_ops e)[k := merged_op newOp (be_ops e ! k)],
              be_element := (if js_truthy element then element else be_element e), be_stagedAt := now\<rparr> # es)
        | None \<Rightarrow> map_option (Cons e) (merge_existing now pageUrl element newOp es))"

fun push_op :: "string \<Rightarrow> buffer_entry \<Rightarrow> json \<Rightarrow> buffer_entry list \<Rightarrow> buffer_entry list" where
  "push_op now new newOp [] = [new\<lparr>be_ops := [newOp], be_stagedAt := now\<rparr>]"
| "push_op now new newOp (e # es) =
     (if strict_eq (be_pageUrl e) (be_pageUrl new) \<and> strict_eq (be_id e) (be_id new)
      then e\<lparr>be_ops := be_ops e @ [newOp], be_stagedAt := now\<rparr> # es else e # push_op now new newOp es)"

definition stage_op :: "string \<Rightarrow> buffer_entry \<Rightarrow> json \<Rightarrow> buffer_entry list \<Rightarrow> buffer_entry list" where
  "stage_op now new newOp es = (case merge_existing now (be_pageUrl new) (be_element new) newOp es of
       Some es' \<Rightarrow> es' | None \<Rightarrow> push_op now new newOp es)"

definition stageEntry :: "string \<Rightarrow> buffer_entry \<Rightarrow> buffer_file \<Rightarrow> buffer_file result" where
  "stageEntry now new file = rbind (readBufferInternal True file) (\<lambda>es. Inr (Buffer (fold (stage_op now new) (be_ops new) es)))"

section \<open>Removing and counting\<close>

definition op_total :: "buffer_entry list \<Rightarrow> nat" where
  "op_total es = sum_list (map (length \<circ> be_ops) es)"

definition removeEntries :: "(buffer_entry \<Rightarrow> bool) \<Rightarrow> buffer_file \<Rightarrow> nat \<times> buffer_file" where
  "removeEntries predicate file =
     (let es = readBuffer file in
      (op_total (filter predicate es), Buffer (filter (\<lambda>e. \<not> predicate e \<and> be_ops e \<noteq> []) es)))"

definition page_key :: "(rat \<Rightarrow> string) \<Rightarrow> buffer_entry \<Rightarrow> string" where
  "page_key num e = js_to_string num (be_pageUrl e)"

definition countByPage :: "(rat \<Rightarrow> string) \<Rightarrow> buffer_file \<Rightarrow> nat \<times> (string, nat) jmap" where
  "countByPage num file =
     (let es = readBuffer file in
      (op_total es, fold (\<lambda>e m. AList.update (page_key num e) ((case map_of m (page_key num e) of Some n \<Rightarrow> n | None \<Rightarrow> 0) + length (be_ops e)) m) es []))"

definition truncateBuffer :: "buffer_file \<Rightarrow> nat \<times> buffer_file" where
  "truncateBuffer file = (op_total (readBuffer file), Buffer [])"

text \<open>The discard script: the argument \<open>--page-url=\<close> names a page; \<open>--page-url\<close> alone, and an empty one, name none.\<close>

fun argVal :: "string \<Rightarrow> string list \<Rightarrow> (bool + string) option" where
  "argVal name [] = None"
| "argVal name (a # as) =
     (if a = name then Some (Inl True)
      else if starts_with a (name @ ''='') then Some (Inr (drop (length name + 1) a)) else argVal name as)"

definition discard_script :: "string list \<Rightarrow> buffer_file \<Rightarrow> (nat \<times> buffer_entry list \<times> nat) \<times> buffer_file" where
  "discard_script args file =
     (let es = readBuffer file;
          page = (\<lambda>p e. be_pageUrl e = Some (JStr p));
          run = (case argVal ''--page-url'' args of
              Some (Inr p) \<Rightarrow> if p \<noteq> [] then (filter (page p) es, removeEntries (page p) file) else (es, truncateBuffer file)
            | Some (Inl b) \<Rightarrow> (let yes = (\<lambda>e. be_pageUrl e = Some (JBool True)) in (filter yes es, removeEntries yes file))
            | None \<Rightarrow> (es, truncateBuffer file))
      in ((fst (snd run), fst run, op_total (readBuffer (snd (snd run)))), snd (snd run)))"

section \<open>Completion of an accept\<close>

definition completionTypeForAcceptResult :: "js \<Rightarrow> js \<Rightarrow> string" where
  "completionTypeForAcceptResult eventType acceptResult =
     (let handled = (fld acceptResult ''handled'' = Some (JBool True)); carbonize = (fld acceptResult ''carbonize'' = Some (JBool True)) in
      if eventType = Some (JStr ''discard'') then if handled then ''discarded'' else ''error''
      else if handled \<and> carbonize then ''agent_done''
      else if handled then ''complete''
      else if fld acceptResult ''mode'' = Some (JStr ''error'') then ''error''
      else if eventType = Some (JStr ''accept'') \<and> fld acceptResult ''previewMode'' = Some (JStr ''svelte-component'') then ''error''
      else ''agent_done'')"

record completion_ack =
  ak_type :: string
  ak_final :: "bool option"
  ak_requiresComplete :: bool
  ak_nextCommand :: "string option"

definition completionAckForAcceptResult :: "string \<Rightarrow> string \<Rightarrow> js \<Rightarrow> completion_ack" where
  "completionAckForAcceptResult eventId completionType acceptResult =
     (if fld acceptResult ''handled'' = Some (JBool True) \<and> fld acceptResult ''carbonize'' = Some (JBool True)
      then \<lparr>ak_type = completionType, ak_final = Some False, ak_requiresComplete = True, ak_nextCommand = Some (''live-complete.mjs --id '' @ eventId)\<rparr>
      else \<lparr>ak_type = completionType, ak_final = None, ak_requiresComplete = False, ak_nextCommand = None\<rparr>)"

section \<open>The buffer as a map\<close>

text \<open>The operations with their keys, page and element, in the order of the file.\<close>

definition flat :: "buffer_entry list \<Rightarrow> ((js \<times> js) \<times> json) list" where
  "flat es = concat (map (\<lambda>e. map (\<lambda>op. ((be_pageUrl e, op_ref op), op)) (be_ops e)) es)"

text \<open>What is to be done at a key: the text in the source, the text it becomes, and whether it goes.\<close>

definition edits :: "buffer_entry list \<Rightarrow> js \<times> js \<Rightarrow> (js \<times> js \<times> bool) option" where
  "edits es k = map_option (\<lambda>op. (fld (Some op) ''originalText'', fld (Some op) ''newText'', js_truthy (fld (Some op) ''deleted''))) (map_of (flat es) k)"

definition edit_again :: "js \<Rightarrow> json \<Rightarrow> (js \<times> js \<Rightarrow> (js \<times> js \<times> bool) option) \<Rightarrow> js \<times> js \<Rightarrow> (js \<times> js \<times> bool) option" where
  "edit_again pageUrl op m =
     m((pageUrl, op_ref op) \<mapsto>
       (case m (pageUrl, op_ref op) of Some (source, _) \<Rightarrow> source | None \<Rightarrow> fld (Some op) ''originalText'',
        fld (Some op) ''newText'', js_truthy (fld (Some op) ''deleted'')))"

lemma flat_simps [simp]: "flat [] = []" "flat (e # es) = map (\<lambda>op. ((be_pageUrl e, op_ref op), op)) (be_ops e) @ flat es"
  by (simp_all add: flat_def)

lemma strict_string [simp]: "strict_eq v (Some (JStr s)) \<longleftrightarrow> v = Some (JStr s)"
  by (auto simp: strict_eq_def)

lemma map_of_put [simp]: "map_of (put k v kvs) k' = (if k' = k then v else map_of kvs k')"
  by (auto simp: put_def update_conv' delete_conv' split: option.split)

lemma merged_fields:
  assumes "op_ref newOp = Some r"
  shows "op_ref (merged_op newOp old) = Some r" "fld (Some (merged_op newOp old)) ''originalText'' = fld (Some old) ''originalText''"
    "fld (Some (merged_op newOp old)) ''newText'' = fld (Some newOp) ''newText''"
    "js_truthy (fld (Some (merged_op newOp old)) ''deleted'') = js_truthy (fld (Some newOp) ''deleted'')"
proof -
  from assms obtain kvs where "newOp = JObj kvs" by (cases newOp) (auto simp: fld_def)
  with assms show "op_ref (merged_op newOp old) = Some r" "fld (Some (merged_op newOp old)) ''originalText'' = fld (Some old) ''originalText''"
    "fld (Some (merged_op newOp old)) ''newText'' = fld (Some newOp) ''newText''"
    "js_truthy (fld (Some (merged_op newOp old)) ''deleted'') = js_truthy (fld (Some newOp) ''deleted'')"
    by (simp_all add: merged_op_def fld_def spread_def or_false_def)
qed

lemma update_first:
  assumes "first_index (\<lambda>op. op_ref op = r) ops = Some k" "op_ref m = r"
  shows "map_of (map (\<lambda>op. ((p, op_ref op), op)) (ops[k := m])) = (map_of (map (\<lambda>op. ((p, op_ref op), op)) ops))((p, r) \<mapsto> m)"
    "map op_ref (ops[k := m]) = map op_ref ops" "map_of (map (\<lambda>op. ((p, op_ref op), op)) ops) (p, r) = Some (ops ! k)"
  using assms by (induction ops arbitrary: k) (auto split: if_splits)

lemma absent_key: "first_index (\<lambda>op. op_ref op = r) ops = None \<Longrightarrow> map_of (map (\<lambda>op. ((p, op_ref op), op)) ops) (p, r) = None"
  by (induction ops) (auto split: if_splits)

lemma other_page: "p' \<noteq> p \<Longrightarrow> map_of (map (\<lambda>op. ((p', op_ref op), op)) ops) (p, r) = None"
  by (induction ops) auto

lemma merge_existing_flat:
  assumes p: "pageUrl = Some (JStr pg)" and r: "op_ref newOp = Some (JStr rf)"
  shows "merge_existing now pageUrl element newOp es = None \<longleftrightarrow> map_of (flat es) (pageUrl, op_ref newOp) = None"
    "merge_existing now pageUrl element newOp es = Some es' \<Longrightarrow>
      map fst (flat es') = map fst (flat es) \<and>
      (\<exists>old. map_of (flat es) (pageUrl, op_ref newOp) = Some old \<and> map_of (flat es') = (map_of (flat es))((pageUrl, op_ref newOp) \<mapsto> merged_op newOp old))"
proof (induction es arbitrary: es')
  case (Cons e es)
  have same: "same_ref op newOp \<longleftrightarrow> op_ref op = op_ref newOp" for op by (simp add: same_ref_def r)
  let ?m = "map (\<lambda>op. ((be_pageUrl e, op_ref op), op)) (be_ops e)"
  {
    case 1
    show ?case
      using Cons.IH(1) other_page[of "be_pageUrl e" pageUrl "be_ops e" "op_ref newOp"] absent_key[of "op_ref newOp" "be_ops e" "be_pageUrl e"]
        update_first(3)[of "op_ref newOp" "be_ops e" _ newOp "be_pageUrl e"]
      by (auto simp: p same map_add_None split: option.split)
  next
    case 2
    show ?case
    proof (cases "strict_eq (be_pageUrl e) pageUrl \<and> first_index (\<lambda>op. same_ref op newOp) (be_ops e) \<noteq> None")
      case True
      then obtain k where k: "first_index (\<lambda>op. op_ref op = op_ref newOp) (be_ops e) = Some k" and page: "be_pageUrl e = pageUrl" by (auto simp: same p)
      have "op_ref (merged_op newOp (be_ops e ! k)) = op_ref newOp" using merged_fields(1)[OF r] r by simp
      note u = update_first[OF k this]
      have keys: "map fst (map (\<lambda>op. ((q, op_ref op), op)) ops) = map (Pair q) (map op_ref ops)" for q ops by (simp add: comp_def)
      from 2 k page have "es' = e\<lparr>be_ops := (be_ops e)[k := merged_op newOp (be_ops e ! k)],
          be_element := (if js_truthy element then element else be_element e), be_stagedAt := now\<rparr> # es"
        by (simp add: same p)
      then show ?thesis
        unfolding page[symmetric]
        by (intro conjI exI[of _ "be_ops e ! k"])
          (simp_all add: keys u(2) map_add_upd map_add_Some_iff u(3) u(1) del: map_map map_append map_of_map, simp_all add: keys u(2) del: map_map)
    next
      case False
      with 2 obtain es1 where es1: "merge_existing now pageUrl element newOp es = Some es1" "es' = e # es1" by (auto split: if_splits option.splits)
      from False have "map_of ?m (pageUrl, op_ref newOp) = None"
        using other_page[of "be_pageUrl e" pageUrl "be_ops e" "op_ref newOp"] absent_key[of "op_ref newOp" "be_ops e" "be_pageUrl e"]
        by (cases "be_pageUrl e = pageUrl") (auto simp: same p)
      then show ?thesis using Cons.IH(2)[OF es1(1)] by (auto simp: es1(2) fun_eq_iff map_add_def split: option.split)
    qed
  }
qed simp_all

lemma push_op_flat:
  assumes p: "be_pageUrl new = Some (JStr pg)" and fresh: "map_of (flat es) (be_pageUrl new, op_ref newOp) = None"
  shows "map_of (flat (push_op now new newOp es)) = (map_of (flat es))((be_pageUrl new, op_ref newOp) \<mapsto> newOp)"
    "mset (map fst (flat (push_op now new newOp es))) = add_mset (be_pageUrl new, op_ref newOp) (mset (map fst (flat es)))"
  using fresh
proof (induction es)
  case (Cons e es)
  {
    case 1
    then have "map_of (flat es) (be_pageUrl new, op_ref newOp) = None"
      and none: "map_of (map (\<lambda>op. ((be_pageUrl e, op_ref op), op)) (be_ops e)) (be_pageUrl new, op_ref newOp) = None" by (auto simp: map_add_None)
    then show ?case
      using Cons.IH(1) by (auto simp: p fun_eq_iff map_add_def split: option.split)
  next
    case 2
    then show ?case using Cons.IH(2) by (auto simp: p map_add_None multiset.map_comp)
  }
qed simp_all

lemma stage_op_edits:
  assumes "be_pageUrl new = Some (JStr pg)" "op_ref op = Some (JStr rf)"
  shows "edits (stage_op now new op es) = edit_again (be_pageUrl new) op (edits es)"
    "distinct (map fst (flat es)) \<Longrightarrow> distinct (map fst (flat (stage_op now new op es)))"
proof -
  have "edits (stage_op now new op es) = edit_again (be_pageUrl new) op (edits es) \<and> (distinct (map fst (flat es)) \<longrightarrow> distinct (map fst (flat (stage_op now new op es))))"
  proof (cases "merge_existing now (be_pageUrl new) (be_element new) op es")
    case None
    then have fresh: "map_of (flat es) (be_pageUrl new, op_ref op) = None" using merge_existing_flat(1)[OF assms] by simp
    note pf = push_op_flat[OF assms(1) this, of now]
    have "(be_pageUrl new, op_ref op) \<notin> set (map fst (flat es))" using fresh by (auto simp: map_of_eq_None_iff)
    then have "distinct (map fst (flat es)) \<Longrightarrow> distinct (map fst (flat (push_op now new op es)))"
      using pf(2) by (metis distinct.simps(2) mset.simps(2) mset_eq_imp_distinct_iff)
    moreover have "edits (push_op now new op es) = edit_again (be_pageUrl new) op (edits es)"
      using pf(1) fresh by (auto simp: edits_def edit_again_def fun_eq_iff)
    ultimately show ?thesis by (simp add: stage_op_def None)
  next
    case (Some es')
    from merge_existing_flat(2)[OF assms Some] obtain old where
      "map fst (flat es') = map fst (flat es)" "map_of (flat es) (be_pageUrl new, op_ref op) = Some old"
      "map_of (flat es') = (map_of (flat es))((be_pageUrl new, op_ref op) \<mapsto> merged_op op old)" by blast
    then show ?thesis
      using merged_fields(2-4)[OF assms(2), of old] by (auto simp: stage_op_def Some edits_def edit_again_def fun_eq_iff)
  qed
  then show "edits (stage_op now new op es) = edit_again (be_pageUrl new) op (edits es)"
    "distinct (map fst (flat es)) \<Longrightarrow> distinct (map fst (flat (stage_op now new op es)))" by blast+
qed

text \<open>
  C26: staging an entry is a map update. Whatever is in the buffer, for a page and elements named by
  strings every operation sets the new text of its element on its page, keeps the source text of the
  first edit of that element, and leaves all other elements and pages alone; and no
  element of a page is ever in the buffer twice.
\<close>

theorem staging_refines_map:
  assumes "stageEntry now new file = Inr file'" and "be_pageUrl new = Some (JStr pg)"
    and "\<forall>op\<in>set (be_ops new). js_is_string (op_ref op)"
  shows "edits (readBuffer file') = fold (edit_again (be_pageUrl new)) (be_ops new) (edits (readBuffer file)) \<and>
    (distinct (map fst (flat (readBuffer file))) \<longrightarrow> distinct (map fst (flat (readBuffer file'))))"
proof -
  from assms(1) have file': "readBuffer file' = fold (stage_op now new) (be_ops new) (readBuffer file)"
    by (auto simp: stageEntry_def readBuffer_def readBufferInternal_def rbind_Inr_iff split: buffer_file.splits)
  have "edits (fold (stage_op now new) ops es) = fold (edit_again (be_pageUrl new)) ops (edits es) \<and>
      (distinct (map fst (flat es)) \<longrightarrow> distinct (map fst (flat (fold (stage_op now new) ops es))))"
    if "\<forall>op\<in>set ops. js_is_string (op_ref op)" for ops es
    using that
  proof (induction ops arbitrary: es)
    case (Cons op ops)
    then obtain rf where rf: "op_ref op = Some (JStr rf)" by (auto simp: js_is_string_def split: option.splits json.splits)
    show ?case using Cons.IH[of "stage_op now new op es"] Cons.prems stage_op_edits[OF assms(2) rf, where now = now and es = es] by auto
  qed simp
  from this[OF assms(3)] show ?thesis by (simp add: file')
qed

lemma op_total_partition: "op_total (filter P es) + op_total (filter (\<lambda>e. \<not> P e \<and> be_ops e \<noteq> []) es) = op_total es"
  by (induction es) (auto simp: op_total_def)

text \<open>The counts of the removals are the operations that are gone; the counts by page add up.\<close>

lemma removal_counts:
  "fst (removeEntries P file) + op_total (readBuffer (snd (removeEntries P file))) = op_total (readBuffer file)"
  "fst (truncateBuffer file) = op_total (readBuffer file)" "readBuffer (snd (truncateBuffer file)) = []"
  by (simp_all add: removeEntries_def truncateBuffer_def Let_def op_total_partition readBuffer_def readBufferInternal_def)

lemma count_exact:
  "(case map_of (snd (countByPage num file)) p of Some n \<Rightarrow> n | None \<Rightarrow> 0) = op_total (filter (\<lambda>e. page_key num e = p) (readBuffer file))"
proof -
  let ?f = "\<lambda>e m. AList.update (page_key num e) ((case map_of m (page_key num e) of Some n \<Rightarrow> n | None \<Rightarrow> 0) + length (be_ops e)) m"
  have "(case map_of (fold ?f es m) p of Some n \<Rightarrow> n | None \<Rightarrow> 0) =
      (case map_of m p of Some n \<Rightarrow> n | None \<Rightarrow> 0) + op_total (filter (\<lambda>e. page_key num e = p) es)" for es m
    by (induction es arbitrary: m) (auto simp: op_total_def update_conv')
  then show ?thesis by (simp add: countByPage_def Let_def)
qed

text \<open>An empty page argument discards the edits of every page.\<close>

lemma empty_page_discards_all: "snd (discard_script [''--page-url=''] file) = Buffer []"
  by (simp add: discard_script_def Let_def truncateBuffer_def starts_with_def)

text \<open>A completion is final exactly when nothing is left to do by hand.\<close>

lemma completion_final_iff:
  "completionTypeForAcceptResult (Some (JStr ''accept'')) r = ''complete'' \<longleftrightarrow>
     fld r ''handled'' = Some (JBool True) \<and> \<not> ak_requiresComplete (completionAckForAcceptResult i ''complete'' r)"
  by (simp add: completionTypeForAcceptResult_def completionAckForAcceptResult_def Let_def)

definition sample_edit :: "string \<Rightarrow> buffer_entry" where
  "sample_edit t = \<lparr>be_id = Some (JStr ''e1''), be_pageUrl = Some (JStr ''/''), be_element = None,
     be_ops = [JObj [(''ref'', JStr ''h1''), (''originalText'', JStr ''Old''), (''newText'', JStr t)]], be_stagedAt = []\<rparr>"

definition sample_buffer :: buffer_file where
  "sample_buffer = Buffer [(sample_edit ''A'')\<lparr>be_stagedAt := ''noon''\<rparr>]"

theorem staging_refines_map_witness:
  "\<exists>file'. stageEntry ''later'' (sample_edit ''B'') sample_buffer = Inr file' \<and>
     edits (readBuffer file') (Some (JStr ''/''), Some (JStr ''h1'')) = Some (Some (JStr ''Old''), Some (JStr ''B''), False)"
proof -
  obtain file' where f: "stageEntry ''later'' (sample_edit ''B'') sample_buffer = Inr file'"
    by (auto simp: stageEntry_def sample_buffer_def readBufferInternal_def)
  have "\<forall>op\<in>set (be_ops (sample_edit ''B'')). js_is_string (op_ref op)" by code_simp
  from staging_refines_map[OF f _ this, of "''/''"]
  have "edits (readBuffer file') = edit_again (Some (JStr ''/'')) (hd (be_ops (sample_edit ''B''))) (edits (readBuffer sample_buffer))"
    by (simp add: sample_edit_def)
  moreover have "edits (readBuffer sample_buffer) (Some (JStr ''/''), Some (JStr ''h1'')) = Some (Some (JStr ''Old''), Some (JStr ''A''), False)" by code_simp
  ultimately show ?thesis using f by (simp add: edit_again_def sample_edit_def fld_def)
qed

end
