(* ===== verification/Apply_Chunks.thy ===== *)
theory Apply_Chunks
  imports Live_Edits
begin

text \<open>
  Applying the staged edits through the agent, \<open>live/manual-apply.mjs\<close>: the batch is cut into chunks of a
  few operations, each chunk is sent as an event and answered, and the answers are gathered into one
  result. The answer of a chunk is an argument: the message of the error it was rejected with,
  or the value that its reply carried. Entries are taken with a string as their id and a list of
  operations, as the buffer holds them; an id that a failure names is compared by its value.
\<close>

section \<open>Chunks\<close>

definition DEFAULT_MANUAL_EDIT_APPLY_CHUNK_SIZE :: nat where "DEFAULT_MANUAL_EDIT_APPLY_CHUNK_SIZE = 3"

definition MIN_MANUAL_EDIT_APPLY_CHUNK_SIZE :: int where "MIN_MANUAL_EDIT_APPLY_CHUNK_SIZE = 1"

definition MAX_MANUAL_EDIT_APPLY_CHUNK_SIZE :: int where "MAX_MANUAL_EDIT_APPLY_CHUNK_SIZE = 20"

definition js_trunc :: "rat \<Rightarrow> int" where
  "js_trunc q = (if q \<ge> 0 then \<lfloor>q\<rfloor> else \<lceil>q\<rceil>)"

definition manualEditApplyChunkSize :: "string option \<Rightarrow> nat" where
  "manualEditApplyChunkSize env = (case env of
       None \<Rightarrow> DEFAULT_MANUAL_EDIT_APPLY_CHUNK_SIZE
     | Some v \<Rightarrow> (case js_number v of
           Some (Fin q) \<Rightarrow> nat (max MIN_MANUAL_EDIT_APPLY_CHUNK_SIZE (min MAX_MANUAL_EDIT_APPLY_CHUNK_SIZE (js_trunc q)))
         | _ \<Rightarrow> DEFAULT_MANUAL_EDIT_APPLY_CHUNK_SIZE))"

record apply_entry =
  ae_id :: string
  ae_ops :: "json list"

text \<open>A candidate is the object that names where an operation may belong in the source.\<close>

record apply_batch =
  ab_entries :: "apply_entry list"
  ab_candidates :: "json list"

definition countManualApplyOps :: "apply_entry list \<Rightarrow> nat" where
  "countManualApplyOps es = sum_list (map (length \<circ> ae_ops) es)"

record chunk_builder =
  cb_entries :: "apply_entry list"
  cb_ops :: "json list"
  cb_refs :: "(string \<times> js) list"
  cb_counts :: "(string, nat) jmap"
  cb_opCount :: nat

definition createManualApplyChunkBuilder :: chunk_builder where
  "createManualApplyChunkBuilder = \<lparr>cb_entries = [], cb_ops = [], cb_refs = [], cb_counts = [], cb_opCount = 0\<rparr>"

fun add_to_entry :: "apply_entry \<Rightarrow> json \<Rightarrow> apply_entry list \<Rightarrow> apply_entry list" where
  "add_to_entry e op [] = [e\<lparr>ae_ops := [op]\<rparr>]"
| "add_to_entry e op (x # xs) = (if ae_id x = ae_id e then x\<lparr>ae_ops := ae_ops x @ [op]\<rparr> # xs else x # add_to_entry e op xs)"

definition owned_op :: "string \<Rightarrow> json \<Rightarrow> json" where
  "owned_op i op =
     JObj (put ''entryId'' (if js_truthy (fld (Some op) ''entryId'') then fld (Some op) ''entryId'' else Some (JStr i)) (spread (Some op)))"

definition count_of :: "(string, nat) jmap \<Rightarrow> string \<Rightarrow> nat" where
  "count_of m i = (case map_of m i of Some n \<Rightarrow> n | None \<Rightarrow> 0)"

definition addOpToManualApplyChunk :: "apply_entry \<Rightarrow> json \<Rightarrow> chunk_builder \<Rightarrow> chunk_builder" where
  "addOpToManualApplyChunk e op b =
     b\<lparr>cb_entries := add_to_entry e op (cb_entries b), cb_ops := cb_ops b @ [owned_op (ae_id e) op],
       cb_refs := (if js_truthy (fld (Some op) ''ref'') then cb_refs b @ [(ae_id e, fld (Some op) ''ref'')] else cb_refs b),
       cb_counts := AList.update (ae_id e) (count_of (cb_counts b) (ae_id e) + 1) (cb_counts b),
       cb_opCount := cb_opCount b + 1\<rparr>"

text \<open>The chunks that are closed and the one being filled.\<close>

type_synonym chunking = "chunk_builder list \<times> chunk_builder"

definition close_chunk :: "chunking \<Rightarrow> chunking" where
  "close_chunk = (\<lambda>(raw, cur). (raw @ [cur], createManualApplyChunkBuilder))"

definition add_op :: "apply_entry \<Rightarrow> json \<Rightarrow> chunking \<Rightarrow> chunking" where
  "add_op e op = (\<lambda>(raw, cur). (raw, addOpToManualApplyChunk e op cur))"

definition split_op :: "nat \<Rightarrow> apply_entry \<Rightarrow> json \<Rightarrow> chunking \<Rightarrow> chunking" where
  "split_op maxOps e op c = add_op e op (if cb_opCount (snd c) \<ge> maxOps then close_chunk c else c)"

definition split_entry :: "nat \<Rightarrow> apply_entry \<Rightarrow> chunking \<Rightarrow> chunking" where
  "split_entry maxOps e c =
     (let n = length (ae_ops e); filled = cb_opCount (snd c) > 0 in
      if n \<le> maxOps then fold (add_op e) (ae_ops e) (if filled \<and> cb_opCount (snd c) + n > maxOps then close_chunk c else c)
      else fold (split_op maxOps e) (ae_ops e) (if filled then close_chunk c else c))"

definition raw_chunks :: "nat \<Rightarrow> apply_entry list \<Rightarrow> chunk_builder list" where
  "raw_chunks maxOps es =
     (let (raw, cur) = fold (split_entry maxOps) es ([], createManualApplyChunkBuilder) in if cb_opCount cur > 0 then raw @ [cur] else raw)"

record apply_chunk =
  ac_entries :: "apply_entry list"
  ac_ops :: "json list"
  ac_candidates :: "json list"
  ac_entryIds :: "string list"
  ac_counts :: "string \<Rightarrow> nat"
  ac_meta :: "(nat \<times> nat \<times> nat \<times> nat) option"

definition filterManualApplyChunkCandidates :: "json list \<Rightarrow> chunk_builder \<Rightarrow> json list" where
  "filterManualApplyChunkCandidates cands b =
     filter (\<lambda>c. case fld (Some c) ''entryId'' of
         Some (JStr i) \<Rightarrow> i \<in> fst ` set (cb_counts b) \<and> (\<not> js_truthy (fld (Some c) ''ref'') \<or> (i, fld (Some c) ''ref'') \<in> set (cb_refs b))
       | _ \<Rightarrow> False) cands"

definition finish_chunk :: "apply_batch \<Rightarrow> nat \<Rightarrow> nat \<Rightarrow> nat \<Rightarrow> chunk_builder \<Rightarrow> apply_chunk" where
  "finish_chunk batch chunkTotal totalOps k b =
     \<lparr>ac_entries = cb_entries b, ac_ops = cb_ops b, ac_candidates = filterManualApplyChunkCandidates (ab_candidates batch) b,
      ac_entryIds = filter (\<lambda>i. i \<noteq> []) (map ae_id (cb_entries b)), ac_counts = count_of (cb_counts b),
      ac_meta = Some (k + 1, chunkTotal, cb_opCount b, totalOps)\<rparr>"

definition splitManualApplyBatch :: "apply_batch \<Rightarrow> nat \<Rightarrow> apply_chunk list" where
  "splitManualApplyBatch batch maxOps =
     (let opTotal = countManualApplyOps (ab_entries batch) in
      if opTotal \<le> maxOps
      then [\<lparr>ac_entries = ab_entries batch, ac_ops = [], ac_candidates = ab_candidates batch,
             ac_entryIds = filter (\<lambda>i. i \<noteq> []) (map ae_id (ab_entries batch)),
             ac_counts = (\<lambda>i. case map_of (rev (map (\<lambda>e. (ae_id e, length (ae_ops e))) (ab_entries batch))) i of Some n \<Rightarrow> n | None \<Rightarrow> 0), ac_meta = None\<rparr>]
      else let raw = raw_chunks maxOps (ab_entries batch) in map (\<lambda>(k, b). finish_chunk batch (length raw) opTotal k b) (enumerate 0 raw))"

section \<open>Answers\<close>

record chunk_result =
  cr_status :: string
  cr_message :: "string option"
  cr_applied :: "string list"
  cr_failed :: "json list"
  cr_files :: "string list"
  cr_notes :: "string list"

definition strings_of :: "js \<Rightarrow> string list" where
  "strings_of v = List.map_filter (\<lambda>x. case x of JStr s \<Rightarrow> Some s | _ \<Rightarrow> None) (array_items v)"

definition normalizeApplyChunkResult :: "js \<Rightarrow> chunk_result" where
  "normalizeApplyChunkResult r =
     \<lparr>cr_status = (if fld r ''status'' = Some (JStr ''partial'') then ''partial'' else if fld r ''status'' = Some (JStr ''error'') then ''error'' else ''done''),
      cr_message = (case fld r ''message'' of Some (JStr s) \<Rightarrow> Some s | _ \<Rightarrow> None),
      cr_applied = strings_of (fld r ''appliedEntryIds''), cr_failed = filter (\<lambda>x. js_truthy (Some x)) (array_items (fld r ''failed'')),
      cr_files = strings_of (fld r ''files''), cr_notes = strings_of (fld r ''notes'')\<rparr>"

definition first_of :: "js list \<Rightarrow> js" where
  "first_of vs = (case filter js_truthy vs of v # _ \<Rightarrow> v | [] \<Rightarrow> None)"

text \<open>The id that a failure names.\<close>

definition failed_id :: "json \<Rightarrow> js" where
  "failed_id item = first_of [fld (Some item) ''entryId'', fld (Some item) ''id'']"

record failure =
  fl_reason :: js
  fl_candidates :: "json list"

type_synonym failures = "(json, failure) jmap"

definition set_failed :: "json \<Rightarrow> failure \<Rightarrow> failures \<Rightarrow> failures" where
  "set_failed i f m = (if map_of m i = None then AList.update i f m else m)"

definition markChunkEntriesFailed :: "string list \<Rightarrow> js \<Rightarrow> failures \<Rightarrow> failures" where
  "markChunkEntriesFailed ids reason m = fold (\<lambda>i. set_failed (JStr i) \<lparr>fl_reason = reason, fl_candidates = []\<rparr>) ids m"

definition firstFailureReason :: "chunk_result \<Rightarrow> js" where
  "firstFailureReason r = (case cr_failed r of item # _ \<Rightarrow> first_of [fld (Some item) ''reason'', fld (Some item) ''message''] | [] \<Rightarrow> None)"

definition note_failure :: "json \<Rightarrow> failures \<Rightarrow> failures" where
  "note_failure item m = (case failed_id item of
       Some i \<Rightarrow> set_failed i \<lparr>fl_reason = first_of [fld (Some item) ''reason'', fld (Some item) ''message'', Some (JStr ''failed'')],
           fl_candidates = array_items (fld (Some item) ''candidates'')\<rparr> m
     | None \<Rightarrow> m)"

definition failed_ids :: "chunk_result \<Rightarrow> json set" where
  "failed_ids r = set (List.map_filter failed_id (cr_failed r))"

record gathered =
  ga_applied :: "(string, nat) jmap"
  ga_failed :: failures
  ga_files :: "string list"
  ga_notes :: "string list"
  ga_aborted :: bool

definition add_file :: "string \<Rightarrow> string list \<Rightarrow> string list" where
  "add_file f fs = (if f \<in> set fs then fs else fs @ [f])"

definition count_applied :: "apply_chunk \<Rightarrow> chunk_result \<Rightarrow> string \<Rightarrow> (string, nat) jmap \<Rightarrow> (string, nat) jmap" where
  "count_applied c r i m =
     (if i \<notin> set (ac_entryIds c) \<or> JStr i \<in> failed_ids r then m else AList.update i (count_of m i + ac_counts c i) m)"

definition note_unreported :: "chunk_result \<Rightarrow> string \<Rightarrow> failures \<Rightarrow> failures" where
  "note_unreported r i m =
     (if i \<in> set (cr_applied r) \<or> JStr i \<in> failed_ids r then m
      else set_failed (JStr i) \<lparr>fl_reason = Some (JStr ''not_reported_applied''), fl_candidates = []\<rparr> m)"

text \<open>One chunk: aborted ones are failed without being sent.\<close>

definition gather_chunk :: "(nat \<Rightarrow> string + js) \<Rightarrow> nat \<times> apply_chunk \<Rightarrow> gathered \<Rightarrow> gathered" where
  "gather_chunk answers = (\<lambda>(k, c) g.
     if ga_aborted g then g\<lparr>ga_failed := markChunkEntriesFailed (ac_entryIds c) (Some (JStr ''manual_edit_chunk_aborted'')) (ga_failed g)\<rparr>
     else (case answers k of
         Inl err \<Rightarrow> g\<lparr>ga_failed := markChunkEntriesFailed (ac_entryIds c) (Some (JStr (if err = [] then ''chat_agent_error'' else err))) (ga_failed g), ga_aborted := True\<rparr>
       | Inr v \<Rightarrow>
           let r = normalizeApplyChunkResult v;
               g1 = g\<lparr>ga_files := fold add_file (cr_files r) (ga_files g), ga_notes := ga_notes g @ cr_notes r, ga_failed := fold note_failure (cr_failed r) (ga_failed g)\<rparr>
           in if cr_status r = ''error''
              then g1\<lparr>ga_failed := markChunkEntriesFailed (ac_entryIds c)
                       (first_of [map_option JStr (cr_message r), firstFailureReason r, Some (JStr ''chat_agent_error'')]) (ga_failed g1), ga_aborted := True\<rparr>
              else g1\<lparr>ga_applied := fold (count_applied c r) (remdups (cr_applied r)) (ga_applied g1),
                      ga_failed := fold (note_unreported r) (ac_entryIds c) (ga_failed g1)\<rparr>))"

record apply_outcome =
  ao_status :: string
  ao_applied :: "string list"
  ao_failed :: failures
  ao_files :: "string list"
  ao_notes :: "string list"

text \<open>The end: an entry whose operations were all reported, and that is not among the failed, is applied.\<close>

definition expected_ops :: "apply_entry list \<Rightarrow> (string, nat) jmap" where
  "expected_ops es = fold (\<lambda>e. AList.update (ae_id e) (length (ae_ops e))) es []"

definition conclude_entry :: "(string, nat) jmap \<Rightarrow> string \<times> nat \<Rightarrow> string list \<times> failures \<Rightarrow> string list \<times> failures" where
  "conclude_entry applied = (\<lambda>(i, n) (ok, failed).
     if map_of failed (JStr i) \<noteq> None then (ok, failed)
     else if count_of applied i = n \<and> n > 0 then (ok @ [i], failed)
     else (ok, set_failed (JStr i) \<lparr>fl_reason = Some (JStr ''not_reported_applied''), fl_candidates = []\<rparr> failed))"

definition gather :: "(nat \<Rightarrow> string + js) \<Rightarrow> apply_chunk list \<Rightarrow> gathered" where
  "gather answers chunks =
     fold (gather_chunk answers) (enumerate 0 chunks) \<lparr>ga_applied = [], ga_failed = [], ga_files = [], ga_notes = [], ga_aborted = False\<rparr>"

definition conclude :: "apply_entry list \<Rightarrow> gathered \<Rightarrow> apply_outcome" where
  "conclude es g =
     (let (ok, failed) = fold (conclude_entry (ga_applied g)) (expected_ops es) ([], ga_failed g) in
      \<lparr>ao_status = (if failed = [] then ''done'' else if ok \<noteq> [] then ''partial'' else ''error''),
       ao_applied = ok, ao_failed = failed, ao_files = ga_files g, ao_notes = ga_notes g\<rparr>)"

text \<open>A batch of one chunk is answered with the reply as it came.\<close>

datatype apply_reply = Rejected string | Raw_reply js | Gathered_reply apply_outcome

definition pushBatchInChunksAndWait :: "(nat \<Rightarrow> string + js) \<Rightarrow> nat \<Rightarrow> bool \<Rightarrow> apply_batch \<Rightarrow> apply_reply" where
  "pushBatchInChunksAndWait answers maxOps repair batch =
     (let chunks = splitManualApplyBatch batch maxOps in
      if repair \<or> length chunks \<le> 1 then (case answers 0 of Inl err \<Rightarrow> Rejected err | Inr v \<Rightarrow> Raw_reply v)
      else Gathered_reply (conclude (ab_entries batch) (gather answers chunks)))"

section \<open>What the chunks hold\<close>

text \<open>The operations of entries, each with the id of its entry.\<close>

definition pairs :: "apply_entry list \<Rightarrow> (string \<times> json) list" where
  "pairs es = concat (map (\<lambda>e. map (Pair (ae_id e)) (ae_ops e)) es)"

lemma pairs_simps [simp]: "pairs [] = []" "pairs (e # es) = map (Pair (ae_id e)) (ae_ops e) @ pairs es" "pairs (es @ es') = pairs es @ pairs es'"
  by (simp_all add: pairs_def)

lemma length_pairs: "length (pairs es) = countManualApplyOps es"
  by (induction es) (simp_all add: countManualApplyOps_def)

lemma pairs_add: "mset (pairs (add_to_entry e op es)) = add_mset (ae_id e, op) (mset (pairs es))"
  by (induction es) auto

lemma ids_add: "set (map ae_id (add_to_entry e op es)) = insert (ae_id e) (set (map ae_id es))"
  "distinct (map ae_id es) \<Longrightarrow> distinct (map ae_id (add_to_entry e op es))"
  "\<forall>x\<in>set es. ae_ops x \<noteq> [] \<Longrightarrow> \<forall>x\<in>set (add_to_entry e op es). ae_ops x \<noteq> []"
proof -
  show ids: "set (map ae_id (add_to_entry e op es)) = insert (ae_id e) (set (map ae_id es))" for es by (induction es) auto
  show "distinct (map ae_id es) \<Longrightarrow> distinct (map ae_id (add_to_entry e op es))"
  proof (induction es)
    case (Cons x es)
    then show ?case using ids[of es] by (auto simp: image_iff)
  qed simp
  show "\<forall>x\<in>set es. ae_ops x \<noteq> [] \<Longrightarrow> \<forall>x\<in>set (add_to_entry e op es). ae_ops x \<noteq> []" by (induction es) auto
qed

definition ops_of_id :: "string \<Rightarrow> apply_entry list \<Rightarrow> nat" where
  "ops_of_id i es = size (filter_mset (\<lambda>x. fst x = i) (mset (pairs es)))"

text \<open>A builder counts what it holds.\<close>

definition built :: "nat \<Rightarrow> chunk_builder \<Rightarrow> bool" where
  "built maxOps b \<longleftrightarrow> distinct (map ae_id (cb_entries b)) \<and> (\<forall>e\<in>set (cb_entries b). ae_ops e \<noteq> []) \<and>
     cb_opCount b = countManualApplyOps (cb_entries b) \<and> (\<forall>i. count_of (cb_counts b) i = ops_of_id i (cb_entries b)) \<and> cb_opCount b \<le> maxOps"

lemma built_empty: "built maxOps createManualApplyChunkBuilder"
  by (simp add: built_def createManualApplyChunkBuilder_def countManualApplyOps_def count_of_def ops_of_id_def)

lemma built_add:
  assumes "built maxOps b" "cb_opCount b < maxOps"
  shows "built maxOps (addOpToManualApplyChunk e op b)"
proof -
  have "countManualApplyOps (add_to_entry e op (cb_entries b)) = Suc (countManualApplyOps (cb_entries b))"
    using pairs_add[of e op "cb_entries b"] by (metis length_pairs size_mset size_add_mset)
  with assms show ?thesis
    using ids_add(2)[of "cb_entries b" e op] ids_add(3)[of "cb_entries b" e op]
    by (auto simp: built_def addOpToManualApplyChunk_def pairs_add ops_of_id_def count_of_def update_conv')
qed

text \<open>All that was put into the chunks so far.\<close>

definition held :: "chunking \<Rightarrow> (string \<times> json) multiset" where
  "held c = mset (concat (map (pairs \<circ> cb_entries) (fst c @ [snd c])))"

definition chunked :: "nat \<Rightarrow> chunking \<Rightarrow> bool" where
  "chunked maxOps c \<longleftrightarrow> (\<forall>b\<in>set (fst c). built maxOps b \<and> cb_opCount b > 0) \<and> built maxOps (snd c)"

lemma held_add: "held (add_op e op c) = add_mset (ae_id e, op) (held c)"
  by (cases c) (simp add: held_def add_op_def addOpToManualApplyChunk_def pairs_add)

lemma empty_builder [simp]: "cb_entries createManualApplyChunkBuilder = []" "cb_opCount createManualApplyChunkBuilder = 0"
  by (simp_all add: createManualApplyChunkBuilder_def)

lemma held_close [simp]: "held (close_chunk c) = held c" "cb_opCount (snd (close_chunk c)) = 0"
  by (cases c, simp add: held_def close_chunk_def)+

lemma chunked_close: "chunked maxOps c \<Longrightarrow> cb_opCount (snd c) > 0 \<Longrightarrow> chunked maxOps (close_chunk c)"
  by (cases c) (auto simp: close_chunk_def chunked_def built_empty)

lemma add_op_count: "cb_opCount (snd (add_op e op c)) = Suc (cb_opCount (snd c))"
  by (cases c) (simp add: add_op_def addOpToManualApplyChunk_def)

lemma chunked_add: "chunked maxOps c \<Longrightarrow> cb_opCount (snd c) < maxOps \<Longrightarrow> chunked maxOps (add_op e op c)"
  by (cases c) (auto simp: chunked_def add_op_def built_add)

lemma add_ops:
  "chunked maxOps c \<Longrightarrow> cb_opCount (snd c) + length ops \<le> maxOps \<Longrightarrow>
     chunked maxOps (fold (add_op e) ops c) \<and> held (fold (add_op e) ops c) = held c + mset (map (Pair (ae_id e)) ops)"
proof (induction ops arbitrary: c)
  case (Cons op ops)
  then show ?case using Cons.IH[of "add_op e op c"] chunked_add[of maxOps c e op] by (simp add: add_op_count held_add)
qed simp

lemma split_ops:
  "1 \<le> maxOps \<Longrightarrow> chunked maxOps c \<Longrightarrow>
     chunked maxOps (fold (split_op maxOps e) ops c) \<and> held (fold (split_op maxOps e) ops c) = held c + mset (map (Pair (ae_id e)) ops)"
proof (induction ops arbitrary: c)
  case (Cons op ops)
  let ?c = "if cb_opCount (snd c) \<ge> maxOps then close_chunk c else c"
  have "chunked maxOps ?c" "cb_opCount (snd ?c) < maxOps" "held ?c = held c"
    using Cons.prems chunked_close[OF Cons.prems(2)] by auto
  then have "chunked maxOps (split_op maxOps e op c)" "held (split_op maxOps e op c) = add_mset (ae_id e, op) (held c)"
    unfolding split_op_def using chunked_add[of maxOps ?c e op] held_add[of e op ?c] by simp_all
  then show ?case using Cons.IH[OF Cons.prems(1), of "split_op maxOps e op c"] by simp
qed simp

lemma split_entry_holds:
  assumes "1 \<le> maxOps" "chunked maxOps c"
  shows "chunked maxOps (split_entry maxOps e c) \<and> held (split_entry maxOps e c) = held c + mset (map (Pair (ae_id e)) (ae_ops e))"
proof (cases "length (ae_ops e) \<le> maxOps")
  case True
  let ?c = "if cb_opCount (snd c) > 0 \<and> cb_opCount (snd c) + length (ae_ops e) > maxOps then close_chunk c else c"
  have "chunked maxOps ?c" "cb_opCount (snd ?c) + length (ae_ops e) \<le> maxOps" "held ?c = held c"
    using assms True chunked_close[OF assms(2)] by auto
  then show ?thesis using add_ops[of maxOps ?c "ae_ops e" e] True by (simp add: split_entry_def Let_def)
next
  case False
  let ?c = "if cb_opCount (snd c) > 0 then close_chunk c else c"
  have "chunked maxOps ?c" "held ?c = held c" using assms chunked_close[OF assms(2)] by auto
  then show ?thesis using split_ops[OF assms(1), of ?c e "ae_ops e"] False by (simp add: split_entry_def Let_def)
qed

lemma raw_chunks_hold:
  assumes "1 \<le> maxOps"
  shows "\<forall>b\<in>set (raw_chunks maxOps es). built maxOps b \<and> cb_opCount b > 0"
    "mset (concat (map (pairs \<circ> cb_entries) (raw_chunks maxOps es))) = mset (pairs es)"
proof -
  have "chunked maxOps c \<Longrightarrow> chunked maxOps (fold (split_entry maxOps) es c) \<and> held (fold (split_entry maxOps) es c) = held c + mset (pairs es)" for c
  proof (induction es arbitrary: c)
    case (Cons e es)
    then show ?case using Cons.IH[of "split_entry maxOps e c"] split_entry_holds[OF assms Cons.prems, of e] by simp
  qed simp
  from this[of "([], createManualApplyChunkBuilder)"] obtain raw cur where
    rc: "fold (split_entry maxOps) es ([], createManualApplyChunkBuilder) = (raw, cur)" "chunked maxOps (raw, cur)" "held (raw, cur) = mset (pairs es)"
    by (cases "fold (split_entry maxOps) es ([], createManualApplyChunkBuilder)")
      (auto simp: chunked_def built_empty held_def)
  then show "\<forall>b\<in>set (raw_chunks maxOps es). built maxOps b \<and> cb_opCount b > 0" by (auto simp: raw_chunks_def chunked_def)
  have "cb_opCount cur = 0 \<Longrightarrow> pairs (cb_entries cur) = []" using rc(2) length_pairs[of "cb_entries cur"] by (simp add: chunked_def built_def)
  with rc show "mset (concat (map (pairs \<circ> cb_entries) (raw_chunks maxOps es))) = mset (pairs es)"
    by (cases "cb_opCount cur = 0") (simp_all add: raw_chunks_def held_def)
qed

section \<open>What the answers give\<close>

text \<open>A chunk that was answered without an error, the chunks that were sent at all, and what an answer says of an entry.\<close>

definition answer_of :: "(nat \<Rightarrow> string + js) \<Rightarrow> nat \<Rightarrow> chunk_result option" where
  "answer_of answers k = (case answers k of Inr v \<Rightarrow> Some (normalizeApplyChunkResult v) | Inl err \<Rightarrow> None)"

definition good_answer :: "(nat \<Rightarrow> string + js) \<Rightarrow> nat \<Rightarrow> bool" where
  "good_answer answers k = (case answer_of answers k of Some r \<Rightarrow> cr_status r \<noteq> ''error'' | None \<Rightarrow> False)"

definition sent :: "(nat \<Rightarrow> string + js) \<Rightarrow> nat \<Rightarrow> bool" where
  "sent answers k \<longleftrightarrow> (\<forall>j<k. good_answer answers j)"

definition confirmed :: "(nat \<Rightarrow> string + js) \<Rightarrow> nat \<Rightarrow> string \<Rightarrow> bool" where
  "confirmed answers k i \<longleftrightarrow> sent answers k \<and> good_answer answers k \<and>
     (case answer_of answers k of Some r \<Rightarrow> i \<in> set (cr_applied r) \<and> JStr i \<notin> failed_ids r | None \<Rightarrow> False)"

definition named_failed :: "(nat \<Rightarrow> string + js) \<Rightarrow> nat \<Rightarrow> json set" where
  "named_failed answers k = (case answer_of answers k of Some r \<Rightarrow> if sent answers k then failed_ids r else {} | None \<Rightarrow> {})"

lemma sent_Suc: "sent answers (Suc k) \<longleftrightarrow> sent answers k \<and> good_answer answers k"
  by (auto simp: sent_def less_Suc_eq)

lemma dom_set_failed [simp]: "dom (map_of (set_failed i f m)) = insert i (dom (map_of m))"
  by (auto simp: set_failed_def update_conv' split: if_splits)

lemma dom_mark [simp]: "dom (map_of (markChunkEntriesFailed ids reason m)) = JStr ` set ids \<union> dom (map_of m)"
  unfolding markChunkEntriesFailed_def by (induction ids arbitrary: m) auto

lemma dom_note_failures [simp]: "dom (map_of (fold note_failure items m)) = set (List.map_filter failed_id items) \<union> dom (map_of m)"
  by (induction items arbitrary: m) (auto simp: note_failure_def List.map_filter_def split: option.splits)

lemma dom_unreported [simp]:
  "dom (map_of (fold (note_unreported r) ids m)) = {JStr i |i. i \<in> set ids \<and> i \<notin> set (cr_applied r) \<and> JStr i \<notin> failed_ids r} \<union> dom (map_of m)"
  by (induction ids arbitrary: m) (auto simp: note_unreported_def)

lemma count_of_update [simp]: "count_of (AList.update i n m) j = (if j = i then n else count_of m j)"
  by (simp add: count_of_def update_conv')

lemma count_applied_fold:
  "distinct xs \<Longrightarrow> count_of (fold (count_applied c r) xs m) i =
     count_of m i + (if i \<in> set xs \<and> i \<in> set (ac_entryIds c) \<and> JStr i \<notin> failed_ids r then ac_counts c i else 0)"
  by (induction xs arbitrary: m) (auto simp: count_applied_def)

lemma gather_snoc: "gather answers (cs @ [c]) = gather_chunk answers (length cs, c) (gather answers cs)"
  by (simp add: gather_def enumerate_append_eq)

lemma gather_failed:
  "ga_aborted (gather answers cs) \<longleftrightarrow> \<not> sent answers (length cs)"
  "dom (map_of (ga_failed (gather answers cs))) =
     {JStr i |i k. k < length cs \<and> i \<in> set (ac_entryIds (cs ! k)) \<and> \<not> confirmed answers k i} \<union> (\<Union>k<length cs. named_failed answers k)"
proof (induction cs rule: rev_induct)
  case Nil
  {
    case 1 show ?case by (simp add: gather_def sent_def)
  next
    case 2 show ?case by (simp add: gather_def)
  }
next
  case (snoc c cs)
  {
    case 1
    show ?case
      using snoc.IH(1) by (auto simp: gather_snoc gather_chunk_def sent_Suc good_answer_def answer_of_def Let_def split: sum.split)
  next
    case 2
    let ?n = "length cs"
    have "{JStr i |i k. k < length (cs @ [c]) \<and> i \<in> set (ac_entryIds ((cs @ [c]) ! k)) \<and> \<not> confirmed answers k i} =
        {JStr i |i k. k < ?n \<and> i \<in> set (ac_entryIds (cs ! k)) \<and> \<not> confirmed answers k i} \<union> {JStr i |i. i \<in> set (ac_entryIds c) \<and> \<not> confirmed answers ?n i}"
      by (auto simp: nth_append less_Suc_eq) (intro exI[of _ ?n], simp)
    moreover have "dom (map_of (ga_failed (gather answers (cs @ [c])))) =
        dom (map_of (ga_failed (gather answers cs))) \<union> {JStr i |i. i \<in> set (ac_entryIds c) \<and> \<not> confirmed answers ?n i} \<union> named_failed answers ?n"
      using snoc.IH(1)
      by (auto simp: gather_snoc gather_chunk_def confirmed_def named_failed_def good_answer_def answer_of_def Let_def failed_ids_def split: sum.split)
    ultimately show ?case using snoc.IH(2) by (auto simp: lessThan_Suc)
  }
qed

lemma gather_applied:
  "count_of (ga_applied (gather answers cs)) i = (\<Sum>k<length cs. if i \<in> set (ac_entryIds (cs ! k)) \<and> confirmed answers k i then ac_counts (cs ! k) i else 0)"
proof (induction cs rule: rev_induct)
  case Nil
  then show ?case by (simp add: gather_def count_of_def)
next
  case (snoc c cs)
  have "count_of (ga_applied (gather answers (cs @ [c]))) i =
      count_of (ga_applied (gather answers cs)) i + (if i \<in> set (ac_entryIds c) \<and> confirmed answers (length cs) i then ac_counts c i else 0)"
    using gather_failed(1)[of answers cs]
    by (auto simp: gather_snoc gather_chunk_def confirmed_def good_answer_def answer_of_def Let_def count_applied_fold split: sum.split)
  moreover have "(\<Sum>k<length cs. if i \<in> set (ac_entryIds ((cs @ [c]) ! k)) \<and> confirmed answers k i then ac_counts ((cs @ [c]) ! k) i else 0) =
      (\<Sum>k<length cs. if i \<in> set (ac_entryIds (cs ! k)) \<and> confirmed answers k i then ac_counts (cs ! k) i else 0)"
    by (rule sum.cong) (auto simp: nth_append)
  ultimately show ?case using snoc.IH by simp
qed

lemma conclude_fold:
  "distinct (map fst L) \<Longrightarrow>
    set (fst (fold (conclude_entry m) L (ok, failed))) =
      set ok \<union> {i. \<exists>n. (i, n) \<in> set L \<and> JStr i \<notin> dom (map_of failed) \<and> count_of m i = n \<and> n > 0} \<and>
    dom (map_of (snd (fold (conclude_entry m) L (ok, failed)))) =
      dom (map_of failed) \<union> {JStr i |i. \<exists>n. (i, n) \<in> set L \<and> \<not> (count_of m i = n \<and> n > 0)}"
proof (induction L arbitrary: ok failed)
  case (Cons x L)
  obtain i n where x: "x = (i, n)" by (cases x)
  obtain ok1 failed1 where s: "conclude_entry m (i, n) (ok, failed) = (ok1, failed1)" by fastforce
  have dom: "dom (map_of failed1) = dom (map_of failed) \<union> (if count_of m i = n \<and> n > 0 then {} else {JStr i})"
    using s by (auto simp: conclude_entry_def set_failed_def update_conv' split: if_splits)
  have ok: "set ok1 = set ok \<union> (if JStr i \<notin> dom (map_of failed) \<and> count_of m i = n \<and> n > 0 then {i} else {})"
    using s by (auto simp: conclude_entry_def domIff split: if_splits)
  have "i \<notin> fst ` set L" using Cons.prems x by simp
  then have others: "(j, k) \<in> set L \<Longrightarrow> j \<noteq> i" for j k by force
  show ?case using Cons.IH[of ok1 failed1] Cons.prems others by (auto simp: dom ok x s)
qed simp

lemma update_new: "k \<notin> fst ` set m \<Longrightarrow> AList.update k v m = m @ [(k, v)]"
  by (induction m) auto

lemma expected_fold:
  "distinct (map ae_id es) \<Longrightarrow> fst ` set m \<inter> ae_id ` set es = {} \<Longrightarrow>
     fold (\<lambda>e. AList.update (ae_id e) (length (ae_ops e))) es m = m @ map (\<lambda>e. (ae_id e, length (ae_ops e))) es"
proof (induction es arbitrary: m)
  case (Cons e es)
  let ?m = "m @ [(ae_id e, length (ae_ops e))]"
  have new: "ae_id e \<notin> fst ` set m" "fst ` set ?m \<inter> ae_id ` set es = {}" using Cons.prems by auto
  show ?case using Cons.IH[OF _ new(2)] Cons.prems(1) by (simp add: update_new[OF new(1)])
qed simp

lemma expected_distinct: "distinct (map ae_id es) \<Longrightarrow> expected_ops es = map (\<lambda>e. (ae_id e, length (ae_ops e))) es"
  using expected_fold[of es "[]"] by (simp add: expected_ops_def)

lemma ops_of_id_filter: "ops_of_id i es = length (filter (\<lambda>x. fst x = i) (pairs es))"
  by (simp add: ops_of_id_def flip: mset_filter)

lemma ops_of_id_simps [simp]: "ops_of_id i [] = 0" "ops_of_id i (e # es) = (if ae_id e = i then length (ae_ops e) else 0) + ops_of_id i es"
proof -
  have "filter (\<lambda>x. fst x = i) (map (Pair j) ops) = (if j = i then map (Pair j) ops else [])" for j and ops :: "json list" by (induction ops) auto
  then show "ops_of_id i [] = 0" "ops_of_id i (e # es) = (if ae_id e = i then length (ae_ops e) else 0) + ops_of_id i es"
    by (simp_all add: ops_of_id_filter)
qed

lemma ops_of_id_distinct: "distinct (map ae_id es) \<Longrightarrow> e \<in> set es \<Longrightarrow> ops_of_id (ae_id e) es = length (ae_ops e)"
proof (induction es)
  case (Cons x es)
  have "i \<notin> ae_id ` set es \<Longrightarrow> ops_of_id i es = 0" for i by (induction es) auto
  with Cons show ?case by (auto simp: image_iff)
qed simp

lemma ops_of_id_pos: "\<forall>e\<in>set es. ae_ops e \<noteq> [] \<Longrightarrow> ops_of_id i es > 0 \<longleftrightarrow> i \<in> ae_id ` set es"
  by (induction es) auto

text \<open>The chunks of a batch that is too large for one.\<close>

lemma split_chunks:
  assumes "1 \<le> maxOps" "maxOps < countManualApplyOps (ab_entries batch)"
  defines "chunks \<equiv> splitManualApplyBatch batch maxOps"
  shows "mset (concat (map (pairs \<circ> ac_entries) chunks)) = mset (pairs (ab_entries batch))"
    "\<forall>c\<in>set chunks. 1 \<le> countManualApplyOps (ac_entries c) \<and> countManualApplyOps (ac_entries c) \<le> maxOps"
    "\<forall>c\<in>set chunks. \<forall>i. ac_counts c i = ops_of_id i (ac_entries c)"
    "\<forall>c\<in>set chunks. \<forall>i. i \<in> set (ac_entryIds c) \<longleftrightarrow> i \<noteq> [] \<and> ops_of_id i (ac_entries c) > 0"
proof -
  let ?raw = "raw_chunks maxOps (ab_entries batch)"
  have chunks: "chunks = map (\<lambda>(k, b). finish_chunk batch (length ?raw) (countManualApplyOps (ab_entries batch)) k b) (enumerate 0 ?raw)"
    using assms(2) by (simp add: chunks_def splitManualApplyBatch_def Let_def)
  have entries: "map ac_entries chunks = map cb_entries ?raw"
    unfolding chunks map_map by (rule nth_equalityI) (simp_all add: finish_chunk_def nth_enumerate_eq)
  then show "mset (concat (map (pairs \<circ> ac_entries) chunks)) = mset (pairs (ab_entries batch))"
    using raw_chunks_hold(2)[OF assms(1), of "ab_entries batch"] by (metis map_map)
  have each: "\<exists>b\<in>set ?raw. ac_entries c = cb_entries b \<and> ac_counts c = count_of (cb_counts b) \<and> ac_entryIds c = filter (\<lambda>i. i \<noteq> []) (map ae_id (cb_entries b))"
    if "c \<in> set chunks" for c
    using that by (auto simp: chunks finish_chunk_def in_set_enumerate_eq)
  note raw = raw_chunks_hold(1)[OF assms(1), of "ab_entries batch", unfolded built_def]
  show "\<forall>c\<in>set chunks. 1 \<le> countManualApplyOps (ac_entries c) \<and> countManualApplyOps (ac_entries c) \<le> maxOps"
    using each raw by (metis Suc_leI One_nat_def)
  show "\<forall>c\<in>set chunks. \<forall>i. ac_counts c i = ops_of_id i (ac_entries c)" using each raw by metis
  show "\<forall>c\<in>set chunks. \<forall>i. i \<in> set (ac_entryIds c) \<longleftrightarrow> i \<noteq> [] \<and> ops_of_id i (ac_entries c) > 0"
  proof (intro ballI allI)
    fix c i assume "c \<in> set chunks"
    from each[OF this] obtain b where b: "b \<in> set ?raw" "ac_entries c = cb_entries b" "ac_entryIds c = filter (\<lambda>i. i \<noteq> []) (map ae_id (cb_entries b))" by blast
    with raw have "ops_of_id i (cb_entries b) > 0 \<longleftrightarrow> i \<in> ae_id ` set (cb_entries b)" by (intro ops_of_id_pos) blast
    with b show "i \<in> set (ac_entryIds c) \<longleftrightarrow> i \<noteq> [] \<and> ops_of_id i (ac_entries c) > 0" by auto
  qed
qed

lemma chunk_full:
  assumes "1 \<le> maxOps" "maxOps < countManualApplyOps (ab_entries batch)" "c \<in> set (splitManualApplyBatch batch maxOps)"
  shows "\<forall>e\<in>set (ac_entries c). ae_ops e \<noteq> []"
proof -
  from assms(2,3) have "\<exists>b\<in>set (raw_chunks maxOps (ab_entries batch)). ac_entries c = cb_entries b"
    by (auto simp: splitManualApplyBatch_def Let_def finish_chunk_def in_set_enumerate_eq)
  with raw_chunks_hold(1)[OF assms(1)] show ?thesis by (auto simp: built_def)
qed

lemma ops_of_chunks: "(\<Sum>c\<leftarrow>cs. ops_of_id i (ac_entries c)) = size (filter_mset (\<lambda>x. fst x = i) (mset (concat (map (pairs \<circ> ac_entries) cs))))"
  by (induction cs) (simp_all add: ops_of_id_def)

lemma ops_of_id_all:
  assumes "1 \<le> maxOps" "maxOps < countManualApplyOps (ab_entries batch)"
  defines "chunks \<equiv> splitManualApplyBatch batch maxOps"
  shows "(\<Sum>k<length chunks. ops_of_id i (ac_entries (chunks ! k))) = ops_of_id i (ab_entries batch)"
proof -
  have "(\<Sum>k<length chunks. ops_of_id i (ac_entries (chunks ! k))) = (\<Sum>c\<leftarrow>chunks. ops_of_id i (ac_entries c))"
    by (simp add: sum_list_sum_nth atLeast0LessThan)
  also have "\<dots> = ops_of_id i (ab_entries batch)"
    unfolding ops_of_chunks using split_chunks(1)[OF assms(1,2)] by (simp add: chunks_def ops_of_id_def)
  finally show ?thesis .
qed

text \<open>A batch above the limit is cut into two chunks at least.\<close>

lemma several_chunks:
  assumes "1 \<le> maxOps" "maxOps < countManualApplyOps (ab_entries batch)"
  shows "1 < length (splitManualApplyBatch batch maxOps)"
proof (rule ccontr)
  let ?cs = "splitManualApplyBatch batch maxOps"
  assume "\<not> 1 < length ?cs"
  then consider "?cs = []" | c where "?cs = [c]" by (cases ?cs) auto
  then have "length (pairs (ab_entries batch)) \<le> maxOps"
  proof cases
    case 1
    then show ?thesis using split_chunks(1)[OF assms] by simp
  next
    case (2 c)
    have "length (pairs (ab_entries batch)) = length (pairs (ac_entries c))"
      using split_chunks(1)[OF assms] 2 by (metis size_mset list.map concat.simps append_Nil2 comp_apply)
    then show ?thesis using split_chunks(2)[OF assms] 2 by (simp add: length_pairs)
  qed
  with assms(2) show False by (simp add: length_pairs)
qed

text \<open>All the operations of an entry are reported when every chunk that holds some of it is confirmed.\<close>

lemma all_confirmed_counts:
  assumes "1 \<le> maxOps" "maxOps < countManualApplyOps (ab_entries batch)" "distinct (map ae_id (ab_entries batch))"
    "e \<in> set (ab_entries batch)" "ae_id e \<noteq> []"
  defines "chunks \<equiv> splitManualApplyBatch batch maxOps"
  assumes all: "\<forall>k<length chunks. ae_id e \<in> set (ac_entryIds (chunks ! k)) \<longrightarrow> confirmed answers k (ae_id e)"
  shows "count_of (ga_applied (gather answers chunks)) (ae_id e) = length (ae_ops e)"
proof -
  have "(if ae_id e \<in> set (ac_entryIds (chunks ! k)) \<and> confirmed answers k (ae_id e) then ac_counts (chunks ! k) (ae_id e) else 0) =
      ops_of_id (ae_id e) (ac_entries (chunks ! k))" if "k < length chunks" for k
    using that all split_chunks(3,4)[OF assms(1,2)] assms(5) by (auto simp: chunks_def)
  then have "count_of (ga_applied (gather answers chunks)) (ae_id e) = (\<Sum>k<length chunks. ops_of_id (ae_id e) (ac_entries (chunks ! k)))"
    unfolding gather_applied by (intro sum.cong) auto
  then show ?thesis using ops_of_id_all[OF assms(1,2)] ops_of_id_distinct[OF assms(3,4)] by (simp add: chunks_def)
qed

lemma empty_id_uncounted:
  assumes "1 \<le> maxOps" "maxOps < countManualApplyOps (ab_entries batch)"
  shows "count_of (ga_applied (gather answers (splitManualApplyBatch batch maxOps))) [] = 0"
  unfolding gather_applied using split_chunks(4)[OF assms] by (intro sum.neutral) auto

text \<open>What was concluded, entry by entry.\<close>

lemma conclude_entries:
  assumes "distinct (map ae_id es)" "e \<in> set es"
  shows "ae_id e \<in> set (ao_applied (conclude es g)) \<longleftrightarrow>
      JStr (ae_id e) \<notin> dom (map_of (ga_failed g)) \<and> count_of (ga_applied g) (ae_id e) = length (ae_ops e) \<and> ae_ops e \<noteq> []"
    "JStr (ae_id e) \<in> dom (map_of (ao_failed (conclude es g))) \<longleftrightarrow> ae_id e \<notin> set (ao_applied (conclude es g))"
    "ao_status (conclude es g) = ''done'' \<longleftrightarrow> ao_failed (conclude es g) = []"
proof -
  let ?L = "map (\<lambda>e. (ae_id e, length (ae_ops e))) es"
  obtain ok failed where f: "fold (conclude_entry (ga_applied g)) ?L ([], ga_failed g) = (ok, failed)" by fastforce
  have c: "ao_applied (conclude es g) = ok" "ao_failed (conclude es g) = failed"
    "ao_status (conclude es g) = (if failed = [] then ''done'' else if ok \<noteq> [] then ''partial'' else ''error'')"
    by (simp_all add: conclude_def expected_distinct[OF assms(1)] f)
  have ids: "distinct (map fst ?L)" using assms(1) by (simp add: comp_def)
  have n: "(ae_id e, k) \<in> set ?L \<longleftrightarrow> k = length (ae_ops e)" for k
    using assms by (auto simp: distinct_map inj_on_def)
  note cf = conclude_fold[OF ids, of "ga_applied g" "[]" "ga_failed g", unfolded f fst_conv snd_conv]
  show applied: "ae_id e \<in> set (ao_applied (conclude es g)) \<longleftrightarrow>
      JStr (ae_id e) \<notin> dom (map_of (ga_failed g)) \<and> count_of (ga_applied g) (ae_id e) = length (ae_ops e) \<and> ae_ops e \<noteq> []"
    unfolding c using cf n by auto
  have "JStr (ae_id e) \<in> dom (map_of failed) \<longleftrightarrow> JStr (ae_id e) \<in> dom (map_of (ga_failed g)) \<or>
      \<not> (count_of (ga_applied g) (ae_id e) = length (ae_ops e) \<and> length (ae_ops e) > 0)"
    using conjunct2[OF cf] n by simp
  with applied show "JStr (ae_id e) \<in> dom (map_of (ao_failed (conclude es g))) \<longleftrightarrow> ae_id e \<notin> set (ao_applied (conclude es g))"
    unfolding c(2) by auto
  show "ao_status (conclude es g) = ''done'' \<longleftrightarrow> ao_failed (conclude es g) = []" by (simp add: c)
qed

text \<open>The entries of a chunk.\<close>

lemma chunk_entries:
  assumes "1 \<le> maxOps" "maxOps < countManualApplyOps (ab_entries batch)" "c \<in> set (splitManualApplyBatch batch maxOps)"
  shows "ac_entries c \<noteq> []" "ae_id ` set (ac_entries c) \<subseteq> ae_id ` set (ab_entries batch)"
    "set (ac_entryIds c) = ae_id ` set (ac_entries c) - {[]}"
proof -
  note split = split_chunks[OF assms(1,2)]
  show "ac_entries c \<noteq> []" using split(2) assms(3) by (auto simp: countManualApplyOps_def)
  have pos: "ops_of_id i (ac_entries c) > 0 \<longleftrightarrow> i \<in> ae_id ` set (ac_entries c)" for i using chunk_full[OF assms] by (rule ops_of_id_pos)
  show "set (ac_entryIds c) = ae_id ` set (ac_entries c) - {[]}" using split(4) assms(3) pos by auto
  have "fst x \<in> ae_id ` set (ab_entries batch)" if "x \<in> set (pairs (ac_entries c))" for x
  proof -
    have "x \<in> set (pairs (ab_entries batch))" using that assms(3) arg_cong[OF split(1), of set_mset] by auto
    then show ?thesis by (auto simp: pairs_def)
  qed
  moreover have "\<exists>x\<in>set (pairs (ac_entries c)). fst x = ae_id e" if "e \<in> set (ac_entries c)" for e
  proof -
    have "hd (ae_ops e) \<in> set (ae_ops e)" using that chunk_full[OF assms] by simp
    with that have "(ae_id e, hd (ae_ops e)) \<in> set (pairs (ac_entries c))" by (auto simp: pairs_def)
    then show ?thesis by force
  qed
  ultimately show "ae_id ` set (ac_entries c) \<subseteq> ae_id ` set (ab_entries batch)" by (metis image_subsetI)
qed

text \<open>When an entry is reported as applied.\<close>

lemma outcome_applied:
  assumes "1 \<le> maxOps" "maxOps < countManualApplyOps (ab_entries batch)" "distinct (map ae_id (ab_entries batch))" "e \<in> set (ab_entries batch)"
  defines "chunks \<equiv> splitManualApplyBatch batch maxOps"
  shows "ae_id e \<in> set (ao_applied (conclude (ab_entries batch) (gather answers chunks))) \<longleftrightarrow> ae_id e \<noteq> [] \<and> ae_ops e \<noteq> [] \<and>
    (\<forall>k<length chunks. (ae_id e \<in> set (ac_entryIds (chunks ! k)) \<longrightarrow> confirmed answers k (ae_id e)) \<and> JStr (ae_id e) \<notin> named_failed answers k)"
proof -
  have failed: "JStr (ae_id e) \<notin> dom (map_of (ga_failed (gather answers chunks))) \<longleftrightarrow>
      (\<forall>k<length chunks. (ae_id e \<in> set (ac_entryIds (chunks ! k)) \<longrightarrow> confirmed answers k (ae_id e)) \<and> JStr (ae_id e) \<notin> named_failed answers k)"
    unfolding gather_failed(2) by auto
  have none: "ae_id e = [] \<Longrightarrow> count_of (ga_applied (gather answers chunks)) (ae_id e) = 0" using empty_id_uncounted[OF assms(1,2)] by (simp add: chunks_def)
  show ?thesis
    unfolding conclude_entries(1)[OF assms(3,4)] failed using none all_confirmed_counts[OF assms(1-4), of answers] by (auto simp: chunks_def)
qed

section \<open>The outcome\<close>

text \<open>C24: a batch above the limit, whose entries have ids of their own, is sent in two chunks or more.
  The chunks hold each operation of the batch once, under the id of its entry, none is empty and none
  has more operations than the limit. Whatever the agent answers, an entry is reported as applied
  exactly when it has an id and operations, every chunk with some of them was sent and confirmed
  the entry, and no answer that was read named it as failed; it is among the failed otherwise. The
  status is done only when every entry was applied.\<close>

theorem chunked_apply_exact:
  assumes "1 \<le> maxOps" "maxOps < countManualApplyOps (ab_entries batch)" "distinct (map ae_id (ab_entries batch))"
  defines "chunks \<equiv> splitManualApplyBatch batch maxOps"
  shows "mset (concat (map (pairs \<circ> ac_entries) chunks)) = mset (pairs (ab_entries batch)) \<and>
    (\<forall>c\<in>set chunks. 1 \<le> countManualApplyOps (ac_entries c) \<and> countManualApplyOps (ac_entries c) \<le> maxOps) \<and>
    (\<exists>out. pushBatchInChunksAndWait answers maxOps False batch = Gathered_reply out \<and>
      (\<forall>e\<in>set (ab_entries batch).
        (ae_id e \<in> set (ao_applied out) \<longleftrightarrow>
           ae_id e \<noteq> [] \<and> ae_ops e \<noteq> [] \<and>
           (\<forall>k<length chunks. (ae_id e \<in> set (ac_entryIds (chunks ! k)) \<longrightarrow> confirmed answers k (ae_id e)) \<and>
              JStr (ae_id e) \<notin> named_failed answers k)) \<and>
        (JStr (ae_id e) \<in> dom (map_of (ao_failed out)) \<longleftrightarrow> ae_id e \<notin> set (ao_applied out)) \<and>
        (ao_status out = ''done'' \<longrightarrow> ae_id e \<in> set (ao_applied out))))"
proof (intro conjI)
  show "mset (concat (map (pairs \<circ> ac_entries) chunks)) = mset (pairs (ab_entries batch))"
    "\<forall>c\<in>set chunks. 1 \<le> countManualApplyOps (ac_entries c) \<and> countManualApplyOps (ac_entries c) \<le> maxOps"
    using split_chunks(1,2)[OF assms(1,2)] by (simp_all add: chunks_def)
  let ?g = "gather answers chunks"
  let ?out = "conclude (ab_entries batch) ?g"
  show "\<exists>out. pushBatchInChunksAndWait answers maxOps False batch = Gathered_reply out \<and>
      (\<forall>e\<in>set (ab_entries batch).
        (ae_id e \<in> set (ao_applied out) \<longleftrightarrow>
           ae_id e \<noteq> [] \<and> ae_ops e \<noteq> [] \<and>
           (\<forall>k<length chunks. (ae_id e \<in> set (ac_entryIds (chunks ! k)) \<longrightarrow> confirmed answers k (ae_id e)) \<and>
              JStr (ae_id e) \<notin> named_failed answers k)) \<and>
        (JStr (ae_id e) \<in> dom (map_of (ao_failed out)) \<longleftrightarrow> ae_id e \<notin> set (ao_applied out)) \<and>
        (ao_status out = ''done'' \<longrightarrow> ae_id e \<in> set (ao_applied out)))"
  proof (intro exI[of _ ?out] conjI ballI)
    show "pushBatchInChunksAndWait answers maxOps False batch = Gathered_reply ?out"
      using several_chunks[OF assms(1,2)] by (simp add: pushBatchInChunksAndWait_def chunks_def)
    fix e assume e: "e \<in> set (ab_entries batch)"
    let ?i = "ae_id e"
    note ends = conclude_entries[OF assms(3) e, of ?g]
    show "?i \<in> set (ao_applied ?out) \<longleftrightarrow> ?i \<noteq> [] \<and> ae_ops e \<noteq> [] \<and>
        (\<forall>k<length chunks. (?i \<in> set (ac_entryIds (chunks ! k)) \<longrightarrow> confirmed answers k ?i) \<and> JStr ?i \<notin> named_failed answers k)"
      using outcome_applied[OF assms(1-3) e] by (simp add: chunks_def)
    show "JStr ?i \<in> dom (map_of (ao_failed ?out)) \<longleftrightarrow> ?i \<notin> set (ao_applied ?out)" by (rule ends(2))
    then show "ao_status ?out = ''done'' \<longrightarrow> ?i \<in> set (ao_applied ?out)" using ends(3) by auto
  qed
qed

definition example_batch :: apply_batch where
  "example_batch = \<lparr>ab_entries = [\<lparr>ae_id = ''a'', ae_ops = [JStr ''1'', JStr ''2'', JStr ''3'']\<rparr>, \<lparr>ae_id = ''b'', ae_ops = [JStr ''4'']\<rparr>], ab_candidates = []\<rparr>"

definition example_answers :: "nat \<Rightarrow> string + js" where
  "example_answers k = (if k = 0 then Inr (Some (JObj [(''status'', JStr ''done''), (''appliedEntryIds'', JArr [JStr ''a''])])) else Inl ''chat_agent_timeout'')"

text \<open>The first of two chunks of three operations at most is confirmed, the second times out: its entry failed.\<close>

theorem chunked_apply_exact_witness:
  "(\<exists>out. pushBatchInChunksAndWait example_answers 3 False example_batch = Gathered_reply out \<and>
     (JStr ''b'' \<in> dom (map_of (ao_failed out)) \<longleftrightarrow> ''b'' \<notin> set (ao_applied out))) \<and>
   pushBatchInChunksAndWait example_answers 3 False example_batch =
     Gathered_reply \<lparr>ao_status = ''partial'', ao_applied = [''a''],
       ao_failed = [(JStr ''b'', \<lparr>fl_reason = Some (JStr ''chat_agent_timeout''), fl_candidates = []\<rparr>)], ao_files = [], ao_notes = []\<rparr>"
proof
  show "\<exists>out. pushBatchInChunksAndWait example_answers 3 False example_batch = Gathered_reply out \<and>
     (JStr ''b'' \<in> dom (map_of (ao_failed out)) \<longleftrightarrow> ''b'' \<notin> set (ao_applied out))"
    using chunked_apply_exact[of 3 example_batch example_answers]
    by (fastforce simp: example_batch_def countManualApplyOps_def)
  show "pushBatchInChunksAndWait example_answers 3 False example_batch =
     Gathered_reply \<lparr>ao_status = ''partial'', ao_applied = [''a''],
       ao_failed = [(JStr ''b'', \<lparr>fl_reason = Some (JStr ''chat_agent_timeout''), fl_candidates = []\<rparr>)], ao_files = [], ao_notes = []\<rparr>"
    by code_simp
qed

end
