(* ===== verification/Live_Server.thy ===== *)
theory Live_Server
  imports Live_Queue
begin

text \<open>
  The live server, \<open>live-server.mjs\<close>: the browser's events and stream, the agent's polls and replies,
  the source and annotation routes, and the restart, over the session store and the event queue. The token
  of a query or body is compared with the server's; the bodies are parsed by \<open>parse\<close> as in the
  store. The ids of a chat-routed Apply (\<open>manual-apply.mjs\<close>) are none here; the branches
  of a reply that belong to it come in \<open>Apply_Control\<close>. A handler that
  throws outside a \<open>try\<close> ends the process.
\<close>

section \<open>Paths\<close>

text \<open>\<open>path.resolve\<close> and \<open>path.relative\<close> for POSIX, by segments.\<close>

fun walk :: "string list \<Rightarrow> string list \<Rightarrow> string list" where
  "walk stack [] = stack"
| "walk stack (s # ss) =
     (if s = [] \<or> s = ''.'' then walk stack ss else if s = ''..'' then walk (butlast stack) ss else walk (stack @ [s]) ss)"

definition resolve_segments :: "string list \<Rightarrow> string \<Rightarrow> string list" where
  "resolve_segments cwd p = walk (if starts_with p ''/'' then [] else cwd) (split_on (CHR ''/'') p)"

definition path_text :: "string list \<Rightarrow> string" where
  "path_text segs = CHR ''/'' # join_with ''/'' segs"

fun relative_segments :: "string list \<Rightarrow> string list \<Rightarrow> string list" where
  "relative_segments (a # as) (b # bs) = (if a = b then relative_segments as bs else replicate (Suc (length as)) ''..'' @ b # bs)"
| "relative_segments as bs = replicate (length as) ''..'' @ bs"

section \<open>State\<close>

text \<open>The stream of every browser gets the broadcasts; the ones of the queue are in its log.\<close>

record live_server =
  sv_token :: string
  sv_queue :: live_queue
  sv_store :: live_store
  sv_clients :: "nat list"
  sv_exitTimer :: "int option"
  sv_sent :: "(string \<times> js) list list"
  sv_nextManualEditSeq :: int

text \<open>The answer to a request: a status with the error it names, or the end of the process.\<close>

datatype http = Http nat string | Crashed

definition set_queue :: "(live_queue \<Rightarrow> live_queue) \<Rightarrow> live_server \<Rightarrow> live_server" where
  "set_queue f srv = srv\<lparr>sv_queue := f (sv_queue srv)\<rparr>"

text \<open>An activity is numbered and broadcast; the details come last and win. Its time is left out.\<close>

definition recordManualEditActivity :: "string \<Rightarrow> (string \<times> js) list \<Rightarrow> live_server \<Rightarrow> live_server" where
  "recordManualEditActivity t details srv =
     srv\<lparr>sv_sent := sv_sent srv @ [fold (\<lambda>(k, v). AList.update k v) details [(''seq'', Some (jint (sv_nextManualEditSeq srv))), (''type'', Some (JStr t))]],
       sv_nextManualEditSeq := sv_nextManualEditSeq srv + 1\<rparr>"

definition or_null :: "js \<Rightarrow> js" where
  "or_null v = (if js_truthy v then v else Some JNull)"

definition token_matches :: "json \<Rightarrow> live_server \<Rightarrow> bool" where
  "token_matches msg srv = (fld (Some msg) ''token'' = Some (JStr (sv_token srv)))"

section \<open>Browser events\<close>

text \<open>What the store and the clock give: how numbers print, the parser and printer, the time and its text.\<close>

record live_env =
  ev_num :: "rat \<Rightarrow> string"
  ev_parse :: "string \<Rightarrow> json option"
  ev_render :: "json \<Rightarrow> string"
  ev_now :: int
  ev_iso :: string

definition store_event :: "live_env \<Rightarrow> json \<Rightarrow> live_store \<Rightarrow> (session_snapshot \<times> live_store) result" where
  "store_event env msg st = appendEvent (ev_num env) (ev_parse env) (ev_render env) (ev_iso env) None (Some msg) st"

definition post_accepted :: "live_env \<Rightarrow> json \<Rightarrow> live_server \<Rightarrow> http \<times> live_server" where
  "post_accepted env msg srv =
     (let stored = (if js_truthy (fld (Some msg) ''id'') then map_sum id snd (store_event env msg (sv_store srv)) else Inr (sv_store srv)) in
      case stored of
        Inl err \<Rightarrow> (Http 500 ''session_store_append_failed'', srv)
      | Inr st \<Rightarrow>
          let srv1 = srv\<lparr>sv_store := st\<rparr> in
          (Http 200 [], if fld (Some msg) ''type'' \<noteq> Some (JStr ''checkpoint'') then set_queue (enqueueEvent (ev_now env) msg) srv1 else srv1))"

definition post_events :: "live_env \<Rightarrow> string \<Rightarrow> live_server \<Rightarrow> http \<times> live_server" where
  "post_events env body srv = (case ev_parse env body of
       None \<Rightarrow> (Http 400 ''Invalid JSON'', srv)
     | Some msg \<Rightarrow>
         if msg = JNull then (Crashed, srv)
         else if \<not> token_matches msg srv then (Http 401 ''Unauthorized'', srv)
         else if fld (Some msg) ''type'' = Some (JStr ''manual_edits'') then (Http 400 ''manual_edits must POST to /manual-edit-stash, not /events'', srv)
         else if fld (Some msg) ''type'' = Some (JStr ''manual_edit_apply'')
           then (Http 400 ''manual_edit_apply is disabled; use /manual-edit-stash then /manual-edit-commit'', srv)
         else (case validateEvent (ev_num env) (Some msg) of
             Inl err \<Rightarrow> (Crashed, srv)
           | Inr (Some complaint) \<Rightarrow> (Http 400 complaint, srv)
           | Inr None \<Rightarrow> post_accepted env msg srv))"

section \<open>Agent replies\<close>

text \<open>
  Where a reply's file is a manifest of a component preview inside the project, the source it names is
  recorded. \<open>manifest\<close> is the parsed file at a path, \<open>None\<close> when it cannot be read.
\<close>

record file_meta =
  fm_file :: js
  fm_sourceFile :: js
  fm_previewFile :: js
  fm_previewMode :: js

definition base_meta :: "js \<Rightarrow> file_meta" where
  "base_meta file = \<lparr>fm_file = file, fm_sourceFile = None, fm_previewFile = None, fm_previewMode = None\<rparr>"

definition sessionFileMetadataFromPollReply ::
    "(rat \<Rightarrow> string) \<Rightarrow> string list \<Rightarrow> (string \<Rightarrow> json option) \<Rightarrow> js \<Rightarrow> file_meta" where
  "sessionFileMetadataFromPollReply num cwd manifest file = (case file of
       Some (JStr f) \<Rightarrow>
         let full = resolve_segments cwd f; rel = join_with ''/'' (relative_segments cwd full) in
         if f = [] \<or> \<not> ends_with f ''/manifest.json'' \<and> f \<noteq> ''manifest.json'' then base_meta file
         else if \<not> includes_str f ''node_modules/.impeccable-live/'' \<and> \<not> includes_str f ''src/lib/impeccable/'' then base_meta file
         else if rel = [] \<or> starts_with rel ''..'' \<or> starts_with rel ''/'' then base_meta file
         else (case manifest (path_text full) of
             None \<Rightarrow> base_meta file
           | Some m \<Rightarrow>
               if fld (Some m) ''previewMode'' \<noteq> Some (JStr ''svelte-component'') \<or> \<not> js_truthy (fld (Some m) ''sourceFile'') then base_meta file
               else let s = Some (JStr (js_to_string num (fld (Some m) ''sourceFile''))) in
                 \<lparr>fm_file = s, fm_sourceFile = s, fm_previewFile = file, fm_previewMode = Some (JStr ''svelte-component'')\<rparr>)
     | _ \<Rightarrow> base_meta file)"

definition reply_type :: "js \<Rightarrow> string" where
  "reply_type t =
     (if t = Some (JStr ''steer_done'') then ''steer_done''
      else if t = Some (JStr ''discard'') \<or> t = Some (JStr ''discarded'') then ''discarded''
      else if t = Some (JStr ''complete'') then ''complete''
      else if t = Some (JStr ''error'') then ''agent_error''
      else ''agent_done'')"

text \<open>An object with some of its fields \<open>undefined\<close>.\<close>

definition with_fields :: "(string \<times> js) list \<Rightarrow> json" where
  "with_fields kvs = JObj (List.map_filter (\<lambda>(k, v). map_option (Pair k) v) kvs)"

definition reply_entry :: "json \<Rightarrow> file_meta \<Rightarrow> json option \<Rightarrow> json" where
  "reply_entry msg meta acknowledged =
     with_fields [(''type'', Some (JStr (reply_type (fld (Some msg) ''type'')))), (''id'', fld (Some msg) ''id''), (''file'', fm_file meta),
       (''sourceFile'', fm_sourceFile meta), (''previewFile'', fm_previewFile meta), (''previewMode'', fm_previewMode meta),
       (''message'', fld (Some msg) ''message''), (''sourceEventType'', fld acknowledged ''type''),
       (''carbonize'', Some (JBool (fld (fld (Some msg) ''data'') ''carbonize'' = Some (JBool True))))]"

definition empty_steer_done :: "json \<Rightarrow> live_queue \<Rightarrow> bool" where
  "empty_steer_done msg q =
     (fld (findPendingEventById (fld (Some msg) ''id'') q) ''type'' = Some (JStr ''steer'') \<and> fld (Some msg) ''type'' = Some (JStr ''steer_done'') \<and>
      \<not> js_truthy (fld (Some msg) ''file'') \<and> \<not> has_text (fld (Some msg) ''message''))"

text \<open>
  The session of a reply that no queued event awaits. Reading it refreshes the cache, under the id as it
  came: an id that is no string finds the file of its text, and its cache entry is never used.
\<close>

definition existing_session :: "live_env \<Rightarrow> js \<Rightarrow> live_store \<Rightarrow> session_snapshot option \<times> live_store" where
  "existing_session env i st =
     (case getSnapshot (ev_num env) (ev_parse env) (ev_iso env) (js_to_string (ev_num env) i) True st of
        Inr (Some x, st') \<Rightarrow>
          (if js_truthy (Some (sn_updatedAt x)) then Some x else None, if js_is_string i then st' else st\<lparr>st_snapshots := st_snapshots st'\<rparr>)
      | _ \<Rightarrow> (None, st))"

definition handlePollPost :: "live_env \<Rightarrow> string list \<Rightarrow> (string \<Rightarrow> json option) \<Rightarrow> string \<Rightarrow> live_server \<Rightarrow> http \<times> live_server" where
  "handlePollPost env cwd manifest body srv = (case ev_parse env body of
       None \<Rightarrow> (Http 400 ''Invalid JSON'', srv)
     | Some msg \<Rightarrow>
         if msg = JNull then (Crashed, srv)
         else if \<not> token_matches msg srv then (Http 401 ''Unauthorized'', srv)
         else if empty_steer_done msg (sv_queue srv) then (Http 400 ''steer_done_requires_file_or_message'', srv)
         else
           let i = fld (Some msg) ''id'';
               (acknowledged, q1) = acknowledgePendingEvent (ev_now env) i (sv_queue srv);
               (existing, st1) = (if acknowledged = None \<and> js_truthy i then existing_session env i (sv_store srv) else (None, sv_store srv));
               srv1 = srv\<lparr>sv_queue := q1, sv_store := st1\<rparr>
           in if acknowledged = None \<and> existing = None
              then (if js_truthy i then Http 404 ''unknown_poll_reply_id'' else Http 400 ''missing_poll_reply_id'',
                recordManualEditActivity ''manual_edit_poll_reply_unknown'' [(''id'', or_null i), (''type'', or_null (fld (Some msg) ''type''))] srv1)
              else
                let meta = sessionFileMetadataFromPollReply (ev_num env) cwd manifest (fld (Some msg) ''file'');
                    skip = (case existing of Some x \<Rightarrow> is_terminal (sn_phase x) | None \<Rightarrow> False);
                    st2 = (if js_truthy i \<and> \<not> skip
                      then (case store_event env (reply_entry msg meta acknowledged) st1 of Inr (s, st') \<Rightarrow> st' | Inl err \<Rightarrow> st1) else st1);
                    t = (if js_truthy (fld (Some msg) ''type'') then fld (Some msg) ''type'' else Some (JStr ''done''))
                in (Http 200 [],
                    srv1\<lparr>sv_store := st2, sv_queue := flushPendingPolls (ev_now env) q1,
                      sv_sent := sv_sent srv @ [[(''type'', t), (''id'', i), (''message'', fld (Some msg) ''message''), (''file'', fld (Some msg) ''file''),
                        (''sourceFile'', fm_sourceFile meta), (''previewFile'', fm_previewFile meta), (''previewMode'', fm_previewMode meta),
                        (''data'', fld (Some msg) ''data'')]]\<rparr>))"

section \<open>The browser's stream\<close>

text \<open>
  \<open>exitTimer\<close> is armed when the last browser leaves; a browser that comes back disarms it and takes back
  an exit that is queued already. \<open>None\<close> is the answer 401; the stream opens with the sessions.
\<close>

definition summarizeActiveSessionForClient :: "session_snapshot \<Rightarrow> (string \<times> js) list" where
  "summarizeActiveSessionForClient s =
     [(''id'', Some (JStr (sn_id s))), (''phase'', Some (sn_phase s)), (''pageUrl'', Some (sn_pageUrl s)), (''sourceFile'', Some (sn_sourceFile s)),
      (''previewFile'', Some (sn_previewFile s)), (''previewMode'', Some (sn_previewMode s)),
      (''expectedVariants'', Some (or_keep (Some (sn_expectedVariants s)) (jint 0))), (''arrivedVariants'', Some (or_keep (Some (sn_arrivedVariants s)) (jint 0))),
      (''visibleVariant'', sn_visibleVariant s), (''checkpointRevision'', Some (or_keep (Some (sn_checkpointRevision s)) (jint 0))),
      (''paramValues'', Some (JObj (sn_paramValues s)))]"

definition EXIT_DELAY_MS :: int where "EXIT_DELAY_MS = 8000"

definition stream_open :: "live_env \<Rightarrow> string list \<Rightarrow> nat \<Rightarrow> js \<Rightarrow> live_server \<Rightarrow> (bool \<times> (string \<times> js) list list) option \<times> http \<times> live_server" where
  "stream_open env files c token srv =
     (if token \<noteq> Some (JStr (sv_token srv)) then (None, Http 401 ''Unauthorized'', srv)
      else let srv1 = set_queue (cancelQueuedAnonymousExitEvents (ev_now env)) (srv\<lparr>sv_exitTimer := None\<rparr>) in
        case listActiveSessions (ev_num env) (ev_parse env) (ev_iso env) files (sv_store srv1) of
          Inl err \<Rightarrow> (None, Crashed, srv1)
        | Inr (ss, st) \<Rightarrow>
            (Some (agentPollingConnected (ev_now env) (sv_queue srv1), map summarizeActiveSessionForClient ss), Http 200 [],
             srv1\<lparr>sv_store := st, sv_clients := sv_clients srv @ [c]\<rparr>))"

definition stream_closed :: "int \<Rightarrow> nat \<Rightarrow> live_server \<Rightarrow> live_server" where
  "stream_closed now c srv =
     (let cs = filter (\<lambda>x. x \<noteq> c) (sv_clients srv) in
      srv\<lparr>sv_clients := cs, sv_exitTimer := (if cs = [] then Some (now + EXIT_DELAY_MS) else sv_exitTimer srv)\<rparr>)"

definition exit_event :: json where
  "exit_event = JObj [(''type'', JStr ''exit'')]"

definition exit_timer_fires :: "int \<Rightarrow> live_server \<Rightarrow> live_server" where
  "exit_timer_fires now srv =
     (case sv_exitTimer srv of
        Some d \<Rightarrow> if d \<le> now then
            (let srv1 = srv\<lparr>sv_exitTimer := None\<rparr> in if sv_clients srv1 = [] then set_queue (enqueueEvent now exit_event) srv1 else srv1)
          else srv
      | None \<Rightarrow> srv)"

section \<open>Starting and stopping\<close>

fun enqueue_pending :: "int \<Rightarrow> session_snapshot list \<Rightarrow> live_queue \<Rightarrow> live_queue" where
  "enqueue_pending now [] q = q"
| "enqueue_pending now (s # ss) q =
     enqueue_pending now ss (if js_truthy (Some (sn_pendingEvent s)) then enqueueEvent now (sn_pendingEvent s) q else q)"

definition restorePendingEventsFromStore :: "live_env \<Rightarrow> string list \<Rightarrow> live_server \<Rightarrow> live_server result" where
  "restorePendingEventsFromStore env files srv =
     rbind (listActiveSessions (ev_num env) (ev_parse env) (ev_iso env) files (sv_store srv)) (\<lambda>(ss, st).
       Inr (srv\<lparr>sv_store := st, sv_queue := enqueue_pending (ev_now env) ss (sv_queue srv)\<rparr>))"

text \<open>A new process over the files that the store left.\<close>

definition start_server :: "live_env \<Rightarrow> string list \<Rightarrow> string \<Rightarrow> live_store \<Rightarrow> live_server result" where
  "start_server env files token st =
     restorePendingEventsFromStore env files
       \<lparr>sv_token = token, sv_queue = empty_queue, sv_store = st\<lparr>st_cache := Map.empty\<rparr>, sv_clients = [], sv_exitTimer = None, sv_sent = [], sv_nextManualEditSeq = 1\<rparr>"

text \<open>The parked polls are told to exit before the process ends.\<close>

definition shutdown :: "int \<Rightarrow> live_server \<Rightarrow> live_server" where
  "shutdown now srv =
     set_queue (\<lambda>q. (fold (\<lambda>p. resolve_poll now (pk_id p) exit_event) (pendingPolls q) (q\<lparr>leaseTimer := None\<rparr>))\<lparr>pendingPolls := []\<rparr>) (srv\<lparr>sv_clients := []\<rparr>)"

definition stop_route :: "int \<Rightarrow> js \<Rightarrow> live_server \<Rightarrow> http \<times> live_server" where
  "stop_route now token srv = (if token \<noteq> Some (JStr (sv_token srv)) then (Http 401 ''Unauthorized'', srv) else (Http 200 ''stopping'', shutdown now srv))"

section \<open>Files\<close>

text \<open>\<open>/source\<close>: the text of a file under the project. \<open>read\<close> is the file system.\<close>

definition source_route :: "string list \<Rightarrow> (string \<Rightarrow> string option) \<Rightarrow> string \<Rightarrow> string option \<Rightarrow> string option \<Rightarrow> nat \<times> string" where
  "source_route cwd read stateToken token filePath =
     (if token \<noteq> Some stateToken then (401, ''Unauthorized'')
      else case filePath of
          None \<Rightarrow> (400, ''Bad path'')
        | Some p \<Rightarrow>
            if p = [] \<or> includes_str p ''..'' then (400, ''Bad path'')
            else let absPath = path_text (resolve_segments cwd p) in
              if \<not> starts_with absPath (path_text cwd) then (403, ''Forbidden'')
              else (case read absPath of Some content \<Rightarrow> (200, content) | None \<Rightarrow> (404, ''File not found'')))"

definition MAX_ANNOTATION_BYTES :: nat where "MAX_ANNOTATION_BYTES = 10485760"

definition annotation_id :: "string \<Rightarrow> bool" where
  "annotation_id i \<longleftrightarrow> 1 \<le> length i \<and> length i \<le> 64 \<and> list_all is_session_char i"

fun receive_chunks :: "nat \<Rightarrow> string list \<Rightarrow> string list \<Rightarrow> string list option" where
  "receive_chunks sofar kept [] = Some kept"
| "receive_chunks sofar kept (c # cs) =
     (if sofar + length c > MAX_ANNOTATION_BYTES then None else receive_chunks (sofar + length c) (kept @ [c]) cs)"

text \<open>\<open>/annotation\<close>: what is written where, or the status of the refusal. \<open>writable\<close> is the file system.\<close>

definition annotation_route ::
    "string option \<Rightarrow> (string \<Rightarrow> bool) \<Rightarrow> string \<Rightarrow> string option \<Rightarrow> string option \<Rightarrow> string option \<Rightarrow> string list \<Rightarrow> nat + (string \<times> string)" where
  "annotation_route sessionDir writable stateToken token eventId contentType chunks =
     (if token \<noteq> Some stateToken then Inl 401
      else case eventId of
          None \<Rightarrow> Inl 400
        | Some i \<Rightarrow>
            if \<not> annotation_id i then Inl 400
            else if (case contentType of Some t \<Rightarrow> to_lower t | None \<Rightarrow> []) \<noteq> ''image/png'' then Inl 415
            else (case sessionDir of
                None \<Rightarrow> Inl 500
              | Some dir \<Rightarrow> (case receive_chunks 0 [] chunks of
                    None \<Rightarrow> Inl 413
                  | Some kept \<Rightarrow> let absPath = dir @ ''/'' @ i @ ''.png'' in
                      if writable absPath then Inr (absPath, concat kept) else Inl 500)))"

section \<open>Runs\<close>

definition env_of :: "(rat \<Rightarrow> string) \<Rightarrow> (string \<Rightarrow> json option) \<Rightarrow> (json \<Rightarrow> string) \<Rightarrow> live_env \<Rightarrow> bool" where
  "env_of num parse render env \<longleftrightarrow> ev_num env = num \<and> ev_parse env = parse \<and> ev_render env = render \<and> ev_iso env \<noteq> []"

text \<open>The entry of a message is one that printing and parsing carry over.\<close>

definition prints_event :: "live_env \<Rightarrow> json \<Rightarrow> live_store \<Rightarrow> bool" where
  "prints_event env msg st = (case normalizeEvent (Some msg) None of
       Inr (i, t, ev) \<Rightarrow> prints (ev_parse env) (ev_render env) (written_entry (ev_num env) (ev_parse env) (ev_iso env) i t ev st)
     | Inl err \<Rightarrow> True)"

text \<open>So is the entry of a reply, with what it is written over.\<close>

definition prints_reply :: "live_env \<Rightarrow> string list \<Rightarrow> (string \<Rightarrow> json option) \<Rightarrow> json \<Rightarrow> live_server \<Rightarrow> bool" where
  "prints_reply env cwd manifest msg srv =
     (let i = fld (Some msg) ''id'';
          acknowledged = fst (acknowledgePendingEvent (ev_now env) i (sv_queue srv));
          st1 = (if acknowledged = None \<and> js_truthy i then snd (existing_session env i (sv_store srv)) else sv_store srv)
      in prints_event env (reply_entry msg (sessionFileMetadataFromPollReply (ev_num env) cwd manifest (fld (Some msg) ''file'')) acknowledged) st1)"

text \<open>
  The routes of the manual edits (theory \<open>Apply_Control\<close>) put their events into the queue and take them out again. A
  journal entry that is written has to print and parse, which \<open>JSON.stringify\<close> and \<open>JSON.parse\<close> do for what was
  parsed from a body unless a number in it is beyond the range of a double. A request that leaves the store as it is may
  say anything.
\<close>

inductive server_run :: "(rat \<Rightarrow> string) \<Rightarrow> (string \<Rightarrow> json option) \<Rightarrow> (json \<Rightarrow> string) \<Rightarrow> live_server \<Rightarrow> bool" for num parse render where
  started: "env_of num parse render env \<Longrightarrow> (\<And>i t. readable_journal st i = Some t \<Longrightarrow> good_journal parse t) \<Longrightarrow>
    start_server env files token st = Inr srv \<Longrightarrow> server_run num parse render srv"
| posted: "server_run num parse render srv \<Longrightarrow> env_of num parse render env \<Longrightarrow>
    (\<And>msg. parse body = Some msg \<Longrightarrow> sv_store srv' \<noteq> sv_store srv \<Longrightarrow> prints_event env msg (sv_store srv)) \<Longrightarrow>
    post_events env body srv = (Http n err, srv') \<Longrightarrow> server_run num parse render srv'"
| replied: "server_run num parse render srv \<Longrightarrow> env_of num parse render env \<Longrightarrow>
    (\<And>msg. parse body = Some msg \<Longrightarrow> sv_store srv' \<noteq> sv_store srv \<Longrightarrow> prints_reply env cwd manifest msg srv) \<Longrightarrow>
    handlePollPost env cwd manifest body srv = (Http n err, srv') \<Longrightarrow> server_run num parse render srv'"
| polled: "server_run num parse render srv \<Longrightarrow> server_run num parse render (set_queue (queue_step (now, Q_get (sv_token srv) tok tp lp)) srv)"
| poll_over: "server_run num parse render srv \<Longrightarrow> op \<in> {Q_timeout p, Q_close p, Q_lease_timer} \<Longrightarrow>
    server_run num parse render (set_queue (queue_step (now, op)) srv)"
| applying: "server_run num parse render srv \<Longrightarrow> fld (Some ev) ''type'' = Some (JStr ''manual_edit_apply'') \<Longrightarrow>
    op \<in> {Q_enqueue ev, Q_reply i, Q_apply_timeout i, Q_cancel asked promises} \<Longrightarrow>
    server_run num parse render (set_queue (queue_step (now, op)) srv)"
| streaming: "server_run num parse render srv \<Longrightarrow> env_of num parse render env \<Longrightarrow>
    stream_open env files c token srv = (hello, Http n err, srv') \<Longrightarrow> server_run num parse render srv'"
| stream_over: "server_run num parse render srv \<Longrightarrow> server_run num parse render (stream_closed now c srv)"
| exiting: "server_run num parse render srv \<Longrightarrow> server_run num parse render (exit_timer_fires now srv)"

text \<open>What the handlers do to the two parts: the queue is run by its operations, the store by appends and reads.\<close>

definition queue_runs :: "live_queue \<Rightarrow> live_queue \<Rightarrow> bool" where
  "queue_runs q q' \<longleftrightarrow> (\<exists>ops. q' = queue_exec ops q)"

lemma queue_runs_intros:
  "queue_runs q q" "queue_runs q q' \<Longrightarrow> queue_runs q (enqueueEvent now ev q')" "queue_runs q q' \<Longrightarrow> queue_runs q (cancelQueuedAnonymousExitEvents now q')"
  "queue_runs q q' \<Longrightarrow> queue_runs q (queue_step (now, op) q')" "queue_runs q q' \<Longrightarrow> queue_runs q (flushPendingPolls now (snd (acknowledgePendingEvent now i q')))"
proof -
  have step: "queue_runs q (queue_step x q')" if "queue_runs q q'" for x q'
  proof -
    from that obtain ops where "q' = queue_exec ops q" by (auto simp: queue_runs_def)
    then have "queue_step x q' = queue_exec (ops @ [x]) q" by (simp add: queue_exec_def)
    then show ?thesis unfolding queue_runs_def by blast
  qed
  show "queue_runs q q" unfolding queue_runs_def by (rule exI[of _ "[]"]) (simp add: queue_exec_def)
  assume "queue_runs q q'"
  from step[OF this] show "queue_runs q (queue_step (now, op) q')" .
  from step[OF \<open>queue_runs q q'\<close>, of "(now, Q_enqueue ev)"] show "queue_runs q (enqueueEvent now ev q')" by simp
  from step[OF \<open>queue_runs q q'\<close>, of "(now, Q_connect)"] show "queue_runs q (cancelQueuedAnonymousExitEvents now q')" by simp
  from step[OF \<open>queue_runs q q'\<close>, of "(now, Q_reply i)"] show "queue_runs q (flushPendingPolls now (snd (acknowledgePendingEvent now i q')))"
    by (simp add: reply_queue_def)
qed

declare queue_runs_intros(1) [simp]

lemma queue_runs_trans: "queue_runs q q1 \<Longrightarrow> queue_runs q1 q2 \<Longrightarrow> queue_runs q q2"
  unfolding queue_runs_def queue_exec_def by (metis fold_append comp_apply)

lemma readable_frames [simp]:
  "readable_journal (st\<lparr>st_cache := c\<rparr>) = readable_journal st" "readable_journal (st\<lparr>st_snapshots := f\<rparr>) = readable_journal st"
  by (simp_all add: readable_journal_def fun_eq_iff split: option.split)

lemma enqueue_pending_runs: "queue_runs q q' \<Longrightarrow> queue_runs q (enqueue_pending now ss q')"
  by (induction ss arbitrary: q') (auto intro: queue_runs_intros)

lemma snapshots_of_run:
  "store_run num parse render st \<Longrightarrow> snapshots_of num parse now ids st = Inr (ss, st') \<Longrightarrow> store_run num parse render st'"
proof (induction ids arbitrary: st ss)
  case (Cons i ids)
  from Cons.prems(2) obtain so st1 ss1 where
    "getSnapshot num parse now i False st = Inr (so, st1)" "snapshots_of num parse now ids st1 = Inr (ss1, st')"
    by (auto simp: rbind_def split: sum.splits prod.splits)
  then show ?case using Cons.IH store_run.read[OF Cons.prems(1)] by blast
qed simp

lemma store_event_run:
  assumes "store_run num parse render st" "env_of num parse render env" "prints_event env msg st" "store_event env msg st = Inr (s, st')"
  shows "store_run num parse render st'"
proof -
  from assms(4) obtain i t ev where n: "normalizeEvent (Some msg) None = Inr (i, t, ev)"
    by (auto simp: store_event_def appendEvent_def rbind_def split: sum.splits)
  then show ?thesis
    using store_run.appended[OF assms(1) _ n, of "ev_iso env"] assms(2-4) by (auto simp: env_of_def store_event_def prints_event_def)
qed

lemma stored_Inr: "map_sum id snd r = Inr x \<longleftrightarrow> (\<exists>s. r = Inr (s, x))"
  by (cases r) auto

lemma post_parts:
  assumes "post_events env body srv = (Http n err, srv')" "env_of num parse render env" "store_run num parse render (sv_store srv)"
    and "\<And>msg. parse body = Some msg \<Longrightarrow> sv_store srv' \<noteq> sv_store srv \<Longrightarrow> prints_event env msg (sv_store srv)"
  shows "store_run num parse render (sv_store srv') \<and> queue_runs (sv_queue srv) (sv_queue srv')"
proof -
  have acc: "store_run num parse render (sv_store srv') \<and> queue_runs (sv_queue srv) (sv_queue srv')"
    if "parse body = Some msg" "post_accepted env msg srv = (Http n err, srv')" for msg
  proof -
    have "store_event env msg (sv_store srv) = Inr (s, sv_store srv') \<Longrightarrow> store_run num parse render (sv_store srv')" for s
      using store_event_run[OF assms(3,2)] assms(3,4) that(1) by metis
    with that(2) assms(3) show ?thesis
      by (auto simp: post_accepted_def Let_def set_queue_def stored_Inr intro!: queue_runs_intros split: sum.splits if_splits prod.splits)
  qed
  show ?thesis
    using assms(1,2,3) acc unfolding post_events_def
    by (auto simp: env_of_def split: option.splits if_splits sum.splits)
qed

lemma existing_run:
  assumes "store_run num parse render st" "env_of num parse render env" "existing_session env i st = (x, st')"
  shows "store_run num parse render st'"
  using assms store_run.read[OF assms(1)] store_run.peeked[OF assms(1)]
  by (auto simp: existing_session_def env_of_def split: sum.splits prod.splits option.splits if_splits)

lemma reply_parts:
  assumes "handlePollPost env cwd manifest body srv = (Http n err, srv')" "env_of num parse render env" "store_run num parse render (sv_store srv)"
    and "\<And>msg. parse body = Some msg \<Longrightarrow> sv_store srv' \<noteq> sv_store srv \<Longrightarrow> prints_reply env cwd manifest msg srv"
  shows "store_run num parse render (sv_store srv') \<and> queue_runs (sv_queue srv) (sv_queue srv')"
proof (cases "parse body")
  case None
  with assms show ?thesis by (auto simp: handlePollPost_def env_of_def intro: queue_runs_intros)
next
  case (Some msg)
  let ?i = "fld (Some msg) ''id''"
  obtain ack q1 where ack: "acknowledgePendingEvent (ev_now env) ?i (sv_queue srv) = (ack, q1)" by fastforce
  obtain ex st1 where ex: "(if ack = None \<and> js_truthy ?i then existing_session env ?i (sv_store srv) else (None, sv_store srv)) = (ex, st1)" by fastforce
  have st1: "store_run num parse render st1"
    using ex assms(3) existing_run[OF assms(3,2)] by (auto split: if_splits)
  have q1: "ack = None \<Longrightarrow> q1 = sv_queue srv" using ack by (auto simp: acknowledgePendingEvent_def split: if_splits option.splits)
  have flush: "queue_runs (sv_queue srv) (flushPendingPolls (ev_now env) q1)"
    using queue_runs_intros(5)[OF queue_runs_intros(1), of "sv_queue srv" "ev_now env" ?i] ack by simp
  define meta where "meta = sessionFileMetadataFromPollReply (ev_num env) cwd manifest (fld (Some msg) ''file'')"
  have "st1 = (if ack = None \<and> js_truthy ?i then snd (existing_session env ?i (sv_store srv)) else sv_store srv)"
    using ex by (auto split: if_splits)
  then have "sv_store srv' \<noteq> sv_store srv \<Longrightarrow> prints_event env (reply_entry msg meta ack) st1"
    using assms(4)[OF Some] by (simp add: prints_reply_def Let_def ack meta_def)
  then have "store_event env (reply_entry msg meta ack) st1 = Inr (s, sv_store srv') \<Longrightarrow> store_run num parse render (sv_store srv')" for s
    using store_event_run[OF st1 assms(2)] assms(3) by metis
  then show ?thesis
    using assms(1-3) Some st1 flush q1 unfolding handlePollPost_def env_of_def
    by (auto simp: ack ex Let_def meta_def[symmetric] queue_runs_intros(1) recordManualEditActivity_def split: if_splits sum.splits option.splits)
qed

lemma server_run_parts: "server_run num parse render srv \<Longrightarrow> store_run num parse render (sv_store srv) \<and> queue_runs empty_queue (sv_queue srv)"
proof (induction rule: server_run.induct)
  case (started env st files token srv)
  have "store_run num parse render (st\<lparr>st_cache := Map.empty\<rparr>)"
    using started(2) by (intro store_run.opened) simp_all
  with started(1,3) show ?case
    by (auto simp: start_server_def restorePendingEventsFromStore_def rbind_def env_of_def listActiveSessions_def enqueue_pending_runs
        intro: snapshots_of_run split: sum.splits prod.splits)
next
  case (posted srv env body n err srv')
  with post_parts[OF posted(4,2)] show ?case by (blast intro: queue_runs_trans)
next
  case (replied srv env body cwd manifest n err srv')
  with reply_parts[OF replied(4,2)] show ?case by (blast intro: queue_runs_trans)
next
  case (streaming srv env files c token hello n err srv')
  then show ?case
    by (auto simp: stream_open_def set_queue_def env_of_def listActiveSessions_def Let_def
        intro: snapshots_of_run queue_runs_intros split: if_splits sum.splits prod.splits)
qed (auto simp: set_queue_def stream_closed_def exit_timer_fires_def Let_def simp del: queue_step.simps intro: queue_runs_intros split: option.split)

section \<open>Restarts\<close>

text \<open>Before the first poll, an arriving event is just put at the end.\<close>

lemma quiet_enqueue:
  assumes "pendingPolls q = []"
  shows "pendingPolls (enqueueEvent now ev q) = []"
    "pendingEvents (enqueueEvent now ev q) = pendingEvents q @
      (if \<not> js_truthy (Some ev) \<or> already_queued ev q then [] else [\<lparr>qe_event = ev, qe_leaseUntil = Some 0, qe_seq = nextEventSeq q\<rparr>])"
  using assms by (simp_all add: enqueueEvent_def flushPendingPolls_def flush_loop.simps pushed_def Let_def)

lemma enqueue_pending_keeps: "pendingPolls q = [] \<Longrightarrow> e \<in> set (pendingEvents q) \<Longrightarrow> e \<in> set (pendingEvents (enqueue_pending now ss q))"
  by (induction ss arbitrary: q) (auto simp: quiet_enqueue)

lemma enqueue_pending_adds:
  assumes "pendingPolls q = []" "s \<in> set ss" "request i t (sn_pendingEvent s)" "js_truthy (Some (sn_pendingEvent s))"
    and "\<And>s'. s' \<in> set ss \<Longrightarrow> fld (Some (sn_pendingEvent s')) ''id'' = Some (JStr i) \<Longrightarrow> sn_pendingEvent s' = sn_pendingEvent s"
    and "\<And>e. e \<in> set (pendingEvents q) \<Longrightarrow> qe_id e = Some (JStr i) \<Longrightarrow> qe_event e = sn_pendingEvent s"
  shows "\<exists>e\<in>set (pendingEvents (enqueue_pending now ss q)). qe_event e = sn_pendingEvent s"
  using assms
proof (induction ss arbitrary: q)
  case (Cons x ss)
  let ?q = "if js_truthy (Some (sn_pendingEvent x)) then enqueueEvent now (sn_pendingEvent x) q else q"
  have polls: "pendingPolls ?q = []" using Cons.prems(1) by (simp add: quiet_enqueue)
  have ids: "qe_event e = sn_pendingEvent s" if "e \<in> set (pendingEvents ?q)" "qe_id e = Some (JStr i)" for e
    using that Cons.prems(1,5,6) by (auto simp: quiet_enqueue split: if_splits)
  show ?case
  proof (cases "s = x")
    case True
    have "\<exists>e\<in>set (pendingEvents ?q). qe_event e = sn_pendingEvent s"
    proof (cases "already_queued (sn_pendingEvent s) q")
      case True
      then obtain e where e: "e \<in> set (pendingEvents q)" "qe_id e = Some (JStr i)"
        using Cons.prems(3) by (auto simp: already_queued_def list_ex_iff request_def strict_eq_def)
      then have "qe_event e = sn_pendingEvent s" by (rule Cons.prems(6))
      with e Cons.prems(1) show ?thesis by (auto simp: quiet_enqueue)
    qed (use True Cons.prems(1,4) in \<open>auto simp: quiet_enqueue\<close>)
    then show ?thesis using enqueue_pending_keeps[OF polls, of _ now ss] by auto
  next
    case False
    with Cons.prems(2) have mem: "s \<in> set ss" by simp
    have others: "sn_pendingEvent s' = sn_pendingEvent s" if "s' \<in> set ss" "fld (Some (sn_pendingEvent s')) ''id'' = Some (JStr i)" for s'
      using Cons.prems(5)[of s'] that by simp
    show ?thesis
      unfolding enqueue_pending.simps by (rule Cons.IH[OF polls mem Cons.prems(3,4)]) (erule (1) others, erule (1) ids)
  qed
qed simp

lemma snapshots_of_mem:
  assumes "snapshots_of num parse now ids st = Inr (ss, st')"
  shows "s \<in> set ss \<Longrightarrow> \<exists>j\<in>set ids. s = rb_snapshot (rebuildSnapshotFromJournal num parse now (readable_journal st j) j)"
    and "j \<in> set ids \<Longrightarrow> \<not> is_terminal (sn_phase (rb_snapshot (rebuildSnapshotFromJournal num parse now (readable_journal st j) j))) \<Longrightarrow>
      rb_snapshot (rebuildSnapshotFromJournal num parse now (readable_journal st j) j) \<in> set ss"
  using assms
proof (induction ids arbitrary: st ss)
  case (Cons k ids)
  {
    case 1
    from 1(2) obtain so st1 ss1 where
      g: "getSnapshot num parse now k False st = Inr (so, st1)" and ss1: "snapshots_of num parse now ids st1 = Inr (ss1, st')"
      and ss: "ss = (case so of Some x \<Rightarrow> x # ss1 | None \<Rightarrow> ss1)" by (auto simp: rbind_def split: sum.splits prod.splits)
    show ?case using 1(1) Cons.IH(1)[OF _ ss1] unfolding ss getSnapshot_cases(1,4)[OF g] by (auto split: if_splits)
  next
    case 2
    from 2(3) obtain so st1 ss1 where
      g: "getSnapshot num parse now k False st = Inr (so, st1)" and ss1: "snapshots_of num parse now ids st1 = Inr (ss1, st')"
      and ss: "ss = (case so of Some x \<Rightarrow> x # ss1 | None \<Rightarrow> ss1)" by (auto simp: rbind_def split: sum.splits prod.splits)
    show ?case using 2(1,2) Cons.IH(2)[OF _ _ ss1] unfolding ss getSnapshot_cases(1,4)[OF g] by (auto split: if_splits)
  }
qed simp_all

lemma enqueue_pending_free:
  "pendingPolls q = [] \<Longrightarrow> (\<forall>e\<in>set (pendingEvents q). qe_leaseUntil e = Some 0) \<Longrightarrow> \<forall>e\<in>set (pendingEvents (enqueue_pending now ss q)). qe_leaseUntil e = Some 0"
proof (induction ss arbitrary: q)
  case (Cons x ss)
  have "\<forall>e\<in>set (pendingEvents (enqueueEvent now (sn_pendingEvent x) q)). qe_leaseUntil e = Some 0"
    using Cons.prems by (auto simp: quiet_enqueue)
  from Cons.IH[OF quiet_enqueue(1)[OF Cons.prems(1)] this] Cons.IH[OF Cons.prems] show ?case by simp
qed simp

text \<open>The requests that wait for an agent.\<close>

definition request_types :: "string list" where
  "request_types = [''generate'', ''accept'', ''discard'', ''steer'']"

lemma request_session: "t \<in> set request_types \<Longrightarrow> t \<in> set session_types"
proof -
  have "list_all (\<lambda>x. x \<in> set session_types) request_types" by code_simp
  then show "t \<in> set request_types \<Longrightarrow> ?thesis" by (simp add: list_all_iff)
qed

lemma request_applied:
  assumes "fld ev ''type'' = Some (JStr t)" "t \<in> set request_types"
  shows "sn_pendingEvent (apply_by_type num seq ev s) = toPendingEvent ev \<and> \<not> is_terminal (sn_phase (apply_by_type num seq ev s))"
proof -
  have "sn_pendingEvent (apply_generate seq ev s) = toPendingEvent ev \<and> sn_phase (apply_generate seq ev s) = JStr ''generate_requested''"
    "sn_pendingEvent (apply_accept num seq ev s) = toPendingEvent ev \<and> sn_phase (apply_accept num seq ev s) = JStr ''accept_requested''"
    "sn_pendingEvent (apply_request p seq ev s) = toPendingEvent ev \<and> sn_phase (apply_request p seq ev s) = JStr p" for p
    by (simp_all add: apply_generate_def apply_accept_def apply_request_def apply_defs Let_def split: option.split)
  with assms show ?thesis
    unfolding request_types_def by (simp, elim disjE) (simp_all add: apply_by_type_def is_terminal_def set_pending_def)
qed

lemma update_same: "map_of kvs k = Some v \<Longrightarrow> AList.update k v kvs = kvs"
  by (induction kvs) auto

lemma normalize_message:
  assumes "map_of kvs ''type'' = Some (JStr t)" "map_of kvs ''id'' = Some (JStr i)" "t \<noteq> []" "i \<noteq> []"
  shows "normalizeEvent (Some (JObj kvs)) None = Inr (i, t, JObj kvs)"
  using assms by (simp add: normalizeEvent_def fld_def type_object_def spread_def update_same)

lemma request_stored:
  assumes "store_event env (JObj kvs) st = Inr (s, st')" "map_of kvs ''type'' = Some (JStr t)" "t \<in> set request_types"
    and "map_of kvs ''id'' = Some (JStr i)" "i \<noteq> []"
  shows "sn_pendingEvent s = JObj (AList.delete ''token'' kvs)" "\<not> is_terminal (sn_phase s)"
    "st_cache st' i = Some \<lparr>rb_snapshot = s, rb_diagnostics = sn_diagnostics s,
      rb_nextSeq = rb_nextSeq (loadCachedOrRebuild (ev_num env) (ev_parse env) (ev_iso env) i (adopt_legacy i st)) + 1\<rparr>"
proof -
  have "t \<noteq> []" using assms(3) by (auto simp: request_types_def)
  note n = normalize_message[OF assms(2,4) this assms(5)]
  note ac = appendEvent_cases[OF assms(1)[unfolded store_event_def] n]
  have "fld (Some (journal_entry q i t iso (JObj kvs))) ''event'' = Some (JObj kvs)" for q iso by (simp add: journal_entry_def fld_def)
  then have "\<exists>seq s0. s = apply_by_type (ev_num env) seq (Some (JObj kvs)) s0"
    unfolding ac(2) written_entry_def by (auto simp: applyEvent_def Let_def)
  then show "sn_pendingEvent s = JObj (AList.delete ''token'' kvs)" "\<not> is_terminal (sn_phase s)"
    using request_applied[of "Some (JObj kvs)" t] assms(2,3) by (auto simp: fld_def toPendingEvent_def spread_def)
  from ac(4) show "st_cache st' i = Some \<lparr>rb_snapshot = s, rb_diagnostics = sn_diagnostics s,
      rb_nextSeq = rb_nextSeq (loadCachedOrRebuild (ev_num env) (ev_parse env) (ev_iso env) i (adopt_legacy i st)) + 1\<rparr>" by simp
qed

lemma post_events_accepted:
  assumes "post_events env body srv = (Http 200 err, srv')" "ev_parse env body = Some msg"
  shows "validateEvent (ev_num env) (Some msg) = Inr None" "post_accepted env msg srv = (Http 200 err, srv')"
proof -
  have "validateEvent (ev_num env) (Some msg) = Inr None \<and> post_accepted env msg srv = (Http 200 err, srv')"
  proof (cases "validateEvent (ev_num env) (Some msg)")
    case (Inr c)
    with assms show ?thesis by (cases c) (simp_all add: post_events_def split: if_splits)
  qed (use assms in \<open>simp add: post_events_def split: if_splits\<close>)
  then show "validateEvent (ev_num env) (Some msg) = Inr None" "post_accepted env msg srv = (Http 200 err, srv')" by simp_all
qed

lemma post_accepted_stored:
  assumes "post_accepted env msg srv = (Http 200 err, srv')" "js_truthy (fld (Some msg) ''id'')"
  shows "\<exists>s. store_event env msg (sv_store srv) = Inr (s, sv_store srv')"
proof (cases "store_event env msg (sv_store srv)")
  case (Inr x)
  with assms show ?thesis by (cases x) (auto simp: post_accepted_def set_queue_def Let_def split: if_splits)
qed (use assms in \<open>simp add: post_accepted_def\<close>)

lemma restored_request:
  assumes start: "start_server env files token st = Inr srv" and i: "i \<in> set files"
    and snap: "rb_snapshot (rebuildSnapshotFromJournal (ev_num env) (ev_parse env) (ev_iso env) (readable_journal st i) i) = s"
      "\<not> is_terminal (sn_phase s)" "sn_pendingEvent s = JObj kvs" "request r t (JObj kvs)"
    and others: "\<forall>j\<in>set files. j \<noteq> i \<longrightarrow>
      fld (Some (sn_pendingEvent (rb_snapshot (rebuildSnapshotFromJournal (ev_num env) (ev_parse env) (ev_iso env) (readable_journal st j) j)))) ''id'' \<noteq> Some (JStr r)"
  shows "\<exists>e\<in>set (pendingEvents (sv_queue srv)). qe_event e = JObj kvs \<and> qe_leaseUntil e = Some 0"
proof -
  from start obtain ss st' where ss: "snapshots_of (ev_num env) (ev_parse env) (ev_iso env) (js_sort cmp_text (remdups files)) (st\<lparr>st_cache := Map.empty\<rparr>) = Inr (ss, st')"
    and q: "sv_queue srv = enqueue_pending (ev_now env) ss empty_queue"
    by (auto simp: start_server_def restorePendingEventsFromStore_def listActiveSessions_def rbind_def split: sum.splits prod.splits)
  have s: "s \<in> set ss" using snapshots_of_mem(2)[OF ss, of i] i snap by simp
  have "sn_pendingEvent s' = sn_pendingEvent s" if "s' \<in> set ss" "fld (Some (sn_pendingEvent s')) ''id'' = Some (JStr r)" for s'
    using snapshots_of_mem(1)[OF ss that(1)] that(2) others snap(1) by auto
  then have "\<exists>e\<in>set (pendingEvents (sv_queue srv)). qe_event e = sn_pendingEvent s"
    unfolding q using snap(3,4) s by (intro enqueue_pending_adds[where i = r and t = t]) (auto simp: empty_queue_def)
  moreover have "\<forall>e\<in>set (pendingEvents (sv_queue srv)). qe_leaseUntil e = Some 0"
    unfolding q by (rule enqueue_pending_free) (simp_all add: empty_queue_def)
  ultimately show ?thesis using snap(3) by auto
qed

section \<open>The contract of the server\<close>

text \<open>
  C15: the server is its two parts. In every run, from any start over journals of earlier servers and
  through every mixture of events, replies, polls, streams, applies and timers in which each journal entry that is
  written prints and parses back, the cached account of every session is the one its journal gives, and the queue is
  in a state that its own operations reach: in order, without repeats, with every poll answered at most
  once and no broadcast of the agent's presence repeated.
\<close>

theorem live_server_sound:
  assumes "server_run num parse render srv"
  shows "coherent num parse (sv_store srv) \<and> (\<exists>ops. sv_queue srv = queue_exec ops empty_queue) \<and>
    arrival_order None (sv_queue srv) \<and> no_repeats None (sv_queue srv) \<and> answered_once None (sv_queue srv) \<and> alternating None (sv_queue srv)"
proof -
  from server_run_parts[OF assms] obtain ops where "store_run num parse render (sv_store srv)" "sv_queue srv = queue_exec ops empty_queue"
    by (auto simp: queue_runs_def)
  then show ?thesis
    using store_run_coherent order.exec requests.exec answers.exec broadcasts.exec empty_queue_invariants by auto
qed

text \<open>
  C16: an accepted request survives the process. When the server answers 200 to a request, then any later
  server over a store with that journal has it in its queue, without the token and free to be polled,
  whatever happened to other sessions and to the queue in between, unless the journal of another
  session claims the same id.
\<close>

theorem restart_recovers_request:
  assumes run: "server_run num parse render srv" and env: "env_of num parse render env" "env_of num parse render env2"
    and body: "parse body = Some (JObj kvs)" "map_of kvs ''type'' = Some (JStr t)" "t \<in> set request_types" "map_of kvs ''id'' = Some (JStr i)"
    and ok: "prints_event env (JObj kvs) (sv_store srv)" "post_events env body srv = (Http 200 [], srv')"
    and same: "readable_journal st i = readable_journal (sv_store srv') i" and start: "start_server env2 files token st = Inr srv2" "i \<in> set files"
    and others: "\<forall>j\<in>set files. j \<noteq> i \<longrightarrow>
      fld (Some (sn_pendingEvent (rb_snapshot (rebuildSnapshotFromJournal num parse (ev_iso env2) (readable_journal st j) j)))) ''id'' \<noteq> Some (JStr i)"
  shows "\<exists>e\<in>set (pendingEvents (sv_queue srv2)). qe_event e = JObj (AList.delete ''token'' kvs) \<and> qe_leaseUntil e = Some 0"
proof -
  note accepted = post_events_accepted[OF ok(2), of "JObj kvs"]
  from accepted body(1) env(1) have v: "validateEvent num (Some (JObj kvs)) = Inr None" and acc: "post_accepted env (JObj kvs) srv = (Http 200 [], srv')"
    by (simp_all add: env_of_def)
  have "isValidId (Some (JStr i))"
    using accepted_id[OF v _ request_session[OF body(3)]] body(2,4) by (simp add: fld_def)
  then have i: "i \<noteq> []" by (auto simp: isValidId_def)
  from post_accepted_stored[OF acc] i body(4) obtain s where s: "store_event env (JObj kvs) (sv_store srv) = Inr (s, sv_store srv')"
    by (auto simp: fld_def)
  have "store_run num parse render (sv_store srv')"
    using store_event_run[OF _ env(1) ok(1) s] server_run_parts[OF run] by blast
  note c = store_run_coherent[OF this]
  let ?r = "rebuildSnapshotFromJournal num parse (ev_iso env2) (readable_journal st i) i"
  note rs = request_stored[OF s body(2-4) i]
  from c rs(3) have "agree \<lparr>rb_snapshot = s, rb_diagnostics = sn_diagnostics s,
      rb_nextSeq = rb_nextSeq (loadCachedOrRebuild (ev_num env) (ev_parse env) (ev_iso env) i (adopt_legacy i (sv_store srv))) + 1\<rparr> ?r"
    unfolding coherent_def same by blast
  then have "bare s = bare (rb_snapshot ?r)" by (simp add: agree_def)
  then have "sn_pendingEvent (rb_snapshot ?r) = sn_pendingEvent s" "sn_phase (rb_snapshot ?r) = sn_phase s" by (metis bare_simps(4,5))+
  then show ?thesis
    using rs(1,2) others body(2,4) i env(2)
    by (intro restored_request[OF start, where s = "rb_snapshot ?r" and r = i and t = t]) (auto simp: env_of_def request_def fld_def delete_conv')
qed

text \<open>A session, its requests and replies as texts of one letter, and its journal lines as digits.\<close>

definition sample_id :: string where "sample_id = ''0a1b2c3d''"

definition steer_msg :: json_object where
  "steer_msg = [(''token'', JStr ''k''), (''id'', JStr sample_id), (''type'', JStr ''steer''), (''message'', JStr ''go'')]"

definition discard_msg :: json_object where
  "discard_msg = [(''token'', JStr ''k''), (''id'', JStr sample_id), (''type'', JStr ''discard'')]"

definition done_msg :: json where
  "done_msg = JObj [(''token'', JStr ''k''), (''id'', JStr sample_id), (''type'', JStr ''steer_done''), (''message'', JStr ''ok'')]"

definition letters :: "string \<Rightarrow> json option" where
  "letters s =
     (if s = ''s'' then Some (JObj steer_msg) else if s = ''r'' then Some done_msg
      else if s = ''1'' then Some (journal_entry 1 sample_id ''steer'' ''noon'' (JObj steer_msg))
      else if s = ''2'' then Some (journal_entry 2 sample_id ''steer_done'' ''noon'' (reply_entry done_msg (base_meta None) (Some (JObj steer_msg))))
      else if s = ''n'' then Some JNull else None)"

definition line_digits :: "json \<Rightarrow> string" where
  "line_digits e = (let q = fld (Some e) ''seq'' in if q = Some (jint 1) then ''1'' else ''2'')"

definition sample_env :: live_env where
  "sample_env = \<lparr>ev_num = (\<lambda>_. []), ev_parse = letters, ev_render = line_digits, ev_now = 100, ev_iso = ''noon''\<rparr>"

definition sample_server :: live_server where
  "sample_server = \<lparr>sv_token = ''k'', sv_queue = empty_queue, sv_store = sample_store, sv_clients = [], sv_exitTimer = None, sv_sent = [], sv_nextManualEditSeq = 1\<rparr>"

section \<open>Replies\<close>

lemma reply_applied:
  assumes "fld ev ''type'' = Some (JStr (reply_type t))"
  shows "sn_pendingEvent (apply_by_type num seq ev s) = JNull"
proof -
  have "sn_pendingEvent (apply_ready ev s) = JNull" "sn_pendingEvent (apply_steer_done ev s) = JNull"
    "sn_pendingEvent (apply_complete ev s) = JNull" "sn_pendingEvent (apply_agent_error ev s) = JNull" "sn_pendingEvent (clear_pending s) = JNull" for s
    by (simp_all add: apply_ready_def apply_steer_done_def apply_complete_def apply_agent_error_def clear_pending_def Let_def)
  then show ?thesis using assms by (simp add: apply_by_type_def reply_type_def split: if_splits)
qed

lemma reply_entry_fields:
  "fld (Some (reply_entry msg meta ack)) ''type'' = Some (JStr (reply_type (fld (Some msg) ''type'')))"
  "fld (Some msg) ''id'' = Some (JStr i) \<Longrightarrow> fld (Some (reply_entry msg meta ack)) ''id'' = Some (JStr i)"
  by (simp_all add: reply_entry_def with_fields_def fld_def List.map_filter_def)

lemma reply_stored:
  assumes "store_event env (reply_entry msg meta ack) st = Inr (s, st')" "fld (Some msg) ''id'' = Some (JStr i)" "i \<noteq> []"
  shows "sn_pendingEvent s = JNull" "\<exists>r. st_cache st' i = Some r \<and> rb_snapshot r = s"
proof -
  let ?ev = "reply_entry msg meta ack"
  obtain kvs where kvs: "?ev = JObj kvs" by (auto simp: reply_entry_def with_fields_def)
  have "map_of kvs ''type'' = Some (JStr (reply_type (fld (Some msg) ''type'')))" "map_of kvs ''id'' = Some (JStr i)"
    using reply_entry_fields(1)[of msg meta ack] reply_entry_fields(2)[OF assms(2), of meta ack] by (simp_all add: kvs fld_def)
  then have n: "normalizeEvent (Some ?ev) None = Inr (i, reply_type (fld (Some msg) ''type''), ?ev)"
    unfolding kvs using assms(3) by (intro normalize_message) (simp_all add: reply_type_def)
  note ac = appendEvent_cases[OF assms(1)[unfolded store_event_def] n]
  have "fld (Some (journal_entry q i t iso ?ev)) ''event'' = Some ?ev" "js_truthy (Some ?ev)" for q t iso by (simp_all add: journal_entry_def fld_def kvs)
  then have "\<exists>seq s0. s = apply_by_type (ev_num env) seq (Some ?ev) s0"
    unfolding ac(2) written_entry_def by (auto simp: applyEvent_def Let_def)
  then show "sn_pendingEvent s = JNull" using reply_applied[OF reply_entry_fields(1)] by blast
  from ac(4) show "\<exists>r. st_cache st' i = Some r \<and> rb_snapshot r = s" by simp
qed

text \<open>The store after the reply to a queued request.\<close>

lemma reply_acknowledged:
  assumes "handlePollPost env cwd manifest body srv = (Http 200 err, srv')" "ev_parse env body = Some msg" "fld (Some msg) ''id'' = Some (JStr i)" "i \<noteq> []"
    and ack: "acknowledgePendingEvent (ev_now env) (Some (JStr i)) (sv_queue srv) = (Some ev, q1)"
  shows "\<exists>meta. sv_store srv' = (case store_event env (reply_entry msg meta (Some ev)) (sv_store srv) of Inr (s, st') \<Rightarrow> st' | Inl err \<Rightarrow> sv_store srv)"
  using assms
  by (intro exI[of _ "sessionFileMetadataFromPollReply (ev_num env) cwd manifest (fld (Some msg) ''file'')"])
    (auto simp: handlePollPost_def Let_def split: if_splits)

lemma reply_is_stored:
  assumes "fld (Some msg) ''id'' = Some (JStr i)" "i \<noteq> []" "list_all is_session_char i" "length i \<le> 128"
  shows "\<exists>s st'. store_event env (reply_entry msg meta ack) st = Inr (s, st')"
proof -
  obtain kvs where kvs: "reply_entry msg meta ack = JObj kvs" by (auto simp: reply_entry_def with_fields_def)
  have "map_of kvs ''type'' = Some (JStr (reply_type (fld (Some msg) ''type'')))" "map_of kvs ''id'' = Some (JStr i)"
    using reply_entry_fields(1)[of msg meta ack] reply_entry_fields(2)[OF assms(1), of meta ack] by (simp_all add: kvs fld_def)
  then have "normalizeEvent (Some (JObj kvs)) None = Inr (i, reply_type (fld (Some msg) ''type''), JObj kvs)"
    using assms(2) by (intro normalize_message) (simp_all add: reply_type_def)
  moreover have "1 \<le> length i" using assms(2) by (cases i) auto
  ultimately show ?thesis using assms(3,4) by (simp add: store_event_def kvs appendEvent_def rbind_def Let_def safeSessionId_def)
qed

lemma enqueue_pending_only:
  assumes "pendingPolls q = []" "\<And>s. s \<in> set ss \<Longrightarrow> js_truthy (Some (sn_pendingEvent s)) \<Longrightarrow> \<not> P (sn_pendingEvent s)"
    and "\<And>e. e \<in> set (pendingEvents q) \<Longrightarrow> \<not> P (qe_event e)"
  shows "e \<in> set (pendingEvents (enqueue_pending now ss q)) \<Longrightarrow> \<not> P (qe_event e)"
  using assms
proof (induction ss arbitrary: q)
  case (Cons x ss)
  let ?q = "if js_truthy (Some (sn_pendingEvent x)) then enqueueEvent now (sn_pendingEvent x) q else q"
  have "pendingPolls ?q = []" using Cons.prems(2) by (simp add: quiet_enqueue)
  moreover have "\<not> P (qe_event e')" if "e' \<in> set (pendingEvents ?q)" for e'
    using that Cons.prems(2,3,4) by (auto simp: quiet_enqueue split: if_splits)
  ultimately show ?case using Cons.IH[of ?q] Cons.prems(1,3) by simp
qed simp

text \<open>
  A session has one slot for its request in the journal, while the queue keeps every request. A reply
  empties the slot: a later server over that journal has no request of the session in its queue, also
  when the reply was to one of several, and the others were accepted, are queued and were never delivered.
\<close>

lemma reply_empties_slot:
  assumes run: "server_run num parse render srv" and env: "env_of num parse render env" "env_of num parse render env2"
    and body: "parse body = Some msg" "fld (Some msg) ''id'' = Some (JStr i)" "i \<noteq> []"
    and ack: "acknowledgePendingEvent (ev_now env) (Some (JStr i)) (sv_queue srv) = (Some ev, q1)"
    and ok: "\<And>meta. prints_event env (reply_entry msg meta (Some ev)) (sv_store srv)" "handlePollPost env cwd manifest body srv = (Http 200 [], srv')"
    and journaled: "list_all is_session_char i" "length i \<le> 128"
    and same: "readable_journal st i = readable_journal (sv_store srv') i" and start: "start_server env2 files token st = Inr srv2"
    and others: "\<forall>j\<in>set files. j \<noteq> i \<longrightarrow>
      fld (Some (sn_pendingEvent (rb_snapshot (rebuildSnapshotFromJournal num parse (ev_iso env2) (readable_journal st j) j)))) ''id'' \<noteq> Some (JStr i)"
  shows "\<forall>e\<in>set (pendingEvents (sv_queue srv2)). qe_id e \<noteq> Some (JStr i)"
proof -
  obtain meta where "sv_store srv' = (case store_event env (reply_entry msg meta (Some ev)) (sv_store srv) of Inr (s, st') \<Rightarrow> st' | Inl err \<Rightarrow> sv_store srv)"
    using reply_acknowledged[OF ok(2) _ body(2,3) ack] body(1) env(1) by (auto simp: env_of_def)
  with reply_is_stored[OF body(2,3) journaled, of env meta "Some ev" "sv_store srv"]
  obtain s where s: "store_event env (reply_entry msg meta (Some ev)) (sv_store srv) = Inr (s, sv_store srv')" by auto
  have "coherent num parse (sv_store srv')"
    using store_event_run[OF _ env(1) ok(1) s] server_run_parts[OF run] store_run_coherent by blast
  with reply_stored[OF s body(2,3)] have "bare s = bare (rb_snapshot (rebuildSnapshotFromJournal num parse (ev_iso env2) (readable_journal st i) i))"
    unfolding coherent_def same agree_def by metis
  with reply_stored(1)[OF s body(2,3)]
  have slot: "sn_pendingEvent (rb_snapshot (rebuildSnapshotFromJournal num parse (ev_iso env2) (readable_journal st i) i)) = JNull" by (metis bare_simps(5))
  from start env(2) obtain ss st' where ss: "snapshots_of num parse (ev_iso env2) (js_sort cmp_text (remdups files)) (st\<lparr>st_cache := Map.empty\<rparr>) = Inr (ss, st')"
    and q: "sv_queue srv2 = enqueue_pending (ev_now env2) ss empty_queue"
    by (auto simp: env_of_def start_server_def restorePendingEventsFromStore_def listActiveSessions_def rbind_def split: sum.splits prod.splits)
  have only: "fld (Some (sn_pendingEvent s')) ''id'' \<noteq> Some (JStr i)" if "s' \<in> set ss" "js_truthy (Some (sn_pendingEvent s'))" for s'
    using snapshots_of_mem(1)[OF ss that(1)] that(2) others slot by auto
  show ?thesis
    unfolding q using enqueue_pending_only[of empty_queue ss "\<lambda>ev. fld (Some ev) ''id'' = Some (JStr i)" _ "ev_now env2", OF _ only]
    by (auto simp: empty_queue_def)
qed

text \<open>The other request of the session: still queued, never delivered.\<close>

lemma second_still_queued:
  "map qe_event (pendingEvents (queue_exec [(10, Q_enqueue (JObj steer_msg)), (11, Q_enqueue (JObj discard_msg)), (12, Q_get ''k'' (Some ''k'') None None),
     (20, Q_reply (Some (JStr sample_id)))] empty_queue)) = [JObj discard_msg]"
  by code_simp

section \<open>Instances\<close>

lemma sample_run: "server_run (\<lambda>_. []) letters line_digits sample_server"
proof (rule server_run.started)
  show "env_of (\<lambda>_. []) letters line_digits sample_env" by (simp add: env_of_def sample_env_def)
  show "start_server sample_env [] ''k'' sample_store = Inr sample_server"
    by (simp add: start_server_def restorePendingEventsFromStore_def listActiveSessions_def rbind_def sample_server_def sample_store_def)
qed (simp add: sample_store_def readable_journal_def)

definition posted_server :: live_server where
  "posted_server = snd (post_events sample_env ''s'' sample_server)"

lemma sample_posted: "post_events sample_env ''s'' sample_server = (Http 200 [], posted_server)"
proof -
  have "fst (post_events sample_env ''s'' sample_server) = Http 200 []" by code_simp
  then show ?thesis unfolding posted_server_def by (metis prod.collapse)
qed

lemma sample_prints: "prints_event sample_env (JObj steer_msg) (sv_store sample_server)"
proof -
  have n: "normalizeEvent (Some (JObj steer_msg)) None = Inr (sample_id, ''steer'', JObj steer_msg)"
    by (rule normalize_message) (simp_all add: steer_msg_def sample_id_def)
  have "written_entry (\<lambda>_. []) letters ''noon'' sample_id ''steer'' (JObj steer_msg) sample_store = journal_entry 1 sample_id ''steer'' ''noon'' (JObj steer_msg)"
    by (simp add: written_entry_def loadCachedOrRebuild_def adopt_legacy_def sample_store_def readable_journal_def rebuildSnapshotFromJournal_def)
  moreover have "prints letters line_digits (journal_entry 1 sample_id ''steer'' ''noon'' (JObj steer_msg))" by code_simp
  ultimately show ?thesis by (simp add: prints_event_def n sample_env_def sample_server_def)
qed

text \<open>The request is polled, and the agent replies.\<close>

definition polled_server :: live_server where
  "polled_server = set_queue (queue_step (110, Q_get ''k'' (Some ''k'') None None)) posted_server"

definition replied_server :: live_server where
  "replied_server = snd (handlePollPost sample_env [''p''] (\<lambda>_. None) ''r'' polled_server)"

lemma sample_env_of: "env_of (\<lambda>_. []) letters line_digits sample_env"
  by (simp add: env_of_def sample_env_def)

lemma polled_run: "server_run (\<lambda>_. []) letters line_digits polled_server"
proof -
  have "letters ''s'' = Some (JObj steer_msg)" by (simp add: letters_def)
  then have "server_run (\<lambda>_. []) letters line_digits posted_server"
    using server_run.posted[OF sample_run sample_env_of _ sample_posted] sample_prints by simp
  moreover have "sv_token posted_server = ''k''" by code_simp
  ultimately show ?thesis unfolding polled_server_def using server_run.polled by metis
qed

lemma sample_ack: "fst (acknowledgePendingEvent 100 (Some (JStr sample_id)) (sv_queue polled_server)) = Some (JObj steer_msg)"
  by code_simp

lemma sample_reply_prints: "prints_reply sample_env [''p''] (\<lambda>_. None) done_msg polled_server"
proof -
  let ?e = "reply_entry done_msg (base_meta None) (Some (JObj steer_msg))"
  have i: "fld (Some done_msg) ''id'' = Some (JStr sample_id)" by (simp add: done_msg_def fld_def)
  have meta: "sessionFileMetadataFromPollReply (\<lambda>_. []) [''p''] (\<lambda>_. None) (fld (Some done_msg) ''file'') = base_meta None"
    by (simp add: done_msg_def fld_def sessionFileMetadataFromPollReply_def)
  have n: "normalizeEvent (Some ?e) None = Inr (sample_id, ''steer_done'', ?e)" by code_simp
  have "rb_nextSeq (loadCachedOrRebuild (\<lambda>_. []) letters ''noon'' sample_id (adopt_legacy sample_id (sv_store polled_server))) = 2" by code_simp
  moreover have "prints letters line_digits (journal_entry 2 sample_id ''steer_done'' ''noon'' ?e)" by code_simp
  ultimately have "prints_event sample_env ?e (sv_store polled_server)"
    by (simp add: prints_event_def n written_entry_def sample_env_def)
  with sample_ack i meta show ?thesis by (simp add: prints_reply_def sample_env_def)
qed

lemma sample_reply:
  "fst (handlePollPost sample_env [''p''] (\<lambda>_. None) ''r'' polled_server) = Http 200 []"
  "sv_queue replied_server = flushPendingPolls 100 (snd (acknowledgePendingEvent 100 (Some (JStr sample_id)) (sv_queue polled_server)))"
proof -
  have "sv_token polled_server = ''k''" by code_simp
  then have ok: "ev_parse sample_env ''r'' = Some done_msg" "token_matches done_msg polled_server" "fld (Some done_msg) ''id'' = Some (JStr sample_id)"
    "has_text (fld (Some done_msg) ''message'')" "done_msg \<noteq> JNull" "ev_now sample_env = 100"
    by (simp_all add: sample_env_def letters_def token_matches_def done_msg_def fld_def) code_simp
  obtain q1 where ack: "acknowledgePendingEvent 100 (Some (JStr sample_id)) (sv_queue polled_server) = (Some (JObj steer_msg), q1)"
    using sample_ack by (metis prod.collapse)
  show "fst (handlePollPost sample_env [''p''] (\<lambda>_. None) ''r'' polled_server) = Http 200 []"
    "sv_queue replied_server = flushPendingPolls 100 (snd (acknowledgePendingEvent 100 (Some (JStr sample_id)) (sv_queue polled_server)))"
    by (simp_all add: replied_server_def handlePollPost_def ok ack empty_steer_done_def Let_def)
qed

lemma replied_run: "server_run (\<lambda>_. []) letters line_digits replied_server"
proof (rule server_run.replied[OF polled_run sample_env_of])
  show "handlePollPost sample_env [''p''] (\<lambda>_. None) ''r'' polled_server = (Http 200 [], replied_server)"
    unfolding replied_server_def using sample_reply(1) by (metis prod.collapse)
  show "letters ''r'' = Some msg \<Longrightarrow> prints_reply sample_env [''p''] (\<lambda>_. None) msg polled_server" for msg
    using sample_reply_prints by (simp add: letters_def)
qed

theorem live_server_sound_witness:
  "coherent (\<lambda>_. []) letters (sv_store replied_server) \<and> answered_once None (sv_queue replied_server) \<and>
   pendingEvents (sv_queue replied_server) = [] \<and> answered (q_out (sv_queue replied_server)) = [0]"
proof -
  have "pendingEvents (sv_queue replied_server) = []" unfolding sample_reply(2) by code_simp
  moreover have "answered (q_out (sv_queue replied_server)) = [0]" unfolding sample_reply(2) by code_simp
  ultimately show ?thesis using live_server_sound[OF replied_run] by blast
qed

lemma sample_starts: "\<exists>srv. start_server sample_env [sample_id] ''k2'' st = Inr srv"
proof -
  have "safeSessionId sample_id = Inr sample_id" by code_simp
  moreover have "sample_id \<noteq> []" by (simp add: sample_id_def)
  ultimately show ?thesis
    by (simp add: start_server_def restorePendingEventsFromStore_def listActiveSessions_def rbind_def getSnapshot_def Let_def del: safe_result)
qed

theorem restart_recovers_request_witness:
  "\<exists>srv. start_server sample_env [sample_id] ''k2'' (sv_store posted_server) = Inr srv \<and>
     (\<exists>e\<in>set (pendingEvents (sv_queue srv)). qe_event e = JObj (AList.delete ''token'' steer_msg) \<and> qe_leaseUntil e = Some 0)"
proof -
  from sample_starts obtain srv where srv: "start_server sample_env [sample_id] ''k2'' (sv_store posted_server) = Inr srv" by blast
  have "env_of (\<lambda>_. []) letters line_digits sample_env" by (simp add: env_of_def sample_env_def)
  moreover have "letters ''s'' = Some (JObj steer_msg)" "map_of steer_msg ''type'' = Some (JStr ''steer'')" "''steer'' \<in> set request_types"
    "map_of steer_msg ''id'' = Some (JStr sample_id)"
    by (simp_all add: letters_def steer_msg_def request_types_def)
  ultimately show ?thesis
    using restart_recovers_request[OF sample_run _ _ _ _ _ _ sample_prints sample_posted refl srv] srv by simp
qed

section \<open>Requests\<close>

text \<open>
  The routes of the server that take a token, from \<open>createRequestHandler\<close>: the body of a post, or the parameters of a query. What lies around the
  server: its directory, the files that can be read and written there, and the manifests.
\<close>

datatype live_request =
    R_events string
  | R_reply string
  | R_poll "string option" "string option" "string option"
  | R_stream "string list" nat "string option"
  | R_stop "string option"
  | R_source "string option" "string option"
  | R_annotation "string option" "string option" "string option" "string list"

record surroundings =
  su_cwd :: "string list"
  su_read :: "string \<Rightarrow> string option"
  su_writable :: "string \<Rightarrow> bool"
  su_sessionDir :: "string option"
  su_manifest :: "string \<Rightarrow> json option"

fun poll_http :: "poll_answer \<Rightarrow> http" where
  "poll_http (A_event ev) = Http 200 []"
| "poll_http A_timeout = Http 200 []"
| "poll_http A_unauthorized = Http 401 ''Unauthorized''"

text \<open>What a request is answered, \<open>None\<close> for a parked poll, and the file it wrote.\<close>

record served =
  sd_answer :: "http option"
  sd_written :: "(string \<times> string) option"
  sd_server :: live_server

definition plain_answer :: "http \<times> live_server \<Rightarrow> served" where
  "plain_answer x = \<lparr>sd_answer = Some (fst x), sd_written = None, sd_server = snd x\<rparr>"

fun serve_request :: "surroundings \<Rightarrow> live_env \<Rightarrow> live_request \<Rightarrow> live_server \<Rightarrow> served" where
  "serve_request su env (R_events body) srv = plain_answer (post_events env body srv)"
| "serve_request su env (R_reply body) srv = plain_answer (handlePollPost env (su_cwd su) (su_manifest su) body srv)"
| "serve_request su env (R_poll token timeoutParam leaseParam) srv =
     (let srv' = set_queue (queue_step (ev_now env, Q_get (sv_token srv) token timeoutParam leaseParam)) srv in
      \<lparr>sd_answer = (case List.map_filter (\<lambda>x. case x of Answered p a \<Rightarrow> if p = q_requests (sv_queue srv) then Some a else None | _ \<Rightarrow> None)
             (q_out (sv_queue srv')) of a # as \<Rightarrow> Some (poll_http a) | [] \<Rightarrow> None),
       sd_written = None, sd_server = srv'\<rparr>)"
| "serve_request su env (R_stream files c token) srv = plain_answer (snd (stream_open env files c (map_option JStr token) srv))"
| "serve_request su env (R_stop token) srv = plain_answer (stop_route (ev_now env) (map_option JStr token) srv)"
| "serve_request su env (R_source token path) srv =
     plain_answer (case source_route (su_cwd su) (su_read su) (sv_token srv) token path of (status, words) \<Rightarrow> Http status words, srv)"
| "serve_request su env (R_annotation token eventId contentType chunks) srv =
     (case annotation_route (su_sessionDir su) (su_writable su) (sv_token srv) token eventId contentType chunks of
        Inl status \<Rightarrow> \<lparr>sd_answer = Some (Http status (if status = 401 then ''Unauthorized'' else [])), sd_written = None, sd_server = srv\<rparr>
      | Inr file \<Rightarrow> \<lparr>sd_answer = Some (Http 200 []), sd_written = Some file, sd_server = srv\<rparr>)"

text \<open>A request that does not name the token, and one whose body is \<open>null\<close>.\<close>

fun lacks_token :: "string \<Rightarrow> live_env \<Rightarrow> live_request \<Rightarrow> bool" where
  "lacks_token t env (R_events body) \<longleftrightarrow> (\<exists>msg. ev_parse env body = Some msg \<and> msg \<noteq> JNull \<and> fld (Some msg) ''token'' \<noteq> Some (JStr t))"
| "lacks_token t env (R_reply body) \<longleftrightarrow> (\<exists>msg. ev_parse env body = Some msg \<and> msg \<noteq> JNull \<and> fld (Some msg) ''token'' \<noteq> Some (JStr t))"
| "lacks_token t env (R_poll token timeoutParam leaseParam) \<longleftrightarrow> token \<noteq> Some t"
| "lacks_token t env (R_stream files c token) \<longleftrightarrow> token \<noteq> Some t"
| "lacks_token t env (R_stop token) \<longleftrightarrow> token \<noteq> Some t"
| "lacks_token t env (R_source token path) \<longleftrightarrow> token \<noteq> Some t"
| "lacks_token t env (R_annotation token eventId contentType chunks) \<longleftrightarrow> token \<noteq> Some t"

fun has_body :: "string \<Rightarrow> live_request \<Rightarrow> bool" where
  "has_body body (R_events b) \<longleftrightarrow> b = body"
| "has_body body (R_reply b) \<longleftrightarrow> b = body"
| "has_body body _ \<longleftrightarrow> False"

text \<open>The log of the queue notes a refused poll; nothing else does.\<close>

definition refusals :: "nat \<Rightarrow> live_server \<Rightarrow> live_server" where
  "refusals n srv = set_queue (\<lambda>q. q\<lparr>q_requests := q_requests q + n,
     q_out := q_out q @ map (\<lambda>p. Answered p A_unauthorized) [q_requests q..<q_requests q + n]\<rparr>) srv"

lemma refusals_simps [simp]: "refusals 0 srv = srv" "refusals m (refusals n srv) = refusals (n + m) srv" "sv_token (refusals n srv) = sv_token srv"
proof -
  have "map f [a..<a + n] @ map f [a + n..<a + n + m] = map f [a..<a + (n + m)]" for f :: "nat \<Rightarrow> queue_out" and a
    by (metis add.assoc map_append upt_add_eq_append le_add1)
  then show "refusals m (refusals n srv) = refusals (n + m) srv" by (simp add: refusals_def set_queue_def add.assoc)
qed (simp_all add: refusals_def set_queue_def)

text \<open>Polls of other numbers do not answer this one: the numbers in the log are used up.\<close>

definition numbers_used :: "live_server \<Rightarrow> bool" where
  "numbers_used srv \<longleftrightarrow> (\<forall>p a. Answered p a \<in> set (q_out (sv_queue srv)) \<longrightarrow> p < q_requests (sv_queue srv))"

lemma fresh_answers:
  "numbers_used srv \<Longrightarrow>
   List.map_filter (\<lambda>x. case x of Answered p a \<Rightarrow> if p = q_requests (sv_queue srv) then Some a else None | _ \<Rightarrow> None) (q_out (sv_queue srv)) = []"
proof -
  assume used: "numbers_used srv"
  have "(case x of Answered p a \<Rightarrow> if p = q_requests (sv_queue srv) then Some a else None | _ \<Rightarrow> None) = None"
    if "x \<in> set (q_out (sv_queue srv))" for x
    using used that by (cases x) (auto simp: numbers_used_def)
  then show ?thesis by (auto simp: List.map_filter_def filter_empty_conv)
qed

lemma numbers_used_run: "server_run num parse render srv \<Longrightarrow> numbers_used srv"
proof -
  assume "server_run num parse render srv"
  from server_run_parts[OF this] obtain ops where q: "sv_queue srv = queue_exec ops empty_queue" by (auto simp: queue_runs_def)
  have once: "answered_once None (queue_exec ops empty_queue)" using answers.exec empty_queue_invariants by blast
  have "Answered p a \<in> set out \<Longrightarrow> p \<in> set (answered out)" for p a out
    by (force simp: answered_def List.map_filter_def)
  with once show ?thesis unfolding numbers_used_def q answered_once_def polls_of_def by auto
qed

lemma numbers_used_refusals: "numbers_used srv \<Longrightarrow> numbers_used (refusals n srv)"
  by (auto simp: numbers_used_def refusals_def set_queue_def intro: less_le_trans)

definition refused_poll :: "live_request \<Rightarrow> nat" where
  "refused_poll r = (case r of R_poll token timeoutParam leaseParam \<Rightarrow> 1 | _ \<Rightarrow> 0)"

lemma serve_refused:
  assumes "lacks_token (sv_token srv) env r" "numbers_used srv"
  shows "serve_request su env r srv = \<lparr>sd_answer = Some (Http 401 ''Unauthorized''), sd_written = None, sd_server = refusals (refused_poll r) srv\<rparr>"
proof (cases r)
  case (R_poll token tp lp)
  with assms fresh_answers[OF assms(2)] show ?thesis
    by (simp add: handlePollGet_def set_queue_def say_def refused_poll_def refusals_def map_filter_snoc Let_def)
qed (use assms(1) in \<open>auto simp: plain_answer_def post_events_def handlePollPost_def token_matches_def stream_open_def stop_route_def
    source_route_def annotation_route_def refused_poll_def\<close>)

lemma refused_only:
  assumes "sd_answer (serve_request su env r srv) = Some (Http 401 words)" "numbers_used srv"
  shows "lacks_token (sv_token srv) env r"
proof (cases r)
  case (R_events body)
  with assms(1) show ?thesis
    by (auto simp: plain_answer_def post_events_def post_accepted_def token_matches_def Let_def split: option.splits if_splits sum.splits)
next
  case (R_reply body)
  with assms(1) show ?thesis
    by (auto simp: plain_answer_def handlePollPost_def token_matches_def Let_def split_beta split: option.splits if_splits)
next
  case (R_poll token tp lp)
  show ?thesis
  proof (rule ccontr)
    assume "\<not> lacks_token (sv_token srv) env r"
    then have tok: "token = Some (sv_token srv)" using R_poll by simp
    let ?q = "sv_queue srv" and ?q1 = "(sv_queue srv)\<lparr>q_requests := Suc (q_requests (sv_queue srv)), lastPollAt := ev_now env\<rparr>"
    have bs: "\<exists>bs. q_out (broadcastAgentPollingIfChanged now q) = q_out q @ map Polling bs" for now q
      using exI[of _ "[]"] exI[of _ "[agentPollingConnected now q]"] by (auto simp: queue_primitives)
    have "\<exists>bs tail. q_out (handlePollGet (ev_now env) (sv_token srv) token tp lp ?q) = q_out ?q @ map Polling bs @ tail \<and>
        (tail = [] \<or> (\<exists>ev. tail = [Answered (q_requests ?q) (A_event ev)]))"
    proof (cases "findAvailablePendingEvent (ev_now env) ?q1")
      case None
      let ?q2 = "?q1\<lparr>pendingPolls := pendingPolls ?q @ [\<lparr>pk_id = q_requests ?q, pk_leaseMs = query_int lp 30000,
        pk_due = node_due (ev_now env) (query_int tp DEFAULT_POLL_TIMEOUT)\<rparr>]\<rparr>"
      have "handlePollGet (ev_now env) (sv_token srv) token tp lp ?q = scheduleLeaseFlush (ev_now env) (broadcastAgentPollingIfChanged (ev_now env) ?q2)"
        using None tok by (simp add: handlePollGet_def Let_def)
      then have "\<exists>bs. q_out (handlePollGet (ev_now env) (sv_token srv) token tp lp ?q) = q_out ?q @ map Polling bs"
        using bs[of "ev_now env" ?q2] by simp
      then show ?thesis by (metis append_Nil2)
    next
      case (Some k)
      from lease_out(1)[of "ev_now env" k "query_int lp 30000" ?q1] obtain bs
        where "q_out (snd (leaseEvent (ev_now env) k (query_int lp 30000) ?q1)) = q_out ?q @ map Polling bs" by auto
      with tok Some show ?thesis by (auto simp: handlePollGet_def Let_def split_beta)
    qed
    then obtain bs tail where out: "q_out (handlePollGet (ev_now env) (sv_token srv) token tp lp ?q) = q_out ?q @ map Polling bs @ tail"
      "tail = [] \<or> (\<exists>ev. tail = [Answered (q_requests ?q) (A_event ev)])" by blast
    have "List.map_filter (\<lambda>x. case x of Answered p a \<Rightarrow> if p = q_requests ?q then Some a else None | _ \<Rightarrow> None) (map Polling bs) = []" for bs
      by (induction bs) (simp_all add: map_filter_simps)
    moreover have "List.map_filter f (xs @ ys) = List.map_filter f xs @ List.map_filter f ys" for f :: "queue_out \<Rightarrow> poll_answer option" and xs ys
      by (simp add: List.map_filter_def)
    ultimately have "sd_answer (serve_request su env r srv) \<in> {None, Some (Http 200 [])}"
      using out fresh_answers[OF assms(2)] by (auto simp: R_poll set_queue_def map_filter_simps)
    with assms(1) show False by auto
  qed
next
  case (R_stream files c token)
  with assms(1) show ?thesis by (auto simp: plain_answer_def stream_open_def Let_def split: if_splits sum.splits prod.splits)
next
  case (R_stop token)
  with assms(1) show ?thesis by (auto simp: plain_answer_def stop_route_def split: if_splits)
next
  case (R_source token path)
  with assms(1) show ?thesis by (auto simp: plain_answer_def source_route_def Let_def split: if_splits option.splits)
next
  case (R_annotation token eventId contentType chunks)
  with assms(1) show ?thesis by (auto simp: annotation_route_def Let_def split: if_splits option.splits)
qed

text \<open>Requests one after the other, each with its time.\<close>

fun serve_all :: "surroundings \<Rightarrow> (live_env \<times> live_request) list \<Rightarrow> live_server \<Rightarrow> served list" where
  "serve_all su [] srv = []"
| "serve_all su ((env, r) # rs) srv = (let x = serve_request su env r srv in x # serve_all su rs (sd_server x))"

text \<open>
  C21: the token guards the server. On a server of any run, a request is answered 401 exactly when it lacks the token: an
  event or a reply whose body is JSON other than \<open>null\<close> with another token or none, and a poll, stream, stop, source or
  annotation with another one or none in its query. And any sequence of such requests is answered 401 throughout, gives out
  and writes nothing, and leaves the whole server as it was (its queue, parked polls, timers, sessions, streams and
  messages) but for the numbers of the refused polls and their answers in the log.
\<close>

theorem token_guards_server:
  assumes "server_run num parse render srv"
  shows "((\<exists>words. sd_answer (serve_request su env r srv) = Some (Http 401 words)) \<longleftrightarrow> lacks_token (sv_token srv) env r) \<and>
    ((\<forall>(e, x)\<in>set rs. lacks_token (sv_token srv) e x) \<longrightarrow>
       (\<forall>x\<in>set (serve_all su rs srv). sd_answer x = Some (Http 401 ''Unauthorized'') \<and> sd_written x = None \<and> (\<exists>n. sd_server x = refusals n srv)))"
proof
  note used = numbers_used_run[OF assms]
  show "(\<exists>words. sd_answer (serve_request su env r srv) = Some (Http 401 words)) \<longleftrightarrow> lacks_token (sv_token srv) env r"
    using refused_only[OF _ used] serve_refused[OF _ used] by (metis served.select_convs(1))
  have "(\<forall>(e, x)\<in>set rs. lacks_token (sv_token srv) e x) \<longrightarrow> (\<forall>x\<in>set (serve_all su rs (refusals n srv)).
      sd_answer x = Some (Http 401 ''Unauthorized'') \<and> sd_written x = None \<and> (\<exists>n. sd_server x = refusals n srv))" for n
  proof (induction rs arbitrary: n)
    case (Cons er rs)
    obtain e r where er: "er = (e, r)" by (cases er)
    from numbers_used_refusals[OF used] have "numbers_used (refusals n srv)" .
    from serve_refused[OF _ this, of e r su] Cons er show ?case by (auto simp: Let_def)
  qed simp
  from this[of 0] show "(\<forall>(e, x)\<in>set rs. lacks_token (sv_token srv) e x) \<longrightarrow>
       (\<forall>x\<in>set (serve_all su rs srv). sd_answer x = Some (Http 401 ''Unauthorized'') \<and> sd_written x = None \<and> (\<exists>n. sd_server x = refusals n srv))"
    by simp
qed

definition nowhere :: surroundings where
  "nowhere = \<lparr>su_cwd = [''p''], su_read = (\<lambda>_. None), su_writable = (\<lambda>_. True), su_sessionDir = Some ''/s'', su_manifest = (\<lambda>_. None)\<rparr>"

theorem token_guards_server_witness:
  "sd_answer (serve_request nowhere sample_env (R_poll (Some ''x'') None None) polled_server) = Some (Http 401 ''Unauthorized'') \<and>
   list_all (\<lambda>x. \<exists>n. sd_server x = refusals n polled_server) (serve_all nowhere [(sample_env, R_stop None), (sample_env, R_poll None None None)] polled_server)"
proof
  have t: "sv_token polled_server = ''k''" by code_simp
  note guards = token_guards_server[OF polled_run, where su = nowhere and env = sample_env]
  from guards[of "R_poll (Some ''x'') None None"] t
  obtain words where "sd_answer (serve_request nowhere sample_env (R_poll (Some ''x'') None None) polled_server) = Some (Http 401 words)" by auto
  then show "sd_answer (serve_request nowhere sample_env (R_poll (Some ''x'') None None) polled_server) = Some (Http 401 ''Unauthorized'')"
    using serve_refused[of polled_server sample_env "R_poll (Some ''x'') None None" nowhere] t numbers_used_run[OF polled_run] by simp
  have "\<forall>(e, x)\<in>set [(sample_env, R_stop None), (sample_env, R_poll None None None)]. lacks_token (sv_token polled_server) e x" by simp
  with guards[where rs = "[(sample_env, R_stop None), (sample_env, R_poll None None None)]"]
  show "list_all (\<lambda>x. \<exists>n. sd_server x = refusals n polled_server) (serve_all nowhere [(sample_env, R_stop None), (sample_env, R_poll None None None)] polled_server)"
    unfolding list_all_iff by blast
qed

text \<open>One body needs no token to do harm: on the word \<open>null\<close> reading the token throws, and the process ends.\<close>

lemma null_body_crashes: "ev_parse env body = Some JNull \<Longrightarrow> has_body body r \<Longrightarrow> sd_answer (serve_request su env r srv) = Some Crashed"
  by (cases r) (simp_all add: plain_answer_def post_events_def handlePollPost_def)

section \<open>The file routes\<close>

lemma includes_infix: "includes_str (a @ p @ b) p"
proof (induction a)
  case Nil
  have "take (length p) (p @ b) = p" by simp
  then show ?case by (cases "p @ b") (auto simp: starts_with_def simp del: append_eq_Cons_conv append_eq_conv_conj)
qed simp

lemma split_on_infix: "w \<in> set (split_on d p) \<Longrightarrow> \<exists>a b. p = a @ w @ b"
proof (induction p arbitrary: w)
  case (Cons c p)
  obtain w0 ws where w0: "split_on d p = w0 # ws" by (cases "split_on d p") auto
  show ?case
  proof (cases "c \<noteq> d \<and> w = c # w0")
    case True
    have "take (length w0) p = w0"
    proof -
      have "join_with [d] (w0 # ws) = p" using join_split_on[of d p] w0 by simp
      then show ?thesis by (cases ws) auto
    qed
    then have "c # p = [] @ w @ drop (length w0) p" using True by (metis append_Cons append_Nil append_take_drop_id)
    then show ?thesis by blast
  next
    case False
    with Cons.prems w0 have "w = [] \<or> w \<in> set (split_on d p)" by (auto split: if_splits)
    then show ?thesis
    proof
      assume "w \<in> set (split_on d p)"
      from Cons.IH[OF this] obtain a b where "p = a @ w @ b" by blast
      then have "c # p = (c # a) @ w @ b" by simp
      then show ?thesis by blast
    qed auto
  qed
qed simp

lemma walk_up_free: "''..'' \<notin> set ss \<Longrightarrow> \<exists>rest. walk stack ss = stack @ rest"
proof (induction ss arbitrary: stack)
  case (Cons x ss)
  then show ?case using Cons.IH[of "stack @ [x]"] by (auto intro: Cons.IH)
qed simp

text \<open>
  What \<open>/source\<close> serves: for a path that is not absolute, a file under the project directory, since a
  path with two dots in a row is refused. For an absolute one only the text is compared.
\<close>

lemma source_relative_inside:
  assumes "source_route cwd read stok tok (Some p) = (200, c)" "\<not> starts_with p ''/''"
  shows "\<exists>rest. read (path_text (cwd @ rest)) = Some c"
proof -
  from assms(1) have dots: "\<not> includes_str p ''..''" and read: "read (path_text (resolve_segments cwd p)) = Some c"
    by (auto simp: source_route_def Let_def split: if_splits option.splits)
  have "''..'' \<notin> set (split_on (CHR ''/'') p)" using split_on_infix[of "''..''" "CHR ''/''" p] includes_infix[of _ "''..''"] dots by auto
  with walk_up_free[of "split_on (CHR ''/'') p" cwd] read assms(2) show ?thesis by (auto simp: resolve_segments_def)
qed

lemma source_sibling_served:
  "source_route [''p'', ''app''] (\<lambda>f. if f = ''/p/app-keys/k'' then Some ''secret'' else None) ''k'' (Some ''k'') (Some ''/p/app-keys/k'') = (200, ''secret'')"
  by code_simp

lemma receive_bounded: "receive_chunks n kept cs = Some out \<Longrightarrow> n = length (concat kept) \<Longrightarrow> n \<le> MAX_ANNOTATION_BYTES \<Longrightarrow> length (concat out) \<le> MAX_ANNOTATION_BYTES"
proof (induction cs arbitrary: n kept)
  case (Cons c cs)
  then show ?case using Cons.IH[of "n + length c" "kept @ [c]"] by (simp split: if_splits)
qed simp

text \<open>An upload writes at most the limit, to a plain name in the directory of the session.\<close>

lemma annotation_bounded:
  assumes "annotation_route sessionDir writable stok tok eventId contentType chunks = Inr (f, bytes)"
  shows "length bytes \<le> MAX_ANNOTATION_BYTES \<and> bytes = concat chunks \<and> (\<exists>dir i. sessionDir = Some dir \<and> f = dir @ ''/'' @ i @ ''.png'' \<and> i \<noteq> [] \<and> CHR ''/'' \<notin> set i \<and> CHR ''.'' \<notin> set i)"
proof -
  have all: "receive_chunks n kept cs = Some out \<Longrightarrow> out = kept @ cs" for n kept cs out
  proof (induction cs arbitrary: n kept)
    case (Cons c cs)
    then show ?case using Cons.IH[of "n + length c" "kept @ [c]"] by (simp split: if_splits)
  qed simp
  from assms obtain dir i kept where "sessionDir = Some dir" "annotation_id i" "f = dir @ ''/'' @ i @ ''.png''" "receive_chunks 0 [] chunks = Some kept" "bytes = concat kept"
    by (auto simp: annotation_route_def Let_def split: if_splits option.splits)
  then show ?thesis
    using receive_bounded[of 0 "[]" chunks kept] all[of 0 "[]" chunks kept]
    by (auto simp: annotation_id_def list_all_iff is_session_char_def is_digit_def is_lower_def is_upper_def)
qed

text \<open>One file in the sessions directory whose name is no session id keeps every later server from starting.\<close>

lemma stray_file_stops_start:
  assumes "f \<in> set files" "\<not> list_all is_session_char f"
  shows "\<exists>err. start_server env files token st = Inl err"
proof -
  have bad: "\<exists>err. getSnapshot num parse now f inc st = Inl err" for num parse now inc st
    using assms(2) by (simp add: getSnapshot_def rbind_def safeSessionId_def)
  have "f \<in> set ids \<Longrightarrow> \<exists>err. snapshots_of num parse now ids st = Inl err" for num parse now ids st
  proof (induction ids arbitrary: st)
    case (Cons i ids)
    show ?case
    proof (cases "i = f")
      case True
      with bad[of num parse now False st] show ?thesis by (auto simp: rbind_def)
    next
      case False
      with Cons have "\<exists>err. snapshots_of num parse now ids st' = Inl err" for st' by simp
      then have e: "\<exists>err. rbind (snapshots_of num parse now ids st') k = Inl err" for st' k
        by (metis rbind_simps(1))
      show ?thesis
      proof (cases "getSnapshot num parse now i False st")
        case (Inr x)
        then show ?thesis using e by (cases x) (simp add: rbind_def)
      qed (simp add: rbind_def)
    qed
  qed simp
  from this[of "js_sort cmp_text (remdups files)" "ev_num env" "ev_parse env" "ev_iso env" "st\<lparr>st_cache := Map.empty\<rparr>"] assms(1)
  show ?thesis by (auto simp: start_server_def restorePendingEventsFromStore_def listActiveSessions_def rbind_def)
qed

text \<open>
  The activity that reports a reply nobody awaits takes its type from the reply: the browsers hear a
  message with the type and the id of the reply itself.
\<close>

lemma unknown_reply_masquerades:
  assumes "ev_parse env body = Some msg" "handlePollPost env cwd manifest body srv = (Http 404 err, srv')" "fld (Some msg) ''type'' = Some (JStr t)" "t \<noteq> []"
  shows "sv_sent srv' \<noteq> [] \<and> map_of (last (sv_sent srv')) ''type'' = Some (Some (JStr t)) \<and> map_of (last (sv_sent srv')) ''id'' = Some (fld (Some msg) ''id'')"
  using assms by (auto simp: handlePollPost_def Let_def recordManualEditActivity_def or_null_def split_beta split: if_splits)

end
