(* ===== verification/Apply_Files.thy ===== *)
theory Apply_Files
  imports Apply_Chunks Live_Server
begin

text \<open>
  The files that an Apply may change, \<open>live/manual-apply.mjs\<close>: which they are, the snapshot that is taken
  before an event is sent, the transaction that is written before a commit, and the two ways back. The
  disk is a map from absolute paths, as lists of segments, to texts. A file that cannot be read,
  and one that cannot be written or removed, is told by a predicate; a write that fails leaves the file
  as it was.
\<close>

section \<open>Files of the project\<close>

type_synonym disk = "string list \<rightharpoonup> string"

record disk_env =
  de_cwd :: "string list"
  de_unreadable :: "string list \<Rightarrow> bool"
  de_unwritable :: "string list \<Rightarrow> bool"

definition normalizeProjectFile :: "string list \<Rightarrow> js \<Rightarrow> string option" where
  "normalizeProjectFile cwd file = (case file of
       Some (JStr f) \<Rightarrow>
         let rel = join_with ''/'' (relative_segments cwd (resolve_segments cwd f)) in
         if f = [] \<or> rel = [] \<or> starts_with rel ''..'' \<or> starts_with rel ''/'' then None else Some rel
     | _ \<Rightarrow> None)"

definition candidate_files :: "json \<Rightarrow> js list" where
  "candidate_files c =
     [fld (fld (Some c) ''sourceHint'') ''relativeFile'', fld (fld (Some c) ''sourceHint'') ''file''] @
     concat (map (\<lambda>key. map (\<lambda>x. fld (Some x) ''file'') (array_items (fld (Some c) key)))
       [''textMatches'', ''objectKeyMatches'', ''locatorMatches'', ''contextTextMatches''])"

text \<open>The files that the operations and the candidates of a batch name, and the extra ones; repeated names count once.\<close>

definition collectManualApplyFiles :: "string list \<Rightarrow> apply_batch \<Rightarrow> js list \<Rightarrow> string list" where
  "collectManualApplyFiles cwd batch extraFiles =
     List.map_filter (normalizeProjectFile cwd) (rev (remdups (rev (
       concat (map (\<lambda>e. map (\<lambda>op. fld (fld (Some op) ''sourceHint'') ''file'') (ae_ops e)) (ab_entries batch)) @
       concat (map candidate_files (ab_candidates batch)) @ extraFiles))))"

section \<open>The snapshot of an event\<close>

record saved_file =
  sf_exists :: bool
  sf_content :: string

abbreviation file_at :: "disk_env \<Rightarrow> string \<Rightarrow> string list" where
  "file_at env r \<equiv> resolve_segments (de_cwd env) r"

definition save_file :: "disk_env \<Rightarrow> disk \<Rightarrow> string \<Rightarrow> saved_file option" where
  "save_file env d r = (case d (file_at env r) of
       None \<Rightarrow> Some \<lparr>sf_exists = False, sf_content = []\<rparr>
     | Some c \<Rightarrow> if de_unreadable env (file_at env r) then None else Some \<lparr>sf_exists = True, sf_content = c\<rparr>)"

definition snapshotApplyEventFiles :: "disk_env \<Rightarrow> apply_batch \<Rightarrow> disk \<Rightarrow> (string, saved_file) jmap" where
  "snapshotApplyEventFiles env batch d =
     fold (\<lambda>r m. case save_file env d r of Some b \<Rightarrow> AList.update r b m | None \<Rightarrow> m) (collectManualApplyFiles (de_cwd env) batch []) []"

record restoring =
  re_disk :: disk
  re_rolledBack :: "string list"
  re_failures :: "string list"

definition restore_file :: "disk_env \<Rightarrow> string \<Rightarrow> saved_file \<Rightarrow> restoring \<Rightarrow> restoring" where
  "restore_file env r b s =
     (let p = file_at env r in
      if sf_exists b \<or> re_disk s p \<noteq> None then
        if de_unwritable env p then s\<lparr>re_failures := re_failures s @ [r]\<rparr>
        else s\<lparr>re_disk := (re_disk s)(p := (if sf_exists b then Some (sf_content b) else None)), re_rolledBack := re_rolledBack s @ [r]\<rparr>
      else s\<lparr>re_rolledBack := re_rolledBack s @ [r]\<rparr>)"

definition restore_known :: "disk_env \<Rightarrow> (string \<Rightarrow> saved_file option) \<Rightarrow> string \<Rightarrow> restoring \<Rightarrow> restoring" where
  "restore_known env snap r s = (case snap r of None \<Rightarrow> s | Some b \<Rightarrow> restore_file env r b s)"

definition rollbackApplySnapshot :: "disk_env \<Rightarrow> apply_batch \<Rightarrow> (string, saved_file) jmap \<Rightarrow> js list \<Rightarrow> disk \<Rightarrow> restoring" where
  "rollbackApplySnapshot env batch snap extraFiles d =
     fold (restore_known env (map_of snap)) (collectManualApplyFiles (de_cwd env) batch extraFiles) \<lparr>re_disk = d, re_rolledBack = [], re_failures = []\<rparr>"

section \<open>The transaction of a commit\<close>

record transaction =
  tx_id :: string
  tx_pageUrl :: "string option"
  tx_entryIds :: "string list"
  tx_files :: "(string \<times> saved_file) list"

text \<open>The transaction file: none, one that does not parse, or the one that was written.\<close>

datatype tx_file = No_tx | Bad_tx | Tx transaction

definition readManualApplyTransaction :: "tx_file \<Rightarrow> transaction option" where
  "readManualApplyTransaction f = (case f of Tx t \<Rightarrow> Some t | _ \<Rightarrow> None)"

text \<open>A file that cannot be read is an exception, before anything is written.\<close>

definition writeManualApplyTransaction :: "disk_env \<Rightarrow> string \<Rightarrow> string option \<Rightarrow> apply_batch \<Rightarrow> disk \<Rightarrow> transaction result" where
  "writeManualApplyTransaction env i page batch d =
     (let files = collectManualApplyFiles (de_cwd env) batch [] in
      if list_all (\<lambda>r. save_file env d r \<noteq> None) files
      then Inr \<lparr>tx_id = i, tx_pageUrl = page, tx_entryIds = filter (\<lambda>e. e \<noteq> []) (map ae_id (ab_entries batch)),
             tx_files = map (\<lambda>r. (r, the (save_file env d r))) files\<rparr>
      else Inl ''unreadable'')"

definition clearManualApplyTransaction :: "string option \<Rightarrow> tx_file \<Rightarrow> bool \<times> tx_file" where
  "clearManualApplyTransaction i f = (case f of
       No_tx \<Rightarrow> (False, f)
     | Bad_tx \<Rightarrow> (True, No_tx)
     | Tx t \<Rightarrow> if i \<noteq> None \<and> i \<noteq> Some [] \<and> tx_id t \<noteq> [] \<and> i \<noteq> Some (tx_id t) then (False, f) else (True, No_tx))"

record tx_rollback =
  tr_id :: string
  tr_skipped :: bool
  tr_rolledBack :: "string list"
  tr_failures :: "string list"

definition pending_ids :: "buffer_file \<Rightarrow> js set" where
  "pending_ids buf = set (filter js_truthy (map be_id (readBuffer buf)))"

definition restore_item :: "disk_env \<Rightarrow> string \<times> saved_file \<Rightarrow> restoring \<Rightarrow> restoring" where
  "restore_item env = (\<lambda>(file, b) s. case normalizeProjectFile (de_cwd env) (Some (JStr file)) of None \<Rightarrow> s | Some r \<Rightarrow> restore_file env r b s)"

definition rollbackManualApplyTransaction ::
    "disk_env \<Rightarrow> string option \<Rightarrow> buffer_file \<Rightarrow> disk \<times> tx_file \<Rightarrow> tx_rollback option \<times> disk \<times> tx_file" where
  "rollbackManualApplyTransaction env page buf = (\<lambda>(d, f).
     case readManualApplyTransaction f of
       None \<Rightarrow> (None, d, f)
     | Some t \<Rightarrow>
         if named_page page \<and> named_page (tx_pageUrl t) \<and> tx_pageUrl t \<noteq> page then (None, d, f)
         else if \<not> list_ex (\<lambda>i. Some (JStr i) \<in> pending_ids buf) (tx_entryIds t)
         then (Some \<lparr>tr_id = tx_id t, tr_skipped = True, tr_rolledBack = [], tr_failures = []\<rparr>, d, snd (clearManualApplyTransaction (Some (tx_id t)) f))
         else let s = fold (restore_item env) (tx_files t) \<lparr>re_disk = d, re_rolledBack = [], re_failures = []\<rparr> in
           (Some \<lparr>tr_id = tx_id t, tr_skipped = False, tr_rolledBack = re_rolledBack s, tr_failures = re_failures s\<rparr>, re_disk s,
            snd (clearManualApplyTransaction (Some (tx_id t)) f)))"

section \<open>Paths\<close>

definition clean_segment :: "string \<Rightarrow> bool" where
  "clean_segment s \<longleftrightarrow> s \<noteq> [] \<and> s \<noteq> ''.'' \<and> s \<noteq> ''..'' \<and> CHR ''/'' \<notin> set s"

lemma walk_clean:
  "list_all clean_segment stack \<Longrightarrow> \<forall>s\<in>set ss. CHR ''/'' \<notin> set s \<Longrightarrow> list_all clean_segment (walk stack ss)"
proof (induction ss arbitrary: stack)
  case (Cons s ss)
  have "list_all clean_segment (butlast stack)" using Cons.prems(1) by (auto simp: list_all_iff dest: in_set_butlastD)
  moreover have "s \<noteq> [] \<Longrightarrow> s \<noteq> ''.'' \<Longrightarrow> s \<noteq> ''..'' \<Longrightarrow> clean_segment s" using Cons.prems by (simp add: clean_segment_def)
  ultimately show ?case using Cons by simp
qed simp

lemma walk_forward: "list_all clean_segment ss \<Longrightarrow> walk stack ss = stack @ ss"
  by (induction ss arbitrary: stack) (auto simp: clean_segment_def)

lemma resolve_clean: "list_all clean_segment cwd \<Longrightarrow> list_all clean_segment (resolve_segments cwd f)"
  unfolding resolve_segments_def by (rule walk_clean) (auto dest: split_on_no_sep)

lemma relative_cases: "(\<exists>rest. full = cwd @ rest \<and> relative_segments cwd full = rest) \<or> (\<exists>xs. relative_segments cwd full = ''..'' # xs)"
proof (induction cwd arbitrary: full)
  case (Cons a cwd)
  then show ?case by (cases full) auto
qed simp

lemma relative_inside [simp]: "relative_segments cwd (cwd @ rest) = rest"
  by (induction cwd) (cases rest; auto)+

lemma join_starts: "starts_with (join_with d (x # xs)) x"
  by (cases xs) (auto simp: starts_with_def)

lemma split_join_clean: "segs \<noteq> [] \<Longrightarrow> list_all clean_segment segs \<Longrightarrow> split_on (CHR ''/'') (join_with ''/'' segs) = segs"
proof (induction segs rule: induct_list012)
  case (3 a b xs)
  then show ?case by (simp add: clean_segment_def split_on_append split_on_single)
qed (auto simp: clean_segment_def split_on_single)

text \<open>A name that passes is a path below the project directory, in the form that is unique to it.\<close>

lemma project_file:
  assumes "list_all clean_segment cwd" "normalizeProjectFile cwd v = Some r"
  shows "resolve_segments cwd r = cwd @ split_on (CHR ''/'') r" "normalizeProjectFile cwd (Some (JStr r)) = Some r"
proof -
  from assms(2) obtain f where f: "v = Some (JStr f)" "r = join_with ''/'' (relative_segments cwd (resolve_segments cwd f))"
    "r \<noteq> []" "\<not> starts_with r ''..''" "\<not> starts_with r ''/''"
    by (auto simp: normalizeProjectFile_def Let_def split: option.splits json.splits if_splits)
  from relative_cases[of "resolve_segments cwd f" cwd] f obtain rest where
    rest: "resolve_segments cwd f = cwd @ rest" "r = join_with ''/'' rest"
    using join_starts[of "''/''" "''..''"] by auto
  have clean: "list_all clean_segment rest" "rest \<noteq> []" using resolve_clean[OF assms(1), of f] rest f(3) by auto
  note split = split_join_clean[OF clean(2,1), folded rest(2)]
  show full: "resolve_segments cwd r = cwd @ split_on (CHR ''/'') r"
    using walk_forward[OF clean(1), of cwd] f(5) by (simp add: resolve_segments_def split)
  show "normalizeProjectFile cwd (Some (JStr r)) = Some r" using f(3-5) unfolding normalizeProjectFile_def by (simp add: full split flip: rest(2))
qed

lemma file_at_inj:
  assumes "list_all clean_segment cwd" "normalizeProjectFile cwd v = Some r" "normalizeProjectFile cwd v' = Some r'"
    "resolve_segments cwd r = resolve_segments cwd r'"
  shows "r = r'"
  using project_file(1)[OF assms(1,2)] project_file(1)[OF assms(1,3)] assms(4) by (metis same_append_eq join_split_on)

lemma collected: "r \<in> set (collectManualApplyFiles cwd batch extraFiles) \<Longrightarrow> \<exists>v. normalizeProjectFile cwd v = Some r"
  by (auto simp: collectManualApplyFiles_def List.map_filter_def)

lemma collected_more: "set (collectManualApplyFiles cwd batch []) \<subseteq> set (collectManualApplyFiles cwd batch extraFiles)"
  by (auto simp: collectManualApplyFiles_def List.map_filter_def)

section \<open>Restoring\<close>

definition saved_value :: "saved_file \<Rightarrow> string option" where
  "saved_value b = (if sf_exists b then Some (sf_content b) else None)"

lemma save_file_value: "save_file env d r = Some b \<Longrightarrow> saved_value b = d (file_at env r)"
  by (auto simp: save_file_def saved_value_def split: option.splits if_splits)

lemma restore_step:
  "re_disk (restore_file env r b s) = (if de_unwritable env (file_at env r) then re_disk s else (re_disk s)(file_at env r := saved_value b))"
  "set (re_failures (restore_file env r b s)) =
     set (re_failures s) \<union> (if de_unwritable env (file_at env r) \<and> (sf_exists b \<or> re_disk s (file_at env r) \<noteq> None) then {r} else {})"
  by (auto simp: restore_file_def Let_def saved_value_def)

lemma restore_all:
  assumes "\<forall>x\<in>set items. \<forall>y\<in>set items. file_at env (fst x) = file_at env (fst y) \<longrightarrow> x = y"
  shows "re_disk (fold (case_prod (restore_file env)) items s) p =
      (if p \<in> (\<lambda>x. file_at env (fst x)) ` set items \<and> \<not> de_unwritable env p
       then saved_value (the (map_of (map (\<lambda>(r, b). (file_at env r, b)) items) p)) else re_disk s p)"
    "set (re_failures (fold (case_prod (restore_file env)) items s)) =
      set (re_failures s) \<union> {r. \<exists>b. (r, b) \<in> set items \<and> de_unwritable env (file_at env r) \<and> (sf_exists b \<or> re_disk s (file_at env r) \<noteq> None)}"
proof -
  show "set (re_failures (fold (case_prod (restore_file env)) items s)) =
      set (re_failures s) \<union> {r. \<exists>b. (r, b) \<in> set items \<and> de_unwritable env (file_at env r) \<and> (sf_exists b \<or> re_disk s (file_at env r) \<noteq> None)}"
  proof (induction items arbitrary: s)
    case (Cons x xs)
    obtain r b where x: "x = (r, b)" by (cases x)
    have kept: "de_unwritable env q \<Longrightarrow> re_disk (restore_file env r b s) q = re_disk s q" for q by (auto simp: restore_step)
    show ?case using Cons[of "restore_file env r b s"] kept by (auto simp: x restore_step(2))
  qed simp
  show "re_disk (fold (case_prod (restore_file env)) items s) p =
      (if p \<in> (\<lambda>x. file_at env (fst x)) ` set items \<and> \<not> de_unwritable env p
       then saved_value (the (map_of (map (\<lambda>(r, b). (file_at env r, b)) items) p)) else re_disk s p)"
    using assms
  proof (induction items arbitrary: s)
    case (Cons x xs)
    obtain r b where x: "x = (r, b)" by (cases x)
    have same: "file_at env r = file_at env r' \<Longrightarrow> (r', b') \<in> set xs \<Longrightarrow> b' = b" for r' b' using Cons.prems x by fastforce
    have found: "p = file_at env r \<Longrightarrow> p \<in> (\<lambda>x. file_at env (fst x)) ` set xs \<Longrightarrow> map_of (map (\<lambda>(r, b). (file_at env r, b)) xs) p = Some b"
    proof -
      assume p: "p = file_at env r" "p \<in> (\<lambda>x. file_at env (fst x)) ` set xs"
      then obtain b' where "map_of (map (\<lambda>(r, b). (file_at env r, b)) xs) p = Some b'"
        by (cases "map_of (map (\<lambda>(r, b). (file_at env r, b)) xs) p") (auto simp: map_of_eq_None_iff image_iff split: prod.splits)
      moreover from map_of_SomeD[OF this] have "b' = b" using same p(1) by auto
      ultimately show ?thesis by simp
    qed
    have IH: "re_disk (fold (case_prod (restore_file env)) xs (restore_file env r b s)) p =
      (if p \<in> (\<lambda>x. file_at env (fst x)) ` set xs \<and> \<not> de_unwritable env p
       then saved_value (the (map_of (map (\<lambda>(r, b). (file_at env r, b)) xs) p)) else re_disk (restore_file env r b s) p)"
      using Cons.prems by (intro Cons.IH) auto
    show ?case using IH found by (auto simp: x restore_step)
  qed simp
qed

text \<open>The items of a rollback that remember the disk \<open>d0\<close> bring it back.\<close>

lemma restore_saved:
  assumes "list_all clean_segment (de_cwd env)"
    "\<forall>(r, b)\<in>set items. (\<exists>v. normalizeProjectFile (de_cwd env) v = Some r) \<and> save_file env d0 r = Some b"
  shows "re_disk (fold (case_prod (restore_file env)) items s) p =
      (if p \<in> file_at env ` fst ` set items \<and> \<not> de_unwritable env p then d0 p else re_disk s p)"
    "set (re_failures (fold (case_prod (restore_file env)) items s)) =
      set (re_failures s) \<union> {r \<in> fst ` set items. de_unwritable env (file_at env r) \<and> (d0 (file_at env r) \<noteq> None \<or> re_disk s (file_at env r) \<noteq> None)}"
proof -
  have inj: "\<forall>x\<in>set items. \<forall>y\<in>set items. file_at env (fst x) = file_at env (fst y) \<longrightarrow> x = y"
  proof (intro ballI impI)
    fix x y assume xy: "x \<in> set items" "y \<in> set items" "file_at env (fst x) = file_at env (fst y)"
    from assms(2) xy(1,2) obtain v v' where v: "normalizeProjectFile (de_cwd env) v = Some (fst x)" "normalizeProjectFile (de_cwd env) v' = Some (fst y)"
      "save_file env d0 (fst x) = Some (snd x)" "save_file env d0 (fst y) = Some (snd y)" by fastforce
    from file_at_inj[OF assms(1) v(1,2) xy(3)] v(3,4) show "x = y" by (simp add: prod_eq_iff)
  qed
  have saved: "(r, b) \<in> set items \<Longrightarrow> saved_value b = d0 (file_at env r)" for r b using assms(2) by (auto dest: save_file_value)
  have found: "saved_value (the (map_of (map (\<lambda>(r, b). (file_at env r, b)) items) p)) = d0 p" if p: "p \<in> file_at env ` fst ` set items"
  proof -
    from p obtain b where "map_of (map (\<lambda>(r, b). (file_at env r, b)) items) p = Some b"
      by (cases "map_of (map (\<lambda>(r, b). (file_at env r, b)) items) p") (auto simp: map_of_eq_None_iff image_iff split: prod.splits)
    moreover from map_of_SomeD[OF this] have "saved_value b = d0 p" using saved by auto
    ultimately show ?thesis by simp
  qed
  show "re_disk (fold (case_prod (restore_file env)) items s) p =
      (if p \<in> file_at env ` fst ` set items \<and> \<not> de_unwritable env p then d0 p else re_disk s p)"
    using restore_all(1)[OF inj, of s p] found by (simp add: image_image)
  have exists: "(r, b) \<in> set items \<Longrightarrow> sf_exists b \<longleftrightarrow> d0 (file_at env r) \<noteq> None" for r b
    using saved[of r b, symmetric] by (simp add: saved_value_def)
  show "set (re_failures (fold (case_prod (restore_file env)) items s)) =
      set (re_failures s) \<union> {r \<in> fst ` set items. de_unwritable env (file_at env r) \<and> (d0 (file_at env r) \<noteq> None \<or> re_disk s (file_at env r) \<noteq> None)}"
    unfolding restore_all(2)[OF inj] using exists by (force simp: image_iff)
qed

lemma snapshot_map:
  "map_of (snapshotApplyEventFiles env batch d) r = (if r \<in> set (collectManualApplyFiles (de_cwd env) batch []) then save_file env d r else None)"
proof -
  have "map_of (fold (\<lambda>r m. case save_file env d r of Some b \<Rightarrow> AList.update r b m | None \<Rightarrow> m) rs m) r =
      (if r \<in> set rs \<and> save_file env d r \<noteq> None then save_file env d r else map_of m r)" for rs m
    by (induction rs arbitrary: m) (auto simp: update_conv' split: option.splits)
  then show ?thesis by (auto simp: snapshotApplyEventFiles_def)
qed

lemma fold_known:
  "fold (restore_known env snap) rs s = fold (case_prod (restore_file env)) (List.map_filter (\<lambda>r. map_option (Pair r) (snap r)) rs) s"
  by (induction rs arbitrary: s) (auto simp: restore_known_def List.map_filter_def split: option.splits)

text \<open>What a batch covers: the paths of its files that could be read, or were not there, on the disk \<open>d\<close>.\<close>

definition covered_paths :: "disk_env \<Rightarrow> apply_batch \<Rightarrow> disk \<Rightarrow> string list set" where
  "covered_paths env batch d = {file_at env r |r. r \<in> set (collectManualApplyFiles (de_cwd env) batch []) \<and> save_file env d r \<noteq> None}"

definition restored :: "disk_env \<Rightarrow> string list set \<Rightarrow> disk \<Rightarrow> disk \<Rightarrow> disk" where
  "restored env ps d0 d p = (if p \<in> ps \<and> \<not> de_unwritable env p then d0 p else d p)"

lemma covered_inside: "list_all clean_segment (de_cwd env) \<Longrightarrow> p \<in> covered_paths env batch d \<Longrightarrow> \<exists>rest. rest \<noteq> [] \<and> p = de_cwd env @ rest"
  using project_file(1) by (auto simp: covered_paths_def dest!: collected)

lemma snapshot_rollback:
  assumes "list_all clean_segment (de_cwd env)"
  shows "re_disk (rollbackApplySnapshot env batch (snapshotApplyEventFiles env batch d0) extraFiles d) = restored env (covered_paths env batch d0) d0 d"
    "set (re_failures (rollbackApplySnapshot env batch (snapshotApplyEventFiles env batch d0) extraFiles d)) =
      {r \<in> set (collectManualApplyFiles (de_cwd env) batch []). save_file env d0 r \<noteq> None \<and> de_unwritable env (file_at env r) \<and>
        (d0 (file_at env r) \<noteq> None \<or> d (file_at env r) \<noteq> None)}"
proof -
  let ?items = "List.map_filter (\<lambda>r. map_option (Pair r) (map_of (snapshotApplyEventFiles env batch d0) r)) (collectManualApplyFiles (de_cwd env) batch extraFiles)"
  have items: "x \<in> set ?items \<longleftrightarrow> fst x \<in> set (collectManualApplyFiles (de_cwd env) batch []) \<and> save_file env d0 (fst x) = Some (snd x)" for x
    using collected_more[of "de_cwd env" batch extraFiles] by (cases x) (auto simp: List.map_filter_def snapshot_map image_iff)
  have ok: "\<forall>(r, b)\<in>set ?items. (\<exists>v. normalizeProjectFile (de_cwd env) v = Some r) \<and> save_file env d0 r = Some b"
    using items by (auto dest: collected)
  have names: "fst ` set ?items = {r \<in> set (collectManualApplyFiles (de_cwd env) batch []). save_file env d0 r \<noteq> None}"
  proof (rule set_eqI)
    fix r
    have "r \<in> fst ` set ?items \<longleftrightarrow> (\<exists>b. (r, b) \<in> set ?items)" by force
    also have "\<dots> \<longleftrightarrow> r \<in> {r \<in> set (collectManualApplyFiles (de_cwd env) batch []). save_file env d0 r \<noteq> None}" by (simp add: items)
    finally show "r \<in> fst ` set ?items \<longleftrightarrow> r \<in> {r \<in> set (collectManualApplyFiles (de_cwd env) batch []). save_file env d0 r \<noteq> None}" .
  qed
  show "re_disk (rollbackApplySnapshot env batch (snapshotApplyEventFiles env batch d0) extraFiles d) = restored env (covered_paths env batch d0) d0 d"
    unfolding rollbackApplySnapshot_def fold_known
    by (rule ext) (simp add: restore_saved(1)[OF assms ok] names restored_def covered_paths_def image_iff, auto)
  show "set (re_failures (rollbackApplySnapshot env batch (snapshotApplyEventFiles env batch d0) extraFiles d)) =
      {r \<in> set (collectManualApplyFiles (de_cwd env) batch []). save_file env d0 r \<noteq> None \<and> de_unwritable env (file_at env r) \<and>
        (d0 (file_at env r) \<noteq> None \<or> d (file_at env r) \<noteq> None)}"
    unfolding rollbackApplySnapshot_def fold_known restore_saved(2)[OF assms ok] names by auto
qed

text \<open>The transaction that was written, put back later.\<close>

lemma transaction_written:
  assumes "writeManualApplyTransaction env i page batch d0 = Inr t"
  shows "tx_id t = i" "tx_pageUrl t = page" "tx_entryIds t = filter (\<lambda>e. e \<noteq> []) (map ae_id (ab_entries batch))"
    "fst ` set (tx_files t) = set (collectManualApplyFiles (de_cwd env) batch [])"
    "\<forall>(r, b)\<in>set (tx_files t). (\<exists>v. normalizeProjectFile (de_cwd env) v = Some r) \<and> save_file env d0 r = Some b"
    "covered_paths env batch d0 = file_at env ` fst ` set (tx_files t)"
proof -
  from assms have all: "\<forall>r\<in>set (collectManualApplyFiles (de_cwd env) batch []). save_file env d0 r \<noteq> None"
    and t: "t = \<lparr>tx_id = i, tx_pageUrl = page, tx_entryIds = filter (\<lambda>e. e \<noteq> []) (map ae_id (ab_entries batch)),
      tx_files = map (\<lambda>r. (r, the (save_file env d0 r))) (collectManualApplyFiles (de_cwd env) batch [])\<rparr>"
    by (simp_all add: writeManualApplyTransaction_def Let_def list_all_iff split: if_splits)
  then show "tx_id t = i" "tx_pageUrl t = page" "tx_entryIds t = filter (\<lambda>e. e \<noteq> []) (map ae_id (ab_entries batch))"
    and files: "fst ` set (tx_files t) = set (collectManualApplyFiles (de_cwd env) batch [])"
    and "\<forall>(r, b)\<in>set (tx_files t). (\<exists>v. normalizeProjectFile (de_cwd env) v = Some r) \<and> save_file env d0 r = Some b"
    by (auto simp: image_image dest: collected)
  have "covered_paths env batch d0 = {file_at env r |r. r \<in> set (collectManualApplyFiles (de_cwd env) batch [])}"
    unfolding covered_paths_def using all by blast
  then show "covered_paths env batch d0 = file_at env ` fst ` set (tx_files t)" unfolding files by blast
qed

lemma fold_items:
  assumes "list_all clean_segment (de_cwd env)" "\<forall>(r, b)\<in>set items. (\<exists>v. normalizeProjectFile (de_cwd env) v = Some r) \<and> save_file env d0 r = Some b"
  shows "fold (restore_item env) items s = fold (case_prod (restore_file env)) items s"
  using assms(2)
proof (induction items arbitrary: s)
  case (Cons x xs)
  obtain r b where x: "x = (r, b)" by (cases x)
  then have "restore_item env x s = restore_file env r b s" using Cons.prems project_file(2)[OF assms(1)] by (auto simp: restore_item_def)
  then show ?case using Cons by (simp add: x)
qed simp

section \<open>The way back\<close>

definition sent_back :: "disk_env \<Rightarrow> string option \<Rightarrow> buffer_file \<Rightarrow> transaction \<Rightarrow> bool" where
  "sent_back env page buf t \<longleftrightarrow> (named_page page \<and> named_page (tx_pageUrl t) \<longrightarrow> tx_pageUrl t = page) \<and> (\<exists>i\<in>set (tx_entryIds t). Some (JStr i) \<in> pending_ids buf)"

text \<open>C23: a transaction was written over the disk \<open>d0\<close>, and the disk is whatever it is by now. A rollback
  for another page changes nothing. One for its page, or for any page, takes the transaction away: when an
  entry of it is still staged, every file of the batch that can be written is as it was on
  \<open>d0\<close>, the ones that were not there are gone again, and the rest of the disk is as it was; when none is
  staged the disk is left alone. Every file that is touched is below the project directory. The failures it
  reports are exactly the files of the batch that cannot be written and that were on \<open>d0\<close> or are on the disk
  now, so when it reports none the whole batch is as it was.\<close>

theorem transaction_rollback_exact:
  fixes asked buf d
  assumes "list_all clean_segment (de_cwd env)" "writeManualApplyTransaction env i page batch d0 = Inr t"
  defines "out \<equiv> rollbackManualApplyTransaction env asked buf (d, Tx t)"
  shows "(if named_page asked \<and> named_page page \<and> asked \<noteq> page then out = (None, d, Tx t)
     else snd (snd out) = No_tx \<and> fst (snd out) = (if sent_back env asked buf t then restored env (covered_paths env batch d0) d0 d else d) \<and>
       (\<exists>res. fst out = Some res \<and> tr_skipped res = (\<not> sent_back env asked buf t) \<and>
         set (tr_failures res) = (if sent_back env asked buf t then {r \<in> set (collectManualApplyFiles (de_cwd env) batch []).
           de_unwritable env (file_at env r) \<and> (d0 (file_at env r) \<noteq> None \<or> d (file_at env r) \<noteq> None)} else {}) \<and>
         (tr_failures res = [] \<longrightarrow> sent_back env asked buf t \<longrightarrow> (\<forall>p\<in>covered_paths env batch d0. fst (snd out) p = d0 p)))) \<and>
     (\<forall>p. fst (snd out) p \<noteq> d p \<longrightarrow> (\<exists>rest. rest \<noteq> [] \<and> p = de_cwd env @ rest))"
proof -
  note t = transaction_written[OF assms(2)]
  let ?s = "fold (restore_item env) (tx_files t) \<lparr>re_disk = d, re_rolledBack = [], re_failures = []\<rparr>"
  have disk: "re_disk ?s = restored env (covered_paths env batch d0) d0 d"
    unfolding fold_items[OF assms(1) t(5)] by (rule ext) (simp add: restore_saved(1)[OF assms(1) t(5)] restored_def t(6))
  have failures: "set (re_failures ?s) = {r \<in> set (collectManualApplyFiles (de_cwd env) batch []).
      de_unwritable env (file_at env r) \<and> (d0 (file_at env r) \<noteq> None \<or> d (file_at env r) \<noteq> None)}"
    unfolding fold_items[OF assms(1) t(5)] restore_saved(2)[OF assms(1) t(5)] t(4) by simp
  have all: "re_failures ?s = [] \<Longrightarrow> p \<in> covered_paths env batch d0 \<Longrightarrow> restored env (covered_paths env batch d0) d0 d p = d0 p" for p
    using failures by (auto simp: restored_def t(4,6))
  have inside: "restored env (covered_paths env batch d0) d0 d p \<noteq> d p \<Longrightarrow> \<exists>rest. rest \<noteq> [] \<and> p = de_cwd env @ rest" for p
    using covered_inside[OF assms(1)] by (auto simp: restored_def split: if_splits)
  have ex: "list_ex (\<lambda>i. Some (JStr i) \<in> pending_ids buf) (tx_entryIds t) \<longleftrightarrow> (\<exists>i\<in>set (tx_entryIds t). Some (JStr i) \<in> pending_ids buf)" by (simp add: list_ex_iff)
  consider (other) "named_page asked \<and> named_page page \<and> asked \<noteq> page"
    | (undo) "\<not> (named_page asked \<and> named_page page \<and> asked \<noteq> page)" "sent_back env asked buf t"
    | (none) "\<not> (named_page asked \<and> named_page page \<and> asked \<noteq> page)" "\<not> sent_back env asked buf t" by blast
  then show ?thesis
  proof cases
    case other
    then show ?thesis by (auto simp: out_def rollbackManualApplyTransaction_def readManualApplyTransaction_def t(2))
  next
    case undo
    then have "out = (Some \<lparr>tr_id = tx_id t, tr_skipped = False, tr_rolledBack = re_rolledBack ?s, tr_failures = re_failures ?s\<rparr>, re_disk ?s, No_tx)"
      by (auto simp: out_def rollbackManualApplyTransaction_def readManualApplyTransaction_def clearManualApplyTransaction_def sent_back_def ex t(2) Let_def)
    with undo disk failures all inside show ?thesis by auto
  next
    case none
    then have "out = (Some \<lparr>tr_id = tx_id t, tr_skipped = True, tr_rolledBack = [], tr_failures = []\<rparr>, d, No_tx)"
      by (auto simp: out_def rollbackManualApplyTransaction_def readManualApplyTransaction_def clearManualApplyTransaction_def sent_back_def ex t(2) Let_def)
    with none show ?thesis by auto
  qed
qed

definition example_env :: disk_env where
  "example_env = \<lparr>de_cwd = [''p''], de_unreadable = (\<lambda>_. False), de_unwritable = (\<lambda>_. False)\<rparr>"

definition hinted_op :: "string \<Rightarrow> json" where
  "hinted_op f = JObj [(''ref'', JStr ''r''), (''sourceHint'', JObj [(''file'', JStr f)])]"

definition hinted_batch :: apply_batch where
  "hinted_batch = \<lparr>ab_entries = [\<lparr>ae_id = ''e1'', ae_ops = [hinted_op ''a.html'', hinted_op ''../b.html'']\<rparr>], ab_candidates = []\<rparr>"

definition hinted_buffer :: buffer_file where
  "hinted_buffer = Buffer [\<lparr>be_id = Some (JStr ''e1''), be_pageUrl = Some (JStr ''/''), be_element = None, be_ops = [], be_stagedAt = []\<rparr>]"

definition example_transaction :: transaction where
  "example_transaction =
     \<lparr>tx_id = ''t'', tx_pageUrl = Some ''/'', tx_entryIds = [''e1''], tx_files = [(''a.html'', \<lparr>sf_exists = True, sf_content = ''old''\<rparr>)]\<rparr>"

lemma example_transaction_written:
  "writeManualApplyTransaction example_env ''t'' (Some ''/'') hinted_batch [[''p'', ''a.html''] \<mapsto> ''old'', [''b.html''] \<mapsto> ''b''] = Inr example_transaction"
  by code_simp

text \<open>A file of the project is put back, one beside it is not touched.\<close>

theorem transaction_rollback_exact_witness:
  "snd (snd (rollbackManualApplyTransaction example_env None hinted_buffer ([[''p'', ''a.html''] \<mapsto> ''new'', [''b.html''] \<mapsto> ''c''], Tx example_transaction))) = No_tx \<and>
   map (fst (snd (rollbackManualApplyTransaction example_env None hinted_buffer ([[''p'', ''a.html''] \<mapsto> ''new'', [''b.html''] \<mapsto> ''c''], Tx example_transaction))))
     [[''p'', ''a.html''], [''b.html'']] = [Some ''old'', Some ''c'']"
proof
  show "snd (snd (rollbackManualApplyTransaction example_env None hinted_buffer ([[''p'', ''a.html''] \<mapsto> ''new'', [''b.html''] \<mapsto> ''c''], Tx example_transaction))) = No_tx"
    using transaction_rollback_exact[OF _ example_transaction_written, of None hinted_buffer "[[''p'', ''a.html''] \<mapsto> ''new'', [''b.html''] \<mapsto> ''c'']"]
    by (simp add: example_env_def clean_segment_def named_page_def)
  show "map (fst (snd (rollbackManualApplyTransaction example_env None hinted_buffer ([[''p'', ''a.html''] \<mapsto> ''new'', [''b.html''] \<mapsto> ''c''], Tx example_transaction))))
     [[''p'', ''a.html''], [''b.html'']] = [Some ''old'', Some ''c'']"
    by code_simp
qed

text \<open>
  The transaction has one file for all pages. A commit for one page leaves the transaction of another
  one alone, and then writes its own over it:
  the files of the first page have no way back any more.
\<close>

lemma second_page_takes_slot:
  assumes "writeManualApplyTransaction env j (Some q) batch d = Inr t2" "named_page (Some q)" "named_page (Some p)" "p \<noteq> q"
  shows "rollbackManualApplyTransaction env (Some p) buf (d', Tx t2) = (None, d', Tx t2)"
  using assms transaction_written(2)[OF assms(1)] by (auto simp: rollbackManualApplyTransaction_def readManualApplyTransaction_def)

end
