(* ===== verification/Apply_Control.thy ===== *)
theory Apply_Control
  imports Apply_Files
begin

text \<open>
  The controller of chat-routed applies, \<open>createManualApplyController\<close> of \<open>live/manual-apply.mjs\<close>: the
  events that wait for an answer, the ids that were given up, the check of a reply, and the
  branches of \<open>handlePollPost\<close> in \<open>live-server.mjs\<close> that belong to it; then the discard route of
  \<open>live/manual-edit-routes.mjs\<close>. The event is kept with the fields the server reads again; the copy of
  the batch for the agent, the evidence file and the activity log are left out.
\<close>

section \<open>The check of a reply\<close>

definition first_some :: "'a option list \<Rightarrow> 'a option" where
  "first_some xs = (case filter (\<lambda>x. x \<noteq> None) xs of x # _ \<Rightarrow> x | [] \<Rightarrow> None)"

definition unless :: "bool \<Rightarrow> string \<Rightarrow> string option" where
  "unless ok reason = (if ok then None else Some reason)"

definition full_string :: "js \<Rightarrow> bool" where
  "full_string v = (case v of Some (JStr s) \<Rightarrow> s \<noteq> [] | _ \<Rightarrow> False)"

definition failed_problem :: "json \<Rightarrow> string option" where
  "failed_problem item = first_some
     [unless (case item of JObj kvs \<Rightarrow> True | _ \<Rightarrow> False) ''failed_must_contain_objects'',
      unless (full_string (fld (Some item) ''entryId'')) ''failed_entryId_required'',
      unless (full_string (fld (Some item) ''reason'')) ''failed_reason_required'']"

definition event_entry_ids :: "apply_entry list \<Rightarrow> json set" where
  "event_entry_ids es = set (map JStr (filter (\<lambda>i. i \<noteq> []) (map ae_id es)))"

definition known_to :: "json set \<Rightarrow> js \<Rightarrow> bool" where
  "known_to ids v \<longleftrightarrow> ids = {} \<or> v \<in> Some ` ids"

definition reply_problems :: "apply_entry list \<Rightarrow> json_object \<Rightarrow> string option list" where
  "reply_problems es kvs =
     (let data = Some (JObj kvs); status = fld data ''status''; applied = array_items (fld data ''appliedEntryIds''); failed = array_items (fld data ''failed'');
          ids = event_entry_ids es
      in [unless (map_of kvs ''entries'' = None \<and> map_of kvs ''ops'' = None) ''summary_result_not_allowed'',
          unless (status \<in> {Some (JStr ''done''), Some (JStr ''partial''), Some (JStr ''error'')}) ''invalid_status'']
       @ map (\<lambda>key. unless (is_array (fld data key)) (key @ ''_must_be_array'')) [''appliedEntryIds'', ''failed'', ''files'', ''notes'']
       @ [unless (list_all (\<lambda>v. full_string (Some v)) applied) ''appliedEntryIds_must_contain_strings'',
          unless (list_all (\<lambda>v. full_string (Some v)) (array_items (fld data ''files''))) ''files_must_contain_strings'',
          unless (list_all (\<lambda>v. js_is_string (Some v)) (array_items (fld data ''notes''))) ''notes_must_contain_strings'',
          first_some (map failed_problem failed),
          unless (list_all (\<lambda>v. known_to ids (Some v)) applied) ''applied_entry_id_not_in_event'',
          unless (list_all (\<lambda>item. known_to ids (fld (Some item) ''entryId'')) failed) ''failed_entry_id_not_in_event'',
          unless (status = Some (JStr ''done'') \<longrightarrow> failed = []) ''done_result_has_failed_entries'',
          unless (status = Some (JStr ''done'') \<and> countManualApplyOps es > 0 \<longrightarrow> applied \<noteq> []) ''done_result_missing_applied_entry_ids'',
          unless (status = Some (JStr ''partial'') \<longrightarrow> applied \<noteq> [] \<or> failed \<noteq> []) ''partial_result_has_no_entries'',
          unless (status = Some (JStr ''error'') \<longrightarrow> applied = []) ''error_result_has_applied_entries''])"

definition validateManualApplyResultMessage :: "json \<Rightarrow> apply_entry list \<Rightarrow> json result" where
  "validateManualApplyResultMessage msg es = (case fld (Some msg) ''data'' of
       Some (JObj kvs) \<Rightarrow> (case first_some (reply_problems es kvs) of
           Some reason \<Rightarrow> Inl reason
         | None \<Rightarrow> let data = Some (JObj kvs) in
             Inr (with_fields [(''status'', fld data ''status''), (''message'', if js_is_string (fld data ''message'') then fld data ''message'' else None),
               (''appliedEntryIds'', fld data ''appliedEntryIds''), (''failed'', fld data ''failed''), (''files'', fld data ''files''), (''notes'', fld data ''notes'')]))
     | _ \<Rightarrow> Inl ''missing_result_data'')"

section \<open>State\<close>

record deferred =
  df_batch :: apply_batch
  df_page :: "string option"
  df_snapshot :: "(string, saved_file) jmap"

record given_up =
  gu_batch :: apply_batch
  gu_snapshot :: "(string, saved_file) jmap"

text \<open>The promises that were settled are kept in order, with the error or the result.\<close>

record applying =
  ap_deferreds :: "(string, deferred) jmap"
  ap_timedOut :: "(string, given_up) jmap"
  ap_queue :: live_queue
  ap_disk :: disk
  ap_settled :: "(string \<times> (string + json)) list"

definition idle :: "live_queue \<Rightarrow> disk \<Rightarrow> applying" where
  "idle q d = \<lparr>ap_deferreds = [], ap_timedOut = [], ap_queue = q, ap_disk = d, ap_settled = []\<rparr>"

definition TOMBSTONES :: nat where "TOMBSTONES = 200"

definition tombstoneTimedOutApplyId :: "string \<Rightarrow> given_up \<Rightarrow> (string, given_up) jmap \<Rightarrow> (string, given_up) jmap" where
  "tombstoneTimedOutApplyId i g m =
     (if i = [] then m else let m1 = AList.update i g m in if length m1 \<le> TOMBSTONES then m1 else tl m1)"

definition apply_event :: "string \<Rightarrow> string option \<Rightarrow> json" where
  "apply_event i page = JObj [(''type'', JStr ''manual_edit_apply''), (''id'', JStr i), (''pageUrl'', case page of Some p \<Rightarrow> JStr p | None \<Rightarrow> JNull)]"

section \<open>Operations\<close>

definition pushApplyEventAndWait :: "disk_env \<Rightarrow> int \<Rightarrow> string \<Rightarrow> string option \<Rightarrow> apply_batch \<Rightarrow> applying \<Rightarrow> applying" where
  "pushApplyEventAndWait env now i page batch s =
     s\<lparr>ap_deferreds := AList.update i \<lparr>df_batch = batch, df_page = page, df_snapshot = snapshotApplyEventFiles env batch (ap_disk s)\<rparr> (ap_deferreds s),
       ap_queue := enqueueEvent now (apply_event i page) (ap_queue s)\<rparr>"

definition give_up :: "string \<Rightarrow> deferred \<Rightarrow> applying \<Rightarrow> applying" where
  "give_up i df s = s\<lparr>ap_deferreds := AList.delete i (ap_deferreds s),
     ap_timedOut := tombstoneTimedOutApplyId i \<lparr>gu_batch = df_batch df, gu_snapshot = df_snapshot df\<rparr> (ap_timedOut s)\<rparr>"

definition settle_apply :: "string \<Rightarrow> string + json \<Rightarrow> applying \<Rightarrow> applying" where
  "settle_apply i r s = s\<lparr>ap_settled := ap_settled s @ [(i, r)]\<rparr>"

text \<open>The timer of an event; it is cleared when the promise is settled before.\<close>

definition hard_timeout :: "int \<Rightarrow> string \<Rightarrow> applying \<Rightarrow> applying" where
  "hard_timeout now i s = (case map_of (ap_deferreds s) i of
       None \<Rightarrow> s
     | Some df \<Rightarrow> settle_apply i (Inl ''chat_agent_timeout'')
         ((give_up i df s)\<lparr>ap_queue := snd (acknowledgePendingEvent now (Some (JStr i)) (ap_queue s))\<rparr>))"

definition resolveDeferred :: "string \<Rightarrow> json \<Rightarrow> applying \<Rightarrow> bool \<times> applying" where
  "resolveDeferred i body s = (case map_of (ap_deferreds s) i of
       None \<Rightarrow> (False, s)
     | Some df \<Rightarrow> (True, settle_apply i (Inr body) (s\<lparr>ap_deferreds := AList.delete i (ap_deferreds s)\<rparr>)))"

text \<open>\<open>...files\<close> of a call: an array, the characters of a string, nothing for a falsy value, an exception for the rest.\<close>

definition spread_files :: "js \<Rightarrow> js list option" where
  "spread_files v =
     (if \<not> js_truthy v then Some []
      else case v of Some (JArr vs) \<Rightarrow> Some (map Some vs) | Some (JStr f) \<Rightarrow> Some (map (\<lambda>c. Some (JStr [c])) f) | _ \<Rightarrow> None)"

definition rollbackTimedOutReply :: "disk_env \<Rightarrow> string \<Rightarrow> json \<Rightarrow> given_up \<Rightarrow> applying \<Rightarrow> http \<times> applying" where
  "rollbackTimedOutReply env i msg g s =
     (let s1 = s\<lparr>ap_timedOut := AList.delete i (ap_timedOut s)\<rparr> in
      case spread_files (fld (fld (Some msg) ''data'') ''files'') of
        None \<Rightarrow> (Crashed, s1)
      | Some extra \<Rightarrow> (Http 409 ''stale_manual_edit_apply_reply'', s1\<lparr>ap_disk := re_disk (rollbackApplySnapshot env (gu_batch g) (gu_snapshot g) extra (ap_disk s))\<rparr>))"

text \<open>The branches of a reply that belong to an apply; \<open>None\<close> leads on to the others.\<close>

definition apply_reply_route :: "disk_env \<Rightarrow> int \<Rightarrow> json \<Rightarrow> applying \<Rightarrow> (http \<times> applying) option" where
  "apply_reply_route env now msg s = (case fld (Some msg) ''id'' of
       Some (JStr i) \<Rightarrow> (case map_of (ap_deferreds s) i of
           Some df \<Rightarrow> (case validateManualApplyResultMessage msg (ab_entries (df_batch df)) of
               Inl reason \<Rightarrow> Some (Http 400 reason, s)
             | Inr body \<Rightarrow>
                 let s1 = snd (resolveDeferred i body s) in
                 Some (Http 200 [], s1\<lparr>ap_queue := flushPendingPolls now (snd (acknowledgePendingEvent now (Some (JStr i)) (ap_queue s1)))\<rparr>))
         | None \<Rightarrow> map_option (\<lambda>g. rollbackTimedOutReply env i msg g s) (map_of (ap_timedOut s) i))
     | _ \<Rightarrow> None)"

text \<open>Discarding: the queued events of the page go, and every promise of it is given up, its files put back first.\<close>

definition cancel_deferred :: "disk_env \<Rightarrow> string \<Rightarrow> string \<times> deferred \<Rightarrow> applying \<Rightarrow> applying" where
  "cancel_deferred env reason = (\<lambda>(i, df) s.
     settle_apply i (Inl reason) ((give_up i df s)\<lparr>ap_disk := re_disk (rollbackApplySnapshot env (df_batch df) (df_snapshot df) [] (ap_disk s))\<rparr>))"

definition cancelPendingEvents :: "disk_env \<Rightarrow> int \<Rightarrow> string option \<Rightarrow> string \<Rightarrow> applying \<Rightarrow> string list \<times> applying" where
  "cancelPendingEvents env now asked reason s =
     (let gone = filter (\<lambda>(i, df). cancels_event asked (apply_event i (df_page df))) (ap_deferreds s);
          queued = filter (\<lambda>e. cancels_event asked (qe_event e)) (pendingEvents (ap_queue s));
          s1 = s\<lparr>ap_queue := (ap_queue s)\<lparr>pendingEvents := filter (\<lambda>e. \<not> cancels_event asked (qe_event e)) (pendingEvents (ap_queue s))\<rparr>\<rparr>;
          s2 = fold (cancel_deferred env reason) gone s1
      in (map fst gone, if gone \<noteq> [] \<or> queued \<noteq> [] then s2\<lparr>ap_queue := flushPendingPolls now (ap_queue s2)\<rparr> else s2))"

record edits_server =
  es_applying :: applying
  es_tx :: tx_file
  es_buffer :: buffer_file

definition discard_route :: "disk_env \<Rightarrow> int \<Rightarrow> string \<Rightarrow> string option \<Rightarrow> string option \<Rightarrow> edits_server \<Rightarrow> http \<times> edits_server" where
  "discard_route env now stateToken token asked s =
     (if token \<noteq> Some stateToken then (Http 401 ''Unauthorized'', s)
      else
        let (res, d1, tx1) = rollbackManualApplyTransaction env asked (es_buffer s) (ap_disk (es_applying s), es_tx s);
            buf1 = snd (if named_page asked then removeEntries (\<lambda>e. be_pageUrl e = map_option JStr asked) (es_buffer s) else truncateBuffer (es_buffer s));
            (gone, ap1) = cancelPendingEvents env now asked ''manual_edit_discarded'' ((es_applying s)\<lparr>ap_disk := d1\<rparr>)
        in (Http 200 [], \<lparr>es_applying = ap1, es_tx = tx1, es_buffer = buf1\<rparr>))"

section \<open>Runs\<close>

text \<open>
  Runs of the controller, with the events that were dispatched, each with its batch and the disk at
  that moment. An event gets an id of its own. Between the steps the agent, and anyone else, may
  change files, and the polls change the queue.
\<close>

inductive apply_run :: "disk_env \<Rightarrow> (string \<times> apply_batch \<times> disk) list \<Rightarrow> applying \<Rightarrow> bool" for env where
  start: "apply_run env [] (idle q d)"
| dispatch: "apply_run env sent_log s \<Longrightarrow> i \<noteq> [] \<Longrightarrow> i \<notin> fst ` set sent_log \<Longrightarrow>
    apply_run env ((i, batch, ap_disk s) # sent_log) (pushApplyEventAndWait env now i page batch s)"
| timeout: "apply_run env sent_log s \<Longrightarrow> apply_run env sent_log (hard_timeout now i s)"
| reply: "apply_run env sent_log s \<Longrightarrow> apply_reply_route env now msg s = Some (Http code words, s') \<Longrightarrow> apply_run env sent_log s'"
| cancel: "apply_run env sent_log s \<Longrightarrow> apply_run env sent_log (snd (cancelPendingEvents env now asked reason s))"
| others: "apply_run env sent_log s \<Longrightarrow> apply_run env sent_log (s\<lparr>ap_disk := d, ap_queue := q\<rparr>)"

definition remembers :: "disk_env \<Rightarrow> (string \<times> apply_batch \<times> disk) list \<Rightarrow> string \<Rightarrow> apply_batch \<Rightarrow> (string, saved_file) jmap \<Rightarrow> bool" where
  "remembers env sent_log i batch snap \<longleftrightarrow> (\<exists>d0. (i, batch, d0) \<in> set sent_log \<and> snap = snapshotApplyEventFiles env batch d0)"

definition apply_inv :: "disk_env \<Rightarrow> (string \<times> apply_batch \<times> disk) list \<Rightarrow> applying \<Rightarrow> bool" where
  "apply_inv env sent_log s \<longleftrightarrow>
     distinct (map fst (ap_deferreds s)) \<and> distinct (map fst (ap_timedOut s)) \<and> length (ap_timedOut s) \<le> TOMBSTONES \<and>
     distinct (map fst (ap_settled s)) \<and> fst ` set (ap_settled s) \<inter> fst ` set (ap_deferreds s) = {} \<and>
     fst ` set (ap_settled s) \<union> fst ` set (ap_deferreds s) = fst ` set sent_log \<and>
     (\<forall>(i, df)\<in>set (ap_deferreds s). i \<noteq> [] \<and> remembers env sent_log i (df_batch df) (df_snapshot df)) \<and>
     (\<forall>(i, g)\<in>set (ap_timedOut s). remembers env sent_log i (gu_batch g) (gu_snapshot g) \<and> (\<exists>err. (i, Inl err) \<in> set (ap_settled s)))"

lemma apply_invD:
  assumes "apply_inv env sent_log s"
  shows "distinct (map fst (ap_deferreds s))" "distinct (map fst (ap_timedOut s))" "length (ap_timedOut s) \<le> TOMBSTONES"
    "distinct (map fst (ap_settled s))" "fst ` set (ap_settled s) \<inter> fst ` set (ap_deferreds s) = {}"
    "fst ` set (ap_settled s) \<union> fst ` set (ap_deferreds s) = fst ` set sent_log"
    "(j, df) \<in> set (ap_deferreds s) \<Longrightarrow> j \<noteq> [] \<and> remembers env sent_log j (df_batch df) (df_snapshot df)"
    "(j, g) \<in> set (ap_timedOut s) \<Longrightarrow> remembers env sent_log j (gu_batch g) (gu_snapshot g) \<and> (\<exists>err. (j, Inl err) \<in> set (ap_settled s))"
  using assms unfolding apply_inv_def by (simp_all, auto)

lemma apply_inv_frames [simp]:
  "apply_inv env sent_log (s\<lparr>ap_disk := d\<rparr>) = apply_inv env sent_log s" "apply_inv env sent_log (s\<lparr>ap_queue := q\<rparr>) = apply_inv env sent_log s"
  by (simp_all add: apply_inv_def)

lemma remembers_more: "remembers env sent_log i batch snap \<Longrightarrow> remembers env (x # sent_log) i batch snap"
  by (auto simp: remembers_def)

lemma set_update_subset: "set (AList.update k v m) \<subseteq> insert (k, v) (set m)"
  by (induction m) auto

lemma update_keys: "fst ` set (AList.update k v m) = insert k (fst ` set m)"
  by (induction m) auto

lemma keys_delete: "fst ` set (AList.delete k m) = fst ` set m - {k}"
  by (auto simp: AList.delete_eq image_iff)

lemma distinct_delete: "distinct (map fst m) \<Longrightarrow> distinct (map fst (AList.delete k m))"
  by (induction m) (auto simp: AList.delete_eq)

lemma set_delete: "set (AList.delete k m) \<subseteq> set m"
  by (auto simp: AList.delete_eq)

lemma length_update: "length (AList.update k v m) \<le> Suc (length m)"
  by (induction m) auto

lemma tombstone_bound:
  assumes "distinct (map fst m)" "length m \<le> TOMBSTONES"
  shows "distinct (map fst (tombstoneTimedOutApplyId i g m))" "length (tombstoneTimedOutApplyId i g m) \<le> TOMBSTONES"
    "set (tombstoneTimedOutApplyId i g m) \<subseteq> insert (i, g) (set m)"
proof -
  let ?m = "AList.update i g m"
  have d: "distinct (map fst ?m)" using assms(1) by (rule distinct_update)
  have "length ?m \<le> Suc TOMBSTONES" using length_update[of i g m] assms(2) by simp
  then show "length (tombstoneTimedOutApplyId i g m) \<le> TOMBSTONES" using assms(2) by (auto simp: tombstoneTimedOutApplyId_def Let_def)
  show "distinct (map fst (tombstoneTimedOutApplyId i g m))" using d assms(1) by (auto simp: tombstoneTimedOutApplyId_def Let_def map_tl distinct_tl)
  show "set (tombstoneTimedOutApplyId i g m) \<subseteq> insert (i, g) (set m)"
    using set_update_subset[of i g m] list.set_sel(2)[of "AList.update i g m"]
    by (cases "AList.update i g m") (auto simp: tombstoneTimedOutApplyId_def Let_def split: if_splits)
qed

lemma inv_give_up:
  assumes "apply_inv env sent_log s" "(i, df) \<in> set (ap_deferreds s)"
  shows "apply_inv env sent_log (settle_apply i (Inl reason) (give_up i df s))"
proof -
  let ?g = "\<lparr>gu_batch = df_batch df, gu_snapshot = df_snapshot df\<rparr>"
  let ?s = "settle_apply i (Inl reason) (give_up i df s)"
  note inv = apply_invD[OF assms(1)]
  have parts: "ap_deferreds ?s = AList.delete i (ap_deferreds s)" "ap_timedOut ?s = tombstoneTimedOutApplyId i ?g (ap_timedOut s)"
    "ap_settled ?s = ap_settled s @ [(i, Inl reason)]" by (simp_all add: settle_apply_def give_up_def)
  have tomb: "distinct (map fst (ap_timedOut ?s))" "length (ap_timedOut ?s) \<le> TOMBSTONES" "set (ap_timedOut ?s) \<subseteq> insert (i, ?g) (set (ap_timedOut s))"
    unfolding parts by (fact tombstone_bound[OF inv(2,3)])+
  have new: "remembers env sent_log i (df_batch df) (df_snapshot df)" using inv(7)[OF assms(2)] by blast
  have i: "i \<in> fst ` set (ap_deferreds s)" using assms(2) by force
  have "distinct (map fst (ap_deferreds ?s))" unfolding parts using inv(1) by (rule distinct_delete)
  moreover have "distinct (map fst (ap_settled ?s))" unfolding parts using inv(4,5) i by auto
  moreover have "fst ` set (ap_settled ?s) \<inter> fst ` set (ap_deferreds ?s) = {}" unfolding parts using inv(5) by (auto simp: keys_delete)
  moreover have "fst ` set (ap_settled ?s) \<union> fst ` set (ap_deferreds ?s) = fst ` set sent_log"
  proof -
    have "fst ` set (ap_settled ?s) \<union> fst ` set (ap_deferreds ?s) = insert i (fst ` set (ap_settled s) \<union> fst ` set (ap_deferreds s))"
      unfolding parts by (auto simp: keys_delete simp del: image_iff)
    moreover have "i \<in> fst ` set sent_log" using i inv(6) by blast
    ultimately show ?thesis using inv(6) by (simp add: insert_absorb)
  qed
  moreover have "\<forall>(j, df)\<in>set (ap_deferreds ?s). j \<noteq> [] \<and> remembers env sent_log j (df_batch df) (df_snapshot df)"
    unfolding parts using inv(7) set_delete[of i "ap_deferreds s"] by fast
  moreover have "\<forall>(j, g)\<in>set (ap_timedOut ?s). remembers env sent_log j (gu_batch g) (gu_snapshot g) \<and> (\<exists>err. (j, Inl err) \<in> set (ap_settled ?s))"
  proof (intro ballI)
    fix x assume "x \<in> set (ap_timedOut ?s)"
    with tomb(3) consider "x = (i, ?g)" | "x \<in> set (ap_timedOut s)" by blast
    then show "case x of (j, g) \<Rightarrow> remembers env sent_log j (gu_batch g) (gu_snapshot g) \<and> (\<exists>err. (j, Inl err) \<in> set (ap_settled ?s))"
    proof cases
      case 1
      then show ?thesis using new by (auto simp: parts(3))
    next
      case 2
      then show ?thesis using inv(8)[of "fst x" "snd x"] by (auto simp: parts(3))
    qed
  qed
  ultimately show ?thesis using tomb unfolding apply_inv_def by blast
qed

lemma inv_resolve:
  assumes "apply_inv env sent_log s" "map_of (ap_deferreds s) i = Some df"
  shows "apply_inv env sent_log (settle_apply i (Inr body) (s\<lparr>ap_deferreds := AList.delete i (ap_deferreds s)\<rparr>))"
proof -
  have "i \<in> fst ` set (ap_deferreds s)" using map_of_SomeD[OF assms(2)] by force
  then show ?thesis
    using assms(1) distinct_delete[of "ap_deferreds s" i] set_delete[of i "ap_deferreds s"]
    unfolding apply_inv_def settle_apply_def by (auto simp: keys_delete)
qed

lemma inv_drop:
  assumes "apply_inv env sent_log s"
  shows "apply_inv env sent_log (s\<lparr>ap_timedOut := AList.delete i (ap_timedOut s)\<rparr>)"
proof -
  note inv = apply_invD[OF assms]
  have "length (AList.delete i (ap_timedOut s)) \<le> TOMBSTONES" using inv(3) length_filter_le le_trans unfolding AList.delete_eq by blast
  moreover have "\<forall>(j, g)\<in>set (AList.delete i (ap_timedOut s)). remembers env sent_log j (gu_batch g) (gu_snapshot g) \<and> (\<exists>err. (j, Inl err) \<in> set (ap_settled s))"
    using inv(8) set_delete[of i "ap_timedOut s"] by fast
  ultimately show ?thesis using assms distinct_delete[OF inv(2), of i] by (simp add: apply_inv_def)
qed

lemma inv_dispatch:
  assumes "apply_inv env sent_log s" "i \<noteq> []" "i \<notin> fst ` set sent_log"
  shows "apply_inv env ((i, batch, ap_disk s) # sent_log) (pushApplyEventAndWait env now i page batch s)"
proof -
  let ?df = "\<lparr>df_batch = batch, df_page = page, df_snapshot = snapshotApplyEventFiles env batch (ap_disk s)\<rparr>"
  let ?s = "pushApplyEventAndWait env now i page batch s"
  note inv = apply_invD[OF assms(1)]
  have parts: "ap_deferreds ?s = AList.update i ?df (ap_deferreds s)" "ap_timedOut ?s = ap_timedOut s" "ap_settled ?s = ap_settled s"
    by (simp_all add: pushApplyEventAndWait_def)
  have free: "i \<notin> fst ` set (ap_settled s)" using inv(6) assms(3) by blast
  have new: "remembers env ((i, batch, ap_disk s) # sent_log) i (df_batch ?df) (df_snapshot ?df)" by (auto simp: remembers_def)
  have "\<forall>(j, df)\<in>set (ap_deferreds ?s). j \<noteq> [] \<and> remembers env ((i, batch, ap_disk s) # sent_log) j (df_batch df) (df_snapshot df)"
  proof (intro ballI)
    fix x assume "x \<in> set (ap_deferreds ?s)"
    then consider "x = (i, ?df)" | "x \<in> set (ap_deferreds s)" unfolding parts using set_update_subset[of i ?df "ap_deferreds s"] by blast
    then show "case x of (j, df) \<Rightarrow> j \<noteq> [] \<and> remembers env ((i, batch, ap_disk s) # sent_log) j (df_batch df) (df_snapshot df)"
    proof cases
      case 1
      then show ?thesis using new assms(2) by simp
    next
      case 2
      then show ?thesis using inv(7)[of "fst x" "snd x"] by (auto intro: remembers_more)
    qed
  qed
  moreover have "\<forall>(j, g)\<in>set (ap_timedOut ?s). remembers env ((i, batch, ap_disk s) # sent_log) j (gu_batch g) (gu_snapshot g) \<and> (\<exists>err. (j, Inl err) \<in> set (ap_settled ?s))"
    unfolding parts using inv(8) remembers_more by fast
  moreover have "distinct (map fst (ap_deferreds ?s))" "distinct (map fst (ap_timedOut ?s))" "length (ap_timedOut ?s) \<le> TOMBSTONES" "distinct (map fst (ap_settled ?s))"
    unfolding parts using inv(1-4) by (simp_all add: distinct_update)
  moreover have "fst ` set (ap_settled ?s) \<inter> fst ` set (ap_deferreds ?s) = {}"
    unfolding parts update_keys using inv(5) free by blast
  moreover have "fst ` set (ap_settled ?s) \<union> fst ` set (ap_deferreds ?s) = fst ` set ((i, batch, ap_disk s) # sent_log)"
    unfolding parts update_keys using inv(6) by simp
  ultimately show ?thesis unfolding apply_inv_def by blast
qed

lemma cancel_parts:
  "ap_deferreds (cancel_deferred env reason (i, df) s) = AList.delete i (ap_deferreds s)"
  by (simp add: cancel_deferred_def settle_apply_def give_up_def)

lemma inv_cancel_one:
  "apply_inv env sent_log s \<Longrightarrow> (i, df) \<in> set (ap_deferreds s) \<Longrightarrow> apply_inv env sent_log (cancel_deferred env reason (i, df) s)"
  using inv_give_up[of env sent_log s i df reason] unfolding cancel_deferred_def settle_apply_def apply_inv_def by simp

lemma inv_cancel_all:
  "apply_inv env sent_log s \<Longrightarrow> distinct (map fst xs) \<Longrightarrow> set xs \<subseteq> set (ap_deferreds s) \<Longrightarrow>
     apply_inv env sent_log (fold (cancel_deferred env reason) xs s)"
proof (induction xs arbitrary: s)
  case (Cons x xs)
  obtain i df where x: "x = (i, df)" by (cases x)
  have "set xs \<subseteq> set (ap_deferreds (cancel_deferred env reason x s))"
    using Cons.prems(2,3) by (force simp: x cancel_parts AList.delete_eq)
  then show ?case using Cons inv_cancel_one[of env sent_log s i df reason] by (auto simp: x)
qed simp

lemma apply_run_inv: "apply_run env sent_log s \<Longrightarrow> apply_inv env sent_log s"
proof (induction rule: apply_run.induct)
  case (start q d)
  then show ?case by (simp add: apply_inv_def idle_def)
next
  case (dispatch sent_log s i batch now page)
  then show ?case by (intro inv_dispatch)
next
  case (timeout sent_log s now i)
  have "apply_inv env sent_log (settle_apply i r ((give_up i df s)\<lparr>ap_queue := q\<rparr>)) = apply_inv env sent_log (settle_apply i r (give_up i df s))" for r df q
    by (simp add: apply_inv_def settle_apply_def)
  with timeout show ?case by (auto simp: hard_timeout_def intro: inv_give_up dest: map_of_SomeD split: option.split)
next
  case (reply sent_log s now msg code words s')
  from reply.hyps(2) show ?case
    using inv_resolve[OF reply.IH] inv_drop[OF reply.IH] reply.IH
    by (auto simp: apply_reply_route_def rollbackTimedOutReply_def resolveDeferred_def Let_def split: option.splits json.splits sum.splits)
next
  case (cancel sent_log s now asked reason)
  let ?gone = "filter (\<lambda>(i, df). cancels_event asked (apply_event i (df_page df))) (ap_deferreds s)"
  have "distinct (map fst ?gone)" using cancel.IH by (simp add: apply_inv_def distinct_map_filter)
  then show ?case using inv_cancel_all[of env sent_log "s\<lparr>ap_queue := q\<rparr>" ?gone reason for q] cancel.IH
    by (auto simp: cancelPendingEvents_def Let_def)
next
  case (others sent_log s d q)
  then show ?case by simp
qed

section \<open>Replies\<close>

lemma given_up_not_waiting: "apply_inv env sent_log s \<Longrightarrow> i \<in> fst ` set (ap_timedOut s) \<Longrightarrow> map_of (ap_deferreds s) i = None"
proof -
  assume inv: "apply_inv env sent_log s" and "i \<in> fst ` set (ap_timedOut s)"
  then obtain g where "(i, g) \<in> set (ap_timedOut s)" by auto
  from apply_invD(8)[OF inv this] have "i \<in> fst ` set (ap_settled s)" by force
  with apply_invD(5)[OF inv] show ?thesis by (auto simp: map_of_eq_None_iff)
qed

lemma waiting_reply:
  assumes "i \<in> fst ` set (ap_deferreds s)" "fld (Some msg) ''id'' = Some (JStr i)"
  shows "\<exists>code words s'. apply_reply_route env now msg s = Some (Http code words, s') \<and> ap_disk s' = ap_disk s \<and>
    (code = 200 \<and> (\<exists>body. ap_settled s' = ap_settled s @ [(i, Inr body)]) \<or> code = 400 \<and> s' = s)"
proof -
  from assms(1) obtain df where "map_of (ap_deferreds s) i = Some df" by (metis not_None_eq map_of_eq_None_iff)
  then show ?thesis
    by (cases "validateManualApplyResultMessage msg (ab_entries (df_batch df))")
      (auto simp: apply_reply_route_def assms(2) resolveDeferred_def settle_apply_def Let_def)
qed

lemma late_reply:
  assumes "list_all clean_segment (de_cwd env)" "apply_inv env sent_log s" "i \<in> fst ` set (ap_timedOut s)"
    "fld (Some msg) ''id'' = Some (JStr i)" "spread_files (fld (fld (Some msg) ''data'') ''files'') = Some extra"
  shows "\<exists>batch d0 s'. (i, batch, d0) \<in> set sent_log \<and> apply_reply_route env now msg s = Some (Http 409 ''stale_manual_edit_apply_reply'', s') \<and>
    ap_disk s' = restored env (covered_paths env batch d0) d0 (ap_disk s) \<and> i \<notin> fst ` set (ap_timedOut s') \<and> ap_settled s' = ap_settled s"
proof -
  from assms(3) obtain g where g: "map_of (ap_timedOut s) i = Some g" by (metis not_None_eq map_of_eq_None_iff)
  from apply_invD(8)[OF assms(2) map_of_SomeD[OF g]] obtain d0 where
    d0: "(i, gu_batch g, d0) \<in> set sent_log" "gu_snapshot g = snapshotApplyEventFiles env (gu_batch g) d0" by (auto simp: remembers_def)
  show ?thesis
    using g given_up_not_waiting[OF assms(2,3)] d0 assms(4,5)
    by (intro exI[of _ "gu_batch g"] exI[of _ d0])
      (simp add: apply_reply_route_def rollbackTimedOutReply_def Let_def snapshot_rollback(1)[OF assms(1)] keys_delete)
qed

text \<open>C22: in every run, whatever the agent and others do to the files meanwhile, the promise of a
  dispatched event is waiting or settled, never both, and is settled once; no more than 200 given up ids are
  remembered. A reply to a waiting event changes no file and either settles it with a result or is
  refused and changes nothing. A reply to one that was given up, with a list of files or none, is
  refused with status 409, and puts every writable file that its batch covers back to what it was when
  the event was dispatched, once, and no other file.\<close>

theorem apply_run_sound:
  assumes "list_all clean_segment (de_cwd env)" "apply_run env sent_log s"
  shows "distinct (map fst (ap_settled s)) \<and> fst ` set (ap_settled s) \<inter> fst ` set (ap_deferreds s) = {} \<and>
    fst ` set (ap_settled s) \<union> fst ` set (ap_deferreds s) = fst ` set sent_log \<and> length (ap_timedOut s) \<le> 200 \<and>
    (\<forall>i msg. fld (Some msg) ''id'' = Some (JStr i) \<longrightarrow>
      (i \<in> fst ` set (ap_deferreds s) \<longrightarrow>
        (\<exists>code words s'. apply_reply_route env now msg s = Some (Http code words, s') \<and> ap_disk s' = ap_disk s \<and>
          (code = 200 \<and> (\<exists>body. ap_settled s' = ap_settled s @ [(i, Inr body)]) \<or> code = 400 \<and> s' = s))) \<and>
      (i \<in> fst ` set (ap_timedOut s) \<and> spread_files (fld (fld (Some msg) ''data'') ''files'') \<noteq> None \<longrightarrow>
        (\<exists>batch d0 s'. (i, batch, d0) \<in> set sent_log \<and> apply_reply_route env now msg s = Some (Http 409 ''stale_manual_edit_apply_reply'', s') \<and>
          ap_disk s' = restored env (covered_paths env batch d0) d0 (ap_disk s) \<and> i \<notin> fst ` set (ap_timedOut s') \<and> ap_settled s' = ap_settled s)))"
proof -
  note inv = apply_run_inv[OF assms(2)]
  have bound: "length (ap_timedOut s) \<le> 200" using apply_invD(3)[OF inv] by (simp add: TOMBSTONES_def)
  show ?thesis
  proof (intro conjI allI impI)
    fix i msg assume id: "fld (Some msg) ''id'' = Some (JStr i)"
    show "i \<in> fst ` set (ap_deferreds s) \<Longrightarrow>
        \<exists>code words s'. apply_reply_route env now msg s = Some (Http code words, s') \<and> ap_disk s' = ap_disk s \<and>
          (code = 200 \<and> (\<exists>body. ap_settled s' = ap_settled s @ [(i, Inr body)]) \<or> code = 400 \<and> s' = s)"
      by (rule waiting_reply[OF _ id])
    assume late: "i \<in> fst ` set (ap_timedOut s) \<and> spread_files (fld (fld (Some msg) ''data'') ''files'') \<noteq> None"
    then obtain extra where "spread_files (fld (fld (Some msg) ''data'') ''files'') = Some extra" by blast
    with late show "\<exists>batch d0 s'. (i, batch, d0) \<in> set sent_log \<and> apply_reply_route env now msg s = Some (Http 409 ''stale_manual_edit_apply_reply'', s') \<and>
          ap_disk s' = restored env (covered_paths env batch d0) d0 (ap_disk s) \<and> i \<notin> fst ` set (ap_timedOut s') \<and> ap_settled s' = ap_settled s"
      by (intro late_reply[OF assms(1) inv _ id]) blast
  qed (use apply_invD(4-6)[OF inv] bound in blast)+
qed

section \<open>Discarding\<close>

definition queued_events :: "live_queue \<Rightarrow> json set" where
  "queued_events q = qe_event ` set (pendingEvents q)"

lemma queued_frames [simp]:
  "queued_events (scheduleLeaseFlush now q) = queued_events q" "queued_events (broadcastAgentPollingIfChanged now q) = queued_events q"
  "queued_events (say x q) = queued_events q" "queued_events (q\<lparr>pendingPolls := ps\<rparr>) = queued_events q" "queued_events (q\<lparr>lastPollAt := t\<rparr>) = queued_events q"
  by (simp_all add: queued_events_def)

lemma queued_lease: "k < length (pendingEvents q) \<Longrightarrow> queued_events (snd (leaseEvent now k ms q)) \<subseteq> queued_events q"
proof -
  assume k: "k < length (pendingEvents q)"
  let ?e = "pendingEvents q ! k"
  have "qe_event ` set ((pendingEvents q)[k := lease_for now ms ?e]) \<subseteq> qe_event ` set (pendingEvents q)"
    using k image_mono[OF set_update_subset_insert[of "pendingEvents q" k "lease_for now ms ?e"], of qe_event] by (auto simp: image_insert)
  moreover have "qe_event ` set (remove_at k (pendingEvents q)) \<subseteq> qe_event ` set (pendingEvents q)"
    by (rule image_mono[OF subseq_set[OF remove_at_subseq]])
  ultimately show ?thesis by (simp add: leaseEvent_def Let_def queued_events_def)
qed

lemma queued_flush_loop: "queued_events (flush_loop now changed q) \<subseteq> queued_events q"
proof (induction now changed q rule: flush_loop.induct)
  case (1 now changed q)
  have serve: "queued_events (serve_first now k q) \<subseteq> queued_events q" if "findAvailablePendingEvent now q = Some k" for k
  proof -
    from that have "k < length (pendingEvents q)" by (auto simp: findAvailablePendingEvent_def dest: first_index_Some)
    then show ?thesis using queued_lease[of k "q\<lparr>pendingPolls := tl (pendingPolls q)\<rparr>" now "pk_leaseMs (hd (pendingPolls q))"]
      by (simp add: serve_first_def Let_def split_beta resolve_poll_def)
  qed
  show ?case
    using 1 serve by (subst flush_loop.simps) (auto simp: Let_def split: option.split)
qed

lemma queued_flush: "queued_events (flushPendingPolls now q) \<subseteq> queued_events q"
  by (simp add: flushPendingPolls_def queued_flush_loop)

text \<open>Giving up a list of promises.\<close>

lemma cancel_all_parts:
  "distinct (map fst xs) \<Longrightarrow> ap_deferreds (fold (cancel_deferred env reason) xs s) = filter (\<lambda>x. fst x \<notin> fst ` set xs) (ap_deferreds s) \<and>
     ap_settled (fold (cancel_deferred env reason) xs s) = ap_settled s @ map (\<lambda>x. (fst x, Inl reason)) xs \<and>
     ap_queue (fold (cancel_deferred env reason) xs s) = ap_queue s"
proof (induction xs arbitrary: s)
  case (Cons x xs)
  obtain i df where x: "x = (i, df)" by (cases x)
  have "filter (\<lambda>y. fst y \<notin> fst ` set xs) (AList.delete i (ap_deferreds s)) = filter (\<lambda>y. fst y \<notin> fst ` set (x # xs)) (ap_deferreds s)"
    by (auto simp: x AList.delete_eq intro!: filter_cong)
  moreover have "ap_settled (cancel_deferred env reason x s) = ap_settled s @ [(i, Inl reason)]" "ap_queue (cancel_deferred env reason x s) = ap_queue s"
    by (simp_all add: x cancel_deferred_def settle_apply_def give_up_def)
  ultimately show ?case using Cons.IH[of "cancel_deferred env reason x s"] Cons.prems by (simp add: x cancel_parts)
qed simp

definition in_project :: "disk_env \<Rightarrow> string list \<Rightarrow> bool" where
  "in_project env p \<longleftrightarrow> (\<exists>rest. rest \<noteq> [] \<and> p = de_cwd env @ rest)"

lemma items_inside:
  assumes "list_all clean_segment (de_cwd env)"
  shows "\<not> in_project env p \<Longrightarrow> re_disk (fold (restore_item env) items s) p = re_disk s p"
proof (induction items arbitrary: s)
  case (Cons x xs)
  obtain f b where x: "x = (f, b)" by (cases x)
  have "re_disk (restore_item env x s) p = re_disk s p"
  proof (cases "normalizeProjectFile (de_cwd env) (Some (JStr f))")
    case (Some r)
    then have "in_project env (file_at env r)" unfolding in_project_def by (intro exI[of _ "split_on (CHR ''/'') r"]) (simp add: project_file(1)[OF assms Some])
    with Cons.prems have "p \<noteq> file_at env r" by blast
    with Some show ?thesis by (simp add: x restore_item_def restore_step)
  qed (simp add: x restore_item_def)
  with Cons show ?case by simp
qed simp

lemma tx_inside:
  assumes "list_all clean_segment (de_cwd env)" "\<not> in_project env p"
  shows "fst (snd (rollbackManualApplyTransaction env asked buf (d, f))) p = d p"
  using items_inside[OF assms] by (auto simp: rollbackManualApplyTransaction_def Let_def split: option.split)

lemma cancel_inside:
  assumes "list_all clean_segment (de_cwd env)" "\<not> in_project env p"
  shows "apply_inv env sent_log s \<Longrightarrow> distinct (map fst xs) \<Longrightarrow> set xs \<subseteq> set (ap_deferreds s) \<Longrightarrow>
    ap_disk (fold (cancel_deferred env reason) xs s) p = ap_disk s p"
proof (induction xs arbitrary: s)
  case (Cons x xs)
  obtain i df where x: "x = (i, df)" by (cases x)
  have df: "(i, df) \<in> set (ap_deferreds s)" using Cons.prems(3) x by simp
  from apply_invD(7)[OF Cons.prems(1) df] obtain d0 where "df_snapshot df = snapshotApplyEventFiles env (df_batch df) d0" by (auto simp: remembers_def)
  moreover have "p \<notin> covered_paths env (df_batch df) d0" using covered_inside[OF assms(1)] assms(2) by (auto simp: in_project_def)
  ultimately have one: "ap_disk (cancel_deferred env reason x s) p = ap_disk s p"
    by (simp add: x cancel_deferred_def settle_apply_def snapshot_rollback(1)[OF assms(1)] restored_def)
  have "set xs \<subseteq> set (ap_deferreds (cancel_deferred env reason x s))"
    using Cons.prems(2,3) by (force simp: x cancel_parts AList.delete_eq)
  then show ?case using Cons.IH[of "cancel_deferred env reason x s"] one inv_cancel_one[OF Cons.prems(1) df] Cons.prems(2) by (simp add: x)
qed simp

lemma cancel_exact:
  fixes asked now reason
  assumes "list_all clean_segment (de_cwd env)" "apply_inv env sent_log s"
  defines "gone \<equiv> filter (\<lambda>(i, df). cancels_event asked (apply_event i (df_page df))) (ap_deferreds s)"
  defines "s' \<equiv> snd (cancelPendingEvents env now asked reason s)"
  shows "ap_deferreds s' = filter (\<lambda>(i, df). \<not> cancels_event asked (apply_event i (df_page df))) (ap_deferreds s)"
    "ap_settled s' = ap_settled s @ map (\<lambda>x. (fst x, Inl reason)) gone"
    "\<forall>e\<in>queued_events (ap_queue s'). \<not> cancels_event asked e \<and> e \<in> queued_events (ap_queue s)"
    "\<not> in_project env p \<Longrightarrow> ap_disk s' p = ap_disk s p"
proof -
  let ?q = "(ap_queue s)\<lparr>pendingEvents := filter (\<lambda>e. \<not> cancels_event asked (qe_event e)) (pendingEvents (ap_queue s))\<rparr>"
  let ?s1 = "s\<lparr>ap_queue := ?q\<rparr>"
  let ?s2 = "fold (cancel_deferred env reason) gone ?s1"
  have gone: "distinct (map fst gone)" "set gone \<subseteq> set (ap_deferreds s)"
    using apply_invD(1)[OF assms(2)] by (auto simp: gone_def distinct_map_filter)
  note parts = cancel_all_parts[OF gone(1), of env reason ?s1]
  have q2: "queued_events (ap_queue ?s2) = {e \<in> queued_events (ap_queue s). \<not> cancels_event asked e}" using parts by (auto simp: queued_events_def)
  have s': "ap_deferreds s' = ap_deferreds ?s2" "ap_settled s' = ap_settled ?s2" "ap_disk s' = ap_disk ?s2" "queued_events (ap_queue s') \<subseteq> queued_events (ap_queue ?s2)"
    using queued_flush[of now "ap_queue ?s2"] by (simp_all add: s'_def cancelPendingEvents_def Let_def gone_def)
  have "x \<in> set (ap_deferreds s) \<Longrightarrow> fst x \<notin> fst ` set gone \<longleftrightarrow> \<not> cancels_event asked (apply_event (fst x) (df_page (snd x)))" for x
    using apply_invD(1)[OF assms(2)] by (cases x) (auto simp: gone_def image_iff dest: eq_key_imp_eq_value)
  then show "ap_deferreds s' = filter (\<lambda>(i, df). \<not> cancels_event asked (apply_event i (df_page df))) (ap_deferreds s)"
    unfolding s'(1) using parts by (simp add: split_beta cong: filter_cong)
  show "ap_settled s' = ap_settled s @ map (\<lambda>x. (fst x, Inl reason)) gone" unfolding s'(2) using parts by simp
  show "\<forall>e\<in>queued_events (ap_queue s'). \<not> cancels_event asked e \<and> e \<in> queued_events (ap_queue s)" using s'(4) q2 by blast
  show "\<not> in_project env p \<Longrightarrow> ap_disk s' p = ap_disk s p"
    unfolding s'(3) using cancel_inside[OF assms(1), of p sent_log ?s1 gone reason] assms(2) gone by simp
qed

text \<open>C25: a discard, for one page or for all, answers 200. Afterwards no entry of the page is staged, no Apply
  of it is queued, and no promise of it is waiting: each one was settled with the reason, in order, and the
  promises of other pages wait as before. No file outside the project was touched, whatever the
  transaction file held. Without the token of the server nothing changes.\<close>

theorem discard_abandons:
  assumes "list_all clean_segment (de_cwd env)" "apply_run env sent_log (es_applying s)"
  shows "(\<forall>token. token \<noteq> Some stateToken \<longrightarrow> discard_route env now stateToken token asked s = (Http 401 ''Unauthorized'', s)) \<and>
    (\<exists>s'. discard_route env now stateToken (Some stateToken) asked s = (Http 200 [], s') \<and>
      (\<forall>e\<in>set (readBuffer (es_buffer s')). e \<in> set (readBuffer (es_buffer s)) \<and> \<not> page_asked asked (be_pageUrl e)) \<and>
      (\<forall>e\<in>queued_events (ap_queue (es_applying s')). e \<in> queued_events (ap_queue (es_applying s)) \<and> \<not> cancels_event asked e) \<and>
      ap_deferreds (es_applying s') = filter (\<lambda>(i, df). \<not> cancels_event asked (apply_event i (df_page df))) (ap_deferreds (es_applying s)) \<and>
      ap_settled (es_applying s') = ap_settled (es_applying s) @
        map (\<lambda>x. (fst x, Inl ''manual_edit_discarded'')) (filter (\<lambda>(i, df). cancels_event asked (apply_event i (df_page df))) (ap_deferreds (es_applying s))) \<and>
      (\<forall>p. \<not> in_project env p \<longrightarrow> ap_disk (es_applying s') p = ap_disk (es_applying s) p))"
proof -
  obtain res d1 tx1 where tx: "rollbackManualApplyTransaction env asked (es_buffer s) (ap_disk (es_applying s), es_tx s) = (res, d1, tx1)" by (metis prod_cases3)
  let ?buf = "snd (if named_page asked then removeEntries (\<lambda>e. be_pageUrl e = map_option JStr asked) (es_buffer s) else truncateBuffer (es_buffer s))"
  let ?ap = "(es_applying s)\<lparr>ap_disk := d1\<rparr>"
  let ?ap' = "snd (cancelPendingEvents env now asked ''manual_edit_discarded'' ?ap)"
  have inv: "apply_inv env sent_log ?ap" using apply_run_inv[OF assms(2)] by simp
  note exact = cancel_exact[OF assms(1) inv, where asked = asked and now = now and reason = "''manual_edit_discarded''"]
  have outside: "\<not> in_project env p \<Longrightarrow> d1 p = ap_disk (es_applying s) p" for p
    using tx_inside[OF assms(1), of p asked "es_buffer s" "ap_disk (es_applying s)" "es_tx s"] tx by simp
  have route: "discard_route env now stateToken (Some stateToken) asked s = (Http 200 [], \<lparr>es_applying = ?ap', es_tx = tx1, es_buffer = ?buf\<rparr>)"
    by (simp add: discard_route_def tx split_beta)
  have buf: "\<forall>e\<in>set (readBuffer ?buf). e \<in> set (readBuffer (es_buffer s)) \<and> \<not> page_asked asked (be_pageUrl e)"
    by (auto simp: page_asked_def removeEntries_def truncateBuffer_def readBuffer_def readBufferInternal_def Let_def split: if_splits)
  have refused: "token \<noteq> Some stateToken \<Longrightarrow> discard_route env now stateToken token asked s = (Http 401 ''Unauthorized'', s)" for token
    by (simp add: discard_route_def)
  show ?thesis using exact buf outside refused by (auto simp: route)
qed

text \<open>
  Everything the controller does to the queue is a step of the queue's own runs: an event is enqueued, a
  timeout acknowledges, a checked reply acknowledges and flushes, a discard cancels. What is shown of
  the queue under every run therefore holds with the controller at work.
\<close>

lemma controller_queue_steps:
  "ap_queue (pushApplyEventAndWait env now i page batch s) = queue_step (now, Q_enqueue (apply_event i page)) (ap_queue s)"
  "ap_queue (hard_timeout now i s) = (if map_of (ap_deferreds s) i = None then ap_queue s else queue_step (now, Q_apply_timeout (Some (JStr i))) (ap_queue s))"
  "apply_reply_route env now msg s = Some (Http 200 words, s') \<Longrightarrow> ap_queue s' = queue_step (now, Q_reply (fld (Some msg) ''id'')) (ap_queue s)"
  "apply_reply_route env now msg s = Some (Http code words, s') \<Longrightarrow> code \<noteq> 200 \<Longrightarrow> ap_queue s' = ap_queue s"
  "distinct (map fst (ap_deferreds s)) \<Longrightarrow> ap_queue (snd (cancelPendingEvents env now asked reason s)) =
     queue_step (now, Q_cancel asked (list_ex (\<lambda>(i, df). cancels_event asked (apply_event i (df_page df))) (ap_deferreds s))) (ap_queue s)"
proof -
  show "ap_queue (pushApplyEventAndWait env now i page batch s) = queue_step (now, Q_enqueue (apply_event i page)) (ap_queue s)"
    by (simp add: pushApplyEventAndWait_def)
  show "ap_queue (hard_timeout now i s) = (if map_of (ap_deferreds s) i = None then ap_queue s else queue_step (now, Q_apply_timeout (Some (JStr i))) (ap_queue s))"
    by (simp add: hard_timeout_def settle_apply_def split: option.split)
  show "apply_reply_route env now msg s = Some (Http 200 words, s') \<Longrightarrow> ap_queue s' = queue_step (now, Q_reply (fld (Some msg) ''id'')) (ap_queue s)"
    by (auto simp: apply_reply_route_def resolveDeferred_def settle_apply_def rollbackTimedOutReply_def reply_queue_def Let_def split: option.splits json.splits sum.splits)
  show "apply_reply_route env now msg s = Some (Http code words, s') \<Longrightarrow> code \<noteq> 200 \<Longrightarrow> ap_queue s' = ap_queue s"
    by (auto simp: apply_reply_route_def rollbackTimedOutReply_def Let_def split: option.splits json.splits sum.splits)
  assume distinct: "distinct (map fst (ap_deferreds s))"
  let ?gone = "filter (\<lambda>(i, df). cancels_event asked (apply_event i (df_page df))) (ap_deferreds s)"
  let ?q = "(ap_queue s)\<lparr>pendingEvents := filter (\<lambda>e. \<not> cancels_event asked (qe_event e)) (pendingEvents (ap_queue s))\<rparr>"
  have "ap_queue (fold (cancel_deferred env reason) ?gone (s\<lparr>ap_queue := ?q\<rparr>)) = ?q"
    using cancel_all_parts[of ?gone env reason "s\<lparr>ap_queue := ?q\<rparr>"] distinct by (simp add: distinct_map_filter)
  then show "ap_queue (snd (cancelPendingEvents env now asked reason s)) =
     queue_step (now, Q_cancel asked (list_ex (\<lambda>(i, df). cancels_event asked (apply_event i (df_page df))) (ap_deferreds s))) (ap_queue s)"
    by (simp add: cancelPendingEvents_def cancel_queued_def Let_def filter_empty_conv list_ex_iff)
qed

section \<open>Checked answers\<close>

lemma first_some_None: "first_some xs = None \<longleftrightarrow> (\<forall>x\<in>set xs. x = None)"
proof -
  have "first_some xs = None \<longleftrightarrow> filter (\<lambda>x. x \<noteq> None) xs = []"
    by (cases "filter (\<lambda>x. x \<noteq> None) xs") (auto simp: first_some_def dest: filter_eq_ConsD)
  then show ?thesis by (simp add: filter_empty_conv)
qed

lemma unless_None [simp]: "unless ok reason = None \<longleftrightarrow> ok"
  by (simp add: unless_def)

lemma fld_fields: "distinct (map fst kvs) \<Longrightarrow> fld (Some (with_fields kvs)) k = (case map_of kvs k of Some v \<Rightarrow> v | None \<Rightarrow> None)"
proof -
  have "distinct (map fst kvs) \<Longrightarrow> map_of (List.map_filter (\<lambda>(k, v). map_option (Pair k) v) kvs) k = (case map_of kvs k of Some v \<Rightarrow> v | None \<Rightarrow> None)"
  proof (induction kvs)
    case (Cons x kvs)
    have "k \<notin> fst ` set kvs \<Longrightarrow> map_of kvs k = None" by (simp add: map_of_eq_None_iff)
    with Cons show ?case by (cases x) (auto simp: List.map_filter_def split: option.splits)
  qed (simp add: List.map_filter_def)
  then show "distinct (map fst kvs) \<Longrightarrow> ?thesis" by (simp add: fld_def with_fields_def)
qed

text \<open>What a reply that passed the check says of entries.\<close>

lemma validated:
  assumes "validateManualApplyResultMessage msg es = Inr body" "[] \<notin> ae_id ` set es" "es \<noteq> []"
  defines "r \<equiv> normalizeApplyChunkResult (Some body)"
  shows "failed_ids r \<subseteq> JStr ` ae_id ` set es" "set (cr_applied r) \<subseteq> ae_id ` set es"
    "cr_status r = ''done'' \<Longrightarrow> failed_ids r = {}" "cr_status r = ''error'' \<Longrightarrow> cr_applied r = []"
proof -
  from assms(1) obtain kvs where kvs: "fld (Some msg) ''data'' = Some (JObj kvs)" "first_some (reply_problems es kvs) = None"
    by (auto simp: validateManualApplyResultMessage_def split: option.splits json.splits)
  let ?data = "Some (JObj kvs)"
  have body: "fld (Some body) ''status'' = fld ?data ''status''" "fld (Some body) ''appliedEntryIds'' = fld ?data ''appliedEntryIds''"
    "fld (Some body) ''failed'' = fld ?data ''failed''"
    using assms(1) kvs by (auto simp: validateManualApplyResultMessage_def Let_def fld_fields)
  have "filter (\<lambda>i. i \<noteq> []) (map ae_id es) = map ae_id es" using assms(2) by (intro filter_True) (metis image_eqI list.set_map)
  then have ids: "event_entry_ids es = JStr ` ae_id ` set es" by (simp only: event_entry_ids_def set_map)
  then have some: "event_entry_ids es \<noteq> {}" using assms(3) by simp
  note ok = kvs(2)[unfolded first_some_None reply_problems_def Let_def]
  have status: "fld ?data ''status'' \<in> {Some (JStr ''done''), Some (JStr ''partial''), Some (JStr ''error'')}"
    and applied: "list_all (\<lambda>v. known_to (event_entry_ids es) (Some v)) (array_items (fld ?data ''appliedEntryIds''))"
    and failed: "list_all (\<lambda>item. known_to (event_entry_ids es) (fld (Some item) ''entryId'')) (array_items (fld ?data ''failed''))"
    and fin: "fld ?data ''status'' = Some (JStr ''done'') \<longrightarrow> array_items (fld ?data ''failed'') = []"
    and error: "fld ?data ''status'' = Some (JStr ''error'') \<longrightarrow> array_items (fld ?data ''appliedEntryIds'') = []"
    and whole: "first_some (map failed_problem (array_items (fld ?data ''failed''))) = None"
    using ok by simp_all
  have named: "failed_id item = fld (Some item) ''entryId''" if "item \<in> set (array_items (fld ?data ''failed''))" for item
  proof -
    have "failed_problem item = None" using that whole by (simp add: first_some_None)
    then have "full_string (fld (Some item) ''entryId'')" by (simp add: failed_problem_def first_some_None)
    then obtain i where "fld (Some item) ''entryId'' = Some (JStr i)" "i \<noteq> []" by (auto simp: full_string_def split: option.splits json.splits)
    then show ?thesis by (simp add: failed_id_def first_of_def)
  qed
  have mine: "failed_id item \<in> Some ` JStr ` ae_id ` set es" if "item \<in> set (array_items (fld ?data ''failed''))" for item
    using that failed named some by (simp add: list_all_iff known_to_def ids)
  show "failed_ids r \<subseteq> JStr ` ae_id ` set es"
  proof
    fix y assume "y \<in> failed_ids r"
    then obtain item where "item \<in> set (array_items (fld ?data ''failed''))" "failed_id item = Some y"
      by (auto simp: r_def failed_ids_def normalizeApplyChunkResult_def body List.map_filter_def)
    with mine[of item] show "y \<in> JStr ` ae_id ` set es" by (metis image_iff option.inject)
  qed
  show "set (cr_applied r) \<subseteq> ae_id ` set es"
    using applied some by (force simp: r_def normalizeApplyChunkResult_def strings_of_def body List.map_filter_def list_all_iff known_to_def ids split: json.splits)
  show "cr_status r = ''done'' \<Longrightarrow> failed_ids r = {}"
    using status fin by (auto simp: r_def failed_ids_def normalizeApplyChunkResult_def body List.map_filter_def split: if_splits)
  show "cr_status r = ''error'' \<Longrightarrow> cr_applied r = []"
    using error by (auto simp: r_def normalizeApplyChunkResult_def strings_of_def body List.map_filter_def split: if_splits)
qed

text \<open>
  With answers that passed the check, an entry is applied exactly when it has operations and every chunk
  with some of them was sent and confirmed it: no answer speaks of the entries of another chunk.
\<close>

lemma checked_chunks_exact:
  assumes "1 \<le> maxOps" "maxOps < countManualApplyOps (ab_entries batch)" "distinct (map ae_id (ab_entries batch))" "[] \<notin> ae_id ` set (ab_entries batch)"
  defines "chunks \<equiv> splitManualApplyBatch batch maxOps"
  assumes checked: "\<And>k v. k < length chunks \<Longrightarrow> answers k = Inr v \<Longrightarrow>
      \<exists>msg body. v = Some body \<and> validateManualApplyResultMessage msg (ac_entries (chunks ! k)) = Inr body"
    and e: "e \<in> set (ab_entries batch)"
  shows "ae_id e \<in> set (ao_applied (conclude (ab_entries batch) (gather answers chunks))) \<longleftrightarrow>
    ae_ops e \<noteq> [] \<and> (\<forall>k<length chunks. ae_id e \<in> ae_id ` set (ac_entries (chunks ! k)) \<longrightarrow> confirmed answers k (ae_id e))"
proof -
  have chunk: "[] \<notin> ae_id ` set (ac_entries c)" "ac_entries c \<noteq> []" "set (ac_entryIds c) = ae_id ` set (ac_entries c)" if c: "c \<in> set chunks" for c
  proof -
    note parts = chunk_entries[OF assms(1,2) c[unfolded chunks_def]]
    show ids: "[] \<notin> ae_id ` set (ac_entries c)" and "ac_entries c \<noteq> []" using parts(1,2) assms(4) by blast+
    show "set (ac_entryIds c) = ae_id ` set (ac_entries c)" using parts(3) ids by simp
  qed
  have named: "named_failed answers k \<subseteq> JStr ` ae_id ` set (ac_entries (chunks ! k))" if k: "k < length chunks" for k
  proof (cases "answers k")
    case (Inr v)
    from checked[OF k Inr] obtain msg body where v: "v = Some body" "validateManualApplyResultMessage msg (ac_entries (chunks ! k)) = Inr body" by blast
    show ?thesis using validated(1)[OF v(2) chunk(1,2)[OF nth_mem[OF k]]] by (auto simp: named_failed_def answer_of_def Inr v(1))
  qed (simp add: named_failed_def answer_of_def)
  have denied: "confirmed answers k i \<Longrightarrow> JStr i \<notin> named_failed answers k" for k i
    by (auto simp: confirmed_def named_failed_def split: option.splits)
  have "ae_id e \<noteq> []" using assms(4) e by force
  then show ?thesis
    using outcome_applied[OF assms(1-3) e, of answers] named denied chunk(3)[OF nth_mem] by (fastforce simp: chunks_def)
qed

section \<open>Examples\<close>

definition page_disk :: "string \<Rightarrow> disk" where
  "page_disk txt = [[''p'', ''a.html''] \<mapsto> txt]"

definition dispatched :: applying where
  "dispatched = pushApplyEventAndWait example_env 0 ''e0'' (Some ''/'') hinted_batch (idle empty_queue (page_disk ''v0''))"

definition timed_out :: applying where
  "timed_out = hard_timeout 150000 ''e0'' dispatched"

definition stale_reply :: json where
  "stale_reply = JObj [(''id'', JStr ''e0''), (''data'', JObj [(''files'', JArr [JStr ''a.html''])])]"

lemma example_clean: "list_all clean_segment (de_cwd example_env)"
  by (simp add: example_env_def clean_segment_def)

lemma dispatched_run: "apply_run example_env [(''e0'', hinted_batch, page_disk ''v0'')] dispatched"
  using apply_run.dispatch[OF apply_run.start[of example_env empty_queue "page_disk ''v0''"], of "''e0''" hinted_batch 0 "Some ''/''"]
  by (simp add: dispatched_def) (simp add: idle_def)

lemma timed_out_run: "apply_run example_env [(''e0'', hinted_batch, page_disk ''v0'')] (timed_out\<lparr>ap_disk := d, ap_queue := q\<rparr>)"
  unfolding timed_out_def by (intro apply_run.others apply_run.timeout dispatched_run)

lemma timed_out_ids: "map fst (ap_timedOut timed_out) = [''e0'']"
  by code_simp

text \<open>The agent edits, and answers after the timeout: the edit is taken back.\<close>

theorem apply_run_sound_witness:
  "\<exists>batch d0 s'. (''e0'', batch, d0) \<in> set [(''e0'', hinted_batch, page_disk ''v0'')] \<and>
     apply_reply_route example_env 0 stale_reply (timed_out\<lparr>ap_disk := page_disk ''v1'', ap_queue := empty_queue\<rparr>) = Some (Http 409 ''stale_manual_edit_apply_reply'', s') \<and>
     ap_disk s' = restored example_env (covered_paths example_env batch d0) d0 (page_disk ''v1'')"
proof -
  let ?s = "timed_out\<lparr>ap_disk := page_disk ''v1'', ap_queue := empty_queue\<rparr>"
  have "''e0'' \<in> fst ` set (ap_timedOut ?s)" using arg_cong[OF timed_out_ids, of set] by simp
  moreover have id: "fld (Some stale_reply) ''id'' = Some (JStr ''e0'')" and "spread_files (fld (fld (Some stale_reply) ''data'') ''files'') \<noteq> None" by code_simp+
  ultimately have late: "''e0'' \<in> fst ` set (ap_timedOut ?s) \<and> spread_files (fld (fld (Some stale_reply) ''data'') ''files'') \<noteq> None" by blast
  note sound = apply_run_sound[OF example_clean timed_out_run[where d = "page_disk ''v1''" and q = empty_queue], of 0,
      THEN conjunct2, THEN conjunct2, THEN conjunct2, THEN conjunct2, THEN spec, THEN spec, THEN mp, OF id, THEN conjunct2, THEN mp, OF late]
  have "ap_disk ?s = page_disk ''v1''" by simp
  with sound show ?thesis by metis
qed

theorem discard_abandons_witness:
  "\<exists>s'. discard_route example_env 0 ''t'' (Some ''t'') (Some ''/'') \<lparr>es_applying = dispatched, es_tx = No_tx, es_buffer = hinted_buffer\<rparr> = (Http 200 [], s') \<and>
     map fst (ap_deferreds dispatched) = [''e0''] \<and> ap_settled (es_applying s') = [(''e0'', Inl ''manual_edit_discarded'')] \<and> readBuffer (es_buffer s') = []"
proof -
  let ?s = "\<lparr>es_applying = dispatched, es_tx = No_tx, es_buffer = hinted_buffer\<rparr>"
  have run: "apply_run example_env [(''e0'', hinted_batch, page_disk ''v0'')] (es_applying ?s)" using dispatched_run by simp
  from discard_abandons[OF example_clean run, of "''t''" 0 "Some ''/''"] obtain s' where "discard_route example_env 0 ''t'' (Some ''t'') (Some ''/'') ?s = (Http 200 [], s')" by blast
  moreover have "map fst (ap_deferreds dispatched) = [''e0'']" by code_simp
  moreover have "ap_settled (es_applying (snd (discard_route example_env 0 ''t'' (Some ''t'') (Some ''/'') ?s))) = [(''e0'', Inl ''manual_edit_discarded'')]" by code_simp
  moreover have "readBuffer (es_buffer (snd (discard_route example_env 0 ''t'' (Some ''t'') (Some ''/'') ?s))) = []" by code_simp
  ultimately show ?thesis by auto
qed

text \<open>
  A late reply puts back the files of its event even when a later event has been applied since: here the
  second event is dispatched after the timeout of the first, the agent edits and confirms it, and then
  the answer to the first takes the confirmed edit away.
\<close>

definition applied_reply :: json where
  "applied_reply = JObj [(''id'', JStr ''e1''), (''data'', JObj [(''status'', JStr ''done''), (''appliedEntryIds'', JArr [JStr ''e1'']),
     (''failed'', JArr []), (''files'', JArr [JStr ''a.html'']), (''notes'', JArr [])])]"

definition second_applied :: applying where
  "second_applied = snd (the (apply_reply_route example_env 1 applied_reply
     ((pushApplyEventAndWait example_env 0 ''e1'' (Some ''/'') hinted_batch timed_out)\<lparr>ap_disk := page_disk ''v2''\<rparr>)))"

lemma late_reply_takes_back_later_apply:
  "map fst (ap_settled second_applied) = [''e0'', ''e1'']" "ap_disk second_applied [''p'', ''a.html''] = Some ''v2''"
  "map_option (\<lambda>(h, s). (h, ap_disk s [''p'', ''a.html''])) (apply_reply_route example_env 2 stale_reply second_applied) =
     Some (Http 409 ''stale_manual_edit_apply_reply'', Some ''v0'')"
  by code_simp+

text \<open>A late reply is not checked: files that are no list end the process.\<close>

lemma late_reply_crashes:
  "map_option fst (apply_reply_route example_env 2 (JObj [(''id'', JStr ''e0''), (''data'', JObj [(''files'', JBool True)])]) timed_out) = Some Crashed"
  by code_simp

end
