(* ===== verification/Spec2Isabelle.thy ===== *)
theory Spec2Isabelle
  imports Protocol_Boundary Wisphive_Lifecycle Liveness_Board Burn_Ledger Commit_Message
    Web_Properties Passkey_Properties Passkey_Hook Modal_Focus Widgets Banners Board_View Sudo_Modal Login_Form
    App_Properties Inbox_View Config_View Terminals_Order Terminal_Pane Detail_View Content_Keys
    Spawn_Modal Side_Views Apply_Control
begin

text \<open>
  Verification of the Wisphive web client and of the live mode of its design skill.

  Wisphive supervises coding agents: a daemon collects the decisions that need a human, and
  the web client (\<open>src/crates/wisphive_web/frontend/src\<close>, TypeScript and React) shows them and
  sends the answers back over a WebSocket. This library models the client's own logic. All
  file names below are relative to that directory, except those of the design skill, which are
  relative to \<open>src/.github/skills/impeccable/scripts\<close>.

  \<^bold>\<open>Parts and how they interact.\<close> A frame from the daemon is read by the trust boundary
  (\<open>types/protocol.ts\<close>), which turns unknown JSON into one of 41 message types or refuses it. The
  connection hook (\<open>hooks/useWisphive.ts\<close>) owns the socket, folds messages into the state the
  views render, sends commands, and replays approvals that the daemon gated behind a
  re-authentication. It runs only inside the authenticated shell, which \<open>App.tsx\<close> mounts while
  the login hook (\<open>hooks/useAuth.ts\<close>) is in phase \<open>authed\<close>. The token slot (\<open>api.ts\<close>) is shared:
  login, logout, the passkey ceremonies (\<open>hooks/usePasskey.ts\<close>) and any refused request change
  it, and both hooks listen to the change. The profile probe (\<open>hooks/useAuthProfile.ts\<close>) tells
  the login hook whether to offer a passkey; the form \<open>components/Login.tsx\<close> drives
  login and passkeys, and the dialog \<open>components/SudoModal.tsx\<close> re-proves the
  password and triggers the replay. Inside the shell, \<open>App.tsx\<close> holds the navigation state and
  hands its views the commands of the hook; keys (\<open>hooks/useKeyboard.ts\<close>) and clicks move it. The
  configuration page talks to the web server over HTTP and edits the policy that the agent hook
  enforces, both written in Rust. The derived views (\<open>components/liveness.ts\<close>,
  \<open>burnMeter.ts\<close>, \<open>commitMessage.ts\<close>, \<open>queueUtils.ts\<close>, \<open>toolInput.ts\<close>) are pure functions of the state.

  The repository also carries a design skill. In its live mode a server (\<open>live-server.mjs\<close>) stands between
  the page under design and a polling agent: the page posts requests (\<open>live/event-validation.mjs\<close>), the
  server writes them to the journal of their session (\<open>live/session-store.mjs\<close>) and queues them, the agent
  polls, is given a request under a lease and replies, and the reply goes to the journal and the page. Text that is
  edited on the page is staged (\<open>live/manual-edits-buffer.mjs\<close>) and applied later through the same agent, in chunks
  (\<open>live/manual-apply.mjs\<close>), with a way back for the files when that fails.

  \<^bold>\<open>Theories.\<close>
  \<^item> \<open>Wisp_Prelude\<close>: shared list, option and map lemmas, the result type with its bind, insertion
    ordered maps (\<open>jmap\<close>) and the named collections. \<open>Js_Runtime\<close>: what the code uses of
    JavaScript: JSON values, numbers as rationals or infinities, string functions, stable sort,
    \<open>Date\<close>. \<open>Throttle\<close>: the contract of a throttled form, as a locale.
  \<^item> \<open>Protocol_Types\<close>, \<open>Protocol_Readers\<close>, \<open>Protocol_Parse\<close>, \<open>Protocol_Laws\<close>, \<open>Protocol_Messages\<close>,
    \<open>Protocol_Boundary\<close>: \<open>types/protocol.ts\<close>. A reader is a function from a value and a path to an
    error or a result; its laws (sound, complete on the wire shape, insensitive to unknown keys)
    are a locale interpreted on every reader and record parser.
  \<^item> \<open>Wisphive_State\<close> (the state and its message reducer), \<open>Base64\<close> (both branches of the codecs),
    \<open>Wisphive_Hook\<close> (refs, commands, queued state updaters and when React runs them),
    \<open>Wisphive_Connection\<close> (sockets, timer, probe, events, runs): \<open>hooks/useWisphive.ts\<close>.
    \<open>Wisphive_Safety\<close>, \<open>Wisphive_Properties\<close> and \<open>Wisphive_Lifecycle\<close> prove its properties; the
    locale \<open>step_law\<close> lifts a preserved relation from one updater to every event.
  \<^item> \<open>Web_Api\<close> (\<open>env.ts\<close>, storage, responses, \<open>Number\<close>), \<open>Auth_Profile\<close> (the probe), \<open>Web_Session\<close>
    (\<open>api.ts\<close> and \<open>useAuth.ts\<close> on the page, with the shell), \<open>Web_Safety\<close> and \<open>Web_Properties\<close>.
  \<^item> \<open>Passkey\<close>, \<open>Passkey_Properties\<close> (whole ceremonies) and \<open>Passkey_Hook\<close> (split at their awaits, for the
    headers and for the body, with the set of abort controllers): \<open>hooks/usePasskey.ts\<close>. \<open>Sudo_Modal\<close>: the dialog.
    \<open>Login_Form\<close>: \<open>components/Login.tsx\<close>.
  \<^item> \<open>Tool_Input\<close>, \<open>Queue_Utils\<close>, \<open>Liveness\<close>, \<open>Liveness_Board\<close>, \<open>Burn_Meter\<close>, \<open>Burn_Ledger\<close>,
    \<open>Commit_Message\<close>: the derived views, each with the definitions of its source file in order.
  \<^item> \<open>App_Shell\<close>, \<open>App_Properties\<close>: navigation, keyboard and gestures of the authenticated shell
    (\<open>App.tsx\<close>, \<open>hooks/useKeyboard.ts\<close>, \<open>components/Modal.tsx\<close>), a transition system over the hook's.
  \<^item> \<open>Auto_Approve\<close> (the policy, from \<open>src/crates/wisphive_protocol\<close>, \<open>wisphive_hook\<close> and
    \<open>wisphive_web\<close>) and \<open>Config_View\<close> (\<open>components/Config.tsx\<close>), the page that edits it.
  \<^item> \<open>Inbox_View\<close> (\<open>Inbox.tsx\<close>, \<open>AutoAnswerFeed.tsx\<close>); \<open>Terminals_View\<close>, \<open>Terminals_Properties\<close> and
    \<open>Terminals_Order\<close> (\<open>Terminals.tsx\<close>, \<open>TerminalQueueDock.tsx\<close>); \<open>Terminal_Pane\<close> (\<open>TerminalView.tsx\<close>).
  \<^item> \<open>Markdown\<close> (\<open>MarkdownText.tsx\<close>), \<open>Detail_View\<close> (\<open>ToolContent.tsx\<close>, \<open>DetailView.tsx\<close>) and
    \<open>Content_Keys\<close> (the keys of its rows); \<open>Spawn_Modal\<close> (\<open>SpawnModal.tsx\<close>); \<open>Project_History\<close>
    (\<open>Projects.tsx\<close>, \<open>History.tsx\<close>, \<open>Sessions.tsx\<close>) and \<open>Side_Views\<close> (\<open>Agents.tsx\<close>, \<open>Worktrees.tsx\<close>).
  \<^item> \<open>Board_View\<close> (\<open>Board.tsx\<close>, \<open>Burn.tsx\<close>: the locale \<open>refreshed_view\<close> for their clock and poll), \<open>Banners\<close>
    (the three banners), \<open>Modal_Focus\<close> (the focus and the Tab trap of \<open>Modal.tsx\<close>) and \<open>Widgets\<close>
    (\<open>a11y.ts\<close>, the rows of \<open>Queue.tsx\<close>, \<open>CopyButton.tsx\<close>, \<open>hooks/useViewport.ts\<close>).
  \<^item> \<open>Live_Events\<close> (\<open>live/event-validation.mjs\<close>), \<open>Live_Store\<close> (\<open>live/session-store.mjs\<close>), \<open>Live_Queue\<close> (the
    queue, leases, timers and polls of \<open>live-server.mjs\<close>, with what the applies of \<open>live/manual-apply.mjs\<close> do to it; the locale \<open>queue_invariant\<close> lifts what the primitive
    changes keep to every run) and \<open>Live_Server\<close> (its routes, over both).
  \<^item> \<open>Live_Edits\<close> (\<open>live/manual-edits-buffer.mjs\<close>, \<open>live-discard-manual-edits.mjs\<close>, \<open>live/completion.mjs\<close>), and
    \<open>live/manual-apply.mjs\<close> in three: \<open>Apply_Chunks\<close> (the chunks of a batch and what their answers give),
    \<open>Apply_Files\<close> (snapshots, the transaction file and the way back) and \<open>Apply_Control\<close> (the events that wait,
    time out or are discarded, the check of a reply, with the discard route of \<open>live/manual-edit-routes.mjs\<close>).

  \<^bold>\<open>How code becomes definitions.\<close> Interfaces are records, unions datatypes, thrown errors the left
  side of a sum, \<open>undefined\<close> the value \<open>None\<close>. An asynchronous function is split at its \<open>await\<close>s:
  the call issues a request, the settled request runs the rest, and a run interleaves these
  pieces freely with everything else. A call of a React state setter queues an updater; rendering
  is a separate event that applies the queue, once or, as StrictMode does, twice. The socket,
  the clock, the browser's notification and credential APIs and the answers of the server are
  arguments of the events or operations that meet them; no property assumes anything about
  them beyond what its statement says. \<open>JSON.parse\<close> is an argument of \<open>parseServerMessage\<close>
  (\<open>None\<close> when it throws), and the text of a non-integral number is an argument where the code
  prints one.

  \<^bold>\<open>What is proved.\<close> Of the trust boundary: every accepted message is well formed in every
  nested field, every well-formed message is read back exactly from its wire shape, and the
  timestamp and integer readers accept exactly their specification. Of the connection hook, over
  all runs: the state invariant; every approval on the wire answers a click on that request with
  the options of that click, and at most twice per click; a retry replays exactly the gated
  requests that are still justified, idempotently under StrictMode, and a dismissed one never
  comes back; reconnects, authentication closes and logout behave as intended; terminal output
  is routed exactly; errors surface. Of the page: the mounted hook refines its own transition
  system, each approval of it answering a click among the page's own events; a refused session
  stays out until the next sign-in; the gate agrees with the token except after the races that are
  named, each of which does break it; the profile probe is single-flight and
  caches only successes. Of the ceremonies and the dialog: a token is stored exactly on success,
  after a prompt that its finish answers, binary fields reach the server intact, a removed component's
  requests have no further effect unless only the body of the answer was still to be read,
  only a 200 replays, a throttle lifts on time; the
  form sends a password only when it may and keeps in its fields what is still of use. Of the
  derived views: states, order, totals and flags are what the events determine. Of the shell:
  every approval on the wire comes from a gesture on that request, keys are inert while typing
  and act on the selection. Of the configuration page: it shows what the hook enforces, except
  for a tool in both override lists and for levels that only the hook can read, and a save keeps every other key. Of the terminals: one live
  attachment at a time, a sidebar that loses no session, a reorder that lands where computed, a
  deep link that settles, a touch scroll without drift. Of the small pieces: a stall
  shows within five seconds and the lateness of the timer, the polls are bounded both ways, the Tab
  trap is a cycle, one gesture is one action. Of the renderers: every link is one of
  three protocols, no character is lost, every button sends what it says. Of the live server: a
  session read from its journal is the one the server had, an accepted request is in the queue of every
  later server, a leased request is given to nobody else until it expires, is answered, given up or
  discarded, a parked poll beside a free request has a timer unless an apply just timed out, the browsers
  are told of every change of the agent's presence but that of a discard, and
  without the token nothing changes. Of staged edits: the buffer is a map from page and element to the last
  text, an entry is reported as applied exactly when every chunk of it was confirmed, an apply is settled
  once, and what is given up, discarded or rolled back leaves the files of the batch as they were and every
  file outside the project alone. Where the code does
  not do what it means to, a theorem exhibits the case.

  \<^bold>\<open>Bounds.\<close> No definition has fuel: every loop of the code is a fold or recursion over data and
  total here. Numbers are exact rationals, so rounding of doubles is not modelled beyond overflow
  to infinity and the safe-integer bounds the readers enforce; strings are
  sequences of UTF-16 units below 256 (\<open>Js_Runtime\<close>), so text outside Latin-1 is not.

  \<^bold>\<open>Not modelled.\<close> Layout, styling and markup of the views, and the fixed texts of their headers.
  Apart from the auto-approve policy, the daemon and bridge are Rust and are seen only through the
  wire. Of the design skill, only the live mode's messages, store, server and staged edits: the scripts
  that rewrite sources, the browser overlay and the detector work on source text, the DOM and computed styles.
\<close>

section \<open>Refusals and the session\<close>


definition sudo_reply :: response where
  "sudo_reply = \<lparr>rs_status = 403, rs_contentType = Some ''application/json'', rs_retryAfter = None, rs_text = Some ''{}'',
     rs_json = Some (JObj [(''error'', JStr ''sudo_required_for_passkey_register'')])\<rparr>"


end
